(* ===== verification/Prelude.thy ===== *)
theory Prelude
  imports Main "HOL-Library.AList" "HOL-Library.Multiset"
begin

text \<open>
  The vocabulary every component theory shares: Go maps, Go times and durations,
  signed 64-bit integers, and the generic lemmas about folds, filters and association
  lists that the component proofs rest on.

  \<^item> A Go map is an association list with distinct keys: the list order is the order in
    which \<open>range\<close> visits the map, so a statement about every such list is a statement
    about every iteration order Go may choose.
  \<^item> A \<open>time.Time\<close> is an \<open>int\<close> of nanoseconds, and the zero \<open>Time{}\<close> is \<open>0\<close>.  A
    \<open>time.Duration\<close> is an \<open>int64\<close> of nanoseconds; \<open>Time.Sub\<close> saturates at its bounds.
  \<^item> An \<open>int64\<close> is an \<open>int\<close> kept in range by \<open>i64\<close>, which is two's complement wrap-around.
\<close>

section \<open>Collections of rewrite rules\<close>

named_theorems gomap_simps \<open>lookups and domains of Go maps after an update\<close>
named_theorems i64_simps \<open>signed 64-bit arithmetic inside its range\<close>

section \<open>Signed 64-bit integers\<close>

definition i64 :: "int \<Rightarrow> int" where
  "i64 x = signed_take_bit 63 x"

definition minInt64 :: int where
  "minInt64 = - (2 ^ 63)"

definition maxInt64 :: int where
  "maxInt64 = 2 ^ 63 - 1"

definition in_i64 :: "int \<Rightarrow> bool" where
  "in_i64 x \<longleftrightarrow> minInt64 \<le> x \<and> x \<le> maxInt64"

lemma i64_id [i64_simps]: "in_i64 x \<Longrightarrow> i64 x = x"
  by (simp add: i64_def in_i64_def minInt64_def maxInt64_def signed_take_bit_int_eq_self_iff)

lemma i64_range: "in_i64 (i64 x)"
  using signed_take_bit_int_greater_eq_minus_exp [of 63 x] signed_take_bit_int_less_exp [of 63 x]
  by (simp add: i64_def in_i64_def minInt64_def maxInt64_def)

lemma i64_idem [simp]: "i64 (i64 x) = i64 x"
  by (rule i64_id) (rule i64_range)

lemma in_i64_diff_nonneg: "0 \<le> d \<Longrightarrow> d \<le> x \<Longrightarrow> in_i64 x \<Longrightarrow> in_i64 (x - d)"
  by (simp add: in_i64_def minInt64_def)

lemma in_i64_between: "in_i64 a \<Longrightarrow> in_i64 b \<Longrightarrow> a \<le> x \<Longrightarrow> x \<le> b \<Longrightarrow> in_i64 x"
  by (simp add: in_i64_def)

lemma in_i64_0 [simp]: "in_i64 0"
  by (simp add: in_i64_def minInt64_def maxInt64_def)

section \<open>Times and durations\<close>

type_synonym time = int
type_synonym duration = int

definition nanosecond :: duration where "nanosecond = 1"
definition second :: duration where "second = 1000000000"
definition minute :: duration where "minute = 60 * second"
definition hour :: duration where "hour = 60 * minute"

lemmas duration_defs = nanosecond_def second_def minute_def hour_def

text \<open>\<open>t.Add(d)\<close>, \<open>t.Before(u)\<close>, \<open>t.After(u)\<close> and the saturating \<open>t.Sub(u)\<close>.\<close>

definition time_add :: "time \<Rightarrow> duration \<Rightarrow> time" where
  "time_add t d = t + d"

definition time_before :: "time \<Rightarrow> time \<Rightarrow> bool" where
  "time_before t u \<longleftrightarrow> t < u"

definition time_after :: "time \<Rightarrow> time \<Rightarrow> bool" where
  "time_after t u \<longleftrightarrow> u < t"

definition time_sub :: "time \<Rightarrow> time \<Rightarrow> duration" where
  "time_sub t u = max minInt64 (min maxInt64 (t - u))"

lemmas time_defs = time_add_def time_before_def time_after_def

lemma time_sub_less_iff:
  "minInt64 < d \<Longrightarrow> d \<le> maxInt64 \<Longrightarrow> time_sub t u < d \<longleftrightarrow> t - u < d"
  by (auto simp: time_sub_def)

section \<open>Go maps\<close>

type_synonym ('k, 'v) gomap = "('k \<times> 'v) list"

definition gomap_ok :: "('k, 'v) gomap \<Rightarrow> bool" where
  "gomap_ok m \<longleftrightarrow> distinct (map fst m)"

text \<open>\<open>v, found := m[k]\<close>, \<open>m[k]\<close> with the zero value, \<open>m[k] = v\<close>, \<open>delete(m, k)\<close>, \<open>len(m)\<close>.\<close>

definition mget :: "('k, 'v) gomap \<Rightarrow> 'k \<Rightarrow> 'v option" where
  "mget m k = map_of m k"

definition mget0 :: "'v \<Rightarrow> ('k, 'v) gomap \<Rightarrow> 'k \<Rightarrow> 'v" where
  "mget0 z m k = (case mget m k of None \<Rightarrow> z | Some v \<Rightarrow> v)"

definition mput :: "'k \<Rightarrow> 'v \<Rightarrow> ('k, 'v) gomap \<Rightarrow> ('k, 'v) gomap" where
  "mput k v m = AList.update k v m"

definition mdel :: "'k \<Rightarrow> ('k, 'v) gomap \<Rightarrow> ('k, 'v) gomap" where
  "mdel k m = AList.delete k m"

definition mkeys :: "('k, 'v) gomap \<Rightarrow> 'k list" where
  "mkeys m = map fst m"

definition mhas :: "('k, 'v) gomap \<Rightarrow> 'k \<Rightarrow> bool" where
  "mhas m k \<longleftrightarrow> mget m k \<noteq> None"

lemma mget_Nil [simp]: "mget [] k = None"
  by (simp add: mget_def)

lemma mget_Cons [simp]: "mget ((k', v) # m) k = (if k = k' then Some v else mget m k)"
  by (simp add: mget_def)

lemma gomap_ok_Nil [simp]: "gomap_ok []"
  by (simp add: gomap_ok_def)

lemma gomap_ok_Cons: "gomap_ok ((k, v) # m) \<longleftrightarrow> mget m k = None \<and> gomap_ok m"
  by (auto simp: gomap_ok_def mget_def map_of_eq_None_iff)

lemma mget_mput [simp]: "mget (mput k v m) k' = (if k' = k then Some v else mget m k')"
  by (simp add: mget_def mput_def update_conv')

lemma mget_mdel [simp]: "mget (mdel k m) k' = (if k' = k then None else mget m k')"
  by (simp add: mget_def mdel_def delete_conv')

lemma gomap_ok_mput [simp]: "gomap_ok m \<Longrightarrow> gomap_ok (mput k v m)"
  by (simp add: gomap_ok_def mput_def distinct_update)

lemma gomap_ok_mdel [simp]: "gomap_ok m \<Longrightarrow> gomap_ok (mdel k m)"
  by (simp add: gomap_ok_def mdel_def distinct_delete)

lemma mget0_mput [simp]: "mget0 z (mput k v m) k' = (if k' = k then v else mget0 z m k')"
  by (simp add: mget0_def)

lemma mget0_None: "mget m k = None \<Longrightarrow> mget0 z m k = z"
  by (simp add: mget0_def)

lemma mget0_Some: "mget m k = Some v \<Longrightarrow> mget0 z m k = v"
  by (simp add: mget0_def)

lemma mget_SomeD: "mget m k = Some v \<Longrightarrow> (k, v) \<in> set m"
  by (simp add: mget_def map_of_SomeD)

lemma mget_eq_Some_iff: "gomap_ok m \<Longrightarrow> mget m k = Some v \<longleftrightarrow> (k, v) \<in> set m"
  by (simp add: gomap_ok_def mget_def)

lemma mput_entries: "e \<in> set (mput k v m) \<Longrightarrow> e = (k, v) \<or> e \<in> set m"
  by (induction m) (auto simp: mput_def split: if_splits)

lemma mget_None_iff: "mget m k = None \<longleftrightarrow> k \<notin> fst ` set m"
  by (simp add: mget_def map_of_eq_None_iff)

lemma mget_filter:
  "gomap_ok m \<Longrightarrow> mget (filter P m) k =
     (case mget m k of None \<Rightarrow> None | Some v \<Rightarrow> if P (k, v) then Some v else None)"
proof (induction m)
  case (Cons kv m)
  then show ?case
    by (cases kv) (auto simp: gomap_ok_Cons split: option.splits)
qed simp

lemma gomap_ok_filter: "gomap_ok m \<Longrightarrow> gomap_ok (filter P m)"
  by (simp add: gomap_ok_def distinct_map_filter)

lemma mget_map_val: "mget (map (\<lambda>(k, v). (k, f k v)) m) k = map_option (f k) (mget m k)"
  by (induction m) auto

lemma gomap_ok_map_val: "gomap_ok m \<Longrightarrow> gomap_ok (map (\<lambda>(k, v). (k, f k v)) m)"
proof -
  have "map fst (map (\<lambda>(k, v). (k, f k v)) m) = map fst m"
    by (induction m) auto
  then show "gomap_ok m \<Longrightarrow> ?thesis"
    by (simp only: gomap_ok_def)
qed

text \<open>
  The interface of a Go map: the laws the components use.  The association-list
  operations above are the model's implementation of it.
\<close>

locale go_map =
  fixes lookup :: "'m \<Rightarrow> 'k \<Rightarrow> 'v option"
    and store :: "'k \<Rightarrow> 'v \<Rightarrow> 'm \<Rightarrow> 'm"
    and remove :: "'k \<Rightarrow> 'm \<Rightarrow> 'm"
    and invar :: "'m \<Rightarrow> bool"
  assumes lookup_store: "lookup (store k v m) k' = (if k' = k then Some v else lookup m k')"
    and lookup_remove: "lookup (remove k m) k' = (if k' = k then None else lookup m k')"
    and invar_store: "invar m \<Longrightarrow> invar (store k v m)"
    and invar_remove: "invar m \<Longrightarrow> invar (remove k m)"
begin

text \<open>A loop that stores one entry per element: \<open>for _, x := range xs { m[f(x)] = g(x) }\<close>.\<close>

lemma lookup_store_loop:
  "lookup (foldl (\<lambda>m x. store (f x) (g x) m) m xs) k =
     (case map_of (rev (map (\<lambda>x. (f x, g x)) xs)) k of None \<Rightarrow> lookup m k | Some v \<Rightarrow> Some v)"
proof (induction xs rule: rev_induct)
  case (snoc x xs)
  then show ?case by (simp add: lookup_store)
qed simp

lemma invar_store_loop: "invar m \<Longrightarrow> invar (foldl (\<lambda>m x. store (f x) (g x) m) m xs)"
  by (induction xs arbitrary: m) (simp_all add: invar_store)

text \<open>A loop that deletes a list of keys.\<close>

lemma lookup_remove_loop:
  "lookup (foldl (\<lambda>m k. remove k m) m ks) k' = (if k' \<in> set ks then None else lookup m k')"
  by (induction ks arbitrary: m) (auto simp: lookup_remove)

lemma invar_remove_loop: "invar m \<Longrightarrow> invar (foldl (\<lambda>m k. remove k m) m ks)"
  by (induction ks arbitrary: m) (simp_all add: invar_remove)

end

interpretation am: go_map mget mput mdel gomap_ok
  by unfold_locales auto

text \<open>The loop \<open>for k, v := range m { if P(k, v) { delete(m, k) } }\<close>.\<close>

definition mdel_where :: "('k \<Rightarrow> 'v \<Rightarrow> bool) \<Rightarrow> ('k, 'v) gomap \<Rightarrow> ('k, 'v) gomap" where
  "mdel_where P m = foldl (\<lambda>acc (k, v). if P k v then mdel k acc else acc) m m"

lemma mget_del_loop:
  "mget (foldl (\<lambda>acc (k, v). if P k v then mdel k acc else acc) acc xs) k =
     (if \<exists>v. (k, v) \<in> set xs \<and> P k v then None else mget acc k)"
  by (induction xs arbitrary: acc) auto

lemma gomap_ok_del_loop:
  "gomap_ok acc \<Longrightarrow> gomap_ok (foldl (\<lambda>acc (k, v). if P k v then mdel k acc else acc) acc xs)"
  by (induction xs arbitrary: acc) auto

lemma mget_mdel_where:
  assumes "gomap_ok m"
  shows "mget (mdel_where P m) k =
     (case mget m k of None \<Rightarrow> None | Some v \<Rightarrow> if P k v then None else Some v)"
proof (cases "mget m k")
  case None
  then show ?thesis by (simp add: mdel_where_def mget_del_loop)
next
  case (Some v)
  with assms have "(\<exists>v. (k, v) \<in> set m \<and> P k v) \<longleftrightarrow> P k v"
    by (auto simp: mget_eq_Some_iff [symmetric])
  with Some show ?thesis by (simp add: mdel_where_def mget_del_loop)
qed

lemma gomap_ok_mdel_where [simp]: "gomap_ok m \<Longrightarrow> gomap_ok (mdel_where P m)"
  by (simp add: mdel_where_def gomap_ok_del_loop)

section \<open>Swapping two elements of a slice\<close>

definition swap :: "'a list \<Rightarrow> nat \<Rightarrow> nat \<Rightarrow> 'a list" where
  "swap xs i j = xs[i := xs ! j, j := xs ! i]"

lemma length_swap [simp]: "length (swap xs i j) = length xs"
  by (simp add: swap_def)

lemma mset_swap_list: "i < length xs \<Longrightarrow> j < length xs \<Longrightarrow> mset (swap xs i j) = mset xs"
  using mset_swap [of j xs i] by (simp add: swap_def)

lemma nth_swap:
  "i < length xs \<Longrightarrow> j < length xs \<Longrightarrow> k < length xs \<Longrightarrow>
     swap xs i j ! k = (if k = j then xs ! i else if k = i then xs ! j else xs ! k)"
  by (simp add: swap_def nth_list_update)

section \<open>Sums and counts over lists\<close>

lemma sum_list_map_add_int:
  "sum_list (map (\<lambda>x. f x + g x) xs) = sum_list (map f xs) + sum_list (map (g :: _ \<Rightarrow> int) xs)"
  by (induction xs) simp_all

lemma foldl_add_int: "foldl (\<lambda>s x. s + f x) (a :: int) xs = a + sum_list (map f xs)"
  by (induction xs arbitrary: a) simp_all

lemma length_filter_le_int: "int (length (filter P xs)) \<le> int (length xs)"
  by simp

section \<open>Loops with an early return\<close>

text \<open>
  \<open>for _, x := range xs { ... if err != nil { return err } }\<close>: the body gives the next state, an error
  that ends the function, or a panic (\<open>None\<close>).
\<close>

fun floop :: "('s \<Rightarrow> 'a \<Rightarrow> ('e + 's) option) \<Rightarrow> 's \<Rightarrow> 'a list \<Rightarrow> ('e + 's) option" where
  "floop step s [] = Some (Inr s)"
| "floop step s (x # xs) =
     (case step s x of
        None \<Rightarrow> None
      | Some (Inl err) \<Rightarrow> Some (Inl err)
      | Some (Inr s') \<Rightarrow> floop step s' xs)"

lemma floop_inv:
  assumes "floop step s xs = Some (Inr s')" "P s"
    and "\<And>s x s'. x \<in> set xs \<Longrightarrow> P s \<Longrightarrow> step s x = Some (Inr s') \<Longrightarrow> P s'"
  shows "P s'"
  using assms
proof (induction xs arbitrary: s)
  case (Cons x xs)
  from Cons.prems(1) obtain s1 where s1: "step s x = Some (Inr s1)" "floop step s1 xs = Some (Inr s')"
    by (auto split: option.splits sum.splits)
  have "P s1" using Cons.prems(2) s1(1) by (rule Cons.prems(3) [rotated]) simp
  show ?case by (rule Cons.IH [OF s1(2) \<open>P s1\<close>]) (rule Cons.prems(3), simp_all)
qed simp

lemma floop_append:
  "floop step s (xs @ ys) =
     (case floop step s xs of
        None \<Rightarrow> None | Some (Inl err) \<Rightarrow> Some (Inl err) | Some (Inr s') \<Rightarrow> floop step s' ys)"
  by (induction xs arbitrary: s) (auto split: option.split sum.split)

lemma floop_snocE:
  assumes "floop step s (xs @ [x]) = Some (Inr s')"
  obtains s1 where "floop step s xs = Some (Inr s1)" "step s1 x = Some (Inr s')"
  using assms by (auto simp: floop_append split: option.splits sum.splits)

end
