(* ===== verification/Backoff.thy ===== *)
theory Backoff
  imports Prelude
begin

text \<open>
  \<open>utils/backoff\<close> of the cluster autoscaler: the exponential back-off of node groups
  after a failed scale-up (\<open>exponential_backoff.go\<close>), and the contract of the \<open>Backoff\<close>
  interface (\<open>backoff.go\<close>) as a locale, interpreted on the exponential implementation.

  \<open>nodeGroupKey\<close> is a field of the Go struct and of the record; the key of
  \<open>NewIdBasedExponentialBackoff\<close> is the node group's id.  Here a node group is any type
  \<open>'g\<close>.  The doubling of a duration is the code's \<open>int64\<close> multiplication.
\<close>

record exponentialBackoffInfo =
  bi_duration :: duration
  bi_backoffUntil :: time
  bi_lastFailedExecution :: time

record 'g exponentialBackoff =
  eb_maxBackoffDuration :: duration
  eb_initialBackoffDuration :: duration
  eb_backoffResetTimeout :: duration
  eb_backoffInfo :: "(string, exponentialBackoffInfo) gomap"
  eb_nodeGroupKey :: "'g \<Rightarrow> string"

definition NewExponentialBackoff ::
  "duration \<Rightarrow> duration \<Rightarrow> duration \<Rightarrow> ('g \<Rightarrow> string) \<Rightarrow> 'g exponentialBackoff" where
  "NewExponentialBackoff initial mx reset key =
     \<lparr>eb_maxBackoffDuration = mx, eb_initialBackoffDuration = initial,
      eb_backoffResetTimeout = reset, eb_backoffInfo = [], eb_nodeGroupKey = key\<rparr>"

definition backoff_duration :: "'g exponentialBackoff \<Rightarrow> 'g \<Rightarrow> time \<Rightarrow> duration" where
  "backoff_duration b ng now =
     (case mget (eb_backoffInfo b) (eb_nodeGroupKey b ng) of
        None \<Rightarrow> eb_initialBackoffDuration b
      | Some info \<Rightarrow>
          if time_before (bi_backoffUntil info) now then
            (let d = i64 (2 * bi_duration info)
             in if d > eb_maxBackoffDuration b then eb_maxBackoffDuration b else d)
          else eb_initialBackoffDuration b)"

definition doBackoff :: "'g exponentialBackoff \<Rightarrow> 'g \<Rightarrow> time \<Rightarrow> 'g exponentialBackoff \<times> time" where
  "doBackoff b ng now =
     (let d = backoff_duration b ng now;
          til = time_add now d
      in (b\<lparr>eb_backoffInfo := mput (eb_nodeGroupKey b ng)
              \<lparr>bi_duration = d, bi_backoffUntil = til, bi_lastFailedExecution = now\<rparr>
              (eb_backoffInfo b)\<rparr>, til))"

definition IsBackedOff :: "'g exponentialBackoff \<Rightarrow> 'g \<Rightarrow> time \<Rightarrow> bool" where
  "IsBackedOff b ng now =
     (case mget (eb_backoffInfo b) (eb_nodeGroupKey b ng) of
        None \<Rightarrow> False
      | Some info \<Rightarrow> time_after (bi_backoffUntil info) now)"

definition RemoveBackoff :: "'g exponentialBackoff \<Rightarrow> 'g \<Rightarrow> 'g exponentialBackoff" where
  "RemoveBackoff b ng =
     b\<lparr>eb_backoffInfo := mdel (eb_nodeGroupKey b ng) (eb_backoffInfo b)\<rparr>"

definition RemoveStaleBackoffData :: "'g exponentialBackoff \<Rightarrow> time \<Rightarrow> 'g exponentialBackoff" where
  "RemoveStaleBackoffData b now =
     b\<lparr>eb_backoffInfo := mdel_where
         (\<lambda>_ info. time_before (time_add (bi_lastFailedExecution info) (eb_backoffResetTimeout b)) now)
         (eb_backoffInfo b)\<rparr>"

section \<open>The invariant of the back-off table\<close>

text \<open>
  A sensible configuration (\<open>initial \<le> max \<le> reset\<close>, and \<open>max\<close> small enough to be
  doubled in an \<open>int64\<close>) and, for each entry, a duration between the bounds that ends
  the back-off that long after the last failure.
\<close>

definition backoffInfo_ok :: "'g exponentialBackoff \<Rightarrow> exponentialBackoffInfo \<Rightarrow> bool" where
  "backoffInfo_ok b info \<longleftrightarrow>
     eb_initialBackoffDuration b \<le> bi_duration info \<and>
     bi_duration info \<le> eb_maxBackoffDuration b \<and>
     bi_backoffUntil info = bi_lastFailedExecution info + bi_duration info"

definition backoff_config_ok :: "'g exponentialBackoff \<Rightarrow> bool" where
  "backoff_config_ok b \<longleftrightarrow>
     0 < eb_initialBackoffDuration b \<and>
     eb_initialBackoffDuration b \<le> eb_maxBackoffDuration b \<and>
     eb_maxBackoffDuration b \<le> eb_backoffResetTimeout b \<and>
     2 * eb_maxBackoffDuration b \<le> maxInt64"

definition backoff_ok :: "'g exponentialBackoff \<Rightarrow> bool" where
  "backoff_ok b \<longleftrightarrow> backoff_config_ok b \<and> gomap_ok (eb_backoffInfo b) \<and>
     (\<forall>k info. mget (eb_backoffInfo b) k = Some info \<longrightarrow> backoffInfo_ok b info)"

lemma backoff_okD:
  assumes "backoff_ok b" "mget (eb_backoffInfo b) k = Some info"
  shows "backoffInfo_ok b info"
  using assms by (simp add: backoff_ok_def)

lemma doubled_duration:
  assumes "backoff_config_ok b" "backoffInfo_ok b info"
  shows "i64 (2 * bi_duration info) = 2 * bi_duration info"
  using assms
  by (intro i64_id) (auto simp: backoff_config_ok_def backoffInfo_ok_def in_i64_def minInt64_def)

lemma backoff_duration_bounds:
  assumes "backoff_ok b"
  shows "eb_initialBackoffDuration b \<le> backoff_duration b ng now"
    and "backoff_duration b ng now \<le> eb_maxBackoffDuration b"
proof -
  have *: "eb_initialBackoffDuration b \<le> backoff_duration b ng now \<and>
    backoff_duration b ng now \<le> eb_maxBackoffDuration b"
  proof (cases "mget (eb_backoffInfo b) (eb_nodeGroupKey b ng)")
    case None
    with assms show ?thesis
      by (simp add: backoff_duration_def backoff_ok_def backoff_config_ok_def)
  next
    case (Some info)
    have ok: "backoffInfo_ok b info" using assms Some by (rule backoff_okD)
    have cfg: "backoff_config_ok b" using assms by (simp add: backoff_ok_def)
    show ?thesis
      using Some ok cfg doubled_duration [OF cfg ok]
      by (auto simp: backoff_duration_def Let_def backoffInfo_ok_def backoff_config_ok_def)
  qed
  then show "eb_initialBackoffDuration b \<le> backoff_duration b ng now"
    and "backoff_duration b ng now \<le> eb_maxBackoffDuration b" by blast+
qed

lemma backoff_ok_New:
  assumes "0 < initial" "initial \<le> mx" "mx \<le> reset" "2 * mx \<le> maxInt64"
  shows "backoff_ok (NewExponentialBackoff initial mx reset key)"
  using assms by (simp add: backoff_ok_def backoff_config_ok_def NewExponentialBackoff_def)

lemma backoff_ok_doBackoff:
  assumes "backoff_ok b"
  shows "backoff_ok (fst (doBackoff b ng now))"
  using assms backoff_duration_bounds [OF assms, of ng now]
  by (auto simp: doBackoff_def Let_def backoff_ok_def backoff_config_ok_def backoffInfo_ok_def
      time_add_def split: if_splits)

lemma backoff_ok_RemoveBackoff: "backoff_ok b \<Longrightarrow> backoff_ok (RemoveBackoff b ng)"
  by (auto simp: RemoveBackoff_def backoff_ok_def backoff_config_ok_def backoffInfo_ok_def
      split: if_splits)

lemma backoff_ok_RemoveStale: "backoff_ok b \<Longrightarrow> backoff_ok (RemoveStaleBackoffData b now)"
  by (auto simp: RemoveStaleBackoffData_def backoff_ok_def backoff_config_ok_def
      backoffInfo_ok_def mget_mdel_where split: if_splits option.splits)

lemma key_doBackoff [simp]: "eb_nodeGroupKey (fst (doBackoff b ng now)) = eb_nodeGroupKey b"
  by (simp add: doBackoff_def Let_def)

lemma key_RemoveBackoff [simp]: "eb_nodeGroupKey (RemoveBackoff b ng) = eb_nodeGroupKey b"
  by (simp add: RemoveBackoff_def)

lemma key_RemoveStale [simp]: "eb_nodeGroupKey (RemoveStaleBackoffData b now) = eb_nodeGroupKey b"
  by (simp add: RemoveStaleBackoffData_def)

section \<open>The contract of the \<open>Backoff\<close> interface\<close>

locale backoff_contract =
  fixes start :: "'b \<Rightarrow> 'g \<Rightarrow> time \<Rightarrow> 'b \<times> time"
    and active :: "'b \<Rightarrow> 'g \<Rightarrow> time \<Rightarrow> bool"
    and clear :: "'b \<Rightarrow> 'g \<Rightarrow> 'b"
    and expire :: "'b \<Rightarrow> time \<Rightarrow> 'b"
    and key :: "'b \<Rightarrow> 'g \<Rightarrow> string"
    and invar :: "'b \<Rightarrow> bool"
  assumes active_start: "invar b \<Longrightarrow> active (fst (start b g now)) g' t \<longleftrightarrow>
      (if key b g' = key b g then t < snd (start b g now) else active b g' t)"
    and start_later: "invar b \<Longrightarrow> now < snd (start b g now)"
    and active_clear: "invar b \<Longrightarrow> active (clear b g) g' t \<longleftrightarrow> key b g' \<noteq> key b g \<and> active b g' t"
    and active_expire: "invar b \<Longrightarrow> now \<le> t \<Longrightarrow> active (expire b now) g t = active b g t"
    and invar_start: "invar b \<Longrightarrow> invar (fst (start b g now))"
    and invar_clear: "invar b \<Longrightarrow> invar (clear b g)"
    and invar_expire: "invar b \<Longrightarrow> invar (expire b now)"
    and key_start: "key (fst (start b g now)) = key b"
    and key_clear: "key (clear b g) = key b"
    and key_expire: "key (expire b now) = key b"
begin

lemma active_after_start: "invar b \<Longrightarrow> active (fst (start b g now)) g now"
  by (simp add: active_start start_later)

lemma not_active_after_clear: "invar b \<Longrightarrow> \<not> active (clear b g) g t"
  by (simp add: active_clear)

lemma start_other: "invar b \<Longrightarrow> key b g' \<noteq> key b g \<Longrightarrow>
    active (fst (start b g now)) g' t = active b g' t"
  by (simp add: active_start)

lemma clear_other: "invar b \<Longrightarrow> key b g' \<noteq> key b g \<Longrightarrow> active (clear b g) g' t = active b g' t"
  by (simp add: active_clear)

end

lemma IsBackedOff_RemoveStale:
  assumes "backoff_ok b" "now \<le> t"
  shows "IsBackedOff (RemoveStaleBackoffData b now) g t = IsBackedOff b g t"
proof (cases "mget (eb_backoffInfo b) (eb_nodeGroupKey b g)")
  case None
  with assms show ?thesis
    by (simp add: IsBackedOff_def RemoveStaleBackoffData_def backoff_ok_def mget_mdel_where)
next
  case (Some info)
  have "backoffInfo_ok b info" using assms(1) Some by (rule backoff_okD)
  then have "bi_backoffUntil info \<le> bi_lastFailedExecution info + eb_backoffResetTimeout b"
    using assms(1) by (auto simp: backoff_ok_def backoff_config_ok_def backoffInfo_ok_def)
  moreover have "gomap_ok (eb_backoffInfo b)" using assms(1) by (simp add: backoff_ok_def)
  ultimately show ?thesis using assms(2) Some
    by (auto simp: IsBackedOff_def RemoveStaleBackoffData_def mget_mdel_where time_defs)
qed

interpretation eb: backoff_contract doBackoff IsBackedOff RemoveBackoff RemoveStaleBackoffData
  eb_nodeGroupKey backoff_ok
proof
  fix b :: "'g exponentialBackoff" and g g' :: 'g and now t :: time
  assume ok: "backoff_ok b"
  show "IsBackedOff (fst (doBackoff b g now)) g' t \<longleftrightarrow>
      (if eb_nodeGroupKey b g' = eb_nodeGroupKey b g then t < snd (doBackoff b g now)
       else IsBackedOff b g' t)"
    by (simp add: IsBackedOff_def doBackoff_def Let_def time_after_def)
  show "now < snd (doBackoff b g now)"
    using backoff_duration_bounds(1) [OF ok, of g now] ok
    by (simp add: doBackoff_def Let_def time_add_def backoff_ok_def backoff_config_ok_def)
  show "IsBackedOff (RemoveBackoff b g) g' t \<longleftrightarrow>
      eb_nodeGroupKey b g' \<noteq> eb_nodeGroupKey b g \<and> IsBackedOff b g' t"
    by (simp add: IsBackedOff_def RemoveBackoff_def)
qed (simp_all add: IsBackedOff_RemoveStale backoff_ok_doBackoff backoff_ok_RemoveBackoff
    backoff_ok_RemoveStale)

section \<open>Repeated failures\<close>

text \<open>A run of failures of one group at the given times.\<close>

fun backoff_failures :: "'g exponentialBackoff \<Rightarrow> 'g \<Rightarrow> time list \<Rightarrow> 'g exponentialBackoff" where
  "backoff_failures b ng [] = b"
| "backoff_failures b ng (t # ts) = backoff_failures (fst (doBackoff b ng t)) ng ts"

text \<open>Each failure comes after the back-off of the one before has ended.\<close>

fun failures_spaced :: "'g exponentialBackoff \<Rightarrow> 'g \<Rightarrow> time list \<Rightarrow> bool" where
  "failures_spaced b ng [] = True"
| "failures_spaced b ng (t # ts) \<longleftrightarrow>
     (case mget (eb_backoffInfo b) (eb_nodeGroupKey b ng) of
        None \<Rightarrow> True | Some info \<Rightarrow> bi_backoffUntil info < t) \<and>
     failures_spaced (fst (doBackoff b ng t)) ng ts"

definition current_duration :: "'g exponentialBackoff \<Rightarrow> 'g \<Rightarrow> duration" where
  "current_duration b ng =
     (case mget (eb_backoffInfo b) (eb_nodeGroupKey b ng) of
        None \<Rightarrow> 0 | Some info \<Rightarrow> bi_duration info)"

lemma failure_doubles:
  assumes "backoff_ok b" "mget (eb_backoffInfo b) (eb_nodeGroupKey b ng) = Some info"
    and "bi_backoffUntil info < t"
  shows "backoff_duration b ng t = min (eb_maxBackoffDuration b) (2 * bi_duration info)"
proof -
  have "backoffInfo_ok b info" using assms(1,2) by (rule backoff_okD)
  with assms show ?thesis
    using doubled_duration [of b info]
    by (auto simp: backoff_duration_def Let_def time_before_def backoff_ok_def)
qed

lemma current_duration_doBackoff [simp]:
  "current_duration (fst (doBackoff b ng t)) ng = backoff_duration b ng t"
  by (simp add: current_duration_def doBackoff_def Let_def)

lemma spaced_failures_from:
  assumes "backoff_ok b" "failures_spaced b ng ts"
    and "mget (eb_backoffInfo b) (eb_nodeGroupKey b ng) = Some info"
  shows "current_duration (backoff_failures b ng ts) ng =
    min (eb_maxBackoffDuration b) (bi_duration info * 2 ^ length ts)"
  using assms
proof (induction ts arbitrary: b info)
  case Nil
  then have "backoffInfo_ok b info" by (meson backoff_okD)
  with Nil show ?case by (simp add: current_duration_def backoffInfo_ok_def)
next
  case (Cons t ts)
  let ?b = "fst (doBackoff b ng t)"
  have d: "backoff_duration b ng t = min (eb_maxBackoffDuration b) (2 * bi_duration info)"
    using Cons.prems by (intro failure_doubles) auto
  obtain info' where info': "mget (eb_backoffInfo ?b) (eb_nodeGroupKey ?b ng) = Some info'"
    "bi_duration info' = backoff_duration b ng t"
    by (simp add: doBackoff_def Let_def)
  have pos: "0 \<le> eb_maxBackoffDuration b" "0 \<le> bi_duration info"
    using Cons.prems(1) backoff_okD [OF Cons.prems(1,3)]
    by (auto simp: backoff_ok_def backoff_config_ok_def backoffInfo_ok_def)
  have mx: "eb_maxBackoffDuration ?b = eb_maxBackoffDuration b"
    by (simp add: doBackoff_def Let_def)
  have one: "(1 :: int) \<le> 2 ^ length ts" by simp
  have capped: "m \<le> m * 2 ^ length ts" if "0 \<le> m" for m :: int
    using mult_left_mono [OF one that] by simp
  have "current_duration (backoff_failures ?b ng ts) ng =
      min (eb_maxBackoffDuration b) (bi_duration info' * 2 ^ length ts)"
    using Cons.IH [OF backoff_ok_doBackoff [OF Cons.prems(1)] _ info'(1)] Cons.prems(2) mx
    by simp
  also have "\<dots> = min (eb_maxBackoffDuration b) (2 * bi_duration info * 2 ^ length ts)"
    unfolding info'(2) d using capped [OF pos(1)]
    by (cases "eb_maxBackoffDuration b \<le> 2 * bi_duration info")
       (auto simp: min_def mult_right_mono intro: order_trans)
  finally show ?case by (simp add: ac_simps)
qed

text \<open>
  failures of a node group, each after the previous back-off ended, are answered by
  back-offs that start at the initial duration and double up to the maximum: after
  \<open>n + 1\<close> failures the duration is \<open>min max (initial * 2 ^ n)\<close>.
\<close>

theorem exponential_growth:
  assumes "backoff_ok b" "mget (eb_backoffInfo b) (eb_nodeGroupKey b ng) = None"
    and "failures_spaced b ng (t # ts)"
  shows "current_duration (backoff_failures b ng (t # ts)) ng =
    min (eb_maxBackoffDuration b) (eb_initialBackoffDuration b * 2 ^ length ts)"
proof -
  let ?b = "fst (doBackoff b ng t)"
  have d: "backoff_duration b ng t = eb_initialBackoffDuration b"
    using assms(2) by (simp add: backoff_duration_def)
  obtain info where "mget (eb_backoffInfo ?b) (eb_nodeGroupKey ?b ng) = Some info"
    "bi_duration info = eb_initialBackoffDuration b"
    using d by (simp add: doBackoff_def Let_def)
  moreover have "eb_maxBackoffDuration ?b = eb_maxBackoffDuration b"
    by (simp add: doBackoff_def Let_def)
  ultimately show ?thesis
    using spaced_failures_from [of ?b ng ts info] backoff_ok_doBackoff [OF assms(1)] assms(3)
    by simp
qed

lemma exponential_growth_witness:
  "current_duration (backoff_failures
     (NewExponentialBackoff (5 * minute) (30 * minute) (3 * hour) (\<lambda>g :: string. g)) ''ng1''
     [0, 6 * minute, 17 * minute, 38 * minute]) ''ng1'' = min (30 * minute) (5 * minute * 2 ^ 3)"
proof -
  let ?b = "NewExponentialBackoff (5 * minute) (30 * minute) (3 * hour) (\<lambda>g :: string. g)"
  have ok: "backoff_ok ?b"
    by (rule backoff_ok_New) (simp_all add: duration_defs maxInt64_def)
  have sp: "failures_spaced ?b ''ng1'' [0, 6 * minute, 17 * minute, 38 * minute]"
    by (simp add: doBackoff_def backoff_duration_def NewExponentialBackoff_def Let_def
        duration_defs time_defs i64_id in_i64_def minInt64_def maxInt64_def)
  show ?thesis
    using exponential_growth [OF ok _ sp] by (simp add: NewExponentialBackoff_def)
qed

text \<open>
  a group is backed off from a failure until the time \<open>Backoff\<close> returned and not
  after it, removing its back-off ends it at once, and neither touches a group with
  another key; dropping stale data never shortens a back-off that still runs.
\<close>

theorem backoff_window:
  assumes "backoff_ok b"
  shows "(IsBackedOff (fst (doBackoff b g now)) g t \<longleftrightarrow> t < snd (doBackoff b g now)) \<and>
    \<not> IsBackedOff (RemoveBackoff b g) g t \<and>
    (eb_nodeGroupKey b g' \<noteq> eb_nodeGroupKey b g \<longrightarrow>
       IsBackedOff (fst (doBackoff b g now)) g' t = IsBackedOff b g' t \<and>
       IsBackedOff (RemoveBackoff b g) g' t = IsBackedOff b g' t) \<and>
    (now \<le> t \<longrightarrow> IsBackedOff (RemoveStaleBackoffData b now) g t = IsBackedOff b g t)"
  using assms by (simp add: eb.active_start eb.not_active_after_clear eb.start_other
      eb.clear_other eb.active_expire)

lemma backoff_window_witness:
  "let b = NewExponentialBackoff (5 * minute) (30 * minute) (3 * hour) (\<lambda>g :: string. g)
   in IsBackedOff (fst (doBackoff b ''a'' 0)) ''a'' minute \<and>
      \<not> IsBackedOff (RemoveBackoff b ''a'') ''a'' minute"
proof -
  let ?b = "NewExponentialBackoff (5 * minute) (30 * minute) (3 * hour) (\<lambda>g :: string. g)"
  have ok: "backoff_ok ?b"
    by (rule backoff_ok_New) (simp_all add: duration_defs maxInt64_def)
  have "minute < snd (doBackoff ?b ''a'' 0)"
    by (simp add: doBackoff_def backoff_duration_def NewExponentialBackoff_def Let_def
        duration_defs time_defs)
  then show ?thesis
    using backoff_window [OF ok, of "''a''" 0 minute] by (simp add: Let_def)
qed

text \<open>
  a failure reported while the group is still backed off resets its duration to the
  initial one, so a second failure shortens a long back-off: here a group backed off for
  twenty minutes is released after five more.
\<close>

theorem concurrent_failure_shortens_backoff:
  "let b = backoff_failures
        (NewExponentialBackoff (5 * minute) (30 * minute) (3 * hour) (\<lambda>g :: string. g)) ''ng1''
        [0, 6 * minute, 17 * minute];
       til = 37 * minute; now = 18 * minute
   in IsBackedOff b ''ng1'' (til - 1) \<and> \<not> IsBackedOff b ''ng1'' til \<and>
      snd (doBackoff b ''ng1'' now) = 23 * minute \<and>
      \<not> IsBackedOff (fst (doBackoff b ''ng1'' now)) ''ng1'' (23 * minute)"
  by (simp add: Let_def doBackoff_def backoff_duration_def NewExponentialBackoff_def IsBackedOff_def
      duration_defs time_defs i64_id in_i64_def minInt64_def maxInt64_def)

end
