(* ===== verification/GoStrings.thy ===== *)
theory GoStrings
  imports Prelude "HOL-Library.Char_ord" "HOL-Library.List_Lexorder"
begin

text \<open>
  Decimal printing and parsing of integers as \<open>fmt\<close> (\<open>%d\<close>, \<open>fmt.Sprint\<close>) and
  \<open>strconv.ParseInt(s, 10, 64)\<close> do it, with the round trip between them.
  A Go string is a list of bytes, here \<open>char\<close>s; strings are ordered lexicographically.
\<close>

definition digit_char :: "nat \<Rightarrow> char" where
  "digit_char d = char_of (48 + d)"

definition char_digit :: "char \<Rightarrow> nat option" where
  "char_digit c = (let n = of_char c :: nat in if 48 \<le> n \<and> n \<le> 57 then Some (n - 48) else None)"

fun nat_digits :: "nat \<Rightarrow> string" where
  "nat_digits n = (if n < 10 then [digit_char n] else nat_digits (n div 10) @ [digit_char (n mod 10)])"

declare nat_digits.simps [simp del]

definition itoa :: "int \<Rightarrow> string" where
  "itoa n = (if n < 0 then CHR ''-'' # nat_digits (nat (- n)) else nat_digits (nat n))"

fun parse_digits :: "nat \<Rightarrow> string \<Rightarrow> nat option" where
  "parse_digits acc [] = Some acc"
| "parse_digits acc (c # cs) =
     (case char_digit c of None \<Rightarrow> None | Some d \<Rightarrow> parse_digits (10 * acc + d) cs)"

text \<open>\<open>None\<close> is an error return: empty, a byte that is no digit, or out of range.\<close>

definition parseInt64 :: "string \<Rightarrow> int option" where
  "parseInt64 s =
     (case s of [] \<Rightarrow> None
      | c # cs \<Rightarrow>
          (let neg = (c = CHR ''-'');
               body = (if c = CHR ''-'' \<or> c = CHR ''+'' then cs else s)
           in if body = [] then None
              else case parse_digits 0 body of
                     None \<Rightarrow> None
                   | Some n \<Rightarrow>
                       (if \<not> neg \<and> int n \<le> maxInt64 then Some (int n)
                        else if neg \<and> minInt64 \<le> - int n then Some (- int n)
                        else None)))"

lemma char_digit_digit_char: "d < 10 \<Longrightarrow> char_digit (digit_char d) = Some d"
  by (simp add: char_digit_def digit_char_def of_char_of)

lemma digit_char_not_sign: "d < 10 \<Longrightarrow> digit_char d \<noteq> CHR ''-'' \<and> digit_char d \<noteq> CHR ''+''"
  using char_digit_digit_char [of d] by (auto simp: char_digit_def)

lemma parse_digits_append:
  "parse_digits acc (xs @ ys) =
     (case parse_digits acc xs of None \<Rightarrow> None | Some a \<Rightarrow> parse_digits a ys)"
  by (induction xs arbitrary: acc) (auto split: option.splits)

lemma parse_nat_digits: "parse_digits 0 (nat_digits n) = Some n"
proof (induction n rule: nat_digits.induct)
  case (1 n)
  show ?case
  proof (cases "n < 10")
    case True
    then show ?thesis by (simp add: nat_digits.simps [of n] char_digit_digit_char)
  next
    case False
    then have "10 * (n div 10) + n mod 10 = n" by simp
    with False 1 show ?thesis
      by (simp add: nat_digits.simps [of n] parse_digits_append char_digit_digit_char)
  qed
qed

lemma nat_digits_Cons: "\<exists>d cs. nat_digits n = digit_char d # cs \<and> d < 10"
proof (induction n rule: nat_digits.induct)
  case (1 n)
  then show ?case by (cases "n < 10") (auto simp: nat_digits.simps [of n])
qed

lemma parseInt64_itoa:
  assumes "in_i64 n"
  shows "parseInt64 (itoa n) = Some n"
proof (cases "n < 0")
  case True
  obtain d cs where "nat_digits (nat (- n)) = digit_char d # cs" using nat_digits_Cons by blast
  with True assms show ?thesis
    using parse_nat_digits [of "nat (- n)"] by (simp add: parseInt64_def itoa_def in_i64_def)
next
  case False
  obtain d cs where d: "nat_digits (nat n) = digit_char d # cs" "d < 10"
    using nat_digits_Cons by blast
  with False assms show ?thesis
    using parse_nat_digits [of "nat n"] digit_char_not_sign [of d]
    by (simp add: parseInt64_def itoa_def in_i64_def Let_def)
qed

end
