(* ===== verification/CloudTypes.thy ===== *)
theory CloudTypes
  imports Prelude GoStrings
begin

text \<open>
  The Kubernetes and cloud-provider data the cluster autoscaler works on: nodes, taints and
  node conditions with the fields the code reads, and the interfaces \<open>NodeGroup\<close> and
  \<open>CloudProvider\<close> as records of the answers their methods give (an error is \<open>Inl\<close>).
  \<open>utils/kubernetes/ready.go\<close> and the taints of \<open>utils/deletetaint/delete.go\<close> follow.
\<close>

section \<open>Quantities\<close>

text \<open>
  A \<open>resource.Quantity\<close> is an exact decimal with at most nine fractional digits: an \<open>int\<close> of
  nano-units, with \<open>Add\<close>, \<open>Sub\<close> and \<open>Cmp\<close> the operations of \<open>int\<close>.  \<open>Value\<close> and \<open>MilliValue\<close>
  round up, as their documentation says.
\<close>

type_synonym quantity = int

definition quantity_ceil :: "int \<Rightarrow> quantity \<Rightarrow> int" where
  "quantity_ceil d q = - ((- q) div d)"

definition MilliValue :: "quantity \<Rightarrow> int" where
  "MilliValue q = quantity_ceil 1000000 q"

definition Value :: "quantity \<Rightarrow> int" where
  "Value q = quantity_ceil 1000000000 q"

definition NewMilliQuantity :: "int \<Rightarrow> quantity" where
  "NewMilliQuantity v = v * 1000000"

definition NewQuantity :: "int \<Rightarrow> quantity" where
  "NewQuantity v = v * 1000000000"

lemma MilliValue_NewMilliQuantity [simp]: "MilliValue (NewMilliQuantity v) = v"
  by (simp add: MilliValue_def quantity_ceil_def NewMilliQuantity_def flip: mult_minus_left)

lemma Value_NewQuantity [simp]: "Value (NewQuantity v) = v"
  by (simp add: Value_def quantity_ceil_def NewQuantity_def flip: mult_minus_left)

lemma quantity_ceil_mono: "0 < d \<Longrightarrow> p \<le> q \<Longrightarrow> quantity_ceil d p \<le> quantity_ceil d q"
  by (simp add: quantity_ceil_def zdiv_mono1)

section \<open>Nodes\<close>

record taint =
  t_Key :: string
  t_Value :: string
  t_Effect :: string

datatype nodeConditionType =
  NodeReady | NodeOutOfDisk | NodeNetworkUnavailable | OtherNodeCondition string

datatype conditionStatus =
  ConditionTrue | ConditionFalse | ConditionUnknown | OtherConditionStatus string

record nodeCondition =
  nc_Type :: nodeConditionType
  nc_Status :: conditionStatus
  nc_LastTransitionTime :: time

record node =
  n_Name :: string
  n_ProviderID :: string
  n_Unschedulable :: bool
  n_Taints :: "taint list"
  n_Conditions :: "nodeCondition list"
  n_CreationTimestamp :: time
  n_Annotations :: "(string, string) gomap"
  n_Labels :: "(string, string) gomap"
  n_Capacity :: "(string, quantity) gomap"
  n_Allocatable :: "(string, quantity) gomap"

definition empty_node :: node where
  "empty_node = \<lparr>n_Name = '''', n_ProviderID = '''', n_Unschedulable = False, n_Taints = [],
     n_Conditions = [], n_CreationTimestamp = 0, n_Annotations = [], n_Labels = [],
     n_Capacity = [], n_Allocatable = []\<rparr>"

section \<open>Node groups and the cloud provider\<close>

record nodeGroup =
  ng_Id :: string
  ng_MinSize :: int
  ng_MaxSize :: int
  ng_TargetSize :: "string + int"
  ng_Exist :: bool
  ng_Autoprovisioned :: bool
  ng_Nodes :: "string + string list"

record cloudProvider =
  cp_NodeGroups :: "nodeGroup list"
  cp_NodeGroupForNode :: "node \<Rightarrow> string + nodeGroup option"

section \<open>Readiness of a node\<close>

text \<open>\<open>GetReadinessState\<close>: \<open>None\<close> is the error \<open>readiness information not found\<close>.\<close>

definition later_time :: "time \<Rightarrow> time \<Rightarrow> time" where
  "later_time t u = (if time_before t u then u else t)"

fun readiness_step :: "bool \<times> bool \<times> time \<Rightarrow> nodeCondition \<Rightarrow> bool \<times> bool \<times> time" where
  "readiness_step (can, found, t) c =
     (case nc_Type c of
        NodeReady \<Rightarrow>
          (if nc_Status c = ConditionFalse \<or> nc_Status c = ConditionUnknown then False else can,
           True, later_time t (nc_LastTransitionTime c))
      | NodeOutOfDisk \<Rightarrow>
          (if nc_Status c = ConditionTrue then False else can,
           found, later_time t (nc_LastTransitionTime c))
      | NodeNetworkUnavailable \<Rightarrow>
          (if nc_Status c = ConditionTrue then False else can,
           found, later_time t (nc_LastTransitionTime c))
      | OtherNodeCondition _ \<Rightarrow> (can, found, t))"

definition GetReadinessState :: "node \<Rightarrow> (bool \<times> time) option" where
  "GetReadinessState n =
     (case foldl readiness_step (True, False, 0) (n_Conditions n) of
        (can, found, t) \<Rightarrow> if found then Some (can, t) else None)"

text \<open>The first result of \<open>GetReadinessState\<close>, which is \<open>false\<close> on the error.\<close>

definition nodeIsReady :: "node \<Rightarrow> bool" where
  "nodeIsReady n = (case GetReadinessState n of None \<Rightarrow> False | Some (r, _) \<Rightarrow> r)"

definition IsNodeReadyAndSchedulable :: "node \<Rightarrow> bool" where
  "IsNodeReadyAndSchedulable n \<longleftrightarrow> nodeIsReady n \<and> \<not> n_Unschedulable n"

definition blocks_readiness :: "nodeCondition \<Rightarrow> bool" where
  "blocks_readiness c \<longleftrightarrow>
     nc_Type c = NodeReady \<and> (nc_Status c = ConditionFalse \<or> nc_Status c = ConditionUnknown) \<or>
     (nc_Type c = NodeOutOfDisk \<or> nc_Type c = NodeNetworkUnavailable) \<and> nc_Status c = ConditionTrue"

lemma readiness_fold:
  "foldl readiness_step (can, found, t) cs = (can', found', t') \<Longrightarrow>
     can' = (can \<and> (\<forall>c\<in>set cs. \<not> blocks_readiness c)) \<and>
     found' = (found \<or> (\<exists>c\<in>set cs. nc_Type c = NodeReady))"
proof (induction cs arbitrary: can found t)
  case (Cons c cs)
  obtain a b d where step: "readiness_step (can, found, t) c = (a, b, d)"
    by (cases "readiness_step (can, found, t) c") auto
  have "a = (can \<and> \<not> blocks_readiness c) \<and> b = (found \<or> nc_Type c = NodeReady)"
    using step by (cases "nc_Type c") (auto simp: blocks_readiness_def split: if_splits)
  with Cons.IH [of a b d] Cons.prems step show ?case by auto
qed simp

lemma nodeIsReady_iff:
  "nodeIsReady n \<longleftrightarrow> (\<exists>c\<in>set (n_Conditions n). nc_Type c = NodeReady) \<and>
     (\<forall>c\<in>set (n_Conditions n). \<not> blocks_readiness c)"
proof -
  obtain a b d where f: "foldl readiness_step (True, False, 0) (n_Conditions n) = (a, b, d)"
    by (cases "foldl readiness_step (True, False, 0) (n_Conditions n)") auto
  from readiness_fold [OF f] show ?thesis
    by (auto simp: nodeIsReady_def GetReadinessState_def f)
qed

section \<open>The taint of a node to be deleted\<close>

definition ToBeDeletedTaint :: string where
  "ToBeDeletedTaint = ''ToBeDeletedByClusterAutoscaler''"

text \<open>
  \<open>time.Now().Unix()\<close> and \<open>time.Unix(s, 0)\<close>.  A \<open>Time\<close> counts from the zero time, January
  1 of year 1, which is 62135596800 seconds before the Unix epoch.
\<close>

definition unixToInternal :: int where
  "unixToInternal = 62135596800"

definition unix_seconds :: "time \<Rightarrow> int" where
  "unix_seconds t = t div second - unixToInternal"

definition unix_time :: "int \<Rightarrow> time" where
  "unix_time s = (s + unixToInternal) * second"

definition HasToBeDeletedTaint :: "node \<Rightarrow> bool" where
  "HasToBeDeletedTaint n \<longleftrightarrow> list_ex (\<lambda>t. t_Key t = ToBeDeletedTaint) (n_Taints n)"

definition addToBeDeletedTaint :: "time \<Rightarrow> node \<Rightarrow> node \<times> bool" where
  "addToBeDeletedTaint now n =
     (if list_ex (\<lambda>t. t_Key t = ToBeDeletedTaint) (n_Taints n) then (n, False)
      else (n\<lparr>n_Taints := n_Taints n @
               [\<lparr>t_Key = ToBeDeletedTaint, t_Value = itoa (unix_seconds now),
                 t_Effect = ''NoSchedule''\<rparr>]\<rparr>, True))"

text \<open>\<open>GetToBeDeletedTime\<close>: the first such taint decides; an unreadable value is an error.\<close>

definition GetToBeDeletedTime :: "node \<Rightarrow> string + time option" where
  "GetToBeDeletedTime n =
     (case find (\<lambda>t. t_Key t = ToBeDeletedTaint) (n_Taints n) of
        None \<Rightarrow> Inr None
      | Some t \<Rightarrow>
          (case parseInt64 (t_Value t) of
             None \<Rightarrow> Inl ''strconv.ParseInt''
           | Some s \<Rightarrow> Inr (Some (unix_time s))))"

text \<open>The taints \<open>CleanToBeDeleted\<close> writes back, and whether it writes at all.\<close>

definition removeToBeDeletedTaint :: "node \<Rightarrow> node \<times> bool" where
  "removeToBeDeletedTaint n =
     (let newTaints = filter (\<lambda>t. t_Key t \<noteq> ToBeDeletedTaint) (n_Taints n)
      in if length newTaints \<noteq> length (n_Taints n) then (n\<lparr>n_Taints := newTaints\<rparr>, True)
         else (n, False))"

lemma HasToBeDeletedTaint_add: "HasToBeDeletedTaint (fst (addToBeDeletedTaint now n))"
  by (auto simp: HasToBeDeletedTaint_def addToBeDeletedTaint_def list_ex_iff)

lemma not_HasToBeDeletedTaint_remove: "\<not> HasToBeDeletedTaint (fst (removeToBeDeletedTaint n))"
proof (cases "length (filter (\<lambda>t. t_Key t \<noteq> ToBeDeletedTaint) (n_Taints n)) = length (n_Taints n)")
  case True
  have "t_Key t \<noteq> ToBeDeletedTaint" if "t \<in> set (n_Taints n)" for t
    using length_filter_less [OF that, of "\<lambda>t. t_Key t \<noteq> ToBeDeletedTaint"] True by auto
  with True show ?thesis
    by (auto simp: HasToBeDeletedTaint_def removeToBeDeletedTaint_def Let_def list_ex_iff)
qed (auto simp: HasToBeDeletedTaint_def removeToBeDeletedTaint_def Let_def list_ex_iff)

lemma remove_add_taint:
  assumes "\<not> HasToBeDeletedTaint n"
  shows "removeToBeDeletedTaint (fst (addToBeDeletedTaint now n)) = (n, True)"
proof -
  have "filter (\<lambda>t. t_Key t \<noteq> ToBeDeletedTaint) (n_Taints n) = n_Taints n"
    using assms by (auto simp: HasToBeDeletedTaint_def list_ex_iff filter_id_conv)
  with assms show ?thesis
    by (simp add: removeToBeDeletedTaint_def addToBeDeletedTaint_def HasToBeDeletedTaint_def Let_def)
qed

lemma time_of_added_taint:
  assumes "\<not> HasToBeDeletedTaint n" "in_i64 (unix_seconds now)"
  shows "GetToBeDeletedTime (fst (addToBeDeletedTaint now n)) =
     Inr (Some (unix_time (unix_seconds now)))"
proof -
  have "find (\<lambda>t. t_Key t = ToBeDeletedTaint) (n_Taints n) = None"
    using assms(1) by (auto simp: HasToBeDeletedTaint_def list_ex_iff find_None_iff)
  moreover have "find P (xs @ [y]) = (if P y then Some y else None)" if "find P xs = None"
    for P :: "taint \<Rightarrow> bool" and xs y
    using that by (induction xs) (auto split: if_splits)
  ultimately show ?thesis
    using assms by (simp add: GetToBeDeletedTime_def addToBeDeletedTaint_def
        HasToBeDeletedTaint_def parseInt64_itoa)
qed

end
