(* ===== verification/Float64.thy ===== *)
theory Float64
  imports Complex_Main Prelude "HOL-Library.Log_Nat"
begin

text \<open>
  Go's \<open>float64\<close>: IEEE 754 binary64 with round-to-nearest-even, including overflow to the
  infinities, subnormal numbers and NaN.  A finite value is the rational number it denotes,
  so the two signed zeros are one value; every operation computes the exact rational result
  and rounds it once, as the hardware does.  What the components need of rounding
  (monotone, odd, idempotent, exact on small integers) is the locale \<open>rounding\<close>,
  interpreted on \<open>rnd\<close>.
\<close>

section \<open>Powers of two and binades\<close>

definition exp2 :: "int \<Rightarrow> rat" where
  "exp2 e = (if 0 \<le> e then 2 ^ nat e else 1 / 2 ^ nat (- e))"

lemma exp2_powi: "exp2 e = 2 powi e"
  by (simp add: exp2_def power_int_def power_one_over inverse_eq_divide)

lemma exp2_pos [simp]: "0 < exp2 e"
  by (simp add: exp2_def)

lemma exp2_not_neg [simp]: "\<not> exp2 e < 0"
  using exp2_pos [of e] by linarith

lemma exp2_nonzero [simp]: "exp2 e \<noteq> 0"
  using exp2_pos [of e] by linarith

lemma exp2_add: "exp2 (a + b) = exp2 a * exp2 b"
  by (simp add: exp2_powi power_int_add)

lemma exp2_diff: "exp2 (a - b) = exp2 a / exp2 b"
  by (simp add: exp2_powi power_int_diff)

lemma exp2_mono: "a \<le> b \<Longrightarrow> exp2 a \<le> exp2 b"
  by (simp add: exp2_powi power_int_increasing)

lemma exp2_less_iff: "exp2 a < exp2 b \<longleftrightarrow> a < b"
proof
  show "a < b" if "exp2 a < exp2 b" using that exp2_mono [of b a] by linarith
  show "exp2 a < exp2 b" if "a < b"
    unfolding exp2_powi using that by (rule power_int_strict_increasing) simp
qed

lemma exp2_nat: "0 \<le> e \<Longrightarrow> exp2 e = of_int (2 ^ nat e)"
  by (simp add: exp2_def)

definition binade :: "rat \<Rightarrow> int" where
  "binade x = (let (n, d) = quotient_of x; k = bitlen n - bitlen d
               in if exp2 k \<le> x then k else k - 1)"

lemma bitlen_exp2:
  assumes "0 < n"
  shows "exp2 (bitlen n - 1) \<le> of_int n" and "of_int n < exp2 (bitlen n)"
proof -
  have b: "0 < bitlen n"
    using assms bitlen_bounds [OF assms] by (cases "bitlen n \<le> 0") auto
  have *: "2 ^ nat (bitlen n - 1) \<le> n \<and> n < 2 ^ nat (bitlen n)"
    using bitlen_bounds [OF assms] .
  show "exp2 (bitlen n - 1) \<le> of_int n"
    using b * by (simp only: exp2_nat of_int_le_iff)
  show "of_int n < exp2 (bitlen n)"
    using b * by (simp only: exp2_nat of_int_less_iff)
qed

lemma binade_bounds:
  assumes "0 < x"
  shows "exp2 (binade x) \<le> x" and "x < exp2 (binade x + 1)"
proof -
  obtain n d where q: "quotient_of x = (n, d)" by force
  have d: "0 < d" using q by (rule quotient_of_denom_pos)
  have x: "x = of_int n / of_int d" using q by (rule quotient_of_div)
  have n: "0 < n" using assms d x by (simp add: zero_less_divide_iff)
  let ?k = "bitlen n - bitlen d"
  have lo: "exp2 (?k - 1) \<le> x"
  proof -
    have "exp2 (?k - 1) * of_int d \<le> exp2 (?k - 1) * exp2 (bitlen d)"
      using bitlen_exp2(2) [OF d] by (intro mult_left_mono) (auto simp: less_imp_le)
    also have "\<dots> = exp2 (bitlen n - 1)" by (simp flip: exp2_add)
    also have "\<dots> \<le> of_int n" by (rule bitlen_exp2(1) [OF n])
    finally show ?thesis using d x by (simp add: pos_le_divide_eq)
  qed
  have hi: "x < exp2 (?k + 1)"
  proof -
    have "of_int n < exp2 (bitlen n)" by (rule bitlen_exp2(2) [OF n])
    also have "\<dots> = exp2 (?k + 1) * exp2 (bitlen d - 1)" by (simp flip: exp2_add)
    also have "\<dots> \<le> exp2 (?k + 1) * of_int d"
      using bitlen_exp2(1) [OF d] by (intro mult_left_mono) (auto simp: less_imp_le)
    finally show ?thesis using d x by (simp add: pos_divide_less_eq)
  qed
  show "exp2 (binade x) \<le> x" and "x < exp2 (binade x + 1)"
    using lo hi q by (auto simp: binade_def Let_def)
qed

lemma binade_mono_strict: "0 < x \<Longrightarrow> 0 < y \<Longrightarrow> binade x < binade y \<Longrightarrow> x < y"
  using binade_bounds(2) [of x] binade_bounds(1) [of y] exp2_mono [of "binade x + 1" "binade y"]
  by linarith

lemma binade_le: "0 < x \<Longrightarrow> x < exp2 (k + 1) \<Longrightarrow> binade x \<le> k"
  using binade_bounds(1) [of x] exp2_less_iff [of "binade x" "k + 1"] by force

section \<open>Rounding to the nearest integer, ties to even\<close>

definition round_even :: "rat \<Rightarrow> int" where
  "round_even r = (let f = \<lfloor>r\<rfloor>; d = r - of_int f
     in if d < 1 / 2 then f else if d > 1 / 2 then f + 1 else if even f then f else f + 1)"

lemma round_even_floor: "\<lfloor>r\<rfloor> \<le> round_even r" "round_even r \<le> \<lfloor>r\<rfloor> + 1"
  by (auto simp: round_even_def Let_def)

lemma round_even_of_int [simp]: "round_even (of_int n) = n"
  by (simp add: round_even_def)

lemma round_even_0 [simp]: "round_even 0 = 0"
  using round_even_of_int [of 0] by simp

lemma round_even_mono: "r \<le> s \<Longrightarrow> round_even r \<le> round_even s"
proof -
  assume le: "r \<le> s"
  then have f: "\<lfloor>r\<rfloor> \<le> \<lfloor>s\<rfloor>" by (rule floor_mono)
  show ?thesis
  proof (cases "\<lfloor>r\<rfloor> = \<lfloor>s\<rfloor>")
    case True
    with le show ?thesis by (auto simp: round_even_def Let_def)
  next
    case False
    with f round_even_floor [of r] round_even_floor [of s] show ?thesis by linarith
  qed
qed

section \<open>Rounding to binary64\<close>

definition ulpexp :: "rat \<Rightarrow> int" where
  "ulpexp x = max (binade x - 52) (- 1074)"

definition rnd_pos :: "rat \<Rightarrow> rat" where
  "rnd_pos x = of_int (round_even (x / exp2 (ulpexp x))) * exp2 (ulpexp x)"

definition rnd :: "rat \<Rightarrow> rat" where
  "rnd x = (if x = 0 then 0 else if x < 0 then - rnd_pos (- x) else rnd_pos x)"

lemma rnd_pos_nonneg: "0 < x \<Longrightarrow> 0 \<le> rnd_pos x"
proof -
  assume "0 < x"
  then have "round_even 0 \<le> round_even (x / exp2 (ulpexp x))"
    by (intro round_even_mono) (simp add: less_imp_le)
  then show ?thesis by (simp add: rnd_pos_def zero_le_mult_iff less_imp_le)
qed

lemma rnd_pos_grid: "x = of_int n * exp2 (ulpexp x) \<Longrightarrow> rnd_pos x = x"
proof -
  assume x: "x = of_int n * exp2 (ulpexp x)"
  then have "x / exp2 (ulpexp x) = of_int n" by (simp add: divide_eq_eq)
  then show ?thesis unfolding rnd_pos_def using x by (simp only: round_even_of_int)
qed

lemma rnd_pos_le_grid:
  assumes "x \<le> of_int n * exp2 (ulpexp x)"
  shows "rnd_pos x \<le> of_int n * exp2 (ulpexp x)"
proof -
  have "x / exp2 (ulpexp x) \<le> of_int n" using assms by (simp add: pos_divide_le_eq)
  then have "round_even (x / exp2 (ulpexp x)) \<le> n" using round_even_mono by fastforce
  then show ?thesis by (simp add: rnd_pos_def mult_right_mono less_imp_le)
qed

lemma rnd_pos_ge_grid:
  assumes "of_int n * exp2 (ulpexp x) \<le> x"
  shows "of_int n * exp2 (ulpexp x) \<le> rnd_pos x"
proof -
  have "of_int n \<le> x / exp2 (ulpexp x)" using assms by (simp add: pos_le_divide_eq)
  then have "n \<le> round_even (x / exp2 (ulpexp x))" using round_even_mono by fastforce
  then show ?thesis by (simp add: rnd_pos_def mult_right_mono less_imp_le)
qed

lemma exp2_on_grid: "a \<le> e \<Longrightarrow> exp2 e = of_int (2 ^ nat (e - a)) * exp2 a"
  using exp2_add [of "e - a" a] exp2_nat [of "e - a"] by simp

lemma rnd_pos_mono:
  assumes "0 < x" "x \<le> y"
  shows "rnd_pos x \<le> rnd_pos y"
proof (cases "ulpexp x = ulpexp y")
  case True
  have "x / exp2 (ulpexp x) \<le> y / exp2 (ulpexp y)"
    using assms True by (simp add: divide_right_mono less_imp_le)
  then have "round_even (x / exp2 (ulpexp x)) \<le> round_even (y / exp2 (ulpexp y))"
    by (rule round_even_mono)
  then show ?thesis using True by (simp add: rnd_pos_def mult_right_mono less_imp_le)
next
  case False
  have y: "0 < y" using assms by linarith
  have "\<not> binade y < binade x"
    using binade_mono_strict [of y x] assms y by auto
  then have less: "ulpexp x < ulpexp y" using False by (auto simp: ulpexp_def)
  then have uy: "ulpexp y = binade y - 52" by (auto simp: ulpexp_def)
  let ?Q = "exp2 (binade y)"
  have bx: "binade x < binade y" using less uy by (auto simp: ulpexp_def)
  have "x \<le> ?Q"
    using binade_bounds(2) [OF assms(1)] exp2_mono [of "binade x + 1" "binade y"] bx by linarith
  moreover have "?Q = of_int (2 ^ nat (binade y - ulpexp x)) * exp2 (ulpexp x)"
    using less uy by (intro exp2_on_grid) simp
  ultimately have 1: "rnd_pos x \<le> ?Q" using rnd_pos_le_grid by metis
  have "?Q = of_int (2 ^ nat (binade y - ulpexp y)) * exp2 (ulpexp y)"
    using uy by (intro exp2_on_grid) simp
  then have 2: "?Q \<le> rnd_pos y" using rnd_pos_ge_grid binade_bounds(1) [OF y] by metis
  from 1 2 show ?thesis by linarith
qed

lemma rnd_neg [simp]: "rnd (- x) = - rnd x"
  by (auto simp: rnd_def)

lemma rnd_0 [simp]: "rnd 0 = 0"
  by (simp add: rnd_def)

lemma rnd_mono: "x \<le> y \<Longrightarrow> rnd x \<le> rnd y"
proof -
  assume le: "x \<le> y"
  consider "x < 0" "y < 0" | "x \<le> 0" "0 \<le> y" | "0 < x" "0 < y" using le by linarith
  then show ?thesis
  proof cases
    case 1
    with le show ?thesis by (auto simp: rnd_def intro: rnd_pos_mono)
  next
    case 2
    with rnd_pos_nonneg [of "- x"] rnd_pos_nonneg [of y] show ?thesis by (auto simp: rnd_def)
  next
    case 3
    with le show ?thesis by (auto simp: rnd_def intro: rnd_pos_mono)
  qed
qed

text \<open>A number with a significand of at most 53 bits is not changed by rounding.\<close>

lemma rnd_pos_exact:
  assumes "0 < m" "m \<le> 2 ^ 53" "- 1074 \<le> q"
  shows "rnd_pos (of_int m * exp2 q) = of_int m * exp2 q"
proof (cases "m = 2 ^ 53")
  case True
  have x: "of_int m * exp2 q = exp2 (53 + q)" using True by (simp add: exp2_add exp2_nat)
  have "binade (exp2 (53 + q)) \<le> 53 + q" by (rule binade_le) (simp_all add: exp2_less_iff)
  then have "ulpexp (exp2 (53 + q)) \<le> 53 + q" using assms(3) by (simp add: ulpexp_def)
  from exp2_on_grid [OF this] show ?thesis unfolding x by (rule rnd_pos_grid)
next
  case False
  let ?x = "of_int m * exp2 q"
  have pos: "0 < ?x" using assms(1) by simp
  have "(of_int m :: rat) < of_int (2 ^ 53)" using assms(2) False by (simp only: of_int_less_iff)
  then have "?x < exp2 53 * exp2 q" by (simp add: exp2_nat)
  then have "?x < exp2 ((52 + q) + 1)" by (simp add: ac_simps flip: exp2_add)
  then have "binade ?x \<le> 52 + q" using pos by (intro binade_le)
  then have "ulpexp ?x \<le> q" using assms(3) by (simp add: ulpexp_def)
  then have "?x = of_int (m * 2 ^ nat (q - ulpexp ?x)) * exp2 (ulpexp ?x)"
    using exp2_on_grid [of "ulpexp ?x" q] by simp
  then show ?thesis by (rule rnd_pos_grid)
qed

lemma rnd_pos_form:
  assumes "0 < x"
  shows "\<exists>m q. rnd_pos x = of_int m * exp2 q \<and> 0 \<le> m \<and> m \<le> 2 ^ 53 \<and> - 1074 \<le> q"
proof (intro exI conjI)
  let ?q = "ulpexp x" and ?m = "round_even (x / exp2 (ulpexp x))"
  show "rnd_pos x = of_int ?m * exp2 ?q" by (simp add: rnd_pos_def)
  show "- 1074 \<le> ?q" by (simp add: ulpexp_def)
  have "round_even 0 \<le> ?m" using assms by (intro round_even_mono) (simp add: less_imp_le)
  then show "0 \<le> ?m" by (simp only: round_even_0)
  have "x < exp2 (binade x + 1)" using assms by (rule binade_bounds)
  also have "\<dots> \<le> exp2 (53 + ?q)" by (rule exp2_mono) (simp add: ulpexp_def)
  also have "\<dots> = of_int (2 ^ 53) * exp2 ?q" by (simp add: exp2_add exp2_nat)
  finally have "x / exp2 ?q \<le> of_int (2 ^ 53)" by (simp add: pos_divide_le_eq less_imp_le)
  then have "?m \<le> round_even (of_int (2 ^ 53))" by (rule round_even_mono)
  then show "?m \<le> 2 ^ 53" by (simp only: round_even_of_int)
qed

lemma rnd_idem [simp]: "rnd (rnd x) = rnd x"
proof -
  have *: "rnd (rnd_pos y) = rnd_pos y" if y: "0 < y" for y
  proof -
    obtain m q where mq: "rnd_pos y = of_int m * exp2 q" "0 \<le> m" "m \<le> 2 ^ 53" "- 1074 \<le> q"
      using rnd_pos_form [OF y] by blast
    show ?thesis
    proof (cases "m = 0")
      case False
      with mq have "rnd_pos (of_int m * exp2 q) = of_int m * exp2 q" by (intro rnd_pos_exact) auto
      with False mq(1,2) show ?thesis
        by (simp add: rnd_def mult_less_0_iff not_less less_imp_le)
    qed (simp add: mq)
  qed
  consider "x = 0" | "x < 0" | "0 < x" by linarith
  then show ?thesis
  proof cases
    case 2
    then have "rnd x = - rnd_pos (- x)" by (simp add: rnd_def)
    with * [of "- x"] 2 show ?thesis by simp
  next
    case 3
    then have "rnd x = rnd_pos x" by (simp add: rnd_def)
    with * [of x] 3 show ?thesis by simp
  qed simp
qed

lemma rnd_of_int: "\<bar>n\<bar> \<le> 2 ^ 53 \<Longrightarrow> rnd (of_int n) = of_int n"
proof -
  have *: "rnd (of_int m) = of_int m" if "0 < m" "m \<le> 2 ^ 53" for m
    using rnd_pos_exact [of m 0] that by (simp add: rnd_def exp2_def)
  assume n: "\<bar>n\<bar> \<le> 2 ^ 53"
  consider "n = 0" | "0 < n" | "0 < - n" by linarith
  then show ?thesis
  proof cases
    case 3
    then have "rnd (of_int (- n)) = of_int (- n)" using n by (intro *) auto
    then show ?thesis by simp
  qed (use n * in auto)
qed

section \<open>The contract of rounding\<close>

locale rounding =
  fixes r :: "rat \<Rightarrow> rat"
  assumes r_mono: "x \<le> y \<Longrightarrow> r x \<le> r y"
    and r_0: "r 0 = 0"
    and r_neg: "r (- x) = - r x"
    and r_idem: "r (r x) = r x"
begin

lemma r_nonneg: "0 \<le> x \<Longrightarrow> 0 \<le> r x"
  using r_mono [of 0 x] by (simp add: r_0)

lemma r_nonpos: "x \<le> 0 \<Longrightarrow> r x \<le> 0"
  using r_mono [of x 0] by (simp add: r_0)

lemma r_ge_fixed: "r a = a \<Longrightarrow> a \<le> x \<Longrightarrow> a \<le> r x"
  using r_mono [of a x] by simp

lemma r_le_fixed: "r a = a \<Longrightarrow> x \<le> a \<Longrightarrow> r x \<le> a"
  using r_mono [of x a] by simp

lemma r_add_nonneg: "r a = a \<Longrightarrow> 0 \<le> b \<Longrightarrow> a \<le> r (a + b)"
  by (rule r_ge_fixed) auto

lemma r_sub_nonneg: "r a = a \<Longrightarrow> 0 \<le> b \<Longrightarrow> r (a - b) \<le> a"
  by (rule r_le_fixed) auto

end

interpretation f64r: rounding rnd
  by unfold_locales (auto intro: rnd_mono)

section \<open>Values and operations\<close>

datatype f64 = Fin rat | PInf | NInf | NaN

definition maxFloat64 :: rat where
  "maxFloat64 = (2 ^ 53 - 1) * 2 ^ 971"

definition mkf :: "rat \<Rightarrow> f64" where
  "mkf x = (let v = rnd x in if v > maxFloat64 then PInf else if v < - maxFloat64 then NInf else Fin v)"

text \<open>The values a \<open>float64\<close> can take.\<close>

fun f64_ok :: "f64 \<Rightarrow> bool" where
  "f64_ok (Fin x) \<longleftrightarrow> rnd x = x \<and> \<bar>x\<bar> \<le> maxFloat64"
| "f64_ok _ \<longleftrightarrow> True"

fun fneg :: "f64 \<Rightarrow> f64" where
  "fneg (Fin x) = Fin (- x)"
| "fneg PInf = NInf"
| "fneg NInf = PInf"
| "fneg NaN = NaN"

fun fadd :: "f64 \<Rightarrow> f64 \<Rightarrow> f64" where
  "fadd (Fin x) (Fin y) = mkf (x + y)"
| "fadd NaN _ = NaN"
| "fadd _ NaN = NaN"
| "fadd PInf NInf = NaN"
| "fadd NInf PInf = NaN"
| "fadd PInf _ = PInf"
| "fadd _ PInf = PInf"
| "fadd NInf _ = NInf"
| "fadd _ NInf = NInf"

definition fsub :: "f64 \<Rightarrow> f64 \<Rightarrow> f64" where
  "fsub a b = fadd a (fneg b)"

definition finf :: "bool \<Rightarrow> f64" where
  "finf neg = (if neg then NInf else PInf)"

fun fsign :: "f64 \<Rightarrow> int" where
  "fsign (Fin x) = (if x < 0 then -1 else if x = 0 then 0 else 1)"
| "fsign PInf = 1"
| "fsign NInf = -1"
| "fsign NaN = 0"

fun fmul :: "f64 \<Rightarrow> f64 \<Rightarrow> f64" where
  "fmul (Fin x) (Fin y) = mkf (x * y)"
| "fmul NaN _ = NaN"
| "fmul _ NaN = NaN"
| "fmul a b = (if fsign a * fsign b = 0 then NaN else finf (fsign a * fsign b < 0))"

fun fdiv :: "f64 \<Rightarrow> f64 \<Rightarrow> f64" where
  "fdiv (Fin x) (Fin y) =
     (if y = 0 then (if x = 0 then NaN else finf (x < 0)) else mkf (x / y))"
| "fdiv NaN _ = NaN"
| "fdiv _ NaN = NaN"
| "fdiv (Fin x) _ = Fin 0"
| "fdiv a (Fin y) = finf (fsign a * (if y < 0 then -1 else 1) < 0)"
| "fdiv _ _ = NaN"

fun fle :: "f64 \<Rightarrow> f64 \<Rightarrow> bool" where
  "fle (Fin x) (Fin y) \<longleftrightarrow> x \<le> y"
| "fle NaN _ \<longleftrightarrow> False"
| "fle _ NaN \<longleftrightarrow> False"
| "fle NInf _ \<longleftrightarrow> True"
| "fle _ PInf \<longleftrightarrow> True"
| "fle _ _ \<longleftrightarrow> False"

definition feq :: "f64 \<Rightarrow> f64 \<Rightarrow> bool" where
  "feq a b \<longleftrightarrow> a \<noteq> NaN \<and> a = b"

definition flt :: "f64 \<Rightarrow> f64 \<Rightarrow> bool" where
  "flt a b \<longleftrightarrow> fle a b \<and> a \<noteq> b"

definition f_of_int :: "int \<Rightarrow> f64" where
  "f_of_int n = mkf (of_int n)"

text \<open>\<open>math.Max\<close> and \<open>math.Min\<close>: an infinity of the right sign wins, then NaN.\<close>

definition fmax :: "f64 \<Rightarrow> f64 \<Rightarrow> f64" where
  "fmax a b = (if a = PInf \<or> b = PInf then PInf else if a = NaN \<or> b = NaN then NaN
               else if fle a b then b else a)"

definition fmin :: "f64 \<Rightarrow> f64 \<Rightarrow> f64" where
  "fmin a b = (if a = NInf \<or> b = NInf then NInf else if a = NaN \<or> b = NaN then NaN
               else if fle a b then a else b)"

text \<open>\<open>int(math.Ceil(x))\<close>; out of range and not a number give the least \<open>int\<close> on amd64.\<close>

definition f_ceil_int :: "f64 \<Rightarrow> int" where
  "f_ceil_int x =
     (case x of Fin r \<Rightarrow> if in_i64 \<lceil>r\<rceil> then \<lceil>r\<rceil> else minInt64 | _ \<Rightarrow> minInt64)"

section \<open>Order\<close>

lemma fle_PInf [simp]: "fle a PInf \<longleftrightarrow> a \<noteq> NaN"
  by (cases a) auto

lemma fle_NInf [simp]: "fle NInf a \<longleftrightarrow> a \<noteq> NaN"
  by (cases a) auto

lemma fle_refl: "a \<noteq> NaN \<Longrightarrow> fle a a"
  by (cases a) auto

lemma fle_trans: "fle a b \<Longrightarrow> fle b c \<Longrightarrow> fle a c"
  by (cases a; cases b; cases c) auto

lemma fle_total: "a \<noteq> NaN \<Longrightarrow> b \<noteq> NaN \<Longrightarrow> fle a b \<or> fle b a"
  by (cases a; cases b) auto

lemma fle_antisym: "fle a b \<Longrightarrow> fle b a \<Longrightarrow> a = b"
  by (cases a; cases b) auto

lemma fle_not_NaN: "fle a b \<Longrightarrow> a \<noteq> NaN \<and> b \<noteq> NaN"
  by (cases a; cases b) auto

lemma flt_fle: "flt a b \<Longrightarrow> fle a b"
  by (simp add: flt_def)

lemma flt_fle_trans: "flt a b \<Longrightarrow> fle b c \<Longrightarrow> flt a c"
  using fle_trans fle_antisym by (auto simp: flt_def)

lemma fle_flt_trans: "fle a b \<Longrightarrow> flt b c \<Longrightarrow> flt a c"
  using fle_trans fle_antisym by (auto simp: flt_def)

lemma not_flt: "a \<noteq> NaN \<Longrightarrow> b \<noteq> NaN \<Longrightarrow> \<not> flt a b \<longleftrightarrow> fle b a"
  using fle_total [of a b] fle_antisym [of a b] fle_refl [of b] by (auto simp: flt_def)

lemma mkf_not_NaN [simp]: "mkf x \<noteq> NaN"
  by (simp add: mkf_def Let_def)

lemma maxFloat64_pos: "0 < maxFloat64"
  by (simp add: maxFloat64_def)

lemma mkf_mono: "x \<le> y \<Longrightarrow> fle (mkf x) (mkf y)"
  using rnd_mono [of x y] maxFloat64_pos by (auto simp: mkf_def Let_def)

lemma mkf_ok: "f64_ok (mkf x)"
  by (auto simp: mkf_def Let_def abs_le_iff)

lemma f_of_int_not_NaN [simp]: "f_of_int n \<noteq> NaN"
  by (simp add: f_of_int_def)

lemma f_of_int_mono: "m \<le> n \<Longrightarrow> fle (f_of_int m) (f_of_int n)"
  by (simp add: f_of_int_def mkf_mono)

lemma f_of_int_exact: "\<bar>n\<bar> \<le> 2 ^ 53 \<Longrightarrow> f_of_int n = Fin (of_int n)"
proof -
  assume n: "\<bar>n\<bar> \<le> 2 ^ 53"
  have "(of_int \<bar>n\<bar> :: rat) \<le> of_int (2 ^ 53)" using n by (simp only: of_int_le_iff)
  then have "\<bar>of_int n :: rat\<bar> \<le> maxFloat64"
    by (simp add: maxFloat64_def)
  then show ?thesis using rnd_of_int [OF n] by (auto simp: f_of_int_def mkf_def Let_def abs_le_iff)
qed

text \<open>Adding or multiplying non-negative values.\<close>

definition fnonneg :: "f64 \<Rightarrow> bool" where
  "fnonneg a \<longleftrightarrow> fle (Fin 0) a"

lemma fnonneg_mkf: "0 \<le> x \<Longrightarrow> fnonneg (mkf x)"
  using f64r.r_nonneg [of x] maxFloat64_pos by (auto simp: fnonneg_def mkf_def Let_def)

lemma fnonneg_fadd: "fnonneg a \<Longrightarrow> fnonneg b \<Longrightarrow> fnonneg (fadd a b)"
  by (cases a; cases b) (auto simp: fnonneg_def fnonneg_mkf [unfolded fnonneg_def])

lemma fadd_mono_right: "fle b c \<Longrightarrow> fadd a b \<noteq> NaN \<Longrightarrow> fadd a c \<noteq> NaN \<Longrightarrow> fle (fadd a b) (fadd a c)"
  by (cases a; cases b; cases c) (auto intro: mkf_mono simp: fle_refl) 

lemma fle_fadd_nonneg:
  assumes "f64_ok a" "a \<noteq> NaN" "fnonneg b" "fadd a b \<noteq> NaN"
  shows "fle a (fadd a b)"
proof (cases a)
  case (Fin x)
  show ?thesis
  proof (cases b)
    case (Fin y)
    have "fle (mkf x) (mkf (x + y))" using assms(3) Fin by (intro mkf_mono) (simp add: fnonneg_def)
    moreover have "mkf x = Fin x" using assms(1) \<open>a = Fin x\<close> by (auto simp: mkf_def Let_def abs_le_iff)
    ultimately show ?thesis using Fin \<open>a = Fin x\<close> by simp
  qed (use Fin assms in \<open>auto simp: fnonneg_def\<close>)
qed (cases b; use assms in \<open>auto simp: fnonneg_def\<close>)+

lemma fmul_mono_right:
  assumes "fle b c" "fnonneg a" "fmul a b \<noteq> NaN" "fmul a c \<noteq> NaN"
  shows "fle (fmul a b) (fmul a c)"
  using assms
  by (cases a; cases b; cases c)
     (auto simp: fnonneg_def finf_def mult_left_mono fle_refl intro!: mkf_mono split: if_splits)

text \<open>A 64-bit integer converts to a finite value of the same sign.\<close>

lemma f_of_int_i64:
  assumes "\<bar>n\<bar> \<le> 2 ^ 63"
  obtains x where "f_of_int n = Fin x" "0 < n \<Longrightarrow> 0 < x" "n = 0 \<Longrightarrow> x = 0"
proof -
  have e: "exp2 63 = 2 ^ 63" by (simp add: exp2_nat)
  have fix63: "rnd (2 ^ 63) = (2 ^ 63 :: rat)"
    using rnd_pos_exact [of 1 63] by (simp add: rnd_def e)
  have "(of_int \<bar>n\<bar> :: rat) \<le> of_int (2 ^ 63)" using assms by (simp only: of_int_le_iff)
  then have n: "of_int n \<le> (2 ^ 63 :: rat)" "- (2 ^ 63) \<le> (of_int n :: rat)" by (simp_all add: abs_le_iff)
  have "rnd (of_int n) \<le> 2 ^ 63" using rnd_mono [OF n(1)] fix63 by (simp only:)
  moreover have "- (2 ^ 63) \<le> rnd (of_int n)"
    using rnd_mono [OF n(2)] rnd_neg [of "2 ^ 63"] fix63 by (simp only:)
  moreover have "(2 ^ 63 :: rat) \<le> maxFloat64" by (simp add: maxFloat64_def)
  ultimately have "f_of_int n = Fin (rnd (of_int n))"
    by (auto simp: f_of_int_def mkf_def Let_def not_less)
  moreover have "0 < rnd (of_int n)" if "0 < n"
  proof -
    have "rnd (of_int 1) \<le> rnd (of_int n)" using that by (intro rnd_mono) simp
    moreover have "rnd (of_int 1) = 1" by (subst rnd_of_int) simp_all
    ultimately show ?thesis by linarith
  qed
  ultimately show thesis using that [of "rnd (of_int n)"] by simp
qed

lemma fdiv_mono_left:
  assumes "fle a b" "0 < c"
  shows "fle (fdiv a (Fin c)) (fdiv b (Fin c))"
  using assms
  by (cases a; cases b) (auto simp: finf_def fle_refl divide_right_mono intro!: mkf_mono split: if_splits)

text \<open>A linear order on all values, NaN first; without NaN it is the order of the comparisons.\<close>

instantiation f64 :: linorder
begin

definition less_eq_f64 :: "f64 \<Rightarrow> f64 \<Rightarrow> bool" where
  "less_eq_f64 a b \<longleftrightarrow> a = NaN \<or> fle a b"

definition less_f64 :: "f64 \<Rightarrow> f64 \<Rightarrow> bool" where
  "less_f64 a b \<longleftrightarrow> (a :: f64) \<le> b \<and> \<not> b \<le> a"

instance
proof
  fix a b c :: f64
  show "(a < b) = (a \<le> b \<and> \<not> b \<le> a)" by (rule less_f64_def)
  show "a \<le> a" using fle_refl by (auto simp: less_eq_f64_def)
  show "a \<le> b \<Longrightarrow> b \<le> c \<Longrightarrow> a \<le> c" by (cases a; cases b; cases c) (auto simp: less_eq_f64_def)
  show "a \<le> b \<Longrightarrow> b \<le> a \<Longrightarrow> a = b" using fle_antisym fle_not_NaN by (auto simp: less_eq_f64_def)
  show "a \<le> b \<or> b \<le> a" using fle_total by (auto simp: less_eq_f64_def)
qed

end

end
