(* ===== verification/ClusterState.thy ===== *)
theory ClusterState
  imports CloudTypes Backoff Float64
begin

text \<open>
  \<open>clusterstate/clusterstate.go\<close>: the \<open>ClusterStateRegistry\<close>, which compares what the cloud
  provider promises with the nodes Kubernetes sees.  Every method is one definition over the
  record \<open>clusterStateRegistry\<close>; the mutex is left out (each method is one atomic step), and so
  are log lines, events and Prometheus metrics.  A nil dereference of the Go code is
  \<open>None\<close> (a panic) of an \<open>option\<close>.  The methods of the cloud provider are read from the
  snapshot in the registry, which \<open>csr_step\<close> of the theory \<open>ClusterStateRun\<close> may change
  between any two calls.
\<close>

section \<open>Constants and data\<close>

definition MaxNodeStartupTime :: duration where
  "MaxNodeStartupTime = 15 * minute"

definition MaxStatusSettingDelayAfterCreation :: duration where
  "MaxStatusSettingDelayAfterCreation = 2 * minute"

definition MaxNodeGroupBackoffDuration :: duration where
  "MaxNodeGroupBackoffDuration = 30 * minute"

definition InitialNodeGroupBackoffDuration :: duration where
  "InitialNodeGroupBackoffDuration = 5 * minute"

definition NodeGroupBackoffResetTimeout :: duration where
  "NodeGroupBackoffResetTimeout = 3 * hour"

record scaleUpRequest =
  sur_NodeGroup :: nodeGroup
  sur_Time :: time
  sur_ExpectedAddTime :: time
  sur_Increase :: int

record scaleDownRequest =
  sdr_NodeName :: string
  sdr_NodeGroup :: nodeGroup
  sdr_Time :: time
  sdr_ExpectedDeleteTime :: time

record registryConfig =
  cfg_MaxTotalUnreadyPercentage :: f64
  cfg_OkTotalUnreadyCount :: int
  cfg_MaxNodeProvisionTime :: duration

record incorrectNodeGroupSize =
  ing_ExpectedSize :: int
  ing_CurrentSize :: int
  ing_FirstObserved :: time

record unregisteredNode =
  un_Node :: node
  un_UnregisteredSince :: time

record acceptableRange =
  ar_MinNodes :: int
  ar_MaxNodes :: int
  ar_CurrentTarget :: int

record readiness =
  rd_Ready :: int
  rd_Unready :: int
  rd_Deleted :: int
  rd_LongNotStarted :: int
  rd_NotStarted :: int
  rd_Registered :: int
  rd_LongUnregistered :: int
  rd_Unregistered :: int
  rd_Time :: time

text \<open>\<open>clusterstate/api/types.go\<close>; \<open>Reason\<close> is never written by this code.\<close>

datatype conditionType = CondHealth | CondScaleDown | CondScaleUp

datatype conditionValue =
  Healthy | Unhealthy | CandidatesPresent | NoCandidates | Needed | NotNeeded
| InProgress | NoActivity | BackoffStatus

record caCondition =
  cc_Type :: conditionType
  cc_Status :: conditionValue
  cc_Message :: string
  cc_LastProbeTime :: time
  cc_LastTransitionTime :: time

record nodeGroupStatus =
  ngs_ProviderID :: string
  ngs_Conditions :: "caCondition list"

record caStatus =
  st_NodeGroupStatuses :: "nodeGroupStatus list"
  st_ClusterwideConditions :: "caCondition list"

record clusterStateRegistry =
  csr_config :: registryConfig
  csr_scaleUpRequests :: "(string, scaleUpRequest) gomap"
  csr_scaleDownRequests :: "scaleDownRequest list"
  csr_nodes :: "node list"
  csr_cloudProvider :: cloudProvider
  csr_perNodeGroupReadiness :: "(string, readiness) gomap"
  csr_totalReadiness :: readiness
  csr_acceptableRanges :: "(string, acceptableRange) gomap"
  csr_incorrectNodeGroupSizes :: "(string, incorrectNodeGroupSize) gomap"
  csr_unregisteredNodes :: "(string, unregisteredNode) gomap"
  csr_candidatesForScaleDown :: "(string, string list) gomap"
  csr_nodeGroupBackoffInfo :: "nodeGroup exponentialBackoff"
  csr_lastStatus :: caStatus
  csr_lastScaleDownUpdateTime :: time

definition zeroReadiness :: readiness where
  "zeroReadiness = \<lparr>rd_Ready = 0, rd_Unready = 0, rd_Deleted = 0, rd_LongNotStarted = 0,
     rd_NotStarted = 0, rd_Registered = 0, rd_LongUnregistered = 0, rd_Unregistered = 0, rd_Time = 0\<rparr>"

definition zeroRange :: acceptableRange where
  "zeroRange = \<lparr>ar_MinNodes = 0, ar_MaxNodes = 0, ar_CurrentTarget = 0\<rparr>"

definition emptyStatus :: caStatus where
  "emptyStatus = \<lparr>st_NodeGroupStatuses = [], st_ClusterwideConditions = []\<rparr>"

definition NewClusterStateRegistry ::
  "cloudProvider \<Rightarrow> registryConfig \<Rightarrow> nodeGroup exponentialBackoff \<Rightarrow> clusterStateRegistry" where
  "NewClusterStateRegistry cp config b =
     \<lparr>csr_config = config, csr_scaleUpRequests = [], csr_scaleDownRequests = [], csr_nodes = [],
      csr_cloudProvider = cp, csr_perNodeGroupReadiness = [], csr_totalReadiness = zeroReadiness,
      csr_acceptableRanges = [], csr_incorrectNodeGroupSizes = [], csr_unregisteredNodes = [],
      csr_candidatesForScaleDown = [], csr_nodeGroupBackoffInfo = b,
      csr_lastStatus = emptyStatus, csr_lastScaleDownUpdateTime = 0\<rparr>"

section \<open>Registering scale-ups and scale-downs\<close>

definition RegisterScaleUp :: "scaleUpRequest \<Rightarrow> clusterStateRegistry \<Rightarrow> clusterStateRegistry" where
  "RegisterScaleUp request csr =
     (let id = ng_Id (sur_NodeGroup request)
      in csr\<lparr>csr_scaleUpRequests :=
           (case mget (csr_scaleUpRequests csr) id of
              None \<Rightarrow> mput id request (csr_scaleUpRequests csr)
            | Some old \<Rightarrow> mput id
                (old\<lparr>sur_Time := sur_Time request,
                     sur_ExpectedAddTime := sur_ExpectedAddTime request,
                     sur_Increase := sur_Increase old + sur_Increase request\<rparr>)
                (csr_scaleUpRequests csr))\<rparr>)"

definition RegisterScaleDown :: "scaleDownRequest \<Rightarrow> clusterStateRegistry \<Rightarrow> clusterStateRegistry" where
  "RegisterScaleDown request csr =
     csr\<lparr>csr_scaleDownRequests := csr_scaleDownRequests csr @ [request]\<rparr>"

definition backoffNodeGroup :: "nodeGroup \<Rightarrow> time \<Rightarrow> clusterStateRegistry \<Rightarrow> clusterStateRegistry" where
  "backoffNodeGroup ng now csr =
     csr\<lparr>csr_nodeGroupBackoffInfo := fst (doBackoff (csr_nodeGroupBackoffInfo csr) ng now)\<rparr>"

text \<open>\<open>now\<close> is the \<open>time.Now()\<close> of the call.\<close>

definition RegisterFailedScaleUp :: "nodeGroup \<Rightarrow> time \<Rightarrow> clusterStateRegistry \<Rightarrow> clusterStateRegistry" where
  "RegisterFailedScaleUp ng now csr = backoffNodeGroup ng now csr"

section \<open>Sizes and ranges\<close>

fun getTargetSizes_from :: "nodeGroup list \<Rightarrow> (string, int) gomap \<Rightarrow> string + (string, int) gomap" where
  "getTargetSizes_from [] result = Inr result"
| "getTargetSizes_from (ng # ngs) result =
     (case ng_TargetSize ng of
        Inl err \<Rightarrow> Inl err
      | Inr sz \<Rightarrow> getTargetSizes_from ngs (mput (ng_Id ng) sz result))"

definition getTargetSizes :: "cloudProvider \<Rightarrow> string + (string, int) gomap" where
  "getTargetSizes cp = getTargetSizes_from (cp_NodeGroups cp) []"

definition getProvisionedAndTargetSizes :: "clusterStateRegistry \<Rightarrow> string \<Rightarrow> (int \<times> int) option" where
  "getProvisionedAndTargetSizes csr name =
     (case mget (csr_acceptableRanges csr) name of
        None \<Rightarrow> None
      | Some acceptable \<Rightarrow>
          (case mget (csr_perNodeGroupReadiness csr) name of
             None \<Rightarrow> Some (0, ar_CurrentTarget acceptable)
           | Some r \<Rightarrow> Some (rd_Registered r - rd_NotStarted r - rd_LongNotStarted r,
                             ar_CurrentTarget acceptable)))"

definition areThereUpcomingNodes :: "clusterStateRegistry \<Rightarrow> string \<Rightarrow> bool" where
  "areThereUpcomingNodes csr name =
     (case getProvisionedAndTargetSizes csr name of
        None \<Rightarrow> False | Some (provisioned, target) \<Rightarrow> target > provisioned)"

definition IsNodeGroupAtTargetSize :: "clusterStateRegistry \<Rightarrow> string \<Rightarrow> bool" where
  "IsNodeGroupAtTargetSize csr name =
     (case getProvisionedAndTargetSizes csr name of
        None \<Rightarrow> False | Some (provisioned, target) \<Rightarrow> target = provisioned)"

definition IsNodeGroupScalingUp :: "clusterStateRegistry \<Rightarrow> string \<Rightarrow> bool" where
  "IsNodeGroupScalingUp csr name \<longleftrightarrow>
     areThereUpcomingNodes csr name \<and> mhas (csr_scaleUpRequests csr) name"

text \<open>The three loop bodies of \<open>updateAcceptableRanges\<close>.\<close>

definition target_range :: "(string, int) gomap \<Rightarrow> clusterStateRegistry \<Rightarrow> string \<Rightarrow> acceptableRange" where
  "target_range targetSize csr name =
     (let sz = mget0 0 targetSize name;
          r = mget0 zeroReadiness (csr_perNodeGroupReadiness csr) name
      in \<lparr>ar_MinNodes = sz - rd_LongUnregistered r, ar_MaxNodes = sz, ar_CurrentTarget = sz\<rparr>)"

definition range_scaleUp ::
  "(string, acceptableRange) gomap \<Rightarrow> string \<times> scaleUpRequest \<Rightarrow> (string, acceptableRange) gomap" where
  "range_scaleUp m entry =
     (case entry of (name, req) \<Rightarrow>
        let a = mget0 zeroRange m name
        in mput name (a\<lparr>ar_MinNodes := ar_MinNodes a - sur_Increase req\<rparr>) m)"

definition range_scaleDown ::
  "(string, acceptableRange) gomap \<Rightarrow> scaleDownRequest \<Rightarrow> (string, acceptableRange) gomap" where
  "range_scaleDown m req =
     (let name = ng_Id (sdr_NodeGroup req); a = mget0 zeroRange m name
      in mput name (a\<lparr>ar_MaxNodes := ar_MaxNodes a + 1\<rparr>) m)"

definition updateAcceptableRanges ::
  "(string, int) gomap \<Rightarrow> clusterStateRegistry \<Rightarrow> clusterStateRegistry" where
  "updateAcceptableRanges targetSize csr =
     (let r0 = foldl (\<lambda>m ng. mput (ng_Id ng) (target_range targetSize csr (ng_Id ng)) m)
                 [] (cp_NodeGroups (csr_cloudProvider csr));
          r1 = foldl range_scaleUp r0 (csr_scaleUpRequests csr);
          r2 = foldl range_scaleDown r1 (csr_scaleDownRequests csr)
      in csr\<lparr>csr_acceptableRanges := r2\<rparr>)"

text \<open>One turn of the loop over \<open>csr.scaleUpRequests\<close> in \<open>updateScaleRequests\<close>.\<close>

definition scaleUpRequest_step ::
  "time \<Rightarrow> clusterStateRegistry \<Rightarrow> string \<times> scaleUpRequest \<Rightarrow> clusterStateRegistry" where
  "scaleUpRequest_step now csr entry =
     (case entry of (name, req) \<Rightarrow>
        if \<not> areThereUpcomingNodes csr name then
          csr\<lparr>csr_scaleUpRequests := mdel name (csr_scaleUpRequests csr),
              csr_nodeGroupBackoffInfo :=
                RemoveBackoff (csr_nodeGroupBackoffInfo csr) (sur_NodeGroup req)\<rparr>
        else if time_before (sur_ExpectedAddTime req) now then
          (let csr' = backoffNodeGroup (sur_NodeGroup req) now csr
           in csr'\<lparr>csr_scaleUpRequests := mdel name (csr_scaleUpRequests csr')\<rparr>)
        else csr)"

definition updateScaleRequests :: "time \<Rightarrow> clusterStateRegistry \<Rightarrow> clusterStateRegistry" where
  "updateScaleRequests now csr =
     (let csr0 = csr\<lparr>csr_nodeGroupBackoffInfo :=
                       RemoveStaleBackoffData (csr_nodeGroupBackoffInfo csr) now\<rparr>;
          csr1 = foldl (scaleUpRequest_step now) csr0 (csr_scaleUpRequests csr0)
      in csr1\<lparr>csr_scaleDownRequests :=
           filter (\<lambda>req. time_after (sdr_ExpectedDeleteTime req) now) (csr_scaleDownRequests csr1)\<rparr>)"

section \<open>Readiness\<close>

definition startup_condition :: "nodeCondition \<Rightarrow> bool" where
  "startup_condition c \<longleftrightarrow>
     nc_Type c = NodeReady \<and> nc_Status c \<noteq> ConditionTrue \<or>
     nc_Type c = NodeOutOfDisk \<and> nc_Status c = ConditionTrue \<or>
     nc_Type c = NodeNetworkUnavailable \<and> nc_Status c = ConditionTrue"

definition isNodeStillStarting :: "node \<Rightarrow> bool" where
  "isNodeStillStarting n \<longleftrightarrow>
     list_ex (\<lambda>c. startup_condition c \<and>
        time_sub (nc_LastTransitionTime c) (n_CreationTimestamp n) < MaxStatusSettingDelayAfterCreation)
       (n_Conditions n)"

definition update_readiness :: "time \<Rightarrow> readiness \<Rightarrow> node \<Rightarrow> bool \<Rightarrow> readiness" where
  "update_readiness now current n ready =
     (let current = current\<lparr>rd_Registered := rd_Registered current + 1\<rparr>;
          stillStarting = isNodeStillStarting n
      in if HasToBeDeletedTaint n then current\<lparr>rd_Deleted := rd_Deleted current + 1\<rparr>
         else if stillStarting \<and>
                 time_before (time_add (n_CreationTimestamp n) MaxNodeStartupTime) now
              then current\<lparr>rd_LongNotStarted := rd_LongNotStarted current + 1\<rparr>
         else if stillStarting then current\<lparr>rd_NotStarted := rd_NotStarted current + 1\<rparr>
         else if ready then current\<lparr>rd_Ready := rd_Ready current + 1\<rparr>
         else current\<lparr>rd_Unready := rd_Unready current + 1\<rparr>)"

definition registered_step ::
  "cloudProvider \<Rightarrow> time \<Rightarrow> (string, readiness) gomap \<times> readiness \<Rightarrow> node \<Rightarrow>
     (string, readiness) gomap \<times> readiness" where
  "registered_step cp now acc n =
     (case acc of (perNodeGroup, tot) \<Rightarrow>
        let ready = nodeIsReady n;
            perNodeGroup' =
              (case cp_NodeGroupForNode cp n of
                 Inr (Some ng) \<Rightarrow>
                   mput (ng_Id ng)
                     (update_readiness now (mget0 zeroReadiness perNodeGroup (ng_Id ng)) n ready)
                     perNodeGroup
               | _ \<Rightarrow> perNodeGroup)
        in (perNodeGroup', update_readiness now tot n ready))"

definition count_unregistered :: "bool \<Rightarrow> readiness \<Rightarrow> readiness" where
  "count_unregistered long r =
     (if long then r\<lparr>rd_LongUnregistered := rd_LongUnregistered r + 1\<rparr>
      else r\<lparr>rd_Unregistered := rd_Unregistered r + 1\<rparr>)"

text \<open>The loop over unregistered nodes; a node in no group is dereferenced and panics.\<close>

fun unregistered_loop ::
  "cloudProvider \<Rightarrow> duration \<Rightarrow> time \<Rightarrow> unregisteredNode list \<Rightarrow>
     (string, readiness) gomap \<times> readiness \<Rightarrow> ((string, readiness) gomap \<times> readiness) option" where
  "unregistered_loop cp maxProv now [] acc = Some acc"
| "unregistered_loop cp maxProv now (u # us) (perNodeGroup, tot) =
     (case cp_NodeGroupForNode cp (un_Node u) of
        Inl err \<Rightarrow> unregistered_loop cp maxProv now us (perNodeGroup, tot)
      | Inr None \<Rightarrow> None
      | Inr (Some ng) \<Rightarrow>
          (let long = time_before (time_add (un_UnregisteredSince u) maxProv) now
           in unregistered_loop cp maxProv now us
                (mput (ng_Id ng)
                   (count_unregistered long (mget0 zeroReadiness perNodeGroup (ng_Id ng))) perNodeGroup,
                 count_unregistered long tot)))"

definition updateReadinessStats :: "time \<Rightarrow> clusterStateRegistry \<Rightarrow> clusterStateRegistry option" where
  "updateReadinessStats now csr =
     (let cp = csr_cloudProvider csr;
          acc = foldl (registered_step cp now) ([], zeroReadiness\<lparr>rd_Time := now\<rparr>) (csr_nodes csr)
      in case unregistered_loop cp (cfg_MaxNodeProvisionTime (csr_config csr)) now
                (map snd (csr_unregisteredNodes csr)) acc of
           None \<Rightarrow> None
         | Some (perNodeGroup, tot) \<Rightarrow>
             Some (csr\<lparr>csr_perNodeGroupReadiness :=
                         map (\<lambda>(id, r). (id, r\<lparr>rd_Time := now\<rparr>)) perNodeGroup,
                       csr_totalReadiness := tot\<rparr>))"

section \<open>Unregistered nodes and wrong sizes\<close>

definition stub_node :: "string \<Rightarrow> node" where
  "stub_node name = empty_node\<lparr>n_Name := name, n_ProviderID := name\<rparr>"

definition missing_node :: "time \<Rightarrow> string \<Rightarrow> unregisteredNode" where
  "missing_node now name = \<lparr>un_Node = stub_node name, un_UnregisteredSince = now\<rparr>"

fun getNotRegistered_from ::
  "string set \<Rightarrow> time \<Rightarrow> nodeGroup list \<Rightarrow> unregisteredNode list \<Rightarrow> string + unregisteredNode list" where
  "getNotRegistered_from registered now [] notRegistered = Inr notRegistered"
| "getNotRegistered_from registered now (ng # ngs) notRegistered =
     (case ng_Nodes ng of
        Inl err \<Rightarrow> Inl err
      | Inr ids \<Rightarrow> getNotRegistered_from registered now ngs
          (notRegistered @
           map (missing_node now) (filter (\<lambda>id. id \<notin> registered) ids)))"

definition getNotRegisteredNodes ::
  "node list \<Rightarrow> cloudProvider \<Rightarrow> time \<Rightarrow> string + unregisteredNode list" where
  "getNotRegisteredNodes allNodes cp now =
     getNotRegistered_from (set (map n_ProviderID allNodes)) now (cp_NodeGroups cp) []"

definition updateUnregisteredNodes ::
  "unregisteredNode list \<Rightarrow> clusterStateRegistry \<Rightarrow> clusterStateRegistry" where
  "updateUnregisteredNodes us csr =
     csr\<lparr>csr_unregisteredNodes := foldl
        (\<lambda>m u. mput (n_Name (un_Node u))
           (case mget (csr_unregisteredNodes csr) (n_Name (un_Node u)) of
              Some prev \<Rightarrow> prev | None \<Rightarrow> u) m)
        [] us\<rparr>"

definition GetUnregisteredNodes :: "clusterStateRegistry \<Rightarrow> unregisteredNode list" where
  "GetUnregisteredNodes csr = map snd (csr_unregisteredNodes csr)"

definition incorrectSize_step ::
  "time \<Rightarrow> clusterStateRegistry \<Rightarrow> (string, incorrectNodeGroupSize) gomap \<Rightarrow> nodeGroup \<Rightarrow>
     (string, incorrectNodeGroupSize) gomap" where
  "incorrectSize_step now csr result ng =
     (case mget (csr_acceptableRanges csr) (ng_Id ng) of
        None \<Rightarrow> result
      | Some a \<Rightarrow>
          (case mget (csr_perNodeGroupReadiness csr) (ng_Id ng) of
             None \<Rightarrow> result
           | Some r \<Rightarrow>
               if rd_Registered r > ar_MaxNodes a \<or> rd_Registered r < ar_MinNodes a then
                 (let incorrect = \<lparr>ing_ExpectedSize = ar_CurrentTarget a,
                        ing_CurrentSize = rd_Registered r, ing_FirstObserved = now\<rparr>;
                      incorrect' =
                        (case mget (csr_incorrectNodeGroupSizes csr) (ng_Id ng) of
                           None \<Rightarrow> incorrect
                         | Some existing \<Rightarrow>
                             if ing_CurrentSize incorrect = ing_CurrentSize existing \<and>
                                ing_ExpectedSize incorrect = ing_ExpectedSize existing
                             then existing else incorrect)
                  in mput (ng_Id ng) incorrect' result)
               else result))"

definition updateIncorrectNodeGroupSizes :: "time \<Rightarrow> clusterStateRegistry \<Rightarrow> clusterStateRegistry" where
  "updateIncorrectNodeGroupSizes now csr =
     csr\<lparr>csr_incorrectNodeGroupSizes :=
       foldl (incorrectSize_step now csr) [] (cp_NodeGroups (csr_cloudProvider csr))\<rparr>"

definition GetIncorrectNodeGroupSize :: "clusterStateRegistry \<Rightarrow> string \<Rightarrow> incorrectNodeGroupSize option" where
  "GetIncorrectNodeGroupSize csr name = mget (csr_incorrectNodeGroupSizes csr) name"

section \<open>The main update\<close>

text \<open>
  \<open>UpdateNodes\<close>: \<open>None\<close> is a panic; an error of the cloud provider leaves the registry
  as it was.
\<close>

definition UpdateNodes ::
  "node list \<Rightarrow> time \<Rightarrow> clusterStateRegistry \<Rightarrow> (string + clusterStateRegistry) option" where
  "UpdateNodes nodes now csr =
     (case getTargetSizes (csr_cloudProvider csr) of
        Inl err \<Rightarrow> Some (Inl err)
      | Inr targetSizes \<Rightarrow>
          (case getNotRegisteredNodes nodes (csr_cloudProvider csr) now of
             Inl err \<Rightarrow> Some (Inl err)
           | Inr notRegistered \<Rightarrow>
               (case updateReadinessStats now
                       (updateUnregisteredNodes notRegistered (csr\<lparr>csr_nodes := nodes\<rparr>)) of
                  None \<Rightarrow> None
                | Some csr1 \<Rightarrow>
                    Some (Inr (updateIncorrectNodeGroupSizes now
                      (updateAcceptableRanges targetSizes
                        (updateScaleRequests now
                          (updateAcceptableRanges targetSizes csr1))))))))"

text \<open>\<open>Recalculate\<close> goes on with an empty map when the target sizes are not available.\<close>

definition Recalculate :: "clusterStateRegistry \<Rightarrow> clusterStateRegistry" where
  "Recalculate csr =
     updateAcceptableRanges
       (case getTargetSizes (csr_cloudProvider csr) of Inl err \<Rightarrow> [] | Inr sizes \<Rightarrow> sizes) csr"

section \<open>Health\<close>

text \<open>\<open>float64(n) > config.MaxTotalUnreadyPercentage/100.0*float64(size)\<close>\<close>

definition over_percentage :: "registryConfig \<Rightarrow> int \<Rightarrow> int \<Rightarrow> bool" where
  "over_percentage config n sz \<longleftrightarrow>
     flt (fmul (fdiv (cfg_MaxTotalUnreadyPercentage config) (Fin 100)) (f_of_int sz)) (f_of_int n)"

definition IsClusterHealthy :: "clusterStateRegistry \<Rightarrow> bool" where
  "IsClusterHealthy csr =
     (let r = csr_totalReadiness csr;
          totalUnready = rd_Unready r + rd_LongNotStarted r + rd_LongUnregistered r
      in if totalUnready > cfg_OkTotalUnreadyCount (csr_config csr) \<and>
            over_percentage (csr_config csr) totalUnready (int (length (csr_nodes csr)))
         then False else True)"

definition IsNodeGroupHealthy :: "clusterStateRegistry \<Rightarrow> string \<Rightarrow> bool" where
  "IsNodeGroupHealthy csr name =
     (case mget (csr_acceptableRanges csr) name of
        None \<Rightarrow> False
      | Some a \<Rightarrow>
          (case mget (csr_perNodeGroupReadiness csr) name of
             None \<Rightarrow> ar_CurrentTarget a = 0 \<or> (ar_MinNodes a = 0 \<and> ar_CurrentTarget a > 0)
           | Some r \<Rightarrow>
               (let unjustifiedUnready =
                      (if rd_Ready r < ar_MinNodes a then ar_MinNodes a - rd_Ready r else 0)
                in if unjustifiedUnready > cfg_OkTotalUnreadyCount (csr_config csr) \<and>
                      over_percentage (csr_config csr) unjustifiedUnready
                        (rd_Ready r + rd_Unready r + rd_NotStarted r + rd_LongNotStarted r)
                   then False else True)))"

definition IsNodeGroupSafeToScaleUp :: "clusterStateRegistry \<Rightarrow> nodeGroup \<Rightarrow> time \<Rightarrow> bool" where
  "IsNodeGroupSafeToScaleUp csr ng now =
     (if \<not> IsNodeGroupHealthy csr (ng_Id ng) then False
      else \<not> IsBackedOff (csr_nodeGroupBackoffInfo csr) ng now)"

section \<open>Status\<close>

definition UpdateScaleDownCandidates ::
  "node list \<Rightarrow> time \<Rightarrow> clusterStateRegistry \<Rightarrow> clusterStateRegistry" where
  "UpdateScaleDownCandidates nodes now csr =
     csr\<lparr>csr_candidatesForScaleDown := foldl
           (\<lambda>result n.
              case cp_NodeGroupForNode (csr_cloudProvider csr) n of
                Inr (Some ng) \<Rightarrow> mput (ng_Id ng) (mget0 [] result (ng_Id ng) @ [n_Name n]) result
              | _ \<Rightarrow> result)
           [] nodes,
         csr_lastScaleDownUpdateTime := now\<rparr>"

definition readiness_message :: "readiness \<Rightarrow> string" where
  "readiness_message r =
     ''ready='' @ itoa (rd_Ready r) @ '' unready='' @ itoa (rd_Unready r) @
     '' notStarted='' @ itoa (rd_NotStarted r) @ '' longNotStarted='' @ itoa (rd_LongNotStarted r) @
     '' registered='' @ itoa (rd_Registered r) @
     '' longUnregistered='' @ itoa (rd_LongUnregistered r)"

definition buildHealthStatusNodeGroup ::
  "bool \<Rightarrow> readiness \<Rightarrow> acceptableRange \<Rightarrow> int \<Rightarrow> int \<Rightarrow> caCondition" where
  "buildHealthStatusNodeGroup isReady r a minSize maxSize =
     \<lparr>cc_Type = CondHealth, cc_Status = (if isReady then Healthy else Unhealthy),
      cc_Message = readiness_message r @ '' cloudProviderTarget='' @ itoa (ar_CurrentTarget a) @
        '' (minSize='' @ itoa minSize @ '', maxSize='' @ itoa maxSize @ '')'',
      cc_LastProbeTime = rd_Time r, cc_LastTransitionTime = 0\<rparr>"

definition buildScaleUpStatusNodeGroup ::
  "bool \<Rightarrow> bool \<Rightarrow> readiness \<Rightarrow> acceptableRange \<Rightarrow> caCondition" where
  "buildScaleUpStatusNodeGroup isScaleUpInProgress isSafeToScaleUp r a =
     \<lparr>cc_Type = CondScaleUp,
      cc_Status = (if isScaleUpInProgress then InProgress
                   else if \<not> isSafeToScaleUp then BackoffStatus else NoActivity),
      cc_Message = ''ready='' @ itoa (rd_Ready r) @ '' cloudProviderTarget='' @
        itoa (ar_CurrentTarget a),
      cc_LastProbeTime = rd_Time r, cc_LastTransitionTime = 0\<rparr>"

definition candidates_condition :: "int \<Rightarrow> time \<Rightarrow> caCondition" where
  "candidates_condition n lastProbed =
     \<lparr>cc_Type = CondScaleDown, cc_Status = (if n > 0 then CandidatesPresent else NoCandidates),
      cc_Message = ''candidates='' @ itoa n,
      cc_LastProbeTime = lastProbed, cc_LastTransitionTime = 0\<rparr>"

definition buildScaleDownStatusNodeGroup :: "string list \<Rightarrow> time \<Rightarrow> caCondition" where
  "buildScaleDownStatusNodeGroup candidates lastProbed =
     candidates_condition (int (length candidates)) lastProbed"

definition buildHealthStatusClusterwide :: "bool \<Rightarrow> readiness \<Rightarrow> caCondition" where
  "buildHealthStatusClusterwide isReady r =
     \<lparr>cc_Type = CondHealth, cc_Status = (if isReady then Healthy else Unhealthy),
      cc_Message = readiness_message r,
      cc_LastProbeTime = rd_Time r, cc_LastTransitionTime = 0\<rparr>"

definition buildScaleUpStatusClusterwide :: "nodeGroupStatus list \<Rightarrow> readiness \<Rightarrow> caCondition" where
  "buildScaleUpStatusClusterwide statuses r =
     (let isScaleUpInProgress =
            list_ex (\<lambda>s. list_ex (\<lambda>c. cc_Type c = CondScaleUp \<and> cc_Status c = InProgress)
              (ngs_Conditions s)) statuses
      in \<lparr>cc_Type = CondScaleUp,
          cc_Status = (if isScaleUpInProgress then InProgress else NoActivity),
          cc_Message = ''ready='' @ itoa (rd_Ready r) @ '' registered='' @ itoa (rd_Registered r),
          cc_LastProbeTime = rd_Time r, cc_LastTransitionTime = 0\<rparr>)"

definition buildScaleDownStatusClusterwide :: "(string, string list) gomap \<Rightarrow> time \<Rightarrow> caCondition" where
  "buildScaleDownStatusClusterwide candidates lastProbed =
     candidates_condition (foldl (\<lambda>s (_, val). s + int (length val)) 0 candidates) lastProbed"

definition carry_transition :: "caCondition list \<Rightarrow> caCondition \<Rightarrow> caCondition" where
  "carry_transition oldConds c =
     (case find (\<lambda>old. cc_Type c = cc_Type old) oldConds of
        None \<Rightarrow> c\<lparr>cc_LastTransitionTime := cc_LastProbeTime c\<rparr>
      | Some old \<Rightarrow>
          if cc_Status c = cc_Status old
          then c\<lparr>cc_LastTransitionTime := cc_LastTransitionTime old\<rparr>
          else c\<lparr>cc_LastTransitionTime := cc_LastProbeTime c\<rparr>)"

definition updateLastTransitionSingleList :: "caCondition list \<Rightarrow> caCondition list \<Rightarrow> caCondition list" where
  "updateLastTransitionSingleList oldConds newConds = map (carry_transition oldConds) newConds"

definition updateLastTransition :: "caStatus \<Rightarrow> caStatus \<Rightarrow> caStatus" where
  "updateLastTransition oldStatus newStatus =
     \<lparr>st_NodeGroupStatuses =
        map (\<lambda>ngStatus.
          let oldConds =
                (case find (\<lambda>old. ngs_ProviderID ngStatus = ngs_ProviderID old)
                        (st_NodeGroupStatuses oldStatus) of
                   None \<Rightarrow> [] | Some old \<Rightarrow> ngs_Conditions old)
          in \<lparr>ngs_ProviderID = ngs_ProviderID ngStatus,
              ngs_Conditions = updateLastTransitionSingleList oldConds (ngs_Conditions ngStatus)\<rparr>)
          (st_NodeGroupStatuses newStatus),
      st_ClusterwideConditions =
        updateLastTransitionSingleList (st_ClusterwideConditions oldStatus)
          (st_ClusterwideConditions newStatus)\<rparr>"

definition nodeGroup_status :: "clusterStateRegistry \<Rightarrow> time \<Rightarrow> nodeGroup \<Rightarrow> nodeGroupStatus" where
  "nodeGroup_status csr now ng =
     (let id = ng_Id ng;
          r = mget0 zeroReadiness (csr_perNodeGroupReadiness csr) id;
          a = mget0 zeroRange (csr_acceptableRanges csr) id
      in \<lparr>ngs_ProviderID = id,
          ngs_Conditions =
            [buildHealthStatusNodeGroup (IsNodeGroupHealthy csr id) r a (ng_MinSize ng) (ng_MaxSize ng),
             buildScaleUpStatusNodeGroup (IsNodeGroupScalingUp csr id)
               (IsNodeGroupSafeToScaleUp csr ng now) r a,
             buildScaleDownStatusNodeGroup (mget0 [] (csr_candidatesForScaleDown csr) id)
               (csr_lastScaleDownUpdateTime csr)]\<rparr>)"

definition GetStatus :: "time \<Rightarrow> clusterStateRegistry \<Rightarrow> caStatus \<times> clusterStateRegistry" where
  "GetStatus now csr =
     (let statuses = map (nodeGroup_status csr now) (cp_NodeGroups (csr_cloudProvider csr));
          result = \<lparr>st_NodeGroupStatuses = statuses,
            st_ClusterwideConditions =
              [buildHealthStatusClusterwide (IsClusterHealthy csr) (csr_totalReadiness csr),
               buildScaleUpStatusClusterwide statuses (csr_totalReadiness csr),
               buildScaleDownStatusClusterwide (csr_candidatesForScaleDown csr)
                 (csr_lastScaleDownUpdateTime csr)]\<rparr>;
          result' = updateLastTransition (csr_lastStatus csr) result
      in (result', csr\<lparr>csr_lastStatus := result'\<rparr>))"

definition GetUpcomingNodes :: "clusterStateRegistry \<Rightarrow> (string, int) gomap" where
  "GetUpcomingNodes csr =
     foldl (\<lambda>result ng.
       let id = ng_Id ng;
           r = mget0 zeroReadiness (csr_perNodeGroupReadiness csr) id;
           ar = mget0 zeroRange (csr_acceptableRanges csr) id;
           newNodes = ar_CurrentTarget ar -
             (rd_Ready r + rd_Unready r + rd_LongNotStarted r + rd_LongUnregistered r)
       in if newNodes \<le> 0 then result else mput id newNodes result)
     [] (cp_NodeGroups (csr_cloudProvider csr))"

definition GetClusterReadiness :: "clusterStateRegistry \<Rightarrow> readiness" where
  "GetClusterReadiness csr = csr_totalReadiness csr"

definition GetClusterSize :: "clusterStateRegistry \<Rightarrow> int \<times> int" where
  "GetClusterSize csr =
     (let targetSize = foldl (\<lambda>t (_, a). t + ar_CurrentTarget a) 0 (csr_acceptableRanges csr);
          tr = csr_totalReadiness csr
      in (rd_Registered tr - rd_NotStarted tr - rd_LongNotStarted tr, targetSize))"

end
