(* ===== verification/ClusterStateReadiness.thy ===== *)
theory ClusterStateReadiness
  imports ClusterState
begin

text \<open>
  What \<open>updateReadinessStats\<close> and \<open>updateAcceptableRanges\<close> compute.  The specification of
  the readiness counters is a classification of nodes (\<open>node_class\<close>) and the number of nodes
  in each class; the loop of the code refines it.
\<close>

section \<open>The classification of nodes\<close>

datatype nodeClass = ClsDeleted | ClsLongNotStarted | ClsNotStarted | ClsReady | ClsUnready

definition node_class :: "time \<Rightarrow> node \<Rightarrow> nodeClass" where
  "node_class now n =
     (if HasToBeDeletedTaint n then ClsDeleted
      else if isNodeStillStarting n then
        (if n_CreationTimestamp n + MaxNodeStartupTime < now then ClsLongNotStarted else ClsNotStarted)
      else if nodeIsReady n then ClsReady else ClsUnready)"

definition class_count :: "time \<Rightarrow> nodeClass \<Rightarrow> node list \<Rightarrow> int" where
  "class_count now c ns = int (length (filter (\<lambda>n. node_class now n = c) ns))"

lemma class_count_Nil [simp]: "class_count now c [] = 0"
  by (simp add: class_count_def)

lemma class_count_Cons [simp]:
  "class_count now c (n # ns) = (if node_class now n = c then 1 else 0) + class_count now c ns"
  by (simp add: class_count_def)

lemma class_count_nonneg [simp]: "0 \<le> class_count now c ns"
  by (simp add: class_count_def)

lemma class_count_total:
  "class_count now ClsDeleted ns + class_count now ClsLongNotStarted ns +
   class_count now ClsNotStarted ns + class_count now ClsReady ns + class_count now ClsUnready ns =
   int (length ns)"
proof (induction ns)
  case (Cons n ns)
  then show ?case by (cases "node_class now n") simp_all
qed simp

text \<open>The readiness of a list of registered nodes, without the unregistered ones.\<close>

definition readiness_spec :: "time \<Rightarrow> node list \<Rightarrow> readiness \<Rightarrow> bool" where
  "readiness_spec now ns r \<longleftrightarrow>
     rd_Ready r = class_count now ClsReady ns \<and>
     rd_Unready r = class_count now ClsUnready ns \<and>
     rd_Deleted r = class_count now ClsDeleted ns \<and>
     rd_LongNotStarted r = class_count now ClsLongNotStarted ns \<and>
     rd_NotStarted r = class_count now ClsNotStarted ns \<and>
     rd_Registered r = int (length ns)"

text \<open>Every node is counted in exactly one of the five classes.\<close>

definition readiness_partition :: "readiness \<Rightarrow> bool" where
  "readiness_partition r \<longleftrightarrow>
     rd_Registered r = rd_Ready r + rd_Unready r + rd_Deleted r + rd_LongNotStarted r + rd_NotStarted r \<and>
     0 \<le> rd_Ready r \<and> 0 \<le> rd_Unready r \<and> 0 \<le> rd_Deleted r \<and> 0 \<le> rd_LongNotStarted r \<and>
     0 \<le> rd_NotStarted r \<and> 0 \<le> rd_LongUnregistered r \<and> 0 \<le> rd_Unregistered r"

section \<open>The loop over registered nodes\<close>

definition count_node :: "time \<Rightarrow> readiness \<Rightarrow> node \<Rightarrow> readiness" where
  "count_node now r n = update_readiness now r n (nodeIsReady n)"

definition in_group :: "cloudProvider \<Rightarrow> string \<Rightarrow> node \<Rightarrow> bool" where
  "in_group cp g n \<longleftrightarrow>
     (case cp_NodeGroupForNode cp n of Inr (Some ng) \<Rightarrow> ng_Id ng = g | _ \<Rightarrow> False)"

lemma count_node_fields:
  "rd_Registered (count_node now r n) = rd_Registered r + 1"
  "rd_Ready (count_node now r n) = rd_Ready r + (if node_class now n = ClsReady then 1 else 0)"
  "rd_Unready (count_node now r n) = rd_Unready r + (if node_class now n = ClsUnready then 1 else 0)"
  "rd_Deleted (count_node now r n) = rd_Deleted r + (if node_class now n = ClsDeleted then 1 else 0)"
  "rd_LongNotStarted (count_node now r n) =
     rd_LongNotStarted r + (if node_class now n = ClsLongNotStarted then 1 else 0)"
  "rd_NotStarted (count_node now r n) =
     rd_NotStarted r + (if node_class now n = ClsNotStarted then 1 else 0)"
  "rd_LongUnregistered (count_node now r n) = rd_LongUnregistered r"
  "rd_Unregistered (count_node now r n) = rd_Unregistered r"
  "rd_Time (count_node now r n) = rd_Time r"
  by (simp_all add: count_node_def update_readiness_def node_class_def Let_def time_defs)

lemma count_nodes_fields:
  "rd_Registered (foldl (count_node now) r ns) = rd_Registered r + int (length ns)"
  "rd_Ready (foldl (count_node now) r ns) = rd_Ready r + class_count now ClsReady ns"
  "rd_Unready (foldl (count_node now) r ns) = rd_Unready r + class_count now ClsUnready ns"
  "rd_Deleted (foldl (count_node now) r ns) = rd_Deleted r + class_count now ClsDeleted ns"
  "rd_LongNotStarted (foldl (count_node now) r ns) =
     rd_LongNotStarted r + class_count now ClsLongNotStarted ns"
  "rd_NotStarted (foldl (count_node now) r ns) =
     rd_NotStarted r + class_count now ClsNotStarted ns"
  "rd_LongUnregistered (foldl (count_node now) r ns) = rd_LongUnregistered r"
  "rd_Unregistered (foldl (count_node now) r ns) = rd_Unregistered r"
  by (induction ns arbitrary: r) (simp_all add: count_node_fields)

lemma registered_total:
  "snd (foldl (registered_step cp now) acc ns) = foldl (count_node now) (snd acc) ns"
  by (induction ns arbitrary: acc)
     (auto simp: registered_step_def count_node_def Let_def split: prod.splits)

lemma registered_step_group:
  "mget (fst (registered_step cp now acc n)) g =
     (if in_group cp g n then Some (count_node now (mget0 zeroReadiness (fst acc) g) n)
      else mget (fst acc) g)"
  by (cases acc)
     (auto simp: registered_step_def in_group_def count_node_def Let_def split: sum.splits option.splits)

lemma registered_group:
  "mget (fst (foldl (registered_step cp now) acc ns)) g =
     (if \<exists>n\<in>set ns. in_group cp g n
      then Some (foldl (count_node now) (mget0 zeroReadiness (fst acc) g) (filter (in_group cp g) ns))
      else mget (fst acc) g)"
proof (induction ns arbitrary: acc)
  case (Cons n ns)
  have "mget0 zeroReadiness (fst (registered_step cp now acc n)) g =
      (if in_group cp g n then count_node now (mget0 zeroReadiness (fst acc) g) n
       else mget0 zeroReadiness (fst acc) g)"
    by (simp add: mget0_def registered_step_group)
  then show ?case
    using Cons.IH [of "registered_step cp now acc n"] by (auto simp: registered_step_group)
qed simp

lemma gomap_ok_registered:
  "gomap_ok (fst acc) \<Longrightarrow> gomap_ok (fst (foldl (registered_step cp now) acc ns))"
proof (induction ns arbitrary: acc)
  case (Cons n ns)
  have "gomap_ok (fst (registered_step cp now acc n))"
    using Cons.prems
    by (cases acc) (auto simp: registered_step_def Let_def split: sum.splits option.splits)
  then show ?case using Cons.IH by simp
qed simp

section \<open>The loop over unregistered nodes\<close>

text \<open>
  It adds to the two unregistered counters only, so whatever holds of the other fields of a
  readiness carries over.
\<close>

definition same_registered :: "readiness \<Rightarrow> readiness \<Rightarrow> bool" where
  "same_registered r r' \<longleftrightarrow>
     rd_Ready r' = rd_Ready r \<and> rd_Unready r' = rd_Unready r \<and> rd_Deleted r' = rd_Deleted r \<and>
     rd_LongNotStarted r' = rd_LongNotStarted r \<and> rd_NotStarted r' = rd_NotStarted r \<and>
     rd_Registered r' = rd_Registered r \<and>
     rd_LongUnregistered r \<le> rd_LongUnregistered r' \<and> rd_Unregistered r \<le> rd_Unregistered r'"

lemma same_registered_refl [simp]: "same_registered r r"
  by (simp add: same_registered_def)

lemma same_registered_trans:
  "same_registered a b \<Longrightarrow> same_registered b c \<Longrightarrow> same_registered a c"
  by (auto simp: same_registered_def)

lemma same_registered_count [simp]: "same_registered r (count_unregistered long r)"
  by (simp add: same_registered_def count_unregistered_def)

lemma unregistered_loop_same:
  "unregistered_loop cp mp now us (m, t) = Some (m', t') \<Longrightarrow>
     same_registered t t' \<and> (\<forall>g. same_registered (mget0 zeroReadiness m g) (mget0 zeroReadiness m' g))"
proof (induction us arbitrary: m t)
  case (Cons u us)
  show ?case
  proof (cases "cp_NodeGroupForNode cp (un_Node u)")
    case (Inl e)
    with Cons show ?thesis by simp
  next
    case (Inr ngo)
    with Cons.prems obtain ng where ng: "ngo = Some ng" by (cases ngo) auto
    define long where "long = time_before (time_add (un_UnregisteredSince u) mp) now"
    let ?m = "mput (ng_Id ng) (count_unregistered long (mget0 zeroReadiness m (ng_Id ng))) m"
    have "unregistered_loop cp mp now us (?m, count_unregistered long t) = Some (m', t')"
      using Cons.prems Inr ng by (simp add: Let_def long_def)
    from Cons.IH [OF this] show ?thesis
      by (auto intro: same_registered_trans [OF same_registered_count] split: if_splits)
  qed
qed simp

lemma gomap_ok_unregistered_loop:
  "gomap_ok m \<Longrightarrow> unregistered_loop cp mp now us (m, t) = Some (m', t') \<Longrightarrow> gomap_ok m'"
proof (induction us arbitrary: m t)
  case (Cons u us)
  then show ?case
    by (cases "cp_NodeGroupForNode cp (un_Node u)")
       (auto simp: Let_def split: option.splits dest: gomap_ok_mput)
qed simp

lemma readiness_partition_zero [simp]: "readiness_partition zeroReadiness"
  by (simp add: readiness_partition_def zeroReadiness_def)

lemma readiness_spec_zero_group:
  assumes "\<forall>n\<in>set ns. \<not> P n"
  shows "readiness_spec now (filter P ns) zeroReadiness"
proof -
  have "filter P ns = []" using assms by (simp add: filter_empty_conv)
  then show ?thesis by (simp add: readiness_spec_def zeroReadiness_def)
qed

lemma readiness_spec_count:
  "readiness_spec now ns (foldl (count_node now) (zeroReadiness\<lparr>rd_Time := t\<rparr>) ns)"
  "readiness_spec now ns (foldl (count_node now) zeroReadiness ns)"
  by (simp_all add: readiness_spec_def count_nodes_fields zeroReadiness_def)

lemma readiness_spec_same: "readiness_spec now ns r \<Longrightarrow> same_registered r r' \<Longrightarrow> readiness_spec now ns r'"
  by (simp add: readiness_spec_def same_registered_def)

lemma readiness_spec_Time [simp]: "readiness_spec now ns (r\<lparr>rd_Time := t\<rparr>) = readiness_spec now ns r"
  by (simp add: readiness_spec_def)

lemma readiness_spec_partition:
  "readiness_spec now ns r \<Longrightarrow> 0 \<le> rd_LongUnregistered r \<Longrightarrow> 0 \<le> rd_Unregistered r \<Longrightarrow>
     readiness_partition r"
  using class_count_total [of now ns] by (simp add: readiness_spec_def readiness_partition_def)

lemma updateReadinessStats_group:
  assumes "updateReadinessStats now csr = Some csr'"
  shows "readiness_spec now (filter (in_group (csr_cloudProvider csr) g) (csr_nodes csr))
     (mget0 zeroReadiness (csr_perNodeGroupReadiness csr') g)"
    and "0 \<le> rd_LongUnregistered (mget0 zeroReadiness (csr_perNodeGroupReadiness csr') g)"
    and "0 \<le> rd_Unregistered (mget0 zeroReadiness (csr_perNodeGroupReadiness csr') g)"
proof -
  let ?cp = "csr_cloudProvider csr"
  obtain m t where acc: "foldl (registered_step ?cp now) ([], zeroReadiness\<lparr>rd_Time := now\<rparr>)
      (csr_nodes csr) = (m, t)" by force
  obtain m' t' where lp: "unregistered_loop ?cp (cfg_MaxNodeProvisionTime (csr_config csr)) now
      (map snd (csr_unregisteredNodes csr)) (m, t) = Some (m', t')"
    and csr': "csr_perNodeGroupReadiness csr' = map (\<lambda>(gid, r). (gid, r\<lparr>rd_Time := now\<rparr>)) m'"
    using assms acc by (auto simp: updateReadinessStats_def Let_def split: option.splits prod.splits)
  have "mget m g = (if \<exists>n\<in>set (csr_nodes csr). in_group ?cp g n
      then Some (foldl (count_node now) zeroReadiness (filter (in_group ?cp g) (csr_nodes csr)))
      else None)"
    using registered_group [of ?cp now "([], zeroReadiness\<lparr>rd_Time := now\<rparr>)" "csr_nodes csr" g] acc
    by (simp add: mget0_def)
  then have m: "mget0 zeroReadiness m g =
      foldl (count_node now) zeroReadiness (filter (in_group ?cp g) (csr_nodes csr))"
    by (auto simp: mget0_def filter_empty_conv split: if_splits)
  have same: "same_registered (mget0 zeroReadiness m g) (mget0 zeroReadiness m' g)"
    using unregistered_loop_same [OF lp] by blast
  have eq: "mget0 zeroReadiness (csr_perNodeGroupReadiness csr') g =
      (case mget m' g of None \<Rightarrow> zeroReadiness | Some r \<Rightarrow> r\<lparr>rd_Time := now\<rparr>)"
    by (simp add: csr' mget0_def mget_map_val split: option.splits)
  have spec: "readiness_spec now (filter (in_group ?cp g) (csr_nodes csr)) (mget0 zeroReadiness m' g)"
    using readiness_spec_same [OF _ same] m readiness_spec_count(2) by simp
  have nonneg: "0 \<le> rd_LongUnregistered (mget0 zeroReadiness m' g)"
    "0 \<le> rd_Unregistered (mget0 zeroReadiness m' g)"
    using same unfolding m same_registered_def by (simp_all add: count_nodes_fields zeroReadiness_def)
  show "readiness_spec now (filter (in_group ?cp g) (csr_nodes csr))
     (mget0 zeroReadiness (csr_perNodeGroupReadiness csr') g)"
    and "0 \<le> rd_LongUnregistered (mget0 zeroReadiness (csr_perNodeGroupReadiness csr') g)"
    and "0 \<le> rd_Unregistered (mget0 zeroReadiness (csr_perNodeGroupReadiness csr') g)"
    using spec nonneg unfolding eq by (simp_all add: mget0_def split: option.splits)
qed

lemma updateReadinessStats_total:
  assumes "updateReadinessStats now csr = Some csr'"
  shows "readiness_spec now (csr_nodes csr) (csr_totalReadiness csr')"
    and "readiness_partition (csr_totalReadiness csr')"
proof -
  let ?cp = "csr_cloudProvider csr" and ?z = "zeroReadiness\<lparr>rd_Time := now\<rparr>"
  obtain m t where acc: "foldl (registered_step ?cp now) ([], ?z) (csr_nodes csr) = (m, t)" by force
  obtain m' t' where lp: "unregistered_loop ?cp (cfg_MaxNodeProvisionTime (csr_config csr)) now
      (map snd (csr_unregisteredNodes csr)) (m, t) = Some (m', t')"
    and csr': "csr_totalReadiness csr' = t'"
    using assms acc by (auto simp: updateReadinessStats_def Let_def split: option.splits prod.splits)
  have t: "t = foldl (count_node now) ?z (csr_nodes csr)"
    using registered_total [of ?cp now "([], ?z)" "csr_nodes csr"] acc by simp
  have same: "same_registered t t'" using unregistered_loop_same [OF lp] by blast
  show spec: "readiness_spec now (csr_nodes csr) (csr_totalReadiness csr')"
    unfolding csr' using readiness_spec_same [OF _ same] t readiness_spec_count(1) by simp
  show "readiness_partition (csr_totalReadiness csr')"
  proof (rule readiness_spec_partition [OF spec])
    show "0 \<le> rd_LongUnregistered (csr_totalReadiness csr')" "0 \<le> rd_Unregistered (csr_totalReadiness csr')"
      using same unfolding csr' t same_registered_def
      by (simp_all add: count_nodes_fields zeroReadiness_def)
  qed
qed

lemma updateReadinessStats_frame:
  assumes "updateReadinessStats now csr = Some csr'"
  shows "csr_scaleUpRequests csr' = csr_scaleUpRequests csr"
    "csr_scaleDownRequests csr' = csr_scaleDownRequests csr"
    "csr_nodeGroupBackoffInfo csr' = csr_nodeGroupBackoffInfo csr"
    "csr_cloudProvider csr' = csr_cloudProvider csr" "csr_config csr' = csr_config csr"
    "csr_nodes csr' = csr_nodes csr" "csr_unregisteredNodes csr' = csr_unregisteredNodes csr"
    "csr_incorrectNodeGroupSizes csr' = csr_incorrectNodeGroupSizes csr"
    "csr_candidatesForScaleDown csr' = csr_candidatesForScaleDown csr"
  using assms by (auto simp: updateReadinessStats_def Let_def split: option.splits prod.splits)

lemma gomap_ok_updateReadinessStats:
  assumes "updateReadinessStats now csr = Some csr'"
  shows "gomap_ok (csr_perNodeGroupReadiness csr')"
proof -
  let ?cp = "csr_cloudProvider csr" and ?z = "zeroReadiness\<lparr>rd_Time := now\<rparr>"
  obtain m t where acc: "foldl (registered_step ?cp now) ([], ?z) (csr_nodes csr) = (m, t)" by force
  obtain m' t' where lp: "unregistered_loop ?cp (cfg_MaxNodeProvisionTime (csr_config csr)) now
      (map snd (csr_unregisteredNodes csr)) (m, t) = Some (m', t')"
    and csr': "csr_perNodeGroupReadiness csr' = map (\<lambda>(gid, r). (gid, r\<lparr>rd_Time := now\<rparr>)) m'"
    using assms acc by (auto simp: updateReadinessStats_def Let_def split: option.splits prod.splits)
  have "gomap_ok m" using gomap_ok_registered [of "([], ?z)" ?cp now "csr_nodes csr"] acc by simp
  from gomap_ok_unregistered_loop [OF this lp] show ?thesis
    unfolding csr' by (rule gomap_ok_map_val)
qed

section \<open>The acceptable ranges\<close>

text \<open>A loop that stores, per element, a value that only depends on its key.\<close>

lemma mget_store_by_key:
  "mget (foldl (\<lambda>m x. mput (f x) (g (f x)) m) m0 xs) k =
     (if k \<in> f ` set xs then Some (g k) else mget m0 k)"
proof (induction xs rule: rev_induct)
  case (snoc x xs)
  then show ?case by (cases "k = f x") auto
qed simp

lemma gomap_ok_store_by_key:
  "gomap_ok m0 \<Longrightarrow> gomap_ok (foldl (\<lambda>m x. mput (f x) (h x m) m) m0 xs)"
  by (induction xs arbitrary: m0) auto

definition scaleDowns_of :: "clusterStateRegistry \<Rightarrow> string \<Rightarrow> int" where
  "scaleDowns_of csr gid =
     int (length (filter (\<lambda>req. ng_Id (sdr_NodeGroup req) = gid) (csr_scaleDownRequests csr)))"

definition increase_of :: "clusterStateRegistry \<Rightarrow> string \<Rightarrow> int" where
  "increase_of csr gid =
     (case mget (csr_scaleUpRequests csr) gid of None \<Rightarrow> 0 | Some req \<Rightarrow> sur_Increase req)"

lemma range_after_scaleUps:
  assumes "gomap_ok sur"
  shows "mget (foldl range_scaleUp m0 sur) k =
     (case mget sur k of
        None \<Rightarrow> mget m0 k
      | Some req \<Rightarrow> Some ((mget0 zeroRange m0 k)
           \<lparr>ar_MinNodes := ar_MinNodes (mget0 zeroRange m0 k) - sur_Increase req\<rparr>))"
  using assms
proof (induction sur arbitrary: m0)
  case (Cons e sur)
  obtain name req where e: "e = (name, req)" by force
  have fresh: "mget sur name = None" "gomap_ok sur"
    using Cons.prems e by (simp_all add: gomap_ok_Cons)
  show ?case using Cons.IH [OF fresh(2)] fresh(1)
    by (auto simp: e range_scaleUp_def Let_def mget0_def split: option.splits)
qed simp

definition scaleDown_count :: "string \<Rightarrow> scaleDownRequest list \<Rightarrow> int" where
  "scaleDown_count k reqs = int (length (filter (\<lambda>req. ng_Id (sdr_NodeGroup req) = k) reqs))"

lemma range_after_scaleDowns:
  "mget (foldl range_scaleDown m0 reqs) k =
     (if scaleDown_count k reqs = 0 then mget m0 k
      else Some ((mget0 zeroRange m0 k)
           \<lparr>ar_MaxNodes := ar_MaxNodes (mget0 zeroRange m0 k) + scaleDown_count k reqs\<rparr>))"
proof (induction reqs arbitrary: m0)
  case Nil
  then show ?case by (simp add: scaleDown_count_def)
next
  case (Cons r rs)
  have nn: "0 \<le> scaleDown_count k rs" by (simp add: scaleDown_count_def)
  show ?case using Cons.IH nn
    by (auto simp: range_scaleDown_def Let_def mget0_def scaleDown_count_def)
qed

lemma updateAcceptableRanges_mget:
  assumes "gomap_ok (csr_scaleUpRequests csr)"
  shows "mget0 zeroRange (csr_acceptableRanges (updateAcceptableRanges ts csr)) gid =
     (let base = (if gid \<in> ng_Id ` set (cp_NodeGroups (csr_cloudProvider csr))
                  then target_range ts csr gid else zeroRange)
      in base\<lparr>ar_MinNodes := ar_MinNodes base - increase_of csr gid,
              ar_MaxNodes := ar_MaxNodes base + scaleDowns_of csr gid\<rparr>)"
proof -
  have *: "mget0 z m k = (case mget m k of None \<Rightarrow> z | Some v \<Rightarrow> v)" for z :: acceptableRange and m k
    by (rule mget0_def)
  show ?thesis
    by (simp add: updateAcceptableRanges_def Let_def * range_after_scaleDowns
        range_after_scaleUps [OF assms] mget_store_by_key increase_of_def scaleDowns_of_def
        flip: scaleDown_count_def split: option.splits)
qed

lemma updateAcceptableRanges_has:
  assumes "gomap_ok (csr_scaleUpRequests csr)"
  shows "mhas (csr_acceptableRanges (updateAcceptableRanges ts csr)) gid \<longleftrightarrow>
     gid \<in> ng_Id ` set (cp_NodeGroups (csr_cloudProvider csr)) \<or>
     mhas (csr_scaleUpRequests csr) gid \<or> scaleDowns_of csr gid \<noteq> 0"
  by (auto simp: mhas_def updateAcceptableRanges_def Let_def range_after_scaleDowns
      range_after_scaleUps [OF assms] mget_store_by_key scaleDowns_of_def
      simp flip: scaleDown_count_def split: option.splits if_splits)

lemma updateAcceptableRanges_range:
  assumes "gomap_ok (csr_scaleUpRequests csr)"
    and "gid \<in> ng_Id ` set (cp_NodeGroups (csr_cloudProvider csr))"
  shows "mget (csr_acceptableRanges (updateAcceptableRanges ts csr)) gid =
     Some \<lparr>ar_MinNodes = mget0 0 ts gid
             - rd_LongUnregistered (mget0 zeroReadiness (csr_perNodeGroupReadiness csr) gid)
             - increase_of csr gid,
           ar_MaxNodes = mget0 0 ts gid + scaleDowns_of csr gid,
           ar_CurrentTarget = mget0 0 ts gid\<rparr>"
proof -
  let ?m = "csr_acceptableRanges (updateAcceptableRanges ts csr)"
  have "mhas ?m gid" using assms by (simp add: updateAcceptableRanges_has)
  then have "mget ?m gid = Some (mget0 zeroRange ?m gid)"
    by (auto simp: mhas_def mget0_def)
  then show ?thesis
    using assms by (simp add: updateAcceptableRanges_mget target_range_def Let_def)
qed

lemma range_scaleUp_ok: "gomap_ok m \<Longrightarrow> gomap_ok (foldl range_scaleUp m xs)"
  by (induction xs arbitrary: m) (auto simp: range_scaleUp_def Let_def)

lemma range_scaleDown_ok: "gomap_ok m \<Longrightarrow> gomap_ok (foldl range_scaleDown m xs)"
  by (induction xs arbitrary: m) (auto simp: range_scaleDown_def Let_def)

lemma gomap_ok_updateAcceptableRanges:
  "gomap_ok (csr_acceptableRanges (updateAcceptableRanges ts csr))"
  by (simp add: updateAcceptableRanges_def Let_def range_scaleUp_ok range_scaleDown_ok
      am.invar_store_loop)

lemma updateAcceptableRanges_frame [simp]:
  "csr_scaleUpRequests (updateAcceptableRanges ts csr) = csr_scaleUpRequests csr"
  "csr_scaleDownRequests (updateAcceptableRanges ts csr) = csr_scaleDownRequests csr"
  "csr_nodeGroupBackoffInfo (updateAcceptableRanges ts csr) = csr_nodeGroupBackoffInfo csr"
  "csr_cloudProvider (updateAcceptableRanges ts csr) = csr_cloudProvider csr"
  "csr_config (updateAcceptableRanges ts csr) = csr_config csr"
  "csr_nodes (updateAcceptableRanges ts csr) = csr_nodes csr"
  "csr_unregisteredNodes (updateAcceptableRanges ts csr) = csr_unregisteredNodes csr"
  "csr_perNodeGroupReadiness (updateAcceptableRanges ts csr) = csr_perNodeGroupReadiness csr"
  "csr_totalReadiness (updateAcceptableRanges ts csr) = csr_totalReadiness csr"
  "csr_incorrectNodeGroupSizes (updateAcceptableRanges ts csr) = csr_incorrectNodeGroupSizes csr"
  "csr_candidatesForScaleDown (updateAcceptableRanges ts csr) = csr_candidatesForScaleDown csr"
  by (simp_all add: updateAcceptableRanges_def Let_def)

end
