(* ===== verification/ClusterStateRun.thy ===== *)
theory ClusterStateRun
  imports ClusterStateReadiness
begin

text \<open>
  The life of scale-up requests in the registry: what \<open>updateScaleRequests\<close> does to each
  request and to the back-off of its group, whatever order Go visits the map in, and the
  registry as a state machine (\<open>csr_step\<close>) with the invariant of its reachable states.
\<close>

section \<open>One pass over the scale-up requests\<close>

definition scaleUp_finished :: "clusterStateRegistry \<Rightarrow> string \<Rightarrow> bool" where
  "scaleUp_finished csr name \<longleftrightarrow> \<not> areThereUpcomingNodes csr name"

definition scaleUp_timedOut :: "time \<Rightarrow> scaleUpRequest \<Rightarrow> bool" where
  "scaleUp_timedOut now req \<longleftrightarrow> sur_ExpectedAddTime req < now"

definition failed_info :: "nodeGroup exponentialBackoff \<Rightarrow> nodeGroup \<Rightarrow> time \<Rightarrow> exponentialBackoffInfo" where
  "failed_info b ng now =
     \<lparr>bi_duration = backoff_duration b ng now,
      bi_backoffUntil = now + backoff_duration b ng now, bi_lastFailedExecution = now\<rparr>"

lemma doBackoff_info [simp]:
  "eb_backoffInfo (fst (doBackoff b ng now)) =
     mput (eb_nodeGroupKey b ng) (failed_info b ng now) (eb_backoffInfo b)"
  "eb_maxBackoffDuration (fst (doBackoff b ng now)) = eb_maxBackoffDuration b"
  "eb_initialBackoffDuration (fst (doBackoff b ng now)) = eb_initialBackoffDuration b"
  by (simp_all add: doBackoff_def failed_info_def Let_def time_add_def)

lemma RemoveBackoff_info [simp]:
  "eb_backoffInfo (RemoveBackoff b ng) = mdel (eb_nodeGroupKey b ng) (eb_backoffInfo b)"
  "eb_maxBackoffDuration (RemoveBackoff b ng) = eb_maxBackoffDuration b"
  "eb_initialBackoffDuration (RemoveBackoff b ng) = eb_initialBackoffDuration b"
  by (simp_all add: RemoveBackoff_def)

lemma failed_info_cong:
  assumes "eb_nodeGroupKey b' = eb_nodeGroupKey b"
    and "eb_maxBackoffDuration b' = eb_maxBackoffDuration b"
    and "eb_initialBackoffDuration b' = eb_initialBackoffDuration b"
    and "mget (eb_backoffInfo b') (eb_nodeGroupKey b ng) = mget (eb_backoffInfo b) (eb_nodeGroupKey b ng)"
  shows "failed_info b' ng now = failed_info b ng now"
  using assms by (simp add: failed_info_def backoff_duration_def Let_def split: option.splits)

lemma step_cases:
  "scaleUpRequest_step now csr (name, req) =
     (if scaleUp_finished csr name then
        csr\<lparr>csr_scaleUpRequests := mdel name (csr_scaleUpRequests csr),
            csr_nodeGroupBackoffInfo := RemoveBackoff (csr_nodeGroupBackoffInfo csr) (sur_NodeGroup req)\<rparr>
      else if scaleUp_timedOut now req then
        csr\<lparr>csr_scaleUpRequests := mdel name (csr_scaleUpRequests csr),
            csr_nodeGroupBackoffInfo :=
              fst (doBackoff (csr_nodeGroupBackoffInfo csr) (sur_NodeGroup req) now)\<rparr>
      else csr)"
  by (simp add: scaleUpRequest_step_def backoffNodeGroup_def Let_def scaleUp_finished_def
      scaleUp_timedOut_def time_before_def)

lemma step_frame [simp]:
  "csr_acceptableRanges (scaleUpRequest_step now csr e) = csr_acceptableRanges csr"
  "csr_perNodeGroupReadiness (scaleUpRequest_step now csr e) = csr_perNodeGroupReadiness csr"
  "csr_scaleDownRequests (scaleUpRequest_step now csr e) = csr_scaleDownRequests csr"
  "csr_cloudProvider (scaleUpRequest_step now csr e) = csr_cloudProvider csr"
  "csr_totalReadiness (scaleUpRequest_step now csr e) = csr_totalReadiness csr"
  "csr_config (scaleUpRequest_step now csr e) = csr_config csr"
  "csr_nodes (scaleUpRequest_step now csr e) = csr_nodes csr"
  "csr_unregisteredNodes (scaleUpRequest_step now csr e) = csr_unregisteredNodes csr"
  "csr_incorrectNodeGroupSizes (scaleUpRequest_step now csr e) = csr_incorrectNodeGroupSizes csr"
  "csr_candidatesForScaleDown (scaleUpRequest_step now csr e) = csr_candidatesForScaleDown csr"
  "eb_nodeGroupKey (csr_nodeGroupBackoffInfo (scaleUpRequest_step now csr e)) =
     eb_nodeGroupKey (csr_nodeGroupBackoffInfo csr)"
  by (cases e; simp add: step_cases)+

lemma steps_frame [simp]:
  "csr_acceptableRanges (foldl (scaleUpRequest_step now) csr es) = csr_acceptableRanges csr"
  "csr_perNodeGroupReadiness (foldl (scaleUpRequest_step now) csr es) = csr_perNodeGroupReadiness csr"
  "csr_scaleDownRequests (foldl (scaleUpRequest_step now) csr es) = csr_scaleDownRequests csr"
  "csr_cloudProvider (foldl (scaleUpRequest_step now) csr es) = csr_cloudProvider csr"
  "csr_totalReadiness (foldl (scaleUpRequest_step now) csr es) = csr_totalReadiness csr"
  "csr_config (foldl (scaleUpRequest_step now) csr es) = csr_config csr"
  "csr_nodes (foldl (scaleUpRequest_step now) csr es) = csr_nodes csr"
  "csr_unregisteredNodes (foldl (scaleUpRequest_step now) csr es) = csr_unregisteredNodes csr"
  "csr_incorrectNodeGroupSizes (foldl (scaleUpRequest_step now) csr es) = csr_incorrectNodeGroupSizes csr"
  "csr_candidatesForScaleDown (foldl (scaleUpRequest_step now) csr es) = csr_candidatesForScaleDown csr"
  "eb_nodeGroupKey (csr_nodeGroupBackoffInfo (foldl (scaleUpRequest_step now) csr es)) =
     eb_nodeGroupKey (csr_nodeGroupBackoffInfo csr)"
  by (induction es arbitrary: csr) simp_all

lemma areThereUpcomingNodes_cong:
  assumes "csr_acceptableRanges csr' = csr_acceptableRanges csr"
    and "csr_perNodeGroupReadiness csr' = csr_perNodeGroupReadiness csr"
  shows "areThereUpcomingNodes csr' name = areThereUpcomingNodes csr name"
  using assms
  by (simp add: areThereUpcomingNodes_def getProvisionedAndTargetSizes_def split: option.splits)

lemma finished_step [simp]:
  "scaleUp_finished (scaleUpRequest_step now csr e) name = scaleUp_finished csr name"
  by (simp add: scaleUp_finished_def cong: areThereUpcomingNodes_cong)

lemma finished_update [simp]:
  "scaleUp_finished (csr\<lparr>csr_nodeGroupBackoffInfo := b\<rparr>) k = scaleUp_finished csr k"
  "scaleUp_finished (csr\<lparr>csr_scaleUpRequests := m\<rparr>) k = scaleUp_finished csr k"
  by (simp_all add: scaleUp_finished_def cong: areThereUpcomingNodes_cong)

text \<open>The requests are filed under the id of their node group.\<close>

definition keyed_by_group :: "(string, scaleUpRequest) gomap \<Rightarrow> bool" where
  "keyed_by_group m \<longleftrightarrow> (\<forall>(k, req)\<in>set m. ng_Id (sur_NodeGroup req) = k)"

lemma steps_requests:
  assumes "gomap_ok es"
  shows "mget (csr_scaleUpRequests (foldl (scaleUpRequest_step now) csr es)) k =
     (case mget es k of
        None \<Rightarrow> mget (csr_scaleUpRequests csr) k
      | Some req \<Rightarrow> if scaleUp_finished csr k \<or> scaleUp_timedOut now req then None
                    else mget (csr_scaleUpRequests csr) k)"
  using assms
proof (induction es arbitrary: csr)
  case (Cons e es)
  obtain name req where e: "e = (name, req)" by force
  have fresh: "mget es name = None" "gomap_ok es"
    using Cons.prems e by (simp_all add: gomap_ok_Cons)
  show ?case using Cons.IH [OF fresh(2), of "scaleUpRequest_step now csr e"] fresh(1)
    by (auto simp: e step_cases [of now csr name req] split: option.splits)
qed simp

lemma gomap_ok_steps:
  "gomap_ok (csr_scaleUpRequests csr) \<Longrightarrow>
     gomap_ok (csr_scaleUpRequests (foldl (scaleUpRequest_step now) csr es))"
proof (induction es arbitrary: csr)
  case (Cons e es)
  have "gomap_ok (csr_scaleUpRequests (scaleUpRequest_step now csr e))"
    using Cons.prems by (cases e) (simp add: step_cases)
  then show ?case using Cons.IH by simp
qed simp

lemma backoff_ok_steps:
  "backoff_ok (csr_nodeGroupBackoffInfo csr) \<Longrightarrow>
     backoff_ok (csr_nodeGroupBackoffInfo (foldl (scaleUpRequest_step now) csr es))"
proof (induction es arbitrary: csr)
  case (Cons e es)
  have "backoff_ok (csr_nodeGroupBackoffInfo (scaleUpRequest_step now csr e))"
    using Cons.prems by (cases e) (simp add: step_cases eb.invar_clear eb.invar_start)
  then show ?case using Cons.IH by simp
qed simp

lemma steps_backoff:
  assumes "gomap_ok es" "keyed_by_group es"
    and "eb_nodeGroupKey (csr_nodeGroupBackoffInfo csr) = ng_Id"
  shows "mget (eb_backoffInfo (csr_nodeGroupBackoffInfo (foldl (scaleUpRequest_step now) csr es))) k =
     (case mget es k of
        None \<Rightarrow> mget (eb_backoffInfo (csr_nodeGroupBackoffInfo csr)) k
      | Some req \<Rightarrow>
          if scaleUp_finished csr k then None
          else if scaleUp_timedOut now req
               then Some (failed_info (csr_nodeGroupBackoffInfo csr) (sur_NodeGroup req) now)
          else mget (eb_backoffInfo (csr_nodeGroupBackoffInfo csr)) k)"
  using assms
proof (induction es arbitrary: csr)
  case (Cons e es)
  obtain name req where e: "e = (name, req)" by force
  have fresh: "mget es name = None" "gomap_ok es" "keyed_by_group es"
    and nm: "ng_Id (sur_NodeGroup req) = name"
    using Cons.prems e by (auto simp: gomap_ok_Cons keyed_by_group_def)
  let ?csr = "scaleUpRequest_step now csr e"
  let ?b = "csr_nodeGroupBackoffInfo csr" and ?b' = "csr_nodeGroupBackoffInfo ?csr"
  have here: "mget (eb_backoffInfo ?b') k' =
      (if k' \<noteq> name then mget (eb_backoffInfo ?b) k'
       else if scaleUp_finished csr name then None
       else if scaleUp_timedOut now req then Some (failed_info ?b (sur_NodeGroup req) now)
       else mget (eb_backoffInfo ?b) name)" for k'
    using Cons.prems(3) nm by (simp add: e step_cases [of now csr name req])
  have cfg: "eb_maxBackoffDuration ?b' = eb_maxBackoffDuration ?b"
    "eb_initialBackoffDuration ?b' = eb_initialBackoffDuration ?b" "eb_nodeGroupKey ?b' = ng_Id"
    using Cons.prems(3) by (simp_all add: e step_cases [of now csr name req])
  have other: "failed_info ?b' (sur_NodeGroup r) now = failed_info ?b (sur_NodeGroup r) now"
    if "mget es k = Some r" for r
  proof (rule failed_info_cong)
    have "ng_Id (sur_NodeGroup r) = k" "k \<noteq> name"
      using that fresh by (auto simp: keyed_by_group_def dest: mget_SomeD)
    then show "mget (eb_backoffInfo ?b') (eb_nodeGroupKey ?b (sur_NodeGroup r)) =
        mget (eb_backoffInfo ?b) (eb_nodeGroupKey ?b (sur_NodeGroup r))"
      using Cons.prems(3) here by simp
  qed (use cfg Cons.prems(3) in simp_all)
  show ?case
    using Cons.IH [OF fresh(2,3), of ?csr] cfg(3) fresh(1) here other
    by (auto simp: e split: option.splits)
qed simp

section \<open>The whole update\<close>

definition registry_ok :: "clusterStateRegistry \<Rightarrow> bool" where
  "registry_ok csr \<longleftrightarrow>
     gomap_ok (csr_scaleUpRequests csr) \<and> keyed_by_group (csr_scaleUpRequests csr) \<and>
     gomap_ok (csr_acceptableRanges csr) \<and> gomap_ok (csr_perNodeGroupReadiness csr) \<and>
     gomap_ok (csr_unregisteredNodes csr) \<and> gomap_ok (csr_incorrectNodeGroupSizes csr) \<and>
     gomap_ok (csr_candidatesForScaleDown csr) \<and>
     backoff_ok (csr_nodeGroupBackoffInfo csr) \<and>
     eb_nodeGroupKey (csr_nodeGroupBackoffInfo csr) = ng_Id \<and>
     (\<forall>k u. mget (csr_unregisteredNodes csr) k = Some u \<longrightarrow> un_Node u = stub_node k) \<and>
     readiness_partition (csr_totalReadiness csr) \<and>
     (\<forall>g. readiness_partition (mget0 zeroReadiness (csr_perNodeGroupReadiness csr) g))"

lemma keyed_by_group_mget:
  "gomap_ok m \<Longrightarrow> keyed_by_group m \<longleftrightarrow> (\<forall>k req. mget m k = Some req \<longrightarrow> ng_Id (sur_NodeGroup req) = k)"
  by (auto simp: keyed_by_group_def mget_eq_Some_iff)

lemma updateScaleRequests_requests:
  assumes "registry_ok csr"
  shows "mget (csr_scaleUpRequests (updateScaleRequests now csr)) k =
     (case mget (csr_scaleUpRequests csr) k of
        None \<Rightarrow> None
      | Some req \<Rightarrow> if scaleUp_finished csr k \<or> scaleUp_timedOut now req then None else Some req)"
  using assms
  by (simp add: updateScaleRequests_def Let_def steps_requests registry_ok_def split: option.splits)

lemma updateScaleRequests_backoff:
  assumes "registry_ok csr"
    and "b0 = RemoveStaleBackoffData (csr_nodeGroupBackoffInfo csr) now"
  shows "mget (eb_backoffInfo (csr_nodeGroupBackoffInfo (updateScaleRequests now csr))) k =
     (case mget (csr_scaleUpRequests csr) k of
        None \<Rightarrow> mget (eb_backoffInfo b0) k
      | Some req \<Rightarrow>
          if scaleUp_finished csr k then None
          else if scaleUp_timedOut now req then Some (failed_info b0 (sur_NodeGroup req) now)
          else mget (eb_backoffInfo b0) k)"
proof -
  let ?csr0 = "csr\<lparr>csr_nodeGroupBackoffInfo := b0\<rparr>"
  have "eb_nodeGroupKey (csr_nodeGroupBackoffInfo ?csr0) = ng_Id"
    using assms by (simp add: registry_ok_def)
  from steps_backoff [OF _ _ this, of "csr_scaleUpRequests csr" now k] assms show ?thesis
    by (simp add: updateScaleRequests_def Let_def registry_ok_def split: option.splits)
qed

lemma updateScaleRequests_frame [simp]:
  "csr_acceptableRanges (updateScaleRequests now csr) = csr_acceptableRanges csr"
  "csr_perNodeGroupReadiness (updateScaleRequests now csr) = csr_perNodeGroupReadiness csr"
  "csr_cloudProvider (updateScaleRequests now csr) = csr_cloudProvider csr"
  "csr_totalReadiness (updateScaleRequests now csr) = csr_totalReadiness csr"
  "csr_config (updateScaleRequests now csr) = csr_config csr"
  "csr_nodes (updateScaleRequests now csr) = csr_nodes csr"
  "csr_unregisteredNodes (updateScaleRequests now csr) = csr_unregisteredNodes csr"
  "csr_incorrectNodeGroupSizes (updateScaleRequests now csr) = csr_incorrectNodeGroupSizes csr"
  "csr_candidatesForScaleDown (updateScaleRequests now csr) = csr_candidatesForScaleDown csr"
  "eb_nodeGroupKey (csr_nodeGroupBackoffInfo (updateScaleRequests now csr)) =
     eb_nodeGroupKey (csr_nodeGroupBackoffInfo csr)"
  by (simp_all add: updateScaleRequests_def Let_def)

lemma registry_ok_updateScaleRequests:
  assumes "registry_ok csr"
  shows "registry_ok (updateScaleRequests now csr)"
proof -
  let ?csr = "updateScaleRequests now csr"
  have ok: "gomap_ok (csr_scaleUpRequests ?csr)" "backoff_ok (csr_nodeGroupBackoffInfo ?csr)"
    using assms by (simp_all add: updateScaleRequests_def Let_def gomap_ok_steps backoff_ok_steps
        registry_ok_def eb.invar_expire)
  moreover have "keyed_by_group (csr_scaleUpRequests ?csr)"
    using assms unfolding keyed_by_group_mget [OF ok(1)]
    by (auto simp: updateScaleRequests_requests [OF assms] registry_ok_def keyed_by_group_mget
        split: option.splits if_splits)
  ultimately show ?thesis using assms by (simp add: registry_ok_def)
qed

lemma registry_ok_updateAcceptableRanges:
  "registry_ok csr \<Longrightarrow> registry_ok (updateAcceptableRanges ts csr)"
  by (simp add: registry_ok_def gomap_ok_updateAcceptableRanges)

lemma incorrectSize_step_ok: "gomap_ok m \<Longrightarrow> gomap_ok (incorrectSize_step now csr m ng)"
  by (auto simp: incorrectSize_step_def Let_def split: option.splits)

lemma registry_ok_updateIncorrect:
  "registry_ok csr \<Longrightarrow> registry_ok (updateIncorrectNodeGroupSizes now csr)"
proof -
  have "gomap_ok (foldl (incorrectSize_step now csr) m ngs)" if "gomap_ok m" for m ngs
    using that by (induction ngs arbitrary: m) (auto simp: incorrectSize_step_ok)
  then show "registry_ok csr \<Longrightarrow> ?thesis"
    by (simp add: registry_ok_def updateIncorrectNodeGroupSizes_def)
qed

text \<open>The ids of the instances the provider lists that no registered node has.\<close>

definition group_instances :: "nodeGroup \<Rightarrow> string list" where
  "group_instances ng = (case ng_Nodes ng of Inl _ \<Rightarrow> [] | Inr ids \<Rightarrow> ids)"

definition missing_ids :: "node list \<Rightarrow> cloudProvider \<Rightarrow> string list" where
  "missing_ids nodes cp =
     filter (\<lambda>i. i \<notin> n_ProviderID ` set nodes) (concat (map group_instances (cp_NodeGroups cp)))"

lemma getNotRegistered_from_eq:
  "getNotRegistered_from reg now ngs acc = Inr us \<Longrightarrow>
     us = acc @ map (missing_node now)
       (filter (\<lambda>i. i \<notin> reg) (concat (map group_instances ngs)))"
proof (induction ngs arbitrary: acc)
  case (Cons ng ngs)
  then obtain ids where ids: "ng_Nodes ng = Inr ids" by (cases "ng_Nodes ng") auto
  with Cons.IH [of "acc @ map (missing_node now) (filter (\<lambda>i. i \<notin> reg) ids)"] Cons.prems
  show ?case by (simp add: group_instances_def)
qed simp

lemma missing_node_name [simp]: "n_Name (un_Node (missing_node now i)) = i"
  by (simp add: missing_node_def stub_node_def)

lemma getNotRegisteredNodes_eq:
  "getNotRegisteredNodes nodes cp now = Inr us \<Longrightarrow> us = map (missing_node now) (missing_ids nodes cp)"
  by (auto simp: getNotRegisteredNodes_def missing_ids_def dest: getNotRegistered_from_eq)

lemma updateUnregistered_mget:
  "mget (csr_unregisteredNodes (updateUnregisteredNodes (map (missing_node now) ids) csr)) k =
     (if k \<in> set ids
      then Some (case mget (csr_unregisteredNodes csr) k of Some prev \<Rightarrow> prev | None \<Rightarrow> missing_node now k)
      else None)"
proof -
  let ?g = "\<lambda>i. case mget (csr_unregisteredNodes csr) i of Some prev \<Rightarrow> prev | None \<Rightarrow> missing_node now i"
  have "csr_unregisteredNodes (updateUnregisteredNodes (map (missing_node now) ids) csr) =
      foldl (\<lambda>m i. mput i (?g i) m) [] ids"
    by (simp add: updateUnregisteredNodes_def foldl_map)
  then show ?thesis using mget_store_by_key [of "\<lambda>i. i" ?g "[]" ids k] by simp
qed

lemma registry_ok_updateUnregistered:
  assumes "registry_ok csr"
  shows "registry_ok (updateUnregisteredNodes (map (missing_node now) ids) csr)"
proof -
  let ?csr = "updateUnregisteredNodes (map (missing_node now) ids) csr"
  have "un_Node u = stub_node k" if "mget (csr_unregisteredNodes ?csr) k = Some u" for k u
    using that assms
    by (auto simp: updateUnregistered_mget registry_ok_def missing_node_def
        split: if_splits option.splits)
  moreover have "gomap_ok (csr_unregisteredNodes ?csr)"
    by (simp add: updateUnregisteredNodes_def am.invar_store_loop)
  moreover have "csr_scaleUpRequests ?csr = csr_scaleUpRequests csr"
    "csr_acceptableRanges ?csr = csr_acceptableRanges csr"
    "csr_perNodeGroupReadiness ?csr = csr_perNodeGroupReadiness csr"
    "csr_incorrectNodeGroupSizes ?csr = csr_incorrectNodeGroupSizes csr"
    "csr_candidatesForScaleDown ?csr = csr_candidatesForScaleDown csr"
    "csr_nodeGroupBackoffInfo ?csr = csr_nodeGroupBackoffInfo csr"
    "csr_totalReadiness ?csr = csr_totalReadiness csr"
    by (simp_all add: updateUnregisteredNodes_def)
  ultimately show ?thesis using assms by (simp add: registry_ok_def)
qed

lemma registry_ok_updateReadinessStats:
  assumes "registry_ok csr" "updateReadinessStats now csr = Some csr'"
  shows "registry_ok csr'"
proof -
  have "readiness_partition (mget0 zeroReadiness (csr_perNodeGroupReadiness csr') g)" for g
    using updateReadinessStats_group [OF assms(2), of g] by (rule readiness_spec_partition)
  moreover have "csr_acceptableRanges csr' = csr_acceptableRanges csr"
    using assms(2) by (auto simp: updateReadinessStats_def Let_def split: option.splits prod.splits)
  ultimately show ?thesis
    using assms(1) updateReadinessStats_total(2) [OF assms(2)]
      gomap_ok_updateReadinessStats [OF assms(2)] updateReadinessStats_frame [OF assms(2)]
    by (simp add: registry_ok_def)
qed

text \<open>A successful update, taken apart.\<close>

lemma UpdateNodes_Inr:
  assumes "UpdateNodes nodes now csr = Some (Inr csr')"
  obtains ts csr1 csr2 where
    "getTargetSizes (csr_cloudProvider csr) = Inr ts"
    "updateReadinessStats now (updateUnregisteredNodes
        (map (missing_node now) (missing_ids nodes (csr_cloudProvider csr)))
        (csr\<lparr>csr_nodes := nodes\<rparr>)) = Some csr1"
    "csr2 = updateScaleRequests now (updateAcceptableRanges ts csr1)"
    "csr' = updateIncorrectNodeGroupSizes now (updateAcceptableRanges ts csr2)"
  using assms
  by (auto simp: UpdateNodes_def split: sum.splits option.splits dest!: getNotRegisteredNodes_eq)

lemma registry_ok_UpdateNodes:
  assumes "registry_ok csr" "UpdateNodes nodes now csr = Some (Inr csr')"
  shows "registry_ok csr'"
  using assms(2)
proof (rule UpdateNodes_Inr)
  fix ts csr1 csr2
  assume 1: "updateReadinessStats now (updateUnregisteredNodes
        (map (missing_node now) (missing_ids nodes (csr_cloudProvider csr)))
        (csr\<lparr>csr_nodes := nodes\<rparr>)) = Some csr1"
    and 2: "csr2 = updateScaleRequests now (updateAcceptableRanges ts csr1)"
    and 3: "csr' = updateIncorrectNodeGroupSizes now (updateAcceptableRanges ts csr2)"
  have "registry_ok (csr\<lparr>csr_nodes := nodes\<rparr>)" using assms(1) by (simp add: registry_ok_def)
  then have "registry_ok csr1"
    using 1 by (blast intro: registry_ok_updateReadinessStats registry_ok_updateUnregistered)
  then show "registry_ok csr'" unfolding 2 3
    by (intro registry_ok_updateIncorrect registry_ok_updateAcceptableRanges
        registry_ok_updateScaleRequests)
qed

section \<open>The registry as a state machine\<close>

inductive csr_step :: "clusterStateRegistry \<Rightarrow> clusterStateRegistry \<Rightarrow> bool" where
  scale_up: "csr_step csr (RegisterScaleUp req csr)"
| scale_down: "csr_step csr (RegisterScaleDown sdr csr)"
| failed_scale_up: "csr_step csr (RegisterFailedScaleUp ng now csr)"
| update_nodes: "UpdateNodes nodes now csr = Some (Inr csr') \<Longrightarrow> csr_step csr csr'"
| recalculate: "csr_step csr (Recalculate csr)"
| candidates: "csr_step csr (UpdateScaleDownCandidates nodes now csr)"
| status: "csr_step csr (snd (GetStatus now csr))"
| provider: "csr_step csr (csr\<lparr>csr_cloudProvider := cp\<rparr>)"

inductive csr_reachable :: "clusterStateRegistry \<Rightarrow> bool" where
  new: "backoff_ok b \<Longrightarrow> eb_nodeGroupKey b = ng_Id \<Longrightarrow>
     csr_reachable (NewClusterStateRegistry cp config b)"
| step: "csr_reachable csr \<Longrightarrow> csr_step csr csr' \<Longrightarrow> csr_reachable csr'"

lemma registry_ok_New:
  "backoff_ok b \<Longrightarrow> eb_nodeGroupKey b = ng_Id \<Longrightarrow> registry_ok (NewClusterStateRegistry cp config b)"
  by (simp add: registry_ok_def NewClusterStateRegistry_def keyed_by_group_def mget0_def)

lemma registry_ok_RegisterScaleUp:
  assumes "registry_ok csr"
  shows "registry_ok (RegisterScaleUp req csr)"
proof -
  let ?m = "csr_scaleUpRequests (RegisterScaleUp req csr)"
  have ok: "gomap_ok (csr_scaleUpRequests csr)" using assms by (simp add: registry_ok_def)
  then have ok': "gomap_ok ?m" by (auto simp: RegisterScaleUp_def Let_def split: option.splits)
  moreover have "keyed_by_group ?m"
    using assms unfolding keyed_by_group_mget [OF ok']
    by (auto simp: RegisterScaleUp_def Let_def registry_ok_def keyed_by_group_mget
        split: option.splits if_splits)
  moreover have "registry_ok csr \<Longrightarrow> gomap_ok ?m \<Longrightarrow> keyed_by_group ?m \<Longrightarrow> ?thesis"
    by (simp add: registry_ok_def RegisterScaleUp_def Let_def)
  ultimately show ?thesis using assms by blast
qed

lemma gomap_ok_candidates: "gomap_ok m \<Longrightarrow> gomap_ok (foldl
    (\<lambda>result n. case cp_NodeGroupForNode cp n of
        Inr (Some ng) \<Rightarrow> mput (ng_Id ng) (mget0 [] result (ng_Id ng) @ [n_Name n]) result
      | _ \<Rightarrow> result) m nodes)"
proof (induction nodes arbitrary: m)
  case (Cons n nodes)
  then show ?case by (cases "cp_NodeGroupForNode cp n") (auto split: option.splits)
qed simp

lemma csr_step_ok: "csr_step csr csr' \<Longrightarrow> registry_ok csr \<Longrightarrow> registry_ok csr'"
proof (induction rule: csr_step.induct)
  case (scale_up csr req)
  then show ?case by (rule registry_ok_RegisterScaleUp)
next
  case (scale_down csr sdr)
  then show ?case by (simp add: registry_ok_def RegisterScaleDown_def)
next
  case (failed_scale_up csr ng now)
  then show ?case
    by (simp add: registry_ok_def RegisterFailedScaleUp_def backoffNodeGroup_def eb.invar_start)
next
  case (update_nodes nodes now csr csr')
  then show ?case by (blast intro: registry_ok_UpdateNodes)
next
  case (recalculate csr)
  then show ?case by (simp add: Recalculate_def registry_ok_updateAcceptableRanges)
next
  case (candidates csr nodes now)
  then show ?case by (simp add: registry_ok_def UpdateScaleDownCandidates_def gomap_ok_candidates)
next
  case (status csr now)
  then show ?case by (simp add: registry_ok_def GetStatus_def Let_def)
next
  case (provider csr cp)
  then show ?case by (simp add: registry_ok_def)
qed

lemma reachable_ok: "csr_reachable csr \<Longrightarrow> registry_ok csr"
  by (induction rule: csr_reachable.induct) (auto intro: registry_ok_New csr_step_ok)

end
