(* ===== verification/ClusterStateProps.thy ===== *)
theory ClusterStateProps
  imports ClusterStateRun
begin

text \<open>
  The properties of the \<open>ClusterStateRegistry\<close>: its invariant in every reachable state, what
  one successful \<open>UpdateNodes\<close> establishes about readiness, ranges, pending scale-ups and
  missing nodes, the health rules, and the transition times of the published status.
  The registry of the witnesses has one node group of target size one whose only instance
  has not registered.
\<close>

section \<open>A small registry\<close>

definition demo_group :: nodeGroup where
  "demo_group = \<lparr>ng_Id = ''g'', ng_MinSize = 0, ng_MaxSize = 5, ng_TargetSize = Inr 1,
     ng_Exist = True, ng_Autoprovisioned = False, ng_Nodes = Inr [''i'']\<rparr>"

definition demo_provider :: cloudProvider where
  "demo_provider = \<lparr>cp_NodeGroups = [demo_group], cp_NodeGroupForNode = (\<lambda>_. Inr (Some demo_group))\<rparr>"

definition demo_config :: registryConfig where
  "demo_config = \<lparr>cfg_MaxTotalUnreadyPercentage = Fin 45, cfg_OkTotalUnreadyCount = 3,
     cfg_MaxNodeProvisionTime = 15 * minute\<rparr>"

definition demo_backoff :: "nodeGroup exponentialBackoff" where
  "demo_backoff = NewExponentialBackoff InitialNodeGroupBackoffDuration MaxNodeGroupBackoffDuration
     NodeGroupBackoffResetTimeout ng_Id"

definition demo_request :: scaleUpRequest where
  "demo_request = \<lparr>sur_NodeGroup = demo_group, sur_Time = 0, sur_ExpectedAddTime = 15 * minute,
     sur_Increase = 1\<rparr>"

definition demo_csr :: clusterStateRegistry where
  "demo_csr = RegisterScaleUp demo_request (NewClusterStateRegistry demo_provider demo_config demo_backoff)"

lemma demo_backoff_ok: "backoff_ok demo_backoff" "eb_nodeGroupKey demo_backoff = ng_Id"
  unfolding demo_backoff_def
  by (rule backoff_ok_New)
     (simp_all add: InitialNodeGroupBackoffDuration_def MaxNodeGroupBackoffDuration_def
       NodeGroupBackoffResetTimeout_def duration_defs maxInt64_def NewExponentialBackoff_def)

lemma demo_reachable: "csr_reachable demo_csr"
  unfolding demo_csr_def
  by (rule csr_reachable.step [OF csr_reachable.new csr_step.scale_up]) (rule demo_backoff_ok)+

lemma demo_ok: "registry_ok demo_csr"
  by (rule reachable_ok) (rule demo_reachable)

lemmas demo_defs = demo_csr_def demo_provider_def demo_group_def demo_config_def demo_backoff_def
  demo_request_def RegisterScaleUp_def NewClusterStateRegistry_def

lemma demo_update_succeeds: "\<exists>csr'. UpdateNodes [] now demo_csr = Some (Inr csr')"
  by (simp add: UpdateNodes_def getTargetSizes_def getNotRegisteredNodes_def updateReadinessStats_def
      updateUnregisteredNodes_def demo_defs Let_def mput_def)

section \<open>Reachable registries\<close>

text \<open>
  C8: in every state the registry can reach, its maps have distinct keys, each scale-up
  request is filed under the id of its own group, the back-off table is well-formed, and in
  the totals and in each group every registered node is counted in exactly one of ready,
  unready, deleted, not started and long not started.
\<close>

theorem reachable_registry_ok:
  assumes "csr_reachable csr"
  shows "registry_ok csr"
  using assms by (rule reachable_ok)

lemma reachable_registry_ok_witness: "registry_ok demo_csr"
  by (rule reachable_registry_ok) (rule demo_reachable)

section \<open>What one update establishes\<close>

text \<open>
  C9: after a successful \<open>UpdateNodes\<close> the counters are exactly the sizes of the classes of
  the given nodes, over all nodes and, for each node group, over the nodes the provider puts
  in that group.
\<close>

theorem UpdateNodes_counts_classes:
  assumes "UpdateNodes nodes now csr = Some (Inr csr')"
  shows "readiness_spec now nodes (csr_totalReadiness csr') \<and>
    (\<forall>g. readiness_spec now (filter (in_group (csr_cloudProvider csr) g) nodes)
       (mget0 zeroReadiness (csr_perNodeGroupReadiness csr') g))"
  using assms
proof (rule UpdateNodes_Inr)
  fix ts csr1 csr2
  let ?csr0 = "updateUnregisteredNodes
        (map (missing_node now) (missing_ids nodes (csr_cloudProvider csr)))
        (csr\<lparr>csr_nodes := nodes\<rparr>)"
  assume 1: "updateReadinessStats now ?csr0 = Some csr1"
    and 2: "csr2 = updateScaleRequests now (updateAcceptableRanges ts csr1)"
    and 3: "csr' = updateIncorrectNodeGroupSizes now (updateAcceptableRanges ts csr2)"
  have same: "csr_totalReadiness csr' = csr_totalReadiness csr1"
    "csr_perNodeGroupReadiness csr' = csr_perNodeGroupReadiness csr1"
    unfolding 2 3 by (simp_all add: updateIncorrectNodeGroupSizes_def)
  show ?thesis unfolding same
    using updateReadinessStats_total(1) [OF 1] updateReadinessStats_group(1) [OF 1]
    by (simp add: updateUnregisteredNodes_def)
qed

lemma UpdateNodes_counts_classes_witness:
  "\<exists>csr'. UpdateNodes [] minute demo_csr = Some (Inr csr') \<and>
     readiness_spec minute [] (csr_totalReadiness csr')"
proof -
  obtain csr' where "UpdateNodes [] minute demo_csr = Some (Inr csr')"
    using demo_update_succeeds by blast
  with UpdateNodes_counts_classes [OF this] show ?thesis by blast
qed

lemma upcoming_after:
  assumes "csr_perNodeGroupReadiness c2 = csr_perNodeGroupReadiness c1"
    and "mhas (csr_acceptableRanges c1) name \<longleftrightarrow> mhas (csr_acceptableRanges c2) name"
    and "ar_CurrentTarget (mget0 zeroRange (csr_acceptableRanges c1) name) =
         ar_CurrentTarget (mget0 zeroRange (csr_acceptableRanges c2) name)"
  shows "areThereUpcomingNodes c1 name = areThereUpcomingNodes c2 name"
  using assms
  by (auto simp: areThereUpcomingNodes_def getProvisionedAndTargetSizes_def mhas_def mget0_def
      split: option.splits)

lemma range_target:
  assumes "gomap_ok (csr_scaleUpRequests csr)"
  shows "ar_CurrentTarget (mget0 zeroRange (csr_acceptableRanges (updateAcceptableRanges ts csr)) g) =
     (if g \<in> ng_Id ` set (cp_NodeGroups (csr_cloudProvider csr)) then mget0 0 ts g else 0)"
  unfolding updateAcceptableRanges_mget [OF assms]
  by (simp add: target_range_def Let_def zeroRange_def)

text \<open>
  Dropping requests between the two calls of \<open>updateAcceptableRanges\<close> does not change
  whether a group that keeps its range still waits for nodes.
\<close>

lemma upcoming_stable:
  assumes ok: "registry_ok c"
    and "c1 = updateAcceptableRanges ts c"
    and "c2 = updateAcceptableRanges ts (updateScaleRequests now c1)"
    and "mhas (csr_acceptableRanges c1) g" "mhas (csr_acceptableRanges c2) g"
  shows "areThereUpcomingNodes c1 g = areThereUpcomingNodes c2 g"
proof (rule upcoming_after)
  have "registry_ok c1" unfolding assms(2) using ok by (rule registry_ok_updateAcceptableRanges)
  then have "registry_ok (updateScaleRequests now c1)" by (rule registry_ok_updateScaleRequests)
  then have g: "gomap_ok (csr_scaleUpRequests c)"
    "gomap_ok (csr_scaleUpRequests (updateScaleRequests now c1))"
    using ok by (simp_all add: registry_ok_def)
  show "ar_CurrentTarget (mget0 zeroRange (csr_acceptableRanges c1) g) =
      ar_CurrentTarget (mget0 zeroRange (csr_acceptableRanges c2) g)"
    unfolding assms(3) range_target [OF g(2)] unfolding assms(2) range_target [OF g(1)] by simp
qed (use assms in simp_all)

lemma upcoming_has: "areThereUpcomingNodes c g \<Longrightarrow> mhas (csr_acceptableRanges c) g"
  by (auto simp: areThereUpcomingNodes_def getProvisionedAndTargetSizes_def mhas_def
      split: option.splits)

text \<open>A successful update seen from the scale-up requests.\<close>

lemma UpdateNodes_requests:
  assumes ok: "registry_ok csr" and up: "UpdateNodes nodes now csr = Some (Inr csr')"
  obtains c c1 ts where
    "registry_ok c" "registry_ok c1" "c1 = updateAcceptableRanges ts c"
    "csr_scaleUpRequests c1 = csr_scaleUpRequests csr"
    "csr_nodeGroupBackoffInfo c1 = csr_nodeGroupBackoffInfo csr"
    "csr_cloudProvider c = csr_cloudProvider csr"
    "csr_scaleUpRequests csr' = csr_scaleUpRequests (updateScaleRequests now c1)"
    "csr_nodeGroupBackoffInfo csr' = csr_nodeGroupBackoffInfo (updateScaleRequests now c1)"
    "\<And>g. areThereUpcomingNodes csr' g =
       areThereUpcomingNodes (updateAcceptableRanges ts (updateScaleRequests now c1)) g"
    "csr_acceptableRanges csr' =
       csr_acceptableRanges (updateAcceptableRanges ts (updateScaleRequests now c1))"
    "csr_scaleDownRequests csr' = csr_scaleDownRequests (updateScaleRequests now c1)"
    "csr_scaleDownRequests c1 = csr_scaleDownRequests csr"
    "getTargetSizes (csr_cloudProvider csr) = Inr ts"
    "csr_perNodeGroupReadiness csr' = csr_perNodeGroupReadiness c1"
  using up
proof (rule UpdateNodes_Inr)
  fix ts csr1 csr2
  let ?us = "map (missing_node now) (missing_ids nodes (csr_cloudProvider csr))"
  assume ts: "getTargetSizes (csr_cloudProvider csr) = Inr ts"
    and 1: "updateReadinessStats now (updateUnregisteredNodes ?us (csr\<lparr>csr_nodes := nodes\<rparr>)) = Some csr1"
    and 2: "csr2 = updateScaleRequests now (updateAcceptableRanges ts csr1)"
    and 3: "csr' = updateIncorrectNodeGroupSizes now (updateAcceptableRanges ts csr2)"
  have "registry_ok (csr\<lparr>csr_nodes := nodes\<rparr>)" using ok by (simp add: registry_ok_def)
  then have ok1: "registry_ok csr1"
    using 1 by (blast intro: registry_ok_updateReadinessStats registry_ok_updateUnregistered)
  have up: "areThereUpcomingNodes csr' g = areThereUpcomingNodes (updateAcceptableRanges ts csr2) g" for g
    unfolding 3 by (simp add: updateIncorrectNodeGroupSizes_def cong: areThereUpcomingNodes_cong)
  show thesis
    by (rule that [of csr1 "updateAcceptableRanges ts csr1" ts])
       (use ok1 registry_ok_updateAcceptableRanges [OF ok1] updateReadinessStats_frame [OF 1] up ts 2 3
         in \<open>simp_all add: updateUnregisteredNodes_def updateIncorrectNodeGroupSizes_def\<close>)
qed

text \<open>
  every scale-up request that is still pending after an update belongs to a group that is
  waiting for nodes (so \<open>IsNodeGroupScalingUp\<close> holds of it) and has not passed its expected
  add time.
\<close>

theorem pending_scale_up_in_progress:
  assumes "registry_ok csr" "UpdateNodes nodes now csr = Some (Inr csr')"
    and "mget (csr_scaleUpRequests csr') g = Some req"
  shows "IsNodeGroupScalingUp csr' g \<and> now \<le> sur_ExpectedAddTime req \<and>
    mget (csr_scaleUpRequests csr) g = Some req"
  using assms(1,2)
proof (rule UpdateNodes_requests)
  fix c c1 ts
  let ?c2 = "updateAcceptableRanges ts (updateScaleRequests now c1)"
  assume c: "registry_ok c" "registry_ok c1" "c1 = updateAcceptableRanges ts c"
    and reqs: "csr_scaleUpRequests c1 = csr_scaleUpRequests csr"
      "csr_scaleUpRequests csr' = csr_scaleUpRequests (updateScaleRequests now c1)"
    and up: "\<And>g. areThereUpcomingNodes csr' g = areThereUpcomingNodes ?c2 g"
  have pend: "mget (csr_scaleUpRequests csr) g = Some req" "areThereUpcomingNodes c1 g"
    "now \<le> sur_ExpectedAddTime req"
    using assms(3) reqs updateScaleRequests_requests [OF c(2), of now g]
    by (auto simp: scaleUp_finished_def scaleUp_timedOut_def split: option.splits if_splits)
  have ok2: "gomap_ok (csr_scaleUpRequests (updateScaleRequests now c1))"
    using registry_ok_updateScaleRequests [OF c(2)] by (simp add: registry_ok_def)
  have "mhas (csr_scaleUpRequests (updateScaleRequests now c1)) g"
    using assms(3) reqs by (simp add: mhas_def)
  then have "mhas (csr_acceptableRanges ?c2) g"
    by (simp add: updateAcceptableRanges_has [OF ok2])
  with upcoming_stable [OF c(1,3) refl upcoming_has [OF pend(2)]] pend(2)
  have "areThereUpcomingNodes csr' g" unfolding up by simp
  then show ?thesis using pend assms(3) by (simp add: IsNodeGroupScalingUp_def mhas_def)
qed

lemma pending_scale_up_in_progress_witness:
  "\<exists>csr' req. UpdateNodes [] minute demo_csr = Some (Inr csr') \<and>
     mget (csr_scaleUpRequests csr') ''g'' = Some req \<and> IsNodeGroupScalingUp csr' ''g''"
proof -
  obtain csr' where up: "UpdateNodes [] minute demo_csr = Some (Inr csr')"
    using demo_update_succeeds by blast
  have "mget (csr_scaleUpRequests (snd (case UpdateNodes [] minute demo_csr of
      Some (Inr c) \<Rightarrow> (True, c) | _ \<Rightarrow> (False, demo_csr)))) ''g'' = Some demo_request"
    by (simp add: UpdateNodes_def getTargetSizes_def getNotRegisteredNodes_def updateReadinessStats_def
        updateUnregisteredNodes_def demo_defs Let_def mput_def updateScaleRequests_def
        updateAcceptableRanges_def range_scaleUp_def target_range_def scaleUpRequest_step_def
        areThereUpcomingNodes_def getProvisionedAndTargetSizes_def updateIncorrectNodeGroupSizes_def
        mget0_def zeroReadiness_def zeroRange_def count_unregistered_def time_defs duration_defs)
  then have "mget (csr_scaleUpRequests csr') ''g'' = Some demo_request" by (simp add: up)
  with pending_scale_up_in_progress [OF demo_ok up this] up show ?thesis by blast
qed

text \<open>
  C38: a request that has timed out while its group still waits for nodes is dropped, and the
  group is backed off: \<open>IsNodeGroupSafeToScaleUp\<close> refuses it from the update on, for at least
  the initial back-off duration.
\<close>

theorem timed_out_scale_up_backs_off:
  assumes "registry_ok csr" "UpdateNodes nodes now csr = Some (Inr csr')"
    and "mget (csr_scaleUpRequests csr) g = Some req" "sur_ExpectedAddTime req < now"
    and "areThereUpcomingNodes csr' g"
    and "t < now + eb_initialBackoffDuration (csr_nodeGroupBackoffInfo csr)"
  shows "mget (csr_scaleUpRequests csr') g = None \<and>
    IsBackedOff (csr_nodeGroupBackoffInfo csr') (sur_NodeGroup req) t \<and>
    \<not> IsNodeGroupSafeToScaleUp csr' (sur_NodeGroup req) t"
  using assms(1,2)
proof (rule UpdateNodes_requests)
  fix c c1 ts
  let ?c2 = "updateAcceptableRanges ts (updateScaleRequests now c1)"
  assume c: "registry_ok c" "registry_ok c1" "c1 = updateAcceptableRanges ts c"
    and reqs: "csr_scaleUpRequests c1 = csr_scaleUpRequests csr"
      "csr_scaleUpRequests csr' = csr_scaleUpRequests (updateScaleRequests now c1)"
    and bo: "csr_nodeGroupBackoffInfo c1 = csr_nodeGroupBackoffInfo csr"
      "csr_nodeGroupBackoffInfo csr' = csr_nodeGroupBackoffInfo (updateScaleRequests now c1)"
    and up: "\<And>g. areThereUpcomingNodes csr' g = areThereUpcomingNodes ?c2 g"
  have upc2: "areThereUpcomingNodes ?c2 g" using assms(5) up by simp
  have "gomap_ok (csr_scaleUpRequests c)" using c(1) by (simp add: registry_ok_def)
  moreover have "mhas (csr_scaleUpRequests c) g"
    using assms(3) reqs(1) c(3) by (simp add: mhas_def)
  ultimately have "mhas (csr_acceptableRanges c1) g"
    unfolding c(3) by (simp add: updateAcceptableRanges_has)
  from upcoming_stable [OF c(1,3) refl this upcoming_has [OF upc2]] upc2
  have nf: "\<not> scaleUp_finished c1 g" by (simp add: scaleUp_finished_def)
  have to: "scaleUp_timedOut now req" using assms(4) by (simp add: scaleUp_timedOut_def)
  have key: "ng_Id (sur_NodeGroup req) = g"
    using assms(1,3) by (auto simp: registry_ok_def keyed_by_group_mget)
  let ?b = "RemoveStaleBackoffData (csr_nodeGroupBackoffInfo csr) now"
  have none: "mget (csr_scaleUpRequests csr') g = None"
    using assms(3) reqs to updateScaleRequests_requests [OF c(2), of now g] by simp
  have info: "mget (eb_backoffInfo (csr_nodeGroupBackoffInfo csr')) g =
      Some (failed_info ?b (sur_NodeGroup req) now)"
    using assms(3) reqs bo nf to updateScaleRequests_backoff [OF c(2) refl, of now g] by simp
  have keyf: "eb_nodeGroupKey (csr_nodeGroupBackoffInfo csr') = ng_Id"
    using bo assms(1) by (simp add: registry_ok_def)
  have okb: "backoff_ok ?b" using assms(1) by (simp add: registry_ok_def eb.invar_expire)
  have "eb_initialBackoffDuration (csr_nodeGroupBackoffInfo csr) \<le>
      backoff_duration ?b (sur_NodeGroup req) now"
    using backoff_duration_bounds(1) [OF okb] by (simp add: RemoveStaleBackoffData_def)
  then have "IsBackedOff (csr_nodeGroupBackoffInfo csr') (sur_NodeGroup req) t"
    using info key keyf assms(6) by (simp add: IsBackedOff_def failed_info_def time_after_def)
  then show ?thesis using none by (simp add: IsNodeGroupSafeToScaleUp_def)
qed

lemma timed_out_scale_up_backs_off_witness:
  "\<exists>csr'. UpdateNodes [] (20 * minute) demo_csr = Some (Inr csr') \<and>
     \<not> IsNodeGroupSafeToScaleUp csr' demo_group (24 * minute)"
proof -
  obtain csr' where up: "UpdateNodes [] (20 * minute) demo_csr = Some (Inr csr')"
    using demo_update_succeeds by blast
  have "areThereUpcomingNodes (snd (case UpdateNodes [] (20 * minute) demo_csr of
      Some (Inr c) \<Rightarrow> (True, c) | _ \<Rightarrow> (False, demo_csr))) ''g''"
    by (simp add: UpdateNodes_def getTargetSizes_def getNotRegisteredNodes_def updateReadinessStats_def
        updateUnregisteredNodes_def demo_defs Let_def mput_def updateScaleRequests_def
        updateAcceptableRanges_def range_scaleUp_def target_range_def scaleUpRequest_step_def
        areThereUpcomingNodes_def getProvisionedAndTargetSizes_def updateIncorrectNodeGroupSizes_def
        mget0_def zeroReadiness_def zeroRange_def count_unregistered_def time_defs duration_defs
        backoffNodeGroup_def mdel_def)
  then have w: "areThereUpcomingNodes csr' ''g''" by (simp add: up)
  have r: "mget (csr_scaleUpRequests demo_csr) ''g'' = Some demo_request"
    "sur_ExpectedAddTime demo_request < 20 * minute"
    "24 * minute < 20 * minute + eb_initialBackoffDuration (csr_nodeGroupBackoffInfo demo_csr)"
    by (simp_all add: demo_defs mput_def Let_def duration_defs NewExponentialBackoff_def
        InitialNodeGroupBackoffDuration_def)
  have "sur_NodeGroup demo_request = demo_group" by (simp add: demo_request_def)
  with timed_out_scale_up_backs_off [OF demo_ok up r(1,2) w r(3)] up show ?thesis by auto
qed

lemma getTargetSizes_from_mget:
  "getTargetSizes_from ngs m = Inr ts \<Longrightarrow>
     (if \<exists>ng\<in>set ngs. ng_Id ng = g then \<exists>ng\<in>set ngs. ng_Id ng = g \<and> ng_TargetSize ng = Inr (mget0 0 ts g)
      else mget ts g = mget m g)"
proof (induction ngs arbitrary: m)
  case (Cons ng ngs)
  then obtain sz where sz: "ng_TargetSize ng = Inr sz" by (cases "ng_TargetSize ng") auto
  with Cons.prems have "getTargetSizes_from ngs (mput (ng_Id ng) sz m) = Inr ts" by simp
  from Cons.IH [OF this] sz show ?case by (auto simp: mget0_def split: if_splits)
qed simp

text \<open>
  after an update, a group of the provider may have between its target size less the
  nodes that failed to register and the nodes still being added, and its target size plus
  the scale-downs still running.
\<close>

theorem acceptable_range_after_update:
  assumes "registry_ok csr" "UpdateNodes nodes now csr = Some (Inr csr')"
    and "ng \<in> set (cp_NodeGroups (csr_cloudProvider csr))"
    and "distinct (map ng_Id (cp_NodeGroups (csr_cloudProvider csr)))"
  shows "\<exists>target. ng_TargetSize ng = Inr target \<and>
    mget (csr_acceptableRanges csr') (ng_Id ng) = Some
      \<lparr>ar_MinNodes = target
          - rd_LongUnregistered (mget0 zeroReadiness (csr_perNodeGroupReadiness csr') (ng_Id ng))
          - increase_of csr' (ng_Id ng),
       ar_MaxNodes = target + scaleDowns_of csr' (ng_Id ng),
       ar_CurrentTarget = target\<rparr>"
  using assms(1,2)
proof (rule UpdateNodes_requests)
  fix c c1 ts
  let ?m = "updateScaleRequests now c1"
  assume c: "registry_ok c1" and c1: "c1 = updateAcceptableRanges ts c"
    and cp: "csr_cloudProvider c = csr_cloudProvider csr"
    and reqs: "csr_scaleUpRequests csr' = csr_scaleUpRequests ?m"
      "csr_scaleDownRequests csr' = csr_scaleDownRequests ?m"
    and ts: "getTargetSizes (csr_cloudProvider csr) = Inr ts"
    and ar: "csr_acceptableRanges csr' = csr_acceptableRanges (updateAcceptableRanges ts ?m)"
    and rd: "csr_perNodeGroupReadiness csr' = csr_perNodeGroupReadiness c1"
  have okm: "gomap_ok (csr_scaleUpRequests ?m)"
    using registry_ok_updateScaleRequests [OF c] by (simp add: registry_ok_def)
  have "\<exists>ng'\<in>set (cp_NodeGroups (csr_cloudProvider csr)). ng_Id ng' = ng_Id ng \<and>
      ng_TargetSize ng' = Inr (mget0 0 ts (ng_Id ng))"
    using getTargetSizes_from_mget [OF ts [unfolded getTargetSizes_def], of "ng_Id ng"] assms(3)
    by (auto split: if_splits)
  then have "ng_TargetSize ng = Inr (mget0 0 ts (ng_Id ng))"
    using assms(3,4) by (metis (no_types, lifting) distinct_map inj_on_contraD)
  moreover have "ng_Id ng \<in> ng_Id ` set (cp_NodeGroups (csr_cloudProvider ?m))"
    using assms(3) cp c1 by simp
  ultimately show ?thesis
    unfolding ar using updateAcceptableRanges_range [OF okm] rd reqs
    by (simp add: increase_of_def scaleDowns_of_def)
qed

lemma acceptable_range_after_update_witness:
  "\<exists>csr' r. UpdateNodes [] minute demo_csr = Some (Inr csr') \<and>
     mget (csr_acceptableRanges csr') ''g'' = Some r \<and> ar_CurrentTarget r = 1"
proof -
  obtain csr' where up: "UpdateNodes [] minute demo_csr = Some (Inr csr')"
    using demo_update_succeeds by blast
  have "demo_group \<in> set (cp_NodeGroups (csr_cloudProvider demo_csr))"
    "distinct (map ng_Id (cp_NodeGroups (csr_cloudProvider demo_csr)))"
    by (simp_all add: demo_csr_def RegisterScaleUp_def NewClusterStateRegistry_def Let_def
        demo_provider_def)
  from acceptable_range_after_update [OF demo_ok up this] up show ?thesis
    by (auto simp: demo_group_def)
qed

text \<open>
  an instance the provider lists and Kubernetes does not know is remembered with the time
  it was first seen missing; it is forgotten as soon as it registers or is no longer listed.
\<close>

theorem unregistered_first_seen:
  assumes "UpdateNodes nodes now csr = Some (Inr csr')"
  shows "mget (csr_unregisteredNodes csr') k =
    (if k \<in> set (missing_ids nodes (csr_cloudProvider csr))
     then Some (case mget (csr_unregisteredNodes csr) k of
                  Some prev \<Rightarrow> prev | None \<Rightarrow> missing_node now k)
     else None)"
  using assms
proof (rule UpdateNodes_Inr)
  fix ts csr1 csr2
  let ?csr0 = "updateUnregisteredNodes
        (map (missing_node now) (missing_ids nodes (csr_cloudProvider csr)))
        (csr\<lparr>csr_nodes := nodes\<rparr>)"
  assume 1: "updateReadinessStats now ?csr0 = Some csr1"
    and 2: "csr2 = updateScaleRequests now (updateAcceptableRanges ts csr1)"
    and 3: "csr' = updateIncorrectNodeGroupSizes now (updateAcceptableRanges ts csr2)"
  have "csr_unregisteredNodes csr' = csr_unregisteredNodes ?csr0"
    unfolding 2 3 using updateReadinessStats_frame [OF 1]
    by (simp add: updateIncorrectNodeGroupSizes_def)
  then show ?thesis by (simp add: updateUnregistered_mget)
qed

lemma unregistered_first_seen_witness:
  "\<exists>csr'. UpdateNodes [] minute demo_csr = Some (Inr csr') \<and>
     mget (csr_unregisteredNodes csr') ''i'' = Some (missing_node minute ''i'')"
proof -
  obtain csr' where up: "UpdateNodes [] minute demo_csr = Some (Inr csr')"
    using demo_update_succeeds by blast
  have "''i'' \<in> set (missing_ids [] (csr_cloudProvider demo_csr))"
    "mget (csr_unregisteredNodes demo_csr) ''i'' = None"
    by (simp_all add: demo_csr_def RegisterScaleUp_def NewClusterStateRegistry_def Let_def
        demo_provider_def missing_ids_def group_instances_def demo_group_def)
  with unregistered_first_seen [OF up, of "''i''"] up show ?thesis by simp
qed

lemma unregistered_loop_total:
  assumes "\<forall>u\<in>set us. cp_NodeGroupForNode cp (un_Node u) \<noteq> Inr None"
  shows "unregistered_loop cp mp now us acc \<noteq> None"
  using assms
proof (induction us arbitrary: acc)
  case (Cons u us)
  then show ?case
    by (cases acc; cases "cp_NodeGroupForNode cp (un_Node u)") (auto simp: Let_def split: option.splits)
qed simp

text \<open>
  \<open>UpdateNodes\<close> never dereferences a nil node group, provided the provider finds a
  group, or reports an error, for every instance it lists itself.
\<close>

theorem UpdateNodes_no_panic:
  assumes "registry_ok csr"
    and "\<forall>i\<in>set (missing_ids nodes (csr_cloudProvider csr)).
           cp_NodeGroupForNode (csr_cloudProvider csr) (stub_node i) \<noteq> Inr None"
  shows "UpdateNodes nodes now csr \<noteq> None"
proof -
  let ?ids = "missing_ids nodes (csr_cloudProvider csr)"
  let ?csr0 = "updateUnregisteredNodes (map (missing_node now) ?ids) (csr\<lparr>csr_nodes := nodes\<rparr>)"
  have "registry_ok (csr\<lparr>csr_nodes := nodes\<rparr>)" using assms(1) by (simp add: registry_ok_def)
  then have ok: "registry_ok ?csr0" by (rule registry_ok_updateUnregistered)
  have "cp_NodeGroupForNode (csr_cloudProvider csr) (un_Node u) \<noteq> Inr None"
    if u: "u \<in> snd ` set (csr_unregisteredNodes ?csr0)" for u
  proof -
    obtain k where "(k, u) \<in> set (csr_unregisteredNodes ?csr0)" using u by force
    then have k: "mget (csr_unregisteredNodes ?csr0) k = Some u"
      using ok by (simp add: registry_ok_def mget_eq_Some_iff)
    then have "k \<in> set ?ids" by (simp add: updateUnregistered_mget split: if_splits)
    moreover have "un_Node u = stub_node k" using ok k by (simp add: registry_ok_def)
    ultimately show ?thesis using assms(2) by simp
  qed
  then have "updateReadinessStats now ?csr0 \<noteq> None"
    using unregistered_loop_total [of "map snd (csr_unregisteredNodes ?csr0)" "csr_cloudProvider csr"]
    by (auto simp: updateReadinessStats_def Let_def updateUnregisteredNodes_def split: option.splits
        prod.splits)
  then show ?thesis
    by (auto simp: UpdateNodes_def split: sum.splits option.splits dest!: getNotRegisteredNodes_eq)
qed

lemma UpdateNodes_no_panic_witness: "UpdateNodes [] minute demo_csr \<noteq> None"
  by (rule UpdateNodes_no_panic [OF demo_ok])
     (simp add: demo_csr_def RegisterScaleUp_def NewClusterStateRegistry_def Let_def demo_provider_def)

section \<open>Health\<close>

definition total_unready :: "clusterStateRegistry \<Rightarrow> int" where
  "total_unready csr = (let r = csr_totalReadiness csr
     in rd_Unready r + rd_LongNotStarted r + rd_LongUnregistered r)"

lemma over_percentage_mono:
  "m \<le> n \<Longrightarrow> over_percentage config m sz \<Longrightarrow> over_percentage config n sz"
  unfolding over_percentage_def by (rule flt_fle_trans) (auto intro: f_of_int_mono)

text \<open>
  C11: health is monotone: if a cluster is healthy then so is one with as many nodes and no
  more unready, long-not-started and long-unregistered nodes, in the code's \<open>float64\<close>
  arithmetic with rounding.
\<close>

theorem cluster_health_monotone:
  assumes "IsClusterHealthy csr" "csr_config csr' = csr_config csr"
    and "length (csr_nodes csr') = length (csr_nodes csr)"
    and "total_unready csr' \<le> total_unready csr"
  shows "IsClusterHealthy csr'"
  using assms over_percentage_mono [of "total_unready csr'" "total_unready csr" "csr_config csr"]
  by (auto simp: IsClusterHealthy_def total_unready_def Let_def split: if_splits)

lemma cluster_health_monotone_witness: "IsClusterHealthy (demo_csr\<lparr>csr_scaleDownRequests := []\<rparr>)"
proof -
  have "IsClusterHealthy demo_csr"
    by (simp add: IsClusterHealthy_def demo_csr_def RegisterScaleUp_def NewClusterStateRegistry_def
        Let_def zeroReadiness_def demo_config_def)
  then show ?thesis
    by (rule cluster_health_monotone) (simp_all add: total_unready_def)
qed

section \<open>Status\<close>

text \<open>Conditions of one kind, published one after the other.\<close>

definition published :: "caCondition list \<Rightarrow> caCondition list" where
  "published cs = foldl (\<lambda>old c. updateLastTransitionSingleList old [c]) [] cs"

lemma published_snoc: "published (cs @ [c]) = [carry_transition (published cs) c]"
  by (simp add: published_def updateLastTransitionSingleList_def)

lemma carry_transition_fields [simp]:
  "cc_Type (carry_transition old c) = cc_Type c" "cc_Status (carry_transition old c) = cc_Status c"
  by (auto simp: carry_transition_def split: option.splits)

lemma published_last:
  assumes "cs \<noteq> []"
  shows "\<exists>c. published cs = [c] \<and> cc_Type c = cc_Type (last cs) \<and> cc_Status c = cc_Status (last cs)"
  using assms by (cases cs rule: rev_cases) (auto simp: published_snoc)

text \<open>
  the transition time of a published condition is the time at which it took its present
  value: if the last publications \<open>ys\<close> all had the same value, and the one before them (if
  any) another one, then it is the probe time of the first of them, however often the
  condition was published since.
\<close>

theorem transition_time_of_last_change:
  assumes "\<forall>c\<in>set (xs @ ys). cc_Type c = ty" "ys \<noteq> []"
    and "\<forall>c\<in>set ys. cc_Status c = v" "xs \<noteq> [] \<longrightarrow> cc_Status (last xs) \<noteq> v"
  shows "published (xs @ ys) = [(last ys)\<lparr>cc_LastTransitionTime := cc_LastProbeTime (hd ys)\<rparr>]"
  using assms
proof (induction ys rule: rev_induct)
  case (snoc y ys)
  show ?case
  proof (cases "ys = []")
    case True
    show ?thesis
    proof (cases "xs = []")
      case True
      then show ?thesis using \<open>ys = []\<close> by (simp add: published_def updateLastTransitionSingleList_def carry_transition_def)
    next
      case False
      then obtain c where "published xs = [c]" "cc_Status c \<noteq> v" "cc_Type c = cc_Type (last xs)"
        using published_last [of xs] snoc.prems(4) by auto
      then show ?thesis using \<open>ys = []\<close> snoc.prems
        by (auto simp: published_snoc carry_transition_def)
    qed
  next
    case False
    let ?p = "(last ys)\<lparr>cc_LastTransitionTime := cc_LastProbeTime (hd ys)\<rparr>"
    have "published (xs @ ys) = [?p]"
      by (rule snoc.IH) (use False snoc.prems in auto)
    then have "published (xs @ ys @ [y]) = [carry_transition [?p] y]"
      using published_snoc [of "xs @ ys" y] by simp
    also have "carry_transition [?p] y = y\<lparr>cc_LastTransitionTime := cc_LastProbeTime (hd ys)\<rparr>"
    proof -
      have "last ys \<in> set ys" using False by simp
      then have "cc_Status y = cc_Status (last ys)" "cc_Type y = cc_Type (last ys)"
        using snoc.prems(1,3) by auto
      then show ?thesis by (simp add: carry_transition_def)
    qed
    finally show ?thesis using False by simp
  qed
qed simp

lemma transition_time_of_last_change_witness:
  "let c = buildScaleDownStatusNodeGroup [''n'']; n = buildScaleDownStatusNodeGroup []
   in published [n 1, c 5, c 9] = [(c 9)\<lparr>cc_LastTransitionTime := 5\<rparr>]"
proof -
  let ?c = "buildScaleDownStatusNodeGroup [''n'']" and ?n = "buildScaleDownStatusNodeGroup []"
  have "published ([?n 1] @ [?c 5, ?c 9]) =
      [(last [?c 5, ?c 9])\<lparr>cc_LastTransitionTime := cc_LastProbeTime (hd [?c 5, ?c 9])\<rparr>]"
    by (rule transition_time_of_last_change [where ty = CondScaleDown and v = CandidatesPresent])
       (simp_all add: buildScaleDownStatusNodeGroup_def candidates_condition_def)
  then show ?thesis
    by (simp add: Let_def buildScaleDownStatusNodeGroup_def candidates_condition_def)
qed

end
