(* ===== verification/Balancing.thy ===== *)
theory Balancing
  imports CloudTypes
begin

text \<open>
  \<open>processors/nodegroupset/balancing_processor.go\<close>: \<open>BalanceScaleUpBetweenGroups\<close>, which spreads
  new nodes over similar node groups.  The in-place loop over \<open>scaleUpInfos\<close> is
  \<open>balance_loop\<close>, a function of the slice, \<open>startIndex\<close>, \<open>currentIndex\<close> and \<open>newNodes\<close>; an
  index out of range is \<open>None\<close> (a panic).  \<open>currentInfo\<close> is a pointer into the slice, so after a
  swap it reads what is now at \<open>currentIndex\<close>.

  \<open>sort.Slice\<close> promises a permutation ordered by the comparison and no more (it is not
  stable), so the sorting function is a parameter that obeys \<open>sort_contract\<close>.

  The lemmas prove the loop invariants the source's comment lists, with \<open>NewSize\<close> for the
  size that changes, and from them that the loop never panics, gives out exactly the capped
  number of nodes, respects every maximum, and leaves the groups balanced.
\<close>

datatype autoscalerErrorType = CloudProviderError | ApiCallError | InternalError | TransientError

record autoscalerError =
  ae_Type :: autoscalerErrorType
  ae_Msg :: string

definition NewAutoscalerError :: "autoscalerErrorType \<Rightarrow> string \<Rightarrow> autoscalerError" where
  "NewAutoscalerError ty msg = \<lparr>ae_Type = ty, ae_Msg = msg\<rparr>"

definition AddPrefix :: "string \<Rightarrow> autoscalerError \<Rightarrow> autoscalerError" where
  "AddPrefix prefix e = e\<lparr>ae_Msg := prefix @ ae_Msg e\<rparr>"

record scaleUpInfo =
  si_Group :: nodeGroup
  si_CurrentSize :: int
  si_NewSize :: int
  si_MaxSize :: int

section \<open>Collecting the groups\<close>

text \<open>\<open>Inl\<close> is the error of a group whose size is unknown; a group at its maximum is left out.\<close>

fun collect_infos :: "nodeGroup list \<Rightarrow> string + scaleUpInfo list" where
  "collect_infos [] = Inr []"
| "collect_infos (ng # ngs) =
     (case ng_TargetSize ng of
        Inl err \<Rightarrow> Inl err
      | Inr currentSize \<Rightarrow>
          (case collect_infos ngs of
             Inl err \<Rightarrow> Inl err
           | Inr infos \<Rightarrow>
               Inr (if currentSize = ng_MaxSize ng then infos
                    else \<lparr>si_Group = ng, si_CurrentSize = currentSize, si_NewSize = currentSize,
                          si_MaxSize = ng_MaxSize ng\<rparr> # infos)))"

definition totalCapacity :: "scaleUpInfo list \<Rightarrow> int" where
  "totalCapacity infos = foldl (\<lambda>t i. t + (si_MaxSize i - si_CurrentSize i)) 0 infos"

section \<open>The balancing loop\<close>

definition next_index :: "scaleUpInfo list \<Rightarrow> nat \<Rightarrow> nat \<Rightarrow> nat" where
  "next_index infos start cur =
     (if cur + 1 < length infos \<and> si_NewSize (infos ! cur) > si_NewSize (infos ! (cur + 1))
      then cur + 1 else start)"

definition grow :: "scaleUpInfo \<Rightarrow> scaleUpInfo" where
  "grow i = i\<lparr>si_NewSize := si_NewSize i + 1\<rparr>"

function balance_loop :: "scaleUpInfo list \<Rightarrow> nat \<Rightarrow> nat \<Rightarrow> int \<Rightarrow> scaleUpInfo list option" where
  "balance_loop infos start cur newNodes =
     (if newNodes \<le> 0 then Some infos
      else if length infos \<le> cur then None
      else if si_NewSize (infos ! cur) < si_MaxSize (infos ! cur) then
        (let infos' = infos[cur := grow (infos ! cur)]
         in balance_loop infos' start (next_index infos' start cur) (newNodes - 1))
      else if length infos \<le> start then None
      else
        (let infos' = swap infos start cur
         in balance_loop infos' (start + 1) (next_index infos' (start + 1) cur) newNodes))"
  by pat_completeness auto
termination
  by (relation "measure (\<lambda>(infos, start, cur, n). nat n + (length infos - start))")
     (auto simp: swap_def)

declare balance_loop.simps [simp del]

definition changed :: "scaleUpInfo list \<Rightarrow> scaleUpInfo list" where
  "changed infos = filter (\<lambda>i. si_NewSize i \<noteq> si_CurrentSize i) infos"

text \<open>\<open>None\<close> is a panic of the loop.\<close>

definition BalanceScaleUpBetweenGroups ::
  "(scaleUpInfo list \<Rightarrow> scaleUpInfo list) \<Rightarrow> nodeGroup list \<Rightarrow> int \<Rightarrow>
     (autoscalerError + scaleUpInfo list) option" where
  "BalanceScaleUpBetweenGroups srt groups newNodes =
     (if groups = [] then
        Some (Inl (NewAutoscalerError InternalError ''Can't balance scale up between 0 groups''))
      else
        (case collect_infos groups of
           Inl err \<Rightarrow>
             Some (Inl (NewAutoscalerError CloudProviderError (''failed to get node group size: '' @ err)))
         | Inr infos \<Rightarrow>
             (let newNodes' = (if totalCapacity infos < newNodes then totalCapacity infos else newNodes)
              in case balance_loop (srt infos) 0 0 newNodes' of
                   None \<Rightarrow> None
                 | Some result \<Rightarrow> Some (Inr (changed result)))))"

section \<open>Sorting\<close>

locale sort_contract =
  fixes srt :: "'a list \<Rightarrow> 'a list"
    and key :: "'a \<Rightarrow> int"
  assumes srt_mset: "mset (srt xs) = mset xs"
    and srt_sorted: "sorted (map key (srt xs))"
begin

lemma srt_set: "set (srt xs) = set xs"
  using srt_mset by (rule mset_eq_setD)

lemma srt_length: "length (srt xs) = length xs"
  using srt_mset by (rule mset_eq_length)

lemma srt_sum: "sum_list (map f (srt xs)) = sum_list (map (f :: 'a \<Rightarrow> int) xs)"
proof -
  have "sum_mset (image_mset f (mset (srt xs))) = sum_mset (image_mset f (mset xs))"
    by (simp add: srt_mset)
  then show ?thesis by (metis mset_map sum_mset_sum_list)
qed

lemma srt_nth: "i < j \<Longrightarrow> j < length xs \<Longrightarrow> key (srt xs ! i) \<le> key (srt xs ! j)"
  using srt_sorted [of xs] by (simp add: sorted_iff_nth_mono srt_length)

end

text \<open>The insertion sort that \<open>sort.Slice\<close> runs on short slices, as a function on lists.\<close>

definition sort_infos :: "scaleUpInfo list \<Rightarrow> scaleUpInfo list" where
  "sort_infos = sort_key si_CurrentSize"

interpretation si: sort_contract sort_infos si_CurrentSize
  by unfold_locales (simp_all add: sort_infos_def)

section \<open>No panic and exact total\<close>

definition spare :: "scaleUpInfo \<Rightarrow> int" where
  "spare i = si_MaxSize i - si_NewSize i"

definition room :: "scaleUpInfo list \<Rightarrow> nat \<Rightarrow> int" where
  "room infos start = sum_list (map spare (drop start infos))"

lemma room_split:
  assumes "start \<le> cur" "cur < length infos"
  shows "room infos start = spare (infos ! cur) + room (swap infos start cur) (start + 1)"
proof -
  let ?d = "drop start infos"
  have s: "start < length infos" using assms by simp
  have "drop start (swap infos start cur) = swap ?d 0 (cur - start)"
    using assms by (simp add: swap_def drop_update_swap)
  moreover have "mset (swap ?d 0 (cur - start)) = mset ?d"
    using assms by (intro mset_swap_list) auto
  ultimately have "mset (drop start (swap infos start cur)) = mset ?d" by simp
  then have "sum_mset (image_mset spare (mset (drop start (swap infos start cur)))) =
      sum_mset (image_mset spare (mset ?d))" by simp
  then have "room infos start = room (swap infos start cur) start"
    unfolding room_def by (metis mset_map sum_mset_sum_list)
  also have "swap infos start cur ! start = infos ! cur" using s assms by (simp add: nth_swap)
  then have "drop start (swap infos start cur) =
      infos ! cur # drop (start + 1) (swap infos start cur)"
    using Cons_nth_drop_Suc [of start "swap infos start cur"] s by simp
  then have "room (swap infos start cur) start =
      spare (infos ! cur) + room (swap infos start cur) (start + 1)"
    by (simp add: room_def)
  finally show ?thesis .
qed

lemma room_grow:
  assumes "start \<le> cur" "cur < length infos"
  shows "room (infos[cur := grow (infos ! cur)]) start = room infos start - 1"
proof -
  have "drop start (infos[cur := grow (infos ! cur)]) =
      (drop start infos)[cur - start := grow (drop start infos ! (cur - start))]"
    using assms by (simp add: drop_update_swap)
  moreover have step: "sum_list (map spare (xs[k := grow (xs ! k)])) = sum_list (map spare xs) - 1"
    if "k < length xs" for xs k
    using that
  proof (induction xs arbitrary: k)
    case (Cons x xs)
    then show ?case by (cases k) (auto simp: spare_def grow_def)
  qed simp
  ultimately show ?thesis using assms step [of "cur - start" "drop start infos"]
    by (simp add: room_def)
qed

lemma room_pos:
  assumes "0 < room infos start"
  shows "start < length infos"
  using assms by (cases "start < length infos") (auto simp: room_def)

lemma next_index_bounds:
  assumes "cur < length infos" "start \<le> cur + 1" "start < length infos"
  shows "start \<le> next_index infos start cur" "next_index infos start cur < length infos"
  using assms by (auto simp: next_index_def)

lemma next_index_end:
  assumes "start \<le> cur + 1"
  shows "start \<le> next_index infos start cur"
  using assms by (auto simp: next_index_def)

text \<open>
  The state of the loop is safe: it has room for the nodes that are still to be placed, and
  while there are any, both indices are inside the slice.
\<close>

definition loop_safe :: "scaleUpInfo list \<Rightarrow> nat \<Rightarrow> nat \<Rightarrow> int \<Rightarrow> bool" where
  "loop_safe infos start cur newNodes \<longleftrightarrow>
     start \<le> cur \<and> newNodes \<le> room infos start \<and> (0 < newNodes \<longrightarrow> cur < length infos)"

lemma loop_safe_grow:
  assumes "loop_safe infos start cur n" "0 < n" "cur < length infos"
  defines "infos' \<equiv> infos[cur := grow (infos ! cur)]"
  shows "loop_safe infos' start (next_index infos' start cur) (n - 1)"
proof -
  have st: "start \<le> cur" "start < length infos'" "cur < length infos'"
    using assms by (auto simp: loop_safe_def)
  have "n - 1 \<le> room infos' start"
    using assms(1,3) st room_grow [of start cur infos] by (simp add: loop_safe_def infos'_def)
  then show ?thesis
    using st next_index_bounds [of cur infos' start] by (simp add: loop_safe_def)
qed

lemma loop_safe_remove:
  assumes "loop_safe infos start cur n" "0 < n" "cur < length infos"
    and "si_MaxSize (infos ! cur) \<le> si_NewSize (infos ! cur)"
  defines "infos' \<equiv> swap infos start cur"
  shows "loop_safe infos' (start + 1) (next_index infos' (start + 1) cur) n"
proof -
  have st: "start \<le> cur" using assms by (simp add: loop_safe_def)
  have room: "n \<le> room infos' (start + 1)"
    using assms(1,3,4) room_split [OF st assms(3)] by (simp add: loop_safe_def infos'_def spare_def)
  then have "start + 1 < length infos'" using assms(2) room_pos by (metis less_le_trans)
  then show ?thesis
    using st room assms(3) next_index_bounds [of cur infos' "start + 1"]
    by (simp add: loop_safe_def infos'_def)
qed

lemma balance_loop_total:
  "loop_safe infos start cur n \<Longrightarrow> \<exists>r. balance_loop infos start cur n = Some r"
proof (induction infos start cur n rule: balance_loop.induct)
  case (1 infos start cur n)
  show ?case
  proof (cases "0 < n")
    case True
    then have cur: "cur < length infos" "start < length infos"
      using "1.prems" by (auto simp: loop_safe_def)
    show ?thesis
    proof (cases "si_NewSize (infos ! cur) < si_MaxSize (infos ! cur)")
      case True
      with 1 \<open>0 < n\<close> cur show ?thesis
        by (subst balance_loop.simps) (simp add: loop_safe_grow Let_def)
    next
      case False
      let ?infos = "swap infos start cur"
      have "loop_safe ?infos (start + 1) (next_index ?infos (start + 1) cur) n"
        using "1.prems" \<open>0 < n\<close> cur(1) False by (intro loop_safe_remove) auto
      then have "\<exists>r. balance_loop ?infos (start + 1) (next_index ?infos (start + 1) cur) n = Some r"
        using False \<open>0 < n\<close> cur by (intro "1.IH"(2)) auto
      with False \<open>0 < n\<close> cur show ?thesis by (subst balance_loop.simps) (simp add: Let_def)
    qed
  qed (subst balance_loop.simps, simp)
qed

text \<open>The identity of an entry: everything but its \<open>NewSize\<close>.\<close>

definition entry :: "scaleUpInfo \<Rightarrow> nodeGroup \<times> int \<times> int" where
  "entry i = (si_Group i, si_CurrentSize i, si_MaxSize i)"

lemma entry_grow [simp]: "entry (grow i) = entry i"
  by (simp add: entry_def grow_def)

definition total_new :: "scaleUpInfo list \<Rightarrow> int" where
  "total_new infos = sum_list (map si_NewSize infos)"

lemma total_new_grow:
  "cur < length infos \<Longrightarrow> total_new (infos[cur := grow (infos ! cur)]) = total_new infos + 1"
proof (induction infos arbitrary: cur)
  case (Cons x xs)
  then show ?case by (cases cur) (auto simp: total_new_def grow_def)
qed simp

lemma total_new_swap:
  "i < length infos \<Longrightarrow> j < length infos \<Longrightarrow> total_new (swap infos i j) = total_new infos"
proof -
  assume "i < length infos" "j < length infos"
  then have "sum_mset (image_mset si_NewSize (mset (swap infos i j))) =
      sum_mset (image_mset si_NewSize (mset infos))" by (simp add: mset_swap_list)
  then show ?thesis unfolding total_new_def by (metis mset_map sum_mset_sum_list)
qed

lemma balance_loop_step_cases [consumes 1, case_names stop grow remove]:
  assumes "balance_loop infos start cur n = Some r"
  obtains "n \<le> 0" "r = infos"
  | "0 < n" "cur < length infos" "si_NewSize (infos ! cur) < si_MaxSize (infos ! cur)"
    "balance_loop (infos[cur := grow (infos ! cur)]) start
       (next_index (infos[cur := grow (infos ! cur)]) start cur) (n - 1) = Some r"
  | "0 < n" "cur < length infos" "start < length infos"
    "si_MaxSize (infos ! cur) \<le> si_NewSize (infos ! cur)"
    "balance_loop (swap infos start cur) (start + 1)
       (next_index (swap infos start cur) (start + 1) cur) n = Some r"
  using assms by (subst (asm) balance_loop.simps) (auto simp: Let_def not_le not_less split: if_splits)

lemma balance_loop_invariant:
  assumes "balance_loop infos start cur n = Some r" "P infos start cur n"
    and "\<And>infos start cur n. P infos start cur n \<Longrightarrow> 0 < n \<Longrightarrow> cur < length infos \<Longrightarrow>
       si_NewSize (infos ! cur) < si_MaxSize (infos ! cur) \<Longrightarrow>
       P (infos[cur := grow (infos ! cur)]) start
         (next_index (infos[cur := grow (infos ! cur)]) start cur) (n - 1)"
    and "\<And>infos start cur n. P infos start cur n \<Longrightarrow> 0 < n \<Longrightarrow> cur < length infos \<Longrightarrow>
       start < length infos \<Longrightarrow> si_MaxSize (infos ! cur) \<le> si_NewSize (infos ! cur) \<Longrightarrow>
       P (swap infos start cur) (start + 1) (next_index (swap infos start cur) (start + 1) cur) n"
  shows "\<exists>start' cur' n'. P r start' cur' n' \<and> n' \<le> 0"
  using assms(1,2)
proof (induction infos start cur n rule: balance_loop.induct)
  case (1 infos start cur n)
  from "1.prems"(1) show ?case
  proof (cases rule: balance_loop_step_cases)
    case stop
    with "1.prems" show ?thesis by blast
  next
    case grow
    with "1.prems"(2) assms(3)
    have "P (infos[cur := grow (infos ! cur)]) start
         (next_index (infos[cur := grow (infos ! cur)]) start cur) (n - 1)" by blast
    with grow show ?thesis by (intro "1.IH"(1)) auto
  next
    case remove
    with "1.prems"(2) assms(4)
    have "P (swap infos start cur) (start + 1) (next_index (swap infos start cur) (start + 1) cur) n"
      by blast
    with remove show ?thesis by (intro "1.IH"(2)) auto
  qed
qed

lemma mset_entry_update:
  "cur < length infos \<Longrightarrow> mset (map entry (infos[cur := grow (infos ! cur)])) = mset (map entry infos)"
proof -
  assume c: "cur < length infos"
  have "map entry (infos[cur := grow (infos ! cur)]) = map entry infos"
    by (rule nth_equalityI) (use c in \<open>auto simp: nth_list_update\<close>)
  then show ?thesis by simp
qed

lemma mset_entry_swap:
  "i < length infos \<Longrightarrow> j < length infos \<Longrightarrow> mset (map entry (swap infos i j)) = mset (map entry infos)"
  by (simp add: mset_swap_list)

text \<open>What the loop keeps: the entries, the sum of new sizes and open nodes, and the bounds.\<close>

definition loop_account :: "(nodeGroup \<times> int \<times> int) multiset \<Rightarrow> int \<Rightarrow> scaleUpInfo list \<Rightarrow> int \<Rightarrow> bool" where
  "loop_account entries tot infos n \<longleftrightarrow>
     mset (map entry infos) = entries \<and> total_new infos + n = tot \<and> 0 \<le> n \<and>
     (\<forall>i\<in>set infos. si_CurrentSize i \<le> si_NewSize i \<and>
        (si_CurrentSize i < si_NewSize i \<longrightarrow> si_NewSize i \<le> si_MaxSize i))"

lemma loop_account_grow:
  assumes "loop_account es tot infos n" "0 < n" "cur < length infos"
    and "si_NewSize (infos ! cur) < si_MaxSize (infos ! cur)"
  shows "loop_account es tot (infos[cur := grow (infos ! cur)]) (n - 1)"
proof -
  have "infos ! cur \<in> set infos" using assms(3) by simp
  then have cur: "si_CurrentSize (infos ! cur) \<le> si_NewSize (infos ! cur)"
    using assms(1) by (simp add: loop_account_def)
  have "si_CurrentSize i \<le> si_NewSize i \<and> (si_CurrentSize i < si_NewSize i \<longrightarrow> si_NewSize i \<le> si_MaxSize i)"
    if "i \<in> set (infos[cur := grow (infos ! cur)])" for i
  proof -
    have "i = grow (infos ! cur) \<or> i \<in> set infos"
      using that set_update_subset_insert [of infos cur "grow (infos ! cur)"] by blast
    then show ?thesis
    proof
      assume "i = grow (infos ! cur)"
      with cur assms(4) show ?thesis by (simp add: grow_def)
    next
      assume "i \<in> set infos"
      with assms(1) show ?thesis by (simp add: loop_account_def)
    qed
  qed
  then show ?thesis
    using assms mset_entry_update [OF assms(3)] total_new_grow [OF assms(3)]
    by (simp add: loop_account_def)
qed

lemma loop_account_swap:
  assumes "loop_account es tot infos n" "cur < length infos" "start < length infos"
  shows "loop_account es tot (swap infos start cur) n"
proof -
  have "set (swap infos start cur) = set infos"
    using mset_swap_list [OF assms(3,2)] by (rule mset_eq_setD)
  then show ?thesis
    using assms mset_entry_swap [OF assms(3,2)] total_new_swap [OF assms(3,2)]
    by (simp add: loop_account_def)
qed

lemma balance_loop_account:
  assumes "balance_loop infos start cur n = Some r" "loop_account es tot infos n"
  shows "loop_account es tot r 0"
proof -
  have "\<exists>(start' :: nat) (cur' :: nat) n'. loop_account es tot r n' \<and> n' \<le> 0"
    by (rule balance_loop_invariant [where P = "\<lambda>infos _ _ n. loop_account es tot infos n", OF assms])
       (simp_all add: loop_account_grow loop_account_swap)
  then obtain n' where "loop_account es tot r n'" "n' \<le> 0" by blast
  then show ?thesis by (auto simp: loop_account_def)
qed

section \<open>Balance\<close>

text \<open>
  The invariants of the source's comment, over \<open>NewSize\<close>: removed groups are full (1); the
  part from \<open>currentIndex\<close> on is ascending (4); the active groups before \<open>currentIndex\<close> have
  one node more than the current one (5 and 6); and no group that was given nodes has more
  than one node more than the current one.
\<close>

definition loop_balanced :: "scaleUpInfo list \<Rightarrow> nat \<Rightarrow> nat \<Rightarrow> bool" where
  "loop_balanced infos start cur \<longleftrightarrow>
     start \<le> cur \<and>
     (\<forall>i < start. i < length infos \<longrightarrow> si_MaxSize (infos ! i) \<le> si_NewSize (infos ! i)) \<and>
     (\<forall>i j. cur \<le> i \<longrightarrow> i < j \<longrightarrow> j < length infos \<longrightarrow> si_NewSize (infos ! i) \<le> si_NewSize (infos ! j)) \<and>
     (\<forall>i. start \<le> i \<longrightarrow> i < cur \<longrightarrow> cur < length infos \<longrightarrow>
        si_NewSize (infos ! i) = si_NewSize (infos ! cur) + 1) \<and>
     (\<forall>i < length infos. si_CurrentSize (infos ! i) < si_NewSize (infos ! i) \<longrightarrow> cur < length infos \<longrightarrow>
        si_NewSize (infos ! i) \<le> si_NewSize (infos ! cur) + 1)"

lemma loop_balancedD:
  assumes "loop_balanced infos start cur" "cur < length infos"
  shows "start \<le> cur"
    and "\<And>i. i < start \<Longrightarrow> si_MaxSize (infos ! i) \<le> si_NewSize (infos ! i)"
    and "\<And>i j. cur \<le> i \<Longrightarrow> i \<le> j \<Longrightarrow> j < length infos \<Longrightarrow> si_NewSize (infos ! i) \<le> si_NewSize (infos ! j)"
    and "\<And>i. start \<le> i \<Longrightarrow> i < cur \<Longrightarrow> si_NewSize (infos ! i) = si_NewSize (infos ! cur) + 1"
    and "\<And>i. i < length infos \<Longrightarrow> si_CurrentSize (infos ! i) < si_NewSize (infos ! i) \<Longrightarrow>
           si_NewSize (infos ! i) \<le> si_NewSize (infos ! cur) + 1"
  using assms unfolding loop_balanced_def by (auto simp: le_less)

lemma loop_balanced_reset:
  assumes full: "\<And>i. i < start \<Longrightarrow> i < length xs \<Longrightarrow> si_MaxSize (xs ! i) \<le> si_NewSize (xs ! i)"
    and asc: "\<And>i j. start \<le> i \<Longrightarrow> i < j \<Longrightarrow> j < length xs \<Longrightarrow> si_NewSize (xs ! i) \<le> si_NewSize (xs ! j)"
    and low: "\<And>i. start \<le> i \<Longrightarrow> i < length xs \<Longrightarrow> v \<le> si_NewSize (xs ! i)"
    and grown: "\<And>i. i < length xs \<Longrightarrow> si_CurrentSize (xs ! i) < si_NewSize (xs ! i) \<Longrightarrow>
        si_NewSize (xs ! i) \<le> v + 1"
  shows "loop_balanced xs start start"
proof -
  have "si_NewSize (xs ! i) \<le> si_NewSize (xs ! start) + 1"
    if "i < length xs" "si_CurrentSize (xs ! i) < si_NewSize (xs ! i)" "start < length xs" for i
    using grown [OF that(1,2)] low [of start] that(3) by simp
  then show ?thesis using full asc by (simp add: loop_balanced_def)
qed

text \<open>
  The ways on from a state in which everything active up to \<open>cur\<close> has \<open>v + 1\<close> nodes and
  everything after \<open>cur\<close> at least \<open>v\<close>, ascending.
\<close>

lemma loop_balanced_next:
  assumes "start \<le> cur + 1" "cur < length xs"
    and full: "\<And>i. i < start \<Longrightarrow> i < length xs \<Longrightarrow> si_MaxSize (xs ! i) \<le> si_NewSize (xs ! i)"
    and upto: "\<And>i. start \<le> i \<Longrightarrow> i \<le> cur \<Longrightarrow> si_NewSize (xs ! i) = v + 1"
    and asc: "\<And>i j. cur < i \<Longrightarrow> i < j \<Longrightarrow> j < length xs \<Longrightarrow> si_NewSize (xs ! i) \<le> si_NewSize (xs ! j)"
    and low: "\<And>i. cur < i \<Longrightarrow> i < length xs \<Longrightarrow> v \<le> si_NewSize (xs ! i)"
    and grown: "\<And>i. i < length xs \<Longrightarrow> si_CurrentSize (xs ! i) < si_NewSize (xs ! i) \<Longrightarrow>
        si_NewSize (xs ! i) \<le> v + 1"
  shows "loop_balanced xs start (next_index xs start cur)"
proof (cases "start = cur + 1 \<or> \<not> (cur + 1 < length xs \<and> si_NewSize (xs ! cur) > si_NewSize (xs ! (cur + 1)))")
  case True
  then have nx: "next_index xs start cur = start" by (auto simp: next_index_def)
  have asc': "si_NewSize (xs ! i) \<le> si_NewSize (xs ! j)"
    if ij: "start \<le> i" "i < j" "j < length xs" for i j
  proof (cases "cur < i")
    case True
    then show ?thesis using asc ij by simp
  next
    case False
    then have i: "si_NewSize (xs ! i) = v + 1" and "start \<le> cur" using upto ij by auto
    show ?thesis
    proof (cases "j \<le> cur")
      case True
      then show ?thesis using upto [of j] ij i by simp
    next
      case False
      then have "cur + 1 < length xs" using ij by simp
      then have c1: "v + 1 \<le> si_NewSize (xs ! (cur + 1))"
        using True \<open>start \<le> cur\<close> upto [of cur] by auto
      show ?thesis
      proof (cases "j = cur + 1")
        case False
        then have "si_NewSize (xs ! (cur + 1)) \<le> si_NewSize (xs ! j)"
          using asc [of "cur + 1" j] \<open>\<not> j \<le> cur\<close> ij(3) by simp
        with c1 i show ?thesis by simp
      qed (use c1 i in simp)
    qed
  qed
  have low': "v \<le> si_NewSize (xs ! i)" if "start \<le> i" "i < length xs" for i
    using that upto [of i] low [of i] by (cases "i \<le> cur") auto
  show ?thesis unfolding nx by (rule loop_balanced_reset [OF full asc' low' grown])
next
  case False
  then have nx: "next_index xs start cur = cur + 1" and st: "start \<le> cur"
    and lt: "cur + 1 < length xs" and less: "si_NewSize (xs ! (cur + 1)) < si_NewSize (xs ! cur)"
    using assms(1) by (auto simp: next_index_def)
  have v: "si_NewSize (xs ! (cur + 1)) = v"
    using low [of "cur + 1"] upto [of cur] st lt less by simp
  show ?thesis unfolding nx loop_balanced_def
    using st v full upto asc grown by (auto simp: less_Suc_eq_le)
qed

lemma loop_balanced_grow:
  assumes bal: "loop_balanced infos start cur" and cur: "cur < length infos"
  defines "xs \<equiv> infos[cur := grow (infos ! cur)]"
  shows "loop_balanced xs start (next_index xs start cur)"
proof (rule loop_balanced_next [where v = "si_NewSize (infos ! cur)"])
  note inv = loop_balancedD [OF bal cur]
  show "start \<le> cur + 1" "cur < length xs" using inv(1) cur by (simp_all add: xs_def)
  show "si_MaxSize (xs ! i) \<le> si_NewSize (xs ! i)" if "i < start" "i < length xs" for i
    using that inv(1,2) by (simp add: xs_def nth_list_update)
  show "si_NewSize (xs ! i) = si_NewSize (infos ! cur) + 1" if "start \<le> i" "i \<le> cur" for i
    using that inv(4) [of i] cur by (cases "i = cur") (auto simp: xs_def grow_def nth_list_update)
  show "si_NewSize (xs ! i) \<le> si_NewSize (xs ! j)" if "cur < i" "i < j" "j < length xs" for i j
    using that inv(3) [of i j] by (simp add: xs_def nth_list_update)
  show "si_NewSize (infos ! cur) \<le> si_NewSize (xs ! i)" if "cur < i" "i < length xs" for i
    using that inv(3) [of cur i] by (simp add: xs_def nth_list_update)
  show "si_NewSize (xs ! i) \<le> si_NewSize (infos ! cur) + 1"
    if "i < length xs" "si_CurrentSize (xs ! i) < si_NewSize (xs ! i)" for i
    using that inv(5) [of i] by (cases "i = cur") (auto simp: xs_def grow_def nth_list_update)
qed

lemma loop_balanced_remove:
  assumes bal: "loop_balanced infos start cur" and cur: "cur < length infos"
    and full: "si_MaxSize (infos ! cur) \<le> si_NewSize (infos ! cur)"
  defines "xs \<equiv> swap infos start cur"
  shows "loop_balanced xs (start + 1) (next_index xs (start + 1) cur)"
proof (rule loop_balanced_next [where v = "si_NewSize (infos ! cur)"])
  note inv = loop_balancedD [OF bal cur]
  have st: "start \<le> cur" "start < length infos" using inv(1) cur by auto
  have nth: "xs ! k = (if k = cur then infos ! start else if k = start then infos ! cur else infos ! k)"
    if "k < length infos" for k
    using nth_swap [OF st(2) cur that] by (simp add: xs_def)
  have len: "length xs = length infos" by (simp add: xs_def)
  show "start + 1 \<le> cur + 1" "cur < length xs" using st cur len by simp_all
  show "si_MaxSize (xs ! i) \<le> si_NewSize (xs ! i)" if "i < start + 1" "i < length xs" for i
    using that st inv(2) [of i] full by (cases "i = start") (auto simp: nth len)
  show "si_NewSize (xs ! i) = si_NewSize (infos ! cur) + 1" if "start + 1 \<le> i" "i \<le> cur" for i
    using that st cur inv(4) [of i] inv(4) [of start] by (cases "i = cur") (auto simp: nth)
  show "si_NewSize (xs ! i) \<le> si_NewSize (xs ! j)" if "cur < i" "i < j" "j < length xs" for i j
    using that st inv(3) [of i j] by (simp add: nth len)
  show "si_NewSize (infos ! cur) \<le> si_NewSize (xs ! i)" if "cur < i" "i < length xs" for i
    using that st inv(3) [of cur i] by (simp add: nth len)
  show "si_NewSize (xs ! i) \<le> si_NewSize (infos ! cur) + 1"
    if "i < length xs" "si_CurrentSize (xs ! i) < si_NewSize (xs ! i)" for i
    using that st cur inv(5) by (auto simp: nth len split: if_splits)
qed

text \<open>Balanced: a group that was given nodes has at most one more than any group that is not full.\<close>

definition balanced :: "scaleUpInfo list \<Rightarrow> bool" where
  "balanced infos \<longleftrightarrow> (\<forall>x\<in>set infos. \<forall>y\<in>set infos.
     si_CurrentSize x < si_NewSize x \<longrightarrow> si_NewSize y < si_MaxSize y \<longrightarrow>
     si_NewSize x \<le> si_NewSize y + 1)"

lemma loop_balanced_final:
  assumes "loop_balanced infos start cur" "cur < length infos \<or> start = length infos"
  shows "balanced infos"
  unfolding balanced_def
proof (intro ballI impI)
  fix x y
  assume x: "x \<in> set infos" "si_CurrentSize x < si_NewSize x"
    and y: "y \<in> set infos" "si_NewSize y < si_MaxSize y"
  obtain i j where i: "i < length infos" "x = infos ! i" and j: "j < length infos" "y = infos ! j"
    using x y by (metis in_set_conv_nth)
  have act: "start \<le> j"
  proof (rule ccontr)
    assume "\<not> start \<le> j"
    then have "si_MaxSize (infos ! j) \<le> si_NewSize (infos ! j)"
      using assms(1) j by (simp add: loop_balanced_def)
    with y j show False by simp
  qed
  then have cur: "cur < length infos" using assms(2) j by auto
  note inv = loop_balancedD [OF assms(1) cur]
  have "si_NewSize x \<le> si_NewSize (infos ! cur) + 1" using inv(5) i x by simp
  moreover have "si_NewSize (infos ! cur) \<le> si_NewSize y"
    using inv(3) [of cur j] inv(4) [of j] act j by (cases "cur \<le> j") auto
  ultimately show "si_NewSize x \<le> si_NewSize y + 1" by linarith
qed

lemma next_index_inside:
  assumes "cur < length xs" "start \<le> length xs"
  shows "next_index xs start cur < length xs \<or> start = length xs"
  using assms by (auto simp: next_index_def)

lemma balance_loop_balanced:
  assumes "balance_loop infos start cur n = Some r"
    and "loop_balanced infos start cur" "cur < length infos \<or> start = length infos" "start \<le> length infos"
  shows "balanced r"
proof -
  let ?P = "\<lambda>infos start cur (n :: int). loop_balanced infos start cur \<and>
      (cur < length infos \<or> start = length infos) \<and> start \<le> length infos"
  have P: "?P infos start cur n" using assms by simp
  have "\<exists>start' cur' n'. ?P r start' cur' n' \<and> n' \<le> 0"
  proof (rule balance_loop_invariant [where P = ?P, OF assms(1) P])
    fix infos :: "scaleUpInfo list" and start cur :: nat and n :: int
    assume p: "?P infos start cur n" "cur < length infos"
    let ?xs = "infos[cur := grow (infos ! cur)]"
    show "?P ?xs start (next_index ?xs start cur) (n - 1)"
      using p loop_balanced_grow [of infos start cur] next_index_inside [of cur ?xs start] by simp
  next
    fix infos :: "scaleUpInfo list" and start cur :: nat and n :: int
    assume p: "?P infos start cur n" "cur < length infos" "start < length infos"
      and full: "si_MaxSize (infos ! cur) \<le> si_NewSize (infos ! cur)"
    let ?xs = "swap infos start cur"
    show "?P ?xs (start + 1) (next_index ?xs (start + 1) cur) n"
      using p full loop_balanced_remove [of infos start cur] next_index_inside [of cur ?xs "start + 1"]
      by simp
  qed
  then show ?thesis using loop_balanced_final by blast
qed

section \<open>The whole operation\<close>

lemma collect_infos_fields:
  "collect_infos ngs = Inr infos \<Longrightarrow> i \<in> set infos \<Longrightarrow>
     si_NewSize i = si_CurrentSize i \<and> si_Group i \<in> set ngs \<and> si_MaxSize i = ng_MaxSize (si_Group i) \<and>
     ng_TargetSize (si_Group i) = Inr (si_CurrentSize i) \<and> si_CurrentSize i \<noteq> si_MaxSize i"
  by (induction ngs arbitrary: infos) (auto split: sum.splits if_splits)

lemma totalCapacity_sum: "totalCapacity infos = sum_list (map (\<lambda>i. si_MaxSize i - si_CurrentSize i) infos)"
  by (simp add: totalCapacity_def foldl_add_int)

lemma initial_room:
  assumes "sort_contract srt si_CurrentSize" "\<And>i. i \<in> set infos \<Longrightarrow> si_NewSize i = si_CurrentSize i"
  shows "room (srt infos) 0 = totalCapacity infos"
proof -
  have "map spare infos = map (\<lambda>i. si_MaxSize i - si_CurrentSize i) infos"
    using assms(2) by (auto simp: spare_def)
  then have "sum_list (map spare infos) = totalCapacity infos"
    by (simp only: totalCapacity_sum)
  then show ?thesis
    using sort_contract.srt_sum [OF assms(1), of spare infos] by (simp only: room_def drop_0)
qed

lemma initial_safe:
  assumes "sort_contract srt si_CurrentSize" "\<And>i. i \<in> set infos \<Longrightarrow> si_NewSize i = si_CurrentSize i"
    and "n \<le> totalCapacity infos"
  shows "loop_safe (srt infos) 0 0 n"
proof -
  have "room (srt infos) 0 = totalCapacity infos" by (rule initial_room [OF assms(1,2)])
  with assms(3) have n: "n \<le> room (srt infos) 0" by (simp only:)
  have "0 < length (srt infos)" if "0 < n"
    by (rule room_pos) (rule less_le_trans [OF that n])
  with n show ?thesis unfolding loop_safe_def by blast
qed

lemma initial_balanced:
  assumes "sort_contract srt si_CurrentSize" "\<And>i. i \<in> set infos \<Longrightarrow> si_NewSize i = si_CurrentSize i"
  shows "loop_balanced (srt infos) 0 0"
proof -
  have new: "si_NewSize (srt infos ! i) = si_CurrentSize (srt infos ! i)" if "i < length infos" for i
  proof -
    have "srt infos ! i \<in> set (srt infos)"
      using that by (simp add: sort_contract.srt_length [OF assms(1)])
    then show ?thesis by (intro assms(2)) (simp add: sort_contract.srt_set [OF assms(1)])
  qed
  show ?thesis
    using new sort_contract.srt_nth [OF assms(1), of _ _ infos] sort_contract.srt_length [OF assms(1)]
    by (simp add: loop_balanced_def)
qed

lemma initial_account:
  assumes "sort_contract srt si_CurrentSize" "\<And>i. i \<in> set infos \<Longrightarrow> si_NewSize i = si_CurrentSize i"
    and "0 \<le> n"
  shows "loop_account (mset (map entry infos)) (total_new infos + n) (srt infos) n"
proof -
  have "total_new (srt infos) = total_new infos"
    unfolding total_new_def by (rule sort_contract.srt_sum [OF assms(1)])
  then show ?thesis
    using assms sort_contract.srt_mset [OF assms(1)] sort_contract.srt_set [OF assms(1)]
    by (simp add: loop_account_def)
qed

text \<open>
  \<open>BalanceScaleUpBetweenGroups\<close> never panics, for any groups (also groups above their
  maximum) and any number of nodes: the loop ends with both indices inside the slice.
\<close>

theorem balance_no_panic:
  assumes "sort_contract srt si_CurrentSize"
  shows "BalanceScaleUpBetweenGroups srt groups newNodes \<noteq> None"
proof (cases "collect_infos groups")
  case (Inr infos)
  let ?n = "if totalCapacity infos < newNodes then totalCapacity infos else newNodes"
  have "loop_safe (srt infos) 0 0 ?n"
    using collect_infos_fields [OF Inr] by (intro initial_safe [OF assms]) auto
  then obtain r where "balance_loop (srt infos) 0 0 ?n = Some r" using balance_loop_total by blast
  then show ?thesis using Inr by (simp add: BalanceScaleUpBetweenGroups_def Let_def)
qed (simp add: BalanceScaleUpBetweenGroups_def)

definition sized_group :: "string \<Rightarrow> int \<Rightarrow> int \<Rightarrow> nodeGroup" where
  "sized_group name sz mx = \<lparr>ng_Id = name, ng_MinSize = 0, ng_MaxSize = mx, ng_TargetSize = Inr sz,
     ng_Exist = True, ng_Autoprovisioned = False, ng_Nodes = Inr []\<rparr>"

lemma balance_no_panic_witness:
  "BalanceScaleUpBetweenGroups sort_infos [sized_group ''a'' 1 5, sized_group ''b'' 9 4] 3 \<noteq> None"
  by (rule balance_no_panic) (rule si.sort_contract_axioms)

text \<open>The result, taken apart: the final slice of the loop.\<close>

lemma balance_result:
  assumes "sort_contract srt si_CurrentSize"
    and "BalanceScaleUpBetweenGroups srt groups newNodes = Some (Inr result)"
    and "collect_infos groups = Inr infos"
  obtains final where "result = changed final" "balanced final"
    "loop_account (mset (map entry infos))
       (total_new infos + max 0 (min newNodes (totalCapacity infos))) final 0"
proof -
  let ?n = "if totalCapacity infos < newNodes then totalCapacity infos else newNodes"
  note new = collect_infos_fields [OF assms(3)]
  obtain final where f: "balance_loop (srt infos) 0 0 ?n = Some final" "result = changed final"
    using assms(2,3) by (auto simp: BalanceScaleUpBetweenGroups_def Let_def split: if_splits option.splits)
  have "balanced final"
    using f(1) initial_balanced [OF assms(1), of infos] new
    by (intro balance_loop_balanced [OF f(1)]) auto
  moreover have "loop_account (mset (map entry infos)) (total_new infos + max 0 ?n) final 0"
  proof (cases "0 \<le> ?n")
    case True
    then have "loop_account (mset (map entry infos)) (total_new infos + ?n) (srt infos) ?n"
      using new by (intro initial_account [OF assms(1)]) auto
    then show ?thesis using balance_loop_account [OF f(1)] True by simp
  next
    case False
    then have "final = srt infos" using f(1) by (subst (asm) balance_loop.simps) simp
    moreover have "loop_account (mset (map entry infos)) (total_new infos + 0) (srt infos) 0"
      using new by (intro initial_account [OF assms(1)]) auto
    ultimately show ?thesis using False by simp
  qed
  moreover have "min newNodes (totalCapacity infos) = ?n" by simp
  ultimately show thesis using that f(2) by simp
qed

lemma sum_changed:
  assumes "\<And>i. i \<in> set final \<Longrightarrow> si_CurrentSize i \<le> si_NewSize i"
  shows "sum_list (map (\<lambda>i. si_NewSize i - si_CurrentSize i) (changed final)) =
     total_new final - sum_list (map si_CurrentSize final)"
  by (induction final) (auto simp: changed_def total_new_def)

lemma sum_entries:
  assumes "mset (map entry xs) = mset (map entry ys)"
  shows "sum_list (map si_CurrentSize xs) = sum_list (map si_CurrentSize ys)"
proof -
  have "image_mset (\<lambda>e. fst (snd e)) (mset (map entry xs)) = image_mset (\<lambda>e. fst (snd e)) (mset (map entry ys))"
    using assms by simp
  then have "image_mset si_CurrentSize (mset xs) = image_mset si_CurrentSize (mset ys)"
    by (simp add: multiset.map_comp comp_def entry_def)
  then show ?thesis by (metis mset_map sum_mset_sum_list)
qed

lemma balanced_plan:
  assumes "sort_contract srt si_CurrentSize"
    and "BalanceScaleUpBetweenGroups srt groups newNodes = Some (Inr result)"
    and "collect_infos groups = Inr infos"
  shows "sum_list (map (\<lambda>i. si_NewSize i - si_CurrentSize i) result) =
      max 0 (min newNodes (totalCapacity infos)) \<and>
    (\<forall>i\<in>set result. si_Group i \<in> set groups \<and> ng_TargetSize (si_Group i) = Inr (si_CurrentSize i) \<and>
       si_CurrentSize i < si_NewSize i \<and> si_NewSize i \<le> ng_MaxSize (si_Group i))"
  using assms
proof (rule balance_result)
  fix final
  assume res: "result = changed final"
    and acc: "loop_account (mset (map entry infos))
       (total_new infos + max 0 (min newNodes (totalCapacity infos))) final 0"
  note new = collect_infos_fields [OF assms(3)]
  have ent: "mset (map entry final) = mset (map entry infos)" using acc by (simp add: loop_account_def)
  have mono: "si_CurrentSize i \<le> si_NewSize i" if "i \<in> set final" for i
    using acc that by (simp add: loop_account_def)
  have "total_new infos = sum_list (map si_CurrentSize infos)"
    using new unfolding total_new_def by (metis (no_types, lifting) map_cong)
  then have total: "sum_list (map (\<lambda>i. si_NewSize i - si_CurrentSize i) result) =
      max 0 (min newNodes (totalCapacity infos))"
    using sum_changed [OF mono] sum_entries [OF ent] acc res by (simp add: loop_account_def)
  have "si_Group i \<in> set groups \<and> ng_TargetSize (si_Group i) = Inr (si_CurrentSize i) \<and>
       si_CurrentSize i < si_NewSize i \<and> si_NewSize i \<le> ng_MaxSize (si_Group i)"
    if i: "i \<in> set result" for i
  proof -
    have fin: "i \<in> set final" "si_NewSize i \<noteq> si_CurrentSize i" using i res by (auto simp: changed_def)
    then have "si_CurrentSize i < si_NewSize i" "si_NewSize i \<le> si_MaxSize i"
      using acc by (force simp: loop_account_def)+
    moreover have "entry i \<in> set (map entry infos)"
      using fin(1) mset_eq_setD [OF ent] by auto
    then obtain j where "j \<in> set infos" "entry j = entry i" by auto
    with new [of j] have "si_Group i \<in> set groups" "ng_TargetSize (si_Group i) = Inr (si_CurrentSize i)"
      "si_MaxSize i = ng_MaxSize (si_Group i)" by (auto simp: entry_def)
    ultimately show ?thesis by simp
  qed
  with total show ?thesis by blast
qed

lemma collect_infos_distinct:
  "collect_infos ngs = Inr infos \<Longrightarrow> distinct (map f ngs) \<Longrightarrow> distinct (map (\<lambda>i. f (si_Group i)) infos)"
proof (induction ngs arbitrary: infos)
  case (Cons ng ngs)
  then obtain rest where rest: "collect_infos ngs = Inr rest" by (auto split: sum.splits)
  have "f ng \<notin> f ` set ngs" "distinct (map f ngs)" using Cons.prems(2) by auto
  moreover have "si_Group i \<in> set ngs" if "i \<in> set rest" for i using collect_infos_fields [OF rest that] by simp
  ultimately show ?case using Cons.prems(1) Cons.IH [OF rest] rest by (auto split: sum.splits if_splits)
qed simp

lemma balanced_plan_distinct:
  assumes "sort_contract srt si_CurrentSize"
    and "BalanceScaleUpBetweenGroups srt groups newNodes = Some (Inr result)"
    and "collect_infos groups = Inr infos" "distinct (map f groups)"
  shows "distinct (map (\<lambda>i. f (si_Group i)) result)"
  using assms(1-3)
proof (rule balance_result)
  fix final
  assume res: "result = changed final"
    and acc: "loop_account (mset (map entry infos))
       (total_new infos + max 0 (min newNodes (totalCapacity infos))) final 0"
  have "mset (map (\<lambda>i. f (fst (entry i))) final) = image_mset (f \<circ> fst) (mset (map entry final))"
    by (simp add: multiset.map_comp comp_def)
  also have "\<dots> = image_mset (f \<circ> fst) (mset (map entry infos))" using acc by (simp add: loop_account_def)
  also have "\<dots> = mset (map (\<lambda>i. f (fst (entry i))) infos)" by (simp add: multiset.map_comp comp_def)
  finally have "mset (map (\<lambda>i. f (si_Group i)) final) = mset (map (\<lambda>i. f (si_Group i)) infos)"
    by (simp add: entry_def)
  then have "distinct (map (\<lambda>i. f (si_Group i)) final)"
    using collect_infos_distinct [OF assms(3,4)] by (metis mset_eq_imp_distinct_iff)
  then show ?thesis by (simp add: res changed_def distinct_map_filter)
qed

text \<open>
  the groups returned are scaled up by exactly the number of nodes asked for, capped to
  the free capacity of the groups, and each of them is a given group, grows, and stays within
  its maximum.
\<close>

theorem balance_exact_total:
  assumes "sort_contract srt si_CurrentSize"
    and "BalanceScaleUpBetweenGroups srt groups newNodes = Some (Inr result)"
    and "collect_infos groups = Inr infos"
  shows "sum_list (map (\<lambda>i. si_NewSize i - si_CurrentSize i) result) =
      max 0 (min newNodes (totalCapacity infos)) \<and>
    (\<forall>i\<in>set result. si_Group i \<in> set groups \<and> ng_TargetSize (si_Group i) = Inr (si_CurrentSize i) \<and>
       si_CurrentSize i < si_NewSize i \<and> si_NewSize i \<le> ng_MaxSize (si_Group i))"
  by (rule balanced_plan [OF assms])

text \<open>
  C10: the outcome is balanced: the slice the loop ends with has the given groups as its
  entries, the result is its changed part, and a group that was given nodes has at most one
  node more than any group that still has room.
\<close>

theorem balance_is_balanced:
  assumes "sort_contract srt si_CurrentSize"
    and "BalanceScaleUpBetweenGroups srt groups newNodes = Some (Inr result)"
    and "collect_infos groups = Inr infos"
  shows "\<exists>final. mset (map entry final) = mset (map entry infos) \<and> result = changed final \<and>
    (\<forall>x\<in>set result. \<forall>y\<in>set final.
       si_NewSize y < si_MaxSize y \<longrightarrow> si_NewSize x \<le> si_NewSize y + 1)"
  using assms
proof (rule balance_result)
  fix final
  assume res: "result = changed final" and bal: "balanced final"
    and acc: "loop_account (mset (map entry infos))
       (total_new infos + max 0 (min newNodes (totalCapacity infos))) final 0"
  have "si_CurrentSize x < si_NewSize x" "x \<in> set final" if "x \<in> set result" for x
    using that acc unfolding res by (force simp: changed_def loop_account_def)+
  then have "\<forall>x\<in>set result. \<forall>y\<in>set final.
       si_NewSize y < si_MaxSize y \<longrightarrow> si_NewSize x \<le> si_NewSize y + 1"
    using bal by (simp add: balanced_def)
  with res acc show ?thesis by (auto simp: loop_account_def)
qed

lemma demo_balance:
  "BalanceScaleUpBetweenGroups sort_infos [sized_group ''a'' 3 9, sized_group ''b'' 1 9, sized_group ''c'' 2 2] 4 =
     Some (Inr [\<lparr>si_Group = sized_group ''b'' 1 9, si_CurrentSize = 1, si_NewSize = 4, si_MaxSize = 9\<rparr>,
                \<lparr>si_Group = sized_group ''a'' 3 9, si_CurrentSize = 3, si_NewSize = 4, si_MaxSize = 9\<rparr>])"
  by (simp add: BalanceScaleUpBetweenGroups_def sized_group_def totalCapacity_def sort_infos_def
      balance_loop.simps Let_def grow_def next_index_def changed_def)

lemma demo_collect:
  "collect_infos [sized_group ''a'' 3 9, sized_group ''b'' 1 9, sized_group ''c'' 2 2] =
     Inr [\<lparr>si_Group = sized_group ''a'' 3 9, si_CurrentSize = 3, si_NewSize = 3, si_MaxSize = 9\<rparr>,
          \<lparr>si_Group = sized_group ''b'' 1 9, si_CurrentSize = 1, si_NewSize = 1, si_MaxSize = 9\<rparr>]"
  by (simp add: sized_group_def)

lemma balance_exact_total_witness:
  "\<exists>result. BalanceScaleUpBetweenGroups sort_infos
       [sized_group ''a'' 3 9, sized_group ''b'' 1 9, sized_group ''c'' 2 2] 4 = Some (Inr result) \<and>
     sum_list (map (\<lambda>i. si_NewSize i - si_CurrentSize i) result) = 4"
  using balance_exact_total [OF si.sort_contract_axioms demo_balance demo_collect] demo_balance
  by (auto simp: totalCapacity_def)

lemma balance_is_balanced_witness:
  "\<exists>final. mset (map entry final) = {#(sized_group ''a'' 3 9, 3, 9), (sized_group ''b'' 1 9, 1, 9)#}"
  using balance_is_balanced [OF si.sort_contract_axioms demo_balance demo_collect]
  by (auto simp: entry_def)

end
