(* ===== verification/Drain.thy ===== *)
theory Drain
  imports CloudTypes
begin

text \<open>
  \<open>utils/drain/drain.go\<close> and \<open>simulator/drain.go\<close>: which pods of a node have to be moved when it
  is drained, and why a drain is refused.  The lookups of controllers through the API client are
  answers of a \<open>client\<close> record (an error, a nil object, or the object's replica count), and
  \<open>LabelSelectorAsSelector\<close> of the API machinery is the parameter \<open>as_selector\<close>: an error, or the
  matching function on label sets.  Errors are values of \<open>drainError\<close>, one constructor for each
  message of the source.
\<close>

section \<open>Pods\<close>

record ownerRef =
  or_Kind :: string
  or_Name :: string
  or_UID :: string
  or_Controller :: "bool option"

record volume =
  vol_HostPath :: "string option"
  vol_EmptyDir :: "string option"

text \<open>\<open>ct_HostPorts\<close> has the \<open>HostPort\<close> of each port of the container.\<close>

record container =
  ct_Name :: string
  ct_Requests :: "(string, quantity) gomap"
  ct_HostPorts :: "int list"

text \<open>The required terms of pod affinity and anti-affinity, each one value; nil is \<open>None\<close>.\<close>

record affinity =
  af_PodAffinity :: "string list option"
  af_PodAntiAffinity :: "string list option"

text \<open>\<open>pod_OtherSpec\<close> stands for the fields of the specification that the code does not read itself.\<close>

record pod =
  pod_Namespace :: string
  pod_Name :: string
  pod_SelfLink :: string
  pod_Annotations :: "(string, string) gomap"
  pod_Labels :: "(string, string) gomap"
  pod_OwnerReferences :: "ownerRef list"
  pod_DeletionTimestamp :: "time option"
  pod_NodeName :: string
  pod_RestartPolicy :: string
  pod_Phase :: string
  pod_Volumes :: "volume list"
  pod_Containers :: "container list"
  pod_Priority :: "int option"
  pod_TerminationGracePeriodSeconds :: "int option"
  pod_CreationTimestamp :: time
  pod_Affinity :: "affinity option"
  pod_OtherSpec :: string

definition plain_pod :: "string \<Rightarrow> string \<Rightarrow> pod" where
  "plain_pod ns name = \<lparr>pod_Namespace = ns, pod_Name = name, pod_SelfLink = ns @ ''/'' @ name,
     pod_Annotations = [], pod_Labels = [], pod_OwnerReferences = [], pod_DeletionTimestamp = None,
     pod_NodeName = '''', pod_RestartPolicy = ''Always'', pod_Phase = ''Running'', pod_Volumes = [],
     pod_Containers = [], pod_Priority = None, pod_TerminationGracePeriodSeconds = Some 30,
     pod_CreationTimestamp = 0, pod_Affinity = None, pod_OtherSpec = ''''\<rparr>"

text \<open>A pod disruption budget, with any type of selector.\<close>

record 'sel podDisruptionBudget =
  pdb_Namespace :: string
  pdb_Selector :: 'sel
  pdb_PodDisruptionsAllowed :: int

type_synonym 'sel as_selector = "'sel \<Rightarrow> string + ((string, string) gomap \<Rightarrow> bool)"

text \<open>
  What the API client answers: \<open>Inl\<close> an error, \<open>Inr None\<close> a nil object, \<open>Inr (Some r)\<close> an object,
  with \<open>Spec.Replicas\<close> where the code reads it.
\<close>

record client =
  cl_ReplicationControllers :: "string \<Rightarrow> string \<Rightarrow> string + int option option"
  cl_DaemonSets :: "string \<Rightarrow> string \<Rightarrow> string + unit option"
  cl_Jobs :: "string \<Rightarrow> string \<Rightarrow> string + unit option"
  cl_ReplicaSets :: "string \<Rightarrow> string \<Rightarrow> string + int option option"
  cl_StatefulSets :: "string \<Rightarrow> string \<Rightarrow> string + unit option"

datatype drainError =
    TooFewReplicas string string int
  | ReplicationControllerNotAvailable string string
  | DaemonSetNotPresent string string
  | JobNotAvailable string string
  | StatefulSetNotAvailable string string
  | NotReplicated string string
  | ErrorMatchingPdbs string
  | KubeSystemPodPresent string
  | LocalStoragePresent string
  | NotSafeToEvictPresent string
  | SelectorError string
  | NotEnoughDisruptionBudget string string

section \<open>Tests on one pod\<close>

definition PodDeletionTimeout :: duration where
  "PodDeletionTimeout = 12 * minute"

definition PodSafeToEvictKey :: string where
  "PodSafeToEvictKey = ''cluster-autoscaler.kubernetes.io/safe-to-evict''"

definition ConfigMirrorAnnotationKey :: string where
  "ConfigMirrorAnnotationKey = ''kubernetes.io/config.mirror''"

fun controller_of :: "ownerRef list \<Rightarrow> ownerRef option" where
  "controller_of [] = None"
| "controller_of (r # rs) = (if or_Controller r = Some True then Some r else controller_of rs)"

definition ControllerRef :: "pod \<Rightarrow> ownerRef option" where
  "ControllerRef p = controller_of (pod_OwnerReferences p)"

definition IsMirrorPod :: "pod \<Rightarrow> bool" where
  "IsMirrorPod p \<longleftrightarrow> mhas (pod_Annotations p) ConfigMirrorAnnotationKey"

definition isPodTerminal :: "pod \<Rightarrow> bool" where
  "isPodTerminal p \<longleftrightarrow>
     (if pod_RestartPolicy p = ''Never'' \<and> (pod_Phase p = ''Succeeded'' \<or> pod_Phase p = ''Failed'') then True
      else if pod_RestartPolicy p = ''OnFailure'' \<and> pod_Phase p = ''Succeeded'' then True
      else pod_Phase p = ''Failed'')"

definition isLocalVolume :: "volume \<Rightarrow> bool" where
  "isLocalVolume v \<longleftrightarrow> vol_HostPath v \<noteq> None \<or> vol_EmptyDir v \<noteq> None"

definition HasLocalStorage :: "pod \<Rightarrow> bool" where
  "HasLocalStorage p \<longleftrightarrow> list_ex isLocalVolume (pod_Volumes p)"

definition hasSafeToEvictAnnotation :: "pod \<Rightarrow> bool" where
  "hasSafeToEvictAnnotation p \<longleftrightarrow> mget0 '''' (pod_Annotations p) PodSafeToEvictKey = ''true''"

definition hasNotSafeToEvictAnnotation :: "pod \<Rightarrow> bool" where
  "hasNotSafeToEvictAnnotation p \<longleftrightarrow> mget0 '''' (pod_Annotations p) PodSafeToEvictKey = ''false''"

fun checkKubeSystemPDBs ::
  "'sel as_selector \<Rightarrow> pod \<Rightarrow> 'sel podDisruptionBudget list \<Rightarrow> string + bool" where
  "checkKubeSystemPDBs as_sel p [] = Inr False"
| "checkKubeSystemPDBs as_sel p (pdb # pdbs) =
     (case as_sel (pdb_Selector pdb) of
        Inl err \<Rightarrow> Inl err
      | Inr matches \<Rightarrow>
          (if matches (pod_Labels p) then Inr True else checkKubeSystemPDBs as_sel p pdbs))"

section \<open>The pods a drain has to delete\<close>

text \<open>
  The reference to the controller: \<open>daemonsetPod\<close> and \<open>replicated\<close>, or the error of a controller
  that is missing or has too few replicas.
\<close>

definition replicas_check ::
  "string + int option option \<Rightarrow> int \<Rightarrow> pod \<Rightarrow> drainError + (bool \<times> bool)" where
  "replicas_check answer minReplica p =
     (case answer of
        Inr (Some replicas) \<Rightarrow>
          (case replicas of
             Some n \<Rightarrow> if n < minReplica then Inl (TooFewReplicas (pod_Namespace p) (pod_Name p) minReplica)
                       else Inr (False, True)
           | None \<Rightarrow> Inr (False, True))
      | _ \<Rightarrow> Inl (ReplicationControllerNotAvailable (pod_Namespace p) (pod_Name p)))"

definition found :: "string + unit option \<Rightarrow> bool" where
  "found answer \<longleftrightarrow> answer = Inr (Some ())"

definition controller_check ::
  "bool \<Rightarrow> client \<Rightarrow> int \<Rightarrow> pod \<Rightarrow> drainError + (bool \<times> bool)" where
  "controller_check checkReferences cl minReplica p =
     (let ns = pod_Namespace p;
          refKind = (case ControllerRef p of None \<Rightarrow> '''' | Some r \<Rightarrow> or_Kind r);
          refName = (case ControllerRef p of None \<Rightarrow> '''' | Some r \<Rightarrow> or_Name r)
      in if refKind = ''ReplicationController'' then
           (if checkReferences
            then replicas_check (cl_ReplicationControllers cl ns refName) minReplica p
            else Inr (False, True))
         else if refKind = ''DaemonSet'' then
           (if checkReferences \<and> \<not> found (cl_DaemonSets cl ns refName)
            then Inl (DaemonSetNotPresent ns (pod_Name p)) else Inr (True, False))
         else if refKind = ''Job'' then
           (if checkReferences \<and> \<not> found (cl_Jobs cl ns refName)
            then Inl (JobNotAvailable ns (pod_Name p)) else Inr (False, True))
         else if refKind = ''ReplicaSet'' then
           (if checkReferences
            then replicas_check (cl_ReplicaSets cl ns refName) minReplica p
            else Inr (False, True))
         else if refKind = ''StatefulSet'' then
           (if checkReferences \<and> \<not> found (cl_StatefulSets cl ns refName)
            then Inl (StatefulSetNotAvailable ns (pod_Name p)) else Inr (False, True))
         else Inr (False, False))"

text \<open>The constraints on a pod that is neither safe to evict nor terminal: \<open>None\<close> if it passes.\<close>

definition eviction_problem ::
  "'sel as_selector \<Rightarrow> 'sel podDisruptionBudget list \<Rightarrow> bool \<Rightarrow> bool \<Rightarrow> bool \<Rightarrow> pod \<Rightarrow> drainError option" where
  "eviction_problem as_sel kubeSystemPDBs skipSystem skipLocal replicated p =
     (if \<not> replicated then Some (NotReplicated (pod_Namespace p) (pod_Name p))
      else
        let system = (if pod_Namespace p = ''kube-system'' \<and> skipSystem then
               (case checkKubeSystemPDBs as_sel p kubeSystemPDBs of
                  Inl err \<Rightarrow> Some (ErrorMatchingPdbs err)
                | Inr hasPDB \<Rightarrow> if hasPDB then None else Some (KubeSystemPodPresent (pod_Name p)))
             else None)
        in if system \<noteq> None then system
           else if HasLocalStorage p \<and> skipLocal then Some (LocalStoragePresent (pod_Name p))
           else if hasNotSafeToEvictAnnotation p then Some (NotSafeToEvictPresent (pod_Name p))
           else None)"

definition deleted_long_ago :: "time \<Rightarrow> pod \<Rightarrow> bool" where
  "deleted_long_ago currentTime p \<longleftrightarrow>
     (case pod_DeletionTimestamp p of
        None \<Rightarrow> False
      | Some t \<Rightarrow> time_before t (time_add currentTime (-1 * PodDeletionTimeout)))"

text \<open>One pass of the loop: an error ends it, \<open>Inr False\<close> skips the pod, \<open>Inr True\<close> appends it.\<close>

definition drain_step ::
  "'sel as_selector \<Rightarrow> 'sel podDisruptionBudget list \<Rightarrow> bool \<Rightarrow> bool \<Rightarrow> bool \<Rightarrow> bool \<Rightarrow> client \<Rightarrow> int \<Rightarrow>
     time \<Rightarrow> pod \<Rightarrow> drainError + bool" where
  "drain_step as_sel kubeSystemPDBs deleteAll skipSystem skipLocal checkReferences cl minReplica currentTime p =
     (if IsMirrorPod p then Inr False
      else if deleted_long_ago currentTime p then Inr False
      else
        (case controller_check checkReferences cl minReplica p of
           Inl err \<Rightarrow> Inl err
         | Inr (daemonsetPod, replicated) \<Rightarrow>
             if daemonsetPod then Inr False
             else if \<not> deleteAll \<and> \<not> hasSafeToEvictAnnotation p \<and> \<not> isPodTerminal p then
               (case eviction_problem as_sel kubeSystemPDBs skipSystem skipLocal replicated p of
                  Some err \<Rightarrow> Inl err
                | None \<Rightarrow> Inr True)
             else Inr True))"

fun drain_loop :: "(pod \<Rightarrow> drainError + bool) \<Rightarrow> pod list \<Rightarrow> drainError + pod list" where
  "drain_loop step [] = Inr []"
| "drain_loop step (p # ps) =
     (case step p of
        Inl err \<Rightarrow> Inl err
      | Inr keep \<Rightarrow>
          (case drain_loop step ps of
             Inl err \<Rightarrow> Inl err
           | Inr pods \<Rightarrow> Inr (if keep then p # pods else pods)))"

definition GetPodsForDeletionOnNodeDrain ::
  "'sel as_selector \<Rightarrow> pod list \<Rightarrow> 'sel podDisruptionBudget list \<Rightarrow> bool \<Rightarrow> bool \<Rightarrow> bool \<Rightarrow> bool \<Rightarrow>
     client \<Rightarrow> int \<Rightarrow> time \<Rightarrow> drainError + pod list" where
  "GetPodsForDeletionOnNodeDrain as_sel podList pdbs deleteAll skipSystem skipLocal checkReferences cl
       minReplica currentTime =
     (let kubeSystemPDBs = filter (\<lambda>pdb. pdb_Namespace pdb = ''kube-system'') pdbs
      in drain_loop (drain_step as_sel kubeSystemPDBs deleteAll skipSystem skipLocal checkReferences cl
           minReplica currentTime) podList)"

section \<open>Disruption budgets: \<open>simulator/drain.go\<close>\<close>

definition pdb_pod_error :: "((string, string) gomap \<Rightarrow> bool) \<Rightarrow> 'sel podDisruptionBudget \<Rightarrow> pod \<Rightarrow> bool" where
  "pdb_pod_error matches pdb p \<longleftrightarrow>
     pod_Namespace p = pdb_Namespace pdb \<and> matches (pod_Labels p) \<and> pdb_PodDisruptionsAllowed pdb < 1"

fun checkPdbs :: "'sel as_selector \<Rightarrow> pod list \<Rightarrow> 'sel podDisruptionBudget list \<Rightarrow> drainError option" where
  "checkPdbs as_sel pods [] = None"
| "checkPdbs as_sel pods (pdb # pdbs) =
     (case as_sel (pdb_Selector pdb) of
        Inl err \<Rightarrow> Some (SelectorError err)
      | Inr matches \<Rightarrow>
          (case find (pdb_pod_error matches pdb) pods of
             Some p \<Rightarrow> Some (NotEnoughDisruptionBudget (pod_Namespace p) (pod_Name p))
           | None \<Rightarrow> checkPdbs as_sel pods pdbs))"

definition no_client :: client where
  "no_client = \<lparr>cl_ReplicationControllers = \<lambda>_ _. Inr None, cl_DaemonSets = \<lambda>_ _. Inr None,
     cl_Jobs = \<lambda>_ _. Inr None, cl_ReplicaSets = \<lambda>_ _. Inr None, cl_StatefulSets = \<lambda>_ _. Inr None\<rparr>"

definition with_pdb_check ::
  "'sel as_selector \<Rightarrow> 'sel podDisruptionBudget list \<Rightarrow> drainError + pod list \<Rightarrow> drainError + pod list" where
  "with_pdb_check as_sel pdbs result =
     (case result of
        Inl err \<Rightarrow> Inl err
      | Inr pods \<Rightarrow>
          (case checkPdbs as_sel pods pdbs of
             Some err \<Rightarrow> Inl err
           | None \<Rightarrow> Inr pods))"

definition FastGetPodsToMove ::
  "'sel as_selector \<Rightarrow> time \<Rightarrow> pod list \<Rightarrow> bool \<Rightarrow> bool \<Rightarrow> 'sel podDisruptionBudget list \<Rightarrow>
     drainError + pod list" where
  "FastGetPodsToMove as_sel now nodePods skipSystem skipLocal pdbs =
     with_pdb_check as_sel pdbs
       (GetPodsForDeletionOnNodeDrain as_sel nodePods pdbs False skipSystem skipLocal False no_client 0 now)"

definition DetailedGetPodsForMove ::
  "'sel as_selector \<Rightarrow> time \<Rightarrow> pod list \<Rightarrow> bool \<Rightarrow> bool \<Rightarrow> client \<Rightarrow> int \<Rightarrow>
     'sel podDisruptionBudget list \<Rightarrow> drainError + pod list" where
  "DetailedGetPodsForMove as_sel now nodePods skipSystem skipLocal cl minReplicaCount pdbs =
     with_pdb_check as_sel pdbs
       (GetPodsForDeletionOnNodeDrain as_sel nodePods pdbs False skipSystem skipLocal True cl
          minReplicaCount now)"

section \<open>Pods a new node would run: \<open>simulator/nodes.go\<close>\<close>

text \<open>\<open>listed\<close> is the answer of the API server to the list request.\<close>

definition GetRequiredPodsForNode ::
  "'sel as_selector \<Rightarrow> time \<Rightarrow> string + pod list \<Rightarrow> (string + drainError) + pod list" where
  "GetRequiredPodsForNode as_sel now listed =
     (case listed of
        Inl err \<Rightarrow> Inl (Inl err)
      | Inr allPods \<Rightarrow>
          (case GetPodsForDeletionOnNodeDrain as_sel allPods [] True False False False no_client 0 now of
             Inl err \<Rightarrow> Inl (Inr err)
           | Inr podsToRemoveList \<Rightarrow>
               (let podsToRemoveMap = foldl (\<lambda>m p. mput (pod_SelfLink p) () m) [] podsToRemoveList
                in Inr (filter (\<lambda>p. pod_DeletionTimestamp p = None \<and>
                                    mget podsToRemoveMap (pod_SelfLink p) = None) allPods))))"

section \<open>The loop is a filter\<close>

lemma drain_loop_eq:
  "drain_loop step ps =
     (case find (\<lambda>p. isl (step p)) ps of
        Some p \<Rightarrow> Inl (projl (step p))
      | None \<Rightarrow> Inr (filter (\<lambda>p. step p = Inr True) ps))"
  by (induction ps) (auto split: sum.splits option.splits)

lemma drain_loop_Inr:
  "drain_loop step ps = Inr pods \<longleftrightarrow>
     (\<forall>p\<in>set ps. \<exists>keep. step p = Inr keep) \<and> pods = filter (\<lambda>p. step p = Inr True) ps"
proof -
  have "(\<forall>p\<in>set ps. \<exists>keep. step p = Inr keep) \<longleftrightarrow> find (\<lambda>p. isl (step p)) ps = None"
    unfolding find_None_iff by (metis isl_def sum.disc(2) obj_sumE)
  then show ?thesis by (auto simp: drain_loop_eq split: option.splits)
qed

text \<open>
  The specification of a pod, in the words of the documentation: it is left where it is
  (\<open>stays\<close>), it is moved, or it blocks the drain.
\<close>

definition daemonset_managed :: "pod \<Rightarrow> bool" where
  "daemonset_managed p \<longleftrightarrow> (\<exists>r. ControllerRef p = Some r \<and> or_Kind r = ''DaemonSet'')"

definition replicated_kinds :: "string list" where
  "replicated_kinds = [''ReplicationController'', ''Job'', ''ReplicaSet'', ''StatefulSet'']"

definition replicated_pod :: "pod \<Rightarrow> bool" where
  "replicated_pod p \<longleftrightarrow> (\<exists>r. ControllerRef p = Some r \<and> or_Kind r \<in> set replicated_kinds)"

definition stays :: "time \<Rightarrow> pod \<Rightarrow> bool" where
  "stays now p \<longleftrightarrow> IsMirrorPod p \<or> deleted_long_ago now p \<or> daemonset_managed p"

definition pdb_protected :: "'sel as_selector \<Rightarrow> 'sel podDisruptionBudget list \<Rightarrow> pod \<Rightarrow> bool" where
  "pdb_protected as_sel pdbs p \<longleftrightarrow>
     checkKubeSystemPDBs as_sel p (filter (\<lambda>pdb. pdb_Namespace pdb = ''kube-system'') pdbs) = Inr True"

definition may_be_evicted ::
  "'sel as_selector \<Rightarrow> 'sel podDisruptionBudget list \<Rightarrow> bool \<Rightarrow> bool \<Rightarrow> pod \<Rightarrow> bool" where
  "may_be_evicted as_sel pdbs skipSystem skipLocal p \<longleftrightarrow>
     hasSafeToEvictAnnotation p \<or> isPodTerminal p \<or>
     (replicated_pod p \<and>
      (pod_Namespace p = ''kube-system'' \<and> skipSystem \<longrightarrow> pdb_protected as_sel pdbs p) \<and>
      \<not> (HasLocalStorage p \<and> skipLocal) \<and> \<not> hasNotSafeToEvictAnnotation p)"

lemma controller_check_fast:
  "controller_check False cl n p = Inr (daemonset_managed p, replicated_pod p)"
  by (cases "ControllerRef p") (simp_all add: controller_check_def daemonset_managed_def replicated_pod_def
      replicated_kinds_def Let_def)

lemma controller_check_sound:
  "controller_check c cl n p = Inr (d, r) \<Longrightarrow> d = daemonset_managed p \<and> r = replicated_pod p"
  by (auto simp: controller_check_def replicas_check_def daemonset_managed_def replicated_pod_def
      replicated_kinds_def Let_def split: option.splits sum.splits if_splits)

lemma eviction_problem_None:
  "eviction_problem as_sel (filter (\<lambda>pdb. pdb_Namespace pdb = ''kube-system'') pdbs) skipSystem skipLocal
      (replicated_pod p) p = None \<longleftrightarrow>
     replicated_pod p \<and> (pod_Namespace p = ''kube-system'' \<and> skipSystem \<longrightarrow> pdb_protected as_sel pdbs p) \<and>
     \<not> (HasLocalStorage p \<and> skipLocal) \<and> \<not> hasNotSafeToEvictAnnotation p"
  by (auto simp: eviction_problem_def pdb_protected_def Let_def split: sum.splits if_splits)

text \<open>The step against the specification.\<close>

lemma drain_step_fast:
  "drain_step as_sel (filter (\<lambda>pdb. pdb_Namespace pdb = ''kube-system'') pdbs) False skipSystem skipLocal
      False cl n now p = Inr keep \<longleftrightarrow>
     (if stays now p then \<not> keep else may_be_evicted as_sel pdbs skipSystem skipLocal p \<and> keep)"
proof (cases "stays now p")
  case True
  then show ?thesis
    by (auto simp: drain_step_def stays_def controller_check_fast)
next
  case False
  then show ?thesis
    using eviction_problem_None [of as_sel pdbs skipSystem skipLocal p]
    by (auto simp: drain_step_def stays_def controller_check_fast may_be_evicted_def split: option.splits)
qed

lemma drain_step_sound:
  assumes "drain_step as_sel (filter (\<lambda>pdb. pdb_Namespace pdb = ''kube-system'') pdbs) False skipSystem skipLocal
      c cl n now p = Inr keep"
  shows "if stays now p then \<not> keep else may_be_evicted as_sel pdbs skipSystem skipLocal p \<and> keep"
proof (cases "IsMirrorPod p \<or> deleted_long_ago now p")
  case True
  then have "keep = False" using assms by (simp add: drain_step_def split: if_splits)
  with True show ?thesis by (auto simp: stays_def)
next
  case False
  then obtain d r where c: "controller_check c cl n p = Inr (d, r)"
    using assms by (auto simp: drain_step_def split: sum.splits)
  then have dr: "d = daemonset_managed p" "r = replicated_pod p" using controller_check_sound by auto
  show ?thesis
    using False assms c eviction_problem_None [of as_sel pdbs skipSystem skipLocal p]
    by (auto simp: drain_step_def stays_def dr may_be_evicted_def split: option.splits if_splits)
qed

section \<open>Disruption budgets\<close>

lemma find_None_iff_pdb:
  "find (pdb_pod_error m pdb) pods = None \<longleftrightarrow>
     (\<forall>p\<in>set pods. pod_Namespace p = pdb_Namespace pdb \<longrightarrow> m (pod_Labels p) \<longrightarrow> 1 \<le> pdb_PodDisruptionsAllowed pdb)"
  by (auto simp: find_None_iff pdb_pod_error_def)

definition budget_allows :: "'sel as_selector \<Rightarrow> pod list \<Rightarrow> 'sel podDisruptionBudget \<Rightarrow> bool" where
  "budget_allows as_sel pods pdb \<longleftrightarrow>
     (\<exists>m. as_sel (pdb_Selector pdb) = Inr m \<and>
        (\<forall>p\<in>set pods. pod_Namespace p = pdb_Namespace pdb \<longrightarrow> m (pod_Labels p) \<longrightarrow>
           1 \<le> pdb_PodDisruptionsAllowed pdb))"

lemma checkPdbs_None:
  "checkPdbs as_sel pods pdbs = None \<longleftrightarrow> (\<forall>pdb\<in>set pdbs. budget_allows as_sel pods pdb)"
proof (induction pdbs)
  case (Cons pdb pdbs)
  show ?case
  proof (cases "as_sel (pdb_Selector pdb)")
    case (Inr m)
    then have "budget_allows as_sel pods pdb \<longleftrightarrow> find (pdb_pod_error m pdb) pods = None"
      by (simp add: budget_allows_def find_None_iff_pdb)
    then show ?thesis using Inr Cons.IH by (auto split: option.splits)
  qed (simp add: budget_allows_def)
qed simp

section \<open>Properties\<close>

lemma FastGetPodsToMove_iff:
  "FastGetPodsToMove as_sel now ps skipSystem skipLocal pdbs = Inr pods \<longleftrightarrow>
     (\<forall>p\<in>set ps. stays now p \<or> may_be_evicted as_sel pdbs skipSystem skipLocal p) \<and>
     pods = filter (\<lambda>p. \<not> stays now p) ps \<and>
     (\<forall>pdb\<in>set pdbs. budget_allows as_sel pods pdb)"
proof -
  let ?step = "drain_step as_sel (filter (\<lambda>pdb. pdb_Namespace pdb = ''kube-system'') pdbs) False skipSystem
      skipLocal False no_client 0 now"
  have ok: "(\<exists>keep. ?step p = Inr keep) \<longleftrightarrow> stays now p \<or> may_be_evicted as_sel pdbs skipSystem skipLocal p" for p
    by (auto simp: drain_step_fast)
  have keep: "?step p = Inr True \<longleftrightarrow> \<not> stays now p"
    if "stays now p \<or> may_be_evicted as_sel pdbs skipSystem skipLocal p" for p
    using that by (auto simp: drain_step_fast)
  have "GetPodsForDeletionOnNodeDrain as_sel ps pdbs False skipSystem skipLocal False no_client 0 now = Inr pods \<longleftrightarrow>
      (\<forall>p\<in>set ps. stays now p \<or> may_be_evicted as_sel pdbs skipSystem skipLocal p) \<and>
      pods = filter (\<lambda>p. \<not> stays now p) ps" for pods
    unfolding GetPodsForDeletionOnNodeDrain_def Let_def drain_loop_Inr ok
    by (intro conj_cong refl arg_cong2 [where f = "(=)"] filter_cong) (simp add: keep)
  note get = this
  have "FastGetPodsToMove as_sel now ps skipSystem skipLocal pdbs = Inr pods \<longleftrightarrow>
      GetPodsForDeletionOnNodeDrain as_sel ps pdbs False skipSystem skipLocal False no_client 0 now = Inr pods \<and>
      checkPdbs as_sel pods pdbs = None"
    by (auto simp: FastGetPodsToMove_def with_pdb_check_def split: sum.splits option.splits)
  then show ?thesis unfolding get checkPdbs_None by simp
qed

text \<open>
  C39: The fast check moves exactly the pods that do not stay.  \<open>FastGetPodsToMove\<close> succeeds
  if and only if every pod of the node stays (a mirror pod, a pod deleted more than twelve
  minutes ago, or a daemon set's pod) or may be evicted, and every disruption budget that matches
  a moved pod allows a disruption; the pods returned are those that do not stay, in their order.
\<close>

theorem FastGetPodsToMove_spec:
  "FastGetPodsToMove as_sel now ps skipSystem skipLocal pdbs = Inr pods \<longleftrightarrow>
     (\<forall>p\<in>set ps. stays now p \<or> may_be_evicted as_sel pdbs skipSystem skipLocal p) \<and>
     pods = filter (\<lambda>p. \<not> stays now p) ps \<and>
     (\<forall>pdb\<in>set pdbs. budget_allows as_sel pods pdb)"
  by (rule FastGetPodsToMove_iff)

definition label_selector :: "(string \<times> string) as_selector" where
  "label_selector kv = Inr (\<lambda>ls. mget ls (fst kv) = Some (snd kv))"

definition owned_pod :: "string \<Rightarrow> string \<Rightarrow> pod" where
  "owned_pod kind name = (plain_pod ''default'' name)\<lparr>pod_OwnerReferences :=
     [\<lparr>or_Kind = kind, or_Name = name, or_UID = kind @ ''/'' @ name, or_Controller = Some True\<rparr>], pod_Labels := [(''app'', name)]\<rparr>"

definition mirror_pod :: pod where
  "mirror_pod = (plain_pod ''kube-system'' ''proxy'')\<lparr>pod_Annotations := [(ConfigMirrorAnnotationKey, '''')]\<rparr>"

definition web_budget :: "(string \<times> string) podDisruptionBudget" where
  "web_budget = \<lparr>pdb_Namespace = ''default'', pdb_Selector = (''app'', ''web''), pdb_PodDisruptionsAllowed = 1\<rparr>"

lemmas demo_pod_defs = label_selector_def owned_pod_def mirror_pod_def web_budget_def plain_pod_def
  stays_def IsMirrorPod_def deleted_long_ago_def daemonset_managed_def ControllerRef_def
  may_be_evicted_def replicated_pod_def replicated_kinds_def HasLocalStorage_def
  hasNotSafeToEvictAnnotation_def budget_allows_def ConfigMirrorAnnotationKey_def
  PodSafeToEvictKey_def mget0_def mhas_def

lemma FastGetPodsToMove_spec_witness:
  "FastGetPodsToMove label_selector 0 [owned_pod ''ReplicaSet'' ''web'', mirror_pod, owned_pod ''DaemonSet'' ''logs'']
     True True [web_budget] = Inr [owned_pod ''ReplicaSet'' ''web'']"
  unfolding FastGetPodsToMove_spec by (simp add: demo_pod_defs)

text \<open>What the detailed loop finds out about the pods when it succeeds.\<close>

lemma detailed_loop_pods:
  assumes loop: "drain_loop (drain_step as_sel (filter (\<lambda>pdb. pdb_Namespace pdb = ''kube-system'') pdbs) False skipSystem skipLocal
      True cl minReplica now) ps = Inr pods"
  shows "pods = filter (\<lambda>p. \<not> stays now p) ps"
    and "p \<in> set ps \<Longrightarrow> stays now p \<or> may_be_evicted as_sel pdbs skipSystem skipLocal p"
    and "p \<in> set pods \<Longrightarrow> \<exists>d r. controller_check True cl minReplica p = Inr (d, r)"
proof -
  let ?step = "drain_step as_sel (filter (\<lambda>pdb. pdb_Namespace pdb = ''kube-system'') pdbs) False skipSystem skipLocal True cl minReplica now"
  have ok: "\<exists>keep. ?step p = Inr keep" if "p \<in> set ps" for p
    using loop that by (simp add: drain_loop_Inr)
  have sound: "(?step p = Inr True \<longleftrightarrow> \<not> stays now p) \<and> (stays now p \<or> may_be_evicted as_sel pdbs skipSystem skipLocal p)"
    if p: "p \<in> set ps" for p
  proof -
    obtain k where k: "?step p = Inr k" using ok [OF p] by blast
    show ?thesis using k drain_step_sound [OF k] by (simp split: if_splits)
  qed
  have "pods = filter (\<lambda>p. ?step p = Inr True) ps" using loop by (simp only: drain_loop_Inr)
  also have "\<dots> = filter (\<lambda>p. \<not> stays now p) ps" by (rule filter_cong [OF refl]) (use sound in blast)
  finally show pods: "pods = filter (\<lambda>p. \<not> stays now p) ps" .
  show "p \<in> set ps \<Longrightarrow> stays now p \<or> may_be_evicted as_sel pdbs skipSystem skipLocal p" using sound by blast
  show "\<exists>d r. controller_check True cl minReplica p = Inr (d, r)" if "p \<in> set pods"
  proof -
    have p: "p \<in> set ps" "\<not> stays now p" using that pods by auto
    then obtain keep where "?step p = Inr keep" using ok by blast
    then show ?thesis using p(2) by (auto simp: drain_step_def stays_def split: sum.splits if_splits)
  qed
qed

text \<open>
  C40: The detailed check is a stricter fast check.  When \<open>DetailedGetPodsForMove\<close> accepts a node,
  \<open>FastGetPodsToMove\<close> accepts it with the same pods, and every pod that does not stay and is owned
  by a replication controller or replica set has a controller the API server returned, with no
  replica count or at least the minimum.
\<close>

theorem DetailedGetPodsForMove_refines_fast:
  assumes "DetailedGetPodsForMove as_sel now ps skipSystem skipLocal cl minReplica pdbs = Inr pods"
  shows "FastGetPodsToMove as_sel now ps skipSystem skipLocal pdbs = Inr pods \<and>
     (\<forall>p\<in>set pods. \<forall>r. ControllerRef p = Some r \<longrightarrow>
        (or_Kind r = ''ReplicationController'' \<longrightarrow>
           (\<exists>n. cl_ReplicationControllers cl (pod_Namespace p) (or_Name r) = Inr (Some n) \<and>
              (\<forall>k. n = Some k \<longrightarrow> minReplica \<le> k))) \<and>
        (or_Kind r = ''ReplicaSet'' \<longrightarrow>
           (\<exists>n. cl_ReplicaSets cl (pod_Namespace p) (or_Name r) = Inr (Some n) \<and>
              (\<forall>k. n = Some k \<longrightarrow> minReplica \<le> k))))"
proof -
  have loop: "drain_loop (drain_step as_sel (filter (\<lambda>pdb. pdb_Namespace pdb = ''kube-system'') pdbs) False skipSystem skipLocal
      True cl minReplica now) ps = Inr pods" and pdbs: "checkPdbs as_sel pods pdbs = None"
    using assms by (auto simp: DetailedGetPodsForMove_def with_pdb_check_def
        GetPodsForDeletionOnNodeDrain_def Let_def split: sum.splits option.splits)
  note found = detailed_loop_pods(3) [OF loop]
  have fast: "FastGetPodsToMove as_sel now ps skipSystem skipLocal pdbs = Inr pods"
    using detailed_loop_pods(1,2) [OF loop] pdbs by (simp add: FastGetPodsToMove_iff checkPdbs_None)
  have "\<exists>n. cl_ReplicationControllers cl (pod_Namespace p) (or_Name r) = Inr (Some n) \<and>
      (\<forall>k. n = Some k \<longrightarrow> minReplica \<le> k)"
    if "p \<in> set pods" "ControllerRef p = Some r" "or_Kind r = ''ReplicationController''" for p r
    using found [OF that(1)] that(2,3)
    by (auto simp: controller_check_def replicas_check_def split: sum.splits option.splits if_splits)
  moreover have "\<exists>n. cl_ReplicaSets cl (pod_Namespace p) (or_Name r) = Inr (Some n) \<and>
      (\<forall>k. n = Some k \<longrightarrow> minReplica \<le> k)"
    if "p \<in> set pods" "ControllerRef p = Some r" "or_Kind r = ''ReplicaSet''" for p r
    using found [OF that(1)] that(2,3)
    by (auto simp: controller_check_def replicas_check_def split: sum.splits option.splits if_splits)
  ultimately show ?thesis using fast by blast
qed

definition demo_client :: client where
  "demo_client = no_client\<lparr>cl_ReplicaSets := \<lambda>ns name. Inr (Some (Some 3))\<rparr>"

lemma DetailedGetPodsForMove_refines_fast_witness:
  "FastGetPodsToMove label_selector 0 [owned_pod ''ReplicaSet'' ''web'', mirror_pod] True True [web_budget] =
     Inr [owned_pod ''ReplicaSet'' ''web'']"
proof -
  have "DetailedGetPodsForMove label_selector 0 [owned_pod ''ReplicaSet'' ''web'', mirror_pod] True True
      demo_client 2 [web_budget] = Inr [owned_pod ''ReplicaSet'' ''web'']"
    by (simp add: DetailedGetPodsForMove_def with_pdb_check_def GetPodsForDeletionOnNodeDrain_def
        drain_step_def controller_check_def replicas_check_def eviction_problem_def demo_client_def
        no_client_def pdb_pod_error_def hasSafeToEvictAnnotation_def isPodTerminal_def demo_pod_defs)
  from DetailedGetPodsForMove_refines_fast [OF this] show ?thesis by blast
qed

lemma store_units: "mget (foldl (\<lambda>m p. mput (f p) () m) m ps) k = None \<longleftrightarrow> k \<notin> f ` set ps \<and> mget m k = None"
  by (induction ps arbitrary: m) auto

lemma drain_step_forced:
  "drain_step as_sel sys True skipSystem skipLocal False cl n now p = Inr (\<not> stays now p)"
  by (auto simp: drain_step_def stays_def controller_check_fast)

text \<open>
  The pods of a node that is about to be created.  With forced deletion and no reference checks
  the drain cannot fail, so \<open>GetRequiredPodsForNode\<close> fails only when the API server does; with
  pairwise different self links it returns the mirror and daemon set pods that are not being
  deleted, in the order of the API server's list.
\<close>

theorem GetRequiredPodsForNode_spec:
  assumes "distinct (map pod_SelfLink ps)"
  shows "GetRequiredPodsForNode as_sel now (Inr ps) =
     Inr (filter (\<lambda>p. pod_DeletionTimestamp p = None \<and> (IsMirrorPod p \<or> daemonset_managed p)) ps)"
proof -
  have removed: "GetPodsForDeletionOnNodeDrain as_sel ps [] True False False False no_client 0 now =
      Inr (filter (\<lambda>p. \<not> stays now p) ps)"
    by (simp add: GetPodsForDeletionOnNodeDrain_def drain_loop_Inr drain_step_forced)
  have "pod_SelfLink p \<notin> pod_SelfLink ` set (filter (\<lambda>p. \<not> stays now p) ps) \<longleftrightarrow> stays now p"
    if "p \<in> set ps" for p
    using assms that by (auto simp: distinct_map inj_on_def)
  moreover have "pod_DeletionTimestamp p = None \<Longrightarrow> stays now p \<longleftrightarrow> IsMirrorPod p \<or> daemonset_managed p" for p
    by (simp add: stays_def deleted_long_ago_def)
  ultimately show ?thesis
    by (auto simp: GetRequiredPodsForNode_def removed store_units Let_def intro!: filter_cong)
qed

lemma GetRequiredPodsForNode_spec_witness:
  "GetRequiredPodsForNode label_selector 0 (Inr [owned_pod ''ReplicaSet'' ''web'', mirror_pod, owned_pod ''DaemonSet'' ''logs'']) =
     Inr [mirror_pod, owned_pod ''DaemonSet'' ''logs'']"
  by (subst GetRequiredPodsForNode_spec) (simp_all add: demo_pod_defs)

end
