(* ===== verification/Tracker.thy ===== *)
theory Tracker
  imports Prelude
begin

text \<open>
  \<open>simulator/tracker.go\<close>: the usage tracker, which remembers which node's pods were placed on
  which other node, with at most fifty entries per direction.  The abstract specification is
  the relation \<open>live\<close> of the usages registered and not yet cleaned up; the concrete records cover
  it: a usage is in both records, unless a record gave up counting (\<open>TooMany\<close>).
\<close>

definition maxUsageRecorded :: nat where
  "maxUsageRecorded = 50"

record usageRecord =
  ur_usingTooMany :: bool
  ur_using :: "(string, time) gomap"
  ur_usedByTooMany :: bool
  ur_usedBy :: "(string, time) gomap"

type_synonym usageTracker = "(string, usageRecord) gomap"

definition NewUsageTracker :: usageTracker where
  "NewUsageTracker = []"

definition new_record :: usageRecord where
  "new_record = \<lparr>ur_usingTooMany = False, ur_using = [], ur_usedByTooMany = False, ur_usedBy = []\<rparr>"

section \<open>Operations\<close>

definition add_using :: "string \<Rightarrow> time \<Rightarrow> usageRecord \<Rightarrow> usageRecord" where
  "add_using nodeB t r =
     (if maxUsageRecorded \<le> length (ur_using r) then r\<lparr>ur_usingTooMany := True\<rparr>
      else r\<lparr>ur_using := mput nodeB t (ur_using r)\<rparr>)"

definition add_usedBy :: "string \<Rightarrow> time \<Rightarrow> usageRecord \<Rightarrow> usageRecord" where
  "add_usedBy nodeA t r =
     (if maxUsageRecorded \<le> length (ur_usedBy r) then r\<lparr>ur_usedByTooMany := True\<rparr>
      else r\<lparr>ur_usedBy := mput nodeA t (ur_usedBy r)\<rparr>)"

definition RegisterUsage :: "string \<Rightarrow> string \<Rightarrow> time \<Rightarrow> usageTracker \<Rightarrow> usageTracker" where
  "RegisterUsage nodeA nodeB t tr =
     (let tr1 = (case mget tr nodeA of
            Some r \<Rightarrow> mput nodeA (add_using nodeB t r) tr
          | None \<Rightarrow> mput nodeA (new_record\<lparr>ur_using := mput nodeB t []\<rparr>) tr)
      in case mget tr1 nodeB of
           Some r \<Rightarrow> mput nodeB (add_usedBy nodeA t r) tr1
         | None \<Rightarrow> mput nodeB (new_record\<lparr>ur_usedBy := mput nodeA t []\<rparr>) tr1)"

definition drop_usedBy :: "string \<Rightarrow> usageTracker \<Rightarrow> string \<Rightarrow> usageTracker" where
  "drop_usedBy node tr k =
     (case mget tr k of
        Some r2 \<Rightarrow> mput k (r2\<lparr>ur_usedBy := mdel node (ur_usedBy r2)\<rparr>) tr
      | None \<Rightarrow> tr)"

definition drop_using :: "string \<Rightarrow> usageTracker \<Rightarrow> string \<Rightarrow> usageTracker" where
  "drop_using node tr k =
     (case mget tr k of
        Some r2 \<Rightarrow> mput k (r2\<lparr>ur_using := mdel node (ur_using r2)\<rparr>) tr
      | None \<Rightarrow> tr)"

text \<open>The second loop reads the record again: the first may have changed it.\<close>

definition Unregister :: "string \<Rightarrow> usageTracker \<Rightarrow> usageTracker" where
  "Unregister node tr =
     (case mget tr node of
        None \<Rightarrow> tr
      | Some r \<Rightarrow>
          (let tr1 = foldl (drop_usedBy node) tr (mkeys (ur_using r));
               tr2 = foldl (drop_using node) tr1
                       (case mget tr1 node of None \<Rightarrow> [] | Some r1 \<Rightarrow> mkeys (ur_usedBy r1))
           in mdel node tr2))"

definition filterOutOld :: "(string, time) gomap \<Rightarrow> time \<Rightarrow> (string, time) gomap" where
  "filterOutOld m cutoff = mdel_where (\<lambda>_ t. time_before t cutoff) m"

definition clean_record :: "time \<Rightarrow> usageRecord \<Rightarrow> usageRecord" where
  "clean_record cutoff r =
     (let r1 = (if \<not> ur_usingTooMany r then r\<lparr>ur_using := filterOutOld (ur_using r) cutoff\<rparr> else r)
      in if \<not> ur_usedByTooMany r1 then r1\<lparr>ur_usedBy := filterOutOld (ur_usedBy r1) cutoff\<rparr> else r1)"

definition unused_record :: "usageRecord \<Rightarrow> bool" where
  "unused_record r \<longleftrightarrow> \<not> ur_usingTooMany r \<and> \<not> ur_usedByTooMany r \<and> ur_using r = [] \<and> ur_usedBy r = []"

definition CleanUpTracker :: "time \<Rightarrow> usageTracker \<Rightarrow> usageTracker" where
  "CleanUpTracker cutoff tr =
     (let tr1 = map (\<lambda>(k, r). (k, clean_record cutoff r)) tr
      in mdel_where (\<lambda>_ r. unused_record r) tr1)"

text \<open>The loop over \<open>mainRecord.using\<close>; a record that gave up counting ends it with every key.\<close>

fun using_loop :: "usageTracker \<Rightarrow> (string, time) gomap \<Rightarrow> string list \<Rightarrow> string list \<Rightarrow> string list" where
  "using_loop tr utilization [] keysToRemove = keysToRemove"
| "using_loop tr utilization (usedNode # rest) keysToRemove =
     (case mget tr usedNode of
        None \<Rightarrow> using_loop tr utilization rest keysToRemove
      | Some r \<Rightarrow>
          if ur_usedByTooMany r then mkeys utilization
          else using_loop tr utilization rest (keysToRemove @ mkeys (ur_usedBy r)))"

definition RemoveNodeFromTracker ::
  "usageTracker \<Rightarrow> string \<Rightarrow> (string, time) gomap \<Rightarrow> usageTracker \<times> (string, time) gomap" where
  "RemoveNodeFromTracker tr node utilization =
     (let keysToRemove =
            (case mget tr node of
               None \<Rightarrow> []
             | Some mainRecord \<Rightarrow>
                 if ur_usingTooMany mainRecord then mkeys utilization
                 else using_loop tr utilization (mkeys (ur_using mainRecord)) [])
      in (Unregister node tr, foldl (\<lambda>m k. mdel k m) (mdel node utilization) keysToRemove))"

section \<open>The abstract tracker\<close>

type_synonym usages = "string \<Rightarrow> string \<Rightarrow> time option"

definition spec_register :: "string \<Rightarrow> string \<Rightarrow> time \<Rightarrow> usages \<Rightarrow> usages" where
  "spec_register a b t live = (\<lambda>x y. if x = a \<and> y = b then Some t else live x y)"

definition spec_unregister :: "string \<Rightarrow> usages \<Rightarrow> usages" where
  "spec_unregister n live = (\<lambda>x y. if x = n \<or> y = n then None else live x y)"

definition spec_cleanup :: "time \<Rightarrow> usages \<Rightarrow> usages" where
  "spec_cleanup cutoff live =
     (\<lambda>x y. case live x y of None \<Rightarrow> None | Some t \<Rightarrow> if time_before t cutoff then None else Some t)"

inductive tracker_reachable :: "usageTracker \<Rightarrow> usages \<Rightarrow> bool" where
  tr_new: "tracker_reachable NewUsageTracker (\<lambda>_ _. None)"
| tr_register: "tracker_reachable tr live \<Longrightarrow>
     tracker_reachable (RegisterUsage a b t tr) (spec_register a b t live)"
| tr_unregister: "tracker_reachable tr live \<Longrightarrow>
     tracker_reachable (Unregister n tr) (spec_unregister n live)"
| tr_cleanup: "tracker_reachable tr live \<Longrightarrow>
     tracker_reachable (CleanUpTracker cutoff tr) (spec_cleanup cutoff live)"

definition record_ok :: "usageRecord \<Rightarrow> bool" where
  "record_ok r \<longleftrightarrow> gomap_ok (ur_using r) \<and> gomap_ok (ur_usedBy r)"

definition tracker_ok :: "usageTracker \<Rightarrow> bool" where
  "tracker_ok tr \<longleftrightarrow> gomap_ok tr \<and> (\<forall>k r. mget tr k = Some r \<longrightarrow> record_ok r)"

definition covers :: "usageTracker \<Rightarrow> usages \<Rightarrow> bool" where
  "covers tr live \<longleftrightarrow> (\<forall>a b t. live a b = Some t \<longrightarrow>
     (\<exists>r. mget tr a = Some r \<and> (ur_usingTooMany r \<or> mget (ur_using r) b = Some t)) \<and>
     (\<exists>r. mget tr b = Some r \<and> (ur_usedByTooMany r \<or> mget (ur_usedBy r) a = Some t)))"

lemma record_ok_new [simp]: "record_ok new_record"
  by (simp add: record_ok_def new_record_def)

section \<open>Registration\<close>

lemma record_ok_add [simp]:
  "record_ok r \<Longrightarrow> record_ok (add_using b t r)" "record_ok r \<Longrightarrow> record_ok (add_usedBy a t r)"
  by (auto simp: record_ok_def add_using_def add_usedBy_def)

text \<open>The record of a node after a registration, by its role in it.\<close>

definition record_of :: "usageTracker \<Rightarrow> string \<Rightarrow> usageRecord" where
  "record_of tr k = (case mget tr k of None \<Rightarrow> new_record | Some r \<Rightarrow> r)"

lemma add_to_new:
  "add_using b t new_record = new_record\<lparr>ur_using := mput b t []\<rparr>"
  "add_usedBy a t new_record = new_record\<lparr>ur_usedBy := mput a t []\<rparr>"
  by (simp_all add: add_using_def add_usedBy_def new_record_def maxUsageRecorded_def)

lemma RegisterUsage_eq:
  "RegisterUsage a b t tr =
     (let tr1 = mput a (add_using b t (record_of tr a)) tr in mput b (add_usedBy a t (record_of tr1 b)) tr1)"
  by (simp add: RegisterUsage_def record_of_def add_to_new Let_def split: option.splits)

lemma mget_RegisterUsage:
  "mget (RegisterUsage a b t tr) k =
     (if k = b then Some (add_usedBy a t (if b = a then add_using b t (record_of tr a) else record_of tr b))
      else if k = a then Some (add_using b t (record_of tr a)) else mget tr k)"
  by (simp add: RegisterUsage_eq record_of_def Let_def)

lemma tracker_ok_record_of: "tracker_ok tr \<Longrightarrow> record_ok (record_of tr k)"
  by (auto simp: tracker_ok_def record_of_def split: option.splits)

lemma tracker_ok_register:
  assumes "tracker_ok tr"
  shows "tracker_ok (RegisterUsage a b t tr)"
  unfolding tracker_ok_def
proof (intro conjI allI impI)
  show "gomap_ok (RegisterUsage a b t tr)"
    using assms by (simp add: RegisterUsage_eq tracker_ok_def Let_def)
  fix k r
  assume "mget (RegisterUsage a b t tr) k = Some r"
  then show "record_ok r"
    using assms by (auto simp: mget_RegisterUsage tracker_ok_record_of tracker_ok_def split: if_splits)
qed

lemma add_using_covers:
  "ur_usingTooMany (add_using b t r) \<or> mget (ur_using (add_using b t r)) b = Some t"
  "ur_usingTooMany r \<or> mget (ur_using r) x = Some s \<Longrightarrow> x \<noteq> b \<Longrightarrow>
     ur_usingTooMany (add_using b t r) \<or> mget (ur_using (add_using b t r)) x = Some s"
  by (auto simp: add_using_def)

lemma add_usedBy_covers:
  "ur_usedByTooMany (add_usedBy a t r) \<or> mget (ur_usedBy (add_usedBy a t r)) a = Some t"
  "ur_usedByTooMany r \<or> mget (ur_usedBy r) x = Some s \<Longrightarrow> x \<noteq> a \<Longrightarrow>
     ur_usedByTooMany (add_usedBy a t r) \<or> mget (ur_usedBy (add_usedBy a t r)) x = Some s"
  by (auto simp: add_usedBy_def)

lemma add_frame [simp]:
  "ur_usedBy (add_using b t r) = ur_usedBy r" "ur_usedByTooMany (add_using b t r) = ur_usedByTooMany r"
  "ur_using (add_usedBy a t r) = ur_using r" "ur_usingTooMany (add_usedBy a t r) = ur_usingTooMany r"
  by (simp_all add: add_using_def add_usedBy_def)

text \<open>Whether a record covers a usage, with the record of a node not yet tracked empty.\<close>

definition uses :: "usageTracker \<Rightarrow> string \<Rightarrow> string \<Rightarrow> time \<Rightarrow> bool" where
  "uses tr a b t \<longleftrightarrow> ur_usingTooMany (record_of tr a) \<or> mget (ur_using (record_of tr a)) b = Some t"

definition used_by :: "usageTracker \<Rightarrow> string \<Rightarrow> string \<Rightarrow> time \<Rightarrow> bool" where
  "used_by tr b a t \<longleftrightarrow> ur_usedByTooMany (record_of tr b) \<or> mget (ur_usedBy (record_of tr b)) a = Some t"

lemma covers_iff: "covers tr live \<longleftrightarrow> (\<forall>a b t. live a b = Some t \<longrightarrow> uses tr a b t \<and> used_by tr b a t)"
proof -
  have "(\<exists>r. mget tr a = Some r \<and> (ur_usingTooMany r \<or> mget (ur_using r) b = Some t)) \<longleftrightarrow> uses tr a b t"
    and "(\<exists>r. mget tr b = Some r \<and> (ur_usedByTooMany r \<or> mget (ur_usedBy r) a = Some t)) \<longleftrightarrow> used_by tr b a t"
    for a b t
    by (auto simp: uses_def used_by_def record_of_def new_record_def split: option.splits)
  then show ?thesis by (simp add: covers_def)
qed

lemma covers_register:
  assumes "covers tr live"
  shows "covers (RegisterUsage a b t tr) (spec_register a b t live)"
  unfolding covers_iff
proof (intro allI impI)
  fix x y s
  assume l: "spec_register a b t live x y = Some s"
  have rec: "record_of (RegisterUsage a b t tr) k =
      (if k = b then add_usedBy a t (if b = a then add_using b t (record_of tr a) else record_of tr b)
       else if k = a then add_using b t (record_of tr a) else record_of tr k)" for k
    by (simp add: record_of_def [of "RegisterUsage a b t tr"] mget_RegisterUsage record_of_def [of tr k])
  have using_rec: "ur_usingTooMany (record_of (RegisterUsage a b t tr) x) =
        ur_usingTooMany (if x = a then add_using b t (record_of tr a) else record_of tr x)"
      "ur_using (record_of (RegisterUsage a b t tr) x) =
        ur_using (if x = a then add_using b t (record_of tr a) else record_of tr x)"
    by (simp_all add: rec)
  have usedBy_rec: "ur_usedByTooMany (record_of (RegisterUsage a b t tr) y) =
        ur_usedByTooMany (if y = b then add_usedBy a t (record_of tr b) else record_of tr y)"
      "ur_usedBy (record_of (RegisterUsage a b t tr) y) =
        ur_usedBy (if y = b then add_usedBy a t (record_of tr b) else record_of tr y)"
    by (simp_all add: rec add_usedBy_def)
  show "uses (RegisterUsage a b t tr) x y s \<and> used_by (RegisterUsage a b t tr) y x s"
  proof (cases "x = a \<and> y = b")
    case True
    then have eq: "x = a" "y = b" "s = t" using l by (simp_all add: spec_register_def)
    show ?thesis
      unfolding uses_def used_by_def using_rec usedBy_rec
      using add_using_covers(1) [of b t] add_usedBy_covers(1) [of a t] by (simp add: eq)
  next
    case False
    then have old: "uses tr x y s" "used_by tr y x s"
      using l assms by (auto simp: covers_iff spec_register_def)
    have "uses (RegisterUsage a b t tr) x y s"
      unfolding uses_def using_rec
      using False old(1) add_using_covers(2) [of "record_of tr a" y s b t]
      by (cases "x = a") (simp_all add: uses_def)
    moreover have "used_by (RegisterUsage a b t tr) y x s"
      unfolding used_by_def usedBy_rec
      using False old(2) add_usedBy_covers(2) [of "record_of tr b" x s a t]
      by (cases "y = b") (simp_all add: used_by_def)
    ultimately show ?thesis ..
  qed
qed

section \<open>Removal of a node\<close>

lemma mget_drop_usedBy:
  "mget (drop_usedBy n tr k) x =
     (if x = k then map_option (\<lambda>r. r\<lparr>ur_usedBy := mdel n (ur_usedBy r)\<rparr>) (mget tr k) else mget tr x)"
  by (simp add: drop_usedBy_def split: option.splits)

lemma mget_drop_using:
  "mget (drop_using n tr k) x =
     (if x = k then map_option (\<lambda>r. r\<lparr>ur_using := mdel n (ur_using r)\<rparr>) (mget tr k) else mget tr x)"
  by (simp add: drop_using_def split: option.splits)

text \<open>What dropping a node keeps of every record: the flags, the entries of the other nodes.\<close>

definition record_keeps :: "string \<Rightarrow> usageRecord \<Rightarrow> usageRecord \<Rightarrow> bool" where
  "record_keeps n r r' \<longleftrightarrow> ur_usingTooMany r' = ur_usingTooMany r \<and> ur_usedByTooMany r' = ur_usedByTooMany r \<and>
     (\<forall>x. x \<noteq> n \<longrightarrow> mget (ur_using r') x = mget (ur_using r) x \<and>
                 mget (ur_usedBy r') x = mget (ur_usedBy r) x)"

definition keeps_others :: "string \<Rightarrow> usageTracker \<Rightarrow> usageTracker \<Rightarrow> bool" where
  "keeps_others n tr tr' \<longleftrightarrow> (\<forall>k r. mget tr k = Some r \<longrightarrow>
     (\<exists>r'. mget tr' k = Some r' \<and> record_keeps n r r'))"

lemma record_keeps_refl: "record_keeps n r r"
  by (simp add: record_keeps_def)

lemma record_keeps_trans: "record_keeps n r r' \<Longrightarrow> record_keeps n r' r'' \<Longrightarrow> record_keeps n r r''"
  by (simp add: record_keeps_def)

lemma keeps_others_refl: "keeps_others n tr tr"
  by (simp add: keeps_others_def record_keeps_refl)

lemma keeps_others_trans: "keeps_others n tr tr' \<Longrightarrow> keeps_others n tr' tr'' \<Longrightarrow> keeps_others n tr tr''"
  unfolding keeps_others_def by (blast intro: record_keeps_trans)

lemma keeps_others_drop: "keeps_others n tr (drop_usedBy n tr k)" "keeps_others n tr (drop_using n tr k)"
  by (auto simp: keeps_others_def record_keeps_def mget_drop_usedBy mget_drop_using)

lemma keeps_others_foldl:
  assumes "\<And>tr k. keeps_others n tr (f tr k)"
  shows "keeps_others n tr (foldl f tr ks)"
  by (induction ks rule: rev_induct) (auto intro: keeps_others_refl keeps_others_trans [OF _ assms])

lemma tracker_ok_drop:
  "tracker_ok tr \<Longrightarrow> tracker_ok (drop_usedBy n tr k)" "tracker_ok tr \<Longrightarrow> tracker_ok (drop_using n tr k)"
  by (auto simp: tracker_ok_def drop_usedBy_def drop_using_def record_ok_def split: option.splits)

lemma tracker_ok_foldl:
  assumes "\<And>tr k. tracker_ok tr \<Longrightarrow> tracker_ok (f tr k)" "tracker_ok tr"
  shows "tracker_ok (foldl f tr ks)"
  using assms(2) by (induction ks rule: rev_induct) (auto intro: assms(1))

lemma tracker_ok_mdel: "tracker_ok tr \<Longrightarrow> tracker_ok (mdel n tr)"
  by (auto simp: tracker_ok_def split: if_splits)

lemma tracker_ok_unregister: "tracker_ok tr \<Longrightarrow> tracker_ok (Unregister n tr)"
  unfolding Unregister_def Let_def
  by (auto split: option.split intro!: tracker_ok_mdel tracker_ok_foldl tracker_ok_drop)

lemma unregister_keeps:
  assumes "mget tr k = Some r" "k \<noteq> n"
  obtains r' where "mget (Unregister n tr) k = Some r'" "ur_usingTooMany r' = ur_usingTooMany r"
    "ur_usedByTooMany r' = ur_usedByTooMany r"
    "\<And>x. x \<noteq> n \<Longrightarrow> mget (ur_using r') x = mget (ur_using r) x \<and> mget (ur_usedBy r') x = mget (ur_usedBy r) x"
proof (cases "mget tr n")
  case None
  then show thesis using that [of r] assms by (simp add: Unregister_def)
next
  case (Some rn)
  define tr1 where "tr1 = foldl (drop_usedBy n) tr (mkeys (ur_using rn))"
  define tr2 where "tr2 = foldl (drop_using n) tr1
     (case mget tr1 n of None \<Rightarrow> [] | Some r1 \<Rightarrow> mkeys (ur_usedBy r1))"
  have "keeps_others n tr tr2"
    unfolding tr2_def tr1_def
    by (intro keeps_others_trans [OF keeps_others_foldl keeps_others_foldl] keeps_others_drop)
  moreover have "Unregister n tr = mdel n tr2"
    by (simp add: Unregister_def Some tr1_def tr2_def Let_def)
  ultimately obtain r' where "mget (Unregister n tr) k = Some r'" "record_keeps n r r'"
    using assms by (auto simp: keeps_others_def)
  then show thesis by (intro that [of r']) (simp_all add: record_keeps_def)
qed

lemma mget_unregister_self: "mget (Unregister n tr) n = None"
  by (simp add: Unregister_def Let_def split: option.split)

lemma covers_unregister:
  assumes "covers tr live"
  shows "covers (Unregister n tr) (spec_unregister n live)"
  unfolding covers_def
proof (intro allI impI)
  fix a b t
  assume "spec_unregister n live a b = Some t"
  then have ab: "live a b = Some t" "a \<noteq> n" "b \<noteq> n" by (auto simp: spec_unregister_def split: if_splits)
  obtain ra rb where ra: "mget tr a = Some ra" "ur_usingTooMany ra \<or> mget (ur_using ra) b = Some t"
    and rb: "mget tr b = Some rb" "ur_usedByTooMany rb \<or> mget (ur_usedBy rb) a = Some t"
    using assms ab(1) unfolding covers_def by metis
  obtain ra' where "mget (Unregister n tr) a = Some ra'" "ur_usingTooMany ra' = ur_usingTooMany ra"
    "mget (ur_using ra') b = mget (ur_using ra) b"
    using unregister_keeps [OF ra(1) ab(2)] ab(3) by metis
  moreover obtain rb' where "mget (Unregister n tr) b = Some rb'" "ur_usedByTooMany rb' = ur_usedByTooMany rb"
    "mget (ur_usedBy rb') a = mget (ur_usedBy rb) a"
    using unregister_keeps [OF rb(1) ab(3)] ab(2) by metis
  ultimately show "(\<exists>r. mget (Unregister n tr) a = Some r \<and> (ur_usingTooMany r \<or> mget (ur_using r) b = Some t)) \<and>
     (\<exists>r. mget (Unregister n tr) b = Some r \<and> (ur_usedByTooMany r \<or> mget (ur_usedBy r) a = Some t))"
    using ra(2) rb(2) by auto
qed

section \<open>Clean-up\<close>

lemma clean_record_simps [simp]:
  "ur_usingTooMany (clean_record c r) = ur_usingTooMany r"
  "ur_usedByTooMany (clean_record c r) = ur_usedByTooMany r"
  "ur_using (clean_record c r) = (if ur_usingTooMany r then ur_using r else filterOutOld (ur_using r) c)"
  "ur_usedBy (clean_record c r) = (if ur_usedByTooMany r then ur_usedBy r else filterOutOld (ur_usedBy r) c)"
  by (simp_all add: clean_record_def Let_def)

lemma mget_filterOutOld:
  "gomap_ok m \<Longrightarrow> mget m k = Some t \<Longrightarrow> \<not> time_before t c \<Longrightarrow> mget (filterOutOld m c) k = Some t"
  by (simp add: filterOutOld_def mget_mdel_where)

lemma record_ok_clean: "record_ok r \<Longrightarrow> record_ok (clean_record c r)"
  by (simp add: record_ok_def filterOutOld_def)

lemma mget_CleanUpTracker:
  assumes "gomap_ok tr"
  shows "mget (CleanUpTracker c tr) k =
     (case mget tr k of None \<Rightarrow> None
      | Some r \<Rightarrow> if unused_record (clean_record c r) then None else Some (clean_record c r))"
proof -
  have "gomap_ok (map (\<lambda>(k, r). (k, clean_record c r)) tr)"
    using assms by (rule gomap_ok_map_val)
  then show ?thesis
    by (simp add: CleanUpTracker_def Let_def mget_mdel_where mget_map_val split: option.splits)
qed

lemma tracker_ok_cleanup: "tracker_ok tr \<Longrightarrow> tracker_ok (CleanUpTracker c tr)"
  unfolding tracker_ok_def
  by (auto simp: mget_CleanUpTracker record_ok_clean split: option.splits if_splits)
     (auto simp: CleanUpTracker_def Let_def gomap_ok_map_val)

lemma covers_cleanup:
  assumes "covers tr live" "tracker_ok tr"
  shows "covers (CleanUpTracker c tr) (spec_cleanup c live)"
  unfolding covers_def
proof (intro allI impI)
  fix a b t
  assume "spec_cleanup c live a b = Some t"
  then have ab: "live a b = Some t" "\<not> time_before t c"
    by (auto simp: spec_cleanup_def split: option.splits if_splits)
  have ok: "gomap_ok tr" "\<And>k r. mget tr k = Some r \<Longrightarrow> record_ok r" using assms(2) by (auto simp: tracker_ok_def)
  obtain ra rb where ra: "mget tr a = Some ra" "ur_usingTooMany ra \<or> mget (ur_using ra) b = Some t"
    and rb: "mget tr b = Some rb" "ur_usedByTooMany rb \<or> mget (ur_usedBy rb) a = Some t"
    using assms(1) ab(1) unfolding covers_def by metis
  have a: "ur_usingTooMany ra \<or> mget (ur_using (clean_record c ra)) b = Some t"
    using ra ok(2) [OF ra(1)] ab(2) by (auto simp: record_ok_def mget_filterOutOld)
  then have "\<not> unused_record (clean_record c ra)" by (auto simp: unused_record_def)
  moreover have b: "ur_usedByTooMany rb \<or> mget (ur_usedBy (clean_record c rb)) a = Some t"
    using rb ok(2) [OF rb(1)] ab(2) by (auto simp: record_ok_def mget_filterOutOld)
  moreover from b have "\<not> unused_record (clean_record c rb)" by (auto simp: unused_record_def)
  ultimately show "(\<exists>r. mget (CleanUpTracker c tr) a = Some r \<and> (ur_usingTooMany r \<or> mget (ur_using r) b = Some t)) \<and>
     (\<exists>r. mget (CleanUpTracker c tr) b = Some r \<and> (ur_usedByTooMany r \<or> mget (ur_usedBy r) a = Some t))"
    using ra(1) rb(1) a by (simp add: mget_CleanUpTracker [OF ok(1)])
qed

lemma tracker_reachable_inv: "tracker_reachable tr live \<Longrightarrow> tracker_ok tr \<and> covers tr live"
proof (induction rule: tracker_reachable.induct)
  case tr_new
  then show ?case by (simp add: tracker_ok_def covers_def NewUsageTracker_def)
qed (simp_all add: tracker_ok_register covers_register tracker_ok_unregister covers_unregister
      tracker_ok_cleanup covers_cleanup)

section \<open>Properties\<close>

lemma using_loop_cases:
  "using_loop tr u ks keys = mkeys u \<or>
     (set keys \<subseteq> set (using_loop tr u ks keys) \<and>
      (\<forall>k\<in>set ks. \<forall>r. mget tr k = Some r \<longrightarrow>
         \<not> ur_usedByTooMany r \<and> set (mkeys (ur_usedBy r)) \<subseteq> set (using_loop tr u ks keys)))"
proof (induction ks arbitrary: keys)
  case (Cons k ks)
  show ?case
  proof (cases "mget tr k")
    case None
    then show ?thesis using Cons.IH [of keys] by auto
  next
    case (Some r)
    then show ?thesis using Cons.IH [of "keys @ mkeys (ur_usedBy r)"] by auto
  qed
qed simp

lemma mget_None_mkeys: "k \<notin> set (mkeys m) \<longleftrightarrow> mget m k = None"
  by (simp add: mkeys_def mget_None_iff)

text \<open>
  C31: The tracker covers every live usage.  After any sequence of registrations, removals and
  clean-ups, a usage of \<open>b\<close> by \<open>a\<close> that was registered and has neither expired nor lost one of its
  nodes is recorded, with its latest time, on both sides: each record lists it or has its
  \<open>TooMany\<close> flag set, which clean-ups never forget.
\<close>

theorem tracker_covers_live_usages:
  assumes "tracker_reachable tr live" "live a b = Some t"
  shows "(\<exists>r. mget tr a = Some r \<and> (ur_usingTooMany r \<or> mget (ur_using r) b = Some t)) \<and>
     (\<exists>r. mget tr b = Some r \<and> (ur_usedByTooMany r \<or> mget (ur_usedBy r) a = Some t))"
  using tracker_reachable_inv [OF assms(1)] assms(2) unfolding covers_def by blast

definition demo_tracker :: usageTracker where
  "demo_tracker = CleanUpTracker 5 (RegisterUsage ''x'' ''b'' 9 (RegisterUsage ''n'' ''b'' 7 NewUsageTracker))"

definition demo_live :: usages where
  "demo_live = spec_cleanup 5 (spec_register ''x'' ''b'' 9 (spec_register ''n'' ''b'' 7 (\<lambda>_ _. None)))"

lemma demo_tracker_reachable: "tracker_reachable demo_tracker demo_live"
  unfolding demo_tracker_def demo_live_def
  by (rule tr_cleanup tr_register tr_new)+

lemma demo_live_values: "demo_live ''n'' ''b'' = Some 7" "demo_live ''x'' ''b'' = Some 9"
  by (simp_all add: demo_live_def spec_cleanup_def spec_register_def time_before_def)

lemma tracker_covers_live_usages_witness:
  "(\<exists>r. mget demo_tracker ''n'' = Some r \<and> (ur_usingTooMany r \<or> mget (ur_using r) ''b'' = Some 7)) \<and>
     (\<exists>r. mget demo_tracker ''b'' = Some r \<and> (ur_usedByTooMany r \<or> mget (ur_usedBy r) ''n'' = Some 7))"
  by (rule tracker_covers_live_usages [OF demo_tracker_reachable demo_live_values(1)])

text \<open>
  Removing a node invalidates what depended on it.  When a node is removed, it and every node
  with a live usage of the same target leave the map of unneeded nodes, however many usages were
  registered and whichever records overflowed.
\<close>

theorem removed_node_invalidates_sharers:
  assumes "tracker_reachable tr live" "live n b = Some t" "live x b = Some u"
  shows "mget (snd (RemoveNodeFromTracker tr n utilization)) n = None \<and>
     mget (snd (RemoveNodeFromTracker tr n utilization)) x = None"
proof -
  have cov: "covers tr live" using tracker_reachable_inv [OF assms(1)] ..
  obtain rn where rn: "mget tr n = Some rn" "ur_usingTooMany rn \<or> mget (ur_using rn) b = Some t"
    using cov assms(2) unfolding covers_def by metis
  obtain rb where rb: "mget tr b = Some rb" "ur_usedByTooMany rb \<or> mget (ur_usedBy rb) x = Some u"
    using cov assms(3) unfolding covers_def by metis
  define keys where "keys = (if ur_usingTooMany rn then mkeys utilization
     else using_loop tr utilization (mkeys (ur_using rn)) [])"
  have res: "mget (snd (RemoveNodeFromTracker tr n utilization)) k =
      (if k \<in> set keys \<or> k = n then None else mget utilization k)" for k
    by (simp add: RemoveNodeFromTracker_def rn(1) keys_def Let_def am.lookup_remove_loop)
  have "x \<in> set keys \<or> mget utilization x = None"
  proof (cases "keys = mkeys utilization")
    case True
    then show ?thesis using mget_None_mkeys [of x utilization] by auto
  next
    case False
    then have "\<not> ur_usingTooMany rn" "keys = using_loop tr utilization (mkeys (ur_using rn)) []"
      by (auto simp: keys_def split: if_splits)
    moreover from this rn(2) have "b \<in> set (mkeys (ur_using rn))"
      using mget_None_mkeys [of b "ur_using rn"] by auto
    ultimately have "\<not> ur_usedByTooMany rb" "set (mkeys (ur_usedBy rb)) \<subseteq> set keys"
      using using_loop_cases [of tr utilization "mkeys (ur_using rn)" "[]"] False rb(1) by auto
    then show ?thesis using rb(2) mget_None_mkeys [of x "ur_usedBy rb"] by auto
  qed
  then show ?thesis by (auto simp: res)
qed

lemma removed_node_invalidates_sharers_witness:
  "mget (snd (RemoveNodeFromTracker demo_tracker ''n'' [(''n'', 1), (''x'', 2), (''y'', 3)])) ''n'' = None \<and>
     mget (snd (RemoveNodeFromTracker demo_tracker ''n'' [(''n'', 1), (''x'', 2), (''y'', 3)])) ''x'' = None"
  by (rule removed_node_invalidates_sharers [OF demo_tracker_reachable demo_live_values])

end
