(* ===== verification/Simulator.thy ===== *)
theory Simulator
  imports Drain Tracker Float64
begin

text \<open>
  \<open>simulator/cluster.go\<close>, \<open>utils/tpu/tpu.go\<close> and \<open>utils/scheduler/scheduler.go\<close>: node infos, the
  utilization of a node, the search for a new place for every pod of a node, and the nodes that
  can be removed.

  The scheduler's predicates are code outside the autoscaler: \<open>check pod meta info\<close> says whether
  they pass, \<open>get_meta pod infos\<close> is the metadata they are given.  The numbers \<open>rand.Intn\<close> returns
  are the parameter \<open>rands\<close>.  \<open>findPlaceFor\<close> changes the hints and the tracker it is given also
  when it fails, so it returns both beside its error.
\<close>

section \<open>Node infos\<close>

record nodeInfo =
  ni_Node :: "node option"
  ni_Pods :: "pod list"

definition NewNodeInfo :: "pod list \<Rightarrow> nodeInfo" where
  "NewNodeInfo pods = \<lparr>ni_Node = None, ni_Pods = pods\<rparr>"

definition NominatedNodeAnnotationKey :: string where
  "NominatedNodeAnnotationKey = ''NominatedNodeName''"

definition assigned_node :: "pod \<Rightarrow> string" where
  "assigned_node p =
     (if pod_NodeName p = '''' then mget0 '''' (pod_Annotations p) NominatedNodeAnnotationKey
      else pod_NodeName p)"

definition add_pod_info :: "(string, nodeInfo) gomap \<Rightarrow> pod \<Rightarrow> (string, nodeInfo) gomap" where
  "add_pod_info m p =
     (let k = assigned_node p; info = mget0 (NewNodeInfo []) m k
      in mput k (info\<lparr>ni_Pods := ni_Pods info @ [p]\<rparr>) m)"

definition set_node_info :: "(string, nodeInfo) gomap \<Rightarrow> node \<Rightarrow> (string, nodeInfo) gomap" where
  "set_node_info m n =
     (let info = mget0 (NewNodeInfo []) m (n_Name n) in mput (n_Name n) (info\<lparr>ni_Node := Some n\<rparr>) m)"

definition CreateNodeNameToInfoMap :: "pod list \<Rightarrow> node list \<Rightarrow> (string, nodeInfo) gomap" where
  "CreateNodeNameToInfoMap pods nodes =
     mdel_where (\<lambda>_ info. ni_Node info = None) (foldl set_node_info (foldl add_pod_info [] pods) nodes)"

section \<open>TPU requests\<close>

definition ResourceTPUPrefix :: string where
  "ResourceTPUPrefix = ''cloud-tpus.google.com/''"

definition has_prefix :: "string \<Rightarrow> string \<Rightarrow> bool" where
  "has_prefix s prefix \<longleftrightarrow> take (length prefix) s = prefix"

definition hasTPURequest :: "pod \<Rightarrow> bool" where
  "hasTPURequest p \<longleftrightarrow>
     list_ex (\<lambda>c. list_ex (\<lambda>name. has_prefix name ResourceTPUPrefix) (mkeys (ct_Requests c))) (pod_Containers p)"

definition clearTPURequest :: "pod \<Rightarrow> pod" where
  "clearTPURequest p = p\<lparr>pod_Containers := map (\<lambda>c. c\<lparr>ct_Requests :=
     mdel_where (\<lambda>name _. has_prefix name ResourceTPUPrefix) (ct_Requests c)\<rparr>) (pod_Containers p)\<rparr>"

definition ClearTPURequests :: "pod list \<Rightarrow> pod list" where
  "ClearTPURequests pods =
     (if \<not> list_ex hasTPURequest pods then pods
      else map (\<lambda>p. if hasTPURequest p then clearTPURequest p else p) pods)"

section \<open>Utilization\<close>

record utilizationInfo =
  ui_CpuUtil :: f64
  ui_MemUtil :: f64
  ui_Utilization :: f64

datatype utilError = NoAllocatable string string | ZeroAllocatable string string

definition isDaemonSet :: "pod \<Rightarrow> bool" where
  "isDaemonSet p \<longleftrightarrow> list_ex (\<lambda>r. or_Kind r = ''DaemonSet'') (pod_OwnerReferences p)"

definition counted_pod :: "bool \<Rightarrow> bool \<Rightarrow> pod \<Rightarrow> bool" where
  "counted_pod skipDaemonSetPods skipMirrorPods p \<longleftrightarrow>
     \<not> (skipDaemonSetPods \<and> isDaemonSet p) \<and> \<not> (skipMirrorPods \<and> IsMirrorPod p)"

definition pod_request :: "string \<Rightarrow> quantity \<Rightarrow> pod \<Rightarrow> quantity" where
  "pod_request resourceName acc p =
     foldl (\<lambda>q c. case mget (ct_Requests c) resourceName of Some v \<Rightarrow> q + v | None \<Rightarrow> q) acc (pod_Containers p)"

definition calculateUtilizationOfResource ::
  "node \<Rightarrow> nodeInfo \<Rightarrow> string \<Rightarrow> bool \<Rightarrow> bool \<Rightarrow> utilError + f64" where
  "calculateUtilizationOfResource n info resourceName skipDaemonSetPods skipMirrorPods =
     (case mget (n_Allocatable n) resourceName of
        None \<Rightarrow> Inl (NoAllocatable resourceName (n_Name n))
      | Some nodeAllocatable \<Rightarrow>
          if MilliValue nodeAllocatable = 0 then Inl (ZeroAllocatable resourceName (n_Name n))
          else
            (let podsRequest = foldl (pod_request resourceName) 0
                   (filter (counted_pod skipDaemonSetPods skipMirrorPods) (ni_Pods info))
             in Inr (fdiv (f_of_int (MilliValue podsRequest)) (f_of_int (MilliValue nodeAllocatable)))))"

definition CalculateUtilization ::
  "node \<Rightarrow> nodeInfo \<Rightarrow> bool \<Rightarrow> bool \<Rightarrow> utilError + utilizationInfo" where
  "CalculateUtilization n info skipDaemonSetPods skipMirrorPods =
     (case calculateUtilizationOfResource n info ''cpu'' skipDaemonSetPods skipMirrorPods of
        Inl err \<Rightarrow> Inl err
      | Inr cpu \<Rightarrow>
          (case calculateUtilizationOfResource n info ''memory'' skipDaemonSetPods skipMirrorPods of
             Inl err \<Rightarrow> Inl err
           | Inr mem \<Rightarrow>
               Inr \<lparr>ui_CpuUtil = cpu, ui_MemUtil = mem, ui_Utilization = fmax cpu mem\<rparr>))"

section \<open>A place for every pod\<close>

type_synonym infos = "(string, nodeInfo) gomap"
type_synonym 'm predicates = "pod \<Rightarrow> 'm \<Rightarrow> nodeInfo \<Rightarrow> bool"
type_synonym 'm metadata = "pod \<Rightarrow> infos \<Rightarrow> 'm"

definition podKey :: "pod \<Rightarrow> string" where
  "podKey p = pod_Namespace p @ ''/'' @ pod_Name p"

definition add_to_info :: "pod \<Rightarrow> nodeInfo \<Rightarrow> nodeInfo" where
  "add_to_info p info = (NewNodeInfo (ni_Pods info @ [p]))\<lparr>ni_Node := ni_Node info\<rparr>"

text \<open>\<open>None\<close> if the node does not take the pod, otherwise the node infos with the pod on it.\<close>

definition tryNodeForPod :: "'m predicates \<Rightarrow> infos \<Rightarrow> string \<Rightarrow> pod \<Rightarrow> 'm \<Rightarrow> infos option" where
  "tryNodeForPod check infs nodename p meta =
     (case mget infs nodename of
        None \<Rightarrow> None
      | Some info \<Rightarrow>
          if ni_Node info = None then None
          else if check p meta info then Some (mput nodename (add_to_info p info) infs)
          else None)"

fun tryNodes ::
  "'m predicates \<Rightarrow> string \<Rightarrow> infos \<Rightarrow> pod \<Rightarrow> 'm \<Rightarrow> node list \<Rightarrow> (string \<times> infos) option" where
  "tryNodes check removedNode infs p meta [] = None"
| "tryNodes check removedNode infs p meta (n # ns) =
     (if n_Name n = removedNode then tryNodes check removedNode infs p meta ns
      else
        (case tryNodeForPod check infs (n_Name n) p meta of
           Some infs' \<Rightarrow> Some (n_Name n, infs')
         | None \<Rightarrow> tryNodes check removedNode infs p meta ns))"

definition tryHint ::
  "'m predicates \<Rightarrow> string \<Rightarrow> infos \<Rightarrow> pod \<Rightarrow> 'm \<Rightarrow> (string, string) gomap \<Rightarrow> (string \<times> infos) option" where
  "tryHint check removedNode infs p meta oldHints =
     (case mget oldHints (podKey p) of
        None \<Rightarrow> None
      | Some hinted \<Rightarrow>
          if hinted = removedNode then None
          else map_option (\<lambda>infs'. (hinted, infs')) (tryNodeForPod check infs hinted p meta))"

definition find_target ::
  "'m predicates \<Rightarrow> 'm metadata \<Rightarrow> string \<Rightarrow> (string, string) gomap \<Rightarrow> node list \<Rightarrow> infos \<Rightarrow> pod \<Rightarrow>
     (string \<times> infos) option" where
  "find_target check get_meta removedNode oldHints nodes infs p =
     (case tryHint check removedNode infs p (get_meta p infs) oldHints of
        Some r \<Rightarrow> Some r
      | None \<Rightarrow> tryNodes check removedNode infs p (get_meta p infs) nodes)"

definition shuffleNodes :: "(nat \<Rightarrow> nat) \<Rightarrow> node list \<Rightarrow> node list" where
  "shuffleNodes rands nodes = foldl (\<lambda>r i. swap r i (rands i)) nodes [0..<length nodes]"

fun place_pods ::
  "'m predicates \<Rightarrow> 'm metadata \<Rightarrow> string \<Rightarrow> (string, string) gomap \<Rightarrow> node list \<Rightarrow> time \<Rightarrow> infos \<Rightarrow>
     (string, string) gomap \<Rightarrow> usageTracker \<Rightarrow> pod list \<Rightarrow> string option \<times> (string, string) gomap \<times> usageTracker" where
  "place_pods check get_meta removedNode oldHints nodes t infs newHints tr [] = (None, newHints, tr)"
| "place_pods check get_meta removedNode oldHints nodes t infs newHints tr (podptr # ps) =
     (let p = podptr\<lparr>pod_NodeName := ''''\<rparr>
      in case find_target check get_meta removedNode oldHints nodes infs p of
           None \<Rightarrow> (Some (''failed to find place for '' @ podKey p), newHints, tr)
         | Some (target, infs') \<Rightarrow>
             place_pods check get_meta removedNode oldHints nodes t infs' (mput (podKey p) target newHints)
               (RegisterUsage removedNode target t tr) ps)"

definition findPlaceFor ::
  "'m predicates \<Rightarrow> 'm metadata \<Rightarrow> (nat \<Rightarrow> nat) \<Rightarrow> string \<Rightarrow> pod list \<Rightarrow> node list \<Rightarrow> infos \<Rightarrow>
     (string, string) gomap \<Rightarrow> (string, string) gomap \<Rightarrow> usageTracker \<Rightarrow> time \<Rightarrow>
     string option \<times> (string, string) gomap \<times> usageTracker" where
  "findPlaceFor check get_meta rands removedNode pods nodes nodeInfos oldHints newHints tr t =
     place_pods check get_meta removedNode oldHints (shuffleNodes rands nodes) t nodeInfos newHints tr
       (ClearTPURequests pods)"

section \<open>Nodes to remove\<close>

record nodeToBeRemoved =
  nr_Node :: node
  nr_PodsToReschedule :: "pod list"

text \<open>What the loop builds up; the hints and the tracker are changed in place by \<open>findPlaceFor\<close>.\<close>

record removalState =
  rs_Result :: "nodeToBeRemoved list"
  rs_Unremovable :: "node list"
  rs_Hints :: "(string, string) gomap"
  rs_Tracker :: usageTracker

text \<open>
  One candidate, and whether it ends the loop.  \<open>get_pods\<close> is the fast or the detailed check on a
  node info, \<open>rands\<close> the random numbers of this candidate.
\<close>

definition candidate_step ::
  "(nodeInfo \<Rightarrow> drainError + pod list) \<Rightarrow> 'm predicates \<Rightarrow> 'm metadata \<Rightarrow> node list \<Rightarrow> infos \<Rightarrow> int \<Rightarrow>
     (string, string) gomap \<Rightarrow> time \<Rightarrow> (nat \<Rightarrow> nat) \<Rightarrow> removalState \<Rightarrow> node \<Rightarrow> removalState \<times> bool" where
  "candidate_step get_pods check get_meta allNodes infs maxCount oldHints t rands st n =
     (case mget infs (n_Name n) of
        None \<Rightarrow> (st\<lparr>rs_Unremovable := rs_Unremovable st @ [n]\<rparr>, False)
      | Some info \<Rightarrow>
          (case get_pods info of
             Inl _ \<Rightarrow> (st\<lparr>rs_Unremovable := rs_Unremovable st @ [n]\<rparr>, False)
           | Inr podsToRemove \<Rightarrow>
               (case findPlaceFor check get_meta rands (n_Name n) podsToRemove allNodes infs oldHints
                       (rs_Hints st) (rs_Tracker st) t of
                  (problem, newHints, tr) \<Rightarrow>
                    (let st' = st\<lparr>rs_Hints := newHints, rs_Tracker := tr\<rparr>
                     in if problem = None then
                          (let result = rs_Result st @ [\<lparr>nr_Node = n, nr_PodsToReschedule = podsToRemove\<rparr>]
                           in (st'\<lparr>rs_Result := result\<rparr>, maxCount \<le> int (length result)))
                        else (st'\<lparr>rs_Unremovable := rs_Unremovable st @ [n]\<rparr>, False)))))"

fun candidate_loop ::
  "(nat \<Rightarrow> removalState \<Rightarrow> node \<Rightarrow> removalState \<times> bool) \<Rightarrow> nat \<Rightarrow> removalState \<Rightarrow> node list \<Rightarrow> removalState" where
  "candidate_loop step k st [] = st"
| "candidate_loop step k st (n # ns) =
     (case step k st n of (st', stop) \<Rightarrow> if stop then st' else candidate_loop step (k + 1) st' ns)"

definition to_int32 :: "int \<Rightarrow> int" where
  "to_int32 x = signed_take_bit 31 x"

definition get_pods_to_move ::
  "'sel as_selector \<Rightarrow> time \<Rightarrow> bool \<Rightarrow> bool \<Rightarrow> bool \<Rightarrow> client \<Rightarrow> int \<Rightarrow> 'sel podDisruptionBudget list \<Rightarrow>
     nodeInfo \<Rightarrow> drainError + pod list" where
  "get_pods_to_move as_sel now fastCheck skipSystem skipLocal cl minReplicaCount pdbs info =
     (if fastCheck then FastGetPodsToMove as_sel now (ni_Pods info) skipSystem skipLocal pdbs
      else DetailedGetPodsForMove as_sel now (ni_Pods info) skipSystem skipLocal cl
             (to_int32 minReplicaCount) pdbs)"

definition FindNodesToRemove ::
  "(nodeInfo \<Rightarrow> drainError + pod list) \<Rightarrow> 'm predicates \<Rightarrow> 'm metadata \<Rightarrow> (nat \<Rightarrow> nat \<Rightarrow> nat) \<Rightarrow>
     node list \<Rightarrow> node list \<Rightarrow> pod list \<Rightarrow> int \<Rightarrow> (string, string) gomap \<Rightarrow> usageTracker \<Rightarrow> time \<Rightarrow>
     removalState" where
  "FindNodesToRemove get_pods check get_meta rands candidates allNodes pods maxCount oldHints tr t =
     (let infs = CreateNodeNameToInfoMap pods allNodes;
          step = (\<lambda>k. candidate_step get_pods check get_meta allNodes infs maxCount oldHints t (rands k))
      in candidate_loop step 0
           \<lparr>rs_Result = [], rs_Unremovable = [], rs_Hints = [], rs_Tracker = tr\<rparr> candidates)"

definition empty_candidate :: "'sel as_selector \<Rightarrow> time \<Rightarrow> infos \<Rightarrow> node \<Rightarrow> bool" where
  "empty_candidate as_sel now infs n \<longleftrightarrow>
     (case mget infs (n_Name n) of
        None \<Rightarrow> True
      | Some info \<Rightarrow> FastGetPodsToMove as_sel now (ni_Pods info) True True [] = Inr [])"

definition FindEmptyNodesToRemove :: "'sel as_selector \<Rightarrow> time \<Rightarrow> node list \<Rightarrow> pod list \<Rightarrow> node list" where
  "FindEmptyNodesToRemove as_sel now candidates pods =
     (let infs = CreateNodeNameToInfoMap pods candidates
      in filter (empty_candidate as_sel now infs) candidates)"

end
