(* ===== verification/NodeGroupSet.thy ===== *)
theory NodeGroupSet
  imports Balancing Simulator
begin

text \<open>
  \<open>processors/nodegroupset/compare_nodegroups.go\<close> and the processors that use it: which node groups
  are similar enough to share a scale-up.  Resource amounts are compared in \<open>float64\<close>.
  \<open>requested\<close> is \<open>NodeInfo.RequestedResource().ResourceList()\<close> of the scheduler; a node info
  without a node is a nil dereference, \<open>None\<close>.
\<close>

section \<open>Comparing two node infos\<close>

definition MaxAllocatableDifferenceRatio :: f64 where
  "MaxAllocatableDifferenceRatio = mkf (1 / 20)"

definition MaxFreeDifferenceRatio :: f64 where
  "MaxFreeDifferenceRatio = mkf (1 / 20)"

definition mappend :: "('k, 'v list) gomap \<Rightarrow> 'k \<times> 'v \<Rightarrow> ('k, 'v list) gomap" where
  "mappend m kv = mput (fst kv) (mget0 [] m (fst kv) @ [snd kv]) m"

definition within_tolerance :: "f64 \<Rightarrow> quantity \<Rightarrow> quantity \<Rightarrow> bool" where
  "within_tolerance ratio p q \<longleftrightarrow>
     (let larger = fmax (f_of_int (MilliValue p)) (f_of_int (MilliValue q));
          smaller = fmin (f_of_int (MilliValue p)) (f_of_int (MilliValue q))
      in \<not> flt (fmul larger ratio) (fsub larger smaller))"

definition compareResourceMapsWithTolerance :: "(string, quantity list) gomap \<Rightarrow> f64 \<Rightarrow> bool" where
  "compareResourceMapsWithTolerance resources maxDifferenceRatio \<longleftrightarrow>
     list_all (\<lambda>(res, qtyList). length qtyList = 2 \<and>
       within_tolerance maxDifferenceRatio (qtyList ! 0) (qtyList ! 1)) resources"

definition free_resources :: "(nodeInfo \<Rightarrow> (string, quantity) gomap) \<Rightarrow> node \<Rightarrow> nodeInfo \<Rightarrow> (string, quantity) gomap" where
  "free_resources requested n info =
     map (\<lambda>(res, q). (res, mget0 0 (n_Allocatable n) res - q)) (requested info)"

definition ignoredLabels :: "(string, bool) gomap" where
  "ignoredLabels = [(''kubernetes.io/hostname'', True), (''failure-domain.beta.kubernetes.io/zone'', True),
     (''failure-domain.beta.kubernetes.io/region'', True), (''beta.kubernetes.io/fluentd-ds-ready'', True)]"

definition compared_labels :: "node \<Rightarrow> (string, string) gomap" where
  "compared_labels n = filter (\<lambda>(label, _). \<not> mget0 False ignoredLabels label) (n_Labels n)"

text \<open>The values of each key over two maps, first map first.\<close>

definition collect_two :: "('k, 'v) gomap \<Rightarrow> ('k, 'v) gomap \<Rightarrow> ('k, 'v list) gomap" where
  "collect_two m1 m2 = foldl mappend (foldl mappend [] m1) m2"

definition equal_pair :: "'k \<times> 'v list \<Rightarrow> bool" where
  "equal_pair kl \<longleftrightarrow> length (snd kl) = 2 \<and> snd kl ! 0 = snd kl ! 1"

definition similar_nodes :: "(nodeInfo \<Rightarrow> (string, quantity) gomap) \<Rightarrow> node \<Rightarrow> nodeInfo \<Rightarrow> node \<Rightarrow> nodeInfo \<Rightarrow> bool" where
  "similar_nodes requested n1 i1 n2 i2 \<longleftrightarrow>
     (let capacity = collect_two (n_Capacity n1) (n_Capacity n2);
          allocatable = collect_two (n_Allocatable n1) (n_Allocatable n2);
          free = collect_two (free_resources requested n1 i1) (free_resources requested n2 i2);
          labels = collect_two (compared_labels n1) (compared_labels n2)
      in if \<not> list_all equal_pair capacity then False
         else if \<not> compareResourceMapsWithTolerance allocatable MaxAllocatableDifferenceRatio then False
         else if \<not> compareResourceMapsWithTolerance free MaxFreeDifferenceRatio then False
         else list_all equal_pair labels)"

definition IsNodeInfoSimilar ::
  "(nodeInfo \<Rightarrow> (string, quantity) gomap) \<Rightarrow> nodeInfo \<Rightarrow> nodeInfo \<Rightarrow> bool option" where
  "IsNodeInfoSimilar requested i1 i2 =
     (case ni_Node i1 of
        None \<Rightarrow> None
      | Some n1 \<Rightarrow>
          (case ni_Node i2 of
             None \<Rightarrow> None
           | Some n2 \<Rightarrow> Some (similar_nodes requested n1 i1 n2 i2)))"

section \<open>Similar node groups\<close>

fun similar_loop ::
  "(nodeInfo \<Rightarrow> nodeInfo \<Rightarrow> bool option) \<Rightarrow> string \<Rightarrow> nodeInfo \<Rightarrow> (string, nodeInfo) gomap \<Rightarrow> nodeGroup list \<Rightarrow>
     nodeGroup list option" where
  "similar_loop comparator groupId info infs [] = Some []"
| "similar_loop comparator groupId info infs (ng # ngs) =
     (if ng_Id ng = groupId then similar_loop comparator groupId info infs ngs
      else
        (case mget infs (ng_Id ng) of
           None \<Rightarrow> similar_loop comparator groupId info infs ngs
         | Some ngInfo \<Rightarrow>
             (case comparator info ngInfo of
                None \<Rightarrow> None
              | Some similar \<Rightarrow>
                  map_option (\<lambda>result. if similar then ng # result else result)
                    (similar_loop comparator groupId info infs ngs))))"

definition FindSimilarNodeGroups ::
  "(nodeInfo \<Rightarrow> (string, quantity) gomap) \<Rightarrow> (nodeInfo \<Rightarrow> nodeInfo \<Rightarrow> bool option) option \<Rightarrow> cloudProvider \<Rightarrow>
     nodeGroup \<Rightarrow> (string, nodeInfo) gomap \<Rightarrow> (autoscalerError + nodeGroup list) option" where
  "FindSimilarNodeGroups requested comparator cp nodeGroup infs =
     (case mget infs (ng_Id nodeGroup) of
        None \<Rightarrow> Some (Inl (NewAutoscalerError InternalError
                  (''failed to find template node for node group '' @ ng_Id nodeGroup)))
      | Some info \<Rightarrow>
          map_option Inr
            (similar_loop (case comparator of None \<Rightarrow> IsNodeInfoSimilar requested | Some c \<Rightarrow> c)
               (ng_Id nodeGroup) info infs (cp_NodeGroups cp)))"

text \<open>The processor that does nothing.\<close>

definition NoOp_FindSimilarNodeGroups :: "nodeGroup \<Rightarrow> autoscalerError + nodeGroup list" where
  "NoOp_FindSimilarNodeGroups nodeGroup = Inr []"

definition NoOp_BalanceScaleUpBetweenGroups :: "nodeGroup list \<Rightarrow> int \<Rightarrow> autoscalerError + scaleUpInfo list" where
  "NoOp_BalanceScaleUpBetweenGroups groups newNodes = Inr []"

section \<open>Two maps side by side\<close>

lemma mget_mappend: "mget (mappend m (k, v)) k' = (if k' = k then Some (mget0 [] m k @ [v]) else mget m k')"
  by (simp add: mappend_def)

lemma gomap_ok_collect: "gomap_ok (collect_two m1 m2)"
proof -
  have "gomap_ok (foldl mappend m xs)" if "gomap_ok m" for m and xs :: "('a \<times> 'b) list"
    using that by (induction xs arbitrary: m) (auto simp: mappend_def)
  then show ?thesis by (simp add: collect_two_def)
qed

lemma mget_foldl_mappend:
  assumes "gomap_ok xs"
  shows "mget (foldl mappend m xs) k =
     (case mget xs k of None \<Rightarrow> mget m k | Some v \<Rightarrow> Some (mget0 [] m k @ [v]))"
  using assms
proof (induction xs arbitrary: m)
  case (Cons kv xs)
  obtain k' v where kv: "kv = (k', v)" by (cases kv)
  have "gomap_ok xs" "mget xs k' = None" using Cons.prems by (auto simp: kv gomap_ok_Cons)
  then show ?case
    using Cons.IH [of "mappend m kv"] by (auto simp: kv mget_mappend mget0_def split: option.splits)
qed simp

definition both_or_neither :: "('v \<Rightarrow> 'v \<Rightarrow> bool) \<Rightarrow> 'v option \<Rightarrow> 'v option \<Rightarrow> bool" where
  "both_or_neither P a b \<longleftrightarrow>
     (case (a, b) of (None, None) \<Rightarrow> True | (Some x, Some y) \<Rightarrow> P x y | _ \<Rightarrow> False)"

lemma both_or_neither_eq [simp]: "both_or_neither (=) a b \<longleftrightarrow> a = b"
  by (auto simp: both_or_neither_def split: option.splits)

lemma both_or_neither_sym: "(\<And>x y. P x y = P y x) \<Longrightarrow> both_or_neither P a b = both_or_neither P b a"
  by (auto simp: both_or_neither_def split: option.splits)

lemma list_all_collect:
  assumes "gomap_ok m1" "gomap_ok m2"
  shows "list_all (\<lambda>(k, l). length l = 2 \<and> P (l ! 0) (l ! 1)) (collect_two m1 m2) \<longleftrightarrow>
     (\<forall>k. both_or_neither P (mget m1 k) (mget m2 k))"
proof -
  have get: "mget (collect_two m1 m2) k =
      (case (mget m1 k, mget m2 k) of (None, None) \<Rightarrow> None | (Some x, None) \<Rightarrow> Some [x]
        | (None, Some y) \<Rightarrow> Some [y] | (Some x, Some y) \<Rightarrow> Some [x, y])" for k
    using assms by (simp add: collect_two_def mget_foldl_mappend mget0_def split: option.splits)
  have "list_all (\<lambda>(k, l). length l = 2 \<and> P (l ! 0) (l ! 1)) (collect_two m1 m2) \<longleftrightarrow>
      (\<forall>k l. mget (collect_two m1 m2) k = Some l \<longrightarrow> length l = 2 \<and> P (l ! 0) (l ! 1))"
    by (auto simp: list_all_iff mget_eq_Some_iff [OF gomap_ok_collect])
  also have "\<dots> \<longleftrightarrow> (\<forall>k. both_or_neither P (mget m1 k) (mget m2 k))"
    unfolding get both_or_neither_def by (intro iff_allI) (auto split: option.splits)
  finally show ?thesis .
qed

section \<open>Properties\<close>

definition info_ok :: "(nodeInfo \<Rightarrow> (string, quantity) gomap) \<Rightarrow> nodeInfo \<Rightarrow> bool" where
  "info_ok requested i \<longleftrightarrow> gomap_ok (requested i) \<and>
     (\<forall>n. ni_Node i = Some n \<longrightarrow> gomap_ok (n_Capacity n) \<and> gomap_ok (n_Allocatable n) \<and> gomap_ok (n_Labels n))"

lemma gomap_ok_free: "gomap_ok (requested i) \<Longrightarrow> gomap_ok (free_resources requested n i)"
  by (simp add: free_resources_def gomap_ok_map_val)

lemma mget_free: "mget (free_resources requested n i) res =
    map_option (\<lambda>q. mget0 0 (n_Allocatable n) res - q) (mget (requested i) res)"
  by (simp add: free_resources_def mget_map_val)

lemma mget_compared_labels:
  "gomap_ok (n_Labels n) \<Longrightarrow>
     mget (compared_labels n) l = (if l \<in> set (mkeys ignoredLabels) then None else mget (n_Labels n) l)"
  by (auto simp: compared_labels_def mget_filter ignoredLabels_def mget0_def mkeys_def split: option.splits)

lemma similar_nodes_iff:
  assumes "info_ok requested i1" "info_ok requested i2" "ni_Node i1 = Some n1" "ni_Node i2 = Some n2"
  shows "similar_nodes requested n1 i1 n2 i2 \<longleftrightarrow>
     (\<forall>res. mget (n_Capacity n1) res = mget (n_Capacity n2) res) \<and>
     (\<forall>res. both_or_neither (within_tolerance (mkf (1 / 20)))
        (mget (n_Allocatable n1) res) (mget (n_Allocatable n2) res)) \<and>
     (\<forall>res. both_or_neither (within_tolerance (mkf (1 / 20)))
        (mget (free_resources requested n1 i1) res) (mget (free_resources requested n2 i2) res)) \<and>
     (\<forall>l. l \<notin> set (mkeys ignoredLabels) \<longrightarrow> mget (n_Labels n1) l = mget (n_Labels n2) l)"
proof -
  have ok: "gomap_ok (n_Capacity n1)" "gomap_ok (n_Capacity n2)" "gomap_ok (n_Allocatable n1)"
    "gomap_ok (n_Allocatable n2)" "gomap_ok (free_resources requested n1 i1)"
    "gomap_ok (free_resources requested n2 i2)" "gomap_ok (compared_labels n1)" "gomap_ok (compared_labels n2)"
    using assms by (auto simp: info_ok_def gomap_ok_free compared_labels_def gomap_ok_filter)
  have eq: "equal_pair = (\<lambda>(k, l). length l = 2 \<and> l ! 0 = l ! 1)"
    by (auto simp: equal_pair_def)
  have labels: "(\<forall>l. both_or_neither (=) (mget (compared_labels n1) l) (mget (compared_labels n2) l)) \<longleftrightarrow>
      (\<forall>l. l \<notin> set (mkeys ignoredLabels) \<longrightarrow> mget (n_Labels n1) l = mget (n_Labels n2) l)"
    using assms by (auto simp: info_ok_def mget_compared_labels)
  show ?thesis
    unfolding similar_nodes_def Let_def compareResourceMapsWithTolerance_def eq
      MaxAllocatableDifferenceRatio_def MaxFreeDifferenceRatio_def
    using list_all_collect [OF ok(1,2), of "(=)"] list_all_collect [OF ok(3,4)]
      list_all_collect [OF ok(5,6)] list_all_collect [OF ok(7,8), of "(=)"] labels
    by simp
qed

text \<open>
  The contract of a comparator, the function type \<open>NodeInfoComparator\<close>: on well-formed node infos
  its answer does not depend on the order of its arguments.
\<close>

locale node_comparator =
  fixes cmp :: "nodeInfo \<Rightarrow> nodeInfo \<Rightarrow> bool option"
    and ok :: "nodeInfo \<Rightarrow> bool"
  assumes cmp_sym: "ok i1 \<Longrightarrow> ok i2 \<Longrightarrow> cmp i1 i2 = cmp i2 i1"
    and cmp_defined: "ok i1 \<Longrightarrow> ok i2 \<Longrightarrow> cmp i1 i2 \<noteq> None"
begin

definition good_infos :: "(string, nodeInfo) gomap \<Rightarrow> bool" where
  "good_infos infs \<longleftrightarrow> (\<forall>k i. mget infs k = Some i \<longrightarrow> ok i)"

lemma similar_loop_eq:
  assumes "good_infos infs" "ok info"
  shows "similar_loop cmp groupId info infs ngs =
     Some (filter (\<lambda>ng. ng_Id ng \<noteq> groupId \<and>
       (\<exists>i. mget infs (ng_Id ng) = Some i \<and> cmp info i = Some True)) ngs)"
proof (induction ngs)
  case (Cons ng ngs)
  show ?case
  proof (cases "ng_Id ng = groupId \<or> mget infs (ng_Id ng) = None")
    case True
    then show ?thesis using Cons.IH by (auto split: option.splits)
  next
    case False
    then obtain i where i: "mget infs (ng_Id ng) = Some i" "ok i"
      using assms(1) by (auto simp: good_infos_def)
    then obtain b where "cmp info i = Some b" using cmp_defined [OF assms(2) i(2)] by auto
    then show ?thesis using Cons.IH i False by auto
  qed
qed simp

lemma similar_loop_sym:
  assumes "good_infos infs" "mget infs (ng_Id g1) = Some i1" "mget infs (ng_Id g2) = Some i2"
    and "g1 \<in> set ngs" "similar_loop cmp (ng_Id g1) i1 infs ngs = Some r1" "g2 \<in> set r1"
  shows "\<exists>r2. similar_loop cmp (ng_Id g2) i2 infs ngs = Some r2 \<and> g1 \<in> set r2"
proof -
  have ok: "ok i1" "ok i2" using assms(1-3) by (auto simp: good_infos_def)
  have "ng_Id g2 \<noteq> ng_Id g1" "cmp i1 i2 = Some True"
    using assms(5,6) by (auto simp: similar_loop_eq [OF assms(1) ok(1)] assms(3))
  then show ?thesis
    using assms(2,4) cmp_sym [OF ok] by (auto simp: similar_loop_eq [OF assms(1) ok(2)])
qed

end

lemma fmax_commute: "fmax a b = fmax b a"
  using fle_antisym [of a b] fle_total [of a b] by (auto simp: fmax_def)

lemma fmin_commute: "fmin a b = fmin b a"
  using fle_antisym [of a b] fle_total [of a b] by (auto simp: fmin_def)

lemma within_tolerance_sym: "within_tolerance r p q = within_tolerance r q p"
  by (simp add: within_tolerance_def fmax_commute [of "f_of_int (MilliValue p)"]
      fmin_commute [of "f_of_int (MilliValue p)"])

definition comparable :: "(nodeInfo \<Rightarrow> (string, quantity) gomap) \<Rightarrow> nodeInfo \<Rightarrow> bool" where
  "comparable requested i \<longleftrightarrow> info_ok requested i \<and> ni_Node i \<noteq> None"

lemma IsNodeInfoSimilar_sym:
  assumes "comparable requested i1" "comparable requested i2"
  shows "IsNodeInfoSimilar requested i1 i2 = IsNodeInfoSimilar requested i2 i1"
proof -
  obtain n1 n2 where n: "ni_Node i1 = Some n1" "ni_Node i2 = Some n2"
    using assms by (auto simp: comparable_def)
  have ok: "info_ok requested i1" "info_ok requested i2" using assms by (auto simp: comparable_def)
  note sym = both_or_neither_sym [where P = "within_tolerance (mkf (1 / 20))", OF within_tolerance_sym]
  have "similar_nodes requested n1 i1 n2 i2 = similar_nodes requested n2 i2 n1 i1"
    unfolding similar_nodes_iff [OF ok n] similar_nodes_iff [OF ok(2,1) n(2,1)]
    by (auto simp: eq_commute [of "mget (n_Capacity n1) _"] eq_commute [of "mget (n_Labels n1) _"]
        sym [of "mget (n_Allocatable n1) _"] sym [of "mget (free_resources requested n1 i1) _"])
  then show ?thesis by (simp add: IsNodeInfoSimilar_def n)
qed

interpretation similar: node_comparator "IsNodeInfoSimilar requested" "comparable requested"
  for requested
proof
  show "IsNodeInfoSimilar requested i1 i2 = IsNodeInfoSimilar requested i2 i1"
    if "comparable requested i1" "comparable requested i2" for i1 i2
    using that by (rule IsNodeInfoSimilar_sym)
  show "IsNodeInfoSimilar requested i1 i2 \<noteq> None"
    if "comparable requested i1" "comparable requested i2" for i1 i2
    using that by (auto simp: comparable_def IsNodeInfoSimilar_def)
qed

text \<open>
  What similar means.  On well-formed node infos \<open>IsNodeInfoSimilar\<close> holds exactly when both
  nodes have the same capacities, list the same allocatable and the same requested resources with
  allocatable and free amounts within the tolerance, and agree on every label but the ignored ones,
  whatever order the maps are visited in.
\<close>

theorem IsNodeInfoSimilar_spec:
  assumes "info_ok requested i1" "info_ok requested i2" "ni_Node i1 = Some n1" "ni_Node i2 = Some n2"
  shows "IsNodeInfoSimilar requested i1 i2 = Some True \<longleftrightarrow>
     (\<forall>res. mget (n_Capacity n1) res = mget (n_Capacity n2) res) \<and>
     (\<forall>res. both_or_neither (within_tolerance (mkf (1 / 20)))
        (mget (n_Allocatable n1) res) (mget (n_Allocatable n2) res)) \<and>
     (\<forall>res. both_or_neither (within_tolerance (mkf (1 / 20)))
        (map_option (\<lambda>q. mget0 0 (n_Allocatable n1) res - q) (mget (requested i1) res))
        (map_option (\<lambda>q. mget0 0 (n_Allocatable n2) res - q) (mget (requested i2) res))) \<and>
     (\<forall>l. l \<notin> set (mkeys ignoredLabels) \<longrightarrow> mget (n_Labels n1) l = mget (n_Labels n2) l)"
  using similar_nodes_iff [OF assms] by (simp add: IsNodeInfoSimilar_def assms(3,4) mget_free)

definition zone_info :: "string \<Rightarrow> nodeInfo" where
  "zone_info zone = \<lparr>ni_Node = Some (empty_node\<lparr>n_Labels :=
     [(''failure-domain.beta.kubernetes.io/zone'', zone), (''pool'', ''a'')],
     n_Capacity := [(''cpu'', NewMilliQuantity 1000)]\<rparr>), ni_Pods = []\<rparr>"

lemma IsNodeInfoSimilar_spec_witness:
  "IsNodeInfoSimilar (\<lambda>_. []) (zone_info ''z1'') (zone_info ''z2'') = Some True"
proof -
  obtain n1 n2 where n: "ni_Node (zone_info ''z1'') = Some n1" "ni_Node (zone_info ''z2'') = Some n2"
    and v: "n1 = empty_node\<lparr>n_Labels := [(''failure-domain.beta.kubernetes.io/zone'', ''z1''), (''pool'', ''a'')],
       n_Capacity := [(''cpu'', NewMilliQuantity 1000)]\<rparr>"
      "n2 = empty_node\<lparr>n_Labels := [(''failure-domain.beta.kubernetes.io/zone'', ''z2''), (''pool'', ''a'')],
       n_Capacity := [(''cpu'', NewMilliQuantity 1000)]\<rparr>"
    by (simp add: zone_info_def)
  have "info_ok (\<lambda>_. []) (zone_info z)" for z
    by (simp add: zone_info_def info_ok_def gomap_ok_def empty_node_def)
  from IsNodeInfoSimilar_spec [OF this this n] show ?thesis
    by (simp add: v both_or_neither_def ignoredLabels_def mkeys_def empty_node_def)
qed

text \<open>
  Similarity of node groups is mutual.  If a group is found similar to another, the other is
  found similar to it, so the groups that share a scale-up do not depend on which was chosen first.
\<close>

theorem FindSimilarNodeGroups_mutual:
  assumes "\<And>k i. mget infs k = Some i \<Longrightarrow> comparable requested i"
    and "g1 \<in> set (cp_NodeGroups cp)" "mget infs (ng_Id g2) \<noteq> None"
    and "FindSimilarNodeGroups requested None cp g1 infs = Some (Inr r1)" "g2 \<in> set r1"
  shows "\<exists>r2. FindSimilarNodeGroups requested None cp g2 infs = Some (Inr r2) \<and> g1 \<in> set r2"
proof -
  have good: "similar.good_infos requested infs"
    using assms(1) by (simp add: similar.good_infos_def)
  obtain i1 where i1: "mget infs (ng_Id g1) = Some i1"
      "similar_loop (IsNodeInfoSimilar requested) (ng_Id g1) i1 infs (cp_NodeGroups cp) = Some r1"
    using assms(4) by (auto simp: FindSimilarNodeGroups_def split: option.splits)
  obtain i2 where i2: "mget infs (ng_Id g2) = Some i2" using assms(3) by auto
  show ?thesis
    using similar.similar_loop_sym [OF good i1(1) i2 assms(2) i1(2) assms(5)]
    by (auto simp: FindSimilarNodeGroups_def i2)
qed

lemma comparable_zone: "comparable (\<lambda>_. []) (zone_info z)"
  by (simp add: comparable_def zone_info_def info_ok_def gomap_ok_def empty_node_def)

lemma FindSimilarNodeGroups_mutual_witness:
  "\<exists>r2. FindSimilarNodeGroups (\<lambda>_. []) None \<lparr>cp_NodeGroups = [sized_group ''a'' 1 5, sized_group ''b'' 1 5],
       cp_NodeGroupForNode = \<lambda>_. Inr None\<rparr> (sized_group ''b'' 1 5)
       [(''a'', zone_info ''z1''), (''b'', zone_info ''z2'')] = Some (Inr r2) \<and> sized_group ''a'' 1 5 \<in> set r2"
proof (rule FindSimilarNodeGroups_mutual)
  let ?infs = "[(''a'', zone_info ''z1''), (''b'', zone_info ''z2'')]"
  show "comparable (\<lambda>_. []) i" if "mget ?infs k = Some i" for k i
    using that comparable_zone by (auto split: if_splits)
  show "sized_group ''a'' 1 5 \<in> set (cp_NodeGroups \<lparr>cp_NodeGroups = [sized_group ''a'' 1 5, sized_group ''b'' 1 5],
       cp_NodeGroupForNode = \<lambda>_. Inr None\<rparr>)" by simp
  show "mget ?infs (ng_Id (sized_group ''b'' 1 5)) \<noteq> None" by (simp add: sized_group_def)
  show "FindSimilarNodeGroups (\<lambda>_. []) None \<lparr>cp_NodeGroups = [sized_group ''a'' 1 5, sized_group ''b'' 1 5],
       cp_NodeGroupForNode = \<lambda>_. Inr None\<rparr> (sized_group ''a'' 1 5) ?infs = Some (Inr [sized_group ''b'' 1 5])"
    by (simp add: FindSimilarNodeGroups_def sized_group_def IsNodeInfoSimilar_def zone_info_def
        similar_nodes_def collect_two_def mappend_def mput_def mget0_def equal_pair_def
        compareResourceMapsWithTolerance_def free_resources_def compared_labels_def ignoredLabels_def
        empty_node_def)
qed simp

text \<open>
  An over-committed node is not similar to itself.  When the requests on a template node exceed
  what it can allocate of some resource by a whole milli-unit, \<open>larger * ratio\<close> is negative and the
  difference zero, so the comparison of the node info with itself, or with an identical one, fails.
\<close>

theorem overcommitted_not_similar_to_itself:
  assumes "info_ok requested i" "ni_Node i = Some n" "mget (requested i) res = Some q"
    and "MilliValue (mget0 0 (n_Allocatable n) res - q) < 0"
    and "- (2 ^ 53) \<le> MilliValue (mget0 0 (n_Allocatable n) res - q)"
  shows "IsNodeInfoSimilar requested i i = Some False"
proof -
  define v where "v = MilliValue (mget0 0 (n_Allocatable n) res - q)"
  have v: "v < 0" "\<bar>v\<bar> \<le> 2 ^ 53" using assms(4,5) by (auto simp: v_def)
  then have fv: "f_of_int v = Fin (of_int v)" by (intro f_of_int_exact)
  have "\<not> within_tolerance (mkf (1 / 20)) (mget0 0 (n_Allocatable n) res - q) (mget0 0 (n_Allocatable n) res - q)"
  proof -
    define r where "r = rnd (1 / 20)"
    have "rnd (exp2 (- 5)) = exp2 (- 5)"
      using rnd_pos_exact [of 1 "- 5"] by (simp add: rnd_def)
    moreover have "exp2 (- 5) = 1 / 32" by (simp add: exp2_def)
    ultimately have "rnd (1 / 32) = 1 / 32" by (simp only:)
    moreover have "rnd (1 / 32) \<le> r" "r \<le> rnd (of_int 1)"
      unfolding r_def by (auto intro: rnd_mono)
    moreover have "(0 :: rat) < 1 / 32" by simp
    ultimately have r: "0 < r" "r \<le> 1" using rnd_of_int [of 1] by (linarith, simp)
    then have "r \<le> maxFloat64" by (simp add: maxFloat64_def)
    then have ratio: "mkf (1 / 20) = Fin r" "mkf (- r) = Fin (- r)"
      using r rnd_idem [of "1 / 20"] by (auto simp: mkf_def Let_def r_def [symmetric] maxFloat64_def)
    have "of_int v * r \<le> (-1) * r"
      using v(1) r(1) by (intro mult_right_mono) (simp_all flip: of_int_le_iff [of v "- 1"])
    then have "fle (mkf (of_int v * r)) (Fin (- r))" using mkf_mono ratio(2) by fastforce
    then have "flt (mkf (of_int v * r)) (Fin 0)"
      using r(1) by (cases "mkf (of_int v * r)") (auto simp: flt_def)
    moreover have "mkf 0 = Fin 0" by (simp add: mkf_def maxFloat64_def)
    ultimately show ?thesis
      by (simp add: within_tolerance_def Let_def flip: v_def)
         (simp add: fv fmax_def fmin_def ratio fsub_def)
  qed
  then have "\<not> both_or_neither (within_tolerance (mkf (1 / 20)))
      (mget (free_resources requested n i) res) (mget (free_resources requested n i) res)"
    by (simp add: mget_free assms(3) both_or_neither_def)
  then have "\<not> similar_nodes requested n i n i"
    unfolding similar_nodes_iff [OF assms(1) assms(1) assms(2) assms(2)] by blast
  then show ?thesis by (simp add: IsNodeInfoSimilar_def assms(2))
qed

lemma overcommitted_not_similar_to_itself_witness:
  "IsNodeInfoSimilar (\<lambda>_. [(''cpu'', NewMilliQuantity 1500)])
     (zone_info ''z1'') (zone_info ''z1'') = Some False"
proof -
  obtain n where n: "ni_Node (zone_info ''z1'') = Some n" and
    v: "mget (n_Allocatable n) ''cpu'' = None" "n_Allocatable n = []"
    by (simp add: zone_info_def empty_node_def)
  have ok: "info_ok (\<lambda>_. [(''cpu'', NewMilliQuantity 1500)]) (zone_info ''z1'')"
    by (simp add: zone_info_def info_ok_def gomap_ok_def empty_node_def)
  show ?thesis
    by (rule overcommitted_not_similar_to_itself [OF ok n, where res = "''cpu''" and q = "NewMilliQuantity 1500"])
       (simp_all add: v mget0_def MilliValue_def quantity_ceil_def NewMilliQuantity_def)
qed

end
