(* ===== verification/ScaleDownLimits.thy ===== *)
theory ScaleDownLimits
  imports Balancing Simulator "HOL-Library.List_Lexorder" "HOL-Library.Char_ord"
begin

text \<open>
  The resource limits of a scale-down: \<open>utils/gpu/gpu.go\<close>, the \<open>ResourceLimiter\<close> of
  \<open>cloudprovider/cloud_provider.go\<close>, and the limits, deltas and empty nodes of
  \<open>core/scale_down.go\<close>.  An \<open>int64\<close> sum wraps (\<open>i64\<close>).  \<open>TemplateNodeInfo\<close> of a node group is the
  parameter \<open>template\<close>: an error, or the node of the template.
\<close>

section \<open>Resources with limits\<close>

definition ResourceNameCores :: string where "ResourceNameCores = ''cpu''"
definition ResourceNameMemory :: string where "ResourceNameMemory = ''memory''"

definition IsGpuResource :: "string \<Rightarrow> bool" where
  "IsGpuResource resourceName \<longleftrightarrow> resourceName \<noteq> ResourceNameCores \<and> resourceName \<noteq> ResourceNameMemory"

definition ContainsGpuResources :: "string list \<Rightarrow> bool" where
  "ContainsGpuResources resources \<longleftrightarrow> list_ex IsGpuResource resources"

record resourceLimiter =
  rl_minLimits :: "(string, int) gomap"
  rl_maxLimits :: "(string, int) gomap"

definition NewResourceLimiter :: "(string, int) gomap \<Rightarrow> (string, int) gomap \<Rightarrow> resourceLimiter" where
  "NewResourceLimiter minLimits maxLimits =
     \<lparr>rl_minLimits = foldl (\<lambda>m (k, v). if v > 0 then mput k v m else m) [] minLimits,
      rl_maxLimits = foldl (\<lambda>m (k, v). mput k v m) [] maxLimits\<rparr>"

definition GetMin :: "resourceLimiter \<Rightarrow> string \<Rightarrow> int" where
  "GetMin r resourceName = (case mget (rl_minLimits r) resourceName of Some v \<Rightarrow> v | None \<Rightarrow> 0)"

definition GetMax :: "resourceLimiter \<Rightarrow> string \<Rightarrow> int" where
  "GetMax r resourceName = (case mget (rl_maxLimits r) resourceName of Some v \<Rightarrow> v | None \<Rightarrow> maxInt64)"

definition GetResources :: "resourceLimiter \<Rightarrow> string list" where
  "GetResources r = sort (remdups (mkeys (rl_minLimits r) @ mkeys (rl_maxLimits r)))"

definition HasMinLimitSet :: "resourceLimiter \<Rightarrow> string \<Rightarrow> bool" where
  "HasMinLimitSet r resourceName \<longleftrightarrow> mhas (rl_minLimits r) resourceName"

definition HasMaxLimitSet :: "resourceLimiter \<Rightarrow> string \<Rightarrow> bool" where
  "HasMaxLimitSet r resourceName \<longleftrightarrow> mhas (rl_maxLimits r) resourceName"

section \<open>GPUs\<close>

definition ResourceNvidiaGPU :: string where "ResourceNvidiaGPU = ''nvidia.com/gpu''"
definition GPULabel :: string where "GPULabel = ''cloud.google.com/gke-accelerator''"

definition getUnreadyNodeCopy :: "node \<Rightarrow> node" where
  "getUnreadyNodeCopy n = n\<lparr>n_Conditions :=
     \<lparr>nc_Type = NodeReady, nc_Status = ConditionFalse, nc_LastTransitionTime = n_CreationTimestamp n\<rparr> #
     filter (\<lambda>c. nc_Type c \<noteq> NodeReady) (n_Conditions n)\<rparr>"

definition unready_gpu :: "node \<Rightarrow> bool" where
  "unready_gpu n \<longleftrightarrow> mhas (n_Labels n) GPULabel \<and>
     (case mget (n_Allocatable n) ResourceNvidiaGPU of None \<Rightarrow> True | Some q \<Rightarrow> q = 0)"

definition FilterOutNodesWithUnreadyGpus :: "node list \<Rightarrow> node list \<Rightarrow> node list \<times> node list" where
  "FilterOutNodesWithUnreadyGpus allNodes readyNodes =
     (let nodesWithUnreadyGpu =
            foldl (\<lambda>m n. if unready_gpu n then mput (n_Name n) (getUnreadyNodeCopy n) m else m) [] readyNodes
      in (map (\<lambda>n. case mget nodesWithUnreadyGpu (n_Name n) of Some n' \<Rightarrow> n' | None \<Rightarrow> n) allNodes,
          filter (\<lambda>n. \<not> unready_gpu n) readyNodes))"

definition NodeHasGpu :: "node \<Rightarrow> bool" where
  "NodeHasGpu n \<longleftrightarrow> mhas (n_Labels n) GPULabel \<or>
     (case mget (n_Allocatable n) ResourceNvidiaGPU of None \<Rightarrow> False | Some q \<Rightarrow> q \<noteq> 0)"

definition PodRequestsGpu :: "pod \<Rightarrow> bool" where
  "PodRequestsGpu p \<longleftrightarrow> list_ex (\<lambda>c. mhas (ct_Requests c) ResourceNvidiaGPU) (pod_Containers p)"

definition GetNodeTargetGpus ::
  "(nodeGroup \<Rightarrow> string + node) \<Rightarrow> node \<Rightarrow> nodeGroup option \<Rightarrow> autoscalerError + string \<times> int" where
  "GetNodeTargetGpus template n nodeGroup =
     (case mget (n_Labels n) GPULabel of
        None \<Rightarrow> Inr ('''', 0)
      | Some gpuLabel \<Rightarrow>
          (let visible = (case mget (n_Allocatable n) ResourceNvidiaGPU of None \<Rightarrow> 0 | Some q \<Rightarrow> Value q)
           in if visible > 0 then Inr (gpuLabel, visible)
              else
                (case nodeGroup of
                   None \<Rightarrow> Inl (NewAutoscalerError InternalError
                     ''node without with gpu label, without capacity not belonging to autoscaled node group'')
                 | Some ng \<Rightarrow>
                     (case template ng of
                        Inl err \<Rightarrow> Inl (NewAutoscalerError CloudProviderError err)
                      | Inr t \<Rightarrow>
                          (case mget (n_Capacity t) ResourceNvidiaGPU of
                             Some gpuCapacity \<Rightarrow> Inr (gpuLabel, Value gpuCapacity)
                           | None \<Rightarrow> Inr ('''', 0))))))"

definition knownGpuTypes :: "string list" where
  "knownGpuTypes = [''nvidia-tesla-k80'', ''nvidia-tesla-p100'', ''nvidia-tesla-v100'']"

definition validateGpuType :: "string \<Rightarrow> string" where
  "validateGpuType gpu = (if gpu \<in> set knownGpuTypes then gpu else ''not-listed'')"

definition GetGpuTypeForMetrics :: "(nodeGroup \<Rightarrow> string + node) \<Rightarrow> node \<Rightarrow> nodeGroup option \<Rightarrow> string" where
  "GetGpuTypeForMetrics template n nodeGroup =
     (case mget (n_Labels n) GPULabel of
        None \<Rightarrow> (case mget (n_Capacity n) ResourceNvidiaGPU of
                   Some c \<Rightarrow> if c \<noteq> 0 then ''generic'' else ''''
                 | None \<Rightarrow> '''')
      | Some gpuType \<Rightarrow>
          (if mhas (n_Capacity n) ResourceNvidiaGPU then validateGpuType gpuType
           else
             (case nodeGroup of
                None \<Rightarrow> ''unexpected-label''
              | Some ng \<Rightarrow>
                  (case template ng of
                     Inl _ \<Rightarrow> ''error''
                   | Inr t \<Rightarrow> if mhas (n_Capacity t) ResourceNvidiaGPU then ''missing-gpu''
                             else ''unexpected-label''))))"

section \<open>Limits left for a scale-down\<close>

type_synonym limits = "(string, int) gomap"

definition MaxKubernetesEmptyNodeDeletionTime :: duration where
  "MaxKubernetesEmptyNodeDeletionTime = 3 * minute"

definition MaxCloudProviderNodeDeletionTime :: duration where
  "MaxCloudProviderNodeDeletionTime = 5 * minute"

definition scaleDownLimitUnknown :: int where
  "scaleDownLimitUnknown = minInt64"

definition getNodeResource :: "node \<Rightarrow> string \<Rightarrow> int" where
  "getNodeResource n resource =
     (case mget (n_Capacity n) resource of
        None \<Rightarrow> 0
      | Some nodeCapacity \<Rightarrow> if Value nodeCapacity < 0 then 0 else Value nodeCapacity)"

definition getNodeCoresAndMemory :: "node \<Rightarrow> int \<times> int" where
  "getNodeCoresAndMemory n = (getNodeResource n ''cpu'', getNodeResource n ''memory'')"

text \<open>An unreadable taint value gives a nil time, like no taint at all.\<close>

definition isNodeBeingDeleted :: "node \<Rightarrow> time \<Rightarrow> bool" where
  "isNodeBeingDeleted n timestamp \<longleftrightarrow>
     (case GetToBeDeletedTime n of
        Inr (Some deleteTime) \<Rightarrow>
          time_sub timestamp deleteTime < MaxCloudProviderNodeDeletionTime \<or>
          time_sub timestamp deleteTime < MaxKubernetesEmptyNodeDeletionTime
      | _ \<Rightarrow> False)"

definition computeAboveMin :: "int \<Rightarrow> int \<Rightarrow> int" where
  "computeAboveMin total_amount min_amount =
     (if total_amount > min_amount then i64 (total_amount - min_amount) else 0)"

definition calculateScaleDownCoresMemoryTotal :: "node list \<Rightarrow> time \<Rightarrow> int \<times> int" where
  "calculateScaleDownCoresMemoryTotal nodes timestamp =
     foldl (\<lambda>(cores, memory) n.
              if isNodeBeingDeleted n timestamp then (cores, memory)
              else (i64 (cores + fst (getNodeCoresAndMemory n)), i64 (memory + snd (getNodeCoresAndMemory n))))
       (0, 0) nodes"

text \<open>
  The loop over the nodes for the GPU totals, with its cache of node groups.  The prefixes of
  the error messages are those of the source, the node's name filled in where the source does.
\<close>

fun gpu_total_loop ::
  "(nodeGroup \<Rightarrow> string + node) \<Rightarrow> cloudProvider \<Rightarrow> time \<Rightarrow> (string, int) gomap \<Rightarrow>
     (string, string \<times> int) gomap \<Rightarrow> node list \<Rightarrow> autoscalerError + (string, int) gomap" where
  "gpu_total_loop template cp timestamp result ngCache [] = Inr result"
| "gpu_total_loop template cp timestamp result ngCache (n # ns) =
     (if isNodeBeingDeleted n timestamp then gpu_total_loop template cp timestamp result ngCache ns
      else
        (case cp_NodeGroupForNode cp n of
           Inl err \<Rightarrow> Inl (AddPrefix (''can not get node group for node '' @ n_Name n @
                            '' when calculating cluster gpu usage'') (NewAutoscalerError CloudProviderError err))
         | Inr nodeGroup \<Rightarrow>
             (let cached = (case nodeGroup of None \<Rightarrow> None | Some ng \<Rightarrow> mget ngCache (ng_Id ng));
                  gpu = (case cached of Some c \<Rightarrow> Inr c | None \<Rightarrow> GetNodeTargetGpus template n nodeGroup)
              in case gpu of
                   Inl err \<Rightarrow> Inl (AddPrefix
                     ''can not get gpu count for node %!v(MISSING) when calculating cluster gpu usage'' err)
                 | Inr (gpuType, gpuCount) \<Rightarrow>
                     (let ngCache' = (case (cached, nodeGroup) of
                            (None, Some ng) \<Rightarrow> mput (ng_Id ng) (gpuType, gpuCount) ngCache
                          | _ \<Rightarrow> ngCache);
                          result' = (if gpuType = '''' \<or> gpuCount = 0 then result
                            else mput gpuType (i64 (mget0 0 result gpuType + gpuCount)) result)
                      in gpu_total_loop template cp timestamp result' ngCache' ns))))"

definition calculateScaleDownGpusTotal ::
  "(nodeGroup \<Rightarrow> string + node) \<Rightarrow> cloudProvider \<Rightarrow> node list \<Rightarrow> time \<Rightarrow> autoscalerError + (string, int) gomap" where
  "calculateScaleDownGpusTotal template cp nodes timestamp = gpu_total_loop template cp timestamp [] [] nodes"

text \<open>No entry means no limit; every name other than cpu and memory is a GPU.\<close>

definition resource_left ::
  "int \<Rightarrow> int \<Rightarrow> autoscalerError + (string, int) gomap \<Rightarrow> string \<Rightarrow> int \<Rightarrow> int" where
  "resource_left totalCores totalMem totalGpus resource min_amount =
     (if resource = ResourceNameCores then computeAboveMin totalCores min_amount
      else if resource = ResourceNameMemory then computeAboveMin totalMem min_amount
      else (case totalGpus of
              Inl _ \<Rightarrow> scaleDownLimitUnknown
            | Inr gpus \<Rightarrow> computeAboveMin (mget0 0 gpus resource) min_amount))"

definition computeScaleDownResourcesLeftLimits ::
  "(nodeGroup \<Rightarrow> string + node) \<Rightarrow> node list \<Rightarrow> resourceLimiter \<Rightarrow> cloudProvider \<Rightarrow> time \<Rightarrow> limits" where
  "computeScaleDownResourcesLeftLimits template nodes limiter cp timestamp =
     (case calculateScaleDownCoresMemoryTotal nodes timestamp of
        (totalCores, totalMem) \<Rightarrow>
          (let totalGpus = (if ContainsGpuResources (GetResources limiter)
                 then calculateScaleDownGpusTotal template cp nodes timestamp else Inr [])
           in foldl (\<lambda>m resource.
                if GetMin limiter resource > 0
                then mput resource (resource_left totalCores totalMem totalGpus resource (GetMin limiter resource)) m
                else m) [] (GetResources limiter)))"

section \<open>Deltas\<close>

definition computeScaleDownResourcesDelta ::
  "(nodeGroup \<Rightarrow> string + node) \<Rightarrow> node \<Rightarrow> nodeGroup option \<Rightarrow> string list \<Rightarrow> autoscalerError + limits" where
  "computeScaleDownResourcesDelta template n nodeGroup resourcesWithLimits =
     (let delta = mput ResourceNameMemory (snd (getNodeCoresAndMemory n))
                    (mput ResourceNameCores (fst (getNodeCoresAndMemory n)) [])
      in if ContainsGpuResources resourcesWithLimits then
           (case GetNodeTargetGpus template n nodeGroup of
              Inl err \<Rightarrow> Inl (AddPrefix (''Failed to get node '' @ n_Name n @ '' gpu: %!v(MISSING)'') err)
            | Inr (gpuType, gpuCount) \<Rightarrow> Inr (mput gpuType gpuCount delta))
         else Inr delta)"

definition exceeds :: "limits \<Rightarrow> string \<times> int \<Rightarrow> bool" where
  "exceeds lims rd =
     (case mget lims (fst rd) of
        None \<Rightarrow> False
      | Some resourceLeft \<Rightarrow> snd rd > 0 \<and> (resourceLeft = scaleDownLimitUnknown \<or> snd rd > resourceLeft))"

text \<open>The exceeded resources, in the order of \<open>sets.String.List\<close>; none means within the limits.\<close>

definition checkScaleDownDeltaWithinLimits :: "limits \<Rightarrow> limits \<Rightarrow> string list" where
  "checkScaleDownDeltaWithinLimits lims delta = sort (remdups (map fst (filter (exceeds lims) delta)))"

definition decrement_limit :: "limits \<Rightarrow> string \<times> int \<Rightarrow> limits" where
  "decrement_limit lims rd =
     (case mget lims (fst rd) of
        None \<Rightarrow> lims
      | Some resourceLeft \<Rightarrow> mput (fst rd) (i64 (resourceLeft - snd rd)) lims)"

definition tryDecrementLimitsByDelta :: "limits \<Rightarrow> limits \<Rightarrow> string list \<times> limits" where
  "tryDecrementLimitsByDelta lims delta =
     (let exceeded = checkScaleDownDeltaWithinLimits lims delta
      in if exceeded \<noteq> [] then (exceeded, lims) else ([], foldl decrement_limit lims delta))"

section \<open>Empty nodes that can be deleted at the same time\<close>

record emptyState =
  es_available :: "(string, int) gomap"
  es_limits :: limits
  es_result :: "node list"

definition empty_node_step ::
  "(nodeGroup \<Rightarrow> string + node) \<Rightarrow> cloudProvider \<Rightarrow> string list \<Rightarrow> emptyState \<Rightarrow> node \<Rightarrow> emptyState" where
  "empty_node_step template cp resourcesNames st n =
     (case cp_NodeGroupForNode cp n of
        Inl _ \<Rightarrow> st
      | Inr None \<Rightarrow> st
      | Inr (Some ng) \<Rightarrow>
          (let cached = (case mget (es_available st) (ng_Id ng) of
                 Some a \<Rightarrow> Inr (a, es_available st)
               | None \<Rightarrow>
                   (case ng_TargetSize ng of
                      Inl err \<Rightarrow> Inl err
                    | Inr sz \<Rightarrow>
                        (let a = (if sz - ng_MinSize ng < 0 then 0 else sz - ng_MinSize ng)
                         in Inr (a, mput (ng_Id ng) a (es_available st)))))
           in case cached of
                Inl _ \<Rightarrow> st
              | Inr (available, availabilityMap) \<Rightarrow>
                  (let st1 = st\<lparr>es_available := availabilityMap\<rparr>
                   in if available > 0 then
                        (case computeScaleDownResourcesDelta template n (Some ng) resourcesNames of
                           Inl _ \<Rightarrow> st1
                         | Inr delta \<Rightarrow>
                             (case tryDecrementLimitsByDelta (es_limits st) delta of
                                (exceeded, limits') \<Rightarrow>
                                  if exceeded \<noteq> [] then st1\<lparr>es_limits := limits'\<rparr>
                                  else \<lparr>es_available = mput (ng_Id ng) (available - 1) availabilityMap,
                                        es_limits = limits', es_result = es_result st @ [n]\<rparr>))
                      else st1)))"

text \<open>A negative \<open>maxEmptyBulkDelete\<close> makes the last slice expression panic: \<open>None\<close>.\<close>

definition getEmptyNodes ::
  "(nodeGroup \<Rightarrow> string + node) \<Rightarrow> 'sel as_selector \<Rightarrow> time \<Rightarrow> node list \<Rightarrow> pod list \<Rightarrow> int \<Rightarrow> limits \<Rightarrow>
     cloudProvider \<Rightarrow> node list option" where
  "getEmptyNodes template as_sel now candidates pods maxEmptyBulkDelete resourcesLimits cp =
     (let emptyNodes = FindEmptyNodesToRemove as_sel now candidates pods;
          resourcesNames = sort (mkeys resourcesLimits);
          st = foldl (empty_node_step template cp resourcesNames)
                 \<lparr>es_available = [], es_limits = resourcesLimits, es_result = []\<rparr> emptyNodes;
          limit = (if int (length (es_result st)) < maxEmptyBulkDelete then int (length (es_result st))
                   else maxEmptyBulkDelete)
      in if limit < 0 then None else Some (take (nat limit) (es_result st)))"

definition getEmptyNodesNoResourceLimits ::
  "(nodeGroup \<Rightarrow> string + node) \<Rightarrow> 'sel as_selector \<Rightarrow> time \<Rightarrow> node list \<Rightarrow> pod list \<Rightarrow> int \<Rightarrow>
     cloudProvider \<Rightarrow> node list option" where
  "getEmptyNodesNoResourceLimits template as_sel now candidates pods maxEmptyBulkDelete cp =
     getEmptyNodes template as_sel now candidates pods maxEmptyBulkDelete [] cp"

section \<open>Deltas within limits\<close>

lemma check_ok_iff:
  "checkScaleDownDeltaWithinLimits lims delta = [] \<longleftrightarrow> (\<forall>rd\<in>set delta. \<not> exceeds lims rd)"
proof -
  have "sort (remdups (map fst (filter (exceeds lims) delta))) = [] \<longleftrightarrow> filter (exceeds lims) delta = []"
    by (metis map_is_Nil_conv remdups_eq_nil_iff set_empty set_sort sort_key_simps(1))
  then show ?thesis by (simp add: checkScaleDownDeltaWithinLimits_def filter_empty_conv)
qed

lemma mget_decrement:
  assumes "gomap_ok delta" "\<And>L. mget lims r = Some L \<Longrightarrow> in_i64 L"
  shows "mget (foldl decrement_limit lims delta) r = map_option (\<lambda>L. i64 (L - mget0 0 delta r)) (mget lims r)"
  using assms
proof (induction delta arbitrary: lims)
  case Nil
  then show ?case by (cases "mget lims r") (simp_all add: mget0_def i64_id)
next
  case (Cons rd delta)
  obtain q d where rd: "rd = (q, d)" by (cases rd)
  have ok: "gomap_ok delta" "mget delta q = None" using Cons.prems(1) by (auto simp: rd gomap_ok_Cons)
  have step: "mget (decrement_limit lims (q, d)) r =
      (if r = q then map_option (\<lambda>L. i64 (L - d)) (mget lims r) else mget lims r)"
    by (auto simp: decrement_limit_def split: option.split)
  have "in_i64 L" if "mget (decrement_limit lims (q, d)) r = Some L" for L
    using that Cons.prems(2) by (auto simp: step i64_range split: if_splits)
  then have ih: "mget (foldl decrement_limit (decrement_limit lims (q, d)) delta) r =
      map_option (\<lambda>L. i64 (L - mget0 0 delta r)) (mget (decrement_limit lims (q, d)) r)"
    by (intro Cons.IH ok(1)) auto
  have fold: "foldl decrement_limit lims (rd # delta) = foldl decrement_limit (decrement_limit lims (q, d)) delta"
    by (simp add: rd)
  show ?case
    unfolding fold ih step
    using ok(2) by (cases "mget lims r") (auto simp: rd mget0_def i64_id i64_range)
qed

definition delta_at :: "limits \<Rightarrow> string \<Rightarrow> int" where
  "delta_at delta r = mget0 0 delta r"

lemma getNodeResource_nonneg: "0 \<le> getNodeResource n r"
  by (simp add: getNodeResource_def split: option.split)

text \<open>What the provider's templates promise: a GPU capacity that is not negative.\<close>

definition templates_ok :: "(nodeGroup \<Rightarrow> string + node) \<Rightarrow> bool" where
  "templates_ok template \<longleftrightarrow> (\<forall>ng t q. template ng = Inr t \<longrightarrow> mget (n_Capacity t) ResourceNvidiaGPU = Some q \<longrightarrow> 0 \<le> q)"

lemma GetNodeTargetGpus_nonneg:
  "templates_ok template \<Longrightarrow> GetNodeTargetGpus template n ng = Inr (ty, c) \<Longrightarrow> 0 \<le> c"
  using quantity_ceil_mono [of 1000000000 0]
  by (auto simp: GetNodeTargetGpus_def Let_def templates_ok_def Value_def quantity_ceil_def
      split: option.splits sum.splits if_splits)

lemma delta_ok:
  assumes "templates_ok template" "computeScaleDownResourcesDelta template n ng rs = Inr delta"
  shows "gomap_ok delta \<and> (\<forall>r. 0 \<le> delta_at delta r)"
  using assms GetNodeTargetGpus_nonneg [of template n ng]
  by (auto simp: computeScaleDownResourcesDelta_def delta_at_def mget0_def getNodeCoresAndMemory_def
      getNodeResource_nonneg Let_def split: if_splits sum.splits option.splits)

lemma tryDecrement_ok:
  assumes "tryDecrementLimitsByDelta lims delta = ([], lims')" "gomap_ok delta" "\<forall>r. 0 \<le> delta_at delta r"
    and "mget lims r = Some L" "in_i64 L"
  shows "mget lims' r = Some (L - delta_at delta r) \<and> in_i64 (L - delta_at delta r) \<and>
     (0 < delta_at delta r \<longrightarrow> delta_at delta r \<le> L)"
proof -
  have ok: "\<forall>rd\<in>set delta. \<not> exceeds lims rd" and lims': "lims' = foldl decrement_limit lims delta"
    using assms(1) by (auto simp: tryDecrementLimitsByDelta_def Let_def check_ok_iff [symmetric] split: if_splits)
  have le: "delta_at delta r \<le> L" if pos: "0 < delta_at delta r"
  proof -
    obtain d where d: "mget delta r = Some d" "delta_at delta r = d"
      using pos by (cases "mget delta r") (auto simp: delta_at_def mget0_def)
    then have "\<not> exceeds lims (r, d)" using ok mget_SomeD by fastforce
    then show ?thesis using pos d assms(4) by (auto simp: exceeds_def)
  qed
  have "in_i64 (L - delta_at delta r)"
  proof (cases "0 < delta_at delta r")
    case True
    then show ?thesis using le assms(5) by (intro in_i64_diff_nonneg) auto
  next
    case False
    then have "delta_at delta r = 0" using assms(3) by (auto intro: antisym simp: not_less)
    then show ?thesis using assms(5) by simp
  qed
  then show ?thesis
    using mget_decrement [OF assms(2), of lims r] assms(4,5) le
    by (simp add: lims' delta_at_def i64_id)
qed

section \<open>The loop over the empty nodes\<close>

definition group_of :: "cloudProvider \<Rightarrow> node \<Rightarrow> nodeGroup option" where
  "group_of cp n = (case cp_NodeGroupForNode cp n of Inr (Some ng) \<Rightarrow> Some ng | _ \<Rightarrow> None)"

definition node_delta ::
  "(nodeGroup \<Rightarrow> string + node) \<Rightarrow> cloudProvider \<Rightarrow> string list \<Rightarrow> node \<Rightarrow> string \<Rightarrow> int" where
  "node_delta template cp rs n r =
     (case computeScaleDownResourcesDelta template n (group_of cp n) rs of
        Inl _ \<Rightarrow> 0
      | Inr delta \<Rightarrow> delta_at delta r)"

lemma node_delta_nonneg: "templates_ok template \<Longrightarrow> 0 \<le> node_delta template cp rs n r"
  using delta_ok [of template n "group_of cp n" rs] by (auto simp: node_delta_def split: sum.split)

text \<open>How many nodes a group can lose: its size above its minimum.\<close>

definition removable_count :: "nodeGroup \<Rightarrow> int" where
  "removable_count ng = (case ng_TargetSize ng of Inl _ \<Rightarrow> 0 | Inr sz \<Rightarrow> max 0 (sz - ng_MinSize ng))"

definition members :: "cloudProvider \<Rightarrow> string \<Rightarrow> node list \<Rightarrow> int" where
  "members cp g ns = int (length (filter (\<lambda>n. \<exists>ng. group_of cp n = Some ng \<and> ng_Id ng = g) ns))"

text \<open>A provider names its groups: equal ids, equal groups.\<close>

definition groups_named :: "cloudProvider \<Rightarrow> bool" where
  "groups_named cp \<longleftrightarrow> (\<forall>n m g h. group_of cp n = Some g \<longrightarrow> group_of cp m = Some h \<longrightarrow> ng_Id g = ng_Id h \<longrightarrow> g = h)"

definition empty_inv ::
  "(nodeGroup \<Rightarrow> string + node) \<Rightarrow> cloudProvider \<Rightarrow> string list \<Rightarrow> limits \<Rightarrow> emptyState \<Rightarrow> bool" where
  "empty_inv template cp rs lims st \<longleftrightarrow>
     (\<forall>n ng. group_of cp n = Some ng \<longrightarrow>
        (case mget (es_available st) (ng_Id ng) of
           None \<Rightarrow> members cp (ng_Id ng) (es_result st) = 0
         | Some a \<Rightarrow> 0 \<le> a \<and> members cp (ng_Id ng) (es_result st) + a = removable_count ng)) \<and>
     (\<forall>r L. mget lims r = Some L \<longrightarrow>
        (let used = sum_list (map (\<lambda>n. node_delta template cp rs n r) (es_result st))
         in mget (es_limits st) r = Some (L - used) \<and> in_i64 (L - used) \<and> (0 < used \<longrightarrow> used \<le> L)))"

lemma members_snoc:
  "members cp g (ns @ [n]) = members cp g ns + (if \<exists>ng. group_of cp n = Some ng \<and> ng_Id ng = g then 1 else 0)"
  by (simp add: members_def)

definition groups_inv :: "cloudProvider \<Rightarrow> (string, int) gomap \<Rightarrow> node list \<Rightarrow> bool" where
  "groups_inv cp availabilityMap ns \<longleftrightarrow> (\<forall>n ng. group_of cp n = Some ng \<longrightarrow>
     (case mget availabilityMap (ng_Id ng) of
        None \<Rightarrow> members cp (ng_Id ng) ns = 0
      | Some a \<Rightarrow> 0 \<le> a \<and> members cp (ng_Id ng) ns + a = removable_count ng))"

definition limits_inv ::
  "(nodeGroup \<Rightarrow> string + node) \<Rightarrow> cloudProvider \<Rightarrow> string list \<Rightarrow> limits \<Rightarrow> limits \<Rightarrow> node list \<Rightarrow> bool" where
  "limits_inv template cp rs lims lims' ns \<longleftrightarrow> (\<forall>r L. mget lims r = Some L \<longrightarrow>
     (let used = sum_list (map (\<lambda>n. node_delta template cp rs n r) ns)
      in mget lims' r = Some (L - used) \<and> in_i64 (L - used) \<and> (0 < used \<longrightarrow> used \<le> L)))"

lemma empty_inv_iff: "empty_inv template cp rs lims st \<longleftrightarrow>
    groups_inv cp (es_available st) (es_result st) \<and> limits_inv template cp rs lims (es_limits st) (es_result st)"
  by (simp add: empty_inv_def groups_inv_def limits_inv_def)

lemma groups_invD:
  "groups_inv cp av ns \<Longrightarrow> group_of cp n = Some ng \<Longrightarrow>
     (case mget av (ng_Id ng) of
        None \<Rightarrow> members cp (ng_Id ng) ns = 0
      | Some a \<Rightarrow> 0 \<le> a \<and> members cp (ng_Id ng) ns + a = removable_count ng)"
  unfolding groups_inv_def by blast

lemma groups_inv_cache:
  assumes "groups_inv cp av ns" "groups_named cp" "group_of cp n = Some ng"
    and "mget av (ng_Id ng) = None" "ng_TargetSize ng = Inr sz"
  shows "groups_inv cp (mput (ng_Id ng) (if sz - ng_MinSize ng < 0 then 0 else sz - ng_MinSize ng) av) ns"
  unfolding groups_inv_def
proof (intro allI impI)
  fix m h
  assume h: "group_of cp m = Some h"
  show "case mget (mput (ng_Id ng) (if sz - ng_MinSize ng < 0 then 0 else sz - ng_MinSize ng) av) (ng_Id h) of
      None \<Rightarrow> members cp (ng_Id h) ns = 0
    | Some a \<Rightarrow> 0 \<le> a \<and> members cp (ng_Id h) ns + a = removable_count h"
  proof (cases "ng_Id h = ng_Id ng")
    case True
    then have "h = ng" using assms(2,3) h unfolding groups_named_def by blast
    moreover have "members cp (ng_Id ng) ns = 0" using groups_invD [OF assms(1,3)] assms(4) by simp
    ultimately show ?thesis using assms(5) by (auto simp: removable_count_def)
  next
    case False
    then show ?thesis using groups_invD [OF assms(1) h] by simp
  qed
qed

lemma groups_inv_take:
  assumes "groups_inv cp av ns" "group_of cp n = Some ng" "mget av (ng_Id ng) = Some a" "0 < a"
  shows "groups_inv cp (mput (ng_Id ng) (a - 1) av) (ns @ [n])"
  unfolding groups_inv_def
proof (intro allI impI)
  fix m h
  assume h: "group_of cp m = Some h"
  show "case mget (mput (ng_Id ng) (a - 1) av) (ng_Id h) of
      None \<Rightarrow> members cp (ng_Id h) (ns @ [n]) = 0
    | Some a \<Rightarrow> 0 \<le> a \<and> members cp (ng_Id h) (ns @ [n]) + a = removable_count h"
    using groups_invD [OF assms(1) h] assms(2-4)
    by (cases "ng_Id h = ng_Id ng") (simp_all add: members_snoc eq_commute [of "ng_Id ng"] split: option.splits)
qed

lemma limits_inv_take:
  assumes "limits_inv template cp rs lims lims1 ns" "templates_ok template"
    and "computeScaleDownResourcesDelta template n (group_of cp n) rs = Inr delta"
    and "tryDecrementLimitsByDelta lims1 delta = ([], lims2)"
  shows "limits_inv template cp rs lims lims2 (ns @ [n])"
  unfolding limits_inv_def
proof (intro allI impI)
  fix r L
  assume L: "mget lims r = Some L"
  let ?used = "sum_list (map (\<lambda>n. node_delta template cp rs n r) ns)"
  have nd: "node_delta template cp rs n r = delta_at delta r" by (simp add: node_delta_def assms(3))
  have used: "0 \<le> ?used" using node_delta_nonneg [OF assms(2)] by (intro sum_list_nonneg) auto
  have old: "mget lims1 r = Some (L - ?used)" "in_i64 (L - ?used)" "0 < ?used \<longrightarrow> ?used \<le> L"
    using assms(1) L by (auto simp: limits_inv_def Let_def)
  have delta: "gomap_ok delta" "\<forall>r. 0 \<le> delta_at delta r" using delta_ok [OF assms(2,3)] by auto
  have "mget lims2 r = Some (L - ?used - delta_at delta r) \<and> in_i64 (L - ?used - delta_at delta r) \<and>
      (0 < delta_at delta r \<longrightarrow> delta_at delta r \<le> L - ?used)"
    by (rule tryDecrement_ok [OF assms(4) delta old(1,2)])
  moreover have "0 \<le> delta_at delta r" using delta(2) by blast
  ultimately show "let used = sum_list (map (\<lambda>n. node_delta template cp rs n r) (ns @ [n]))
      in mget lims2 r = Some (L - used) \<and> in_i64 (L - used) \<and> (0 < used \<longrightarrow> used \<le> L)"
    using old(3) used by (auto simp: nd Let_def algebra_simps)
qed

lemma tryDecrement_exceeded:
  "tryDecrementLimitsByDelta lims delta = (e, lims') \<Longrightarrow> e \<noteq> [] \<Longrightarrow> lims' = lims"
  by (auto simp: tryDecrementLimitsByDelta_def Let_def split: if_splits)

lemma empty_inv_step:
  assumes "empty_inv template cp rs lims st" "templates_ok template" "groups_named cp"
  shows "empty_inv template cp rs lims (empty_node_step template cp rs st n)"
proof (cases "group_of cp n")
  case None
  then show ?thesis using assms(1)
    by (auto simp: empty_node_step_def group_of_def split: sum.splits option.splits)
next
  case (Some ng)
  then have ng: "cp_NodeGroupForNode cp n = Inr (Some ng)"
    by (auto simp: group_of_def split: sum.splits option.splits)
  have inv: "groups_inv cp (es_available st) (es_result st)"
    "limits_inv template cp rs lims (es_limits st) (es_result st)"
    using assms(1) by (auto simp: empty_inv_iff)
  define cached where "cached = (case mget (es_available st) (ng_Id ng) of
       Some a \<Rightarrow> Inr (a, es_available st)
     | None \<Rightarrow> (case ng_TargetSize ng of
            Inl err \<Rightarrow> Inl err
          | Inr sz \<Rightarrow> (let a = (if sz - ng_MinSize ng < 0 then 0 else sz - ng_MinSize ng)
                     in Inr (a, mput (ng_Id ng) a (es_available st)))))"
  show ?thesis
  proof (cases cached)
    case (Inl err)
    then show ?thesis using assms(1) by (simp add: empty_node_step_def ng cached_def [symmetric])
  next
    case (Inr r)
    then obtain a av where c: "cached = Inr (a, av)" by (cases r) auto
    have av: "groups_inv cp av (es_result st)" "mget av (ng_Id ng) = Some a"
      using c inv(1) groups_inv_cache [OF inv(1) assms(3) Some]
      by (auto simp: cached_def Let_def split: option.splits sum.splits)
    have step: "empty_node_step template cp rs st n =
        (if a > 0 then
           (case computeScaleDownResourcesDelta template n (Some ng) rs of
              Inl _ \<Rightarrow> st\<lparr>es_available := av\<rparr>
            | Inr delta \<Rightarrow>
                (case tryDecrementLimitsByDelta (es_limits st) delta of
                   (exceeded, limits') \<Rightarrow>
                     if exceeded \<noteq> [] then st\<lparr>es_available := av, es_limits := limits'\<rparr>
                     else \<lparr>es_available = mput (ng_Id ng) (a - 1) av,
                           es_limits = limits', es_result = es_result st @ [n]\<rparr>))
         else st\<lparr>es_available := av\<rparr>)"
      by (simp add: empty_node_step_def ng cached_def [symmetric] c Let_def)
    have same: "empty_inv template cp rs lims (st\<lparr>es_available := av\<rparr>)"
      using av inv(2) by (simp add: empty_inv_iff)
    show ?thesis
    proof (cases "a > 0")
      case False
      then show ?thesis using same by (simp add: step)
    next
      case pos: True
      show ?thesis
      proof (cases "computeScaleDownResourcesDelta template n (Some ng) rs")
        case (Inl err)
        then show ?thesis using same by (simp add: step)
      next
        case delta: (Inr delta)
        obtain e lims2 where t: "tryDecrementLimitsByDelta (es_limits st) delta = (e, lims2)"
          by (cases "tryDecrementLimitsByDelta (es_limits st) delta")
        show ?thesis
        proof (cases "e = []")
          case True
          then have "limits_inv template cp rs lims lims2 (es_result st @ [n])"
            using limits_inv_take [OF inv(2) assms(2) _ t [unfolded True]] delta Some by simp
          then show ?thesis
            using groups_inv_take [OF av(1) Some av(2) pos] pos delta t True
            by (simp add: step empty_inv_iff)
        next
          case False
          then have "lims2 = es_limits st" using tryDecrement_exceeded [OF t] by blast
          then show ?thesis using same pos delta t False by (simp add: step empty_inv_iff)
        qed
      qed
    qed
  qed
qed

lemma empty_loop_inv:
  assumes "templates_ok template" "groups_named cp" "\<And>r L. mget lims r = Some L \<Longrightarrow> in_i64 L"
  shows "empty_inv template cp rs lims
     (foldl (empty_node_step template cp rs) \<lparr>es_available = [], es_limits = lims, es_result = []\<rparr> ns)"
proof (induction ns rule: rev_induct)
  case Nil
  show ?case using assms(3) by (simp add: empty_inv_def members_def)
next
  case (snoc n ns)
  then show ?case using empty_inv_step [OF _ assms(1,2)] by simp
qed

section \<open>Properties of the empty nodes chosen\<close>

lemma members_take: "members cp g (take k ns) \<le> members cp g ns"
proof -
  have "members cp g ns = members cp g (take k ns @ drop k ns)" by simp
  then show ?thesis by (simp only: members_def filter_append length_append of_nat_add)
qed

lemma sum_take_le:
  assumes "\<And>n. 0 \<le> (f n :: int)"
  shows "sum_list (map f (take k ns)) \<le> sum_list (map f ns)"
proof -
  have "sum_list (map f ns) = sum_list (map f (take k ns @ drop k ns))" by simp
  then have "sum_list (map f ns) = sum_list (map f (take k ns)) + sum_list (map f (drop k ns))"
    by (simp only: map_append sum_list_append)
  moreover have "0 \<le> sum_list (map f (drop k ns))" using assms by (intro sum_list_nonneg) auto
  ultimately show ?thesis by simp
qed

lemma getEmptyNodes_take:
  assumes "getEmptyNodes template as_sel now candidates pods maxBulk lims cp = Some ns"
  obtains st k where "ns = take k (es_result st)" "int k \<le> maxBulk"
    "st = foldl (empty_node_step template cp (sort (mkeys lims)))
       \<lparr>es_available = [], es_limits = lims, es_result = []\<rparr> (FindEmptyNodesToRemove as_sel now candidates pods)"
proof -
  define st where "st = foldl (empty_node_step template cp (sort (mkeys lims)))
     \<lparr>es_available = [], es_limits = lims, es_result = []\<rparr> (FindEmptyNodesToRemove as_sel now candidates pods)"
  define limit where "limit = (if int (length (es_result st)) < maxBulk then int (length (es_result st)) else maxBulk)"
  have "(if limit < 0 then None else Some (take (nat limit) (es_result st))) = Some ns"
    using assms by (simp only: getEmptyNodes_def Let_def st_def limit_def)
  then have "0 \<le> limit" "ns = take (nat limit) (es_result st)" by (auto split: if_splits)
  moreover from this have "int (nat limit) \<le> maxBulk" by (simp add: limit_def)
  ultimately show thesis using that st_def by blast
qed

lemma es_result_step: "set (es_result (empty_node_step template cp rs st n)) \<subseteq> insert n (set (es_result st))"
  by (auto simp: empty_node_step_def Let_def split: sum.splits option.splits prod.splits if_splits)

lemma es_result_subset:
  "set (es_result (foldl (empty_node_step template cp rs) st ns)) \<subseteq> set (es_result st) \<union> set ns"
proof (induction ns arbitrary: st)
  case (Cons n ns)
  show ?case using Cons.IH [of "empty_node_step template cp rs st n"] es_result_step [of template cp rs st n]
    by auto
qed simp

text \<open>
  C37: Empty nodes leave the minimum sizes intact.  The nodes \<open>getEmptyNodes\<close> picks for deletion
  at the same time are candidates with nothing to move, at most \<open>maxEmptyBulkDelete\<close> of them,
  and no node group is left with fewer nodes than its minimum by deleting them all.
\<close>

theorem empty_nodes_respect_group_minimum:
  assumes "getEmptyNodes template as_sel now candidates pods maxBulk lims cp = Some ns"
    and "templates_ok template" "groups_named cp" "\<And>r L. mget lims r = Some L \<Longrightarrow> in_i64 L"
  shows "set ns \<subseteq> set (FindEmptyNodesToRemove as_sel now candidates pods) \<and> int (length ns) \<le> maxBulk \<and>
     (\<forall>n ng. group_of cp n = Some ng \<longrightarrow> members cp (ng_Id ng) ns \<le> removable_count ng)"
proof -
  obtain st k where ns: "ns = take k (es_result st)" "int k \<le> maxBulk" and
    st: "st = foldl (empty_node_step template cp (sort (mkeys lims)))
       \<lparr>es_available = [], es_limits = lims, es_result = []\<rparr> (FindEmptyNodesToRemove as_sel now candidates pods)"
    by (rule getEmptyNodes_take [OF assms(1)])
  have "groups_inv cp (es_available st) (es_result st)"
    using empty_loop_inv [OF assms(2-4)] by (simp add: empty_inv_iff st)
  then have "members cp (ng_Id ng) (es_result st) \<le> removable_count ng" if "group_of cp n = Some ng" for n ng
    using groups_invD [OF _ that, of "es_available st" "es_result st"]
    by (auto simp: removable_count_def split: option.splits sum.splits)
  then have "members cp (ng_Id ng) ns \<le> removable_count ng" if "group_of cp n = Some ng" for n ng
    using that members_take [of cp "ng_Id ng" k "es_result st"] unfolding ns(1) by (meson order_trans)
  moreover have "set ns \<subseteq> set (es_result st)" by (simp add: ns(1) set_take_subset)
  then have "set ns \<subseteq> set (FindEmptyNodesToRemove as_sel now candidates pods)"
    using es_result_subset unfolding st by fastforce
  ultimately show ?thesis using ns by auto
qed

definition pool_group :: nodeGroup where
  "pool_group = sized_group ''pool'' 3 9\<lparr>ng_MinSize := 2\<rparr>"

definition pool_provider :: cloudProvider where
  "pool_provider = \<lparr>cp_NodeGroups = [pool_group], cp_NodeGroupForNode = \<lambda>_. Inr (Some pool_group)\<rparr>"

definition sized_node :: "string \<Rightarrow> int \<Rightarrow> node" where
  "sized_node name cores = empty_node\<lparr>n_Name := name, n_Capacity := [(''cpu'', NewQuantity cores)]\<rparr>"

lemma pool_provider_ok: "groups_named pool_provider" "templates_ok (\<lambda>_. Inl '''')"
  by (simp_all add: groups_named_def pool_provider_def group_of_def templates_ok_def)

lemma demo_limits_ok: "mget [(''cpu'', 6)] r = Some L \<Longrightarrow> in_i64 L"
  by (simp add: in_i64_def minInt64_def maxInt64_def split: if_splits)

lemma demo_empty_nodes:
  "\<exists>ns. getEmptyNodes (\<lambda>_. Inl '''') label_selector 0 [sized_node ''n1'' 4, sized_node ''n2'' 4] [] 10
     [(''cpu'', 6)] pool_provider = Some ns"
  by (simp add: getEmptyNodes_def Let_def)

lemma empty_nodes_respect_group_minimum_witness:
  "\<exists>ns. getEmptyNodes (\<lambda>_. Inl '''') label_selector 0 [sized_node ''n1'' 4, sized_node ''n2'' 4] [] 10
       [(''cpu'', 6)] pool_provider = Some ns \<and>
     members pool_provider ''pool'' ns \<le> 1"
proof -
  obtain ns where ns: "getEmptyNodes (\<lambda>_. Inl '''') label_selector 0 [sized_node ''n1'' 4, sized_node ''n2'' 4] []
      10 [(''cpu'', 6)] pool_provider = Some ns" using demo_empty_nodes by blast
  have "set ns \<subseteq> set (FindEmptyNodesToRemove label_selector 0 [sized_node ''n1'' 4, sized_node ''n2'' 4] []) \<and>
      int (length ns) \<le> 10 \<and>
      (\<forall>n ng. group_of pool_provider n = Some ng \<longrightarrow> members pool_provider (ng_Id ng) ns \<le> removable_count ng)"
    by (rule empty_nodes_respect_group_minimum [OF ns pool_provider_ok(2,1)]) (rule demo_limits_ok)
  moreover have "group_of pool_provider (sized_node ''n1'' 4) = Some pool_group"
    by (simp add: group_of_def pool_provider_def)
  ultimately have "members pool_provider (ng_Id pool_group) ns \<le> removable_count pool_group" by blast
  then show ?thesis using ns by (auto simp: pool_group_def sized_group_def removable_count_def)
qed

text \<open>
  Empty nodes leave the resource limits intact.  For every limited resource, the picked nodes
  together take at most what the limit leaves; when the limit is zero or unknown they take none.
\<close>

theorem empty_nodes_within_limits:
  assumes "getEmptyNodes template as_sel now candidates pods maxBulk lims cp = Some ns"
    and "templates_ok template" "groups_named cp" "\<And>r L. mget lims r = Some L \<Longrightarrow> in_i64 L"
    and "mget lims r = Some L"
  shows "sum_list (map (\<lambda>n. node_delta template cp (sort (mkeys lims)) n r) ns) \<le> max 0 L"
proof -
  obtain st k where ns: "ns = take k (es_result st)" and
    st: "st = foldl (empty_node_step template cp (sort (mkeys lims)))
       \<lparr>es_available = [], es_limits = lims, es_result = []\<rparr> (FindEmptyNodesToRemove as_sel now candidates pods)"
    by (rule getEmptyNodes_take [OF assms(1)])
  have "limits_inv template cp (sort (mkeys lims)) lims (es_limits st) (es_result st)"
    using empty_loop_inv [OF assms(2-4)] by (simp add: empty_inv_iff st)
  then have "0 < sum_list (map (\<lambda>n. node_delta template cp (sort (mkeys lims)) n r) (es_result st)) \<longrightarrow>
      sum_list (map (\<lambda>n. node_delta template cp (sort (mkeys lims)) n r) (es_result st)) \<le> L"
    using assms(5) unfolding limits_inv_def Let_def by blast
  then have "sum_list (map (\<lambda>n. node_delta template cp (sort (mkeys lims)) n r) (es_result st)) \<le> max 0 L"
    by linarith
  moreover have "sum_list (map (\<lambda>n. node_delta template cp (sort (mkeys lims)) n r) ns) \<le>
      sum_list (map (\<lambda>n. node_delta template cp (sort (mkeys lims)) n r) (es_result st))"
    unfolding ns by (intro sum_take_le node_delta_nonneg assms(2))
  ultimately show ?thesis by (rule order_trans [rotated])
qed

lemma empty_nodes_within_limits_witness:
  "\<exists>ns. getEmptyNodes (\<lambda>_. Inl '''') label_selector 0 [sized_node ''n1'' 4, sized_node ''n2'' 4] [] 10
       [(''cpu'', 6)] pool_provider = Some ns \<and>
     sum_list (map (\<lambda>n. node_delta (\<lambda>_. Inl '''') pool_provider [''cpu''] n ''cpu'') ns) \<le> 6"
proof -
  obtain ns where ns: "getEmptyNodes (\<lambda>_. Inl '''') label_selector 0 [sized_node ''n1'' 4, sized_node ''n2'' 4] []
      10 [(''cpu'', 6)] pool_provider = Some ns" using demo_empty_nodes by blast
  have "sum_list (map (\<lambda>n. node_delta (\<lambda>_. Inl '''') pool_provider (sort (mkeys [(''cpu'', 6 :: int)])) n ''cpu'') ns) \<le> max 0 6"
    by (rule empty_nodes_within_limits [OF ns pool_provider_ok(2,1)]) (rule demo_limits_ok, assumption, simp)
  then show ?thesis using ns by (simp add: mkeys_def)
qed

end
