(* ===== verification/NodeDeletion.thy ===== *)
theory NodeDeletion
  imports ScaleDownLimits ClusterState
begin

text \<open>
  The deletion of a node: the retry loops of \<open>utils/deletetaint/delete.go\<close> that write and remove
  the taint, and \<open>evictPod\<close>, \<open>drainNode\<close>, \<open>deleteNode\<close>, \<open>deleteNodeFromCloudProvider\<close>,
  \<open>scheduleDeleteEmptyNodes\<close> and \<open>waitForEmptyNodesDeleted\<close> of \<open>core/scale_down.go\<close>.

  What the API server answers to the \<open>k\<close>-th attempt of a loop, and what \<open>time.Now()\<close> reads when
  the loop checks its deadline after it, are functions of \<open>k\<close>.  A loop is a
  \<open>partial_function (option)\<close>: \<open>None\<close> means that it does not end.
\<close>

section \<open>Retry loops\<close>

text \<open>\<open>attempt k\<close> is the result that ends the loop, or \<open>None\<close> when there is another round.\<close>

partial_function (option) retry :: "(nat \<Rightarrow> 'r option) \<Rightarrow> nat \<Rightarrow> 'r option" where
  "retry attempt k = (case attempt k of Some r \<Rightarrow> Some r | None \<Rightarrow> retry attempt (k + 1))"

lemma retry_first:
  "attempt n = Some r \<Longrightarrow> k \<le> n \<Longrightarrow> (\<And>i. k \<le> i \<Longrightarrow> i < n \<Longrightarrow> attempt i = None) \<Longrightarrow> retry attempt k = Some r"
proof (induction "n - k" arbitrary: k)
  case 0
  then show ?case by (subst retry.simps) simp
next
  case (Suc d)
  then have "attempt k = None" by simp
  moreover have "retry attempt (k + 1) = Some r" using Suc by (intro Suc.hyps(1)) auto
  ultimately show ?case by (subst retry.simps) simp
qed

lemma retry_ends:
  assumes "attempt n \<noteq> None"
  obtains m r where "m \<le> n" "retry attempt 0 = Some r" "attempt m = Some r" "\<forall>i<m. attempt i = None"
proof -
  define m where "m = (LEAST i. attempt i \<noteq> None)"
  have m: "attempt m \<noteq> None" "m \<le> n" unfolding m_def using assms by (auto intro: LeastI Least_le)
  moreover have less: "attempt i = None" if "i < m" for i
    using not_less_Least [of i "\<lambda>i. attempt i \<noteq> None"] that by (auto simp: m_def)
  ultimately obtain r where "attempt m = Some r" by auto
  moreover from this have "retry attempt 0 = Some r" using retry_first [of attempt m r 0] less by simp
  ultimately show thesis using that m less by blast
qed

section \<open>The taint\<close>

datatype updateAnswer = Updated | UpdateConflict | UpdateFailed string

record nodeApi =
  na_Get :: "nat \<Rightarrow> string + node option"
  na_Update :: "nat \<Rightarrow> node \<Rightarrow> updateAnswer"
  na_Now :: "nat \<Rightarrow> time"

definition maxRetryDeadline :: duration where
  "maxRetryDeadline = 5 * second"

text \<open>
  One round of \<open>MarkToBeDeleted\<close>: the error it returns and the node it wrote.  \<open>taint_now\<close> is the
  time in the taint.
\<close>

definition mark_attempt ::
  "nodeApi \<Rightarrow> string \<Rightarrow> time \<Rightarrow> (nat \<Rightarrow> time) \<Rightarrow> nat \<Rightarrow> (string option \<times> node option) option" where
  "mark_attempt api nodeName retryDeadline taint_now k =
     (case na_Get api k of
        Inr (Some freshNode) \<Rightarrow>
          (case addToBeDeletedTaint (taint_now k) freshNode of
             (tainted, added) \<Rightarrow>
               if \<not> added then Some (None, None)
               else
                 (case na_Update api k tainted of
                    Updated \<Rightarrow> Some (None, Some tainted)
                  | UpdateConflict \<Rightarrow>
                      if time_before (na_Now api k) retryDeadline then None
                      else Some (Some ''conflict'', None)
                  | UpdateFailed err \<Rightarrow> Some (Some err, None)))
      | _ \<Rightarrow> Some (Some (''failed to get node '' @ nodeName), None))"

definition MarkToBeDeleted ::
  "nodeApi \<Rightarrow> time \<Rightarrow> (nat \<Rightarrow> time) \<Rightarrow> node \<Rightarrow> (string option \<times> node option) option" where
  "MarkToBeDeleted api start taint_now n =
     retry (mark_attempt api (n_Name n) (time_add start maxRetryDeadline) taint_now) 0"

definition clean_attempt ::
  "nodeApi \<Rightarrow> string \<Rightarrow> time \<Rightarrow> nat \<Rightarrow> (bool \<times> string option \<times> node option) option" where
  "clean_attempt api nodeName retryDeadline k =
     (case na_Get api k of
        Inr (Some freshNode) \<Rightarrow>
          (case removeToBeDeletedTaint freshNode of
             (cleaned, found_taint) \<Rightarrow>
               if \<not> found_taint then Some (False, None, None)
               else
                 (case na_Update api k cleaned of
                    Updated \<Rightarrow> Some (True, None, Some cleaned)
                  | UpdateConflict \<Rightarrow>
                      if time_before (na_Now api k) retryDeadline then None
                      else Some (False, Some ''conflict'', None)
                  | UpdateFailed err \<Rightarrow> Some (False, Some err, None)))
      | _ \<Rightarrow> Some (False, Some (''failed to get node '' @ nodeName), None))"

definition CleanToBeDeleted ::
  "nodeApi \<Rightarrow> time \<Rightarrow> node \<Rightarrow> (bool \<times> string option \<times> node option) option" where
  "CleanToBeDeleted api start n =
     retry (clean_attempt api (n_Name n) (time_add start maxRetryDeadline)) 0"

section \<open>Evictions\<close>

datatype evictAnswer = Evicted | EvictNotFound | EvictFailed string

definition DefaultTerminationGracePeriodSeconds :: int where
  "DefaultTerminationGracePeriodSeconds = 30"

definition grace_period :: "pod \<Rightarrow> int \<Rightarrow> int" where
  "grace_period p maxGracefulTerminationSec =
     (case pod_TerminationGracePeriodSeconds p of
        None \<Rightarrow> DefaultTerminationGracePeriodSeconds
      | Some s \<Rightarrow> if s < maxGracefulTerminationSec then s else maxGracefulTerminationSec)"

text \<open>
  The round \<open>k\<close> of \<open>evictPod\<close>: \<open>answer grace k\<close> is the API server's answer to the eviction with
  that grace period, \<open>now k\<close> the time read when the loop decides on another round.
\<close>

definition evict_attempt ::
  "(int \<Rightarrow> nat \<Rightarrow> evictAnswer) \<Rightarrow> (nat \<Rightarrow> time) \<Rightarrow> pod \<Rightarrow> int \<Rightarrow> time \<Rightarrow> nat \<Rightarrow> string option option" where
  "evict_attempt answer now p maxGracefulTerminationSec retryUntil k =
     (case answer (grace_period p maxGracefulTerminationSec) k of
        Evicted \<Rightarrow> Some None
      | EvictNotFound \<Rightarrow> Some None
      | EvictFailed err \<Rightarrow>
          if time_before (now k) retryUntil then None
          else Some (Some (''Failed to evict pod '' @ pod_Namespace p @ ''/'' @ pod_Name p @
                 '' within allowed timeout (last error: '' @ err @ '')'')))"

definition evictPod ::
  "(int \<Rightarrow> nat \<Rightarrow> evictAnswer) \<Rightarrow> (nat \<Rightarrow> time) \<Rightarrow> pod \<Rightarrow> int \<Rightarrow> time \<Rightarrow> string option option" where
  "evictPod answer now p maxGracefulTerminationSec retryUntil =
     retry (evict_attempt answer now p maxGracefulTerminationSec retryUntil) 0"

section \<open>Draining\<close>

text \<open>
  Collecting the confirmations of the evictions: \<open>Some r\<close> is a confirmation with its error,
  \<open>None\<close> the timeout, which ends the collection.
\<close>

fun collect_confirmations :: "string option option list \<Rightarrow> string list \<Rightarrow> string list option" where
  "collect_confirmations [] errs = Some errs"
| "collect_confirmations (c # cs) errs =
     (case c of
        None \<Rightarrow> None
      | Some None \<Rightarrow> collect_confirmations cs errs
      | Some (Some err) \<Rightarrow> collect_confirmations cs (errs @ [err]))"

text \<open>\<open>%v\<close> of a slice of errors.\<close>

fun join_words :: "string list \<Rightarrow> string" where
  "join_words [] = ''''"
| "join_words [w] = w"
| "join_words (w # ws) = w @ '' '' @ join_words ws"

definition fmt_errors :: "string list \<Rightarrow> string" where
  "fmt_errors errs = ''['' @ join_words errs @ '']''"

text \<open>What a look-up of an evicted pod answers: not found, another error, nil, or its node's name.\<close>

datatype podAnswer = PodNotFound | PodError string | PodNil | PodOn string

definition pod_gone :: "string \<Rightarrow> podAnswer \<Rightarrow> bool" where
  "pod_gone nodeName a \<longleftrightarrow> \<not> (a = PodNil \<or> a = PodOn nodeName) \<and> (\<forall>err. a \<noteq> PodError err)"

definition PodEvictionHeadroom :: duration where "PodEvictionHeadroom = 30 * second"
definition MaxPodEvictionTime :: duration where "MaxPodEvictionTime = 2 * minute"
definition EvictionRetryTime :: duration where "EvictionRetryTime = 10 * second"

text \<open>
  The wait for the pods to disappear; round \<open>k\<close> starts when \<open>elapsed k\<close> has passed, and looks the
  pods up with \<open>lookup k\<close>.
\<close>

definition gone_attempt ::
  "(nat \<Rightarrow> duration) \<Rightarrow> (nat \<Rightarrow> pod \<Rightarrow> podAnswer) \<Rightarrow> string \<Rightarrow> pod list \<Rightarrow> int \<Rightarrow> nat \<Rightarrow> bool option" where
  "gone_attempt elapsed lookup nodeName pods maxGracefulTerminationSec k =
     (if elapsed k < maxGracefulTerminationSec * second + PodEvictionHeadroom then
        (if list_all (\<lambda>p. pod_gone nodeName (lookup k p)) pods then Some True else None)
      else Some False)"

definition drainNode ::
  "string option option list \<Rightarrow> (nat \<Rightarrow> duration) \<Rightarrow> (nat \<Rightarrow> pod \<Rightarrow> podAnswer) \<Rightarrow> node \<Rightarrow> pod list \<Rightarrow> int \<Rightarrow>
     autoscalerError option option" where
  "drainNode confirmations elapsed lookup n pods maxGracefulTerminationSec =
     (case collect_confirmations confirmations [] of
        None \<Rightarrow> Some (Some (NewAutoscalerError ApiCallError
                  (''Failed to drain node /'' @ n_Name n @ '': timeout when waiting for creating evictions'')))
      | Some errs \<Rightarrow>
          if errs \<noteq> [] then
            Some (Some (NewAutoscalerError ApiCallError
              (''Failed to drain node /'' @ n_Name n @ '', due to following errors: '' @ fmt_errors errs)))
          else
            (case retry (gone_attempt elapsed lookup (n_Name n) pods maxGracefulTerminationSec) 0 of
               None \<Rightarrow> None
             | Some True \<Rightarrow> Some None
             | Some False \<Rightarrow> Some (Some (NewAutoscalerError TransientError
                   (''Failed to drain node /'' @ n_Name n @ '': pods remaining after timeout'')))))"

section \<open>Deletion\<close>

text \<open>What a deletion does to the world outside, in order.\<close>

datatype deletionStep = Mark string | DrainPods string "pod list" | ProviderDelete string string | Clean string

text \<open>\<open>deleteNodes\<close> is the node group's answer, an error or \<open>None\<close>.\<close>

definition deleteNodeFromCloudProvider ::
  "cloudProvider \<Rightarrow> (nodeGroup \<Rightarrow> node \<Rightarrow> string option) \<Rightarrow> time \<Rightarrow> node \<Rightarrow> clusterStateRegistry \<Rightarrow>
     autoscalerError option \<times> clusterStateRegistry \<times> deletionStep list" where
  "deleteNodeFromCloudProvider cp deleteNodes now n registry =
     (case cp_NodeGroupForNode cp n of
        Inl err \<Rightarrow> (Some (NewAutoscalerError CloudProviderError
                    (''failed to find node group for '' @ n_Name n @ '': '' @ err)), registry, [])
      | Inr None \<Rightarrow> (Some (NewAutoscalerError InternalError
                    (''picked node that doesn't belong to a node group: '' @ n_Name n)), registry, [])
      | Inr (Some ng) \<Rightarrow>
          (case deleteNodes ng n of
             Some err \<Rightarrow> (Some (NewAutoscalerError CloudProviderError
                    (''failed to delete '' @ n_Name n @ '': '' @ err)), registry,
                    [ProviderDelete (ng_Id ng) (n_Name n)])
           | None \<Rightarrow>
               (None,
                RegisterScaleDown \<lparr>sdr_NodeName = n_Name n, sdr_NodeGroup = ng, sdr_Time = now,
                   sdr_ExpectedDeleteTime = time_add now MaxCloudProviderNodeDeletionTime\<rparr> registry,
                [ProviderDelete (ng_Id ng) (n_Name n)])))"

text \<open>\<open>mark\<close> and \<open>drain\<close> are the results of \<open>MarkToBeDeleted\<close> and \<open>drainNode\<close>.\<close>

definition deleteNode ::
  "(node \<Rightarrow> string option) \<Rightarrow> (node \<Rightarrow> pod list \<Rightarrow> autoscalerError option) \<Rightarrow> cloudProvider \<Rightarrow>
     (nodeGroup \<Rightarrow> node \<Rightarrow> string option) \<Rightarrow> time \<Rightarrow> node \<Rightarrow> pod list \<Rightarrow> clusterStateRegistry \<Rightarrow>
     autoscalerError option \<times> clusterStateRegistry \<times> deletionStep list" where
  "deleteNode mark drain cp deleteNodes now n pods registry =
     (case mark n of
        Some err \<Rightarrow> (Some (NewAutoscalerError ApiCallError err), registry, [Mark (n_Name n)])
      | None \<Rightarrow>
          (case drain n pods of
             Some err \<Rightarrow> (Some err, registry, [Mark (n_Name n), DrainPods (n_Name n) pods, Clean (n_Name n)])
           | None \<Rightarrow>
               (case deleteNodeFromCloudProvider cp deleteNodes now n registry of
                  (Some err, registry', steps) \<Rightarrow>
                    (Some err, registry',
                     [Mark (n_Name n), DrainPods (n_Name n) pods] @ steps @ [Clean (n_Name n)])
                | (None, registry', steps) \<Rightarrow>
                    (None, registry', [Mark (n_Name n), DrainPods (n_Name n) pods] @ steps))))"

text \<open>The goroutine of one empty node.\<close>

definition delete_empty_node ::
  "(node \<Rightarrow> string option) \<Rightarrow> cloudProvider \<Rightarrow> (nodeGroup \<Rightarrow> node \<Rightarrow> string option) \<Rightarrow> time \<Rightarrow> node \<Rightarrow>
     clusterStateRegistry \<Rightarrow> autoscalerError option \<times> clusterStateRegistry \<times> deletionStep list" where
  "delete_empty_node mark cp deleteNodes now n registry =
     (case mark n of
        Some err \<Rightarrow> (Some (NewAutoscalerError ApiCallError err), registry, [Mark (n_Name n)])
      | None \<Rightarrow>
          (case deleteNodeFromCloudProvider cp deleteNodes now n registry of
             (Some err, registry', steps) \<Rightarrow> (Some err, registry', Mark (n_Name n) # steps @ [Clean (n_Name n)])
           | (None, registry', steps) \<Rightarrow> (None, registry', Mark (n_Name n) # steps)))"

text \<open>
  Waiting for the goroutines: each entry is the time elapsed at the start of a round and what the
  round selects, a confirmation (\<open>Some\<close>) or the timeout (\<open>None\<close>).
\<close>

definition deletion_timeout :: autoscalerError where
  "deletion_timeout = NewAutoscalerError TransientError ''Failed to delete nodes in time''"

fun wait_loop ::
  "(duration \<times> autoscalerError option option) list \<Rightarrow> autoscalerError option \<Rightarrow> autoscalerError option" where
  "wait_loop [] finalError = finalError"
| "wait_loop ((timeElapsed, event) # rest) finalError =
     (if MaxCloudProviderNodeDeletionTime - timeElapsed < 0 then Some deletion_timeout
      else
        (case event of
           Some (Some err) \<Rightarrow> wait_loop rest (Some err)
         | Some None \<Rightarrow> wait_loop rest finalError
         | None \<Rightarrow> wait_loop rest (Some deletion_timeout)))"

definition waitForEmptyNodesDeleted ::
  "(duration \<times> autoscalerError option option) list \<Rightarrow> autoscalerError option" where
  "waitForEmptyNodesDeleted rounds = wait_loop rounds None"

section \<open>Properties\<close>

lemma taints_changed:
  "length (filter P xs) = length xs \<longleftrightarrow> (\<forall>x\<in>set xs. P x)"
  by (auto dest: length_filter_less)

text \<open>
  Marking a node ends and leaves it tainted.  If the clock passes the deadline, the loop of
  \<open>MarkToBeDeleted\<close> ends; when it returns no error, the node was found with the taint or the last
  write succeeded and the node written has it.
\<close>

theorem MarkToBeDeleted_ends_tainted:
  assumes "\<not> time_before (na_Now api k) (time_add start maxRetryDeadline)"
  shows "\<exists>err written. MarkToBeDeleted api start taint_now n = Some (err, written) \<and>
     (err = None \<longrightarrow>
        (\<exists>m\<le>k. \<exists>fresh. na_Get api m = Inr (Some fresh) \<and>
           (HasToBeDeletedTaint fresh \<and> written = None \<or>
            (\<exists>tainted. written = Some tainted \<and> HasToBeDeletedTaint tainted \<and>
               n_Taints fresh = butlast (n_Taints tainted) \<and> na_Update api m tainted = Updated))))"
proof -
  let ?a = "mark_attempt api (n_Name n) (time_add start maxRetryDeadline) taint_now"
  have "?a k \<noteq> None"
    using assms by (auto simp: mark_attempt_def split: sum.splits option.splits prod.splits updateAnswer.splits)
  then obtain m res where m: "m \<le> k" "retry ?a 0 = Some res" "?a m = Some res" "\<forall>i<m. ?a i = None"
    by (rule retry_ends)
  obtain err written where res: "res = (err, written)" by (cases res)
  note r = m(3) [unfolded res]
  have "err = None \<Longrightarrow> \<exists>fresh. na_Get api m = Inr (Some fresh) \<and>
      (HasToBeDeletedTaint fresh \<and> written = None \<or>
       (\<exists>tainted. written = Some tainted \<and> HasToBeDeletedTaint tainted \<and>
          n_Taints fresh = butlast (n_Taints tainted) \<and> na_Update api m tainted = Updated))"
    using r HasToBeDeletedTaint_add
    by (auto simp: mark_attempt_def addToBeDeletedTaint_def HasToBeDeletedTaint_def list_ex_iff
        split: sum.splits option.splits prod.splits updateAnswer.splits if_splits)
  then show ?thesis using m(1,2) unfolding MarkToBeDeleted_def res by blast
qed

definition quick_api :: nodeApi where
  "quick_api = \<lparr>na_Get = \<lambda>k. Inr (Some empty_node),
     na_Update = \<lambda>k n. if k = 0 then UpdateConflict else Updated, na_Now = \<lambda>k. int k * 750000000\<rparr>"

lemma MarkToBeDeleted_ends_tainted_witness:
  "\<exists>err written. MarkToBeDeleted quick_api 0 (\<lambda>k. 0) empty_node = Some (err, written)"
proof -
  have "\<not> time_before (na_Now quick_api 7) (time_add 0 maxRetryDeadline)"
    by (simp add: quick_api_def time_defs maxRetryDeadline_def second_def)
  from MarkToBeDeleted_ends_tainted [OF this] show ?thesis by blast
qed

text \<open>
  Releasing a node ends and leaves no taint.  If the clock passes the deadline, the loop of
  \<open>CleanToBeDeleted\<close> ends; without an error the node either had no such taint or was written
  without it, its other taints in their order.
\<close>

theorem CleanToBeDeleted_ends_clean:
  assumes "\<not> time_before (na_Now api k) (time_add start maxRetryDeadline)"
  shows "\<exists>cleaned err written. CleanToBeDeleted api start n = Some (cleaned, err, written) \<and>
     (err = None \<longrightarrow>
        (\<exists>m\<le>k. \<exists>fresh. na_Get api m = Inr (Some fresh) \<and> cleaned = HasToBeDeletedTaint fresh \<and>
           written = (if cleaned then
              Some (fresh\<lparr>n_Taints := filter (\<lambda>t. t_Key t \<noteq> ToBeDeletedTaint) (n_Taints fresh)\<rparr>) else None)))"
proof -
  let ?a = "clean_attempt api (n_Name n) (time_add start maxRetryDeadline)"
  have "?a k \<noteq> None"
    using assms by (auto simp: clean_attempt_def split: sum.splits option.splits prod.splits updateAnswer.splits)
  then obtain m res where m: "m \<le> k" "retry ?a 0 = Some res" "?a m = Some res" "\<forall>i<m. ?a i = None"
    by (rule retry_ends)
  obtain cleaned err written where res: "res = (cleaned, err, written)" by (cases res)
  note r = m(3) [unfolded res]
  have "err = None \<Longrightarrow> \<exists>fresh. na_Get api m = Inr (Some fresh) \<and> cleaned = HasToBeDeletedTaint fresh \<and>
      written = (if cleaned then
         Some (fresh\<lparr>n_Taints := filter (\<lambda>t. t_Key t \<noteq> ToBeDeletedTaint) (n_Taints fresh)\<rparr>) else None)"
    using r
    by (auto simp: clean_attempt_def removeToBeDeletedTaint_def HasToBeDeletedTaint_def list_ex_iff Let_def taints_changed
        split: sum.splits option.splits prod.splits updateAnswer.splits if_splits)
  then show ?thesis using m(1,2) unfolding CleanToBeDeleted_def res by blast
qed

lemma CleanToBeDeleted_ends_clean_witness:
  "\<exists>cleaned err written. CleanToBeDeleted quick_api 0 empty_node = Some (cleaned, err, written)"
proof -
  have "\<not> time_before (na_Now quick_api 7) (time_add 0 maxRetryDeadline)"
    by (simp add: quick_api_def time_defs maxRetryDeadline_def second_def)
  from CleanToBeDeleted_ends_clean [OF this] show ?thesis by blast
qed

text \<open>
  Evicting a pod ends.  If the clock passes \<open>retryUntil\<close>, \<open>evictPod\<close> returns: without error
  exactly when some attempt, at the latest the first one decided after \<open>retryUntil\<close>, was
  answered by success or by the pod being gone, and until then every attempt failed.
\<close>

theorem evictPod_ends:
  assumes "\<not> time_before (now k) retryUntil"
  shows "\<exists>r m. evictPod answer now p maxSec retryUntil = Some r \<and> m \<le> k \<and>
     (r = None \<longleftrightarrow> answer (grace_period p maxSec) m = Evicted \<or> answer (grace_period p maxSec) m = EvictNotFound) \<and>
     (r \<noteq> None \<longrightarrow> \<not> time_before (now m) retryUntil) \<and>
     (\<forall>i<m. (\<exists>err. answer (grace_period p maxSec) i = EvictFailed err) \<and> time_before (now i) retryUntil)"
proof -
  let ?a = "evict_attempt answer now p maxSec retryUntil"
  have "?a k \<noteq> None" using assms by (simp add: evict_attempt_def split: evictAnswer.split)
  then obtain m r where m: "m \<le> k" "retry ?a 0 = Some r" and r: "?a m = Some r" and
    less: "\<forall>i<m. ?a i = None" by (rule retry_ends)
  have "(\<exists>err. answer (grace_period p maxSec) i = EvictFailed err) \<and> time_before (now i) retryUntil" if "i < m" for i
  proof -
    have "?a i = None" using less that by blast
    then show ?thesis by (auto simp: evict_attempt_def split: evictAnswer.splits if_splits)
  qed
  moreover have "r = None \<longleftrightarrow> answer (grace_period p maxSec) m = Evicted \<or> answer (grace_period p maxSec) m = EvictNotFound"
    "r \<noteq> None \<longrightarrow> \<not> time_before (now m) retryUntil"
    using r by (auto simp: evict_attempt_def split: evictAnswer.splits if_splits)
  ultimately show ?thesis using m unfolding evictPod_def by blast
qed

lemma evictPod_ends_witness:
  "\<exists>r. evictPod (\<lambda>g k. if k < 3 then EvictFailed ''busy'' else Evicted) (\<lambda>k. int k * EvictionRetryTime)
     (plain_pod ''a'' ''p'') 600 MaxPodEvictionTime = Some r"
proof -
  have "\<not> time_before (int 12 * EvictionRetryTime) MaxPodEvictionTime"
    by (simp add: time_before_def EvictionRetryTime_def MaxPodEvictionTime_def duration_defs)
  from evictPod_ends [where now = "\<lambda>k. int k * EvictionRetryTime" and k = 12 and maxSec = 600
      and answer = "\<lambda>g k. if k < 3 then EvictFailed ''busy'' else Evicted" and p = "plain_pod ''a'' ''p''", OF this]
  obtain r m where "evictPod (\<lambda>g k. if k < 3 then EvictFailed ''busy'' else Evicted) (\<lambda>k. int k * EvictionRetryTime)
     (plain_pod ''a'' ''p'') 600 MaxPodEvictionTime = Some r" "m \<le> (12 :: nat)" by (elim exE conjE) (rule that)
  then show ?thesis by blast
qed

text \<open>
  The order of a deletion.  \<open>deleteNode\<close> first marks the node, drains it only if that
  worked, and asks the cloud provider only if the drain worked.  It returns no error exactly when
  the provider deleted the node, and only then a scale-down request is registered.  Every
  failure after the mark ends with the taint being cleaned, and no success does.
\<close>

theorem deleteNode_order:
  assumes "deleteNode mark drain cp deleteNodes now n pods registry = (err, registry', steps)"
  shows "hd steps = Mark (n_Name n) \<and>
     (DrainPods (n_Name n) pods \<in> set steps \<longleftrightarrow> mark n = None) \<and>
     ((\<exists>g. ProviderDelete g (n_Name n) \<in> set steps) \<longrightarrow> mark n = None \<and> drain n pods = None) \<and>
     (err = None \<longleftrightarrow> mark n = None \<and> drain n pods = None \<and>
        (\<exists>ng. cp_NodeGroupForNode cp n = Inr (Some ng) \<and> deleteNodes ng n = None)) \<and>
     (Clean (n_Name n) = last steps \<longleftrightarrow> mark n = None \<and> err \<noteq> None) \<and>
     csr_scaleDownRequests registry' = csr_scaleDownRequests registry @
       (case cp_NodeGroupForNode cp n of
          Inr (Some ng) \<Rightarrow>
            if err = None then [\<lparr>sdr_NodeName = n_Name n, sdr_NodeGroup = ng, sdr_Time = now,
              sdr_ExpectedDeleteTime = time_add now MaxCloudProviderNodeDeletionTime\<rparr>] else []
        | _ \<Rightarrow> [])"
  using assms
  by (cases "mark n"; cases "drain n pods")
     (auto simp: deleteNode_def deleteNodeFromCloudProvider_def RegisterScaleDown_def
      split: option.splits sum.splits prod.splits)

lemma deleteNode_order_witness:
  "\<forall>registry. last (snd (snd (deleteNode (\<lambda>n. None) (\<lambda>n ps. None) pool_provider (\<lambda>g n. Some ''quota'') 0
     (sized_node ''n1'' 4) [] registry))) = Clean ''n1''"
proof
  fix registry
  obtain e r s where d: "deleteNode (\<lambda>n. None) (\<lambda>n ps. None) pool_provider (\<lambda>g n. Some ''quota'') 0
      (sized_node ''n1'' 4) [] registry = (e, r, s)" by (metis prod_cases3)
  have "e \<noteq> None" using d by (auto simp: deleteNode_def deleteNodeFromCloudProvider_def pool_provider_def)
  then have "Clean (n_Name (sized_node ''n1'' 4)) = last s" using deleteNode_order [OF d] by blast
  moreover have "n_Name (sized_node ''n1'' 4) = ''n1''" by (simp add: sized_node_def)
  ultimately show "last (snd (snd (deleteNode (\<lambda>n. None) (\<lambda>n ps. None) pool_provider (\<lambda>g n. Some ''quota'') 0
      (sized_node ''n1'' 4) [] registry))) = Clean ''n1''" by (simp add: d)
qed

text \<open>
  A drain that succeeds has emptied the node.  \<open>drainNode\<close> returns no error only if every
  eviction was confirmed without an error and some later check found each pod gone, that is not
  found or on another node; otherwise it ends with an error once the time for graceful
  termination has passed.
\<close>

theorem drainNode_empties:
  assumes "\<not> elapsed k < maxSec * second + PodEvictionHeadroom"
  shows "\<exists>r. drainNode confirmations elapsed lookup n pods maxSec = Some r \<and>
     (r = None \<longleftrightarrow> (\<forall>c\<in>set confirmations. c = Some None) \<and>
        (\<exists>m<k. (\<forall>p\<in>set pods. pod_gone (n_Name n) (lookup m p)) \<and>
           (\<forall>i\<le>m. elapsed i < maxSec * second + PodEvictionHeadroom)))"
proof -
  have collect: "(\<forall>c\<in>set cs. c = Some None) \<longleftrightarrow> collect_confirmations cs [] = Some []" for cs
  proof -
    have "collect_confirmations cs errs = Some [] \<longleftrightarrow> errs = [] \<and> (\<forall>c\<in>set cs. c = Some None)" for errs
      by (induction cs errs rule: collect_confirmations.induct) (auto split: option.splits)
    then show ?thesis by simp
  qed
  let ?a = "gone_attempt elapsed lookup (n_Name n) pods maxSec"
  have "?a k \<noteq> None" using assms by (simp add: gone_attempt_def)
  then obtain m b where m: "m \<le> k" "retry ?a 0 = Some b" "?a m = Some b" and less: "\<forall>i<m. ?a i = None"
    by (rule retry_ends)
  have before: "elapsed i < maxSec * second + PodEvictionHeadroom" if "i < m" for i
    using less that by (auto simp: gone_attempt_def split: if_splits)
  have gone: "?a m = Some True \<longleftrightarrow> (\<exists>m<k. (\<forall>p\<in>set pods. pod_gone (n_Name n) (lookup m p)) \<and>
           (\<forall>i\<le>m. elapsed i < maxSec * second + PodEvictionHeadroom))"
  proof
    assume "?a m = Some True"
    then have "elapsed m < maxSec * second + PodEvictionHeadroom" "\<forall>p\<in>set pods. pod_gone (n_Name n) (lookup m p)"
      by (auto simp: gone_attempt_def list_all_iff split: if_splits)
    moreover from this assms m(1) have "m < k" by (auto simp: le_less)
    ultimately show "\<exists>m<k. (\<forall>p\<in>set pods. pod_gone (n_Name n) (lookup m p)) \<and>
           (\<forall>i\<le>m. elapsed i < maxSec * second + PodEvictionHeadroom)"
      using before by (metis le_less)
  next
    assume "\<exists>m<k. (\<forall>p\<in>set pods. pod_gone (n_Name n) (lookup m p)) \<and>
           (\<forall>i\<le>m. elapsed i < maxSec * second + PodEvictionHeadroom)"
    then obtain j where j: "\<forall>p\<in>set pods. pod_gone (n_Name n) (lookup j p)"
        "\<forall>i\<le>j. elapsed i < maxSec * second + PodEvictionHeadroom" by blast
    then have "?a j = Some True" by (simp add: gone_attempt_def list_all_iff)
    then have "m \<le> j" using less by (cases "j < m") auto
    then have "elapsed m < maxSec * second + PodEvictionHeadroom" using j(2) by blast
    then show "?a m = Some True" using m(3) by (auto simp: gone_attempt_def split: if_splits)
  qed
  show ?thesis
    using m gone collect [of confirmations]
    by (auto simp: drainNode_def split: option.splits bool.splits)
qed

lemma drainNode_empties_witness:
  "drainNode [Some None] (\<lambda>k. int k * (5 * second)) (\<lambda>k p. if k < 2 then PodOn ''n1'' else PodNotFound)
     (sized_node ''n1'' 4) [plain_pod ''a'' ''p''] 60 = Some None"
proof -
  let ?elapsed = "\<lambda>k. int k * (5 * second)"
  let ?lookup = "\<lambda>k (p :: pod). if k < (2 :: nat) then PodOn ''n1'' else PodNotFound"
  have "\<not> ?elapsed 18 < 60 * second + PodEvictionHeadroom"
    by (simp add: PodEvictionHeadroom_def second_def)
  then obtain r where r: "drainNode [Some None] ?elapsed ?lookup (sized_node ''n1'' 4) [plain_pod ''a'' ''p''] 60 = Some r"
    and iff: "r = None \<longleftrightarrow> (\<forall>c\<in>set [Some None]. c = (Some None :: string option option)) \<and>
      (\<exists>m<18. (\<forall>p\<in>set [plain_pod ''a'' ''p'']. pod_gone (n_Name (sized_node ''n1'' 4)) (?lookup m p)) \<and>
         (\<forall>i\<le>m. ?elapsed i < 60 * second + PodEvictionHeadroom))"
    using drainNode_empties [of ?elapsed 18 60 "[Some None]" ?lookup "sized_node ''n1'' 4" "[plain_pod ''a'' ''p'']"]
    by blast
  have "\<exists>m<18. (\<forall>p\<in>set [plain_pod ''a'' ''p'']. pod_gone (n_Name (sized_node ''n1'' 4)) (?lookup m p)) \<and>
         (\<forall>i\<le>m. ?elapsed i < 60 * second + PodEvictionHeadroom)"
    by (rule exI [of _ 2]) (auto simp: pod_gone_def PodEvictionHeadroom_def second_def)
  with iff have "r = None" by simp
  with r show ?thesis by simp
qed

end
