(* ===== verification/ScaleDown.thy ===== *)
theory ScaleDown
  imports NodeDeletion
begin

text \<open>
  The state machine of \<open>core/scale_down.go\<close>: \<open>ScaleDown\<close> with \<open>UpdateUnneededNodes\<close> and
  \<open>TryToScaleDown\<close>.  The context of the autoscaler and the parameters of the simulation (predicates,
  clock, random numbers) are the record \<open>scaleDownEnv\<close>.  Deletions run in goroutines; what they do
  is \<open>deleteNode\<close> and \<open>delete_empty_node\<close>, and \<open>TryToScaleDown\<close> takes their outcome up to the
  end of \<open>waitForEmptyNodesDeleted\<close> as a parameter.
\<close>

section \<open>State\<close>

record nodeDeleteStatus =
  nds_deleteInProgress :: bool
  nds_nodeDeleteResults :: "(string, autoscalerError option) gomap"

definition SetDeleteInProgress :: "bool \<Rightarrow> nodeDeleteStatus \<Rightarrow> nodeDeleteStatus" where
  "SetDeleteInProgress b s = s\<lparr>nds_deleteInProgress := b\<rparr>"

definition AddNodeDeleteResult :: "string \<Rightarrow> autoscalerError option \<Rightarrow> nodeDeleteStatus \<Rightarrow> nodeDeleteStatus" where
  "AddNodeDeleteResult nodeName result s =
     s\<lparr>nds_nodeDeleteResults := mput nodeName result (nds_nodeDeleteResults s)\<rparr>"

definition DrainNodeDeleteResults ::
  "nodeDeleteStatus \<Rightarrow> (string, autoscalerError option) gomap \<times> nodeDeleteStatus" where
  "DrainNodeDeleteResults s = (nds_nodeDeleteResults s, s\<lparr>nds_nodeDeleteResults := []\<rparr>)"

record scaleDown =
  sd_clusterStateRegistry :: clusterStateRegistry
  sd_unneededNodes :: "(string, time) gomap"
  sd_unneededNodesList :: "node list"
  sd_unremovableNodes :: "(string, time) gomap"
  sd_podLocationHints :: "(string, string) gomap"
  sd_nodeUtilizationMap :: "(string, utilizationInfo) gomap"
  sd_usageTracker :: usageTracker
  sd_nodeDeleteStatus :: nodeDeleteStatus

definition NewScaleDown :: "clusterStateRegistry \<Rightarrow> scaleDown" where
  "NewScaleDown csr = \<lparr>sd_clusterStateRegistry = csr, sd_unneededNodes = [], sd_unneededNodesList = [],
     sd_unremovableNodes = [], sd_podLocationHints = [], sd_nodeUtilizationMap = [],
     sd_usageTracker = NewUsageTracker,
     sd_nodeDeleteStatus = \<lparr>nds_deleteInProgress = False, nds_nodeDeleteResults = []\<rparr>\<rparr>"

text \<open>The options of the context, and what the code calls outside the autoscaler.\<close>

record ('m, 'sel) scaleDownEnv =
  env_ScaleDownUnneededTime :: duration
  env_ScaleDownUnreadyTime :: duration
  env_ScaleDownUtilizationThreshold :: f64
  env_ScaleDownNonEmptyCandidatesCount :: int
  env_ScaleDownCandidatesPoolRatio :: f64
  env_ScaleDownCandidatesPoolMinCount :: int
  env_UnremovableNodeRecheckTimeout :: duration
  env_IgnoreDaemonSetsUtilization :: bool
  env_IgnoreMirrorPodsUtilization :: bool
  env_MaxEmptyBulkDelete :: int
  env_ExpendablePodsPriorityCutoff :: int
  env_skipNodesWithSystemPods :: bool
  env_skipNodesWithLocalStorage :: bool
  env_minReplicaCount :: int
  env_CloudProvider :: cloudProvider
  env_ResourceLimiter :: "string + resourceLimiter"
  env_template :: "nodeGroup \<Rightarrow> string + node"
  env_client :: client
  env_as_selector :: "'sel as_selector"
  env_predicates :: "'m predicates"
  env_metadata :: "'m metadata"
  env_rands :: "nat \<Rightarrow> nat \<Rightarrow> nat \<Rightarrow> nat"
  env_now :: time

definition CleanUpScaleDown :: "('m, 'sel) scaleDownEnv \<Rightarrow> time \<Rightarrow> scaleDown \<Rightarrow> scaleDown" where
  "CleanUpScaleDown env timestamp sd =
     sd\<lparr>sd_usageTracker :=
       CleanUpTracker (time_add timestamp (- env_ScaleDownUnneededTime env)) (sd_usageTracker sd)\<rparr>"

definition GetCandidatesForScaleDown :: "scaleDown \<Rightarrow> node list" where
  "GetCandidatesForScaleDown sd = sd_unneededNodesList sd"

definition CleanUpUnneededNodes :: "scaleDown \<Rightarrow> scaleDown" where
  "CleanUpUnneededNodes sd = sd\<lparr>sd_unneededNodesList := [], sd_unneededNodes := []\<rparr>"

section \<open>Helpers\<close>

definition FilterOutExpendablePods :: "pod list \<Rightarrow> int \<Rightarrow> pod list" where
  "FilterOutExpendablePods pods cutoff =
     filter (\<lambda>p. case pod_Priority p of None \<Rightarrow> True | Some prio \<Rightarrow> cutoff \<le> prio) pods"

definition ScaleDownDisabledKey :: string where
  "ScaleDownDisabledKey = ''cluster-autoscaler.kubernetes.io/scale-down-disabled''"

definition hasNoScaleDownAnnotation :: "node \<Rightarrow> bool" where
  "hasNoScaleDownAnnotation n \<longleftrightarrow> mget0 '''' (n_Annotations n) ScaleDownDisabledKey = ''true''"

definition filterOutMasters :: "node list \<Rightarrow> pod list \<Rightarrow> node list" where
  "filterOutMasters nodes pods =
     (let masters = foldl (\<lambda>m p.
            if pod_Namespace p = ''kube-system'' \<and> mget0 '''' (pod_Labels p) ''component'' = ''kube-apiserver''
            then mput (pod_NodeName p) True m else m) [] pods
      in filter (\<lambda>n. \<not> mget0 False masters (n_Name n)) nodes)"

definition getNodeGroupSizeMap :: "cloudProvider \<Rightarrow> (string, int) gomap" where
  "getNodeGroupSizeMap cp =
     foldl (\<lambda>m ng. case ng_TargetSize ng of Inl _ \<Rightarrow> m | Inr sz \<Rightarrow> mput (ng_Id ng) sz m) [] (cp_NodeGroups cp)"

text \<open>Only names that are not among the nodes are forgotten.\<close>

definition updateUnremovableNodes :: "node list \<Rightarrow> (string, time) gomap \<Rightarrow> (string, time) gomap" where
  "updateUnremovableNodes nodes unremovableNodes =
     (if unremovableNodes = [] then unremovableNodes
      else
        (let nodesToDelete = foldl (\<lambda>m n. mdel (n_Name n) m) (map (\<lambda>(k, _). (k, ())) unremovableNodes) nodes
         in foldl (\<lambda>m (k, _). mdel k m) unremovableNodes nodesToDelete))"

definition chooseCandidates ::
  "('m, 'sel) scaleDownEnv \<Rightarrow> scaleDown \<Rightarrow> node list \<Rightarrow> node list \<times> node list" where
  "chooseCandidates env sd nodes =
     (if env_ScaleDownNonEmptyCandidatesCount env \<le> 0 then (nodes, [])
      else (filter (\<lambda>n. mhas (sd_unneededNodes sd) (n_Name n)) nodes,
            filter (\<lambda>n. \<not> mhas (sd_unneededNodes sd) (n_Name n)) nodes))"

definition markSimulationError :: "autoscalerError \<Rightarrow> time \<Rightarrow> scaleDown \<Rightarrow> autoscalerError \<times> scaleDown" where
  "markSimulationError simulatorErr timestamp sd =
     (AddPrefix ''error while simulating node drains: '' simulatorErr,
      sd\<lparr>sd_unneededNodesList := [], sd_unneededNodes := [], sd_nodeUtilizationMap := [],
         sd_clusterStateRegistry := UpdateScaleDownCandidates [] timestamp (sd_clusterStateRegistry sd)\<rparr>)"

section \<open>Unneeded nodes\<close>

text \<open>The nodes to check, without those found unremovable a short time ago.\<close>

fun filter_checked :: "time \<Rightarrow> (string, time) gomap \<Rightarrow> node list \<Rightarrow> (string, time) gomap \<times> node list" where
  "filter_checked timestamp unremovable [] = (unremovable, [])"
| "filter_checked timestamp unremovable (n # ns) =
     (case mget unremovable (n_Name n) of
        Some t \<Rightarrow>
          (if time_after t timestamp then filter_checked timestamp unremovable ns
           else apsnd (Cons n) (filter_checked timestamp (mdel (n_Name n) unremovable) ns))
      | None \<Rightarrow> apsnd (Cons n) (filter_checked timestamp unremovable ns))"

definition zeroUtilization :: utilizationInfo where
  "zeroUtilization = \<lparr>ui_CpuUtil = Fin 0, ui_MemUtil = Fin 0, ui_Utilization = Fin 0\<rparr>"

text \<open>
  Phase 1 on one node: the utilization map and the nodes found unneeded.  A utilization that
  cannot be computed is the zero value.
\<close>

definition utilization_of :: "('m, 'sel) scaleDownEnv \<Rightarrow> node \<Rightarrow> nodeInfo \<Rightarrow> utilizationInfo" where
  "utilization_of env n info =
     (case CalculateUtilization n info (env_IgnoreDaemonSetsUtilization env)
             (env_IgnoreMirrorPodsUtilization env) of
        Inl _ \<Rightarrow> zeroUtilization
      | Inr u \<Rightarrow> u)"

definition phase1_step ::
  "('m, 'sel) scaleDownEnv \<Rightarrow> time \<Rightarrow> infos \<Rightarrow> (string, utilizationInfo) gomap \<times> node list \<Rightarrow> node \<Rightarrow>
     (string, utilizationInfo) gomap \<times> node list" where
  "phase1_step env timestamp infs acc n =
     (if isNodeBeingDeleted n timestamp then acc
      else if hasNoScaleDownAnnotation n then acc
      else
        (case mget infs (n_Name n) of
           None \<Rightarrow> acc
         | Some info \<Rightarrow>
             (let u = utilization_of env n info; umap = mput (n_Name n) u (fst acc)
              in if fle (env_ScaleDownUtilizationThreshold env) (ui_Utilization u) then (umap, snd acc)
                 else (umap, snd acc @ [n]))))"

definition pool_size :: "('m, 'sel) scaleDownEnv \<Rightarrow> nat \<Rightarrow> nat \<Rightarrow> int" where
  "pool_size env nodesCount nonCandidates =
     (let s = f_ceil_int (fmul (f_of_int (int nodesCount)) (env_ScaleDownCandidatesPoolRatio env));
          s1 = (if s < env_ScaleDownCandidatesPoolMinCount env then env_ScaleDownCandidatesPoolMinCount env else s)
      in if s1 > int nonCandidates then int nonCandidates else s1)"

definition find_nodes ::
  "('m, 'sel) scaleDownEnv \<Rightarrow> nat \<Rightarrow> 'sel podDisruptionBudget list \<Rightarrow> node list \<Rightarrow> node list \<Rightarrow> pod list \<Rightarrow> int \<Rightarrow>
     (string, string) gomap \<Rightarrow> usageTracker \<Rightarrow> time \<Rightarrow> removalState" where
  "find_nodes env run pdbs candidates nodes pods maxCount hints tr timestamp =
     FindNodesToRemove
       (get_pods_to_move (env_as_selector env) (env_now env) True (env_skipNodesWithSystemPods env)
          (env_skipNodesWithLocalStorage env) no_client (env_minReplicaCount env) pdbs)
       (env_predicates env) (env_metadata env) (env_rands env run) candidates nodes pods maxCount hints tr timestamp"

text \<open>
  Phase 2: the candidates of the last run, then additional ones; the hints of the second search
  overwrite those of the first.  \<open>None\<close> is a slice with a negative bound.
\<close>

definition phase2 ::
  "('m, 'sel) scaleDownEnv \<Rightarrow> 'sel podDisruptionBudget list \<Rightarrow> node list \<Rightarrow> node list \<Rightarrow> node list \<Rightarrow> pod list \<Rightarrow>
     (string, string) gomap \<Rightarrow> usageTracker \<Rightarrow> time \<Rightarrow> removalState option" where
  "phase2 env pdbs candidates nonCandidates nodes pods hints tr timestamp =
     (let st1 = find_nodes env 0 pdbs candidates nodes pods (int (length candidates)) hints tr timestamp;
          wanted = env_ScaleDownNonEmptyCandidatesCount env - int (length (rs_Result st1));
          additionalCount = (if wanted > int (length nonCandidates) then int (length nonCandidates) else wanted);
          poolSize = pool_size env (length nodes) (length nonCandidates)
      in if additionalCount > 0 then
           (if poolSize < 0 then None
            else
              (let st2 = find_nodes env 1 pdbs (take (nat poolSize) nonCandidates) nodes pods additionalCount
                     hints (rs_Tracker st1) timestamp
               in Some \<lparr>rs_Result = rs_Result st1 @ rs_Result st2,
                        rs_Unremovable = rs_Unremovable st1 @ rs_Unremovable st2,
                        rs_Hints = foldl (\<lambda>m (k, v). mput k v m) (rs_Hints st1) (rs_Hints st2),
                        rs_Tracker = rs_Tracker st2\<rparr>))
         else Some st1)"

definition unneeded_since :: "(string, time) gomap \<Rightarrow> time \<Rightarrow> nodeToBeRemoved list \<Rightarrow> (string, time) gomap" where
  "unneeded_since old timestamp nodesToRemove =
     foldl (\<lambda>m r. let name = n_Name (nr_Node r)
                  in case mget old name of None \<Rightarrow> mput name timestamp m | Some v \<Rightarrow> mput name v m)
       [] nodesToRemove"

definition UpdateUnneededNodes ::
  "('m, 'sel) scaleDownEnv \<Rightarrow> node list \<Rightarrow> node list \<Rightarrow> pod list \<Rightarrow> time \<Rightarrow> 'sel podDisruptionBudget list \<Rightarrow>
     scaleDown \<Rightarrow> scaleDown option" where
  "UpdateUnneededNodes env nodes nodesToCheck pods timestamp pdbs sd =
     (let nonExpendablePods = FilterOutExpendablePods pods (env_ExpendablePodsPriorityCutoff env);
          infs = CreateNodeNameToInfoMap nonExpendablePods nodes
      in case filter_checked timestamp (updateUnremovableNodes nodes (sd_unremovableNodes sd)) nodesToCheck of
           (unremovable1, filteredNodesToCheck) \<Rightarrow>
             (case foldl (phase1_step env timestamp infs) ([], []) filteredNodesToCheck of
                (utilizationMap, currentlyUnneeded) \<Rightarrow>
                  (case getEmptyNodesNoResourceLimits (env_template env) (env_as_selector env) (env_now env)
                          currentlyUnneeded pods (int (length currentlyUnneeded)) (env_CloudProvider env) of
                     None \<Rightarrow> None
                   | Some emptyNodesList \<Rightarrow>
                       (let nonEmpty = filter (\<lambda>n. n_Name n \<notin> n_Name ` set emptyNodesList) currentlyUnneeded
                        in case chooseCandidates env sd nonEmpty of
                             (candidates, nonCandidates) \<Rightarrow>
                               (case phase2 env pdbs candidates nonCandidates nodes nonExpendablePods
                                       (sd_podLocationHints sd) (sd_usageTracker sd) timestamp of
                                  None \<Rightarrow> None
                                | Some st \<Rightarrow>
                                    (let nodesToRemove = rs_Result st @
                                           map (\<lambda>n. \<lparr>nr_Node = n, nr_PodsToReschedule = []\<rparr>) emptyNodesList;
                                         timeout = time_add timestamp (env_UnremovableNodeRecheckTimeout env);
                                         unneededList = map nr_Node nodesToRemove
                                     in Some (sd\<lparr>
                                          sd_unremovableNodes :=
                                            foldl (\<lambda>m n. mput (n_Name n) timeout m) unremovable1 (rs_Unremovable st),
                                          sd_unneededNodesList := unneededList,
                                          sd_unneededNodes := unneeded_since (sd_unneededNodes sd) timestamp nodesToRemove,
                                          sd_podLocationHints := rs_Hints st,
                                          sd_nodeUtilizationMap := utilizationMap,
                                          sd_usageTracker := rs_Tracker st,
                                          sd_clusterStateRegistry :=
                                            UpdateScaleDownCandidates unneededList timestamp
                                              (sd_clusterStateRegistry sd)\<rparr>)))))))"

section \<open>Trying to scale down\<close>

datatype scaleDownResult =
  ScaleDownError | ScaleDownNoUnneeded | ScaleDownNoNodeDeleted | ScaleDownNodeDeleted | ScaleDownNodeDeleteStarted
| ScaleDownNotTried | ScaleDownInCooldown | ScaleDownInProgress

record scaleDownNode =
  sdn_Node :: node
  sdn_NodeGroup :: "nodeGroup option"
  sdn_UtilInfo :: utilizationInfo
  sdn_EvictedPods :: "pod list"

record scaleDownStatus =
  sds_Result :: scaleDownResult
  sds_ScaledDownNodes :: "scaleDownNode list"
  sds_NodeDeleteResults :: "(string, autoscalerError option) gomap"

definition mapNodesToStatusScaleDownNodes ::
  "scaleDown \<Rightarrow> node list \<Rightarrow> (string, nodeGroup) gomap \<Rightarrow> (string, pod list) gomap \<Rightarrow> scaleDownNode list" where
  "mapNodesToStatusScaleDownNodes sd nodes nodeGroups evictedPodLists =
     map (\<lambda>n. \<lparr>sdn_Node = n, sdn_NodeGroup = mget nodeGroups (n_Name n),
            sdn_UtilInfo = mget0 zeroUtilization (sd_nodeUtilizationMap sd) (n_Name n),
            sdn_EvictedPods = mget0 [] evictedPodLists (n_Name n)\<rparr>) nodes"

text \<open>One node of the candidate loop: \<open>Some\<close> its node group if it is a candidate.\<close>

definition candidate_group ::
  "('m, 'sel) scaleDownEnv \<Rightarrow> scaleDown \<Rightarrow> time \<Rightarrow> (string, int) gomap \<Rightarrow> string list \<Rightarrow> limits \<Rightarrow> node \<Rightarrow>
     nodeGroup option" where
  "candidate_group env sd currentTime nodeGroupSize resourcesWithLimits resourcesLeft n =
     (case mget (sd_unneededNodes sd) (n_Name n) of
        None \<Rightarrow> None
      | Some since \<Rightarrow>
          if hasNoScaleDownAnnotation n then None
          else if nodeIsReady n \<and> \<not> time_before (time_add since (env_ScaleDownUnneededTime env)) currentTime then None
          else if \<not> nodeIsReady n \<and> \<not> time_before (time_add since (env_ScaleDownUnreadyTime env)) currentTime then None
          else
            (case cp_NodeGroupForNode (env_CloudProvider env) n of
               Inl _ \<Rightarrow> None
             | Inr None \<Rightarrow> None
             | Inr (Some ng) \<Rightarrow>
                 (case mget nodeGroupSize (ng_Id ng) of
                    None \<Rightarrow> None
                  | Some sz \<Rightarrow>
                      if sz \<le> ng_MinSize ng then None
                      else
                        (case computeScaleDownResourcesDelta (env_template env) n (Some ng) resourcesWithLimits of
                           Inl _ \<Rightarrow> None
                         | Inr delta \<Rightarrow>
                             if checkScaleDownDeltaWithinLimits resourcesLeft delta \<noteq> [] then None else Some ng))))"

definition scale_down_candidates ::
  "('m, 'sel) scaleDownEnv \<Rightarrow> scaleDown \<Rightarrow> time \<Rightarrow> resourceLimiter \<Rightarrow> limits \<Rightarrow> node list \<Rightarrow>
     node list \<times> (string, nodeGroup) gomap" where
  "scale_down_candidates env sd currentTime limiter resourcesLeft nodes =
     foldl (\<lambda>(candidates, groups) n.
              case candidate_group env sd currentTime (getNodeGroupSizeMap (env_CloudProvider env))
                     (GetResources limiter) resourcesLeft n of
                None \<Rightarrow> (candidates, groups)
              | Some ng \<Rightarrow> (candidates @ [n], mput (n_Name n) ng groups))
       ([], []) nodes"

text \<open>The synchronous part of \<open>scheduleDeleteEmptyNodes\<close>.\<close>

definition forget_nodes :: "node list \<Rightarrow> scaleDown \<Rightarrow> scaleDown" where
  "forget_nodes nodes sd =
     foldl (\<lambda>sd n. case RemoveNodeFromTracker (sd_usageTracker sd) (n_Name n) (sd_unneededNodes sd) of
                     (tr, unneeded) \<Rightarrow> sd\<lparr>sd_usageTracker := tr, sd_unneededNodes := unneeded\<rparr>) sd nodes"

text \<open>
  \<open>bulk nodes registry\<close>: what the goroutines that delete empty nodes leave behind when the wait
  for them is over, and its error.  The result is the status, the error, the new state, and what was started:
  the deletion of all the empty nodes, whether or not it ends with an error, or the drain of one node with its pods.
\<close>

datatype startedDeletion = NothingStarted | BulkStarted "node list" | DrainStarted nodeToBeRemoved

fun started_nodes :: "startedDeletion \<Rightarrow> node list" where
  "started_nodes NothingStarted = []"
| "started_nodes (BulkStarted nodes) = nodes"
| "started_nodes (DrainStarted toRemove) = [nr_Node toRemove]"

fun is_drain :: "startedDeletion \<Rightarrow> bool" where
  "is_drain (DrainStarted _) = True"
| "is_drain _ = False"

definition TryToScaleDown ::
  "('m, 'sel) scaleDownEnv \<Rightarrow> (node list \<Rightarrow> clusterStateRegistry \<Rightarrow> autoscalerError option \<times> clusterStateRegistry) \<Rightarrow>
     node list \<Rightarrow> pod list \<Rightarrow> 'sel podDisruptionBudget list \<Rightarrow> time \<Rightarrow> scaleDown \<Rightarrow>
     (scaleDownStatus \<times> autoscalerError option \<times> scaleDown \<times> startedDeletion) option" where
  "TryToScaleDown env bulk allNodes pods pdbs currentTime sd0 =
     (case DrainNodeDeleteResults (sd_nodeDeleteStatus sd0) of
        (results, deleteStatus) \<Rightarrow>
          (let sd = sd0\<lparr>sd_nodeDeleteStatus := deleteStatus\<rparr>;
               status = (\<lambda>r ns. \<lparr>sds_Result = r, sds_ScaledDownNodes = ns, sds_NodeDeleteResults = results\<rparr>);
               nodesWithoutMaster = filterOutMasters allNodes pods
           in case env_ResourceLimiter env of
                Inl err \<Rightarrow> Some (status ScaleDownError [], Some (NewAutoscalerError CloudProviderError err), sd, NothingStarted)
              | Inr limiter \<Rightarrow>
                  (let left = computeScaleDownResourcesLeftLimits (env_template env) nodesWithoutMaster limiter
                                (env_CloudProvider env) currentTime
                   in case scale_down_candidates env sd currentTime limiter left nodesWithoutMaster of
                        (candidates, groups) \<Rightarrow>
                          if candidates = [] then Some (status ScaleDownNoUnneeded [], None, sd, NothingStarted)
                          else
                            (case getEmptyNodes (env_template env) (env_as_selector env) (env_now env) candidates
                                    pods (env_MaxEmptyBulkDelete env) left (env_CloudProvider env) of
                               None \<Rightarrow> None
                             | Some emptyNodes \<Rightarrow>
                                 if emptyNodes \<noteq> [] then
                                   (let sd1 = forget_nodes emptyNodes sd
                                    in case bulk emptyNodes (sd_clusterStateRegistry sd1) of
                                         (err, registry) \<Rightarrow>
                                           (let sd2 = sd1\<lparr>sd_clusterStateRegistry := registry\<rparr>
                                            in case err of
                                                 None \<Rightarrow> Some (status ScaleDownNodeDeleted
                                                   (mapNodesToStatusScaleDownNodes sd2 emptyNodes groups []), None, sd2, BulkStarted emptyNodes)
                                               | Some e \<Rightarrow> Some (status ScaleDownError [],
                                                   Some (AddPrefix ''failed to delete at least one empty node: '' e), sd2, BulkStarted emptyNodes)))
                                 else
                                   (let st = FindNodesToRemove
                                          (get_pods_to_move (env_as_selector env) (env_now env) False
                                             (env_skipNodesWithSystemPods env) (env_skipNodesWithLocalStorage env)
                                             (env_client env) (env_minReplicaCount env) pdbs)
                                          (env_predicates env) (env_metadata env) (env_rands env 2) candidates
                                          nodesWithoutMaster
                                          (FilterOutExpendablePods pods (env_ExpendablePodsPriorityCutoff env)) 1
                                          (sd_podLocationHints sd) (sd_usageTracker sd) (env_now env);
                                        sd1 = sd\<lparr>sd_usageTracker := rs_Tracker st\<rparr>
                                    in case rs_Result st of
                                         [] \<Rightarrow> Some (status ScaleDownNoNodeDeleted [], None, sd1, NothingStarted)
                                       | toRemove # _ \<Rightarrow>
                                           (let sd2 = forget_nodes [nr_Node toRemove] sd1;
                                                sd3 = sd2\<lparr>sd_nodeDeleteStatus :=
                                                  SetDeleteInProgress True (sd_nodeDeleteStatus sd2)\<rparr>
                                            in Some (status ScaleDownNodeDeleteStarted
                                                 (mapNodesToStatusScaleDownNodes sd3 [nr_Node toRemove] groups
                                                   [(n_Name (nr_Node toRemove), nr_PodsToReschedule toRemove)]),
                                                 None, sd3, DrainStarted toRemove)))))))"

text \<open>The end of the goroutine that deletes the node: its deferred calls, last first.\<close>

definition finish_deletion :: "string \<Rightarrow> autoscalerError option \<Rightarrow> scaleDown \<Rightarrow> scaleDown" where
  "finish_deletion nodeName err sd =
     sd\<lparr>sd_nodeDeleteStatus :=
       AddNodeDeleteResult nodeName err (SetDeleteInProgress False (sd_nodeDeleteStatus sd))\<rparr>"

end
