(* ===== verification/SimulatorProps.thy ===== *)
theory SimulatorProps
  imports Simulator
begin

text \<open>
  The properties of the drain simulation: what the node infos hold, what a successful and what a
  failed search for places means, which nodes are empty, how the candidate loop splits its
  candidates, and that utilization grows with the pods.
\<close>

section \<open>Node infos\<close>

lemma mget_add_pod:
  "mget (add_pod_info m p) k =
     (if k = assigned_node p
      then (let info = mget0 (NewNodeInfo []) m k in Some (info\<lparr>ni_Pods := ni_Pods info @ [p]\<rparr>))
      else mget m k)"
  by (simp add: add_pod_info_def Let_def)

lemma mget_add_pods:
  "mget (foldl add_pod_info m pods) k =
     (let mine = filter (\<lambda>p. assigned_node p = k) pods
      in if mine = [] then mget m k
         else (let info = mget0 (NewNodeInfo []) m k in Some (info\<lparr>ni_Pods := ni_Pods info @ mine\<rparr>)))"
proof (induction pods arbitrary: m)
  case (Cons p pods)
  show ?case
  proof (cases "assigned_node p = k")
    case True
    then show ?thesis by (simp add: Cons.IH mget_add_pod Let_def mget0_def)
  next
    case False
    then show ?thesis by (simp add: Cons.IH mget_add_pod Let_def mget0_def)
  qed
qed simp

lemma mget_set_node:
  "mget (set_node_info m n) k =
     (if k = n_Name n then Some ((mget0 (NewNodeInfo []) m k)\<lparr>ni_Node := Some n\<rparr>) else mget m k)"
  by (simp add: set_node_info_def Let_def)

lemma mget_set_nodes:
  "mget (foldl set_node_info m nodes) k =
     (case find (\<lambda>n. n_Name n = k) (rev nodes) of
        None \<Rightarrow> mget m k
      | Some n \<Rightarrow> Some ((mget0 (NewNodeInfo []) m k)\<lparr>ni_Node := Some n\<rparr>))"
proof (induction nodes rule: rev_induct)
  case (snoc n nodes)
  show ?case
  proof (cases "k = n_Name n")
    case True
    have "(mget0 (NewNodeInfo []) (foldl set_node_info m nodes) k)\<lparr>ni_Node := Some n\<rparr> =
        (mget0 (NewNodeInfo []) m k)\<lparr>ni_Node := Some n\<rparr>"
      by (simp add: mget0_def snoc.IH split: option.split)
    with True show ?thesis by (simp add: mget_set_node)
  next
    case False
    then show ?thesis by (simp add: mget_set_node snoc.IH)
  qed
qed simp

lemma gomap_ok_infos: "gomap_ok (foldl set_node_info (foldl add_pod_info [] pods) nodes)"
proof -
  have "gomap_ok (foldl add_pod_info m pods)" if "gomap_ok m" for m
    using that by (induction pods arbitrary: m) (auto simp: add_pod_info_def Let_def)
  moreover have "gomap_ok (foldl set_node_info m nodes)" if "gomap_ok m" for m
    using that by (induction nodes arbitrary: m) (auto simp: set_node_info_def Let_def)
  ultimately show ?thesis by simp
qed

lemma ni_Node_pods_only: "mget (foldl add_pod_info [] pods) k = Some info \<Longrightarrow> ni_Node info = None"
  by (auto simp: mget_add_pods Let_def mget0_def NewNodeInfo_def split: if_splits)

text \<open>
  A node info for every listed node, with all its pods.  The map has exactly the names of the
  nodes; the info of a name holds the last node of that name and, in list order, every pod bound
  to it or, when unbound, nominated for it.
\<close>

theorem CreateNodeNameToInfoMap_spec:
  "mget (CreateNodeNameToInfoMap pods nodes) k =
     (case find (\<lambda>n. n_Name n = k) (rev nodes) of
        None \<Rightarrow> None
      | Some n \<Rightarrow> Some \<lparr>ni_Node = Some n, ni_Pods = filter (\<lambda>p. assigned_node p = k) pods\<rparr>)"
  unfolding CreateNodeNameToInfoMap_def mget_mdel_where [OF gomap_ok_infos] mget_set_nodes
  using ni_Node_pods_only [of pods k]
  by (auto simp: mget_add_pods Let_def mget0_def NewNodeInfo_def split: option.splits if_splits)

lemma found_candidate:
  assumes "n \<in> set nodes"
  obtains n' where "mget (CreateNodeNameToInfoMap pods nodes) (n_Name n) =
      Some \<lparr>ni_Node = Some n', ni_Pods = filter (\<lambda>p. assigned_node p = n_Name n) pods\<rparr>"
proof -
  have "find (\<lambda>m. n_Name m = n_Name n) (rev nodes) \<noteq> None"
    using assms by (auto simp: find_None_iff)
  then show thesis using that by (auto simp: CreateNodeNameToInfoMap_spec)
qed

lemma FindEmptyNodes_filter:
  "FindEmptyNodesToRemove as_sel now candidates pods =
     filter (\<lambda>n. \<forall>p\<in>set pods. assigned_node p = n_Name n \<longrightarrow> stays now p) candidates"
  unfolding FindEmptyNodesToRemove_def Let_def
proof (rule filter_cong [OF refl])
  fix n
  assume "n \<in> set candidates"
  then obtain n' where "mget (CreateNodeNameToInfoMap pods candidates) (n_Name n) =
      Some \<lparr>ni_Node = Some n', ni_Pods = filter (\<lambda>p. assigned_node p = n_Name n) pods\<rparr>"
    by (rule found_candidate)
  then show "empty_candidate as_sel now (CreateNodeNameToInfoMap pods candidates) n \<longleftrightarrow>
      (\<forall>p\<in>set pods. assigned_node p = n_Name n \<longrightarrow> stays now p)"
    by (auto simp: empty_candidate_def FastGetPodsToMove_iff filter_empty_conv eq_commute [of "[]"])
qed

text \<open>
  The empty nodes.  \<open>FindEmptyNodesToRemove\<close> returns, in order, the candidates whose pods all
  stay: mirror pods, daemon set pods, and pods whose deletion began more than twelve minutes ago.
\<close>

theorem FindEmptyNodesToRemove_spec:
  "FindEmptyNodesToRemove as_sel now candidates pods =
     filter (\<lambda>n. \<forall>p\<in>set pods. assigned_node p = n_Name n \<longrightarrow> stays now p) candidates"
  by (rule FindEmptyNodes_filter)

definition named_node :: "string \<Rightarrow> node" where
  "named_node name = empty_node\<lparr>n_Name := name\<rparr>"

lemma FindEmptyNodesToRemove_spec_witness:
  "FindEmptyNodesToRemove label_selector 0 [named_node ''n1'', named_node ''n2'']
     [(owned_pod ''ReplicaSet'' ''web'')\<lparr>pod_NodeName := ''n1''\<rparr>, mirror_pod\<lparr>pod_NodeName := ''n2''\<rparr>] =
     [named_node ''n2'']"
  by (simp add: FindEmptyNodesToRemove_spec named_node_def assigned_node_def demo_pod_defs)

section \<open>Placements\<close>

definition unbound :: "pod \<Rightarrow> pod" where
  "unbound p = p\<lparr>pod_NodeName := ''''\<rparr>"

text \<open>
  The specification of a search: every pod in turn goes to a known node other than the removed
  one, whose predicates it passes with all pods placed before it in place; \<open>infs'\<close> are the node
  infos at the end.
\<close>

inductive placed ::
  "'m predicates \<Rightarrow> 'm metadata \<Rightarrow> string \<Rightarrow> infos \<Rightarrow> pod list \<Rightarrow> string list \<Rightarrow> infos \<Rightarrow> bool"
  for check get_meta removedNode where
  placed_Nil: "placed check get_meta removedNode infs [] [] infs"
| placed_Cons: "target \<noteq> removedNode \<Longrightarrow> mget infs target = Some info \<Longrightarrow> ni_Node info \<noteq> None \<Longrightarrow>
     check p (get_meta p infs) info \<Longrightarrow>
     placed check get_meta removedNode (mput target (add_to_info p info) infs) ps targets infs' \<Longrightarrow>
     placed check get_meta removedNode infs (p # ps) (target # targets) infs'"

inductive_cases placed_NilE: "placed check get_meta removedNode infs [] targets infs'"

definition no_place ::
  "'m predicates \<Rightarrow> 'm metadata \<Rightarrow> string \<Rightarrow> node list \<Rightarrow> infos \<Rightarrow> pod \<Rightarrow> bool" where
  "no_place check get_meta removedNode nodes infs p \<longleftrightarrow>
     (\<forall>n\<in>set nodes. n_Name n \<noteq> removedNode \<longrightarrow>
        (\<forall>info. mget infs (n_Name n) = Some info \<longrightarrow> ni_Node info \<noteq> None \<longrightarrow> \<not> check p (get_meta p infs) info))"

lemma tryNodeForPod_Some:
  "tryNodeForPod check infs target p meta = Some infs' \<longleftrightarrow>
     (\<exists>info. mget infs target = Some info \<and> ni_Node info \<noteq> None \<and> check p meta info \<and>
        infs' = mput target (add_to_info p info) infs)"
  by (auto simp: tryNodeForPod_def split: option.splits)

lemma tryNodes_Some:
  "tryNodes check removedNode infs p meta ns = Some (target, infs') \<Longrightarrow>
     target \<noteq> removedNode \<and> tryNodeForPod check infs target p meta = Some infs'"
  by (induction ns) (auto split: if_splits option.splits)

lemma tryNodes_None:
  "tryNodes check removedNode infs p meta ns = None \<longleftrightarrow>
     (\<forall>n\<in>set ns. n_Name n \<noteq> removedNode \<longrightarrow> tryNodeForPod check infs (n_Name n) p meta = None)"
  by (induction ns) (auto split: option.splits)

lemma find_target_Some:
  assumes "find_target check get_meta removedNode oldHints nodes infs p = Some (target, infs')"
  shows "target \<noteq> removedNode \<and> tryNodeForPod check infs target p (get_meta p infs) = Some infs'"
proof (cases "tryHint check removedNode infs p (get_meta p infs) oldHints")
  case None
  then show ?thesis using assms tryNodes_Some by (simp add: find_target_def)
next
  case (Some r)
  then show ?thesis using assms
    by (auto simp: find_target_def tryHint_def split: option.splits if_splits)
qed

lemma find_target_None:
  "find_target check get_meta removedNode oldHints nodes infs p = None \<Longrightarrow>
     no_place check get_meta removedNode nodes infs p"
  by (auto simp: find_target_def tryNodes_None no_place_def tryNodeForPod_def split: option.splits)

lemma place_pods_result:
  assumes "place_pods check get_meta removedNode oldHints nodes t infs newHints tr ps = (problem, hints', tr')"
  shows "\<exists>us targets infs'.
     placed check get_meta removedNode infs (map unbound us) targets infs' \<and>
     hints' = foldl (\<lambda>m (p, target). mput (podKey p) target m) newHints (zip us targets) \<and>
     tr' = foldl (\<lambda>r target. RegisterUsage removedNode target t r) tr targets \<and>
     (case problem of
        None \<Rightarrow> us = ps
      | Some msg \<Rightarrow> (\<exists>p vs. ps = us @ p # vs \<and> no_place check get_meta removedNode nodes infs' (unbound p) \<and>
                     msg = ''failed to find place for '' @ podKey p))"
  using assms
proof (induction ps arbitrary: infs newHints tr)
  case Nil
  then show ?case by (auto intro!: exI [of _ "[] :: pod list"] exI [of _ "[] :: string list"] exI [of _ infs] placed_Nil)
next
  case (Cons p ps)
  have key: "podKey (unbound p) = podKey p" by (simp add: podKey_def unbound_def)
  show ?case
  proof (cases "find_target check get_meta removedNode oldHints nodes infs (unbound p)")
    case None
    then have "problem = Some (''failed to find place for '' @ podKey p)" "hints' = newHints" "tr' = tr"
      using Cons.prems by (auto simp: unbound_def [symmetric] Let_def key)
    then show ?thesis using find_target_None [OF None]
      by (auto intro!: exI [of _ "[]"] exI [of _ infs] placed_Nil)
  next
    case (Some r)
    then obtain target infs1 where r: "find_target check get_meta removedNode oldHints nodes infs (unbound p) = Some (target, infs1)"
      by (cases r) auto
    then obtain info where info: "target \<noteq> removedNode" "mget infs target = Some info" "ni_Node info \<noteq> None"
      "check (unbound p) (get_meta (unbound p) infs) info" "infs1 = mput target (add_to_info (unbound p) info) infs"
      using find_target_Some [OF r] by (auto simp: tryNodeForPod_Some)
    have "place_pods check get_meta removedNode oldHints nodes t infs1 (mput (podKey p) target newHints)
        (RegisterUsage removedNode target t tr) ps = (problem, hints', tr')"
      using Cons.prems r by (simp add: unbound_def [symmetric] Let_def key)
    from Cons.IH [OF this] obtain us targets infs' where ih:
      "placed check get_meta removedNode infs1 (map unbound us) targets infs'"
      "hints' = foldl (\<lambda>m (p, target). mput (podKey p) target m) (mput (podKey p) target newHints) (zip us targets)"
      "tr' = foldl (\<lambda>r target. RegisterUsage removedNode target t r) (RegisterUsage removedNode target t tr) targets"
      "case problem of None \<Rightarrow> us = ps
        | Some msg \<Rightarrow> (\<exists>p vs. ps = us @ p # vs \<and> no_place check get_meta removedNode nodes infs' (unbound p) \<and>
                     msg = ''failed to find place for '' @ podKey p)"
      by blast
    have "placed check get_meta removedNode infs (map unbound (p # us)) (target # targets) infs'"
      using info ih(1) by (auto intro: placed_Cons)
    moreover have "case problem of None \<Rightarrow> p # us = p # ps
        | Some msg \<Rightarrow> (\<exists>q vs. p # ps = (p # us) @ q # vs \<and> no_place check get_meta removedNode nodes infs' (unbound q) \<and>
                     msg = ''failed to find place for '' @ podKey q)"
      using ih(4) by (simp split: option.splits)
    ultimately show ?thesis
      using ih(2,3) by (intro exI [of _ "p # us"] exI [of _ "target # targets"] exI [of _ infs']) simp
  qed
qed

lemma mset_shuffleNodes:
  assumes "\<And>i. i < length nodes \<Longrightarrow> rands i < length nodes"
  shows "mset (shuffleNodes rands nodes) = mset nodes"
proof -
  have "mset (foldl (\<lambda>r i. swap r i (rands i)) nodes is) = mset nodes \<and>
      length (foldl (\<lambda>r i. swap r i (rands i)) nodes is) = length nodes"
    if "\<forall>i\<in>set is. i < length nodes" for "is"
    using that by (induction "is" rule: rev_induct) (auto simp: assms mset_swap_list)
  then show ?thesis by (simp add: shuffleNodes_def)
qed

lemma findPlaceFor_result:
  assumes "findPlaceFor check get_meta rands removedNode pods nodes infs oldHints newHints tr t = (problem, hints', tr')"
  shows "\<exists>us targets infs'.
     placed check get_meta removedNode infs (map unbound us) targets infs' \<and>
     hints' = foldl (\<lambda>m (p, target). mput (podKey p) target m) newHints (zip us targets) \<and>
     tr' = foldl (\<lambda>r target. RegisterUsage removedNode target t r) tr targets \<and>
     (case problem of
        None \<Rightarrow> us = ClearTPURequests pods
      | Some msg \<Rightarrow> (\<exists>p vs. ClearTPURequests pods = us @ p # vs \<and>
                     no_place check get_meta removedNode (shuffleNodes rands nodes) infs' (unbound p) \<and>
                     msg = ''failed to find place for '' @ podKey p))"
  using assms unfolding findPlaceFor_def by (rule place_pods_result)

text \<open>
  C12: A search that succeeds has placed every pod.  There is a target for each pod, other than the
  node to be removed, that is a known node and whose predicates the pod passes with all earlier
  pods already in place; the hints then name these targets and the tracker has registered each.
\<close>

theorem findPlaceFor_places_all:
  assumes "findPlaceFor check get_meta rands removedNode pods nodes infs oldHints newHints tr t = (None, hints', tr')"
  shows "\<exists>targets infs'.
     placed check get_meta removedNode infs (map unbound (ClearTPURequests pods)) targets infs' \<and>
     hints' = foldl (\<lambda>m (p, target). mput (podKey p) target m) newHints (zip (ClearTPURequests pods) targets) \<and>
     tr' = foldl (\<lambda>r target. RegisterUsage removedNode target t r) tr targets"
  using findPlaceFor_result [OF assms] by auto

definition fits_all :: "pod \<Rightarrow> unit \<Rightarrow> nodeInfo \<Rightarrow> bool" where
  "fits_all p m info \<longleftrightarrow> length (ni_Pods info) < 2"

definition demo_infos :: infos where
  "demo_infos = CreateNodeNameToInfoMap [] [named_node ''n1'', named_node ''n2'']"

lemmas search_defs = findPlaceFor_def shuffleNodes_def upt_rec swap_def ClearTPURequests_def hasTPURequest_def
  find_target_def tryHint_def tryNodeForPod_def podKey_def demo_infos_def CreateNodeNameToInfoMap_def
  set_node_info_def named_node_def mget0_def fits_all_def add_to_info_def mdel_where_def mput_def mdel_def
  NewNodeInfo_def Let_def

lemma demo_search:
  "fst (findPlaceFor fits_all (\<lambda>_ _. ()) (\<lambda>i. 0) ''n1'' [plain_pod ''a'' ''p''] [named_node ''n1'', named_node ''n2'']
     demo_infos [] [] NewUsageTracker 5) = None"
  by (simp add: search_defs plain_pod_def)

lemma findPlaceFor_places_all_witness:
  "\<exists>targets infs'. placed fits_all (\<lambda>_ _. ()) ''n1'' demo_infos
     (map unbound (ClearTPURequests [plain_pod ''a'' ''p''])) targets infs'"
proof -
  obtain h r where "findPlaceFor fits_all (\<lambda>_ _. ()) (\<lambda>i. 0) ''n1'' [plain_pod ''a'' ''p'']
      [named_node ''n1'', named_node ''n2''] demo_infos [] [] NewUsageTracker 5 = (None, h, r)"
    using demo_search by (metis prod.collapse)
  from findPlaceFor_places_all [OF this] show ?thesis by blast
qed

text \<open>
  A search fails only for want of a place.  When \<open>findPlaceFor\<close> reports a problem, some pod
  fits on none of the listed nodes other than the removed one, with the pods before it placed.
  The hints and usages of those earlier pods stay recorded although the node is not removable.
\<close>

theorem findPlaceFor_fails_without_place:
  assumes "findPlaceFor check get_meta rands removedNode pods nodes infs oldHints newHints tr t = (Some msg, hints', tr')"
    and "\<And>i. i < length nodes \<Longrightarrow> rands i < length nodes"
  shows "\<exists>us p vs targets infs'. ClearTPURequests pods = us @ p # vs \<and>
     placed check get_meta removedNode infs (map unbound us) targets infs' \<and>
     no_place check get_meta removedNode nodes infs' (unbound p) \<and>
     msg = ''failed to find place for '' @ podKey p \<and>
     hints' = foldl (\<lambda>m (p, target). mput (podKey p) target m) newHints (zip us targets) \<and>
     tr' = foldl (\<lambda>r target. RegisterUsage removedNode target t r) tr targets"
proof -
  have "set (shuffleNodes rands nodes) = set nodes"
    using assms(2) by (intro mset_eq_setD mset_shuffleNodes)
  then have same: "no_place check get_meta removedNode (shuffleNodes rands nodes) infs' p \<longleftrightarrow>
      no_place check get_meta removedNode nodes infs' p" for infs' p
    by (simp add: no_place_def)
  show ?thesis
    using findPlaceFor_result [OF assms(1)] by (auto simp: same)
qed

lemma findPlaceFor_fails_without_place_witness:
  "\<exists>us p vs targets infs'. ClearTPURequests (map (plain_pod ''a'') [''p'', ''q'', ''r'']) = us @ p # vs \<and>
     placed fits_all (\<lambda>_ _. ()) ''n1'' demo_infos (map unbound us) targets infs' \<and>
     no_place fits_all (\<lambda>_ _. ()) ''n1'' [named_node ''n1'', named_node ''n2''] infs' (unbound p)"
proof -
  let ?r = "findPlaceFor fits_all (\<lambda>_ _. ()) (\<lambda>i. 0) ''n1'' (map (plain_pod ''a'') [''p'', ''q'', ''r''])
      [named_node ''n1'', named_node ''n2''] demo_infos [] [] NewUsageTracker 5"
  have "fst ?r \<noteq> None" by (simp add: search_defs plain_pod_def)
  then obtain msg h r where "?r = (Some msg, h, r)" by (metis not_None_eq prod.collapse)
  from findPlaceFor_fails_without_place [OF this] show ?thesis by fastforce
qed

section \<open>The candidate loop\<close>

text \<open>A node that can be removed: its pods are known and each has another place.\<close>

definition removable ::
  "(nodeInfo \<Rightarrow> drainError + pod list) \<Rightarrow> 'm predicates \<Rightarrow> 'm metadata \<Rightarrow> infos \<Rightarrow> nodeToBeRemoved \<Rightarrow> bool" where
  "removable get_pods check get_meta infs r \<longleftrightarrow> (\<exists>info targets infs'.
     mget infs (n_Name (nr_Node r)) = Some info \<and> get_pods info = Inr (nr_PodsToReschedule r) \<and>
     placed check get_meta (n_Name (nr_Node r)) infs
       (map unbound (ClearTPURequests (nr_PodsToReschedule r))) targets infs')"

text \<open>What holds of the state after the candidates \<open>seen\<close>.\<close>

definition removal_inv ::
  "(nodeInfo \<Rightarrow> drainError + pod list) \<Rightarrow> 'm predicates \<Rightarrow> 'm metadata \<Rightarrow> infos \<Rightarrow> node list \<Rightarrow> removalState \<Rightarrow> bool" where
  "removal_inv get_pods check get_meta infs seen st \<longleftrightarrow>
     mset (map nr_Node (rs_Result st)) + mset (rs_Unremovable st) = mset seen \<and>
     (\<forall>r\<in>set (rs_Result st). removable get_pods check get_meta infs r)"

lemma removal_inv_step:
  assumes "removal_inv get_pods check get_meta infs seen st"
    and "candidate_step get_pods check get_meta allNodes infs maxCount oldHints t rands st n = (st', stop)"
  shows "removal_inv get_pods check get_meta infs (seen @ [n]) st' \<and>
     (stop \<longrightarrow> maxCount \<le> int (length (rs_Result st'))) \<and>
     (\<not> stop \<longrightarrow> rs_Result st' = rs_Result st \<or> int (length (rs_Result st')) < maxCount) \<and>
     length (rs_Result st') \<le> length (rs_Result st) + 1"
proof (cases "mget infs (n_Name n)")
  case None
  then show ?thesis using assms by (auto simp: candidate_step_def removal_inv_def)
next
  case info: (Some info)
  show ?thesis
  proof (cases "get_pods info")
    case (Inl err)
    then show ?thesis using assms info by (auto simp: candidate_step_def removal_inv_def)
  next
    case (Inr ps)
    obtain problem h r where f: "findPlaceFor check get_meta rands (n_Name n) ps allNodes infs oldHints
        (rs_Hints st) (rs_Tracker st) t = (problem, h, r)" by (cases rule: prod_cases3) 
    show ?thesis
    proof (cases problem)
      case (Some msg)
      then show ?thesis using assms info Inr f by (auto simp: candidate_step_def removal_inv_def Let_def)
    next
      case None
      then have "removable get_pods check get_meta infs \<lparr>nr_Node = n, nr_PodsToReschedule = ps\<rparr>"
        using findPlaceFor_result [OF f] info Inr by (auto simp: removable_def)
      then show ?thesis using assms info Inr f None
        by (auto simp: candidate_step_def removal_inv_def Let_def)
    qed
  qed
qed

lemma candidate_loop_inv:
  assumes "removal_inv get_pods check get_meta infs seen st"
    and "rs_Result st = [] \<or> int (length (rs_Result st)) < maxCount"
    and "st' = candidate_loop (\<lambda>k. candidate_step get_pods check get_meta allNodes infs maxCount oldHints t (rands k)) k st ns"
  shows "\<exists>us vs. ns = us @ vs \<and> removal_inv get_pods check get_meta infs (seen @ us) st' \<and>
     (vs \<noteq> [] \<longrightarrow> maxCount \<le> int (length (rs_Result st'))) \<and>
     int (length (rs_Result st')) \<le> max 1 maxCount"
  using assms
proof (induction ns arbitrary: seen k st)
  case Nil
  then show ?case by auto
next
  case (Cons n ns)
  let ?step = "\<lambda>k. candidate_step get_pods check get_meta allNodes infs maxCount oldHints t (rands k)"
  obtain st1 stop where step: "?step k st n = (st1, stop)" by (cases "?step k st n")
  note s = removal_inv_step [OF Cons.prems(1) step]
  show ?case
  proof (cases stop)
    case True
    then have "st' = st1" using Cons.prems(3) step by simp
    then show ?thesis using s True Cons.prems(2)
      by (intro exI [of _ "[n]"] exI [of _ ns]) auto
  next
    case False
    then have st': "st' = candidate_loop ?step (k + 1) st1 ns" using Cons.prems(3) step by simp
    have "rs_Result st1 = [] \<or> int (length (rs_Result st1)) < maxCount" using s False Cons.prems(2) by auto
    from Cons.IH [OF conjunct1 [OF s] this st'] obtain us vs where
      "ns = us @ vs" "removal_inv get_pods check get_meta infs ((seen @ [n]) @ us) st'"
      "vs \<noteq> [] \<longrightarrow> maxCount \<le> int (length (rs_Result st'))" "int (length (rs_Result st')) \<le> max 1 maxCount"
      by blast
    then show ?thesis by (intro exI [of _ "n # us"] exI [of _ vs]) simp
  qed
qed

lemma FindNodesToRemove_inv:
  assumes "st = FindNodesToRemove get_pods check get_meta rands candidates allNodes pods maxCount oldHints tr t"
  obtains seen unseen where "candidates = seen @ unseen"
    "removal_inv get_pods check get_meta (CreateNodeNameToInfoMap pods allNodes) seen st"
    "unseen \<noteq> [] \<longrightarrow> maxCount \<le> int (length (rs_Result st))"
    "int (length (rs_Result st)) \<le> max 1 maxCount"
proof -
  let ?st0 = "\<lparr>rs_Result = [], rs_Unremovable = [], rs_Hints = [], rs_Tracker = tr\<rparr>"
  have "removal_inv get_pods check get_meta (CreateNodeNameToInfoMap pods allNodes) [] ?st0"
    "rs_Result ?st0 = [] \<or> int (length (rs_Result ?st0)) < maxCount"
    by (simp_all add: removal_inv_def)
  from candidate_loop_inv [OF this assms [unfolded FindNodesToRemove_def Let_def]] show thesis
    using that by auto
qed

text \<open>
  What \<open>FindNodesToRemove\<close> returns.  The candidates it looked at, a prefix of the list, are
  split into nodes to remove and unremovable nodes; each node to remove has a node info whose pods
  the drain check accepts, and a place elsewhere for every one of them.  Candidates are left unseen
  only once \<open>maxCount\<close> nodes are found, and never more than \<open>maxCount\<close> (at least one) are returned.
\<close>

theorem FindNodesToRemove_spec:
  assumes "st = FindNodesToRemove get_pods check get_meta rands candidates allNodes pods maxCount oldHints tr t"
  shows "\<exists>seen unseen. candidates = seen @ unseen \<and>
     mset (map nr_Node (rs_Result st)) + mset (rs_Unremovable st) = mset seen \<and>
     (\<forall>r\<in>set (rs_Result st). removable get_pods check get_meta (CreateNodeNameToInfoMap pods allNodes) r) \<and>
     (unseen \<noteq> [] \<longrightarrow> maxCount \<le> int (length (rs_Result st))) \<and>
     int (length (rs_Result st)) \<le> max 1 maxCount"
  using FindNodesToRemove_inv [OF assms] unfolding removal_inv_def by metis

lemma FindNodesToRemove_spec_witness:
  "\<exists>seen unseen. [named_node ''n1'', named_node ''n2''] = seen @ unseen \<and> unseen = []"
proof -
  define st where "st = FindNodesToRemove
      (get_pods_to_move label_selector 0 True True True no_client 0 []) fits_all (\<lambda>_ _. ()) (\<lambda>k i. 0)
      [named_node ''n1'', named_node ''n2''] [named_node ''n1'', named_node ''n2'']
      [(owned_pod ''ReplicaSet'' ''web'')\<lparr>pod_NodeName := ''n1''\<rparr>] 5 [] NewUsageTracker 5"
  obtain seen unseen where s: "[named_node ''n1'', named_node ''n2''] = seen @ unseen"
    "mset (map nr_Node (rs_Result st)) + mset (rs_Unremovable st) = mset seen"
    "unseen \<noteq> [] \<longrightarrow> (5::int) \<le> int (length (rs_Result st))"
    using FindNodesToRemove_spec [OF st_def] by blast
  have "length (rs_Result st) \<le> size (mset seen)"
    by (simp flip: s(2))
  also have "\<dots> \<le> length (seen @ unseen)" by simp
  finally have "length (rs_Result st) \<le> 2" by (simp flip: s(1))
  with s(3) have "unseen = []" by linarith
  with s(1) show ?thesis by blast
qed

section \<open>Utilization\<close>

lemma pod_request_sum:
  "pod_request res a p = a + sum_list (map (\<lambda>c. mget0 0 (ct_Requests c) res) (pod_Containers p))"
proof -
  have "(\<lambda>q (c :: container). case mget (ct_Requests c) res of Some v \<Rightarrow> q + v | None \<Rightarrow> q) =
      (\<lambda>q c. q + mget0 0 (ct_Requests c) res)"
    by (intro ext) (simp add: mget0_def split: option.split)
  then show ?thesis by (simp only: pod_request_def foldl_add_int)
qed

lemma requests_snoc:
  "foldl (pod_request res) 0 (filter P (ps @ [p])) =
     foldl (pod_request res) 0 (filter P ps) +
     (if P p then sum_list (map (\<lambda>c. mget0 0 (ct_Requests c) res) (pod_Containers p)) else 0)"
  by (simp add: pod_request_sum)

text \<open>
  A pod never lowers the utilization.  If the node's allocatable amount is positive and fits an
  \<open>int64\<close>, adding a pod whose requests are not negative gives a utilization that is, as a
  \<open>float64\<close>, at least the one before, whatever is rounded on the way.
\<close>

theorem utilization_grows_with_pods:
  assumes "calculateUtilizationOfResource n info res skipD skipM = Inr u"
    and "mget (n_Allocatable n) res = Some alloc" "0 < MilliValue alloc" "MilliValue alloc \<le> maxInt64"
    and "\<And>c. c \<in> set (pod_Containers p) \<Longrightarrow> 0 \<le> mget0 0 (ct_Requests c) res"
  shows "\<exists>v. calculateUtilizationOfResource n (info\<lparr>ni_Pods := ni_Pods info @ [p]\<rparr>) res skipD skipM = Inr v \<and>
     fle u v"
proof -
  let ?req = "\<lambda>ps. foldl (pod_request res) 0 (filter (counted_pod skipD skipM) ps)"
  obtain c where c: "f_of_int (MilliValue alloc) = Fin c" "0 < c"
    using f_of_int_i64 [of "MilliValue alloc"] assms(3,4) by (auto simp: maxInt64_def)
  have "?req (ni_Pods info) \<le> ?req (ni_Pods info @ [p])"
    unfolding requests_snoc using assms(5) by (auto intro!: sum_list_nonneg)
  then have "MilliValue (?req (ni_Pods info)) \<le> MilliValue (?req (ni_Pods info @ [p]))"
    unfolding MilliValue_def by (intro quantity_ceil_mono) simp
  then have "fle (fdiv (f_of_int (MilliValue (?req (ni_Pods info)))) (Fin c))
      (fdiv (f_of_int (MilliValue (?req (ni_Pods info @ [p])))) (Fin c))"
    using c(2) by (intro fdiv_mono_left f_of_int_mono)
  then show ?thesis
    using assms(1-3) by (auto simp: calculateUtilizationOfResource_def c(1))
qed

definition cpu_pod :: "int \<Rightarrow> pod" where
  "cpu_pod m = (plain_pod ''default'' ''p'')\<lparr>pod_Containers :=
     [\<lparr>ct_Name = ''c'', ct_Requests = [(''cpu'', NewMilliQuantity m)], ct_HostPorts = []\<rparr>]\<rparr>"

lemma utilization_grows_with_pods_witness:
  "\<exists>v. calculateUtilizationOfResource (empty_node\<lparr>n_Allocatable := [(''cpu'', NewMilliQuantity 2000)]\<rparr>)
      (NewNodeInfo [cpu_pod 500, cpu_pod 250]) ''cpu'' False False = Inr v \<and>
     fle (fdiv (f_of_int 500) (f_of_int 2000)) v"
proof -
  let ?n = "empty_node\<lparr>n_Allocatable := [(''cpu'', NewMilliQuantity 2000)]\<rparr>"
  have "calculateUtilizationOfResource ?n (NewNodeInfo [cpu_pod 500]) ''cpu'' False False =
      Inr (fdiv (f_of_int 500) (f_of_int 2000))"
    by (simp add: calculateUtilizationOfResource_def NewNodeInfo_def counted_pod_def pod_request_sum
        cpu_pod_def mget0_def)
  from utilization_grows_with_pods [OF this, of "NewMilliQuantity 2000" "cpu_pod 250"] show ?thesis
    by (simp add: NewNodeInfo_def cpu_pod_def mget0_def NewMilliQuantity_def [of 250] maxInt64_def)
qed

end
