(* ===== verification/ScaleDownProps.thy ===== *)
theory ScaleDownProps
  imports ScaleDown SimulatorProps
begin

text \<open>
  What the scale-down state machine guarantees: which nodes an update declares unneeded and since
  when, and what holds of a node whose deletion is started.
\<close>

section \<open>The nodes that are checked\<close>

lemma filter_checked_nodes:
  "snd (filter_checked t unremovable ns) = filter (\<lambda>n. \<not> (\<exists>u. mget unremovable (n_Name n) = Some u \<and> t < u)) ns"
proof (induction ns arbitrary: unremovable)
  case (Cons n ns)
  show ?case
  proof (cases "mget unremovable (n_Name n)")
    case None
    then show ?thesis using Cons.IH by simp
  next
    case (Some u)
    show ?thesis
    proof (cases "t < u")
      case True
      then show ?thesis using Some Cons.IH by (simp add: time_after_def)
    next
      case False
      have "filter (\<lambda>m. \<not> (\<exists>u. mget (mdel (n_Name n) unremovable) (n_Name m) = Some u \<and> t < u)) ns =
          filter (\<lambda>m. \<not> (\<exists>u. mget unremovable (n_Name m) = Some u \<and> t < u)) ns"
        using Some False by (intro filter_cong) auto
      then show ?thesis using Some False Cons.IH by (simp add: time_after_def)
    qed
  qed
qed simp

lemma mget_updateUnremovableNodes:
  "mget (updateUnremovableNodes nodes m) k = (if k \<in> n_Name ` set nodes then mget m k else None)"
proof -
  have del: "mget (foldl (\<lambda>m n. mdel (n_Name n) m) r ns) k = (if k \<in> n_Name ` set ns then None else mget r k)"
    for r :: "(string, unit) gomap" and ns :: "node list" and k
    by (induction ns arbitrary: r) auto
  have keys: "mget (map (\<lambda>(k, _). (k, ())) xs) k = map_option (\<lambda>_. ()) (mget xs k)" for xs :: "(string, time) gomap" and k
    by (induction xs) auto
  have drop: "mget (foldl (\<lambda>m (k, _). mdel k m) r ys) k = (if mget ys k = None then mget r k else None)"
    for r :: "(string, time) gomap" and ys :: "(string, unit) gomap"
    by (induction ys arbitrary: r) (auto split: if_splits)
  show ?thesis
    by (auto simp: updateUnremovableNodes_def Let_def drop del keys split: if_splits)
qed

definition phase1_ok :: "('m, 'sel) scaleDownEnv \<Rightarrow> time \<Rightarrow> infos \<Rightarrow> node \<Rightarrow> bool" where
  "phase1_ok env timestamp infs n \<longleftrightarrow>
     \<not> isNodeBeingDeleted n timestamp \<and> \<not> hasNoScaleDownAnnotation n \<and>
     (\<exists>info. mget infs (n_Name n) = Some info \<and>
        \<not> fle (env_ScaleDownUtilizationThreshold env) (ui_Utilization (utilization_of env n info)))"

lemma phase1_nodes:
  "snd (foldl (phase1_step env t infs) acc ns) = snd acc @ filter (phase1_ok env t infs) ns"
proof (induction ns arbitrary: acc)
  case (Cons n ns)
  have "snd (phase1_step env t infs acc n) = snd acc @ (if phase1_ok env t infs n then [n] else [])"
    by (auto simp: phase1_step_def phase1_ok_def Let_def split: option.split)
  then show ?case by (simp add: Cons.IH)
qed simp

section \<open>The two searches\<close>

lemma removal_inv_nodes:
  assumes "removal_inv get_pods check get_meta infs seen st" "r \<in> set (rs_Result st)"
  shows "nr_Node r \<in> set seen"
proof -
  have "nr_Node r \<in># mset (map nr_Node (rs_Result st)) + mset (rs_Unremovable st)" using assms(2) by auto
  moreover have "mset (map nr_Node (rs_Result st)) + mset (rs_Unremovable st) = mset seen"
    using assms(1) by (simp add: removal_inv_def)
  ultimately have "nr_Node r \<in># mset seen" by (simp only:)
  then show ?thesis by simp
qed

lemma find_nodes_result:
  assumes "r \<in> set (rs_Result (find_nodes env run pdbs candidates nodes pods maxCount hints tr t))"
  shows "nr_Node r \<in> set candidates"
proof -
  obtain seen unseen where c: "candidates = seen @ unseen" and
    inv: "removal_inv (get_pods_to_move (env_as_selector env) (env_now env) True (env_skipNodesWithSystemPods env)
          (env_skipNodesWithLocalStorage env) no_client (env_minReplicaCount env) pdbs)
        (env_predicates env) (env_metadata env) (CreateNodeNameToInfoMap pods nodes) seen
        (find_nodes env run pdbs candidates nodes pods maxCount hints tr t)"
    by (rule FindNodesToRemove_inv [OF find_nodes_def])
  show ?thesis using removal_inv_nodes [OF inv assms] by (simp add: c)
qed

lemma phase2_result:
  assumes "phase2 env pdbs cs ncs nodes pods hints tr t = Some st" "r \<in> set (rs_Result st)"
  shows "nr_Node r \<in> set cs \<union> set ncs"
  using assms find_nodes_result
  by (fastforce simp: phase2_def Let_def dest: in_set_takeD split: if_splits)

lemma chooseCandidates_set: "chooseCandidates env sd ns = (cs, ncs) \<Longrightarrow> set cs \<union> set ncs = set ns"
  by (auto simp: chooseCandidates_def split: if_splits)

lemma unneeded_since_get:
  "mget (unneeded_since old t rs) k =
     (if k \<in> n_Name ` nr_Node ` set rs then Some (case mget old k of None \<Rightarrow> t | Some v \<Rightarrow> v) else None)"
proof -
  have "mget (foldl (\<lambda>m r. let name = n_Name (nr_Node r)
          in case mget old name of None \<Rightarrow> mput name t m | Some v \<Rightarrow> mput name v m) m rs) k =
      (if k \<in> n_Name ` nr_Node ` set rs then Some (case mget old k of None \<Rightarrow> t | Some v \<Rightarrow> v) else mget m k)" for m
    by (induction rs arbitrary: m) (auto simp: Let_def split: option.splits)
  then show ?thesis by (simp add: unneeded_since_def)
qed

text \<open>An update taken apart.\<close>

lemma UpdateUnneededNodes_cases:
  assumes "UpdateUnneededNodes env nodes nodesToCheck pods t pdbs sd = Some sd'"
  obtains filtered empties st cs ncs where
    "filtered = filter (\<lambda>n. \<not> (\<exists>u. mget (updateUnremovableNodes nodes (sd_unremovableNodes sd)) (n_Name n) = Some u \<and> t < u))
       nodesToCheck"
    "set empties \<subseteq> set (filter (phase1_ok env t (CreateNodeNameToInfoMap
       (FilterOutExpendablePods pods (env_ExpendablePodsPriorityCutoff env)) nodes)) filtered)"
    "set cs \<union> set ncs \<subseteq> set (filter (phase1_ok env t (CreateNodeNameToInfoMap
       (FilterOutExpendablePods pods (env_ExpendablePodsPriorityCutoff env)) nodes)) filtered)"
    "phase2 env pdbs cs ncs nodes (FilterOutExpendablePods pods (env_ExpendablePodsPriorityCutoff env))
       (sd_podLocationHints sd) (sd_usageTracker sd) t = Some st"
    "sd_unneededNodesList sd' = map nr_Node (rs_Result st) @ empties"
    "sd_unneededNodes sd' = unneeded_since (sd_unneededNodes sd) t
       (rs_Result st @ map (\<lambda>n. \<lparr>nr_Node = n, nr_PodsToReschedule = []\<rparr>) empties)"
    "set empties \<subseteq> set (FindEmptyNodesToRemove (env_as_selector env) (env_now env)
       (filter (phase1_ok env t (CreateNodeNameToInfoMap
          (FilterOutExpendablePods pods (env_ExpendablePodsPriorityCutoff env)) nodes)) filtered) pods)"
proof -
  let ?np = "FilterOutExpendablePods pods (env_ExpendablePodsPriorityCutoff env)"
  let ?infs = "CreateNodeNameToInfoMap ?np nodes"
  let ?un = "updateUnremovableNodes nodes (sd_unremovableNodes sd)"
  obtain un1 filtered where f: "filter_checked t ?un nodesToCheck = (un1, filtered)" by (cases "filter_checked t ?un nodesToCheck")
  obtain umap current where p: "foldl (phase1_step env t ?infs) ([], []) filtered = (umap, current)"
    by (cases "foldl (phase1_step env t ?infs) ([], []) filtered")
  have current: "current = filter (phase1_ok env t ?infs) filtered"
    using phase1_nodes [of env t ?infs "([], [])" filtered] p by simp
  obtain empties where e: "getEmptyNodesNoResourceLimits (env_template env) (env_as_selector env) (env_now env)
      current pods (int (length current)) (env_CloudProvider env) = Some empties"
    using assms by (auto simp: UpdateUnneededNodes_def Let_def f p split: option.splits)
  define nonEmpty where "nonEmpty = filter (\<lambda>n. n_Name n \<notin> n_Name ` set empties) current"
  obtain cs ncs where c: "chooseCandidates env sd nonEmpty = (cs, ncs)" by (cases "chooseCandidates env sd nonEmpty")
  obtain st where st: "phase2 env pdbs cs ncs nodes ?np (sd_podLocationHints sd) (sd_usageTracker sd) t = Some st"
    using assms by (auto simp: UpdateUnneededNodes_def Let_def f p e c nonEmpty_def [symmetric] split: option.splits)
  have sd': "sd_unneededNodesList sd' = map nr_Node (rs_Result st) @ empties"
    "sd_unneededNodes sd' = unneeded_since (sd_unneededNodes sd) t
       (rs_Result st @ map (\<lambda>n. \<lparr>nr_Node = n, nr_PodsToReschedule = []\<rparr>) empties)"
    using assms by (auto simp: UpdateUnneededNodes_def Let_def f p e c nonEmpty_def [symmetric] st comp_def)
  have emp: "set empties \<subseteq> set (FindEmptyNodesToRemove (env_as_selector env) (env_now env) current pods)"
    using getEmptyNodes_take [OF e [unfolded getEmptyNodesNoResourceLimits_def]] es_result_subset
    by (metis (no_types, lifting) emptyState.select_convs(3) empty_set order_trans set_take_subset sup_bot_left)
  moreover have "set (FindEmptyNodesToRemove (env_as_selector env) (env_now env) current pods) \<subseteq> set current"
    by (auto simp: FindEmptyNodesToRemove_def Let_def)
  ultimately have sub: "set empties \<subseteq> set current" by blast
  have "set cs \<union> set ncs \<subseteq> set current" using chooseCandidates_set [OF c] by (auto simp: nonEmpty_def)
  moreover have "filtered = filter (\<lambda>n. \<not> (\<exists>u. mget ?un (n_Name n) = Some u \<and> t < u)) nodesToCheck"
    using filter_checked_nodes [of t ?un nodesToCheck] by (simp add: f)
  ultimately show thesis
    using that [of filtered empties cs ncs st] sub st sd' emp unfolding current by blast
qed

section \<open>Properties of an update\<close>

text \<open>
  Unneeded since when.  After an update the map of unneeded nodes has exactly the names of
  the nodes in the list; a node that was unneeded before keeps the time it was first found so, a new
  one gets the time of the update, and a node that was found needed once starts anew.
\<close>

theorem unneeded_since_first_found:
  assumes "UpdateUnneededNodes env nodes nodesToCheck pods t pdbs sd = Some sd'"
  shows "mget (sd_unneededNodes sd') name =
     (if name \<in> n_Name ` set (sd_unneededNodesList sd')
      then Some (case mget (sd_unneededNodes sd) name of None \<Rightarrow> t | Some since \<Rightarrow> since) else None)"
proof -
  obtain st :: removalState and empties where
    "sd_unneededNodesList sd' = map nr_Node (rs_Result st) @ empties"
    "sd_unneededNodes sd' = unneeded_since (sd_unneededNodes sd) t
       (rs_Result st @ map (\<lambda>n. \<lparr>nr_Node = n, nr_PodsToReschedule = []\<rparr>) empties)"
    by (rule UpdateUnneededNodes_cases [OF assms]) blast
  then show ?thesis by (simp add: unneeded_since_get image_image image_Un)
qed

lemma pool_size_min: "0 \<le> env_ScaleDownCandidatesPoolMinCount env \<Longrightarrow> 0 \<le> pool_size env a b"
  by (simp add: pool_size_def Let_def)

lemma getEmptyNodes_total:
  assumes "0 \<le> maxBulk"
  shows "\<exists>ns. getEmptyNodes template as_sel now candidates pods maxBulk lims cp = Some ns"
  using assms by (simp add: getEmptyNodes_def Let_def)

text \<open>
  An update never panics when the minimum size of the candidate pool is not negative,
  whatever the ratio of the pool is.
\<close>

theorem UpdateUnneededNodes_no_panic:
  assumes "0 \<le> env_ScaleDownCandidatesPoolMinCount env"
  shows "UpdateUnneededNodes env nodes nodesToCheck pods t pdbs sd \<noteq> None"
proof -
  have p2: "phase2 env pdbs cs ncs nodes ps hints tr t \<noteq> None" for cs ncs ps hints tr
    using pool_size_min [OF assms, of "length nodes" "length ncs"] by (simp add: phase2_def Let_def not_less)
  have empties: "getEmptyNodesNoResourceLimits (env_template env) (env_as_selector env) (env_now env) cs ps
      (int k) (env_CloudProvider env) \<noteq> None" for cs ps k
    by (simp add: getEmptyNodesNoResourceLimits_def getEmptyNodes_def Let_def)
  show ?thesis
    unfolding UpdateUnneededNodes_def Let_def
    by (auto simp: p2 empties split: option.split prod.split)
qed

text \<open>
  C36: What makes a node unneeded.  Every node an update declares unneeded was to be checked,
  is not known to be unremovable beyond now, is not being deleted, is not annotated against
  scale-down, and is used less than the threshold; a node whose utilization cannot be computed counts as
  unused.
\<close>

theorem unneeded_nodes_qualify:
  assumes "UpdateUnneededNodes env nodes nodesToCheck pods t pdbs sd = Some sd'"
    and "n \<in> set (sd_unneededNodesList sd')"
  shows "n \<in> set nodesToCheck \<and>
     (\<forall>u. mget (sd_unremovableNodes sd) (n_Name n) = Some u \<longrightarrow> n_Name n \<in> n_Name ` set nodes \<longrightarrow> u \<le> t) \<and>
     \<not> isNodeBeingDeleted n t \<and> \<not> hasNoScaleDownAnnotation n \<and>
     (\<exists>info. mget (CreateNodeNameToInfoMap (FilterOutExpendablePods pods (env_ExpendablePodsPriorityCutoff env)) nodes)
               (n_Name n) = Some info \<and>
        \<not> fle (env_ScaleDownUtilizationThreshold env) (ui_Utilization (utilization_of env n info)))"
proof -
  let ?infs = "CreateNodeNameToInfoMap (FilterOutExpendablePods pods (env_ExpendablePodsPriorityCutoff env)) nodes"
  let ?checked = "filter (\<lambda>n. \<not> (\<exists>u. mget (updateUnremovableNodes nodes (sd_unremovableNodes sd)) (n_Name n) = Some u \<and> t < u))
       nodesToCheck"
  obtain empties st cs ncs where e: "set empties \<subseteq> set (filter (phase1_ok env t ?infs) ?checked)"
    and c: "set cs \<union> set ncs \<subseteq> set (filter (phase1_ok env t ?infs) ?checked)"
    and p: "phase2 env pdbs cs ncs nodes (FilterOutExpendablePods pods (env_ExpendablePodsPriorityCutoff env))
       (sd_podLocationHints sd) (sd_usageTracker sd) t = Some st"
    and l: "sd_unneededNodesList sd' = map nr_Node (rs_Result st) @ empties"
    by (rule UpdateUnneededNodes_cases [OF assms(1)]) blast
  have "set (map nr_Node (rs_Result st)) \<subseteq> set cs \<union> set ncs"
    using phase2_result [OF p] by auto
  then have "n \<in> set (filter (phase1_ok env t ?infs) ?checked)"
    using assms(2) e c unfolding l set_append by blast
  then show ?thesis
    by (auto simp: phase1_ok_def mget_updateUnremovableNodes not_less)
qed

section \<open>Properties of a scale-down\<close>

text \<open>A node that may go: unneeded for long enough, not annotated, in a group above its minimum.\<close>

definition long_unneeded :: "('m, 'sel) scaleDownEnv \<Rightarrow> scaleDown \<Rightarrow> time \<Rightarrow> node \<Rightarrow> bool" where
  "long_unneeded env sd currentTime n \<longleftrightarrow>
     (\<exists>since ng sz. mget (sd_unneededNodes sd) (n_Name n) = Some since \<and> \<not> hasNoScaleDownAnnotation n \<and>
        since + (if nodeIsReady n then env_ScaleDownUnneededTime env else env_ScaleDownUnreadyTime env) < currentTime \<and>
        cp_NodeGroupForNode (env_CloudProvider env) n = Inr (Some ng) \<and>
        mget (getNodeGroupSizeMap (env_CloudProvider env)) (ng_Id ng) = Some sz \<and> ng_MinSize ng < sz)"

lemma candidate_group_long_unneeded:
  "candidate_group env sd t (getNodeGroupSizeMap (env_CloudProvider env)) rs left n = Some ng \<Longrightarrow>
     long_unneeded env sd t n"
  by (auto simp: candidate_group_def long_unneeded_def time_defs split: option.splits sum.splits if_splits)

lemma scale_down_candidates_nodes:
  "fst (scale_down_candidates env sd t limiter left nodes) =
     filter (\<lambda>n. candidate_group env sd t (getNodeGroupSizeMap (env_CloudProvider env)) (GetResources limiter) left n \<noteq> None)
       nodes"
proof -
  have "fst (foldl (\<lambda>(cs, gs) n. case g n of None \<Rightarrow> (cs, gs) | Some ng \<Rightarrow> (cs @ [n], mput (n_Name n) ng gs)) acc nodes) =
      fst acc @ filter (\<lambda>n. g n \<noteq> None) nodes" for g :: "node \<Rightarrow> nodeGroup option" and acc
    by (induction nodes arbitrary: acc) (auto split: option.splits prod.splits)
  from this [where acc = "([], [])"] show ?thesis unfolding scale_down_candidates_def by simp
qed

lemma masters_get:
  "mget0 False (foldl (\<lambda>m p. if P p then mput (f p) True m else m) m pods) k = (mget0 False m k \<or> (\<exists>p\<in>set pods. P p \<and> f p = k))"
  by (induction pods arbitrary: m) auto

lemma filterOutMasters_iff:
  "filterOutMasters nodes pods =
     filter (\<lambda>n. \<not> (\<exists>p\<in>set pods. pod_Namespace p = ''kube-system'' \<and>
       mget0 '''' (pod_Labels p) ''component'' = ''kube-apiserver'' \<and> pod_NodeName p = n_Name n)) nodes"
  by (simp add: filterOutMasters_def masters_get mget0_None)

lemma mapNodes_nodes: "map sdn_Node (mapNodesToStatusScaleDownNodes sd ns groups evicted) = ns"
  by (simp add: mapNodesToStatusScaleDownNodes_def comp_def)

lemma mapNodes_in: "x \<in> set (mapNodesToStatusScaleDownNodes sd ns groups evicted) \<Longrightarrow> sdn_Node x \<in> set ns"
  by (auto simp: mapNodesToStatusScaleDownNodes_def)

lemma forget_nodes_frame:
  "sd_nodeDeleteStatus (forget_nodes ns sd) = sd_nodeDeleteStatus sd"
  "sd_clusterStateRegistry (forget_nodes ns sd) = sd_clusterStateRegistry sd"
  by (induction ns arbitrary: sd) (auto simp: forget_nodes_def split: prod.splits)

lemma forget_one_unneeded: "mget (sd_unneededNodes (forget_nodes [n] sd)) (n_Name n) = None"
  by (auto simp: forget_nodes_def RemoveNodeFromTracker_def Let_def am.lookup_remove_loop split: prod.splits option.splits)

lemma FindEmpty_subset: "set (FindEmptyNodesToRemove as_sel now cs pods) \<subseteq> set cs"
  by (auto simp: FindEmptyNodesToRemove_def Let_def)

lemma getEmptyNodes_subset:
  assumes "getEmptyNodes template as_sel now cs pods maxBulk lims cp = Some ns"
  shows "set ns \<subseteq> set cs"
proof -
  obtain st k where "ns = take k (es_result st)"
    "st = foldl (empty_node_step template cp (sort (mkeys lims)))
       \<lparr>es_available = [], es_limits = lims, es_result = []\<rparr> (FindEmptyNodesToRemove as_sel now cs pods)"
    by (rule getEmptyNodes_take [OF assms]) blast
  then have "set ns \<subseteq> set (FindEmptyNodesToRemove as_sel now cs pods)"
    using es_result_subset [of template cp "sort (mkeys lims)"
        "\<lparr>es_available = [], es_limits = lims, es_result = []\<rparr>" "FindEmptyNodesToRemove as_sel now cs pods"]
      set_take_subset [of k "es_result st"] by auto
  then show ?thesis using FindEmpty_subset by blast
qed

abbreviation drained :: "scaleDown \<Rightarrow> scaleDown" where
  "drained sd \<equiv> sd\<lparr>sd_nodeDeleteStatus := snd (DrainNodeDeleteResults (sd_nodeDeleteStatus sd))\<rparr>"

text \<open>The search for a node to drain, among the candidates.\<close>

abbreviation drain_pods where
  "drain_pods env pdbs \<equiv> get_pods_to_move (env_as_selector env) (env_now env) False (env_skipNodesWithSystemPods env)
     (env_skipNodesWithLocalStorage env) (env_client env) (env_minReplicaCount env) pdbs"

abbreviation drain_infos where
  "drain_infos env allNodes pods \<equiv> CreateNodeNameToInfoMap
     (FilterOutExpendablePods pods (env_ExpendablePodsPriorityCutoff env)) (filterOutMasters allNodes pods)"

text \<open>
  The three outcomes of \<open>TryToScaleDown\<close>: nothing is deleted, empty nodes are, or a drain is started.
\<close>

lemma TryToScaleDown_cases:
  assumes "TryToScaleDown env bulk allNodes pods pdbs currentTime sd = Some (status, err, sd', started)"
  obtains
    (idle) tr where "sds_ScaledDownNodes status = []" "started = NothingStarted"
      "sds_Result status \<notin> {ScaleDownNodeDeleted, ScaleDownNodeDeleteStarted}" "sd' = (drained sd)\<lparr>sd_usageTracker := tr\<rparr>"
  | (empty) es registry where "started = BulkStarted es" "sd' = (forget_nodes es (drained sd))\<lparr>sd_clusterStateRegistry := registry\<rparr>"
      "sds_Result status \<noteq> ScaleDownNodeDeleteStarted"
      "sds_ScaledDownNodes status = [] \<or> sds_Result status = ScaleDownNodeDeleted \<and> map sdn_Node (sds_ScaledDownNodes status) = es"
      "\<forall>n\<in>set es. n \<in> set (filterOutMasters allNodes pods) \<and> long_unneeded env sd currentTime n"
  | (drain) r tr where "started = DrainStarted r" "err = None" "sds_Result status = ScaleDownNodeDeleteStarted"
      "map sdn_Node (sds_ScaledDownNodes status) = [nr_Node r]"
      "sd' = (let sd2 = forget_nodes [nr_Node r] ((drained sd)\<lparr>sd_usageTracker := tr\<rparr>)
              in sd2\<lparr>sd_nodeDeleteStatus := SetDeleteInProgress True (sd_nodeDeleteStatus sd2)\<rparr>)"
      "nr_Node r \<in> set (filterOutMasters allNodes pods)" "long_unneeded env sd currentTime (nr_Node r)"
      "removable (drain_pods env pdbs) (env_predicates env) (env_metadata env) (drain_infos env allNodes pods) r"
proof -
  obtain results ds where dr: "DrainNodeDeleteResults (sd_nodeDeleteStatus sd) = (results, ds)"
    by (cases "DrainNodeDeleteResults (sd_nodeDeleteStatus sd)")
  define sd1 where "sd1 = sd\<lparr>sd_nodeDeleteStatus := ds\<rparr>"
  have sd1: "drained sd = sd1" by (simp add: sd1_def dr)
  define nodes where "nodes = filterOutMasters allNodes pods"
  show thesis
  proof (cases "env_ResourceLimiter env")
    case (Inl e)
    then show thesis using assms(1)
      by (intro idle [of "sd_usageTracker sd1"]) (auto simp: TryToScaleDown_def dr Let_def sd1_def)
  next
    case l: (Inr limiter)
    define left where "left = computeScaleDownResourcesLeftLimits (env_template env) nodes limiter
        (env_CloudProvider env) currentTime"
    obtain cs groups where c: "scale_down_candidates env sd1 currentTime limiter left nodes = (cs, groups)"
      by (cases "scale_down_candidates env sd1 currentTime limiter left nodes")
    have ok: "n \<in> set nodes \<and> long_unneeded env sd currentTime n" if "n \<in> set cs" for n
    proof -
      have "n \<in> set (fst (scale_down_candidates env sd1 currentTime limiter left nodes))" using that by (simp add: c)
      then obtain ng where n: "n \<in> set nodes" "candidate_group env sd1 currentTime
          (getNodeGroupSizeMap (env_CloudProvider env)) (GetResources limiter) left n = Some ng"
        unfolding scale_down_candidates_nodes by auto
      have "long_unneeded env sd1 currentTime n" by (rule candidate_group_long_unneeded [OF n(2)])
      then show ?thesis using n(1) by (simp add: long_unneeded_def sd1_def)
    qed
    show thesis
    proof (cases "cs = []")
      case True
      then show thesis using assms(1)
        by (intro idle [of "sd_usageTracker sd1"])
          (auto simp: TryToScaleDown_def dr l c Let_def simp flip: sd1_def nodes_def left_def)
    next
      case False
      obtain es where e: "getEmptyNodes (env_template env) (env_as_selector env) (env_now env) cs pods
          (env_MaxEmptyBulkDelete env) left (env_CloudProvider env) = Some es"
        using assms(1) False by (auto simp: TryToScaleDown_def dr l c Let_def simp flip: sd1_def nodes_def left_def
            split: option.splits)
      show thesis
      proof (cases "es = []")
        case es: False
        obtain be registry where b: "bulk es (sd_clusterStateRegistry (forget_nodes es sd1)) = (be, registry)"
          by (cases "bulk es (sd_clusterStateRegistry (forget_nodes es sd1))")
        have "\<forall>n\<in>set es. n \<in> set nodes \<and> long_unneeded env sd currentTime n"
          using ok getEmptyNodes_subset [OF e] by blast
        then show thesis using assms(1) False e es b
          by (intro empty [of es registry, unfolded sd1])
            (auto simp: TryToScaleDown_def dr l c Let_def mapNodes_nodes nodes_def [symmetric] left_def [symmetric]
              sd1_def [symmetric] split: option.splits)
      next
        case True
        define st where "st = FindNodesToRemove (drain_pods env pdbs) (env_predicates env) (env_metadata env)
            (env_rands env 2) cs nodes (FilterOutExpendablePods pods (env_ExpendablePodsPriorityCutoff env)) 1
            (sd_podLocationHints sd1) (sd_usageTracker sd1) (env_now env)"
        have run: "Some (status, err, sd', started) = (case rs_Result st of
             [] \<Rightarrow> Some (\<lparr>sds_Result = ScaleDownNoNodeDeleted, sds_ScaledDownNodes = [], sds_NodeDeleteResults = results\<rparr>, None,
                      sd1\<lparr>sd_usageTracker := rs_Tracker st\<rparr>, NothingStarted)
           | r # _ \<Rightarrow> (let sd2 = forget_nodes [nr_Node r] (sd1\<lparr>sd_usageTracker := rs_Tracker st\<rparr>);
                        sd3 = sd2\<lparr>sd_nodeDeleteStatus := SetDeleteInProgress True (sd_nodeDeleteStatus sd2)\<rparr>
                    in Some (\<lparr>sds_Result = ScaleDownNodeDeleteStarted, sds_ScaledDownNodes =
                         mapNodesToStatusScaleDownNodes sd3 [nr_Node r] groups [(n_Name (nr_Node r), nr_PodsToReschedule r)],
                         sds_NodeDeleteResults = results\<rparr>, None, sd3, DrainStarted r)))"
          using assms(1) False e True
          by (simp add: TryToScaleDown_def dr l c Let_def nodes_def [symmetric] left_def [symmetric] sd1_def [symmetric]
              st_def [symmetric])
        show thesis
        proof (cases "rs_Result st")
          case Nil
          then show thesis using run by (intro idle [of "rs_Tracker st"]) (simp_all add: dr sd1_def)
        next
          case (Cons r rest)
          obtain seen unseen where seen: "cs = seen @ unseen" "removal_inv (drain_pods env pdbs) (env_predicates env)
              (env_metadata env) (CreateNodeNameToInfoMap (FilterOutExpendablePods pods
                (env_ExpendablePodsPriorityCutoff env)) nodes) seen st"
            by (rule FindNodesToRemove_inv [OF st_def])
          then have "nr_Node r \<in> set cs" using removal_inv_nodes [OF seen(2), of r] Cons by auto
          moreover have "removable (drain_pods env pdbs) (env_predicates env) (env_metadata env)
              (drain_infos env allNodes pods) r"
            using seen(2) Cons by (simp add: removal_inv_def nodes_def)
          ultimately show thesis using run Cons ok [of "nr_Node r"]
            by (intro drain [of r "rs_Tracker st"]) (simp_all add: Let_def mapNodes_nodes nodes_def sd1_def dr)
        qed
      qed
    qed
  qed
qed

lemma scaled_down_candidates:
  assumes "TryToScaleDown env bulk allNodes pods pdbs currentTime sd = Some (status, err, sd', started)"
  shows "(\<forall>n\<in>set (started_nodes started). n \<in> set (filterOutMasters allNodes pods) \<and> long_unneeded env sd currentTime n) \<and>
    set (map sdn_Node (sds_ScaledDownNodes status)) \<subseteq> set (started_nodes started)"
  using assms by (cases rule: TryToScaleDown_cases) auto

text \<open>
  C6: Only long unneeded nodes are scaled down.  Every node whose deletion \<open>TryToScaleDown\<close> starts, by the drain of one
  node or by deleting empty nodes in bulk, also when the bulk ends with an error, is one of the nodes it was given, does
  not run an API server, has been unneeded for longer than the time for ready or for unready nodes, is not annotated
  against it, and belongs to a node group whose size is above its minimum; and it reports no other node as scaled down.
\<close>

theorem scaled_down_nodes_long_unneeded:
  assumes "TryToScaleDown env bulk allNodes pods pdbs currentTime sd = Some (status, err, sd', started)"
  shows "(\<forall>n\<in>set (started_nodes started). n \<in> set (filterOutMasters allNodes pods) \<and> long_unneeded env sd currentTime n) \<and>
    set (map sdn_Node (sds_ScaledDownNodes status)) \<subseteq> set (started_nodes started)"
  by (rule scaled_down_candidates [OF assms])

text \<open>
  C7: A started deletion is backed by the simulation.  When \<open>TryToScaleDown\<close> starts to drain a node,
  the detailed check accepts the node's pods and each has another place; there is no error, the
  deletion is flagged as in progress, the node is no longer unneeded, and only this node is reported.
\<close>

theorem started_deletion_is_simulated:
  assumes "TryToScaleDown env bulk allNodes pods pdbs currentTime sd = Some (status, err, sd', DrainStarted r)"
  shows "removable (drain_pods env pdbs) (env_predicates env) (env_metadata env) (drain_infos env allNodes pods) r \<and>
     err = None \<and> sds_Result status = ScaleDownNodeDeleteStarted \<and>
     map sdn_Node (sds_ScaledDownNodes status) = [nr_Node r] \<and>
     nds_deleteInProgress (sd_nodeDeleteStatus sd') \<and> mget (sd_unneededNodes sd') (n_Name (nr_Node r)) = None"
  using assms
proof (cases rule: TryToScaleDown_cases)
  case (drain r' tr)
  then show ?thesis by (simp add: Let_def SetDeleteInProgress_def forget_one_unneeded)
qed simp_all

section \<open>The properties on concrete clusters\<close>

definition one_node :: node where
  "one_node = (sized_node ''n1'' 4)\<lparr>n_Allocatable := [(''cpu'', NewQuantity 4), (''memory'', NewQuantity 100)]\<rparr>"

definition demo_env :: "(unit, string \<times> string) scaleDownEnv" where
  "demo_env = \<lparr>env_ScaleDownUnneededTime = 10 * minute, env_ScaleDownUnreadyTime = 20 * minute,
     env_ScaleDownUtilizationThreshold = Fin (1 / 2), env_ScaleDownNonEmptyCandidatesCount = 30,
     env_ScaleDownCandidatesPoolRatio = Fin (1 / 8), env_ScaleDownCandidatesPoolMinCount = 50,
     env_UnremovableNodeRecheckTimeout = 5 * minute, env_IgnoreDaemonSetsUtilization = False,
     env_IgnoreMirrorPodsUtilization = False, env_MaxEmptyBulkDelete = 10,
     env_ExpendablePodsPriorityCutoff = 0, env_skipNodesWithSystemPods = True,
     env_skipNodesWithLocalStorage = True, env_minReplicaCount = 0, env_CloudProvider = pool_provider,
     env_ResourceLimiter = Inr \<lparr>rl_minLimits = [], rl_maxLimits = []\<rparr>, env_template = \<lambda>_. Inl '''',
     env_client = no_client, env_as_selector = label_selector, env_predicates = fits_all,
     env_metadata = \<lambda>_ _. (), env_rands = \<lambda>_ _ _. 0, env_now = 0\<rparr>"

definition one_info :: nodeInfo where
  "one_info = \<lparr>ni_Node = Some one_node, ni_Pods = []\<rparr>"

lemma one_node_sel: "n_Name one_node = ''n1''" "n_Annotations one_node = []"
  by (simp_all add: one_node_def sized_node_def empty_node_def)

lemma one_node_taints: "n_Taints one_node = []" "n_Conditions one_node = []"
  by (simp_all add: one_node_def sized_node_def empty_node_def)

lemma demo_infos_of: "CreateNodeNameToInfoMap [] [one_node] = [(''n1'', one_info)]"
  by (simp add: search_defs one_info_def one_node_sel)

lemma mkf_zero: "mkf 0 = Fin 0"
  using f_of_int_exact [of 0] by (simp add: f_of_int_def)

lemma demo_utilization: "ui_Utilization (utilization_of demo_env one_node one_info) = Fin 0"
  by (simp add: utilization_of_def demo_env_def one_node_def sized_node_def empty_node_def CalculateUtilization_def
    calculateUtilizationOfResource_def MilliValue_def quantity_ceil_def NewQuantity_def one_info_def f_of_int_exact
    fmax_def mkf_zero)

lemma demo_empties: "FindEmptyNodesToRemove label_selector now [one_node] [] = [one_node]"
  by (simp add: FindEmptyNodesToRemove_def demo_infos_of empty_candidate_def one_node_sel one_info_def
     FastGetPodsToMove_iff Let_def)

lemma demo_getEmptyNodes: "getEmptyNodes (\<lambda>_. Inl '''') label_selector now [one_node] [] 1 [] pool_provider = Some [one_node]"
  by (simp add: getEmptyNodes_def demo_empties empty_node_step_def pool_provider_def pool_group_def
     tryDecrementLimitsByDelta_def computeScaleDownResourcesDelta_def Let_def sized_group_def
     ContainsGpuResources_def mkeys_def checkScaleDownDeltaWithinLimits_def exceeds_def)

lemma demo_threshold: "env_ScaleDownUtilizationThreshold demo_env = Fin (1 / 2)"
  by (simp add: demo_env_def)

lemma demo_phase1: "snd (foldl (phase1_step demo_env 1000 [(''n1'', one_info)]) ([], []) [one_node]) = [one_node]"
  unfolding phase1_nodes
  by (simp add: phase1_ok_def one_node_sel demo_utilization isNodeBeingDeleted_def hasNoScaleDownAnnotation_def mget0_def
      GetToBeDeletedTime_def one_node_taints demo_threshold)

lemma demo_update: "\<exists>sd'. UpdateUnneededNodes demo_env [one_node] [one_node] [] 1000 [] (NewScaleDown csr) = Some sd' \<and>
    sd_unneededNodesList sd' = [one_node]"
proof -
  obtain um where p: "foldl (phase1_step demo_env 1000 [(''n1'', one_info)]) ([], []) [one_node] = (um, [one_node])"
    using demo_phase1 by (metis prod.collapse)
  have g: "getEmptyNodesNoResourceLimits (env_template demo_env) (env_as_selector demo_env) (env_now demo_env) [one_node] [] 1
     (env_CloudProvider demo_env) = Some [one_node]"
    using demo_getEmptyNodes [of 0] by (simp add: getEmptyNodesNoResourceLimits_def demo_env_def)
  have c: "filter_checked 1000 (updateUnremovableNodes [one_node] (sd_unremovableNodes (NewScaleDown csr))) [one_node] =
     ([], [one_node])" by (simp add: NewScaleDown_def updateUnremovableNodes_def)
  have f: "find_nodes demo_env k [] [] [one_node] [] 0 [] NewUsageTracker 1000 =
     \<lparr>rs_Result = [], rs_Unremovable = [], rs_Hints = [], rs_Tracker = NewUsageTracker\<rparr>" for k
    by (simp add: find_nodes_def FindNodesToRemove_def Let_def)
  have p2: "phase2 demo_env [] [] [] [one_node] [] [] NewUsageTracker 1000 =
     Some \<lparr>rs_Result = [], rs_Unremovable = [], rs_Hints = [], rs_Tracker = NewUsageTracker\<rparr>"
    by (simp add: phase2_def f Let_def)
  show ?thesis
    using p g c p2
    by (simp add: UpdateUnneededNodes_def Let_def FilterOutExpendablePods_def demo_infos_of chooseCandidates_def NewScaleDown_def)
qed

definition old_unneeded :: "clusterStateRegistry \<Rightarrow> scaleDown" where
  "old_unneeded csr = (NewScaleDown csr)\<lparr>sd_unneededNodes := [(''n1'', 1)]\<rparr>"

definition web_pod :: pod where
  "web_pod = (owned_pod ''ReplicaSet'' ''web'')\<lparr>pod_NodeName := ''n1''\<rparr>"

definition demo_env2 :: "(unit, string \<times> string) scaleDownEnv" where
  "demo_env2 = demo_env\<lparr>env_client := demo_client\<rparr>"

lemma env2_sel: "env_CloudProvider demo_env2 = pool_provider" "env_ResourceLimiter demo_env2 = Inr \<lparr>rl_minLimits = [], rl_maxLimits = []\<rparr>"
  "env_template demo_env2 = (\<lambda>_. Inl '''')" "env_as_selector demo_env2 = label_selector" "env_now demo_env2 = 0"
  "env_MaxEmptyBulkDelete demo_env2 = 10" "env_client demo_env2 = demo_client" "env_predicates demo_env2 = fits_all"
  "env_metadata demo_env2 = (\<lambda>_ _. ())" "env_rands demo_env2 k = (\<lambda>_ _. 0)" "env_minReplicaCount demo_env2 = 0"
  "env_ExpendablePodsPriorityCutoff demo_env2 = 0" "env_skipNodesWithSystemPods demo_env2" "env_skipNodesWithLocalStorage demo_env2"
  "env_ScaleDownUnneededTime demo_env2 = 10 * minute" "env_ScaleDownUnreadyTime demo_env2 = 20 * minute"
  by (simp_all add: demo_env_def demo_env2_def)

definition two_nodes :: "node list" where "two_nodes = [one_node, named_node ''n2'']"

lemma masters2: "filterOutMasters two_nodes [web_pod] = two_nodes"
  by (simp add: filterOutMasters_iff web_pod_def owned_pod_def plain_pod_def)

lemma left2: "computeScaleDownResourcesLeftLimits t ns \<lparr>rl_minLimits = [], rl_maxLimits = []\<rparr> cp now = []"
  by (simp add: computeScaleDownResourcesLeftLimits_def GetResources_def mkeys_def split: prod.split)

lemma cand2: "scale_down_candidates demo_env2 (old_unneeded csr) (hour * 24) \<lparr>rl_minLimits = [], rl_maxLimits = []\<rparr> [] two_nodes =
   ([one_node], [(''n1'', pool_group)])"
  by (simp add: scale_down_candidates_def two_nodes_def candidate_group_def old_unneeded_def one_node_sel GetResources_def
     mkeys_def env2_sel named_node_def hasNoScaleDownAnnotation_def nodeIsReady_def GetReadinessState_def
     one_node_taints mget0_def      time_defs duration_defs getNodeGroupSizeMap_def pool_provider_def pool_group_def sized_group_def computeScaleDownResourcesDelta_def
     ContainsGpuResources_def Let_def checkScaleDownDeltaWithinLimits_def exceeds_def mput_def)

lemmas web_pod_defs = web_pod_def owned_pod_def plain_pod_def

lemma empties2: "getEmptyNodes (\<lambda>_. Inl '''') label_selector 0 [one_node] [web_pod] 10 [] pool_provider = Some []"
  by (simp add: getEmptyNodes_def FindEmptyNodesToRemove_def empty_candidate_def search_defs one_node_sel
     FastGetPodsToMove_iff demo_pod_defs web_pod_def add_pod_info_def assigned_node_def)

definition demo_search_state :: removalState where
  "demo_search_state = FindNodesToRemove
     (get_pods_to_move label_selector 0 False True True demo_client 0 []) fits_all (\<lambda>_ _. ()) (\<lambda>_ _. 0)
     [one_node] two_nodes [web_pod] 1 [] NewUsageTracker 0"

lemma get_pods2: "get_pods_to_move label_selector 0 False True True demo_client 0 [] \<lparr>ni_Node = nd, ni_Pods = [web_pod]\<rparr> = Inr [web_pod]"
  by (simp add: get_pods_to_move_def DetailedGetPodsForMove_def with_pdb_check_def GetPodsForDeletionOnNodeDrain_def
        drain_step_def controller_check_def replicas_check_def eviction_problem_def demo_client_def
        no_client_def pdb_pod_error_def hasSafeToEvictAnnotation_def isPodTerminal_def demo_pod_defs web_pod_def Let_def to_int32_def)

lemma infos2: "CreateNodeNameToInfoMap [web_pod] two_nodes =
    [(''n1'', \<lparr>ni_Node = Some one_node, ni_Pods = [web_pod]\<rparr>),
     (''n2'', \<lparr>ni_Node = Some (named_node ''n2''), ni_Pods = []\<rparr>)]"
  by (simp add: two_nodes_def search_defs add_pod_info_def one_node_sel)
    (simp add: demo_pod_defs web_pod_def assigned_node_def)

lemma place2: "fst (findPlaceFor fits_all (\<lambda>_ _. ()) (\<lambda>_. 0) ''n1'' [web_pod] two_nodes
    (CreateNodeNameToInfoMap [web_pod] two_nodes) [] [] NewUsageTracker 0) = None"
  unfolding infos2 by (simp add: search_defs two_nodes_def one_node_sel)

lemma search2: "rs_Result demo_search_state = [\<lparr>nr_Node = one_node, nr_PodsToReschedule = [web_pod]\<rparr>]"
proof -
  obtain h tr where "findPlaceFor fits_all (\<lambda>_ _. ()) (\<lambda>_. 0) ''n1'' [web_pod] two_nodes
    (CreateNodeNameToInfoMap [web_pod] two_nodes) [] [] NewUsageTracker 0 = (None, h, tr)"
    using place2 by (metis prod.collapse)
  then show ?thesis
    by (simp add: demo_search_state_def FindNodesToRemove_def candidate_step_def one_node_sel get_pods2 infos2 Let_def)
qed

lemma try2: "\<exists>status sd' r. TryToScaleDown demo_env2 (\<lambda>ns r. (None, r)) two_nodes [web_pod] [] (hour * 24) (old_unneeded csr) =
    Some (status, None, sd', DrainStarted r) \<and> nr_Node r = one_node \<and> nr_PodsToReschedule r = [web_pod] \<and>
    map sdn_Node (sds_ScaledDownNodes status) = [one_node]"
proof -
  have drain: "DrainNodeDeleteResults (sd_nodeDeleteStatus (old_unneeded csr)) = ([], sd_nodeDeleteStatus (old_unneeded csr))"
    by (simp add: DrainNodeDeleteResults_def old_unneeded_def NewScaleDown_def)
  have same: "old_unneeded csr\<lparr>sd_nodeDeleteStatus := sd_nodeDeleteStatus (old_unneeded csr)\<rparr> = old_unneeded csr" by simp
  have pods: "FilterOutExpendablePods [web_pod] 0 = [web_pod]"
    by (simp add: FilterOutExpendablePods_def web_pod_defs)
  have hints: "sd_podLocationHints (old_unneeded csr) = []" "sd_usageTracker (old_unneeded csr) = NewUsageTracker"
    by (simp_all add: old_unneeded_def NewScaleDown_def)
  show ?thesis
    by (simp add: TryToScaleDown_def drain same pods hints masters2 left2 cand2 empties2 env2_sel search2 Let_def
      mapNodes_nodes flip: demo_search_state_def)
qed

lemma started_deletion_is_simulated_witness:
  "\<forall>csr. \<exists>status sd' r. TryToScaleDown demo_env2 (\<lambda>ns r. (None, r)) two_nodes [web_pod] [] (hour * 24) (old_unneeded csr) =
      Some (status, None, sd', DrainStarted r) \<and> nr_PodsToReschedule r = [web_pod] \<and>
    map sdn_Node (sds_ScaledDownNodes status) = [one_node] \<and> nds_deleteInProgress (sd_nodeDeleteStatus sd')"
proof
  fix csr
  obtain status :: scaleDownStatus and sd' :: scaleDown and r :: nodeToBeRemoved where t: "TryToScaleDown demo_env2 (\<lambda>ns r. (None, r)) two_nodes [web_pod] [] (hour * 24) (old_unneeded csr) =
    Some (status, None, sd', DrainStarted r)" "nr_Node r = one_node" "nr_PodsToReschedule r = [web_pod]" using try2 by blast
  from started_deletion_is_simulated [OF t(1)] t
  show "\<exists>status sd' r. TryToScaleDown demo_env2 (\<lambda>ns r. (None, r)) two_nodes [web_pod] [] (hour * 24) (old_unneeded csr) =
      Some (status, None, sd', DrainStarted r) \<and> nr_PodsToReschedule r = [web_pod] \<and>
    map sdn_Node (sds_ScaledDownNodes status) = [one_node] \<and> nds_deleteInProgress (sd_nodeDeleteStatus sd')"
    by auto
qed

lemma scaled_down_nodes_long_unneeded_witness:
  "\<forall>csr. \<exists>status sd' r. TryToScaleDown demo_env2 (\<lambda>ns r. (None, r)) two_nodes [web_pod] [] (hour * 24) (old_unneeded csr) =
    Some (status, None, sd', DrainStarted r) \<and> nr_Node r = one_node \<and> long_unneeded demo_env2 (old_unneeded csr) (hour * 24) one_node"
proof
  fix csr
  obtain status :: scaleDownStatus and sd' :: scaleDown and r :: nodeToBeRemoved where
    t: "TryToScaleDown demo_env2 (\<lambda>ns r. (None, r)) two_nodes [web_pod] [] (hour * 24) (old_unneeded csr) =
    Some (status, None, sd', DrainStarted r)" "nr_Node r = one_node"
    using try2 [of csr] by (elim exE conjE) (rule that)
  from scaled_down_nodes_long_unneeded [OF t(1)]
  have "long_unneeded demo_env2 (old_unneeded csr) (hour * 24) one_node" by (simp add: t(2))
  with t show "\<exists>status sd' r. TryToScaleDown demo_env2 (\<lambda>ns r. (None, r)) two_nodes [web_pod] [] (hour * 24) (old_unneeded csr) =
    Some (status, None, sd', DrainStarted r) \<and> nr_Node r = one_node \<and> long_unneeded demo_env2 (old_unneeded csr) (hour * 24) one_node"
    by blast
qed

lemma UpdateUnneededNodes_no_panic_witness:
  "\<forall>csr. UpdateUnneededNodes demo_env [one_node] [one_node] [] 1000 [] (NewScaleDown csr) \<noteq> None"
  by (intro allI UpdateUnneededNodes_no_panic) (simp add: demo_env_def)

lemma unneeded_since_first_found_witness:
  "\<forall>csr. \<exists>sd'. UpdateUnneededNodes demo_env [one_node] [one_node] [] 1000 [] (NewScaleDown csr) = Some sd' \<and>
     mget (sd_unneededNodes sd') ''n1'' = Some 1000"
proof
  fix csr
  obtain sd' where u: "UpdateUnneededNodes demo_env [one_node] [one_node] [] 1000 [] (NewScaleDown csr) = Some sd'"
    "sd_unneededNodesList sd' = [one_node]" using demo_update by blast
  from unneeded_since_first_found [OF u(1), of "''n1''"]
  show "\<exists>sd'. UpdateUnneededNodes demo_env [one_node] [one_node] [] 1000 [] (NewScaleDown csr) = Some sd' \<and>
      mget (sd_unneededNodes sd') ''n1'' = Some 1000"
    using u by (simp add: NewScaleDown_def one_node_sel)
qed

lemma unneeded_nodes_qualify_witness:
  "\<forall>csr. \<exists>sd'. UpdateUnneededNodes demo_env [one_node] [one_node] [] 1000 [] (NewScaleDown csr) = Some sd' \<and>
     sd_unneededNodesList sd' = [one_node] \<and> \<not> isNodeBeingDeleted one_node 1000"
proof
  fix csr
  obtain sd' where u: "UpdateUnneededNodes demo_env [one_node] [one_node] [] 1000 [] (NewScaleDown csr) = Some sd'"
    "sd_unneededNodesList sd' = [one_node]" using demo_update by blast
  from unneeded_nodes_qualify [OF u(1), of one_node] u
  show "\<exists>sd'. UpdateUnneededNodes demo_env [one_node] [one_node] [] 1000 [] (NewScaleDown csr) = Some sd' \<and>
     sd_unneededNodesList sd' = [one_node] \<and> \<not> isNodeBeingDeleted one_node 1000"
    by simp
qed

end
