(* ===== verification/Estimator.thy ===== *)
theory Estimator
  imports SimulatorProps
begin

text \<open>
  How many nodes a scale-up needs: \<open>estimator/binpacking_estimator.go\<close> and
  \<open>estimator/basic_estimator.go\<close>.  The predicates of the scheduler are the parameter \<open>check\<close> (the
  estimator passes them no metadata); \<open>sort.Slice\<close> is a parameter that obeys \<open>score_sort\<close>.  A node info
  without a node is dereferenced by the code: \<open>None\<close> is that panic.
  The lemmas show that the packing is a packing, that it opens no more than twice the nodes of any
  other packing when the predicates are a capacity, and that the basic estimator never overestimates.
\<close>

section \<open>Scores\<close>

record podInfo =
  pi_score :: f64
  pi_pod :: pod

text \<open>The part of the score for one resource: nothing if the node has none of it.\<close>

definition score_part :: "(quantity \<Rightarrow> int) \<Rightarrow> quantity \<Rightarrow> quantity option \<Rightarrow> f64 \<Rightarrow> f64" where
  "score_part value requested allocatable score =
     (case allocatable of
        None \<Rightarrow> score
      | Some a \<Rightarrow>
          if value a > 0 then fadd score (fdiv (f_of_int (value requested)) (f_of_int (value a))) else score)"

definition pod_score :: "node \<Rightarrow> pod \<Rightarrow> f64" where
  "pod_score n p =
     score_part Value (pod_request ''memory'' 0 p) (mget (n_Allocatable n) ''memory'')
       (score_part MilliValue (pod_request ''cpu'' 0 p) (mget (n_Allocatable n) ''cpu'') (Fin 0))"

definition calculatePodScore :: "pod list \<Rightarrow> node \<Rightarrow> podInfo list" where
  "calculatePodScore pods n = map (\<lambda>p. \<lparr>pi_score = pod_score n p, pi_pod = p\<rparr>) pods"

text \<open>What \<open>sort.Slice\<close> promises for the order by descending score.\<close>

locale score_sort =
  fixes srt :: "podInfo list \<Rightarrow> podInfo list"
  assumes srt_mset: "mset (srt xs) = mset xs"
    and srt_desc: "(\<And>x. x \<in> set xs \<Longrightarrow> pi_score x \<noteq> NaN) \<Longrightarrow>
      sorted_wrt (\<lambda>a b. fle (pi_score b) (pi_score a)) (srt xs)"
begin

lemma pods_of_srt: "mset (map pi_pod (srt (calculatePodScore pods n))) = mset pods"
proof -
  have "mset (map pi_pod (srt (calculatePodScore pods n))) = image_mset pi_pod (mset (calculatePodScore pods n))"
    by (simp add: srt_mset)
  also have "\<dots> = mset pods" by (simp add: calculatePodScore_def comp_def flip: mset_map)
  finally show ?thesis .
qed

end

text \<open>A stable sort obeys it, for the linear order on \<open>f64\<close> that puts NaN first.\<close>

definition sort_scores :: "podInfo list \<Rightarrow> podInfo list" where
  "sort_scores xs = rev (sort_key pi_score xs)"

interpretation ss: score_sort sort_scores
proof
  fix xs :: "podInfo list"
  show "mset (sort_scores xs) = mset xs" by (simp add: sort_scores_def)
  assume fin: "\<And>x. x \<in> set xs \<Longrightarrow> pi_score x \<noteq> NaN"
  have "sorted_wrt (\<lambda>a b. pi_score a \<le> pi_score b) (sort_key pi_score xs)"
    using sorted_sort_key [of pi_score xs] by (simp add: sorted_map)
  then have "sorted_wrt (\<lambda>a b. fle (pi_score a) (pi_score b)) (sort_key pi_score xs)"
    by (rule sorted_wrt_mono_rel [rotated]) (auto simp: less_eq_f64_def fin)
  then show "sorted_wrt (\<lambda>a b. fle (pi_score b) (pi_score a)) (sort_scores xs)"
    by (simp add: sort_scores_def sorted_wrt_rev)
qed

section \<open>First fit\<close>

fun place_first :: "(pod \<Rightarrow> nodeInfo \<Rightarrow> bool) \<Rightarrow> pod \<Rightarrow> nodeInfo list \<Rightarrow> nodeInfo list option" where
  "place_first check p [] = None"
| "place_first check p (i # is) =
     (if check p i then Some (add_to_info p i # is) else map_option (Cons i) (place_first check p is))"

definition pack_step ::
  "(pod \<Rightarrow> nodeInfo \<Rightarrow> bool) \<Rightarrow> nodeInfo \<Rightarrow> nodeInfo list \<Rightarrow> pod \<Rightarrow> nodeInfo list" where
  "pack_step check template newNodes p =
     (case place_first check p newNodes of
        Some newNodes' \<Rightarrow> newNodes'
      | None \<Rightarrow> newNodes @ [add_to_info p template])"

definition pack ::
  "(pod \<Rightarrow> nodeInfo \<Rightarrow> bool) \<Rightarrow> nodeInfo \<Rightarrow> nodeInfo list \<Rightarrow> pod list \<Rightarrow> nodeInfo list" where
  "pack check template upcoming pods = foldl (pack_step check template) upcoming pods"

definition BinpackingEstimate ::
  "(pod \<Rightarrow> nodeInfo \<Rightarrow> bool) \<Rightarrow> (podInfo list \<Rightarrow> podInfo list) \<Rightarrow> pod list \<Rightarrow> nodeInfo \<Rightarrow> nodeInfo list \<Rightarrow>
     int option" where
  "BinpackingEstimate check srt pods nodeTemplate upcomingNodes =
     (case ni_Node nodeTemplate of
        None \<Rightarrow> if pods = [] then Some 0 else None
      | Some n \<Rightarrow>
          Some (int (length (pack check nodeTemplate upcomingNodes (map pi_pod (srt (calculatePodScore pods n))))) -
                int (length upcomingNodes)))"

section \<open>The basic estimator\<close>

record basicNodeEstimator =
  be_cpuSum :: quantity
  be_memorySum :: quantity
  be_portSum :: "(int, int) gomap"
  be_FittingPods :: "pod list"

definition NewBasicNodeEstimator :: basicNodeEstimator where
  "NewBasicNodeEstimator = \<lparr>be_cpuSum = 0, be_memorySum = 0, be_portSum = [], be_FittingPods = []\<rparr>"

definition host_ports :: "pod \<Rightarrow> int list" where
  "host_ports p = remdups (filter (\<lambda>port. port > 0) (concat (map ct_HostPorts (pod_Containers p))))"

text \<open>
  The pods of an estimation are different objects, so the set of fitting pods is a list of them.
\<close>

definition AddPod :: "pod \<Rightarrow> basicNodeEstimator \<Rightarrow> basicNodeEstimator" where
  "AddPod p e =
     \<lparr>be_cpuSum = pod_request ''cpu'' (be_cpuSum e) p,
      be_memorySum = pod_request ''memory'' (be_memorySum e) p,
      be_portSum = foldl (\<lambda>m port. case mget m port of Some k \<Rightarrow> mput port (k + 1) m | None \<Rightarrow> mput port 1 m)
        (be_portSum e) (host_ports p),
      be_FittingPods = be_FittingPods e @ [p]\<rparr>"

definition GetCount :: "basicNodeEstimator \<Rightarrow> int" where
  "GetCount e = int (length (be_FittingPods e))"

definition maxInt :: "int \<Rightarrow> int \<Rightarrow> int" where
  "maxInt a b = (if a > b then a else b)"

text \<open>Nodes needed for one resource: what is missing divided by a node's capacity, rounded up.\<close>

definition needed_nodes :: "int \<Rightarrow> int \<Rightarrow> int" where
  "needed_nodes missing cap = f_ceil_int (fdiv (f_of_int missing) (f_of_int cap))"

definition coming :: "string \<Rightarrow> node list \<Rightarrow> quantity" where
  "coming res upcoming = foldl (\<lambda>q n. q + mget0 0 (n_Capacity n) res) 0 upcoming"

definition raise_to :: "int option \<Rightarrow> int \<Rightarrow> int" where
  "raise_to prop result = (case prop of None \<Rightarrow> result | Some v \<Rightarrow> maxInt result v)"

definition BasicEstimate :: "basicNodeEstimator \<Rightarrow> pod list \<Rightarrow> node \<Rightarrow> node list \<Rightarrow> int" where
  "BasicEstimate e0 pods n upcoming =
     (let e = foldl (\<lambda>e p. AddPod p e) e0 pods;
          r1 = raise_to (map_option (\<lambda>c. needed_nodes (MilliValue (be_cpuSum e) - MilliValue (coming ''cpu'' upcoming))
                 (MilliValue c)) (mget (n_Capacity n) ''cpu'')) 0;
          r2 = raise_to (map_option (\<lambda>c. needed_nodes (Value (be_memorySum e) - Value (coming ''memory'' upcoming))
                 (Value c)) (mget (n_Capacity n) ''memory'')) r1;
          r3 = raise_to (map_option (\<lambda>c. needed_nodes (GetCount e - Value (coming ''pods'' upcoming)) (Value c))
                 (mget (n_Capacity n) ''pods'')) r2
      in foldl (\<lambda>r (port, count). maxInt r (count - int (length upcoming))) r3 (be_portSum e))"


section \<open>First fit packs\<close>

lemma place_first_None: "place_first check p is = None \<longleftrightarrow> (\<forall>i\<in>set is. \<not> check p i)"
  by (induction "is") auto

lemma place_first_Some:
  "place_first check p is = Some is' \<Longrightarrow>
     \<exists>k<length is. check p (is ! k) \<and> is' = is[k := add_to_info p (is ! k)]"
proof (induction "is" arbitrary: is')
  case (Cons i "is")
  show ?case
  proof (cases "check p i")
    case True
    then show ?thesis using Cons.prems by (intro exI [of _ 0]) auto
  next
    case False
    then obtain js where j: "place_first check p is = Some js" "is' = i # js" using Cons.prems by auto
    obtain k where "k < length is" "check p (is ! k)" "js = is[k := add_to_info p (is ! k)]"
      using Cons.IH [OF j(1)] by blast
    then show ?thesis using j(2) by (intro exI [of _ "Suc k"]) auto
  qed
qed simp

lemma pack_step_cases:
  obtains k where "k < length is" "check p (is ! k)" "pack_step check template is p = is[k := add_to_info p (is ! k)]"
  | "\<forall>i\<in>set is. \<not> check p i" "pack_step check template is p = is @ [add_to_info p template]"
proof (cases "place_first check p is")
  case None
  then have "\<forall>i\<in>set is. \<not> check p i" by (simp only: place_first_None)
  then show ?thesis using None by (intro that(2)) (simp_all add: pack_step_def)
next
  case (Some is')
  then show ?thesis using that(1) place_first_Some [OF Some] by (auto simp: pack_step_def)
qed

text \<open>A node info that grew from another by pods the predicates let in.\<close>

inductive filled :: "(pod \<Rightarrow> nodeInfo \<Rightarrow> bool) \<Rightarrow> nodeInfo \<Rightarrow> nodeInfo \<Rightarrow> bool" for check base where
  filled_base: "filled check base base"
| filled_add: "filled check base i \<Longrightarrow> check p i \<Longrightarrow> filled check base (add_to_info p i)"

text \<open>The nodes after the pods \<open>ps\<close>.\<close>

definition packing ::
  "(pod \<Rightarrow> nodeInfo \<Rightarrow> bool) \<Rightarrow> nodeInfo \<Rightarrow> nodeInfo list \<Rightarrow> pod list \<Rightarrow> nodeInfo list \<Rightarrow> bool" where
  "packing check template upcoming ps nodes \<longleftrightarrow>
     (\<exists>new. nodes = take (length upcoming) nodes @ new \<and> length upcoming \<le> length nodes \<and> length new \<le> length ps \<and>
        list_all2 (filled check) upcoming (take (length upcoming) nodes) \<and>
        (\<forall>i\<in>set new. \<exists>p\<in>set ps. filled check (add_to_info p template) i) \<and>
        mset (concat (map ni_Pods nodes)) =
          mset (concat (map ni_Pods upcoming)) + mset ps + mset (concat (replicate (length new) (ni_Pods template))))"

lemma ni_Pods_add [simp]: "ni_Pods (add_to_info p i) = ni_Pods i @ [p]"
  by (simp add: add_to_info_def NewNodeInfo_def)

lemma concat_update_add:
  "k < length is \<Longrightarrow>
     mset (concat (map ni_Pods (is[k := add_to_info p (is ! k)]))) = add_mset p (mset (concat (map ni_Pods is)))"
proof (induction "is" arbitrary: k)
  case (Cons i "is")
  then show ?case by (cases k) auto
qed simp

lemma packing_base: "packing check template upcoming [] upcoming"
  by (simp add: packing_def filled_base list_all2_same)

lemma packing_step:
  assumes "packing check template upcoming ps nodes"
  shows "packing check template upcoming (ps @ [p]) (pack_step check template nodes p)"
proof -
  let ?u = "length upcoming"
  obtain new where n: "nodes = take ?u nodes @ new" "?u \<le> length nodes" "length new \<le> length ps"
    "list_all2 (filled check) upcoming (take ?u nodes)"
    "\<forall>i\<in>set new. \<exists>p\<in>set ps. filled check (add_to_info p template) i"
    "mset (concat (map ni_Pods nodes)) =
       mset (concat (map ni_Pods upcoming)) + mset ps + mset (concat (replicate (length new) (ni_Pods template)))"
    using assms by (auto simp: packing_def)
  have len: "length nodes = ?u + length new" using n(1,2) by (metis length_append length_take min.absorb2)
  show ?thesis
  proof (cases rule: pack_step_cases [of nodes check p template])
    case (1 k)
    let ?nodes = "nodes[k := add_to_info p (nodes ! k)]"
    show ?thesis
    proof (cases "k < ?u")
      case True
      have t: "take ?u ?nodes = (take ?u nodes)[k := add_to_info p (nodes ! k)]" by (simp add: take_update_swap)
      have "?nodes = take ?u ?nodes @ new"
        using n(1) True by (metis length_take list_update_append1 min.absorb2 n(2) t)
      moreover have "list_all2 (filled check) upcoming (take ?u ?nodes)"
        unfolding t using n(4) True 1(2)
        by (auto simp: list_all2_conv_all_nth nth_list_update intro: filled_add)
      ultimately show ?thesis
        using n(2,3,5,6) 1(1) unfolding 1(3) packing_def by (intro exI [of _ new]) (auto simp: concat_update_add)
    next
      case False
      let ?new = "new[k - ?u := add_to_info p (nodes ! k)]"
      have at: "nodes ! k = new ! (k - ?u)" using n(1,2) False
        by (metis length_take min.absorb2 nth_append)
      have t: "take ?u ?nodes = take ?u nodes" using False by simp
      have "?nodes = take ?u ?nodes @ ?new"
        using n(1,2) False t by (metis length_take list_update_append min.absorb2)
      moreover have "\<forall>i\<in>set ?new. \<exists>q\<in>set (ps @ [p]). filled check (add_to_info q template) i"
      proof
        fix i
        assume "i \<in> set ?new"
        then consider "i \<in> set new" | "i = add_to_info p (nodes ! k)" using set_update_subset_insert by fast
        then show "\<exists>q\<in>set (ps @ [p]). filled check (add_to_info q template) i"
        proof cases
          case 2
          have "nodes ! k \<in> set new" using at 1(1) False len by simp
          then show ?thesis using n(5) 1(2) unfolding 2 by (auto intro: filled_add)
        qed (use n(5) in auto)
      qed
      moreover have "mset (concat (map ni_Pods ?nodes)) = mset (concat (map ni_Pods upcoming)) + mset (ps @ [p]) +
          mset (concat (replicate (length ?new) (ni_Pods template)))"
        unfolding concat_update_add [OF 1(1)] using n(6) by simp
      moreover have "list_all2 (filled check) upcoming (take ?u ?nodes)" using n(4) by (simp only: t)
      ultimately show ?thesis
        using n(2,3) unfolding 1(3) packing_def by (intro exI [of _ ?new] conjI) simp_all
    qed
  next
    case 2
    have "filled check (add_to_info p template) (add_to_info p template)" by (rule filled_base)
    then show ?thesis
      using n len unfolding 2(2) packing_def
      by (intro exI [of _ "new @ [add_to_info p template]"]) (auto simp: replicate_app_Cons_same)
  qed
qed

lemma packing_pack: "packing check template upcoming ps (pack check template upcoming ps)"
proof (induction ps rule: rev_induct)
  case (snoc p ps)
  then show ?case using packing_step by (simp add: pack_def)
qed (simp add: pack_def packing_base)

lemma binpacking_packing:
  assumes "score_sort srt" "BinpackingEstimate check srt pods template upcoming = Some n"
  shows "\<exists>old new. int (length new) = n \<and> n \<le> int (length pods) \<and>
     list_all2 (filled check) upcoming old \<and>
     (\<forall>i\<in>set new. \<exists>p\<in>set pods. filled check (add_to_info p template) i) \<and>
     mset (concat (map ni_Pods (old @ new))) =
       mset (concat (map ni_Pods upcoming)) + mset pods + mset (concat (replicate (nat n) (ni_Pods template)))"
proof -
  obtain ps where ps: "mset ps = mset pods" and
    n: "n = int (length (pack check template upcoming ps)) - int (length upcoming)"
  proof (cases "ni_Node template")
    case None
    then show thesis using assms(2) that [of "[]"] by (auto simp: BinpackingEstimate_def pack_def split: if_splits)
  next
    case (Some nd)
    then show thesis
      using assms(2) that [OF score_sort.pods_of_srt [OF assms(1), of pods nd]] by (simp add: BinpackingEstimate_def)
  qed
  let ?nodes = "pack check template upcoming ps"
  obtain new where "?nodes = take (length upcoming) ?nodes @ new" "length upcoming \<le> length ?nodes"
    "length new \<le> length ps" "list_all2 (filled check) upcoming (take (length upcoming) ?nodes)"
    "\<forall>i\<in>set new. \<exists>p\<in>set ps. filled check (add_to_info p template) i"
    "mset (concat (map ni_Pods ?nodes)) =
       mset (concat (map ni_Pods upcoming)) + mset ps + mset (concat (replicate (length new) (ni_Pods template)))"
    using packing_pack [of check template upcoming ps] unfolding packing_def by blast
  moreover from this have "int (length new) = n"
    unfolding n by (metis (no_types, lifting) add_diff_cancel_left' length_append length_take min.absorb2 of_nat_add)
  moreover have "length ps = length pods" "set ps = set pods"
    using ps by (auto dest: mset_eq_length mset_eq_setD)
  ultimately show ?thesis
    by (intro exI [of _ "take (length upcoming) ?nodes"] exI [of _ new]) (auto simp: ps)
qed

lemma binpacking_at_most_pods:
  assumes "score_sort srt" "BinpackingEstimate check srt pods template upcoming = Some n"
  shows "n \<le> int (length pods)"
  using binpacking_packing [OF assms] by blast

text \<open>
  The estimate is a packing.  The bin-packing estimator answers a count between none and one node
  per pod, and there is a placement with that many new nodes: every upcoming node keeps its pods and
  gets only pods its predicates passed with the pods before, every new node starts as the template with one
  pod and grows in the same way, and each pod is placed exactly once.
\<close>

theorem binpacking_is_packing:
  assumes "score_sort srt" "BinpackingEstimate check srt pods template upcoming = Some n"
  shows "\<exists>old new. int (length new) = n \<and> n \<le> int (length pods) \<and>
     list_all2 (filled check) upcoming old \<and>
     (\<forall>i\<in>set new. \<exists>p\<in>set pods. filled check (add_to_info p template) i) \<and>
     mset (concat (map ni_Pods (old @ new))) =
       mset (concat (map ni_Pods upcoming)) + mset pods + mset (concat (replicate (nat n) (ni_Pods template)))"
  by (rule binpacking_packing [OF assms])


section \<open>First fit against any packing\<close>

text \<open>Positive loads that pairwise exceed a capacity fill half of the bins they lie in.\<close>

lemma pairwise_loads:
  assumes "sorted_wrt (\<lambda>x y. C < x + y) xs" "\<forall>x\<in>set xs. 0 < (x :: int)"
  shows "int (length xs div 2) * C + (if xs = [] then 0 else 1) \<le> sum_list xs"
  using assms
proof (induction xs rule: induct_list012)
  case (3 x y zs)
  then have "int (length zs div 2) * C + (if zs = [] then 0 else 1) \<le> sum_list zs" by simp
  moreover have "C < x + y" using "3.prems"(1) by simp
  moreover have "int (length (x # y # zs) div 2) * C = int (length zs div 2) * C + C" by (simp add: algebra_simps)
  ultimately show ?case by (auto split: if_splits)
qed auto

lemma loads_need_bins:
  assumes "sorted_wrt (\<lambda>x y. C < x + y) xs" "\<forall>x\<in>set xs. 0 < (x :: int)" "sum_list xs \<le> int m * C" "0 \<le> C"
  shows "length xs \<le> 2 * m"
proof (cases "xs = []")
  case False
  have "int (length xs div 2) * C + 1 \<le> int m * C" using pairwise_loads [OF assms(1,2)] assms(3) False by simp
  then have "int (length xs div 2) * C < int m * C" by linarith
  then have "int (length xs div 2) < int m" using assms(4) by (meson mult_le_cancel_right not_less zero_le_mult_iff mult_right_mono)
  then show ?thesis by linarith
qed simp

definition load :: "(pod \<Rightarrow> int) \<Rightarrow> nodeInfo \<Rightarrow> int" where
  "load sz i = sum_list (map sz (ni_Pods i))"

lemma load_add [simp]: "load sz (add_to_info p i) = load sz i + sz p"
  by (simp add: load_def)

text \<open>The net loads of the new nodes: pairwise above the capacity, positive, and of all the pods.\<close>

definition loads_inv :: "int \<Rightarrow> pod list \<Rightarrow> (pod \<Rightarrow> int) \<Rightarrow> int list \<Rightarrow> bool" where
  "loads_inv C ps sz xs \<longleftrightarrow>
     sorted_wrt (\<lambda>x y. C < x + y) xs \<and> (\<forall>x\<in>set xs. 0 < x) \<and> sum_list xs = sum_list (map sz ps)"

lemma sum_list_update_int: "k < length xs \<Longrightarrow> sum_list (xs[k := xs ! k + d]) = sum_list xs + (d :: int)"
proof (induction xs arbitrary: k)
  case (Cons x xs)
  then show ?case by (cases k) auto
qed simp

lemma loads_inv_grow:
  assumes "loads_inv C ps sz xs" "k < length xs" "0 < sz p"
  shows "loads_inv C (ps @ [p]) sz (xs[k := xs ! k + sz p])"
proof -
  have "sorted_wrt (\<lambda>x y. C < x + y) (xs[k := xs ! k + sz p])"
    unfolding sorted_wrt_iff_nth_less
  proof (intro allI impI)
    fix i j
    assume ij: "i < j" "j < length (xs[k := xs ! k + sz p])"
    then have "C < xs ! i + xs ! j" using assms(1) by (simp add: loads_inv_def sorted_wrt_iff_nth_less)
    then show "C < xs[k := xs ! k + sz p] ! i + xs[k := xs ! k + sz p] ! j"
      using ij assms(3) by (cases "k = i"; cases "k = j") (auto simp: nth_list_update)
  qed
  moreover have "0 < x" if "x \<in> set (xs[k := xs ! k + sz p])" for x
  proof -
    have "0 < xs ! k" using assms(1,2) by (simp add: loads_inv_def)
    then show ?thesis using that assms(1,3) set_update_subset_insert [of xs k "xs ! k + sz p"]
      by (fastforce simp: loads_inv_def)
  qed
  ultimately show ?thesis
    using assms(1,2) by (auto simp: loads_inv_def sum_list_update_int)
qed

lemma loads_inv_open:
  assumes "loads_inv C ps sz xs" "0 < sz p" "\<forall>x\<in>set xs. C < x + sz p"
  shows "loads_inv C (ps @ [p]) sz (xs @ [sz p])"
  using assms by (auto simp: loads_inv_def sorted_wrt_append)

lemma pack_loads:
  assumes "\<And>p i. check p i \<longleftrightarrow> load sz i + sz p \<le> cap" "\<forall>p\<in>set ps. 0 < sz p"
  shows "loads_inv (cap - load sz template) ps sz
      (map (\<lambda>i. load sz i - load sz template) (pack check template [] ps))"
  using assms(2)
proof (induction ps rule: rev_induct)
  case (snoc p ps)
  let ?nodes = "pack check template [] ps" and ?net = "\<lambda>i. load sz i - load sz template"
  have inv: "loads_inv (cap - load sz template) ps sz (map ?net ?nodes)" and p: "0 < sz p" using snoc by auto
  have step: "pack check template [] (ps @ [p]) = pack_step check template ?nodes p" by (simp add: pack_def)
  show ?case
  proof (cases rule: pack_step_cases [of ?nodes check p template])
    case (1 k)
    then have "map ?net (pack_step check template ?nodes p) = (map ?net ?nodes)[k := map ?net ?nodes ! k + sz p]"
      by (simp add: map_update algebra_simps)
    then show ?thesis unfolding step using loads_inv_grow [OF inv _ p, of k] 1(1) by simp
  next
    case 2
    then have "map ?net (pack_step check template ?nodes p) = map ?net ?nodes @ [sz p]" by simp
    moreover have "\<forall>x\<in>set (map ?net ?nodes). cap - load sz template < x + sz p"
      using 2(1) assms(1) by (auto simp: not_le algebra_simps)
    ultimately show ?thesis unfolding step using loads_inv_open [OF inv p] by simp
  qed
qed (simp add: pack_def loads_inv_def)

text \<open>
  C34: First fit needs at most twice the nodes.  When the predicates are a capacity for a positive
  size of the pods, the estimate for an empty set of upcoming nodes is at most twice the number
  of nodes of any distribution of the pods that respects the capacity the template's own pods leave.
\<close>

theorem binpacking_within_twice_any_packing:
  assumes "score_sort srt" "ni_Node template = Some nd"
    and "\<And>p i. check p i \<longleftrightarrow> load sz i + sz p \<le> cap"
    and "\<forall>p\<in>set pods. 0 < sz p"
    and "mset (concat bins) = mset pods" "\<forall>b\<in>set bins. load sz template + sum_list (map sz b) \<le> cap"
    and "load sz template \<le> cap"
  shows "\<exists>n. BinpackingEstimate check srt pods template [] = Some n \<and> n \<le> 2 * int (length bins)"
proof -
  define ps where "ps = map pi_pod (srt (calculatePodScore pods nd))"
  have ps: "mset ps = mset pods" unfolding ps_def by (rule score_sort.pods_of_srt [OF assms(1)])
  let ?C = "cap - load sz template"
  let ?nets = "map (\<lambda>i. load sz i - load sz template) (pack check template [] ps)"
  have pos: "\<forall>p\<in>set ps. 0 < sz p" using assms(4) mset_eq_setD [OF ps] by simp
  have inv: "loads_inv ?C ps sz ?nets" using pack_loads [of check sz cap ps template] assms(3) pos by blast
  have "sum_list (map sz ps) = sum_list (map sz (concat bins))"
    using ps assms(5) by (metis mset_map sum_mset_sum_list)
  also have "\<dots> \<le> int (length bins) * ?C"
    using assms(6) by (induction bins) (auto simp: algebra_simps)
  finally have "sum_list ?nets \<le> int (length bins) * ?C" using inv by (simp only: loads_inv_def)
  then have "length ?nets \<le> 2 * length bins"
    using loads_need_bins [of ?C ?nets "length bins"] inv assms(7) by (simp add: loads_inv_def)
  then show ?thesis by (simp add: BinpackingEstimate_def assms(2) ps_def)
qed

section \<open>The basic estimator never overestimates\<close>

lemma needed_nodes_le:
  assumes "0 < cap" "\<bar>missing\<bar> \<le> 2 ^ 53" "cap \<le> 2 ^ 53" "missing \<le> m * cap" "0 \<le> m"
  shows "needed_nodes missing cap \<le> m"
proof -
  define k where "k = min m (2 ^ 53)"
  have k: "0 \<le> k" "k \<le> 2 ^ 53" "k \<le> m" using assms(5) by (auto simp: k_def)
  have "missing \<le> k * cap"
  proof (cases "m \<le> 2 ^ 53")
    case False
    then have "missing \<le> 2 ^ 53 * 1" using assms(2) by linarith
    also have "\<dots> \<le> 2 ^ 53 * cap" using assms(1) by (intro mult_left_mono) auto
    finally show ?thesis using False by (simp add: k_def)
  qed (use assms(4) in \<open>simp add: k_def\<close>)
  then have "(of_int missing :: rat) \<le> of_int k * of_int cap" by (simp flip: of_int_mult)
  then have q: "(of_int missing / of_int cap :: rat) \<le> of_int k" using assms(1) by (simp add: pos_divide_le_eq)
  have "rnd (of_int missing / of_int cap) \<le> rnd (of_int k)" using q by (rule rnd_mono)
  then have r: "rnd (of_int missing / of_int cap) \<le> of_int k" using rnd_of_int [of k] k by simp
  have "needed_nodes missing cap = f_ceil_int (mkf (of_int missing / of_int cap))"
    using assms(1,2,3) by (simp add: needed_nodes_def f_of_int_exact)
  also have "\<dots> \<le> m"
  proof (cases "mkf (of_int missing / of_int cap)")
    case (Fin v)
    then have "v = rnd (of_int missing / of_int cap)" by (simp add: mkf_def Let_def split: if_splits)
    then have "\<lceil>v\<rceil> \<le> k" using r by (simp add: ceiling_le_iff)
    then show ?thesis using Fin k assms(5) by (simp add: f_ceil_int_def minInt64_def)
  qed (use assms(5) in \<open>simp_all add: f_ceil_int_def minInt64_def\<close>)
  finally show ?thesis .
qed

lemma raise_to_le: "raise_to prop r \<le> m \<longleftrightarrow> r \<le> m \<and> (\<forall>v. prop = Some v \<longrightarrow> v \<le> m)"
  by (auto simp: raise_to_def maxInt_def split: option.split)

lemma raise_ports_le:
  "foldl (\<lambda>r (port, count). maxInt r (count - u)) r xs \<le> m \<longleftrightarrow> r \<le> m \<and> (\<forall>x\<in>set xs. snd x - u \<le> m)"
proof (induction xs arbitrary: r)
  case (Cons x xs)
  have "maxInt r (snd x - u) \<le> m \<longleftrightarrow> r \<le> m \<and> snd x - u \<le> m" by (auto simp: maxInt_def)
  then show ?case using Cons.IH [of "maxInt r (snd x - u)"] by (auto simp: case_prod_beta)
qed simp

definition pods_with_port :: "int \<Rightarrow> pod list \<Rightarrow> int" where
  "pods_with_port port pods = int (length (filter (\<lambda>p. port \<in> set (host_ports p)) pods))"

text \<open>The sums of the estimator after the pods.\<close>

definition sums_ok :: "basicNodeEstimator \<Rightarrow> pod list \<Rightarrow> bool" where
  "sums_ok e pods \<longleftrightarrow> be_cpuSum e = foldl (pod_request ''cpu'') 0 pods \<and>
     be_memorySum e = foldl (pod_request ''memory'') 0 pods \<and> be_FittingPods e = pods \<and>
     gomap_ok (be_portSum e) \<and> (\<forall>port. mget0 0 (be_portSum e) port = pods_with_port port pods)"

lemma count_ports:
  "distinct ps \<Longrightarrow>
     mget0 0 (foldl (\<lambda>m port. case mget m port of Some k \<Rightarrow> mput port (k + 1) m | None \<Rightarrow> mput port 1 m) m ps) q =
       mget0 0 m q + (if q \<in> set ps then (1 :: int) else 0)"
proof (induction ps arbitrary: m)
  case (Cons p ps)
  then show ?case by (auto simp: mget0_def split: option.splits)
qed simp

lemma gomap_ok_ports:
  "gomap_ok m \<Longrightarrow> gomap_ok (foldl (\<lambda>m port. case mget m port of Some k \<Rightarrow> mput port (k + 1) m | None \<Rightarrow> mput port (1 :: int) m) m ps)"
  by (induction ps arbitrary: m) (auto split: option.split)

lemma sums_ok_AddPod: "sums_ok e pods \<Longrightarrow> sums_ok (AddPod p e) (pods @ [p])"
  by (auto simp: sums_ok_def AddPod_def count_ports gomap_ok_ports host_ports_def pods_with_port_def)

lemma sums_ok_pods: "sums_ok (foldl (\<lambda>e p. AddPod p e) NewBasicNodeEstimator pods) pods"
proof (induction pods rule: rev_induct)
  case (snoc p pods)
  then show ?case using sums_ok_AddPod by simp
qed (simp add: sums_ok_def NewBasicNodeEstimator_def mget0_def pods_with_port_def)

text \<open>\<open>m\<close> more nodes of the shape have at least \<open>missing\<close> of a resource, without loss in \<open>float64\<close>.\<close>

definition suffices :: "int \<Rightarrow> (quantity \<Rightarrow> int) \<Rightarrow> int \<Rightarrow> quantity option \<Rightarrow> bool" where
  "suffices m value missing cap \<longleftrightarrow>
     (\<forall>c. cap = Some c \<longrightarrow> 0 < value c \<and> value c \<le> 2 ^ 53 \<and> \<bar>missing\<bar> \<le> 2 ^ 53 \<and> missing \<le> m * value c)"

text \<open>
  The basic estimator never overestimates.  When \<open>m\<close> more nodes have the CPU, the memory and the
  places for pods that the upcoming nodes lack, and one node for each pod on a host port, the
  estimate is at most \<open>m\<close>, also after rounding to \<open>float64\<close>.
\<close>

theorem basic_never_overestimates:
  assumes "0 \<le> m"
    and "suffices m MilliValue (MilliValue (foldl (pod_request ''cpu'') 0 pods) - MilliValue (coming ''cpu'' upcoming))
       (mget (n_Capacity n) ''cpu'')"
    and "suffices m Value (Value (foldl (pod_request ''memory'') 0 pods) - Value (coming ''memory'' upcoming))
       (mget (n_Capacity n) ''memory'')"
    and "suffices m Value (int (length pods) - Value (coming ''pods'' upcoming)) (mget (n_Capacity n) ''pods'')"
    and "\<And>port. pods_with_port port pods \<le> m + int (length upcoming)"
  shows "BasicEstimate NewBasicNodeEstimator pods n upcoming \<le> m"
proof -
  define e where "e = foldl (\<lambda>e p. AddPod p e) NewBasicNodeEstimator pods"
  have ok: "sums_ok e pods" unfolding e_def by (rule sums_ok_pods)
  have ports: "count - int (length upcoming) \<le> m" if "(port, count) \<in> set (be_portSum e)" for port count
  proof -
    have "mget (be_portSum e) port = Some count" using that ok by (simp add: sums_ok_def mget_eq_Some_iff)
    then have "count = pods_with_port port pods" using ok by (metis mget0_Some sums_ok_def)
    then show ?thesis using assms(5) [of port] by simp
  qed
  show ?thesis
    unfolding BasicEstimate_def Let_def raise_ports_le raise_to_le e_def [symmetric]
    using ok ports assms needed_nodes_le by (auto simp: sums_ok_def suffices_def GetCount_def)
qed


section \<open>The properties on concrete pods\<close>

definition sized_pod :: "string \<Rightarrow> int \<Rightarrow> pod" where
  "sized_pod name m = (plain_pod ''a'' name)\<lparr>pod_Containers :=
     [\<lparr>ct_Name = ''c'', ct_Requests = [(''cpu'', NewMilliQuantity m)], ct_HostPorts = []\<rparr>]\<rparr>"

definition pod_cpu :: "pod \<Rightarrow> int" where
  "pod_cpu p = MilliValue (pod_request ''cpu'' 0 p)"

definition cpu_fits :: "pod \<Rightarrow> nodeInfo \<Rightarrow> bool" where
  "cpu_fits p i \<longleftrightarrow> load pod_cpu i + pod_cpu p \<le> 1000"

definition small_template :: nodeInfo where
  "small_template = \<lparr>ni_Node = Some (empty_node\<lparr>n_Allocatable := [(''cpu'', NewMilliQuantity 1000)],
     n_Capacity := [(''cpu'', NewMilliQuantity 1000)]\<rparr>), ni_Pods = []\<rparr>"

definition three_pods :: "pod list" where
  "three_pods = [sized_pod ''p'' 600, sized_pod ''q'' 700, sized_pod ''r'' 300]"

lemma pod_cpu_sized [simp]: "pod_cpu (sized_pod name m) = m"
  by (simp add: pod_cpu_def sized_pod_def pod_request_def plain_pod_def)

lemma mset_three: "mset (concat [[a, c], [b]]) = mset [a, b, c]"
  by (simp add: add_mset_commute)

lemma binpacking_within_twice_any_packing_witness:
  "\<exists>n. BinpackingEstimate cpu_fits sort_scores three_pods small_template [] = Some n \<and> n \<le> 4"
proof -
  let ?bins = "[[sized_pod ''p'' 600, sized_pod ''r'' 300], [sized_pod ''q'' 700]]"
  have "\<exists>n. BinpackingEstimate cpu_fits sort_scores three_pods small_template [] = Some n \<and>
      n \<le> 2 * int (length ?bins)"
  proof (rule binpacking_within_twice_any_packing [OF ss.score_sort_axioms, where sz = pod_cpu and cap = 1000])
    show "ni_Node small_template = Some (the (ni_Node small_template))" by (simp add: small_template_def)
    show "cpu_fits p i \<longleftrightarrow> load pod_cpu i + pod_cpu p \<le> 1000" for p i by (rule cpu_fits_def)
    show "\<forall>p\<in>set three_pods. 0 < pod_cpu p" by (simp add: three_pods_def)
    show "mset (concat ?bins) = mset three_pods" unfolding three_pods_def by (rule mset_three)
    show "\<forall>b\<in>set ?bins. load pod_cpu small_template + sum_list (map pod_cpu b) \<le> 1000" "load pod_cpu small_template \<le> 1000"
      by (simp_all add: load_def small_template_def)
  qed
  then show ?thesis by simp
qed

lemma binpacking_is_packing_witness:
  "\<exists>n (new :: nodeInfo list). BinpackingEstimate cpu_fits sort_scores three_pods small_template [] = Some n \<and> int (length new) = n \<and>
     n \<le> 3 \<and> mset (concat (map ni_Pods new)) = mset three_pods"
proof -
  obtain n where n: "BinpackingEstimate cpu_fits sort_scores three_pods small_template [] = Some n"
    by (simp add: BinpackingEstimate_def small_template_def)
  obtain old new where o: "int (length new) = n" "n \<le> int (length three_pods)" "list_all2 (filled cpu_fits) [] old"
    "mset (concat (map ni_Pods (old @ new))) =
       mset (concat (map ni_Pods ([] :: nodeInfo list))) + mset three_pods + mset (concat (replicate (nat n) (ni_Pods small_template)))"
    using binpacking_is_packing [OF ss.score_sort_axioms n] by (elim exE conjE) (rule that)
  have "mset (concat (map ni_Pods new)) = mset three_pods"
    using o(3,4) by (simp add: small_template_def)
  moreover have "n \<le> 3" using o(2) by (simp add: three_pods_def)
  ultimately show ?thesis using n o(1) by blast
qed

lemma basic_never_overestimates_witness:
  "BasicEstimate NewBasicNodeEstimator three_pods (the (ni_Node small_template)) [] \<le> 2"
  by (rule basic_never_overestimates)
    (simp_all add: suffices_def small_template_def coming_def three_pods_def sized_pod_def plain_pod_def
      pod_request_def pods_with_port_def host_ports_def MilliValue_def quantity_ceil_def NewMilliQuantity_def)

end
