(* ===== verification/Expander.thy ===== *)
theory Expander
  imports ScaleDownLimits
begin

text \<open>
  Which node group a scale-up expands: the strategies of \<open>expander/random\<close>, \<open>expander/mostpods\<close>,
  \<open>expander/waste\<close> and \<open>expander/price\<close>, and their interface \<open>expander.Strategy\<close> as the locale
  \<open>strategy\<close>.  A result \<open>None\<close> is a panic, \<open>Some None\<close> a nil option.  \<open>rand.Int31n\<close>, \<open>math.Tanh\<close> and
  the pricing model of the cloud provider are parameters; the debug text of an option is left out.
\<close>

section \<open>The interface\<close>

record expOption =
  eo_NodeGroup :: nodeGroup
  eo_NodeCount :: int
  eo_Pods :: "pod list"

locale strategy =
  fixes best :: "expOption list \<Rightarrow> infos \<Rightarrow> expOption option option"
  assumes best_returns: "opts \<noteq> [] \<Longrightarrow> best opts infs \<noteq> None"
    and best_member: "best opts infs = Some (Some o1) \<Longrightarrow> o1 \<in> set opts"
begin

lemma best_cases:
  assumes "opts \<noteq> []"
  obtains "best opts infs = Some None" | o1 where "best opts infs = Some (Some o1)" "o1 \<in> set opts"
  using best_returns [OF assms, of infs] best_member [of opts infs] by fastforce

end

section \<open>Random\<close>

definition RandomBestOption :: "(nat \<Rightarrow> nat) \<Rightarrow> expOption list \<Rightarrow> infos \<Rightarrow> expOption option option" where
  "RandomBestOption rand opts infs =
     (if opts = [] then None else Some (Some (opts ! rand (length opts))))"

section \<open>Most pods\<close>

definition most_pods_step :: "nat \<times> expOption list \<Rightarrow> expOption \<Rightarrow> nat \<times> expOption list" where
  "most_pods_step st opt =
     (case st of (maxPods, maxOptions) \<Rightarrow>
        let maxOptions1 = (if length (eo_Pods opt) = maxPods then maxOptions @ [opt] else maxOptions)
        in if length (eo_Pods opt) > maxPods then (length (eo_Pods opt), [opt]) else (maxPods, maxOptions1))"

definition MostPodsBestOption :: "(nat \<Rightarrow> nat) \<Rightarrow> expOption list \<Rightarrow> infos \<Rightarrow> expOption option option" where
  "MostPodsBestOption rand opts infs =
     (case foldl most_pods_step (0, []) opts of (_, maxOptions) \<Rightarrow>
        if maxOptions = [] then Some None else RandomBestOption rand maxOptions infs)"

section \<open>Least waste\<close>

definition resourcesForPods :: "pod list \<Rightarrow> quantity \<times> quantity" where
  "resourcesForPods pods = (foldl (pod_request ''cpu'') 0 pods, foldl (pod_request ''memory'') 0 pods)"

definition resourcesForNode :: "node \<Rightarrow> quantity \<times> quantity" where
  "resourcesForNode n = (mget0 0 (n_Capacity n) ''cpu'', mget0 0 (n_Capacity n) ''memory'')"

text \<open>The products and differences are \<open>int64\<close>.\<close>

definition wasted :: "int \<Rightarrow> int \<Rightarrow> int \<Rightarrow> f64" where
  "wasted perNode nodeCount requested =
     (let avail = i64 (perNode * nodeCount)
      in fdiv (f_of_int (i64 (avail - requested))) (f_of_int avail))"

definition wastedScore :: "node \<Rightarrow> expOption \<Rightarrow> f64" where
  "wastedScore n opt =
     (case resourcesForPods (eo_Pods opt) of (requestedCPU, requestedMemory) \<Rightarrow>
        case resourcesForNode n of (nodeCPU, nodeMemory) \<Rightarrow>
          fadd (wasted (MilliValue nodeCPU) (eo_NodeCount opt) (MilliValue requestedCPU))
               (wasted (Value nodeMemory) (eo_NodeCount opt) (Value requestedMemory)))"

text \<open>
  The score of an option, \<open>None\<close> without a node info for its group.  The node infos of node groups
  always have a node, so the nil dereference of one without is not told apart.
\<close>

definition waste_of :: "infos \<Rightarrow> expOption \<Rightarrow> f64 option" where
  "waste_of infs opt =
     (case mget infs (ng_Id (eo_NodeGroup opt)) of
        None \<Rightarrow> None
      | Some info \<Rightarrow> (case ni_Node info of None \<Rightarrow> None | Some n \<Rightarrow> Some (wastedScore n opt)))"

definition waste_step :: "infos \<Rightarrow> f64 \<times> expOption list \<Rightarrow> expOption \<Rightarrow> f64 \<times> expOption list" where
  "waste_step infs st opt =
     (case st of (leastWastedScore, leastWastedOptions) \<Rightarrow>
        case waste_of infs opt of
          None \<Rightarrow> st
        | Some w \<Rightarrow>
            let opts1 = (if feq w leastWastedScore then leastWastedOptions @ [opt] else leastWastedOptions)
            in if opts1 = [] \<or> flt w leastWastedScore then (w, [opt]) else (leastWastedScore, opts1))"

definition LeastWasteBestOption :: "(nat \<Rightarrow> nat) \<Rightarrow> expOption list \<Rightarrow> infos \<Rightarrow> expOption option option" where
  "LeastWasteBestOption rand opts infs =
     (case foldl (waste_step infs) (Fin 0, []) opts of (_, leastWastedOptions) \<Rightarrow>
        if leastWastedOptions = [] then Some None else RandomBestOption rand leastWastedOptions infs)"

section \<open>Price\<close>

definition buildNode :: "int \<Rightarrow> int \<Rightarrow> node" where
  "buildNode millicpu mem =
     (let cap = [(''pods'', NewQuantity 100), (''cpu'', NewMilliQuantity millicpu), (''memory'', NewQuantity mem)]
      in empty_node\<lparr>n_Name := ''CA-PreferredNode'', n_Capacity := cap, n_Allocatable := cap\<rparr>)"

definition buildPod :: "string \<Rightarrow> int \<Rightarrow> int \<Rightarrow> pod" where
  "buildPod name millicpu mem = (plain_pod ''default'' name)\<lparr>
     pod_SelfLink := ''/api/v1/namespaces/default/pods/'' @ name, pod_RestartPolicy := '''', pod_Phase := '''',
     pod_TerminationGracePeriodSeconds := None,
     pod_Containers := [\<lparr>ct_Name = '''',
       ct_Requests = [(''cpu'', NewMilliQuantity millicpu), (''memory'', NewQuantity mem)], ct_HostPorts = []\<rparr>]\<rparr>"

definition defaultPreferredNode :: node where
  "defaultPreferredNode = buildNode (4 * 1000) (4 * 4 * 1024 * 1024 * 1024)"

definition priceStabilizationPod :: pod where
  "priceStabilizationPod = buildPod ''stabilize'' 500 (500 * 1024 * 1024)"

definition preferredNode :: "nat \<Rightarrow> node" where
  "preferredNode sz =
     (let mb = 1024 * 1024; cpu = 1000
      in if sz \<le> 2 then buildNode (1 * cpu) (3750 * mb)
         else if sz \<le> 6 then buildNode (2 * cpu) (7500 * mb)
         else if sz \<le> 20 then buildNode (4 * cpu) (15000 * mb)
         else if sz \<le> 60 then buildNode (8 * cpu) (30000 * mb)
         else if sz \<le> 200 then buildNode (16 * cpu) (60000 * mb)
         else buildNode (32 * cpu) (120000 * mb))"

definition SimplePreferredNode :: "string + node list \<Rightarrow> string + node" where
  "SimplePreferredNode listed = (case listed of Inl err \<Rightarrow> Inl err | Inr nodes \<Rightarrow> Inr (preferredNode (length nodes)))"

definition SimpleNodeUnfitness :: "node \<Rightarrow> node \<Rightarrow> f64" where
  "SimpleNodeUnfitness preferred evaluated =
     (let p = f_of_int (MilliValue (mget0 0 (n_Capacity preferred) ''cpu''));
          e = f_of_int (MilliValue (mget0 0 (n_Capacity evaluated) ''cpu''))
      in fmax (fdiv p e) (fdiv e p))"

text \<open>The answers of the pricing model for the hour that starts now, \<open>Inl\<close> an error.\<close>

record pricing =
  pr_NodePrice :: "node \<Rightarrow> string + f64"
  pr_PodPrice :: "pod \<Rightarrow> string + f64"

fun pods_price :: "pricing \<Rightarrow> f64 \<Rightarrow> pod list \<Rightarrow> f64 option" where
  "pods_price pm totalPodPrice [] = Some totalPodPrice"
| "pods_price pm totalPodPrice (p # ps) =
     (case pr_PodPrice pm p of
        Inl _ \<Rightarrow> None
      | Inr podPrice \<Rightarrow> pods_price pm (fadd totalPodPrice podPrice) ps)"

definition gpuUnfitnessOverride :: f64 where "gpuUnfitnessOverride = Fin 1000"
definition notExistCoeficient :: f64 where "notExistCoeficient = Fin 2"

definition suppressed_unfitness :: "(f64 \<Rightarrow> f64) \<Rightarrow> f64 \<Rightarrow> int \<Rightarrow> f64" where
  "suppressed_unfitness tanh64 unfitness nodeCount =
     fadd (fmul (fsub unfitness (Fin 1)) (fsub (Fin 1) (tanh64 (fdiv (f_of_int (nodeCount - 1)) (Fin 15))))) (Fin 1)"

definition option_score ::
  "(f64 \<Rightarrow> f64) \<Rightarrow> (node \<Rightarrow> node \<Rightarrow> f64) \<Rightarrow> pricing \<Rightarrow> f64 \<Rightarrow> node \<Rightarrow> infos \<Rightarrow> expOption \<Rightarrow> f64 option" where
  "option_score tanh64 unfitness pm stabilizationPrice preferred infs opt =
     (case mget infs (ng_Id (eo_NodeGroup opt)) of
        None \<Rightarrow> None
      | Some info \<Rightarrow>
          (case ni_Node info of
             None \<Rightarrow> None
           | Some n \<Rightarrow>
               (case pr_NodePrice pm n of
                  Inl _ \<Rightarrow> None
                | Inr nodePrice \<Rightarrow>
                    (case pods_price pm (Fin 0) (eo_Pods opt) of
                       None \<Rightarrow> None
                     | Some totalPodPrice \<Rightarrow>
                         (let totalNodePrice = fmul nodePrice (f_of_int (eo_NodeCount opt));
                              priceSubScore = fdiv (fadd totalNodePrice stabilizationPrice)
                                                (fadd totalPodPrice stabilizationPrice);
                              suppressed = (if NodeHasGpu n then gpuUnfitnessOverride
                                else suppressed_unfitness tanh64 (unfitness preferred n) (eo_NodeCount opt));
                              score = fmul suppressed priceSubScore
                          in Some (if \<not> ng_Exist (eo_NodeGroup opt) then fmul score notExistCoeficient
                                   else score))))))"

definition price_step ::
  "(expOption \<Rightarrow> f64 option) \<Rightarrow> (f64 \<times> expOption) option \<Rightarrow> expOption \<Rightarrow> (f64 \<times> expOption) option" where
  "price_step score st opt =
     (case score opt of
        None \<Rightarrow> st
      | Some s \<Rightarrow>
          (case st of
             None \<Rightarrow> Some (s, opt)
           | Some (bestScore, _) \<Rightarrow> if flt s bestScore then Some (s, opt) else st))"

text \<open>A failed price of the stabilization pod is its zero value.\<close>

definition PriceBestOption ::
  "(f64 \<Rightarrow> f64) \<Rightarrow> (node \<Rightarrow> node \<Rightarrow> f64) \<Rightarrow> pricing \<Rightarrow> string + node \<Rightarrow> expOption list \<Rightarrow> infos \<Rightarrow>
     expOption option option" where
  "PriceBestOption tanh64 unfitness pm preferred opts infs =
     (let pref = (case preferred of Inl _ \<Rightarrow> defaultPreferredNode | Inr n \<Rightarrow> n);
          stabilizationPrice = (case pr_PodPrice pm priceStabilizationPod of Inl _ \<Rightarrow> Fin 0 | Inr v \<Rightarrow> v)
      in Some (map_option snd (foldl (price_step (option_score tanh64 unfitness pm stabilizationPrice pref infs)) None opts)))"


section \<open>The strategies choose among the options\<close>

lemma random_member:
  assumes "\<And>n. 0 < n \<Longrightarrow> rand n < n" "RandomBestOption rand opts infs = Some (Some o1)"
  shows "o1 \<in> set opts"
  using assms by (auto simp: RandomBestOption_def split: if_splits)

lemma strategy_random: "(\<And>n. 0 < n \<Longrightarrow> rand n < n) \<Longrightarrow> strategy (RandomBestOption rand)"
proof
  assume rand: "\<And>n. 0 < n \<Longrightarrow> rand n < n"
  show "opts \<noteq> [] \<Longrightarrow> RandomBestOption rand opts infs \<noteq> None" for opts infs
    by (simp add: RandomBestOption_def)
  show "RandomBestOption rand opts infs = Some (Some o1) \<Longrightarrow> o1 \<in> set opts" for opts infs o1
    by (rule random_member [OF rand])
qed

text \<open>The loop over the most pods keeps the options with as many pods as the maximum so far.\<close>

lemma most_pods_loop:
  "foldl most_pods_step (0, []) opts =
     (foldl max 0 (map (\<lambda>opt. length (eo_Pods opt)) opts),
      filter (\<lambda>opt. length (eo_Pods opt) = foldl max 0 (map (\<lambda>opt. length (eo_Pods opt)) opts)) opts)"
proof (induction opts rule: rev_induct)
  case (snoc opt opts)
  let ?m = "foldl max 0 (map (\<lambda>opt. length (eo_Pods opt)) opts)"
  have le: "length (eo_Pods o1) \<le> ?m" if "o1 \<in> set opts" for o1
    using that by (induction opts rule: rev_induct) (auto simp: le_max_iff_disj)
  show ?case
  proof (cases "length (eo_Pods opt) > ?m")
    case True
    then have "filter (\<lambda>o1. length (eo_Pods o1) = length (eo_Pods opt)) opts = []"
      using le by (fastforce simp: filter_empty_conv)
    then show ?thesis using True snoc.IH by (simp add: most_pods_step_def)
  next
    case False
    then have "max ?m (length (eo_Pods opt)) = ?m" by simp
    then show ?thesis using False snoc.IH by (simp add: most_pods_step_def [of _ opt])
  qed
qed simp

lemma foldl_max_ge: "x \<in> set xs \<Longrightarrow> x \<le> foldl max (a :: nat) xs"
proof (induction xs rule: rev_induct)
  case (snoc y ys)
  then show ?case by (cases "x = y") (auto simp: le_max_iff_disj)
qed simp

lemma most_pods_options:
  assumes "MostPodsBestOption rand opts infs = Some (Some o1)" "\<And>n. 0 < n \<Longrightarrow> rand n < n"
  shows "o1 \<in> set opts \<and> (\<forall>o2\<in>set opts. length (eo_Pods o2) \<le> length (eo_Pods o1))"
proof -
  let ?m = "foldl max 0 (map (\<lambda>opt. length (eo_Pods opt)) opts)"
  have "o1 \<in> set (filter (\<lambda>opt. length (eo_Pods opt) = ?m) opts)"
    by (rule random_member [OF assms(2), where infs = infs])
      (use assms(1) in \<open>simp_all add: MostPodsBestOption_def most_pods_loop split: if_splits\<close>)
  then show ?thesis using foldl_max_ge [of _ "map (\<lambda>opt. length (eo_Pods opt)) opts" 0] by auto
qed

lemma strategy_most_pods:
  assumes "\<And>n. 0 < n \<Longrightarrow> rand n < n"
  shows "strategy (MostPodsBestOption rand)"
proof
  show "opts \<noteq> [] \<Longrightarrow> MostPodsBestOption rand opts infs \<noteq> None" for opts infs
    by (simp add: MostPodsBestOption_def most_pods_loop RandomBestOption_def)
  show "MostPodsBestOption rand opts infs = Some (Some o1) \<Longrightarrow> o1 \<in> set opts" for opts infs o1
    using most_pods_options [OF _ assms] by blast
qed

text \<open>The options of least waste, when no waste is NaN.\<close>

definition least_waste_inv :: "infos \<Rightarrow> expOption list \<Rightarrow> f64 \<times> expOption list \<Rightarrow> bool" where
  "least_waste_inv infs opts st \<longleftrightarrow>
     set (snd st) \<subseteq> set opts \<and> (\<forall>o1\<in>set (snd st). waste_of infs o1 = Some (fst st)) \<and>
     (snd st \<noteq> [] \<longrightarrow> (\<forall>o1\<in>set opts. \<forall>w. waste_of infs o1 = Some w \<longrightarrow> fle (fst st) w)) \<and>
     (snd st = [] \<longrightarrow> (\<forall>o1\<in>set opts. waste_of infs o1 = None))"

lemma least_waste_step:
  assumes "least_waste_inv infs opts st" "\<And>w. waste_of infs opt = Some w \<Longrightarrow> w \<noteq> NaN"
    and "\<forall>o1\<in>set opts. waste_of infs o1 \<noteq> Some NaN"
  shows "least_waste_inv infs (opts @ [opt]) (waste_step infs st opt)"
proof (cases "waste_of infs opt")
  case None
  then show ?thesis using assms(1)
    by (cases st) (auto simp: least_waste_inv_def waste_step_def)
next
  case (Some w)
  obtain s os where st: "st = (s, os)" by (cases st)
  have w: "w \<noteq> NaN" using assms(2) Some by blast
  show ?thesis
  proof (cases "os = []")
    case True
    then show ?thesis using assms(1) Some w
      by (auto simp: st least_waste_inv_def waste_step_def feq_def Let_def fle_refl)
  next
    case False
    have s: "s \<noteq> NaN" using assms(1,3) False by (cases os) (auto simp: st least_waste_inv_def)
    then consider "flt w s" | "w = s" | "flt s w" using w fle_total [of w s] by (auto simp: flt_def)
    then show ?thesis
    proof cases
      case 1
      then have "\<not> feq w s" by (auto simp: feq_def flt_def)
      then show ?thesis using assms(1) Some False 1 w fle_trans [of w s] flt_fle [OF 1]
        by (fastforce simp: st least_waste_inv_def waste_step_def Let_def fle_refl)
    next
      case 2
      then show ?thesis using assms(1) Some False s
        by (auto simp: st least_waste_inv_def waste_step_def Let_def feq_def flt_def fle_refl)
    next
      case 3
      then have "\<not> feq w s" "\<not> flt w s" using fle_antisym [of w s] by (auto simp: feq_def flt_def)
      then show ?thesis using assms(1) Some False 3
        by (auto simp: st least_waste_inv_def waste_step_def Let_def flt_def)
    qed
  qed
qed

lemma waste_step_member:
  "set (snd st) \<subseteq> set opts \<Longrightarrow> set (snd (waste_step infs st opt)) \<subseteq> set (opts @ [opt])"
  by (auto simp: waste_step_def Let_def split: prod.splits option.splits if_splits)

lemma waste_loop_member: "set (snd (foldl (waste_step infs) (Fin 0, []) opts)) \<subseteq> set opts"
proof (induction opts rule: rev_induct)
  case (snoc opt opts)
  then show ?case using waste_step_member [of "foldl (waste_step infs) (Fin 0, []) opts" opts infs opt] by simp
qed simp

lemma strategy_least_waste:
  assumes "\<And>n. 0 < n \<Longrightarrow> rand n < n"
  shows "strategy (LeastWasteBestOption rand)"
proof
  show "opts \<noteq> [] \<Longrightarrow> LeastWasteBestOption rand opts infs \<noteq> None" for opts infs
    by (simp add: LeastWasteBestOption_def RandomBestOption_def split: prod.split)
  show "LeastWasteBestOption rand opts infs = Some (Some o1) \<Longrightarrow> o1 \<in> set opts" for opts infs o1
    using random_member [OF assms] waste_loop_member [of infs opts]
    by (auto simp: LeastWasteBestOption_def split: prod.splits if_splits)
qed

text \<open>The price loop keeps the first option of least score.\<close>

definition price_inv :: "(expOption \<Rightarrow> f64 option) \<Rightarrow> expOption list \<Rightarrow> (f64 \<times> expOption) option \<Rightarrow> bool" where
  "price_inv score opts st \<longleftrightarrow>
     (case st of
        None \<Rightarrow> \<forall>o1\<in>set opts. score o1 = None
      | Some (s, opt) \<Rightarrow> opt \<in> set opts \<and> score opt = Some s \<and>
          ((\<forall>o1\<in>set opts. score o1 \<noteq> Some NaN) \<longrightarrow> (\<forall>o1\<in>set opts. \<forall>t. score o1 = Some t \<longrightarrow> fle s t)))"

lemma price_inv_step:
  assumes "price_inv score opts st"
  shows "price_inv score (opts @ [opt]) (price_step score st opt)"
proof (cases "score opt")
  case None
  then show ?thesis using assms by (auto simp: price_inv_def price_step_def split: option.splits)
next
  case (Some t)
  show ?thesis
  proof (cases st)
    case None
    then show ?thesis using assms Some by (auto simp: price_inv_def price_step_def fle_refl)
  next
    case st: (Some best)
    obtain s o1 where b: "best = (s, o1)" by (cases best)
    have IH: "o1 \<in> set opts" "score o1 = Some s"
      "(\<forall>o1\<in>set opts. score o1 \<noteq> Some NaN) \<longrightarrow> (\<forall>o1\<in>set opts. \<forall>t. score o1 = Some t \<longrightarrow> fle s t)"
      using assms by (simp_all add: st b price_inv_def)
    show ?thesis
    proof (cases "flt t s")
      case True
      have "t \<noteq> NaN" using True by (auto simp: flt_def)
      then show ?thesis using IH Some True fle_trans [OF flt_fle [OF True]] fle_refl [of t]
        by (auto simp: st b price_inv_def price_step_def)
    next
      case False
      have "fle s t" if "\<forall>o1\<in>set (opts @ [opt]). score o1 \<noteq> Some NaN"
        using that IH(1,2) Some False not_flt [of t s] by auto
      then show ?thesis using IH Some False by (auto simp: st b price_inv_def price_step_def)
    qed
  qed
qed

lemma price_inv_loop: "price_inv score opts (foldl (price_step score) None opts)"
proof (induction opts rule: rev_induct)
  case (snoc opt opts)
  then show ?case using price_inv_step by simp
qed (simp add: price_inv_def)

lemma strategy_price: "strategy (PriceBestOption tanh64 unfitness pm preferred)"
proof
  show "opts \<noteq> [] \<Longrightarrow> PriceBestOption tanh64 unfitness pm preferred opts infs \<noteq> None" for opts infs
    by (simp add: PriceBestOption_def Let_def)
  show "PriceBestOption tanh64 unfitness pm preferred opts infs = Some (Some o1) \<Longrightarrow> o1 \<in> set opts" for opts infs o1
    using price_inv_loop [of _ opts] by (fastforce simp: PriceBestOption_def Let_def price_inv_def split: option.splits)
qed

interpretation random0: strategy "RandomBestOption (\<lambda>n. 0)"
  by (rule strategy_random) simp

interpretation most_pods0: strategy "MostPodsBestOption (\<lambda>n. 0)"
  by (rule strategy_most_pods) simp

interpretation least_waste0: strategy "LeastWasteBestOption (\<lambda>n. 0)"
  by (rule strategy_least_waste) simp

interpretation price: strategy "PriceBestOption tanh64 unfitness pm preferred" for tanh64 unfitness pm preferred
  by (rule strategy_price)


section \<open>Properties\<close>

text \<open>
  The most-pods strategy.  From at least one option it returns one of the options, and no
  option schedules more pods.
\<close>

theorem most_pods_is_maximal:
  assumes "opts \<noteq> []" "\<And>n. 0 < n \<Longrightarrow> rand n < n"
  shows "\<exists>o1\<in>set opts. MostPodsBestOption rand opts infs = Some (Some o1) \<and>
     (\<forall>o2\<in>set opts. length (eo_Pods o2) \<le> length (eo_Pods o1))"
proof -
  let ?lens = "map (\<lambda>opt. length (eo_Pods opt)) opts"
  have "foldl max 0 ?lens \<in> set ?lens"
    using assms(1)
  proof (induction opts rule: rev_induct)
    case (snoc opt opts)
    then show ?case by (cases "opts = []") (auto simp: max_def [of _ "length (eo_Pods opt)"])
  qed simp
  then have "filter (\<lambda>opt. length (eo_Pods opt) = foldl max 0 ?lens) opts \<noteq> []"
    by (auto simp: filter_empty_conv)
  then obtain o1 where "MostPodsBestOption rand opts infs = Some (Some o1)"
    by (auto simp: MostPodsBestOption_def most_pods_loop RandomBestOption_def)
  then show ?thesis using most_pods_options [OF _ assms(2)] by blast
qed

text \<open>
  The least-waste strategy.  When no waste is NaN, the option it returns has a node info and
  wastes no more than any other option with one; it returns none only if no option has a node info.
\<close>

theorem least_waste_is_minimal:
  assumes "\<forall>o1\<in>set opts. waste_of infs o1 \<noteq> Some NaN" "opts \<noteq> []" "\<And>n. 0 < n \<Longrightarrow> rand n < n"
  shows "case LeastWasteBestOption rand opts infs of
       Some (Some o1) \<Rightarrow> o1 \<in> set opts \<and> (\<exists>w. waste_of infs o1 = Some w \<and>
         (\<forall>o2\<in>set opts. \<forall>v. waste_of infs o2 = Some v \<longrightarrow> fle w v))
     | Some None \<Rightarrow> \<forall>o1\<in>set opts. waste_of infs o1 = None
     | None \<Rightarrow> False"
proof -
  have inv: "least_waste_inv infs opts (foldl (waste_step infs) (Fin 0, []) opts)"
    using assms(1)
  proof (induction opts rule: rev_induct)
    case (snoc opt opts)
    then show ?case using least_waste_step [of infs opts "foldl (waste_step infs) (Fin 0, []) opts" opt] by auto
  qed (simp add: least_waste_inv_def)
  obtain w os where st: "foldl (waste_step infs) (Fin 0, []) opts = (w, os)" by fastforce
  show ?thesis
  proof (cases "os = []")
    case True
    then show ?thesis using inv by (simp add: LeastWasteBestOption_def st least_waste_inv_def)
  next
    case False
    then obtain o1 where o1: "RandomBestOption rand os infs = Some (Some o1)" by (simp add: RandomBestOption_def)
    then have "o1 \<in> set os" using random_member [of rand os infs o1] assms(3) by blast
    then show ?thesis using inv False o1
      by (auto simp: LeastWasteBestOption_def st least_waste_inv_def intro!: exI [of _ w])
  qed
qed

text \<open>
  The price strategy.  When no score is NaN, the option it returns has a score and none of the
  options with one scores less; an option without a node info, a price of the node or of
  one of its pods is never returned.
\<close>

theorem price_is_minimal:
  assumes "PriceBestOption tanh64 unfitness pm preferred opts infs = Some (Some o1)"
  defines "score \<equiv> option_score tanh64 unfitness pm
     (case pr_PodPrice pm priceStabilizationPod of Inl _ \<Rightarrow> Fin 0 | Inr v \<Rightarrow> v)
     (case preferred of Inl _ \<Rightarrow> defaultPreferredNode | Inr n \<Rightarrow> n) infs"
  shows "o1 \<in> set opts \<and> (\<exists>s. score o1 = Some s \<and>
     ((\<forall>o2\<in>set opts. score o2 \<noteq> Some NaN) \<longrightarrow> (\<forall>o2\<in>set opts. \<forall>t. score o2 = Some t \<longrightarrow> fle s t)))"
proof -
  obtain s where s: "foldl (price_step score) None opts = Some (s, o1)"
    using assms(1) unfolding PriceBestOption_def Let_def score_def by auto
  show ?thesis using price_inv_loop [of score opts] unfolding s by (simp add: price_inv_def)
qed

text \<open>
  A node without capacity attracts the least-waste strategy.  If the pods of an option request
  CPU and its node shows none, the share of CPU it wastes is minus infinity, so with a finite share of
  memory the option beats every option whose waste is finite.
\<close>

theorem missing_capacity_wins_least_waste:
  assumes "mget infs (ng_Id (eo_NodeGroup opt)) = Some info" "ni_Node info = Some n"
    and "mget (n_Capacity n) ''cpu'' = None"
    and "0 < MilliValue (fst (resourcesForPods (eo_Pods opt)))" "MilliValue (fst (resourcesForPods (eo_Pods opt))) \<le> 2 ^ 53"
    and "wasted (Value (snd (resourcesForNode n))) (eo_NodeCount opt) (Value (snd (resourcesForPods (eo_Pods opt)))) = Fin x"
    and "waste_of infs o2 = Some (Fin y)"
  shows "waste_of infs opt = Some NInf \<and> flt NInf (Fin y)"
proof -
  let ?r = "MilliValue (fst (resourcesForPods (eo_Pods opt)))"
  have r: "in_i64 (- ?r)" using assms(4,5) by (simp add: in_i64_def minInt64_def maxInt64_def)
  have i0: "i64 0 = 0" by (rule i64_id) simp
  have "wasted 0 (eo_NodeCount opt) ?r = NInf"
    using assms(4,5) by (simp add: wasted_def Let_def i0 i64_id [OF r] f_of_int_exact finf_def)
  moreover have "MilliValue (fst (resourcesForNode n)) = 0"
    using assms(3) by (simp add: resourcesForNode_def mget0_None MilliValue_def quantity_ceil_def)
  ultimately have "wastedScore n opt = NInf"
    using assms(6) by (simp add: wastedScore_def case_prod_beta)
  then show ?thesis using assms(1,2) by (simp add: waste_of_def flt_def)
qed

section \<open>The properties on concrete options\<close>

definition opt_for :: "string \<Rightarrow> int \<Rightarrow> pod list \<Rightarrow> expOption" where
  "opt_for g k pods = \<lparr>eo_NodeGroup = sized_group g 1 9, eo_NodeCount = k, eo_Pods = pods\<rparr>"

definition cores_node :: "int \<Rightarrow> node" where
  "cores_node k = empty_node\<lparr>n_Capacity := [(''cpu'', NewQuantity k), (''memory'', NewQuantity 1024)]\<rparr>"

definition half_pod :: pod where
  "half_pod = buildPod ''half'' 500 512"

definition opt_infos :: infos where
  "opt_infos = [(''g1'', \<lparr>ni_Node = Some (cores_node 1), ni_Pods = []\<rparr>),
     (''g2'', \<lparr>ni_Node = Some (cores_node 2), ni_Pods = []\<rparr>),
     (''g3'', \<lparr>ni_Node = Some (empty_node\<lparr>n_Capacity := [(''memory'', NewQuantity 1024)]\<rparr>), ni_Pods = []\<rparr>)]"

lemma half_pod_requests:
  "pod_request ''cpu'' 0 half_pod = NewMilliQuantity 500" "pod_request ''memory'' 0 half_pod = NewQuantity 512"
  by (simp_all add: half_pod_def buildPod_def pod_request_def plain_pod_def)

lemma half_waste: "wasted 1024 1 512 = mkf (1 / 2)"
  by (simp add: wasted_def Let_def i64_id in_i64_def minInt64_def maxInt64_def f_of_int_exact)

lemma mkf_half: "mkf (1 / 2) = Fin (1 / 2)"
proof -
  have "rnd_pos (1 / 2) = 1 / 2" using rnd_pos_exact [of 1 "- 1"] by (simp add: exp2_def)
  then show ?thesis by (simp add: mkf_def Let_def rnd_def maxFloat64_def)
qed

lemma opt_waste_not_NaN:
  "waste_of opt_infos (opt_for ''g1'' 1 [half_pod]) = Some (fadd (mkf (1 / 2)) (mkf (1 / 2)))"
  by (simp add: waste_of_def opt_infos_def opt_for_def sized_group_def wastedScore_def resourcesForPods_def
      half_pod_requests resourcesForNode_def cores_node_def mget0_def half_waste MilliValue_def quantity_ceil_def
      NewQuantity_def Value_def NewMilliQuantity_def)
    (simp add: wasted_def Let_def i64_id in_i64_def minInt64_def maxInt64_def f_of_int_exact)

lemma most_pods_is_maximal_witness:
  "\<exists>o1\<in>{opt_for ''g1'' 1 [half_pod], opt_for ''g2'' 1 [half_pod, half_pod]}.
     MostPodsBestOption (\<lambda>n. 0) [opt_for ''g1'' 1 [half_pod], opt_for ''g2'' 1 [half_pod, half_pod]] [] = Some (Some o1) \<and>
     length (eo_Pods o1) = 2"
  using most_pods_is_maximal [of "[opt_for ''g1'' 1 [half_pod], opt_for ''g2'' 1 [half_pod, half_pod]]" "\<lambda>n. 0" "[]"]
  by (auto simp: opt_for_def)

lemma least_waste_is_minimal_witness:
  "LeastWasteBestOption (\<lambda>n. 0) [opt_for ''g1'' 1 [half_pod]] opt_infos = Some (Some (opt_for ''g1'' 1 [half_pod]))"
proof -
  have "\<forall>o1\<in>set [opt_for ''g1'' 1 [half_pod]]. waste_of opt_infos o1 \<noteq> Some NaN"
    by (simp add: opt_waste_not_NaN mkf_half)
  from least_waste_is_minimal [OF this, of "\<lambda>n. 0"] show ?thesis
    by (auto simp: opt_waste_not_NaN split: option.splits)
qed

definition flat_prices :: pricing where
  "flat_prices = \<lparr>pr_NodePrice = \<lambda>_. Inr (Fin 1), pr_PodPrice = \<lambda>_. Inr (Fin 0)\<rparr>"

lemma price_is_minimal_witness:
  "\<exists>s. option_score (\<lambda>x. x) SimpleNodeUnfitness flat_prices (Fin 0) defaultPreferredNode opt_infos
     (opt_for ''g1'' 1 [half_pod]) = Some s"
proof -
  have "PriceBestOption (\<lambda>x. x) SimpleNodeUnfitness flat_prices (Inl '''') [opt_for ''g1'' 1 [half_pod]] opt_infos =
      Some (Some (opt_for ''g1'' 1 [half_pod]))"
    by (simp add: PriceBestOption_def price_step_def option_score_def opt_infos_def opt_for_def sized_group_def flat_prices_def Let_def)
  from price_is_minimal [OF this] show ?thesis by (auto simp: flat_prices_def)
qed

lemma missing_capacity_wins_least_waste_witness:
  "waste_of opt_infos (opt_for ''g3'' 1 [half_pod]) = Some NInf"
proof -
  have "fadd (mkf (1 / 2)) (mkf (1 / 2)) = Fin 1"
    using f_of_int_exact [of 1] by (simp add: mkf_half f_of_int_def)
  then have "waste_of opt_infos (opt_for ''g1'' 1 [half_pod]) = Some (Fin 1)" by (simp add: opt_waste_not_NaN)
  from missing_capacity_wins_least_waste [OF _ _ _ _ _ _ this, of "opt_for ''g3'' 1 [half_pod]"
      "\<lparr>ni_Node = Some (empty_node\<lparr>n_Capacity := [(''memory'', NewQuantity 1024)]\<rparr>), ni_Pods = []\<rparr>"
      "empty_node\<lparr>n_Capacity := [(''memory'', NewQuantity 1024)]\<rparr>" "1 / 2"]
  show ?thesis
    by (simp add: opt_for_def opt_infos_def sized_group_def empty_node_def resourcesForPods_def half_pod_requests
      resourcesForNode_def mget0_def half_waste mkf_half)
qed

end
