(* ===== verification/Predicates.thy ===== *)
theory Predicates
  imports Simulator
begin

text \<open>
  \<open>simulator/predicates.go\<close> and \<open>utils/daemonset/daemonset.go\<close>: the predicates of the scheduler, in
  the order the checker runs them, and the daemon set pods a new node starts with.
  A predicate is code outside the autoscaler: a function to its answer (match, failure reasons,
  error), \<open>None\<close> when it panics.  Metadata nil is \<open>None\<close>.
  The lemmas show that a checker accepts a pod exactly when every predicate does, in whatever order
  Go visits the map of predicates, and what turning the affinity predicate off changes.
\<close>

section \<open>Errors of predicates\<close>

record predicateError =
  pe_predicateName :: string
  pe_failureReasons :: "string list"
  pe_err :: "string option"
  pe_reasons :: "string list option"
  pe_message :: string

definition NewPredicateError :: "string \<Rightarrow> string option \<Rightarrow> string list option \<Rightarrow> string list \<Rightarrow> predicateError" where
  "NewPredicateError name err reasons originalReasons =
     \<lparr>pe_predicateName = name, pe_failureReasons = originalReasons, pe_err = err,
      pe_reasons = reasons, pe_message = ''''\<rparr>"

definition ErrorText :: "predicateError \<Rightarrow> string" where
  "ErrorText pe = (if pe_message pe \<noteq> '''' then pe_message pe else ''Predicates failed'')"

text \<open>Both store what they computed; the error is returned updated beside the answer.\<close>

definition Reasons :: "predicateError \<Rightarrow> string list \<times> predicateError" where
  "Reasons pe =
     (case pe_reasons pe of
        Some rs \<Rightarrow> (rs, pe)
      | None \<Rightarrow> (pe_failureReasons pe, pe\<lparr>pe_reasons := Some (pe_failureReasons pe)\<rparr>))"

fun join_comma :: "string list \<Rightarrow> string" where
  "join_comma [] = ''''"
| "join_comma [r] = r"
| "join_comma (r # rs) = r @ '', '' @ join_comma rs"

definition VerboseError :: "predicateError \<Rightarrow> string \<times> predicateError" where
  "VerboseError pe =
     (if pe_message pe \<noteq> '''' then (pe_message pe, pe)
      else
        (case pe_err pe of
           Some err \<Rightarrow>
             (let message = pe_predicateName pe @ '' predicate error: '' @ err
              in (message, pe\<lparr>pe_message := message\<rparr>))
         | None \<Rightarrow>
             (case Reasons pe of (rs, pe') \<Rightarrow>
                let message = pe_predicateName pe @ '' predicate mismatch, reason: '' @ join_comma rs
                in (message, pe'\<lparr>pe_message := message\<rparr>))))"

section \<open>The checker\<close>

type_synonym 'm fitPredicate = "pod \<Rightarrow> 'm option \<Rightarrow> nodeInfo \<Rightarrow> (bool \<times> string list \<times> string option) option"

record 'm predicateInfo =
  pi_name :: string
  pi_predicate :: "'m fitPredicate"

record 'm predicateChecker =
  pc_predicates :: "'m predicateInfo list"
  pc_metadataProducer :: "pod \<Rightarrow> infos \<Rightarrow> 'm option"
  pc_enableAffinityPredicate :: bool

definition affinityPredicateName :: string where
  "affinityPredicateName = ''MatchInterPodAffinity''"

definition priorityPredicates :: "string list" where
  "priorityPredicates = [''PodFitsResources'', ''GeneralPredicates'', ''PodToleratesNodeTaints'']"

definition isNodeReadyAndSchedulablePredicate :: "'m fitPredicate" where
  "isNodeReadyAndSchedulablePredicate p meta info =
     (case ni_Node info of
        None \<Rightarrow> None
      | Some n \<Rightarrow>
          Some (if \<not> IsNodeReadyAndSchedulable n then (False, [''node is unready''], None) else (True, [], None)))"

text \<open>The predicates named in \<open>priorityPredicates\<close> first, then what is left of the map.\<close>

definition take_priority ::
  "'m predicateInfo list \<times> (string, 'm fitPredicate) gomap \<Rightarrow> string \<Rightarrow>
     'm predicateInfo list \<times> (string, 'm fitPredicate) gomap" where
  "take_priority st name =
     (case st of (predicateList, predicateMap) \<Rightarrow>
        case mget predicateMap name of
          Some predicate \<Rightarrow> (predicateList @ [\<lparr>pi_name = name, pi_predicate = predicate\<rparr>], mdel name predicateMap)
        | None \<Rightarrow> st)"

definition predicate_list :: "(string, 'm fitPredicate) gomap \<Rightarrow> 'm predicateInfo list" where
  "predicate_list predicateMap =
     (case foldl take_priority ([], predicateMap) priorityPredicates of (predicateList, rest) \<Rightarrow>
        predicateList @ map (\<lambda>(name, predicate). \<lparr>pi_name = name, pi_predicate = predicate\<rparr>) rest)"

text \<open>
  The arguments are what the scheduler's factory answers: the algorithm provider, the metadata
  producer, and the map of predicates with its error, where a nil map is \<open>None\<close>.  The code stores
  \<open>ready\<close> in the map before it looks at the error; storing into a nil map panics (\<open>None\<close>).
\<close>

definition NewPredicateChecker ::
  "string option \<Rightarrow> string + (pod \<Rightarrow> infos \<Rightarrow> 'm option) \<Rightarrow>
     (string, 'm fitPredicate) gomap option \<times> string option \<Rightarrow> 'm fitPredicate \<Rightarrow>
     (string + 'm predicateChecker) option" where
  "NewPredicateChecker provider_err metadata predicates podFitsResources =
     (case provider_err of
        Some err \<Rightarrow> Some (Inl err)
      | None \<Rightarrow>
          (case metadata of
             Inl err \<Rightarrow> Some (Inl err)
           | Inr metadataProducer \<Rightarrow>
               (case fst predicates of
                  None \<Rightarrow> None
                | Some m \<Rightarrow>
                    (let m1 = mput ''ready'' isNodeReadyAndSchedulablePredicate m
                     in case snd predicates of
                          Some err \<Rightarrow> Some (Inl err)
                        | None \<Rightarrow>
                            (let m2 = (if \<not> mhas m1 ''PodFitsResources''
                                       then mput ''PodFitsResources'' podFitsResources m1 else m1)
                             in Some (Inr \<lparr>pc_predicates = predicate_list m2,
                                  pc_metadataProducer = metadataProducer,
                                  pc_enableAffinityPredicate = True\<rparr>))))))"

definition SetAffinityPredicateEnabled :: "bool \<Rightarrow> 'm predicateChecker \<Rightarrow> 'm predicateChecker" where
  "SetAffinityPredicateEnabled enable pc = pc\<lparr>pc_enableAffinityPredicate := enable\<rparr>"

definition IsAffinityPredicateEnabled :: "'m predicateChecker \<Rightarrow> bool" where
  "IsAffinityPredicateEnabled pc = pc_enableAffinityPredicate pc"

definition GetPredicateMetadata :: "'m predicateChecker \<Rightarrow> pod \<Rightarrow> infos \<Rightarrow> 'm option" where
  "GetPredicateMetadata pc p infs =
     (if \<not> pc_enableAffinityPredicate pc then None else pc_metadataProducer pc p infs)"

text \<open>\<open>None\<close> is a panic, \<open>Some None\<close> the nil error of a pod that passes.\<close>

fun check_loop ::
  "bool \<Rightarrow> pod \<Rightarrow> 'm option \<Rightarrow> nodeInfo \<Rightarrow> 'm predicateInfo list \<Rightarrow> predicateError option option" where
  "check_loop enabled p meta info [] = Some None"
| "check_loop enabled p meta info (q # qs) =
     (if \<not> enabled \<and> pi_name q = affinityPredicateName then check_loop enabled p meta info qs
      else
        (case pi_predicate q p meta info of
           None \<Rightarrow> None
         | Some (fits, failureReasons, err) \<Rightarrow>
             if err \<noteq> None \<or> \<not> fits
             then Some (Some \<lparr>pe_predicateName = pi_name q, pe_failureReasons = failureReasons, pe_err = err,
                          pe_reasons = None, pe_message = ''''\<rparr>)
             else check_loop enabled p meta info qs))"

definition CheckPredicates ::
  "'m predicateChecker \<Rightarrow> pod \<Rightarrow> 'm option \<Rightarrow> nodeInfo \<Rightarrow> predicateError option option" where
  "CheckPredicates pc p meta info = check_loop (pc_enableAffinityPredicate pc) p meta info (pc_predicates pc)"

text \<open>The test the rest of the development takes as a parameter.\<close>

definition passes :: "'m predicateChecker \<Rightarrow> 'm option \<Rightarrow> pod \<Rightarrow> nodeInfo \<Rightarrow> bool" where
  "passes pc meta p info \<longleftrightarrow> CheckPredicates pc p meta info = Some None"

fun FitsAny :: "'m predicateChecker \<Rightarrow> pod \<Rightarrow> infos \<Rightarrow> (string + string) option" where
  "FitsAny pc p [] = Some (Inl (''cannot put pod '' @ pod_Name p @ '' on any node''))"
| "FitsAny pc p ((name, info) # infs) =
     (case ni_Node info of
        None \<Rightarrow> None
      | Some n \<Rightarrow>
          if n_Unschedulable n then FitsAny pc p infs
          else (case CheckPredicates pc p None info of
                  None \<Rightarrow> None
                | Some None \<Rightarrow> Some (Inr name)
                | Some (Some err) \<Rightarrow> FitsAny pc p infs))"

section \<open>Daemon set pods\<close>

text \<open>The template of a daemon set is a pod with its specification and metadata.\<close>

record daemonSet =
  ds_Namespace :: string
  ds_Name :: string
  ds_Template :: pod

definition newPod :: "daemonSet \<Rightarrow> string \<Rightarrow> int \<Rightarrow> pod" where
  "newPod ds nodeName r = (ds_Template ds)\<lparr>pod_Namespace := ds_Namespace ds,
     pod_Name := ds_Name ds @ ''-pod-'' @ itoa r, pod_NodeName := nodeName,
     pod_Phase := ''''\<rparr>"

text \<open>\<open>rands k\<close> is the random number of the \<open>k\<close>-th daemon set.\<close>

fun daemonset_pods ::
  "'m predicateChecker \<Rightarrow> (nat \<Rightarrow> int) \<Rightarrow> nodeInfo \<Rightarrow> string \<Rightarrow> nat \<Rightarrow> daemonSet list \<Rightarrow> pod list option" where
  "daemonset_pods pc rands info nodeName k [] = Some []"
| "daemonset_pods pc rands info nodeName k (ds # dss) =
     (let p = newPod ds nodeName (rands k)
      in case CheckPredicates pc p None info of
           None \<Rightarrow> None
         | Some err \<Rightarrow>
             map_option (\<lambda>ps. if err = None then p # ps else ps)
               (daemonset_pods pc rands info nodeName (k + 1) dss))"

definition GetDaemonSetPodsForNode ::
  "'m predicateChecker \<Rightarrow> (nat \<Rightarrow> int) \<Rightarrow> nodeInfo \<Rightarrow> daemonSet list \<Rightarrow> pod list option" where
  "GetDaemonSetPodsForNode pc rands info daemonsets =
     (if daemonsets = [] then Some []
      else case ni_Node info of
             None \<Rightarrow> None
           | Some n \<Rightarrow> daemonset_pods pc rands info (n_Name n) 0 daemonsets)"

section \<open>Every predicate decides once\<close>

definition accepts :: "'m fitPredicate \<Rightarrow> pod \<Rightarrow> 'm option \<Rightarrow> nodeInfo \<Rightarrow> bool" where
  "accepts predicate p meta info \<longleftrightarrow> (\<exists>reasons. predicate p meta info = Some (True, reasons, None))"

lemma accepts_ready:
  "accepts isNodeReadyAndSchedulablePredicate p meta info \<longleftrightarrow>
     (\<exists>n. ni_Node info = Some n \<and> IsNodeReadyAndSchedulable n)"
  by (simp add: accepts_def isNodeReadyAndSchedulablePredicate_def split: option.splits)

lemma check_loop_passes:
  "check_loop enabled p meta info qs = Some None \<longleftrightarrow>
     (\<forall>q\<in>set qs. enabled \<or> pi_name q \<noteq> affinityPredicateName \<longrightarrow> accepts (pi_predicate q) p meta info)"
  by (induction qs) (auto simp: accepts_def split: option.splits if_splits)

lemma passes_iff:
  "passes pc meta p info \<longleftrightarrow>
     (\<forall>q\<in>set (pc_predicates pc). pc_enableAffinityPredicate pc \<or> pi_name q \<noteq> affinityPredicateName \<longrightarrow>
        accepts (pi_predicate q) p meta info)"
  by (simp add: passes_def CheckPredicates_def check_loop_passes)

definition named_predicates :: "'m predicateInfo list \<Rightarrow> (string, 'm fitPredicate) gomap" where
  "named_predicates qs = map (\<lambda>q. (pi_name q, pi_predicate q)) qs"

lemma take_priority_set:
  assumes "gomap_ok m" "take_priority (qs, m) name = (qs', m')"
  shows "gomap_ok m' \<and> set (named_predicates qs') \<union> set m' = set (named_predicates qs) \<union> set m"
proof (cases "mget m name")
  case None
  with assms show ?thesis by (simp add: take_priority_def)
next
  case (Some predicate)
  then have new: "m' = mdel name m" "qs' = qs @ [\<lparr>pi_name = name, pi_predicate = predicate\<rparr>]"
    using assms(2) by (auto simp: take_priority_def)
  have "(k, v) \<in> set m' \<longleftrightarrow> (k, v) \<in> set m \<and> k \<noteq> name" for k v
    using assms(1) by (auto simp: new(1) mget_eq_Some_iff [symmetric] split: if_splits)
  moreover have "(name, v) \<in> set m \<longleftrightarrow> v = predicate" for v
    using Some assms(1) by (auto simp: mget_eq_Some_iff [symmetric])
  ultimately show ?thesis using assms(1) by (auto simp: new named_predicates_def)
qed

lemma take_priorities_set:
  assumes "gomap_ok m" "foldl take_priority (qs, m) names = (qs', m')"
  shows "gomap_ok m' \<and> set (named_predicates qs') \<union> set m' = set (named_predicates qs) \<union> set m"
  using assms
proof (induction names arbitrary: qs m)
  case (Cons name names)
  obtain qs1 m1 where one: "take_priority (qs, m) name = (qs1, m1)" by fastforce
  with Cons.prems take_priority_set [OF Cons.prems(1) one] Cons.IH [of m1 qs1] show ?case by simp
qed simp

lemma predicate_list_set:
  assumes "gomap_ok m"
  shows "set (named_predicates (predicate_list m)) = set m"
proof -
  obtain qs rest where f: "foldl take_priority ([], m) priorityPredicates = (qs, rest)" by fastforce
  have "set (named_predicates (predicate_list m)) = set (named_predicates qs) \<union> set rest"
    by (force simp: predicate_list_def f named_predicates_def)
  with take_priorities_set [OF assms f] show ?thesis by (simp add: named_predicates_def)
qed

lemma new_checker:
  assumes "NewPredicateChecker None (Inr mp) (Some m, None) podFits = Some (Inr pc)" "gomap_ok m"
  shows "pc_enableAffinityPredicate pc"
    and "set (named_predicates (pc_predicates pc)) =
      set (let m1 = mput ''ready'' isNodeReadyAndSchedulablePredicate m
           in if mhas m1 ''PodFitsResources'' then m1 else mput ''PodFitsResources'' podFits m1)"
  using assms(1)
  by (auto simp: NewPredicateChecker_def Let_def predicate_list_set assms(2))

lemma new_checker_mget:
  assumes "NewPredicateChecker None (Inr mp) (Some m, None) podFits = Some (Inr pc)" "gomap_ok m"
  shows "(name, predicate) \<in> set (named_predicates (pc_predicates pc)) \<longleftrightarrow>
     (if name = ''ready'' then predicate = isNodeReadyAndSchedulablePredicate
      else mget m name = Some predicate \<or> name = ''PodFitsResources'' \<and> mget m name = None \<and> predicate = podFits)"
  using assms(2)
  by (auto simp: new_checker(2) [OF assms] Let_def mhas_def mget_eq_Some_iff [symmetric] split: if_splits)

lemma split_named:
  assumes "ready \<noteq> first"
  shows "(\<forall>k q. (if k = ready then q = r else mp k = Some q \<or> k = first \<and> mp k = None \<and> q = f) \<longrightarrow> acc q) \<longleftrightarrow>
     acc r \<and> (\<forall>k q. mp k = Some q \<and> k \<noteq> ready \<longrightarrow> acc q) \<and> (mp first = None \<longrightarrow> acc f)"
  using assms by (auto split: if_splits)

text \<open>
  A checker built from the scheduler's predicates accepts a pod on a node exactly when the node is
  ready and schedulable, every predicate of the scheduler's map (its own \<open>ready\<close> aside) accepts it, and
  so does PodFitsResources even where the map lacks it: neither the order of the priority predicates
  nor the order in which Go visits the rest of the map matters.
\<close>

theorem checker_runs_every_predicate:
  assumes "NewPredicateChecker None (Inr mp) (Some m, None) podFits = Some (Inr pc)" "gomap_ok m"
  shows "passes pc meta p info \<longleftrightarrow>
     (\<exists>n. ni_Node info = Some n \<and> IsNodeReadyAndSchedulable n) \<and>
     (\<forall>name predicate. mget m name = Some predicate \<and> name \<noteq> ''ready'' \<longrightarrow> accepts predicate p meta info) \<and>
     (mget m ''PodFitsResources'' = None \<longrightarrow> accepts podFits p meta info)"
proof -
  have "passes pc meta p info \<longleftrightarrow>
      (\<forall>(name, predicate)\<in>set (named_predicates (pc_predicates pc)). accepts predicate p meta info)"
    by (auto simp: passes_iff new_checker(1) [OF assms] named_predicates_def)
  also have "\<dots> \<longleftrightarrow> (\<forall>name predicate. (name, predicate) \<in> set (named_predicates (pc_predicates pc)) \<longrightarrow>
      accepts predicate p meta info)"
    by auto
  also have "\<dots> \<longleftrightarrow> accepts isNodeReadyAndSchedulablePredicate p meta info \<and>
      (\<forall>name predicate. mget m name = Some predicate \<and> name \<noteq> ''ready'' \<longrightarrow> accepts predicate p meta info) \<and>
      (mget m ''PodFitsResources'' = None \<longrightarrow> accepts podFits p meta info)"
    unfolding new_checker_mget [OF assms] by (rule split_named) simp
  finally show ?thesis by (simp only: accepts_ready)
qed

text \<open>The error of \<open>GetPredicates\<close> comes with a nil map, and storing \<open>ready\<close> into it panics.\<close>

lemma failed_predicates_panic: "NewPredicateChecker None (Inr mp) (None, Some err) podFits = None"
  by (simp add: NewPredicateChecker_def)

lemma affinity_off:
  assumes "\<And>q. q \<in> set qs \<Longrightarrow> pi_name q = affinityPredicateName \<Longrightarrow> accepts (pi_predicate q) p meta info"
  shows "check_loop False p meta info qs = check_loop True p meta info qs"
  using assms
proof (induction qs)
  case (Cons q qs)
  then have "check_loop False p meta info qs = check_loop True p meta info qs" by simp
  moreover have "pi_name q = affinityPredicateName \<Longrightarrow> \<exists>rs. pi_predicate q p meta info = Some (True, rs, None)"
    using Cons.prems [of q] by (simp add: accepts_def)
  ultimately show ?case by (auto split: option.split)
qed simp

section \<open>Verbose messages\<close>

lemma VerboseError_stable:
  assumes "VerboseError pe = (message, pe')"
  shows "VerboseError pe' = (message, pe') \<and> ErrorText pe' = message"
proof -
  have ne: "message \<noteq> '''' \<and> pe_message pe' = message"
    using assms by (auto simp: VerboseError_def Let_def split: if_splits option.splits prod.splits)
  then show ?thesis by (simp add: VerboseError_def ErrorText_def)
qed

section \<open>Fitting anywhere\<close>

definition open_node :: "nodeInfo \<Rightarrow> bool" where
  "open_node info \<longleftrightarrow> (\<exists>n. ni_Node info = Some n \<and> \<not> n_Unschedulable n)"

lemma FitsAny_iff:
  assumes "FitsAny pc p infs = Some r"
  shows "(\<exists>name. r = Inr name) \<longleftrightarrow> (\<exists>(name, info)\<in>set infs. open_node info \<and> passes pc None p info)"
  using assms
proof (induction infs)
  case (Cons entry infs)
  obtain name info where e: "entry = (name, info)" by fastforce
  with Cons show ?case
    by (auto simp: open_node_def passes_def split: option.splits if_splits)
qed auto

lemma FitsAny_returns:
  assumes "\<And>name info. (name, info) \<in> set infs \<Longrightarrow> ni_Node info \<noteq> None \<and> CheckPredicates pc p None info \<noteq> None"
  shows "FitsAny pc p infs \<noteq> None"
  using assms
proof (induction infs)
  case (Cons entry infs)
  obtain name info where e: "entry = (name, info)" by fastforce
  have "FitsAny pc p infs \<noteq> None" by (rule Cons.IH) (use Cons.prems in force)
  with e Cons.prems [of name info] show ?case by (auto split: option.split)
qed simp

section \<open>A concrete checker\<close>

definition cpu_predicate :: "unit fitPredicate" where
  "cpu_predicate p meta info =
     (case ni_Node info of
        None \<Rightarrow> None
      | Some n \<Rightarrow>
          Some (if pod_request ''cpu'' 0 p \<le> mget0 0 (n_Allocatable n) ''cpu'' then (True, [], None)
                else (False, [''Insufficient cpu''], None)))"

definition no_metadata :: "pod \<Rightarrow> infos \<Rightarrow> unit option" where
  "no_metadata p infs = None"

definition demo_checker :: "unit predicateChecker" where
  "demo_checker = \<lparr>pc_predicates = predicate_list (mput ''PodFitsResources'' cpu_predicate
       (mput ''ready'' isNodeReadyAndSchedulablePredicate [(''GeneralPredicates'', cpu_predicate)])),
     pc_metadataProducer = no_metadata, pc_enableAffinityPredicate = True\<rparr>"

lemma demo_checker_new:
  "NewPredicateChecker None (Inr no_metadata) (Some [(''GeneralPredicates'', cpu_predicate)], None) cpu_predicate =
     Some (Inr demo_checker)"
  by (simp add: NewPredicateChecker_def demo_checker_def mhas_def)

theorem checker_runs_every_predicate_witness:
  "\<not> passes demo_checker None (plain_pod ''default'' ''web'') (NewNodeInfo []) \<and>
   gomap_ok [(''GeneralPredicates'', cpu_predicate)]"
proof -
  have ok: "gomap_ok [(''GeneralPredicates'', cpu_predicate)]" by (simp add: gomap_ok_def)
  show ?thesis
    using checker_runs_every_predicate [OF demo_checker_new ok, of None "plain_pod ''default'' ''web''" "NewNodeInfo []"] ok
    by (simp add: NewNodeInfo_def)
qed

end
