(* ===== verification/GroupOps.thy ===== *)
theory GroupOps
  imports ScaleDownLimits
begin

text \<open>
  The operations of a \<open>cloudprovider.NodeGroup\<close> that change the cloud: their interface, the locale
  \<open>node_groups\<close>, states what \<open>cloudprovider/cloud_provider.go\<close> documents of them, for any type of
  provider state.  The provider of \<open>cloudprovider/test/test_cloud_provider.go\<close> implements it; its
  callbacks are parameters, functions to their error (\<open>None\<close> is nil).
\<close>

section \<open>The interface\<close>

record 's groupOps =
  go_TargetSize :: "string \<Rightarrow> 's \<Rightarrow> string + int"
  go_IncreaseSize :: "string \<Rightarrow> int \<Rightarrow> 's \<Rightarrow> string option \<times> 's"
  go_DecreaseTargetSize :: "string \<Rightarrow> int \<Rightarrow> 's \<Rightarrow> string option \<times> 's"
  go_DeleteNodes :: "string \<Rightarrow> node list \<Rightarrow> 's \<Rightarrow> string option \<times> 's"

text \<open>
  A call that succeeds changes the target size of its group by the amount asked for; one that fails
  changes it by that amount or not at all.  No call touches another group.
\<close>

definition resizes :: "(string \<Rightarrow> 's \<Rightarrow> string + int) \<Rightarrow> string \<Rightarrow> int \<Rightarrow> 's \<Rightarrow> string option \<times> 's \<Rightarrow> bool" where
  "resizes target gid d s res \<longleftrightarrow>
     (case res of (err, s') \<Rightarrow>
        (\<forall>n. target gid s = Inr n \<longrightarrow> target gid s' = Inr (n + d) \<or> err \<noteq> None \<and> target gid s' = Inr n) \<and>
        (\<forall>k. k \<noteq> gid \<longrightarrow> target k s' = target k s))"

locale node_groups =
  fixes ops :: "'s groupOps"
  assumes increase: "0 < d \<Longrightarrow> resizes (go_TargetSize ops) gid d s (go_IncreaseSize ops gid d s)"
    and decrease: "d < 0 \<Longrightarrow> resizes (go_TargetSize ops) gid d s (go_DecreaseTargetSize ops gid d s)"
    and delete_one: "resizes (go_TargetSize ops) gid (- 1) s (go_DeleteNodes ops gid [n] s)"
begin

lemma increase_target:
  assumes "go_IncreaseSize ops gid d s = (err, s')" "0 < d" "go_TargetSize ops gid s = Inr n"
  shows "go_TargetSize ops gid s' = Inr (n + d) \<or> err \<noteq> None \<and> go_TargetSize ops gid s' = Inr n"
    and "k \<noteq> gid \<Longrightarrow> go_TargetSize ops k s' = go_TargetSize ops k s"
  using increase [OF assms(2), of gid s] assms by (auto simp: resizes_def)

lemma delete_target:
  assumes "go_DeleteNodes ops gid [n] s = (err, s')"
  shows "go_TargetSize ops gid s = Inr m \<Longrightarrow>
      go_TargetSize ops gid s' = Inr (m - 1) \<or> err \<noteq> None \<and> go_TargetSize ops gid s' = Inr m"
    and "k \<noteq> gid \<Longrightarrow> go_TargetSize ops k s' = go_TargetSize ops k s"
  using delete_one [of gid s n] assms by (auto simp: resizes_def)

lemma decrease_target:
  assumes "go_DecreaseTargetSize ops gid d s = (err, s')" "d < 0"
  shows "go_TargetSize ops gid s = Inr n \<Longrightarrow>
      go_TargetSize ops gid s' = Inr (n + d) \<or> err \<noteq> None \<and> go_TargetSize ops gid s' = Inr n"
    and "k \<noteq> gid \<Longrightarrow> go_TargetSize ops k s' = go_TargetSize ops k s"
  using decrease [OF assms(2), of gid s] assms by (auto simp: resizes_def)

end

section \<open>The test provider\<close>

record testNodeGroup =
  tng_id :: string
  tng_maxSize :: int
  tng_minSize :: int
  tng_targetSize :: int
  tng_exist :: bool
  tng_autoprovisioned :: bool
  tng_machineType :: string
  tng_labels :: "(string, string) gomap"
  tng_taints :: "taint list"

record testCloudProvider =
  tcp_nodes :: "(string, string) gomap"
  tcp_groups :: "(string, testNodeGroup) gomap"
  tcp_machineTypes :: "string list"
  tcp_machineTemplates :: "(string, nodeInfo) gomap option"
  tcp_resourceLimiter :: resourceLimiter

definition NewTestCloudProvider :: testCloudProvider where
  "NewTestCloudProvider = \<lparr>tcp_nodes = [], tcp_groups = [], tcp_machineTypes = [],
     tcp_machineTemplates = None, tcp_resourceLimiter = NewResourceLimiter [] []\<rparr>"

definition NewTestAutoprovisioningCloudProvider ::
  "string list \<Rightarrow> (string, nodeInfo) gomap option \<Rightarrow> testCloudProvider" where
  "NewTestAutoprovisioningCloudProvider machineTypes machineTemplates =
     NewTestCloudProvider\<lparr>tcp_machineTypes := machineTypes, tcp_machineTemplates := machineTemplates\<rparr>"

definition BuildNodeGroup :: "string \<Rightarrow> int \<Rightarrow> int \<Rightarrow> int \<Rightarrow> bool \<Rightarrow> string \<Rightarrow> testNodeGroup" where
  "BuildNodeGroup gid min_size max_size target autoprovisioned machineType =
     \<lparr>tng_id = gid, tng_maxSize = max_size, tng_minSize = min_size, tng_targetSize = target, tng_exist = True,
      tng_autoprovisioned = autoprovisioned, tng_machineType = machineType, tng_labels = [], tng_taints = []\<rparr>"

definition NewNodeGroup :: "string \<Rightarrow> (string, string) gomap \<Rightarrow> taint list \<Rightarrow> testNodeGroup" where
  "NewNodeGroup machineType labels taints =
     \<lparr>tng_id = ''autoprovisioned-'' @ machineType, tng_maxSize = 1000, tng_minSize = 0, tng_targetSize = 0,
      tng_exist = False, tng_autoprovisioned = True, tng_machineType = machineType,
      tng_labels = labels, tng_taints = taints\<rparr>"

definition InsertNodeGroup :: "testNodeGroup \<Rightarrow> testCloudProvider \<Rightarrow> testCloudProvider" where
  "InsertNodeGroup g tcp = tcp\<lparr>tcp_groups := mput (tng_id g) g (tcp_groups tcp)\<rparr>"

definition AddNodeGroup :: "string \<Rightarrow> int \<Rightarrow> int \<Rightarrow> int \<Rightarrow> testCloudProvider \<Rightarrow> testCloudProvider" where
  "AddNodeGroup gid min_size max_size target tcp =
     InsertNodeGroup (BuildNodeGroup gid min_size max_size target False '''') tcp"

definition AddAutoprovisionedNodeGroup ::
  "string \<Rightarrow> int \<Rightarrow> int \<Rightarrow> int \<Rightarrow> string \<Rightarrow> testCloudProvider \<Rightarrow> testNodeGroup \<times> testCloudProvider" where
  "AddAutoprovisionedNodeGroup gid min_size max_size target machineType tcp =
     (let g = BuildNodeGroup gid min_size max_size target True machineType in (g, InsertNodeGroup g tcp))"

definition AddNode :: "string \<Rightarrow> node \<Rightarrow> testCloudProvider \<Rightarrow> testCloudProvider" where
  "AddNode gid n tcp = tcp\<lparr>tcp_nodes := mput (n_Name n) gid (tcp_nodes tcp)\<rparr>"

definition GetNodeGroup :: "testCloudProvider \<Rightarrow> string \<Rightarrow> testNodeGroup option" where
  "GetNodeGroup tcp gid = mget (tcp_groups tcp) gid"

definition SetResourceLimiter :: "resourceLimiter \<Rightarrow> testCloudProvider \<Rightarrow> testCloudProvider" where
  "SetResourceLimiter limiter tcp = tcp\<lparr>tcp_resourceLimiter := limiter\<rparr>"

definition TestNodes :: "testCloudProvider \<Rightarrow> testNodeGroup \<Rightarrow> string list" where
  "TestNodes tcp g = map fst (filter (\<lambda>(n, gid). gid = tng_id g) (tcp_nodes tcp))"

text \<open>The answers of a group and of the provider in a state, as the rest of the development reads them.\<close>

definition group_view :: "testCloudProvider \<Rightarrow> testNodeGroup \<Rightarrow> nodeGroup" where
  "group_view tcp g = \<lparr>ng_Id = tng_id g, ng_MinSize = tng_minSize g, ng_MaxSize = tng_maxSize g,
     ng_TargetSize = Inr (tng_targetSize g), ng_Exist = tng_exist g, ng_Autoprovisioned = tng_autoprovisioned g,
     ng_Nodes = Inr (TestNodes tcp g)\<rparr>"

definition TestNodeGroups :: "testCloudProvider \<Rightarrow> nodeGroup list" where
  "TestNodeGroups tcp = map (\<lambda>(_, g). group_view tcp g) (tcp_groups tcp)"

definition TestNodeGroupForNode :: "testCloudProvider \<Rightarrow> node \<Rightarrow> string + nodeGroup option" where
  "TestNodeGroupForNode tcp n =
     (case mget (tcp_nodes tcp) (n_Name n) of
        None \<Rightarrow> Inr None
      | Some groupName \<Rightarrow> Inr (map_option (group_view tcp) (mget (tcp_groups tcp) groupName)))"

definition provider_view :: "testCloudProvider \<Rightarrow> cloudProvider" where
  "provider_view tcp = \<lparr>cp_NodeGroups = TestNodeGroups tcp, cp_NodeGroupForNode = TestNodeGroupForNode tcp\<rparr>"

text \<open>\<open>Inl None\<close> is \<open>ErrNotImplemented\<close>.\<close>

definition TemplateNodeInfo :: "testCloudProvider \<Rightarrow> testNodeGroup \<Rightarrow> string option + nodeInfo" where
  "TemplateNodeInfo tcp g =
     (case tcp_machineTemplates tcp of
        None \<Rightarrow> Inl None
      | Some templates \<Rightarrow>
          (let key = (if tng_autoprovisioned g then tng_machineType g else tng_id g)
           in case mget templates key of
                None \<Rightarrow> Inl (Some (''No template declared for '' @ key))
              | Some template \<Rightarrow> Inr template))"

section \<open>Its operations\<close>

definition change_target :: "string \<Rightarrow> int \<Rightarrow> testCloudProvider \<Rightarrow> testCloudProvider" where
  "change_target gid d tcp =
     (case mget (tcp_groups tcp) gid of
        None \<Rightarrow> tcp
      | Some g \<Rightarrow> tcp\<lparr>tcp_groups := mput gid (g\<lparr>tng_targetSize := tng_targetSize g + d\<rparr>) (tcp_groups tcp)\<rparr>)"

definition TestTargetSize :: "string \<Rightarrow> testCloudProvider \<Rightarrow> string + int" where
  "TestTargetSize gid tcp =
     (case mget (tcp_groups tcp) gid of None \<Rightarrow> Inl ''no such group'' | Some g \<Rightarrow> Inr (tng_targetSize g))"

definition TestIncreaseSize ::
  "(string \<Rightarrow> int \<Rightarrow> string option) \<Rightarrow> string \<Rightarrow> int \<Rightarrow> testCloudProvider \<Rightarrow> string option \<times> testCloudProvider" where
  "TestIncreaseSize onScaleUp gid delta tcp = (onScaleUp gid delta, change_target gid delta tcp)"

definition TestDecreaseTargetSize ::
  "(string \<Rightarrow> int \<Rightarrow> string option) \<Rightarrow> string \<Rightarrow> int \<Rightarrow> testCloudProvider \<Rightarrow> string option \<times> testCloudProvider" where
  "TestDecreaseTargetSize onScaleUp gid delta tcp = (onScaleUp gid delta, change_target gid delta tcp)"

fun first_error :: "(node \<Rightarrow> string option) \<Rightarrow> node list \<Rightarrow> string option" where
  "first_error f [] = None"
| "first_error f (n # ns) = (case f n of Some err \<Rightarrow> Some err | None \<Rightarrow> first_error f ns)"

definition TestDeleteNodes ::
  "(string \<Rightarrow> string \<Rightarrow> string option) \<Rightarrow> string \<Rightarrow> node list \<Rightarrow> testCloudProvider \<Rightarrow>
     string option \<times> testCloudProvider" where
  "TestDeleteNodes onScaleDown gid nodes tcp =
     (first_error (\<lambda>n. onScaleDown gid (n_Name n)) nodes, change_target gid (- int (length nodes)) tcp)"

definition TestCreate ::
  "(string \<Rightarrow> string option) \<Rightarrow> testNodeGroup \<Rightarrow> testCloudProvider \<Rightarrow>
     (string option \<times> testNodeGroup option) \<times> testCloudProvider" where
  "TestCreate onNodeGroupCreate g tcp =
     (if tng_exist g then ((Some ''Group already exist'', None), tcp)
      else case AddAutoprovisionedNodeGroup (tng_id g) (tng_minSize g) (tng_maxSize g) 0 (tng_machineType g) tcp of
             (newNodeGroup, tcp') \<Rightarrow> ((onNodeGroupCreate (tng_id g), Some newNodeGroup), tcp'))"

definition test_ops ::
  "(string \<Rightarrow> int \<Rightarrow> string option) \<Rightarrow> (string \<Rightarrow> string \<Rightarrow> string option) \<Rightarrow> testCloudProvider groupOps" where
  "test_ops onScaleUp onScaleDown =
     \<lparr>go_TargetSize = TestTargetSize, go_IncreaseSize = TestIncreaseSize onScaleUp,
      go_DecreaseTargetSize = TestDecreaseTargetSize onScaleUp, go_DeleteNodes = TestDeleteNodes onScaleDown\<rparr>"

lemma target_change_target:
  "TestTargetSize k (change_target gid d tcp) = (if k = gid then map_sum id (\<lambda>n. n + d) (TestTargetSize k tcp)
     else TestTargetSize k tcp)"
  by (auto simp: TestTargetSize_def change_target_def split: option.split)

interpretation tg: node_groups "test_ops onScaleUp onScaleDown" for onScaleUp onScaleDown
  by unfold_locales
    (auto simp: resizes_def test_ops_def TestIncreaseSize_def TestDecreaseTargetSize_def TestDeleteNodes_def
      target_change_target)

end
