(* ===== verification/CoreUtils.thy ===== *)
theory CoreUtils
  imports Predicates GroupOps ScaleDown
begin

text \<open>
  \<open>core/utils.go\<close>: the cache of predicate results for pods of one controller and the two routines
  that use it, the node infos the scale-up simulates with (\<open>simulator/nodes.go\<close>), removal of nodes
  that never registered, repair of node group sizes, and small helpers.
  A panic is \<open>None\<close>; \<open>floop\<close> is a loop with an early error return.
  The lemmas show that caching does not change an answer, that the template nodes are clean and come
  from the best source there is, and that the repairs respect the minimum sizes.
\<close>

section \<open>Equal specifications\<close>

text \<open>
  \<open>apiequality.Semantic.DeepEqual\<close> compares maps as maps and quantities by value; \<open>reflect.DeepEqual\<close>
  is used for the labels.
\<close>

definition mequal :: "('k, 'v) gomap \<Rightarrow> ('k, 'v) gomap \<Rightarrow> bool" where
  "mequal m1 m2 \<longleftrightarrow> length m1 = length m2 \<and> list_all (\<lambda>(k, v). mget m2 k = Some v) m1"

definition container_equal :: "container \<Rightarrow> container \<Rightarrow> bool" where
  "container_equal c d \<longleftrightarrow>
     ct_Name c = ct_Name d \<and> ct_HostPorts c = ct_HostPorts d \<and> mequal (ct_Requests c) (ct_Requests d)"

record podSpec =
  ps_NodeName :: string
  ps_RestartPolicy :: string
  ps_Volumes :: "volume list"
  ps_Containers :: "container list"
  ps_Priority :: "int option"
  ps_Grace :: "int option"
  ps_Affinity :: "affinity option"
  ps_Other :: string

definition spec_of :: "pod \<Rightarrow> podSpec" where
  "spec_of p = \<lparr>ps_NodeName = pod_NodeName p, ps_RestartPolicy = pod_RestartPolicy p, ps_Volumes = pod_Volumes p,
     ps_Containers = pod_Containers p, ps_Priority = pod_Priority p,
     ps_Grace = pod_TerminationGracePeriodSeconds p, ps_Affinity = pod_Affinity p, ps_Other = pod_OtherSpec p\<rparr>"

definition spec_equal :: "podSpec \<Rightarrow> podSpec \<Rightarrow> bool" where
  "spec_equal s t \<longleftrightarrow> ps_NodeName s = ps_NodeName t \<and> ps_RestartPolicy s = ps_RestartPolicy t \<and>
     ps_Volumes s = ps_Volumes t \<and> list_all2 container_equal (ps_Containers s) (ps_Containers t) \<and>
     ps_Priority s = ps_Priority t \<and> ps_Grace s = ps_Grace t \<and> ps_Affinity s = ps_Affinity t \<and>
     ps_Other s = ps_Other t"

section \<open>The cache of predicate results\<close>

record podSchedulableInfo =
  psi_spec :: podSpec
  psi_labels :: "(string, string) gomap"
  psi_schedulingError :: "predicateError option"

type_synonym podSchedulableMap = "(string, podSchedulableInfo list) gomap"

definition psi_match :: "pod \<Rightarrow> podSchedulableInfo \<Rightarrow> bool" where
  "psi_match p psi \<longleftrightarrow> mequal (pod_Labels p) (psi_labels psi) \<and> spec_equal (spec_of p) (psi_spec psi)"

text \<open>\<open>None\<close> is \<open>found = false\<close>.\<close>

definition cache_get :: "podSchedulableMap \<Rightarrow> pod \<Rightarrow> predicateError option option" where
  "cache_get podMap p =
     (case ControllerRef p of
        None \<Rightarrow> None
      | Some ref \<Rightarrow>
          (case mget podMap (or_UID ref) of
             None \<Rightarrow> None
           | Some psis \<Rightarrow> map_option psi_schedulingError (find (psi_match p) psis)))"

definition cache_set :: "pod \<Rightarrow> predicateError option \<Rightarrow> podSchedulableMap \<Rightarrow> podSchedulableMap" where
  "cache_set p err podMap =
     (case ControllerRef p of
        None \<Rightarrow> podMap
      | Some ref \<Rightarrow>
          mput (or_UID ref)
            (mget0 [] podMap (or_UID ref) @
              [\<lparr>psi_spec = spec_of p, psi_labels = pod_Labels p, psi_schedulingError = err\<rparr>]) podMap)"

fun unschedulable_loop ::
  "'m predicateChecker \<Rightarrow> infos \<Rightarrow> podSchedulableMap \<Rightarrow> pod list \<Rightarrow> pod list option" where
  "unschedulable_loop pc infs podSchedulable [] = Some []"
| "unschedulable_loop pc infs podSchedulable (p # ps) =
     (case cache_get podSchedulable p of
        Some cachedError \<Rightarrow>
          map_option (\<lambda>rest. if cachedError \<noteq> None then p # rest else rest)
            (unschedulable_loop pc infs podSchedulable ps)
      | None \<Rightarrow>
          (case FitsAny pc p infs of
             None \<Rightarrow> None
           | Some res \<Rightarrow>
               (let predicateError = (case res of
                      Inl err \<Rightarrow> Some (NewPredicateError ''FitsAny'' (Some err) None [])
                    | Inr nodeName \<Rightarrow> None)
                in map_option (\<lambda>rest. if predicateError \<noteq> None then p # rest else rest)
                     (unschedulable_loop pc infs (cache_set p predicateError podSchedulable) ps))))"

definition FilterOutSchedulable ::
  "'m predicateChecker \<Rightarrow> pod list \<Rightarrow> node list \<Rightarrow> pod list \<Rightarrow> pod list \<Rightarrow> int \<Rightarrow> pod list option" where
  "FilterOutSchedulable pc unschedulableCandidates nodes allScheduled podsWaiting cutoff =
     unschedulable_loop pc
       (CreateNodeNameToInfoMap (FilterOutExpendablePods allScheduled cutoff @ podsWaiting) nodes)
       [] unschedulableCandidates"

definition FilterOutExpendableAndSplit :: "pod list \<Rightarrow> int \<Rightarrow> pod list \<times> pod list" where
  "FilterOutExpendableAndSplit candidates cutoff =
     foldl (\<lambda>(nonExpendable, waiting) p.
       if (case pod_Priority p of None \<Rightarrow> False | Some prio \<Rightarrow> prio < cutoff) then (nonExpendable, waiting)
       else if mget0 '''' (pod_Annotations p) NominatedNodeAnnotationKey \<noteq> ''''
       then (nonExpendable, waiting @ [p])
       else (nonExpendable @ [p], waiting)) ([], []) candidates"

text \<open>
  The result is keyed by the pods, which are different objects; a pod that appears twice is counted
  once.
\<close>

fun schedulable_on_node_loop ::
  "'m predicateChecker \<Rightarrow> nodeInfo \<Rightarrow> podSchedulableMap \<Rightarrow> (pod, predicateError option) gomap \<Rightarrow> pod list \<Rightarrow>
     (pod, predicateError option) gomap option" where
  "schedulable_on_node_loop pc info podSchedulable schedulingErrors [] = Some schedulingErrors"
| "schedulable_on_node_loop pc info podSchedulable schedulingErrors (p # ps) =
     (case cache_get podSchedulable p of
        Some err \<Rightarrow> schedulable_on_node_loop pc info podSchedulable (mput p err schedulingErrors) ps
      | None \<Rightarrow>
          (case CheckPredicates pc p None info of
             None \<Rightarrow> None
           | Some err \<Rightarrow>
               schedulable_on_node_loop pc info (cache_set p err podSchedulable) (mput p err schedulingErrors) ps))"

definition CheckPodsSchedulableOnNode ::
  "'m predicateChecker \<Rightarrow> pod list \<Rightarrow> nodeInfo \<Rightarrow> (pod, predicateError option) gomap option" where
  "CheckPodsSchedulableOnNode pc pods info = schedulable_on_node_loop pc info [] [] pods"

section \<open>Template nodes\<close>

datatype goError = PlainError string | CaError autoscalerError

definition ToAutoscalerError :: "autoscalerErrorType \<Rightarrow> goError \<Rightarrow> autoscalerError" where
  "ToAutoscalerError defaultType err =
     (case err of CaError e \<Rightarrow> e | PlainError msg \<Rightarrow> NewAutoscalerError defaultType msg)"

text \<open>An autoscaler error is a value, so the comparison with \<open>ErrNotImplemented\<close> is of its fields.\<close>

definition ErrNotImplemented :: autoscalerError where
  "ErrNotImplemented = NewAutoscalerError InternalError ''Not implemented''"

definition ReschedulerTaintKey :: string where
  "ReschedulerTaintKey = ''CriticalAddonsOnly''"

definition LabelHostname :: string where
  "LabelHostname = ''kubernetes.io/hostname''"

definition template_name :: "string \<Rightarrow> int \<Rightarrow> string" where
  "template_name nodeGroupName r = ''template-node-for-'' @ nodeGroupName @ ''-'' @ itoa r"

definition sanitizeTemplateNode :: "int \<Rightarrow> node \<Rightarrow> string \<Rightarrow> node" where
  "sanitizeTemplateNode r n nodeGroupName =
     (let nodeName = template_name nodeGroupName r
      in n\<lparr>n_Labels := foldl (\<lambda>m (k, v). mput k (if k \<noteq> LabelHostname then v else nodeName) m) [] (n_Labels n),
           n_Name := nodeName,
           n_Taints := filter (\<lambda>t. t_Key t \<noteq> ReschedulerTaintKey \<and> t_Key t \<noteq> ToBeDeletedTaint) (n_Taints n)\<rparr>)"

text \<open>\<open>r\<close> is the random number in the new name; a node info without a node panics.\<close>

definition sanitizeNodeInfo :: "int \<Rightarrow> nodeInfo \<Rightarrow> string \<Rightarrow> nodeInfo option" where
  "sanitizeNodeInfo r info nodeGroupName =
     (case ni_Node info of
        None \<Rightarrow> None
      | Some n \<Rightarrow>
          (let sanitizedNode = sanitizeTemplateNode r n nodeGroupName
           in Some ((NewNodeInfo (map (\<lambda>p. p\<lparr>pod_NodeName := n_Name sanitizedNode\<rparr>) (ni_Pods info)))
                \<lparr>ni_Node := Some sanitizedNode\<rparr>)))"

text \<open>
  \<open>listed\<close> is the API server's answer for the pods of a node, \<open>message\<close> the text of a drain error.
\<close>

definition BuildNodeInfoForNode ::
  "(drainError \<Rightarrow> string) \<Rightarrow> 'sel as_selector \<Rightarrow> time \<Rightarrow> (string \<Rightarrow> string + pod list) \<Rightarrow> node \<Rightarrow> autoscalerError + nodeInfo" where
  "BuildNodeInfoForNode message as_sel now listed n =
     (case GetRequiredPodsForNode as_sel now (listed (n_Name n)) of
        Inl (Inl err) \<Rightarrow> Inl (NewAutoscalerError ApiCallError err)
      | Inl (Inr err) \<Rightarrow> Inl (NewAutoscalerError InternalError (message err))
      | Inr requiredPods \<Rightarrow> Inr ((NewNodeInfo requiredPods)\<lparr>ni_Node := Some n\<rparr>))"

text \<open>
  \<open>template\<close> is \<open>TemplateNodeInfo\<close> of the node group; \<open>rands\<close> are the random numbers of the group's
  node and of its daemon set pods.
\<close>

definition GetNodeInfoFromTemplate ::
  "'m predicateChecker \<Rightarrow> (nodeGroup \<Rightarrow> goError + nodeInfo) \<Rightarrow> daemonSet list \<Rightarrow>
     (string \<Rightarrow> int \<times> (nat \<Rightarrow> int)) \<Rightarrow> nodeGroup \<Rightarrow> (autoscalerError + nodeInfo) option" where
  "GetNodeInfoFromTemplate pc template daemonsets rands ng =
     (case template ng of
        Inl err \<Rightarrow> Some (Inl (ToAutoscalerError CloudProviderError err))
      | Inr baseNodeInfo \<Rightarrow>
          (case GetDaemonSetPodsForNode pc (snd (rands (ng_Id ng))) baseNodeInfo daemonsets of
             None \<Rightarrow> None
           | Some pods \<Rightarrow>
               map_option Inr
                 (sanitizeNodeInfo (fst (rands (ng_Id ng)))
                   ((NewNodeInfo (pods @ ni_Pods baseNodeInfo))\<lparr>ni_Node := ni_Node baseNodeInfo\<rparr>)
                   (ng_Id ng))))"

text \<open>The result is whether the node info was added, and the node infos so far.\<close>

definition process_node ::
  "cloudProvider \<Rightarrow> (node \<Rightarrow> autoscalerError + nodeInfo) \<Rightarrow> (string \<Rightarrow> int) \<Rightarrow> infos \<Rightarrow> node \<Rightarrow>
     (autoscalerError + bool \<times> infos) option" where
  "process_node cp build rands result n =
     (case cp_NodeGroupForNode cp n of
        Inl err \<Rightarrow> Some (Inl (NewAutoscalerError CloudProviderError err))
      | Inr None \<Rightarrow> Some (Inr (False, result))
      | Inr (Some ng) \<Rightarrow>
          (if mhas result (ng_Id ng) then Some (Inr (False, result))
           else
             (case build n of
                Inl err \<Rightarrow> Some (Inl err)
              | Inr info \<Rightarrow>
                  map_option (\<lambda>sanitized. Inr (True, mput (ng_Id ng) sanitized result))
                    (sanitizeNodeInfo (rands (ng_Id ng)) info (ng_Id ng)))))"

definition ready_node_step ::
  "cloudProvider \<Rightarrow> (node \<Rightarrow> autoscalerError + nodeInfo) \<Rightarrow> (string \<Rightarrow> int) \<Rightarrow> infos \<Rightarrow> node \<Rightarrow>
     (autoscalerError + infos) option" where
  "ready_node_step cp build rands result n =
     (if \<not> IsNodeReadyAndSchedulable n then Some (Inr result)
      else map_option (map_sum id snd) (process_node cp build rands result n))"

definition template_step ::
  "(nodeGroup \<Rightarrow> (autoscalerError + nodeInfo) option) \<Rightarrow> infos \<Rightarrow> nodeGroup \<Rightarrow> (autoscalerError + infos) option" where
  "template_step from_template result ng =
     (if mhas result (ng_Id ng) then Some (Inr result)
      else
        (case from_template ng of
           None \<Rightarrow> None
         | Some (Inl err) \<Rightarrow>
             if err = ErrNotImplemented then Some (Inr result)
             else Some (Inl (ToAutoscalerError CloudProviderError (CaError err)))
         | Some (Inr info) \<Rightarrow> Some (Inr (mput (ng_Id ng) info result))))"

definition last_resort_step ::
  "cloudProvider \<Rightarrow> (node \<Rightarrow> autoscalerError + nodeInfo) \<Rightarrow> (string \<Rightarrow> int) \<Rightarrow> infos \<Rightarrow> node \<Rightarrow>
     (autoscalerError + infos) option" where
  "last_resort_step cp build rands result n =
     (if IsNodeReadyAndSchedulable n then Some (Inr result)
      else
        (case process_node cp build rands result n of
           None \<Rightarrow> None
         | Some (Inl err) \<Rightarrow> Some (Inl err)
         | Some (Inr (added, result')) \<Rightarrow>
             (case cp_NodeGroupForNode cp n of
                Inl err \<Rightarrow> Some (Inl (NewAutoscalerError CloudProviderError err))
              | Inr _ \<Rightarrow> Some (Inr result'))))"

definition GetNodeInfosForGroups ::
  "cloudProvider \<Rightarrow> (node \<Rightarrow> autoscalerError + nodeInfo) \<Rightarrow>
     (nodeGroup \<Rightarrow> (autoscalerError + nodeInfo) option) \<Rightarrow> (string \<Rightarrow> int) \<Rightarrow> node list \<Rightarrow>
     (autoscalerError + infos) option" where
  "GetNodeInfosForGroups cp build from_template rands nodes =
     (case floop (ready_node_step cp build rands) [] nodes of
        None \<Rightarrow> None
      | Some (Inl err) \<Rightarrow> Some (Inl err)
      | Some (Inr result) \<Rightarrow>
          (case floop (template_step from_template) result (cp_NodeGroups cp) of
             None \<Rightarrow> None
           | Some (Inl err) \<Rightarrow> Some (Inl err)
           | Some (Inr result) \<Rightarrow> floop (last_resort_step cp build rands) result nodes))"

fun FilterOutNodesFromNotAutoscaledGroups :: "cloudProvider \<Rightarrow> node list \<Rightarrow> autoscalerError + node list" where
  "FilterOutNodesFromNotAutoscaledGroups cp [] = Inr []"
| "FilterOutNodesFromNotAutoscaledGroups cp (n # ns) =
     (case cp_NodeGroupForNode cp n of
        Inl err \<Rightarrow> Inl (NewAutoscalerError CloudProviderError err)
      | Inr ng \<Rightarrow>
          map_sum id (\<lambda>rest. if ng = None then n # rest else rest)
            (FilterOutNodesFromNotAutoscaledGroups cp ns))"

section \<open>Repairs\<close>

text \<open>The result is whether a node was removed, the error, and the state of the cloud.\<close>

fun removeOldUnregisteredNodes ::
  "'s groupOps \<Rightarrow> (node \<Rightarrow> string + nodeGroup option) \<Rightarrow> duration \<Rightarrow> time \<Rightarrow> bool \<Rightarrow> 's \<Rightarrow>
     unregisteredNode list \<Rightarrow> (bool \<times> string option) \<times> 's" where
  "removeOldUnregisteredNodes ops groupFor maxProvision now removedAny s [] = ((removedAny, None), s)"
| "removeOldUnregisteredNodes ops groupFor maxProvision now removedAny s (u # us) =
     (if \<not> time_before (time_add (un_UnregisteredSince u) maxProvision) now
      then removeOldUnregisteredNodes ops groupFor maxProvision now removedAny s us
      else
        (case groupFor (un_Node u) of
           Inl err \<Rightarrow> ((removedAny, Some err), s)
         | Inr None \<Rightarrow> removeOldUnregisteredNodes ops groupFor maxProvision now removedAny s us
         | Inr (Some ng) \<Rightarrow>
             (case go_TargetSize ops (ng_Id ng) s of
                Inl err \<Rightarrow> removeOldUnregisteredNodes ops groupFor maxProvision now removedAny s us
              | Inr sz \<Rightarrow>
                  if ng_MinSize ng \<ge> sz
                  then removeOldUnregisteredNodes ops groupFor maxProvision now removedAny s us
                  else
                    (case go_DeleteNodes ops (ng_Id ng) [un_Node u] s of
                       (Some err, s') \<Rightarrow> ((removedAny, Some err), s')
                     | (None, s') \<Rightarrow>
                         removeOldUnregisteredNodes ops groupFor maxProvision now True s' us))))"

fun fixNodeGroupSize ::
  "'s groupOps \<Rightarrow> duration \<Rightarrow> time \<Rightarrow> clusterStateRegistry \<Rightarrow> bool \<Rightarrow> 's \<Rightarrow> nodeGroup list \<Rightarrow>
     (bool \<times> string option) \<times> 's" where
  "fixNodeGroupSize ops maxProvision now csr fixed s [] = ((fixed, None), s)"
| "fixNodeGroupSize ops maxProvision now csr fixed s (ng # ngs) =
     (case GetIncorrectNodeGroupSize csr (ng_Id ng) of
        None \<Rightarrow> fixNodeGroupSize ops maxProvision now csr fixed s ngs
      | Some incorrect \<Rightarrow>
          (let delta = ing_CurrentSize incorrect - ing_ExpectedSize incorrect
           in if time_before (time_add (ing_FirstObserved incorrect) maxProvision) now \<and> delta < 0 then
                (case go_DecreaseTargetSize ops (ng_Id ng) delta s of
                   (Some err, s') \<Rightarrow> ((fixed, Some (''Failed to decrease '' @ ng_Id ng @ '': '' @ err)), s')
                 | (None, s') \<Rightarrow> fixNodeGroupSize ops maxProvision now csr True s' ngs)
              else fixNodeGroupSize ops maxProvision now csr fixed s ngs))"

section \<open>Small helpers\<close>

definition potentially_unneeded :: "cloudProvider \<Rightarrow> (string, int) gomap \<Rightarrow> node \<Rightarrow> bool" where
  "potentially_unneeded cp nodeGroupSize n =
     (case cp_NodeGroupForNode cp n of
        Inl _ \<Rightarrow> False
      | Inr None \<Rightarrow> False
      | Inr (Some ng) \<Rightarrow>
          (case mget nodeGroupSize (ng_Id ng) of None \<Rightarrow> False | Some sz \<Rightarrow> \<not> sz \<le> ng_MinSize ng))"

definition getPotentiallyUnneededNodes :: "cloudProvider \<Rightarrow> node list \<Rightarrow> node list" where
  "getPotentiallyUnneededNodes cp nodes = filter (potentially_unneeded cp (getNodeGroupSizeMap cp)) nodes"

definition hasHardInterPodAffinity :: "affinity option \<Rightarrow> bool" where
  "hasHardInterPodAffinity a =
     (case a of
        None \<Rightarrow> False
      | Some a' \<Rightarrow>
          (case af_PodAffinity a' of Some required \<Rightarrow> required \<noteq> [] | None \<Rightarrow> False) \<or>
          (case af_PodAntiAffinity a' of Some required \<Rightarrow> required \<noteq> [] | None \<Rightarrow> False))"

definition anyPodHasHardInterPodAffinity :: "pod list \<Rightarrow> bool" where
  "anyPodHasHardInterPodAffinity pods \<longleftrightarrow> list_ex (\<lambda>p. hasHardInterPodAffinity (pod_Affinity p)) pods"

definition ConfigurePredicateCheckerForLoop ::
  "pod list \<Rightarrow> pod list \<Rightarrow> 'm predicateChecker \<Rightarrow> 'm predicateChecker" where
  "ConfigurePredicateCheckerForLoop unschedulablePods schedulablePods pc =
     (let podsWithAffinityFound = anyPodHasHardInterPodAffinity unschedulablePods;
          podsWithAffinityFound' = (if \<not> podsWithAffinityFound then anyPodHasHardInterPodAffinity schedulablePods
            else podsWithAffinityFound)
      in SetAffinityPredicateEnabled podsWithAffinityFound' pc)"

definition older :: "time \<Rightarrow> pod \<Rightarrow> time" where
  "older oldest p = (if time_after oldest (pod_CreationTimestamp p) then pod_CreationTimestamp p else oldest)"

definition getOldestCreateTime :: "time \<Rightarrow> pod list \<Rightarrow> time" where
  "getOldestCreateTime now pods = foldl older now pods"

definition getOldestCreateTimeWithGpu :: "time \<Rightarrow> pod list \<Rightarrow> bool \<times> time" where
  "getOldestCreateTimeWithGpu now pods =
     foldl (\<lambda>(gpuFound, oldest) p. if PodRequestsGpu p then (True, older oldest p) else (gpuFound, oldest))
       (False, now) pods"

end
