(* ===== verification/ScaleUpLimits.thy ===== *)
theory ScaleUpLimits
  imports CoreUtils "HOL-Library.Signed_Division"
begin

text \<open>
  The resource limits of a scale-up, from \<open>core/scale_up.go\<close>: what is left below the maximum of each
  resource, what one more node of a group takes, and the number of nodes the limits allow.
  \<open>int64\<close> sums and products wrap around (\<open>i64\<close>), a panic is \<open>None\<close>.
  The lemmas show that the capped number of nodes is the largest the limits allow, in whatever order
  Go visits the resources, and that a resource with a minimum but no maximum can block a scale-up.
\<close>

section \<open>What is left\<close>

definition scaleUpLimitUnknown :: int where
  "scaleUpLimitUnknown = maxInt64"

definition computeBelowMax :: "int \<Rightarrow> int \<Rightarrow> int" where
  "computeBelowMax tot mx = (if tot < mx then i64 (mx - tot) else 0)"

definition size_error :: "nodeGroup \<Rightarrow> string \<Rightarrow> autoscalerError" where
  "size_error ng err = AddPrefix (''Failed to get node group size of '' @ ng_Id ng @ '':'')
     (NewAutoscalerError CloudProviderError err)"

definition no_info_error :: "nodeGroup \<Rightarrow> autoscalerError" where
  "no_info_error ng = NewAutoscalerError CloudProviderError (''No node info for: '' @ ng_Id ng)"

definition getNodeInfoCoresAndMemory :: "nodeInfo \<Rightarrow> (int \<times> int) option" where
  "getNodeInfoCoresAndMemory info = map_option getNodeCoresAndMemory (ni_Node info)"

definition group_total_step :: "infos \<Rightarrow> int \<times> int \<Rightarrow> nodeGroup \<Rightarrow> (autoscalerError + int \<times> int) option" where
  "group_total_step infs st ng =
     (case st of (coresTotal, memoryTotal) \<Rightarrow>
        case ng_TargetSize ng of
          Inl err \<Rightarrow> Some (Inl (size_error ng err))
        | Inr currentSize \<Rightarrow>
            (case mget infs (ng_Id ng) of
               None \<Rightarrow> Some (Inl (no_info_error ng))
             | Some info \<Rightarrow>
                 if currentSize > 0 then
                   map_option (\<lambda>(nodeCPU, nodeMemory).
                       Inr (i64 (coresTotal + i64 (currentSize * nodeCPU)),
                            i64 (memoryTotal + i64 (currentSize * nodeMemory))))
                     (getNodeInfoCoresAndMemory info)
                 else Some (Inr st)))"

definition add_node_total :: "int \<times> int \<Rightarrow> node \<Rightarrow> int \<times> int" where
  "add_node_total st n =
     (i64 (fst st + fst (getNodeCoresAndMemory n)), i64 (snd st + snd (getNodeCoresAndMemory n)))"

definition calculateScaleUpCoresMemoryTotal ::
  "nodeGroup list \<Rightarrow> infos \<Rightarrow> node list \<Rightarrow> (autoscalerError + int \<times> int) option" where
  "calculateScaleUpCoresMemoryTotal nodeGroups infs nodes =
     map_option (map_sum id (\<lambda>st. foldl add_node_total st nodes)) (floop (group_total_step infs) (0, 0) nodeGroups)"

definition group_gpu_step ::
  "(nodeGroup \<Rightarrow> string + node) \<Rightarrow> infos \<Rightarrow> limits \<Rightarrow> nodeGroup \<Rightarrow> (autoscalerError + limits) option" where
  "group_gpu_step template infs result ng =
     (case ng_TargetSize ng of
        Inl err \<Rightarrow> Some (Inl (size_error ng err))
      | Inr currentSize \<Rightarrow>
          (case mget infs (ng_Id ng) of
             None \<Rightarrow> Some (Inl (no_info_error ng))
           | Some info \<Rightarrow>
               if currentSize > 0 then
                 (case ni_Node info of
                    None \<Rightarrow> None
                  | Some n \<Rightarrow>
                      (case GetNodeTargetGpus template n (Some ng) of
                         Inl err \<Rightarrow> Some (Inl (AddPrefix
                           (''Failed to get target gpu for node group '' @ ng_Id ng @ '':'') err))
                       | Inr (gpuType, gpuCount) \<Rightarrow>
                           Some (Inr (if gpuType = '''' then result
                             else mput gpuType (i64 (mget0 0 result gpuType + i64 (gpuCount * currentSize))) result))))
               else Some (Inr result)))"

definition node_gpu_step ::
  "(nodeGroup \<Rightarrow> string + node) \<Rightarrow> limits \<Rightarrow> node \<Rightarrow> (autoscalerError + limits) option" where
  "node_gpu_step template result n =
     (case GetNodeTargetGpus template n None of
        Inl err \<Rightarrow> Some (Inl (AddPrefix
          (''Failed to get target gpu for node gpus count for node '' @ n_Name n @ '':'') err))
      | Inr (gpuType, gpuCount) \<Rightarrow> Some (Inr (mput gpuType (i64 (mget0 0 result gpuType + gpuCount)) result)))"

definition calculateScaleUpGpusTotal ::
  "(nodeGroup \<Rightarrow> string + node) \<Rightarrow> nodeGroup list \<Rightarrow> infos \<Rightarrow> node list \<Rightarrow> (autoscalerError + limits) option" where
  "calculateScaleUpGpusTotal template nodeGroups infs nodes =
     (case floop (group_gpu_step template infs) [] nodeGroups of
        None \<Rightarrow> None
      | Some (Inl err) \<Rightarrow> Some (Inl err)
      | Some (Inr result) \<Rightarrow> floop (node_gpu_step template) result nodes)"

text \<open>Every name other than cpu and memory is a GPU, so the code's \<open>default\<close> case is never reached.\<close>

definition left_step ::
  "resourceLimiter \<Rightarrow> autoscalerError + int \<times> int \<Rightarrow> autoscalerError + limits \<Rightarrow> limits \<Rightarrow> string \<Rightarrow>
     (autoscalerError + limits) option" where
  "left_step limiter coresMem gpus result resource =
     (let mx = GetMax limiter resource
      in if \<not> mx > 0 then Some (Inr result)
         else if resource = ResourceNameCores then
           Some (map_sum id (\<lambda>t. mput resource (computeBelowMax (fst t) mx) result) coresMem)
         else if resource = ResourceNameMemory then
           Some (map_sum id (\<lambda>t. mput resource (computeBelowMax (snd t) mx) result) coresMem)
         else
           Some (Inr (mput resource
             (case gpus of
                Inl _ \<Rightarrow> scaleUpLimitUnknown
              | Inr totalGpus \<Rightarrow> computeBelowMax (mget0 0 totalGpus resource) mx) result)))"

definition computeScaleUpResourcesLeftLimits ::
  "(nodeGroup \<Rightarrow> string + node) \<Rightarrow> nodeGroup list \<Rightarrow> infos \<Rightarrow> node list \<Rightarrow> resourceLimiter \<Rightarrow>
     (autoscalerError + limits) option" where
  "computeScaleUpResourcesLeftLimits template nodeGroups infs nodes limiter =
     (case calculateScaleUpCoresMemoryTotal nodeGroups infs nodes of
        None \<Rightarrow> None
      | Some coresMem \<Rightarrow>
          (case (if ContainsGpuResources (GetResources limiter)
                 then calculateScaleUpGpusTotal template nodeGroups infs nodes else Some (Inr [])) of
             None \<Rightarrow> None
           | Some gpus \<Rightarrow> floop (left_step limiter coresMem gpus) [] (GetResources limiter)))"

section \<open>What a node takes\<close>

definition computeScaleUpResourcesDelta ::
  "(nodeGroup \<Rightarrow> string + node) \<Rightarrow> nodeInfo \<Rightarrow> nodeGroup \<Rightarrow> resourceLimiter \<Rightarrow> (autoscalerError + limits) option" where
  "computeScaleUpResourcesDelta template info ng limiter =
     (case ni_Node info of
        None \<Rightarrow> None
      | Some n \<Rightarrow>
          (let delta = mput ResourceNameMemory (snd (getNodeCoresAndMemory n))
                         (mput ResourceNameCores (fst (getNodeCoresAndMemory n)) [])
           in if ContainsGpuResources (GetResources limiter) then
                (case GetNodeTargetGpus template n (Some ng) of
                   Inl err \<Rightarrow> Some (Inl (AddPrefix
                     (''Failed to get target gpu for node group '' @ ng_Id ng @ '':'') err))
                 | Inr (gpuType, gpuCount) \<Rightarrow> Some (Inr (mput gpuType gpuCount delta)))
              else Some (Inr delta)))"

definition exceeds_up :: "limits \<Rightarrow> string \<times> int \<Rightarrow> bool" where
  "exceeds_up lims rd =
     (case mget lims (fst rd) of
        None \<Rightarrow> False
      | Some resourceLeft \<Rightarrow> snd rd > 0 \<and> (resourceLeft = scaleUpLimitUnknown \<or> snd rd > resourceLeft))"

text \<open>The exceeded resources, in the order of \<open>sets.String.List\<close>; none means within the limits.\<close>

definition checkScaleUpDeltaWithinLimits :: "limits \<Rightarrow> limits \<Rightarrow> string list" where
  "checkScaleUpDeltaWithinLimits lims delta = sort (remdups (map fst (filter (exceeds_up lims) delta)))"

text \<open>The division of \<open>int64\<close> truncates; a division by zero panics.\<close>

definition cap_step :: "limits \<Rightarrow> int \<Rightarrow> string \<times> int \<Rightarrow> (autoscalerError + int) option" where
  "cap_step left newNodes rd =
     (case rd of (resource, resourceDelta) \<Rightarrow>
        case mget left resource of
          None \<Rightarrow> Some (Inr newNodes)
        | Some limit \<Rightarrow>
            if limit = scaleUpLimitUnknown
            then Some (Inl (NewAutoscalerError InternalError (''limit unknown for resource '' @ resource)))
            else if i64 (newNodes * resourceDelta) \<le> limit then Some (Inr newNodes)
            else if resourceDelta = 0 then None
            else
              (let newNodes' = limit sdiv resourceDelta
               in if newNodes' < 1
                  then Some (Inl (NewAutoscalerError InternalError
                    (''cannot create any node; max limit for resource '' @ resource @ '' reached'')))
                  else Some (Inr newNodes')))"

text \<open>\<open>visit\<close> is the order in which Go visits the entries of the map of what a node takes.\<close>

definition applyScaleUpResourcesLimits ::
  "(limits \<Rightarrow> limits) \<Rightarrow> (nodeGroup \<Rightarrow> string + node) \<Rightarrow> int \<Rightarrow> limits \<Rightarrow> nodeInfo \<Rightarrow> nodeGroup \<Rightarrow> resourceLimiter \<Rightarrow>
     (autoscalerError + int) option" where
  "applyScaleUpResourcesLimits visit template newNodes left info ng limiter =
     (case computeScaleUpResourcesDelta template info ng limiter of
        None \<Rightarrow> None
      | Some (Inl err) \<Rightarrow> Some (Inl err)
      | Some (Inr delta) \<Rightarrow> floop (cap_step left) newNodes (visit delta))"

section \<open>The cap is the largest allowed number\<close>

definition delta_ok :: "int \<Rightarrow> limits \<Rightarrow> bool" where
  "delta_ok newNodes delta \<longleftrightarrow> (\<forall>(resource, d)\<in>set delta. 0 \<le> d \<and> newNodes * d \<le> maxInt64)"

definition fits_limits :: "limits \<Rightarrow> limits \<Rightarrow> int \<Rightarrow> bool" where
  "fits_limits left delta k \<longleftrightarrow>
     (\<forall>(resource, d)\<in>set delta. (case mget left resource of None \<Rightarrow> True | Some limit \<Rightarrow> k * d \<le> limit))"

lemma fits_limits_Cons:
  "fits_limits left ((r, d) # delta) k \<longleftrightarrow>
     (case mget left r of None \<Rightarrow> True | Some limit \<Rightarrow> k * d \<le> limit) \<and> fits_limits left delta k"
  by (simp add: fits_limits_def)

lemma le_div_iff:
  assumes "0 < (d :: int)"
  shows "k \<le> limit div d \<longleftrightarrow> k * d \<le> limit"
proof
  assume "k \<le> limit div d"
  then have "k * d \<le> limit div d * d" using assms by (simp add: mult_right_mono)
  also have "\<dots> \<le> limit" using div_mult_mod_eq [of limit d] pos_mod_sign [OF assms, of limit] by linarith
  finally show "k * d \<le> limit" .
next
  assume "k * d \<le> limit"
  then have "k * d div d \<le> limit div d" by (rule zdiv_mono1) (rule assms)
  then show "k \<le> limit div d" using assms by simp
qed

lemma cap_step_max:
  assumes "cap_step left newNodes (r, d) = Some (Inr k)" "1 \<le> newNodes" "0 \<le> d" "newNodes * d \<le> maxInt64"
  shows "1 \<le> k \<and> k \<le> newNodes \<and>
     (\<forall>j. 1 \<le> j \<longrightarrow> (j \<le> k \<longleftrightarrow> j \<le> newNodes \<and> (case mget left r of None \<Rightarrow> True | Some limit \<Rightarrow> j * d \<le> limit)))"
proof (cases "mget left r")
  case None
  with assms show ?thesis by (simp add: cap_step_def)
next
  case (Some limit)
  have "in_i64 (newNodes * d)"
    using assms(2-4) by (simp add: in_i64_def minInt64_def order_trans [OF _ mult_nonneg_nonneg])
  then have id: "i64 (newNodes * d) = newNodes * d" by (rule i64_id)
  show ?thesis
  proof (cases "newNodes * d \<le> limit")
    case True
    then have "k = newNodes" using assms(1) Some id by (simp add: cap_step_def split: if_splits)
    moreover have "j * d \<le> limit" if "j \<le> newNodes" for j
      using mult_right_mono [OF that assms(3)] True by simp
    ultimately show ?thesis using assms(2) Some by auto
  next
    case False
    have k: "d \<noteq> 0" "k = limit sdiv d" "1 \<le> k"
      using assms(1) Some id False by (auto simp: cap_step_def Let_def split: if_splits)
    then have "0 < d" using assms(3) by simp
    have "0 \<le> limit"
    proof (rule ccontr)
      assume "\<not> 0 \<le> limit"
      then have "k \<le> 0" using \<open>0 < d\<close> by (simp add: k(2) signed_divide_int_def sgn_if pos_imp_zdiv_nonneg_iff)
      with k(3) show False by simp
    qed
    then have "k = limit div d" using \<open>0 < d\<close> by (cases "limit = 0") (simp_all add: k(2) signed_divide_int_def sgn_if)
    then have le: "j \<le> k \<longleftrightarrow> j * d \<le> limit" for j using le_div_iff [OF \<open>0 < d\<close>] by simp
    have "k * d \<le> limit" using le [of k] by simp
    then have "k * d < newNodes * d" using False by simp
    then have less: "k < newNodes" using \<open>0 < d\<close> by (simp add: mult_less_cancel_right)
    have "j \<le> k \<longleftrightarrow> j \<le> newNodes \<and> j * d \<le> limit" for j using le [of j] less by auto
    with less show ?thesis using k(3) Some by simp
  qed
qed

lemma cap_loop_max:
  assumes "floop (cap_step left) newNodes delta = Some (Inr k)" "1 \<le> newNodes" "delta_ok newNodes delta"
  shows "1 \<le> k \<and> k \<le> newNodes \<and> (\<forall>j. 1 \<le> j \<longrightarrow> (j \<le> k \<longleftrightarrow> j \<le> newNodes \<and> fits_limits left delta j))"
  using assms
proof (induction delta arbitrary: newNodes)
  case (Cons rd delta)
  obtain r d where rd: "rd = (r, d)" by fastforce
  obtain m where m: "cap_step left newNodes (r, d) = Some (Inr m)" "floop (cap_step left) m delta = Some (Inr k)"
    using Cons.prems(1) rd by (auto split: option.splits sum.splits)
  have "0 \<le> d" "newNodes * d \<le> maxInt64" using Cons.prems(3) rd by (auto simp: delta_ok_def)
  from cap_step_max [OF m(1) Cons.prems(2) this]
  have one: "1 \<le> m" "m \<le> newNodes"
    "\<And>j. 1 \<le> j \<Longrightarrow> j \<le> m \<longleftrightarrow> j \<le> newNodes \<and> (case mget left r of None \<Rightarrow> True | Some limit \<Rightarrow> j * d \<le> limit)"
    by auto
  have "delta_ok m delta"
    unfolding delta_ok_def
  proof clarify
    fix r' d'
    assume "(r', d') \<in> set delta"
    then have d': "0 \<le> d'" "newNodes * d' \<le> maxInt64" using Cons.prems(3) by (auto simp: delta_ok_def)
    with mult_right_mono [OF one(2) d'(1)] show "0 \<le> d' \<and> m * d' \<le> maxInt64" by simp
  qed
  with Cons.IH [OF m(2) one(1)] one rd show ?case by (auto simp: fits_limits_Cons)
qed (simp add: fits_limits_def)

text \<open>The order of the entries does not matter for what they ask.\<close>

lemma visited_delta:
  assumes "mset (visit delta) = mset (delta :: limits)"
  shows "delta_ok k (visit delta) \<longleftrightarrow> delta_ok k delta" "fits_limits left (visit delta) j \<longleftrightarrow> fits_limits left delta j"
  using mset_eq_setD [OF assms] by (simp_all add: delta_ok_def fits_limits_def)

lemma capped_nodes_largest:
  assumes "applyScaleUpResourcesLimits visit template newNodes left info ng limiter = Some (Inr k)"
    and "computeScaleUpResourcesDelta template info ng limiter = Some (Inr delta)" "mset (visit delta) = mset delta"
    and "1 \<le> newNodes" "delta_ok newNodes delta"
  shows "1 \<le> k \<and> k \<le> newNodes \<and> (\<forall>j. 1 \<le> j \<longrightarrow> (j \<le> k \<longleftrightarrow> j \<le> newNodes \<and> fits_limits left delta j))"
  using cap_loop_max [of left newNodes "visit delta" k] assms
  by (simp add: applyScaleUpResourcesLimits_def visited_delta [of visit delta, OF assms(3)])

text \<open>
  C35: In whatever order Go visits the resources, the number of nodes a scale-up is capped to, when it is not refused,
  is the largest one the limits allow: at least one, at most the number asked for, and a number up to the latter is
  allowed by the limits on every resource exactly when it is not above the result.  A node takes no negative amount of
  a resource, and the amounts for all the nodes asked for fit into an \<open>int64\<close>.
\<close>

theorem applyScaleUpResourcesLimits_is_largest:
  assumes "applyScaleUpResourcesLimits visit template newNodes left info ng limiter = Some (Inr k)"
    and "computeScaleUpResourcesDelta template info ng limiter = Some (Inr delta)" "mset (visit delta) = mset delta"
    and "1 \<le> newNodes" "delta_ok newNodes delta"
  shows "1 \<le> k \<and> k \<le> newNodes \<and> (\<forall>j. 1 \<le> j \<longrightarrow> (j \<le> k \<longleftrightarrow> j \<le> newNodes \<and> fits_limits left delta j))"
  by (rule capped_nodes_largest [OF assms])

section \<open>The limits left\<close>

definition left_value :: "resourceLimiter \<Rightarrow> int \<times> int \<Rightarrow> autoscalerError + limits \<Rightarrow> string \<Rightarrow> int" where
  "left_value limiter totals gpus resource =
     (if resource = ResourceNameCores then computeBelowMax (fst totals) (GetMax limiter resource)
      else if resource = ResourceNameMemory then computeBelowMax (snd totals) (GetMax limiter resource)
      else (case gpus of
              Inl _ \<Rightarrow> scaleUpLimitUnknown
            | Inr totalGpus \<Rightarrow> computeBelowMax (mget0 0 totalGpus resource) (GetMax limiter resource)))"

lemma left_step_value:
  "left_step limiter (Inr totals) gpus result resource =
     Some (Inr (if GetMax limiter resource > 0 then mput resource (left_value limiter totals gpus resource) result
       else result))"
  by (auto simp: left_step_def left_value_def Let_def)

lemma left_loop:
  assumes "floop (left_step limiter (Inr totals) gpus) acc rs = Some (Inr left)"
  shows "mget left r = (if r \<in> set rs \<and> GetMax limiter r > 0 then Some (left_value limiter totals gpus r) else mget acc r)"
  using assms by (induction rs arbitrary: acc) (auto simp: left_step_value split: if_splits)

text \<open>
  The limits a scale-up works with: a resource with a positive maximum has the difference between its
  maximum and what the cluster has in total, zero if that is negative; for a GPU whose total cannot be
  computed it is the unknown limit, and a resource without a positive maximum has none.
\<close>

theorem computeScaleUpResourcesLeftLimits_spec:
  assumes "computeScaleUpResourcesLeftLimits template groups infs nodes limiter = Some (Inr left)"
    and "calculateScaleUpCoresMemoryTotal groups infs nodes = Some (Inr totals)"
    and "(if ContainsGpuResources (GetResources limiter) then calculateScaleUpGpusTotal template groups infs nodes
          else Some (Inr [])) = Some gpus"
  shows "mget left r =
     (if r \<in> set (GetResources limiter) \<and> GetMax limiter r > 0 then Some (left_value limiter totals gpus r) else None)"
  using left_loop [of limiter totals gpus "[]" "GetResources limiter" left r] assms
  by (simp add: computeScaleUpResourcesLeftLimits_def)

text \<open>
  A GPU type with a minimum but no maximum, of which the cluster has none yet, gets the value that
  stands for an unknown limit, so that no node group with that GPU can be scaled up: the default
  maximum minus zero is the same number as the marker.
\<close>

theorem minimum_without_maximum_blocks_scale_up:
  assumes "computeScaleUpResourcesLeftLimits template groups infs nodes limiter = Some (Inr left)"
    and "calculateScaleUpCoresMemoryTotal groups infs nodes = Some (Inr totals)"
    and "calculateScaleUpGpusTotal template groups infs nodes = Some (Inr gpus)" "mget0 0 gpus gpuType = 0"
    and "gpuType \<in> set (GetResources limiter)" "IsGpuResource gpuType" "\<not> HasMaxLimitSet limiter gpuType"
    and "mget delta gpuType = Some d" "0 < d"
  shows "gpuType \<in> set (checkScaleUpDeltaWithinLimits left delta)"
proof -
  have gpu: "gpuType \<noteq> ResourceNameCores" "gpuType \<noteq> ResourceNameMemory" using assms(6) by (auto simp: IsGpuResource_def)
  have "ContainsGpuResources (GetResources limiter)"
    using assms(5,6) by (auto simp: ContainsGpuResources_def list_ex_iff)
  then have loop: "floop (left_step limiter (Inr totals) (Inr gpus)) [] (GetResources limiter) = Some (Inr left)"
    using assms(1-3) by (simp add: computeScaleUpResourcesLeftLimits_def)
  have mx: "GetMax limiter gpuType = maxInt64"
    using assms(7) by (auto simp: GetMax_def HasMaxLimitSet_def mhas_def split: option.splits)
  have "0 < maxInt64" "i64 maxInt64 = maxInt64"
    using i64_id [of maxInt64] by (simp_all add: maxInt64_def in_i64_def minInt64_def)
  then have "mget left gpuType = Some scaleUpLimitUnknown"
    using left_loop [OF loop, of gpuType] assms(4,5) gpu mx
    by (simp add: left_value_def computeBelowMax_def scaleUpLimitUnknown_def)
  moreover have "(gpuType, d) \<in> set delta" using assms(8) by (rule mget_SomeD)
  ultimately have "gpuType \<in> fst ` set (filter (exceeds_up left) delta)"
    using assms(9) by (force simp: exceeds_up_def)
  then show ?thesis by (simp add: checkScaleUpDeltaWithinLimits_def)
qed

section \<open>Concrete limits\<close>

definition cores_limiter :: resourceLimiter where
  "cores_limiter = NewResourceLimiter [] [(''cpu'', 10)]"

definition gpu_limiter :: resourceLimiter where
  "gpu_limiter = NewResourceLimiter [(''nvidia-tesla-k80'', 1)] [(''cpu'', 10)]"

definition cores_info :: "int \<Rightarrow> nodeInfo" where
  "cores_info cores = \<lparr>ni_Node = Some (empty_node\<lparr>n_Capacity := [(''cpu'', NewQuantity cores)]\<rparr>), ni_Pods = []\<rparr>"

definition pair_group :: nodeGroup where
  "pair_group = \<lparr>ng_Id = ''pair'', ng_MinSize = 0, ng_MaxSize = 9, ng_TargetSize = Inr 2, ng_Exist = True,
     ng_Autoprovisioned = False, ng_Nodes = Inr []\<rparr>"

definition node_template :: "nodeGroup \<Rightarrow> string + node" where
  "node_template ng = Inl ''Not implemented''"

lemma cores_info_cores: "getNodeInfoCoresAndMemory (cores_info 4) = Some (4, 0)"
  by (simp add: getNodeInfoCoresAndMemory_def cores_info_def getNodeCoresAndMemory_def getNodeResource_def Let_def
      ResourceNameCores_def ResourceNameMemory_def)

lemma cores_delta:
  "computeScaleUpResourcesDelta node_template (cores_info 4) pair_group cores_limiter =
     Some (Inr [(''cpu'', 4), (''memory'', 0)])"
  by (simp add: computeScaleUpResourcesDelta_def cores_info_def getNodeCoresAndMemory_def getNodeResource_def Let_def
      ResourceNameCores_def ResourceNameMemory_def mput_def cores_limiter_def NewResourceLimiter_def GetResources_def
      mkeys_def ContainsGpuResources_def IsGpuResource_def)

theorem applyScaleUpResourcesLimits_is_largest_witness:
  "applyScaleUpResourcesLimits rev node_template 5 [(''cpu'', 10)] (cores_info 4) pair_group cores_limiter = Some (Inr 2) \<and>
     fits_limits [(''cpu'', 10)] [(''cpu'', 4), (''memory'', 0)] 2 \<and>
     \<not> fits_limits [(''cpu'', 10)] [(''cpu'', 4), (''memory'', 0)] 3"
proof -
  have wrap: "i64 20 = 20" by (rule i64_id) (simp add: in_i64_def minInt64_def maxInt64_def)
  have run: "applyScaleUpResourcesLimits rev node_template 5 [(''cpu'', 10)] (cores_info 4) pair_group cores_limiter = Some (Inr 2)"
    by (simp add: applyScaleUpResourcesLimits_def cores_delta cap_step_def wrap scaleUpLimitUnknown_def maxInt64_def
        signed_divide_int_def Let_def)
  have ok: "delta_ok 5 [(''cpu'', 4), (''memory'', 0)]" by (simp add: delta_ok_def maxInt64_def)
  have "\<forall>j. 1 \<le> j \<longrightarrow> (j \<le> 2 \<longleftrightarrow> j \<le> 5 \<and> fits_limits [(''cpu'', 10)] [(''cpu'', 4), (''memory'', 0)] j)"
    using applyScaleUpResourcesLimits_is_largest [OF run cores_delta _ _ ok] by simp
  from spec [OF this, of 2] spec [OF this, of 3] run show ?thesis by simp
qed

lemma pair_totals:
  "calculateScaleUpCoresMemoryTotal [pair_group] [(''pair'', cores_info 4)] [] = Some (Inr (8, 0))"
proof -
  have "i64 8 = 8" by (rule i64_id) (simp add: in_i64_def minInt64_def maxInt64_def)
  moreover have "i64 0 = 0" by (rule i64_id) simp
  ultimately show ?thesis
    by (simp add: calculateScaleUpCoresMemoryTotal_def group_total_step_def pair_group_def cores_info_cores)
qed

lemma pair_gpus: "calculateScaleUpGpusTotal node_template [pair_group] [(''pair'', cores_info 4)] [] = Some (Inr [])"
  by (simp add: calculateScaleUpGpusTotal_def group_gpu_step_def pair_group_def cores_info_def GetNodeTargetGpus_def
      empty_node_def)

lemma cores_limiter_resources: "GetResources cores_limiter = [''cpu'']" "GetMax cores_limiter ''cpu'' = 10"
  by (simp_all add: cores_limiter_def NewResourceLimiter_def GetResources_def mkeys_def GetMax_def mput_def)

theorem computeScaleUpResourcesLeftLimits_spec_witness:
  "\<exists>left. computeScaleUpResourcesLeftLimits node_template [pair_group] [(''pair'', cores_info 4)] [] cores_limiter =
       Some (Inr left) \<and> mget left ''cpu'' = Some 2 \<and> mget left ''memory'' = None"
proof -
  have none: "\<not> ContainsGpuResources [''cpu'']"
    by (simp add: ContainsGpuResources_def IsGpuResource_def ResourceNameCores_def)
  have run: "computeScaleUpResourcesLeftLimits node_template [pair_group] [(''pair'', cores_info 4)] [] cores_limiter =
      Some (Inr (mput ''cpu'' (left_value cores_limiter (8, 0) (Inr []) ''cpu'') []))"
    by (simp add: computeScaleUpResourcesLeftLimits_def pair_totals cores_limiter_resources none left_step_value)
  have "i64 2 = 2" by (rule i64_id) (simp add: in_i64_def minInt64_def maxInt64_def)
  then have "left_value cores_limiter (8, 0) (Inr []) ''cpu'' = 2"
    by (simp add: left_value_def ResourceNameCores_def computeBelowMax_def cores_limiter_resources)
  with computeScaleUpResourcesLeftLimits_spec [OF run pair_totals, of "Inr []"] run show ?thesis
    by (simp add: none cores_limiter_resources)
qed

theorem minimum_without_maximum_blocks_scale_up_witness:
  "\<exists>left. computeScaleUpResourcesLeftLimits node_template [pair_group] [(''pair'', cores_info 4)] [] gpu_limiter =
       Some (Inr left) \<and> ''nvidia-tesla-k80'' \<in> set (checkScaleUpDeltaWithinLimits left [(''nvidia-tesla-k80'', 1)])"
proof -
  have res: "GetResources gpu_limiter = [''cpu'', ''nvidia-tesla-k80'']"
    by (simp add: gpu_limiter_def NewResourceLimiter_def GetResources_def mkeys_def mput_def)
  have gpu: "IsGpuResource ''nvidia-tesla-k80''"
    by (simp add: IsGpuResource_def ResourceNameCores_def ResourceNameMemory_def)
  have nomax: "\<not> HasMaxLimitSet gpu_limiter ''nvidia-tesla-k80''"
    by (simp add: HasMaxLimitSet_def gpu_limiter_def NewResourceLimiter_def mhas_def)
  have "ContainsGpuResources (GetResources gpu_limiter)" using gpu by (simp add: res ContainsGpuResources_def)
  then obtain left where run: "computeScaleUpResourcesLeftLimits node_template [pair_group] [(''pair'', cores_info 4)] []
      gpu_limiter = Some (Inr left)"
    by (simp add: computeScaleUpResourcesLeftLimits_def pair_totals pair_gpus res left_step_value)
  have "''nvidia-tesla-k80'' \<in> set (checkScaleUpDeltaWithinLimits left [(''nvidia-tesla-k80'', 1)])"
    by (rule minimum_without_maximum_blocks_scale_up [OF run pair_totals pair_gpus _ _ gpu nomax, where d = 1]) (simp_all add: mget0_def res)
  with run show ?thesis by blast
qed

end
