(* ===== verification/ScaleUp.thy ===== *)
theory ScaleUp
  imports ScaleUpLimits Expander NodeGroupSet
begin

text \<open>
  \<open>ScaleUp\<close> of \<open>core/scale_up.go\<close>: the node groups that could take the unschedulable pods, the choice of
  one, the number of new nodes within all limits, and the increase of the chosen group and of the
  groups similar to it.  The context, the processors and everything outside the autoscaler are the
  record \<open>scaleUpEnv\<close>; the state is the cluster state registry and the state of the cloud.

  Pods are different objects, so a pod is the key of the maps keyed by pod pointers.  Go visits those
  maps in any order; \<open>su_visit\<close> is the order in which the passing pods are collected.
\<close>

section \<open>Status\<close>

datatype scaleUpResult =
  ScaleUpSuccessful | ScaleUpError | ScaleUpNoOptionsAvailable | ScaleUpNotNeeded | ScaleUpNotTried | ScaleUpInCooldown

type_synonym reasons = "string list"

record noScaleUpInfo =
  nsu_Pod :: pod
  nsu_RejectedNodeGroups :: "(string, reasons) gomap"
  nsu_SkippedNodeGroups :: "(string, reasons) gomap"

record scaleUpStatus =
  sus_Result :: scaleUpResult
  sus_ScaleUpInfos :: "scaleUpInfo list"
  sus_PodsTriggeredScaleUp :: "pod list"
  sus_PodsRemainUnschedulable :: "noScaleUpInfo list"
  sus_PodsAwaitEvaluation :: "pod list"

definition plain_status :: "scaleUpResult \<Rightarrow> scaleUpStatus" where
  "plain_status r = \<lparr>sus_Result = r, sus_ScaleUpInfos = [], sus_PodsTriggeredScaleUp = [],
     sus_PodsRemainUnschedulable = [], sus_PodsAwaitEvaluation = []\<rparr>"

definition WasSuccessful :: "scaleUpStatus \<Rightarrow> bool" where
  "WasSuccessful st \<longleftrightarrow> sus_Result st = ScaleUpSuccessful"

definition backoffReason :: reasons where "backoffReason = [''in backoff after failed scale-up'']"
definition maxLimitReachedReason :: reasons where "maxLimitReachedReason = [''max limit reached'']"
definition notReadyReason :: reasons where "notReadyReason = [''not ready for scale-up'']"

type_synonym remaining = "(pod, (string, reasons) gomap) gomap"

definition getRemainingPods :: "remaining \<Rightarrow> (string, reasons) gomap \<Rightarrow> noScaleUpInfo list" where
  "getRemainingPods schedulingErrors skipped =
     map (\<lambda>(p, errs). \<lparr>nsu_Pod = p, nsu_RejectedNodeGroups = errs, nsu_SkippedNodeGroups = skipped\<rparr>) schedulingErrors"

definition getPodsAwaitingEvaluation :: "pod list \<Rightarrow> remaining \<Rightarrow> pod list \<Rightarrow> pod list" where
  "getPodsAwaitingEvaluation allPods unschedulable bestOption =
     (let awaits = foldl (\<lambda>m p. if mhas unschedulable p then m else mput p True m) [] allPods
      in mkeys (foldl (\<lambda>m p. mdel p m) awaits bestOption))"

section \<open>The environment\<close>

text \<open>
  \<open>su_view\<close> is what the provider answers in a state of the cloud, \<open>su_CreateNodeGroup\<close> the node group
  manager, \<open>su_ProcessGroups\<close> the node group list processor, \<open>su_Estimate\<close> the estimator, \<open>su_BestOption\<close>
  the expander, \<open>su_FindSimilar\<close> and \<open>su_Balance\<close> the node group set processor.
\<close>

record ('m, 's) scaleUpEnv =
  su_view :: "'s \<Rightarrow> cloudProvider"
  su_ops :: "'s groupOps"
  su_ResourceLimiter :: "goError + resourceLimiter"
  su_build :: "node \<Rightarrow> autoscalerError + nodeInfo"
  su_TemplateNodeInfo :: "nodeGroup \<Rightarrow> goError + nodeInfo"
  su_template_node :: "nodeGroup \<Rightarrow> string + node"
  su_daemonSets :: "daemonSet list"
  su_rands :: "string \<Rightarrow> int \<times> (nat \<Rightarrow> int)"
  su_visit_delta :: "limits \<Rightarrow> limits"
  su_PredicateChecker :: "'m predicateChecker"
  su_visit :: "(pod \<times> predicateError option) list \<Rightarrow> (pod \<times> predicateError option) list"
  su_ProcessGroups :: "nodeGroup list \<Rightarrow> infos \<Rightarrow> pod list \<Rightarrow> goError + nodeGroup list \<times> infos"
  su_Estimate :: "pod list \<Rightarrow> nodeInfo \<Rightarrow> nodeInfo list \<Rightarrow> int option"
  su_BestOption :: "expOption list \<Rightarrow> infos \<Rightarrow> expOption option option"
  su_CreateNodeGroup :: "nodeGroup \<Rightarrow> 's \<Rightarrow> (autoscalerError + nodeGroup \<times> nodeGroup list) \<times> 's"
  su_FindSimilar :: "nodeGroup \<Rightarrow> infos \<Rightarrow> (autoscalerError + nodeGroup list) option"
  su_Balance :: "nodeGroup list \<Rightarrow> int \<Rightarrow> (autoscalerError + scaleUpInfo list) option"
  su_MaxNodesTotal :: int
  su_BalanceSimilarNodeGroups :: bool
  su_MaxNodeProvisionTime :: duration
  su_now :: time

abbreviation su_from_template where
  "su_from_template env \<equiv>
     GetNodeInfoFromTemplate (su_PredicateChecker env) (su_TemplateNodeInfo env) (su_daemonSets env) (su_rands env)"

section \<open>Pods that pass the predicates of a node group\<close>

record passingCache =
  pa_passing :: "(string, pod list) gomap"
  pa_notPassing :: "(string, (pod, predicateError) gomap) gomap"
  pa_errors :: "(string, autoscalerError) gomap"

definition empty_cache :: passingCache where
  "empty_cache = \<lparr>pa_passing = [], pa_notPassing = [], pa_errors = []\<rparr>"

definition passing_of :: "(pod \<times> predicateError option) list \<Rightarrow> pod list" where
  "passing_of res = map fst (filter (\<lambda>(p, err). err = None) res)"

fun not_passing_of :: "(pod \<times> predicateError option) list \<Rightarrow> (pod, predicateError) gomap" where
  "not_passing_of [] = []"
| "not_passing_of ((p, err) # res) =
     (case err of None \<Rightarrow> not_passing_of res | Some e \<Rightarrow> (p, e) # not_passing_of res)"

definition computeCaches ::
  "('m, 's) scaleUpEnv \<Rightarrow> pod list \<Rightarrow> infos \<Rightarrow> string \<Rightarrow> passingCache \<Rightarrow> passingCache option" where
  "computeCaches env pods infs gid cache =
     (case mget infs gid of
        None \<Rightarrow> Some (cache\<lparr>pa_errors := mput gid
          (NewAutoscalerError InternalError (''NodeInfo not found for node group '' @ gid)) (pa_errors cache)\<rparr>)
      | Some info \<Rightarrow>
          map_option (\<lambda>schedulable.
              cache\<lparr>pa_passing := mput gid (passing_of (su_visit env schedulable)) (pa_passing cache),
                    pa_notPassing := mput gid (not_passing_of (su_visit env schedulable)) (pa_notPassing cache)\<rparr>)
            (CheckPodsSchedulableOnNode (su_PredicateChecker env) pods info))"

definition ensure_cached ::
  "('m, 's) scaleUpEnv \<Rightarrow> pod list \<Rightarrow> infos \<Rightarrow> string \<Rightarrow> bool \<Rightarrow> passingCache \<Rightarrow> passingCache option" where
  "ensure_cached env pods infs gid cached cache =
     (if \<not> cached \<and> \<not> mhas (pa_errors cache) gid then computeCaches env pods infs gid cache else Some cache)"

definition getPodsPassingPredicates ::
  "('m, 's) scaleUpEnv \<Rightarrow> pod list \<Rightarrow> infos \<Rightarrow> string \<Rightarrow> passingCache \<Rightarrow>
     ((autoscalerError + pod list) \<times> passingCache) option" where
  "getPodsPassingPredicates env pods infs gid cache =
     map_option (\<lambda>cache'.
         (case mget (pa_errors cache') gid of
            Some err \<Rightarrow> Inl err
          | None \<Rightarrow>
              (case mget (pa_passing cache') gid of
                 Some passing \<Rightarrow> Inr passing
               | None \<Rightarrow> Inl (NewAutoscalerError InternalError
                   (''Pods passing predicate entry not found in cache for node group '' @ gid))), cache'))
       (ensure_cached env pods infs gid (mhas (pa_passing cache) gid) cache)"

definition getPodsNotPassingPredicates ::
  "('m, 's) scaleUpEnv \<Rightarrow> pod list \<Rightarrow> infos \<Rightarrow> string \<Rightarrow> passingCache \<Rightarrow>
     ((autoscalerError + (pod, predicateError) gomap) \<times> passingCache) option" where
  "getPodsNotPassingPredicates env pods infs gid cache =
     map_option (\<lambda>cache'.
         (case mget (pa_errors cache') gid of
            Some err \<Rightarrow> Inl err
          | None \<Rightarrow>
              (case mget (pa_notPassing cache') gid of
                 Some notPassing \<Rightarrow> Inr notPassing
               | None \<Rightarrow> Inl (NewAutoscalerError InternalError
                   (''Pods not passing predicate entry not found in cache for node group '' @ gid))), cache'))
       (ensure_cached env pods infs gid (mhas (pa_notPassing cache) gid) cache)"

fun filterNodeGroupsByPods ::
  "('m, 's) scaleUpEnv \<Rightarrow> pod list \<Rightarrow> infos \<Rightarrow> pod list \<Rightarrow> passingCache \<Rightarrow> nodeGroup list \<Rightarrow> nodeGroup list option" where
  "filterNodeGroupsByPods env pods infs podsRequiredToFit cache [] = Some []"
| "filterNodeGroupsByPods env pods infs podsRequiredToFit cache (ng # ngs) =
     (case getPodsPassingPredicates env pods infs (ng_Id ng) cache of
        None \<Rightarrow> None
      | Some (res, cache') \<Rightarrow>
          map_option (\<lambda>rest.
              case res of
                Inl _ \<Rightarrow> rest
              | Inr fittingPods \<Rightarrow> if list_all (\<lambda>p. p \<in> set fittingPods) podsRequiredToFit then ng # rest else rest)
            (filterNodeGroupsByPods env pods infs podsRequiredToFit cache' ngs))"

section \<open>Expansion options\<close>

record optionsState =
  os_skipped :: "(string, reasons) gomap"
  os_remain :: remaining
  os_options :: "expOption list"
  os_cache :: passingCache

definition skip :: "nodeGroup \<Rightarrow> reasons \<Rightarrow> optionsState \<Rightarrow> optionsState" where
  "skip ng r st = st\<lparr>os_skipped := mput (ng_Id ng) r (os_skipped st)\<rparr>"

text \<open>The pods of \<open>podsNotPassing\<close> that still remain get the reasons of this group.\<close>

definition add_rejections :: "nodeGroup \<Rightarrow> (pod, predicateError) gomap \<Rightarrow> remaining \<Rightarrow> remaining" where
  "add_rejections ng notPassing remain =
     foldl (\<lambda>m (p, err).
       case mget m p of
         None \<Rightarrow> m
       | Some errs \<Rightarrow> if ng_Exist ng then mput p (mput (ng_Id ng) (fst (Reasons err)) errs) m else m) remain notPassing"

text \<open>Why a node group is not considered: \<open>Some (Some r)\<close> a reason, \<open>Some None\<close> it is, \<open>None\<close> a panic.\<close>

definition skip_reason ::
  "('m, 's) scaleUpEnv \<Rightarrow> clusterStateRegistry \<Rightarrow> infos \<Rightarrow> limits \<Rightarrow> resourceLimiter \<Rightarrow> nodeGroup \<Rightarrow>
     reasons option option" where
  "skip_reason env csr infs left limiter ng =
     (if ng_Exist ng \<and> \<not> IsNodeGroupSafeToScaleUp csr ng (su_now env)
      then Some (Some (if \<not> IsNodeGroupHealthy csr (ng_Id ng) then notReadyReason else backoffReason))
      else
        (case ng_TargetSize ng of
           Inl _ \<Rightarrow> Some (Some notReadyReason)
         | Inr currentTargetSize \<Rightarrow>
             if currentTargetSize \<ge> ng_MaxSize ng then Some (Some maxLimitReachedReason)
             else
               (case mget infs (ng_Id ng) of
                  None \<Rightarrow> Some (Some notReadyReason)
                | Some info \<Rightarrow>
                    (case computeScaleUpResourcesDelta (su_template_node env) info ng limiter of
                       None \<Rightarrow> None
                     | Some (Inl _) \<Rightarrow> Some (Some notReadyReason)
                     | Some (Inr delta) \<Rightarrow>
                         if checkScaleUpDeltaWithinLimits left delta \<noteq> [] then Some (Some maxLimitReachedReason)
                         else Some None))))"

text \<open>The option of a group, once it is considered and its passing pods are known.\<close>

definition add_option ::
  "('m, 's) scaleUpEnv \<Rightarrow> infos \<Rightarrow> nodeInfo list \<Rightarrow> nodeGroup \<Rightarrow> pod list \<Rightarrow> (pod, predicateError) gomap \<Rightarrow>
     optionsState \<Rightarrow> optionsState option" where
  "add_option env infs upcoming ng passing notPassing st =
     (let st1 = st\<lparr>os_remain := add_rejections ng notPassing (foldl (\<lambda>m p. mdel p m) (os_remain st) passing)\<rparr>
      in if passing = [] then Some st1
         else
           map_option (\<lambda>nodeCount.
               if nodeCount > 0
               then st1\<lparr>os_options := os_options st1 @ [\<lparr>eo_NodeGroup = ng, eo_NodeCount = nodeCount, eo_Pods = passing\<rparr>]\<rparr>
               else st1)
             (su_Estimate env passing (mget0 (NewNodeInfo []) infs (ng_Id ng)) upcoming))"

definition option_step ::
  "('m, 's) scaleUpEnv \<Rightarrow> clusterStateRegistry \<Rightarrow> infos \<Rightarrow> limits \<Rightarrow> resourceLimiter \<Rightarrow> nodeInfo list \<Rightarrow> pod list \<Rightarrow>
     optionsState \<Rightarrow> nodeGroup \<Rightarrow> (autoscalerError + optionsState) option" where
  "option_step env csr infs left limiter upcoming pods st ng =
     (case skip_reason env csr infs left limiter ng of
        None \<Rightarrow> None
      | Some (Some r) \<Rightarrow> Some (Inr (skip ng r st))
      | Some None \<Rightarrow>
          (case getPodsPassingPredicates env pods infs (ng_Id ng) (os_cache st) of
             None \<Rightarrow> None
           | Some (Inl _, cache) \<Rightarrow> Some (Inr (skip ng notReadyReason (st\<lparr>os_cache := cache\<rparr>)))
           | Some (Inr passing, cache) \<Rightarrow>
               (case getPodsNotPassingPredicates env pods infs (ng_Id ng) cache of
                  None \<Rightarrow> None
                | Some (Inl _, cache') \<Rightarrow> Some (Inr (skip ng notReadyReason (st\<lparr>os_cache := cache'\<rparr>)))
                | Some (Inr notPassing, cache') \<Rightarrow>
                    map_option Inr (add_option env infs upcoming ng passing notPassing (st\<lparr>os_cache := cache'\<rparr>)))))"

definition upcoming_step :: "infos \<Rightarrow> nodeInfo list \<Rightarrow> string \<times> int \<Rightarrow> (autoscalerError + nodeInfo list) option" where
  "upcoming_step infs upcoming item =
     (case mget infs (fst item) of
        None \<Rightarrow> Some (Inl (NewAutoscalerError InternalError
                  (''failed to find template node for node group '' @ fst item)))
      | Some nodeTemplate \<Rightarrow> Some (Inr (upcoming @ replicate (nat (snd item)) nodeTemplate)))"

section \<open>Before the choice\<close>

record scaleUpInput =
  in_groups :: "nodeGroup list"
  in_infos :: infos
  in_limiter :: resourceLimiter
  in_left :: limits
  in_upcoming :: "nodeInfo list"

definition prefixed :: "string \<Rightarrow> (autoscalerError + 'a) option \<Rightarrow> (autoscalerError + 'a) option" where
  "prefixed prefix r = map_option (map_sum (AddPrefix prefix) id) r"

text \<open>Sequencing of fallible calls: the continuation runs on a result, errors and panics end the call.\<close>

definition ebind :: "('e + 'a) option \<Rightarrow> ('a \<Rightarrow> ('e + 'b) option) \<Rightarrow> ('e + 'b) option" where
  "ebind r f = (case r of None \<Rightarrow> None | Some (Inl err) \<Rightarrow> Some (Inl err) | Some (Inr x) \<Rightarrow> f x)"

definition prepare ::
  "('m, 's) scaleUpEnv \<Rightarrow> cloudProvider \<Rightarrow> clusterStateRegistry \<Rightarrow> pod list \<Rightarrow> node list \<Rightarrow>
     (autoscalerError + scaleUpInput) option" where
  "prepare env cp csr pods nodes =
     ebind (prefixed ''failed to build node infos for node groups: ''
         (GetNodeInfosForGroups cp (su_build env) (su_from_template env) (\<lambda>gid. fst (su_rands env gid)) nodes)) (\<lambda>infs.
     ebind (prefixed ''failed to filter out nodes which are from not autoscaled groups: ''
         (Some (FilterOutNodesFromNotAutoscaledGroups cp nodes))) (\<lambda>otherNodes.
     ebind (Some (map_sum (ToAutoscalerError CloudProviderError) id (su_ResourceLimiter env))) (\<lambda>limiter.
     ebind (prefixed ''Could not compute total resources: ''
         (computeScaleUpResourcesLeftLimits (su_template_node env) (cp_NodeGroups cp) infs otherNodes limiter)) (\<lambda>left.
     ebind (floop (upcoming_step infs) [] (GetUpcomingNodes csr)) (\<lambda>upcoming.
     ebind (Some (map_sum (ToAutoscalerError InternalError) id (su_ProcessGroups env (cp_NodeGroups cp) infs pods)))
       (\<lambda>(groups, infs').
     Some (Inr \<lparr>in_groups = groups, in_infos = infs', in_limiter = limiter, in_left = left,
                in_upcoming = upcoming\<rparr>)))))))"

definition initial_remaining :: "pod list \<Rightarrow> remaining" where
  "initial_remaining pods = foldl (\<lambda>m p. mput p [] m) [] pods"

definition expansion_options ::
  "('m, 's) scaleUpEnv \<Rightarrow> clusterStateRegistry \<Rightarrow> scaleUpInput \<Rightarrow> pod list \<Rightarrow> (autoscalerError + optionsState) option" where
  "expansion_options env csr inp pods =
     floop (option_step env csr (in_infos inp) (in_left inp) (in_limiter inp) (in_upcoming inp) pods)
       \<lparr>os_skipped = [], os_remain = initial_remaining pods, os_options = [], os_cache = empty_cache\<rparr> (in_groups inp)"

section \<open>After the choice\<close>

definition cap_total :: "('m, 's) scaleUpEnv \<Rightarrow> node list \<Rightarrow> int \<Rightarrow> autoscalerError + int" where
  "cap_total env nodes newNodes =
     (if su_MaxNodesTotal env > 0 \<and> int (length nodes) + newNodes > su_MaxNodesTotal env then
        (let capped = su_MaxNodesTotal env - int (length nodes)
         in if capped < 1 then Inl (NewAutoscalerError TransientError ''max node total count already reached'')
            else Inr capped)
      else Inr newNodes)"

definition extra_group_info ::
  "('m, 's) scaleUpEnv \<Rightarrow> infos \<Rightarrow> nodeGroup \<Rightarrow> (autoscalerError + infos) option" where
  "extra_group_info env infs ng =
     (case su_from_template env ng of
        None \<Rightarrow> None
      | Some (Inl _) \<Rightarrow> Some (Inr infs)
      | Some (Inr info) \<Rightarrow> Some (Inr (mput (ng_Id ng) info infs)))"

text \<open>
  A node group that does not exist yet is created first; its node info replaces the one of the
  candidate.  A nil node info, stored when the candidate has none, is one without a node.
\<close>

definition create_group ::
  "('m, 's) scaleUpEnv \<Rightarrow> nodeGroup \<Rightarrow> infos \<Rightarrow> clusterStateRegistry \<Rightarrow> 's \<Rightarrow>
     (autoscalerError + nodeGroup \<times> infos) option \<times> clusterStateRegistry \<times> 's" where
  "create_group env ng infs csr s =
     (if ng_Exist ng then (Some (Inr (ng, infs)), csr, s)
      else
        (case su_CreateNodeGroup env ng s of
           (Inl err, s') \<Rightarrow> (Some (Inl err), csr, s')
         | (Inr (created, extras), s') \<Rightarrow>
             (let mainInfo = su_from_template env created;
                  stored = (case mainInfo of
                      None \<Rightarrow> None
                    | Some (Inr info) \<Rightarrow> Some (mput (ng_Id created) info infs)
                    | Some (Inl _) \<Rightarrow> Some (mput (ng_Id created) (mget0 (NewNodeInfo []) infs (ng_Id ng)) infs));
                  cleaned = map_option (\<lambda>m. if ng_Id ng \<noteq> ng_Id created then mdel (ng_Id ng) m else m) stored
              in (ebind (map_option Inr cleaned) (\<lambda>m.
                    ebind (floop (extra_group_info env) m extras) (\<lambda>m'. Some (Inr (created, m')))),
                  Recalculate (csr\<lparr>csr_cloudProvider := su_view env s'\<rparr>), s'))))"

definition target_groups ::
  "('m, 's) scaleUpEnv \<Rightarrow> clusterStateRegistry \<Rightarrow> pod list \<Rightarrow> infos \<Rightarrow> passingCache \<Rightarrow> nodeGroup \<Rightarrow> pod list \<Rightarrow>
     (autoscalerError + nodeGroup list) option" where
  "target_groups env csr pods infs cache ng optionPods =
     (if \<not> su_BalanceSimilarNodeGroups env then Some (Inr [ng])
      else
        ebind (prefixed ''Failed to find matching node groups: '' (su_FindSimilar env ng infs)) (\<lambda>similar.
          map_option (\<lambda>fitting. Inr (ng # filter (\<lambda>g. IsNodeGroupSafeToScaleUp csr g (su_now env)) fitting))
            (filterNodeGroupsByPods env pods infs optionPods cache similar)))"

definition executeScaleUp ::
  "('m, 's) scaleUpEnv \<Rightarrow> scaleUpInfo \<Rightarrow> clusterStateRegistry \<times> 's \<Rightarrow>
     autoscalerError option \<times> clusterStateRegistry \<times> 's" where
  "executeScaleUp env info st =
     (case st of (csr, s) \<Rightarrow>
        let increase = si_NewSize info - si_CurrentSize info
        in case go_IncreaseSize (su_ops env) (ng_Id (si_Group info)) increase s of
             (Some err, s') \<Rightarrow>
               (Some (NewAutoscalerError CloudProviderError (''failed to increase node group size: '' @ err)),
                RegisterFailedScaleUp (si_Group info) (su_now env) csr, s')
           | (None, s') \<Rightarrow>
               (None,
                RegisterScaleUp \<lparr>sur_NodeGroup = si_Group info, sur_Time = su_now env,
                  sur_ExpectedAddTime = time_add (su_now env) (su_MaxNodeProvisionTime env),
                  sur_Increase = increase\<rparr> csr, s'))"

fun execute_all ::
  "('m, 's) scaleUpEnv \<Rightarrow> clusterStateRegistry \<times> 's \<Rightarrow> scaleUpInfo list \<Rightarrow>
     autoscalerError option \<times> clusterStateRegistry \<times> 's" where
  "execute_all env st [] = (None, st)"
| "execute_all env st (info # infos) =
     (case executeScaleUp env info st of
        (Some err, st') \<Rightarrow> (Some err, st')
      | (None, st') \<Rightarrow> execute_all env st' infos)"

text \<open>The plan for the chosen option: the groups to expand with their new sizes.\<close>

definition scale_up_plan ::
  "('m, 's) scaleUpEnv \<Rightarrow> clusterStateRegistry \<Rightarrow> scaleUpInput \<Rightarrow> pod list \<Rightarrow> passingCache \<Rightarrow> int \<Rightarrow> nodeGroup \<times> infos \<Rightarrow>
     pod list \<Rightarrow> (autoscalerError + scaleUpInfo list) option" where
  "scale_up_plan env csr inp pods cache newNodes created optionPods =
     (case created of (ng, infs) \<Rightarrow>
        case mget infs (ng_Id ng) of
          None \<Rightarrow> Some (Inl (NewAutoscalerError CloudProviderError ''No node info for best expansion option!''))
        | Some info \<Rightarrow>
            ebind (applyScaleUpResourcesLimits (su_visit_delta env) (su_template_node env) newNodes (in_left inp) info ng (in_limiter inp)) (\<lambda>n.
            ebind (target_groups env csr pods infs cache ng optionPods) (\<lambda>groups.
            su_Balance env groups n)))"

type_synonym 's scaleUpOutcome =
  "((scaleUpStatus \<times> autoscalerError option) \<times> clusterStateRegistry \<times> 's) option"

definition failed :: "autoscalerError \<Rightarrow> scaleUpStatus \<times> autoscalerError option" where
  "failed err = (plain_status ScaleUpError, Some err)"

definition scale_up_option ::
  "('m, 's) scaleUpEnv \<Rightarrow> scaleUpInput \<Rightarrow> optionsState \<Rightarrow> pod list \<Rightarrow> node list \<Rightarrow> expOption \<Rightarrow> clusterStateRegistry \<Rightarrow>
     's \<Rightarrow> 's scaleUpOutcome" where
  "scale_up_option env inp os pods nodes opt csr s =
     (case cap_total env nodes (eo_NodeCount opt) of
        Inl err \<Rightarrow> Some (failed err, csr, s)
      | Inr newNodes \<Rightarrow>
          (case create_group env (eo_NodeGroup opt) (in_infos inp) csr s of
             (None, csr1, s1) \<Rightarrow> None
           | (Some (Inl err), csr1, s1) \<Rightarrow> Some (failed err, csr1, s1)
           | (Some (Inr created), csr1, s1) \<Rightarrow>
               (case scale_up_plan env csr1 inp pods (os_cache os) newNodes created (eo_Pods opt) of
                  None \<Rightarrow> None
                | Some (Inl err) \<Rightarrow> Some (failed err, csr1, s1)
                | Some (Inr plan) \<Rightarrow>
                    (case execute_all env (csr1, s1) plan of
                       (Some err, csr2, s2) \<Rightarrow> Some (failed err, csr2, s2)
                     | (None, csr2, s2) \<Rightarrow>
                         Some ((\<lparr>sus_Result = ScaleUpSuccessful, sus_ScaleUpInfos = plan,
                                 sus_PodsTriggeredScaleUp = eo_Pods opt,
                                 sus_PodsRemainUnschedulable = getRemainingPods (os_remain os) (os_skipped os),
                                 sus_PodsAwaitEvaluation =
                                   getPodsAwaitingEvaluation pods (os_remain os) (eo_Pods opt)\<rparr>, None),
                               Recalculate (csr2\<lparr>csr_cloudProvider := su_view env s2\<rparr>), s2)))))"

definition ScaleUp ::
  "('m, 's) scaleUpEnv \<Rightarrow> clusterStateRegistry \<Rightarrow> pod list \<Rightarrow> node list \<Rightarrow> 's \<Rightarrow> 's scaleUpOutcome" where
  "ScaleUp env csr unschedulablePods nodes s =
     (if unschedulablePods = [] then Some ((plain_status ScaleUpNotNeeded, None), csr, s)
      else
        (case prepare env (su_view env s) csr unschedulablePods nodes of
           None \<Rightarrow> None
         | Some (Inl err) \<Rightarrow> Some (failed err, csr, s)
         | Some (Inr inp) \<Rightarrow>
             (case expansion_options env csr inp unschedulablePods of
                None \<Rightarrow> None
              | Some (Inl err) \<Rightarrow> Some (failed err, csr, s)
              | Some (Inr os) \<Rightarrow>
                  (let noOptions = Some ((plain_status ScaleUpNoOptionsAvailable)
                         \<lparr>sus_PodsRemainUnschedulable := getRemainingPods (os_remain os) (os_skipped os)\<rparr>, None)
                   in if os_options os = [] then map_option (\<lambda>r. (r, csr, s)) noOptions
                      else
                        (case su_BestOption env (os_options os) (in_infos inp) of
                           None \<Rightarrow> None
                         | Some None \<Rightarrow> map_option (\<lambda>r. (r, csr, s)) noOptions
                         | Some (Some opt) \<Rightarrow>
                             if eo_NodeCount opt > 0 then scale_up_option env inp os unschedulablePods nodes opt csr s
                             else map_option (\<lambda>r. (r, csr, s)) noOptions)))))"

end
