(* ===== verification/CoreUtilsProps.thy ===== *)
theory CoreUtilsProps
  imports CoreUtils SimulatorProps
begin

text \<open>
  What the routines of \<open>CoreUtils\<close> guarantee.  The cache of predicate results is a client of the
  locale \<open>memo\<close>: an answer it returns was computed for a key it holds alike.
\<close>

section \<open>Caches\<close>

definition answers_ok :: "('m \<Rightarrow> 'k \<Rightarrow> 'v option) \<Rightarrow> ('k \<Rightarrow> 'v \<Rightarrow> bool) \<Rightarrow> 'm \<Rightarrow> bool" where
  "answers_ok look P m \<longleftrightarrow> (\<forall>k v. look m k = Some v \<longrightarrow> P k v)"

locale memo =
  fixes look :: "'m \<Rightarrow> 'k \<Rightarrow> 'v option"
    and remember :: "'k \<Rightarrow> 'v \<Rightarrow> 'm \<Rightarrow> 'm"
    and fresh :: "'m"
    and alike :: "'k \<Rightarrow> 'k \<Rightarrow> bool"
  assumes look_fresh: "look fresh k = None"
    and look_remember: "look (remember k v m) k' = Some w \<Longrightarrow> look m k' = Some w \<or> w = v \<and> alike k k'"
begin

lemma fresh_ok: "answers_ok look P fresh"
  by (simp add: answers_ok_def look_fresh)

lemma remember_ok:
  assumes "answers_ok look P m" "\<And>k'. alike k k' \<Longrightarrow> P k' v"
  shows "answers_ok look P (remember k v m)"
  unfolding answers_ok_def
proof (intro allI impI)
  fix k' w
  assume "look (remember k v m) k' = Some w"
  then have "look m k' = Some w \<or> w = v \<and> alike k k'" by (rule look_remember)
  with assms show "P k' w" by (auto simp: answers_ok_def)
qed

lemma answer: "answers_ok look P m \<Longrightarrow> look m k = Some v \<Longrightarrow> P k v"
  by (simp add: answers_ok_def)

end

definition similar_pods :: "pod \<Rightarrow> pod \<Rightarrow> bool" where
  "similar_pods p q \<longleftrightarrow>
     (case (ControllerRef p, ControllerRef q) of
        (Some r, Some s) \<Rightarrow>
          or_UID r = or_UID s \<and> mequal (pod_Labels q) (pod_Labels p) \<and> spec_equal (spec_of q) (spec_of p)
      | _ \<Rightarrow> False)"

lemma find_snoc: "find P (xs @ [y]) = (case find P xs of Some x \<Rightarrow> Some x | None \<Rightarrow> if P y then Some y else None)"
  by (induction xs) auto

interpretation psm: memo cache_get cache_set "[]" similar_pods
proof
  show "cache_get [] k = None" for k by (simp add: cache_get_def split: option.split)
next
  fix k v m k' w
  assume a: "cache_get (cache_set k v m) k' = Some w"
  show "cache_get m k' = Some w \<or> w = v \<and> similar_pods k k'"
  proof (cases "\<exists>r s. ControllerRef k = Some r \<and> ControllerRef k' = Some s \<and> or_UID r = or_UID s")
    case True
    then obtain r s where rs: "ControllerRef k = Some r" "ControllerRef k' = Some s" "or_UID s = or_UID r" by auto
    then show ?thesis
      using a by (auto simp: cache_get_def cache_set_def similar_pods_def find_snoc psi_match_def mget0_def
          split: option.splits if_splits)
  next
    case False
    then show ?thesis using a by (auto simp: cache_get_def cache_set_def split: option.splits if_splits)
  qed
qed

section \<open>Pods that fit nowhere\<close>

definition fits_somewhere :: "'m predicateChecker \<Rightarrow> infos \<Rightarrow> pod \<Rightarrow> bool" where
  "fits_somewhere pc infs p \<longleftrightarrow> list_ex (\<lambda>(name, info). open_node info \<and> passes pc None p info) infs"

text \<open>What the cache relies on: pods it holds similar get the same answers from the predicates.\<close>

definition predicates_agree :: "'m predicateChecker \<Rightarrow> pod set \<Rightarrow> bool" where
  "predicates_agree pc ps \<longleftrightarrow>
     (\<forall>p\<in>ps. \<forall>q\<in>ps. similar_pods p q \<longrightarrow> (\<forall>info. passes pc None p info = passes pc None q info))"

lemma fits_somewhere_FitsAny:
  assumes "FitsAny pc p infs = Some r"
  shows "(\<exists>name. r = Inr name) \<longleftrightarrow> fits_somewhere pc infs p"
  using FitsAny_iff [OF assms] by (auto simp: fits_somewhere_def list_ex_iff)

lemma unschedulable_loop_filter:
  assumes agree: "predicates_agree pc ps"
    and returns: "\<And>p. p \<in> ps \<Longrightarrow> FitsAny pc p infs \<noteq> None"
    and ok: "answers_ok cache_get (\<lambda>q err. q \<in> ps \<longrightarrow> (err = None \<longleftrightarrow> fits_somewhere pc infs q)) cache"
    and sub: "set qs \<subseteq> ps"
  shows "unschedulable_loop pc infs cache qs = Some (filter (\<lambda>p. \<not> fits_somewhere pc infs p) qs)"
  using ok sub
proof (induction qs arbitrary: cache)
  case (Cons q qs)
  let ?P = "\<lambda>p err. p \<in> ps \<longrightarrow> (err = None \<longleftrightarrow> fits_somewhere pc infs p)"
  show ?case
  proof (cases "cache_get cache q")
    case (Some err)
    then have "err = None \<longleftrightarrow> fits_somewhere pc infs q"
      using psm.answer [OF Cons.prems(1) Some] Cons.prems(2) by simp
    with Some Cons show ?thesis by auto
  next
    case None
    obtain r where r: "FitsAny pc q infs = Some r" using returns [of q] Cons.prems(2) by auto
    define err where "err = (case r of Inl e \<Rightarrow> Some (NewPredicateError ''FitsAny'' (Some e) None []) | Inr _ \<Rightarrow> None)"
    have fit: "err = None \<longleftrightarrow> fits_somewhere pc infs q"
      using fits_somewhere_FitsAny [OF r] by (auto simp: err_def split: sum.split)
    have "?P k err" if "similar_pods q k" for k
      using agree fit that Cons.prems(2) by (auto simp: predicates_agree_def fits_somewhere_def)
    then have "answers_ok cache_get ?P (cache_set q err cache)"
      by (rule psm.remember_ok [OF Cons.prems(1)])
    then have "unschedulable_loop pc infs (cache_set q err cache) qs =
        Some (filter (\<lambda>p. \<not> fits_somewhere pc infs p) qs)"
      using Cons.IH Cons.prems(2) by simp
    then show ?thesis using None r fit by (auto simp: Let_def simp flip: err_def)
  qed
qed simp

lemma infos_have_nodes:
  assumes "(k, info) \<in> set (CreateNodeNameToInfoMap pods nodes)"
  shows "ni_Node info \<noteq> None"
proof -
  have "gomap_ok (CreateNodeNameToInfoMap pods nodes)"
    unfolding CreateNodeNameToInfoMap_def by (rule gomap_ok_mdel_where) (rule gomap_ok_infos)
  with assms have "mget (CreateNodeNameToInfoMap pods nodes) k = Some info"
    by (simp add: mget_eq_Some_iff)
  then show ?thesis by (auto simp: CreateNodeNameToInfoMap_spec split: option.splits)
qed

lemma FilterOutSchedulable_filter:
  assumes "predicates_agree pc (set candidates)"
    and "\<And>p info. p \<in> set candidates \<Longrightarrow> ni_Node info \<noteq> None \<Longrightarrow> CheckPredicates pc p None info \<noteq> None"
  shows "FilterOutSchedulable pc candidates nodes allScheduled podsWaiting cutoff =
     Some (filter (\<lambda>p. \<not> fits_somewhere pc
       (CreateNodeNameToInfoMap (FilterOutExpendablePods allScheduled cutoff @ podsWaiting) nodes) p) candidates)"
  unfolding FilterOutSchedulable_def
proof (rule unschedulable_loop_filter [OF assms(1) _ psm.fresh_ok subset_refl])
  fix p
  assume "p \<in> set candidates"
  then show "FitsAny pc p (CreateNodeNameToInfoMap (FilterOutExpendablePods allScheduled cutoff @ podsWaiting) nodes)
      \<noteq> None"
    by (intro FitsAny_returns conjI infos_have_nodes assms(2))
qed

text \<open>
  C32: The cache of predicate results does not change which pods count as unschedulable: where similar
  pods of one controller get the same answers from the predicates, \<open>FilterOutSchedulable\<close> returns
  exactly the candidates that no schedulable node takes, as a run of the predicates for every pod and
  node would.
\<close>

theorem FilterOutSchedulable_is_uncached:
  assumes "predicates_agree pc (set candidates)"
    and "\<And>p info. p \<in> set candidates \<Longrightarrow> ni_Node info \<noteq> None \<Longrightarrow> CheckPredicates pc p None info \<noteq> None"
  shows "FilterOutSchedulable pc candidates nodes allScheduled podsWaiting cutoff =
     Some (filter (\<lambda>p. \<not> fits_somewhere pc
       (CreateNodeNameToInfoMap (FilterOutExpendablePods allScheduled cutoff @ podsWaiting) nodes) p) candidates)"
  using assms by (rule FilterOutSchedulable_filter)

section \<open>Pods that fit one node\<close>

lemma schedulable_on_node_loop_ok:
  assumes agree: "predicates_agree pc ps"
    and returns: "\<And>p. p \<in> ps \<Longrightarrow> CheckPredicates pc p None info \<noteq> None"
    and ok: "answers_ok cache_get (\<lambda>q err. q \<in> ps \<longrightarrow> (err = None \<longleftrightarrow> passes pc None q info)) cache"
    and sub: "set qs \<subseteq> ps"
  shows "\<exists>result. schedulable_on_node_loop pc info cache acc qs = Some result \<and>
     (\<forall>p. p \<notin> set qs \<longrightarrow> mget result p = mget acc p) \<and>
     (\<forall>p\<in>set qs. \<exists>err. mget result p = Some err \<and> (err = None \<longleftrightarrow> passes pc None p info))"
  using ok sub
proof (induction qs arbitrary: cache acc)
  case (Cons q qs)
  let ?P = "\<lambda>p err. p \<in> ps \<longrightarrow> (err = None \<longleftrightarrow> passes pc None p info)"
  obtain err cache' where step: "schedulable_on_node_loop pc info cache acc (q # qs) =
        schedulable_on_node_loop pc info cache' (mput q err acc) qs"
    and err: "err = None \<longleftrightarrow> passes pc None q info" and ok': "answers_ok cache_get ?P cache'"
  proof (cases "cache_get cache q")
    case (Some err)
    then show ?thesis
      using psm.answer [OF Cons.prems(1) Some] Cons.prems that [of cache err] by simp
  next
    case None
    obtain err where r: "CheckPredicates pc q None info = Some err" using returns [of q] Cons.prems(2) by auto
    then have fit: "err = None \<longleftrightarrow> passes pc None q info" by (simp add: passes_def)
    have "?P k err" if "similar_pods q k" for k
      using agree fit that Cons.prems(2) by (auto simp: predicates_agree_def)
    then have "answers_ok cache_get ?P (cache_set q err cache)"
      by (rule psm.remember_ok [OF Cons.prems(1)])
    with None r fit show ?thesis using that [of "cache_set q err cache" err] by simp
  qed
  have "set qs \<subseteq> ps" using Cons.prems(2) by simp
  from Cons.IH [OF ok' this, of "mput q err acc"] obtain result where
    res: "schedulable_on_node_loop pc info cache' (mput q err acc) qs = Some result"
      "\<forall>p. p \<notin> set qs \<longrightarrow> mget result p = mget (mput q err acc) p"
      "\<forall>p\<in>set qs. \<exists>err. mget result p = Some err \<and> (err = None \<longleftrightarrow> passes pc None p info)"
    by blast
  have "\<exists>e. mget result p = Some e \<and> (e = None \<longleftrightarrow> passes pc None p info)" if "p \<in> set (q # qs)" for p
    using that res err by (cases "p \<in> set qs") auto
  then show ?case using res step by (intro exI [of _ result]) auto
qed simp

text \<open>
  \<open>CheckPodsSchedulableOnNode\<close> has an entry for exactly the pods it is given, and the entry is nil for
  exactly the pods that pass the predicates on the node, where similar pods get the same answers.
\<close>

theorem CheckPodsSchedulableOnNode_is_uncached:
  assumes "predicates_agree pc (set pods)"
    and "\<And>p. p \<in> set pods \<Longrightarrow> CheckPredicates pc p None info \<noteq> None"
  shows "\<exists>result. CheckPodsSchedulableOnNode pc pods info = Some result \<and>
     (\<forall>p. mhas result p = (p \<in> set pods)) \<and>
     (\<forall>p\<in>set pods. (mget result p = Some None) = passes pc None p info)"
proof -
  from schedulable_on_node_loop_ok [OF assms psm.fresh_ok subset_refl, of "[]"]
  obtain result where res: "schedulable_on_node_loop pc info [] [] pods = Some result"
    "\<forall>p. p \<notin> set pods \<longrightarrow> mget result p = mget [] p"
    "\<forall>p\<in>set pods. \<exists>err. mget result p = Some err \<and> (err = None \<longleftrightarrow> passes pc None p info)"
    by blast
  then show ?thesis
    unfolding CheckPodsSchedulableOnNode_def mhas_def by (intro exI [of _ result]) force
qed

section \<open>Template nodes are clean\<close>

definition sanitized :: "string \<Rightarrow> nodeInfo \<Rightarrow> bool" where
  "sanitized gid info \<longleftrightarrow>
     (\<exists>n r. ni_Node info = Some n \<and> n_Name n = template_name gid r \<and>
        (\<forall>t\<in>set (n_Taints n). t_Key t \<noteq> ReschedulerTaintKey \<and> t_Key t \<noteq> ToBeDeletedTaint) \<and>
        (\<forall>h. mget (n_Labels n) LabelHostname = Some h \<longrightarrow> h = n_Name n) \<and>
        (\<forall>p\<in>set (ni_Pods info). pod_NodeName p = n_Name n))"

lemma copied_labels:
  "mget (foldl (\<lambda>m (k, v). mput k (if k \<noteq> h then v else name) m) [] labels) h = Some v \<Longrightarrow> v = name"
proof (induction labels arbitrary: v rule: rev_induct)
  case (snoc kv labels)
  then show ?case by (cases kv) (auto split: if_splits)
qed simp

lemma sanitizeNodeInfo_sanitized:
  assumes "sanitizeNodeInfo r info gid = Some info'"
  shows "sanitized gid info'"
proof -
  obtain n where n: "ni_Node info = Some n" using assms by (auto simp: sanitizeNodeInfo_def split: option.splits)
  let ?n = "sanitizeTemplateNode r n gid"
  have "ni_Node info' = Some ?n" "\<forall>p\<in>set (ni_Pods info'). pod_NodeName p = n_Name ?n"
    using assms n by (auto simp: sanitizeNodeInfo_def Let_def NewNodeInfo_def)
  moreover have "n_Name ?n = template_name gid r"
    "\<forall>t\<in>set (n_Taints ?n). t_Key t \<noteq> ReschedulerTaintKey \<and> t_Key t \<noteq> ToBeDeletedTaint"
    by (simp_all add: sanitizeTemplateNode_def Let_def)
  moreover have "h = n_Name ?n" if "mget (n_Labels ?n) LabelHostname = Some h" for h
    using copied_labels [of LabelHostname "template_name gid r" "n_Labels n" h] that
    by (simp add: sanitizeTemplateNode_def Let_def)
  ultimately show ?thesis by (auto simp: sanitized_def)
qed

definition in_group :: "cloudProvider \<Rightarrow> string \<Rightarrow> node \<Rightarrow> bool" where
  "in_group cp gid n \<longleftrightarrow>
     (case cp_NodeGroupForNode cp n of Inr (Some ng) \<Rightarrow> ng_Id ng = gid | _ \<Rightarrow> False)"

lemma process_node_cases:
  assumes "process_node cp build rands m n = Some (Inr (added, m'))"
  obtains (no_group) "m' = m" "\<And>gid. \<not> in_group cp gid n"
    | (known) gid where "m' = m" "mhas m gid" "\<And>k. in_group cp k n \<longleftrightarrow> k = gid"
    | (added) gid info sinfo where "m' = mput gid sinfo m" "\<not> mhas m gid" "build n = Inr info"
        "sanitizeNodeInfo (rands gid) info gid = Some sinfo" "\<And>k. in_group cp k n \<longleftrightarrow> k = gid"
proof (cases "cp_NodeGroupForNode cp n")
  case (Inl e)
  with assms show thesis by (simp add: process_node_def)
next
  case (Inr g)
  note inr = this
  show thesis
  proof (cases g)
    case None
    with assms inr show thesis by (intro no_group) (auto simp: process_node_def in_group_def)
  next
    case (Some ng)
    have grp: "in_group cp k n \<longleftrightarrow> k = ng_Id ng" for k using inr Some by (auto simp: in_group_def)
    show thesis
    proof (cases "mhas m (ng_Id ng)")
      case True
      with assms inr Some grp show thesis by (intro known) (auto simp: process_node_def)
    next
      case False
      with assms inr Some grp show thesis
        by (auto simp: process_node_def split: sum.splits intro: added)
    qed
  qed
qed

lemma ready_step_cases:
  assumes "ready_node_step cp build rands m n = Some (Inr m')"
  obtains "\<not> IsNodeReadyAndSchedulable n" "m' = m"
    | added where "IsNodeReadyAndSchedulable n" "process_node cp build rands m n = Some (Inr (added, m'))"
proof (cases "IsNodeReadyAndSchedulable n")
  case True
  obtain r where r: "process_node cp build rands m n = Some r" "map_sum id snd r = Inr m'"
    using assms True by (auto simp: ready_node_step_def)
  obtain y where y: "r = Inr y" "snd y = m'" using r(2) by (cases r) simp_all
  then have "r = Inr (fst y, m')" by (cases y) simp
  with r True that(2) show thesis by simp
qed (use assms that(1) in \<open>simp add: ready_node_step_def\<close>)

lemma ready_loop:
  assumes "floop (ready_node_step cp build rands) [] nodes = Some (Inr m)"
  shows "case find (\<lambda>n. IsNodeReadyAndSchedulable n \<and> in_group cp gid n) nodes of
      None \<Rightarrow> mget m gid = None
    | Some n \<Rightarrow> \<exists>info sinfo. build n = Inr info \<and> sanitizeNodeInfo (rands gid) info gid = Some sinfo \<and> mget m gid = Some sinfo"
  using assms
proof (induction nodes arbitrary: m rule: rev_induct)
  case (snoc n nodes)
  from snoc.prems obtain m1 where m1: "floop (ready_node_step cp build rands) [] nodes = Some (Inr m1)"
    "ready_node_step cp build rands m1 n = Some (Inr m)"
    by (rule floop_snocE)
  let ?found = "find (\<lambda>n. IsNodeReadyAndSchedulable n \<and> in_group cp gid n) nodes"
  note IH = snoc.IH [OF m1(1)]
  show ?case
  proof (cases "IsNodeReadyAndSchedulable n")
    case False
    then have "m = m1" using m1(2) by (simp add: ready_node_step_def)
    with IH False show ?thesis by (auto simp: find_snoc split: option.splits)
  next
    case True
    obtain added where p: "process_node cp build rands m1 n = Some (Inr (added, m))"
      using ready_step_cases [OF m1(2)] True by blast
    from p show ?thesis
    proof (cases rule: process_node_cases)
      case no_group
      with IH show ?thesis by (auto simp: find_snoc split: option.splits)
    next
      case (known g)
      with IH show ?thesis by (auto simp: find_snoc mhas_def split: option.splits)
    next
      case (added g info sinfo)
      show ?thesis
      proof (cases "gid = g")
        case True
        then have "?found = None" using IH added(2) by (auto simp: mhas_def split: option.splits)
        with True added \<open>IsNodeReadyAndSchedulable n\<close> show ?thesis by (simp add: find_snoc)
      next
        case False
        with IH added show ?thesis by (auto simp: find_snoc split: option.splits)
      qed
    qed
  qed
qed simp

lemma ready_step_sanitized:
  assumes "ready_node_step cp build rands m n = Some (Inr m')" "\<forall>k i. mget m k = Some i \<longrightarrow> sanitized k i"
  shows "\<forall>k i. mget m' k = Some i \<longrightarrow> sanitized k i"
proof (cases "IsNodeReadyAndSchedulable n")
  case True
  obtain added where p: "process_node cp build rands m n = Some (Inr (added, m'))"
    using ready_step_cases [OF assms(1)] True by blast
  from p show ?thesis
    by (cases rule: process_node_cases) (use assms(2) in \<open>auto intro: sanitizeNodeInfo_sanitized\<close>)
qed (use assms in \<open>simp add: ready_node_step_def\<close>)

lemma template_step_cases:
  assumes "template_step ft m ng = Some (Inr m')"
  obtains "m' = m" "mhas m (ng_Id ng) \<or> ft ng = Some (Inl ErrNotImplemented)"
    | info where "\<not> mhas m (ng_Id ng)" "ft ng = Some (Inr info)" "m' = mput (ng_Id ng) info m"
proof (cases "mhas m (ng_Id ng)")
  case False
  obtain r where r: "ft ng = Some r" using assms False by (auto simp: template_step_def split: option.splits)
  show thesis
  proof (cases r)
    case (Inl err)
    then show thesis using assms False r that(1) by (simp add: template_step_def split: if_splits)
  next
    case (Inr info)
    then show thesis using assms False r that(2) by (simp add: template_step_def)
  qed
qed (use assms that(1) in \<open>simp add: template_step_def\<close>)

lemma last_step_cases:
  assumes "last_resort_step cp build rands m n = Some (Inr m')"
  obtains "IsNodeReadyAndSchedulable n" "m' = m"
    | added where "\<not> IsNodeReadyAndSchedulable n" "process_node cp build rands m n = Some (Inr (added, m'))"
proof (cases "IsNodeReadyAndSchedulable n")
  case False
  obtain r where r: "process_node cp build rands m n = Some r"
    using assms False by (auto simp: last_resort_step_def split: option.splits)
  then obtain added m1 where "r = Inr (added, m1)"
    using assms False by (cases r) (auto simp: last_resort_step_def)
  then have "r = Inr (added, m')"
    using assms False r by (cases "cp_NodeGroupForNode cp n") (simp_all add: last_resort_step_def)
  with r False that(2) show thesis by simp
qed (use assms that(1) in \<open>simp add: last_resort_step_def\<close>)

definition extends :: "infos \<Rightarrow> infos \<Rightarrow> bool" where
  "extends m m' \<longleftrightarrow> (\<forall>k i. mget m k = Some i \<longrightarrow> mget m' k = Some i)"

lemma extends_mput: "\<not> mhas m k \<Longrightarrow> extends m0 m \<Longrightarrow> extends m0 (mput k i m)"
  by (auto simp: extends_def mhas_def)

lemma extends_mhas: "extends m m' \<Longrightarrow> mhas m k \<Longrightarrow> mhas m' k"
  by (auto simp: extends_def mhas_def)

lemma template_sanitized:
  "GetNodeInfoFromTemplate pc template daemonsets rands ng = Some (Inr info) \<Longrightarrow> sanitized (ng_Id ng) info"
  by (auto simp: GetNodeInfoFromTemplate_def split: sum.splits option.splits intro: sanitizeNodeInfo_sanitized)

lemma template_loop:
  assumes "floop (template_step ft) m groups = Some (Inr m')"
    and "\<And>ng info. ft ng = Some (Inr info) \<Longrightarrow> sanitized (ng_Id ng) info"
  shows "extends m m' \<and> ((\<forall>k i. mget m k = Some i \<longrightarrow> sanitized k i) \<longrightarrow> (\<forall>k i. mget m' k = Some i \<longrightarrow> sanitized k i)) \<and>
     (\<forall>ng\<in>set groups. mhas m' (ng_Id ng) \<or> ft ng = Some (Inl ErrNotImplemented))"
  using assms(1)
proof (induction groups arbitrary: m' rule: rev_induct)
  case (snoc g groups)
  from snoc.prems obtain m1 where m1: "floop (template_step ft) m groups = Some (Inr m1)" "template_step ft m1 g = Some (Inr m')"
    by (rule floop_snocE)
  from m1(2) show ?case
  proof (cases rule: template_step_cases)
    case 1
    with snoc.IH [OF m1(1)] show ?thesis by auto
  next
    case (2 info)
    with snoc.IH [OF m1(1)] assms(2) [OF 2(2)] show ?thesis
      by (auto simp: extends_mput mhas_def)
  qed
qed (auto simp: extends_def)

lemma last_loop:
  assumes "floop (last_resort_step cp build rands) m nodes = Some (Inr m')"
  shows "extends m m' \<and> ((\<forall>k i. mget m k = Some i \<longrightarrow> sanitized k i) \<longrightarrow> (\<forall>k i. mget m' k = Some i \<longrightarrow> sanitized k i)) \<and>
     (\<forall>n\<in>set nodes. \<forall>gid. \<not> IsNodeReadyAndSchedulable n \<and> in_group cp gid n \<longrightarrow> mhas m' gid)"
  using assms
proof (induction nodes arbitrary: m' rule: rev_induct)
  case (snoc n nodes)
  from snoc.prems obtain m1 where m1: "floop (last_resort_step cp build rands) m nodes = Some (Inr m1)"
    "last_resort_step cp build rands m1 n = Some (Inr m')"
    by (rule floop_snocE)
  note IH = snoc.IH [OF m1(1)]
  from m1(2) show ?case
  proof (cases rule: last_step_cases)
    case 1
    with IH show ?thesis by auto
  next
    case (2 added)
    from 2(2) show ?thesis
    proof (cases rule: process_node_cases)
      case no_group
      with IH show ?thesis by auto
    next
      case (known g)
      with IH show ?thesis by auto
    next
      case (added g info sinfo)
      with IH sanitizeNodeInfo_sanitized [OF added(4)] show ?thesis
        by (auto simp: extends_mput mhas_def)
    qed
  qed
qed (auto simp: extends_def)

lemma node_info_sources:
  assumes "GetNodeInfosForGroups cp build (GetNodeInfoFromTemplate pc template daemonsets rands)
      (\<lambda>gid. fst (rands gid)) nodes = Some (Inr infs)"
  shows "mget infs gid = Some info \<Longrightarrow> sanitized gid info"
    and "find (\<lambda>n. IsNodeReadyAndSchedulable n \<and> in_group cp gid n) nodes = Some n \<Longrightarrow>
      \<exists>base. build n = Inr base \<and> mget infs gid = sanitizeNodeInfo (fst (rands gid)) base gid"
    and "ng \<in> set (cp_NodeGroups cp) \<Longrightarrow> mget infs (ng_Id ng) = None \<Longrightarrow>
      (\<forall>n\<in>set nodes. \<not> in_group cp (ng_Id ng) n) \<and>
      GetNodeInfoFromTemplate pc template daemonsets rands ng = Some (Inl ErrNotImplemented)"
proof -
  let ?r = "\<lambda>gid. fst (rands gid)" and ?ft = "GetNodeInfoFromTemplate pc template daemonsets rands"
  obtain m1 m2 where m: "floop (ready_node_step cp build ?r) [] nodes = Some (Inr m1)"
    "floop (template_step ?ft) m1 (cp_NodeGroups cp) = Some (Inr m2)"
    "floop (last_resort_step cp build ?r) m2 nodes = Some (Inr infs)"
    using assms by (auto simp: GetNodeInfosForGroups_def split: option.splits sum.splits)
  note first = ready_loop [OF m(1)] and second = template_loop [OF m(2) template_sanitized [of pc template daemonsets rands]] and third = last_loop [OF m(3)]
  have "\<forall>k i. mget m1 k = Some i \<longrightarrow> sanitized k i"
    by (rule floop_inv [OF m(1)]) (simp, erule (1) ready_step_sanitized [rotated])
  then show "mget infs gid = Some info \<Longrightarrow> sanitized gid info" using second third by blast
  have ext: "extends m1 infs" using second third by (auto simp: extends_def)
  {
    fix gid n
    assume f: "find (\<lambda>n. IsNodeReadyAndSchedulable n \<and> in_group cp gid n) nodes = Some n"
    then obtain base sinfo where "build n = Inr base" "sanitizeNodeInfo (?r gid) base gid = Some sinfo" "mget m1 gid = Some sinfo"
      using first [of gid] by auto
    then have "\<exists>base. build n = Inr base \<and> mget infs gid = sanitizeNodeInfo (?r gid) base gid \<and> mget infs gid \<noteq> None"
      using ext by (auto simp: extends_def)
  } note ready = this
  then show "find (\<lambda>n. IsNodeReadyAndSchedulable n \<and> in_group cp gid n) nodes = Some n \<Longrightarrow>
      \<exists>base. build n = Inr base \<and> mget infs gid = sanitizeNodeInfo (fst (rands gid)) base gid"
    by blast
  assume ng: "ng \<in> set (cp_NodeGroups cp)" and none: "mget infs (ng_Id ng) = None"
  have "\<not> in_group cp (ng_Id ng) n" if n: "n \<in> set nodes" for n
  proof
    assume g: "in_group cp (ng_Id ng) n"
    show False
    proof (cases "IsNodeReadyAndSchedulable n")
      case True
      then have "find (\<lambda>n. IsNodeReadyAndSchedulable n \<and> in_group cp (ng_Id ng) n) nodes \<noteq> None"
        using n g by (auto simp: find_None_iff)
      then show False using ready none by blast
    next
      case False
      then have "mhas infs (ng_Id ng)" using third n g by blast
      then show False using none by (simp add: mhas_def)
    qed
  qed
  moreover have "?ft ng = Some (Inl ErrNotImplemented)"
    using second third ng none by (auto simp: extends_def mhas_def)
  ultimately show "(\<forall>n\<in>set nodes. \<not> in_group cp (ng_Id ng) n) \<and> ?ft ng = Some (Inl ErrNotImplemented)" by blast
qed

text \<open>
  When \<open>GetNodeInfosForGroups\<close> succeeds, every node info stands for a fresh node of its group: a
  generated name, no taint of the rescheduler or of a pending deletion, the host name label and every
  pod on that name.  A group with ready nodes is represented by a copy of the first of them; a group
  without a node info has no node at all and no template either.
\<close>

theorem node_infos_for_groups:
  assumes "GetNodeInfosForGroups cp build (GetNodeInfoFromTemplate pc template daemonsets rands)
      (\<lambda>gid. fst (rands gid)) nodes = Some (Inr infs)"
  shows "(\<forall>gid info. mget infs gid = Some info \<longrightarrow> sanitized gid info) \<and>
    (\<forall>gid n. find (\<lambda>n. IsNodeReadyAndSchedulable n \<and> in_group cp gid n) nodes = Some n \<longrightarrow>
      (\<exists>base. build n = Inr base \<and> mget infs gid = sanitizeNodeInfo (fst (rands gid)) base gid)) \<and>
    (\<forall>ng\<in>set (cp_NodeGroups cp). mget infs (ng_Id ng) = None \<longrightarrow>
      (\<forall>n\<in>set nodes. \<not> in_group cp (ng_Id ng) n) \<and>
      GetNodeInfoFromTemplate pc template daemonsets rands ng = Some (Inl ErrNotImplemented))"
  using node_info_sources [OF assms] by blast

section \<open>Repairs keep the minimum sizes\<close>

definition long_unregistered :: "duration \<Rightarrow> time \<Rightarrow> unregisteredNode \<Rightarrow> bool" where
  "long_unregistered maxProvision now u \<longleftrightarrow> un_UnregisteredSince u + maxProvision < now"

definition above_min :: "'s groupOps \<Rightarrow> (string \<Rightarrow> int) \<Rightarrow> 's \<Rightarrow> bool" where
  "above_min ops minOf s \<longleftrightarrow> (\<forall>k n. go_TargetSize ops k s = Inr n \<longrightarrow> minOf k \<le> n)"

definition wrong_for_long :: "duration \<Rightarrow> time \<Rightarrow> clusterStateRegistry \<Rightarrow> string \<Rightarrow> incorrectNodeGroupSize option" where
  "wrong_for_long maxProvision now csr gid =
     (case GetIncorrectNodeGroupSize csr gid of
        None \<Rightarrow> None
      | Some i \<Rightarrow>
          if ing_FirstObserved i + maxProvision < now \<and> ing_CurrentSize i < ing_ExpectedSize i then Some i else None)"

context node_groups begin

lemma remove_above_min:
  assumes "\<And>n ng. groupFor n = Inr (Some ng) \<Longrightarrow> ng_MinSize ng = minOf (ng_Id ng)"
    and "above_min ops minOf s"
    and "removeOldUnregisteredNodes ops groupFor maxProvision now removedAny s us = (res, s')"
  shows "above_min ops minOf s'"
  using assms(2,3)
proof (induction us arbitrary: removedAny s)
  case (Cons u us)
  let ?again = "\<lambda>b s. removeOldUnregisteredNodes ops groupFor maxProvision now b s us = (res, s')"
  have step: "above_min ops minOf s1" if "groupFor (un_Node u) = Inr (Some ng)" "go_TargetSize ops (ng_Id ng) s = Inr n"
      "ng_MinSize ng < n" "go_DeleteNodes ops (ng_Id ng) [un_Node u] s = (err, s1)" for ng n err s1
    using delete_target [OF that(4)] that(2,3) assms(1) [OF that(1)] Cons.prems(1)
    by (auto simp: above_min_def) (metis sum.inject(2) zle_diff1_eq)+
  consider "?again removedAny s" | "s' = s"
    | ng n err s1 where "groupFor (un_Node u) = Inr (Some ng)" "go_TargetSize ops (ng_Id ng) s = Inr n"
      "ng_MinSize ng < n" "go_DeleteNodes ops (ng_Id ng) [un_Node u] s = (err, s1)" "s' = s1 \<or> ?again True s1"
    using Cons.prems(2) by (auto split: if_splits sum.splits option.splits prod.splits)
  then show ?case
  proof cases
    case 3
    with step [OF 3(1,2,3,4)] Cons.IH show ?thesis by blast
  qed (use Cons in auto)
qed simp

lemma remove_only_old:
  assumes "\<forall>u\<in>set us. \<not> long_unregistered maxProvision now u"
  shows "removeOldUnregisteredNodes ops groupFor maxProvision now removedAny s us = ((removedAny, None), s)"
  using assms by (induction us) (auto simp: long_unregistered_def time_before_def time_add_def)

lemma fix_sizes:
  assumes "fixNodeGroupSize ops maxProvision now csr fixed s ngs = ((fixed', None), s')" "distinct (map ng_Id ngs)"
    and "\<And>k i. k \<in> ng_Id ` set ngs \<Longrightarrow> wrong_for_long maxProvision now csr k = Some i \<Longrightarrow>
      go_TargetSize ops k s = Inr (ing_ExpectedSize i)"
  shows "go_TargetSize ops k s' =
     (case wrong_for_long maxProvision now csr k of
        Some i \<Rightarrow> if k \<in> ng_Id ` set ngs then Inr (ing_CurrentSize i) else go_TargetSize ops k s
      | None \<Rightarrow> go_TargetSize ops k s)"
  using assms
proof (induction ngs arbitrary: fixed s)
  case (Cons ng ngs)
  show ?case
  proof (cases "wrong_for_long maxProvision now csr (ng_Id ng)")
    case None
    then have "fixNodeGroupSize ops maxProvision now csr fixed s ngs = ((fixed', None), s')"
      using Cons.prems(1)
      by (auto simp: wrong_for_long_def time_before_def time_add_def Let_def split: option.splits if_splits)
    from Cons.IH [OF this] Cons.prems(2,3) None show ?thesis by (auto split: option.splits)
  next
    case (Some i)
    let ?d = "ing_CurrentSize i - ing_ExpectedSize i"
    have neg: "?d < 0" using Some by (auto simp: wrong_for_long_def split: option.splits if_splits)
    obtain s1 where s1: "go_DecreaseTargetSize ops (ng_Id ng) ?d s = (None, s1)"
      "fixNodeGroupSize ops maxProvision now csr True s1 ngs = ((fixed', None), s')"
      using Some Cons.prems(1)
      by (auto simp: wrong_for_long_def time_before_def time_add_def Let_def
          split: option.splits if_splits prod.splits)
    note change = decrease_target [OF s1(1) neg]
    have here: "go_TargetSize ops (ng_Id ng) s1 = Inr (ing_CurrentSize i)"
      using change(1) [OF Cons.prems(3) [OF _ Some]] by simp
    have "ng_Id ng \<notin> ng_Id ` set ngs" using Cons.prems(2) by auto
    moreover have "go_TargetSize ops j s1 = Inr (ing_ExpectedSize m)"
      if "j \<in> ng_Id ` set ngs" "wrong_for_long maxProvision now csr j = Some m" for j m
    proof -
      have "j \<noteq> ng_Id ng" using that(1) \<open>ng_Id ng \<notin> ng_Id ` set ngs\<close> by blast
      then show ?thesis using change(2) [of j] Cons.prems(3) [of j m] that by simp
    qed
    ultimately show ?thesis
      using Cons.IH [OF s1(2)] Cons.prems(2) change(2) [of k] here Some
      by (cases "k = ng_Id ng") (auto split: option.splits)
  qed
qed (auto split: option.splits)

end

text \<open>
  Removing nodes that never registered leaves every node group at or above its minimum size, whatever
  the calls to the cloud answer, and does nothing while no node has been unregistered for longer than
  the provisioning time.
\<close>

theorem removeOldUnregisteredNodes_keeps_minimum:
  assumes "node_groups ops" "above_min ops minOf s"
    and "\<And>n ng. groupFor n = Inr (Some ng) \<Longrightarrow> ng_MinSize ng = minOf (ng_Id ng)"
    and "removeOldUnregisteredNodes ops groupFor maxProvision now False s us = (res, s')"
  shows "above_min ops minOf s' \<and> ((\<exists>u\<in>set us. long_unregistered maxProvision now u) \<or> res = (False, None) \<and> s' = s)"
proof -
  have "above_min ops minOf s'"
    using node_groups.remove_above_min [OF assms(1)] assms(2,3,4) by blast
  moreover have "res = (False, None) \<and> s' = s" if "\<not> (\<exists>u\<in>set us. long_unregistered maxProvision now u)"
    using node_groups.remove_only_old [OF assms(1)] that assms(4) by auto
  ultimately show ?thesis by blast
qed

text \<open>
  When \<open>fixNodeGroupSize\<close> succeeds, a group whose size has been too small for longer than the
  provisioning time has its target set to the number of nodes it has, and no other target changes.
\<close>

theorem fixNodeGroupSize_sets_current_size:
  assumes "node_groups ops" "distinct (map ng_Id ngs)"
    and "fixNodeGroupSize ops maxProvision now csr False s ngs = ((fixed, None), s')"
    and "\<And>k i. k \<in> ng_Id ` set ngs \<Longrightarrow> wrong_for_long maxProvision now csr k = Some i \<Longrightarrow>
      go_TargetSize ops k s = Inr (ing_ExpectedSize i)"
  shows "go_TargetSize ops k s' =
     (case wrong_for_long maxProvision now csr k of
        Some i \<Rightarrow> if k \<in> ng_Id ` set ngs then Inr (ing_CurrentSize i) else go_TargetSize ops k s
      | None \<Rightarrow> go_TargetSize ops k s)"
  using node_groups.fix_sizes [OF assms(1,3,2)] assms(4) by blast

text \<open>
  Turning the affinity predicate off for a loop does not change any answer: when no pod requires
  affinity, and the predicate accepts every pod in that case, the configured checker gives what the
  checker with the predicate gives.
\<close>

theorem affinity_predicate_disabled_safely:
  assumes "\<not> anyPodHasHardInterPodAffinity (unschedulable @ schedulable) \<Longrightarrow>
      \<forall>q\<in>set (pc_predicates pc). pi_name q = affinityPredicateName \<longrightarrow> accepts (pi_predicate q) p None info"
  shows "CheckPredicates (ConfigurePredicateCheckerForLoop unschedulable schedulable pc) p None info =
     CheckPredicates (SetAffinityPredicateEnabled True pc) p None info"
proof (cases "anyPodHasHardInterPodAffinity (unschedulable @ schedulable)")
  case True
  then show ?thesis
    by (auto simp: ConfigurePredicateCheckerForLoop_def anyPodHasHardInterPodAffinity_def Let_def)
next
  case False
  then have off: "ConfigurePredicateCheckerForLoop unschedulable schedulable pc = SetAffinityPredicateEnabled False pc"
    by (simp add: ConfigurePredicateCheckerForLoop_def anyPodHasHardInterPodAffinity_def Let_def)
  have "check_loop False p None info (pc_predicates pc) = check_loop True p None info (pc_predicates pc)"
    by (rule affinity_off) (use assms False in blast)
  then show ?thesis by (simp add: off CheckPredicates_def SetAffinityPredicateEnabled_def)
qed

section \<open>Concrete runs\<close>

definition working_node :: "string \<Rightarrow> int \<Rightarrow> node" where
  "working_node name cores = empty_node\<lparr>n_Name := name, n_Conditions := [\<lparr>nc_Type = NodeReady,
     nc_Status = ConditionTrue, nc_LastTransitionTime = 0\<rparr>],
     n_Capacity := [(''cpu'', NewQuantity cores)], n_Allocatable := [(''cpu'', NewQuantity cores)]\<rparr>"

definition replica_pod :: "string \<Rightarrow> int \<Rightarrow> pod" where
  "replica_pod name cores = (owned_pod ''ReplicaSet'' ''web'')\<lparr>pod_Name := name,
     pod_Containers := [\<lparr>ct_Name = ''main'', ct_Requests = [(''cpu'', NewQuantity cores)], ct_HostPorts = []\<rparr>]\<rparr>"

lemma demo_predicates:
  "pc_predicates demo_checker = [\<lparr>pi_name = ''PodFitsResources'', pi_predicate = cpu_predicate\<rparr>,
     \<lparr>pi_name = ''GeneralPredicates'', pi_predicate = cpu_predicate\<rparr>,
     \<lparr>pi_name = ''ready'', pi_predicate = isNodeReadyAndSchedulablePredicate\<rparr>]"
  by (simp add: demo_checker_def predicate_list_def priorityPredicates_def take_priority_def mput_def mdel_def)

lemma accepts_cpu:
  "accepts cpu_predicate p meta info \<longleftrightarrow>
     (\<exists>n. ni_Node info = Some n \<and> pod_request ''cpu'' 0 p \<le> mget0 0 (n_Allocatable n) ''cpu'')"
  by (simp add: accepts_def cpu_predicate_def split: option.split)

lemma demo_enabled: "pc_enableAffinityPredicate demo_checker"
  by (simp add: demo_checker_def)

lemma demo_passes:
  "passes demo_checker None p info \<longleftrightarrow>
     (\<exists>n. ni_Node info = Some n \<and> IsNodeReadyAndSchedulable n \<and>
        pod_request ''cpu'' 0 p \<le> mget0 0 (n_Allocatable n) ''cpu'')"
  by (auto simp: passes_iff demo_predicates demo_enabled accepts_ready accepts_cpu)

lemma demo_returns: "ni_Node info \<noteq> None \<Longrightarrow> CheckPredicates demo_checker p None info \<noteq> None"
  by (auto simp: CheckPredicates_def demo_predicates cpu_predicate_def isNodeReadyAndSchedulablePredicate_def)

lemma working_ready: "IsNodeReadyAndSchedulable (working_node name cores)"
  by (simp add: IsNodeReadyAndSchedulable_def nodeIsReady_iff working_node_def empty_node_def blocks_readiness_def)

lemma replica_request: "pod_request ''cpu'' 0 (replica_pod name cores) = NewQuantity cores"
  by (simp add: replica_pod_def pod_request_def)

lemma replica_similar:
  "similar_pods (replica_pod a m) (replica_pod b n) \<Longrightarrow> NewQuantity m = NewQuantity n"
  by (simp add: similar_pods_def spec_equal_def spec_of_def replica_pod_def container_equal_def mequal_def owned_pod_def
      split: option.splits)

lemma replicas_agree:
  assumes "\<And>p. p \<in> ps \<Longrightarrow> \<exists>name cores. p = replica_pod name cores"
  shows "predicates_agree demo_checker ps"
  unfolding predicates_agree_def
proof (intro ballI impI allI)
  fix p q info
  assume "p \<in> ps" "q \<in> ps" "similar_pods p q"
  moreover obtain a m b n where "p = replica_pod a m" "q = replica_pod b n"
    using assms [of p] assms [of q] \<open>p \<in> ps\<close> \<open>q \<in> ps\<close> by blast
  ultimately show "passes demo_checker None p info = passes demo_checker None q info"
    using replica_similar by (simp add: demo_passes replica_request)
qed

definition demo_replicas :: "pod list" where
  "demo_replicas = [replica_pod ''web-1'' 2, replica_pod ''web-2'' 2, replica_pod ''small'' 1]"

lemma demo_replicas_cases: "p \<in> set demo_replicas \<Longrightarrow> \<exists>name cores. p = replica_pod name cores"
  by (auto simp: demo_replicas_def)

lemma demo_replica_infos:
  "CreateNodeNameToInfoMap (FilterOutExpendablePods [] 0 @ []) [working_node ''n1'' 1] =
     [(''n1'', \<lparr>ni_Node = Some (working_node ''n1'' 1), ni_Pods = []\<rparr>)]"
  by (simp add: CreateNodeNameToInfoMap_def FilterOutExpendablePods_def set_node_info_def mput_def mdel_where_def
      NewNodeInfo_def mget0_def working_node_def empty_node_def)

lemma demo_replica_fits:
  "fits_somewhere demo_checker [(''n1'', \<lparr>ni_Node = Some (working_node ''n1'' 1), ni_Pods = []\<rparr>)]
     (replica_pod name cores) = (NewQuantity cores \<le> NewQuantity 1)"
  by (simp add: fits_somewhere_def demo_passes replica_request working_ready open_node_def)
    (simp add: working_node_def empty_node_def mget0_def)

theorem FilterOutSchedulable_is_uncached_witness:
  "FilterOutSchedulable demo_checker demo_replicas [working_node ''n1'' 1] [] [] 0 =
     Some [replica_pod ''web-1'' 2, replica_pod ''web-2'' 2]"
proof -
  have agree: "predicates_agree demo_checker (set demo_replicas)"
    by (rule replicas_agree) (rule demo_replicas_cases)
  have "FilterOutSchedulable demo_checker demo_replicas [working_node ''n1'' 1] [] [] 0 =
      Some (filter (\<lambda>p. \<not> fits_somewhere demo_checker [(''n1'', \<lparr>ni_Node = Some (working_node ''n1'' 1), ni_Pods = []\<rparr>)] p)
        demo_replicas)"
    unfolding demo_replica_infos [symmetric] by (rule FilterOutSchedulable_is_uncached [OF agree demo_returns])
  also have "\<dots> = Some [replica_pod ''web-1'' 2, replica_pod ''web-2'' 2]"
    unfolding demo_replicas_def filter.simps demo_replica_fits by (simp add: NewQuantity_def)
  finally show ?thesis .
qed

theorem CheckPodsSchedulableOnNode_is_uncached_witness:
  "\<exists>result. CheckPodsSchedulableOnNode demo_checker demo_replicas
       \<lparr>ni_Node = Some (working_node ''n1'' 1), ni_Pods = []\<rparr> = Some result \<and>
     mget result (replica_pod ''web-2'' 2) \<noteq> Some None \<and> mget result (replica_pod ''small'' 1) = Some None"
proof -
  let ?info = "\<lparr>ni_Node = Some (working_node ''n1'' 1), ni_Pods = []\<rparr>"
  have agree: "predicates_agree demo_checker (set demo_replicas)"
    by (rule replicas_agree) (rule demo_replicas_cases)
  have ret: "CheckPredicates demo_checker p None ?info \<noteq> None" for p by (rule demo_returns) simp
  obtain result where res: "CheckPodsSchedulableOnNode demo_checker demo_replicas ?info = Some result"
    "\<forall>p\<in>set demo_replicas. (mget result p = Some None) = passes demo_checker None p ?info"
    using CheckPodsSchedulableOnNode_is_uncached [OF agree ret] by blast
  have fit: "passes demo_checker None (replica_pod name cores) ?info = (NewQuantity cores \<le> NewQuantity 1)" for name cores
    by (simp add: demo_passes replica_request working_ready) (simp add: working_node_def mget0_def)
  have "replica_pod ''web-2'' 2 \<in> set demo_replicas" "replica_pod ''small'' 1 \<in> set demo_replicas"
    by (simp_all add: demo_replicas_def)
  then have "mget result (replica_pod ''web-2'' 2) \<noteq> Some None" "mget result (replica_pod ''small'' 1) = Some None"
    using res(2) by (simp_all add: fit NewQuantity_def)
  with res(1) show ?thesis by blast
qed

definition one_group :: nodeGroup where
  "one_group = \<lparr>ng_Id = ''pool'', ng_MinSize = 1, ng_MaxSize = 5, ng_TargetSize = Inr 2, ng_Exist = True,
     ng_Autoprovisioned = False, ng_Nodes = Inr []\<rparr>"

definition one_provider :: cloudProvider where
  "one_provider = \<lparr>cp_NodeGroups = [one_group], cp_NodeGroupForNode = (\<lambda>n. Inr (Some one_group))\<rparr>"

definition bare_info :: "node \<Rightarrow> autoscalerError + nodeInfo" where
  "bare_info n = Inr \<lparr>ni_Node = Some n, ni_Pods = []\<rparr>"

definition no_template :: "nodeGroup \<Rightarrow> goError + nodeInfo" where
  "no_template ng = Inl (CaError ErrNotImplemented)"

definition tainted_node :: node where
  "tainted_node = (working_node ''n1'' 1)\<lparr>n_Taints := [\<lparr>t_Key = ToBeDeletedTaint, t_Value = '''', t_Effect = ''''\<rparr>]\<rparr>"

lemma tainted_ready: "IsNodeReadyAndSchedulable tainted_node"
  using working_ready [of "''n1''" 1]
  by (simp add: tainted_node_def IsNodeReadyAndSchedulable_def nodeIsReady_iff)

theorem node_infos_for_groups_witness:
  "\<exists>infs info. GetNodeInfosForGroups one_provider bare_info
      (GetNodeInfoFromTemplate demo_checker no_template [] (\<lambda>gid. (7, \<lambda>k. 0))) (\<lambda>gid. 7) [tainted_node] = Some (Inr infs) \<and>
     mget infs ''pool'' = Some info \<and> sanitized ''pool'' info"
proof -
  let ?rands = "\<lambda>gid. (7 :: int, \<lambda>k. 0 :: int)"
  obtain sinfo where s: "sanitizeNodeInfo 7 \<lparr>ni_Node = Some tainted_node, ni_Pods = []\<rparr> ''pool'' = Some sinfo"
    by (simp add: sanitizeNodeInfo_def Let_def)
  have run: "GetNodeInfosForGroups one_provider bare_info (GetNodeInfoFromTemplate demo_checker no_template [] ?rands)
      (\<lambda>gid. fst (?rands gid)) [tainted_node] = Some (Inr [(''pool'', sinfo)])"
    by (simp add: GetNodeInfosForGroups_def ready_node_step_def process_node_def one_provider_def one_group_def
        bare_info_def tainted_ready s mput_def template_step_def mhas_def last_resort_step_def)
  have "mget [(''pool'', sinfo)] ''pool'' = Some sinfo" by simp
  with node_infos_for_groups [OF run] run show ?thesis by auto
qed

definition silent_ops :: "testCloudProvider groupOps" where
  "silent_ops = test_ops (\<lambda>gid d. None) (\<lambda>gid n. None)"

definition pool_state :: "int \<Rightarrow> testCloudProvider" where
  "pool_state target = AddNodeGroup ''pool'' 1 5 target NewTestCloudProvider"

lemma pool_target: "go_TargetSize silent_ops k (pool_state target) = (if k = ''pool'' then Inr target else Inl ''no such group'')"
  by (simp add: silent_ops_def test_ops_def TestTargetSize_def pool_state_def AddNodeGroup_def InsertNodeGroup_def
      BuildNodeGroup_def NewTestCloudProvider_def)

lemma silent_groups: "node_groups silent_ops"
  unfolding silent_ops_def by (rule tg.node_groups_axioms)

definition missing :: unregisteredNode where
  "missing = \<lparr>un_Node = empty_node, un_UnregisteredSince = 0\<rparr>"

theorem removeOldUnregisteredNodes_keeps_minimum_witness:
  "\<exists>s'. removeOldUnregisteredNodes silent_ops (\<lambda>n. Inr (Some one_group)) minute hour False (pool_state 2)
      [missing, missing] = ((True, None), s') \<and> above_min silent_ops (\<lambda>k. 1) s' \<and> go_TargetSize silent_ops ''pool'' s' = Inr 1"
proof -
  have start: "above_min silent_ops (\<lambda>k. 1) (pool_state 2)" by (simp add: above_min_def pool_target)
  obtain s1 where del: "go_DeleteNodes silent_ops ''pool'' [empty_node] (pool_state 2) = (None, s1)"
    and s1: "go_TargetSize silent_ops ''pool'' s1 = Inr 1"
    using pool_target [of "''pool''" 2]
    by (simp add: silent_ops_def test_ops_def TestDeleteNodes_def target_change_target)
  have run: "removeOldUnregisteredNodes silent_ops (\<lambda>n. Inr (Some one_group)) minute hour False (pool_state 2)
      [missing, missing] = ((True, None), s1)"
    by (simp add: missing_def time_before_def time_add_def minute_def hour_def second_def one_group_def pool_target del s1)
  have "above_min silent_ops (\<lambda>k. 1) s1"
    using removeOldUnregisteredNodes_keeps_minimum [OF silent_groups start _ run] by (simp add: one_group_def)
  with run s1 show ?thesis by blast
qed

definition short_registry :: clusterStateRegistry where
  "short_registry = (NewClusterStateRegistry one_provider \<lparr>cfg_MaxTotalUnreadyPercentage = Fin 0, cfg_OkTotalUnreadyCount = 0,
      cfg_MaxNodeProvisionTime = minute\<rparr> (NewExponentialBackoff minute hour hour ng_Id))\<lparr>csr_incorrectNodeGroupSizes :=
        [(''pool'', \<lparr>ing_ExpectedSize = 4, ing_CurrentSize = 3, ing_FirstObserved = 0\<rparr>)]\<rparr>"

lemma short_wrong:
  "wrong_for_long minute hour short_registry k =
     (if k = ''pool'' then Some \<lparr>ing_ExpectedSize = 4, ing_CurrentSize = 3, ing_FirstObserved = 0\<rparr> else None)"
  by (simp add: wrong_for_long_def short_registry_def GetIncorrectNodeGroupSize_def minute_def hour_def second_def)

theorem fixNodeGroupSize_sets_current_size_witness:
  "\<exists>s'. fixNodeGroupSize silent_ops minute hour short_registry False (pool_state 4) [one_group] = ((True, None), s') \<and>
     go_TargetSize silent_ops ''pool'' s' = Inr 3"
proof -
  obtain s1 where dec: "go_DecreaseTargetSize silent_ops ''pool'' (- 1) (pool_state 4) = (None, s1)"
    by (simp add: silent_ops_def test_ops_def TestDecreaseTargetSize_def)
  then have run: "fixNodeGroupSize silent_ops minute hour short_registry False (pool_state 4) [one_group] = ((True, None), s1)"
    by (simp add: short_registry_def GetIncorrectNodeGroupSize_def one_group_def time_before_def time_add_def minute_def
        hour_def second_def)
  have "distinct (map ng_Id [one_group])" by simp
  moreover have "go_TargetSize silent_ops k (pool_state 4) = Inr (ing_ExpectedSize i)"
    if "k \<in> ng_Id ` set [one_group]" "wrong_for_long minute hour short_registry k = Some i" for k i
    using that by (auto simp: short_wrong pool_target one_group_def)
  ultimately have "go_TargetSize silent_ops ''pool'' s1 =
      (case wrong_for_long minute hour short_registry ''pool'' of
         Some i \<Rightarrow> if ''pool'' \<in> ng_Id ` set [one_group] then Inr (ing_CurrentSize i)
           else go_TargetSize silent_ops ''pool'' (pool_state 4)
       | None \<Rightarrow> go_TargetSize silent_ops ''pool'' (pool_state 4))"
    by (rule fixNodeGroupSize_sets_current_size [OF silent_groups _ run])
  then have "go_TargetSize silent_ops ''pool'' s1 = Inr 3" by (simp add: short_wrong one_group_def)
  with run show ?thesis by blast
qed

theorem affinity_predicate_disabled_safely_witness:
  "CheckPredicates (ConfigurePredicateCheckerForLoop demo_replicas [] demo_checker) p None info =
     CheckPredicates (SetAffinityPredicateEnabled True demo_checker) p None info"
  by (rule affinity_predicate_disabled_safely) (simp add: demo_predicates affinityPredicateName_def)

end
