(* ===== verification/ScaleUpDemo.thy ===== *)
theory ScaleUpDemo
  imports ScaleUp CoreUtilsProps Estimator
begin

text \<open>
  A concrete scale-up, evaluated: the test provider with one group of size one whose template has two
  cores, and a ready node of one core outside the groups; a pod of two cores, which a new node of the
  group can take, and a pod of nine cores, which it cannot.  The affinity predicate is off.
\<close>

definition su_state :: testCloudProvider where
  "su_state = AddNode ''pool'' (working_node ''n1'' 2) (AddNodeGroup ''pool'' 0 5 1 NewTestCloudProvider)"

definition su_group :: nodeGroup where
  "su_group = \<lparr>ng_Id = ''pool'', ng_MinSize = 0, ng_MaxSize = 5, ng_TargetSize = Inr 1, ng_Exist = True,
     ng_Autoprovisioned = False, ng_Nodes = Inr [''n1'']\<rparr>"

definition su_registry :: clusterStateRegistry where
  "su_registry = (NewClusterStateRegistry (provider_view su_state) \<lparr>cfg_MaxTotalUnreadyPercentage = Fin 0,
     cfg_OkTotalUnreadyCount = 0, cfg_MaxNodeProvisionTime = minute\<rparr> (NewExponentialBackoff minute hour hour ng_Id))
     \<lparr>csr_acceptableRanges := [(''pool'', \<lparr>ar_MinNodes = 1, ar_MaxNodes = 1, ar_CurrentTarget = 1\<rparr>)],
      csr_perNodeGroupReadiness := [(''pool'', zeroReadiness\<lparr>rd_Ready := 1, rd_Registered := 1\<rparr>)]\<rparr>"

definition su_template :: "nodeGroup \<Rightarrow> goError + nodeInfo" where
  "su_template ng = Inr \<lparr>ni_Node = Some (working_node ''template'' 2), ni_Pods = []\<rparr>"

definition su_checker :: "unit predicateChecker" where
  "su_checker = SetAffinityPredicateEnabled False demo_checker"

definition su_nodes :: "node list" where
  "su_nodes = [working_node ''m1'' 1]"

definition su_env :: "(unit, testCloudProvider) scaleUpEnv" where
  "su_env = \<lparr>su_view = provider_view, su_ops = silent_ops, su_ResourceLimiter = Inr cores_limiter, su_build = bare_info,
     su_TemplateNodeInfo = su_template, su_template_node = node_template, su_daemonSets = [],
     su_rands = (\<lambda>gid. (7, \<lambda>k. 0)), su_visit_delta = rev, su_PredicateChecker = su_checker, su_visit = (\<lambda>xs. xs),
     su_ProcessGroups = (\<lambda>groups infs ps. Inr (groups, infs)),
     su_Estimate = BinpackingEstimate (passes demo_checker None) sort_scores, su_BestOption = MostPodsBestOption (\<lambda>n. 0),
     su_CreateNodeGroup = (\<lambda>ng s. (Inl (NewAutoscalerError InternalError ''node group creation is off''), s)),
     su_FindSimilar = (\<lambda>ng infs. Some (Inr [])), su_Balance = BalanceScaleUpBetweenGroups sort_infos,
     su_MaxNodesTotal = 10, su_BalanceSimilarNodeGroups = True, su_MaxNodeProvisionTime = minute, su_now = hour\<rparr>"

abbreviation su_pods :: "pod list" where
  "su_pods \<equiv> [replica_pod ''web'' 2, replica_pod ''huge'' 9]"

lemma su_env_simps [simp]:
  "su_view su_env = provider_view" "su_ops su_env = silent_ops" "su_ResourceLimiter su_env = Inr cores_limiter"
  "su_build su_env = bare_info" "su_TemplateNodeInfo su_env = su_template" "su_template_node su_env = node_template"
  "su_daemonSets su_env = []" "su_rands su_env = (\<lambda>gid. (7, \<lambda>k. 0))" "su_visit_delta su_env = rev" "su_PredicateChecker su_env = su_checker"
  "su_visit su_env = (\<lambda>xs. xs)" "su_ProcessGroups su_env = (\<lambda>groups infs ps. Inr (groups, infs))"
  "su_Estimate su_env = BinpackingEstimate (passes demo_checker None) sort_scores"
  "su_BestOption su_env = MostPodsBestOption (\<lambda>n. 0)" "su_FindSimilar su_env = (\<lambda>ng infs. Some (Inr []))"
  "su_Balance su_env = BalanceScaleUpBetweenGroups sort_infos" "su_MaxNodesTotal su_env = 10"
  "su_BalanceSimilarNodeGroups su_env" "su_MaxNodeProvisionTime su_env = minute" "su_now su_env = hour"
  by (simp_all add: su_env_def)

lemma su_group_simps [simp]:
  "ng_Id su_group = ''pool''" "ng_MaxSize su_group = 5" "ng_TargetSize su_group = Inr 1" "ng_Exist su_group"
  by (simp_all add: su_group_def)

lemma su_check [simp]: "CheckPredicates su_checker p None info = CheckPredicates demo_checker p None info"
  by (simp add: su_checker_def SetAffinityPredicateEnabled_def CheckPredicates_def demo_predicates demo_enabled
      affinityPredicateName_def split: option.split)

lemma su_passes [simp]: "passes su_checker None p info = passes demo_checker None p info"
  by (simp add: passes_def)

lemma su_state_view:
  "provider_view su_state = \<lparr>cp_NodeGroups = [su_group], cp_NodeGroupForNode = TestNodeGroupForNode su_state\<rparr>"
  "TestNodeGroupForNode su_state n = Inr (if n_Name n = ''n1'' then Some su_group else None)"
  by (simp_all add: provider_view_def TestNodeGroups_def su_state_def AddNode_def AddNodeGroup_def
      InsertNodeGroup_def BuildNodeGroup_def NewTestCloudProvider_def group_view_def TestNodes_def working_node_def mput_def
      TestNodeGroupForNode_def su_group_def)

definition su_node :: node where
  "su_node = sanitizeTemplateNode 7 (working_node ''template'' 2) ''pool''"

definition su_info :: nodeInfo where
  "su_info = \<lparr>ni_Node = Some su_node, ni_Pods = []\<rparr>"

lemma su_node_facts:
  "IsNodeReadyAndSchedulable su_node" "n_Allocatable su_node = [(''cpu'', NewQuantity 2)]"
  "n_Capacity su_node = [(''cpu'', NewQuantity 2)]"
  using working_ready [of "''template''" 2]
  by (simp_all add: su_node_def sanitizeTemplateNode_def Let_def working_node_def empty_node_def IsNodeReadyAndSchedulable_def
      nodeIsReady_iff blocks_readiness_def)

lemma su_nodes_names: "n_Name (working_node name cores) = name"
  by (simp add: working_node_def)

lemma su_from_template: "GetNodeInfoFromTemplate su_checker su_template [] (\<lambda>gid. (7, \<lambda>k. 0)) su_group = Some (Inr su_info)"
  by (simp add: GetNodeInfoFromTemplate_def su_template_def GetDaemonSetPodsForNode_def sanitizeNodeInfo_def Let_def su_info_def
      su_node_def NewNodeInfo_def)

lemma su_infos:
  "GetNodeInfosForGroups (provider_view su_state) bare_info (GetNodeInfoFromTemplate su_checker su_template [] (\<lambda>gid. (7, \<lambda>k. 0)))
     (\<lambda>gid. 7) su_nodes = Some (Inr [(''pool'', su_info)])"
  by (simp add: GetNodeInfosForGroups_def ready_node_step_def process_node_def su_state_view working_ready su_nodes_names
      su_nodes_def su_from_template mput_def template_step_def mhas_def last_resort_step_def)

lemma su_cores: "getNodeCoresAndMemory su_node = (2, 0)"
  by (simp add: getNodeCoresAndMemory_def getNodeResource_def su_node_facts)

lemma su_left:
  "computeScaleUpResourcesLeftLimits node_template [su_group] [(''pool'', su_info)] su_nodes cores_limiter = Some (Inr [(''cpu'', 7)])"
proof -
  have w: "i64 1 = 1" "i64 2 = 2" "i64 3 = 3" "i64 7 = 7" "i64 0 = 0"
    by (rule i64_id, simp add: in_i64_def minInt64_def maxInt64_def)+
  have m1: "getNodeCoresAndMemory (working_node ''m1'' 1) = (1, 0)"
    by (simp add: getNodeCoresAndMemory_def getNodeResource_def working_node_def)
  have "calculateScaleUpCoresMemoryTotal [su_group] [(''pool'', su_info)] su_nodes = Some (Inr (3, 0))"
    by (simp add: calculateScaleUpCoresMemoryTotal_def group_total_step_def getNodeInfoCoresAndMemory_def su_info_def su_cores w
        su_nodes_def add_node_total_def m1)
  moreover have "\<not> ContainsGpuResources [''cpu'']"
    by (simp add: ContainsGpuResources_def IsGpuResource_def ResourceNameCores_def)
  ultimately show ?thesis
    by (simp add: computeScaleUpResourcesLeftLimits_def cores_limiter_resources left_step_def ResourceNameCores_def
        computeBelowMax_def w mput_def)
qed

text \<open>A registry that is ready for the scale-up.\<close>

definition su_ready :: "clusterStateRegistry \<Rightarrow> bool" where
  "su_ready csr \<longleftrightarrow> IsNodeGroupSafeToScaleUp csr su_group hour \<and> GetUpcomingNodes csr = []"

lemma su_registry_ready: "su_ready su_registry"
proof -
  have "IsNodeGroupHealthy su_registry ''pool''"
    by (simp add: IsNodeGroupHealthy_def su_registry_def zeroReadiness_def NewClusterStateRegistry_def Let_def)
  moreover have "\<not> IsBackedOff (csr_nodeGroupBackoffInfo su_registry) su_group hour"
    by (simp add: su_registry_def NewClusterStateRegistry_def NewExponentialBackoff_def IsBackedOff_def)
  ultimately have "IsNodeGroupSafeToScaleUp su_registry su_group hour" by (simp add: IsNodeGroupSafeToScaleUp_def)
  moreover have "GetUpcomingNodes su_registry = []"
    by (simp add: GetUpcomingNodes_def su_registry_def NewClusterStateRegistry_def su_state_view mget0_def zeroReadiness_def
        Let_def)
  ultimately show ?thesis by (simp add: su_ready_def)
qed

definition su_input :: scaleUpInput where
  "su_input = \<lparr>in_groups = [su_group], in_infos = [(''pool'', su_info)], in_limiter = cores_limiter, in_left = [(''cpu'', 7)],
     in_upcoming = []\<rparr>"

lemma su_prepare:
  assumes "su_ready csr"
  shows "prepare su_env (provider_view su_state) csr su_pods su_nodes = Some (Inr su_input)"
proof -
  have "FilterOutNodesFromNotAutoscaledGroups (provider_view su_state) su_nodes = Inr su_nodes"
    by (simp add: su_state_view su_nodes_def su_nodes_names)
  moreover have "cp_NodeGroups (provider_view su_state) = [su_group]" by (simp add: su_state_view)
  ultimately show ?thesis using assms
    by (simp add: prepare_def su_infos prefixed_def ebind_def su_left su_ready_def su_input_def)
qed

section \<open>The run\<close>

lemma su_delta: "computeScaleUpResourcesDelta node_template su_info ng cores_limiter = Some (Inr [(''cpu'', 2), (''memory'', 0)])"
  by (simp add: computeScaleUpResourcesDelta_def su_info_def su_cores Let_def cores_limiter_resources ContainsGpuResources_def
      IsGpuResource_def ResourceNameCores_def ResourceNameMemory_def mput_def)

lemma su_not_skipped:
  "su_ready csr \<Longrightarrow> skip_reason su_env csr [(''pool'', su_info)] [(''cpu'', 7)] cores_limiter su_group = Some None"
  by (simp add: skip_reason_def su_ready_def su_delta checkScaleUpDeltaWithinLimits_def exceeds_up_def scaleUpLimitUnknown_def
      maxInt64_def)

lemma su_checks:
  "CheckPredicates demo_checker (replica_pod name 2) None su_info = Some None"
  "\<exists>err. CheckPredicates demo_checker (replica_pod name 9) None su_info = Some (Some err)"
  by (simp_all add: CheckPredicates_def demo_predicates demo_enabled cpu_predicate_def su_info_def replica_request
      su_node_facts isNodeReadyAndSchedulablePredicate_def NewQuantity_def mget0_def)

lemma replica_quantity_differs: "NewQuantity m \<noteq> NewQuantity n \<Longrightarrow> \<not> similar_pods (replica_pod a m) (replica_pod b n)"
  using replica_similar by blast

lemma su_pods_differ: "replica_pod ''web'' m \<noteq> replica_pod ''huge'' n"
proof -
  have "pod_Name (replica_pod ''web'' m) \<noteq> pod_Name (replica_pod ''huge'' n)" by (simp add: replica_pod_def)
  then show ?thesis by metis
qed

lemma su_check_pods:
  "\<exists>err. CheckPodsSchedulableOnNode su_checker su_pods su_info =
     Some [(replica_pod ''web'' 2, None), (replica_pod ''huge'' 9, Some err)]"
proof -
  obtain err where err: "CheckPredicates demo_checker (replica_pod ''huge'' 9) None su_info = Some (Some err)"
    using su_checks(2) by blast
  have miss: "cache_get (cache_set (replica_pod ''web'' 2) None []) (replica_pod ''huge'' 9) = None"
    by (simp add: cache_get_def cache_set_def psi_match_def replica_pod_def owned_pod_def ControllerRef_def mget0_def spec_equal_def
       container_equal_def spec_of_def mequal_def NewQuantity_def)
  show ?thesis
    by (simp add: CheckPodsSchedulableOnNode_def psm.look_fresh su_checks(1) err miss mput_def su_pods_differ)
qed


definition su_option :: expOption where
  "su_option = \<lparr>eo_NodeGroup = su_group, eo_NodeCount = 1, eo_Pods = [replica_pod ''web'' 2]\<rparr>"

lemma su_estimate: "BinpackingEstimate (passes demo_checker None) sort_scores [replica_pod ''web'' 2] su_info [] = Some 1"
  by (simp add: BinpackingEstimate_def su_info_def pack_def pack_step_def sort_scores_def calculatePodScore_def)

lemma su_options:
  assumes "su_ready csr"
  shows "\<exists>os. expansion_options su_env csr su_input su_pods = Some (Inr os) \<and> os_options os = [su_option] \<and>
     mkeys (os_remain os) = [replica_pod ''huge'' 9]"
proof -
  obtain err where err: "CheckPodsSchedulableOnNode su_checker su_pods su_info =
      Some [(replica_pod ''web'' 2, None), (replica_pod ''huge'' 9, Some err)]"
    using su_check_pods by blast
  show ?thesis
    by (simp add: expansion_options_def su_input_def option_step_def su_not_skipped [OF assms] getPodsPassingPredicates_def
        getPodsNotPassingPredicates_def ensure_cached_def computeCaches_def empty_cache_def err passing_of_def mhas_def
        add_option_def mget0_def su_estimate Let_def su_option_def initial_remaining_def add_rejections_def mkeys_def mput_def mdel_def su_pods_differ su_pods_differ [symmetric] mget_def)
qed


definition su_plan :: "scaleUpInfo list" where
  "su_plan = [\<lparr>si_Group = su_group, si_CurrentSize = 1, si_NewSize = 2, si_MaxSize = 5\<rparr>]"

lemma su_balance: "BalanceScaleUpBetweenGroups sort_infos [su_group] 1 = Some (Inr su_plan)"
  by (simp add: BalanceScaleUpBetweenGroups_def sort_infos_def totalCapacity_def su_plan_def grow_def next_index_def
      changed_def Let_def balance_loop.simps)

lemma su_resources: "applyScaleUpResourcesLimits rev node_template 1 [(''cpu'', 7)] su_info su_group cores_limiter = Some (Inr 1)"
proof -
  have "i64 2 = 2" by (rule i64_id) (simp add: in_i64_def minInt64_def maxInt64_def)
  then show ?thesis
    by (simp add: applyScaleUpResourcesLimits_def su_delta cap_step_def scaleUpLimitUnknown_def maxInt64_def)
qed

lemma su_best: "MostPodsBestOption (\<lambda>n. 0) [su_option] infs = Some (Some su_option)"
  by (simp add: MostPodsBestOption_def most_pods_step_def RandomBestOption_def su_option_def)

lemma su_increase: "go_IncreaseSize silent_ops gid d s = (None, change_target gid d s)"
  by (simp add: silent_ops_def test_ops_def TestIncreaseSize_def)

text \<open>What the run leaves in the registry.\<close>

definition su_registered :: "clusterStateRegistry \<Rightarrow> clusterStateRegistry \<Rightarrow> bool" where
  "su_registered csr csr' \<longleftrightarrow> csr_config csr' = csr_config csr \<and>
     csr_scaleDownRequests csr' = csr_scaleDownRequests csr \<and>
     (csr_scaleUpRequests csr = [] \<longrightarrow> (\<exists>req. csr_scaleUpRequests csr' = [(''pool'', req)]))"

lemma su_run:
  assumes "su_ready csr"
  obtains st csr' where
    "ScaleUp su_env csr su_pods su_nodes su_state =
       Some ((st, None), csr', change_target ''pool'' 1 su_state)"
    "WasSuccessful st" "sus_ScaleUpInfos st = su_plan" "sus_PodsTriggeredScaleUp st = [replica_pod ''web'' 2]"
    "map nsu_Pod (sus_PodsRemainUnschedulable st) = [replica_pod ''huge'' 9]" "su_registered csr csr'"
proof -
  obtain os where os: "expansion_options su_env csr su_input su_pods = Some (Inr os)" "os_options os = [su_option]"
    "mkeys (os_remain os) = [replica_pod ''huge'' 9]"
    using su_options [OF assms] by blast
  have cap: "cap_total su_env su_nodes 1 = Inr 1" by (simp add: cap_total_def su_nodes_def)
  have create: "create_group su_env su_group infs csr s = (Some (Inr (su_group, infs)), csr, s)" for infs s
    by (simp add: create_group_def)
  have plan: "scale_up_plan su_env csr su_input su_pods (os_cache os) 1 (su_group, in_infos su_input)
      [replica_pod ''web'' 2] = Some (Inr su_plan)"
    by (simp add: scale_up_plan_def su_input_def ebind_def su_resources target_groups_def prefixed_def su_balance)
  obtain csr2 where exec: "execute_all su_env (csr, su_state) su_plan = (None, csr2, change_target ''pool'' 1 su_state)"
    and csr2: "su_registered csr csr2"
    by (simp add: su_plan_def executeScaleUp_def su_increase su_registered_def RegisterScaleUp_def mput_def Let_def)
  have infos: "in_infos su_input = [(''pool'', su_info)]" by (simp add: su_input_def)
  obtain st csr' where run: "scale_up_option su_env su_input os su_pods su_nodes su_option csr su_state =
       Some ((st, None), csr', change_target ''pool'' 1 su_state)"
    "sus_Result st = ScaleUpSuccessful" "sus_ScaleUpInfos st = su_plan" "sus_PodsTriggeredScaleUp st = [replica_pod ''web'' 2]"
    "sus_PodsRemainUnschedulable st = getRemainingPods (os_remain os) (os_skipped os)"
    "csr' = Recalculate (csr2\<lparr>csr_cloudProvider := provider_view (change_target ''pool'' 1 su_state)\<rparr>)"
    by (simp add: scale_up_option_def su_option_def cap create plan exec)
  have "su_registered csr csr'"
    using csr2 by (simp add: run(6) su_registered_def Recalculate_def updateAcceptableRanges_def Let_def)
  have "map nsu_Pod (getRemainingPods (os_remain os) (os_skipped os)) = mkeys (os_remain os)"
    by (simp add: getRemainingPods_def mkeys_def split_def)
  moreover note \<open>su_registered csr csr'\<close>
  moreover have "ScaleUp su_env csr su_pods su_nodes su_state =
       Some ((st, None), csr', change_target ''pool'' 1 su_state)"
  proof -
    have "0 < eo_NodeCount su_option" by (simp add: su_option_def)
    then show ?thesis by (simp add: ScaleUp_def su_prepare [OF assms] os su_best run(1))
  qed
  ultimately show thesis using that run os(3) by (simp add: WasSuccessful_def)
qed

end
