(* ===== verification/ScaleUpProps.thy ===== *)
theory ScaleUpProps
  imports ScaleUpDemo
begin

text \<open>
  What a scale-up guarantees, from the contracts of its parts: the expander is a \<open>strategy\<close>, the balancing
  sorts by \<open>sort_contract\<close>, and the cloud's groups are \<open>node_groups\<close>.
\<close>

section \<open>A successful scale-up, taken apart\<close>

lemma ebind_SomeInr: "ebind r f = Some (Inr y) \<longleftrightarrow> (\<exists>x. r = Some (Inr x) \<and> f x = Some (Inr y))"
  by (simp add: ebind_def split: option.split sum.split)

lemma prefixed_SomeInr: "prefixed prefix r = Some (Inr y) \<longleftrightarrow> r = Some (Inr y)"
proof (cases r)
  case (Some x)
  then show ?thesis by (cases x) (simp_all add: prefixed_def)
qed (simp add: prefixed_def)

lemma plain_not_successful:
  "sus_Result (plain_status r) = r" "sus_Result ((plain_status r)\<lparr>sus_PodsRemainUnschedulable := x\<rparr>) = r"
  by (simp_all add: plain_status_def)

lemma scale_up_option_success:
  assumes "scale_up_option env inp os pods nodes opt csr s = Some ((st, None), csr', s')"
  obtains newNodes ng infs csr1 s1 plan csr2 where
    "cap_total env nodes (eo_NodeCount opt) = Inr newNodes"
    "create_group env (eo_NodeGroup opt) (in_infos inp) csr s = (Some (Inr (ng, infs)), csr1, s1)"
    "scale_up_plan env csr1 inp pods (os_cache os) newNodes (ng, infs) (eo_Pods opt) = Some (Inr plan)"
    "execute_all env (csr1, s1) plan = (None, csr2, s')"
    "st = \<lparr>sus_Result = ScaleUpSuccessful, sus_ScaleUpInfos = plan, sus_PodsTriggeredScaleUp = eo_Pods opt,
       sus_PodsRemainUnschedulable = getRemainingPods (os_remain os) (os_skipped os),
       sus_PodsAwaitEvaluation = getPodsAwaitingEvaluation pods (os_remain os) (eo_Pods opt)\<rparr>"
    "csr' = Recalculate (csr2\<lparr>csr_cloudProvider := su_view env s'\<rparr>)"
proof -
  obtain newNodes where n: "cap_total env nodes (eo_NodeCount opt) = Inr newNodes"
    using assms by (auto simp: scale_up_option_def failed_def split: sum.splits)
  obtain r csr1 s1 where c: "create_group env (eo_NodeGroup opt) (in_infos inp) csr s = (r, csr1, s1)"
    by (cases "create_group env (eo_NodeGroup opt) (in_infos inp) csr s") auto
  obtain created where r: "r = Some (Inr created)"
    using assms n c by (auto simp: scale_up_option_def failed_def split: option.splits sum.splits)
  obtain plan where p: "scale_up_plan env csr1 inp pods (os_cache os) newNodes created (eo_Pods opt) = Some (Inr plan)"
    using assms n c r by (auto simp: scale_up_option_def failed_def split: option.splits sum.splits)
  obtain e csr2 s2 where x: "execute_all env (csr1, s1) plan = (e, csr2, s2)"
    by (cases "execute_all env (csr1, s1) plan") auto
  have e: "e = None" using assms n c r p x by (auto simp: scale_up_option_def failed_def split: option.splits)
  show thesis
    by (rule that [of newNodes "fst created" "snd created" csr1 s1 plan csr2])
      (use assms n c r p x e in \<open>auto simp: scale_up_option_def\<close>)
qed

lemma ScaleUp_success:
  assumes "ScaleUp env csr pods nodes s = Some ((st, None), csr', s')" "WasSuccessful st"
  obtains inp os opt where "pods \<noteq> []" "prepare env (su_view env s) csr pods nodes = Some (Inr inp)"
    "expansion_options env csr inp pods = Some (Inr os)" "os_options os \<noteq> []"
    "su_BestOption env (os_options os) (in_infos inp) = Some (Some opt)" "0 < eo_NodeCount opt"
    "scale_up_option env inp os pods nodes opt csr s = Some ((st, None), csr', s')"
proof -
  have ok: "sus_Result st = ScaleUpSuccessful" using assms(2) by (simp add: WasSuccessful_def)
  have pods: "pods \<noteq> []" using assms(1) ok by (auto simp: ScaleUp_def plain_not_successful)
  obtain inp where i: "prepare env (su_view env s) csr pods nodes = Some (Inr inp)"
    using assms(1) pods by (auto simp: ScaleUp_def failed_def split: option.splits sum.splits)
  obtain os where o: "expansion_options env csr inp pods = Some (Inr os)"
    using assms(1) pods i by (auto simp: ScaleUp_def failed_def split: option.splits sum.splits)
  have ne: "os_options os \<noteq> []"
    using assms(1) pods i o ok by (auto simp: ScaleUp_def plain_not_successful Let_def split: if_splits)
  obtain b where b: "su_BestOption env (os_options os) (in_infos inp) = Some b"
    using assms(1) pods i o ne by (auto simp: ScaleUp_def Let_def split: option.splits)
  obtain opt where opt: "b = Some opt"
    using assms(1) pods i o ne b ok by (cases b) (auto simp: ScaleUp_def plain_not_successful Let_def)
  have "0 < eo_NodeCount opt"
    using assms(1) pods i o ne b opt ok
    by (auto simp: ScaleUp_def plain_not_successful Let_def split: if_splits)
  with pods i o ne b opt assms(1) show thesis by (intro that) (simp_all add: ScaleUp_def Let_def)
qed

section \<open>Expansion options\<close>

definition option_ok ::
  "('m, 's) scaleUpEnv \<Rightarrow> clusterStateRegistry \<Rightarrow> scaleUpInput \<Rightarrow> expOption \<Rightarrow> bool" where
  "option_ok env csr inp o1 \<longleftrightarrow>
     eo_NodeGroup o1 \<in> set (in_groups inp) \<and>
     skip_reason env csr (in_infos inp) (in_left inp) (in_limiter inp) (eo_NodeGroup o1) = Some None \<and>
     0 < eo_NodeCount o1 \<and>
     (\<exists>info. mget (in_infos inp) (ng_Id (eo_NodeGroup o1)) = Some info \<and>
        su_Estimate env (eo_Pods o1) info (in_upcoming inp) = Some (eo_NodeCount o1))"

lemma considered_group:
  assumes "skip_reason env csr infs left limiter ng = Some None"
  obtains info delta n where "mget infs (ng_Id ng) = Some info" "ng_TargetSize ng = Inr n" "n < ng_MaxSize ng"
    "computeScaleUpResourcesDelta (su_template_node env) info ng limiter = Some (Inr delta)"
    "checkScaleUpDeltaWithinLimits left delta = []"
    "ng_Exist ng \<Longrightarrow> IsNodeGroupSafeToScaleUp csr ng (su_now env)"
proof -
  obtain n where n: "ng_TargetSize ng = Inr n" using assms by (auto simp: skip_reason_def split: if_splits sum.splits)
  obtain info where i: "mget infs (ng_Id ng) = Some info"
    using assms n by (auto simp: skip_reason_def split: if_splits option.splits)
  obtain r where r: "computeScaleUpResourcesDelta (su_template_node env) info ng limiter = Some r"
    using assms n i by (auto simp: skip_reason_def split: if_splits option.splits)
  then obtain delta where "r = Inr delta" using assms n i by (cases r) (auto simp: skip_reason_def split: if_splits)
  with n i r assms show thesis by (intro that) (auto simp: skip_reason_def split: if_splits)
qed

lemma add_option_options:
  assumes "add_option env infs upcoming ng passing notPassing st = Some st'"
  shows "os_options st' = os_options st \<or>
     (\<exists>n. 0 < n \<and> su_Estimate env passing (mget0 (NewNodeInfo []) infs (ng_Id ng)) upcoming = Some n \<and> passing \<noteq> [] \<and>
        os_options st' = os_options st @ [\<lparr>eo_NodeGroup = ng, eo_NodeCount = n, eo_Pods = passing\<rparr>])"
  using assms by (auto simp: add_option_def Let_def split: if_splits)

lemma option_step_cases:
  assumes "option_step env csr infs left limiter upcoming pods st ng = Some (Inr st')"
  obtains (skipped) r cache where "st' = skip ng r (st\<lparr>os_cache := cache\<rparr>)"
      "os_cache st = cache \<or> (\<exists>x. getPodsPassingPredicates env pods infs (ng_Id ng) (os_cache st) = Some (x, cache)) \<or>
       (\<exists>x y c. getPodsPassingPredicates env pods infs (ng_Id ng) (os_cache st) = Some (x, c) \<and>
          getPodsNotPassingPredicates env pods infs (ng_Id ng) c = Some (y, cache))"
    | (considered) passing cache notPassing cache' where
        "skip_reason env csr infs left limiter ng = Some None"
        "getPodsPassingPredicates env pods infs (ng_Id ng) (os_cache st) = Some (Inr passing, cache)"
        "getPodsNotPassingPredicates env pods infs (ng_Id ng) cache = Some (Inr notPassing, cache')"
        "add_option env infs upcoming ng passing notPassing (st\<lparr>os_cache := cache'\<rparr>) = Some st'"
proof -
  obtain sr where sr: "skip_reason env csr infs left limiter ng = Some sr"
    using assms by (auto simp: option_step_def split: option.splits)
  show thesis
  proof (cases sr)
    case (Some r)
    then show thesis using assms sr by (intro skipped [of r "os_cache st"]) (simp_all add: option_step_def skip_def)
  next
    case None
    obtain x cache where x: "getPodsPassingPredicates env pods infs (ng_Id ng) (os_cache st) = Some (x, cache)"
      using assms sr None by (auto simp: option_step_def split: option.splits)
    show thesis
    proof (cases x)
      case (Inl e)
      then show thesis using assms sr None x by (intro skipped [of notReadyReason cache]) (simp_all add: option_step_def)
    next
      case (Inr passing)
      obtain y cache' where y: "getPodsNotPassingPredicates env pods infs (ng_Id ng) cache = Some (y, cache')"
        using assms sr None x Inr by (auto simp: option_step_def split: option.splits)
      show thesis
      proof (cases y)
        case (Inl e)
        then show thesis using assms sr None x Inr y
          by (intro skipped [of notReadyReason cache']) (auto simp: option_step_def)
      next
        case (Inr np)
        then show thesis using assms sr None x \<open>x = Inr passing\<close> y
          by (intro considered) (auto simp: option_step_def)
      qed
    qed
  qed
qed

lemma options_ok:
  assumes "expansion_options env csr inp pods = Some (Inr os)"
  shows "\<forall>o1\<in>set (os_options os). option_ok env csr inp o1"
proof -
  let ?P = "\<lambda>st. \<forall>o1\<in>set (os_options st). option_ok env csr inp o1"
  have "?P os"
  proof (rule floop_inv [where P = ?P, OF assms [unfolded expansion_options_def]])
    fix st ng st'
    assume ng: "ng \<in> set (in_groups inp)" and P: "?P st"
      and step: "option_step env csr (in_infos inp) (in_left inp) (in_limiter inp) (in_upcoming inp) pods st ng = Some (Inr st')"
    from step show "?P st'"
    proof (cases rule: option_step_cases)
      case skipped
      with P show ?thesis by (simp add: skip_def)
    next
      case (considered passing cache notPassing cache')
      obtain info where info: "mget (in_infos inp) (ng_Id ng) = Some info" using considered_group [OF considered(1)] by blast
      then have "mget0 (NewNodeInfo []) (in_infos inp) (ng_Id ng) = info" by (simp add: mget0_Some)
      with add_option_options [OF considered(4)] P ng considered(1) info show ?thesis
        by (auto simp: option_ok_def)
    qed
  qed simp
  then show ?thesis .
qed

lemma best_option_ok:
  assumes "strategy (su_BestOption env)" "expansion_options env csr inp pods = Some (Inr os)"
    and "su_BestOption env (os_options os) (in_infos inp) = Some (Some opt)"
  shows "option_ok env csr inp opt"
  using strategy.best_member [OF assms(1,3)] options_ok [OF assms(2)] by blast

section \<open>The pods of an option\<close>

lemma length_mput: "length (mput k v m) \<le> Suc (length m)"
  unfolding mput_def by (induction m) auto

lemma schedulable_length:
  assumes "schedulable_on_node_loop pc info cache acc qs = Some result"
  shows "length result \<le> length acc + length qs"
  using assms
proof (induction qs arbitrary: cache acc)
  case (Cons q qs)
  then obtain cache' err where "schedulable_on_node_loop pc info cache' (mput q err acc) qs = Some result"
    by (auto split: option.splits)
  from Cons.IH [OF this] length_mput [of q err acc] show ?case by simp
qed simp

definition passing_short :: "pod list \<Rightarrow> passingCache \<Rightarrow> bool" where
  "passing_short pods cache \<longleftrightarrow> (\<forall>gid ps. mget (pa_passing cache) gid = Some ps \<longrightarrow> length ps \<le> length pods)"

lemma computeCaches_short:
  assumes "\<And>xs. length (su_visit env xs) = length xs"
    and "passing_short pods cache" "computeCaches env pods infs gid cache = Some cache'"
  shows "passing_short pods cache'"
proof (cases "mget infs gid")
  case None
  with assms(2,3) show ?thesis by (auto simp: computeCaches_def passing_short_def)
next
  case (Some info)
  then obtain res where res: "CheckPodsSchedulableOnNode (su_PredicateChecker env) pods info = Some res"
    and pass: "pa_passing cache' = mput gid (passing_of (su_visit env res)) (pa_passing cache)"
    using assms(3) by (auto simp: computeCaches_def)
  have "length (passing_of (su_visit env res)) \<le> length res"
    unfolding passing_of_def using length_filter_le [of _ "su_visit env res"] by (simp add: assms(1))
  also have "\<dots> \<le> length pods"
    using schedulable_length [OF res [unfolded CheckPodsSchedulableOnNode_def]] by simp
  finally show ?thesis using assms(2) by (auto simp: passing_short_def pass)
qed

lemma passing_cached_short:
  assumes "\<And>xs. length (su_visit env xs) = length xs" "passing_short pods cache"
  shows "getPodsPassingPredicates env pods infs gid cache = Some (x, cache') \<Longrightarrow>
      passing_short pods cache' \<and> (\<forall>ps. x = Inr ps \<longrightarrow> length ps \<le> length pods)"
    and "getPodsNotPassingPredicates env pods infs gid cache = Some (y, cache') \<Longrightarrow> passing_short pods cache'"
proof -
  have ok: "passing_short pods c" if "computeCaches env pods infs k cache = Some c" for k c
    by (rule computeCaches_short [OF assms that])
  show "getPodsPassingPredicates env pods infs gid cache = Some (x, cache') \<Longrightarrow>
      passing_short pods cache' \<and> (\<forall>ps. x = Inr ps \<longrightarrow> length ps \<le> length pods)"
    using ok assms(2)
    by (auto simp: getPodsPassingPredicates_def ensure_cached_def passing_short_def split: if_splits option.splits)
  show "getPodsNotPassingPredicates env pods infs gid cache = Some (y, cache') \<Longrightarrow> passing_short pods cache'"
    using ok assms(2) by (auto simp: getPodsNotPassingPredicates_def ensure_cached_def split: if_splits)
qed

lemma options_short:
  assumes "\<And>xs. length (su_visit env xs) = length xs" "expansion_options env csr inp pods = Some (Inr os)"
  shows "\<forall>o1\<in>set (os_options os). length (eo_Pods o1) \<le> length pods"
proof -
  let ?P = "\<lambda>st. passing_short pods (os_cache st) \<and> (\<forall>o1\<in>set (os_options st). length (eo_Pods o1) \<le> length pods)"
  have "?P os"
  proof (rule floop_inv [where P = ?P, OF assms(2) [unfolded expansion_options_def]])
    fix st ng st'
    assume P: "?P st"
      and step: "option_step env csr (in_infos inp) (in_left inp) (in_limiter inp) (in_upcoming inp) pods st ng = Some (Inr st')"
    note cached = passing_cached_short [OF assms(1)]
    from step show "?P st'"
    proof (cases rule: option_step_cases)
      case (skipped r cache)
      then have "passing_short pods cache" using cached P by blast
      then show ?thesis using P by (simp add: skipped(1) skip_def)
    next
      case (considered passing cache notPassing cache')
      have c: "passing_short pods cache" "length passing \<le> length pods"
        using cached(1) [OF conjunct1 [OF P] considered(2)] by auto
      have "passing_short pods cache'" using cached(2) [OF c(1) considered(3)] .
      moreover have "os_cache st' = cache'"
        using considered(4) by (auto simp: add_option_def Let_def split: if_splits)
      ultimately show ?thesis using add_option_options [OF considered(4)] P c(2) by auto
    qed
  qed (simp add: passing_short_def empty_cache_def)
  then show ?thesis by blast
qed

section \<open>The plan\<close>

definition planned_increase :: "scaleUpInfo list \<Rightarrow> int" where
  "planned_increase plan = sum_list (map (\<lambda>i. si_NewSize i - si_CurrentSize i) plan)"

lemma target_groups_safe:
  assumes "target_groups env csr pods infs cache ng optionPods = Some (Inr groups)"
  obtains rest where "groups = ng # rest" "\<forall>g\<in>set rest. IsNodeGroupSafeToScaleUp csr g (su_now env)"
  using assms by (auto simp: target_groups_def ebind_SomeInr split: if_splits)

lemma balance_ok:
  assumes "BalanceScaleUpBetweenGroups srt groups n = Some (Inr plan)" "sort_contract srt si_CurrentSize"
  shows "0 \<le> planned_increase plan \<and> planned_increase plan \<le> max 0 n \<and>
     (\<forall>i\<in>set plan. si_Group i \<in> set groups \<and> ng_TargetSize (si_Group i) = Inr (si_CurrentSize i) \<and>
        si_CurrentSize i < si_NewSize i \<and> si_NewSize i \<le> ng_MaxSize (si_Group i))"
    and "distinct (map ng_Id groups) \<Longrightarrow> distinct (map (\<lambda>i. ng_Id (si_Group i)) plan)"
proof -
  obtain infos where infos: "collect_infos groups = Inr infos"
    using assms(1) by (auto simp: BalanceScaleUpBetweenGroups_def split: if_splits sum.splits)
  show "0 \<le> planned_increase plan \<and> planned_increase plan \<le> max 0 n \<and>
     (\<forall>i\<in>set plan. si_Group i \<in> set groups \<and> ng_TargetSize (si_Group i) = Inr (si_CurrentSize i) \<and>
        si_CurrentSize i < si_NewSize i \<and> si_NewSize i \<le> ng_MaxSize (si_Group i))"
    using balanced_plan [OF assms(2,1) infos] by (simp add: planned_increase_def)
  show "distinct (map ng_Id groups) \<Longrightarrow> distinct (map (\<lambda>i. ng_Id (si_Group i)) plan)"
    by (rule balanced_plan_distinct [OF assms(2,1) infos])
qed

lemma cap_total_bounds:
  assumes "cap_total env nodes k = Inr n" "1 \<le> k"
  shows "1 \<le> n \<and> n \<le> k \<and> (0 < su_MaxNodesTotal env \<longrightarrow> int (length nodes) + n \<le> su_MaxNodesTotal env)"
  using assms by (auto simp: cap_total_def Let_def split: if_splits)

lemma plan_facts:
  assumes "option_ok env csr inp opt" "ng_Exist (eo_NodeGroup opt)"
    and "cap_total env nodes (eo_NodeCount opt) = Inr newNodes"
    and "create_group env (eo_NodeGroup opt) (in_infos inp) csr s = (Some (Inr (ng, infs)), csr1, s1)"
    and "scale_up_plan env csr1 inp pods cache newNodes (ng, infs) (eo_Pods opt) = Some (Inr plan)"
  obtains info delta n groups where "ng = eo_NodeGroup opt" "infs = in_infos inp" "csr1 = csr" "s1 = s"
    "mget (in_infos inp) (ng_Id ng) = Some info" "in_infos inp = infs"
    "computeScaleUpResourcesDelta (su_template_node env) info ng (in_limiter inp) = Some (Inr delta)"
    "applyScaleUpResourcesLimits (su_visit_delta env) (su_template_node env) newNodes (in_left inp) info ng (in_limiter inp) = Some (Inr n)"
    "\<forall>g\<in>set groups. IsNodeGroupSafeToScaleUp csr g (su_now env)"
    "su_Balance env groups n = Some (Inr plan)"
proof -
  have same: "ng = eo_NodeGroup opt" "infs = in_infos inp" "csr1 = csr" "s1 = s"
    using assms(2,4) by (simp_all add: create_group_def)
  have skip: "skip_reason env csr (in_infos inp) (in_left inp) (in_limiter inp) (eo_NodeGroup opt) = Some None"
    using assms(1) by (simp add: option_ok_def)
  obtain info delta where info: "mget (in_infos inp) (ng_Id (eo_NodeGroup opt)) = Some info"
    "computeScaleUpResourcesDelta (su_template_node env) info (eo_NodeGroup opt) (in_limiter inp) = Some (Inr delta)"
    "IsNodeGroupSafeToScaleUp csr (eo_NodeGroup opt) (su_now env)"
    using considered_group [OF skip] assms(2) by metis
  have "\<exists>n groups. applyScaleUpResourcesLimits (su_visit_delta env) (su_template_node env) newNodes (in_left inp) info
        (eo_NodeGroup opt) (in_limiter inp) = Some (Inr n) \<and>
      target_groups env csr pods (in_infos inp) cache (eo_NodeGroup opt) (eo_Pods opt) = Some (Inr groups) \<and>
      su_Balance env groups n = Some (Inr plan)"
    using assms(5) info(1) unfolding same scale_up_plan_def by (simp only: prod.case option.case ebind_SomeInr) blast
  then obtain n groups where n: "applyScaleUpResourcesLimits (su_visit_delta env) (su_template_node env) newNodes (in_left inp) info
        (eo_NodeGroup opt) (in_limiter inp) = Some (Inr n)"
    and groups: "target_groups env csr pods (in_infos inp) cache (eo_NodeGroup opt) (eo_Pods opt) = Some (Inr groups)"
    and bal: "su_Balance env groups n = Some (Inr plan)"
    by blast
  have safe: "\<forall>g\<in>set groups. IsNodeGroupSafeToScaleUp csr g (su_now env)"
    by (rule target_groups_safe [OF groups]) (use info(3) in auto)
  show thesis using same info n safe bal by (intro that) simp_all
qed

text \<open>The number of nodes a plan adds, once it has been cut down to what the limits leave.\<close>

lemma cut_plan_within_limits:
  assumes delta: "delta_ok N delta" and nodes: "1 \<le> newNodes" "newNodes \<le> N" and visit: "mset (visit delta) = mset delta"
    and compute: "computeScaleUpResourcesDelta template info ng limiter = Some (Inr delta)"
    and cut: "applyScaleUpResourcesLimits visit template newNodes left info ng limiter = Some (Inr n)"
  shows "1 \<le> n" "n \<le> newNodes" "p \<le> n \<Longrightarrow> fits_limits left delta p"
proof -
  have nonneg: "0 \<le> d" if "(r, d) \<in> set delta" for r d using delta that by (auto simp: delta_ok_def)
  have "delta_ok newNodes delta"
    unfolding delta_ok_def
  proof clarify
    fix r d
    assume "(r, d) \<in> set delta"
    then have d: "0 \<le> d" "N * d \<le> maxInt64" using delta by (auto simp: delta_ok_def)
    have "newNodes * d \<le> N * d" using nodes d(1) by (intro mult_right_mono) auto
    with d show "0 \<le> d \<and> newNodes * d \<le> maxInt64" by simp
  qed
  from capped_nodes_largest [OF cut compute visit nodes(1) this]
  have n: "1 \<le> n" "n \<le> newNodes" "fits_limits left delta n" by auto
  then show "1 \<le> n" "n \<le> newNodes" by simp_all
  assume p: "p \<le> n"
  have "p * d \<le> limit" if "(r, d) \<in> set delta" "mget left r = Some limit" for r d limit
  proof -
    have "p * d \<le> n * d" using p nonneg [OF that(1)] by (rule mult_right_mono)
    also have "\<dots> \<le> limit" using n(3) that by (force simp: fits_limits_def)
    finally show ?thesis .
  qed
  then show "fits_limits left delta p" by (auto simp: fits_limits_def split: option.split)
qed

text \<open>The chosen option asks for no more nodes than it has pods, and its pods are unschedulable ones.\<close>

lemma best_option_count:
  assumes "strategy (su_BestOption env)" "su_Estimate env = BinpackingEstimate check srt" "score_sort srt"
    and "\<And>xs. mset (su_visit env xs) = mset xs" "expansion_options env csr inp pods = Some (Inr os)"
    and "su_BestOption env (os_options os) (in_infos inp) = Some (Some opt)"
  shows "1 \<le> eo_NodeCount opt" "eo_NodeCount opt \<le> int (length pods)"
proof -
  have ok: "option_ok env csr inp opt" by (rule best_option_ok [OF assms(1,5,6)])
  then show "1 \<le> eo_NodeCount opt" by (simp add: option_ok_def)
  have len: "length (su_visit env xs) = length xs" for xs using assms(4) [of xs] by (rule mset_eq_length)
  have "eo_NodeCount opt \<le> int (length (eo_Pods opt))"
    using ok assms(2) binpacking_at_most_pods [OF assms(3)] by (auto simp: option_ok_def)
  also have "length (eo_Pods opt) \<le> length pods"
    using options_short [OF len assms(5)] strategy.best_member [OF assms(1,6)] by blast
  finally show "eo_NodeCount opt \<le> int (length pods)" by simp
qed

text \<open>
  C4: A successful scale-up whose chosen option is for a node group that exists stays within the limits.  Every group it
  expands was safe to scale up, grows and stays within its maximum size.  At most one node per unschedulable
  pod is added, and no more than the maximum number of nodes of the cluster allows.  On every resource
  with a limit, the new nodes, counted as nodes of the chosen group, take no more than what is left of it before the
  scale-up.  The number of nodes is estimated by bin-packing; a node of the chosen group takes no negative
  amount of a resource, and one such node per pod fits into an \<open>int64\<close>; Go may visit its maps in any order.
\<close>

theorem scale_up_within_limits:
  assumes "strategy (su_BestOption env)" "su_Estimate env = BinpackingEstimate check score_srt" "score_sort score_srt"
    and "su_Balance env = BalanceScaleUpBetweenGroups srt" "sort_contract srt si_CurrentSize"
    and "\<And>xs. mset (su_visit env xs) = mset xs" "\<And>xs. mset (su_visit_delta env xs) = mset xs"
    and "ScaleUp env csr pods nodes s = Some ((st, None), csr', s')" "WasSuccessful st"
    and "prepare env (su_view env s) csr pods nodes = Some (Inr inp)" "expansion_options env csr inp pods = Some (Inr os)"
    and "su_BestOption env (os_options os) (in_infos inp) = Some (Some opt)" "ng_Exist (eo_NodeGroup opt)"
    and "mget (in_infos inp) (ng_Id (eo_NodeGroup opt)) = Some info"
    and "computeScaleUpResourcesDelta (su_template_node env) info (eo_NodeGroup opt) (in_limiter inp) = Some (Inr delta)"
    and "delta_ok (int (length pods)) delta"
  shows "(\<forall>i\<in>set (sus_ScaleUpInfos st). IsNodeGroupSafeToScaleUp csr (si_Group i) (su_now env) \<and>
      si_CurrentSize i < si_NewSize i \<and> si_NewSize i \<le> ng_MaxSize (si_Group i)) \<and>
    0 \<le> planned_increase (sus_ScaleUpInfos st) \<and> planned_increase (sus_ScaleUpInfos st) \<le> int (length pods) \<and>
    (0 < su_MaxNodesTotal env \<longrightarrow> int (length nodes) + planned_increase (sus_ScaleUpInfos st) \<le> su_MaxNodesTotal env) \<and>
    fits_limits (in_left inp) delta (planned_increase (sus_ScaleUpInfos st))"
  using assms(8,9)
proof (rule ScaleUp_success)
  fix inp' os' opt'
  assume prep: "prepare env (su_view env s) csr pods nodes = Some (Inr inp')" "expansion_options env csr inp' pods = Some (Inr os')"
    "su_BestOption env (os_options os') (in_infos inp') = Some (Some opt')"
    and run': "scale_up_option env inp' os' pods nodes opt' csr s = Some ((st, None), csr', s')"
  have "inp' = inp" using prep(1) assms(10) by simp
  moreover from this have "os' = os" using prep(2) assms(11) by simp
  ultimately have run: "scale_up_option env inp os pods nodes opt csr s = Some ((st, None), csr', s')"
    using prep(3) assms(12) run' by simp
  have ok: "option_ok env csr inp opt" by (rule best_option_ok [OF assms(1,11,12)])
  note count = best_option_count [OF assms(1-3,6,11,12)]
  from run show ?thesis
  proof (rule scale_up_option_success)
    fix newNodes ng infs csr1 s1 plan csr2
    assume cap: "cap_total env nodes (eo_NodeCount opt) = Inr newNodes"
      and create: "create_group env (eo_NodeGroup opt) (in_infos inp) csr s = (Some (Inr (ng, infs)), csr1, s1)"
      and plan: "scale_up_plan env csr1 inp pods (os_cache os) newNodes (ng, infs) (eo_Pods opt) = Some (Inr plan)"
      and st: "st = \<lparr>sus_Result = ScaleUpSuccessful, sus_ScaleUpInfos = plan, sus_PodsTriggeredScaleUp = eo_Pods opt,
         sus_PodsRemainUnschedulable = getRemainingPods (os_remain os) (os_skipped os),
         sus_PodsAwaitEvaluation = getPodsAwaitingEvaluation pods (os_remain os) (eo_Pods opt)\<rparr>"
    obtain n groups where p: "applyScaleUpResourcesLimits (su_visit_delta env) (su_template_node env) newNodes (in_left inp) info
        (eo_NodeGroup opt) (in_limiter inp) = Some (Inr n)"
      "\<forall>g\<in>set groups. IsNodeGroupSafeToScaleUp csr g (su_now env)" "su_Balance env groups n = Some (Inr plan)"
      by (rule plan_facts [OF ok assms(13) cap create plan]) (use assms(14) in auto)
    note capped = cap_total_bounds [OF cap count(1)]
    have N: "newNodes \<le> int (length pods)" using capped count(2) by simp
    note n = cut_plan_within_limits [where visit = "su_visit_delta env", OF assms(16) conjunct1 [OF capped] N assms(7) assms(15) p(1)]
    note bal = balance_ok [OF p(3) [unfolded assms(4)] assms(5)]
    have tot: "planned_increase plan \<le> n" "0 \<le> planned_increase plan" using bal(1) n(1) by auto
    have "fits_limits (in_left inp) delta (planned_increase plan)" by (rule n(3) [OF tot(1)])
    moreover have "planned_increase plan \<le> newNodes" using tot n(2) by simp
    ultimately show ?thesis using p(2) bal(1) capped N tot st by auto
  qed
qed

section \<open>Carrying out the plan\<close>

text \<open>
  The request for a group of the plan: the registry of before the plan may still hold one, whose increase is added
  to and whose group is kept.
\<close>

definition requested :: "('m, 's) scaleUpEnv \<Rightarrow> clusterStateRegistry \<Rightarrow> clusterStateRegistry \<Rightarrow> scaleUpInfo \<Rightarrow> bool" where
  "requested env csr0 csr i \<longleftrightarrow>
     (\<exists>req. mget (csr_scaleUpRequests csr) (ng_Id (si_Group i)) = Some req \<and> sur_Time req = su_now env \<and>
        sur_ExpectedAddTime req = su_now env + su_MaxNodeProvisionTime env \<and>
        (case mget (csr_scaleUpRequests csr0) (ng_Id (si_Group i)) of
           None \<Rightarrow> sur_NodeGroup req = si_Group i \<and> sur_Increase req = si_NewSize i - si_CurrentSize i
         | Some old \<Rightarrow> sur_NodeGroup req = sur_NodeGroup old \<and>
             sur_Increase req = sur_Increase old + (si_NewSize i - si_CurrentSize i)))"

lemma executeScaleUp_None:
  assumes "executeScaleUp env info (csr, s) = (None, csr', s')"
  shows "go_IncreaseSize (su_ops env) (ng_Id (si_Group info)) (si_NewSize info - si_CurrentSize info) s = (None, s')"
    and "requested env csr csr' info"
    and "k \<noteq> ng_Id (si_Group info) \<Longrightarrow> mget (csr_scaleUpRequests csr') k = mget (csr_scaleUpRequests csr) k"
proof -
  obtain s1 where inc: "go_IncreaseSize (su_ops env) (ng_Id (si_Group info)) (si_NewSize info - si_CurrentSize info) s = (None, s1)"
    using assms by (auto simp: executeScaleUp_def Let_def split: prod.splits option.splits)
  with assms show "go_IncreaseSize (su_ops env) (ng_Id (si_Group info)) (si_NewSize info - si_CurrentSize info) s = (None, s')"
    by (simp add: executeScaleUp_def Let_def)
  from inc assms show "requested env csr csr' info"
    by (auto simp: executeScaleUp_def Let_def RegisterScaleUp_def requested_def time_add_def split: option.splits)
  from inc assms show "k \<noteq> ng_Id (si_Group info) \<Longrightarrow> mget (csr_scaleUpRequests csr') k = mget (csr_scaleUpRequests csr) k"
    by (auto simp: executeScaleUp_def Let_def RegisterScaleUp_def split: option.splits)
qed

lemma execute_all_effect:
  assumes "node_groups (su_ops env)" "execute_all env (csr, s) plan = (None, csr', s')"
    and "distinct (map (\<lambda>i. ng_Id (si_Group i)) plan)"
    and "\<And>i. i \<in> set plan \<Longrightarrow> si_CurrentSize i < si_NewSize i \<and>
      go_TargetSize (su_ops env) (ng_Id (si_Group i)) s = Inr (si_CurrentSize i)"
  shows "(\<forall>i\<in>set plan. go_TargetSize (su_ops env) (ng_Id (si_Group i)) s' = Inr (si_NewSize i) \<and> requested env csr csr' i) \<and>
    (\<forall>k. k \<notin> (\<lambda>i. ng_Id (si_Group i)) ` set plan \<longrightarrow>
       go_TargetSize (su_ops env) k s' = go_TargetSize (su_ops env) k s \<and>
       mget (csr_scaleUpRequests csr') k = mget (csr_scaleUpRequests csr) k)"
  using assms(2-4)
proof (induction plan arbitrary: csr s)
  case (Cons i plan)
  let ?id = "\<lambda>i. ng_Id (si_Group i)"
  obtain e csr1 s1 where x: "executeScaleUp env i (csr, s) = (e, csr1, s1)"
    by (cases "executeScaleUp env i (csr, s)") auto
  have e: "e = None" and rest: "execute_all env (csr1, s1) plan = (None, csr', s')"
    using Cons.prems(1) x by (auto split: option.splits)
  note one = executeScaleUp_None [OF x [unfolded e]]
  have here: "si_CurrentSize i < si_NewSize i" "go_TargetSize (su_ops env) (?id i) s = Inr (si_CurrentSize i)"
    using Cons.prems(3) [of i] by auto
  note change = node_groups.increase_target [OF assms(1) one(1), of "si_CurrentSize i"]
  have i: "go_TargetSize (su_ops env) (?id i) s1 = Inr (si_NewSize i)" using change(1) here by simp
  have other: "go_TargetSize (su_ops env) k s1 = go_TargetSize (su_ops env) k s" if "k \<noteq> ?id i" for k
    using change(2) here that by simp
  have new: "?id i \<notin> ?id ` set plan" and dist: "distinct (map ?id plan)" using Cons.prems(2) by auto
  have "si_CurrentSize j < si_NewSize j \<and> go_TargetSize (su_ops env) (?id j) s1 = Inr (si_CurrentSize j)"
    if "j \<in> set plan" for j
  proof -
    have "?id j \<in> ?id ` set plan" using that by simp
    then have "?id j \<noteq> ?id i" using new by metis
    then show ?thesis using Cons.prems(3) [of j] other that by simp
  qed
  note IH = Cons.IH [OF rest dist this]
  have "mget (csr_scaleUpRequests csr') (?id i) = mget (csr_scaleUpRequests csr1) (?id i)" using IH new by simp
  then have "requested env csr csr' i" using one(2) by (simp add: requested_def)
  moreover have "requested env csr csr' j" if "j \<in> set plan" for j
  proof -
    have "?id j \<in> ?id ` set plan" using that by simp
    then have "?id j \<noteq> ?id i" using new by metis
    then have "mget (csr_scaleUpRequests csr1) (?id j) = mget (csr_scaleUpRequests csr) (?id j)" by (rule one(3))
    moreover have "requested env csr1 csr' j" using IH that by blast
    ultimately show ?thesis by (simp only: requested_def)
  qed
  moreover have "go_TargetSize (su_ops env) (?id i) s' = Inr (si_NewSize i)" using IH new i by auto
  ultimately show ?case using IH other one(3) by auto
qed simp

lemma filterNodeGroupsByPods_subset:
  assumes "filterNodeGroupsByPods env pods infs required cache ngs = Some fitting" "distinct (map f ngs)"
  shows "set fitting \<subseteq> set ngs \<and> distinct (map f fitting)"
  using assms
proof (induction ngs arbitrary: cache fitting)
  case (Cons ng ngs)
  then obtain res cache' rest where step:
    "getPodsPassingPredicates env pods infs (ng_Id ng) cache = Some (res, cache')"
    "filterNodeGroupsByPods env pods infs required cache' ngs = Some rest" "fitting = rest \<or> fitting = ng # rest"
    by (auto split: option.splits sum.splits if_splits)
  have rest: "set rest \<subseteq> set ngs" "distinct (map f rest)" using Cons.IH [OF step(2)] Cons.prems(2) by auto
  have "f ` set rest \<subseteq> f ` set ngs" using rest(1) by (rule image_mono)
  with rest step(3) Cons.prems(2) show ?case by (elim disjE) auto
qed simp

lemma target_groups_distinct:
  assumes "target_groups env csr pods infs cache ng optionPods = Some (Inr groups)"
    and "\<And>infs gs. su_FindSimilar env ng infs = Some (Inr gs) \<Longrightarrow> distinct (map ng_Id (ng # gs))"
  shows "distinct (map ng_Id groups)"
proof (cases "su_BalanceSimilarNodeGroups env")
  case True
  then have "\<exists>similar fitting. su_FindSimilar env ng infs = Some (Inr similar) \<and>
      filterNodeGroupsByPods env pods infs optionPods cache similar = Some fitting \<and>
      groups = ng # filter (\<lambda>g. IsNodeGroupSafeToScaleUp csr g (su_now env)) fitting"
    using assms(1) by (auto simp: target_groups_def ebind_SomeInr prefixed_SomeInr)
  then obtain similar fitting where g: "su_FindSimilar env ng infs = Some (Inr similar)"
    "filterNodeGroupsByPods env pods infs optionPods cache similar = Some fitting"
    "groups = ng # filter (\<lambda>g. IsNodeGroupSafeToScaleUp csr g (su_now env)) fitting"
    by blast
  have d: "distinct (map ng_Id (ng # similar))" by (rule assms(2) [OF g(1)])
  with filterNodeGroupsByPods_subset [OF g(2), of ng_Id] show ?thesis
    by (auto simp: g(3) distinct_map_filter)
next
  case False
  then show ?thesis using assms(1) by (auto simp: target_groups_def)
qed

lemma create_group_existing:
  assumes "ng_Exist ng"
  shows "create_group env ng infs csr s = (Some (Inr (ng, infs)), csr, s)"
  using assms by (simp add: create_group_def)

lemma scale_up_plan_groups:
  assumes "scale_up_plan env csr inp pods cache newNodes (ng, infs) optionPods = Some (Inr plan)"
  shows "\<exists>groups n. target_groups env csr pods infs cache ng optionPods = Some (Inr groups) \<and> su_Balance env groups n = Some (Inr plan)"
  using assms unfolding scale_up_plan_def prod.case
  by (cases "mget infs (ng_Id ng)") (simp_all only: option.case ebind_SomeInr, blast+)

lemma Recalculate_requests: "csr_scaleUpRequests (Recalculate csr) = csr_scaleUpRequests csr"
  by (simp add: Recalculate_def updateAcceptableRanges_def Let_def)

text \<open>The set processor of the code finds different groups, none of them the given one, if the provider's groups are.\<close>

lemma similar_loop_subset:
  "similar_loop comparator gid info infs ngs = Some similar \<Longrightarrow> distinct (map ng_Id ngs) \<Longrightarrow>
     set similar \<subseteq> set ngs \<and> gid \<notin> ng_Id ` set similar \<and> distinct (map ng_Id similar)"
proof (induction ngs arbitrary: similar)
  case (Cons ng ngs)
  obtain rest where rest: "similar_loop comparator gid info infs ngs = Some rest" "similar = rest \<or> similar = ng # rest \<and> ng_Id ng \<noteq> gid"
    using Cons.prems(1) by (auto split: if_splits option.splits)
  have IH: "set rest \<subseteq> set ngs" "gid \<notin> ng_Id ` set rest" "distinct (map ng_Id rest)"
    using Cons.IH [OF rest(1)] Cons.prems(2) by simp_all
  have "ng_Id ng \<notin> ng_Id ` set rest" using IH(1) Cons.prems(2) by auto
  with IH rest(2) show ?case by auto
qed simp

lemma FindSimilarNodeGroups_distinct:
  assumes "FindSimilarNodeGroups used comparator cp ng infs = Some (Inr similar)" "distinct (map ng_Id (cp_NodeGroups cp))"
  shows "distinct (map ng_Id (ng # similar))"
  using assms similar_loop_subset [of _ "ng_Id ng" _ infs "cp_NodeGroups cp" similar]
  by (force simp: FindSimilarNodeGroups_def split: option.splits)

text \<open>
  C5: A successful scale-up whose chosen option is for a node group that exists takes effect as planned: the target of
  every group of the plan becomes its new size, every other group keeps its target, and for each group of the plan
  the registry waits for the nodes of the planned increase until the provisioning time has passed.  The increase is
  the one of a new request for the group, or is added to one that is still open, whose time starts again.  The
  provider reports the target sizes the cloud has, its resizing of one group leaves the others alone, and the similar groups
  found for the chosen one are different ones, as \<open>FindSimilarNodeGroups_distinct\<close> shows for the processor of the code.
\<close>

theorem scale_up_takes_effect:
  assumes "strategy (su_BestOption env)" "node_groups (su_ops env)"
    and "su_Balance env = BalanceScaleUpBetweenGroups srt" "sort_contract srt si_CurrentSize"
    and "ScaleUp env csr pods nodes s = Some ((st, None), csr', s')" "WasSuccessful st"
    and "prepare env (su_view env s) csr pods nodes = Some (Inr inp)" "expansion_options env csr inp pods = Some (Inr os)"
    and "su_BestOption env (os_options os) (in_infos inp) = Some (Some opt)" "ng_Exist (eo_NodeGroup opt)"
    and "\<And>infs gs. su_FindSimilar env (eo_NodeGroup opt) infs = Some (Inr gs) \<Longrightarrow> distinct (map ng_Id (eo_NodeGroup opt # gs))"
    and "\<forall>i\<in>set (sus_ScaleUpInfos st). go_TargetSize (su_ops env) (ng_Id (si_Group i)) s = ng_TargetSize (si_Group i)"
  shows "(\<forall>i\<in>set (sus_ScaleUpInfos st).
      go_TargetSize (su_ops env) (ng_Id (si_Group i)) s' = Inr (si_NewSize i) \<and> requested env csr csr' i) \<and>
    (\<forall>k. k \<notin> (\<lambda>i. ng_Id (si_Group i)) ` set (sus_ScaleUpInfos st) \<longrightarrow>
       go_TargetSize (su_ops env) k s' = go_TargetSize (su_ops env) k s)"
  using assms(5,6)
proof (rule ScaleUp_success)
  fix inp' os' opt'
  assume prep: "prepare env (su_view env s) csr pods nodes = Some (Inr inp')" "expansion_options env csr inp' pods = Some (Inr os')"
    "su_BestOption env (os_options os') (in_infos inp') = Some (Some opt')"
    and run': "scale_up_option env inp' os' pods nodes opt' csr s = Some ((st, None), csr', s')"
  have "inp' = inp" using prep(1) assms(7) by simp
  moreover from this have "os' = os" using prep(2) assms(8) by simp
  ultimately have run: "scale_up_option env inp os pods nodes opt csr s = Some ((st, None), csr', s')"
    using prep(3) assms(9) run' by simp
  from run show ?thesis
  proof (rule scale_up_option_success)
    fix newNodes ng infs csr1 s1 plan csr2
    assume create: "create_group env (eo_NodeGroup opt) (in_infos inp) csr s = (Some (Inr (ng, infs)), csr1, s1)"
      and plan: "scale_up_plan env csr1 inp pods (os_cache os) newNodes (ng, infs) (eo_Pods opt) = Some (Inr plan)"
      and exec: "execute_all env (csr1, s1) plan = (None, csr2, s')"
      and st: "st = \<lparr>sus_Result = ScaleUpSuccessful, sus_ScaleUpInfos = plan, sus_PodsTriggeredScaleUp = eo_Pods opt,
         sus_PodsRemainUnschedulable = getRemainingPods (os_remain os) (os_skipped os),
         sus_PodsAwaitEvaluation = getPodsAwaitingEvaluation pods (os_remain os) (eo_Pods opt)\<rparr>"
      and csr': "csr' = Recalculate (csr2\<lparr>csr_cloudProvider := su_view env s'\<rparr>)"
    have same: "csr1 = csr" "s1 = s" "ng = eo_NodeGroup opt" using create by (simp_all add: create_group_existing [OF assms(10)])
    obtain groups n where g: "target_groups env csr1 pods infs (os_cache os) ng (eo_Pods opt) = Some (Inr groups)"
      "su_Balance env groups n = Some (Inr plan)"
      using scale_up_plan_groups [OF plan] by blast
    note bal = balance_ok [OF g(2) [unfolded assms(3)] assms(4)]
    have "distinct (map ng_Id groups)" by (rule target_groups_distinct [OF g(1)]) (use assms(11) same(3) in blast)
    then have dist: "distinct (map (\<lambda>i. ng_Id (si_Group i)) plan)" by (rule bal(2))
    have cur: "si_CurrentSize i < si_NewSize i \<and> go_TargetSize (su_ops env) (ng_Id (si_Group i)) s = Inr (si_CurrentSize i)"
      if "i \<in> set plan" for i
      using bal(1) assms(12) that by (simp add: st)
    have "requested env csr csr' i" if "requested env csr csr2 i" for i
      using that by (simp add: requested_def csr' Recalculate_requests)
    with execute_all_effect [OF assms(2) exec [unfolded same(1,2)] dist cur] show ?thesis by (simp add: st)
  qed
qed

section \<open>A failing increase\<close>

lemma execute_all_failure:
  assumes "execute_all env st plan = (Some err, st')"
  shows "\<exists>before i later st1. plan = before @ i # later \<and> execute_all env st before = (None, st1) \<and>
     executeScaleUp env i st1 = (Some err, st')"
  using assms
proof (induction plan arbitrary: st)
  case (Cons i plan)
  obtain e st1 where x: "executeScaleUp env i st = (e, st1)" by (cases "executeScaleUp env i st") auto
  show ?case
  proof (cases e)
    case (Some e')
    then show ?thesis using Cons.prems x by (intro exI [of _ "[]"] exI [of _ i] exI [of _ plan] exI [of _ st]) simp
  next
    case None
    then have "execute_all env st1 plan = (Some err, st')" using Cons.prems x by simp
    from Cons.IH [OF this] obtain before j later st2 where "plan = before @ j # later"
      "execute_all env st1 before = (None, st2)" "executeScaleUp env j st2 = (Some err, st')"
      by blast
    then show ?thesis using x None
      by (intro exI [of _ "i # before"] exI [of _ j] exI [of _ later] exI [of _ st2]) simp
  qed
qed simp

lemma execute_all_backoff:
  "execute_all env (csr, s) plan = (None, csr', s') \<Longrightarrow> csr_nodeGroupBackoffInfo csr' = csr_nodeGroupBackoffInfo csr"
proof (induction plan arbitrary: csr s)
  case (Cons i plan)
  obtain e csr1 s1 where x: "executeScaleUp env i (csr, s) = (e, csr1, s1)"
    by (cases "executeScaleUp env i (csr, s)") auto
  then have "csr_nodeGroupBackoffInfo csr1 = csr_nodeGroupBackoffInfo csr" if "e = None"
    using that by (auto simp: executeScaleUp_def Let_def RegisterScaleUp_def split: prod.splits option.splits)
  with Cons x show ?case by (cases e) auto
qed simp

lemma executeScaleUp_Some:
  assumes "executeScaleUp env i (csr, s) = (Some err, csr', s')"
  obtains e where
    "go_IncreaseSize (su_ops env) (ng_Id (si_Group i)) (si_NewSize i - si_CurrentSize i) s = (Some e, s')"
    "csr' = RegisterFailedScaleUp (si_Group i) (su_now env) csr"
  using assms by (auto simp: executeScaleUp_def Let_def split: prod.splits option.splits)

lemma backed_off_group_unsafe:
  assumes "backoff_ok (csr_nodeGroupBackoffInfo csr)"
    and "t < now + eb_initialBackoffDuration (csr_nodeGroupBackoffInfo csr)"
  shows "\<not> IsNodeGroupSafeToScaleUp (RegisterFailedScaleUp ng now csr) ng t"
proof -
  let ?b = "csr_nodeGroupBackoffInfo csr"
  have "now + eb_initialBackoffDuration ?b \<le> snd (doBackoff ?b ng now)"
    using backoff_duration_bounds(1) [OF assms(1), of ng now] by (simp add: doBackoff_def Let_def time_add_def)
  then have "IsBackedOff (fst (doBackoff ?b ng now)) ng t" using assms(2) by (simp add: eb.active_start [OF assms(1)])
  then show ?thesis by (simp add: IsNodeGroupSafeToScaleUp_def RegisterFailedScaleUp_def backoffNodeGroup_def)
qed

text \<open>
  C30: When the increase of a group of the plan fails, the groups before it stay expanded and are waited
  for, that group may not be scaled up for at least the initial back-off, and the groups after it keep
  their targets.
\<close>

theorem failed_increase_backs_off:
  assumes "node_groups (su_ops env)" "backoff_ok (csr_nodeGroupBackoffInfo csr)"
    and "execute_all env (csr, s) plan = (Some err, csr', s')"
    and "distinct (map (\<lambda>i. ng_Id (si_Group i)) plan)"
    and "\<And>i. i \<in> set plan \<Longrightarrow> si_CurrentSize i < si_NewSize i \<and>
      go_TargetSize (su_ops env) (ng_Id (si_Group i)) s = Inr (si_CurrentSize i)"
    and "t < su_now env + eb_initialBackoffDuration (csr_nodeGroupBackoffInfo csr)"
  shows "\<exists>before i later. plan = before @ i # later \<and>
    (\<forall>j\<in>set before. go_TargetSize (su_ops env) (ng_Id (si_Group j)) s' = Inr (si_NewSize j) \<and> requested env csr csr' j) \<and>
    \<not> IsNodeGroupSafeToScaleUp csr' (si_Group i) t \<and>
    (\<forall>j\<in>set later. go_TargetSize (su_ops env) (ng_Id (si_Group j)) s' = Inr (si_CurrentSize j))"
proof -
  let ?id = "\<lambda>i. ng_Id (si_Group i)" and ?T = "go_TargetSize (su_ops env)"
  obtain before i later csr1 s1 where plan: "plan = before @ i # later"
    and ok: "execute_all env (csr, s) before = (None, csr1, s1)"
    and fails: "executeScaleUp env i (csr1, s1) = (Some err, csr', s')"
    using execute_all_failure [OF assms(3)] by auto
  obtain e where inc: "go_IncreaseSize (su_ops env) (?id i) (si_NewSize i - si_CurrentSize i) s1 = (Some e, s')"
    and csr': "csr' = RegisterFailedScaleUp (si_Group i) (su_now env) csr1"
    using executeScaleUp_Some [OF fails] by blast
  have new: "?id i \<notin> ?id ` set before" "?id i \<notin> ?id ` set later" "?id ` set before \<inter> ?id ` set later = {}"
    and dist: "distinct (map ?id before)"
    using assms(4) by (auto simp: plan)
  have effect: "(\<forall>j\<in>set before. ?T (?id j) s1 = Inr (si_NewSize j) \<and> requested env csr csr1 j) \<and>
      (\<forall>k. k \<notin> ?id ` set before \<longrightarrow> ?T k s1 = ?T k s \<and>
         mget (csr_scaleUpRequests csr1) k = mget (csr_scaleUpRequests csr) k)"
    by (rule execute_all_effect [OF assms(1) ok dist]) (use assms(5) in \<open>simp add: plan\<close>)
  have i: "si_CurrentSize i < si_NewSize i" "?T (?id i) s1 = Inr (si_CurrentSize i)"
    using assms(5) [of i] effect new(1) by (simp_all add: plan)
  have other: "?T k s' = ?T k s1" if "k \<noteq> ?id i" for k
    using node_groups.increase_target(2) [OF assms(1) inc _ i(2) that] i(1) by simp
  have "?T (?id j) s' = Inr (si_NewSize j) \<and> requested env csr csr' j" if "j \<in> set before" for j
  proof -
    have "?id j \<noteq> ?id i" using new(1) that by (metis imageI)
    then show ?thesis
      using other effect that by (simp add: csr' requested_def RegisterFailedScaleUp_def backoffNodeGroup_def)
  qed
  moreover have "?T (?id j) s' = Inr (si_CurrentSize j)" if "j \<in> set later" for j
  proof -
    have "?id j \<noteq> ?id i" "?id j \<notin> ?id ` set before" using new(2,3) that by (metis imageI, blast)
    then show ?thesis using other effect assms(5) [of j] that by (simp add: plan)
  qed
  moreover have "\<not> IsNodeGroupSafeToScaleUp csr' (si_Group i) t"
    unfolding csr' using execute_all_backoff [OF ok] assms(2,6) by (intro backed_off_group_unsafe) simp_all
  ultimately show ?thesis using plan by blast
qed

section \<open>Which pods are counted\<close>

lemma schedulable_keys:
  assumes "schedulable_on_node_loop pc info cache acc qs = Some result"
  shows "(mhas result p \<longleftrightarrow> p \<in> set qs \<or> mhas acc p) \<and> (gomap_ok acc \<longrightarrow> gomap_ok result)"
  using assms
proof (induction qs arbitrary: cache acc)
  case (Cons q qs)
  then obtain cache' err where "schedulable_on_node_loop pc info cache' (mput q err acc) qs = Some result"
    by (auto split: option.splits)
  from Cons.IH [OF this] show ?case by (auto simp: mhas_def)
qed simp

definition passing_ok :: "('m, 's) scaleUpEnv \<Rightarrow> pod list \<Rightarrow> infos \<Rightarrow> passingCache \<Rightarrow> bool" where
  "passing_ok env pods infs cache \<longleftrightarrow>
     (\<forall>gid ps. mget (pa_passing cache) gid = Some ps \<longrightarrow>
        (\<exists>info. mget infs gid = Some info \<and>
           (\<forall>p\<in>set ps. p \<in> set pods \<and> passes (su_PredicateChecker env) None p info)))"

definition never_panics :: "('m, 's) scaleUpEnv \<Rightarrow> pod list \<Rightarrow> infos \<Rightarrow> bool" where
  "never_panics env pods infs \<longleftrightarrow>
     (\<forall>p\<in>set pods. \<forall>gid info. mget infs gid = Some info \<longrightarrow> CheckPredicates (su_PredicateChecker env) p None info \<noteq> None)"

lemma computeCaches_ok:
  assumes "predicates_agree (su_PredicateChecker env) (set pods)"
    and "never_panics env pods infs"
    and "\<And>xs. set (su_visit env xs) = set xs"
    and "passing_ok env pods infs cache" "computeCaches env pods infs gid cache = Some cache'"
  shows "passing_ok env pods infs cache'"
proof (cases "mget infs gid")
  case None
  with assms(4,5) show ?thesis by (auto simp: computeCaches_def passing_ok_def)
next
  case (Some info)
  then obtain res where res: "CheckPodsSchedulableOnNode (su_PredicateChecker env) pods info = Some res"
    and pass: "pa_passing cache' = mput gid (passing_of (su_visit env res)) (pa_passing cache)"
    using assms(5) by (auto simp: computeCaches_def)
  note loop = res [unfolded CheckPodsSchedulableOnNode_def]
  have ok: "gomap_ok res" and keys: "\<And>p. mhas res p \<Longrightarrow> p \<in> set pods"
    using schedulable_keys [OF loop] by (auto simp: mhas_def)
  have passes: "mget res p = Some None \<Longrightarrow> p \<in> set pods \<Longrightarrow> passes (su_PredicateChecker env) None p info" for p
  proof -
    have ret: "CheckPredicates (su_PredicateChecker env) q None info \<noteq> None" if "q \<in> set pods" for q
      using assms(2) that Some by (auto simp: never_panics_def)
    show "mget res p = Some None \<Longrightarrow> p \<in> set pods \<Longrightarrow> passes (su_PredicateChecker env) None p info"
      using schedulable_on_node_loop_ok [OF assms(1) ret psm.fresh_ok subset_refl, of "[]"] loop by force
  qed
  have "p \<in> set pods \<and> passes (su_PredicateChecker env) None p info" if "p \<in> set (passing_of (su_visit env res))" for p
  proof -
    have "(p, None) \<in> set res" using that by (auto simp: passing_of_def assms(3))
    then have "mget res p = Some None" using ok by (simp add: mget_eq_Some_iff)
    then show ?thesis using keys [of p] passes [of p] by (simp add: mhas_def)
  qed
  with Some assms(4) show ?thesis by (auto simp: passing_ok_def pass)
qed

lemma passing_cached:
  assumes "predicates_agree (su_PredicateChecker env) (set pods)"
    and "never_panics env pods infs"
    and "\<And>xs. set (su_visit env xs) = set xs"
    and "passing_ok env pods infs cache"
  shows "getPodsPassingPredicates env pods infs gid cache = Some (x, cache') \<Longrightarrow>
      passing_ok env pods infs cache' \<and> (\<forall>ps. x = Inr ps \<longrightarrow> mget (pa_passing cache') gid = Some ps)"
    and "getPodsNotPassingPredicates env pods infs gid cache = Some (y, cache') \<Longrightarrow> passing_ok env pods infs cache'"
proof -
  have ok: "passing_ok env pods infs c" if "computeCaches env pods infs k cache = Some c" for k c
    by (rule computeCaches_ok [OF assms that])
  show "getPodsPassingPredicates env pods infs gid cache = Some (x, cache') \<Longrightarrow>
      passing_ok env pods infs cache' \<and> (\<forall>ps. x = Inr ps \<longrightarrow> mget (pa_passing cache') gid = Some ps)"
    using ok assms(4)
    by (auto simp: getPodsPassingPredicates_def ensure_cached_def split: if_splits option.splits)
  show "getPodsNotPassingPredicates env pods infs gid cache = Some (y, cache') \<Longrightarrow> passing_ok env pods infs cache'"
    using ok assms(4) by (auto simp: getPodsNotPassingPredicates_def ensure_cached_def split: if_splits)
qed

lemma mhas_add_rejections: "mhas (add_rejections ng np m) p = mhas m p"
  unfolding add_rejections_def
  by (induction np rule: rev_induct) (auto simp: mhas_def split: option.splits if_splits)

lemma mhas_remove_pods: "mhas (foldl (\<lambda>m p. mdel p m) m ps) p \<longleftrightarrow> mhas m p \<and> p \<notin> set ps"
  by (simp add: mhas_def am.lookup_remove_loop)

lemma mhas_initial: "mhas (initial_remaining pods) p \<longleftrightarrow> p \<in> set pods"
  unfolding initial_remaining_def by (induction pods rule: rev_induct) (auto simp: mhas_def)

definition options_inv :: "('m, 's) scaleUpEnv \<Rightarrow> pod list \<Rightarrow> infos \<Rightarrow> optionsState \<Rightarrow> bool" where
  "options_inv env pods infs st \<longleftrightarrow> passing_ok env pods infs (os_cache st) \<and>
     (\<forall>p. mhas (os_remain st) p \<longrightarrow> p \<in> set pods) \<and>
     (\<forall>o1\<in>set (os_options st). \<exists>info. mget infs (ng_Id (eo_NodeGroup o1)) = Some info \<and>
        (\<forall>p\<in>set (eo_Pods o1). p \<in> set pods \<and> \<not> mhas (os_remain st) p \<and> passes (su_PredicateChecker env) None p info))"

lemma add_option_inv:
  assumes "add_option env infs upcoming ng passing notPassing st = Some st'" "options_inv env pods infs st"
    and "mget infs (ng_Id ng) = Some info" "\<forall>p\<in>set passing. p \<in> set pods \<and> passes (su_PredicateChecker env) None p info"
  shows "options_inv env pods infs st'"
proof -
  have remain: "mhas (os_remain st') p \<longleftrightarrow> mhas (os_remain st) p \<and> p \<notin> set passing" for p
    using assms(1) by (auto simp: add_option_def Let_def mhas_add_rejections mhas_remove_pods split: if_splits)
  have cache: "os_cache st' = os_cache st" using assms(1) by (auto simp: add_option_def Let_def split: if_splits)
  have "o1 \<in> set (os_options st) \<or> eo_NodeGroup o1 = ng \<and> eo_Pods o1 = passing" if "o1 \<in> set (os_options st')" for o1
    using add_option_options [OF assms(1)] that by auto
  with assms(2-4) show ?thesis unfolding options_inv_def remain cache by fast
qed

lemma option_step_inv:
  assumes "predicates_agree (su_PredicateChecker env) (set pods)"
    and "never_panics env pods infs"
    and "\<And>xs. set (su_visit env xs) = set xs"
    and "option_step env csr infs left limiter upcoming pods st ng = Some (Inr st')" "options_inv env pods infs st"
  shows "options_inv env pods infs st'"
proof -
  note cached = passing_cached [OF assms(1-3)]
  have ok: "passing_ok env pods infs (os_cache st)" using assms(5) by (simp add: options_inv_def)
  from assms(4) show ?thesis
  proof (cases rule: option_step_cases)
    case (skipped r cache)
    then have "passing_ok env pods infs cache" using cached ok by blast
    then show ?thesis using assms(5) by (simp add: skipped(1) skip_def options_inv_def)
  next
    case (considered passing cache notPassing cache')
    have c: "passing_ok env pods infs cache" "mget (pa_passing cache) (ng_Id ng) = Some passing"
      using cached(1) [OF ok considered(2)] by auto
    have "passing_ok env pods infs cache'" using cached(2) [OF c(1) considered(3)] .
    then have "options_inv env pods infs (st\<lparr>os_cache := cache'\<rparr>)" using assms(5) by (simp add: options_inv_def)
    moreover obtain info where "mget infs (ng_Id ng) = Some info"
      "\<forall>p\<in>set passing. p \<in> set pods \<and> passes (su_PredicateChecker env) None p info"
      using c unfolding passing_ok_def by blast
    ultimately show ?thesis by (rule add_option_inv [OF considered(4)])
  qed
qed

lemma expansion_options_inv:
  assumes "predicates_agree (su_PredicateChecker env) (set pods)"
    and "never_panics env pods (in_infos inp)"
    and "\<And>xs. set (su_visit env xs) = set xs"
    and "expansion_options env csr inp pods = Some (Inr os)"
  shows "options_inv env pods (in_infos inp) os"
proof (rule floop_inv [OF assms(4) [unfolded expansion_options_def]])
  show "options_inv env pods (in_infos inp)
      \<lparr>os_skipped = [], os_remain = initial_remaining pods, os_options = [], os_cache = empty_cache\<rparr>"
    by (simp add: options_inv_def passing_ok_def empty_cache_def mhas_initial)
qed (rule option_step_inv [OF assms(1-3)])

lemma awaiting_pods:
  "set (getPodsAwaitingEvaluation pods remain best) = {p \<in> set pods. \<not> mhas remain p \<and> p \<notin> set best}"
proof -
  let ?awaits = "foldl (\<lambda>m p. if mhas remain p then m else mput p True m) [] pods"
  have a: "mhas ?awaits p \<longleftrightarrow> p \<in> set pods \<and> \<not> mhas remain p" for p
    by (induction pods rule: rev_induct) (auto simp: mhas_def)
  have "p \<in> set (mkeys m) \<longleftrightarrow> mhas m p" for m :: "(pod, bool) gomap" and p
    by (simp add: mkeys_def mhas_def mget_def map_of_eq_None_iff)
  then show ?thesis by (auto simp: getPodsAwaitingEvaluation_def Let_def mhas_remove_pods a)
qed

lemma remaining_pods: "nsu_Pod ` set (getRemainingPods remain skipped) = {p. mhas remain p}"
  by (force simp: getRemainingPods_def mhas_def mget_def map_of_eq_None_iff)

text \<open>
  C23: A successful scale-up accounts for every unschedulable pod exactly once: it triggered the scale-up,
  remains unschedulable, or awaits evaluation; and every pod that triggered it passes the predicates on
  the node a group of the input would add.
\<close>

theorem pods_are_accounted_for:
  assumes "strategy (su_BestOption env)" "predicates_agree (su_PredicateChecker env) (set pods)"
    and "\<And>xs. set (su_visit env xs) = set xs"
    and "ScaleUp env csr pods nodes s = Some ((st, None), csr', s')" "WasSuccessful st"
    and "prepare env (su_view env s) csr pods nodes = Some (Inr inp)"
    and "never_panics env pods (in_infos inp)"
  shows "set pods = set (sus_PodsTriggeredScaleUp st) \<union> nsu_Pod ` set (sus_PodsRemainUnschedulable st) \<union>
       set (sus_PodsAwaitEvaluation st) \<and>
    set (sus_PodsTriggeredScaleUp st) \<inter> nsu_Pod ` set (sus_PodsRemainUnschedulable st) = {} \<and>
    set (sus_PodsTriggeredScaleUp st) \<inter> set (sus_PodsAwaitEvaluation st) = {} \<and>
    nsu_Pod ` set (sus_PodsRemainUnschedulable st) \<inter> set (sus_PodsAwaitEvaluation st) = {} \<and>
    (\<exists>ng\<in>set (in_groups inp). \<exists>info. mget (in_infos inp) (ng_Id ng) = Some info \<and>
       (\<forall>p\<in>set (sus_PodsTriggeredScaleUp st). passes (su_PredicateChecker env) None p info))"
  using assms(4,5)
proof (rule ScaleUp_success)
  fix inp' os opt
  assume "prepare env (su_view env s) csr pods nodes = Some (Inr inp')"
  then have inp: "inp' = inp" using assms(6) by simp
  assume os: "expansion_options env csr inp' pods = Some (Inr os)"
    and best: "su_BestOption env (os_options os) (in_infos inp') = Some (Some opt)"
    and run: "scale_up_option env inp' os pods nodes opt csr s = Some ((st, None), csr', s')"
  have "options_inv env pods (in_infos inp) os"
    by (rule expansion_options_inv [OF assms(2,7,3) os [unfolded inp]])
  moreover have opt: "opt \<in> set (os_options os)" using strategy.best_member [OF assms(1) best] .
  ultimately obtain info where info: "mget (in_infos inp) (ng_Id (eo_NodeGroup opt)) = Some info"
    "\<forall>p\<in>set (eo_Pods opt). p \<in> set pods \<and> \<not> mhas (os_remain os) p \<and> passes (su_PredicateChecker env) None p info"
    "\<forall>p. mhas (os_remain os) p \<longrightarrow> p \<in> set pods"
    by (auto simp: options_inv_def)
  have ng: "eo_NodeGroup opt \<in> set (in_groups inp)"
    using best_option_ok [OF assms(1) os best] by (simp add: inp option_ok_def)
  from run obtain plan where st: "st = \<lparr>sus_Result = ScaleUpSuccessful, sus_ScaleUpInfos = plan,
       sus_PodsTriggeredScaleUp = eo_Pods opt,
       sus_PodsRemainUnschedulable = getRemainingPods (os_remain os) (os_skipped os),
       sus_PodsAwaitEvaluation = getPodsAwaitingEvaluation pods (os_remain os) (eo_Pods opt)\<rparr>"
    by (rule scale_up_option_success)
  have sets: "set (sus_PodsTriggeredScaleUp st) = set (eo_Pods opt)"
    "nsu_Pod ` set (sus_PodsRemainUnschedulable st) = {p. mhas (os_remain os) p}"
    "set (sus_PodsAwaitEvaluation st) = {p \<in> set pods. \<not> mhas (os_remain os) p \<and> p \<notin> set (eo_Pods opt)}"
    by (simp_all add: st awaiting_pods remaining_pods)
  show ?thesis unfolding sets using info ng by blast
qed

section \<open>The concrete run\<close>

lemma su_never_panics: "never_panics su_env su_pods (in_infos su_input)"
proof -
  have "CheckPredicates demo_checker p None su_info \<noteq> None" for p by (rule demo_returns) (simp add: su_info_def)
  then show ?thesis by (simp add: never_panics_def su_input_def)
qed

lemma su_agree: "predicates_agree (su_PredicateChecker su_env) (set su_pods)"
proof -
  have "predicates_agree demo_checker (set su_pods)" by (rule replicas_agree) auto
  then show ?thesis by (simp add: predicates_agree_def)
qed

lemma su_strategy: "strategy (su_BestOption su_env)"
  by (simp add: most_pods0.strategy_axioms)

lemma su_target: "go_TargetSize silent_ops ''pool'' su_state = Inr 1"
  by (simp add: silent_ops_def test_ops_def TestTargetSize_def su_state_def AddNode_def AddNodeGroup_def
      InsertNodeGroup_def BuildNodeGroup_def NewTestCloudProvider_def)

text \<open>The chosen option of the run.\<close>

lemma su_chosen:
  obtains os where "expansion_options su_env su_registry su_input su_pods = Some (Inr os)"
    "su_BestOption su_env (os_options os) (in_infos su_input) = Some (Some su_option)" "ng_Exist (eo_NodeGroup su_option)"
proof -
  obtain os where os: "expansion_options su_env su_registry su_input su_pods = Some (Inr os)" "os_options os = [su_option]"
    using su_options [OF su_registry_ready] by blast
  show thesis by (rule that [OF os(1)]) (simp add: os(2) su_best, simp add: su_option_def)
qed

theorem scale_up_within_limits_witness:
  "\<exists>st csr' s'. ScaleUp su_env su_registry su_pods su_nodes su_state = Some ((st, None), csr', s') \<and>
     sus_ScaleUpInfos st = su_plan \<and> planned_increase su_plan \<le> 2 \<and>
     IsNodeGroupSafeToScaleUp su_registry su_group hour \<and> 1 + planned_increase su_plan \<le> 10 \<and>
     fits_limits [(''cpu'', 7)] [(''cpu'', 2), (''memory'', 0)] (planned_increase su_plan)"
proof (rule su_run [OF su_registry_ready])
  fix st csr'
  assume run: "ScaleUp su_env su_registry su_pods su_nodes su_state =
       Some ((st, None), csr', change_target ''pool'' 1 su_state)" "WasSuccessful st" "sus_ScaleUpInfos st = su_plan"
  have view: "prepare su_env (su_view su_env su_state) su_registry su_pods su_nodes = Some (Inr su_input)"
    by (simp add: su_prepare [OF su_registry_ready])
  obtain os where os: "expansion_options su_env su_registry su_input su_pods = Some (Inr os)"
    "su_BestOption su_env (os_options os) (in_infos su_input) = Some (Some su_option)" "ng_Exist (eo_NodeGroup su_option)"
    by (rule su_chosen)
  have est: "su_Estimate su_env = BinpackingEstimate (passes demo_checker None) sort_scores" by simp
  have visit: "mset (su_visit su_env xs) = mset xs" "mset (su_visit_delta su_env ds) = mset ds" for xs ds by simp_all
  have bal: "su_Balance su_env = BalanceScaleUpBetweenGroups sort_infos" by simp
  have info: "mget (in_infos su_input) (ng_Id (eo_NodeGroup su_option)) = Some su_info" by (simp add: su_input_def su_option_def)
  have delta: "computeScaleUpResourcesDelta (su_template_node su_env) su_info (eo_NodeGroup su_option) (in_limiter su_input) =
      Some (Inr [(''cpu'', 2), (''memory'', 0)])" by (simp add: su_delta su_input_def)
  have ok: "delta_ok (int (length su_pods)) [(''cpu'', 2), (''memory'', 0)]" by (simp add: delta_ok_def maxInt64_def)
  note facts = scale_up_within_limits [OF su_strategy est ss.score_sort_axioms bal si.sort_contract_axioms visit run(1,2) view
      os info delta ok]
  have "planned_increase su_plan \<le> 2" "1 + planned_increase su_plan \<le> 10"
    "fits_limits [(''cpu'', 7)] [(''cpu'', 2), (''memory'', 0)] (planned_increase su_plan)"
    using facts by (simp_all add: run(3) su_nodes_def su_input_def)
  moreover have "IsNodeGroupSafeToScaleUp su_registry su_group hour"
    using facts by (simp add: run(3) su_plan_def)
  ultimately show ?thesis using run by blast
qed

theorem scale_up_takes_effect_witness:
  "\<exists>st csr' s' req. ScaleUp su_env su_registry su_pods su_nodes su_state = Some ((st, None), csr', s') \<and>
     go_TargetSize silent_ops ''pool'' s' = Inr 2 \<and> mget (csr_scaleUpRequests csr') ''pool'' = Some req \<and> sur_Increase req = 1"
proof (rule su_run [OF su_registry_ready])
  fix st csr'
  let ?s' = "change_target ''pool'' 1 su_state"
  assume run: "ScaleUp su_env su_registry su_pods su_nodes su_state = Some ((st, None), csr', ?s')"
    "WasSuccessful st" "sus_ScaleUpInfos st = su_plan"
  have view: "prepare su_env (su_view su_env su_state) su_registry su_pods su_nodes = Some (Inr su_input)"
    by (simp add: su_prepare [OF su_registry_ready])
  obtain os where os: "expansion_options su_env su_registry su_input su_pods = Some (Inr os)"
    "su_BestOption su_env (os_options os) (in_infos su_input) = Some (Some su_option)" "ng_Exist (eo_NodeGroup su_option)"
    by (rule su_chosen)
  have bal: "su_Balance su_env = BalanceScaleUpBetweenGroups sort_infos" by simp
  have ops: "node_groups (su_ops su_env)" by (simp add: silent_groups)
  have similar: "distinct (map ng_Id (eo_NodeGroup su_option # gs))"
    if "su_FindSimilar su_env (eo_NodeGroup su_option) infs = Some (Inr gs)" for infs gs
    using that by simp
  have target: "\<forall>i\<in>set (sus_ScaleUpInfos st).
      go_TargetSize (su_ops su_env) (ng_Id (si_Group i)) su_state = ng_TargetSize (si_Group i)"
    by (simp add: run(3) su_plan_def su_target)
  have "go_TargetSize silent_ops ''pool'' ?s' = Inr 2 \<and> requested su_env su_registry csr' (hd su_plan)"
    using scale_up_takes_effect [OF su_strategy ops bal si.sort_contract_axioms run(1,2) view os similar target]
    by (simp add: run(3) su_plan_def)
  moreover have "csr_scaleUpRequests su_registry = []" by (simp add: su_registry_def NewClusterStateRegistry_def)
  ultimately show ?thesis using run(1) by (auto simp: requested_def su_plan_def)
qed

theorem pods_are_accounted_for_witness:
  "\<exists>st csr' s'. ScaleUp su_env su_registry su_pods su_nodes su_state = Some ((st, None), csr', s') \<and>
     sus_PodsTriggeredScaleUp st = [replica_pod ''web'' 2] \<and> sus_PodsAwaitEvaluation st = [] \<and>
     passes demo_checker None (replica_pod ''web'' 2) su_info"
proof (rule su_run [OF su_registry_ready])
  fix st csr'
  assume run: "ScaleUp su_env su_registry su_pods su_nodes su_state =
       Some ((st, None), csr', change_target ''pool'' 1 su_state)" "WasSuccessful st"
    "sus_PodsTriggeredScaleUp st = [replica_pod ''web'' 2]"
    "map nsu_Pod (sus_PodsRemainUnschedulable st) = [replica_pod ''huge'' 9]"
  have view: "prepare su_env (su_view su_env su_state) su_registry su_pods su_nodes = Some (Inr su_input)"
    by (simp add: su_prepare [OF su_registry_ready])
  have visit: "set (su_visit su_env xs) = set xs" for xs by simp
  note facts = pods_are_accounted_for [OF su_strategy su_agree visit run(1,2) view su_never_panics]
  have remain: "nsu_Pod ` set (sus_PodsRemainUnschedulable st) = {replica_pod ''huge'' 9}"
    using arg_cong [OF run(4), of set] by simp
  have "set (sus_PodsAwaitEvaluation st) \<subseteq> {}"
  proof
    fix p
    assume p: "p \<in> set (sus_PodsAwaitEvaluation st)"
    then have "p \<in> set su_pods" using facts by blast
    moreover have "p \<noteq> replica_pod ''web'' 2" "p \<noteq> replica_pod ''huge'' 9"
      using facts p unfolding remain run(3) by auto
    ultimately show "p \<in> {}" by simp
  qed
  then have "sus_PodsAwaitEvaluation st = []" by simp
  moreover have "passes demo_checker None (replica_pod ''web'' 2) su_info"
    using facts by (auto simp: run(3) su_input_def)
  ultimately show ?thesis using run by auto
qed

theorem failed_increase_backs_off_witness:
  "\<exists>csr' s'. execute_all (su_env\<lparr>su_ops := test_ops (\<lambda>gid d. Some ''no quota'') (\<lambda>gid n. None)\<rparr>) (su_registry, su_state) su_plan =
       (Some (NewAutoscalerError CloudProviderError ''failed to increase node group size: no quota''), csr', s') \<and>
     \<not> IsNodeGroupSafeToScaleUp csr' su_group hour"
proof -
  let ?env = "su_env\<lparr>su_ops := test_ops (\<lambda>gid d. Some ''no quota'') (\<lambda>gid n. None)\<rparr>"
  have groups: "node_groups (su_ops ?env)" by (simp add: tg.node_groups_axioms)
  obtain csr' s' where run: "execute_all ?env (su_registry, su_state) su_plan =
      (Some (NewAutoscalerError CloudProviderError ''failed to increase node group size: no quota''), csr', s')"
    by (simp add: su_plan_def executeScaleUp_def test_ops_def TestIncreaseSize_def)
  have ok: "backoff_ok (csr_nodeGroupBackoffInfo su_registry)"
    and initial: "eb_initialBackoffDuration (csr_nodeGroupBackoffInfo su_registry) = minute"
    by (simp_all add: su_registry_def NewClusterStateRegistry_def backoff_ok_def backoff_config_ok_def NewExponentialBackoff_def
        duration_defs maxInt64_def)
  have target: "go_TargetSize (su_ops ?env) ''pool'' su_state = Inr 1"
    using su_target by (simp add: silent_ops_def test_ops_def)
  have plan: "distinct (map (\<lambda>i. ng_Id (si_Group i)) su_plan)" "hour < su_now ?env + eb_initialBackoffDuration (csr_nodeGroupBackoffInfo su_registry)"
    by (simp_all add: su_plan_def initial duration_defs)
  have cur: "si_CurrentSize i < si_NewSize i \<and> go_TargetSize (su_ops ?env) (ng_Id (si_Group i)) su_state = Inr (si_CurrentSize i)"
    if "i \<in> set su_plan" for i
    using that target by (simp add: su_plan_def)
  have "\<exists>before i later. su_plan = before @ i # later \<and> \<not> IsNodeGroupSafeToScaleUp csr' (si_Group i) hour"
    using failed_increase_backs_off [OF groups ok run plan(1) cur plan(2)] by blast
  then have "\<not> IsNodeGroupSafeToScaleUp csr' su_group hour" by (auto simp: su_plan_def Cons_eq_append_conv)
  with run show ?thesis by blast
qed

end
