(* ===== verification/StaticAutoscaler.thy ===== *)
theory StaticAutoscaler
  imports ScaleUp ScaleDown
begin

text \<open>
  \<open>core/static_autoscaler.go\<close>: one iteration of the control loop, \<open>RunOnce\<close>, which puts the cluster state
  registry, the repairs, the scale-up and the scale-down together.  What the listers, the provider's
  \<open>Refresh\<close>, the processors and the goroutines of the scale-down answer in an iteration is the record
  \<open>loopInput\<close>.  The registry is shared with the scale-down and kept there.
  Logs, events, metrics and the text written for an empty cluster are left out; the statuses that are
  processed and the one that is written are part of the outcome.
\<close>

section \<open>State and environment\<close>

definition unschedulablePodTimeBuffer :: duration where
  "unschedulablePodTimeBuffer = 2 * second"

definition unschedulablePodWithGpuTimeBuffer :: duration where
  "unschedulablePodWithGpuTimeBuffer = 30 * second"


record 'm staticAutoscaler =
  sa_startTime :: time
  sa_lastScaleUpTime :: time
  sa_lastScaleDownDeleteTime :: time
  sa_lastScaleDownFailTime :: time
  sa_scaleDown :: scaleDown
  sa_PredicateChecker :: "'m predicateChecker"
  sa_initialized :: bool

record ('m, 's, 'sel) autoscalerEnv =
  ae_up :: "('m, 's) scaleUpEnv"
  ae_down :: "('m option, 'sel) scaleDownEnv"
  ae_ScaleDownEnabled :: bool
  ae_ScaleDownDelayAfterAdd :: duration
  ae_ScaleDownDelayAfterDelete :: duration
  ae_ScaleDownDelayAfterFailure :: duration
  ae_NewPodScaleUpDelay :: duration
  ae_WriteStatusConfigMap :: bool
  ae_ProcessPods :: "pod list \<Rightarrow> pod list \<Rightarrow> node list \<Rightarrow> string + pod list \<times> pod list"

text \<open>
  \<open>li_bulk\<close> is the outcome of the goroutines that delete empty nodes, \<open>li_Deletions\<close> what the deletions
  started by a scale-down do to the cloud, \<open>li_now\<close> the clock during the iteration.
\<close>

record ('s, 'sel) loopInput =
  li_Refresh :: "'s \<Rightarrow> string option \<times> 's"
  li_NodesToClean :: "string + node list"
  li_AllNodes :: "string + node list"
  li_ReadyNodes :: "string + node list"
  li_Unschedulable :: "string + pod list"
  li_Scheduled :: "string + pod list"
  li_DaemonSets :: "string + daemonSet list"
  li_Pdbs :: "string + 'sel podDisruptionBudget list"
  li_now :: time
  li_bulk :: "node list \<Rightarrow> clusterStateRegistry \<Rightarrow> autoscalerError option \<times> clusterStateRegistry"
  li_RemoveGroups :: "'s \<Rightarrow> 's"
  li_Deletions :: "startedDeletion \<Rightarrow> 's \<Rightarrow> 's"

definition NewStaticAutoscaler ::
  "cloudProvider \<Rightarrow> registryConfig \<Rightarrow> nodeGroup exponentialBackoff \<Rightarrow> 'm predicateChecker \<Rightarrow> time \<Rightarrow> 'm staticAutoscaler" where
  "NewStaticAutoscaler cp clusterStateConfig b pc now =
     \<lparr>sa_startTime = now, sa_lastScaleUpTime = now, sa_lastScaleDownDeleteTime = now, sa_lastScaleDownFailTime = now,
      sa_scaleDown = NewScaleDown (NewClusterStateRegistry cp clusterStateConfig b), sa_PredicateChecker = pc,
      sa_initialized = False\<rparr>"

abbreviation sa_registry :: "'m staticAutoscaler \<Rightarrow> clusterStateRegistry" where
  "sa_registry a \<equiv> sd_clusterStateRegistry (sa_scaleDown a)"

definition with_registry :: "clusterStateRegistry \<Rightarrow> 'm staticAutoscaler \<Rightarrow> 'm staticAutoscaler" where
  "with_registry csr a = a\<lparr>sa_scaleDown := (sa_scaleDown a)\<lparr>sd_clusterStateRegistry := csr\<rparr>\<rparr>"

definition up_env ::
  "('m, 's, 'sel) autoscalerEnv \<Rightarrow> ('s, 'sel) loopInput \<Rightarrow> daemonSet list \<Rightarrow> 'm staticAutoscaler \<Rightarrow> ('m, 's) scaleUpEnv" where
  "up_env env li daemonsets a =
     (ae_up env)\<lparr>su_daemonSets := daemonsets, su_PredicateChecker := sa_PredicateChecker a, su_now := li_now li\<rparr>"

text \<open>The scale-down asks the predicate checker; a predicate that panics counts as one that fails.\<close>

definition down_env ::
  "('m, 's, 'sel) autoscalerEnv \<Rightarrow> ('s, 'sel) loopInput \<Rightarrow> 's \<Rightarrow> 'm staticAutoscaler \<Rightarrow> ('m option, 'sel) scaleDownEnv" where
  "down_env env li s a =
     (ae_down env)\<lparr>env_CloudProvider := su_view (ae_up env) s,
       env_predicates := (\<lambda>p m info. passes (sa_PredicateChecker a) m p info),
       env_metadata := GetPredicateMetadata (sa_PredicateChecker a), env_now := li_now li\<rparr>"

section \<open>Before the loop proper\<close>

text \<open>The nodes whose taint is released, and the new state.\<close>

definition cleanUpIfRequired :: "('s, 'sel) loopInput \<Rightarrow> 'm staticAutoscaler \<Rightarrow> node list \<times> 'm staticAutoscaler" where
  "cleanUpIfRequired li a =
     (if sa_initialized a then ([], a)
      else (case li_NodesToClean li of Inl _ \<Rightarrow> [] | Inr nodes \<Rightarrow> nodes, a\<lparr>sa_initialized := True\<rparr>))"

definition obtainNodeLists :: "('s, 'sel) loopInput \<Rightarrow> autoscalerError + node list \<times> node list" where
  "obtainNodeLists li =
     (case li_AllNodes li of
        Inl err \<Rightarrow> Inl (NewAutoscalerError ApiCallError err)
      | Inr allNodes \<Rightarrow>
          (case li_ReadyNodes li of
             Inl err \<Rightarrow> Inl (NewAutoscalerError ApiCallError err)
           | Inr readyNodes \<Rightarrow> Inr (FilterOutNodesWithUnreadyGpus allNodes readyNodes)))"

definition onEmptyCluster :: "'m staticAutoscaler \<Rightarrow> 'm staticAutoscaler" where
  "onEmptyCluster a = a\<lparr>sa_scaleDown := CleanUpUnneededNodes (sa_scaleDown a)\<rparr>"

definition actOnEmptyCluster :: "node list \<Rightarrow> node list \<Rightarrow> 'm staticAutoscaler \<Rightarrow> bool \<times> 'm staticAutoscaler" where
  "actOnEmptyCluster allNodes readyNodes a =
     (if allNodes = [] then (True, onEmptyCluster a)
      else if readyNodes = [] then (True, onEmptyCluster a)
      else (False, a))"

definition updateClusterState ::
  "('m, 's, 'sel) autoscalerEnv \<Rightarrow> ('s, 'sel) loopInput \<Rightarrow> node list \<Rightarrow> time \<Rightarrow> 'm staticAutoscaler \<Rightarrow> 's \<Rightarrow>
     (autoscalerError option \<times> 'm staticAutoscaler \<times> 's) option" where
  "updateClusterState env li allNodes currentTime a s =
     (case li_Refresh li s of
        (Some err, s1) \<Rightarrow> Some (Some (NewAutoscalerError CloudProviderError err), a, s1)
      | (None, s1) \<Rightarrow>
          (case UpdateNodes allNodes currentTime ((sa_registry a)\<lparr>csr_cloudProvider := su_view (ae_up env) s1\<rparr>) of
             None \<Rightarrow> None
           | Some (Inl err) \<Rightarrow>
               Some (Some (NewAutoscalerError CloudProviderError err),
                     a\<lparr>sa_scaleDown := CleanUpUnneededNodes (sa_scaleDown a)\<rparr>, s1)
           | Some (Inr csr) \<Rightarrow> Some (None, with_registry csr a, s1)))"

section \<open>Repairs\<close>

text \<open>\<open>Some err\<close> ends the iteration with that error or none; \<open>None\<close> goes on.\<close>

definition repair ::
  "('m, 's, 'sel) autoscalerEnv \<Rightarrow> time \<Rightarrow> 'm staticAutoscaler \<Rightarrow> 's \<Rightarrow>
     autoscalerError option option \<times> 'm staticAutoscaler \<times> 's" where
  "repair env currentTime a s =
     (let ops = su_ops (ae_up env); maxProvision = su_MaxNodeProvisionTime (ae_up env); csr = sa_registry a
      in case removeOldUnregisteredNodes ops (cp_NodeGroupForNode (su_view (ae_up env) s)) maxProvision currentTime False s
                (GetUnregisteredNodes csr) of
           ((removedAny, Some err), s1) \<Rightarrow> (Some (Some (NewAutoscalerError CloudProviderError err)), a, s1)
         | ((removedAny, None), s1) \<Rightarrow>
             if removedAny then (Some None, a, s1)
             else if \<not> IsClusterHealthy csr
             then (Some None, a\<lparr>sa_scaleDown := CleanUpUnneededNodes (sa_scaleDown a)\<rparr>, s1)
             else
               (case fixNodeGroupSize ops maxProvision currentTime csr False s1
                       (cp_NodeGroups (su_view (ae_up env) s1)) of
                  ((fixedSomething, Some err), s2) \<Rightarrow> (Some (Some (NewAutoscalerError CloudProviderError err)), a, s2)
                | ((fixedSomething, None), s2) \<Rightarrow> (if fixedSomething then Some None else None, a, s2)))"

section \<open>Pods to help\<close>

definition filterOutYoungPods :: "duration \<Rightarrow> pod list \<Rightarrow> time \<Rightarrow> pod list" where
  "filterOutYoungPods newPodScaleUpDelay pods currentTime =
     filter (\<lambda>p. time_sub currentTime (pod_CreationTimestamp p) > newPodScaleUpDelay) pods"

definition allPodsAreNew :: "time \<Rightarrow> pod list \<Rightarrow> time \<Rightarrow> bool" where
  "allPodsAreNew now pods currentTime =
     (if time_after (time_add (getOldestCreateTime now pods) unschedulablePodTimeBuffer) currentTime then True
      else
        (case getOldestCreateTimeWithGpu now pods of
           (gpuFound, oldest) \<Rightarrow> gpuFound \<and> time_after (time_add oldest unschedulablePodWithGpuTimeBuffer) currentTime))"

definition list_pods ::
  "('m, 's, 'sel) autoscalerEnv \<Rightarrow> ('s, 'sel) loopInput \<Rightarrow> node list \<Rightarrow> autoscalerError + pod list \<times> pod list" where
  "list_pods env li allNodes =
     (case li_Unschedulable li of
        Inl err \<Rightarrow> Inl (NewAutoscalerError ApiCallError err)
      | Inr unschedulable \<Rightarrow>
          (case li_Scheduled li of
             Inl err \<Rightarrow> Inl (NewAutoscalerError ApiCallError err)
           | Inr scheduled \<Rightarrow>
               map_sum (NewAutoscalerError InternalError) id (ae_ProcessPods env unschedulable scheduled allNodes)))"

text \<open>The pods to help, those waiting for a preemption, and whether some unschedulable pod fits after all.\<close>

definition pods_to_help ::
  "('m, 's, 'sel) autoscalerEnv \<Rightarrow> 'm predicateChecker \<Rightarrow> time \<Rightarrow> node list \<Rightarrow> pod list \<Rightarrow> pod list \<Rightarrow>
     (pod list \<times> pod list \<times> bool) option" where
  "pods_to_help env pc currentTime readyNodes allUnschedulablePods allScheduled =
     (let cutoff = env_ExpendablePodsPriorityCutoff (ae_down env)
      in case FilterOutExpendableAndSplit (ClearTPURequests allUnschedulablePods) cutoff of
           (unschedulablePods, waiting) \<Rightarrow>
             map_option (\<lambda>toHelp. (filterOutYoungPods (ae_NewPodScaleUpDelay env) toHelp currentTime, waiting,
                                   length toHelp \<noteq> length unschedulablePods))
               (FilterOutSchedulable pc unschedulablePods readyNodes allScheduled waiting cutoff))"

section \<open>Scaling up\<close>

text \<open>
  \<open>Some err\<close> ends the iteration.  The status is the one the processor gets; the Boolean tells whether the
  scale-down is forbidden.
\<close>

definition scale_up_phase ::
  "('m, 's, 'sel) autoscalerEnv \<Rightarrow> ('s, 'sel) loopInput \<Rightarrow> time \<Rightarrow> node list \<Rightarrow> pod list \<Rightarrow> 'm staticAutoscaler \<Rightarrow> 's \<Rightarrow>
     ((autoscalerError option option \<times> scaleUpStatus \<times> bool) \<times> 'm staticAutoscaler \<times> 's) option" where
  "scale_up_phase env li currentTime readyNodes toHelp a s =
     (if toHelp = [] then Some ((None, plain_status ScaleUpNotNeeded, False), a, s)
      else if su_MaxNodesTotal (ae_up env) > 0 \<and> int (length readyNodes) \<ge> su_MaxNodesTotal (ae_up env)
      then Some ((None, plain_status ScaleUpNoOptionsAvailable, False), a, s)
      else if allPodsAreNew (li_now li) toHelp currentTime
      then Some ((None, plain_status ScaleUpInCooldown, True), a, s)
      else
        (case li_DaemonSets li of
           Inl err \<Rightarrow> Some ((Some (Some (NewAutoscalerError ApiCallError err)), plain_status ScaleUpError, False), a, s)
         | Inr daemonsets \<Rightarrow>
             (case ScaleUp (up_env env li daemonsets a) (sa_registry a) toHelp readyNodes s of
                None \<Rightarrow> None
              | Some ((st, Some err), csr, s1) \<Rightarrow> Some ((Some (Some err), st, False), with_registry csr a, s1)
              | Some ((st, None), csr, s1) \<Rightarrow>
                  (let a1 = with_registry csr a
                   in if sus_Result st = ScaleUpSuccessful
                      then Some ((Some None, st, False), a1\<lparr>sa_lastScaleUpTime := currentTime\<rparr>, s1)
                      else Some ((None, st, False), a1, s1)))))"

section \<open>Scaling down\<close>

definition down_status :: "scaleDownResult \<Rightarrow> scaleDownStatus" where
  "down_status r = \<lparr>sds_Result = r, sds_ScaledDownNodes = [], sds_NodeDeleteResults = []\<rparr>"

definition idle_down :: "scaleDownResult \<Rightarrow> scaleDownStatus \<times> startedDeletion" where
  "idle_down r = (down_status r, NothingStarted)"

definition scale_down_in_cooldown ::
  "('m, 's, 'sel) autoscalerEnv \<Rightarrow> bool \<Rightarrow> time \<Rightarrow> 'm staticAutoscaler \<Rightarrow> bool" where
  "scale_down_in_cooldown env scaleDownForbidden currentTime a \<longleftrightarrow>
     scaleDownForbidden \<or>
     time_after (time_add (sa_lastScaleUpTime a) (ae_ScaleDownDelayAfterAdd env)) currentTime \<or>
     time_after (time_add (sa_lastScaleDownFailTime a) (ae_ScaleDownDelayAfterFailure env)) currentTime \<or>
     time_after (time_add (sa_lastScaleDownDeleteTime a) (ae_ScaleDownDelayAfterDelete env)) currentTime"

definition delete_unneeded ::
  "('m, 's, 'sel) autoscalerEnv \<Rightarrow> ('s, 'sel) loopInput \<Rightarrow> time \<Rightarrow> node list \<Rightarrow> pod list \<Rightarrow> 'sel podDisruptionBudget list \<Rightarrow>
     'm staticAutoscaler \<Rightarrow> 's \<Rightarrow> ((autoscalerError option \<times> scaleDownStatus \<times> startedDeletion) \<times> 'm staticAutoscaler \<times> 's) option" where
  "delete_unneeded env li currentTime allNodes allScheduled pdbs a s =
     (let s1 = li_RemoveGroups li s
      in case TryToScaleDown (down_env env li s1 a) (li_bulk li) allNodes allScheduled pdbs currentTime (sa_scaleDown a) of
           None \<Rightarrow> None
         | Some (st, err, sd, started) \<Rightarrow>
             (let s2 = li_Deletions li started s1;
                  a1 = a\<lparr>sa_scaleDown := sd\<rparr>;
                  a2 = (if sds_Result st = ScaleDownNodeDeleted
                        then with_registry (Recalculate ((sa_registry a1)\<lparr>csr_cloudProvider := su_view (ae_up env) s2\<rparr>))
                               (a1\<lparr>sa_lastScaleDownDeleteTime := currentTime\<rparr>)
                        else a1)
              in Some ((err, st, started), if err \<noteq> None then a2\<lparr>sa_lastScaleDownFailTime := currentTime\<rparr> else a2, s2)))"

definition scale_down_phase ::
  "('m, 's, 'sel) autoscalerEnv \<Rightarrow> ('s, 'sel) loopInput \<Rightarrow> time \<Rightarrow> node list \<Rightarrow> pod list \<Rightarrow> pod list \<Rightarrow> bool \<Rightarrow>
     'm staticAutoscaler \<Rightarrow> 's \<Rightarrow> ((autoscalerError option \<times> scaleDownStatus \<times> startedDeletion) \<times> 'm staticAutoscaler \<times> 's) option" where
  "scale_down_phase env li currentTime allNodes allScheduled waiting scaleDownForbidden a s =
     (if \<not> ae_ScaleDownEnabled env then Some ((None, idle_down ScaleDownNotTried), a, s)
      else
        (case li_Pdbs li of
           Inl err \<Rightarrow> Some ((Some (NewAutoscalerError ApiCallError err), idle_down ScaleDownError), a, s)
         | Inr pdbs \<Rightarrow>
             (let denv = down_env env li s a;
                  sd = CleanUpScaleDown denv currentTime (sa_scaleDown a)
              in case UpdateUnneededNodes denv allNodes (getPotentiallyUnneededNodes (env_CloudProvider denv) allNodes)
                        (allScheduled @ waiting) currentTime pdbs sd of
                   None \<Rightarrow> None
                 | Some sd1 \<Rightarrow>
                     (let a1 = a\<lparr>sa_scaleDown := sd1\<rparr>
                      in if scale_down_in_cooldown env scaleDownForbidden currentTime a1
                         then Some ((None, idle_down ScaleDownInCooldown), a1, s)
                         else if nds_deleteInProgress (sd_nodeDeleteStatus sd1)
                         then Some ((None, idle_down ScaleDownInProgress), a1, s)
                         else delete_unneeded env li currentTime allNodes allScheduled pdbs a1 s))))"

section \<open>An iteration\<close>

text \<open>Beside the statuses, which go to the processors, the outcome tells which deletion was started.\<close>

record ('m, 's) loopOutcome =
  lo_Error :: "autoscalerError option"
  lo_Statuses :: "(scaleUpStatus \<times> scaleDownStatus \<times> startedDeletion) option"
  lo_Cleaned :: "node list"
  lo_WrittenStatus :: "caStatus option"
  lo_State :: "'m staticAutoscaler"
  lo_Cloud :: 's

text \<open>The iteration after the deferred function is set up: the error, the two statuses with the deletion started, the state.\<close>

definition loop_body ::
  "('m, 's, 'sel) autoscalerEnv \<Rightarrow> ('s, 'sel) loopInput \<Rightarrow> time \<Rightarrow> node list \<Rightarrow> node list \<Rightarrow> 'm staticAutoscaler \<Rightarrow> 's \<Rightarrow>
     ((autoscalerError option \<times> scaleUpStatus \<times> scaleDownStatus \<times> startedDeletion) \<times> 'm staticAutoscaler \<times> 's) option" where
  "loop_body env li currentTime allNodes readyNodes a s =
     (let notTried = (plain_status ScaleUpNotTried, idle_down ScaleDownNotTried)
      in case repair env currentTime a s of
           (Some err, a1, s1) \<Rightarrow> Some ((err, notTried), a1, s1)
         | (None, a1, s1) \<Rightarrow>
             (case list_pods env li allNodes of
                Inl err \<Rightarrow> Some ((Some err, notTried), a1, s1)
              | Inr (allUnschedulable, allScheduled) \<Rightarrow>
                  (let a2 = a1\<lparr>sa_PredicateChecker :=
                         ConfigurePredicateCheckerForLoop allUnschedulable allScheduled (sa_PredicateChecker a1)\<rparr>
                   in case pods_to_help env (sa_PredicateChecker a2) currentTime readyNodes allUnschedulable allScheduled of
                        None \<Rightarrow> None
                      | Some (toHelp, waiting, schedulablePresent) \<Rightarrow>
                          (case scale_up_phase env li currentTime readyNodes toHelp a2 s1 of
                             None \<Rightarrow> None
                           | Some ((Some err, st, forbidden), a3, s3) \<Rightarrow>
                               Some ((err, st, idle_down (if err = None then ScaleDownInCooldown else ScaleDownNotTried)), a3, s3)
                           | Some ((None, st, forbidden), a3, s3) \<Rightarrow>
                               map_option (\<lambda>((err, dst), r). ((err, st, dst), r))
                                 (scale_down_phase env li currentTime allNodes allScheduled waiting
                                   (schedulablePresent \<or> forbidden) a3 s3)))))"

definition write_status ::
  "('m, 's, 'sel) autoscalerEnv \<Rightarrow> time \<Rightarrow> 'm staticAutoscaler \<Rightarrow> 's \<Rightarrow> caStatus option \<times> 'm staticAutoscaler" where
  "write_status env currentTime a s =
     (if ae_WriteStatusConfigMap env then
        (case GetStatus currentTime ((sa_registry a)\<lparr>csr_cloudProvider := su_view (ae_up env) s\<rparr>) of
           (st, csr) \<Rightarrow> (Some st, with_registry csr a))
      else (None, a))"

definition early_outcome ::
  "autoscalerError option \<Rightarrow> node list \<Rightarrow> 'm staticAutoscaler \<Rightarrow> 's \<Rightarrow> ('m, 's) loopOutcome" where
  "early_outcome err cleaned a s =
     \<lparr>lo_Error = err, lo_Statuses = None, lo_Cleaned = cleaned, lo_WrittenStatus = None, lo_State = a, lo_Cloud = s\<rparr>"

definition RunOnce ::
  "('m, 's, 'sel) autoscalerEnv \<Rightarrow> ('s, 'sel) loopInput \<Rightarrow> time \<Rightarrow> 'm staticAutoscaler \<Rightarrow> 's \<Rightarrow> ('m, 's) loopOutcome option" where
  "RunOnce env li currentTime a0 s =
     (case cleanUpIfRequired li a0 of
        (cleaned, a) \<Rightarrow>
          (case obtainNodeLists li of
             Inl err \<Rightarrow> Some (early_outcome (Some err) cleaned a s)
           | Inr (allNodes, readyNodes) \<Rightarrow>
               (case actOnEmptyCluster allNodes readyNodes a of
                  (True, a1) \<Rightarrow> Some (early_outcome None cleaned a1 s)
                | (False, a1) \<Rightarrow>
                    (case updateClusterState env li allNodes currentTime a1 s of
                       None \<Rightarrow> None
                     | Some (Some err, a2, s2) \<Rightarrow> Some (early_outcome (Some err) cleaned a2 s2)
                     | Some (None, a2, s2) \<Rightarrow>
                         map_option (\<lambda>((err, ust, dst), a3, s3).
                             case write_status env currentTime a3 s3 of
                               (written, a4) \<Rightarrow>
                                 \<lparr>lo_Error = err, lo_Statuses = Some (ust, dst), lo_Cleaned = cleaned,
                                  lo_WrittenStatus = written, lo_State = a4, lo_Cloud = s3\<rparr>)
                           (loop_body env li currentTime allNodes readyNodes a2 s2)))))"

end
