(* ===== verification/StaticAutoscalerRun.thy ===== *)
theory StaticAutoscalerRun
  imports StaticAutoscaler ScaleDownProps ScaleUpProps
begin

text \<open>
  What the control loop guarantees over many iterations: the autoscaler as a state machine whose steps are
  iterations, the end of a drain, and changes of the cloud from outside.
\<close>

section \<open>One iteration\<close>

abbreviation in_progress :: "'m staticAutoscaler \<Rightarrow> bool" where
  "in_progress a \<equiv> nds_deleteInProgress (sd_nodeDeleteStatus (sa_scaleDown a))"

abbreviation unneeded_of :: "'m staticAutoscaler \<Rightarrow> (string, time) gomap" where
  "unneeded_of a \<equiv> sd_unneededNodes (sa_scaleDown a)"

text \<open>The phases before the scale-down leave the timers alone; they may clear the unneeded nodes.\<close>

definition timers_kept :: "'m staticAutoscaler \<Rightarrow> 'm staticAutoscaler \<Rightarrow> bool" where
  "timers_kept a a' \<longleftrightarrow> sa_lastScaleUpTime a' = sa_lastScaleUpTime a \<and>
     sa_lastScaleDownDeleteTime a' = sa_lastScaleDownDeleteTime a \<and>
     sa_lastScaleDownFailTime a' = sa_lastScaleDownFailTime a \<and> in_progress a' = in_progress a \<and>
     (unneeded_of a' = unneeded_of a \<or> unneeded_of a' = [])"

lemma timers_kept_refl: "timers_kept a a"
  by (simp add: timers_kept_def)

lemma timers_kept_trans: "timers_kept a b \<Longrightarrow> timers_kept b c \<Longrightarrow> timers_kept a c"
  by (auto simp: timers_kept_def)

lemma timers_kept_registry: "timers_kept a (with_registry csr a)"
  by (simp add: timers_kept_def with_registry_def)

lemma timers_kept_cleared: "timers_kept a (a\<lparr>sa_scaleDown := CleanUpUnneededNodes (sa_scaleDown a)\<rparr>)"
  by (simp add: timers_kept_def CleanUpUnneededNodes_def)

lemmas timers_kept_intros = timers_kept_refl timers_kept_registry timers_kept_cleared

lemma cleanUp_kept: "cleanUpIfRequired li a = (cleaned, a') \<Longrightarrow> timers_kept a a'"
  by (auto simp: cleanUpIfRequired_def timers_kept_def split: if_splits)

lemma actOnEmpty_kept: "actOnEmptyCluster allNodes readyNodes a = (acted, a') \<Longrightarrow> timers_kept a a'"
  by (auto simp: actOnEmptyCluster_def onEmptyCluster_def intro: timers_kept_intros split: if_splits)

lemma updateClusterState_kept:
  "updateClusterState env li allNodes t a s = Some (err, a', s') \<Longrightarrow> timers_kept a a'"
  by (auto simp: updateClusterState_def intro: timers_kept_intros split: prod.splits option.splits sum.splits)

lemma repair_kept: "repair env t a s = (stop, a', s') \<Longrightarrow> timers_kept a a'"
  by (auto simp: repair_def Let_def intro: timers_kept_intros split: prod.splits option.splits if_splits)

lemma scale_up_option_error:
  "scale_up_option env inp os pods nodes opt csr s = Some ((st, Some err), csr', s') \<Longrightarrow> sus_Result st = ScaleUpError"
  by (auto simp: scale_up_option_def failed_def plain_not_successful split: sum.splits option.splits prod.splits)

lemma ScaleUp_error:
  "ScaleUp env csr pods nodes s = Some ((st, Some err), csr', s') \<Longrightarrow> sus_Result st = ScaleUpError"
  by (auto simp: ScaleUp_def failed_def plain_not_successful Let_def dest: scale_up_option_error
      split: sum.splits option.splits prod.splits if_splits)

lemma scale_up_phase_kept:
  assumes "scale_up_phase env li t readyNodes toHelp a s = Some ((stop, st, forbidden), a', s')"
  shows "(sus_Result st = ScaleUpSuccessful \<longleftrightarrow> stop = Some None) \<and>
    timers_kept (if stop = Some None then a\<lparr>sa_lastScaleUpTime := t\<rparr> else a) a'"
proof -
  have up: "timers_kept (a\<lparr>sa_lastScaleUpTime := t\<rparr>) ((with_registry csr a)\<lparr>sa_lastScaleUpTime := t\<rparr>)" for csr
    by (simp add: timers_kept_def with_registry_def)
  show ?thesis
    using assms
    by (auto simp: scale_up_phase_def Let_def plain_not_successful up dest!: ScaleUp_error intro: timers_kept_intros
        split: if_splits sum.splits option.splits prod.splits)
qed

lemma UpdateUnneededNodes_progress:
  "UpdateUnneededNodes env nodes nodesToCheck pods t pdbs sd = Some sd' \<Longrightarrow> sd_nodeDeleteStatus sd' = sd_nodeDeleteStatus sd"
  by (auto simp: UpdateUnneededNodes_def Let_def split: prod.splits option.splits)

lemma forget_nodes_shrinks:
  "mget (sd_unneededNodes (forget_nodes ns sd)) k = Some v \<Longrightarrow> mget (sd_unneededNodes sd) k = Some v"
proof (induction ns arbitrary: sd)
  case (Cons n ns)
  obtain tr m where r: "RemoveNodeFromTracker (sd_usageTracker sd) (n_Name n) (sd_unneededNodes sd) = (tr, m)"
    by (cases "RemoveNodeFromTracker (sd_usageTracker sd) (n_Name n) (sd_unneededNodes sd)")
  have "mget m k = Some v"
    using Cons.IH [of "sd\<lparr>sd_usageTracker := tr, sd_unneededNodes := m\<rparr>"] Cons.prems by (simp add: forget_nodes_def r)
  moreover have "mget m k = Some v \<Longrightarrow> mget (sd_unneededNodes sd) k = Some v"
    using r by (auto simp: RemoveNodeFromTracker_def Let_def am.lookup_remove_loop split: if_splits)
  ultimately show ?case by blast
qed (simp add: forget_nodes_def)

lemma TryToScaleDown_state:
  assumes "TryToScaleDown env bulk allNodes pods pdbs t sd = Some (status, err, sd', started)"
  shows "nds_deleteInProgress (sd_nodeDeleteStatus sd') \<longleftrightarrow> is_drain started \<or> nds_deleteInProgress (sd_nodeDeleteStatus sd)"
    and "mget (sd_unneededNodes sd') k = Some v \<Longrightarrow> mget (sd_unneededNodes sd) k = Some v"
    and "n \<in> set (started_nodes started) \<Longrightarrow> long_unneeded env sd t n"
proof -
  have drained: "sd_unneededNodes (drained sd) = sd_unneededNodes sd"
    "nds_deleteInProgress (sd_nodeDeleteStatus (drained sd)) = nds_deleteInProgress (sd_nodeDeleteStatus sd)"
    by (simp_all add: DrainNodeDeleteResults_def)
  show "nds_deleteInProgress (sd_nodeDeleteStatus sd') \<longleftrightarrow> is_drain started \<or> nds_deleteInProgress (sd_nodeDeleteStatus sd)"
    using assms by (cases rule: TryToScaleDown_cases)
      (simp_all add: forget_nodes_frame Let_def SetDeleteInProgress_def DrainNodeDeleteResults_def)
  show "mget (sd_unneededNodes sd') k = Some v \<Longrightarrow> mget (sd_unneededNodes sd) k = Some v"
    using assms by (cases rule: TryToScaleDown_cases) (auto simp: Let_def dest: forget_nodes_shrinks)
  show "n \<in> set (started_nodes started) \<Longrightarrow> long_unneeded env sd t n"
    using scaled_down_candidates [OF assms] by auto
qed

text \<open>How long a node has to be unneeded before it may go.\<close>

definition unneeded_time :: "('m, 's, 'sel) autoscalerEnv \<Rightarrow> node \<Rightarrow> duration" where
  "unneeded_time env n =
     (if nodeIsReady n then env_ScaleDownUnneededTime (ae_down env) else env_ScaleDownUnreadyTime (ae_down env))"

definition since_when :: "time \<Rightarrow> 'm staticAutoscaler \<Rightarrow> string \<Rightarrow> time \<Rightarrow> bool" where
  "since_when t a name v \<longleftrightarrow> v = t \<or> mget (unneeded_of a) name = Some v"

definition may_delete ::
  "('m, 's, 'sel) autoscalerEnv \<Rightarrow> time \<Rightarrow> 'm staticAutoscaler \<Rightarrow> bool" where
  "may_delete env t a \<longleftrightarrow> \<not> in_progress a \<and>
     sa_lastScaleUpTime a + ae_ScaleDownDelayAfterAdd env \<le> t \<and>
     sa_lastScaleDownFailTime a + ae_ScaleDownDelayAfterFailure env \<le> t \<and>
     sa_lastScaleDownDeleteTime a + ae_ScaleDownDelayAfterDelete env \<le> t"

lemma unneeded_after_update:
  assumes "UpdateUnneededNodes env nodes nodesToCheck pods t pdbs sd = Some sd'" "mget (sd_unneededNodes sd') k = Some v"
  shows "v = t \<or> mget (sd_unneededNodes sd) k = Some v"
  using unneeded_since_first_found [OF assms(1), of k] assms(2) by (auto split: if_splits option.splits)

lemma delete_unneeded_effect:
  assumes "delete_unneeded env li t allNodes allScheduled pdbs a s = Some ((err, st, started), a', s')"
  shows "sa_lastScaleUpTime a' = sa_lastScaleUpTime a"
    and "in_progress a' \<longleftrightarrow> is_drain started \<or> in_progress a"
    and "mget (unneeded_of a') k = Some v \<Longrightarrow> mget (unneeded_of a) k = Some v"
    and "n \<in> set (started_nodes started) \<Longrightarrow>
      \<exists>v. mget (unneeded_of a) (n_Name n) = Some v \<and> v + unneeded_time env n < t"
proof -
  obtain denv sd s2 where attempt: "TryToScaleDown denv (li_bulk li) allNodes allScheduled pdbs t (sa_scaleDown a) =
      Some (st, err, sd, started)" and denv: "denv = down_env env li s2 a"
    and a': "sa_lastScaleUpTime a' = sa_lastScaleUpTime a"
      "sd_nodeDeleteStatus (sa_scaleDown a') = sd_nodeDeleteStatus sd" "sd_unneededNodes (sa_scaleDown a') = sd_unneededNodes sd"
    using assms by (auto simp: delete_unneeded_def Let_def with_registry_def split: option.splits prod.splits if_splits)
  note state = TryToScaleDown_state [OF attempt]
  show "sa_lastScaleUpTime a' = sa_lastScaleUpTime a" by (rule a')
  show "in_progress a' \<longleftrightarrow> is_drain started \<or> in_progress a" using state(1) a' by simp
  show "mget (unneeded_of a') k = Some v \<Longrightarrow> mget (unneeded_of a) k = Some v" using state(2) a' by simp
  assume "n \<in> set (started_nodes started)"
  then have "long_unneeded denv (sa_scaleDown a) t n" by (rule state(3))
  then show "\<exists>v. mget (unneeded_of a) (n_Name n) = Some v \<and> v + unneeded_time env n < t"
    by (auto simp: long_unneeded_def denv down_env_def unneeded_time_def)
qed

lemma scale_down_phase_effect:
  assumes "scale_down_phase env li t allNodes allScheduled waiting forbidden a s = Some ((err, st, started), a', s')"
  shows "sa_lastScaleUpTime a' = sa_lastScaleUpTime a \<and>
    (in_progress a' \<longleftrightarrow> is_drain started \<or> in_progress a) \<and>
    (\<forall>k v. mget (unneeded_of a') k = Some v \<longrightarrow> since_when t a k v) \<and>
    (started_nodes started \<noteq> [] \<longrightarrow> \<not> forbidden \<and> may_delete env t a) \<and>
    (\<forall>n\<in>set (started_nodes started). \<exists>v. since_when t a (n_Name n) v \<and> v + unneeded_time env n < t)"
proof (cases "ae_ScaleDownEnabled env")
  case False
  then show ?thesis using assms by (auto simp: scale_down_phase_def idle_down_def since_when_def)
next
  case enabled: True
  show ?thesis
  proof (cases "li_Pdbs li")
    case (Inl e)
    then show ?thesis using assms enabled by (auto simp: scale_down_phase_def idle_down_def since_when_def)
  next
    case (Inr pdbs)
    let ?denv = "down_env env li s a"
    obtain sd1 where upd: "UpdateUnneededNodes ?denv allNodes (getPotentiallyUnneededNodes (env_CloudProvider ?denv) allNodes)
        (allScheduled @ waiting) t pdbs (CleanUpScaleDown ?denv t (sa_scaleDown a)) = Some sd1"
      using assms enabled Inr by (auto simp: scale_down_phase_def Let_def split: option.splits)
    let ?a1 = "a\<lparr>sa_scaleDown := sd1\<rparr>"
    have rest: "(if scale_down_in_cooldown env forbidden t ?a1 then Some ((None, idle_down ScaleDownInCooldown), ?a1, s)
        else if nds_deleteInProgress (sd_nodeDeleteStatus sd1) then Some ((None, idle_down ScaleDownInProgress), ?a1, s)
        else delete_unneeded env li t allNodes allScheduled pdbs ?a1 s) = Some ((err, st, started), a', s')"
      using assms enabled Inr upd by (simp add: scale_down_phase_def Let_def)
    have prog: "in_progress ?a1 = in_progress a"
      using UpdateUnneededNodes_progress [OF upd] by (simp add: CleanUpScaleDown_def)
    have since: "since_when t a k v" if "mget (unneeded_of ?a1) k = Some v" for k v
      using unneeded_after_update [OF upd, of k v] that by (simp add: CleanUpScaleDown_def since_when_def)
    have may: "may_delete env t a" if "\<not> scale_down_in_cooldown env forbidden t ?a1" "\<not> in_progress ?a1"
      using that prog by (auto simp: may_delete_def scale_down_in_cooldown_def time_defs)
    consider "(st, started) = idle_down ScaleDownInCooldown" "a' = ?a1" | "(st, started) = idle_down ScaleDownInProgress" "a' = ?a1"
      | "\<not> scale_down_in_cooldown env forbidden t ?a1" "\<not> in_progress ?a1"
        "delete_unneeded env li t allNodes allScheduled pdbs ?a1 s = Some ((err, st, started), a', s')"
      using rest by (auto split: if_splits)
    then show ?thesis
    proof cases
      case 3
      note effect = delete_unneeded_effect [OF 3(3)]
      have "\<not> forbidden" using 3(1) by (simp add: scale_down_in_cooldown_def)
      moreover have "\<forall>k v. mget (unneeded_of a') k = Some v \<longrightarrow> since_when t a k v" using effect(3) since by blast
      moreover have "\<forall>n\<in>set (started_nodes started). \<exists>v. since_when t a (n_Name n) v \<and> v + unneeded_time env n < t"
        using effect(4) since by blast
      moreover have "sa_lastScaleUpTime a' = sa_lastScaleUpTime a" using effect(1) by simp
      ultimately show ?thesis using effect(2) may [OF 3(1,2)] prog by blast
    qed (use prog since in \<open>auto simp: idle_down_def\<close>)
  qed
qed

definition scaled_up :: "('m, 's) loopOutcome \<Rightarrow> bool" where
  "scaled_up out \<longleftrightarrow> (case lo_Statuses out of None \<Rightarrow> False | Some (ust, dst) \<Rightarrow> sus_Result ust = ScaleUpSuccessful)"

text \<open>The nodes whose deletion the iteration started, by a drain or in bulk, whatever came of it.\<close>

definition started_of :: "('m, 's) loopOutcome \<Rightarrow> startedDeletion" where
  "started_of out = (case lo_Statuses out of None \<Rightarrow> NothingStarted | Some (_, _, started) \<Rightarrow> started)"

definition gone_nodes :: "('m, 's) loopOutcome \<Rightarrow> node list" where
  "gone_nodes out = started_nodes (started_of out)"

definition drain_started :: "('m, 's) loopOutcome \<Rightarrow> bool" where
  "drain_started out \<longleftrightarrow> is_drain (started_of out)"

lemma timers_kept_since: "timers_kept a a' \<Longrightarrow> since_when t a' k v \<Longrightarrow> since_when t a k v"
  by (auto simp: timers_kept_def since_when_def)

lemma timers_kept_may: "timers_kept a a' \<Longrightarrow> may_delete env t a' = may_delete env t a"
  by (auto simp: timers_kept_def may_delete_def)

lemma timers_kept_checker: "timers_kept a (a\<lparr>sa_PredicateChecker := pc\<rparr>)"
  by (simp add: timers_kept_def)

text \<open>What one iteration, run in state \<open>a\<close> at time \<open>t\<close>, does to the timers.\<close>

definition loop_effect ::
  "('m, 's, 'sel) autoscalerEnv \<Rightarrow> time \<Rightarrow> 'm staticAutoscaler \<Rightarrow> bool \<Rightarrow> startedDeletion \<Rightarrow> 'm staticAutoscaler \<Rightarrow> bool" where
  "loop_effect env t a up started a' \<longleftrightarrow>
     sa_lastScaleUpTime a' = (if up then t else sa_lastScaleUpTime a) \<and>
     (in_progress a' \<longleftrightarrow> is_drain started \<or> in_progress a) \<and>
     (\<forall>k v. mget (unneeded_of a') k = Some v \<longrightarrow> since_when t a k v) \<and>
     (started_nodes started \<noteq> [] \<longrightarrow> \<not> up \<and> may_delete env t a) \<and>
     (\<forall>n\<in>set (started_nodes started). \<exists>v. since_when t a (n_Name n) v \<and> v + unneeded_time env n < t)"

lemma loop_effect_idle:
  assumes "timers_kept (if up then a\<lparr>sa_lastScaleUpTime := t\<rparr> else a) a'"
  shows "loop_effect env t a up NothingStarted a'"
  using assms by (auto simp: loop_effect_def timers_kept_def since_when_def split: if_splits)

lemma loop_effect_after:
  assumes "timers_kept a b" "loop_effect env t b up started a'"
  shows "loop_effect env t a up started a'"
proof -
  have since: "since_when t a k v" if "since_when t b k v" for k v by (rule timers_kept_since [OF assms(1) that])
  have same: "may_delete env t b = may_delete env t a" "sa_lastScaleUpTime b = sa_lastScaleUpTime a"
    "in_progress b = in_progress a"
    using assms(1) timers_kept_may [OF assms(1)] by (simp_all add: timers_kept_def)
  show ?thesis using assms(2) since unfolding loop_effect_def same by blast
qed

lemma loop_body_effect:
  assumes "loop_body env li t allNodes readyNodes a s = Some ((err, ust, dst, started), a', s')"
  shows "loop_effect env t a (sus_Result ust = ScaleUpSuccessful) started a'"
proof -
  obtain stop a1 s1 where rep: "repair env t a s = (stop, a1, s1)" by (cases "repair env t a s") auto
  note k1 = repair_kept [OF rep]
  show ?thesis
  proof (cases "stop = None \<and> (\<exists>p. list_pods env li allNodes = Inr p)")
    case False
    then have "a' = a1" "ust = plain_status ScaleUpNotTried" "started = NothingStarted"
      using assms rep by (auto simp: loop_body_def Let_def idle_down_def split: option.splits sum.splits)
    then show ?thesis using k1 by (simp add: loop_effect_idle plain_not_successful)
  next
    case True
    then obtain allUnschedulable allScheduled where p: "stop = None" "list_pods env li allNodes = Inr (allUnschedulable, allScheduled)"
      by auto
    define a2 where "a2 = a1\<lparr>sa_PredicateChecker :=
        ConfigurePredicateCheckerForLoop allUnschedulable allScheduled (sa_PredicateChecker a1)\<rparr>"
    have pc: "ConfigurePredicateCheckerForLoop allUnschedulable allScheduled (sa_PredicateChecker a1) = sa_PredicateChecker a2"
      "a1\<lparr>sa_PredicateChecker := sa_PredicateChecker a2\<rparr> = a2"
      by (simp_all add: a2_def)
    have k2: "timers_kept a a2" using k1 unfolding a2_def by (rule timers_kept_trans) (rule timers_kept_checker)
    obtain toHelp waiting present where h: "pods_to_help env (sa_PredicateChecker a2) t readyNodes allUnschedulable allScheduled =
        Some (toHelp, waiting, present)"
      using assms rep p by (auto simp: loop_body_def Let_def pc split: option.splits)
    obtain stop' st forbidden a3 s3 where u: "scale_up_phase env li t readyNodes toHelp a2 s1 =
        Some ((stop', st, forbidden), a3, s3)"
      using assms rep p h by (auto simp: loop_body_def Let_def pc split: option.splits)
    note up = scale_up_phase_kept [OF u]
    show ?thesis
    proof (cases stop')
      case (Some e)
      then have "a' = a3" "ust = st" "started = NothingStarted"
        using assms rep p h u by (auto simp: loop_body_def Let_def pc idle_down_def)
      then have "loop_effect env t a2 (sus_Result ust = ScaleUpSuccessful) started a'"
        using up by (simp add: loop_effect_idle)
      then show ?thesis by (rule loop_effect_after [OF k2])
    next
      case None
      then have d: "scale_down_phase env li t allNodes allScheduled waiting (present \<or> forbidden) a3 s3 = Some ((err, dst, started), a', s')"
        and ust: "ust = st"
        using assms rep p h u by (auto simp: loop_body_def Let_def pc)
      have no: "sus_Result ust \<noteq> ScaleUpSuccessful" using up None ust by simp
      have "timers_kept a2 a3" using up None by simp
      with k2 have "timers_kept a a3" by (rule timers_kept_trans)
      moreover have "loop_effect env t a3 (sus_Result ust = ScaleUpSuccessful) started a'"
        using scale_down_phase_effect [OF d] no unfolding loop_effect_def if_not_P [OF no] by blast
      ultimately show ?thesis by (rule loop_effect_after)
    qed
  qed
qed

lemma loop_effect_written:
  assumes "write_status env t a s = (written, a')" "loop_effect env t a0 up started a"
  shows "loop_effect env t a0 up started a'"
proof -
  have "timers_kept a a'" "unneeded_of a' = unneeded_of a"
    using assms(1) by (auto simp: write_status_def timers_kept_def with_registry_def split: if_splits prod.splits)
  with assms(2) show ?thesis by (simp add: loop_effect_def timers_kept_def)
qed

lemma RunOnce_effect:
  assumes "RunOnce env li t a s = Some out"
  shows "loop_effect env t a (scaled_up out) (started_of out) (lo_State out)"
proof -
  obtain cleaned a1 where c: "cleanUpIfRequired li a = (cleaned, a1)" by (cases "cleanUpIfRequired li a")
  note k1 = cleanUp_kept [OF c]
  have early: ?thesis if "out = early_outcome err cleaned a' s'" "timers_kept a a'" for err a' s'
    using that by (auto simp: early_outcome_def scaled_up_def started_of_def intro: loop_effect_idle)
  show ?thesis
  proof (cases "obtainNodeLists li")
    case (Inl e)
    then show ?thesis using assms c k1 by (intro early) (auto simp: RunOnce_def)
  next
    case (Inr nodes)
    obtain allNodes readyNodes where n: "nodes = (allNodes, readyNodes)" by (cases nodes)
    obtain acted a2 where e: "actOnEmptyCluster allNodes readyNodes a1 = (acted, a2)"
      by (cases "actOnEmptyCluster allNodes readyNodes a1")
    have k2: "timers_kept a a2" using k1 actOnEmpty_kept [OF e] by (rule timers_kept_trans)
    show ?thesis
    proof (cases acted)
      case True
      then show ?thesis using assms c Inr n e k2 by (intro early) (auto simp: RunOnce_def)
    next
      case False
      obtain err a3 s3 where u: "updateClusterState env li allNodes t a2 s = Some (err, a3, s3)"
        using assms c Inr n e False by (auto simp: RunOnce_def split: option.splits)
      have k3: "timers_kept a a3" using k2 updateClusterState_kept [OF u] by (rule timers_kept_trans)
      show ?thesis
      proof (cases err)
        case (Some e')
        then show ?thesis using assms c Inr n e False u k3 by (intro early) (auto simp: RunOnce_def)
      next
        case None
        obtain err' ust dst started a4 s4 where b: "loop_body env li t allNodes readyNodes a3 s3 = Some ((err', ust, dst, started), a4, s4)"
          using assms c Inr n e False u None by (auto simp: RunOnce_def)
        obtain written a5 where w: "write_status env t a4 s4 = (written, a5)" by (cases "write_status env t a4 s4")
        have out: "lo_Statuses out = Some (ust, dst, started)" "lo_State out = a5"
          using assms c Inr n e False u None b w by (auto simp: RunOnce_def)
        have "loop_effect env t a (sus_Result ust = ScaleUpSuccessful) started a5"
          by (rule loop_effect_written [OF w]) (rule loop_effect_after [OF k3 loop_body_effect [OF b]])
        then show ?thesis using out by (simp add: scaled_up_def started_of_def)
      qed
    qed
  qed
qed

section \<open>The autoscaler as a state machine\<close>

text \<open>
  The nodes that are being drained and the outcomes of the iterations are recorded beside the state.  A
  drain ends at any time between iterations; the cloud may change at any time.
\<close>

record ('m, 's) caSystem =
  cs_State :: "'m staticAutoscaler"
  cs_Cloud :: 's
  cs_Draining :: "node list"
  cs_History :: "(time \<times> ('m, 's) loopOutcome) list"

inductive ca_step :: "('m, 's, 'sel) autoscalerEnv \<Rightarrow> ('m, 's) caSystem \<Rightarrow> ('m, 's) caSystem \<Rightarrow> bool"
  for env :: "('m, 's, 'sel) autoscalerEnv" where
  iterate: "RunOnce env li t (cs_State c) (cs_Cloud c) = Some out \<Longrightarrow> \<forall>(t', out')\<in>set (cs_History c). t' \<le> t \<Longrightarrow>
    ca_step env c \<lparr>cs_State = lo_State out, cs_Cloud = lo_Cloud out,
      cs_Draining = cs_Draining c @ (if drain_started out then gone_nodes out else []),
      cs_History = cs_History c @ [(t, out)]\<rparr>"
| drained: "n \<in> set (cs_Draining c) \<Longrightarrow>
    ca_step env c (c\<lparr>cs_State := (cs_State c)\<lparr>sa_scaleDown := finish_deletion (n_Name n) err (sa_scaleDown (cs_State c))\<rparr>,
      cs_Draining := remove1 n (cs_Draining c)\<rparr>)"
| outside: "ca_step env c (c\<lparr>cs_Cloud := s\<rparr>)"

definition ca_initial :: "('m, 's) caSystem \<Rightarrow> bool" where
  "ca_initial c \<longleftrightarrow> (\<exists>cp config b pc now. cs_State c = NewStaticAutoscaler cp config b pc now) \<and> cs_Draining c = [] \<and> cs_History c = []"

definition ca_reachable :: "('m, 's, 'sel) autoscalerEnv \<Rightarrow> ('m, 's) caSystem \<Rightarrow> bool" where
  "ca_reachable env c \<longleftrightarrow> (\<exists>c0. ca_initial c0 \<and> (ca_step env)\<^sup>*\<^sup>* c0 c)"

text \<open>What holds of an iteration, given those before it.\<close>

definition outcome_ok ::
  "('m, 's, 'sel) autoscalerEnv \<Rightarrow> (time \<times> ('m, 's) loopOutcome) list \<Rightarrow> time \<Rightarrow> ('m, 's) loopOutcome \<Rightarrow> bool" where
  "outcome_ok env before t out \<longleftrightarrow> (gone_nodes out \<noteq> [] \<longrightarrow>
     \<not> scaled_up out \<and>
     (\<forall>(t1, o1)\<in>set before. scaled_up o1 \<longrightarrow> t1 + ae_ScaleDownDelayAfterAdd env \<le> t) \<and>
     (\<forall>n\<in>set (gone_nodes out). 0 \<le> unneeded_time env n \<longrightarrow>
        (\<forall>(t1, o1)\<in>set before. t - unneeded_time env n \<le> t1 \<longrightarrow> mhas (unneeded_of (lo_State o1)) (n_Name n))))"

definition ca_inv :: "('m, 's, 'sel) autoscalerEnv \<Rightarrow> ('m, 's) caSystem \<Rightarrow> bool" where
  "ca_inv env c \<longleftrightarrow>
     (\<forall>(t, out)\<in>set (cs_History c). scaled_up out \<longrightarrow> t \<le> sa_lastScaleUpTime (cs_State c)) \<and>
     (\<forall>k v. mget (unneeded_of (cs_State c)) k = Some v \<longrightarrow>
        (\<forall>(t, out)\<in>set (cs_History c). v < t \<longrightarrow> mhas (unneeded_of (lo_State out)) k)) \<and>
     (in_progress (cs_State c) \<longleftrightarrow> cs_Draining c \<noteq> []) \<and> length (cs_Draining c) \<le> 1 \<and>
     (\<forall>before t out later. cs_History c = before @ (t, out) # later \<longrightarrow> outcome_ok env before t out)"

lemma iteration_ok:
  assumes "ca_inv env c" "loop_effect env t (cs_State c) (scaled_up out) (started_of out) (lo_State out)"
  shows "outcome_ok env (cs_History c) t out"
  unfolding outcome_ok_def
proof (intro impI conjI ballI)
  assume gone: "gone_nodes out \<noteq> []"
  then have may: "\<not> scaled_up out" "may_delete env t (cs_State c)" using assms(2) by (auto simp: loop_effect_def gone_nodes_def)
  then show "\<not> scaled_up out" by blast
  {
    fix x assume "x \<in> set (cs_History c)"
    then show "case x of (t1, o1) \<Rightarrow> scaled_up o1 \<longrightarrow> t1 + ae_ScaleDownDelayAfterAdd env \<le> t"
      using assms(1) may(2) by (fastforce simp: ca_inv_def may_delete_def)
  }
  fix n x
  assume n: "n \<in> set (gone_nodes out)" "0 \<le> unneeded_time env n" and x: "x \<in> set (cs_History c)"
  obtain v where v: "since_when t (cs_State c) (n_Name n) v" "v + unneeded_time env n < t"
    using assms(2) n(1) unfolding loop_effect_def gone_nodes_def by metis
  then have "mget (unneeded_of (cs_State c)) (n_Name n) = Some v" using n(2) by (auto simp: since_when_def)
  then show "case x of (t1, o1) \<Rightarrow> t - unneeded_time env n \<le> t1 \<longrightarrow> mhas (unneeded_of (lo_State o1)) (n_Name n)"
    using assms(1) x v(2) by (fastforce simp: ca_inv_def)
qed

lemma history_snoc:
  assumes "\<forall>before t out later. h = before @ (t, out) # later \<longrightarrow> P before t out" "P h t0 out0"
    and "h @ [(t0, out0)] = before @ (t, out) # later"
  shows "P before t out"
  using assms by (cases later rule: rev_cases) auto

lemma ca_step_inv:
  assumes "ca_step env c c'" "ca_inv env c"
  shows "ca_inv env c'"
  using assms(1)
proof cases
  case (iterate li t out)
  let ?a = "cs_State c" and ?h = "cs_History c"
  note effect = RunOnce_effect [OF iterate(2)]
  have ok: "outcome_ok env ?h t out" by (rule iteration_ok [OF assms(2) effect])
  have drain: "is_drain (started_of out) \<Longrightarrow> length (gone_nodes out) = 1" by (cases "started_of out") (simp_all add: gone_nodes_def)
  have up: "sa_lastScaleUpTime (lo_State out) = (if scaled_up out then t else sa_lastScaleUpTime ?a)"
    and prog: "in_progress (lo_State out) \<longleftrightarrow> drain_started out \<or> in_progress ?a"
    and since: "\<And>k v. mget (unneeded_of (lo_State out)) k = Some v \<Longrightarrow> since_when t ?a k v"
    and one: "drain_started out \<Longrightarrow> length (gone_nodes out) = 1 \<and> \<not> in_progress ?a"
    using effect drain unfolding loop_effect_def gone_nodes_def drain_started_def may_delete_def by (auto simp: length_Suc_conv)
  have A: "\<forall>(t', out')\<in>set (?h @ [(t, out)]). scaled_up out' \<longrightarrow> t' \<le> sa_lastScaleUpTime (lo_State out)"
    using assms(2) iterate(3) up by (fastforce simp: ca_inv_def)
  have B: "\<forall>(t', out')\<in>set (?h @ [(t, out)]). v < t' \<longrightarrow> mhas (unneeded_of (lo_State out')) k"
    if "mget (unneeded_of (lo_State out)) k = Some v" for k v
    using since [OF that] that assms(2) iterate(3) by (fastforce simp: ca_inv_def since_when_def mhas_def)
  have C: "(in_progress (lo_State out) \<longleftrightarrow> cs_Draining c @ (if drain_started out then gone_nodes out else []) \<noteq> []) \<and>
      length (cs_Draining c @ (if drain_started out then gone_nodes out else [])) \<le> 1"
    using assms(2) prog one by (auto simp: ca_inv_def)
  have D: "outcome_ok env before t' out'" if "?h @ [(t, out)] = before @ (t', out') # later" for before t' out' later
    by (rule history_snoc [where P = "outcome_ok env", OF _ ok that]) (use assms(2) in \<open>simp add: ca_inv_def\<close>)
  show ?thesis unfolding iterate(1) ca_inv_def using A B C D by simp
next
  case (drained n err)
  then have "cs_Draining c = [n]" using assms(2) by (cases "cs_Draining c") (auto simp: ca_inv_def)
  then show ?thesis using assms(2)
    by (simp add: drained(1) ca_inv_def finish_deletion_def AddNodeDeleteResult_def SetDeleteInProgress_def)
next
  case (outside s)
  then show ?thesis using assms(2) by (simp add: ca_inv_def)
qed

lemma ca_reachable_inv: "ca_reachable env c \<Longrightarrow> ca_inv env c"
proof -
  assume "ca_reachable env c"
  then obtain c0 where "ca_initial c0" "(ca_step env)\<^sup>*\<^sup>* c0 c" by (auto simp: ca_reachable_def)
  from this(2,1) show ?thesis
  proof (induction rule: rtranclp_induct)
    case base
    then show ?case
      by (auto simp: ca_inv_def ca_initial_def NewStaticAutoscaler_def NewScaleDown_def)
  next
    case (step c c')
    then show ?case using ca_step_inv by blast
  qed
qed

end
