(* ===== verification/StaticAutoscalerDemo.thy ===== *)
theory StaticAutoscalerDemo
  imports StaticAutoscalerRun ClusterStateRun
begin

text \<open>
  Four iterations of the control loop, evaluated from the start of the autoscaler: a scale-up, two
  iterations that find a node unneeded in the delay after it, and one that deletes the node.
\<close>

definition loop_config :: registryConfig where
  "loop_config = \<lparr>cfg_MaxTotalUnreadyPercentage = Fin 0, cfg_OkTotalUnreadyCount = 0, cfg_MaxNodeProvisionTime = minute\<rparr>"

definition member_node :: node where
  "member_node = (working_node ''n1'' 2)\<lparr>n_ProviderID := ''n1''\<rparr>"

definition loop_nodes :: "node list" where
  "loop_nodes = [working_node ''m1'' 1, member_node]"

definition calm :: "clusterStateRegistry \<Rightarrow> bool" where
  "calm csr \<longleftrightarrow> csr_config csr = loop_config \<and> csr_scaleDownRequests csr = [] \<and>
     (csr_scaleUpRequests csr = [] \<or> (\<exists>req. csr_scaleUpRequests csr = [(''pool'', req)]))"

text \<open>What an update on the two nodes leaves.\<close>

definition settled :: "time \<Rightarrow> clusterStateRegistry \<Rightarrow> bool" where
  "settled t csr \<longleftrightarrow> calm csr \<and> csr_scaleUpRequests csr = [] \<and> csr_cloudProvider csr = provider_view su_state \<and>
     csr_unregisteredNodes csr = [] \<and> csr_incorrectNodeGroupSizes csr = [] \<and>
     csr_totalReadiness csr = zeroReadiness\<lparr>rd_Ready := 2, rd_Registered := 2, rd_Time := t\<rparr> \<and>
     csr_acceptableRanges csr = [(''pool'', \<lparr>ar_MinNodes = 1, ar_MaxNodes = 1, ar_CurrentTarget = 1\<rparr>)] \<and>
     csr_perNodeGroupReadiness csr = [(''pool'', zeroReadiness\<lparr>rd_Ready := 1, rd_Registered := 1, rd_Time := t\<rparr>)]"

lemma loop_node_names: "n_Name (working_node name c) = name" "n_Name member_node = ''n1''"
  by (simp_all add: working_node_def member_node_def)

lemma loop_node_facts:
  "n_ProviderID (working_node name c) = ''''" "n_ProviderID member_node = ''n1''"
  "nodeIsReady (working_node name c)" "nodeIsReady member_node"
  "\<not> isNodeStillStarting (working_node name c)" "\<not> isNodeStillStarting member_node"
  "\<not> HasToBeDeletedTaint (working_node name c)" "\<not> HasToBeDeletedTaint member_node"
  by (simp_all add: working_node_def member_node_def empty_node_def nodeIsReady_iff blocks_readiness_def isNodeStillStarting_def
      startup_condition_def HasToBeDeletedTaint_def)

lemma loop_readiness:
  "foldl (registered_step (provider_view su_state) t) ([], zeroReadiness\<lparr>rd_Time := t\<rparr>) loop_nodes =
     ([(''pool'', zeroReadiness\<lparr>rd_Ready := 1, rd_Registered := 1\<rparr>)], zeroReadiness\<lparr>rd_Ready := 2, rd_Registered := 2, rd_Time := t\<rparr>)"
  by (simp add: loop_nodes_def registered_step_def Let_def su_state_view loop_node_names loop_node_facts update_readiness_def
      mput_def mget0_def zeroReadiness_def)

lemma loop_update:
  assumes "calm csr"
  shows "\<exists>csr'. UpdateNodes loop_nodes t (csr\<lparr>csr_cloudProvider := provider_view su_state\<rparr>) = Some (Inr csr') \<and> settled t csr' \<and>
     (csr_scaleUpRequests csr = [] \<longrightarrow>
        csr_nodeGroupBackoffInfo csr' = RemoveStaleBackoffData (csr_nodeGroupBackoffInfo csr) t)"
proof -
  let ?csr = "csr\<lparr>csr_cloudProvider := provider_view su_state\<rparr>"
  have sizes: "getTargetSizes (provider_view su_state) = Inr [(''pool'', 1)]"
    by (simp add: getTargetSizes_def su_state_view mput_def)
  have missing: "getNotRegisteredNodes loop_nodes (provider_view su_state) t = Inr []"
    by (simp add: getNotRegisteredNodes_def su_state_view su_group_def loop_nodes_def loop_node_facts)
  obtain csr1 where csr1: "updateReadinessStats t (updateUnregisteredNodes [] (?csr\<lparr>csr_nodes := loop_nodes\<rparr>)) = Some csr1"
    "csr_config csr1 = csr_config csr" "csr_scaleDownRequests csr1 = csr_scaleDownRequests csr"
    "csr_scaleUpRequests csr1 = csr_scaleUpRequests csr" "csr_cloudProvider csr1 = provider_view su_state"
    "csr_nodeGroupBackoffInfo csr1 = csr_nodeGroupBackoffInfo csr" "csr_unregisteredNodes csr1 = []"
    "csr_totalReadiness csr1 = zeroReadiness\<lparr>rd_Ready := 2, rd_Registered := 2, rd_Time := t\<rparr>"
    "csr_perNodeGroupReadiness csr1 = [(''pool'', zeroReadiness\<lparr>rd_Ready := 1, rd_Registered := 1, rd_Time := t\<rparr>)]"
    by (simp add: updateReadinessStats_def updateUnregisteredNodes_def Let_def loop_readiness)
  obtain csr2 where csr2: "updateScaleRequests t (updateAcceptableRanges [(''pool'', 1)] csr1) = csr2" "csr_scaleUpRequests csr2 = []"
    "csr_scaleDownRequests csr2 = []" and bo: "csr_scaleUpRequests csr = [] \<Longrightarrow>
       csr_nodeGroupBackoffInfo csr2 = RemoveStaleBackoffData (csr_nodeGroupBackoffInfo csr) t"
  proof -
    let ?csr2 = "updateScaleRequests t (updateAcceptableRanges [(''pool'', 1)] csr1)"
    have "csr_scaleUpRequests ?csr2 = [] \<and> csr_scaleDownRequests ?csr2 = [] \<and> (csr_scaleUpRequests csr = [] \<longrightarrow>
       csr_nodeGroupBackoffInfo ?csr2 = RemoveStaleBackoffData (csr_nodeGroupBackoffInfo csr) t)"
    proof (cases "csr_scaleUpRequests csr = []")
      case True
      then show ?thesis using assms
        by (simp add: updateScaleRequests_def updateAcceptableRanges_def Let_def csr1 calm_def)
    next
      case False
      then obtain req where "csr_scaleUpRequests csr = [(''pool'', req)]" using assms by (auto simp: calm_def)
      then show ?thesis using assms
        by (simp add: updateScaleRequests_def updateAcceptableRanges_def Let_def csr1 calm_def scaleUpRequest_step_def
            areThereUpcomingNodes_def getProvisionedAndTargetSizes_def su_state_view mput_def mdel_def range_scaleUp_def
            target_range_def mget0_def zeroReadiness_def)
    qed
    then show ?thesis using that by blast
  qed
  let ?csr' = "updateIncorrectNodeGroupSizes t (updateAcceptableRanges [(''pool'', 1)] csr2)"
  have frame: "csr_config csr2 = csr_config csr" "csr_cloudProvider csr2 = provider_view su_state" "csr_unregisteredNodes csr2 = []"
    "csr_totalReadiness csr2 = csr_totalReadiness csr1" "csr_perNodeGroupReadiness csr2 = csr_perNodeGroupReadiness csr1"
    using csr1 by (simp_all add: csr2(1) [symmetric] updateAcceptableRanges_def Let_def)
  have "UpdateNodes loop_nodes t ?csr = Some (Inr ?csr')"
    by (simp add: UpdateNodes_def sizes missing csr1(1) csr2(1))
  moreover have "settled t ?csr'"
    using assms
    by (simp add: settled_def calm_def updateIncorrectNodeGroupSizes_def updateAcceptableRanges_def Let_def frame csr1 csr2
        incorrectSize_step_def su_state_view target_range_def mput_def mget0_def zeroReadiness_def)
  moreover have "csr_nodeGroupBackoffInfo ?csr' = csr_nodeGroupBackoffInfo csr2"
    by (simp add: updateIncorrectNodeGroupSizes_def updateAcceptableRanges_def Let_def)
  ultimately show ?thesis using bo by (intro exI [of _ ?csr']) simp
qed

lemma settled_facts:
  assumes "settled t csr"
  shows "IsClusterHealthy csr" "IsNodeGroupHealthy csr ''pool''" "GetUpcomingNodes csr = []" "GetUnregisteredNodes csr = []"
    "GetIncorrectNodeGroupSize csr name = None"
  using assms
  by (simp_all add: settled_def calm_def loop_config_def IsClusterHealthy_def IsNodeGroupHealthy_def Let_def zeroReadiness_def
      GetUpcomingNodes_def su_state_view mget0_def GetUnregisteredNodes_def GetIncorrectNodeGroupSize_def)

text \<open>The environment and the input of an iteration.\<close>

definition loop_down :: "(unit option, string \<times> string) scaleDownEnv" where
  "loop_down = \<lparr>env_ScaleDownUnneededTime = 50 * minute, env_ScaleDownUnreadyTime = 50 * minute,
     env_ScaleDownUtilizationThreshold = Fin (1 / 2), env_ScaleDownNonEmptyCandidatesCount = 30,
     env_ScaleDownCandidatesPoolRatio = Fin (1 / 8), env_ScaleDownCandidatesPoolMinCount = 50,
     env_UnremovableNodeRecheckTimeout = 5 * minute, env_IgnoreDaemonSetsUtilization = False,
     env_IgnoreMirrorPodsUtilization = False, env_MaxEmptyBulkDelete = 10,
     env_ExpendablePodsPriorityCutoff = 0, env_skipNodesWithSystemPods = True,
     env_skipNodesWithLocalStorage = True, env_minReplicaCount = 0, env_CloudProvider = provider_view su_state,
     env_ResourceLimiter = Inr \<lparr>rl_minLimits = [], rl_maxLimits = []\<rparr>, env_template = \<lambda>_. Inl '''',
     env_client = no_client, env_as_selector = label_selector, env_predicates = \<lambda>p m info. True,
     env_metadata = \<lambda>_ _. None, env_rands = \<lambda>_ _ _. 0, env_now = 0\<rparr>"

definition loop_env :: "(unit, testCloudProvider, string \<times> string) autoscalerEnv" where
  "loop_env = \<lparr>ae_up = su_env, ae_down = loop_down, ae_ScaleDownEnabled = True, ae_ScaleDownDelayAfterAdd = 2 * hour,
     ae_ScaleDownDelayAfterDelete = 0, ae_ScaleDownDelayAfterFailure = 3 * minute, ae_NewPodScaleUpDelay = 0,
     ae_WriteStatusConfigMap = False, ae_ProcessPods = \<lambda>unschedulable scheduled nodes. Inr (unschedulable, scheduled)\<rparr>"

lemma loop_env_simps [simp]:
  "ae_up loop_env = su_env" "ae_down loop_env = loop_down" "ae_ScaleDownEnabled loop_env"
  "ae_ScaleDownDelayAfterAdd loop_env = 2 * hour" "ae_ScaleDownDelayAfterDelete loop_env = 0"
  "ae_ScaleDownDelayAfterFailure loop_env = 3 * minute" "ae_NewPodScaleUpDelay loop_env = 0"
  "\<not> ae_WriteStatusConfigMap loop_env" "ae_ProcessPods loop_env us ss ns = Inr (us, ss)"
  by (simp_all add: loop_env_def)

definition loop_input :: "time \<Rightarrow> pod list \<Rightarrow> node list \<Rightarrow> (testCloudProvider, string \<times> string) loopInput" where
  "loop_input now unschedulable ready = \<lparr>li_Refresh = \<lambda>s. (None, s), li_NodesToClean = Inr [], li_AllNodes = Inr loop_nodes,
     li_ReadyNodes = Inr ready, li_Unschedulable = Inr unschedulable, li_Scheduled = Inr [], li_DaemonSets = Inr [],
     li_Pdbs = Inr [], li_now = now, li_bulk = \<lambda>ns csr. (None, csr), li_RemoveGroups = \<lambda>s. s, li_Deletions = \<lambda>st s. s\<rparr>"

lemma loop_input_simps [simp]:
  "li_Refresh (loop_input t us rs) = (\<lambda>s. (None, s))" "li_NodesToClean (loop_input t us rs) = Inr []"
  "li_AllNodes (loop_input t us rs) = Inr loop_nodes" "li_ReadyNodes (loop_input t us rs) = Inr rs"
  "li_Unschedulable (loop_input t us rs) = Inr us" "li_Scheduled (loop_input t us rs) = Inr []"
  "li_DaemonSets (loop_input t us rs) = Inr []" "li_Pdbs (loop_input t us rs) = Inr []" "li_now (loop_input t us rs) = t"
  "li_bulk (loop_input t us rs) = (\<lambda>ns csr. (None, csr))" "li_RemoveGroups (loop_input t us rs) = (\<lambda>s. s)"
  "li_Deletions (loop_input t us rs) = (\<lambda>st s. s)"
  by (simp_all add: loop_input_def)

lemma loop_gpus:
  "set ready \<subseteq> set loop_nodes \<Longrightarrow> FilterOutNodesWithUnreadyGpus loop_nodes ready = (loop_nodes, ready)"
proof -
  assume sub: "set ready \<subseteq> set loop_nodes"
  have no: "\<not> unready_gpu n" if "n \<in> set loop_nodes" for n
    using that by (auto simp: loop_nodes_def unready_gpu_def member_node_def working_node_def empty_node_def mhas_def)
  have "foldl (\<lambda>m n. if unready_gpu n then mput (n_Name n) (getUnreadyNodeCopy n) m else m) [] ready = []"
    using no sub by (induction ready) auto
  then show ?thesis using no sub by (auto simp: FilterOutNodesWithUnreadyGpus_def filter_id_conv)
qed

lemma loop_state_update:
  assumes "calm (sa_registry a)"
  obtains csr where "updateClusterState loop_env (loop_input t us rs) loop_nodes t a su_state = Some (None, with_registry csr a, su_state)"
    "settled t csr" "csr_scaleUpRequests (sa_registry a) = [] \<Longrightarrow>
       csr_nodeGroupBackoffInfo csr = RemoveStaleBackoffData (csr_nodeGroupBackoffInfo (sa_registry a)) t"
  using loop_update [OF assms, of t] by (auto simp: updateClusterState_def)

lemma no_repair:
  assumes "settled t (sa_registry a)"
  shows "repair loop_env t a su_state = (None, a, su_state)"
  by (simp add: repair_def Let_def settled_facts [OF assms] su_state_view)

lemma no_affinity: "\<not> anyPodHasHardInterPodAffinity []" "\<not> anyPodHasHardInterPodAffinity su_pods"
  by (simp_all add: anyPodHasHardInterPodAffinity_def hasHardInterPodAffinity_def replica_pod_def owned_pod_def plain_pod_def)

lemma loop_checker:
  "us = [] \<or> us = su_pods \<Longrightarrow> ConfigurePredicateCheckerForLoop us [] su_checker = su_checker"
  using no_affinity by (auto simp: ConfigurePredicateCheckerForLoop_def su_checker_def SetAffinityPredicateEnabled_def)

text \<open>An iteration whose cluster is as it should be: what is left to evaluate.\<close>

lemma loop_iteration:
  assumes "calm (sa_registry a)" "sa_PredicateChecker a = su_checker" "us = [] \<or> us = su_pods"
    and "rs \<noteq> []" "set rs \<subseteq> set loop_nodes"
  obtains csr a2 where "settled t csr" "csr_scaleUpRequests (sa_registry a) = [] \<Longrightarrow>
       csr_nodeGroupBackoffInfo csr = RemoveStaleBackoffData (csr_nodeGroupBackoffInfo (sa_registry a)) t"
    "a2 = with_registry csr (a\<lparr>sa_initialized := True\<rparr>)"
    "RunOnce loop_env (loop_input t us rs) t a su_state =
       map_option (\<lambda>((err, ust, dst), a3, s3). \<lparr>lo_Error = err, lo_Statuses = Some (ust, dst), lo_Cleaned = [],
           lo_WrittenStatus = None, lo_State = a3, lo_Cloud = s3\<rparr>)
         (case pods_to_help loop_env su_checker t rs us [] of None \<Rightarrow> None
          | Some (toHelp, waiting, present) \<Rightarrow>
              (case scale_up_phase loop_env (loop_input t us rs) t rs toHelp a2 su_state of None \<Rightarrow> None
               | Some ((Some err, st, forbidden), a3, s3) \<Rightarrow>
                   Some ((err, st, idle_down (if err = None then ScaleDownInCooldown else ScaleDownNotTried)), a3, s3)
               | Some ((None, st, forbidden), a3, s3) \<Rightarrow>
                   map_option (\<lambda>((err, dst), r). ((err, st, dst), r))
                     (scale_down_phase loop_env (loop_input t us rs) t loop_nodes [] waiting (present \<or> forbidden) a3 s3)))"
proof -
  let ?a = "a\<lparr>sa_initialized := True\<rparr>" and ?li = "loop_input t us rs"
  have "calm (sa_registry ?a)" using assms(1) by simp
  from loop_state_update [OF this] obtain csr where csr:
    "updateClusterState loop_env ?li loop_nodes t ?a su_state = Some (None, with_registry csr ?a, su_state)"
    "settled t csr" "csr_scaleUpRequests (sa_registry ?a) = [] \<Longrightarrow>
       csr_nodeGroupBackoffInfo csr = RemoveStaleBackoffData (csr_nodeGroupBackoffInfo (sa_registry ?a)) t" by metis
  let ?a2 = "with_registry csr ?a"
  have clean: "cleanUpIfRequired ?li a = ([], ?a)" by (simp add: cleanUpIfRequired_def)
  have lists: "obtainNodeLists ?li = Inr (loop_nodes, rs)" by (simp add: obtainNodeLists_def loop_gpus [OF assms(5)])
  have full: "actOnEmptyCluster loop_nodes rs ?a = (False, ?a)" by (simp add: actOnEmptyCluster_def assms(4)) (simp add: loop_nodes_def)
  have "settled t (sa_registry ?a2)" using csr(2) by (simp add: with_registry_def)
  note rep = no_repair [OF this]
  have pods: "list_pods loop_env ?li loop_nodes = Inr (us, [])" by (simp add: list_pods_def)
  have pc: "ConfigurePredicateCheckerForLoop us [] (sa_PredicateChecker ?a2) = su_checker" "sa_PredicateChecker ?a2 = su_checker"
    using loop_checker [OF assms(3)] assms(2) by (simp_all add: with_registry_def)
  have same: "?a2\<lparr>sa_PredicateChecker := su_checker\<rparr> = ?a2" using pc(2) by simp
  have wr: "write_status loop_env t a' s' = (None, a')" for a' :: "unit staticAutoscaler" and s' by (simp add: write_status_def)
  have body: "loop_body loop_env ?li t loop_nodes rs ?a2 su_state =
       (case pods_to_help loop_env su_checker t rs us [] of None \<Rightarrow> None
          | Some (toHelp, waiting, present) \<Rightarrow>
              (case scale_up_phase loop_env ?li t rs toHelp ?a2 su_state of None \<Rightarrow> None
               | Some ((Some err, st, forbidden), a3, s3) \<Rightarrow>
                   Some ((err, st, idle_down (if err = None then ScaleDownInCooldown else ScaleDownNotTried)), a3, s3)
               | Some ((None, st, forbidden), a3, s3) \<Rightarrow>
                   map_option (\<lambda>((err, dst), r). ((err, st, dst), r))
                     (scale_down_phase loop_env ?li t loop_nodes [] waiting (present \<or> forbidden) a3 s3)))"
    by (simp only: loop_body_def Let_def rep pods loop_checker [OF assms(3)] same prod.case option.case sum.case pc(2))
  have run: "RunOnce loop_env ?li t a su_state =
       map_option (\<lambda>((err, ust, dst), a3, s3). \<lparr>lo_Error = err, lo_Statuses = Some (ust, dst), lo_Cleaned = [],
           lo_WrittenStatus = None, lo_State = a3, lo_Cloud = s3\<rparr>)
         (loop_body loop_env ?li t loop_nodes rs ?a2 su_state)"
    by (simp add: RunOnce_def clean lists full csr(1) wr)
  show thesis by (rule that [OF csr(2) _ refl run [unfolded body]]) (use csr(3) in simp)
qed

section \<open>The first iteration: a scale-up\<close>

definition loop_start :: "unit staticAutoscaler" where
  "loop_start = NewStaticAutoscaler (provider_view su_state) loop_config (NewExponentialBackoff minute hour hour ng_Id)
     su_checker 0"

definition loop_state :: "time \<Rightarrow> (string, time) gomap \<Rightarrow> unit staticAutoscaler \<Rightarrow> bool" where
  "loop_state up unneeded a \<longleftrightarrow> calm (sa_registry a) \<and> sa_PredicateChecker a = su_checker \<and> sa_lastScaleUpTime a = up \<and>
     sa_lastScaleDownFailTime a = 0 \<and> sa_lastScaleDownDeleteTime a = 0 \<and> \<not> in_progress a \<and>
     sd_unremovableNodes (sa_scaleDown a) = [] \<and> unneeded_of a = unneeded"

lemma loop_start_state: "loop_state 0 [] loop_start"
  by (simp add: loop_state_def loop_start_def NewStaticAutoscaler_def NewScaleDown_def NewClusterStateRegistry_def calm_def)

lemma loop_infos: "CreateNodeNameToInfoMap (FilterOutExpendablePods [] 0 @ []) su_nodes =
     [(''m1'', \<lparr>ni_Node = Some (working_node ''m1'' 1), ni_Pods = []\<rparr>)]"
  by (simp add: CreateNodeNameToInfoMap_def FilterOutExpendablePods_def set_node_info_def mput_def mdel_where_def su_nodes_def
      NewNodeInfo_def mget0_def working_node_def empty_node_def)

lemma loop_pods_to_help: "pods_to_help loop_env su_checker hour su_nodes su_pods [] = Some (su_pods, [], False)"
proof -
  have agree: "predicates_agree su_checker (set su_pods)"
    using replicas_agree [of "set su_pods"] by (auto simp: predicates_agree_def)
  have ret: "CheckPredicates su_checker p None info \<noteq> None" if "ni_Node info \<noteq> None" for p info
    using demo_returns [OF that] by simp
  have no: "\<not> fits_somewhere su_checker [(''m1'', \<lparr>ni_Node = Some (working_node ''m1'' 1), ni_Pods = []\<rparr>)] p"
    if "p \<in> set su_pods" for p
    using that by (auto simp: fits_somewhere_def demo_passes replica_request working_ready NewQuantity_def)
      (simp_all add: working_node_def mget0_def NewQuantity_def)
  have "FilterOutSchedulable su_checker su_pods su_nodes [] [] 0 =
      Some (filter (\<lambda>p. \<not> fits_somewhere su_checker [(''m1'', \<lparr>ni_Node = Some (working_node ''m1'' 1), ni_Pods = []\<rparr>)] p) su_pods)"
    unfolding loop_infos [symmetric] by (rule FilterOutSchedulable_filter [OF agree ret])
  then have "FilterOutSchedulable su_checker su_pods su_nodes [] [] 0 = Some su_pods" using no by simp
  moreover have "FilterOutExpendableAndSplit (ClearTPURequests su_pods) 0 = (su_pods, [])"
    by (simp add: FilterOutExpendableAndSplit_def ClearTPURequests_def replica_pod_def owned_pod_def plain_pod_def mget0_def
        hasTPURequest_def has_prefix_def ResourceTPUPrefix_def mkeys_def)
  moreover have "filterOutYoungPods 0 su_pods hour = su_pods"
    by (simp add: filterOutYoungPods_def replica_pod_def owned_pod_def plain_pod_def duration_defs time_sub_def maxInt64_def
        minInt64_def)
  moreover have "env_ExpendablePodsPriorityCutoff loop_down = 0" by (simp add: loop_down_def)
  ultimately show ?thesis by (simp add: pods_to_help_def Let_def)
qed

lemma loop_scales_up:
  obtains out where "RunOnce loop_env (loop_input hour su_pods su_nodes) hour loop_start su_state = Some out"
    "scaled_up out" "gone_nodes out = []" "drain_started out = False" "loop_state hour [] (lo_State out)"
proof -
  have start: "calm (sa_registry loop_start)" "sa_PredicateChecker loop_start = su_checker"
    "csr_scaleUpRequests (sa_registry loop_start) = []"
    "csr_nodeGroupBackoffInfo (sa_registry loop_start) = NewExponentialBackoff minute hour hour ng_Id"
    using loop_start_state
    by (simp_all add: loop_state_def loop_start_def NewStaticAutoscaler_def NewScaleDown_def NewClusterStateRegistry_def)
  have nodes: "su_nodes \<noteq> []" "set su_nodes \<subseteq> set loop_nodes" by (simp_all add: su_nodes_def loop_nodes_def)
  show thesis
  proof (rule loop_iteration [where us = su_pods and t = hour, OF start(1,2) _ nodes])
  fix csr a2
  assume csr1: "settled hour csr" and csr2: "csr_scaleUpRequests (sa_registry loop_start) = [] \<Longrightarrow>
      csr_nodeGroupBackoffInfo csr = RemoveStaleBackoffData (csr_nodeGroupBackoffInfo (sa_registry loop_start)) hour"
    and a2: "a2 = with_registry csr (loop_start\<lparr>sa_initialized := True\<rparr>)"
    and run: "RunOnce loop_env (loop_input hour su_pods su_nodes) hour loop_start su_state =
       map_option (\<lambda>((err, ust, dst), a3, s3). \<lparr>lo_Error = err, lo_Statuses = Some (ust, dst), lo_Cleaned = [],
           lo_WrittenStatus = None, lo_State = a3, lo_Cloud = s3\<rparr>)
         (case pods_to_help loop_env su_checker hour su_nodes su_pods [] of None \<Rightarrow> None
          | Some (toHelp, waiting, present) \<Rightarrow>
              (case scale_up_phase loop_env (loop_input hour su_pods su_nodes) hour su_nodes toHelp a2 su_state of None \<Rightarrow> None
               | Some ((Some err, st, forbidden), a3, s3) \<Rightarrow>
                   Some ((err, st, idle_down (if err = None then ScaleDownInCooldown else ScaleDownNotTried)), a3, s3)
               | Some ((None, st, forbidden), a3, s3) \<Rightarrow>
                   map_option (\<lambda>((err, dst), r). ((err, st, dst), r))
                     (scale_down_phase loop_env (loop_input hour su_pods su_nodes) hour loop_nodes [] waiting
                       (present \<or> forbidden) a3 s3)))"
  have csr: "settled hour csr"
      "csr_nodeGroupBackoffInfo csr = RemoveStaleBackoffData (NewExponentialBackoff minute hour hour ng_Id) hour"
    using csr1 csr2 start(3,4) by simp_all
  have ready: "su_ready csr"
    using settled_facts [OF csr(1)]
    by (simp add: su_ready_def IsNodeGroupSafeToScaleUp_def csr(2) IsBackedOff_def NewExponentialBackoff_def
        RemoveStaleBackoffData_def mdel_where_def)
  obtain st csr' where up:
    "ScaleUp su_env csr su_pods su_nodes su_state = Some ((st, None), csr', change_target ''pool'' 1 su_state)"
    "WasSuccessful st" "su_registered csr csr'"
    by (rule su_run [OF ready]) (rule that)
  have env: "up_env loop_env (loop_input hour su_pods su_nodes) [] a2 = su_env"
    using start(2) by (simp add: up_env_def a2 with_registry_def su_env_def)
  have old: "\<not> allPodsAreNew hour su_pods hour"
    by (simp add: allPodsAreNew_def getOldestCreateTime_def getOldestCreateTimeWithGpu_def older_def PodRequestsGpu_def replica_pod_def
        owned_pod_def plain_pod_def time_defs duration_defs unschedulablePodTimeBuffer_def mhas_def ResourceNvidiaGPU_def)
  have reg: "sa_registry a2 = csr" by (simp add: a2 with_registry_def)
  have phase: "scale_up_phase loop_env (loop_input hour su_pods su_nodes) hour su_nodes su_pods a2 su_state =
      Some ((Some None, st, False), (with_registry csr' a2)\<lparr>sa_lastScaleUpTime := hour\<rparr>, change_target ''pool'' 1 su_state)"
    using up(2) old by (simp add: scale_up_phase_def env reg up(1) WasSuccessful_def Let_def) (simp add: su_nodes_def)
  let ?a = "(with_registry csr' a2)\<lparr>sa_lastScaleUpTime := hour\<rparr>"
  have "loop_state hour [] ?a"
    using up(3) csr(1) loop_start_state
    by (auto simp: loop_state_def a2 with_registry_def su_registered_def settled_def calm_def)
  moreover have "sus_Result st = ScaleUpSuccessful" using up(2) by (simp add: WasSuccessful_def)
  moreover note run [unfolded loop_pods_to_help option.case prod.case phase]
  ultimately show thesis
    using that by (simp add: scaled_up_def gone_nodes_def drain_started_def started_of_def idle_down_def down_status_def)
  qed simp
qed

section \<open>The next iterations: an unneeded node\<close>

lemma no_pods_to_help: "pods_to_help loop_env su_checker t rs [] [] = Some ([], [], False)"
  by (simp add: pods_to_help_def Let_def FilterOutExpendableAndSplit_def ClearTPURequests_def FilterOutSchedulable_def
      filterOutYoungPods_def)

lemma loop_down_simps [simp]:
  "env_ScaleDownUnneededTime loop_down = 50 * minute" "env_ScaleDownUnreadyTime loop_down = 50 * minute"
  "env_ScaleDownUtilizationThreshold loop_down = Fin (1 / 2)" "env_ScaleDownNonEmptyCandidatesCount loop_down = 30"
  "env_MaxEmptyBulkDelete loop_down = 10" "env_ExpendablePodsPriorityCutoff loop_down = 0"
  "env_ResourceLimiter loop_down = Inr \<lparr>rl_minLimits = [], rl_maxLimits = []\<rparr>" "env_template loop_down = (\<lambda>_. Inl '''')"
  "env_as_selector loop_down = label_selector"
  by (simp_all add: loop_down_def)

lemma loop_down_env [simp]:
  "env_ScaleDownUnneededTime (down_env loop_env li s a) = 50 * minute"
  "env_ScaleDownUnreadyTime (down_env loop_env li s a) = 50 * minute"
  "env_ScaleDownUtilizationThreshold (down_env loop_env li s a) = Fin (1 / 2)"
  "env_ScaleDownNonEmptyCandidatesCount (down_env loop_env li s a) = 30"
  "env_MaxEmptyBulkDelete (down_env loop_env li s a) = 10" "env_ExpendablePodsPriorityCutoff (down_env loop_env li s a) = 0"
  "env_ResourceLimiter (down_env loop_env li s a) = Inr \<lparr>rl_minLimits = [], rl_maxLimits = []\<rparr>"
  "env_template (down_env loop_env li s a) = (\<lambda>_. Inl '''')" "env_as_selector (down_env loop_env li s a) = label_selector"
  "env_CloudProvider (down_env loop_env li s a) = provider_view s"
  by (simp_all add: down_env_def)

definition member_info :: nodeInfo where
  "member_info = \<lparr>ni_Node = Some member_node, ni_Pods = []\<rparr>"

lemma loop_node_infos:
  "CreateNodeNameToInfoMap [] loop_nodes =
     [(''m1'', \<lparr>ni_Node = Some (working_node ''m1'' 1), ni_Pods = []\<rparr>), (''n1'', member_info)]"
  "CreateNodeNameToInfoMap [] [member_node] = [(''n1'', member_info)]"
  by (simp_all add: search_defs loop_nodes_def loop_node_names member_info_def)

lemma member_candidate: "getPotentiallyUnneededNodes (provider_view su_state) loop_nodes = [member_node]"
  by (simp add: getPotentiallyUnneededNodes_def loop_nodes_def potentially_unneeded_def su_state_view loop_node_names
      getNodeGroupSizeMap_def mput_def su_group_def)

lemma member_phase1:
  "\<exists>um. foldl (phase1_step (down_env loop_env li s a) t infs) ([], []) [member_node] = (um, [member_node])"
  if "mget infs ''n1'' = Some member_info"
proof -
  have "utilization_of (down_env loop_env li s a) member_node member_info = zeroUtilization"
    by (simp add: utilization_of_def CalculateUtilization_def calculateUtilizationOfResource_def member_node_def working_node_def
        member_info_def MilliValue_def quantity_ceil_def NewQuantity_def f_of_int_exact)
  then show ?thesis using that
    by (simp add: phase1_step_def loop_node_names isNodeBeingDeleted_def hasNoScaleDownAnnotation_def mget0_def
        GetToBeDeletedTime_def) (simp add: member_node_def working_node_def empty_node_def zeroUtilization_def mget0_def)
qed

lemma member_empty:
  "getEmptyNodes (\<lambda>_. Inl '''') label_selector now [member_node] [] k [] (provider_view su_state) = Some [member_node]" if "1 \<le> k"
  using that
  by (simp add: getEmptyNodes_def FindEmptyNodesToRemove_def loop_node_infos empty_candidate_def loop_node_names member_info_def
      FastGetPodsToMove_iff Let_def empty_node_step_def su_state_view su_group_def
     tryDecrementLimitsByDelta_def computeScaleDownResourcesDelta_def
     ContainsGpuResources_def mkeys_def checkScaleDownDeltaWithinLimits_def exceeds_def)

lemma member_update:
  assumes "sd_unremovableNodes sd = []" "calm (sd_clusterStateRegistry sd)"
  obtains sd' where
    "UpdateUnneededNodes (down_env loop_env li su_state a) loop_nodes [member_node] [] t [] sd = Some sd'"
    "sd_unneededNodes sd' = [(''n1'', case mget (sd_unneededNodes sd) ''n1'' of None \<Rightarrow> t | Some v \<Rightarrow> v)]"
    "sd_nodeDeleteStatus sd' = sd_nodeDeleteStatus sd" "sd_unremovableNodes sd' = []" "calm (sd_clusterStateRegistry sd')"
proof -
  let ?denv = "down_env loop_env li su_state a"
  obtain um where p: "foldl (phase1_step ?denv t (CreateNodeNameToInfoMap [] loop_nodes)) ([], []) [member_node] = (um, [member_node])"
    using member_phase1 [of "CreateNodeNameToInfoMap [] loop_nodes" li su_state a t] by (auto simp: loop_node_infos)
  have g: "getEmptyNodesNoResourceLimits (env_template ?denv) (env_as_selector ?denv) (env_now ?denv) [member_node] [] 1
     (env_CloudProvider ?denv) = Some [member_node]"
    by (simp add: getEmptyNodesNoResourceLimits_def member_empty)
  have c: "filter_checked t (updateUnremovableNodes loop_nodes (sd_unremovableNodes sd)) [member_node] = ([], [member_node])"
    by (simp add: assms(1) updateUnremovableNodes_def)
  have f: "find_nodes ?denv k [] [] loop_nodes [] m hints tr t =
     \<lparr>rs_Result = [], rs_Unremovable = [], rs_Hints = [], rs_Tracker = tr\<rparr>" for k m hints tr
    by (simp add: find_nodes_def FindNodesToRemove_def Let_def)
  have p2: "phase2 ?denv [] [] [] loop_nodes [] hints tr t =
     Some \<lparr>rs_Result = [], rs_Unremovable = [], rs_Hints = [], rs_Tracker = tr\<rparr>" for hints tr
    by (simp add: phase2_def f Let_def)
  have up: "unneeded_since m t [\<lparr>nr_Node = member_node, nr_PodsToReschedule = []\<rparr>] =
      [(''n1'', case mget m ''n1'' of None \<Rightarrow> t | Some v \<Rightarrow> v)]" for m
    by (simp add: unneeded_since_def Let_def loop_node_names mput_def split: option.split)
  have "calm (UpdateScaleDownCandidates ns t (sd_clusterStateRegistry sd))" for ns
    using assms(2) by (simp add: calm_def UpdateScaleDownCandidates_def Let_def)
  then show thesis
    using p g c p2 up that
    by (simp add: UpdateUnneededNodes_def Let_def FilterOutExpendablePods_def chooseCandidates_def)
qed

lemma CleanUpScaleDown_frame:
  "sd_unremovableNodes (CleanUpScaleDown env t sd) = sd_unremovableNodes sd"
  "sd_clusterStateRegistry (CleanUpScaleDown env t sd) = sd_clusterStateRegistry sd"
  "sd_unneededNodes (CleanUpScaleDown env t sd) = sd_unneededNodes sd"
  "sd_nodeDeleteStatus (CleanUpScaleDown env t sd) = sd_nodeDeleteStatus sd"
  by (simp_all add: CleanUpScaleDown_def)

text \<open>A quiet iteration up to the decision whether to scale down.\<close>

lemma quiet_iteration:
  assumes "loop_state up unneeded a"
  obtains a1 where "loop_state up [(''n1'', case mget unneeded ''n1'' of None \<Rightarrow> t | Some v \<Rightarrow> v)] a1"
    "RunOnce loop_env (loop_input t [] loop_nodes) t a su_state =
       map_option (\<lambda>((err, dst), a3, s3). \<lparr>lo_Error = err, lo_Statuses = Some (plain_status ScaleUpNotNeeded, dst),
           lo_Cleaned = [], lo_WrittenStatus = None, lo_State = a3, lo_Cloud = s3\<rparr>)
         (if scale_down_in_cooldown loop_env False t a1 then Some ((None, idle_down ScaleDownInCooldown), a1, su_state)
          else delete_unneeded loop_env (loop_input t [] loop_nodes) t loop_nodes [] [] a1 su_state)"
proof -
  let ?li = "loop_input t [] loop_nodes"
  have nodes: "loop_nodes \<noteq> []" "set loop_nodes \<subseteq> set loop_nodes" by (simp_all add: loop_nodes_def)
  have state: "calm (sa_registry a)" "sa_PredicateChecker a = su_checker" using assms by (simp_all add: loop_state_def)
  show thesis
  proof (rule loop_iteration [where us = "[]" and t = t, OF state _ nodes])
    fix csr a2
    assume csr: "settled t csr" and a2: "a2 = with_registry csr (a\<lparr>sa_initialized := True\<rparr>)"
      and run: "RunOnce loop_env ?li t a su_state =
       map_option (\<lambda>((err, ust, dst), a3, s3). \<lparr>lo_Error = err, lo_Statuses = Some (ust, dst), lo_Cleaned = [],
           lo_WrittenStatus = None, lo_State = a3, lo_Cloud = s3\<rparr>)
         (case pods_to_help loop_env su_checker t loop_nodes [] [] of None \<Rightarrow> None
          | Some (toHelp, waiting, present) \<Rightarrow>
              (case scale_up_phase loop_env ?li t loop_nodes toHelp a2 su_state of None \<Rightarrow> None
               | Some ((Some err, st, forbidden), a3, s3) \<Rightarrow>
                   Some ((err, st, idle_down (if err = None then ScaleDownInCooldown else ScaleDownNotTried)), a3, s3)
               | Some ((None, st, forbidden), a3, s3) \<Rightarrow>
                   map_option (\<lambda>((err, dst), r). ((err, st, dst), r))
                     (scale_down_phase loop_env ?li t loop_nodes [] waiting (present \<or> forbidden) a3 s3)))"
    have up: "scale_up_phase loop_env ?li t loop_nodes [] a2 su_state =
        Some ((None, plain_status ScaleUpNotNeeded, False), a2, su_state)"
      by (simp add: scale_up_phase_def)
    let ?denv = "down_env loop_env ?li su_state a2" and ?sd = "CleanUpScaleDown (down_env loop_env ?li su_state a2) t (sa_scaleDown a2)"
    have "loop_state up unneeded a2"
      using assms csr by (simp add: loop_state_def a2 with_registry_def settled_def)
    then have sd: "sd_unremovableNodes ?sd = []" "calm (sd_clusterStateRegistry ?sd)"
      by (simp_all add: CleanUpScaleDown_frame loop_state_def)
    show thesis
    proof (rule member_update [where t = t, OF sd])
      fix sd'
      assume u: "UpdateUnneededNodes ?denv loop_nodes [member_node] [] t [] ?sd = Some sd'"
        and sd': "sd_unneededNodes sd' = [(''n1'', case mget (sd_unneededNodes ?sd) ''n1'' of None \<Rightarrow> t | Some v \<Rightarrow> v)]"
        "sd_nodeDeleteStatus sd' = sd_nodeDeleteStatus ?sd" "sd_unremovableNodes sd' = []" "calm (sd_clusterStateRegistry sd')"
      let ?a1 = "a2\<lparr>sa_scaleDown := sd'\<rparr>"
      have state1: "loop_state up [(''n1'', case mget unneeded ''n1'' of None \<Rightarrow> t | Some v \<Rightarrow> v)] ?a1"
        using \<open>loop_state up unneeded a2\<close> sd' by (simp add: loop_state_def CleanUpScaleDown_frame)
      then have idle: "\<not> nds_deleteInProgress (sd_nodeDeleteStatus sd')" by (simp add: loop_state_def)
      have down: "scale_down_phase loop_env ?li t loop_nodes [] [] False a2 su_state =
          (if scale_down_in_cooldown loop_env False t ?a1 then Some ((None, idle_down ScaleDownInCooldown), ?a1, su_state)
           else delete_unneeded loop_env ?li t loop_nodes [] [] ?a1 su_state)"
        using u idle by (simp add: scale_down_phase_def member_candidate Let_def)
      show thesis
        by (rule that [OF state1])
          (simp add: run no_pods_to_help up down option.map_comp comp_def split_def)
    qed
  qed simp
qed

lemma loop_waits:
  assumes "loop_state hour unneeded a" "t < 3 * hour"
  obtains out where "RunOnce loop_env (loop_input t [] loop_nodes) t a su_state = Some out" "lo_Cloud out = su_state"
    "\<not> scaled_up out" "gone_nodes out = []" "\<not> drain_started out"
    "loop_state hour [(''n1'', case mget unneeded ''n1'' of None \<Rightarrow> t | Some v \<Rightarrow> v)] (lo_State out)"
proof (rule quiet_iteration [where t = t, OF assms(1)])
  fix a1
  assume a1: "loop_state hour [(''n1'', case mget unneeded ''n1'' of None \<Rightarrow> t | Some v \<Rightarrow> v)] a1"
    and run: "RunOnce loop_env (loop_input t [] loop_nodes) t a su_state =
       map_option (\<lambda>((err, dst), a3, s3). \<lparr>lo_Error = err, lo_Statuses = Some (plain_status ScaleUpNotNeeded, dst),
           lo_Cleaned = [], lo_WrittenStatus = None, lo_State = a3, lo_Cloud = s3\<rparr>)
         (if scale_down_in_cooldown loop_env False t a1 then Some ((None, idle_down ScaleDownInCooldown), a1, su_state)
          else delete_unneeded loop_env (loop_input t [] loop_nodes) t loop_nodes [] [] a1 su_state)"
  have "scale_down_in_cooldown loop_env False t a1"
    using a1 assms(2) by (simp add: scale_down_in_cooldown_def loop_state_def time_defs)
  with run a1 show thesis
    using that by (simp add: scaled_up_def gone_nodes_def drain_started_def started_of_def idle_down_def down_status_def plain_status_def)
qed

lemma m1_not_member: "working_node ''m1'' 1 \<noteq> member_node"
proof -
  have "n_Name (working_node ''m1'' 1) \<noteq> n_Name member_node" by (simp add: loop_node_names)
  then show ?thesis by force
qed

lemma loop_deletes:
  assumes "loop_state hour [(''n1'', v)] a" "3 * hour \<le> t" "v + 50 * minute < t"
  obtains out where "RunOnce loop_env (loop_input t [] loop_nodes) t a su_state = Some out"
    "gone_nodes out = [member_node]" "\<not> drain_started out"
proof (rule quiet_iteration [where t = t, OF assms(1)])
  fix a1
  assume a1: "loop_state hour [(''n1'', case mget [(''n1'', v)] ''n1'' of None \<Rightarrow> t | Some v \<Rightarrow> v)] a1"
    and run: "RunOnce loop_env (loop_input t [] loop_nodes) t a su_state =
       map_option (\<lambda>((err, dst), a3, s3). \<lparr>lo_Error = err, lo_Statuses = Some (plain_status ScaleUpNotNeeded, dst),
           lo_Cleaned = [], lo_WrittenStatus = None, lo_State = a3, lo_Cloud = s3\<rparr>)
         (if scale_down_in_cooldown loop_env False t a1 then Some ((None, idle_down ScaleDownInCooldown), a1, su_state)
          else delete_unneeded loop_env (loop_input t [] loop_nodes) t loop_nodes [] [] a1 su_state)"
  have un: "unneeded_of a1 = [(''n1'', v)]" using a1 by (simp add: loop_state_def)
  have "\<not> scale_down_in_cooldown loop_env False t a1"
    using a1 assms(2) by (simp add: scale_down_in_cooldown_def loop_state_def time_defs duration_defs)
  let ?denv = "down_env loop_env (loop_input t [] loop_nodes) su_state a1"
  obtain results ds where drain: "DrainNodeDeleteResults (sd_nodeDeleteStatus (sa_scaleDown a1)) = (results, ds)"
    by (cases "DrainNodeDeleteResults (sd_nodeDeleteStatus (sa_scaleDown a1))")
  have masters: "filterOutMasters loop_nodes [] = loop_nodes" by (simp add: filterOutMasters_iff)
  have groups: "candidate_group ?denv ((sa_scaleDown a1)\<lparr>sd_nodeDeleteStatus := ds\<rparr>) t (getNodeGroupSizeMap (provider_view su_state)) [] []
      n = (if n = member_node then Some su_group else None)" if "n \<in> set loop_nodes" for n
    using that assms(3)
    by (auto simp: candidate_group_def un loop_node_names loop_node_facts loop_nodes_def su_state_view time_defs getNodeGroupSizeMap_def
        mput_def computeScaleDownResourcesDelta_def ContainsGpuResources_def Let_def checkScaleDownDeltaWithinLimits_def
        exceeds_def hasNoScaleDownAnnotation_def mget0_def member_node_def working_node_def empty_node_def su_group_def)
  have cands: "scale_down_candidates ?denv ((sa_scaleDown a1)\<lparr>sd_nodeDeleteStatus := ds\<rparr>) t \<lparr>rl_minLimits = [], rl_maxLimits = []\<rparr> []
      loop_nodes = ([member_node], [(''n1'', su_group)])"
    using groups by (simp add: scale_down_candidates_def loop_nodes_def GetResources_def mkeys_def mput_def loop_node_names m1_not_member)
  have empties: "getEmptyNodes (env_template ?denv) (env_as_selector ?denv) (env_now ?denv) [member_node] [] (env_MaxEmptyBulkDelete ?denv) []
      (env_CloudProvider ?denv) = Some [member_node]"
    by (simp add: member_empty)
  obtain status sd' where attempt: "TryToScaleDown ?denv (\<lambda>ns csr. (None, csr)) loop_nodes [] [] t (sa_scaleDown a1) = Some (status, None, sd', BulkStarted [member_node])"
    "map sdn_Node (sds_ScaledDownNodes status) = [member_node]" "sds_Result status = ScaleDownNodeDeleted"
    using cands empties by (simp add: TryToScaleDown_def drain masters left2 Let_def mapNodes_nodes)
  then show thesis
    using run \<open>\<not> scale_down_in_cooldown loop_env False t a1\<close> that
    by (simp add: delete_unneeded_def Let_def gone_nodes_def drain_started_def started_of_def)
qed

section \<open>The history\<close>

lemma ca_step_iterate:
  assumes "RunOnce env li t (cs_State c) (cs_Cloud c) = Some out" "\<forall>(t', out')\<in>set (cs_History c). t' \<le> t"
    "\<not> drain_started out"
  shows "ca_step env c \<lparr>cs_State = lo_State out, cs_Cloud = lo_Cloud out, cs_Draining = cs_Draining c,
      cs_History = cs_History c @ [(t, out)]\<rparr>"
  using ca_step.iterate [OF assms(1,2)] assms(3) by simp

text \<open>
  The history: a scale-up at one hour, whose new node the cloud then takes back, two iterations with an
  unneeded node in the delay after the scale-up, and one that deletes the node.
\<close>

lemma loop_history:
  obtains c oA oB1 oB2 oC where "ca_reachable loop_env c" "cs_Draining c = []"
    "cs_History c = [(hour, oA), (2 * hour, oB1), (2 * hour + 30 * minute, oB2), (3 * hour, oC)]"
    "scaled_up oA" "gone_nodes oC = [member_node]"
proof -
  let ?tB1 = "2 * hour" and ?tB2 = "2 * hour + 30 * minute" and ?tC = "3 * hour"
  obtain oA where A: "RunOnce loop_env (loop_input hour su_pods su_nodes) hour loop_start su_state = Some oA"
    "scaled_up oA" "\<not> drain_started oA" "loop_state hour [] (lo_State oA)"
    by (rule loop_scales_up) (rule that, simp_all)
  obtain oB1 where B1: "RunOnce loop_env (loop_input ?tB1 [] loop_nodes) ?tB1 (lo_State oA) su_state = Some oB1"
    "lo_Cloud oB1 = su_state" "\<not> drain_started oB1" "loop_state hour [(''n1'', ?tB1)] (lo_State oB1)"
    by (rule loop_waits [OF A(4), of ?tB1]) (simp add: duration_defs, rule that, simp_all)
  obtain oB2 where B2: "RunOnce loop_env (loop_input ?tB2 [] loop_nodes) ?tB2 (lo_State oB1) su_state = Some oB2"
    "lo_Cloud oB2 = su_state" "\<not> drain_started oB2" "loop_state hour [(''n1'', ?tB1)] (lo_State oB2)"
    by (rule loop_waits [OF B1(4), of ?tB2]) (simp add: duration_defs, rule that, simp_all)
  obtain oC where C: "RunOnce loop_env (loop_input ?tC [] loop_nodes) ?tC (lo_State oB2) su_state = Some oC"
    "gone_nodes oC = [member_node]" "\<not> drain_started oC"
    by (rule loop_deletes [OF B2(4), of ?tC]) (simp_all add: duration_defs that)
  define c0 :: "(unit, testCloudProvider) caSystem" where
    "c0 = \<lparr>cs_State = loop_start, cs_Cloud = su_state, cs_Draining = [], cs_History = []\<rparr>"
  define c1 where "c1 = \<lparr>cs_State = lo_State oA, cs_Cloud = lo_Cloud oA, cs_Draining = [], cs_History = [(hour, oA)]\<rparr>"
  define c2 where "c2 = c1\<lparr>cs_Cloud := su_state\<rparr>"
  define c3 where "c3 = \<lparr>cs_State = lo_State oB1, cs_Cloud = lo_Cloud oB1, cs_Draining = [],
      cs_History = [(hour, oA), (?tB1, oB1)]\<rparr>"
  define c4 where "c4 = \<lparr>cs_State = lo_State oB2, cs_Cloud = lo_Cloud oB2, cs_Draining = [],
      cs_History = [(hour, oA), (?tB1, oB1), (?tB2, oB2)]\<rparr>"
  define c5 where "c5 = \<lparr>cs_State = lo_State oC, cs_Cloud = lo_Cloud oC, cs_Draining = [],
      cs_History = [(hour, oA), (?tB1, oB1), (?tB2, oB2), (?tC, oC)]\<rparr>"
  have initial: "ca_initial c0" unfolding ca_initial_def c0_def loop_start_def caSystem.select_convs by blast
  have "ca_step loop_env c0 c1" using ca_step_iterate [of loop_env _ hour c0 oA] A by (simp add: c0_def c1_def)
  moreover have "ca_step loop_env c1 c2" unfolding c2_def by (rule ca_step.outside)
  moreover have "ca_step loop_env c2 c3"
    using ca_step_iterate [of loop_env _ ?tB1 c2 oB1] B1 by (simp add: c1_def c2_def c3_def duration_defs)
  moreover have "ca_step loop_env c3 c4"
    using ca_step_iterate [of loop_env _ ?tB2 c3 oB2] B1 B2 by (simp add: c3_def c4_def duration_defs)
  moreover have "ca_step loop_env c4 c5"
    using ca_step_iterate [of loop_env _ ?tC c4 oC] B2 C by (simp add: c4_def c5_def duration_defs)
  ultimately have "(ca_step loop_env)\<^sup>*\<^sup>* c0 c5"
    by (meson converse_rtranclp_into_rtranclp rtranclp.rtrancl_refl)
  then have "ca_reachable loop_env c5" using initial by (auto simp: ca_reachable_def)
  then show thesis by (rule that) (use A C in \<open>simp_all add: c5_def\<close>)
qed

end
