(* ===== verification/StaticAutoscalerProps.thy ===== *)
theory StaticAutoscalerProps
  imports StaticAutoscalerDemo
begin

text \<open>
  What the control loop guarantees over many iterations, however they interleave with the ends of drains
  and with changes of the cloud.
\<close>

text \<open>
  C3: At any time at most one node is being drained, and the flag of the scale-down tells whether there is
  one, however iterations, ends of drains and changes of the cloud interleave.
\<close>

theorem one_drain_at_a_time:
  assumes "ca_reachable env c"
  shows "length (cs_Draining c) \<le> 1 \<and>
    (nds_deleteInProgress (sd_nodeDeleteStatus (sa_scaleDown (cs_State c))) \<longleftrightarrow> cs_Draining c \<noteq> [])"
  using ca_reachable_inv [OF assms] by (simp add: ca_inv_def)

text \<open>
  C1: The scale-down starts no deletion, neither the drain of a node nor a bulk of empty nodes, whatever comes of it, in
  an iteration that scales up, nor before the delay after a scale-up of any earlier iteration has passed.  This holds for
  every history of iterations on a clock that does not run backwards (a step of \<open>ca_step\<close>), with drains ending and the
  cloud changing in between.  Instances that never registered, which \<open>removeOldUnregisteredNodes\<close> gives back, are not
  nodes and not meant.
\<close>

theorem no_scale_down_after_scale_up:
  assumes "ca_reachable env c" "cs_History c = before @ (t1, o1) # between @ (t2, o2) # later"
    and "scaled_up o1" "gone_nodes o2 \<noteq> []"
  shows "\<not> scaled_up o2 \<and> t1 + ae_ScaleDownDelayAfterAdd env \<le> t2"
proof -
  have "outcome_ok env (before @ (t1, o1) # between) t2 o2"
    using ca_reachable_inv [OF assms(1)] assms(2) by (auto simp: ca_inv_def)
  with assms(3,4) show ?thesis by (auto simp: outcome_ok_def)
qed

text \<open>
  C2: A node whose deletion the scale-down starts, by a drain or in bulk and whatever comes of it, was unneeded after
  every iteration of the last unneeded time (the one for ready or for unready nodes, whichever the node is; it is not
  negative).  As in C1 the clock does not run backwards, and instances that never registered are not meant.
\<close>

theorem gone_node_unneeded_throughout:
  assumes "ca_reachable env c" "cs_History c = before @ (t, out) # later" "n \<in> set (gone_nodes out)"
    and "0 \<le> unneeded_time env n" "(t1, o1) \<in> set before" "t - unneeded_time env n \<le> t1"
  shows "mhas (sd_unneededNodes (sa_scaleDown (lo_State o1))) (n_Name n)"
proof -
  have "outcome_ok env before t out" using ca_reachable_inv [OF assms(1)] assms(2) by (auto simp: ca_inv_def)
  with assms(3-6) show ?thesis by (fastforce simp: outcome_ok_def)
qed

section \<open>The concrete history\<close>

theorem one_drain_at_a_time_witness:
  "\<exists>c. ca_reachable loop_env c \<and> length (cs_History c) = 4 \<and>
     \<not> nds_deleteInProgress (sd_nodeDeleteStatus (sa_scaleDown (cs_State c)))"
proof (rule loop_history)
  fix c :: "(unit, testCloudProvider) caSystem" and oA oB1 oB2 oC
  assume c: "ca_reachable loop_env c" "cs_Draining c = []"
    "cs_History c = [(hour, oA), (2 * hour, oB1), (2 * hour + 30 * minute, oB2), (3 * hour, oC)]"
  have "\<not> nds_deleteInProgress (sd_nodeDeleteStatus (sa_scaleDown (cs_State c)))"
    using one_drain_at_a_time [OF c(1)] c(2) by simp
  with c show ?thesis by (intro exI [of _ c]) simp
qed

theorem no_scale_down_after_scale_up_witness:
  "\<exists>c before t1 o1 between t2 o2 later. ca_reachable loop_env c \<and>
     cs_History c = before @ (t1, o1) # between @ (t2, o2) # later \<and> scaled_up o1 \<and> gone_nodes o2 = [member_node] \<and>
     \<not> scaled_up o2 \<and> t1 + 2 * hour \<le> t2"
proof (rule loop_history)
  fix c :: "(unit, testCloudProvider) caSystem" and oA oB1 oB2 oC
  assume c: "ca_reachable loop_env c"
    "cs_History c = [(hour, oA), (2 * hour, oB1), (2 * hour + 30 * minute, oB2), (3 * hour, oC)]"
    "scaled_up oA" "gone_nodes oC = [member_node]"
  have h: "cs_History c = [] @ (hour, oA) # [(2 * hour, oB1), (2 * hour + 30 * minute, oB2)] @ (3 * hour, oC) # []"
    using c(2) by simp
  have "\<not> scaled_up oC \<and> hour + 2 * hour \<le> 3 * hour"
    using no_scale_down_after_scale_up [OF c(1) h c(3)] c(4) by simp
  with c h show ?thesis by blast
qed

theorem gone_node_unneeded_throughout_witness:
  "\<exists>c before t out t1 o1. ca_reachable loop_env c \<and> cs_History c = before @ [(t, out)] \<and> gone_nodes out = [member_node] \<and>
     (t1, o1) \<in> set before \<and> t - 50 * minute \<le> t1 \<and> mhas (sd_unneededNodes (sa_scaleDown (lo_State o1))) ''n1''"
proof (rule loop_history)
  fix c :: "(unit, testCloudProvider) caSystem" and oA oB1 oB2 oC
  assume c: "ca_reachable loop_env c"
    "cs_History c = [(hour, oA), (2 * hour, oB1), (2 * hour + 30 * minute, oB2), (3 * hour, oC)]"
    "scaled_up oA" "gone_nodes oC = [member_node]"
  let ?before = "[(hour, oA), (2 * hour, oB1), (2 * hour + 30 * minute, oB2)]"
  have h: "cs_History c = ?before @ (3 * hour, oC) # []" using c(2) by simp
  have time: "unneeded_time loop_env member_node = 50 * minute" by (simp add: unneeded_time_def)
  have gone: "member_node \<in> set (gone_nodes oC)" "0 \<le> unneeded_time loop_env member_node"
    and recent: "(2 * hour + 30 * minute, oB2) \<in> set ?before"
      "3 * hour - unneeded_time loop_env member_node \<le> 2 * hour + 30 * minute"
    by (simp_all add: c(4) time duration_defs)
  have "mhas (sd_unneededNodes (sa_scaleDown (lo_State oB2))) (n_Name member_node)"
    by (rule gone_node_unneeded_throughout [OF c(1) h gone recent])
  then show ?thesis using c(1,4) h recent unfolding time loop_node_names by blast
qed

end
