(* ===== verification/FloatOps.thy ===== *)
theory FloatOps
  imports Float64
begin

text \<open>
  Conversions between \<open>float64\<close> and the integers, and what the components that compute with weights
  need of the operations: order, signs, and exactness on the integers a \<open>float64\<close> holds.
\<close>

section \<open>Conversions\<close>

text \<open>\<open>int(x)\<close>; out of range and not a number give the least \<open>int\<close> on amd64.\<close>

definition f_int :: "f64 \<Rightarrow> int" where
  "f_int x =
     (case x of
        Fin r \<Rightarrow> (let t = (if r < 0 then \<lceil>r\<rceil> else \<lfloor>r\<rfloor>) in if in_i64 t then t else minInt64)
      | _ \<Rightarrow> minInt64)"

fun f_floor :: "f64 \<Rightarrow> f64" where
  "f_floor (Fin r) = Fin (of_int \<lfloor>r\<rfloor>)"
| "f_floor x = x"

definition u32 :: "int \<Rightarrow> int" where
  "u32 n = n mod 2 ^ 32"

text \<open>\<open>math.Ldexp(1., e)\<close>.\<close>

definition ldexp1 :: "int \<Rightarrow> f64" where
  "ldexp1 e = mkf (exp2 e)"

text \<open>\<open>t.Round(d)\<close>; time is counted from the zero time.\<close>

definition time_round :: "time \<Rightarrow> duration \<Rightarrow> time" where
  "time_round t d =
     (if d \<le> 0 then t
      else (let r = t mod d in if r + r < d then t - r else t + (d - r)))"

section \<open>Order\<close>

lemma f_int_mono:
  assumes "fle a b" "fle (Fin (of_int minInt64)) a" "fle b (Fin (of_int maxInt64))"
  shows "f_int a \<le> f_int b"
proof -
  from assms obtain x y where xy: "a = Fin x" "b = Fin y" "x \<le> y"
    and lo: "of_int minInt64 \<le> x" and hi: "y \<le> of_int maxInt64"
    by (cases a; cases b) auto
  let ?t = "\<lambda>r::rat. if r < 0 then \<lceil>r\<rceil> else \<lfloor>r\<rfloor>"
  have range: "in_i64 (?t r)" if "x \<le> r" "r \<le> y" for r
  proof -
    have "of_int minInt64 \<le> r" "r \<le> of_int maxInt64" using that lo hi by linarith+
    then have "minInt64 \<le> \<lfloor>r\<rfloor>" "\<lceil>r\<rceil> \<le> maxInt64" by (simp_all add: le_floor_iff ceiling_le_iff)
    moreover note order_trans [OF _ floor_le_ceiling [of r]] order_trans [OF floor_le_ceiling [of r]]
    ultimately show ?thesis by (auto simp: in_i64_def)
  qed
  have "?t x \<le> ?t y"
  proof (cases "x < 0 \<and> \<not> y < 0")
    case True
    then have "\<lceil>x\<rceil> \<le> 0" "0 \<le> \<lfloor>y\<rfloor>" by (simp_all add: ceiling_le_iff)
    then have "\<lceil>x\<rceil> \<le> \<lfloor>y\<rfloor>" by (rule order_trans)
    then show ?thesis using True by simp
  next
    case False
    then show ?thesis using xy(3) by (auto intro: ceiling_mono floor_mono)
  qed
  then show ?thesis using range [of x] range [of y] xy by (simp add: f_int_def Let_def)
qed

lemma f_int_of_int: "in_i64 n \<Longrightarrow> f_int (Fin (of_int n)) = n"
  by (simp add: f_int_def Let_def)

lemma f_int_nonneg: "fnonneg a \<Longrightarrow> fle a (Fin (of_int maxInt64)) \<Longrightarrow> 0 \<le> f_int a"
  using f_int_mono [of "Fin 0" a] f_int_of_int [of 0] by (simp add: fnonneg_def minInt64_def)

lemma fnonneg_not_NaN: "fnonneg a \<Longrightarrow> a \<noteq> NaN"
  by (cases a) (auto simp: fnonneg_def)

lemma fnonneg_cases: "fnonneg a \<longleftrightarrow> a = PInf \<or> (\<exists>x. a = Fin x \<and> 0 \<le> x)"
  by (cases a) (auto simp: fnonneg_def)

lemma fle_lin: "a \<noteq> NaN \<Longrightarrow> b \<noteq> NaN \<Longrightarrow> \<not> fle a b \<Longrightarrow> flt b a"
  using not_flt [of b a] by blast

lemma flt_not_fle: "flt a b \<Longrightarrow> \<not> fle b a"
  using fle_antisym by (auto simp: flt_def)

lemma flt_not_NaN: "flt a b \<Longrightarrow> a \<noteq> NaN \<and> b \<noteq> NaN"
  using fle_not_NaN by (auto simp: flt_def)

lemma fmul_nonneg: "fnonneg a \<Longrightarrow> fnonneg b \<Longrightarrow> fmul a b \<noteq> NaN \<Longrightarrow> fnonneg (fmul a b)"
  by (auto simp: fnonneg_cases finf_def) (metis fnonneg_cases fnonneg_mkf mult_nonneg_nonneg)

lemma fmul_Fin_nonneg: "0 \<le> x \<Longrightarrow> 0 \<le> y \<Longrightarrow> fnonneg (fmul (Fin x) (Fin y))"
  by (simp add: fnonneg_mkf)

lemma fmul_commute: "fmul a b = fmul b a"
  by (cases a; cases b) (simp_all add: mult.commute)

lemma fadd_commute: "fadd a b = fadd b a"
  by (cases a; cases b) (simp_all add: add.commute)

lemma fnonneg_fadd_not_NaN: "fnonneg a \<Longrightarrow> fnonneg b \<Longrightarrow> fadd a b \<noteq> NaN"
  using fnonneg_fadd fnonneg_not_NaN by blast

lemma fadd_0: "f64_ok a \<Longrightarrow> fadd (Fin 0) a = a"
  by (cases a) (auto simp: mkf_def Let_def abs_le_iff)

text \<open>Scaling a non-negative value by at least one, or at most one.\<close>

lemma f64_ok_mkf: "f64_ok (Fin x) \<Longrightarrow> mkf x = Fin x"
  by (auto simp: mkf_def Let_def abs_le_iff)

lemma fmul_ge:
  assumes "f64_ok (Fin x)" "0 \<le> x" "fle (Fin 1) f" "fmul (Fin x) f \<noteq> NaN"
  shows "fle (Fin x) (fmul (Fin x) f)"
proof (cases f)
  case (Fin y)
  then have "x \<le> x * y" using assms(2,3) by (simp add: mult_le_cancel_left1)
  then show ?thesis using mkf_mono [of x "x * y"] f64_ok_mkf [OF assms(1)] Fin by simp
qed (use assms in \<open>auto simp: finf_def split: if_splits\<close>)

lemma fmul_le:
  assumes "f64_ok (Fin x)" "0 \<le> x" "fnonneg f" "fle f (Fin 1)"
  shows "fle (fmul (Fin x) f) (Fin x)" and "fnonneg (fmul (Fin x) f)"
proof -
  obtain y where y: "f = Fin y" "0 \<le> y" "y \<le> 1" using assms(3,4) by (cases f) (auto simp: fnonneg_def)
  then have "x * y \<le> x" using assms(2) by (simp add: mult_left_le)
  then show "fle (fmul (Fin x) f) (Fin x)" using mkf_mono [of "x * y" x] f64_ok_mkf [OF assms(1)] y by simp
  show "fnonneg (fmul (Fin x) f)" using assms(2) y by (simp add: fnonneg_mkf)
qed

lemma f64_ok_of_int: "\<bar>n\<bar> \<le> 2 ^ 53 \<Longrightarrow> f64_ok (Fin (of_int n))"
  using mkf_ok [of "of_int n"] f_of_int_exact [of n] by (simp add: f_of_int_def)

text \<open>Multiples of a thousandth of a power of two are represented exactly.\<close>

lemma rnd_dyadic:
  assumes "0 < x" "of_int \<lfloor>x * 1024\<rfloor> = x * 1024" "x * 1024 \<le> 2 ^ 53"
  shows "rnd x = x"
proof -
  have "x = of_int \<lfloor>x * 1024\<rfloor> / 1024" unfolding assms(2) by simp
  moreover have "exp2 (- 10) = 1 / 1024" by (simp add: exp2_def)
  ultimately have x: "x = of_int \<lfloor>x * 1024\<rfloor> * exp2 (- 10)" by simp
  have "0 < (of_int \<lfloor>x * 1024\<rfloor> :: rat)" "(of_int \<lfloor>x * 1024\<rfloor> :: rat) \<le> of_int (2 ^ 53)"
    unfolding assms(2) using assms(1,3) by simp_all
  then have "0 < \<lfloor>x * 1024\<rfloor>" "\<lfloor>x * 1024\<rfloor> \<le> 2 ^ 53" by (simp_all only: of_int_0_less_iff of_int_le_iff)
  then have "rnd_pos x = x" using rnd_pos_exact [of "\<lfloor>x * 1024\<rfloor>" "- 10"] x by simp
  then show ?thesis using assms(1) by (simp add: rnd_def)
qed

lemma mkf_dyadic:
  assumes "0 \<le> x" "of_int \<lfloor>x * 1024\<rfloor> = x * 1024" "x * 1024 \<le> 2 ^ 53"
  shows "mkf x = Fin x"
proof (cases "x = 0")
  case False
  then have r: "rnd x = x" using assms by (intro rnd_dyadic) simp_all
  have "x \<le> maxFloat64"
  proof -
    have "x \<le> 2 ^ 53 - 1" using assms(3) by simp
    also have "\<dots> \<le> (2 ^ 53 - 1) * 2 ^ 971" by simp
    finally show ?thesis by (simp only: maxFloat64_def)
  qed
  then show ?thesis using assms(1) r by (simp add: mkf_def Let_def)
qed (use maxFloat64_pos in \<open>simp add: mkf_def Let_def\<close>)

section \<open>The error of rounding\<close>

lemma round_even_near: "\<bar>of_int (round_even r) - r\<bar> \<le> 1 / 2"
proof -
  have b: "of_int \<lfloor>r\<rfloor> \<le> r" "r < of_int \<lfloor>r\<rfloor> + 1" by linarith+
  show ?thesis using b unfolding round_even_def Let_def abs_le_iff by (simp; linarith)
qed

lemma rnd_error:
  assumes "exp2 (- 1022) \<le> x"
  shows "\<bar>rnd x - x\<bar> \<le> x / 2 ^ 53"
proof -
  have x: "0 < x" using assms exp2_pos [of "- 1022"] by linarith
  have "exp2 (- 1022) < exp2 (binade x + 1)" using assms binade_bounds(2) [OF x] by linarith
  then have u: "ulpexp x = binade x - 52" by (simp add: exp2_less_iff ulpexp_def)
  let ?e = "exp2 (ulpexp x)"
  have "rnd x - x = (of_int (round_even (x / ?e)) - x / ?e) * ?e"
    using x by (simp add: rnd_def rnd_pos_def left_diff_distrib)
  moreover have "\<bar>?e\<bar> = ?e" using exp2_pos by (simp only: abs_of_pos)
  ultimately have "\<bar>rnd x - x\<bar> = \<bar>of_int (round_even (x / ?e)) - x / ?e\<bar> * ?e" by (simp only: abs_mult)
  also have "\<dots> \<le> 1 / 2 * ?e" by (rule mult_right_mono [OF round_even_near]) (simp add: less_imp_le)
  also have "\<dots> = exp2 (binade x) / 2 ^ 53"
  proof -
    have "exp2 52 = 2 ^ 52" by (simp add: exp2_def)
    then show ?thesis by (simp add: u exp2_diff)
  qed
  also have "\<dots> \<le> x / 2 ^ 53" using binade_bounds(1) [OF x] by (simp add: divide_right_mono)
  finally show ?thesis .
qed

lemma rnd_error_small:
  assumes "0 \<le> x"
  shows "\<bar>rnd x - x\<bar> \<le> x / 2 ^ 53 + 1 / 2 ^ 60"
proof (cases "exp2 (- 1022) \<le> x")
  case True
  then show ?thesis using rnd_error by fastforce
next
  case False
  have "x \<le> exp2 (- 60)" using False exp2_mono [of "- 1022" "- 60"] by linarith
  moreover have e: "exp2 (- 60) = 1 / 2 ^ 60" by (simp add: exp2_def)
  moreover have "rnd (exp2 (- 60)) = exp2 (- 60)" using rnd_pos_exact [of 1 "- 60"] by (simp add: rnd_def)
  ultimately have "rnd x \<le> 1 / 2 ^ 60" "x \<le> 1 / 2 ^ 60" using rnd_mono [of x "exp2 (- 60)"] by simp_all
  moreover have "0 \<le> rnd x" by (rule f64r.r_nonneg [OF assms])
  moreover have "0 \<le> x / 2 ^ 53" using assms by simp
  ultimately show ?thesis using assms unfolding abs_le_iff by linarith
qed

end
