(* ===== verification/Histogram.thy ===== *)
theory Histogram
  imports FloatOps
begin

text \<open>
  \<open>recommender/util/histogram_options.go\<close> and \<open>histogram.go\<close> of the vertical pod autoscaler: bucketing
  schemes, weighted histograms, percentiles and checkpoints.  The logarithm, power and exponential of
  Go's \<open>math\<close> package are the record \<open>mathLib\<close>.  Options are compared by their address, the first
  component of a \<open>histogramOptions\<close>.  An operation that panics returns \<open>None\<close>.
\<close>

section \<open>Loops that may panic\<close>

fun ofold :: "('s \<Rightarrow> 'a \<Rightarrow> 's option) \<Rightarrow> 's \<Rightarrow> 'a list \<Rightarrow> 's option" where
  "ofold f s [] = Some s"
| "ofold f s (x # xs) = (case f s x of None \<Rightarrow> None | Some s' \<Rightarrow> ofold f s' xs)"

section \<open>Options\<close>

record mathLib =
  m_Log :: "f64 \<Rightarrow> f64"
  m_Pow :: "f64 \<Rightarrow> f64 \<Rightarrow> f64"
  m_Exp2 :: "f64 \<Rightarrow> f64"

record linearHistogramOptions =
  lo_numBuckets :: int
  lo_bucketSize :: f64
  lo_epsilon :: f64

record exponentialHistogramOptions =
  xo_numBuckets :: int
  xo_firstBucketSize :: f64
  xo_ratio :: f64
  xo_epsilon :: f64

datatype histogramOptions =
  Linear nat linearHistogramOptions
| Exponential nat exponentialHistogramOptions

definition go_log :: "mathLib \<Rightarrow> f64 \<Rightarrow> f64 \<Rightarrow> f64" where
  "go_log ml base x = fdiv (m_Log ml x) (m_Log ml base)"

definition NewLinearHistogramOptions :: "nat \<Rightarrow> f64 \<Rightarrow> f64 \<Rightarrow> f64 \<Rightarrow> string + histogramOptions" where
  "NewLinearHistogramOptions address maxValue bucketSize eps =
     (if fle maxValue (Fin 0) \<or> fle bucketSize (Fin 0) \<or> fle eps (Fin 0)
      then Inl ''maxValue and bucketSize must both be positive''
      else Inr (Linear address \<lparr>lo_numBuckets = f_ceil_int (fdiv maxValue bucketSize) + 1,
             lo_bucketSize = bucketSize, lo_epsilon = eps\<rparr>))"

definition NewExponentialHistogramOptions ::
  "mathLib \<Rightarrow> nat \<Rightarrow> f64 \<Rightarrow> f64 \<Rightarrow> f64 \<Rightarrow> f64 \<Rightarrow> string + histogramOptions" where
  "NewExponentialHistogramOptions ml address maxValue firstBucketSize ratio eps =
     (if fle maxValue (Fin 0) \<or> fle firstBucketSize (Fin 0) \<or> fle ratio (Fin 1) \<or> fle eps (Fin 0)
      then Inl ''maxValue, firstBucketSize and epsilon must be > 0.0, ratio must be > 1.0''
      else Inr (Exponential address
        \<lparr>xo_numBuckets = f_ceil_int (go_log ml ratio
             (fadd (fdiv (fmul maxValue (fsub ratio (Fin 1))) firstBucketSize) (Fin 1))) + 1,
         xo_firstBucketSize = firstBucketSize, xo_ratio = ratio, xo_epsilon = eps\<rparr>))"

fun NumBuckets :: "histogramOptions \<Rightarrow> int" where
  "NumBuckets (Linear _ o') = lo_numBuckets o'"
| "NumBuckets (Exponential _ o') = xo_numBuckets o'"

fun Epsilon :: "histogramOptions \<Rightarrow> f64" where
  "Epsilon (Linear _ o') = lo_epsilon o'"
| "Epsilon (Exponential _ o') = xo_epsilon o'"

fun FindBucket :: "mathLib \<Rightarrow> histogramOptions \<Rightarrow> f64 \<Rightarrow> int" where
  "FindBucket ml (Linear _ o') value =
     (let bucket = f_int (fdiv value (lo_bucketSize o'))
      in if bucket < 0 then 0
         else if bucket \<ge> lo_numBuckets o' then lo_numBuckets o' - 1
         else bucket)"
| "FindBucket ml (Exponential _ o') value =
     (if flt value (xo_firstBucketSize o') then 0
      else (let bucket = f_int (go_log ml (xo_ratio o')
                  (fadd (fdiv (fmul value (fsub (xo_ratio o') (Fin 1))) (xo_firstBucketSize o')) (Fin 1)))
            in if bucket \<ge> xo_numBuckets o' then xo_numBuckets o' - 1 else bucket))"

text \<open>The start of a bucket; an index out of range panics.\<close>

fun bucket_start :: "mathLib \<Rightarrow> histogramOptions \<Rightarrow> int \<Rightarrow> f64" where
  "bucket_start ml (Linear _ o') bucket = fmul (f_of_int bucket) (lo_bucketSize o')"
| "bucket_start ml (Exponential _ o') bucket =
     (if bucket = 0 then Fin 0
      else fdiv (fmul (xo_firstBucketSize o') (fsub (m_Pow ml (xo_ratio o') (f_of_int bucket)) (Fin 1)))
             (fsub (xo_ratio o') (Fin 1)))"

definition GetBucketStart :: "mathLib \<Rightarrow> histogramOptions \<Rightarrow> int \<Rightarrow> f64 option" where
  "GetBucketStart ml opts bucket =
     (if bucket < 0 \<or> bucket \<ge> NumBuckets opts then None else Some (bucket_start ml opts bucket))"

section \<open>Histograms\<close>

record histogram =
  h_options :: histogramOptions
  h_bucketWeight :: "f64 list"
  h_totalWeight :: f64
  h_minBucket :: int
  h_maxBucket :: int

definition NewHistogram :: "histogramOptions \<Rightarrow> histogram option" where
  "NewHistogram opts =
     (if NumBuckets opts < 0 then None
      else Some \<lparr>h_options = opts, h_bucketWeight = replicate (nat (NumBuckets opts)) (Fin 0), h_totalWeight = Fin 0,
        h_minBucket = NumBuckets opts - 1, h_maxBucket = 0\<rparr>)"

text \<open>Reading and changing \<open>h.bucketWeight[b]\<close>.\<close>

definition weight_at :: "f64 list \<Rightarrow> int \<Rightarrow> f64 option" where
  "weight_at ws b = (if 0 \<le> b \<and> b < int (length ws) then Some (ws ! nat b) else None)"

definition change_at :: "(f64 \<Rightarrow> f64) \<Rightarrow> f64 list \<Rightarrow> int \<Rightarrow> f64 list option" where
  "change_at f ws b = map_option (\<lambda>w. ws[nat b := f w]) (weight_at ws b)"

definition AddSample :: "mathLib \<Rightarrow> f64 \<Rightarrow> f64 \<Rightarrow> histogram \<Rightarrow> histogram option" where
  "AddSample ml value weight h =
     (if flt weight (Fin 0) then None
      else
        (let bucket = FindBucket ml (h_options h) value; eps = Epsilon (h_options h)
         in case change_at (\<lambda>w. fadd w weight) (h_bucketWeight h) bucket of
              None \<Rightarrow> None
            | Some ws \<Rightarrow>
                (let heavy = fle eps (ws ! nat bucket)
                 in Some (h\<lparr>h_bucketWeight := ws, h_totalWeight := fadd (h_totalWeight h) weight,
                       h_minBucket := (if bucket < h_minBucket h \<and> heavy then bucket else h_minBucket h),
                       h_maxBucket := (if bucket > h_maxBucket h \<and> heavy then bucket else h_maxBucket h)\<rparr>))))"

definition safeSubtract :: "f64 \<Rightarrow> f64 \<Rightarrow> f64 \<Rightarrow> f64" where
  "safeSubtract value sub eps = (let v = fsub value sub in if flt v eps then Fin 0 else v)"

text \<open>The two loops of \<open>updateMinAndMaxBucket\<close>.\<close>

function raise_min :: "f64 list \<Rightarrow> f64 \<Rightarrow> int \<Rightarrow> int \<Rightarrow> int option" where
  "raise_min ws eps lastBucket b =
     (case weight_at ws b of
        None \<Rightarrow> None
      | Some w \<Rightarrow> if flt w eps \<and> b < lastBucket then raise_min ws eps lastBucket (b + 1) else Some b)"
  by auto
termination by (relation "measure (\<lambda>(ws, eps, lastBucket, b). nat (lastBucket - b))") auto

function lower_max :: "f64 list \<Rightarrow> f64 \<Rightarrow> int \<Rightarrow> int option" where
  "lower_max ws eps b =
     (case weight_at ws b of
        None \<Rightarrow> None
      | Some w \<Rightarrow> if flt w eps \<and> b > 0 then lower_max ws eps (b - 1) else Some b)"
  by auto
termination by (relation "measure (\<lambda>(ws, eps, b). nat b)") auto

declare raise_min.simps [simp del] lower_max.simps [simp del]

definition updateMinAndMaxBucket :: "histogram \<Rightarrow> histogram option" where
  "updateMinAndMaxBucket h =
     (let eps = Epsilon (h_options h); lastBucket = NumBuckets (h_options h) - 1
      in case raise_min (h_bucketWeight h) eps lastBucket (h_minBucket h) of
           None \<Rightarrow> None
         | Some lo \<Rightarrow>
             map_option (\<lambda>hi. h\<lparr>h_minBucket := lo, h_maxBucket := hi\<rparr>)
               (lower_max (h_bucketWeight h) eps (h_maxBucket h)))"

definition SubtractSample :: "mathLib \<Rightarrow> f64 \<Rightarrow> f64 \<Rightarrow> histogram \<Rightarrow> histogram option" where
  "SubtractSample ml value weight h =
     (if flt weight (Fin 0) then None
      else
        (let bucket = FindBucket ml (h_options h) value; eps = Epsilon (h_options h)
         in case change_at (\<lambda>w. safeSubtract w weight eps) (h_bucketWeight h) bucket of
              None \<Rightarrow> None
            | Some ws \<Rightarrow>
                updateMinAndMaxBucket (h\<lparr>h_totalWeight := safeSubtract (h_totalWeight h) weight eps,
                  h_bucketWeight := ws\<rparr>)))"

definition add_bucket :: "f64 list \<Rightarrow> f64 list \<Rightarrow> int \<Rightarrow> f64 list option" where
  "add_bucket ows ws b = (case weight_at ows b of None \<Rightarrow> None | Some w \<Rightarrow> change_at (\<lambda>v. fadd v w) ws b)"

definition Merge :: "histogram \<Rightarrow> histogram \<Rightarrow> histogram option" where
  "Merge other h =
     (if h_options h \<noteq> h_options other then None
      else
        map_option (\<lambda>ws. h\<lparr>h_bucketWeight := ws, h_totalWeight := fadd (h_totalWeight h) (h_totalWeight other),
             h_minBucket := min (h_minBucket h) (h_minBucket other),
             h_maxBucket := max (h_maxBucket h) (h_maxBucket other)\<rparr>)
          (ofold (add_bucket (h_bucketWeight other)) (h_bucketWeight h) [h_minBucket other..h_maxBucket other]))"

definition IsEmpty :: "histogram \<Rightarrow> bool option" where
  "IsEmpty h = map_option (\<lambda>w. flt w (Epsilon (h_options h))) (weight_at (h_bucketWeight h) (h_minBucket h))"

text \<open>The bucket at which the loop of \<open>Percentile\<close> ends.\<close>

function percentile_bucket :: "f64 list \<Rightarrow> f64 \<Rightarrow> int \<Rightarrow> f64 \<Rightarrow> int \<Rightarrow> int option" where
  "percentile_bucket ws threshold maxBucket partialSum bucket =
     (if bucket < maxBucket then
        (case weight_at ws bucket of
           None \<Rightarrow> None
         | Some w \<Rightarrow>
             (let partialSum' = fadd partialSum w
              in if fle threshold partialSum' then Some bucket
                 else percentile_bucket ws threshold maxBucket partialSum' (bucket + 1)))
      else Some bucket)"
  by auto
termination by (relation "measure (\<lambda>(ws, threshold, maxBucket, partialSum, bucket). nat (maxBucket - bucket))") auto

declare percentile_bucket.simps [simp del]

definition Percentile :: "mathLib \<Rightarrow> f64 \<Rightarrow> histogram \<Rightarrow> f64 option" where
  "Percentile ml percentile h =
     (case IsEmpty h of
        None \<Rightarrow> None
      | Some True \<Rightarrow> Some (Fin 0)
      | Some False \<Rightarrow>
          (case percentile_bucket (h_bucketWeight h) (fmul percentile (h_totalWeight h)) (h_maxBucket h) (Fin 0) (h_minBucket h) of
             None \<Rightarrow> None
           | Some bucket \<Rightarrow>
               if bucket < NumBuckets (h_options h) - 1
               then GetBucketStart ml (h_options h) (bucket + 1)
               else GetBucketStart ml (h_options h) bucket))"

definition same_weights :: "f64 list \<Rightarrow> f64 list \<Rightarrow> int list \<Rightarrow> bool option" where
  "same_weights ws ws2 bs =
     ofold (\<lambda>ok b. case (weight_at ws b, weight_at ws2 b) of
              (Some w, Some w2) \<Rightarrow>
                Some (ok \<and> \<not> (flt (mkf (1 / 10 ^ 15)) (fsub w w2) \<or> flt (fsub w w2) (mkf (- 1 / 10 ^ 15))))
            | _ \<Rightarrow> if ok then None else Some ok) True bs"

definition HistogramEquals :: "histogram \<Rightarrow> histogram \<Rightarrow> bool option" where
  "HistogramEquals h h2 =
     (if h_options h \<noteq> h_options h2 \<or> h_minBucket h \<noteq> h_minBucket h2 \<or> h_maxBucket h \<noteq> h_maxBucket h2 then Some False
      else same_weights (h_bucketWeight h) (h_bucketWeight h2) [h_minBucket h..h_maxBucket h])"

definition scale :: "f64 \<Rightarrow> histogram \<Rightarrow> histogram option" where
  "scale factor h =
     (if flt factor (Fin 0) then None
      else
        (case ofold (change_at (\<lambda>w. fmul w factor)) (h_bucketWeight h) [h_minBucket h..h_maxBucket h] of
           None \<Rightarrow> None
         | Some ws \<Rightarrow> updateMinAndMaxBucket (h\<lparr>h_bucketWeight := ws, h_totalWeight := fmul (h_totalWeight h) factor\<rparr>)))"

section \<open>Checkpoints\<close>

definition MaxCheckpointWeight :: int where
  "MaxCheckpointWeight = 10000"

record histogramCheckpoint =
  hc_ReferenceTimestamp :: time
  hc_BucketWeights :: "(int, int) gomap"
  hc_TotalWeight :: f64

definition go_round :: "f64 \<Rightarrow> int" where
  "go_round x = f_int (f_floor (fadd x (Fin (1 / 2))))"

definition max_weight :: "f64 list \<Rightarrow> int list \<Rightarrow> f64 option" where
  "max_weight ws bs = ofold (\<lambda>m b. map_option (\<lambda>w. if flt m w then w else m) (weight_at ws b)) (Fin 0) bs"

definition saved_weight :: "f64 \<Rightarrow> f64 \<Rightarrow> int" where
  "saved_weight ratio w = u32 (go_round (fmul w ratio))"

definition save_bucket :: "f64 list \<Rightarrow> f64 \<Rightarrow> (int, int) gomap \<Rightarrow> int \<Rightarrow> (int, int) gomap option" where
  "save_bucket ws ratio m b =
     map_option (\<lambda>w. let newWeight = saved_weight ratio w in if newWeight > 0 then mput b newWeight m else m) (weight_at ws b)"

definition SaveToChekpoint :: "histogram \<Rightarrow> histogramCheckpoint option" where
  "SaveToChekpoint h =
     (let bs = [h_minBucket h..h_maxBucket h]
      in case max_weight (h_bucketWeight h) bs of
           None \<Rightarrow> None
         | Some m \<Rightarrow>
             map_option (\<lambda>weights. \<lparr>hc_ReferenceTimestamp = 0, hc_BucketWeights = weights, hc_TotalWeight = h_totalWeight h\<rparr>)
               (ofold (save_bucket (h_bucketWeight h) (fdiv (f_of_int MaxCheckpointWeight) m)) [] bs))"

datatype checkpointError =
  EmptyCheckpoint | NegativeWeight f64 | ExceedingBucket int int | NegativeBucket int

fun check_buckets :: "int \<Rightarrow> int \<Rightarrow> (int \<times> int) list \<Rightarrow> checkpointError + int" where
  "check_buckets n acc [] = Inr acc"
| "check_buckets n acc ((bucket, weight) # rest) =
     (if bucket \<ge> n then Inl (ExceedingBucket bucket n)
      else if bucket < 0 then Inl (NegativeBucket bucket)
      else check_buckets n (i64 (acc + weight)) rest)"

definition load_bucket :: "f64 \<Rightarrow> histogram \<Rightarrow> int \<times> int \<Rightarrow> histogram option" where
  "load_bucket ratio h entry =
     (case entry of (bucket, weight) \<Rightarrow>
        map_option (\<lambda>ws. h\<lparr>h_minBucket := min (h_minBucket h) bucket, h_maxBucket := max (h_maxBucket h) bucket,
             h_bucketWeight := ws\<rparr>)
          (change_at (\<lambda>w. fadd w (fmul (f_of_int weight) ratio)) (h_bucketWeight h) bucket))"

definition LoadFromCheckpoint :: "histogramCheckpoint option \<Rightarrow> histogram \<Rightarrow> (checkpointError + histogram) option" where
  "LoadFromCheckpoint checkpoint h =
     (case checkpoint of
        None \<Rightarrow> Some (Inl EmptyCheckpoint)
      | Some c \<Rightarrow>
          if flt (hc_TotalWeight c) (Fin 0) then Some (Inl (NegativeWeight (hc_TotalWeight c)))
          else
            (case check_buckets (NumBuckets (h_options h)) 0 (hc_BucketWeights c) of
               Inl err \<Rightarrow> Some (Inl err)
             | Inr s \<Rightarrow>
                 if s = 0 then Some (Inr h)
                 else
                   map_option (\<lambda>h'. Inr (h'\<lparr>h_totalWeight := fadd (h_totalWeight h') (hc_TotalWeight c)\<rparr>))
                     (ofold (load_bucket (fdiv (hc_TotalWeight c) (f_of_int s))) h (hc_BucketWeights c))))"

end
