(* ===== verification/DecayingHistogram.thy ===== *)
theory DecayingHistogram
  imports Histogram
begin

text \<open>
  \<open>recommender/util/decaying_histogram.go\<close>: histograms whose samples lose half of their weight in every half
  life.  Weights are stored relative to a reference time, which is moved when the factors grow too large.
  Merging may move the reference time of either histogram, so it returns both.
\<close>

definition maxDecayExponent :: int where
  "maxDecayExponent = 100"

record decayingHistogram =
  dh_histogram :: histogram
  dh_halfLife :: duration
  dh_referenceTimestamp :: time

definition NewDecayingHistogram :: "histogramOptions \<Rightarrow> duration \<Rightarrow> decayingHistogram option" where
  "NewDecayingHistogram opts halfLife =
     map_option (\<lambda>h. \<lparr>dh_histogram = h, dh_halfLife = halfLife, dh_referenceTimestamp = 0\<rparr>) (NewHistogram opts)"

definition DecayingPercentile :: "mathLib \<Rightarrow> f64 \<Rightarrow> decayingHistogram \<Rightarrow> f64 option" where
  "DecayingPercentile ml percentile h = Percentile ml percentile (dh_histogram h)"

definition shift_exponent :: "time \<Rightarrow> decayingHistogram \<Rightarrow> int" where
  "shift_exponent newReference h =
     go_round (fdiv (f_of_int (time_sub (dh_referenceTimestamp h) newReference)) (f_of_int (dh_halfLife h)))"

definition shiftReferenceTimestamp :: "time \<Rightarrow> decayingHistogram \<Rightarrow> decayingHistogram option" where
  "shiftReferenceTimestamp newreferenceTimestamp h =
     (let newReference = time_round newreferenceTimestamp (dh_halfLife h)
      in map_option (\<lambda>hist. h\<lparr>dh_histogram := hist, dh_referenceTimestamp := newReference\<rparr>)
           (scale (ldexp1 (shift_exponent newReference h)) (dh_histogram h)))"

definition max_allowed :: "decayingHistogram \<Rightarrow> time" where
  "max_allowed h = time_add (dh_referenceTimestamp h) (i64 (dh_halfLife h * maxDecayExponent))"

definition factor_at :: "mathLib \<Rightarrow> time \<Rightarrow> decayingHistogram \<Rightarrow> f64" where
  "factor_at ml timestamp h =
     m_Exp2 ml (fdiv (f_of_int (time_sub timestamp (dh_referenceTimestamp h))) (f_of_int (dh_halfLife h)))"

definition decayFactor :: "mathLib \<Rightarrow> time \<Rightarrow> decayingHistogram \<Rightarrow> (f64 \<times> decayingHistogram) option" where
  "decayFactor ml timestamp h =
     map_option (\<lambda>h'. (factor_at ml timestamp h', h'))
       (if time_after timestamp (max_allowed h) then shiftReferenceTimestamp timestamp h else Some h)"

definition with_factor ::
  "mathLib \<Rightarrow> (f64 \<Rightarrow> f64 \<Rightarrow> histogram \<Rightarrow> histogram option) \<Rightarrow> f64 \<Rightarrow> f64 \<Rightarrow> time \<Rightarrow> decayingHistogram \<Rightarrow>
     decayingHistogram option" where
  "with_factor ml change value weight timestamp h =
     (case decayFactor ml timestamp h of
        None \<Rightarrow> None
      | Some (factor, h1) \<Rightarrow>
          map_option (\<lambda>hist. h1\<lparr>dh_histogram := hist\<rparr>) (change value (fmul weight factor) (dh_histogram h1)))"

definition DecayingAddSample :: "mathLib \<Rightarrow> f64 \<Rightarrow> f64 \<Rightarrow> time \<Rightarrow> decayingHistogram \<Rightarrow> decayingHistogram option" where
  "DecayingAddSample ml = with_factor ml (AddSample ml)"

definition DecayingSubtractSample :: "mathLib \<Rightarrow> f64 \<Rightarrow> f64 \<Rightarrow> time \<Rightarrow> decayingHistogram \<Rightarrow> decayingHistogram option" where
  "DecayingSubtractSample ml = with_factor ml (SubtractSample ml)"

definition align :: "decayingHistogram \<Rightarrow> decayingHistogram \<Rightarrow> (decayingHistogram \<times> decayingHistogram) option" where
  "align other h =
     (if time_before (dh_referenceTimestamp h) (dh_referenceTimestamp other)
      then map_option (\<lambda>h'. (other, h')) (shiftReferenceTimestamp (dh_referenceTimestamp other) h)
      else if time_before (dh_referenceTimestamp other) (dh_referenceTimestamp h)
      then map_option (\<lambda>o'. (o', h)) (shiftReferenceTimestamp (dh_referenceTimestamp h) other)
      else Some (other, h))"

text \<open>The histogram that is merged, and the one it is merged into.\<close>

definition DecayingMerge ::
  "decayingHistogram \<Rightarrow> decayingHistogram \<Rightarrow> (decayingHistogram \<times> decayingHistogram) option" where
  "DecayingMerge other h =
     (if dh_halfLife h \<noteq> dh_halfLife other then None
      else
        (case align other h of
           None \<Rightarrow> None
         | Some (o', h') \<Rightarrow>
             map_option (\<lambda>hist. (o', h'\<lparr>dh_histogram := hist\<rparr>)) (Merge (dh_histogram o') (dh_histogram h'))))"

definition DecayingEquals :: "decayingHistogram \<Rightarrow> decayingHistogram \<Rightarrow> bool option" where
  "DecayingEquals h h2 =
     (if dh_halfLife h = dh_halfLife h2 \<and> dh_referenceTimestamp h = dh_referenceTimestamp h2
      then HistogramEquals (dh_histogram h) (dh_histogram h2) else Some False)"

definition DecayingIsEmpty :: "decayingHistogram \<Rightarrow> bool option" where
  "DecayingIsEmpty h = IsEmpty (dh_histogram h)"

definition DecayingSaveToChekpoint :: "decayingHistogram \<Rightarrow> histogramCheckpoint option" where
  "DecayingSaveToChekpoint h =
     map_option (\<lambda>c. c\<lparr>hc_ReferenceTimestamp := dh_referenceTimestamp h\<rparr>) (SaveToChekpoint (dh_histogram h))"

definition DecayingLoadFromCheckpoint ::
  "histogramCheckpoint option \<Rightarrow> decayingHistogram \<Rightarrow> (checkpointError + decayingHistogram) option" where
  "DecayingLoadFromCheckpoint checkpoint h =
     map_option (map_sum id (\<lambda>hist. h\<lparr>dh_histogram := hist,
         dh_referenceTimestamp := (case checkpoint of None \<Rightarrow> 0 | Some c \<Rightarrow> hc_ReferenceTimestamp c)\<rparr>))
       (LoadFromCheckpoint checkpoint (dh_histogram h))"

end
