(* ===== verification/HistogramProps.thy ===== *)
theory HistogramProps
  imports Histogram
begin

text \<open>
  Histograms: the invariant of every sequence of operations, percentiles and checkpoints.
\<close>

section \<open>The invariant\<close>

definition weight_ok :: "f64 \<Rightarrow> bool" where
  "weight_ok w \<longleftrightarrow> fnonneg w \<and> f64_ok w"

definition light :: "histogram \<Rightarrow> int \<Rightarrow> bool" where
  "light h b \<longleftrightarrow> flt (h_bucketWeight h ! nat b) (Epsilon (h_options h))"

text \<open>
  The buckets outside the range from the first to the last are light; the ends of the range are heavy,
  or at their start values.
\<close>

definition hist_ok :: "histogram \<Rightarrow> bool" where
  "hist_ok h \<longleftrightarrow>
     (let n = NumBuckets (h_options h)
      in 0 < n \<and> length (h_bucketWeight h) = nat n \<and> flt (Fin 0) (Epsilon (h_options h)) \<and>
         (\<forall>w\<in>set (h_bucketWeight h). weight_ok w) \<and> weight_ok (h_totalWeight h) \<and>
         h_minBucket h \<in> {0..<n} \<and> h_maxBucket h \<in> {0..<n} \<and>
         (\<forall>b\<in>{0..<n}. b < h_minBucket h \<or> h_maxBucket h < b \<longrightarrow> light h b) \<and>
         (h_minBucket h = n - 1 \<or> \<not> light h (h_minBucket h)) \<and> (h_maxBucket h = 0 \<or> \<not> light h (h_maxBucket h)))"

lemma f64_ok_fadd: "f64_ok a \<Longrightarrow> f64_ok b \<Longrightarrow> f64_ok (fadd a b)"
  by (cases a; cases b) (simp_all add: mkf_ok del: f64_ok.simps(1))

lemma f64_ok_fmul: "f64_ok a \<Longrightarrow> f64_ok b \<Longrightarrow> f64_ok (fmul a b)"
  by (cases a; cases b) (simp_all add: mkf_ok finf_def)

lemma f64_ok_0 [simp]: "f64_ok (Fin 0)"
  using maxFloat64_pos by simp

lemma weight_ok_0 [simp]: "weight_ok (Fin 0)"
  using maxFloat64_pos by (simp add: weight_ok_def fnonneg_def)

lemma weight_ok_fadd: "weight_ok a \<Longrightarrow> weight_ok b \<Longrightarrow> weight_ok (fadd a b)"
  by (simp add: weight_ok_def fnonneg_fadd f64_ok_fadd)

lemma weight_ok_not_NaN: "weight_ok a \<Longrightarrow> a \<noteq> NaN"
  by (simp add: weight_ok_def fnonneg_not_NaN)

lemma weight_ok_fadd_ge: "weight_ok a \<Longrightarrow> weight_ok b \<Longrightarrow> fle a (fadd a b)"
  by (intro fle_fadd_nonneg) (auto simp: weight_ok_def fnonneg_not_NaN dest: fnonneg_fadd_not_NaN)

lemma hist_okD:
  assumes "hist_ok h"
  shows "0 < NumBuckets (h_options h)" "length (h_bucketWeight h) = nat (NumBuckets (h_options h))"
    "flt (Fin 0) (Epsilon (h_options h))" "\<And>w. w \<in> set (h_bucketWeight h) \<Longrightarrow> weight_ok w" "weight_ok (h_totalWeight h)"
    "0 \<le> h_minBucket h" "h_minBucket h < NumBuckets (h_options h)" "0 \<le> h_maxBucket h"
    "h_maxBucket h < NumBuckets (h_options h)"
    "\<And>b. 0 \<le> b \<Longrightarrow> b < NumBuckets (h_options h) \<Longrightarrow> b < h_minBucket h \<or> h_maxBucket h < b \<Longrightarrow> light h b"
    "h_minBucket h = NumBuckets (h_options h) - 1 \<or> \<not> light h (h_minBucket h)"
    "h_maxBucket h = 0 \<or> \<not> light h (h_maxBucket h)"
  using assms by (auto simp: hist_ok_def Let_def)

lemma weight_at_hist:
  "hist_ok h \<Longrightarrow> 0 \<le> b \<Longrightarrow> b < NumBuckets (h_options h) \<Longrightarrow>
     weight_at (h_bucketWeight h) b = Some (h_bucketWeight h ! nat b) \<and> weight_ok (h_bucketWeight h ! nat b)"
  using hist_okD(1,2) [of h] by (auto simp: weight_at_def intro!: hist_okD(4))

lemma weight_at_Some: "weight_at ws b = Some w \<longleftrightarrow> 0 \<le> b \<and> b < int (length ws) \<and> w = ws ! nat b"
  by (auto simp: weight_at_def)

lemma change_at_Some:
  "change_at f ws b = Some ws' \<longleftrightarrow> 0 \<le> b \<and> b < int (length ws) \<and> ws' = ws[nat b := f (ws ! nat b)]"
  by (auto simp: change_at_def weight_at_Some)

lemma nth_change: "0 \<le> b \<Longrightarrow> b < int (length ws) \<Longrightarrow> 0 \<le> i \<Longrightarrow> ws[nat b := x] ! nat i = (if i = b then x else ws ! nat i)"
  by (auto simp: nth_list_update)

lemma not_light: "hist_ok h \<Longrightarrow> 0 \<le> b \<Longrightarrow> b < NumBuckets (h_options h) \<Longrightarrow>
    \<not> light h b \<longleftrightarrow> fle (Epsilon (h_options h)) (h_bucketWeight h ! nat b)"
  using weight_at_hist [of h b] hist_okD(3) [of h] by (simp add: light_def not_flt weight_ok_not_NaN flt_not_NaN)

lemma hist_ok_New:
  assumes "NewHistogram opts = Some h" "0 < NumBuckets opts" "flt (Fin 0) (Epsilon opts)"
  shows "hist_ok h"
  using assms by (auto simp: NewHistogram_def hist_ok_def light_def Let_def)

section \<open>Adding and subtracting samples\<close>

lemma weight_ok_sample: "\<not> flt w (Fin 0) \<Longrightarrow> w \<noteq> NaN \<Longrightarrow> f64_ok w \<Longrightarrow> weight_ok w"
  using not_flt [of w "Fin 0"] by (simp add: weight_ok_def fnonneg_def)

lemma hist_ok_AddSample:
  assumes ok: "hist_ok h" and add: "AddSample ml value weight h = Some h'" and w: "weight \<noteq> NaN" "f64_ok weight"
  shows "hist_ok h'"
proof -
  let ?b = "FindBucket ml (h_options h) value" and ?eps = "Epsilon (h_options h)" and ?n = "NumBuckets (h_options h)"
  from add have pos: "\<not> flt weight (Fin 0)" by (auto simp: AddSample_def split: if_splits)
  then have wok: "weight_ok weight" using w by (rule weight_ok_sample)
  obtain ws where ws: "change_at (\<lambda>v. fadd v weight) (h_bucketWeight h) ?b = Some ws"
    and h': "h' = h\<lparr>h_bucketWeight := ws, h_totalWeight := fadd (h_totalWeight h) weight,
       h_minBucket := (if ?b < h_minBucket h \<and> fle ?eps (ws ! nat ?b) then ?b else h_minBucket h),
       h_maxBucket := (if ?b > h_maxBucket h \<and> fle ?eps (ws ! nat ?b) then ?b else h_maxBucket h)\<rparr>"
    using add pos by (auto simp: AddSample_def Let_def split: option.splits)
  have b: "0 \<le> ?b" "?b < int (length (h_bucketWeight h))" "?b < ?n"
    and wsb: "ws = (h_bucketWeight h)[nat ?b := fadd (h_bucketWeight h ! nat ?b) weight]"
    using ws hist_okD(1,2) [OF ok] by (simp_all add: change_at_Some)
  have nth: "ws ! nat i = (if i = ?b then fadd (h_bucketWeight h ! nat i) weight else h_bucketWeight h ! nat i)" if "0 \<le> i" for i
    using nth_change [OF b(1,2) that] by (auto simp: wsb)
  have grow: "fle (h_bucketWeight h ! nat i) (ws ! nat i)" if "0 \<le> i" "i < ?n" for i
    using weight_at_hist [OF ok that] wok
    by (auto simp: nth [OF that(1)] weight_ok_fadd_ge fle_refl [OF weight_ok_not_NaN])
  have eps: "?eps \<noteq> NaN" using hist_okD(3) [OF ok] by (auto dest: flt_not_NaN)
  have opts: "h_options h' = h_options h" by (simp add: h')
  have wsok: "weight_ok v" if "v \<in> set ws" for v
    using that set_update_subset_insert [of "h_bucketWeight h" "nat ?b" "fadd (h_bucketWeight h ! nat ?b) weight"]
      hist_okD(4) [OF ok] weight_at_hist [OF ok b(1,3)] wok
    unfolding wsb by (auto intro: weight_ok_fadd)
  have light': "light h' i \<longleftrightarrow> flt (ws ! nat i) ?eps" for i by (simp add: light_def h')
  have "ws ! nat ?b \<in> set ws" using b by (simp add: wsb set_update_memI)
  then have "ws ! nat ?b \<noteq> NaN" by (rule weight_ok_not_NaN [OF wsok])
  then have lightb: "light h' ?b \<longleftrightarrow> \<not> fle ?eps (ws ! nat ?b)"
    using fle_lin [OF eps] flt_not_fle by (auto simp: light')
  have kept: "\<not> light h i \<Longrightarrow> \<not> light h' i" if "0 \<le> i" "i < ?n" for i
    using fle_flt_trans [OF grow [OF that]] unfolding light' by (auto simp: light_def)
  have out: "light h' i" if "0 \<le> i" "i < ?n" "i < h_minBucket h' \<or> h_maxBucket h' < i" for i
  proof (cases "i = ?b")
    case True
    then show ?thesis using that(3) lightb by (auto simp: h' split: if_splits)
  next
    case False
    then have "i < h_minBucket h \<or> h_maxBucket h < i" using that(3) by (auto simp: h' split: if_splits)
    then show ?thesis using hist_okD(10) [OF ok that(1,2)] False that(1) unfolding light' by (simp add: light_def nth)
  qed
  have lo: "h_minBucket h' = ?n - 1 \<or> \<not> light h' (h_minBucket h')"
    using hist_okD(11) [OF ok] kept [OF hist_okD(6,7) [OF ok]] lightb by (auto simp: h')
  have hi: "h_maxBucket h' = 0 \<or> \<not> light h' (h_maxBucket h')"
    using hist_okD(12) [OF ok] kept [OF hist_okD(8,9) [OF ok]] lightb by (auto simp: h')
  have range: "0 \<le> h_minBucket h'" "h_minBucket h' < ?n" "0 \<le> h_maxBucket h'" "h_maxBucket h' < ?n"
    using b hist_okD(6-9) [OF ok] by (auto simp: h')
  have tot: "weight_ok (h_totalWeight h')" using hist_okD(5) [OF ok] wok by (simp add: h' weight_ok_fadd)
  have len: "length ws = nat ?n" using hist_okD(2) [OF ok] by (simp add: wsb)
  have ws': "h_bucketWeight h' = ws" by (simp add: h')
  have all: "\<forall>w\<in>set ws. weight_ok w" using wsok by blast
  show ?thesis
    unfolding hist_ok_def Let_def opts ws'
    using hist_okD(1,3) [OF ok] len all out lo hi range tot by auto
qed

lemma raise_min_spec:
  assumes "0 \<le> b" "b \<le> lastBucket" "lastBucket < int (length ws)"
  shows "\<exists>b'. raise_min ws eps lastBucket b = Some b' \<and> b \<le> b' \<and> b' \<le> lastBucket \<and>
    (\<forall>i. b \<le> i \<and> i < b' \<longrightarrow> flt (ws ! nat i) eps) \<and> (b' = lastBucket \<or> \<not> flt (ws ! nat b') eps)"
  using assms
proof (induction ws eps lastBucket b rule: raise_min.induct)
  case (1 ws eps lastBucket b)
  have w: "weight_at ws b = Some (ws ! nat b)" using "1.prems" by (simp add: weight_at_def)
  show ?case
  proof (cases "flt (ws ! nat b) eps \<and> b < lastBucket")
    case True
    with "1.prems" "1.IH" [OF w True] obtain b' where b': "raise_min ws eps lastBucket (b + 1) = Some b'" "b + 1 \<le> b'"
      "b' \<le> lastBucket" "\<forall>i. b + 1 \<le> i \<and> i < b' \<longrightarrow> flt (ws ! nat i) eps" "b' = lastBucket \<or> \<not> flt (ws ! nat b') eps"
      by auto
    moreover have "flt (ws ! nat i) eps" if "b \<le> i" "i < b'" for i
      using that True b'(4) by (cases "i = b") auto
    ultimately show ?thesis using True by (simp add: raise_min.simps [of ws eps lastBucket b] w)
  next
    case False
    then show ?thesis using "1.prems" by (auto simp: raise_min.simps [of ws eps lastBucket b] w)
  qed
qed

lemma lower_max_spec:
  assumes "0 \<le> b" "b < int (length ws)"
  shows "\<exists>b'. lower_max ws eps b = Some b' \<and> 0 \<le> b' \<and> b' \<le> b \<and>
    (\<forall>i. b' < i \<and> i \<le> b \<longrightarrow> flt (ws ! nat i) eps) \<and> (b' = 0 \<or> \<not> flt (ws ! nat b') eps)"
  using assms
proof (induction ws eps b rule: lower_max.induct)
  case (1 ws eps b)
  have w: "weight_at ws b = Some (ws ! nat b)" using "1.prems" by (simp add: weight_at_def)
  show ?case
  proof (cases "flt (ws ! nat b) eps \<and> b > 0")
    case True
    with "1.prems" "1.IH" [OF w True] obtain b' where b': "lower_max ws eps (b - 1) = Some b'" "0 \<le> b'"
      "b' \<le> b - 1" "\<forall>i. b' < i \<and> i \<le> b - 1 \<longrightarrow> flt (ws ! nat i) eps" "b' = 0 \<or> \<not> flt (ws ! nat b') eps"
      by auto
    moreover have "flt (ws ! nat i) eps" if "b' < i" "i \<le> b" for i
      using that True b'(4) by (cases "i = b") auto
    ultimately show ?thesis using True by (simp add: lower_max.simps [of ws eps b] w)
  next
    case False
    then show ?thesis using "1.prems" by (auto simp: lower_max.simps [of ws eps b] w)
  qed
qed

text \<open>\<open>updateMinAndMaxBucket\<close> restores the invariant after weights have shrunk.\<close>

lemma hist_ok_update:
  assumes "0 < NumBuckets (h_options h)" "length (h_bucketWeight h) = nat (NumBuckets (h_options h))"
    "flt (Fin 0) (Epsilon (h_options h))" "\<And>w. w \<in> set (h_bucketWeight h) \<Longrightarrow> weight_ok w" "weight_ok (h_totalWeight h)"
    "0 \<le> h_minBucket h" "h_minBucket h < NumBuckets (h_options h)" "0 \<le> h_maxBucket h"
    "h_maxBucket h < NumBuckets (h_options h)"
    "\<And>b. 0 \<le> b \<Longrightarrow> b < NumBuckets (h_options h) \<Longrightarrow> b < h_minBucket h \<or> h_maxBucket h < b \<Longrightarrow> light h b"
  shows "\<exists>h'. updateMinAndMaxBucket h = Some h' \<and> hist_ok h' \<and> h_options h' = h_options h \<and>
    h_bucketWeight h' = h_bucketWeight h \<and> h_totalWeight h' = h_totalWeight h"
proof -
  let ?n = "NumBuckets (h_options h)" and ?ws = "h_bucketWeight h" and ?eps = "Epsilon (h_options h)"
  obtain lo where lo: "raise_min ?ws ?eps (?n - 1) (h_minBucket h) = Some lo" "h_minBucket h \<le> lo" "lo \<le> ?n - 1"
    "\<forall>i. h_minBucket h \<le> i \<and> i < lo \<longrightarrow> flt (?ws ! nat i) ?eps" "lo = ?n - 1 \<or> \<not> flt (?ws ! nat lo) ?eps"
    using raise_min_spec [of "h_minBucket h" "?n - 1" ?ws ?eps] assms(1,2,6,7) by auto
  obtain hi where hi: "lower_max ?ws ?eps (h_maxBucket h) = Some hi" "0 \<le> hi" "hi \<le> h_maxBucket h"
    "\<forall>i. hi < i \<and> i \<le> h_maxBucket h \<longrightarrow> flt (?ws ! nat i) ?eps" "hi = 0 \<or> \<not> flt (?ws ! nat hi) ?eps"
    using lower_max_spec [of "h_maxBucket h" ?ws ?eps] assms(1,2,8,9) by auto
  let ?h = "h\<lparr>h_minBucket := lo, h_maxBucket := hi\<rparr>"
  have out: "flt (?ws ! nat b) ?eps" if "0 \<le> b" "b < ?n" "b < lo \<or> hi < b" for b
  proof (cases "b < h_minBucket h \<or> h_maxBucket h < b")
    case True
    then show ?thesis using assms(10) [OF that(1,2)] by (simp add: light_def)
  next
    case False
    then show ?thesis using lo(4) hi(4) that(3) by auto
  qed
  have "hist_ok ?h"
    unfolding hist_ok_def Let_def using assms(1-9) lo hi out by (auto simp: light_def)
  then show ?thesis using lo(1) hi(1) by (intro exI [of _ ?h]) (simp add: updateMinAndMaxBucket_def Let_def)
qed

lemma light_0: "flt (Fin 0) eps \<Longrightarrow> \<not> fle eps (Fin 0)"
  by (rule flt_not_fle)

lemma fsub_le: "weight_ok a \<Longrightarrow> 0 \<le> y \<Longrightarrow> fle (fsub a (Fin y)) a \<and> f64_ok (fsub a (Fin y))"
proof (cases a)
  case (Fin x)
  assume a: "weight_ok a" "0 \<le> y"
  then have "mkf x = Fin x" using Fin by (intro f64_ok_mkf) (simp add: weight_ok_def)
  then show ?thesis using mkf_mono [of "x - y" x] a(2) Fin mkf_ok [of "x - y"] by (simp add: fsub_def)
qed (simp_all add: weight_ok_def fnonneg_def fsub_def)

lemma safeSubtract_ok:
  assumes "weight_ok a" "0 \<le> y" "flt (Fin 0) eps"
  shows "weight_ok (safeSubtract a (Fin y) eps)" "flt a eps \<Longrightarrow> flt (safeSubtract a (Fin y) eps) eps"
proof -
  let ?v = "fsub a (Fin y)"
  note v = fsub_le [OF assms(1,2)]
  have nn: "?v \<noteq> NaN" using v by (auto dest: fle_not_NaN)
  show "weight_ok (safeSubtract a (Fin y) eps)"
  proof (cases "flt ?v eps")
    case False
    then have "fle eps ?v" using not_flt [OF nn, of eps] assms(3) flt_not_NaN by blast
    then have "fle (Fin 0) ?v" using flt_fle [OF assms(3)] fle_trans by blast
    then show ?thesis using False v by (simp add: safeSubtract_def Let_def weight_ok_def fnonneg_def)
  qed (simp add: safeSubtract_def Let_def)
  show "flt (safeSubtract a (Fin y) eps) eps" if "flt a eps"
    using fle_flt_trans [OF _ that, of ?v] v assms(3) by (simp add: safeSubtract_def Let_def)
qed

lemma hist_ok_SubtractSample:
  assumes ok: "hist_ok h" and sub: "SubtractSample ml value (Fin y) h = Some h'"
  shows "hist_ok h'"
proof -
  let ?b = "FindBucket ml (h_options h) value" and ?eps = "Epsilon (h_options h)" and ?n = "NumBuckets (h_options h)"
  from sub have y: "0 \<le> y" by (auto simp: SubtractSample_def flt_def split: if_splits)
  obtain ws where ws: "change_at (\<lambda>w. safeSubtract w (Fin y) ?eps) (h_bucketWeight h) ?b = Some ws"
    and h': "updateMinAndMaxBucket (h\<lparr>h_totalWeight := safeSubtract (h_totalWeight h) (Fin y) ?eps, h_bucketWeight := ws\<rparr>) = Some h'"
    using sub by (auto simp: SubtractSample_def Let_def split: option.splits if_splits)
  let ?h = "h\<lparr>h_totalWeight := safeSubtract (h_totalWeight h) (Fin y) ?eps, h_bucketWeight := ws\<rparr>"
  have b: "0 \<le> ?b" "?b < int (length (h_bucketWeight h))" "?b < ?n"
    and wsb: "ws = (h_bucketWeight h)[nat ?b := safeSubtract (h_bucketWeight h ! nat ?b) (Fin y) ?eps]"
    using ws hist_okD(1,2) [OF ok] by (simp_all add: change_at_Some)
  note eps = hist_okD(3) [OF ok]
  note sok = safeSubtract_ok [OF conjunct2 [OF weight_at_hist [OF ok b(1,3)]] y eps]
  have wsok: "weight_ok v" if "v \<in> set ws" for v
    using that set_update_subset_insert [of "h_bucketWeight h" "nat ?b"] hist_okD(4) [OF ok] sok(1) unfolding wsb by fast
  have out: "light ?h i" if "0 \<le> i" "i < ?n" "i < h_minBucket h \<or> h_maxBucket h < i" for i
    using hist_okD(10) [OF ok that] sok(2) nth_change [OF b(1,2) that(1)] by (auto simp: light_def wsb)
  have "\<exists>h''. updateMinAndMaxBucket ?h = Some h'' \<and> hist_ok h'' \<and> h_options h'' = h_options ?h \<and>
      h_bucketWeight h'' = h_bucketWeight ?h \<and> h_totalWeight h'' = h_totalWeight ?h"
    by (rule hist_ok_update)
      (use hist_okD(1-3,6-9) [OF ok] wsok out safeSubtract_ok(1) [OF hist_okD(5) [OF ok] y eps] in \<open>simp_all add: wsb\<close>)
  then show ?thesis using h' by simp
qed

section \<open>Merging and scaling\<close>

lemma ofold_change:
  assumes "\<And>b ws. lo \<le> b \<Longrightarrow> b \<le> hi \<Longrightarrow> length ws = n \<Longrightarrow> g ws b = Some (ws[nat b := f b (ws ! nat b)])"
    "0 \<le> lo" "hi < int n" "length ws = n"
  shows "\<exists>ws'. ofold g ws [lo..hi] = Some ws' \<and> length ws' = n \<and>
    (\<forall>i\<ge>0. ws' ! nat i = (if lo \<le> i \<and> i \<le> hi then f i (ws ! nat i) else ws ! nat i))"
  using assms
proof (induction lo hi arbitrary: ws rule: upto.induct)
  case (1 lo hi)
  show ?case
  proof (cases "lo \<le> hi")
    case True
    let ?ws = "ws[nat lo := f lo (ws ! nat lo)]"
    have step: "g ws lo = Some ?ws" using "1.prems"(1) [OF _ True "1.prems"(4)] by simp
    have "\<exists>ws'. ofold g ?ws [lo + 1..hi] = Some ws' \<and> length ws' = n \<and>
        (\<forall>i\<ge>0. ws' ! nat i = (if lo + 1 \<le> i \<and> i \<le> hi then f i (?ws ! nat i) else ?ws ! nat i))"
      by (rule "1.IH" [OF True]) (use "1.prems" in simp_all)
    then obtain ws' where ws': "ofold g ?ws [lo + 1..hi] = Some ws'" "length ws' = n"
      "\<forall>i\<ge>0. ws' ! nat i = (if lo + 1 \<le> i \<and> i \<le> hi then f i (?ws ! nat i) else ?ws ! nat i)" by blast
    have "lo < int (length ws)" using True "1.prems"(3,4) by simp
    then have "?ws ! nat i = (if i = lo then f lo (ws ! nat lo) else ws ! nat i)" if "0 \<le> i" for i
      by (rule nth_change [OF "1.prems"(2) _ that])
    then have "ws' ! nat i = (if lo \<le> i \<and> i \<le> hi then f i (ws ! nat i) else ws ! nat i)" if "0 \<le> i" for i
      using ws'(3) that True by auto
    then show ?thesis using ws'(1,2) step True by (simp add: upto_rec1)
  next
    case False
    then show ?thesis using "1.prems"(4) by auto
  qed
qed

lemma weights_okI:
  assumes "length ws = nat n" "\<And>i. 0 \<le> i \<Longrightarrow> i < n \<Longrightarrow> weight_ok (ws ! nat i)" "w \<in> set ws"
  shows "weight_ok w"
proof -
  obtain k where "k < length ws" "w = ws ! k" using assms(3) by (auto simp: in_set_conv_nth)
  then show ?thesis using assms(2) [of "int k"] assms(1) by simp
qed

lemma hist_ok_Merge:
  assumes ok: "hist_ok h" "hist_ok other" and merge: "Merge other h = Some h'"
  shows "hist_ok h'"
proof -
  let ?n = "NumBuckets (h_options h)" and ?eps = "Epsilon (h_options h)"
  let ?lo = "h_minBucket other" and ?hi = "h_maxBucket other" and ?ow = "h_bucketWeight other"
  have same: "h_options other = h_options h" using merge by (auto simp: Merge_def split: if_splits)
  note oD = hist_okD [OF ok(2), unfolded same]
  have step: "add_bucket ?ow ws b = Some (ws[nat b := fadd (ws ! nat b) (?ow ! nat b)])"
    if "?lo \<le> b" "b \<le> ?hi" "length ws = nat ?n" for b ws
    using that oD(1,2,6,9) by (simp add: add_bucket_def weight_at_def change_at_def)
  have "\<exists>ws. ofold (add_bucket ?ow) (h_bucketWeight h) [?lo..?hi] = Some ws \<and> length ws = nat ?n \<and>
    (\<forall>i\<ge>0. ws ! nat i = (if ?lo \<le> i \<and> i \<le> ?hi then fadd (h_bucketWeight h ! nat i) (?ow ! nat i) else h_bucketWeight h ! nat i))"
    by (rule ofold_change) (use step oD(6,9) hist_okD(1,2) [OF ok(1)] in simp_all)
  then obtain ws where ws: "ofold (add_bucket ?ow) (h_bucketWeight h) [?lo..?hi] = Some ws" "length ws = nat ?n"
    "\<And>i. 0 \<le> i \<Longrightarrow> ws ! nat i = (if ?lo \<le> i \<and> i \<le> ?hi then fadd (h_bucketWeight h ! nat i) (?ow ! nat i)
       else h_bucketWeight h ! nat i)" by auto
  have h': "h' = h\<lparr>h_bucketWeight := ws, h_totalWeight := fadd (h_totalWeight h) (h_totalWeight other),
      h_minBucket := min (h_minBucket h) ?lo, h_maxBucket := max (h_maxBucket h) ?hi\<rparr>"
    using merge ws(1) same by (simp add: Merge_def)
  have hw: "weight_ok (h_bucketWeight h ! nat i)" if "0 \<le> i" "i < ?n" for i using weight_at_hist [OF ok(1) that] by simp
  have ow: "weight_ok (?ow ! nat i)" if "0 \<le> i" "i < ?n" for i using weight_at_hist [OF ok(2)] that same by simp
  have wok: "weight_ok (ws ! nat i)" if "0 \<le> i" "i < ?n" for i
    using hw [OF that] ow [OF that] ws(3) [OF that(1)] by (auto intro: weight_ok_fadd)
  have growh: "fle (h_bucketWeight h ! nat i) (ws ! nat i)" if "0 \<le> i" "i < ?n" for i
    using hw [OF that] ow [OF that] ws(3) [OF that(1)] by (simp add: weight_ok_fadd_ge fle_refl [OF weight_ok_not_NaN])
  have growo: "fle (?ow ! nat i) (ws ! nat i)" if "0 \<le> i" "i < ?n" "?lo \<le> i" "i \<le> ?hi" for i
    using hw [OF that(1,2)] ow [OF that(1,2)] ws(3) [OF that(1)] that(3,4)
    by (simp add: fadd_commute [of "h_bucketWeight h ! nat i"] weight_ok_fadd_ge)
  have light': "light h' i \<longleftrightarrow> flt (ws ! nat i) ?eps" for i by (simp add: light_def h')
  have out: "light h' i" if "0 \<le> i" "i < ?n" "i < h_minBucket h' \<or> h_maxBucket h' < i" for i
  proof -
    have "(i < h_minBucket h \<or> h_maxBucket h < i) \<and> \<not> (?lo \<le> i \<and> i \<le> ?hi)" using that(3) by (auto simp: h')
    then show ?thesis using hist_okD(10) [OF ok(1) that(1,2)] ws(3) [OF that(1)] unfolding light' by (auto simp: light_def)
  qed
  have heavyh: "\<not> light h' i" if "\<not> light h i" "0 \<le> i" "i < ?n" for i
    using that(1) fle_flt_trans [OF growh [OF that(2,3)]] unfolding light' by (auto simp: light_def)
  have heavyo: "\<not> light h' i" if "\<not> light other i" "0 \<le> i" "i < ?n" for i
  proof -
    have "?lo \<le> i" "i \<le> ?hi" using oD(10) [OF that(2,3)] that(1) by force+
    then show ?thesis using that(1) fle_flt_trans [OF growo [OF that(2,3)]] unfolding light' by (auto simp: light_def same)
  qed
  have lo: "h_minBucket h' = ?n - 1 \<or> \<not> light h' (h_minBucket h')"
    using hist_okD(11) [OF ok(1)] oD(11) heavyh [OF _ hist_okD(6,7) [OF ok(1)]] heavyo [OF _ oD(6,7)] hist_okD(7) [OF ok(1)] oD(7)
    by (auto simp: h' min_def)
  have hi: "h_maxBucket h' = 0 \<or> \<not> light h' (h_maxBucket h')"
    using hist_okD(12) [OF ok(1)] oD(12) heavyh [OF _ hist_okD(8,9) [OF ok(1)]] heavyo [OF _ oD(8,9)] hist_okD(8) [OF ok(1)] oD(8)
    by (auto simp: h' max_def)
  have range: "0 \<le> h_minBucket h'" "h_minBucket h' < ?n" "0 \<le> h_maxBucket h'" "h_maxBucket h' < ?n"
    using hist_okD(6-9) [OF ok(1)] oD(6-9) by (auto simp: h')
  have opts: "h_options h' = h_options h" "h_bucketWeight h' = ws" by (simp_all add: h')
  have tot: "weight_ok (h_totalWeight h')" using hist_okD(5) [OF ok(1)] oD(5) by (simp add: h' weight_ok_fadd)
  have all: "\<forall>w\<in>set ws. weight_ok w" using weights_okI [OF ws(2) wok] by blast
  show ?thesis
    unfolding hist_ok_def Let_def opts
    using hist_okD(1,3) [OF ok(1)] ws(2) all out lo hi range tot by auto
qed

definition finite_weights :: "histogram \<Rightarrow> bool" where
  "finite_weights h \<longleftrightarrow> (\<forall>w\<in>insert (h_totalWeight h) (set (h_bucketWeight h)). w \<noteq> PInf)"

lemma weight_ok_fmul: "weight_ok w \<Longrightarrow> f64_ok (Fin y) \<Longrightarrow> 0 \<le> y \<Longrightarrow> 0 < y \<or> w \<noteq> PInf \<Longrightarrow> weight_ok (fmul w (Fin y))"
  by (cases w) (auto simp: weight_ok_def fnonneg_def finf_def mkf_ok fnonneg_mkf [unfolded fnonneg_def])

lemma hist_ok_scale:
  assumes ok: "hist_ok h" and y: "f64_ok (Fin y)" "0 \<le> y" "0 < y \<or> finite_weights h"
  shows "\<exists>h'. scale (Fin y) h = Some h' \<and> hist_ok h' \<and> h_options h' = h_options h"
proof -
  let ?n = "NumBuckets (h_options h)" and ?eps = "Epsilon (h_options h)"
  let ?lo = "h_minBucket h" and ?hi = "h_maxBucket h"
  have step: "change_at (\<lambda>w. fmul w (Fin y)) ws b = Some (ws[nat b := fmul (ws ! nat b) (Fin y)])"
    if "?lo \<le> b" "b \<le> ?hi" "length ws = nat ?n" for b ws
    using that hist_okD(1,2,6,9) [OF ok] by (simp add: weight_at_def change_at_def)
  have "\<exists>ws. ofold (change_at (\<lambda>w. fmul w (Fin y))) (h_bucketWeight h) [?lo..?hi] = Some ws \<and> length ws = nat ?n \<and>
    (\<forall>i\<ge>0. ws ! nat i = (if ?lo \<le> i \<and> i \<le> ?hi then fmul (h_bucketWeight h ! nat i) (Fin y) else h_bucketWeight h ! nat i))"
    by (rule ofold_change) (use step hist_okD(1,2,6,9) [OF ok] in simp_all)
  then obtain ws where ws: "ofold (change_at (\<lambda>w. fmul w (Fin y))) (h_bucketWeight h) [?lo..?hi] = Some ws" "length ws = nat ?n"
    "\<And>i. 0 \<le> i \<Longrightarrow> ws ! nat i = (if ?lo \<le> i \<and> i \<le> ?hi then fmul (h_bucketWeight h ! nat i) (Fin y)
       else h_bucketWeight h ! nat i)" by auto
  let ?h = "h\<lparr>h_bucketWeight := ws, h_totalWeight := fmul (h_totalWeight h) (Fin y)\<rparr>"
  have wok: "weight_ok (ws ! nat i)" if "0 \<le> i" "i < ?n" for i
  proof -
    have w: "weight_ok (h_bucketWeight h ! nat i)" using weight_at_hist [OF ok that] by simp
    have "0 < y \<or> h_bucketWeight h ! nat i \<noteq> PInf"
      using y(3) that hist_okD(2) [OF ok] nth_mem [of "nat i" "h_bucketWeight h"] by (auto simp: finite_weights_def)
    then have "weight_ok (fmul (h_bucketWeight h ! nat i) (Fin y))" by (rule weight_ok_fmul [OF w y(1,2)])
    then show ?thesis using w ws(3) [OF that(1)] by simp
  qed
  have tot: "weight_ok (fmul (h_totalWeight h) (Fin y))"
    using y(3) by (intro weight_ok_fmul [OF hist_okD(5) [OF ok] y(1,2)]) (auto simp: finite_weights_def)
  have out: "light ?h i" if "0 \<le> i" "i < ?n" "i < ?lo \<or> ?hi < i" for i
    using hist_okD(10) [OF ok that] ws(3) [OF that(1)] that(3) by (auto simp: light_def)
  have "\<exists>h''. updateMinAndMaxBucket ?h = Some h'' \<and> hist_ok h'' \<and> h_options h'' = h_options ?h \<and>
      h_bucketWeight h'' = h_bucketWeight ?h \<and> h_totalWeight h'' = h_totalWeight ?h"
    by (rule hist_ok_update) (use hist_okD(1-3,6-9) [OF ok] weights_okI [OF ws(2) wok] ws(2) out tot in simp_all)
  moreover have "\<not> flt (Fin y) (Fin 0)" using y(2) by (auto simp: flt_def)
  ultimately show ?thesis by (auto simp: scale_def ws(1))
qed

end
