(* ===== verification/HistogramDemo.thy ===== *)
theory HistogramDemo
  imports Histogram
begin

text \<open>
  A small mathematics library and a small histogram, on which the witnesses of the theorems about
  histograms are evaluated.
\<close>

text \<open>
  An exponential that rounds its argument down, and the powers the recommender uses; the logarithm is not
  used by linear options.
\<close>

definition demo_math :: mathLib where
  "demo_math = \<lparr>m_Log = (\<lambda>x. x), m_Pow = (\<lambda>x y. if y = Fin (- 2) then fdiv (Fin 1) (fmul x x) else x),
     m_Exp2 = (\<lambda>x. case x of Fin r \<Rightarrow> ldexp1 \<lfloor>r\<rfloor> | NInf \<Rightarrow> Fin 0 | _ \<Rightarrow> x)\<rparr>"

definition demo_options :: histogramOptions where
  "demo_options = Linear 0 \<lparr>lo_numBuckets = 4, lo_bucketSize = Fin 10, lo_epsilon = Fin (1 / 8)\<rparr>"

lemmas demo_eval = mkf_dyadic finf_def flt_def f_ceil_int_def f_int_def Let_def weight_at_def change_at_def
  f_of_int_def in_i64_def minInt64_def maxInt64_def

lemma demo_options_constructed: "NewLinearHistogramOptions 0 (Fin 30) (Fin 10) (Fin (1 / 8)) = Inr demo_options"
  by (simp add: NewLinearHistogramOptions_def demo_options_def demo_eval)

definition demo_empty :: histogram where
  "demo_empty = \<lparr>h_options = demo_options, h_bucketWeight = [Fin 0, Fin 0, Fin 0, Fin 0], h_totalWeight = Fin 0,
     h_minBucket = 3, h_maxBucket = 0\<rparr>"

definition demo_light :: histogram where
  "demo_light = \<lparr>h_options = demo_options, h_bucketWeight = [Fin 0, Fin 1, Fin 0, Fin 0], h_totalWeight = Fin 1,
     h_minBucket = 1, h_maxBucket = 1\<rparr>"

definition demo_hist :: histogram where
  "demo_hist = \<lparr>h_options = demo_options, h_bucketWeight = [Fin 0, Fin 1, Fin 3, Fin 0], h_totalWeight = Fin 4,
     h_minBucket = 1, h_maxBucket = 2\<rparr>"

lemma demo_empty_constructed: "NewHistogram demo_options = Some demo_empty"
  by (simp add: NewHistogram_def demo_options_def demo_empty_def numeral_eq_Suc)

lemma demo_bucket: "FindBucket ml demo_options (Fin 15) = 1" "FindBucket ml demo_options (Fin 25) = 2"
proof -
  have "\<lfloor>3 / 2 :: rat\<rfloor> = 1" "\<lfloor>5 / 2 :: rat\<rfloor> = 2" by (simp_all add: floor_eq_iff)
  then show "FindBucket ml demo_options (Fin 15) = 1" "FindBucket ml demo_options (Fin 25) = 2"
    by (simp_all add: demo_options_def demo_eval)
qed

lemma demo_light_filled: "AddSample ml (Fin 15) (Fin 1) demo_empty = Some demo_light"
  by (simp add: AddSample_def demo_empty_def demo_light_def demo_bucket) (simp add: demo_options_def demo_eval)

lemma demo_hist_filled: "AddSample ml (Fin 25) (Fin 3) demo_light = Some demo_hist"
  by (simp add: AddSample_def demo_hist_def demo_light_def demo_bucket) (simp add: demo_options_def demo_eval)

lemma demo_percentiles:
  "Percentile ml (Fin (1 / 4)) demo_hist = Some (Fin 20)" "Percentile ml (Fin (1 / 2)) demo_hist = Some (Fin 30)"
  by (simp_all add: Percentile_def IsEmpty_def GetBucketStart_def percentile_bucket.simps demo_hist_def demo_options_def demo_eval)

end
