(* ===== verification/Percentiles.thy ===== *)
theory Percentiles
  imports HistogramProps HistogramDemo
begin

text \<open>Percentiles of a histogram: no panic, the bucket that is found, and monotonicity.\<close>

section \<open>The loop\<close>

text \<open>The partial sum of the loop when it looks at a bucket.\<close>

definition partial_sum :: "f64 list \<Rightarrow> f64 \<Rightarrow> int \<Rightarrow> int \<Rightarrow> f64" where
  "partial_sum ws s lo b = foldl fadd s (map (\<lambda>i. ws ! nat i) [lo..b])"

lemma partial_sum_rec: "lo \<le> b \<Longrightarrow> partial_sum ws s lo b = partial_sum ws (fadd s (ws ! nat lo)) (lo + 1) b"
  by (simp add: partial_sum_def upto_rec1)

lemma percentile_bucket_spec:
  assumes "0 \<le> b" "b \<le> hi" "hi < int (length ws)"
  shows "\<exists>k. percentile_bucket ws thr hi s b = Some k \<and> b \<le> k \<and> k \<le> hi \<and>
    (k = hi \<or> fle thr (partial_sum ws s b k)) \<and> (\<forall>i. b \<le> i \<and> i < k \<longrightarrow> \<not> fle thr (partial_sum ws s b i))"
  using assms
proof (induction ws thr hi s b rule: percentile_bucket.induct)
  case (1 ws thr hi s b)
  have w: "weight_at ws b = Some (ws ! nat b)" using "1.prems" by (simp add: weight_at_def)
  have here: "partial_sum ws s b b = fadd s (ws ! nat b)" by (simp add: partial_sum_def)
  show ?case
  proof (cases "b < hi \<and> \<not> fle thr (fadd s (ws ! nat b))")
    case True
    with "1.prems" "1.IH" [OF _ w refl] obtain k where k: "percentile_bucket ws thr hi (fadd s (ws ! nat b)) (b + 1) = Some k"
      "b + 1 \<le> k" "k \<le> hi" "k = hi \<or> fle thr (partial_sum ws (fadd s (ws ! nat b)) (b + 1) k)"
      "\<forall>i. b + 1 \<le> i \<and> i < k \<longrightarrow> \<not> fle thr (partial_sum ws (fadd s (ws ! nat b)) (b + 1) i)"
      by auto
    have "\<not> fle thr (partial_sum ws s b i)" if "b \<le> i" "i < k" for i
      using that k(5) True here partial_sum_rec [OF that(1), of ws s] by (cases "i = b") auto
    moreover have "k = hi \<or> fle thr (partial_sum ws s b k)" using k(2,4) partial_sum_rec [of b k ws s] by auto
    ultimately show ?thesis using True k(1,2,3) by (simp add: percentile_bucket.simps [of ws thr hi s b] w)
  next
    case False
    then show ?thesis using "1.prems" here by (auto simp: percentile_bucket.simps [of ws thr hi s b] w)
  qed
qed

lemma percentile_bucket_mono:
  assumes "percentile_bucket ws t1 hi s b = Some x" "percentile_bucket ws t2 hi s b = Some y" "fle t1 t2"
  shows "x \<le> y"
  using assms
proof (induction ws t2 hi s b rule: percentile_bucket.induct)
  case (1 ws t2 hi s b)
  have ge: "b \<le> y" if "percentile_bucket ws t2 hi s b = Some y" for t2 s b y
    using that
  proof (induction ws t2 hi s b rule: percentile_bucket.induct)
    case (1 ws t2 hi s b)
    then show ?case
      by (subst (asm) percentile_bucket.simps) (fastforce simp: Let_def split: if_splits option.splits)
  qed
  show ?case
  proof (cases "b < hi \<and> \<not> fle t2 (fadd s (ws ! nat b))")
    case True
    then obtain w where w: "weight_at ws b = Some w"
      using "1.prems"(2) by (subst (asm) percentile_bucket.simps) (auto split: option.splits)
    then have nth: "w = ws ! nat b" by (simp add: weight_at_Some)
    have y: "percentile_bucket ws t2 hi (fadd s w) (b + 1) = Some y"
      using "1.prems"(2) True w nth by (subst (asm) percentile_bucket.simps) (simp add: Let_def)
    show ?thesis
    proof (cases "fle t1 (fadd s w)")
      case True
      then have "x = b" using "1.prems"(1) \<open>b < hi \<and> _\<close> w by (subst (asm) percentile_bucket.simps) (simp add: Let_def)
      then show ?thesis using ge [OF "1.prems"(2)] by simp
    next
      case False
      then have "percentile_bucket ws t1 hi (fadd s w) (b + 1) = Some x"
        using "1.prems"(1) True w by (subst (asm) percentile_bucket.simps) (simp add: Let_def)
      then show ?thesis using "1.IH" [OF _ w refl _ _ y "1.prems"(3)] True nth by simp
    qed
  next
    case False
    have "x = b"
    proof (cases "b < hi")
      case True
      then have "fle t1 (fadd s (ws ! nat b))" using False fle_trans [OF "1.prems"(3)] by simp
      then show ?thesis using "1.prems"(1) True
        by (subst (asm) percentile_bucket.simps) (auto simp: Let_def weight_at_Some split: option.splits)
    qed (use "1.prems"(1) in \<open>simp add: percentile_bucket.simps\<close>)
    then show ?thesis using ge [OF "1.prems"(2)] by simp
  qed
qed

section \<open>Percentiles\<close>

definition percentile_end :: "mathLib \<Rightarrow> histogramOptions \<Rightarrow> int \<Rightarrow> f64" where
  "percentile_end ml opts b = bucket_start ml opts (min (b + 1) (NumBuckets opts - 1))"

definition empty_hist :: "histogram \<Rightarrow> bool" where
  "empty_hist h \<longleftrightarrow> light h (h_minBucket h)"

lemma IsEmpty_light: "hist_ok h \<Longrightarrow> IsEmpty h = Some (empty_hist h)"
  using weight_at_hist [of h "h_minBucket h"] hist_okD(6,7) [of h] by (simp add: IsEmpty_def light_def empty_hist_def)

lemma nonempty_range: "hist_ok h \<Longrightarrow> \<not> empty_hist h \<Longrightarrow> h_minBucket h \<le> h_maxBucket h"
  using hist_okD(6,7,10) [of h] by (auto simp: empty_hist_def not_less [symmetric])

lemma Percentile_cases:
  assumes "hist_ok h"
  obtains (empty) "empty_hist h" "Percentile ml p h = Some (Fin 0)"
  | (bucket) k where "\<not> empty_hist h"
    "percentile_bucket (h_bucketWeight h) (fmul p (h_totalWeight h)) (h_maxBucket h) (Fin 0) (h_minBucket h) = Some k"
    "h_minBucket h \<le> k" "k \<le> h_maxBucket h" "Percentile ml p h = Some (percentile_end ml (h_options h) k)"
proof (cases "empty_hist h")
  case True
  then show thesis by (rule empty) (simp add: Percentile_def IsEmpty_light [OF assms] True)
next
  case False
  let ?thr = "fmul p (h_totalWeight h)"
  have "h_maxBucket h < int (length (h_bucketWeight h))" using hist_okD(1,2,9) [OF assms] by simp
  from percentile_bucket_spec [OF hist_okD(6) [OF assms] nonempty_range [OF assms False] this, of ?thr "Fin 0"]
  obtain k where k: "percentile_bucket (h_bucketWeight h) ?thr (h_maxBucket h) (Fin 0) (h_minBucket h) = Some k"
    "h_minBucket h \<le> k" "k \<le> h_maxBucket h" by blast
  have "Percentile ml p h = Some (percentile_end ml (h_options h) k)"
  proof (cases "k < NumBuckets (h_options h) - 1")
    case True
    then show ?thesis using k hist_okD(6,9) [OF assms] \<open>\<not> empty_hist h\<close>
      by (simp add: Percentile_def IsEmpty_light [OF assms] GetBucketStart_def percentile_end_def min_def)
  next
    case last: False
    then have "k = NumBuckets (h_options h) - 1" using k hist_okD(9) [OF assms] by simp
    then show ?thesis using k hist_okD(6,9) [OF assms] \<open>\<not> empty_hist h\<close>
      by (simp add: Percentile_def IsEmpty_light [OF assms] GetBucketStart_def percentile_end_def min_def)
  qed
  then show thesis by (rule bucket [OF False k])
qed

text \<open>
  \<open>Percentile\<close> of a well-formed histogram that is not empty does not panic and returns the end of a bucket
  between the first and the last one (the start, for the last possible bucket): the first one
  up to which the partial sum of the weights reaches the share \<open>p\<close> of the total weight, or the last bucket
  if none before it does.
\<close>

theorem percentile_finds_first_bucket:
  assumes "hist_ok h" "\<not> empty_hist h"
  shows "\<exists>k\<in>{h_minBucket h..h_maxBucket h}. Percentile ml p h = Some (percentile_end ml (h_options h) k) \<and>
     (k = h_maxBucket h \<or> fle (fmul p (h_totalWeight h)) (partial_sum (h_bucketWeight h) (Fin 0) (h_minBucket h) k)) \<and>
     (\<forall>i\<in>{h_minBucket h..<k}. \<not> fle (fmul p (h_totalWeight h)) (partial_sum (h_bucketWeight h) (Fin 0) (h_minBucket h) i))"
proof -
  let ?thr = "fmul p (h_totalWeight h)" and ?ws = "h_bucketWeight h"
  have "h_maxBucket h < int (length ?ws)" using hist_okD(1,2,9) [OF assms(1)] by simp
  from percentile_bucket_spec [OF hist_okD(6) [OF assms(1)] nonempty_range [OF assms] this, of ?thr "Fin 0"]
  obtain k where k: "percentile_bucket ?ws ?thr (h_maxBucket h) (Fin 0) (h_minBucket h) = Some k"
    "h_minBucket h \<le> k" "k \<le> h_maxBucket h" "k = h_maxBucket h \<or> fle ?thr (partial_sum ?ws (Fin 0) (h_minBucket h) k)"
    "\<forall>i. h_minBucket h \<le> i \<and> i < k \<longrightarrow> \<not> fle ?thr (partial_sum ?ws (Fin 0) (h_minBucket h) i)" by blast
  have "Percentile ml p h = Some (percentile_end ml (h_options h) k)"
    by (rule Percentile_cases [OF assms(1), of ml p]) (use assms(2) k(1) in simp_all)
  with k show ?thesis by auto
qed

definition starts_ordered :: "mathLib \<Rightarrow> histogramOptions \<Rightarrow> bool" where
  "starts_ordered ml opts \<longleftrightarrow>
     (\<forall>b c. 0 \<le> b \<and> b \<le> c \<and> c < NumBuckets opts \<longrightarrow> fle (bucket_start ml opts b) (bucket_start ml opts c))"

lemma linear_starts_ordered:
  assumes "lo_bucketSize o' = Fin s" "0 < s"
  shows "starts_ordered ml (Linear a o')"
  unfolding starts_ordered_def
proof (intro allI impI)
  fix b c assume bc: "0 \<le> b \<and> b \<le> c \<and> c < NumBuckets (Linear a o')"
  then have le: "fle (f_of_int b) (f_of_int c)" by (intro f_of_int_mono) simp
  have num: "fmul (Fin s) (f_of_int n) \<noteq> NaN" for n
    using assms(2) by (cases "f_of_int n") (simp_all add: finf_def)
  have "fle (fmul (Fin s) (f_of_int b)) (fmul (Fin s) (f_of_int c))"
    by (rule fmul_mono_right [OF le _ num num]) (use assms(2) in \<open>simp add: fnonneg_def\<close>)
  then show "fle (bucket_start ml (Linear a o') b) (bucket_start ml (Linear a o') c)"
    by (simp add: assms(1) fmul_commute [of _ "Fin s"])
qed

lemma percentile_end_mono:
  assumes "starts_ordered ml opts" "0 \<le> j" "j \<le> k" "0 < NumBuckets opts"
  shows "fle (percentile_end ml opts j) (percentile_end ml opts k)"
proof -
  let ?n = "NumBuckets opts"
  have "0 \<le> min (j + 1) (?n - 1) \<and> min (j + 1) (?n - 1) \<le> min (k + 1) (?n - 1) \<and> min (k + 1) (?n - 1) < ?n"
    using assms(2-4) by auto
  then show ?thesis using assms(1) unfolding percentile_end_def starts_ordered_def by blast
qed

lemma fmul_mono_left_pos:
  assumes "fle (Fin p) (Fin q)" "0 < p" "weight_ok w"
  shows "fle (fmul (Fin p) w) (fmul (Fin q) w)"
  using assms by (cases w) (auto simp: weight_ok_def fnonneg_def finf_def mult_right_mono intro!: mkf_mono)

lemma percentile_mono_lemma:
  assumes "hist_ok h" "starts_ordered ml (h_options h)" "0 < p" "p \<le> q"
  shows "\<exists>x y. Percentile ml (Fin p) h = Some x \<and> Percentile ml (Fin q) h = Some y \<and> fle x y"
proof (rule Percentile_cases [OF assms(1), of ml "Fin p"])
  assume "empty_hist h"
  then show ?thesis by (intro exI [of _ "Fin 0"]) (simp add: Percentile_def IsEmpty_light [OF assms(1)])
next
  fix j
  assume ne: "\<not> empty_hist h" and j: "h_minBucket h \<le> j"
    "percentile_bucket (h_bucketWeight h) (fmul (Fin p) (h_totalWeight h)) (h_maxBucket h) (Fin 0) (h_minBucket h) = Some j"
    "Percentile ml (Fin p) h = Some (percentile_end ml (h_options h) j)"
  show ?thesis
  proof (rule Percentile_cases [OF assms(1), of ml "Fin q"])
    fix k
    assume k: "percentile_bucket (h_bucketWeight h) (fmul (Fin q) (h_totalWeight h)) (h_maxBucket h) (Fin 0) (h_minBucket h) = Some k"
      "Percentile ml (Fin q) h = Some (percentile_end ml (h_options h) k)"
    have "fle (fmul (Fin p) (h_totalWeight h)) (fmul (Fin q) (h_totalWeight h))"
      by (rule fmul_mono_left_pos [OF _ assms(3) hist_okD(5) [OF assms(1)]]) (use assms(4) in simp)
    then have "j \<le> k" by (rule percentile_bucket_mono [OF j(2) k(1)])
    moreover have "0 \<le> j" using j(1) hist_okD(6) [OF assms(1)] by simp
    ultimately have "fle (percentile_end ml (h_options h) j) (percentile_end ml (h_options h) k)"
      using percentile_end_mono [OF assms(2)] hist_okD(1) [OF assms(1)] by blast
    then show ?thesis using j(3) k(2) by blast
  qed (use ne in simp)
qed

text \<open>
  Percentiles of a well-formed histogram grow with the percentage, when its buckets start one after the other.
\<close>

theorem percentiles_grow:
  assumes "hist_ok h" "starts_ordered ml (h_options h)" "0 < p" "p \<le> q"
    and "Percentile ml (Fin p) h = Some x" "Percentile ml (Fin q) h = Some y"
  shows "fle x y"
  using percentile_mono_lemma [OF assms(1-4)] assms(5,6) by simp

lemma demo_hist_ok: "hist_ok demo_hist"
proof -
  have "hist_ok demo_empty" by (rule hist_ok_New [OF demo_empty_constructed]) (simp_all add: demo_options_def flt_def)
  then have "hist_ok demo_light" by (rule hist_ok_AddSample [OF _ demo_light_filled]) (use f64_ok_of_int [of 1] in simp_all)
  then show ?thesis by (rule hist_ok_AddSample [OF _ demo_hist_filled]) (use f64_ok_of_int [of 3] in simp_all)
qed

lemma demo_not_empty: "\<not> empty_hist demo_hist"
  by (simp add: empty_hist_def light_def demo_hist_def demo_options_def flt_def)

theorem percentiles_grow_witness:
  "Percentile demo_math (Fin (1 / 4)) demo_hist = Some (Fin 20) \<and> Percentile demo_math (Fin (1 / 2)) demo_hist = Some (Fin 30) \<and>
   fle (Fin 20) (Fin 30)"
  using percentiles_grow [OF demo_hist_ok, of demo_math "1 / 4" "1 / 2"] linear_starts_ordered demo_percentiles
  by (simp add: demo_hist_def demo_options_def)

theorem percentile_finds_first_bucket_witness:
  "\<exists>k\<in>{1..2}. Percentile demo_math (Fin (1 / 2)) demo_hist = Some (percentile_end demo_math demo_options k)"
  using percentile_finds_first_bucket [OF demo_hist_ok demo_not_empty, of demo_math "Fin (1 / 2)"]
  by (simp only: demo_hist_def histogram.simps) blast

end
