(* ===== verification/DecayingProps.thy ===== *)
theory DecayingProps
  imports DecayingHistogram Percentiles
begin

text \<open>The invariant of decaying histograms under every sequence of samples, subtractions and merges.\<close>

definition decaying_ok :: "decayingHistogram \<Rightarrow> bool" where
  "decaying_ok h \<longleftrightarrow> hist_ok (dh_histogram h) \<and> 0 < dh_halfLife h \<and> dh_halfLife h * maxDecayExponent \<le> 2 ^ 53"

text \<open>\<open>math.Exp2\<close> of at most one hundred: a finite value of at most its power of two.\<close>

definition exp2_law :: "mathLib \<Rightarrow> bool" where
  "exp2_law ml \<longleftrightarrow> (\<forall>x\<le>100. \<exists>y. m_Exp2 ml (Fin x) = Fin y \<and> 0 \<le> y \<and> y \<le> 2 ^ 100 \<and> f64_ok (Fin y))"

definition sample_weight :: "rat \<Rightarrow> bool" where
  "sample_weight w \<longleftrightarrow> 0 \<le> w \<and> w \<le> 2 ^ 100 \<and> f64_ok (Fin w)"

lemma rnd_power2: "rnd (2 ^ k) = 2 ^ k"
proof -
  have "exp2 (int k) = 2 ^ k" by (simp add: exp2_nat)
  then show ?thesis using rnd_pos_exact [of 1 "int k"] by (simp add: rnd_def)
qed

lemma mkf_below:
  assumes "0 \<le> x" "x \<le> 2 ^ k" "k \<le> 1000"
  shows "\<exists>y. mkf x = Fin y \<and> 0 \<le> y \<and> y \<le> 2 ^ k \<and> f64_ok (Fin y)"
proof -
  have "(2 :: rat) ^ k \<le> 2 ^ 1000" using assms(3) by (rule power_increasing) simp
  also have "\<dots> \<le> maxFloat64"
  proof -
    have "(2 :: rat) ^ 1000 = 2 ^ 29 * 2 ^ 971" by (simp flip: power_add)
    also have "\<dots> \<le> (2 ^ 53 - 1) * 2 ^ 971" by (intro mult_right_mono) simp_all
    finally show ?thesis by (simp add: maxFloat64_def)
  qed
  finally have max: "(2 :: rat) ^ k \<le> maxFloat64" .
  have r: "0 \<le> rnd x" "rnd x \<le> 2 ^ k" using f64r.r_nonneg [OF assms(1)] rnd_mono [OF assms(2)] rnd_power2 [of k] by simp_all
  then have "mkf x = Fin (rnd x)" using max maxFloat64_pos by (simp add: mkf_def Let_def)
  then show ?thesis using r mkf_ok [of x] by auto
qed

text \<open>The half life as a \<open>float64\<close>, and quotients by it.\<close>

lemma half_life_float:
  assumes "0 < hl" "hl * maxDecayExponent \<le> 2 ^ 53" "\<bar>d\<bar> \<le> 2 ^ 63" "d \<le> hl * maxDecayExponent"
  shows "\<exists>x. fdiv (f_of_int d) (f_of_int hl) = Fin x \<and> x \<le> 100"
proof -
  have hl: "f_of_int hl = Fin (of_int hl)"
    by (rule f_of_int_exact) (use assms(1,2) in \<open>simp add: maxDecayExponent_def\<close>)
  obtain y where y: "f_of_int d = Fin y" by (rule f_of_int_i64 [OF assms(3)])
  have "f_of_int (hl * 100) = Fin (of_int (hl * 100))"
    by (rule f_of_int_exact) (use assms(1,2) in \<open>simp add: maxDecayExponent_def\<close>)
  then have "y \<le> of_int (hl * 100)" using f_of_int_mono [OF assms(4)] y by (simp add: maxDecayExponent_def)
  then have q: "y / of_int hl \<le> 100" using assms(1) by (simp add: pos_divide_le_eq mult.commute)
  have m100: "mkf 100 = Fin 100" using f_of_int_exact [of 100] by (simp add: f_of_int_def)
  have "fle (mkf (y / of_int hl)) (Fin 100)" using mkf_mono [OF q] m100 by simp
  moreover have "mkf (y / of_int hl) \<noteq> NInf"
  proof -
    have "of_int hl \<ge> (1 :: rat)" using assms(1) by simp
    then have "\<bar>y / of_int hl\<bar> \<le> \<bar>y\<bar>" by (simp add: abs_divide divide_le_eq mult_le_cancel_left1)
    then have "- \<bar>y\<bar> \<le> y / of_int hl" by linarith
    moreover have "mkf (- \<bar>y\<bar>) = Fin (- \<bar>y\<bar>)"
      using mkf_ok [of "of_int d"] y by (intro f64_ok_mkf) (auto simp: f_of_int_def abs_if)
    ultimately show ?thesis using mkf_mono [of "- \<bar>y\<bar>" "y / of_int hl"] by (cases "mkf (y / of_int hl)") auto
  qed
  ultimately obtain x where "mkf (y / of_int hl) = Fin x" "x \<le> 100" by (cases "mkf (y / of_int hl)") auto
  then show ?thesis using y hl assms(1) by simp
qed

lemma time_sub_bounds: "\<bar>time_sub t u\<bar> \<le> 2 ^ 63" "time_sub t u \<le> maxInt64"
  by (auto simp: time_sub_def minInt64_def maxInt64_def)

lemma time_sub_le: "t - u \<le> d \<Longrightarrow> minInt64 \<le> d \<Longrightarrow> time_sub t u \<le> d"
  by (auto simp: time_sub_def)

lemma time_round_near:
  assumes "0 < d"
  shows "t - d \<le> time_round t d \<and> time_round t d \<le> t + d"
proof -
  have "t mod d < d" "0 \<le> t mod d" using assms by simp_all
  moreover have "time_round t d = t - t mod d \<or> time_round t d = t + (d - t mod d)"
    using assms by (simp add: time_round_def Let_def)
  ultimately show ?thesis by linarith
qed

text \<open>The factor by which a forward shift scales: finite, and at most two.\<close>

lemma ldexp1_le: "e \<le> k \<Longrightarrow> k \<le> 1000 \<Longrightarrow> \<exists>y. ldexp1 e = Fin y \<and> 0 \<le> y \<and> f64_ok (Fin y)"
proof -
  assume e: "e \<le> k" "k \<le> 1000"
  have "exp2 e \<le> exp2 (int (nat k))" using e by (intro exp2_mono) simp
  also have "\<dots> = 2 ^ nat k" by (simp only: exp2_nat of_nat_0_le_iff nat_int of_int_power of_int_numeral)
  finally have "exp2 e \<le> 2 ^ nat k" .
  moreover have "nat k \<le> 1000" using e(2) by (simp add: nat_le_iff)
  moreover have "0 \<le> exp2 e" by (simp add: less_imp_le)
  ultimately have "\<exists>y. mkf (exp2 e) = Fin y \<and> 0 \<le> y \<and> y \<le> 2 ^ nat k \<and> f64_ok (Fin y)" by (intro mkf_below)
  then show ?thesis unfolding ldexp1_def by blast
qed

lemma go_round_le:
  assumes "x \<le> 100"
  shows "go_round (Fin x) \<le> 101"
proof -
  have e: "(201 / 2 :: rat) = of_int 201 * exp2 (- 1)" by (simp add: exp2_def)
  have "rnd (201 / 2) = (201 / 2 :: rat)" unfolding e using rnd_pos_exact [of 201 "- 1"] by (simp add: rnd_def)
  then have "mkf (201 / 2) = Fin (201 / 2)" by (simp add: mkf_def maxFloat64_def)
  then have le: "fle (mkf (x + 1 / 2)) (Fin (201 / 2))" using mkf_mono [of "x + 1 / 2" "201 / 2"] assms by simp
  show ?thesis
  proof (cases "mkf (x + 1 / 2)")
    case (Fin y)
    then have "\<lfloor>y\<rfloor> \<le> 100" using le by (simp add: floor_le_iff)
    moreover have "(minInt64 :: int) \<le> 101" by (simp add: minInt64_def)
    ultimately show ?thesis using Fin by (auto simp: go_round_def f_int_def Let_def)
  qed (use le in \<open>auto simp: go_round_def f_int_def minInt64_def\<close>)
qed

lemma decaying_ok_shift:
  assumes ok: "decaying_ok h" "finite_weights (dh_histogram h)" and forward: "dh_referenceTimestamp h \<le> t"
  shows "\<exists>h'. shiftReferenceTimestamp t h = Some h' \<and> decaying_ok h' \<and> dh_halfLife h' = dh_halfLife h \<and>
    dh_referenceTimestamp h' = time_round t (dh_halfLife h) \<and>
    h_options (dh_histogram h') = h_options (dh_histogram h)"
proof -
  let ?hl = "dh_halfLife h" and ?new = "time_round t (dh_halfLife h)"
  let ?d = "time_sub (dh_referenceTimestamp h) ?new"
  have hl: "0 < ?hl" "?hl * maxDecayExponent \<le> 2 ^ 53" using ok(1) by (simp_all add: decaying_ok_def)
  have "dh_referenceTimestamp h - ?new \<le> ?hl" using time_round_near [OF hl(1), of t] forward by linarith
  then have "?d \<le> ?hl * maxDecayExponent"
    using hl by (intro time_sub_le) (auto simp: maxDecayExponent_def minInt64_def)
  then obtain x where "fdiv (f_of_int ?d) (f_of_int ?hl) = Fin x" "x \<le> 100"
    using half_life_float [OF hl time_sub_bounds(1)] by blast
  then have "shift_exponent ?new h \<le> 101" by (simp add: shift_exponent_def go_round_le)
  then obtain y where y: "ldexp1 (shift_exponent ?new h) = Fin y" "0 \<le> y" "f64_ok (Fin y)"
    using ldexp1_le [of "shift_exponent ?new h" 101] by auto
  obtain hist where "scale (Fin y) (dh_histogram h) = Some hist" "hist_ok hist" "h_options hist = h_options (dh_histogram h)"
    using hist_ok_scale [of "dh_histogram h" y] ok y by (auto simp: decaying_ok_def)
  then show ?thesis
    using y(1) hl by (simp add: shiftReferenceTimestamp_def Let_def decaying_ok_def)
qed

lemma decayFactor_ok:
  assumes ok: "decaying_ok h" "finite_weights (dh_histogram h)" and law: "exp2_law ml"
    and factor: "decayFactor ml t h = Some (factor, h')"
  shows "decaying_ok h' \<and> (\<exists>y. factor = Fin y \<and> 0 \<le> y \<and> y \<le> 2 ^ 100 \<and> f64_ok (Fin y)) \<and>
    dh_halfLife h' = dh_halfLife h \<and> h_options (dh_histogram h') = h_options (dh_histogram h)"
proof -
  let ?hl = "dh_halfLife h"
  have hl: "0 < ?hl" "?hl * maxDecayExponent \<le> 2 ^ 53" using ok(1) by (simp_all add: decaying_ok_def)
  have in64: "i64 (?hl * maxDecayExponent) = ?hl * maxDecayExponent"
    using hl by (intro i64_id) (simp add: in_i64_def minInt64_def maxInt64_def maxDecayExponent_def)
  have h': "decaying_ok h' \<and> dh_halfLife h' = ?hl \<and> t - dh_referenceTimestamp h' \<le> ?hl * maxDecayExponent \<and>
      h_options (dh_histogram h') = h_options (dh_histogram h)"
  proof (cases "time_after t (max_allowed h)")
    case True
    then have "dh_referenceTimestamp h + ?hl * maxDecayExponent \<le> t" by (simp add: max_allowed_def in64 time_defs)
    then have "dh_referenceTimestamp h \<le> t" using hl(1) by (simp add: maxDecayExponent_def)
    then have "decaying_ok h' \<and> dh_halfLife h' = ?hl \<and> dh_referenceTimestamp h' = time_round t ?hl \<and>
        h_options (dh_histogram h') = h_options (dh_histogram h)"
      using decaying_ok_shift [OF ok, of t] factor True by (auto simp: decayFactor_def)
    then show ?thesis using time_round_near [OF hl(1), of t] hl(1) by (auto simp: maxDecayExponent_def)
  next
    case False
    then show ?thesis using ok(1) factor by (auto simp: decayFactor_def max_allowed_def in64 time_defs)
  qed
  have "time_sub t (dh_referenceTimestamp h') \<le> ?hl * maxDecayExponent"
    using h' hl by (intro time_sub_le) (auto simp: maxDecayExponent_def minInt64_def)
  then obtain x where "fdiv (f_of_int (time_sub t (dh_referenceTimestamp h'))) (f_of_int ?hl) = Fin x" "x \<le> 100"
    using half_life_float [OF hl time_sub_bounds(1)] by blast
  moreover have "factor = factor_at ml t h'" using factor by (auto simp: decayFactor_def)
  ultimately have "\<exists>y. factor = Fin y \<and> 0 \<le> y \<and> y \<le> 2 ^ 100 \<and> f64_ok (Fin y)"
    using law h' by (auto simp: factor_at_def exp2_law_def)
  with h' show ?thesis by blast
qed

lemma sample_times_factor:
  assumes "sample_weight w" "0 \<le> y" "y \<le> 2 ^ 100"
  shows "\<exists>v. fmul (Fin w) (Fin y) = Fin v \<and> 0 \<le> v \<and> f64_ok (Fin v)"
proof -
  have "w * y \<le> 2 ^ 100 * 2 ^ 100" using assms by (intro mult_mono) (simp_all add: sample_weight_def)
  then have "w * y \<le> 2 ^ 200" by (simp flip: power_add)
  moreover have "0 \<le> w * y" using assms by (simp add: sample_weight_def)
  ultimately show ?thesis using mkf_below [of "w * y" 200] by auto
qed

lemma decaying_ok_AddSample:
  assumes "decaying_ok h" "finite_weights (dh_histogram h)" "exp2_law ml" "sample_weight w"
    and add: "DecayingAddSample ml value (Fin w) t h = Some h'"
  shows "decaying_ok h' \<and> dh_halfLife h' = dh_halfLife h"
proof -
  obtain factor h1 hist where f: "decayFactor ml t h = Some (factor, h1)"
    and hist: "AddSample ml value (fmul (Fin w) factor) (dh_histogram h1) = Some hist" "h' = h1\<lparr>dh_histogram := hist\<rparr>"
    using add by (auto simp: DecayingAddSample_def with_factor_def split: option.splits prod.splits)
  from decayFactor_ok [OF assms(1-3) f] obtain y where y: "factor = Fin y" "0 \<le> y" "y \<le> 2 ^ 100" and h1: "decaying_ok h1"
    "dh_halfLife h1 = dh_halfLife h" by blast
  obtain v where v: "fmul (Fin w) factor = Fin v" "f64_ok (Fin v)" using sample_times_factor [OF assms(4) y(2,3)] y(1) by auto
  have "hist_ok hist"
    by (rule hist_ok_AddSample [OF _ hist(1) [unfolded v(1)]]) (use h1(1) v in \<open>simp_all add: decaying_ok_def\<close>)
  then show ?thesis using h1 hist(2) by (simp add: decaying_ok_def)
qed

lemma decaying_ok_SubtractSample:
  assumes "decaying_ok h" "finite_weights (dh_histogram h)" "exp2_law ml" "sample_weight w"
    and sub: "DecayingSubtractSample ml value (Fin w) t h = Some h'"
  shows "decaying_ok h' \<and> dh_halfLife h' = dh_halfLife h"
proof -
  obtain factor h1 hist where f: "decayFactor ml t h = Some (factor, h1)"
    and hist: "SubtractSample ml value (fmul (Fin w) factor) (dh_histogram h1) = Some hist" "h' = h1\<lparr>dh_histogram := hist\<rparr>"
    using sub by (auto simp: DecayingSubtractSample_def with_factor_def split: option.splits prod.splits)
  from decayFactor_ok [OF assms(1-3) f] obtain y where y: "factor = Fin y" "0 \<le> y" "y \<le> 2 ^ 100" and h1: "decaying_ok h1"
    "dh_halfLife h1 = dh_halfLife h" by blast
  obtain v where v: "fmul (Fin w) factor = Fin v" using sample_times_factor [OF assms(4) y(2,3)] y(1) by auto
  have "hist_ok hist"
    by (rule hist_ok_SubtractSample [OF _ hist(1) [unfolded v]]) (use h1(1) in \<open>simp add: decaying_ok_def\<close>)
  then show ?thesis using h1 hist(2) by (simp add: decaying_ok_def)
qed

lemma decaying_ok_align:
  assumes "decaying_ok h" "decaying_ok other" "finite_weights (dh_histogram h)" "finite_weights (dh_histogram other)"
    and "align other h = Some (o', h')"
  shows "decaying_ok h' \<and> decaying_ok o' \<and> dh_halfLife h' = dh_halfLife h \<and> dh_halfLife o' = dh_halfLife other \<and>
    h_options (dh_histogram h') = h_options (dh_histogram h) \<and> h_options (dh_histogram o') = h_options (dh_histogram other)"
  using assms(5) decaying_ok_shift [OF assms(1,3), of "dh_referenceTimestamp other"]
    decaying_ok_shift [OF assms(2,4), of "dh_referenceTimestamp h"] assms(1,2)
  by (auto simp: align_def time_defs split: if_splits)

lemma decaying_ok_Merge:
  assumes "decaying_ok h" "decaying_ok other" "finite_weights (dh_histogram h)" "finite_weights (dh_histogram other)"
    and merge: "DecayingMerge other h = Some (o', h')"
  shows "decaying_ok h' \<and> decaying_ok o' \<and> dh_halfLife h' = dh_halfLife h \<and> dh_halfLife o' = dh_halfLife other"
proof -
  obtain h1 hist where al: "align other h = Some (o', h1)"
    and hist: "Merge (dh_histogram o') (dh_histogram h1) = Some hist" "h' = h1\<lparr>dh_histogram := hist\<rparr>"
    using merge by (auto simp: DecayingMerge_def split: option.splits prod.splits if_splits)
  note ok = decaying_ok_align [OF assms(1-4) al]
  have "hist_ok hist"
    by (rule hist_ok_Merge [OF _ _ hist(1)]) (use ok in \<open>simp_all add: decaying_ok_def\<close>)
  moreover have "dh_histogram h' = hist" "dh_halfLife h' = dh_halfLife h1" using hist(2) by simp_all
  ultimately show ?thesis using ok unfolding decaying_ok_def by metis
qed

section \<open>Every sequence of operations\<close>

inductive decaying_reachable :: "mathLib \<Rightarrow> decayingHistogram \<Rightarrow> bool" for ml where
  new: "NewDecayingHistogram opts halfLife = Some h \<Longrightarrow> 0 < NumBuckets opts \<Longrightarrow> flt (Fin 0) (Epsilon opts) \<Longrightarrow>
    0 < halfLife \<Longrightarrow> halfLife * maxDecayExponent \<le> 2 ^ 53 \<Longrightarrow> decaying_reachable ml h"
| add: "decaying_reachable ml h \<Longrightarrow> finite_weights (dh_histogram h) \<Longrightarrow> sample_weight w \<Longrightarrow>
    DecayingAddSample ml value (Fin w) t h = Some h' \<Longrightarrow> decaying_reachable ml h'"
| subtract: "decaying_reachable ml h \<Longrightarrow> finite_weights (dh_histogram h) \<Longrightarrow> sample_weight w \<Longrightarrow>
    DecayingSubtractSample ml value (Fin w) t h = Some h' \<Longrightarrow> decaying_reachable ml h'"
| merge: "decaying_reachable ml h \<Longrightarrow> decaying_reachable ml other \<Longrightarrow> finite_weights (dh_histogram h) \<Longrightarrow>
    finite_weights (dh_histogram other) \<Longrightarrow> DecayingMerge other h = Some (o', h') \<Longrightarrow> decaying_reachable ml h'"
| merged: "decaying_reachable ml h \<Longrightarrow> decaying_reachable ml other \<Longrightarrow> finite_weights (dh_histogram h) \<Longrightarrow>
    finite_weights (dh_histogram other) \<Longrightarrow> DecayingMerge other h = Some (o', h') \<Longrightarrow> decaying_reachable ml o'"

lemma decaying_reachable_ok: "decaying_reachable ml h \<Longrightarrow> exp2_law ml \<Longrightarrow> decaying_ok h"
proof (induction rule: decaying_reachable.induct)
  case (new opts halfLife h)
  then show ?case by (auto simp: NewDecayingHistogram_def decaying_ok_def intro: hist_ok_New)
next
  case (add h w "value" t h')
  then show ?case using decaying_ok_AddSample by blast
next
  case (subtract h w "value" t h')
  then show ?case using decaying_ok_SubtractSample by blast
next
  case (merge h other o' h')
  then show ?case using decaying_ok_Merge by blast
next
  case (merged h other o' h')
  then show ?case using decaying_ok_Merge by blast
qed

text \<open>
  C13: However samples are added, subtracted and merged into a decaying histogram, no weight is negative or not a
  number, the first and last bucket are in range, every bucket outside them holds less than epsilon, and
  they themselves hold at least epsilon unless they are at their start values.
\<close>

theorem decaying_histogram_invariant:
  assumes "decaying_reachable ml h" "exp2_law ml"
  shows "hist_ok (dh_histogram h)"
  using decaying_reachable_ok [OF assms] by (simp add: decaying_ok_def)

lemma demo_math_exp2_law: "exp2_law demo_math"
  unfolding exp2_law_def
proof (intro allI impI)
  fix x :: rat assume "x \<le> 100"
  then have "\<lfloor>x\<rfloor> \<le> 100" by (simp add: floor_le_iff)
  then have "exp2 \<lfloor>x\<rfloor> \<le> exp2 100" by (rule exp2_mono)
  moreover have "exp2 100 = 2 ^ 100" by (simp add: exp2_def)
  moreover have "0 \<le> exp2 \<lfloor>x\<rfloor>" by (simp add: less_imp_le)
  ultimately show "\<exists>y. m_Exp2 demo_math (Fin x) = Fin y \<and> 0 \<le> y \<and> y \<le> 2 ^ 100 \<and> f64_ok (Fin y)"
    using mkf_below [of "exp2 \<lfloor>x\<rfloor>" 100] by (simp add: demo_math_def ldexp1_def)
qed

definition demo_decaying :: "histogram \<Rightarrow> decayingHistogram" where
  "demo_decaying h = \<lparr>dh_histogram = h, dh_halfLife = 16, dh_referenceTimestamp = 0\<rparr>"

lemma demo_decaying_reachable: "decaying_reachable demo_math (demo_decaying demo_light)"
proof -
  have "decaying_reachable demo_math (demo_decaying demo_empty)"
    by (rule decaying_reachable.new [of demo_options 16])
      (use demo_empty_constructed in
        \<open>simp_all add: NewDecayingHistogram_def demo_decaying_def demo_options_def flt_def maxDecayExponent_def\<close>)
  moreover have "decayFactor demo_math 0 (demo_decaying demo_empty) = Some (Fin 1, demo_decaying demo_empty)"
    by (simp add: decayFactor_def demo_decaying_def time_defs max_allowed_def i64_id in_i64_def minInt64_def maxInt64_def
        maxDecayExponent_def factor_at_def time_sub_def f_of_int_def mkf_dyadic demo_math_def ldexp1_def exp2_def)
  then have "DecayingAddSample demo_math (Fin 15) (Fin 1) 0 (demo_decaying demo_empty) = Some (demo_decaying demo_light)"
    using demo_light_filled by (simp add: DecayingAddSample_def with_factor_def demo_decaying_def mkf_dyadic)
  moreover have "finite_weights demo_empty" by (simp add: finite_weights_def demo_empty_def)
  moreover have "sample_weight 1" using f64_ok_of_int [of 1] by (simp add: sample_weight_def)
  ultimately show ?thesis
    using decaying_reachable.add [of demo_math "demo_decaying demo_empty" 1] by (simp add: demo_decaying_def)
qed

theorem decaying_histogram_invariant_witness: "hist_ok demo_light"
  using decaying_histogram_invariant [OF demo_decaying_reachable demo_math_exp2_law] by (simp add: demo_decaying_def)

end
