(* ===== verification/VpaTypes.thy ===== *)
theory VpaTypes
  imports DecayingProps
begin

text \<open>
  \<open>recommender/model/types.go\<close> of the vertical pod autoscaler: amounts of resources and their conversions,
  and the identifiers of pods, containers and autoscaler objects.
\<close>

type_synonym resourceAmount = int
type_synonym resources = "(string, resourceAmount) gomap"

definition ResourceCPU :: string where "ResourceCPU = ''cpu''"
definition ResourceMemory :: string where "ResourceMemory = ''memory''"

definition MaxResourceAmount :: resourceAmount where
  "MaxResourceAmount = 10 ^ 14"

definition resourceAmountFromFloat :: "f64 \<Rightarrow> resourceAmount" where
  "resourceAmountFromFloat amount =
     (if flt amount (Fin 0) then 0
      else if flt (f_of_int MaxResourceAmount) amount then MaxResourceAmount
      else f_int amount)"

definition CPUAmountFromCores :: "f64 \<Rightarrow> resourceAmount" where
  "CPUAmountFromCores cores = resourceAmountFromFloat (fmul cores (Fin 1000))"

definition CoresFromCPUAmount :: "resourceAmount \<Rightarrow> f64" where
  "CoresFromCPUAmount cpuAmount = fdiv (f_of_int cpuAmount) (Fin 1000)"

definition MemoryAmountFromBytes :: "f64 \<Rightarrow> resourceAmount" where
  "MemoryAmountFromBytes bytes = resourceAmountFromFloat bytes"

definition BytesFromMemoryAmount :: "resourceAmount \<Rightarrow> f64" where
  "BytesFromMemoryAmount memoryAmount = f_of_int memoryAmount"

definition ScaleResource :: "resourceAmount \<Rightarrow> f64 \<Rightarrow> resourceAmount" where
  "ScaleResource amount factor = resourceAmountFromFloat (fmul (f_of_int amount) factor)"

text \<open>A \<open>resource.Quantity\<close> is the number it stands for.\<close>

type_synonym quantity = rat
type_synonym resourceList = "(string, quantity) gomap"

definition QuantityFromCPUAmount :: "resourceAmount \<Rightarrow> quantity" where
  "QuantityFromCPUAmount cpuAmount = of_int cpuAmount / 1000"

definition QuantityFromMemoryAmount :: "resourceAmount \<Rightarrow> quantity" where
  "QuantityFromMemoryAmount memoryAmount = of_int memoryAmount"

definition ResourcesAsResourceList :: "resources \<Rightarrow> resourceList" where
  "ResourcesAsResourceList rs =
     foldl (\<lambda>result (key, amount).
         if key = ResourceCPU then mput ''cpu'' (QuantityFromCPUAmount amount) result
         else if key = ResourceMemory then mput ''memory'' (QuantityFromMemoryAmount amount) result
         else result) [] rs"

text \<open>Go's \<open>%\<close> has the sign of the dividend; a zero unit panics.\<close>

definition RoundResourceAmount :: "resourceAmount \<Rightarrow> resourceAmount \<Rightarrow> resourceAmount option" where
  "RoundResourceAmount amount unit =
     (if unit = 0 then None else Some (i64 (amount - (if amount < 0 then - (\<bar>amount\<bar> mod \<bar>unit\<bar>) else amount mod \<bar>unit\<bar>))))"

definition ResourceAmountMax :: "resourceAmount \<Rightarrow> resourceAmount \<Rightarrow> resourceAmount" where
  "ResourceAmountMax amount1 amount2 = (if amount1 > amount2 then amount1 else amount2)"

record podID =
  pid_Namespace :: string
  pid_PodName :: string

record containerID =
  cid_PodID :: podID
  cid_ContainerName :: string

record vpaID =
  vid_Namespace :: string
  vid_VpaName :: string

section \<open>Amounts from floating point numbers\<close>

lemma flt_simps:
  "flt (Fin x) (Fin y) \<longleftrightarrow> x < y" "flt (Fin x) PInf" "flt NInf (Fin x)" "\<not> flt (Fin x) NInf" "\<not> flt PInf a"
  "\<not> flt a NInf" "\<not> flt NaN a" "\<not> flt a NaN"
  by (auto simp: flt_def not_le dest: fle_not_NaN) (cases a; simp)+

lemma f_of_int_max: "f_of_int MaxResourceAmount = Fin (10 ^ 14)"
  using f_of_int_exact [of "10 ^ 14"] by (simp add: MaxResourceAmount_def)

lemma amount_of_Fin:
  "0 \<le> x \<Longrightarrow> x \<le> 10 ^ 14 \<Longrightarrow> resourceAmountFromFloat (Fin x) = \<lfloor>x\<rfloor>"
proof -
  assume x: "0 \<le> x" "x \<le> 10 ^ 14"
  then have "0 \<le> \<lfloor>x\<rfloor>" "\<lfloor>x\<rfloor> \<le> 10 ^ 14" using floor_mono [of x "10 ^ 14"] by simp_all
  then have "in_i64 \<lfloor>x\<rfloor>" by (simp add: in_i64_def minInt64_def maxInt64_def)
  then show ?thesis using x
    by (simp add: resourceAmountFromFloat_def flt_def f_of_int_max f_int_def)
qed

lemma amount_of_int: "0 \<le> a \<Longrightarrow> a \<le> MaxResourceAmount \<Longrightarrow> resourceAmountFromFloat (f_of_int a) = a"
proof -
  assume a: "0 \<le> a" "a \<le> MaxResourceAmount"
  then have "f_of_int a = Fin (of_int a)" by (intro f_of_int_exact) (simp add: MaxResourceAmount_def)
  moreover have "(of_int a :: rat) \<le> of_int (10 ^ 14)" using a(2) by (simp only: MaxResourceAmount_def of_int_le_iff)
  ultimately show ?thesis using a(1) by (simp add: amount_of_Fin)
qed

lemma amount_cases:
  assumes "x \<noteq> NaN"
  obtains (low) "flt x (Fin 0)" | (high) "flt (f_of_int MaxResourceAmount) x" "\<not> flt x (Fin 0)"
  | (mid) z where "x = Fin z" "0 \<le> z" "z \<le> 10 ^ 14"
proof (cases x)
  case (Fin z)
  consider "z < 0" | "10 ^ 14 < z" | "0 \<le> z \<and> z \<le> 10 ^ 14" by linarith
  then show thesis by cases (use Fin low high mid in \<open>auto simp: flt_simps f_of_int_max\<close>)
qed (use assms low high in \<open>simp_all add: flt_simps f_of_int_max\<close>)

lemma amount_range:
  assumes "x \<noteq> NaN"
  shows "0 \<le> resourceAmountFromFloat x" "resourceAmountFromFloat x \<le> MaxResourceAmount"
proof -
  from assms have "0 \<le> resourceAmountFromFloat x \<and> resourceAmountFromFloat x \<le> MaxResourceAmount"
  proof (cases rule: amount_cases)
    case (mid y)
    then have "\<lfloor>y\<rfloor> \<le> 10 ^ 14" using floor_mono [of y "10 ^ 14"] by simp
    then show ?thesis using mid amount_of_Fin [of y] by (simp add: MaxResourceAmount_def)
  qed (auto simp: resourceAmountFromFloat_def MaxResourceAmount_def)
  then show "0 \<le> resourceAmountFromFloat x" "resourceAmountFromFloat x \<le> MaxResourceAmount" by simp_all
qed

lemma amount_mono:
  assumes "fle x y"
  shows "resourceAmountFromFloat x \<le> resourceAmountFromFloat y"
proof -
  have n: "x \<noteq> NaN" "y \<noteq> NaN" using fle_not_NaN [OF assms] by simp_all
  from n(2) show ?thesis
  proof (cases rule: amount_cases)
    case low
    then have "flt x (Fin 0)" by (rule fle_flt_trans [OF assms])
    then show ?thesis using low by (simp add: resourceAmountFromFloat_def)
  next
    case high
    then have "resourceAmountFromFloat y = MaxResourceAmount" by (simp add: resourceAmountFromFloat_def)
    then show ?thesis using amount_range(2) [OF n(1)] by simp
  next
    case y: (mid b)
    from n(1) show ?thesis
    proof (cases rule: amount_cases)
      case low
      then show ?thesis using amount_range(1) [OF n(2)] by (simp add: resourceAmountFromFloat_def)
    next
      case high
      then show ?thesis using y assms by (cases x) (auto simp: flt_simps f_of_int_max)
    next
      case (mid a)
      then show ?thesis using y assms amount_of_Fin [of a] amount_of_Fin [of b] by (simp add: floor_mono)
    qed
  qed
qed

text \<open>Zero times an infinite factor is not a number, and becomes the least amount on amd64.\<close>

lemma ScaleResource_0_PInf: "ScaleResource 0 PInf = minInt64"
  using f_of_int_exact [of 0]
  by (simp add: ScaleResource_def resourceAmountFromFloat_def flt_simps finf_def f_int_def)

lemma ScaleResource_ge:
  assumes "0 < a" "a \<le> MaxResourceAmount" "fle (Fin 1) factor"
  shows "a \<le> ScaleResource a factor"
proof -
  have f: "f_of_int a = Fin (of_int a)" using assms(1,2) by (intro f_of_int_exact) (simp add: MaxResourceAmount_def)
  have "fmul (Fin (of_int a)) factor \<noteq> NaN" using assms(1,3) by (cases factor) (simp_all add: finf_def)
  moreover have "f64_ok (Fin (of_int a))" using assms(1,2) by (intro f64_ok_of_int) (simp add: MaxResourceAmount_def)
  ultimately have "fle (f_of_int a) (fmul (f_of_int a) factor)" using assms(1,3) f by (simp add: fmul_ge del: f64_ok.simps)
  from amount_mono [OF this] show ?thesis using amount_of_int [of a] assms(1,2) by (simp add: ScaleResource_def)
qed

lemma ScaleResource_le:
  assumes "0 \<le> a" "a \<le> MaxResourceAmount" "fnonneg factor" "fle factor (Fin 1)"
  shows "0 \<le> ScaleResource a factor" "ScaleResource a factor \<le> a"
proof -
  have f: "f_of_int a = Fin (of_int a)" using assms(1,2) by (intro f_of_int_exact) (simp add: MaxResourceAmount_def)
  have "f64_ok (Fin (of_int a))" using assms(1,2) by (intro f64_ok_of_int) (simp add: MaxResourceAmount_def)
  then have "fle (fmul (f_of_int a) factor) (f_of_int a)" "fnonneg (fmul (f_of_int a) factor)"
    using fmul_le [of "of_int a" factor] assms(1,3,4) f by simp_all
  then show "0 \<le> ScaleResource a factor" "ScaleResource a factor \<le> a"
    using amount_mono amount_of_int [of a] assms(1,2) amount_range(1) fnonneg_not_NaN
    by (metis ScaleResource_def)+
qed

end
