(* ===== verification/Checkpoint.thy ===== *)
theory Checkpoint
  imports Percentiles
begin

text \<open>
  Checkpoints of a histogram: how far a saved weight is from the share of the largest one, and what a
  checkpoint that is loaded into a new histogram restores.
\<close>

section \<open>The weight of one bucket\<close>

definition saved_of :: "rat \<Rightarrow> rat \<Rightarrow> int" where
  "saved_of r w = \<lfloor>rnd (rnd (w * r) + 1 / 2)\<rfloor>"

lemma mkf_bounded: "0 \<le> x \<Longrightarrow> x \<le> 2 ^ 100 \<Longrightarrow> mkf x = Fin (rnd x)"
proof -
  assume x: "0 \<le> x" "x \<le> 2 ^ 100"
  have "rnd (2 ^ 100) = (2 ^ 100 :: rat)" using rnd_pos_exact [of 1 100] by (simp add: rnd_def exp2_def)
  then have "rnd x \<le> 2 ^ 100" "0 \<le> rnd x" using rnd_mono [OF x(2)] f64r.r_nonneg [OF x(1)] by simp_all
  moreover have "(2 ^ 100 :: rat) \<le> maxFloat64" by (simp add: maxFloat64_def)
  ultimately show ?thesis using maxFloat64_pos by (simp add: mkf_def Let_def)
qed

text \<open>The ratio of a checkpoint whose largest weight is \<open>m\<close>.\<close>

lemma ratio_near:
  assumes "1 / 2 ^ 20 \<le> m" "m \<le> maxFloat64"
  shows "fdiv (f_of_int MaxCheckpointWeight) (Fin m) = Fin (rnd (10000 / m))"
    and "\<bar>rnd (10000 / m) - 10000 / m\<bar> \<le> 10000 / m / 2 ^ 53" and "0 \<le> rnd (10000 / m)"
proof -
  have m: "0 < m" using assms(1) by (rule less_le_trans [rotated]) simp
  have "10000 / m \<le> 10000 / (1 / 2 ^ 20)" by (rule divide_left_mono [OF assms(1)]) (use m in simp_all)
  then have le: "10000 / m \<le> 2 ^ 100" by (rule order_trans) simp
  have f: "f_of_int MaxCheckpointWeight = Fin 10000"
    using f_of_int_exact [of 10000] by (simp add: MaxCheckpointWeight_def)
  then show "fdiv (f_of_int MaxCheckpointWeight) (Fin m) = Fin (rnd (10000 / m))"
    using m le by (simp add: mkf_bounded)
  have "exp2 (- 1022) * m \<le> exp2 (- 1022) * exp2 1024"
  proof (rule mult_left_mono)
    have "maxFloat64 \<le> 2 ^ 53 * 2 ^ 971" by (simp add: maxFloat64_def)
    also have "\<dots> = exp2 1024" by (simp add: exp2_def flip: power_add)
    finally show "m \<le> exp2 1024" using assms(2) by simp
  qed (simp add: less_imp_le)
  also have "\<dots> = 4" by (simp add: exp2_def flip: exp2_add)
  finally have "exp2 (- 1022) \<le> 10000 / m" using m by (simp add: pos_le_divide_eq)
  then show "\<bar>rnd (10000 / m) - 10000 / m\<bar> \<le> 10000 / m / 2 ^ 53" by (rule rnd_error)
  show "0 \<le> rnd (10000 / m)" using m by (intro f64r.r_nonneg) simp
qed

lemma product_near:
  assumes "1 / 2 ^ 20 \<le> m" "m \<le> maxFloat64" "0 \<le> w" "w \<le> m"
  shows "\<bar>rnd (w * rnd (10000 / m)) - 10000 * (w / m)\<bar> \<le> 1 / 2 ^ 38"
proof -
  let ?r = "rnd (10000 / m)" and ?x = "10000 * (w / m)"
  have m: "0 < m" using assms(1) by (rule less_le_trans [rotated]) simp
  have q: "0 \<le> w / m" "w / m \<le> 1" using m assms(3,4) by (simp_all add: pos_divide_le_eq)
  have "w * ?r - ?x = w * (?r - 10000 / m)" by (simp add: right_diff_distrib)
  then have "\<bar>w * ?r - ?x\<bar> = w * \<bar>?r - 10000 / m\<bar>" using assms(3) by (simp only: abs_mult abs_of_nonneg)
  also have "\<dots> \<le> w * (10000 / m / 2 ^ 53)" by (rule mult_left_mono [OF ratio_near(2) [OF assms(1,2)] assms(3)])
  also have "\<dots> = 10000 * (w / m) / 2 ^ 53" by simp
  also have "\<dots> \<le> 10000 / 2 ^ 53" using q by (simp add: divide_right_mono)
  finally have a: "\<bar>w * ?r - ?x\<bar> \<le> 10000 / 2 ^ 53" .
  have "0 \<le> w * ?r" using assms(3) ratio_near(3) [OF assms(1,2)] by simp
  then have "\<bar>rnd (w * ?r) - w * ?r\<bar> \<le> w * ?r / 2 ^ 53 + 1 / 2 ^ 60" by (rule rnd_error_small)
  moreover have "w * ?r \<le> 10001" using a q(2) unfolding abs_le_iff by simp
  ultimately have "\<bar>rnd (w * ?r) - w * ?r\<bar> \<le> 10001 / 2 ^ 53 + 1 / 2 ^ 60" by simp
  with a have "\<bar>rnd (w * ?r) - ?x\<bar> \<le> 10000 / 2 ^ 53 + (10001 / 2 ^ 53 + 1 / 2 ^ 60)" unfolding abs_le_iff by linarith
  also have "\<dots> \<le> 1 / 2 ^ 38" by simp
  finally show ?thesis .
qed

lemma saved_near:
  assumes "1 / 2 ^ 20 \<le> m" "m \<le> maxFloat64" "0 \<le> w" "w \<le> m"
  shows "\<bar>rnd (rnd (w * rnd (10000 / m)) + 1 / 2) - (10000 * (w / m) + 1 / 2)\<bar> \<le> 1 / 2 ^ 36"
proof -
  let ?p = "rnd (w * rnd (10000 / m))" and ?x = "10000 * (w / m)"
  have m: "0 < m" using assms(1) by (rule less_le_trans [rotated]) simp
  have q: "w / m \<le> 1" using m assms(4) by simp
  note p = product_near [OF assms]
  have "0 \<le> ?p" using assms(3) ratio_near(3) [OF assms(1,2)] by (intro f64r.r_nonneg) simp
  then have "\<bar>rnd (?p + 1 / 2) - (?p + 1 / 2)\<bar> \<le> (?p + 1 / 2) / 2 ^ 53 + 1 / 2 ^ 60" by (intro rnd_error_small) simp
  moreover have "?p \<le> 10001" using p q unfolding abs_le_iff by simp
  then have "(?p + 1 / 2) / 2 ^ 53 \<le> 10002 / 2 ^ 53" by (intro divide_right_mono) simp_all
  ultimately have "\<bar>rnd (?p + 1 / 2) - (?p + 1 / 2)\<bar> \<le> 10002 / 2 ^ 53 + 1 / 2 ^ 60" by linarith
  with p have "\<bar>rnd (?p + 1 / 2) - (?x + 1 / 2)\<bar> \<le> 1 / 2 ^ 38 + (10002 / 2 ^ 53 + 1 / 2 ^ 60)" unfolding abs_le_iff by linarith
  also have "\<dots> \<le> 1 / 2 ^ 36" by simp
  finally show ?thesis .
qed

lemma saved_weight_spec:
  assumes "1 / 2 ^ 20 \<le> m" "m \<le> maxFloat64" "0 \<le> w" "w \<le> m"
  shows "saved_weight (Fin (rnd (10000 / m))) (Fin w) = saved_of (rnd (10000 / m)) w"
    and "\<bar>of_int (saved_of (rnd (10000 / m)) w) - 10000 * (w / m)\<bar> \<le> 1 / 2 + 1 / 2 ^ 36"
    and "0 \<le> saved_of (rnd (10000 / m)) w" "saved_of (rnd (10000 / m)) w \<le> 10000"
    and "w = m \<Longrightarrow> saved_of (rnd (10000 / m)) w = 10000"
proof -
  let ?r = "rnd (10000 / m)" and ?x = "10000 * (w / m)"
  let ?q = "rnd (rnd (w * ?r) + 1 / 2)"
  have m: "0 < m" using assms(1) by (rule less_le_trans [rotated]) simp
  have q: "0 \<le> w / m" "w / m \<le> 1" using m assms(3,4) by simp_all
  note near = saved_near [OF assms, unfolded abs_le_iff]
  have nn: "0 \<le> rnd (w * ?r)" using assms(3) ratio_near(3) [OF assms(1,2)] by (intro f64r.r_nonneg) simp
  have p: "rnd (w * ?r) \<le> 10001" using product_near [OF assms] q unfolding abs_le_iff by simp
  have q0: "0 \<le> ?q" using nn by (intro f64r.r_nonneg) simp
  have fl: "of_int \<lfloor>?q\<rfloor> \<le> ?q" "?q < of_int \<lfloor>?q\<rfloor> + 1" by linarith+
  obtain e where e: "e = (1 / 2 ^ 36 :: rat)" by blast
  show "\<bar>of_int (saved_of ?r w) - ?x\<bar> \<le> 1 / 2 + 1 / 2 ^ 36"
    using near fl unfolding saved_of_def abs_le_iff e [symmetric] by linarith
  show s0: "0 \<le> saved_of ?r w" using q0 by (simp add: saved_of_def)
  have "?q < 10001" using near q by simp
  then show s1: "saved_of ?r w \<le> 10000" by (simp add: saved_of_def floor_le_iff)
  show "saved_of ?r w = 10000" if "w = m"
  proof -
    have "10000 \<le> ?q" using near that m by simp
    with \<open>?q < 10001\<close> show ?thesis by (simp add: saved_of_def floor_eq_iff)
  qed
  have "w * ?r \<le> 2 ^ 100"
  proof -
    have "w * ?r \<le> m * (10000 / m + 10000 / m / 2 ^ 53)"
      using ratio_near(2,3) [OF assms(1,2)] assms(3,4) m unfolding abs_le_iff by (intro mult_mono) auto
    also have "\<dots> = 10000 + 10000 / 2 ^ 53" using m by (simp add: distrib_left)
    also have "\<dots> \<le> 2 ^ 100" by simp
    finally show ?thesis .
  qed
  moreover have "0 \<le> w * ?r" using assms(3) ratio_near(3) [OF assms(1,2)] by simp
  ultimately have "fmul (Fin w) (Fin ?r) = Fin (rnd (w * ?r))" by (simp add: mkf_bounded)
  moreover have "fadd (Fin (rnd (w * ?r))) (Fin (1 / 2)) = Fin ?q" using nn p by (simp add: mkf_bounded)
  moreover have "\<lfloor>of_int \<lfloor>?q\<rfloor> :: rat\<rfloor> = saved_of ?r w" by (simp add: saved_of_def)
  moreover have "\<not> (of_int \<lfloor>?q\<rfloor> :: rat) < 0" using q0 by simp
  ultimately have "go_round (fmul (Fin w) (Fin ?r)) = saved_of ?r w"
    using s0 s1 by (simp add: go_round_def f_int_def Let_def in_i64_def minInt64_def maxInt64_def)
  then show "saved_weight (Fin ?r) (Fin w) = saved_of ?r w" using s0 s1 by (simp add: saved_weight_def u32_def)
qed

lemma saved_of_mono: "v \<le> w \<Longrightarrow> 0 \<le> r \<Longrightarrow> saved_of r v \<le> saved_of r w"
  unfolding saved_of_def by (intro floor_mono rnd_mono add_right_mono mult_right_mono)

section \<open>Saving\<close>

lemma max_weight_spec:
  assumes "\<And>b. b \<in> set bs \<Longrightarrow> 0 \<le> b \<and> b < int (length ws) \<and> (\<exists>w. ws ! nat b = Fin w)"
  shows "\<exists>m. ofold (\<lambda>m b. map_option (\<lambda>w. if flt m w then w else m) (weight_at ws b)) (Fin m0) bs = Some (Fin m) \<and>
    m0 \<le> m \<and> (\<forall>b\<in>set bs. fle (ws ! nat b) (Fin m)) \<and> (m = m0 \<or> (\<exists>b\<in>set bs. ws ! nat b = Fin m))"
  using assms
proof (induction bs arbitrary: m0)
  case (Cons b bs)
  then obtain w where b: "0 \<le> b" "b < int (length ws)" "ws ! nat b = Fin w" by force
  let ?m1 = "if m0 < w then w else m0"
  obtain m where "ofold (\<lambda>m b. map_option (\<lambda>w. if flt m w then w else m) (weight_at ws b)) (Fin ?m1) bs = Some (Fin m)"
    "?m1 \<le> m" "\<forall>b\<in>set bs. fle (ws ! nat b) (Fin m)" "m = ?m1 \<or> (\<exists>b\<in>set bs. ws ! nat b = Fin m)"
    using Cons.IH [of ?m1] Cons.prems by force
  then show ?case using b by (auto simp: weight_at_def flt_def not_le split: if_splits)
qed simp

definition save_loop :: "f64 list \<Rightarrow> f64 \<Rightarrow> (int, int) gomap \<Rightarrow> int list \<Rightarrow> (int, int) gomap option" where
  "save_loop ws r m bs = ofold (save_bucket ws r) m bs"

lemma save_loop_spec:
  assumes "\<And>b. b \<in> set bs \<Longrightarrow> 0 \<le> b \<and> b < int (length ws)"
  shows "\<exists>m. save_loop ws r m0 bs = Some m \<and> (gomap_ok m0 \<longrightarrow> gomap_ok m) \<and>
    (\<forall>b. mget m b = (if b \<in> set bs \<and> 0 < saved_weight r (ws ! nat b) then Some (saved_weight r (ws ! nat b)) else mget m0 b))"
  using assms
proof (induction bs arbitrary: m0)
  case (Cons b bs)
  let ?w = "saved_weight r (ws ! nat b)"
  have "save_bucket ws r m0 b = Some (if 0 < ?w then mput b ?w m0 else m0)"
    using Cons.prems by (simp add: save_bucket_def weight_at_def Let_def)
  moreover from Cons.IH [of "if 0 < ?w then mput b ?w m0 else m0"] Cons.prems
  obtain m where "save_loop ws r (if 0 < ?w then mput b ?w m0 else m0) bs = Some m"
    "gomap_ok (if 0 < ?w then mput b ?w m0 else m0) \<longrightarrow> gomap_ok m"
    "\<forall>b'. mget m b' = (if b' \<in> set bs \<and> 0 < saved_weight r (ws ! nat b') then Some (saved_weight r (ws ! nat b'))
       else mget (if 0 < ?w then mput b ?w m0 else m0) b')" by force
  ultimately show ?case by (intro exI [of _ m]) (auto simp: save_loop_def)
qed (simp add: save_loop_def)

section \<open>Loading\<close>

lemma check_buckets_ok:
  assumes "\<And>b w. (b, w) \<in> set m \<Longrightarrow> 0 \<le> b \<and> b < n \<and> 0 \<le> w"
    and "0 \<le> acc" "acc + sum_list (map snd m) \<le> maxInt64"
  shows "check_buckets n acc m = Inr (acc + sum_list (map snd m))"
  using assms
proof (induction m arbitrary: acc)
  case (Cons kv m)
  obtain b w where kv: "kv = (b, w)" by force
  have bw: "0 \<le> b" "b < n" "0 \<le> w" using Cons.prems(1) [of b w] kv by auto
  have "0 \<le> sum_list (map snd m)" by (rule sum_list_nonneg) (use Cons.prems(1) kv in force)
  then have "acc + w \<le> maxInt64" using Cons.prems(3) kv by simp
  then have i: "i64 (acc + w) = acc + w"
    using Cons.prems(2) bw by (intro i64_id) (simp add: in_i64_def minInt64_def)
  have "check_buckets n (acc + w) m = Inr (acc + w + sum_list (map snd m))"
    by (rule Cons.IH) (use Cons.prems kv bw in auto)
  then show ?case using bw kv i by (simp add: add.assoc)
qed simp

text \<open>A load adds to the bucket of every entry, and widens the range by it.\<close>

lemma load_loop_spec:
  assumes "gomap_ok m" "\<And>b. b \<in> fst ` set m \<Longrightarrow> 0 \<le> b \<and> b < int (length (h_bucketWeight h))"
  shows "\<exists>h'. ofold (load_bucket r) h m = Some h' \<and> h_options h' = h_options h \<and> h_totalWeight h' = h_totalWeight h \<and>
    length (h_bucketWeight h') = length (h_bucketWeight h) \<and>
    (\<forall>b\<ge>0. h_bucketWeight h' ! nat b =
       (case mget m b of None \<Rightarrow> h_bucketWeight h ! nat b
        | Some w \<Rightarrow> fadd (h_bucketWeight h ! nat b) (fmul (f_of_int w) r)))"
  using assms
proof (induction m arbitrary: h)
  case (Cons kv m)
  obtain b w where kv: "kv = (b, w)" by force
  have b: "0 \<le> b" "b < int (length (h_bucketWeight h))" using Cons.prems(2) [of b] kv by auto
  have m: "mget m b = None" "gomap_ok m" using Cons.prems(1) kv by (simp_all add: gomap_ok_Cons)
  let ?ws = "(h_bucketWeight h)[nat b := fadd (h_bucketWeight h ! nat b) (fmul (f_of_int w) r)]"
  let ?h = "h\<lparr>h_minBucket := min (h_minBucket h) b, h_maxBucket := max (h_maxBucket h) b, h_bucketWeight := ?ws\<rparr>"
  have step: "load_bucket r h kv = Some ?h" using b kv by (simp add: load_bucket_def change_at_def weight_at_def)
  have "\<exists>h'. ofold (load_bucket r) ?h m = Some h' \<and> h_options h' = h_options h \<and> h_totalWeight h' = h_totalWeight h \<and>
    length (h_bucketWeight h') = length (h_bucketWeight h) \<and>
    (\<forall>b'\<ge>0. h_bucketWeight h' ! nat b' =
       (case mget m b' of None \<Rightarrow> ?ws ! nat b' | Some w \<Rightarrow> fadd (?ws ! nat b') (fmul (f_of_int w) r)))"
  proof -
    have sel: "h_bucketWeight ?h = ?ws" "h_options ?h = h_options h" "h_totalWeight ?h = h_totalWeight h" by simp_all
    have "0 \<le> b' \<and> b' < int (length ?ws)" if "b' \<in> fst ` set m" for b'
      using Cons.prems(2) [of b'] that by simp
    from Cons.IH [OF m(2), of ?h, unfolded sel, OF this] show ?thesis by (simp only: length_list_update)
  qed
  then obtain h' where h': "ofold (load_bucket r) ?h m = Some h'" "h_options h' = h_options h" "h_totalWeight h' = h_totalWeight h"
    "length (h_bucketWeight h') = length (h_bucketWeight h)"
    "\<forall>b'\<ge>0. h_bucketWeight h' ! nat b' =
       (case mget m b' of None \<Rightarrow> ?ws ! nat b' | Some w \<Rightarrow> fadd (?ws ! nat b') (fmul (f_of_int w) r))" by blast
  have "h_bucketWeight h' ! nat b' =
      (case mget (kv # m) b' of None \<Rightarrow> h_bucketWeight h ! nat b'
       | Some w \<Rightarrow> fadd (h_bucketWeight h ! nat b') (fmul (f_of_int w) r))" if "0 \<le> b'" for b'
    using h'(5) that m(1) kv b nth_change [OF b that] by (cases "b' = b"; cases "mget m b'") simp_all
  then show ?case using h'(1-4) step by auto
qed simp

section \<open>The round trip\<close>

definition checkpoint_input :: "histogram \<Rightarrow> bool" where
  "checkpoint_input h \<longleftrightarrow>
     hist_ok h \<and> finite_weights h \<and> \<not> empty_hist h \<and> NumBuckets (h_options h) \<le> 2 ^ 31 \<and>
     fle (Fin (1 / 2 ^ 20)) (Epsilon (h_options h))"

lemma finite_weight:
  assumes "hist_ok h" "finite_weights h" "w \<in> insert (h_totalWeight h) (set (h_bucketWeight h))"
  obtains x where "w = Fin x" "0 \<le> x" "x \<le> maxFloat64" "f64_ok (Fin x)"
proof -
  have "weight_ok w" using assms(1,3) hist_okD(4,5) by auto
  moreover have "w \<noteq> PInf" using assms(2,3) by (auto simp: finite_weights_def)
  ultimately show thesis using that by (cases w) (auto simp: weight_ok_def fnonneg_def)
qed

lemma bucket_in_set: "hist_ok h \<Longrightarrow> 0 \<le> b \<Longrightarrow> b < NumBuckets (h_options h) \<Longrightarrow> h_bucketWeight h ! nat b \<in> set (h_bucketWeight h)"
  using hist_okD(1,2) [of h] by (intro nth_mem) simp

text \<open>The largest weight, and the saved weights.\<close>

lemma saved_checkpoint:
  assumes "checkpoint_input h"
  obtains m c where "1 / 2 ^ 20 \<le> m" "m \<le> maxFloat64" "\<forall>b\<in>{h_minBucket h..h_maxBucket h}. fle (h_bucketWeight h ! nat b) (Fin m)"
    "\<exists>b\<in>{h_minBucket h..h_maxBucket h}. h_bucketWeight h ! nat b = Fin m"
    "SaveToChekpoint h = Some c" "hc_TotalWeight c = h_totalWeight h" "gomap_ok (hc_BucketWeights c)"
    "\<And>b w. b \<in> {h_minBucket h..h_maxBucket h} \<Longrightarrow> h_bucketWeight h ! nat b = Fin w \<Longrightarrow>
       mget0 0 (hc_BucketWeights c) b = saved_of (rnd (10000 / m)) w \<and> 0 \<le> w \<and> w \<le> m"
    "\<And>b k. mget (hc_BucketWeights c) b = Some k \<Longrightarrow> b \<in> {h_minBucket h..h_maxBucket h} \<and> 0 < k"
proof -
  let ?bs = "[h_minBucket h..h_maxBucket h]" and ?ws = "h_bucketWeight h"
  have ok: "hist_ok h" "finite_weights h" "\<not> empty_hist h" using assms by (simp_all add: checkpoint_input_def)
  have range: "0 \<le> b" "b < NumBuckets (h_options h)" "b < int (length ?ws)" if "b \<in> set ?bs" for b
    using that hist_okD(2,6,9) [OF ok(1)] by auto
  have fin: "\<exists>w. ?ws ! nat b = Fin w \<and> 0 \<le> w \<and> w \<le> maxFloat64" if "b \<in> set ?bs" for b
    using finite_weight [OF ok(1,2)] bucket_in_set [OF ok(1) range(1,2) [OF that]] by blast
  obtain m where m: "max_weight ?ws ?bs = Some (Fin m)" "0 \<le> m" "\<forall>b\<in>set ?bs. fle (?ws ! nat b) (Fin m)"
    "m = 0 \<or> (\<exists>b\<in>set ?bs. ?ws ! nat b = Fin m)"
    using max_weight_spec [of ?bs ?ws 0] range fin unfolding max_weight_def by blast
  have "h_minBucket h \<in> set ?bs" using nonempty_range [OF ok(1,3)] by simp
  then have "fle (Epsilon (h_options h)) (?ws ! nat (h_minBucket h))" "fle (?ws ! nat (h_minBucket h)) (Fin m)"
    using not_light [OF ok(1)] hist_okD(6,7) [OF ok(1)] ok(3) m(3) by (auto simp: empty_hist_def)
  moreover have "fle (Fin (1 / 2 ^ 20)) (Epsilon (h_options h))" using assms by (simp add: checkpoint_input_def)
  ultimately have "fle (Fin (1 / 2 ^ 20)) (Fin m)" using fle_trans by blast
  then have m20: "1 / 2 ^ 20 \<le> m" by simp
  then have "0 < m" by (rule less_le_trans [rotated]) simp
  with m(4) have att: "\<exists>b\<in>set ?bs. ?ws ! nat b = Fin m" by simp
  then have mmax: "m \<le> maxFloat64" using fin by fastforce
  let ?r = "rnd (10000 / m)"
  have r: "fdiv (f_of_int MaxCheckpointWeight) (Fin m) = Fin ?r" by (rule ratio_near(1) [OF m20 mmax])
  obtain wm where wm: "save_loop ?ws (Fin ?r) [] ?bs = Some wm" "gomap_ok wm"
    "\<forall>b. mget wm b = (if b \<in> set ?bs \<and> 0 < saved_weight (Fin ?r) (?ws ! nat b) then Some (saved_weight (Fin ?r) (?ws ! nat b)) else None)"
    using save_loop_spec [of ?bs ?ws "Fin ?r" "[]"] range by auto
  let ?c = "\<lparr>hc_ReferenceTimestamp = 0, hc_BucketWeights = wm, hc_TotalWeight = h_totalWeight h\<rparr>"
  have save: "SaveToChekpoint h = Some ?c" using m(1) wm(1) r by (simp add: SaveToChekpoint_def Let_def save_loop_def)
  have saved: "mget0 0 wm b = saved_of ?r w \<and> 0 \<le> w \<and> w \<le> m" if b: "b \<in> set ?bs" and w: "?ws ! nat b = Fin w" for b w
  proof -
    have "fle (?ws ! nat b) (Fin m)" using m(3) b by blast
    then have w0: "0 \<le> w" "w \<le> m" using fin [OF b] w by auto
    show ?thesis using wm(3) b w w0 saved_weight_spec(1,3) [OF m20 mmax w0] by (auto simp: mget0_def)
  qed
  have entry_ok: "b \<in> {h_minBucket h..h_maxBucket h} \<and> 0 < k" if "mget wm b = Some k" for b k
    using wm(3) that by (auto split: if_splits)
  show thesis
    by (rule that [OF m20 mmax _ _ save]) (use m(3) att wm(2) saved entry_ok in auto)
qed

text \<open>The sum of the saved weights neither overflows nor loses bits as a \<open>float64\<close>.\<close>

lemma sum_entries_bound:
  fixes m :: "(int, int) gomap"
  assumes "gomap_ok m" and "\<And>b k. mget m b = Some k \<Longrightarrow> b \<in> {lo..hi} \<and> 0 < k \<and> k \<le> 10000" "0 \<le> lo" "hi < n" "0 < n"
  shows "sum_list (map snd m) \<le> 10000 * n" "mget m b = Some k \<Longrightarrow> k \<le> sum_list (map snd m)"
proof -
  have d: "distinct (map fst m)" using assms(1) by (simp add: gomap_ok_def)
  have e: "mget m b = Some k" if "(b, k) \<in> set m" for b k using that assms(1) by (simp add: mget_eq_Some_iff)
  have bounds: "0 \<le> k \<and> k \<le> 10000" if "(b, k) \<in> set m" for b k using assms(2) [OF e [OF that]] by simp
  have "set (map fst m) \<subseteq> {0..<n}" using assms(2-4) e by force
  then have "card (set (map fst m)) \<le> nat n" using card_mono [of "{0..<n}"] by fastforce
  then have len: "int (length m) \<le> max 0 n" using distinct_card [OF d] by simp
  have "sum_list (map snd m) \<le> sum_list (map (\<lambda>_. 10000) m)" by (rule sum_list_mono) (use bounds in force)
  also have "\<dots> = 10000 * int (length m)" by (simp add: sum_list_triv)
  finally have s: "sum_list (map snd m) \<le> 10000 * int (length m)" .
  show "sum_list (map snd m) \<le> 10000 * n"
  proof (cases "m = []")
    case True
    then show ?thesis using assms(5) by simp
  next
    case False
    then show ?thesis using assms(5) s len by simp
  qed
  show "k \<le> sum_list (map snd m)" if "mget m b = Some k"
    using mget_SomeD [OF that] bounds by (intro member_le_sum_list) force+
qed

lemma permuted_gomap:
  fixes ws :: "('k, int) gomap"
  assumes "mset ws = mset m" "gomap_ok m"
  shows "gomap_ok ws" "mget ws = mget m" "mget0 z ws = mget0 z m" "sum_list (map snd ws) = sum_list (map snd m)"
proof -
  have f: "mset (map fst ws) = mset (map fst m)" and s: "mset (map snd ws) = mset (map snd m)" using assms(1) by simp_all
  show g: "gomap_ok ws" using assms(2) mset_eq_imp_distinct_iff [OF f] by (simp add: gomap_ok_def)
  show "sum_list (map snd ws) = sum_list (map snd m)" using arg_cong [OF s, of sum_mset] by (simp only: sum_mset_sum_list)
  have "set ws = set m" using assms(1) by (rule mset_eq_setD)
  then have "mget ws k = Some v \<longleftrightarrow> mget m k = Some v" for k v using g assms(2) by (simp add: mget_eq_Some_iff)
  then show e: "mget ws = mget m" by (metis option.exhaust ext)
  show "mget0 z ws = mget0 z m" by (rule ext) (simp add: mget0_def e)
qed

lemma loaded_checkpoint:
  assumes ws: "gomap_ok ws" "\<And>b k. mget ws b = Some k \<Longrightarrow> b \<in> {lo..hi} \<and> 0 < k \<and> k \<le> 10000" "0 \<le> lo" "hi < n"
    and n: "0 < n" "n \<le> 2 ^ 31" "NumBuckets opts = n" and new: "NewHistogram opts = Some h0"
    and t: "0 \<le> t" "t \<le> maxFloat64" "f64_ok (Fin t)" and some: "mget ws b0 = Some k0"
  shows "\<exists>h' y. LoadFromCheckpoint (Some \<lparr>hc_ReferenceTimestamp = ts, hc_BucketWeights = ws, hc_TotalWeight = Fin t\<rparr>) h0 = Some (Inr h') \<and>
    h_totalWeight h' = Fin t \<and> fdiv (Fin t) (f_of_int (sum_list (map snd ws))) = Fin y \<and> 0 \<le> y \<and>
    (\<forall>b\<in>{0..<n}. h_bucketWeight h' ! nat b = fmul (f_of_int (mget0 0 ws b)) (Fin y))"
proof -
  let ?s = "sum_list (map snd ws)"
  have s: "0 < ?s" "?s \<le> 2 ^ 53"
    using sum_entries_bound [OF ws n(1)] some ws(2) [OF some] n(2) by (fastforce, simp)
  have fs: "f_of_int ?s = Fin (of_int ?s)" using s by (intro f_of_int_exact) simp
  have "check_buckets n 0 ws = Inr (0 + ?s)"
  proof (rule check_buckets_ok)
    show "0 \<le> b \<and> b < n \<and> 0 \<le> w" if "(b, w) \<in> set ws" for b w
      using ws(2) [of b w] ws(3,4) that by (simp add: mget_eq_Some_iff [OF ws(1)])
  qed (use s in \<open>simp_all add: maxInt64_def\<close>)
  moreover have y: "fdiv (Fin t) (f_of_int ?s) = Fin (rnd (t / of_int ?s))" "0 \<le> rnd (t / of_int ?s)"
  proof -
    have "t / of_int ?s \<le> t" using s(1) t(1) by (simp add: divide_le_eq mult_le_cancel_left1)
    then have "rnd (t / of_int ?s) \<le> maxFloat64" using rnd_mono [of "t / of_int ?s" t] t by simp
    moreover show "0 \<le> rnd (t / of_int ?s)" using s(1) t(1) by (intro f64r.r_nonneg) simp
    ultimately show "fdiv (Fin t) (f_of_int ?s) = Fin (rnd (t / of_int ?s))"
      using fs s(1) maxFloat64_pos by (simp add: mkf_def Let_def)
  qed
  moreover have h0: "h_options h0 = opts" "h_bucketWeight h0 = replicate (nat n) (Fin 0)" "h_totalWeight h0 = Fin 0"
    using new n by (auto simp: NewHistogram_def)
  moreover obtain h' where h': "ofold (load_bucket (Fin (rnd (t / of_int ?s)))) h0 ws = Some h'" "h_totalWeight h' = Fin 0"
    "\<forall>b\<ge>0. h_bucketWeight h' ! nat b = (case mget ws b of None \<Rightarrow> replicate (nat n) (Fin 0) ! nat b
       | Some w \<Rightarrow> fadd (replicate (nat n) (Fin 0) ! nat b) (fmul (f_of_int w) (Fin (rnd (t / of_int ?s)))))"
  proof -
    have "0 \<le> b \<and> b < int (length (h_bucketWeight h0))" if b: "b \<in> fst ` set ws" for b
    proof -
      obtain w where "mget ws b = Some w" using b by (auto simp: mget_eq_Some_iff [OF ws(1)])
      then show ?thesis using ws(2) [of b w] ws(3,4) h0(2) n(1) by simp
    qed
    from load_loop_spec [where r = "Fin (rnd (t / of_int ?s))", OF ws(1) this] show thesis using that unfolding h0 by blast
  qed
  moreover have "fadd (Fin 0) (Fin t) = Fin t" using t(3) by (rule fadd_0)
  ultimately have load: "LoadFromCheckpoint (Some \<lparr>hc_ReferenceTimestamp = ts, hc_BucketWeights = ws, hc_TotalWeight = Fin t\<rparr>) h0 =
      Some (Inr (h'\<lparr>h_totalWeight := Fin t\<rparr>))"
    using s(1) t(1) n(3) by (simp add: LoadFromCheckpoint_def flt_def del: fadd.simps)
  have "h_bucketWeight h' ! nat b = fmul (f_of_int (mget0 0 ws b)) (Fin (rnd (t / of_int ?s)))" if b: "b \<in> {0..<n}" for b
  proof (cases "mget ws b")
    case None
    then show ?thesis using h'(3) b f_of_int_exact [of 0] by (simp add: mget0_def mkf_dyadic)
  next
    case (Some k)
    then have k: "0 < k" "k \<le> 10000" using ws(2) by auto
    have "f64_ok (Fin (rnd (t / of_int ?s)))" using mkf_ok [of "t / of_int ?s"] y(1) fs s(1) by simp
    moreover have "f64_ok (f_of_int k)" using mkf_ok [of "of_int k"] by (simp add: f_of_int_def)
    ultimately have "fadd (Fin 0) (fmul (f_of_int k) (Fin (rnd (t / of_int ?s)))) = fmul (f_of_int k) (Fin (rnd (t / of_int ?s)))"
      by (intro fadd_0 f64_ok_fmul)
    then show ?thesis using h'(3) b Some by (simp add: mget0_def del: fadd.simps fmul.simps)
  qed
  with load y show ?thesis by (intro exI [of _ "h'\<lparr>h_totalWeight := Fin t\<rparr>"] exI) auto
qed

text \<open>The relation between a histogram and the one restored from its checkpoint.\<close>

definition restored :: "histogram \<Rightarrow> rat \<Rightarrow> (int, int) gomap \<Rightarrow> histogram \<Rightarrow> bool" where
  "restored h m weights h' \<longleftrightarrow>
     h_totalWeight h' = h_totalWeight h \<and>
     (\<forall>b\<in>{0..<NumBuckets (h_options h)}. h_bucketWeight h' ! nat b =
        fmul (f_of_int (mget0 0 weights b)) (fdiv (h_totalWeight h) (f_of_int (sum_list (map snd weights))))) \<and>
     (\<forall>b\<in>{h_minBucket h..h_maxBucket h}. \<exists>w. h_bucketWeight h ! nat b = Fin w \<and>
        \<bar>of_int (mget0 0 weights b) - 10000 * (w / m)\<bar> \<le> 1 / 2 + 1 / 2 ^ 36)"

text \<open>What a saved map of weights says of its histogram, with \<open>m\<close> the largest weight; the order of the map does not matter.\<close>

definition saved_shares :: "histogram \<Rightarrow> rat \<Rightarrow> (int, int) gomap \<Rightarrow> bool" where
  "saved_shares h m wm \<longleftrightarrow> gomap_ok wm \<and> (\<exists>b. mget wm b = Some 10000) \<and>
     (\<forall>b k. mget wm b = Some k \<longrightarrow> b \<in> {h_minBucket h..h_maxBucket h} \<and> 0 < k \<and> k \<le> 10000) \<and>
     (\<forall>b\<in>{h_minBucket h..h_maxBucket h}. \<exists>w. h_bucketWeight h ! nat b = Fin w \<and>
        \<bar>of_int (mget0 0 wm b) - 10000 * (w / m)\<bar> \<le> 1 / 2 + 1 / 2 ^ 36) \<and>
     (\<forall>a\<in>{h_minBucket h..h_maxBucket h}. \<forall>b\<in>{h_minBucket h..h_maxBucket h}.
        fle (h_bucketWeight h ! nat a) (h_bucketWeight h ! nat b) \<longrightarrow> mget0 0 wm a \<le> mget0 0 wm b)"

text \<open>The largest of the weights that are saved.\<close>

definition largest_weight :: "histogram \<Rightarrow> rat \<Rightarrow> bool" where
  "largest_weight h m \<longleftrightarrow> (\<exists>b\<in>{h_minBucket h..h_maxBucket h}. h_bucketWeight h ! nat b = Fin m) \<and>
     (\<forall>b\<in>{h_minBucket h..h_maxBucket h}. fle (h_bucketWeight h ! nat b) (Fin m))"

lemma saved_shares_permuted: "saved_shares h m wm \<Longrightarrow> mset ws = mset wm \<Longrightarrow> saved_shares h m ws"
  using permuted_gomap [of ws wm] by (simp add: saved_shares_def)

lemma checkpoint_input_range:
  assumes "checkpoint_input h"
  shows "0 \<le> h_minBucket h" "h_maxBucket h < NumBuckets (h_options h)" "0 < NumBuckets (h_options h)" "NumBuckets (h_options h) \<le> 2 ^ 31"
  using hist_okD(1,6,9) [of h] assms by (simp_all add: checkpoint_input_def)

lemma saved_checkpoint_shares:
  assumes "checkpoint_input h"
  obtains m c where "largest_weight h m" "SaveToChekpoint h = Some c" "hc_TotalWeight c = h_totalWeight h"
    "saved_shares h m (hc_BucketWeights c)"
proof -
  let ?R = "{h_minBucket h..h_maxBucket h}"
  have ok: "hist_ok h" "finite_weights h" using assms by (simp_all add: checkpoint_input_def)
  obtain m c where m: "1 / 2 ^ 20 \<le> m" "m \<le> maxFloat64" and att: "\<exists>b\<in>?R. h_bucketWeight h ! nat b = Fin m"
    and above: "\<forall>b\<in>?R. fle (h_bucketWeight h ! nat b) (Fin m)"
    and c: "SaveToChekpoint h = Some c" "hc_TotalWeight c = h_totalWeight h" "gomap_ok (hc_BucketWeights c)"
    and saved: "\<And>b w. b \<in> ?R \<Longrightarrow> h_bucketWeight h ! nat b = Fin w \<Longrightarrow>
       mget0 0 (hc_BucketWeights c) b = saved_of (rnd (10000 / m)) w \<and> 0 \<le> w \<and> w \<le> m"
    and entries: "\<And>b k. mget (hc_BucketWeights c) b = Some k \<Longrightarrow> b \<in> ?R \<and> 0 < k"
    by (rule saved_checkpoint [OF assms]) blast
  let ?wm = "hc_BucketWeights c"
  have fin: "\<exists>w. h_bucketWeight h ! nat b = Fin w" if "b \<in> ?R" for b
    using finite_weight [OF ok] bucket_in_set [OF ok(1), of b] that checkpoint_input_range [OF assms] by auto
  have share: "\<exists>w. h_bucketWeight h ! nat b = Fin w \<and> mget0 0 ?wm b \<le> 10000 \<and>
      \<bar>of_int (mget0 0 ?wm b) - 10000 * (w / m)\<bar> \<le> 1 / 2 + 1 / 2 ^ 36" if b: "b \<in> ?R" for b
    using fin [OF b] saved [OF b] saved_weight_spec(2,4) [OF m] by (metis (no_types, lifting))
  have small: "b \<in> ?R \<and> 0 < k \<and> k \<le> 10000" if "mget ?wm b = Some k" for b k
    using entries [OF that] share [of b] that by (auto simp: mget0_def)
  have ordered: "mget0 0 ?wm a \<le> mget0 0 ?wm b"
    if ab: "a \<in> ?R" "b \<in> ?R" "fle (h_bucketWeight h ! nat a) (h_bucketWeight h ! nat b)" for a b
  proof -
    obtain v w where vw: "h_bucketWeight h ! nat a = Fin v" "h_bucketWeight h ! nat b = Fin w" using fin ab(1,2) by meson
    then show ?thesis using saved [OF ab(1) vw(1)] saved [OF ab(2) vw(2)] ab(3) ratio_near(3) [OF m]
      by (simp add: saved_of_mono)
  qed
  obtain b0 where b0: "b0 \<in> ?R" "h_bucketWeight h ! nat b0 = Fin m" using att by blast
  have "mget0 0 ?wm b0 = 10000" using saved [OF b0] saved_weight_spec(5) [OF m, of m] by simp
  then have "mget ?wm b0 = Some 10000" by (auto simp: mget0_def split: option.splits)
  with c small share ordered have "saved_shares h m ?wm" unfolding saved_shares_def by blast
  moreover have "largest_weight h m" using att above by (simp add: largest_weight_def)
  ultimately show thesis using c(1,2) that by blast
qed

lemma fmul_of_int_mono:
  assumes "0 \<le> y" and "0 \<le> j" "j \<le> k" "k \<le> 10000"
  shows "fle (fmul (f_of_int j) (Fin y)) (fmul (f_of_int k) (Fin y))"
proof -
  have "fmul (Fin y) (f_of_int i) \<noteq> NaN" if "0 \<le> i" "i \<le> 10000" for i
    using f_of_int_exact [of i] that by simp
  then show ?thesis
    using assms fmul_mono_right [OF f_of_int_mono [OF assms(3)], of "Fin y"]
    by (simp add: fnonneg_def fmul_commute [of _ "Fin y"] del: fmul.simps)
qed

lemma load_restores:
  assumes h: "checkpoint_input h" and new: "NewHistogram (h_options h) = Some h0" and shares: "saved_shares h m ws"
  shows "\<exists>h'. LoadFromCheckpoint (Some \<lparr>hc_ReferenceTimestamp = ts, hc_BucketWeights = ws, hc_TotalWeight = h_totalWeight h\<rparr>) h0 =
      Some (Inr h') \<and> restored h m ws h' \<and>
    (\<forall>b\<in>{0..<NumBuckets (h_options h)} - {h_minBucket h..h_maxBucket h}. h_bucketWeight h' ! nat b = Fin 0) \<and>
    (\<forall>a\<in>{h_minBucket h..h_maxBucket h}. \<forall>b\<in>{h_minBucket h..h_maxBucket h}.
       fle (h_bucketWeight h ! nat a) (h_bucketWeight h ! nat b) \<longrightarrow> fle (h_bucketWeight h' ! nat a) (h_bucketWeight h' ! nat b))"
proof -
  let ?n = "NumBuckets (h_options h)" and ?R = "{h_minBucket h..h_maxBucket h}"
  note range = checkpoint_input_range [OF h]
  obtain t where t: "h_totalWeight h = Fin t" "0 \<le> t" "t \<le> maxFloat64" "f64_ok (Fin t)"
    using finite_weight [of h "h_totalWeight h"] h by (auto simp: checkpoint_input_def)
  have ok: "gomap_ok ws" and small: "\<And>b k. mget ws b = Some k \<Longrightarrow> b \<in> ?R \<and> 0 < k \<and> k \<le> 10000"
    using shares unfolding saved_shares_def by blast+
  obtain b0 where "mget ws b0 = Some 10000" using shares unfolding saved_shares_def by blast
  then obtain h' y where h': "LoadFromCheckpoint (Some \<lparr>hc_ReferenceTimestamp = ts, hc_BucketWeights = ws, hc_TotalWeight = Fin t\<rparr>) h0 = Some (Inr h')"
    "h_totalWeight h' = Fin t" "fdiv (Fin t) (f_of_int (sum_list (map snd ws))) = Fin y" "0 \<le> y"
    "\<forall>b\<in>{0..<?n}. h_bucketWeight h' ! nat b = fmul (f_of_int (mget0 0 ws b)) (Fin y)"
    using loaded_checkpoint [OF ok small range refl new t(2-4)] by metis
  have zero: "h_bucketWeight h' ! nat b = Fin 0" if "b \<in> {0..<?n} - ?R" for b
  proof -
    have "mget ws b = None" using small that by (cases "mget ws b") auto
    then show ?thesis using h'(5) that f_of_int_exact [of 0] by (simp add: mget0_def mkf_dyadic)
  qed
  have bounds: "0 \<le> mget0 0 ws b" "mget0 0 ws b \<le> 10000" for b
    using small [of b] by (auto simp: mget0_def less_imp_le split: option.splits)
  have mono: "fle (h_bucketWeight h' ! nat a) (h_bucketWeight h' ! nat b)"
    if ab: "a \<in> ?R" "b \<in> ?R" "fle (h_bucketWeight h ! nat a) (h_bucketWeight h ! nat b)" for a b
  proof -
    have "mget0 0 ws a \<le> mget0 0 ws b" using shares ab unfolding saved_shares_def by blast
    then show ?thesis using fmul_of_int_mono [OF h'(4) bounds(1) _ bounds(2)] h'(5) ab(1,2) range by (simp del: fmul.simps)
  qed
  have "restored h m ws h'"
    using h'(2,3,5) t(1) shares by (simp add: restored_def saved_shares_def del: fmul.simps fdiv.simps)
  with h'(1) zero mono show ?thesis unfolding t(1) by blast
qed

text \<open>
  C14: A checkpoint of a well-formed histogram that is not empty, with finite weights, loads into a new histogram,
  in whatever order the map of the checkpoint is read.  The total weight is restored exactly.  Each bucket of
  the loaded histogram holds its saved weight times the total divided by the sum of the saved weights, and
  the saved weight is within half (and the rounding errors) of ten thousand times the bucket's share
  of the largest weight of the histogram; buckets outside its range hold none, and heavier buckets stay at least as
  heavy.  (The histogram has at most \<open>2 ^ 31\<close> buckets and an epsilon of at least \<open>1 / 2 ^ 20\<close>.)
\<close>

theorem checkpoint_roundtrip:
  assumes "checkpoint_input h" "NewHistogram (h_options h) = Some h0"
  shows "\<exists>c m. largest_weight h m \<and> SaveToChekpoint h = Some c \<and> (\<forall>ws. mset ws = mset (hc_BucketWeights c) \<longrightarrow>
    (\<exists>h'. LoadFromCheckpoint (Some (c\<lparr>hc_BucketWeights := ws\<rparr>)) h0 = Some (Inr h') \<and> restored h m ws h' \<and>
      (\<forall>b\<in>{0..<NumBuckets (h_options h)} - {h_minBucket h..h_maxBucket h}. h_bucketWeight h' ! nat b = Fin 0) \<and>
      (\<forall>a\<in>{h_minBucket h..h_maxBucket h}. \<forall>b\<in>{h_minBucket h..h_maxBucket h}.
         fle (h_bucketWeight h ! nat a) (h_bucketWeight h ! nat b) \<longrightarrow>
         fle (h_bucketWeight h' ! nat a) (h_bucketWeight h' ! nat b))))"
proof -
  obtain m c where m: "largest_weight h m"
    and c: "SaveToChekpoint h = Some c" "hc_TotalWeight c = h_totalWeight h" "saved_shares h m (hc_BucketWeights c)"
    by (rule saved_checkpoint_shares [OF assms(1)])
  have cw: "c\<lparr>hc_BucketWeights := ws\<rparr> =
      \<lparr>hc_ReferenceTimestamp = hc_ReferenceTimestamp c, hc_BucketWeights = ws, hc_TotalWeight = h_totalWeight h\<rparr>" for ws
    using c(2) by simp
  show ?thesis
    by (intro exI [of _ c] exI [of _ m] conjI allI impI m c(1), unfold cw) (rule load_restores [OF assms saved_shares_permuted [OF c(3)]])
qed

lemma demo_checkpoint_input: "checkpoint_input demo_hist"
  using demo_hist_ok demo_not_empty
  by (simp add: checkpoint_input_def finite_weights_def) (simp add: demo_hist_def demo_options_def)

theorem checkpoint_roundtrip_witness:
  "\<exists>c h'. SaveToChekpoint demo_hist = Some c \<and> LoadFromCheckpoint (Some c) demo_empty = Some (Inr h') \<and>
     h_totalWeight h' = Fin 4 \<and> h_bucketWeight h' ! 0 = Fin 0"
proof -
  have "NewHistogram (h_options demo_hist) = Some demo_empty" using demo_empty_constructed by (simp add: demo_hist_def)
  from checkpoint_roundtrip [OF demo_checkpoint_input this] obtain c m h' where c: "SaveToChekpoint demo_hist = Some c"
    and h': "LoadFromCheckpoint (Some (c\<lparr>hc_BucketWeights := hc_BucketWeights c\<rparr>)) demo_empty = Some (Inr h')"
    "restored demo_hist m (hc_BucketWeights c) h'"
    "\<forall>b\<in>{0..<NumBuckets (h_options demo_hist)} - {h_minBucket demo_hist..h_maxBucket demo_hist}. h_bucketWeight h' ! nat b = Fin 0"
    by blast
  have "h_bucketWeight h' ! nat 0 = Fin 0" by (rule h'(3) [rule_format]) (simp add: demo_hist_def demo_options_def)
  moreover have "h_totalWeight h' = Fin 4" using h'(2) by (simp add: restored_def demo_hist_def)
  ultimately show ?thesis using c h'(1) by simp
qed

section \<open>A histogram that looks empty after a restart\<close>

text \<open>
  The weight of the first bucket of a loaded histogram can fall below epsilon, by the rounding of its saved
  weight; \<open>LoadFromCheckpoint\<close> does not adjust the range as \<open>scale\<close> and \<open>SubtractSample\<close> do.  \<open>IsEmpty\<close>
  looks at the first bucket only, so it holds, and every percentile of the loaded histogram is zero.
\<close>

definition sparse_hist :: histogram where
  "sparse_hist = \<lparr>h_options = demo_options, h_bucketWeight = [Fin (1 / 8), Fin 1000, Fin 0, Fin 0],
     h_totalWeight = Fin (8001 / 8), h_minBucket = 0, h_maxBucket = 1\<rparr>"

definition sparse_checkpoint :: histogramCheckpoint where
  "sparse_checkpoint = \<lparr>hc_ReferenceTimestamp = 0, hc_BucketWeights = [(0, 1), (1, 10000)], hc_TotalWeight = Fin (8001 / 8)\<rparr>"

lemma sparse_saved: "SaveToChekpoint sparse_hist = Some sparse_checkpoint"
proof -
  have fl: "\<lfloor>7 / 4 :: rat\<rfloor> = 1" "\<lfloor>20001 / 2 :: rat\<rfloor> = 10000" by (simp_all add: floor_eq_iff)
  have ws: "saved_weight (Fin 10) (Fin (1 / 8)) = 1" "saved_weight (Fin 10) (Fin 1000) = 10000"
    using fl by (simp_all add: saved_weight_def go_round_def u32_def demo_eval)
  have bs: "[0..1] = [0, 1 :: int]" by (simp add: upto_rec1)
  have m: "max_weight [Fin (1 / 8), Fin 1000, Fin 0, Fin 0] [0..1] = Some (Fin 1000)"
    by (simp add: max_weight_def bs demo_eval)
  have r: "fdiv (f_of_int MaxCheckpointWeight) (Fin 1000) = Fin 10" by (simp add: MaxCheckpointWeight_def demo_eval)
  show ?thesis
    using m r ws by (simp add: SaveToChekpoint_def sparse_hist_def sparse_checkpoint_def bs save_bucket_def weight_at_def mput_def)
qed

theorem loaded_histogram_may_look_empty:
  "hist_ok sparse_hist \<and> Percentile demo_math (Fin (1 / 2)) sparse_hist = Some (Fin 20) \<and>
   (\<exists>h'. Option.bind (SaveToChekpoint sparse_hist) (\<lambda>c. LoadFromCheckpoint (Some c) demo_empty) = Some (Inr h') \<and>
      h_totalWeight h' = Fin (8001 / 8) \<and> IsEmpty h' = Some True \<and> Percentile demo_math (Fin (1 / 2)) h' = Some (Fin 0))"
proof (intro conjI)
  have ok: "f64_ok (Fin (1 / 8))" "f64_ok (Fin 1000)" "f64_ok (Fin (8001 / 8))"
    using mkf_ok [of "1 / 8"] mkf_ok [of 1000] mkf_ok [of "8001 / 8"] by (simp_all add: mkf_dyadic)
  have all: "b \<in> {0..<4} \<Longrightarrow> b = 0 \<or> b = 1 \<or> b = 2 \<or> b = 3" for b :: int by auto
  show "hist_ok sparse_hist"
    using ok by (auto simp: hist_ok_def sparse_hist_def demo_options_def light_def flt_def Let_def weight_ok_def fnonneg_def numeral_eq_Suc
        dest!: all)
  show "Percentile demo_math (Fin (1 / 2)) sparse_hist = Some (Fin 20)"
    by (simp add: Percentile_def IsEmpty_def GetBucketStart_def percentile_bucket.simps sparse_hist_def demo_options_def demo_eval)
  define y where "y = rnd (8001 / 80008)"
  have y: "0 \<le> y" "y \<le> 7 / 64" "rnd y = y"
    using rnd_mono [of "8001 / 80008" "7 / 64"] rnd_dyadic [of "7 / 64"] f64r.r_nonneg [of "8001 / 80008"] by (simp_all add: y_def)
  have ratio: "fdiv (Fin (8001 / 8)) (f_of_int 10001) = Fin y" by (simp add: f_of_int_def mkf_dyadic mkf_bounded y_def)
  have w0: "fadd (Fin 0) (fmul (f_of_int 1) (Fin y)) = Fin y" using y by (simp add: f_of_int_def mkf_dyadic mkf_bounded)
  let ?h = "demo_empty\<lparr>h_minBucket := 0, h_maxBucket := 1, h_totalWeight := Fin (8001 / 8),
     h_bucketWeight := [Fin y, fadd (Fin 0) (fmul (f_of_int 10000) (Fin y)), Fin 0, Fin 0]\<rparr>"
  have load: "LoadFromCheckpoint (Some sparse_checkpoint) demo_empty = Some (Inr ?h)"
    using ratio w0 ok(3) fadd_0 [OF ok(3)]
    by (simp add: LoadFromCheckpoint_def sparse_checkpoint_def demo_empty_def demo_options_def flt_def load_bucket_def change_at_def
        weight_at_def i64_id in_i64_def minInt64_def maxInt64_def del: fadd.simps fmul.simps fdiv.simps)
  have empty: "IsEmpty ?h = Some True" using y by (simp add: IsEmpty_def weight_at_def demo_empty_def demo_options_def flt_def)
  show "\<exists>h'. Option.bind (SaveToChekpoint sparse_hist) (\<lambda>c. LoadFromCheckpoint (Some c) demo_empty) = Some (Inr h') \<and>
      h_totalWeight h' = Fin (8001 / 8) \<and> IsEmpty h' = Some True \<and> Percentile demo_math (Fin (1 / 2)) h' = Some (Fin 0)"
    using load sparse_saved empty by (intro exI [of _ ?h]) (simp add: Percentile_def del: fadd.simps fmul.simps)
qed

end
