(* ===== verification/AggregateState.thy ===== *)
theory AggregateState
  imports VpaTypes Checkpoint
begin

text \<open>
  \<open>recommender/model/aggregations_config.go\<close> and \<open>aggregate_container_state.go\<close>: the aggregation of usage
  samples of a set of containers.  Samples are aggregated by an \<open>aggregateContainerState\<close>; operations that
  panic return \<open>None\<close>.  The options of the histograms are package variables, so they have the addresses 1 and 2.
\<close>

section \<open>Configuration\<close>

definition MemoryAggregationWindowLength :: duration where
  "MemoryAggregationWindowLength = hour * 8 * 24"

definition MemoryAggregationInterval :: duration where
  "MemoryAggregationInterval = hour * 24"

definition HistogramBucketSizeGrowth :: f64 where
  "HistogramBucketSizeGrowth = mkf (1 / 20)"

definition MemoryHistogramDecayHalfLife :: duration where
  "MemoryHistogramDecayHalfLife = hour * 24"

definition CPUHistogramDecayHalfLife :: duration where
  "CPUHistogramDecayHalfLife = hour * 24"

definition minSampleWeight :: f64 where
  "minSampleWeight = mkf (1 / 10)"

definition epsilon :: f64 where
  "epsilon = mkf (1 / 10000)"

definition cpuHistogramOptions :: "mathLib \<Rightarrow> histogramOptions option" where
  "cpuHistogramOptions ml =
     (case NewExponentialHistogramOptions ml 1 (Fin 1000) (mkf (1 / 100)) (fadd (Fin 1) HistogramBucketSizeGrowth) epsilon of
        Inl _ \<Rightarrow> None | Inr opts \<Rightarrow> Some opts)"

definition memoryHistogramOptions :: "mathLib \<Rightarrow> histogramOptions option" where
  "memoryHistogramOptions ml =
     (case NewExponentialHistogramOptions ml 2 (Fin (10 ^ 12)) (Fin (10 ^ 7)) (fadd (Fin 1) HistogramBucketSizeGrowth) epsilon of
        Inl _ \<Rightarrow> None | Inr opts \<Rightarrow> Some opts)"

section \<open>Aggregations\<close>

record containerUsageSample =
  us_MeasureStart :: time
  us_Usage :: resourceAmount
  us_Request :: resourceAmount
  us_Resource :: string

record aggregateContainerState =
  ag_AggregateCPUUsage :: decayingHistogram
  ag_AggregateMemoryPeaks :: decayingHistogram
  ag_FirstSampleStart :: time
  ag_LastSampleStart :: time
  ag_TotalSamplesCount :: int

definition NewAggregateContainerState :: "mathLib \<Rightarrow> aggregateContainerState option" where
  "NewAggregateContainerState ml =
     (case (Option.bind (cpuHistogramOptions ml) (\<lambda>opts. NewDecayingHistogram opts CPUHistogramDecayHalfLife),
            Option.bind (memoryHistogramOptions ml) (\<lambda>opts. NewDecayingHistogram opts MemoryHistogramDecayHalfLife)) of
        (Some cpu, Some memory) \<Rightarrow>
          Some \<lparr>ag_AggregateCPUUsage = cpu, ag_AggregateMemoryPeaks = memory, ag_FirstSampleStart = 0, ag_LastSampleStart = 0,
                ag_TotalSamplesCount = 0\<rparr>
      | _ \<Rightarrow> None)"

text \<open>The aggregation that is merged, and the one it is merged into.\<close>

definition MergeContainerState ::
  "aggregateContainerState \<Rightarrow> aggregateContainerState \<Rightarrow> (aggregateContainerState \<times> aggregateContainerState) option" where
  "MergeContainerState other a =
     (case (DecayingMerge (ag_AggregateCPUUsage other) (ag_AggregateCPUUsage a),
            DecayingMerge (ag_AggregateMemoryPeaks other) (ag_AggregateMemoryPeaks a)) of
        (Some (ocpu, cpu), Some (omemory, memory)) \<Rightarrow>
          Some (other\<lparr>ag_AggregateCPUUsage := ocpu, ag_AggregateMemoryPeaks := omemory\<rparr>,
            a\<lparr>ag_AggregateCPUUsage := cpu, ag_AggregateMemoryPeaks := memory,
              ag_FirstSampleStart :=
                (if ag_FirstSampleStart other \<noteq> 0 \<and> time_before (ag_FirstSampleStart other) (ag_FirstSampleStart a)
                 then ag_FirstSampleStart other else ag_FirstSampleStart a),
              ag_LastSampleStart :=
                (if time_after (ag_LastSampleStart other) (ag_LastSampleStart a)
                 then ag_LastSampleStart other else ag_LastSampleStart a),
              ag_TotalSamplesCount := i64 (ag_TotalSamplesCount a + ag_TotalSamplesCount other)\<rparr>)
      | _ \<Rightarrow> None)"

definition aggregateCPUSample :: "mathLib \<Rightarrow> containerUsageSample \<Rightarrow> aggregateContainerState \<Rightarrow> aggregateContainerState option" where
  "aggregateCPUSample ml sample a =
     (let start = us_MeasureStart sample
      in map_option (\<lambda>cpu. a\<lparr>ag_AggregateCPUUsage := cpu,
             ag_LastSampleStart := (if time_after start (ag_LastSampleStart a) then start else ag_LastSampleStart a),
             ag_FirstSampleStart :=
               (if ag_FirstSampleStart a = 0 \<or> time_before start (ag_FirstSampleStart a) then start else ag_FirstSampleStart a),
             ag_TotalSamplesCount := i64 (ag_TotalSamplesCount a + 1)\<rparr>)
           (DecayingAddSample ml (CoresFromCPUAmount (us_Usage sample))
              (fmax (CoresFromCPUAmount (us_Request sample)) minSampleWeight) start (ag_AggregateCPUUsage a)))"

definition aggregateSample :: "mathLib \<Rightarrow> containerUsageSample \<Rightarrow> aggregateContainerState \<Rightarrow> aggregateContainerState option" where
  "aggregateSample ml sample a =
     (if us_Resource sample = ResourceCPU then aggregateCPUSample ml sample a
      else if us_Resource sample = ResourceMemory then
        map_option (\<lambda>memory. a\<lparr>ag_AggregateMemoryPeaks := memory\<rparr>)
          (DecayingAddSample ml (BytesFromMemoryAmount (us_Usage sample)) (Fin 1) (us_MeasureStart sample) (ag_AggregateMemoryPeaks a))
      else None)"

definition subtractSample :: "mathLib \<Rightarrow> containerUsageSample \<Rightarrow> aggregateContainerState \<Rightarrow> aggregateContainerState option" where
  "subtractSample ml sample a =
     (if us_Resource sample = ResourceMemory then
        map_option (\<lambda>memory. a\<lparr>ag_AggregateMemoryPeaks := memory\<rparr>)
          (DecayingSubtractSample ml (BytesFromMemoryAmount (us_Usage sample)) (Fin 1) (us_MeasureStart sample)
             (ag_AggregateMemoryPeaks a))
      else None)"

section \<open>Checkpoints\<close>

definition SupportedCheckpointVersion :: string where
  "SupportedCheckpointVersion = ''v3''"

record checkpointStatus =
  vc_FirstSampleStart :: time
  vc_LastSampleStart :: time
  vc_TotalSamplesCount :: int
  vc_MemoryHistogram :: histogramCheckpoint
  vc_CPUHistogram :: histogramCheckpoint
  vc_Version :: string

datatype aggregateError = UnsupportedVersion string | HistogramError checkpointError

definition SaveToCheckpoint :: "aggregateContainerState \<Rightarrow> checkpointStatus option" where
  "SaveToCheckpoint a =
     (case (DecayingSaveToChekpoint (ag_AggregateMemoryPeaks a), DecayingSaveToChekpoint (ag_AggregateCPUUsage a)) of
        (Some memory, Some cpu) \<Rightarrow>
          Some \<lparr>vc_FirstSampleStart = ag_FirstSampleStart a, vc_LastSampleStart = ag_LastSampleStart a,
                vc_TotalSamplesCount = ag_TotalSamplesCount a, vc_MemoryHistogram = memory, vc_CPUHistogram = cpu,
                vc_Version = SupportedCheckpointVersion\<rparr>
      | _ \<Rightarrow> None)"

text \<open>The error, if any, with the state the loading leaves behind.\<close>

definition LoadAggregateFromCheckpoint ::
  "checkpointStatus \<Rightarrow> aggregateContainerState \<Rightarrow> (aggregateError option \<times> aggregateContainerState) option" where
  "LoadAggregateFromCheckpoint c a =
     (if vc_Version c \<noteq> SupportedCheckpointVersion then Some (Some (UnsupportedVersion (vc_Version c)), a)
      else
        (let a1 = a\<lparr>ag_TotalSamplesCount := vc_TotalSamplesCount c, ag_FirstSampleStart := vc_FirstSampleStart c,
               ag_LastSampleStart := vc_LastSampleStart c\<rparr>
         in case DecayingLoadFromCheckpoint (Some (vc_MemoryHistogram c)) (ag_AggregateMemoryPeaks a1) of
              None \<Rightarrow> None
            | Some (Inl err) \<Rightarrow> Some (Some (HistogramError err), a1)
            | Some (Inr memory) \<Rightarrow>
                (let a2 = a1\<lparr>ag_AggregateMemoryPeaks := memory\<rparr>
                 in case DecayingLoadFromCheckpoint (Some (vc_CPUHistogram c)) (ag_AggregateCPUUsage a2) of
                      None \<Rightarrow> None
                    | Some (Inl err) \<Rightarrow> Some (Some (HistogramError err), a2)
                    | Some (Inr cpu) \<Rightarrow> Some (None, a2\<lparr>ag_AggregateCPUUsage := cpu\<rparr>))))"

definition isExpired :: "time \<Rightarrow> aggregateContainerState \<Rightarrow> bool" where
  "isExpired now a \<longleftrightarrow> ag_LastSampleStart a \<noteq> 0 \<and> time_sub now (ag_LastSampleStart a) \<ge> MemoryAggregationWindowLength"

section \<open>The first and last sample, and their number\<close>

text \<open>
  However many CPU samples are aggregated into a state without any, the first and last start are those of
  the earliest and latest, and their number is their number.
\<close>

lemma aggregateCPUSample_times:
  assumes "aggregateCPUSample ml x a = Some a'"
  shows "ag_LastSampleStart a' = max (us_MeasureStart x) (ag_LastSampleStart a)"
    and "ag_FirstSampleStart a' = (if ag_FirstSampleStart a = 0 then us_MeasureStart x else min (us_MeasureStart x) (ag_FirstSampleStart a))"
    and "ag_TotalSamplesCount a' = i64 (ag_TotalSamplesCount a + 1)"
    and "ag_AggregateMemoryPeaks a' = ag_AggregateMemoryPeaks a"
  using assms by (auto simp: aggregateCPUSample_def Let_def time_defs max_def min_def)

definition sample_times_ok :: "time list \<Rightarrow> aggregateContainerState \<Rightarrow> bool" where
  "sample_times_ok ts a \<longleftrightarrow>
     (if ts = [] then ag_FirstSampleStart a = 0 \<and> ag_LastSampleStart a = 0
      else ag_FirstSampleStart a = Min (set ts) \<and> ag_LastSampleStart a = Max (set ts)) \<and>
     ag_TotalSamplesCount a = int (length ts)"

lemma sample_times_step:
  assumes "sample_times_ok ts a" "0 < us_MeasureStart x" "\<forall>t\<in>set ts. 0 < t" "int (length ts) < maxInt64"
    and "aggregateCPUSample ml x a = Some a'"
  shows "sample_times_ok (ts @ [us_MeasureStart x]) a'"
proof -
  have "in_i64 (int (length ts) + 1)" using assms(4) by (simp add: in_i64_def minInt64_def)
  then have count: "i64 (int (length ts) + 1) = int (length ts) + 1" by (rule i64_id)
  show ?thesis
  proof (cases "ts = []")
    case True
    then show ?thesis using assms(1,2) aggregateCPUSample_times [OF assms(5)] count by (simp add: sample_times_ok_def)
  next
    case False
    then have "Min (set ts) \<in> set ts" by (intro Min_in) simp_all
    then have nz: "Min (set ts) \<noteq> 0" using assms(3) by (metis less_irrefl)
    then show ?thesis using assms(1) aggregateCPUSample_times [OF assms(5)] count False
      by (simp add: sample_times_ok_def add.commute)
  qed
qed

text \<open>
  When CPU samples with start times after the zero time are aggregated one after another into an aggregation
  that has none, its first and last sample start are the earliest and the latest of theirs, in whatever order they
  come, and the number of samples is counted.
\<close>

theorem aggregated_sample_times:
  assumes "ofold (\<lambda>a x. aggregateSample ml x a) a0 xs = Some a" "sample_times_ok [] a0"
    and "\<forall>x\<in>set xs. us_Resource x = ResourceCPU \<and> 0 < us_MeasureStart x" "int (length xs) \<le> maxInt64"
  shows "sample_times_ok (map us_MeasureStart xs) a"
proof -
  have gen: "sample_times_ok (ts @ map us_MeasureStart xs) a"
    if "ofold (\<lambda>a x. aggregateSample ml x a) a0 xs = Some a" "sample_times_ok ts a0" "\<forall>t\<in>set ts. 0 < t"
      "\<forall>x\<in>set xs. us_Resource x = ResourceCPU \<and> 0 < us_MeasureStart x" "int (length ts + length xs) \<le> maxInt64" for ts a0
    using that
  proof (induction xs arbitrary: ts a0)
    case (Cons x xs)
    then obtain a1 where a1: "aggregateCPUSample ml x a0 = Some a1" "ofold (\<lambda>a x. aggregateSample ml x a) a1 xs = Some a"
      by (auto simp: aggregateSample_def split: option.splits)
    have "sample_times_ok (ts @ [us_MeasureStart x]) a1"
      using sample_times_step [OF Cons.prems(2) _ Cons.prems(3) _ a1(1)] Cons.prems(4,5) by simp
    from Cons.IH [OF a1(2) this] Cons.prems show ?case by simp
  qed simp
  from gen [of a0 "[]"] assms show ?thesis by simp
qed

text \<open>
  \<open>MergeContainerState\<close> compares the first sample start with a start of zero, before which no time is: merged
  into a new aggregation, the first sample start stays zero.
\<close>

lemma merge_never_sets_first_start:
  assumes "MergeContainerState other a = Some (o', a')" "ag_FirstSampleStart a = 0" "0 \<le> ag_FirstSampleStart other"
  shows "ag_FirstSampleStart a' = 0"
  using assms by (auto simp: MergeContainerState_def time_defs split: option.splits prod.splits)

section \<open>Two samples\<close>

lemma demo_decay_factor:
  assumes "0 \<le> t" "t < 16"
  shows "decayFactor demo_math t (demo_decaying h) = Some (Fin 1, demo_decaying h)"
proof -
  have t: "f_of_int t = Fin (of_int t)" "f_of_int 16 = Fin 16"
    using assms f_of_int_exact [of t] f_of_int_exact [of 16] by simp_all
  have "\<lfloor>of_int t / 16 :: rat\<rfloor> = 0" using assms by (simp add: floor_eq_iff)
  moreover have "mkf (of_int t / 16) = Fin (of_int t / 16)"
  proof (rule mkf_dyadic)
    have "of_int t / 16 * 1024 = (of_int (t * 64) :: rat)" by simp
    then show "of_int \<lfloor>of_int t / 16 * 1024 :: rat\<rfloor> = (of_int t / 16 * 1024 :: rat)" by (simp only: floor_of_int)
  qed (use assms in simp_all)
  ultimately show ?thesis using assms t
    by (simp add: decayFactor_def demo_decaying_def time_defs max_allowed_def i64_id in_i64_def minInt64_def maxInt64_def
        maxDecayExponent_def factor_at_def time_sub_def demo_math_def ldexp1_def exp2_def mkf_dyadic)
qed

definition demo_aggregate :: "histogram \<Rightarrow> time \<Rightarrow> time \<Rightarrow> int \<Rightarrow> aggregateContainerState" where
  "demo_aggregate h f l n = \<lparr>ag_AggregateCPUUsage = demo_decaying h, ag_AggregateMemoryPeaks = demo_decaying demo_empty,
     ag_FirstSampleStart = f, ag_LastSampleStart = l, ag_TotalSamplesCount = n\<rparr>"

definition demo_cpu_sample :: "time \<Rightarrow> int \<Rightarrow> int \<Rightarrow> containerUsageSample" where
  "demo_cpu_sample t usage request =
     \<lparr>us_MeasureStart = t, us_Usage = usage, us_Request = request, us_Resource = ResourceCPU\<rparr>"

lemma demo_min_weight: "1 \<le> x \<Longrightarrow> fmax (Fin x) minSampleWeight = Fin x"
proof -
  have "rnd (1 / 10) \<le> 1" using rnd_mono [of "1 / 10" 1] rnd_dyadic [of 1] by simp
  moreover assume "1 \<le> x"
  ultimately show ?thesis by (auto simp: fmax_def minSampleWeight_def mkf_bounded)
qed

lemma demo_samples_aggregated:
  "ofold (\<lambda>a x. aggregateSample demo_math x a) (demo_aggregate demo_empty 0 0 0) [demo_cpu_sample 9 15000 1000, demo_cpu_sample 4 25000 3000] =
     Some (demo_aggregate demo_hist 4 9 2)"
proof -
  have cores: "fdiv (f_of_int 15000) (Fin 1000) = Fin 15" "fdiv (f_of_int 25000) (Fin 1000) = Fin 25"
    "fdiv (f_of_int 1000) (Fin 1000) = Fin 1" "fdiv (f_of_int 3000) (Fin 1000) = Fin 3"
    by (simp_all add: f_of_int_def mkf_dyadic)
  have w: "fmul (Fin 1) (Fin 1) = Fin 1" "fmul (Fin 3) (Fin 1) = Fin 3" by (simp_all add: mkf_dyadic)
  have m: "fmax (Fin 1) minSampleWeight = Fin 1" "fmax (Fin 3) minSampleWeight = Fin 3" by (simp_all add: demo_min_weight)
  have add: "DecayingAddSample demo_math (Fin 15) (Fin 1) 9 (demo_decaying demo_empty) = Some (demo_decaying demo_light)"
    "DecayingAddSample demo_math (Fin 25) (Fin 3) 4 (demo_decaying demo_light) = Some (demo_decaying demo_hist)"
    using demo_decay_factor [of 9 demo_empty] demo_decay_factor [of 4 demo_light] w
    by (simp_all add: DecayingAddSample_def with_factor_def demo_light_filled demo_hist_filled del: fmul.simps)
      (simp_all add: demo_decaying_def demo_light_filled demo_hist_filled)
  show ?thesis
    using add cores m
    by (simp add: aggregateSample_def aggregateCPUSample_def Let_def demo_cpu_sample_def demo_aggregate_def CoresFromCPUAmount_def
        time_defs i64_id in_i64_def minInt64_def maxInt64_def del: fdiv.simps)
qed

theorem aggregated_sample_times_witness:
  "sample_times_ok [9, 4] (demo_aggregate demo_hist 4 9 2) \<and> Min {9, 4 :: int} = 4"
  using aggregated_sample_times [OF demo_samples_aggregated]
  by (simp add: sample_times_ok_def demo_aggregate_def demo_cpu_sample_def maxInt64_def)

end
