(* ===== verification/Recommend.thy ===== *)
theory Recommend
  imports AggregateState
begin

text \<open>
  \<open>recommender/logic/estimator.go\<close> and \<open>recommender.go\<close>: the chain of estimators, and the recommendation
  of a target with a lower and an upper bound for every container.
\<close>

section \<open>Estimators\<close>

datatype resourceEstimator =
  ConstEstimator resources
| PercentileEstimator f64 f64
| MarginEstimator f64 resourceEstimator
| MinResourcesEstimator resources resourceEstimator
| ConfidenceMultiplier f64 f64 resourceEstimator

definition getConfidence :: "aggregateContainerState \<Rightarrow> f64" where
  "getConfidence s =
     (let lifespanInDays = fdiv (f_of_int (time_sub (ag_LastSampleStart s) (ag_FirstSampleStart s))) (f_of_int (hour * 24));
          samplesAmount = fdiv (f_of_int (ag_TotalSamplesCount s)) (Fin (60 * 24))
      in fmin lifespanInDays samplesAmount)"

definition each_resource :: "(string \<Rightarrow> resourceAmount \<Rightarrow> resourceAmount) \<Rightarrow> resources \<Rightarrow> resources" where
  "each_resource f rs = foldl (\<lambda>new (resource, amount). mput resource (f resource amount) new) [] rs"

primrec GetResourceEstimation :: "mathLib \<Rightarrow> aggregateContainerState \<Rightarrow> resourceEstimator \<Rightarrow> resources option" where
  "GetResourceEstimation ml s (ConstEstimator rs) = Some rs"
| "GetResourceEstimation ml s (PercentileEstimator cpuPercentile memoryPercentile) =
     (case (DecayingPercentile ml cpuPercentile (ag_AggregateCPUUsage s),
            DecayingPercentile ml memoryPercentile (ag_AggregateMemoryPeaks s)) of
        (Some cores, Some bytes) \<Rightarrow>
          Some [(ResourceCPU, CPUAmountFromCores cores), (ResourceMemory, MemoryAmountFromBytes bytes)]
      | _ \<Rightarrow> None)"
| "GetResourceEstimation ml s (MarginEstimator marginFraction base) =
     map_option (\<lambda>original. each_resource (\<lambda>resource amount. i64 (mget0 0 original resource + ScaleResource amount marginFraction)) original)
       (GetResourceEstimation ml s base)"
| "GetResourceEstimation ml s (MinResourcesEstimator minResources base) =
     map_option (each_resource (\<lambda>resource amount.
         if amount < mget0 0 minResources resource then mget0 0 minResources resource else amount))
       (GetResourceEstimation ml s base)"
| "GetResourceEstimation ml s (ConfidenceMultiplier multiplier exponent base) =
     map_option (each_resource (\<lambda>resource amount.
         ScaleResource amount (m_Pow ml (fadd (Fin 1) (fdiv multiplier (getConfidence s))) exponent)))
       (GetResourceEstimation ml s base)"

section \<open>Recommendations\<close>

record recommenderFlags =
  rf_safetyMarginFraction :: f64
  rf_podMinCPUMillicores :: f64
  rf_podMinMemoryMb :: f64

record recommendedContainerResources =
  rc_Target :: resources
  rc_LowerBound :: resources
  rc_UpperBound :: resources

record podResourceRecommender =
  rr_targetEstimator :: resourceEstimator
  rr_lowerBoundEstimator :: resourceEstimator
  rr_upperBoundEstimator :: resourceEstimator

definition estimateContainerResources ::
  "mathLib \<Rightarrow> podResourceRecommender \<Rightarrow> aggregateContainerState \<Rightarrow> recommendedContainerResources option" where
  "estimateContainerResources ml r s =
     (case (GetResourceEstimation ml s (rr_targetEstimator r), GetResourceEstimation ml s (rr_lowerBoundEstimator r),
            GetResourceEstimation ml s (rr_upperBoundEstimator r)) of
        (Some target, Some lower, Some upper) \<Rightarrow> Some \<lparr>rc_Target = target, rc_LowerBound = lower, rc_UpperBound = upper\<rparr>
      | _ \<Rightarrow> None)"

definition podMinimum :: "recommenderFlags \<Rightarrow> nat \<Rightarrow> resources" where
  "podMinimum flags containers =
     (let fraction = fdiv (Fin 1) (f_of_int (int containers))
      in [(ResourceCPU, ScaleResource (CPUAmountFromCores (fmul (rf_podMinCPUMillicores flags) (mkf (1 / 1000)))) fraction),
          (ResourceMemory, ScaleResource (MemoryAmountFromBytes (fmul (fmul (rf_podMinMemoryMb flags) (Fin 1024)) (Fin 1024))) fraction)])"

definition GetRecommendedPodResources ::
  "mathLib \<Rightarrow> recommenderFlags \<Rightarrow> podResourceRecommender \<Rightarrow> (string, aggregateContainerState) gomap \<Rightarrow>
     (string, recommendedContainerResources) gomap option" where
  "GetRecommendedPodResources ml flags r states =
     (if states = [] then Some []
      else
        (let minResources = podMinimum flags (length states);
             recommender = \<lparr>rr_targetEstimator = MinResourcesEstimator minResources (rr_targetEstimator r),
               rr_lowerBoundEstimator = MinResourcesEstimator minResources (rr_lowerBoundEstimator r),
               rr_upperBoundEstimator = MinResourcesEstimator minResources (rr_upperBoundEstimator r)\<rparr>
         in ofold (\<lambda>recommendation (name, s).
                map_option (\<lambda>rec. mput name rec recommendation) (estimateContainerResources ml recommender s)) [] states))"

definition CreatePodResourceRecommender :: "recommenderFlags \<Rightarrow> podResourceRecommender" where
  "CreatePodResourceRecommender flags =
     (let target = MarginEstimator (rf_safetyMarginFraction flags) (PercentileEstimator (mkf (9 / 10)) (mkf (9 / 10)));
          lower = MarginEstimator (rf_safetyMarginFraction flags) (PercentileEstimator (mkf (1 / 2)) (mkf (1 / 2)));
          upper = MarginEstimator (rf_safetyMarginFraction flags) (PercentileEstimator (mkf (95 / 100)) (mkf (95 / 100)))
      in \<lparr>rr_targetEstimator = target,
          rr_lowerBoundEstimator = ConfidenceMultiplier (mkf (1 / 1000)) (Fin (- 2)) lower,
          rr_upperBoundEstimator = ConfidenceMultiplier (Fin 1) (Fin 1) upper\<rparr>)"

section \<open>Every container gets a recommendation\<close>

lemma recommendation_loop:
  assumes "ofold (\<lambda>recommendation (name, s). map_option (\<lambda>rec. mput name rec recommendation) (f s)) r0 states = Some r"
    and "gomap_ok states" "mget states name = Some s"
  shows "\<exists>rec. f s = Some rec \<and> mget r name = Some rec"
  using assms
proof (induction states arbitrary: r0)
  case (Cons kv states)
  obtain k v where kv: "kv = (k, v)" by force
  obtain rec where rec: "f v = Some rec" "ofold (\<lambda>recommendation (name, s). map_option (\<lambda>rec. mput name rec recommendation) (f s))
      (mput k rec r0) states = Some r"
    using Cons.prems(1) kv by (auto split: option.splits)
  have keep: "mget r k' = mget r1 k'" if "ofold (\<lambda>recommendation (name, s). map_option (\<lambda>rec. mput name rec recommendation) (f s))
      r1 xs = Some r" "mget xs k' = None" for r1 xs k'
    using that by (induction xs arbitrary: r1) (auto split: option.splits if_splits)
  show ?case
  proof (cases "name = k")
    case True
    then show ?thesis using keep [OF rec(2), of k] Cons.prems(2,3) kv rec(1) by (simp add: gomap_ok_Cons)
  next
    case False
    then show ?thesis using Cons.IH [OF rec(2)] Cons.prems(2,3) kv by (simp add: gomap_ok_Cons)
  qed
qed simp

lemma recommendation_loop_total:
  assumes "\<forall>s\<in>snd ` set states. \<exists>rec. f s = Some rec"
  shows "\<exists>r. ofold (\<lambda>recommendation (name, s). map_option (\<lambda>rec. mput name rec recommendation) (f s)) r0 states = Some r"
  using assms
proof (induction states arbitrary: r0)
  case (Cons kv states)
  obtain k v where kv: "kv = (k, v)" by force
  obtain rec where "f v = Some rec" using Cons.prems kv by auto
  then show ?case using Cons.IH [of "mput k rec r0"] Cons.prems kv by simp
qed simp

section \<open>One resource\<close>

lemma each_resource_pair:
  "each_resource f [(ResourceCPU, c), (ResourceMemory, m)] = [(ResourceCPU, f ResourceCPU c), (ResourceMemory, f ResourceMemory m)]"
  by (simp add: each_resource_def mput_def ResourceCPU_def ResourceMemory_def)

definition margined :: "f64 \<Rightarrow> resourceAmount \<Rightarrow> resourceAmount" where
  "margined marginFraction a = i64 (a + ScaleResource a marginFraction)"

definition at_least :: "resourceAmount \<Rightarrow> resourceAmount \<Rightarrow> resourceAmount" where
  "at_least mn a = (if a < mn then mn else a)"

text \<open>The limit of the estimates, so that neither the margin nor the confidence exceed the largest amount.\<close>

definition amount_limit :: int where
  "amount_limit = 10 ^ 13"

lemma ScaleResource_mono:
  assumes "a \<le> b" "fnonneg factor" "factor \<noteq> PInf" "\<bar>a\<bar> \<le> 2 ^ 53" "\<bar>b\<bar> \<le> 2 ^ 53"
  shows "ScaleResource a factor \<le> ScaleResource b factor"
proof -
  have num: "fmul factor (f_of_int n) \<noteq> NaN" if "\<bar>n\<bar> \<le> 2 ^ 53" for n
    using assms(2,3) f_of_int_exact [OF that] by (cases factor) (simp_all add: fnonneg_def)
  have "fle (fmul factor (f_of_int a)) (fmul factor (f_of_int b))"
    by (rule fmul_mono_right [OF f_of_int_mono [OF assms(1)] assms(2) num [OF assms(4)] num [OF assms(5)]])
  then show ?thesis by (simp add: ScaleResource_def amount_mono fmul_commute [of _ factor])
qed

lemma margined_spec:
  assumes "margin = Fin x" "0 \<le> x" "x \<le> 1" "0 \<le> a" "a \<le> b" "b \<le> amount_limit"
  shows "a \<le> margined margin a" "margined margin a \<le> margined margin b" "margined margin b \<le> MaxResourceAmount"
proof -
  have f: "fnonneg margin" "margin \<noteq> PInf" "fle margin (Fin 1)" using assms(1-3) by (simp_all add: fnonneg_def)
  have lim: "c \<le> MaxResourceAmount" "\<bar>c\<bar> \<le> 2 ^ 53" if "0 \<le> c" "c \<le> b" for c
    using assms(6) that by (simp_all add: amount_limit_def MaxResourceAmount_def)
  have s: "0 \<le> ScaleResource c margin \<and> ScaleResource c margin \<le> c" if "0 \<le> c" "c \<le> b" for c
    using ScaleResource_le [OF that(1) lim(1) [OF that] f(1,3)] by simp
  have e: "margined margin c = c + ScaleResource c margin" if "0 \<le> c" "c \<le> b" for c
    unfolding margined_def using s [OF that] that assms(6)
    by (intro i64_id) (simp add: in_i64_def minInt64_def maxInt64_def amount_limit_def)
  have ab: "0 \<le> a" "a \<le> b" "0 \<le> b" "b \<le> b" using assms(4,5) by simp_all
  show "a \<le> margined margin a" using e [OF ab(1,2)] s [OF ab(1,2)] by simp
  have "ScaleResource a margin \<le> ScaleResource b margin"
    by (rule ScaleResource_mono [OF assms(5) f(1,2) lim(2) [OF ab(1,2)] lim(2) [OF ab(3,4)]])
  then show "margined margin a \<le> margined margin b" using e [OF ab(1,2)] e [OF ab(3,4)] assms(5) by simp
  show "margined margin b \<le> MaxResourceAmount"
    using e [OF ab(3,4)] s [OF ab(3,4)] assms(6) by (simp add: amount_limit_def MaxResourceAmount_def)
qed

lemma bounds_ordered:
  assumes margin: "margin = Fin x" "0 \<le> x" "x \<le> 1" and a: "0 \<le> lo" "lo \<le> mid" "mid \<le> hi" "hi \<le> amount_limit"
    and low: "fnonneg fl" "fle fl (Fin 1)" and up: "fle (Fin 1) fu" and mn: "0 \<le> mn"
  shows "mn \<le> at_least mn (ScaleResource (margined margin lo) fl) \<and>
    at_least mn (ScaleResource (margined margin lo) fl) \<le> at_least mn (margined margin mid) \<and>
    at_least mn (margined margin mid) \<le> at_least mn (ScaleResource (margined margin hi) fu)"
proof -
  have l: "0 \<le> margined margin lo" "margined margin lo \<le> margined margin mid" "margined margin lo \<le> MaxResourceAmount"
    using margined_spec [OF margin, of lo mid] margined_spec(3) [OF margin, of lo lo] a by simp_all
  have m: "margined margin mid \<le> margined margin hi" "margined margin hi \<le> MaxResourceAmount"
    using margined_spec [OF margin, of mid hi] a by simp_all
  have "ScaleResource (margined margin lo) fl \<le> margined margin mid"
    using ScaleResource_le(2) [OF l(1,3) low] l(2) by linarith
  moreover have "margined margin mid \<le> ScaleResource (margined margin hi) fu \<or> margined margin mid \<le> 0"
    using ScaleResource_ge [OF _ m(2) up] m(1) by linarith
  ultimately show ?thesis using mn by (auto simp: at_least_def)
qed

section \<open>Confidence\<close>

text \<open>\<open>math.Pow(x, 1) = x\<close>, and a power of at least one to the minus two is at most one.\<close>

definition pow_law :: "mathLib \<Rightarrow> bool" where
  "pow_law ml \<longleftrightarrow> (\<forall>x. m_Pow ml x (Fin 1) = x) \<and>
     (\<forall>x. fle (Fin 1) x \<longrightarrow> fnonneg (m_Pow ml x (Fin (- 2))) \<and> fle (m_Pow ml x (Fin (- 2))) (Fin 1))"

definition history_ok :: "aggregateContainerState \<Rightarrow> bool" where
  "history_ok s \<longleftrightarrow> ag_FirstSampleStart s \<le> ag_LastSampleStart s \<and> 0 \<le> ag_TotalSamplesCount s \<and> in_i64 (ag_TotalSamplesCount s)"

lemma fnonneg_f_of_int: "0 \<le> n \<Longrightarrow> fnonneg (f_of_int n)"
  by (simp add: f_of_int_def fnonneg_mkf)

lemma fnonneg_fdiv: "fnonneg a \<Longrightarrow> a \<noteq> PInf \<Longrightarrow> 0 < b \<Longrightarrow> fnonneg (fdiv a (Fin b))"
  by (cases a) (auto simp: fnonneg_def fnonneg_mkf [unfolded fnonneg_def])

lemma confidence_nonneg:
  assumes "history_ok s"
  shows "fnonneg (getConfidence s)"
proof -
  let ?d = "time_sub (ag_LastSampleStart s) (ag_FirstSampleStart s)"
  have d: "0 \<le> ?d" "\<bar>?d\<bar> \<le> 2 ^ 63" using assms time_sub_bounds(1) by (auto simp: history_ok_def time_sub_def maxInt64_def)
  have n: "\<bar>ag_TotalSamplesCount s\<bar> \<le> 2 ^ 63" using assms by (simp add: history_ok_def in_i64_def maxInt64_def)
  have day: "f_of_int (hour * 24) = Fin (of_int (hour * 24))"
    by (rule f_of_int_exact) (simp add: hour_def minute_def second_def)
  have a: "fnonneg (fdiv (f_of_int ?d) (Fin (of_int (hour * 24))))"
  proof (rule fnonneg_fdiv [OF fnonneg_f_of_int [OF d(1)]])
    show "f_of_int ?d \<noteq> PInf" by (rule f_of_int_i64 [OF d(2)]) simp
  qed (simp add: hour_def minute_def second_def)
  have b: "fnonneg (fdiv (f_of_int (ag_TotalSamplesCount s)) (Fin (60 * 24)))"
  proof (rule fnonneg_fdiv [OF fnonneg_f_of_int])
    show "f_of_int (ag_TotalSamplesCount s) \<noteq> PInf" by (rule f_of_int_i64 [OF n]) simp
  qed (use assms in \<open>simp_all add: history_ok_def\<close>)
  have "fnonneg (fmin x y)" if "fnonneg x" "fnonneg y" for x y using that by (auto simp: fmin_def fnonneg_def)
  from this [OF a b] show ?thesis unfolding getConfidence_def Let_def day .
qed

lemma one_plus_ge:
  assumes "0 < m" "fnonneg c"
  shows "fle (Fin 1) (fadd (Fin 1) (fdiv (Fin m) c))"
proof -
  have q: "fnonneg (fdiv (Fin m) c) \<and> f64_ok (fdiv (Fin m) c)"
    using assms maxFloat64_pos by (cases c) (auto simp: fnonneg_def finf_def mkf_ok fnonneg_mkf [unfolded fnonneg_def])
  have "f64_ok (Fin 1)" using f64_ok_of_int [of 1] by simp
  then show ?thesis
    using q weight_ok_fadd_ge [of "Fin 1" "fdiv (Fin m) c"] by (simp add: weight_ok_def fnonneg_def [of "Fin 1"] del: f64_ok.simps)
qed

section \<open>Percentiles as amounts\<close>

text \<open>The buckets of a histogram start one after the other, between zero and a limit.\<close>

definition bucket_limits :: "mathLib \<Rightarrow> histogramOptions \<Rightarrow> rat \<Rightarrow> bool" where
  "bucket_limits ml opts limit \<longleftrightarrow> starts_ordered ml opts \<and>
     (\<forall>b\<in>{0..<NumBuckets opts}. fle (Fin 0) (bucket_start ml opts b) \<and> fle (bucket_start ml opts b) (Fin limit))"

lemma percentile_value:
  assumes "hist_ok h" "bucket_limits ml (h_options h) limit" "0 \<le> limit"
  shows "\<exists>v. Percentile ml p h = Some (Fin v) \<and> 0 \<le> v \<and> v \<le> limit"
proof (rule Percentile_cases [OF assms(1), of ml p])
  assume "Percentile ml p h = Some (Fin 0)"
  then show ?thesis using assms(3) by simp
next
  fix k
  assume k: "h_minBucket h \<le> k" "k \<le> h_maxBucket h" "Percentile ml p h = Some (percentile_end ml (h_options h) k)"
  let ?b = "min (k + 1) (NumBuckets (h_options h) - 1)"
  have "?b \<in> {0..<NumBuckets (h_options h)}" using k(1) hist_okD(1,6) [OF assms(1)] by auto
  then have "fle (Fin 0) (bucket_start ml (h_options h) ?b) \<and> fle (bucket_start ml (h_options h) ?b) (Fin limit)"
    using assms(2) unfolding bucket_limits_def by blast
  then show ?thesis using k(3) by (cases "bucket_start ml (h_options h) ?b") (simp_all add: percentile_end_def)
qed

lemma mkf_le_limit: "x \<le> 10 ^ 13 \<Longrightarrow> fle (mkf x) (f_of_int amount_limit)"
  unfolding f_of_int_def by (rule mkf_mono) (simp add: amount_limit_def)

lemma cpu_amounts:
  assumes "hist_ok h" "bucket_limits ml (h_options h) (10 ^ 10)" "0 < p" "p \<le> q"
  shows "\<exists>x y. Percentile ml (Fin p) h = Some x \<and> Percentile ml (Fin q) h = Some y \<and> 0 \<le> CPUAmountFromCores x \<and>
    CPUAmountFromCores x \<le> CPUAmountFromCores y \<and> CPUAmountFromCores y \<le> amount_limit"
proof -
  obtain v where v: "Percentile ml (Fin p) h = Some (Fin v)" "0 \<le> v"
    using percentile_value [OF assms(1,2), of "Fin p"] by auto
  obtain w where w: "Percentile ml (Fin q) h = Some (Fin w)" "w \<le> 10 ^ 10"
    using percentile_value [OF assms(1,2), of "Fin q"] by auto
  have "v \<le> w"
    using percentile_mono_lemma [OF assms(1) _ assms(3,4), of ml] assms(2) v(1) w(1) by (auto simp: bucket_limits_def)
  then have "CPUAmountFromCores (Fin v) \<le> CPUAmountFromCores (Fin w)"
    unfolding CPUAmountFromCores_def by (intro amount_mono) (simp add: mkf_mono)
  moreover have "0 \<le> CPUAmountFromCores (Fin v)" unfolding CPUAmountFromCores_def by (rule amount_range) simp
  moreover have "fle (fmul (Fin w) (Fin 1000)) (f_of_int amount_limit)" using w(2) by (simp add: mkf_le_limit)
  from amount_mono [OF this] have "CPUAmountFromCores (Fin w) \<le> amount_limit"
    using amount_of_int [of amount_limit] by (simp add: CPUAmountFromCores_def amount_limit_def MaxResourceAmount_def)
  ultimately show ?thesis using v(1) w(1) by blast
qed

lemma memory_amounts:
  assumes "hist_ok h" "bucket_limits ml (h_options h) (10 ^ 13)" "0 < p" "p \<le> q"
  shows "\<exists>x y. Percentile ml (Fin p) h = Some x \<and> Percentile ml (Fin q) h = Some y \<and> 0 \<le> MemoryAmountFromBytes x \<and>
    MemoryAmountFromBytes x \<le> MemoryAmountFromBytes y \<and> MemoryAmountFromBytes y \<le> amount_limit"
proof -
  obtain v where v: "Percentile ml (Fin p) h = Some (Fin v)" "0 \<le> v"
    using percentile_value [OF assms(1,2), of "Fin p"] by auto
  obtain w where w: "Percentile ml (Fin q) h = Some (Fin w)" "w \<le> 10 ^ 13"
    using percentile_value [OF assms(1,2), of "Fin q"] by auto
  have "v \<le> w"
    using percentile_mono_lemma [OF assms(1) _ assms(3,4), of ml] assms(2) v(1) w(1) by (auto simp: bucket_limits_def)
  then have "MemoryAmountFromBytes (Fin v) \<le> MemoryAmountFromBytes (Fin w)"
    unfolding MemoryAmountFromBytes_def by (intro amount_mono) simp
  moreover have "0 \<le> MemoryAmountFromBytes (Fin v)" unfolding MemoryAmountFromBytes_def by (rule amount_range) simp
  moreover have "f_of_int amount_limit = Fin (10 ^ 13)" using f_of_int_exact [of amount_limit] by (simp add: amount_limit_def)
  then have "fle (Fin w) (f_of_int amount_limit)" using w(2) by simp
  from amount_mono [OF this] have "MemoryAmountFromBytes (Fin w) \<le> amount_limit"
    using amount_of_int [of amount_limit] by (simp add: MemoryAmountFromBytes_def amount_limit_def MaxResourceAmount_def)
  ultimately show ?thesis using v(1) w(1) by blast
qed

section \<open>The recommendation of a pod\<close>

definition recommend_input :: "mathLib \<Rightarrow> aggregateContainerState \<Rightarrow> bool" where
  "recommend_input ml s \<longleftrightarrow>
     history_ok s \<and> hist_ok (dh_histogram (ag_AggregateCPUUsage s)) \<and> hist_ok (dh_histogram (ag_AggregateMemoryPeaks s)) \<and>
     bucket_limits ml (h_options (dh_histogram (ag_AggregateCPUUsage s))) (10 ^ 10) \<and>
     bucket_limits ml (h_options (dh_histogram (ag_AggregateMemoryPeaks s))) (10 ^ 13)"

definition flags_ok :: "recommenderFlags \<Rightarrow> bool" where
  "flags_ok flags \<longleftrightarrow>
     (\<exists>x. rf_safetyMarginFraction flags = Fin x \<and> 0 \<le> x \<and> x \<le> 1) \<and>
     (\<exists>c. rf_podMinCPUMillicores flags = Fin c \<and> 0 \<le> c \<and> c \<le> 10 ^ 9) \<and>
     (\<exists>m. rf_podMinMemoryMb flags = Fin m \<and> 0 \<le> m \<and> m \<le> 10 ^ 9)"

definition recommendation_ordered :: "resources \<Rightarrow> recommendedContainerResources \<Rightarrow> bool" where
  "recommendation_ordered mins r \<longleftrightarrow>
     (\<forall>resource\<in>{ResourceCPU, ResourceMemory}. \<exists>lower target upper.
        mget (rc_LowerBound r) resource = Some lower \<and> mget (rc_Target r) resource = Some target \<and>
        mget (rc_UpperBound r) resource = Some upper \<and>
        mget0 0 mins resource \<le> lower \<and> lower \<le> target \<and> target \<le> upper)"

lemma percentile_constants:
  obtains p q r where "mkf (1 / 2) = Fin p" "mkf (9 / 10) = Fin q" "mkf (95 / 100) = Fin r" "0 < p" "p \<le> q" "q \<le> r"
proof -
  have "rnd (1 / 2) = 1 / 2" using rnd_dyadic [of "1 / 2"] by simp
  moreover have "rnd (1 / 2) \<le> rnd (9 / 10)" "rnd (9 / 10) \<le> rnd (95 / 100)" by (rule rnd_mono, simp)+
  ultimately show thesis
    using that [of "rnd (1 / 2)" "rnd (9 / 10)" "rnd (95 / 100)"] mkf_bounded [of "1 / 2"] mkf_bounded [of "9 / 10"] mkf_bounded [of "95 / 100"]
    by simp
qed

lemma podMinimum_nonneg:
  assumes "flags_ok flags" "0 < n" "n < 2 ^ 53"
  shows "0 \<le> mget0 0 (podMinimum flags n) resource"
proof -
  have fr: "\<exists>f. fdiv (Fin 1) (f_of_int (int n)) = Fin f"
  proof -
    have "f_of_int (int n) = Fin (of_int (int n))" using assms(3) by (intro f_of_int_exact) simp
    moreover have "(1 :: rat) / of_int (int n) \<le> 2 ^ 100"
    proof -
      have "(1 :: rat) / of_int (int n) \<le> 1" using assms(2) by (simp add: divide_le_eq)
      then show ?thesis by (rule order_trans) simp
    qed
    ultimately show ?thesis using assms(2) mkf_bounded [of "1 / of_int (int n)"] by simp
  qed
  have "0 \<le> ScaleResource a (fdiv (Fin 1) (f_of_int (int n)))" if "0 \<le> a" "a \<le> MaxResourceAmount" for a
  proof -
    have "f_of_int a = Fin (of_int a)" using that by (intro f_of_int_exact) (simp add: MaxResourceAmount_def)
    then show ?thesis using fr unfolding ScaleResource_def by (intro amount_range) auto
  qed
  moreover have "fmul (rf_podMinCPUMillicores flags) (mkf (1 / 1000)) \<noteq> NaN"
    using assms(1) mkf_bounded [of "1 / 1000"] by (auto simp: flags_ok_def)
  then have "fmul (fmul (rf_podMinCPUMillicores flags) (mkf (1 / 1000))) (Fin 1000) \<noteq> NaN"
    by (cases "fmul (rf_podMinCPUMillicores flags) (mkf (1 / 1000))") (simp_all add: finf_def)
  then have "0 \<le> CPUAmountFromCores (fmul (rf_podMinCPUMillicores flags) (mkf (1 / 1000)))"
    "CPUAmountFromCores (fmul (rf_podMinCPUMillicores flags) (mkf (1 / 1000))) \<le> MaxResourceAmount"
    unfolding CPUAmountFromCores_def by (rule amount_range)+
  moreover have "fmul (rf_podMinMemoryMb flags) (Fin 1024) \<noteq> NaN" using assms(1) by (auto simp: flags_ok_def)
  then have "fmul (fmul (rf_podMinMemoryMb flags) (Fin 1024)) (Fin 1024) \<noteq> NaN"
    by (cases "fmul (rf_podMinMemoryMb flags) (Fin 1024)") (simp_all add: finf_def)
  then have "0 \<le> MemoryAmountFromBytes (fmul (fmul (rf_podMinMemoryMb flags) (Fin 1024)) (Fin 1024))"
    "MemoryAmountFromBytes (fmul (fmul (rf_podMinMemoryMb flags) (Fin 1024)) (Fin 1024)) \<le> MaxResourceAmount"
    unfolding MemoryAmountFromBytes_def by (rule amount_range)+
  ultimately show ?thesis by (simp add: podMinimum_def Let_def mget0_def)
qed

text \<open>One container, with any minimum.\<close>

definition with_minimum :: "resources \<Rightarrow> podResourceRecommender \<Rightarrow> podResourceRecommender" where
  "with_minimum mins r = \<lparr>rr_targetEstimator = MinResourcesEstimator mins (rr_targetEstimator r),
     rr_lowerBoundEstimator = MinResourcesEstimator mins (rr_lowerBoundEstimator r),
     rr_upperBoundEstimator = MinResourcesEstimator mins (rr_upperBoundEstimator r)\<rparr>"

lemma container_recommendation_ordered:
  assumes "recommend_input ml s" "pow_law ml" "flags_ok flags" "\<And>resource. 0 \<le> mget0 0 mins resource"
  shows "\<exists>r. estimateContainerResources ml (with_minimum mins (CreatePodResourceRecommender flags)) s = Some r \<and>
    recommendation_ordered mins r"
proof -
  obtain p q r where c: "mkf (1 / 2) = Fin p" "mkf (9 / 10) = Fin q" "mkf (95 / 100) = Fin r" "0 < p" "p \<le> q" "q \<le> r"
    by (rule percentile_constants)
  have q: "0 < q" using c(4,5) by simp
  let ?ch = "dh_histogram (ag_AggregateCPUUsage s)" and ?mh = "dh_histogram (ag_AggregateMemoryPeaks s)"
  have s: "history_ok s" "hist_ok ?ch" "hist_ok ?mh" "bucket_limits ml (h_options ?ch) (10 ^ 10)" "bucket_limits ml (h_options ?mh) (10 ^ 13)"
    using assms(1) by (simp_all add: recommend_input_def)
  obtain c1 c2 c3 where cp: "Percentile ml (Fin p) ?ch = Some c1" "Percentile ml (Fin q) ?ch = Some c2" "Percentile ml (Fin r) ?ch = Some c3"
    "0 \<le> CPUAmountFromCores c1" "CPUAmountFromCores c1 \<le> CPUAmountFromCores c2" "CPUAmountFromCores c2 \<le> CPUAmountFromCores c3"
    "CPUAmountFromCores c3 \<le> amount_limit"
    using cpu_amounts [OF s(2,4) c(4,5)] cpu_amounts [OF s(2,4) q c(6)] by (metis option.inject)
  obtain m1 m2 m3 where mp: "Percentile ml (Fin p) ?mh = Some m1" "Percentile ml (Fin q) ?mh = Some m2" "Percentile ml (Fin r) ?mh = Some m3"
    "0 \<le> MemoryAmountFromBytes m1" "MemoryAmountFromBytes m1 \<le> MemoryAmountFromBytes m2" "MemoryAmountFromBytes m2 \<le> MemoryAmountFromBytes m3"
    "MemoryAmountFromBytes m3 \<le> amount_limit"
    using memory_amounts [OF s(3,5) c(4,5)] memory_amounts [OF s(3,5) q c(6)] by (metis option.inject)
  obtain x where x: "rf_safetyMarginFraction flags = Fin x" "0 \<le> x" "x \<le> 1" using assms(3) by (auto simp: flags_ok_def)
  let ?conf = "getConfidence s"
  let ?fl = "m_Pow ml (fadd (Fin 1) (fdiv (mkf (1 / 1000)) ?conf)) (Fin (- 2))"
  let ?fu = "m_Pow ml (fadd (Fin 1) (fdiv (Fin 1) ?conf)) (Fin 1)"
  have conf: "fnonneg ?conf" by (rule confidence_nonneg [OF s(1)])
  have fu: "fle (Fin 1) ?fu" using assms(2) one_plus_ge [of 1, OF _ conf] by (simp add: pow_law_def)
  have th: "mkf (1 / 1000) = Fin (rnd (1 / 1000))" "0 < rnd (1 / 1000)"
  proof -
    show "mkf (1 / 1000) = Fin (rnd (1 / 1000))" by (simp add: mkf_bounded)
    have "rnd (1 / 1024) \<le> rnd (1 / 1000)" by (rule rnd_mono) simp
    moreover have "rnd (1 / 1024) = 1 / 1024" by (rule rnd_dyadic) simp_all
    ultimately show "0 < rnd (1 / 1000)" by simp
  qed
  have "fle (Fin 1) (fadd (Fin 1) (fdiv (mkf (1 / 1000)) ?conf))" unfolding th(1) by (rule one_plus_ge [OF th(2) conf])
  then have fl: "fnonneg ?fl" "fle ?fl (Fin 1)" using assms(2) unfolding pow_law_def by blast+
  note cb = bounds_ordered [OF x cp(4-7) fl fu assms(4) [of ResourceCPU]]
  note mb = bounds_ordered [OF x mp(4-7) fl fu assms(4) [of ResourceMemory]]
  have ne: "ResourceCPU \<noteq> ResourceMemory" by (simp add: ResourceCPU_def ResourceMemory_def)
  let ?m = "rf_safetyMarginFraction flags"
  let ?e = "estimateContainerResources ml (with_minimum mins (CreatePodResourceRecommender flags)) s"
  let ?pair = "\<lambda>a b. [(ResourceCPU, at_least (mget0 0 mins ResourceCPU) a), (ResourceMemory, at_least (mget0 0 mins ResourceMemory) b)]"
  have base: "GetResourceEstimation ml s (MarginEstimator ?m (PercentileEstimator (Fin z) (Fin z))) =
      Some [(ResourceCPU, margined ?m (CPUAmountFromCores a)), (ResourceMemory, margined ?m (MemoryAmountFromBytes b))]"
    if "Percentile ml (Fin z) ?ch = Some a" "Percentile ml (Fin z) ?mh = Some b" for z a b
    using that ne by (simp add: DecayingPercentile_def each_resource_pair margined_def mget0_def)
  have "?e = Some \<lparr>
      rc_Target = ?pair (margined ?m (CPUAmountFromCores c2)) (margined ?m (MemoryAmountFromBytes m2)),
      rc_LowerBound = ?pair (ScaleResource (margined ?m (CPUAmountFromCores c1)) ?fl) (ScaleResource (margined ?m (MemoryAmountFromBytes m1)) ?fl),
      rc_UpperBound = ?pair (ScaleResource (margined ?m (CPUAmountFromCores c3)) ?fu) (ScaleResource (margined ?m (MemoryAmountFromBytes m3)) ?fu)\<rparr>"
  proof -
    have mins: "GetResourceEstimation ml s (MinResourcesEstimator mins e) = Some (?pair a b)"
      if "GetResourceEstimation ml s e = Some [(ResourceCPU, a), (ResourceMemory, b)]" for e a b
      using that by (simp add: each_resource_pair at_least_def)
    have conf: "GetResourceEstimation ml s (ConfidenceMultiplier k z e) =
        Some [(ResourceCPU, ScaleResource a (m_Pow ml (fadd (Fin 1) (fdiv k ?conf)) z)),
          (ResourceMemory, ScaleResource b (m_Pow ml (fadd (Fin 1) (fdiv k ?conf)) z))]"
      if "GetResourceEstimation ml s e = Some [(ResourceCPU, a), (ResourceMemory, b)]" for e a b k z
      using that by (simp add: each_resource_pair)
    show ?thesis
      unfolding estimateContainerResources_def with_minimum_def CreatePodResourceRecommender_def Let_def c(1-3) podResourceRecommender.simps
        mins [OF base [OF cp(2) mp(2)]] mins [OF conf [OF base [OF cp(1) mp(1)]]] mins [OF conf [OF base [OF cp(3) mp(3)]]]
      by (simp only: option.case prod.case)
  qed
  moreover have "recommendation_ordered mins \<lparr>
      rc_Target = ?pair (margined ?m (CPUAmountFromCores c2)) (margined ?m (MemoryAmountFromBytes m2)),
      rc_LowerBound = ?pair (ScaleResource (margined ?m (CPUAmountFromCores c1)) ?fl) (ScaleResource (margined ?m (MemoryAmountFromBytes m1)) ?fl),
      rc_UpperBound = ?pair (ScaleResource (margined ?m (CPUAmountFromCores c3)) ?fu) (ScaleResource (margined ?m (MemoryAmountFromBytes m3)) ?fu)\<rparr>"
    using cb mb ne unfolding recommendation_ordered_def by simp
  ultimately show ?thesis by blast
qed

text \<open>
  C15: For every container with aggregated samples the recommender returns amounts of CPU and memory with
  minimum \<le> lower bound \<le> target \<le> upper bound, the minimum being the container's share of the minimum of a pod.
  This also holds without any history, when the confidence is zero, and the factor of the upper bound infinite.
\<close>

theorem recommendation_in_order:
  assumes "gomap_ok states" "\<forall>s\<in>snd ` set states. recommend_input ml s" "length states < 2 ^ 53" "pow_law ml" "flags_ok flags"
  shows "\<exists>recs. GetRecommendedPodResources ml flags (CreatePodResourceRecommender flags) states = Some recs \<and>
    (\<forall>name s. mget states name = Some s \<longrightarrow>
       (\<exists>r. mget recs name = Some r \<and> recommendation_ordered (podMinimum flags (length states)) r))"
proof (cases "states = []")
  case True
  then show ?thesis by (simp add: GetRecommendedPodResources_def)
next
  case False
  let ?mins = "podMinimum flags (length states)"
  let ?f = "estimateContainerResources ml (with_minimum ?mins (CreatePodResourceRecommender flags))"
  have mins: "0 \<le> mget0 0 ?mins resource" for resource
    using False by (intro podMinimum_nonneg [OF assms(5) _ assms(3)]) simp
  have each: "\<exists>r. ?f s = Some r \<and> recommendation_ordered ?mins r" if "s \<in> snd ` set states" for s
    using assms(2) that by (intro container_recommendation_ordered [OF _ assms(4,5) mins]) blast
  obtain recs where recs: "ofold (\<lambda>recommendation (name, s). map_option (\<lambda>rec. mput name rec recommendation) (?f s)) [] states = Some recs"
    using recommendation_loop_total [of states ?f "[]"] each by blast
  then have "GetRecommendedPodResources ml flags (CreatePodResourceRecommender flags) states = Some recs"
    using False by (simp add: GetRecommendedPodResources_def Let_def with_minimum_def)
  moreover have "\<exists>r. mget recs name = Some r \<and> recommendation_ordered ?mins r" if "mget states name = Some s" for name s
  proof -
    have "s \<in> snd ` set states" using mget_SomeD [OF that] by force
    then show ?thesis using each recommendation_loop [OF recs assms(1) that] by force
  qed
  ultimately show ?thesis by blast
qed

text \<open>A pod with one container, whose state has aggregated two CPU samples.\<close>

lemma demo_pow_law: "pow_law demo_math"
proof -
  have m1: "mkf 1 = Fin 1" by (simp add: mkf_dyadic)
  have "fnonneg (fdiv (Fin 1) (fmul x x)) \<and> fle (fdiv (Fin 1) (fmul x x)) (Fin 1)" if "fle (Fin 1) x" for x
  proof (cases x)
    case (Fin r)
    then have "1 \<le> r * r" using that mult_mono [of 1 r 1 r] by simp
    then have "fle (Fin 1) (mkf (r * r))" using mkf_mono [of 1 "r * r"] m1 by simp
    then show ?thesis
    proof (cases "mkf (r * r)")
      case v: (Fin v)
      then have "1 \<le> v" using \<open>fle (Fin 1) (mkf (r * r))\<close> by simp
      then show ?thesis using mkf_mono [of "1 / v" 1] m1 Fin v by (simp add: fnonneg_mkf)
    qed (use Fin in \<open>simp_all add: fnonneg_def\<close>)
  qed (use that in \<open>simp_all add: finf_def fnonneg_def\<close>)
  then show ?thesis by (simp add: pow_law_def demo_math_def)
qed

definition demo_flags :: recommenderFlags where
  "demo_flags = \<lparr>rf_safetyMarginFraction = Fin (1 / 8), rf_podMinCPUMillicores = Fin 25, rf_podMinMemoryMb = Fin 250\<rparr>"

lemma demo_bucket_limits: "30 \<le> limit \<Longrightarrow> bucket_limits ml demo_options limit"
proof -
  assume limit: "30 \<le> limit"
  have b4: "b = 0 \<or> b = 1 \<or> b = 2 \<or> b = 3" if "b \<in> {0..<4}" for b :: int using that by auto
  have "fle (Fin 0) (bucket_start ml demo_options b) \<and> fle (bucket_start ml demo_options b) (Fin limit)"
    if "b \<in> {0..<NumBuckets demo_options}" for b
  proof -
    have "b = 0 \<or> b = 1 \<or> b = 2 \<or> b = 3" by (rule b4) (use that in \<open>simp add: demo_options_def\<close>)
    then show ?thesis using limit by (auto simp: demo_options_def f_of_int_def mkf_dyadic)
  qed
  moreover have "starts_ordered ml demo_options" unfolding demo_options_def by (rule linear_starts_ordered [of _ 10]) simp_all
  ultimately show ?thesis unfolding bucket_limits_def by blast
qed

lemma demo_empty_ok: "hist_ok demo_empty"
  by (rule hist_ok_New [OF demo_empty_constructed]) (simp_all add: demo_options_def flt_def)

lemma demo_recommend_input: "recommend_input demo_math (demo_aggregate demo_hist 4 9 2)"
  using demo_hist_ok demo_empty_ok demo_bucket_limits [of "10 ^ 10"] demo_bucket_limits [of "10 ^ 13"]
  by (simp add: recommend_input_def history_ok_def demo_aggregate_def demo_decaying_def in_i64_def minInt64_def maxInt64_def)
    (simp add: demo_hist_def demo_empty_def)

theorem recommendation_in_order_witness:
  "\<exists>recs r. GetRecommendedPodResources demo_math demo_flags (CreatePodResourceRecommender demo_flags)
      [(''web'', demo_aggregate demo_hist 4 9 2)] = Some recs \<and>
    mget recs ''web'' = Some r \<and> recommendation_ordered (podMinimum demo_flags 1) r"
proof -
  have "\<exists>x. Fin (1 / 8) = Fin x \<and> 0 \<le> x \<and> x \<le> 1" by (rule exI [of _ "1 / 8"]) simp
  then have "flags_ok demo_flags" unfolding flags_ok_def by (simp add: demo_flags_def)
  from recommendation_in_order [OF _ _ _ demo_pow_law this, of "[(''web'', demo_aggregate demo_hist 4 9 2)]"] demo_recommend_input
  show ?thesis by (force simp: gomap_ok_def)
qed

section \<open>No history\<close>

text \<open>
  A comment of \<open>CreatePodResourceRecommender\<close> says that without history the upper bound is infinite, so that no
  pod is evicted.  But the percentiles of empty histograms are zero, zero times infinity is not a number, and
  its conversion to an amount is the least integer, so the upper bound is the minimum.
\<close>

lemma no_history_upper_bound:
  assumes "hist_ok (dh_histogram (ag_AggregateCPUUsage s))" "empty_hist (dh_histogram (ag_AggregateCPUUsage s))"
    and "hist_ok (dh_histogram (ag_AggregateMemoryPeaks s))" "empty_hist (dh_histogram (ag_AggregateMemoryPeaks s))"
    and "ag_FirstSampleStart s = ag_LastSampleStart s" "ag_TotalSamplesCount s = 0"
    and "pow_law ml" "flags_ok flags" "\<And>resource. 0 \<le> mget0 0 mins resource"
  shows "GetResourceEstimation ml s (MinResourcesEstimator mins (rr_upperBoundEstimator (CreatePodResourceRecommender flags))) =
    Some [(ResourceCPU, mget0 0 mins ResourceCPU), (ResourceMemory, mget0 0 mins ResourceMemory)]"
proof -
  have p: "Percentile ml q (dh_histogram (ag_AggregateCPUUsage s)) = Some (Fin 0)"
    "Percentile ml q (dh_histogram (ag_AggregateMemoryPeaks s)) = Some (Fin 0)" for q
    using assms(1-4) by (simp_all add: Percentile_def IsEmpty_light)
  have z: "resourceAmountFromFloat (Fin 0) = 0" "CPUAmountFromCores (Fin 0) = 0" "MemoryAmountFromBytes (Fin 0) = 0"
    using amount_of_Fin [of 0] by (simp_all add: CPUAmountFromCores_def MemoryAmountFromBytes_def mkf_dyadic)
  obtain x where x: "rf_safetyMarginFraction flags = Fin x" using assms(8) by (auto simp: flags_ok_def)
  have f0: "f_of_int 0 = Fin 0" using f_of_int_exact [of 0] by simp
  have day: "f_of_int (hour * 24) = Fin (of_int (hour * 24))"
    by (rule f_of_int_exact) (simp add: hour_def minute_def second_def)
  have "getConfidence s = Fin 0"
    using assms(5,6) unfolding getConfidence_def Let_def day
    by (simp add: time_sub_def minInt64_def maxInt64_def f0 hour_def minute_def second_def mkf_dyadic fmin_def)
  then have f: "m_Pow ml (fadd (Fin 1) (fdiv (Fin 1) (getConfidence s))) (Fin 1) = PInf"
    using assms(7) by (simp add: pow_law_def finf_def)
  have mg: "i64 (0 + ScaleResource 0 (Fin x)) = 0" using z(1) f0 by (simp add: ScaleResource_def mkf_dyadic i64_id)
  have neg: "minInt64 < mget0 0 mins resource" for resource
    using assms(9) [of resource] by (simp add: minInt64_def)
  have "ResourceCPU \<noteq> ResourceMemory" by (simp add: ResourceCPU_def ResourceMemory_def)
  then have lookups: "mget0 0 [(ResourceCPU, a), (ResourceMemory, b)] ResourceCPU = a"
    "mget0 0 [(ResourceCPU, a), (ResourceMemory, b)] ResourceMemory = b" for a b :: int by (simp_all add: mget0_def)
  show ?thesis
    using f z mg neg x p
    by (simp add: CreatePodResourceRecommender_def Let_def DecayingPercentile_def each_resource_pair lookups ScaleResource_0_PInf)
qed

end
