(* ===== verification/VpaContainer.thy ===== *)
theory VpaContainer
  imports AggregateState
begin

text \<open>
  \<open>recommender/model/container.go\<close>: the state of one container, which passes CPU samples on to its aggregator
  and aggregates one peak of memory usage per interval, replacing the peak of the current interval when a
  larger one is seen.  The aggregator is an interface: the record of its two methods, on any type of state.
\<close>

section \<open>The state of a container\<close>

record 's sampleAggregator =
  sa_AddSample :: "containerUsageSample \<Rightarrow> 's \<Rightarrow> 's option"
  sa_SubtractSample :: "containerUsageSample \<Rightarrow> 's \<Rightarrow> 's option"

record 'a containerState =
  ct_Request :: resources
  ct_LastCPUSampleStart :: time
  ct_memoryPeak :: resourceAmount
  ct_oomPeak :: resourceAmount
  ct_WindowEnd :: time
  ct_lastMemorySampleStart :: time
  ct_aggregator :: 'a

definition OOMBumpUpRatio :: f64 where
  "OOMBumpUpRatio = mkf (12 / 10)"

definition OOMMinBumpUp :: f64 where
  "OOMMinBumpUp = Fin (100 * 1024 * 1024)"

definition NewContainerState :: "resources \<Rightarrow> 'a \<Rightarrow> 'a containerState" where
  "NewContainerState request aggregator =
     \<lparr>ct_Request = request, ct_LastCPUSampleStart = 0, ct_memoryPeak = 0, ct_oomPeak = 0, ct_WindowEnd = 0,
      ct_lastMemorySampleStart = 0, ct_aggregator = aggregator\<rparr>"

definition isValid :: "string \<Rightarrow> containerUsageSample \<Rightarrow> bool" where
  "isValid expectedResource sample \<longleftrightarrow> us_Usage sample \<ge> 0 \<and> us_Resource sample = expectedResource"

section \<open>Adding samples\<close>

text \<open>Whether the sample was aggregated, with the states afterwards.\<close>

definition addCPUSample ::
  "'s sampleAggregator \<Rightarrow> containerUsageSample \<Rightarrow> 'a containerState \<times> 's \<Rightarrow> (bool \<times> 'a containerState \<times> 's) option" where
  "addCPUSample ag sample cs =
     (case cs of (c, s) \<Rightarrow>
        if \<not> isValid ResourceCPU sample \<or> \<not> time_after (us_MeasureStart sample) (ct_LastCPUSampleStart c)
        then Some (False, c, s)
        else map_option (\<lambda>s'. (True, c\<lparr>ct_LastCPUSampleStart := us_MeasureStart sample\<rparr>, s')) (sa_AddSample ag sample s))"

definition GetMaxMemoryPeak :: "'a containerState \<Rightarrow> resourceAmount" where
  "GetMaxMemoryPeak c = ResourceAmountMax (ct_memoryPeak c) (ct_oomPeak c)"

definition truncate :: "duration \<Rightarrow> duration \<Rightarrow> duration" where
  "truncate d m = (if m \<le> 0 then d else if d < 0 then d + (- d) mod m else d - d mod m)"

definition peak_sample :: "'a containerState \<Rightarrow> resourceAmount \<Rightarrow> containerUsageSample \<Rightarrow> containerUsageSample" where
  "peak_sample c usage sample =
     \<lparr>us_MeasureStart = ct_WindowEnd c, us_Usage = usage, us_Request = us_Request sample, us_Resource = ResourceMemory\<rparr>"

definition start_window :: "time \<Rightarrow> 'a containerState \<Rightarrow> 'a containerState" where
  "start_window ts c =
     (let c1 = c\<lparr>ct_lastMemorySampleStart := ts\<rparr>
      in if ct_WindowEnd c1 = 0 then c1\<lparr>ct_WindowEnd := ts\<rparr> else c1)"

definition shift_window :: "time \<Rightarrow> 'a containerState \<Rightarrow> 'a containerState" where
  "shift_window ts c =
     (let shift = i64 (truncate (time_sub ts (ct_WindowEnd c)) MemoryAggregationInterval + MemoryAggregationInterval)
      in c\<lparr>ct_WindowEnd := time_add (ct_WindowEnd c) shift, ct_memoryPeak := 0, ct_oomPeak := 0\<rparr>)"

text \<open>The part for a peak that is not below the current one: the states after the old peak was taken back, if any.\<close>

definition make_room ::
  "'s sampleAggregator \<Rightarrow> containerUsageSample \<Rightarrow> 'a containerState \<times> 's \<Rightarrow> (bool \<times> 'a containerState \<times> 's) option" where
  "make_room ag sample cs =
     (case cs of (c, s) \<Rightarrow>
        if time_before (us_MeasureStart sample) (ct_WindowEnd c) then
          (let oldMaxMem = GetMaxMemoryPeak c
           in if oldMaxMem \<noteq> 0 \<and> us_Usage sample > oldMaxMem
              then map_option (\<lambda>s'. (True, c, s')) (sa_SubtractSample ag (peak_sample c oldMaxMem sample) s)
              else Some (False, c, s))
        else Some (True, shift_window (us_MeasureStart sample) c, s))"

definition addMemorySample ::
  "'s sampleAggregator \<Rightarrow> containerUsageSample \<Rightarrow> bool \<Rightarrow> 'a containerState \<times> 's \<Rightarrow> (bool \<times> 'a containerState \<times> 's) option" where
  "addMemorySample ag sample isOOM cs =
     (case cs of (c, s) \<Rightarrow>
        if \<not> isValid ResourceMemory sample \<or> time_before (us_MeasureStart sample) (ct_lastMemorySampleStart c)
        then Some (False, c, s)
        else
          (case make_room ag sample (start_window (us_MeasureStart sample) c, s) of
             None \<Rightarrow> None
           | Some (addNewPeak, c2, s2) \<Rightarrow>
               if addNewPeak then
                 map_option (\<lambda>s3. (True, if isOOM then c2\<lparr>ct_oomPeak := us_Usage sample\<rparr> else c2\<lparr>ct_memoryPeak := us_Usage sample\<rparr>, s3))
                   (sa_AddSample ag (peak_sample c2 (us_Usage sample) sample) s2)
               else Some (True, c2, s2)))"

datatype oomError = OOMTooOld time | OOMSampleFailed

definition RecordOOM ::
  "'s sampleAggregator \<Rightarrow> time \<Rightarrow> resourceAmount \<Rightarrow> 'a containerState \<times> 's \<Rightarrow> (oomError option \<times> 'a containerState \<times> 's) option" where
  "RecordOOM ag timestamp requestedMemory cs =
     (if time_before timestamp (time_add (ct_WindowEnd (fst cs)) (- MemoryAggregationInterval))
      then Some (Some (OOMTooOld timestamp), cs)
      else
        (let memoryUsed = ResourceAmountMax requestedMemory (ct_memoryPeak (fst cs));
             memoryNeeded = ResourceAmountMax (i64 (memoryUsed + MemoryAmountFromBytes OOMMinBumpUp)) (ScaleResource memoryUsed OOMBumpUpRatio);
             sample = \<lparr>us_MeasureStart = timestamp, us_Usage = memoryNeeded, us_Request = 0, us_Resource = ResourceMemory\<rparr>
         in map_option (\<lambda>(added, cs'). (if added then None else Some OOMSampleFailed, cs')) (addMemorySample ag sample True cs)))"

definition AddContainerSample ::
  "'s sampleAggregator \<Rightarrow> containerUsageSample \<Rightarrow> 'a containerState \<times> 's \<Rightarrow> (bool \<times> 'a containerState \<times> 's) option" where
  "AddContainerSample ag sample cs =
     (if us_Resource sample = ResourceCPU then addCPUSample ag sample cs
      else if us_Resource sample = ResourceMemory then addMemorySample ag sample False cs
      else (case cs of (c, s) \<Rightarrow> Some (False, c, s)))"

section \<open>The interface of an aggregator\<close>

text \<open>
  A client adds only samples of CPU or memory usage, and subtracts only memory samples; on them an aggregator
  does not panic, and keeps its invariant.
\<close>

definition usable_sample :: "containerUsageSample \<Rightarrow> bool" where
  "usable_sample x \<longleftrightarrow> 0 \<le> us_Usage x \<and> us_Usage x \<le> maxInt64 \<and> in_i64 (us_Request x) \<and> us_Resource x \<in> {ResourceCPU, ResourceMemory}"

text \<open>Any sample: what is not usable is discarded.\<close>

definition typed_sample :: "containerUsageSample \<Rightarrow> bool" where
  "typed_sample x \<longleftrightarrow> in_i64 (us_Usage x) \<and> in_i64 (us_Request x)"

definition peaks_in_range :: "'a containerState \<Rightarrow> bool" where
  "peaks_in_range c \<longleftrightarrow> ct_memoryPeak c \<in> {0..maxInt64} \<and> ct_oomPeak c \<in> {0..maxInt64}"

locale aggregator =
  fixes ag :: "'s sampleAggregator" and inv :: "'s \<Rightarrow> bool"
  assumes add_total: "inv s \<Longrightarrow> usable_sample x \<Longrightarrow> \<exists>s'. sa_AddSample ag x s = Some s' \<and> inv s'"
    and subtract_total: "inv s \<Longrightarrow> usable_sample x \<Longrightarrow> us_Resource x = ResourceMemory \<Longrightarrow> \<exists>s'. sa_SubtractSample ag x s = Some s' \<and> inv s'"
begin

lemma cpu_total:
  assumes "inv s" "usable_sample x"
  shows "\<exists>b c' s'. addCPUSample ag x (c, s) = Some (b, c', s') \<and> inv s' \<and> ct_memoryPeak c' = ct_memoryPeak c \<and> ct_oomPeak c' = ct_oomPeak c"
  using add_total [OF assms] assms(1) by (auto simp: addCPUSample_def)

lemma peak_sample_usable:
  "usable_sample x \<Longrightarrow> 0 \<le> usage \<Longrightarrow> usage \<le> maxInt64 \<Longrightarrow> usable_sample (peak_sample c usage x)"
  by (simp add: usable_sample_def peak_sample_def)

lemma memory_total:
  assumes "inv s" "usable_sample x" "peaks_in_range c"
  shows "\<exists>b c' s'. addMemorySample ag x isOOM (c, s) = Some (b, c', s') \<and> inv s' \<and> peaks_in_range c'"
proof -
  let ?c = "start_window (us_MeasureStart x) c"
  have c: "peaks_in_range ?c" using assms(3) by (simp add: peaks_in_range_def start_window_def Let_def)
  then have "0 \<le> GetMaxMemoryPeak ?c" "GetMaxMemoryPeak ?c \<le> maxInt64"
    by (auto simp: peaks_in_range_def GetMaxMemoryPeak_def ResourceAmountMax_def)
  from subtract_total [OF assms(1) peak_sample_usable [OF assms(2) this, of ?c]]
  obtain s1 where "sa_SubtractSample ag (peak_sample ?c (GetMaxMemoryPeak ?c) x) s = Some s1" "inv s1"
    by (auto simp: peak_sample_def)
  then have "\<exists>b c2 s2. make_room ag x (?c, s) = Some (b, c2, s2) \<and> inv s2 \<and> peaks_in_range c2"
    using c assms(1) by (auto simp: make_room_def Let_def shift_window_def peaks_in_range_def maxInt64_def)
  then obtain b c2 s2 where room: "make_room ag x (?c, s) = Some (b, c2, s2)" "inv s2" "peaks_in_range c2" by blast
  have u: "0 \<le> us_Usage x" "us_Usage x \<le> maxInt64" using assms(2) by (simp_all add: usable_sample_def)
  from add_total [OF room(2) peak_sample_usable [OF assms(2) u, of c2]]
  show ?thesis using room u assms(1,3) by (auto simp: addMemorySample_def peaks_in_range_def)
qed

lemma sample_total:
  assumes "inv s" "usable_sample x" "peaks_in_range c"
  shows "\<exists>b c' s'. AddContainerSample ag x (c, s) = Some (b, c', s') \<and> inv s' \<and> peaks_in_range c'"
  using cpu_total [OF assms(1,2), of c] memory_total [OF assms, of False] assms(1,3)
  by (auto simp: AddContainerSample_def peaks_in_range_def)

lemma typed_total:
  assumes "inv s" "typed_sample x" "peaks_in_range c"
  shows "\<exists>b c' s'. AddContainerSample ag x (c, s) = Some (b, c', s') \<and> inv s' \<and> peaks_in_range c'"
proof (cases "usable_sample x")
  case False
  then have "us_Usage x < 0 \<or> us_Resource x \<notin> {ResourceCPU, ResourceMemory}"
    using assms(2) by (auto simp: usable_sample_def typed_sample_def in_i64_def)
  then show ?thesis using assms(1,3)
    by (auto simp: AddContainerSample_def addCPUSample_def addMemorySample_def isValid_def)
qed (rule sample_total [OF assms(1) _ assms(3)])

lemma oom_total:
  assumes "inv s" "peaks_in_range c" "in_i64 requestedMemory"
  shows "\<exists>err c' s'. RecordOOM ag timestamp requestedMemory (c, s) = Some (err, c', s') \<and> inv s' \<and> peaks_in_range c'"
proof (cases "time_before timestamp (time_add (ct_WindowEnd c) (- MemoryAggregationInterval))")
  case False
  let ?used = "ResourceAmountMax requestedMemory (ct_memoryPeak c)"
  let ?needed = "ResourceAmountMax (i64 (?used + MemoryAmountFromBytes OOMMinBumpUp)) (ScaleResource ?used OOMBumpUpRatio)"
  let ?x = "\<lparr>us_MeasureStart = timestamp, us_Usage = ?needed, us_Request = 0, us_Resource = ResourceMemory\<rparr>"
  have "fmul (f_of_int ?used) OOMBumpUpRatio \<noteq> NaN"
  proof -
    obtain r where r: "OOMBumpUpRatio = Fin r" using mkf_below [of "12 / 10" 1] by (auto simp: OOMBumpUpRatio_def)
    have "\<bar>?used\<bar> \<le> 2 ^ 63" using assms(2,3)
      by (auto simp: ResourceAmountMax_def in_i64_def minInt64_def maxInt64_def peaks_in_range_def abs_le_iff)
    then obtain y where y: "f_of_int ?used = Fin y" by (rule f_of_int_i64)
    show ?thesis by (simp add: r y)
  qed
  then have "0 \<le> ScaleResource ?used OOMBumpUpRatio" "ScaleResource ?used OOMBumpUpRatio \<le> maxInt64"
    using amount_range [of "fmul (f_of_int ?used) OOMBumpUpRatio"] by (simp_all add: ScaleResource_def MaxResourceAmount_def maxInt64_def)
  then have "usable_sample ?x" using i64_range [of "?used + MemoryAmountFromBytes OOMMinBumpUp"]
    by (simp add: usable_sample_def ResourceAmountMax_def in_i64_def minInt64_def)
  then obtain b c' s' where "addMemorySample ag ?x True (c, s) = Some (b, c', s')" "inv s'" "peaks_in_range c'"
    using memory_total [OF assms(1) _ assms(2)] by blast
  then show ?thesis using False by (cases b) (simp_all add: RecordOOM_def Let_def)
qed (use assms in \<open>simp add: RecordOOM_def\<close>)

end

text \<open>A container keeps its aggregator and its request.\<close>

lemma memory_keeps_aggregator:
  assumes "addMemorySample ag x isOOM (c, s) = Some (b, c', s')"
  shows "ct_aggregator c' = ct_aggregator c \<and> ct_Request c' = ct_Request c"
  using assms by (auto simp: addMemorySample_def make_room_def start_window_def shift_window_def Let_def split: if_splits option.splits)

lemma sample_keeps_aggregator:
  assumes "AddContainerSample ag x (c, s) = Some (b, c', s')"
  shows "ct_aggregator c' = ct_aggregator c \<and> ct_Request c' = ct_Request c"
  using assms memory_keeps_aggregator [of ag x False c s b c' s']
  by (auto simp: AddContainerSample_def addCPUSample_def split: if_splits)

lemma oom_keeps_aggregator:
  assumes "RecordOOM ag t m (c, s) = Some (err, c', s')"
  shows "ct_aggregator c' = ct_aggregator c \<and> ct_Request c' = ct_Request c"
  using assms by (auto simp: RecordOOM_def Let_def dest: memory_keeps_aggregator split: if_splits)

end
