(* ===== verification/VpaPeaks.thy ===== *)
theory VpaPeaks
  imports VpaContainer
begin

text \<open>
  Memory peaks: for every sequence of samples, what a container adds to its aggregator and takes back is,
  in total, one peak per window with an accepted sample, and this peak is the largest usage of the window.
\<close>

section \<open>The log of an aggregator\<close>

datatype samplerCall = Added containerUsageSample | Subtracted containerUsageSample

definition call_log :: "samplerCall list sampleAggregator" where
  "call_log = \<lparr>sa_AddSample = (\<lambda>x calls. Some (calls @ [Added x])), sa_SubtractSample = (\<lambda>x calls. Some (calls @ [Subtracted x]))\<rparr>"

definition peak_of :: "containerUsageSample \<Rightarrow> time \<times> resourceAmount" where
  "peak_of x = (us_MeasureStart x, us_Usage x)"

text \<open>The peaks a log leaves; a peak that is subtracted must be there.\<close>

fun live_step :: "(time \<times> resourceAmount) multiset option \<Rightarrow> samplerCall \<Rightarrow> (time \<times> resourceAmount) multiset option" where
  "live_step None _ = None"
| "live_step (Some m) (Added x) = Some (add_mset (peak_of x) m)"
| "live_step (Some m) (Subtracted x) = (if peak_of x \<in># m then Some (m - {#peak_of x#}) else None)"

definition live_peaks :: "samplerCall list \<Rightarrow> (time \<times> resourceAmount) multiset option" where
  "live_peaks calls = foldl live_step (Some {#}) calls"

section \<open>The peaks there should be\<close>

text \<open>The samples that are accepted: valid, and not before an accepted one.\<close>

fun accepted :: "time \<Rightarrow> containerUsageSample list \<Rightarrow> containerUsageSample list" where
  "accepted latest [] = []"
| "accepted latest (x # xs) =
     (if isValid ResourceMemory x \<and> \<not> time_before (us_MeasureStart x) latest then x # accepted (us_MeasureStart x) xs
      else accepted latest xs)"

text \<open>The end of the window of a time, when the first sample is at \<open>w0\<close>.\<close>

definition window_end :: "time \<Rightarrow> time \<Rightarrow> time" where
  "window_end w0 t = w0 + ((t - w0) div MemoryAggregationInterval + 1) * MemoryAggregationInterval"

definition window_usages :: "containerUsageSample list \<Rightarrow> time \<Rightarrow> resourceAmount set" where
  "window_usages xs w = us_Usage ` {x \<in> set xs. window_end (us_MeasureStart (hd xs)) (us_MeasureStart x) = w}"

definition window_ends :: "containerUsageSample list \<Rightarrow> time set" where
  "window_ends xs = (\<lambda>x. window_end (us_MeasureStart (hd xs)) (us_MeasureStart x)) ` set xs"

definition expected_peaks :: "containerUsageSample list \<Rightarrow> (time \<times> resourceAmount) multiset" where
  "expected_peaks xs = image_mset (\<lambda>w. (w, Max (window_usages xs w))) (mset_set (window_ends xs))"

section \<open>Windows\<close>

lemma interval_pos: "0 < MemoryAggregationInterval"
  by (simp add: MemoryAggregationInterval_def duration_defs)

lemma window_end_bounds: "t < window_end w0 t" "window_end w0 t \<le> t + MemoryAggregationInterval"
proof -
  let ?i = MemoryAggregationInterval
  have "(t - w0) div ?i * ?i + (t - w0) mod ?i = t - w0" by (rule div_mult_mod_eq)
  moreover have "0 \<le> (t - w0) mod ?i" "(t - w0) mod ?i < ?i" using interval_pos by simp_all
  ultimately show "t < window_end w0 t" "window_end w0 t \<le> t + ?i" unfolding window_end_def distrib_right by linarith+
qed

lemma window_end_mono: "s \<le> t \<Longrightarrow> window_end w0 s \<le> window_end w0 t"
  using interval_pos by (auto simp: window_end_def intro!: mult_right_mono zdiv_mono1)

lemma window_end_unique:
  assumes "window_end w0 s = w" "t < w" "w - MemoryAggregationInterval \<le> t"
  shows "window_end w0 t = w"
proof -
  let ?i = MemoryAggregationInterval and ?k = "(s - w0) div MemoryAggregationInterval"
  have "w = w0 + ?k * ?i + ?i" using assms(1) by (simp add: window_end_def distrib_right)
  then have "0 \<le> (t - w0) - ?k * ?i" "(t - w0) - ?k * ?i < ?i" using assms(2,3) by simp_all
  moreover have "((t - w0) - ?k * ?i + ?k * ?i) div ?i = ?k + ((t - w0) - ?k * ?i) div ?i"
    using interval_pos by (intro div_mult_self1) simp
  ultimately have "(t - w0) div ?i = ?k" by (simp add: div_pos_pos_trivial)
  then show ?thesis using assms(1) by (simp add: window_end_def)
qed

text \<open>The shift of the window.\<close>

lemma shift_window_end:
  assumes "window_end w0 s = w" "w \<le> t" "t - w0 \<le> 2 ^ 62" "w0 \<le> s"
  shows "time_add w (i64 (truncate (time_sub t w) MemoryAggregationInterval + MemoryAggregationInterval)) = window_end w0 t"
proof -
  let ?i = MemoryAggregationInterval and ?k = "(s - w0) div MemoryAggregationInterval"
  have i: "0 < ?i" "?i < 2 ^ 50" by (simp_all add: MemoryAggregationInterval_def duration_defs)
  have w: "w = w0 + (?k + 1) * ?i" using assms(1) by (simp add: window_end_def)
  have "w0 < w" using window_end_bounds(1) [of s w0] assms(1,4) by simp
  then have d: "0 \<le> t - w" "t - w \<le> 2 ^ 62" using assms(2,3) by simp_all
  then have "time_sub t w = t - w" by (simp add: time_sub_def minInt64_def maxInt64_def)
  then have "truncate (time_sub t w) ?i = (t - w) div ?i * ?i"
    using i d by (simp add: truncate_def minus_mod_eq_div_mult)
  moreover have "in_i64 ((t - w) div ?i * ?i + ?i)"
  proof -
    have "0 \<le> (t - w) div ?i * ?i" using i d by (simp add: pos_imp_zdiv_nonneg_iff)
    moreover have "(t - w) div ?i * ?i \<le> t - w" using div_mult_mod_eq [of "t - w" ?i] pos_mod_sign [OF i(1), of "t - w"] by linarith
    ultimately show ?thesis using i d by (simp add: in_i64_def minInt64_def maxInt64_def)
  qed
  moreover have "(t - w0) div ?i = (?k + 1) + (t - w) div ?i"
  proof -
    have "t - w0 = t - w + (?k + 1) * ?i" using w by simp
    then show ?thesis using i(1) by (simp only: div_mult_self1 [of ?i "t - w" "?k + 1"] less_imp_neq [symmetric] not_False_eq_True)
  qed
  ultimately show ?thesis using w by (simp add: time_add_def i64_id window_end_def distrib_right)
qed

section \<open>One more sample\<close>

lemma expected_snoc_new:
  assumes "xs \<noteq> []" "window_end (us_MeasureStart (hd xs)) (us_MeasureStart x) = w" "w \<notin> window_ends xs"
  shows "expected_peaks (xs @ [x]) = add_mset (w, us_Usage x) (expected_peaks xs)"
    and "window_usages (xs @ [x]) w = {us_Usage x}"
proof -
  have none: "window_end (us_MeasureStart (hd xs)) (us_MeasureStart y) \<noteq> w" if "y \<in> set xs" for y
    using assms(3) that by (auto simp: window_ends_def)
  show u: "window_usages (xs @ [x]) w = {us_Usage x}"
    using assms(1,2) none by (auto simp: window_usages_def)
  have ends: "window_ends (xs @ [x]) = insert w (window_ends xs)" using assms(1,2) by (simp add: window_ends_def)
  have fin: "finite (window_ends xs)" by (simp add: window_ends_def)
  have same: "window_usages (xs @ [x]) v = window_usages xs v" if "v \<in> window_ends xs" for v
    using assms that by (auto simp: window_usages_def)
  have "image_mset (\<lambda>v. (v, Max (window_usages (xs @ [x]) v))) (mset_set (window_ends xs)) = expected_peaks xs"
    unfolding expected_peaks_def by (intro image_mset_cong) (simp add: same fin)
  then show "expected_peaks (xs @ [x]) = add_mset (w, us_Usage x) (expected_peaks xs)"
    unfolding expected_peaks_def [of "xs @ [x]"] ends mset_set.insert [OF fin assms(3)] by (simp add: u)
qed

lemma expected_snoc_old:
  assumes "xs \<noteq> []" "window_end (us_MeasureStart (hd xs)) (us_MeasureStart x) = w" "w \<in> window_ends xs"
  defines "m \<equiv> Max (window_usages xs w)"
  shows "(w, m) \<in># expected_peaks xs"
    and "expected_peaks (xs @ [x]) = add_mset (w, max m (us_Usage x)) (expected_peaks xs - {#(w, m)#})"
    and "Max (window_usages (xs @ [x]) w) = max m (us_Usage x)"
proof -
  have fin: "finite (window_ends xs)" "finite (window_usages xs w)" by (simp_all add: window_ends_def window_usages_def)
  have ne: "window_usages xs w \<noteq> {}" using assms(3) by (auto simp: window_usages_def window_ends_def)
  have u: "window_usages (xs @ [x]) w = insert (us_Usage x) (window_usages xs w)"
    using assms(1,2) by (auto simp: window_usages_def)
  show mx: "Max (window_usages (xs @ [x]) w) = max m (us_Usage x)"
    unfolding u m_def using fin(2) ne by (simp add: max.commute)
  have ends: "window_ends (xs @ [x]) = window_ends xs" using assms(1,2,3) by (auto simp: window_ends_def)
  let ?rest = "window_ends xs - {w}"
  have split: "mset_set (window_ends xs) = add_mset w (mset_set ?rest)"
    using fin(1) assms(3) by (simp add: mset_set.remove)
  have same: "window_usages (xs @ [x]) v = window_usages xs v" if "v \<in> ?rest" for v
    using assms(1,2) that by (auto simp: window_usages_def)
  let ?f = "\<lambda>v. (v, Max (window_usages xs v))" and ?g = "\<lambda>v. (v, Max (window_usages (xs @ [x]) v))"
  have "image_mset ?g (mset_set ?rest) = image_mset ?f (mset_set ?rest)"
    using fin(1) by (intro image_mset_cong) (simp add: same)
  then have new: "expected_peaks (xs @ [x]) = add_mset (w, max m (us_Usage x)) (image_mset ?f (mset_set ?rest))"
    unfolding expected_peaks_def [of "xs @ [x]"] ends split by (simp add: mx)
  have old: "expected_peaks xs = add_mset (w, m) (image_mset ?f (mset_set ?rest))"
    unfolding expected_peaks_def split by (simp add: m_def)
  show "(w, m) \<in># expected_peaks xs" unfolding old by simp
  show "expected_peaks (xs @ [x]) = add_mset (w, max m (us_Usage x)) (expected_peaks xs - {#(w, m)#})"
    unfolding new old by simp
qed

definition peaks_inv :: "containerUsageSample list \<Rightarrow> 'a containerState \<Rightarrow> samplerCall list \<Rightarrow> bool" where
  "peaks_inv xs c calls \<longleftrightarrow> xs \<noteq> [] \<and>
     (let w0 = us_MeasureStart (hd xs); t = us_MeasureStart (last xs)
      in 0 < w0 \<and> ct_lastMemorySampleStart c = t \<and> ct_WindowEnd c = window_end w0 t \<and>
         GetMaxMemoryPeak c = Max (window_usages xs (ct_WindowEnd c)) \<and> 0 < GetMaxMemoryPeak c \<and>
         0 \<le> ct_memoryPeak c \<and> 0 \<le> ct_oomPeak c \<and>
         live_peaks calls = Some (expected_peaks xs) \<and> (\<forall>x\<in>set xs. w0 \<le> us_MeasureStart x \<and> us_MeasureStart x \<le> t))"

lemma live_peaks_snoc:
  "live_peaks (calls @ [Added x]) = map_option (add_mset (peak_of x)) (live_peaks calls)"
  "live_peaks calls = Some m \<Longrightarrow> peak_of y \<in># m \<Longrightarrow> live_peaks (calls @ [Subtracted y]) = Some (m - {#peak_of y#})"
  by (cases "foldl live_step (Some {#}) calls"; simp add: live_peaks_def)+

definition set_peak :: "bool \<Rightarrow> resourceAmount \<Rightarrow> 'a containerState \<Rightarrow> 'a containerState" where
  "set_peak isOOM usage c = (if isOOM then c\<lparr>ct_oomPeak := usage\<rparr> else c\<lparr>ct_memoryPeak := usage\<rparr>)"

lemma peaks_first:
  assumes "isValid ResourceMemory x" "0 < us_Usage x" "0 < us_MeasureStart x" "ct_WindowEnd c = 0"
    "ct_lastMemorySampleStart c \<le> us_MeasureStart x"
  shows "\<exists>c' calls. addMemorySample call_log x isOOM (c, []) = Some (True, c', calls) \<and> peaks_inv [x] c' calls"
proof -
  let ?t = "us_MeasureStart x"
  have i: "i64 MemoryAggregationInterval = MemoryAggregationInterval"
    by (rule i64_id) (simp add: in_i64_def minInt64_def maxInt64_def MemoryAggregationInterval_def duration_defs)
  let ?c = "c\<lparr>ct_lastMemorySampleStart := ?t, ct_WindowEnd := ?t + MemoryAggregationInterval, ct_memoryPeak := 0, ct_oomPeak := 0\<rparr>"
  have "start_window ?t c = c\<lparr>ct_lastMemorySampleStart := ?t, ct_WindowEnd := ?t\<rparr>" using assms(4) by (simp add: start_window_def)
  moreover have "truncate (time_sub ?t ?t) MemoryAggregationInterval = 0"
    using interval_pos by (simp add: truncate_def time_sub_def minInt64_def maxInt64_def)
  ultimately have room: "make_room call_log x (start_window ?t c, []) = Some (True, ?c, [])"
    using i by (simp add: make_room_def time_defs shift_window_def)
  have "addMemorySample call_log x isOOM (c, []) =
      Some (True, set_peak isOOM (us_Usage x) ?c, [Added (peak_sample ?c (us_Usage x) x)])"
    using room assms(1,5) by (simp add: addMemorySample_def time_defs call_log_def set_peak_def)
  moreover have w: "window_end ?t ?t = ?t + MemoryAggregationInterval" by (simp add: window_end_def)
  have u: "window_usages [x] (?t + MemoryAggregationInterval) = {us_Usage x}" using w by (auto simp: window_usages_def)
  moreover have "expected_peaks [x] = {#(?t + MemoryAggregationInterval, us_Usage x)#}"
    using u by (simp add: expected_peaks_def window_ends_def w)
  ultimately show ?thesis using assms(2,3) w
    by (simp add: peaks_inv_def live_peaks_def peak_of_def peak_sample_def set_peak_def GetMaxMemoryPeak_def ResourceAmountMax_def)
qed

lemma peaks_next:
  assumes inv: "peaks_inv xs c calls" and x: "isValid ResourceMemory x" "0 < us_Usage x"
    "ct_lastMemorySampleStart c \<le> us_MeasureStart x" "us_MeasureStart x - us_MeasureStart (hd xs) \<le> 2 ^ 62"
  shows "\<exists>c' calls'. addMemorySample call_log x isOOM (c, calls) = Some (True, c', calls') \<and> peaks_inv (xs @ [x]) c' calls'"
proof -
  let ?t = "us_MeasureStart x" and ?w0 = "us_MeasureStart (hd xs)" and ?W = "ct_WindowEnd c" and ?s = "us_MeasureStart (last xs)"
  let ?m = "GetMaxMemoryPeak c"
  from inv [unfolded peaks_inv_def Let_def] have xs: "xs \<noteq> []" and w0: "0 < ?w0" and lst: "ct_lastMemorySampleStart c = ?s" and W: "?W = window_end ?w0 ?s"
    and m: "?m = Max (window_usages xs ?W)" "0 < ?m" and nn: "0 \<le> ct_memoryPeak c" "0 \<le> ct_oomPeak c"
    and live: "live_peaks calls = Some (expected_peaks xs)" and range: "\<forall>x\<in>set xs. ?w0 \<le> us_MeasureStart x \<and> us_MeasureStart x \<le> ?s"
    by blast+
  have s: "?w0 \<le> ?s" "?s \<le> ?t" using range xs x(3) lst by simp_all
  have Wpos: "?W \<noteq> 0" using window_end_bounds(1) [of ?s ?w0] W w0 s(1) by simp
  have Win: "?W \<in> window_ends xs" using xs W by (auto simp: window_ends_def)
  have hds: "hd (xs @ [x]) = hd xs" "last (xs @ [x]) = x" using xs by simp_all
  have range': "\<forall>y\<in>set (xs @ [x]). ?w0 \<le> us_MeasureStart y \<and> us_MeasureStart y \<le> ?t" using range s by force
  let ?c = "c\<lparr>ct_lastMemorySampleStart := ?t\<rparr>"
  have start: "start_window ?t c = ?c" using Wpos by (simp add: start_window_def)
  have gm: "GetMaxMemoryPeak ?c = ?m" by (simp add: GetMaxMemoryPeak_def)
  have valid: "isValid ResourceMemory x \<and> \<not> time_before ?t (ct_lastMemorySampleStart c)" using x by (simp add: time_defs)
  show ?thesis
  proof (cases "?t < ?W")
    case True
    have "?W - MemoryAggregationInterval \<le> ?t" using window_end_bounds(2) [of ?w0 ?s] W s(2) by simp
    then have wt: "window_end ?w0 ?t = ?W" using window_end_unique [OF W [symmetric] True] by simp
    note old = expected_snoc_old [OF xs wt Win, folded m(1)]
    show ?thesis
    proof (cases "?m < us_Usage x")
      case larger: True
      have mx: "max ?m (us_Usage x) = us_Usage x" using larger by simp
      let ?old = "peak_sample ?c ?m x" and ?new = "peak_sample ?c (us_Usage x) x"
      have "addMemorySample call_log x isOOM (c, calls) =
          Some (True, set_peak isOOM (us_Usage x) ?c, calls @ [Subtracted ?old] @ [Added ?new])"
        using valid start gm True larger m(2)
        by (simp add: addMemorySample_def make_room_def time_defs call_log_def set_peak_def)
      moreover have "live_peaks (calls @ [Subtracted ?old]) = Some (expected_peaks xs - {#(?W, ?m)#})"
        using live_peaks_snoc(2) [OF live, of ?old] old(1) by (simp add: peak_of_def peak_sample_def)
      then have "live_peaks (calls @ [Subtracted ?old] @ [Added ?new]) = Some (expected_peaks (xs @ [x]))"
        unfolding append_assoc [symmetric] live_peaks_snoc(1) using old(2) mx by (simp add: peak_of_def peak_sample_def)
      moreover have "GetMaxMemoryPeak (set_peak isOOM (us_Usage x) ?c) = us_Usage x"
        using larger by (auto simp: GetMaxMemoryPeak_def ResourceAmountMax_def set_peak_def split: if_splits)
      ultimately show ?thesis using hds wt w0 nn x(2) old(3) mx range'
        by (auto simp: peaks_inv_def Let_def set_peak_def)
    next
      case smaller: False
      have mx: "max ?m (us_Usage x) = ?m" using smaller by simp
      have "addMemorySample call_log x isOOM (c, calls) = Some (True, ?c, calls)"
        using valid start gm True smaller by (simp add: addMemorySample_def make_room_def time_defs)
      moreover have "expected_peaks (xs @ [x]) = expected_peaks xs" using old(1,2) mx by simp
      ultimately show ?thesis using hds wt w0 nn m(2) old(3) mx range' live gm
        by (auto simp: peaks_inv_def Let_def)
    qed
  next
    case False
    let ?V = "window_end ?w0 ?t"
    have V: "?W < ?V" using False window_end_bounds(1) [of ?t ?w0] by simp
    have shift: "shift_window ?t ?c = c\<lparr>ct_lastMemorySampleStart := ?t, ct_WindowEnd := ?V, ct_memoryPeak := 0, ct_oomPeak := 0\<rparr>"
      using shift_window_end [OF W [symmetric] _ x(4) s(1)] False by (simp add: shift_window_def)
    have "v \<le> ?W" if "v \<in> window_ends xs" for v
      using that range W window_end_mono [of _ ?s ?w0] by (auto simp: window_ends_def)
    then have Vn: "?V \<notin> window_ends xs" using V by force
    note new = expected_snoc_new [OF xs refl Vn]
    let ?d = "shift_window ?t ?c"
    have "addMemorySample call_log x isOOM (c, calls) =
        Some (True, set_peak isOOM (us_Usage x) ?d, calls @ [Added (peak_sample ?d (us_Usage x) x)])"
      using valid start False by (simp add: addMemorySample_def make_room_def time_defs call_log_def set_peak_def)
    moreover have "live_peaks (calls @ [Added (peak_sample ?d (us_Usage x) x)]) = Some (expected_peaks (xs @ [x]))"
      using live new(1) by (simp add: live_peaks_snoc peak_of_def peak_sample_def shift)
    ultimately show ?thesis using hds w0 nn x(2) new(2) range'
      by (auto simp: peaks_inv_def Let_def set_peak_def shift GetMaxMemoryPeak_def ResourceAmountMax_def)
  qed
qed

section \<open>Every sequence of samples\<close>

text \<open>Samples with the flag that says whether they were estimated from an out-of-memory event.\<close>

fun add_memory_samples ::
  "'s sampleAggregator \<Rightarrow> (bool \<times> containerUsageSample) list \<Rightarrow> 'a containerState \<times> 's \<Rightarrow> ('a containerState \<times> 's) option" where
  "add_memory_samples ag [] cs = Some cs"
| "add_memory_samples ag ((isOOM, x) # xs) cs =
     (case addMemorySample ag x isOOM cs of None \<Rightarrow> None | Some (_, cs') \<Rightarrow> add_memory_samples ag xs cs')"

lemma rejected_sample:
  "\<not> (isValid ResourceMemory x \<and> \<not> time_before (us_MeasureStart x) (ct_lastMemorySampleStart c)) \<Longrightarrow>
     addMemorySample ag x isOOM (c, s) = Some (False, c, s)"
  by (auto simp: addMemorySample_def)

lemma peaks_rest:
  assumes "peaks_inv done c calls" "\<forall>x\<in>snd ` set xs. 0 < us_Usage x \<and> us_MeasureStart x - us_MeasureStart (hd done) \<le> 2 ^ 62"
  shows "\<exists>c' calls'. add_memory_samples call_log xs (c, calls) = Some (c', calls') \<and>
    peaks_inv (done @ accepted (ct_lastMemorySampleStart c) (map snd xs)) c' calls'"
  using assms
proof (induction xs arbitrary: "done" c calls)
  case (Cons ox xs)
  obtain oom x where ox: "ox = (oom, x)" by force
  have ne: "done \<noteq> []" using Cons.prems(1) by (simp add: peaks_inv_def)
  show ?case
  proof (cases "isValid ResourceMemory x \<and> \<not> time_before (us_MeasureStart x) (ct_lastMemorySampleStart c)")
    case True
    have "0 < us_Usage x" "us_MeasureStart x - us_MeasureStart (hd done) \<le> 2 ^ 62" using Cons.prems(2) ox by simp_all
    moreover have "ct_lastMemorySampleStart c \<le> us_MeasureStart x" using True by (simp add: time_defs)
    ultimately obtain c1 calls1 where step: "addMemorySample call_log x oom (c, calls) = Some (True, c1, calls1)"
      and inv1: "peaks_inv (done @ [x]) c1 calls1"
      using peaks_next [OF Cons.prems(1), of x oom] True by blast
    have last1: "ct_lastMemorySampleStart c1 = us_MeasureStart x" using inv1 by (simp add: peaks_inv_def Let_def)
    have "\<exists>c' calls'. add_memory_samples call_log xs (c1, calls1) = Some (c', calls') \<and>
        peaks_inv ((done @ [x]) @ accepted (ct_lastMemorySampleStart c1) (map snd xs)) c' calls'"
      by (rule Cons.IH [OF inv1]) (use Cons.prems(2) ne in simp)
    then show ?thesis using step ox True last1 by simp
  next
    case False
    then have "accepted (ct_lastMemorySampleStart c) (map snd (ox # xs)) = accepted (ct_lastMemorySampleStart c) (map snd xs)"
      by (auto simp: ox)
    then show ?thesis using Cons.IH [OF Cons.prems(1)] Cons.prems(2) ox rejected_sample [OF False, of call_log oom calls] by simp
  qed
qed simp

text \<open>
  C11: Add any sequence of memory samples, estimated from out-of-memory events or not, to a new container; let
  their usage be positive and their times within 146 years of the first accepted.  The ones out of order are
  discarded.  Every peak the container takes back from its aggregator is one that it added and has not taken
  back, and what is left is exactly one peak for each 24-hour window with an accepted sample, counted from the first,
  with the largest usage of the window.
\<close>

theorem one_peak_per_window:
  assumes "add_memory_samples call_log xs (NewContainerState request a, []) = Some (c, calls)"
    and "\<forall>x\<in>snd ` set xs. 0 < us_Usage x \<and> 0 < us_MeasureStart x" "accepted 0 (map snd xs) = y # ys"
    and "\<forall>x\<in>snd ` set xs. us_MeasureStart x - us_MeasureStart y \<le> 2 ^ 62"
  shows "live_peaks calls = Some (expected_peaks (y # ys)) \<and>
    GetMaxMemoryPeak c = Max (window_usages (y # ys) (ct_WindowEnd c))"
proof -
  have gen: "peaks_inv (y # ys) c' calls'"
    if "add_memory_samples call_log xs (c0, []) = Some (c', calls')" "ct_WindowEnd c0 = 0" "ct_lastMemorySampleStart c0 = 0"
      "\<forall>x\<in>snd ` set xs. 0 < us_Usage x \<and> 0 < us_MeasureStart x" "accepted 0 (map snd xs) = y # ys"
      "\<forall>x\<in>snd ` set xs. us_MeasureStart x - us_MeasureStart y \<le> 2 ^ 62" for c0 :: "'a containerState" and c' calls'
    using that
  proof (induction xs)
    case (Cons ox xs)
    obtain oom x where ox: "ox = (oom, x)" by force
    show ?case
    proof (cases "isValid ResourceMemory x")
      case True
      have u: "0 < us_Usage x" "0 < us_MeasureStart x" using Cons.prems(4) ox by simp_all
      have acc: "y = x" "ys = accepted (us_MeasureStart x) (map snd xs)"
        using Cons.prems(5) ox True u by (auto simp: time_defs)
      obtain c1 calls1 where first: "addMemorySample call_log x oom (c0, []) = Some (True, c1, calls1)" "peaks_inv [x] c1 calls1"
        using peaks_first [OF True u Cons.prems(2), of oom] u Cons.prems(3) by auto
      have last1: "ct_lastMemorySampleStart c1 = us_MeasureStart x" using first(2) by (simp add: peaks_inv_def Let_def)
      have "\<forall>x'\<in>snd ` set xs. 0 < us_Usage x' \<and> us_MeasureStart x' - us_MeasureStart (hd [x]) \<le> 2 ^ 62"
        using Cons.prems(4,6) acc(1) by simp
      from peaks_rest [OF first(2) this] Cons.prems(1) ox first(1) last1 acc show ?thesis by auto
    next
      case False
      then show ?thesis using Cons ox by (simp add: rejected_sample)
    qed
  qed simp
  have "peaks_inv (y # ys) c calls" by (rule gen [OF assms(1) _ _ assms(2-4)]) (simp_all add: NewContainerState_def)
  then show ?thesis unfolding peaks_inv_def Let_def by blast
qed

text \<open>Four samples: a peak, an older one, an estimated peak, and the first of the next window.\<close>

definition demo_memory_sample :: "time \<Rightarrow> resourceAmount \<Rightarrow> containerUsageSample" where
  "demo_memory_sample t usage = \<lparr>us_MeasureStart = t, us_Usage = usage, us_Request = 0, us_Resource = ResourceMemory\<rparr>"

definition demo_memory_samples :: "(bool \<times> containerUsageSample) list" where
  "demo_memory_samples = [(False, demo_memory_sample 5 7), (False, demo_memory_sample 3 90), (True, demo_memory_sample 6 10),
     (False, demo_memory_sample (5 + MemoryAggregationInterval) 4)]"

theorem one_peak_per_window_witness:
  "\<exists>c calls. add_memory_samples call_log demo_memory_samples (NewContainerState [] (), []) = Some (c, calls) \<and>
     live_peaks calls = Some (expected_peaks [demo_memory_sample 5 7, demo_memory_sample 6 10, demo_memory_sample (5 + MemoryAggregationInterval) 4]) \<and>
     length calls = 4"
proof -
  have i: "MemoryAggregationInterval = 86400000000000" by (simp add: MemoryAggregationInterval_def duration_defs)
  have acc: "accepted 0 (map snd demo_memory_samples) =
      demo_memory_sample 5 7 # [demo_memory_sample 6 10, demo_memory_sample (5 + MemoryAggregationInterval) 4]"
    by (simp add: demo_memory_samples_def demo_memory_sample_def isValid_def time_defs i)
  obtain c calls where run: "add_memory_samples call_log demo_memory_samples (NewContainerState [] (), []) = Some (c, calls)" "length calls = 4"
    by (simp add: demo_memory_samples_def demo_memory_sample_def NewContainerState_def addMemorySample_def isValid_def time_defs
        make_room_def start_window_def shift_window_def truncate_def time_sub_def call_log_def GetMaxMemoryPeak_def ResourceAmountMax_def
        i i64_id in_i64_def minInt64_def maxInt64_def)
  have "live_peaks calls = Some (expected_peaks (demo_memory_sample 5 7 # [demo_memory_sample 6 10, demo_memory_sample (5 + MemoryAggregationInterval) 4]))"
    by (rule one_peak_per_window [OF run(1) _ acc, THEN conjunct1]) (simp_all add: demo_memory_samples_def demo_memory_sample_def i)
  with run show ?thesis by blast
qed

section \<open>Any aggregator\<close>

text \<open>What is done to the log is done to any other aggregator.\<close>

fun replay :: "'s sampleAggregator \<Rightarrow> samplerCall list \<Rightarrow> 's \<Rightarrow> 's option" where
  "replay ag [] s = Some s"
| "replay ag (Added x # calls) s = (case sa_AddSample ag x s of None \<Rightarrow> None | Some s' \<Rightarrow> replay ag calls s')"
| "replay ag (Subtracted x # calls) s = (case sa_SubtractSample ag x s of None \<Rightarrow> None | Some s' \<Rightarrow> replay ag calls s')"

lemma addMemorySample_replay:
  assumes "addMemorySample call_log x isOOM (c, []) = Some (b, c', calls)"
  shows "addMemorySample ag x isOOM (c, s) = map_option (\<lambda>s'. (b, c', s')) (replay ag calls s)"
proof (cases "isValid ResourceMemory x \<and> \<not> time_before (us_MeasureStart x) (ct_lastMemorySampleStart c)")
  case True
  then show ?thesis using assms
    by (auto simp: addMemorySample_def make_room_def call_log_def Let_def option.map_comp comp_def split: if_splits option.splits)
next
  case False
  then show ?thesis using assms rejected_sample [OF False, of call_log isOOM "[]"] rejected_sample [OF False, of ag isOOM s] by auto
qed

section \<open>A window that begins without usage\<close>

text \<open>
  Peaks replace only a peak that is not zero: when the first sample of a window has no usage, every later sample
  of that window is accepted but ignored, so the peak of the window stays zero.
\<close>

lemma zero_peak_blocks_window:
  assumes "isValid ResourceMemory x" "ct_lastMemorySampleStart c \<le> us_MeasureStart x" "us_MeasureStart x < ct_WindowEnd c"
    "0 < ct_WindowEnd c" "ct_memoryPeak c = 0" "ct_oomPeak c = 0"
  shows "addMemorySample ag x isOOM (c, s) = Some (True, c\<lparr>ct_lastMemorySampleStart := us_MeasureStart x\<rparr>, s)"
  using assms by (simp add: addMemorySample_def make_room_def start_window_def time_defs GetMaxMemoryPeak_def ResourceAmountMax_def)

end
