(* ===== verification/VpaAggregator.thy ===== *)
theory VpaAggregator
  imports VpaContainer
begin

text \<open>
  The aggregations of \<open>aggregate_container_state.go\<close> as the aggregator of a container: histograms keep their
  shape (as many weights as buckets, bounds in range) under every operation, so adding and subtracting samples
  never indexes out of range, and a container never panics whatever it is given.
\<close>

section \<open>Buckets that exist\<close>

text \<open>
  \<open>FindBucket\<close> bounds a bucket only from above, and converts a quotient of logarithms to \<open>int\<close>: that it is not
  negative rests on the logarithm.
\<close>

definition finds_buckets :: "mathLib \<Rightarrow> histogramOptions \<Rightarrow> bool" where
  "finds_buckets ml opts \<longleftrightarrow> (\<forall>x. 0 \<le> x \<and> x \<le> 2 ^ 64 \<longrightarrow> 0 \<le> FindBucket ml opts (Fin x))"

definition exp2_nonneg :: "mathLib \<Rightarrow> bool" where
  "exp2_nonneg ml \<longleftrightarrow> (\<forall>x. \<not> flt (m_Exp2 ml x) (Fin 0))"

text \<open>The logarithm of a value from one to the largest is from zero to 1000.\<close>

definition log_law :: "mathLib \<Rightarrow> bool" where
  "log_law ml \<longleftrightarrow> (\<forall>x\<ge>1. \<exists>y. m_Log ml (Fin x) = Fin y \<and> 0 \<le> y \<and> y \<le> 1000)"

lemma linear_finds_buckets: "0 < lo_numBuckets o' \<Longrightarrow> finds_buckets ml (Linear a o')"
  by (simp add: finds_buckets_def Let_def)

lemma f_int_quotient:
  assumes "0 \<le> y" "y \<le> 1000" "1 / 1024 \<le> z"
  shows "0 \<le> f_int (fdiv (Fin y) (Fin z))"
proof -
  have "y / z \<le> 1000 / (1 / 1024)" using assms by (intro frac_le) simp_all
  also have "\<dots> \<le> 2 ^ 20" by simp
  finally obtain q where q: "mkf (y / z) = Fin q" "0 \<le> q" "q \<le> 2 ^ 20"
    using mkf_below [of "y / z" 20] assms by auto
  then have "q \<le> of_int maxInt64" by (simp add: maxInt64_def)
  then show ?thesis using q assms f_int_nonneg [of "Fin q"] by (simp add: fnonneg_def)
qed

lemma exponential_finds_buckets:
  assumes "0 < xo_numBuckets o'" "xo_firstBucketSize o' = Fin f" "1 / 128 \<le> f" "xo_ratio o' = Fin q" "1 < q" "q \<le> 2"
    and "log_law ml" "m_Log ml (Fin q) = Fin b" "1 / 1024 \<le> b"
  shows "finds_buckets ml (Exponential a o')"
  unfolding finds_buckets_def
proof (intro allI impI, elim conjE)
  fix x :: rat assume x: "0 \<le> x" "x \<le> 2 ^ 64"
  obtain r where r: "mkf (q + - 1) = Fin r" "0 \<le> r" "r \<le> 1" using mkf_below [of "q + - 1" 0] assms(5,6) by auto
  have "x * r \<le> 2 ^ 64 * 1" using x r by (intro mult_mono) simp_all
  then obtain p where p: "mkf (x * r) = Fin p" "0 \<le> p" "p \<le> 2 ^ 64" using mkf_below [of "x * r" 64] x r by auto
  have "p / f \<le> 2 ^ 64 / (1 / 128)" using p assms(3) by (intro frac_le) simp_all
  also have "\<dots> = 2 ^ 71" by simp
  finally obtain d where d: "mkf (p / f) = Fin d" "0 \<le> d" "d \<le> 2 ^ 71" using mkf_below [of "p / f" 71] p assms(3) by auto
  then obtain v where v: "mkf (d + 1) = Fin v" using mkf_below [of "d + 1" 72] by auto
  have "fle (mkf 1) (mkf (d + 1))" using d by (intro mkf_mono) simp
  moreover have "mkf 1 = Fin 1" using mkf_dyadic [of 1] by simp
  ultimately have "1 \<le> v" using v by simp
  then obtain y where y: "m_Log ml (Fin v) = Fin y" "0 \<le> y" "y \<le> 1000" using assms(7) by (auto simp: log_law_def)
  have "f \<noteq> 0" using assms(3) by auto
  then have "go_log ml (Fin q) (fadd (fdiv (fmul (Fin x) (fsub (Fin q) (Fin 1))) (Fin f)) (Fin 1)) = fdiv (Fin y) (Fin b)"
    using r p d v y assms(8) by (simp add: go_log_def fsub_def)
  then show "0 \<le> FindBucket ml (Exponential a o') (Fin x)"
    using f_int_quotient [OF y(2,3) assms(9)] assms(1,2,4) by (auto simp: Let_def)
qed

section \<open>The shape of histograms\<close>

definition shaped :: "mathLib \<Rightarrow> histogram \<Rightarrow> bool" where
  "shaped ml h \<longleftrightarrow>
     (let n = NumBuckets (h_options h)
      in 0 < n \<and> length (h_bucketWeight h) = nat n \<and> finds_buckets ml (h_options h) \<and>
         0 \<le> h_minBucket h \<and> h_minBucket h < n \<and> 0 \<le> h_maxBucket h \<and> h_maxBucket h < n)"

lemma FindBucket_less: "0 < NumBuckets opts \<Longrightarrow> FindBucket ml opts v < NumBuckets opts"
  by (cases opts) (auto simp: Let_def)

lemma shaped_update:
  assumes "shaped ml h"
  shows "\<exists>h'. updateMinAndMaxBucket h = Some h' \<and> shaped ml h'"
proof -
  let ?n = "NumBuckets (h_options h)" and ?ws = "h_bucketWeight h" and ?eps = "Epsilon (h_options h)"
  obtain lo where "raise_min ?ws ?eps (?n - 1) (h_minBucket h) = Some lo" "0 \<le> lo" "lo < ?n"
    using raise_min_spec [of "h_minBucket h" "?n - 1" ?ws ?eps] assms by (auto simp: shaped_def Let_def)
  moreover obtain hi where "lower_max ?ws ?eps (h_maxBucket h) = Some hi" "0 \<le> hi" "hi < ?n"
    using lower_max_spec [of "h_maxBucket h" ?ws ?eps] assms by (auto simp: shaped_def Let_def)
  ultimately show ?thesis using assms by (auto simp: updateMinAndMaxBucket_def shaped_def Let_def)
qed

lemma shaped_bucket:
  assumes "shaped ml h" "0 \<le> x" "x \<le> 2 ^ 64"
  shows "\<exists>ws. change_at f (h_bucketWeight h) (FindBucket ml (h_options h) (Fin x)) = Some ws \<and> length ws = length (h_bucketWeight h)"
proof -
  have "0 \<le> FindBucket ml (h_options h) (Fin x)" using assms by (simp add: shaped_def finds_buckets_def Let_def)
  moreover have "FindBucket ml (h_options h) (Fin x) < NumBuckets (h_options h)"
    using assms by (intro FindBucket_less) (simp add: shaped_def Let_def)
  ultimately show ?thesis using assms(1) by (simp add: shaped_def Let_def change_at_def weight_at_def)
qed

lemma shaped_AddSample:
  assumes "shaped ml h" "0 \<le> x" "x \<le> 2 ^ 64" "\<not> flt w (Fin 0)"
  shows "\<exists>h'. AddSample ml (Fin x) w h = Some h' \<and> shaped ml h'"
proof -
  let ?b = "FindBucket ml (h_options h) (Fin x)"
  obtain ws where ws: "change_at (\<lambda>v. fadd v w) (h_bucketWeight h) ?b = Some ws" "length ws = length (h_bucketWeight h)"
    using shaped_bucket [OF assms(1-3)] by blast
  have "0 \<le> ?b" "?b < NumBuckets (h_options h)"
    using assms FindBucket_less [of "h_options h" ml "Fin x"] by (simp_all add: shaped_def finds_buckets_def Let_def)
  then show ?thesis using assms(1,4) ws by (auto simp: AddSample_def shaped_def Let_def)
qed

lemma shaped_SubtractSample:
  assumes "shaped ml h" "0 \<le> x" "x \<le> 2 ^ 64" "\<not> flt w (Fin 0)"
  shows "\<exists>h'. SubtractSample ml (Fin x) w h = Some h' \<and> shaped ml h'"
proof -
  let ?b = "FindBucket ml (h_options h) (Fin x)" and ?eps = "Epsilon (h_options h)"
  obtain ws where ws: "change_at (\<lambda>v. safeSubtract v w ?eps) (h_bucketWeight h) ?b = Some ws" "length ws = length (h_bucketWeight h)"
    using shaped_bucket [OF assms(1-3)] by blast
  have "shaped ml (h\<lparr>h_totalWeight := safeSubtract (h_totalWeight h) w ?eps, h_bucketWeight := ws\<rparr>)"
    using assms(1) ws by (simp add: shaped_def Let_def)
  from shaped_update [OF this] show ?thesis using assms(4) ws by (simp add: SubtractSample_def Let_def)
qed

lemma shaped_scale:
  assumes "shaped ml h" "\<not> flt factor (Fin 0)"
  shows "\<exists>h'. scale factor h = Some h' \<and> shaped ml h'"
proof -
  have step: "change_at (\<lambda>w. fmul w factor) ws b = Some (ws[nat b := fmul (ws ! nat b) factor])"
    if "h_minBucket h \<le> b" "b \<le> h_maxBucket h" "length ws = length (h_bucketWeight h)" for b ws
    using that assms(1) by (simp add: shaped_def Let_def weight_at_def change_at_def)
  have "\<exists>ws. ofold (change_at (\<lambda>w. fmul w factor)) (h_bucketWeight h) [h_minBucket h..h_maxBucket h] = Some ws \<and>
      length ws = length (h_bucketWeight h) \<and>
      (\<forall>i\<ge>0. ws ! nat i = (if h_minBucket h \<le> i \<and> i \<le> h_maxBucket h then fmul (h_bucketWeight h ! nat i) factor
         else h_bucketWeight h ! nat i))"
    by (rule ofold_change) (use step assms(1) in \<open>simp_all add: shaped_def Let_def\<close>)
  then obtain ws where ws: "ofold (change_at (\<lambda>w. fmul w factor)) (h_bucketWeight h) [h_minBucket h..h_maxBucket h] = Some ws"
    "length ws = length (h_bucketWeight h)" by blast
  have "shaped ml (h\<lparr>h_bucketWeight := ws, h_totalWeight := fmul (h_totalWeight h) factor\<rparr>)"
    using assms(1) ws(2) by (simp add: shaped_def Let_def)
  from shaped_update [OF this] show ?thesis using assms(2) ws(1) by (simp add: scale_def)
qed

section \<open>Decaying histograms\<close>

lemma ldexp1_nonneg: "\<not> flt (ldexp1 e) (Fin 0)"
  using not_flt [of "ldexp1 e" "Fin 0"] fnonneg_mkf [of "exp2 e"] exp2_pos [of e]
  by (simp add: ldexp1_def fnonneg_def)

lemma fmul_not_negative: "0 \<le> w \<Longrightarrow> \<not> flt f (Fin 0) \<Longrightarrow> \<not> flt (fmul (Fin w) f) (Fin 0)"
proof (cases f)
  case (Fin y)
  assume "0 \<le> w" "\<not> flt f (Fin 0)"
  then have "0 \<le> w * y" using Fin by (simp add: flt_simps)
  then show ?thesis using Fin not_flt [of "mkf (w * y)" "Fin 0"] fnonneg_mkf [of "w * y"] by (simp add: fnonneg_def)
qed (auto simp: flt_simps finf_def)

lemma shaped_with_factor:
  assumes "shaped ml (dh_histogram h)" "0 \<le> w" "exp2_nonneg ml"
    and "\<And>h w. shaped ml h \<Longrightarrow> \<not> flt w (Fin 0) \<Longrightarrow> \<exists>h'. change value w h = Some h' \<and> shaped ml h'"
  shows "\<exists>h'. with_factor ml change value (Fin w) t h = Some h' \<and> shaped ml (dh_histogram h')"
proof -
  obtain h1 where h1: "scale (ldexp1 (shift_exponent (time_round t (dh_halfLife h)) h)) (dh_histogram h) = Some h1" "shaped ml h1"
    using shaped_scale [OF assms(1) ldexp1_nonneg] by blast
  have "\<exists>h2. decayFactor ml t h = Some (factor_at ml t h2, h2) \<and> shaped ml (dh_histogram h2)"
    by (cases "time_after t (max_allowed h)") (simp_all add: decayFactor_def shiftReferenceTimestamp_def Let_def h1 assms(1))
  then obtain h2 where f: "decayFactor ml t h = Some (factor_at ml t h2, h2)" "shaped ml (dh_histogram h2)" by blast
  have "\<not> flt (factor_at ml t h2) (Fin 0)" using assms(3) by (simp add: exp2_nonneg_def factor_at_def)
  from assms(4) [OF f(2) fmul_not_negative [OF assms(2) this]] show ?thesis using f by (auto simp: with_factor_def)
qed

section \<open>Aggregations\<close>

definition aggregation_shaped :: "mathLib \<Rightarrow> aggregateContainerState \<Rightarrow> bool" where
  "aggregation_shaped ml a \<longleftrightarrow>
     exp2_nonneg ml \<and> shaped ml (dh_histogram (ag_AggregateCPUUsage a)) \<and> shaped ml (dh_histogram (ag_AggregateMemoryPeaks a))"

lemma float_of_amount:
  assumes "0 \<le> n" "n \<le> maxInt64"
  shows "\<exists>x. f_of_int n = Fin x \<and> 0 \<le> x \<and> x \<le> 2 ^ 64"
proof -
  have "(of_int n :: rat) \<le> of_int (2 ^ 64)" unfolding of_int_le_iff using assms(2) by (simp add: maxInt64_def)
  then show ?thesis using assms(1) mkf_below [of "of_int n" 64] by (auto simp: f_of_int_def)
qed

lemma cores_of_amount:
  assumes "0 \<le> n" "n \<le> maxInt64"
  shows "\<exists>x. CoresFromCPUAmount n = Fin x \<and> 0 \<le> x \<and> x \<le> 2 ^ 64"
proof -
  obtain x where x: "f_of_int n = Fin x" "0 \<le> x" "x \<le> 2 ^ 64" using float_of_amount [OF assms] by blast
  then have "x / 1000 \<le> 2 ^ 64" by simp
  then show ?thesis using x mkf_below [of "x / 1000" 64] by (auto simp: CoresFromCPUAmount_def)
qed

lemma sample_weight_positive:
  assumes "in_i64 n"
  shows "\<exists>w. fmax (CoresFromCPUAmount n) minSampleWeight = Fin w \<and> 0 \<le> w"
proof -
  obtain m where m: "minSampleWeight = Fin m" "0 \<le> m" using mkf_below [of "1 / 10" 0] by (auto simp: minSampleWeight_def)
  have "\<bar>n\<bar> \<le> 2 ^ 63" using assms by (simp add: in_i64_def minInt64_def maxInt64_def abs_le_iff)
  then obtain y where y: "f_of_int n = Fin y" by (rule f_of_int_i64)
  show ?thesis
  proof (cases "n \<le> maxInt64 \<and> 0 \<le> n")
    case True
    then obtain x where "CoresFromCPUAmount n = Fin x" "0 \<le> x" using cores_of_amount [of n] by blast
    then show ?thesis using m(2) by (auto simp: fmax_def m(1))
  next
    case False
    then have "n \<le> 0" using assms by (simp add: in_i64_def)
    then have "fle (f_of_int n) (f_of_int 0)" by (rule f_of_int_mono)
    moreover have "f_of_int 0 = Fin 0" using f_of_int_exact [of 0] by simp
    ultimately have "fle (mkf (y / 1000)) (mkf 0)" using y by (intro mkf_mono) simp
    moreover have "mkf 0 = Fin 0" using mkf_dyadic [of 0] by simp
    ultimately show ?thesis using m(2) by (cases "mkf (y / 1000)") (auto simp: fmax_def CoresFromCPUAmount_def m(1) y)
  qed
qed

definition live_aggregator :: "mathLib \<Rightarrow> aggregateContainerState sampleAggregator" where
  "live_aggregator ml = \<lparr>sa_AddSample = aggregateSample ml, sa_SubtractSample = subtractSample ml\<rparr>"

lemma aggregateSample_total:
  assumes "aggregation_shaped ml a" "usable_sample x"
  shows "\<exists>a'. aggregateSample ml x a = Some a' \<and> aggregation_shaped ml a'"
proof -
  have u: "0 \<le> us_Usage x" "us_Usage x \<le> maxInt64" "in_i64 (us_Request x)" using assms(2) by (simp_all add: usable_sample_def)
  note sh = assms(1) [unfolded aggregation_shaped_def]
  obtain c w where c: "CoresFromCPUAmount (us_Usage x) = Fin c" "0 \<le> c" "c \<le> 2 ^ 64"
    "fmax (CoresFromCPUAmount (us_Request x)) minSampleWeight = Fin w" "0 \<le> w"
    using cores_of_amount [OF u(1,2)] sample_weight_positive [OF u(3)] by blast
  obtain m where m: "BytesFromMemoryAmount (us_Usage x) = Fin m" "0 \<le> m" "m \<le> 2 ^ 64"
    using float_of_amount [OF u(1,2)] by (auto simp: BytesFromMemoryAmount_def)
  have "\<exists>h. DecayingAddSample ml (Fin c) (Fin w) (us_MeasureStart x) (ag_AggregateCPUUsage a) = Some h \<and> shaped ml (dh_histogram h)"
    unfolding DecayingAddSample_def by (rule shaped_with_factor) (use sh c shaped_AddSample in auto)
  moreover have "\<exists>h. DecayingAddSample ml (Fin m) (Fin 1) (us_MeasureStart x) (ag_AggregateMemoryPeaks a) = Some h \<and> shaped ml (dh_histogram h)"
    unfolding DecayingAddSample_def by (rule shaped_with_factor) (use sh m shaped_AddSample in auto)
  ultimately show ?thesis using assms c m
    by (auto simp: aggregateSample_def aggregateCPUSample_def Let_def aggregation_shaped_def usable_sample_def)
qed

lemma subtractSample_total:
  assumes "aggregation_shaped ml a" "usable_sample x" "us_Resource x = ResourceMemory"
  shows "\<exists>a'. subtractSample ml x a = Some a' \<and> aggregation_shaped ml a'"
proof -
  have u: "0 \<le> us_Usage x" "us_Usage x \<le> maxInt64" using assms(2) by (simp_all add: usable_sample_def)
  note sh = assms(1) [unfolded aggregation_shaped_def]
  obtain m where m: "BytesFromMemoryAmount (us_Usage x) = Fin m" "0 \<le> m" "m \<le> 2 ^ 64"
    using float_of_amount [OF u] by (auto simp: BytesFromMemoryAmount_def)
  have "\<exists>h. DecayingSubtractSample ml (Fin m) (Fin 1) (us_MeasureStart x) (ag_AggregateMemoryPeaks a) = Some h \<and> shaped ml (dh_histogram h)"
    unfolding DecayingSubtractSample_def by (rule shaped_with_factor) (use sh m shaped_SubtractSample in auto)
  then show ?thesis using assms m by (auto simp: subtractSample_def aggregation_shaped_def)
qed

interpretation live: aggregator "live_aggregator ml" "aggregation_shaped ml" for ml
  by unfold_locales (simp_all add: live_aggregator_def aggregateSample_total subtractSample_total)

section \<open>Every sequence of samples\<close>

fun add_container_samples ::
  "'s sampleAggregator \<Rightarrow> containerUsageSample list \<Rightarrow> 'a containerState \<times> 's \<Rightarrow> (bool list \<times> 'a containerState \<times> 's) option" where
  "add_container_samples ag [] cs = Some ([], cs)"
| "add_container_samples ag (x # xs) cs =
     (case AddContainerSample ag x cs of
        None \<Rightarrow> None
      | Some (b, cs') \<Rightarrow> map_option (\<lambda>(bs, cs''). (b # bs, cs'')) (add_container_samples ag xs cs'))"

text \<open>
  A new container never panics, and the histograms of its aggregation keep their shape: given any sequence of
  samples with usages and requests in the range of their type, whatever their times, order, signs and resources,
  each sample is accepted or refused, if \<open>math.Exp2\<close> is not negative and \<open>math.Log\<close> never yields a negative bucket.
\<close>

theorem container_samples_never_panic:
  assumes "aggregation_shaped ml a" "\<forall>x\<in>set xs. typed_sample x"
  shows "\<exists>bs c' a'. add_container_samples (live_aggregator ml) xs (NewContainerState request ref, a) = Some (bs, c', a') \<and>
    length bs = length xs \<and> aggregation_shaped ml a'"
proof -
  have gen: "\<exists>bs c' a'. add_container_samples (live_aggregator ml) xs (c, a) = Some (bs, c', a') \<and>
      length bs = length xs \<and> aggregation_shaped ml a'"
    if "aggregation_shaped ml a" "\<forall>x\<in>set xs. typed_sample x" "peaks_in_range c" for c :: "'a containerState" and a
    using that
  proof (induction xs arbitrary: c a)
    case (Cons x xs)
    obtain b c1 a1 where step: "AddContainerSample (live_aggregator ml) x (c, a) = Some (b, c1, a1)"
      "aggregation_shaped ml a1" "peaks_in_range c1"
      using live.typed_total [OF Cons.prems(1) _ Cons.prems(3), of x] Cons.prems(2) by auto
    from Cons.IH [OF step(2) _ step(3)] Cons.prems(2) step(1) show ?case by fastforce
  qed simp
  show ?thesis by (rule gen [OF assms]) (simp add: NewContainerState_def peaks_in_range_def maxInt64_def)
qed

lemma demo_aggregation_shaped: "aggregation_shaped demo_math (demo_aggregate demo_empty 0 0 0)"
proof -
  have "shaped demo_math demo_empty" using linear_finds_buckets [of "\<lparr>lo_numBuckets = 4, lo_bucketSize = Fin 10, lo_epsilon = Fin (1 / 8)\<rparr>" demo_math 0]
    by (simp add: shaped_def Let_def demo_empty_def demo_options_def)
  moreover have "exp2_nonneg demo_math"
    unfolding exp2_nonneg_def using ldexp1_nonneg by (simp add: demo_math_def flt_simps split: f64.split)
  ultimately show ?thesis by (simp add: aggregation_shaped_def demo_aggregate_def demo_decaying_def)
qed

definition demo_any_samples :: "containerUsageSample list" where
  "demo_any_samples = [demo_cpu_sample 9 15000 1000, demo_cpu_sample 4 25000 (- 7),
     \<lparr>us_MeasureStart = 5, us_Usage = 7, us_Request = 0, us_Resource = ResourceMemory\<rparr>,
     \<lparr>us_MeasureStart = - 3, us_Usage = - 900, us_Request = 0, us_Resource = ResourceMemory\<rparr>,
     \<lparr>us_MeasureStart = 6, us_Usage = 10, us_Request = 0, us_Resource = ResourceMemory\<rparr>]"

theorem container_samples_never_panic_witness:
  "\<exists>bs c' a'. add_container_samples (live_aggregator demo_math) demo_any_samples
      (NewContainerState [] (), demo_aggregate demo_empty 0 0 0) = Some (bs, c', a') \<and> length bs = length demo_any_samples \<and>
      aggregation_shaped demo_math a'"
  by (rule container_samples_never_panic [OF demo_aggregation_shaped])
    (simp add: demo_any_samples_def demo_cpu_sample_def typed_sample_def in_i64_def minInt64_def maxInt64_def)

end
