(* ===== verification/VpaApi.thy ===== *)
theory VpaApi
  imports VpaTypes GoStrings "HOL-Library.Product_Lexorder"
begin

text \<open>
  The objects of the vertical pod autoscaler's API (\<open>apis/autoscaling.k8s.io/v1beta1/types.go\<close>), and
  \<open>utils/vpa/api.go\<close>: which autoscaler object controls a pod, its update mode, and its policy for a container.
  Pods have the fields that the autoscaler reads.  \<open>LabelSelectorAsSelector\<close> of the API machinery is the
  parameter \<open>as_selector\<close>: an error, or the string of the selector with the label sets it matches.
\<close>

section \<open>Pods\<close>

type_synonym labels = "(string, string) gomap"
type_synonym selector = "string \<times> (labels \<Rightarrow> bool)"

record ownerReference =
  or_Kind :: string
  or_Name :: string
  or_Controller :: "bool option"

record terminatedState =
  ts_Reason :: string
  ts_StartedAt :: time
  ts_FinishedAt :: time

record vpaContainer =
  vn_Name :: string
  vn_Requests :: resourceList
  vn_Limits :: resourceList

record vpaPod =
  vp_Namespace :: string
  vp_Name :: string
  vp_Labels :: labels
  vp_OwnerReferences :: "ownerReference list"
  vp_DeletionTimestamp :: "time option"
  vp_Containers :: "vpaContainer list"
  vp_Phase :: string
  vp_StartTime :: "time option"
  vp_LastTerminated :: "terminatedState option list"

section \<open>Autoscaler objects\<close>

definition UpdateModeOff :: string where "UpdateModeOff = ''Off''"
definition UpdateModeInitial :: string where "UpdateModeInitial = ''Initial''"
definition UpdateModeRecreate :: string where "UpdateModeRecreate = ''Recreate''"
definition UpdateModeAuto :: string where "UpdateModeAuto = ''Auto''"

definition DefaultContainerResourcePolicy :: string where
  "DefaultContainerResourcePolicy = ''*''"

record containerResourcePolicy =
  cp_ContainerName :: string
  cp_Mode :: "string option"
  cp_MinAllowed :: resourceList
  cp_MaxAllowed :: resourceList

record podResourcePolicy =
  pp_ContainerPolicies :: "containerResourcePolicy list"

record recommendedContainer =
  re_ContainerName :: string
  re_Target :: resourceList
  re_LowerBound :: resourceList
  re_UpperBound :: resourceList
  re_UncappedTarget :: resourceList

record recommendedPodResources =
  rp_ContainerRecommendations :: "recommendedContainer list"

record vpaCondition =
  co_Type :: string
  co_Status :: string
  co_LastTransitionTime :: time
  co_Reason :: string
  co_Message :: string

record 'sel apiVpa =
  va_Namespace :: string
  va_Name :: string
  va_CreationTimestamp :: time
  va_Selector :: 'sel
  va_UpdatePolicy :: "string option option"
  va_ResourcePolicy :: "podResourcePolicy option"
  va_Recommendation :: "recommendedPodResources option"
  va_Conditions :: "vpaCondition list"

type_synonym 'sel vpa_selector = "'sel \<Rightarrow> string + selector"

section \<open>Which autoscaler object controls a pod\<close>

definition PodMatchesVPA :: "'sel vpa_selector \<Rightarrow> vpaPod \<Rightarrow> 'sel apiVpa \<Rightarrow> bool" where
  "PodMatchesVPA as_sel pod vpa =
     (if vp_Namespace pod \<noteq> va_Namespace vpa then False
      else case as_sel (va_Selector vpa) of Inl _ \<Rightarrow> False | Inr (_, matches) \<Rightarrow> matches (vp_Labels pod))"

definition stronger :: "'sel apiVpa \<Rightarrow> 'sel apiVpa option \<Rightarrow> bool" where
  "stronger a b =
     (case b of
        None \<Rightarrow> True
      | Some b \<Rightarrow>
          if va_CreationTimestamp a \<noteq> va_CreationTimestamp b then time_before (va_CreationTimestamp a) (va_CreationTimestamp b)
          else va_Name a < va_Name b)"

definition GetControllingVPAForPod :: "'sel vpa_selector \<Rightarrow> vpaPod \<Rightarrow> 'sel apiVpa list \<Rightarrow> 'sel apiVpa option" where
  "GetControllingVPAForPod as_sel pod vpas =
     foldl (\<lambda>controlling vpa. if PodMatchesVPA as_sel pod vpa \<and> stronger vpa controlling then Some vpa else controlling) None vpas"

definition GetUpdateMode :: "'sel apiVpa \<Rightarrow> string" where
  "GetUpdateMode vpa =
     (case va_UpdatePolicy vpa of
        Some (Some mode) \<Rightarrow> if mode = '''' then UpdateModeAuto else mode
      | _ \<Rightarrow> UpdateModeAuto)"

fun find_policy :: "string \<Rightarrow> containerResourcePolicy option \<Rightarrow> containerResourcePolicy list \<Rightarrow> containerResourcePolicy option" where
  "find_policy containerName defaultPolicy [] = defaultPolicy"
| "find_policy containerName defaultPolicy (p # ps) =
     (if cp_ContainerName p = containerName then Some p
      else find_policy containerName (if cp_ContainerName p = DefaultContainerResourcePolicy then Some p else defaultPolicy) ps)"

definition GetContainerResourcePolicy :: "string \<Rightarrow> podResourcePolicy option \<Rightarrow> containerResourcePolicy option" where
  "GetContainerResourcePolicy containerName policy =
     (case policy of None \<Rightarrow> None | Some p \<Rightarrow> find_policy containerName None (pp_ContainerPolicies p))"

section \<open>The controlling object is the first created\<close>

text \<open>The first created of a list; of several with the same time and name the one that comes first.\<close>

definition vpa_age :: "'sel apiVpa \<Rightarrow> time \<times> string" where
  "vpa_age v = (va_CreationTimestamp v, va_Name v)"

definition first_created :: "'sel apiVpa list \<Rightarrow> 'sel apiVpa option" where
  "first_created vpas = (case sort_key vpa_age vpas of [] \<Rightarrow> None | v # _ \<Rightarrow> Some v)"

lemma stronger_iff: "stronger a (Some b) \<longleftrightarrow> vpa_age a < vpa_age b"
  by (auto simp: stronger_def vpa_age_def time_before_def less_prod_def)

lemma first_created_Cons:
  "first_created (v # vs) = (case first_created vs of None \<Rightarrow> Some v | Some w \<Rightarrow> Some (if vpa_age v \<le> vpa_age w then v else w))"
  by (simp add: first_created_def split: list.splits)

lemma controlling_spec:
  "foldl (\<lambda>controlling vpa. if P vpa \<and> stronger vpa controlling then Some vpa else controlling) c vpas =
     (case first_created (filter P vpas) of None \<Rightarrow> c | Some w \<Rightarrow> if stronger w c then Some w else c)"
proof (induction vpas arbitrary: c)
  case Nil
  show ?case by (simp add: first_created_def)
next
  case (Cons v vpas)
  show ?case
  proof (cases "P v")
    case True
    then show ?thesis
      by (cases "first_created (filter P vpas)"; cases c)
        (auto simp: Cons first_created_Cons stronger_iff stronger_def [of _ None] not_less not_le
           dest: less_trans le_less_trans less_le_trans order_trans)
  qed (simp add: Cons)
qed

lemma controlling_vpa:
  "GetControllingVPAForPod as_sel pod vpas = first_created (filter (PodMatchesVPA as_sel pod) vpas)"
  unfolding GetControllingVPAForPod_def controlling_spec by (simp add: stronger_def split: option.splits)

lemma first_created_member: "first_created vs = Some v \<Longrightarrow> v \<in> set vs"
proof (cases "sort_key vpa_age vs")
  case (Cons w ws)
  assume "first_created vs = Some v"
  moreover have "w \<in> set vs" using set_sort [of vpa_age vs] Cons by (metis list.set_intros(1))
  ultimately show ?thesis using Cons by (simp add: first_created_def)
qed (simp add: first_created_def)

text \<open>
  The object that controls a pod is the one that was created first, equal times being ordered by name, of
  those that match it; there is none only if none matches.
\<close>

theorem controlling_vpa_is_first:
  "GetControllingVPAForPod as_sel pod vpas = first_created (filter (PodMatchesVPA as_sel pod) vpas)"
  by (rule controlling_vpa)

lemma find_policy_spec:
  "find_policy c d ps = (case find (\<lambda>p. cp_ContainerName p = c) ps of
     Some p \<Rightarrow> Some p
   | None \<Rightarrow> (case find (\<lambda>p. cp_ContainerName p = DefaultContainerResourcePolicy) (rev ps) of Some p \<Rightarrow> Some p | None \<Rightarrow> d))"
proof (induction ps arbitrary: d)
  case (Cons p ps)
  have "find P (xs @ [x]) = (case find P xs of Some y \<Rightarrow> Some y | None \<Rightarrow> if P x then Some x else None)"    for P xs and x :: containerResourcePolicy
    by (induction xs) auto
  then show ?case using Cons by (auto split: option.splits)
qed simp

end
