(* ===== verification/VpaCluster.thy ===== *)
theory VpaCluster
  imports VpaAggregator VpaApi
begin

text \<open>
  \<open>recommender/model/vpa.go\<close>, \<open>recommender/model/cluster.go\<close> and the proxy of \<open>aggregate_container_state.go\<close>: the
  state of the recommender.  Aggregations are shared by the cluster, the autoscaler objects and the containers, so
  they are the cells of a heap and a pointer is the index of a cell.  The string of a label set is the parameter
  \<open>label_string\<close>, the parsing of selectors the parameter \<open>as_sel\<close>; operations that panic return \<open>None\<close>.
\<close>

section \<open>The state\<close>

text \<open>The key of an aggregation; the pointer to the one map of label sets is left out.\<close>

record aggregateStateKey =
  ak_namespace :: string
  ak_containerName :: string
  ak_labelSetKey :: string

type_synonym address = nat
type_synonym aggregationMap = "(aggregateStateKey, address) gomap"
type_synonym labelSetMap = "(string, labels) gomap"
type_synonym vpaConditionsMap = "(string, vpaCondition) gomap"

record vpa =
  vs_ID :: vpaID
  vs_PodSelector :: "selector option"
  vs_Conditions :: vpaConditionsMap
  vs_Recommendation :: "recommendedPodResources option"
  vs_aggregateContainerStates :: aggregationMap
  vs_ResourcePolicy :: "podResourcePolicy option"
  vs_ContainersInitialAggregateState :: "(string, address) gomap"
  vs_UpdateMode :: "string option"
  vs_Created :: time
  vs_CheckpointWritten :: time

text \<open>What implements the aggregator of a container: a proxy, or an aggregation itself.\<close>

datatype aggregatorRef = Proxy containerID | Aggregation address

record podState =
  ps_ID :: podID
  ps_labelSetKey :: string
  ps_Containers :: "(string, aggregatorRef containerState) gomap"
  ps_Phase :: string

record 'sel clusterState =
  cl_Pods :: "(podID, podState) gomap"
  cl_Vpas :: "(vpaID, vpa) gomap"
  cl_ObservedVpas :: "'sel apiVpa list"
  cl_aggregateStateMap :: aggregationMap
  cl_labelSetMap :: labelSetMap
  cl_heap :: "aggregateContainerState list"

definition NewClusterState :: "'sel clusterState" where
  "NewClusterState = \<lparr>cl_Pods = [], cl_Vpas = [], cl_ObservedVpas = [], cl_aggregateStateMap = [], cl_labelSetMap = [], cl_heap = []\<rparr>"

datatype errorKey = PodKey podID | ContainerKey containerID | NameKey string | VpaKey vpaID

datatype clusterError = KeyError errorKey | SampleDiscarded | OOMFailed containerID oomError | SelectorError string

section \<open>Autoscaler objects\<close>

text \<open>The time of \<open>metav1.Now\<close> is the parameter \<open>now\<close>.\<close>

definition SetCondition :: "time \<Rightarrow> string \<Rightarrow> bool \<Rightarrow> string \<Rightarrow> string \<Rightarrow> vpaConditionsMap \<Rightarrow> vpaConditionsMap" where
  "SetCondition now conditionType status reason message conditions =
     (let newStatus = (if status then ''True'' else ''False'')
      in mput conditionType \<lparr>co_Type = conditionType, co_Status = newStatus,
           co_LastTransitionTime =
             (case mget conditions conditionType of
                Some old \<Rightarrow> if co_Status old = newStatus then co_LastTransitionTime old else now
              | None \<Rightarrow> now),
           co_Reason = reason, co_Message = message\<rparr> conditions)"

definition AsList :: "vpaConditionsMap \<Rightarrow> vpaCondition list" where
  "AsList conditions = sort_key co_Type (map snd conditions)"

definition NewVpa :: "vpaID \<Rightarrow> selector option \<Rightarrow> time \<Rightarrow> vpa" where
  "NewVpa vid sel created =
     \<lparr>vs_ID = vid, vs_PodSelector = sel, vs_Conditions = [], vs_Recommendation = None, vs_aggregateContainerStates = [],
      vs_ResourcePolicy = None, vs_ContainersInitialAggregateState = [], vs_UpdateMode = None, vs_Created = created,
      vs_CheckpointWritten = 0\<rparr>"

definition UsesAggregation :: "aggregateStateKey \<Rightarrow> vpa \<Rightarrow> bool" where
  "UsesAggregation key v \<longleftrightarrow> mget (vs_aggregateContainerStates v) key \<noteq> None"

definition key_labels :: "labelSetMap \<Rightarrow> aggregateStateKey \<Rightarrow> labels" where
  "key_labels lsm key = mget0 [] lsm (ak_labelSetKey key)"

definition matchesAggregation :: "labelSetMap \<Rightarrow> vpa \<Rightarrow> aggregateStateKey \<Rightarrow> bool" where
  "matchesAggregation lsm v key =
     (if vid_Namespace (vs_ID v) \<noteq> ak_namespace key then False
      else case vs_PodSelector v of None \<Rightarrow> False | Some (_, matches) \<Rightarrow> matches (key_labels lsm key))"

definition UseAggregationIfMatching :: "labelSetMap \<Rightarrow> aggregateStateKey \<Rightarrow> address \<Rightarrow> vpa \<Rightarrow> vpa" where
  "UseAggregationIfMatching lsm key a v =
     (if \<not> UsesAggregation key v \<and> matchesAggregation lsm v key
      then v\<lparr>vs_aggregateContainerStates := mput key a (vs_aggregateContainerStates v)\<rparr> else v)"

definition DeleteAggregation :: "aggregateStateKey \<Rightarrow> vpa \<Rightarrow> vpa" where
  "DeleteAggregation key v = v\<lparr>vs_aggregateContainerStates := mdel key (vs_aggregateContainerStates v)\<rparr>"

definition HasRecommendation :: "vpa \<Rightarrow> bool" where
  "HasRecommendation v \<longleftrightarrow>
     (case vs_Recommendation v of None \<Rightarrow> False | Some r \<Rightarrow> length (rp_ContainerRecommendations r) > 0)"

section \<open>Merging the aggregations of an object\<close>

text \<open>
  Merging may move the reference time of the aggregation that is merged, so the heap changes.  The maps
  that result hold aggregations of their own.
\<close>

type_synonym containerAggregations = "(string, aggregateContainerState) gomap"

definition merge_into ::
  "mathLib \<Rightarrow> string \<Rightarrow> address \<Rightarrow> aggregateContainerState list \<times> containerAggregations \<Rightarrow>
     (aggregateContainerState list \<times> containerAggregations) option" where
  "merge_into ml containerName a hm =
     (case hm of (heap, m) \<Rightarrow>
        (case (case mget m containerName of Some s \<Rightarrow> Some s | None \<Rightarrow> NewAggregateContainerState ml) of
           None \<Rightarrow> None
         | Some s \<Rightarrow>
             map_option (\<lambda>(other, s'). (heap[a := other], mput containerName s' m)) (MergeContainerState (heap ! a) s)))"

definition AggregateStateByContainerName ::
  "mathLib \<Rightarrow> aggregationMap \<Rightarrow> aggregateContainerState list \<Rightarrow> (aggregateContainerState list \<times> containerAggregations) option" where
  "AggregateStateByContainerName ml aggregations heap =
     ofold (\<lambda>hm (key, a). merge_into ml (ak_containerName key) a hm) (heap, []) aggregations"

definition MergeCheckpointedState ::
  "mathLib \<Rightarrow> vpa \<Rightarrow> aggregateContainerState list \<times> containerAggregations \<Rightarrow>
     (aggregateContainerState list \<times> containerAggregations) option" where
  "MergeCheckpointedState ml v hm =
     ofold (\<lambda>hm (containerName, a). merge_into ml containerName a hm) hm (vs_ContainersInitialAggregateState v)"

definition VpaAggregateState ::
  "mathLib \<Rightarrow> vpa \<Rightarrow> aggregateContainerState list \<Rightarrow> (aggregateContainerState list \<times> containerAggregations) option" where
  "VpaAggregateState ml v heap =
     (case AggregateStateByContainerName ml (vs_aggregateContainerStates v) heap of
        None \<Rightarrow> None | Some hm \<Rightarrow> MergeCheckpointedState ml v hm)"

section \<open>Finding the aggregation of a container\<close>

definition MakeAggregateStateKey :: "podState \<Rightarrow> string \<Rightarrow> aggregateStateKey" where
  "MakeAggregateStateKey pod containerName =
     \<lparr>ak_namespace = pid_Namespace (ps_ID pod), ak_containerName = containerName, ak_labelSetKey = ps_labelSetKey pod\<rparr>"

definition aggregateStateKeyForContainerID :: "containerID \<Rightarrow> 'sel clusterState \<Rightarrow> aggregateStateKey option" where
  "aggregateStateKeyForContainerID cid c =
     map_option (\<lambda>pod. MakeAggregateStateKey pod (cid_ContainerName cid)) (mget (cl_Pods c) (cid_PodID cid))"

definition change_vpas :: "(vpa \<Rightarrow> vpa) \<Rightarrow> (vpaID, vpa) gomap \<Rightarrow> (vpaID, vpa) gomap" where
  "change_vpas f vpas = map (\<lambda>(k, v). (k, f v)) vpas"

definition findOrCreateAggregateContainerState ::
  "mathLib \<Rightarrow> containerID \<Rightarrow> 'sel clusterState \<Rightarrow> (address \<times> 'sel clusterState) option" where
  "findOrCreateAggregateContainerState ml cid c =
     (case aggregateStateKeyForContainerID cid c of
        None \<Rightarrow> None
      | Some key \<Rightarrow>
          (case mget (cl_aggregateStateMap c) key of
             Some a \<Rightarrow> Some (a, c)
           | None \<Rightarrow>
               map_option (\<lambda>s. let a = length (cl_heap c)
                   in (a, c\<lparr>cl_heap := cl_heap c @ [s], cl_aggregateStateMap := mput key a (cl_aggregateStateMap c),
                        cl_Vpas := change_vpas (UseAggregationIfMatching (cl_labelSetMap c) key a) (cl_Vpas c)\<rparr>))
                 (NewAggregateContainerState ml)))"

definition resolve :: "mathLib \<Rightarrow> aggregatorRef \<Rightarrow> 'sel clusterState \<Rightarrow> (address \<times> 'sel clusterState) option" where
  "resolve ml ref c = (case ref of Proxy cid \<Rightarrow> findOrCreateAggregateContainerState ml cid c | Aggregation a \<Rightarrow> Some (a, c))"

definition change_aggregation ::
  "(aggregateContainerState \<Rightarrow> aggregateContainerState option) \<Rightarrow> address \<times> 'sel clusterState \<Rightarrow> 'sel clusterState option" where
  "change_aggregation f ac =
     (case ac of (a, c) \<Rightarrow> map_option (\<lambda>s. c\<lparr>cl_heap := (cl_heap c)[a := s]\<rparr>) (f (cl_heap c ! a)))"

definition aggregator_of :: "mathLib \<Rightarrow> aggregatorRef \<Rightarrow> 'sel clusterState sampleAggregator" where
  "aggregator_of ml ref =
     \<lparr>sa_AddSample = (\<lambda>sample c. Option.bind (resolve ml ref c) (change_aggregation (aggregateSample ml sample))),
      sa_SubtractSample = (\<lambda>sample c. Option.bind (resolve ml ref c) (change_aggregation (subtractSample ml sample)))\<rparr>"

section \<open>Pods and containers\<close>

definition getLabelSetKey :: "(labels \<Rightarrow> string) \<Rightarrow> labels \<Rightarrow> 'sel clusterState \<Rightarrow> string \<times> 'sel clusterState" where
  "getLabelSetKey label_string labelSet c =
     (let k = label_string labelSet in (k, c\<lparr>cl_labelSetMap := mput k labelSet (cl_labelSetMap c)\<rparr>))"

definition newPod :: "podID \<Rightarrow> podState" where
  "newPod pid = \<lparr>ps_ID = pid, ps_labelSetKey = '''', ps_Containers = [], ps_Phase = ''''\<rparr>"

definition change_pod :: "podID \<Rightarrow> (podState \<Rightarrow> podState) \<Rightarrow> 'sel clusterState \<Rightarrow> 'sel clusterState" where
  "change_pod pid f c =
     (case mget (cl_Pods c) pid of None \<Rightarrow> c | Some pod \<Rightarrow> c\<lparr>cl_Pods := mput pid (f pod) (cl_Pods c)\<rparr>)"

definition change_container ::
  "podID \<Rightarrow> string \<Rightarrow> (aggregatorRef containerState \<Rightarrow> aggregatorRef containerState) \<Rightarrow> 'sel clusterState \<Rightarrow> 'sel clusterState" where
  "change_container pid name f =
     change_pod pid (\<lambda>pod. case mget (ps_Containers pod) name of
        None \<Rightarrow> pod | Some ct \<Rightarrow> pod\<lparr>ps_Containers := mput name (f ct) (ps_Containers pod)\<rparr>)"

definition link_container :: "mathLib \<Rightarrow> podID \<Rightarrow> 'sel clusterState \<Rightarrow> string \<Rightarrow> 'sel clusterState option" where
  "link_container ml pid c containerName =
     map_option (\<lambda>(a, c'). change_container pid containerName (\<lambda>ct. ct\<lparr>ct_aggregator := Aggregation a\<rparr>) c')
       (findOrCreateAggregateContainerState ml \<lparr>cid_PodID = pid, cid_ContainerName = containerName\<rparr> c)"

definition AddOrUpdatePod ::
  "mathLib \<Rightarrow> (labels \<Rightarrow> string) \<Rightarrow> podID \<Rightarrow> labels \<Rightarrow> string \<Rightarrow> 'sel clusterState \<Rightarrow> 'sel clusterState option" where
  "AddOrUpdatePod ml label_string pid newLabels phase c =
     (let podExists = mhas (cl_Pods c) pid;
          c1 = (if podExists then c else c\<lparr>cl_Pods := mput pid (newPod pid) (cl_Pods c)\<rparr>);
          pod = (case mget (cl_Pods c) pid of Some pod \<Rightarrow> pod | None \<Rightarrow> newPod pid);
          (newlabelSetKey, c2) = getLabelSetKey label_string newLabels c1
      in map_option (change_pod pid (\<lambda>pod. pod\<lparr>ps_Phase := phase\<rparr>))
           (if \<not> podExists \<or> ps_labelSetKey pod \<noteq> newlabelSetKey
            then ofold (link_container ml pid) (change_pod pid (\<lambda>pod. pod\<lparr>ps_labelSetKey := newlabelSetKey\<rparr>) c2)
                   (mkeys (ps_Containers pod))
            else Some c2))"

definition GetContainer :: "containerID \<Rightarrow> 'sel clusterState \<Rightarrow> aggregatorRef containerState option" where
  "GetContainer cid c =
     (case mget (cl_Pods c) (cid_PodID cid) of
        None \<Rightarrow> None | Some pod \<Rightarrow> mget (ps_Containers pod) (cid_ContainerName cid))"

definition DeletePod :: "podID \<Rightarrow> 'sel clusterState \<Rightarrow> 'sel clusterState" where
  "DeletePod pid c = c\<lparr>cl_Pods := mdel pid (cl_Pods c)\<rparr>"

text \<open>The error, if any, and the state afterwards.\<close>

definition AddOrUpdateContainer ::
  "mathLib \<Rightarrow> containerID \<Rightarrow> resources \<Rightarrow> 'sel clusterState \<Rightarrow> (clusterError option \<times> 'sel clusterState) option" where
  "AddOrUpdateContainer ml cid request c =
     (case mget (cl_Pods c) (cid_PodID cid) of
        None \<Rightarrow> Some (Some (KeyError (PodKey (cid_PodID cid))), c)
      | Some pod \<Rightarrow>
          (case mget (ps_Containers pod) (cid_ContainerName cid) of
             None \<Rightarrow>
               map_option (\<lambda>(_, c'). (None, change_pod (cid_PodID cid) (\<lambda>pod. pod\<lparr>ps_Containers :=
                     mput (cid_ContainerName cid) (NewContainerState request (Proxy cid)) (ps_Containers pod)\<rparr>) c'))
                 (findOrCreateAggregateContainerState ml cid c)
           | Some _ \<Rightarrow>
               Some (None, change_container (cid_PodID cid) (cid_ContainerName cid) (\<lambda>ct. ct\<lparr>ct_Request := request\<rparr>) c)))"

definition ClusterAddSample ::
  "mathLib \<Rightarrow> containerID \<Rightarrow> containerUsageSample \<Rightarrow> 'sel clusterState \<Rightarrow> (clusterError option \<times> 'sel clusterState) option" where
  "ClusterAddSample ml cid sample c =
     (case mget (cl_Pods c) (cid_PodID cid) of
        None \<Rightarrow> Some (Some (KeyError (PodKey (cid_PodID cid))), c)
      | Some pod \<Rightarrow>
          (case mget (ps_Containers pod) (cid_ContainerName cid) of
             None \<Rightarrow> Some (Some (KeyError (ContainerKey cid)), c)
           | Some ct \<Rightarrow>
               map_option (\<lambda>(added, ct', c'). (if added then None else Some SampleDiscarded,
                     change_container (cid_PodID cid) (cid_ContainerName cid) (\<lambda>_. ct') c'))
                 (AddContainerSample (aggregator_of ml (ct_aggregator ct)) sample (ct, c))))"

definition ClusterRecordOOM ::
  "mathLib \<Rightarrow> containerID \<Rightarrow> time \<Rightarrow> resourceAmount \<Rightarrow> 'sel clusterState \<Rightarrow> (clusterError option \<times> 'sel clusterState) option" where
  "ClusterRecordOOM ml cid timestamp requestedMemory c =
     (case mget (cl_Pods c) (cid_PodID cid) of
        None \<Rightarrow> Some (Some (KeyError (PodKey (cid_PodID cid))), c)
      | Some pod \<Rightarrow>
          (case mget (ps_Containers pod) (cid_ContainerName cid) of
             None \<Rightarrow> Some (Some (KeyError (NameKey (cid_ContainerName cid))), c)
           | Some ct \<Rightarrow>
               map_option (\<lambda>(err, ct', c'). (map_option (OOMFailed cid) err,
                     change_container (cid_PodID cid) (cid_ContainerName cid) (\<lambda>_. ct') c'))
                 (RecordOOM (aggregator_of ml (ct_aggregator ct)) timestamp requestedMemory (ct, c))))"

section \<open>Autoscaler objects of the cluster\<close>

definition RecommendationProvided :: string where
  "RecommendationProvided = ''RecommendationProvided''"

definition DeleteVpa :: "vpaID \<Rightarrow> 'sel clusterState \<Rightarrow> clusterError option \<times> 'sel clusterState" where
  "DeleteVpa vid c =
     (if \<not> mhas (cl_Vpas c) vid then (Some (KeyError (VpaKey vid)), c) else (None, c\<lparr>cl_Vpas := mdel vid (cl_Vpas c)\<rparr>))"

definition conditions_map :: "vpaCondition list \<Rightarrow> vpaConditionsMap" where
  "conditions_map = foldl (\<lambda>m condition. mput (co_Type condition) condition m) []"

definition provided_recommendation :: "'sel apiVpa \<Rightarrow> recommendedPodResources option" where
  "provided_recommendation apiObject =
     (case mget (conditions_map (va_Conditions apiObject)) RecommendationProvided of
        Some condition \<Rightarrow> if co_Status condition = ''True'' then va_Recommendation apiObject else None
      | None \<Rightarrow> None)"

text \<open>An object with the links to all aggregations it matches.\<close>

definition linked_vpa :: "vpaID \<Rightarrow> selector \<Rightarrow> time \<Rightarrow> 'sel clusterState \<Rightarrow> vpa" where
  "linked_vpa vid sel created c =
     foldl (\<lambda>v (key, a). UseAggregationIfMatching (cl_labelSetMap c) key a v) (NewVpa vid (Some sel) created) (cl_aggregateStateMap c)"

definition update_vpa_fields :: "'sel apiVpa \<Rightarrow> vpa \<Rightarrow> vpa" where
  "update_vpa_fields apiObject v =
     (let v1 = v\<lparr>vs_Conditions := conditions_map (va_Conditions apiObject), vs_Recommendation := provided_recommendation apiObject,
            vs_ResourcePolicy := va_ResourcePolicy apiObject\<rparr>
      in case va_UpdatePolicy apiObject of None \<Rightarrow> v1 | Some mode \<Rightarrow> v1\<lparr>vs_UpdateMode := mode\<rparr>)"

definition AddOrUpdateVpa ::
  "'sel vpa_selector \<Rightarrow> 'sel apiVpa \<Rightarrow> 'sel clusterState \<Rightarrow> (clusterError option \<times> 'sel clusterState) option" where
  "AddOrUpdateVpa as_sel apiObject c =
     (let vid = \<lparr>vid_Namespace = va_Namespace apiObject, vid_VpaName = va_Name apiObject\<rparr>
      in case as_sel (va_Selector apiObject) of
           Inl err \<Rightarrow> Some (Some (SelectorError err), c)
         | Inr sel \<Rightarrow>
             (case mget (cl_Vpas c) vid of
                None \<Rightarrow> Some (None, c\<lparr>cl_Vpas := mput vid (update_vpa_fields apiObject (linked_vpa vid sel (va_CreationTimestamp apiObject) c)) (cl_Vpas c)\<rparr>)
              | Some v \<Rightarrow>
                  (case vs_PodSelector v of
                     None \<Rightarrow> None
                   | Some oldSel \<Rightarrow>
                       if fst oldSel \<noteq> fst sel then
                         (let c1 = snd (DeleteVpa vid c)
                          in Some (None, c1\<lparr>cl_Vpas := mput vid (update_vpa_fields apiObject (linked_vpa vid sel (va_CreationTimestamp apiObject) c1)) (cl_Vpas c1)\<rparr>))
                       else Some (None, c\<lparr>cl_Vpas := mput vid (update_vpa_fields apiObject v) (cl_Vpas c)\<rparr>))))"

definition collect_key :: "'sel clusterState \<Rightarrow> aggregateStateKey \<Rightarrow> 'sel clusterState" where
  "collect_key c key =
     c\<lparr>cl_aggregateStateMap := mdel key (cl_aggregateStateMap c), cl_Vpas := change_vpas (DeleteAggregation key) (cl_Vpas c)\<rparr>"

definition GarbageCollectAggregateCollectionStates :: "time \<Rightarrow> 'sel clusterState \<Rightarrow> 'sel clusterState" where
  "GarbageCollectAggregateCollectionStates now c =
     (let keysToDelete = map fst (filter (\<lambda>(key, a). isExpired now (cl_heap c ! a)) (cl_aggregateStateMap c))
      in foldl collect_key c keysToDelete)"

end
