(* ===== verification/VpaClusterProps.thy ===== *)
theory VpaClusterProps
  imports VpaCluster
begin

text \<open>
  The recommender's state: no operation panics, and the autoscaler objects stay linked to exactly the
  aggregations they match, whatever pods, containers, samples, objects and collections come in whatever order.
\<close>

section \<open>Aggregations of the package's options\<close>

definition hist_kind :: "decayingHistogram \<Rightarrow> histogramOptions \<times> duration" where
  "hist_kind h = (h_options (dh_histogram h), dh_halfLife h)"

text \<open>The package's variables initialise, with histograms of the right shape.\<close>

definition package_ok :: "mathLib \<Rightarrow> bool" where
  "package_ok ml \<longleftrightarrow> (case NewAggregateContainerState ml of None \<Rightarrow> False | Some s \<Rightarrow> aggregation_shaped ml s)"

definition standard_aggregation :: "mathLib \<Rightarrow> aggregateContainerState \<Rightarrow> bool" where
  "standard_aggregation ml s \<longleftrightarrow> aggregation_shaped ml s \<and>
     (case NewAggregateContainerState ml of
        None \<Rightarrow> False
      | Some s0 \<Rightarrow> hist_kind (ag_AggregateCPUUsage s) = hist_kind (ag_AggregateCPUUsage s0) \<and>
          hist_kind (ag_AggregateMemoryPeaks s) = hist_kind (ag_AggregateMemoryPeaks s0))"

lemma standard_new:
  assumes "package_ok ml"
  obtains s where "NewAggregateContainerState ml = Some s" "standard_aggregation ml s"
  using assms by (auto simp: package_ok_def standard_aggregation_def split: option.splits)

lemma update_options: "updateMinAndMaxBucket h = Some h' \<Longrightarrow> h_options h' = h_options h"
  by (auto simp: updateMinAndMaxBucket_def Let_def split: option.splits)

lemma scale_options: "scale f h = Some h' \<Longrightarrow> h_options h' = h_options h"
  by (auto simp: scale_def split: option.splits if_splits dest!: update_options)

lemma add_options: "AddSample ml v w h = Some h' \<Longrightarrow> h_options h' = h_options h"
  by (auto simp: AddSample_def Let_def split: option.splits if_splits)

lemma subtract_options: "SubtractSample ml v w h = Some h' \<Longrightarrow> h_options h' = h_options h"
  by (auto simp: SubtractSample_def Let_def split: option.splits if_splits dest!: update_options)

lemma shift_kind: "shiftReferenceTimestamp t h = Some h' \<Longrightarrow> hist_kind h' = hist_kind h"
  by (auto simp: shiftReferenceTimestamp_def Let_def hist_kind_def dest: scale_options)

lemma with_factor_kind:
  assumes "with_factor ml change v w t h = Some h'" "\<And>h h' w. change v w h = Some h' \<Longrightarrow> h_options h' = h_options h"
  shows "hist_kind h' = hist_kind h"
  using assms(1) by (auto simp: with_factor_def decayFactor_def hist_kind_def dest!: assms(2) shift_kind split: option.splits if_splits)

lemma sample_kinds:
  "DecayingAddSample ml v w t h = Some h' \<Longrightarrow> hist_kind h' = hist_kind h"
  "DecayingSubtractSample ml v w t h = Some h' \<Longrightarrow> hist_kind h' = hist_kind h"
  unfolding DecayingAddSample_def DecayingSubtractSample_def
  by (erule with_factor_kind, erule add_options, erule with_factor_kind, erule subtract_options)

lemma aggregateSample_standard:
  assumes "standard_aggregation ml s" "usable_sample x"
  shows "\<exists>s'. aggregateSample ml x s = Some s' \<and> standard_aggregation ml s'"
proof -
  obtain s' where s': "aggregateSample ml x s = Some s'" "aggregation_shaped ml s'"
    using aggregateSample_total [of ml s x] assms by (auto simp: standard_aggregation_def)
  then have "hist_kind (ag_AggregateCPUUsage s') = hist_kind (ag_AggregateCPUUsage s)"
    "hist_kind (ag_AggregateMemoryPeaks s') = hist_kind (ag_AggregateMemoryPeaks s)"
    by (auto simp: aggregateSample_def aggregateCPUSample_def Let_def dest: sample_kinds split: if_splits)
  then show ?thesis using s' assms(1) by (auto simp: standard_aggregation_def split: option.splits)
qed

lemma subtractSample_standard:
  assumes "standard_aggregation ml s" "usable_sample x" "us_Resource x = ResourceMemory"
  shows "\<exists>s'. subtractSample ml x s = Some s' \<and> standard_aggregation ml s'"
proof -
  obtain s' where s': "subtractSample ml x s = Some s'" "aggregation_shaped ml s'"
    using subtractSample_total [of ml s x] assms by (auto simp: standard_aggregation_def)
  then have "hist_kind (ag_AggregateCPUUsage s') = hist_kind (ag_AggregateCPUUsage s)"
    "hist_kind (ag_AggregateMemoryPeaks s') = hist_kind (ag_AggregateMemoryPeaks s)"
    by (auto simp: subtractSample_def dest: sample_kinds split: if_splits)
  then show ?thesis using s' assms(1) by (auto simp: standard_aggregation_def split: option.splits)
qed

section \<open>The invariant\<close>

text \<open>Label sets of the same string are matched by the same selectors.\<close>

definition sel_respects :: "(labels \<Rightarrow> string) \<Rightarrow> selector \<Rightarrow> bool" where
  "sel_respects label_string sel \<longleftrightarrow> (\<forall>l l'. label_string l = label_string l' \<longrightarrow> snd sel l = snd sel l')"

definition label_law :: "(labels \<Rightarrow> string) \<Rightarrow> 'sel vpa_selector \<Rightarrow> bool" where
  "label_law label_string as_sel \<longleftrightarrow> (\<forall>x sel. as_sel x = Inr sel \<longrightarrow> sel_respects label_string sel)"

definition vpa_linked :: "'sel clusterState \<Rightarrow> vpa \<Rightarrow> bool" where
  "vpa_linked c v \<longleftrightarrow> (\<forall>key. mget (vs_aggregateContainerStates v) key =
     (if matchesAggregation (cl_labelSetMap c) v key then mget (cl_aggregateStateMap c) key else None))"

definition vpa_ok :: "(labels \<Rightarrow> string) \<Rightarrow> 'sel clusterState \<Rightarrow> vpaID \<Rightarrow> vpa \<Rightarrow> bool" where
  "vpa_ok label_string c vid v \<longleftrightarrow> vs_ID v = vid \<and> gomap_ok (vs_aggregateContainerStates v) \<and> vpa_linked c v \<and>
     (case vs_PodSelector v of None \<Rightarrow> False | Some sel \<Rightarrow> sel_respects label_string sel) \<and>
     (\<forall>e\<in>set (vs_ContainersInitialAggregateState v). snd e < length (cl_heap c))"

definition ref_ok :: "'sel clusterState \<Rightarrow> podID \<Rightarrow> string \<Rightarrow> aggregatorRef \<Rightarrow> bool" where
  "ref_ok c pid name ref \<longleftrightarrow>
     (case ref of Proxy cid \<Rightarrow> cid = \<lparr>cid_PodID = pid, cid_ContainerName = name\<rparr> | Aggregation a \<Rightarrow> a < length (cl_heap c))"

definition pod_ok :: "'sel clusterState \<Rightarrow> podID \<Rightarrow> podState \<Rightarrow> bool" where
  "pod_ok c pid pod \<longleftrightarrow> ps_ID pod = pid \<and> mhas (cl_labelSetMap c) (ps_labelSetKey pod) \<and> gomap_ok (ps_Containers pod) \<and>
     (\<forall>(name, ct)\<in>set (ps_Containers pod). ref_ok c pid name (ct_aggregator ct) \<and> peaks_in_range ct)"

definition aggregations_ok :: "mathLib \<Rightarrow> 'sel clusterState \<Rightarrow> bool" where
  "aggregations_ok ml c \<longleftrightarrow> gomap_ok (cl_aggregateStateMap c) \<and> (\<forall>s\<in>set (cl_heap c). standard_aggregation ml s) \<and>
     (\<forall>key a. mget (cl_aggregateStateMap c) key = Some a \<longrightarrow> a < length (cl_heap c) \<and> mhas (cl_labelSetMap c) (ak_labelSetKey key)) \<and>
     (\<forall>key key' a. mget (cl_aggregateStateMap c) key = Some a \<and> mget (cl_aggregateStateMap c) key' = Some a \<longrightarrow> key = key')"

definition cluster_ok :: "mathLib \<Rightarrow> (labels \<Rightarrow> string) \<Rightarrow> 'sel clusterState \<Rightarrow> bool" where
  "cluster_ok ml label_string c \<longleftrightarrow> aggregations_ok ml c \<and>
     (\<forall>k l. mget (cl_labelSetMap c) k = Some l \<longrightarrow> label_string l = k) \<and>
     gomap_ok (cl_Pods c) \<and> (\<forall>pid pod. mget (cl_Pods c) pid = Some pod \<longrightarrow> pod_ok c pid pod) \<and>
     gomap_ok (cl_Vpas c) \<and> (\<forall>vid v. mget (cl_Vpas c) vid = Some v \<longrightarrow> vpa_ok label_string c vid v)"

lemma cluster_okD:
  assumes "cluster_ok ml label_string c"
  shows "aggregations_ok ml c" "\<And>k l. mget (cl_labelSetMap c) k = Some l \<Longrightarrow> label_string l = k"
    "gomap_ok (cl_Pods c)" "\<And>pid pod. mget (cl_Pods c) pid = Some pod \<Longrightarrow> pod_ok c pid pod"
    "gomap_ok (cl_Vpas c)" "\<And>vid v. mget (cl_Vpas c) vid = Some v \<Longrightarrow> vpa_ok label_string c vid v"
  using assms by (simp_all add: cluster_ok_def)

lemma cluster_ok_new: "cluster_ok ml label_string NewClusterState"
  by (simp add: cluster_ok_def aggregations_ok_def NewClusterState_def)

lemma pod_ok_mono:
  assumes "pod_ok c pid pod" "\<And>k. mhas (cl_labelSetMap c) k \<Longrightarrow> mhas (cl_labelSetMap c') k" "length (cl_heap c) \<le> length (cl_heap c')"
  shows "pod_ok c' pid pod"
proof -
  have "ref_ok c pid name ref \<Longrightarrow> ref_ok c' pid name ref" for name ref
    using assms(3) by (auto simp: ref_ok_def split: aggregatorRef.splits)
  then show ?thesis using assms(1,2) by (fastforce simp: pod_ok_def)
qed

lemma vpa_ok_same:
  assumes "vpa_ok label_string c vid v" "cl_labelSetMap c' = cl_labelSetMap c" "cl_aggregateStateMap c' = cl_aggregateStateMap c"
    "length (cl_heap c) \<le> length (cl_heap c')"
  shows "vpa_ok label_string c' vid v"
  using assms unfolding vpa_ok_def vpa_linked_def by fastforce

section \<open>The outline of the state\<close>

text \<open>What samples leave alone: the labels, phase and containers of each pod, and which autoscaler objects there are.\<close>

definition outline :: "'sel clusterState \<Rightarrow> podID \<Rightarrow> (string \<times> string \<times> string set) option" where
  "outline c pid = map_option (\<lambda>pod. (ps_labelSetKey pod, ps_Phase pod, set (mkeys (ps_Containers pod)))) (mget (cl_Pods c) pid)"

definition same_outline :: "'sel clusterState \<Rightarrow> 'sel clusterState \<Rightarrow> bool" where
  "same_outline c c' \<longleftrightarrow> outline c' = outline c \<and> mkeys (cl_Vpas c') = mkeys (cl_Vpas c)"

lemma same_outline_refl [simp]: "same_outline c c"
  by (simp add: same_outline_def)

lemma same_outline_trans: "same_outline c c' \<Longrightarrow> same_outline c' c'' \<Longrightarrow> same_outline c c''"
  by (simp add: same_outline_def)

lemma same_outlineI: "cl_Pods c' = cl_Pods c \<Longrightarrow> mkeys (cl_Vpas c') = mkeys (cl_Vpas c) \<Longrightarrow> same_outline c c'"
  by (simp add: same_outline_def outline_def fun_eq_iff)

lemma mkeys_mput_old: "mget m k \<noteq> None \<Longrightarrow> set (mkeys (mput k v m)) = set (mkeys m)"
  by (auto simp: mkeys_def mget_None_iff mput_def dom_update) 

lemma outline_change_container: "same_outline c (change_container pid name f c)"
  by (auto simp: same_outline_def outline_def change_container_def change_pod_def fun_eq_iff mkeys_mput_old split: option.split)

section \<open>Changes of pods\<close>

lemma cluster_ok_pods:
  assumes "cluster_ok ml label_string c" "gomap_ok pods" "\<And>pid pod. mget pods pid = Some pod \<Longrightarrow> pod_ok c pid pod"
  shows "cluster_ok ml label_string (c\<lparr>cl_Pods := pods\<rparr>)"
proof -
  let ?c = "c\<lparr>cl_Pods := pods\<rparr>"
  note ok = cluster_okD [OF assms(1)]
  have "pod_ok ?c pid pod" if "mget pods pid = Some pod" for pid pod
    by (rule pod_ok_mono [OF assms(3) [OF that]]) simp_all
  moreover have "vpa_ok label_string ?c vid v" if "mget (cl_Vpas c) vid = Some v" for vid v
    by (rule vpa_ok_same [OF ok(6) [OF that]]) simp_all
  moreover have "aggregations_ok ml ?c" using ok(1) by (simp add: aggregations_ok_def)
  ultimately show ?thesis using ok(2,5) assms(2) by (simp add: cluster_ok_def)
qed

lemma cluster_ok_put_pod:
  assumes "cluster_ok ml label_string c" "pod_ok c pid pod"
  shows "cluster_ok ml label_string (c\<lparr>cl_Pods := mput pid pod (cl_Pods c)\<rparr>)"
  by (rule cluster_ok_pods [OF assms(1)]) (use assms cluster_okD [OF assms(1)] in \<open>auto split: if_splits\<close>)

lemma cluster_ok_change_pod:
  assumes "cluster_ok ml label_string c" "\<And>pod. pod_ok c pid pod \<Longrightarrow> pod_ok c pid (f pod)"
  shows "cluster_ok ml label_string (change_pod pid f c)"
  using assms cluster_ok_put_pod cluster_okD(4) [OF assms(1)] by (fastforce simp: change_pod_def split: option.split)

lemma pod_ok_container:
  assumes "pod_ok c pid pod" "ref_ok c pid name (ct_aggregator ct)" "peaks_in_range ct"
  shows "pod_ok c pid (pod\<lparr>ps_Containers := mput name ct (ps_Containers pod)\<rparr>)"
  using assms by (auto simp: pod_ok_def dest!: mput_entries)


section \<open>Label sets\<close>

text \<open>Storing a label set under its string changes no match of a known key.\<close>

lemma match_label_set:
  assumes "\<And>k l. mget lsm k = Some l \<Longrightarrow> label_string l = k" "mhas lsm (ak_labelSetKey key)"
    "case vs_PodSelector v of None \<Rightarrow> False | Some sel \<Rightarrow> sel_respects label_string sel"
  shows "matchesAggregation (mput (label_string labelSet) labelSet lsm) v key = matchesAggregation lsm v key"
proof (cases "ak_labelSetKey key = label_string labelSet")
  case True
  obtain l where l: "mget lsm (ak_labelSetKey key) = Some l" using assms(2) by (auto simp: mhas_def)
  have same: "label_string l = label_string labelSet" using assms(1) [OF l] unfolding True .
  have "\<exists>sel. vs_PodSelector v = Some sel \<and> sel_respects label_string sel"
    using assms(3) by (cases "vs_PodSelector v") simp_all
  then obtain sel where s: "vs_PodSelector v = Some sel" "sel_respects label_string sel" by blast
  obtain str m where sel: "sel = (str, m)" by (cases sel)
  have "m l = m labelSet" using s(2) same unfolding sel_respects_def sel snd_conv by blast
  then show ?thesis using True l s sel by (simp add: matchesAggregation_def key_labels_def mget0_def)
next
  case False
  then have "key_labels (mput (label_string labelSet) labelSet lsm) key = key_labels lsm key" by (simp add: key_labels_def)
  then show ?thesis unfolding matchesAggregation_def by (simp only:)
qed

lemma cluster_ok_label_set:
  assumes "cluster_ok ml label_string c"
  shows "cluster_ok ml label_string (c\<lparr>cl_labelSetMap := mput (label_string labelSet) labelSet (cl_labelSetMap c)\<rparr>)"
proof -
  let ?c = "c\<lparr>cl_labelSetMap := mput (label_string labelSet) labelSet (cl_labelSetMap c)\<rparr>"
  note ok = cluster_okD [OF assms]
  have "pod_ok ?c pid pod" if "mget (cl_Pods c) pid = Some pod" for pid pod
    by (rule pod_ok_mono [OF ok(4) [OF that]]) (simp_all add: mhas_def)
  moreover have "vpa_ok label_string ?c vid v" if "mget (cl_Vpas c) vid = Some v" for vid v
  proof -
    note v = ok(6) [OF that, unfolded vpa_ok_def]
    have "matchesAggregation (cl_labelSetMap ?c) v key = matchesAggregation (cl_labelSetMap c) v key"
      if "mget (cl_aggregateStateMap c) key \<noteq> None" for key
    proof -
      have known: "mhas (cl_labelSetMap c) (ak_labelSetKey key)" using ok(1) that by (auto simp: aggregations_ok_def)
      have "matchesAggregation (mput (label_string labelSet) labelSet (cl_labelSetMap c)) v key = matchesAggregation (cl_labelSetMap c) v key"
        by (rule match_label_set) (use ok(2) known v in simp_all)
      then show ?thesis by simp
    qed
    then have same: "matchesAggregation (cl_labelSetMap ?c) v key = matchesAggregation (cl_labelSetMap c) v key \<or>
        mget (cl_aggregateStateMap c) key = None" for key by blast
    have "vpa_linked c v" using v by blast
    have "vpa_linked ?c v"
      unfolding vpa_linked_def
    proof
      fix key
      show "mget (vs_aggregateContainerStates v) key =
          (if matchesAggregation (cl_labelSetMap ?c) v key then mget (cl_aggregateStateMap ?c) key else None)"
        using same [of key] \<open>vpa_linked c v\<close> by (cases "mget (cl_aggregateStateMap c) key") (simp_all add: vpa_linked_def)
    qed
    then show ?thesis using v by (simp add: vpa_ok_def)
  qed
  moreover have "aggregations_ok ml ?c" using ok(1) by (auto simp: aggregations_ok_def mhas_def)
  ultimately show ?thesis using ok(2,3,5) by (simp add: cluster_ok_def)
qed

section \<open>Aggregations\<close>

lemma mget_change_vpas: "mget (change_vpas f vpas) vid = map_option f (mget vpas vid)"
  by (simp add: change_vpas_def mget_map_val)

lemma gomap_ok_change_vpas: "gomap_ok vpas \<Longrightarrow> gomap_ok (change_vpas f vpas)"
  unfolding change_vpas_def by (rule gomap_ok_map_val)

lemma mkeys_change_vpas: "mkeys (change_vpas f vpas) = mkeys vpas"
  by (induction vpas) (auto simp: change_vpas_def mkeys_def)

lemma use_aggregation_linked:
  assumes "vpa_ok label_string c vid v" "mget (cl_aggregateStateMap c) key = None"
    and "cl_labelSetMap c' = cl_labelSetMap c" "cl_aggregateStateMap c' = mput key a (cl_aggregateStateMap c)"
    "length (cl_heap c) \<le> length (cl_heap c')"
  shows "vpa_ok label_string c' vid (UseAggregationIfMatching (cl_labelSetMap c) key a v)"
proof -
  let ?v = "UseAggregationIfMatching (cl_labelSetMap c) key a v"
  have m: "matchesAggregation lsm ?v k = matchesAggregation lsm v k" for lsm k
    by (simp add: UseAggregationIfMatching_def matchesAggregation_def)
  have l: "mget (vs_aggregateContainerStates v) k = (if matchesAggregation (cl_labelSetMap c) v k then mget (cl_aggregateStateMap c) k else None)" for k
    using assms(1) by (simp add: vpa_ok_def vpa_linked_def)
  then have "\<not> UsesAggregation key v" using assms(2) by (simp add: UsesAggregation_def)
  then have "mget (vs_aggregateContainerStates ?v) k =
      (if k = key \<and> matchesAggregation (cl_labelSetMap c) v key then Some a else mget (vs_aggregateContainerStates v) k)" for k
    by (simp add: UseAggregationIfMatching_def)
  then have "vpa_linked c' ?v" using l assms(2-4) by (auto simp: vpa_linked_def m)
  then show ?thesis using assms(1,5) by (fastforce simp: vpa_ok_def UseAggregationIfMatching_def)
qed

lemma findOrCreate_ok:
  assumes "cluster_ok ml label_string c" "package_ok ml" "mhas (cl_Pods c) (cid_PodID cid)"
  shows "\<exists>a c'. findOrCreateAggregateContainerState ml cid c = Some (a, c') \<and> cluster_ok ml label_string c' \<and>
    cl_Pods c' = cl_Pods c \<and> a < length (cl_heap c') \<and> length (cl_heap c) \<le> length (cl_heap c') \<and> cl_labelSetMap c' = cl_labelSetMap c \<and>
    aggregateStateKeyForContainerID cid c' = aggregateStateKeyForContainerID cid c \<and> mkeys (cl_Vpas c') = mkeys (cl_Vpas c) \<and>
    (\<exists>key. aggregateStateKeyForContainerID cid c = Some key \<and> mget (cl_aggregateStateMap c') key = Some a)"
proof -
  note ok = cluster_okD [OF assms(1)]
  obtain pod where pod: "mget (cl_Pods c) (cid_PodID cid) = Some pod" using assms(3) by (auto simp: mhas_def)
  let ?key = "MakeAggregateStateKey pod (cid_ContainerName cid)"
  have key: "aggregateStateKeyForContainerID cid c = Some ?key" using pod by (simp add: aggregateStateKeyForContainerID_def)
  show ?thesis
  proof (cases "mget (cl_aggregateStateMap c) ?key")
    case (Some a)
    then have "a < length (cl_heap c)" using ok(1) by (auto simp: aggregations_ok_def)
    then show ?thesis using assms(1) key Some by (simp add: findOrCreateAggregateContainerState_def)
  next
    case None
    obtain s where s: "NewAggregateContainerState ml = Some s" "standard_aggregation ml s" using standard_new [OF assms(2)] by blast
    let ?a = "length (cl_heap c)"
    let ?c = "c\<lparr>cl_heap := cl_heap c @ [s], cl_aggregateStateMap := mput ?key ?a (cl_aggregateStateMap c),
      cl_Vpas := change_vpas (UseAggregationIfMatching (cl_labelSetMap c) ?key ?a) (cl_Vpas c)\<rparr>"
    have "pod_ok ?c pid p" if "mget (cl_Pods c) pid = Some p" for pid p by (rule pod_ok_mono [OF ok(4) [OF that]]) simp_all
    moreover have "vpa_ok label_string ?c vid v" if "mget (cl_Vpas ?c) vid = Some v" for vid v
    proof -
      from that obtain v0 where v0: "mget (cl_Vpas c) vid = Some v0" "v = UseAggregationIfMatching (cl_labelSetMap c) ?key ?a v0"
        by (auto simp: mget_change_vpas)
      show ?thesis unfolding v0(2) by (rule use_aggregation_linked [OF ok(6) [OF v0(1)] None]) simp_all
    qed
    moreover have "aggregations_ok ml ?c"
    proof -
      have "mhas (cl_labelSetMap c) (ps_labelSetKey pod)" using ok(4) [OF pod] by (simp add: pod_ok_def)
      then show ?thesis using ok(1) s(2) unfolding aggregations_ok_def
        by (auto simp: MakeAggregateStateKey_def less_Suc_eq split: if_splits)
    qed
    ultimately have "cluster_ok ml label_string ?c" using ok(2,3,5) by (simp add: cluster_ok_def gomap_ok_change_vpas)
    moreover have "findOrCreateAggregateContainerState ml cid c = Some (?a, ?c)"
      unfolding findOrCreateAggregateContainerState_def key using None s(1) by (simp add: Let_def)
    moreover have "aggregateStateKeyForContainerID cid ?c = Some ?key" using pod by (simp add: aggregateStateKeyForContainerID_def)
    ultimately show ?thesis using key by (intro exI [of _ ?a] exI [of _ ?c]) (simp add: mkeys_change_vpas)
  qed
qed

section \<open>Containers\<close>

lemma cluster_ok_heap:
  assumes "cluster_ok ml label_string c" "standard_aggregation ml s"
  shows "cluster_ok ml label_string (c\<lparr>cl_heap := (cl_heap c)[a := s]\<rparr>)"
proof -
  let ?c = "c\<lparr>cl_heap := (cl_heap c)[a := s]\<rparr>"
  note ok = cluster_okD [OF assms(1)]
  have "pod_ok ?c pid pod" if "mget (cl_Pods c) pid = Some pod" for pid pod by (rule pod_ok_mono [OF ok(4) [OF that]]) simp_all
  moreover have "vpa_ok label_string ?c vid v" if "mget (cl_Vpas c) vid = Some v" for vid v
    by (rule vpa_ok_same [OF ok(6) [OF that]]) simp_all
  moreover have "aggregations_ok ml ?c"
    using ok(1) assms(2) set_update_subset_insert [of "cl_heap c" a s] unfolding aggregations_ok_def by auto
  ultimately show ?thesis using ok(2,3,5) by (simp add: cluster_ok_def)
qed

text \<open>The state while the aggregator of one container is called.\<close>

definition aggregator_inv ::
  "mathLib \<Rightarrow> (labels \<Rightarrow> string) \<Rightarrow> 'sel clusterState \<Rightarrow> podID \<Rightarrow> string \<Rightarrow> aggregatorRef \<Rightarrow> 'sel clusterState \<Rightarrow> bool" where
  "aggregator_inv ml label_string c0 pid name ref c \<longleftrightarrow>
     cluster_ok ml label_string c \<and> package_ok ml \<and> cl_Pods c = cl_Pods c0 \<and> mkeys (cl_Vpas c) = mkeys (cl_Vpas c0) \<and>
     mhas (cl_Pods c0) pid \<and> ref_ok c pid name ref"

lemma resolve_ok:
  assumes "aggregator_inv ml label_string c0 pid name ref c"
  shows "\<exists>a c'. resolve ml ref c = Some (a, c') \<and> aggregator_inv ml label_string c0 pid name ref c' \<and> a < length (cl_heap c')"
proof (cases ref)
  case (Proxy cid)
  have cid: "cid = \<lparr>cid_PodID = pid, cid_ContainerName = name\<rparr>" using assms Proxy by (simp add: aggregator_inv_def ref_ok_def)
  have "\<exists>a c'. findOrCreateAggregateContainerState ml cid c = Some (a, c') \<and> cluster_ok ml label_string c' \<and> cl_Pods c' = cl_Pods c \<and>
      mkeys (cl_Vpas c') = mkeys (cl_Vpas c) \<and> a < length (cl_heap c')"
    using findOrCreate_ok [of ml label_string c cid] assms cid unfolding aggregator_inv_def by auto
  then show ?thesis using assms Proxy cid by (auto simp: resolve_def aggregator_inv_def ref_ok_def)
next
  case (Aggregation a)
  then show ?thesis using assms by (simp add: resolve_def aggregator_inv_def ref_ok_def)
qed

lemma change_aggregation_ok:
  assumes "aggregator_inv ml label_string c0 pid name ref c" "a < length (cl_heap c)"
    and "\<And>s. standard_aggregation ml s \<Longrightarrow> \<exists>s'. f s = Some s' \<and> standard_aggregation ml s'"
  shows "\<exists>c'. change_aggregation f (a, c) = Some c' \<and> aggregator_inv ml label_string c0 pid name ref c'"
proof -
  have "cl_heap c ! a \<in> set (cl_heap c)" using assms(2) by simp
  then have "standard_aggregation ml (cl_heap c ! a)"
    using assms(1) unfolding aggregator_inv_def cluster_ok_def aggregations_ok_def by blast
  then obtain s' where "f (cl_heap c ! a) = Some s'" "standard_aggregation ml s'" using assms(3) by blast
  then show ?thesis using assms(1) cluster_ok_heap [of ml label_string c s' a]
    by (auto simp: change_aggregation_def aggregator_inv_def ref_ok_def split: aggregatorRef.splits)
qed

interpretation container: aggregator "aggregator_of ml ref" "aggregator_inv ml label_string c0 pid name ref"
  for ml label_string c0 pid name ref
proof
  fix c :: "'a clusterState" and x
  assume c: "aggregator_inv ml label_string c0 pid name ref c" and x: "usable_sample x"
  obtain a c1 where r: "resolve ml ref c = Some (a, c1)" "aggregator_inv ml label_string c0 pid name ref c1" "a < length (cl_heap c1)"
    using resolve_ok [OF c] by blast
  show "\<exists>c'. sa_AddSample (aggregator_of ml ref) x c = Some c' \<and> aggregator_inv ml label_string c0 pid name ref c'"
    using change_aggregation_ok [OF r(2,3), of "aggregateSample ml x"] aggregateSample_standard x r(1)
    by (simp add: aggregator_of_def)
  assume "us_Resource x = ResourceMemory"
  then show "\<exists>c'. sa_SubtractSample (aggregator_of ml ref) x c = Some c' \<and> aggregator_inv ml label_string c0 pid name ref c'"
    using change_aggregation_ok [OF r(2,3), of "subtractSample ml x"] subtractSample_standard x r(1)
    by (simp add: aggregator_of_def)
qed

text \<open>A container of a pod, and the pod with the container changed.\<close>

lemma container_inv:
  assumes "cluster_ok ml label_string c" "package_ok ml" "mget (cl_Pods c) pid = Some pod" "mget (ps_Containers pod) name = Some ct"
  shows "aggregator_inv ml label_string c pid name (ct_aggregator ct) c" "peaks_in_range ct" "ref_ok c pid name (ct_aggregator ct)"
proof -
  have "pod_ok c pid pod" by (rule cluster_okD(4) [OF assms(1,3)])
  then have "ref_ok c pid name (ct_aggregator ct) \<and> peaks_in_range ct" using mget_SomeD [OF assms(4)] unfolding pod_ok_def by blast
  then show "aggregator_inv ml label_string c pid name (ct_aggregator ct) c" "peaks_in_range ct"
    "ref_ok c pid name (ct_aggregator ct)"
    using assms(1-3) by (simp_all add: aggregator_inv_def mhas_def)
qed

lemma change_container_ok:
  assumes "cluster_ok ml label_string c"
    and "\<And>ct. ref_ok c pid name (ct_aggregator ct) \<Longrightarrow> peaks_in_range ct \<Longrightarrow> ref_ok c pid name (ct_aggregator (f ct)) \<and> peaks_in_range (f ct)"
  shows "cluster_ok ml label_string (change_container pid name f c)"
  unfolding change_container_def
proof (rule cluster_ok_change_pod [OF assms(1)])
  fix pod assume pod: "pod_ok c pid pod"
  show "pod_ok c pid (case mget (ps_Containers pod) name of None \<Rightarrow> pod | Some ct \<Rightarrow> pod\<lparr>ps_Containers := mput name (f ct) (ps_Containers pod)\<rparr>)"
  proof (cases "mget (ps_Containers pod) name")
    case (Some ct)
    then have "ref_ok c pid name (ct_aggregator ct) \<and> peaks_in_range ct" using pod mget_SomeD [OF Some] unfolding pod_ok_def by blast
    then show ?thesis using assms(2) [of ct] Some pod by (simp add: pod_ok_container)
  qed (simp add: pod)
qed

lemma ClusterAddSample_ok:
  assumes "cluster_ok ml label_string c" "package_ok ml" "typed_sample x"
  shows "\<exists>err c'. ClusterAddSample ml cid x c = Some (err, c') \<and> cluster_ok ml label_string c' \<and> same_outline c c'"
proof (cases "mget (cl_Pods c) (cid_PodID cid)")
  case (Some pod)
  show ?thesis
  proof (cases "mget (ps_Containers pod) (cid_ContainerName cid)")
    case ct: (Some ct)
    note inv = container_inv [OF assms(1,2) Some ct]
    obtain b ct' c' where add: "AddContainerSample (aggregator_of ml (ct_aggregator ct)) x (ct, c) = Some (b, ct', c')"
      "aggregator_inv ml label_string c (cid_PodID cid) (cid_ContainerName cid) (ct_aggregator ct) c'" "peaks_in_range ct'"
      using container.typed_total [OF inv(1) assms(3) inv(2)] by blast
    have "ct_aggregator ct' = ct_aggregator ct" using sample_keeps_aggregator [OF add(1)] by simp
    then have "cluster_ok ml label_string (change_container (cid_PodID cid) (cid_ContainerName cid) (\<lambda>_. ct') c')"
      using add(2,3) by (intro change_container_ok) (simp_all add: aggregator_inv_def)
    moreover have "same_outline c (change_container (cid_PodID cid) (cid_ContainerName cid) (\<lambda>_. ct') c')"
      by (rule same_outline_trans [OF same_outlineI outline_change_container]) (use add(2) in \<open>simp_all add: aggregator_inv_def\<close>)
    ultimately show ?thesis using Some ct add(1) by (simp add: ClusterAddSample_def)
  qed (use Some assms in \<open>simp add: ClusterAddSample_def\<close>)
qed (use assms in \<open>simp add: ClusterAddSample_def\<close>)

lemma ClusterRecordOOM_ok:
  assumes "cluster_ok ml label_string c" "package_ok ml" "in_i64 memory"
  shows "\<exists>err c'. ClusterRecordOOM ml cid t memory c = Some (err, c') \<and> cluster_ok ml label_string c' \<and> same_outline c c'"
proof (cases "mget (cl_Pods c) (cid_PodID cid)")
  case (Some pod)
  show ?thesis
  proof (cases "mget (ps_Containers pod) (cid_ContainerName cid)")
    case ct: (Some ct)
    note inv = container_inv [OF assms(1,2) Some ct]
    obtain err ct' c' where oom: "RecordOOM (aggregator_of ml (ct_aggregator ct)) t memory (ct, c) = Some (err, ct', c')"
      "aggregator_inv ml label_string c (cid_PodID cid) (cid_ContainerName cid) (ct_aggregator ct) c'" "peaks_in_range ct'"
      using container.oom_total [OF inv(1,2) assms(3)] by blast
    have "ct_aggregator ct' = ct_aggregator ct" using oom_keeps_aggregator [OF oom(1)] by simp
    then have "cluster_ok ml label_string (change_container (cid_PodID cid) (cid_ContainerName cid) (\<lambda>_. ct') c')"
      using oom(2,3) by (intro change_container_ok) (simp_all add: aggregator_inv_def)
    moreover have "same_outline c (change_container (cid_PodID cid) (cid_ContainerName cid) (\<lambda>_. ct') c')"
      by (rule same_outline_trans [OF same_outlineI outline_change_container]) (use oom(2) in \<open>simp_all add: aggregator_inv_def\<close>)
    ultimately show ?thesis using Some ct oom(1) by (simp add: ClusterRecordOOM_def)
  qed (use Some assms in \<open>simp add: ClusterRecordOOM_def\<close>)
qed (use assms in \<open>simp add: ClusterRecordOOM_def\<close>)

lemma AddOrUpdateContainer_ok:
  assumes "cluster_ok ml label_string c" "package_ok ml"
  shows "\<exists>err c'. AddOrUpdateContainer ml cid request c = Some (err, c') \<and> cluster_ok ml label_string c'"
proof (cases "mget (cl_Pods c) (cid_PodID cid)")
  case (Some pod)
  show ?thesis
  proof (cases "mget (ps_Containers pod) (cid_ContainerName cid)")
    case None
    obtain a c1 where c1: "findOrCreateAggregateContainerState ml cid c = Some (a, c1)" "cluster_ok ml label_string c1"
      using findOrCreate_ok [OF assms, of cid] Some by (auto simp: mhas_def)
    let ?f = "\<lambda>pod. pod\<lparr>ps_Containers := mput (cid_ContainerName cid) (NewContainerState request (Proxy cid)) (ps_Containers pod)\<rparr>"
    have "cluster_ok ml label_string (change_pod (cid_PodID cid) ?f c1)"
      by (rule cluster_ok_change_pod [OF c1(2)])
        (simp add: pod_ok_container NewContainerState_def ref_ok_def peaks_in_range_def maxInt64_def)
    then show ?thesis using Some None c1(1) by (simp add: AddOrUpdateContainer_def)
  next
    case (Some ct)
    have "cluster_ok ml label_string (change_container (cid_PodID cid) (cid_ContainerName cid) (\<lambda>ct. ct\<lparr>ct_Request := request\<rparr>) c)"
      by (rule change_container_ok [OF assms(1)]) (simp add: peaks_in_range_def)
    then show ?thesis using Some \<open>mget (cl_Pods c) (cid_PodID cid) = Some pod\<close> by (simp add: AddOrUpdateContainer_def)
  qed
qed (use assms in \<open>simp add: AddOrUpdateContainer_def\<close>)

section \<open>Pods\<close>

lemma ofold_total:
  assumes "I s" "\<And>x s. x \<in> set xs \<Longrightarrow> I s \<Longrightarrow> \<exists>s'. f s x = Some s' \<and> I s'"
  shows "\<exists>s'. ofold f s xs = Some s' \<and> I s'"
  using assms
proof (induction xs arbitrary: s)
  case (Cons x xs)
  obtain s1 where s1: "f s x = Some s1" "I s1" using Cons.prems(2) [of x s] Cons.prems(1) by auto
  have "\<exists>s'. ofold f s1 xs = Some s' \<and> I s'" by (rule Cons.IH [OF s1(2)]) (simp add: Cons.prems(2))
  then show ?case using s1(1) by simp
qed simp

lemma mhas_change_pod [simp]: "mhas (cl_Pods (change_pod pid f c)) pid' = mhas (cl_Pods c) pid'"
  by (auto simp: change_pod_def mhas_def split: option.split)

lemma link_container_ok:
  assumes "cluster_ok ml label_string c \<and> mhas (cl_Pods c) pid" "package_ok ml"
  shows "\<exists>c'. link_container ml pid c name = Some c' \<and> cluster_ok ml label_string c' \<and> mhas (cl_Pods c') pid"
proof -
  obtain a c1 where c1: "findOrCreateAggregateContainerState ml \<lparr>cid_PodID = pid, cid_ContainerName = name\<rparr> c = Some (a, c1)"
    "cluster_ok ml label_string c1" "cl_Pods c1 = cl_Pods c" "a < length (cl_heap c1)"
    using findOrCreate_ok [of ml label_string c "\<lparr>cid_PodID = pid, cid_ContainerName = name\<rparr>"] assms by auto
  have "cluster_ok ml label_string (change_container pid name (\<lambda>ct. ct\<lparr>ct_aggregator := Aggregation a\<rparr>) c1)"
    by (rule change_container_ok [OF c1(2)]) (use c1(4) in \<open>simp add: ref_ok_def peaks_in_range_def\<close>)
  then show ?thesis using assms(1) c1(1,3) by (simp add: link_container_def change_container_def)
qed

lemma AddOrUpdatePod_ok:
  assumes "cluster_ok ml label_string c" "package_ok ml"
  shows "\<exists>c'. AddOrUpdatePod ml label_string pid newLabels phase c = Some c' \<and> cluster_ok ml label_string c'"
proof -
  let ?k = "label_string newLabels"
  let ?pod = "case mget (cl_Pods c) pid of Some pod \<Rightarrow> pod | None \<Rightarrow> newPod pid"
  let ?c1 = "if mhas (cl_Pods c) pid then c else c\<lparr>cl_Pods := mput pid (newPod pid) (cl_Pods c)\<rparr>"
  let ?c2 = "?c1\<lparr>cl_labelSetMap := mput ?k newLabels (cl_labelSetMap ?c1)\<rparr>"
  let ?c3 = "change_pod pid (\<lambda>pod. pod\<lparr>ps_labelSetKey := ?k\<rparr>) ?c2"
  let ?l = "c\<lparr>cl_labelSetMap := mput ?k newLabels (cl_labelSetMap c)\<rparr>"
  have l: "cluster_ok ml label_string ?l" by (rule cluster_ok_label_set [OF assms(1)])
  note okl = cluster_okD [OF l]
  have new: "pod_ok ?l pid ((newPod pid)\<lparr>ps_labelSetKey := ?k\<rparr>)" by (simp add: pod_ok_def newPod_def mhas_def)
  have relabel: "pod_ok ?l p pod \<Longrightarrow> pod_ok ?l p (pod\<lparr>ps_labelSetKey := ?k\<rparr>)" for p pod by (simp add: pod_ok_def mhas_def)
  have phase: "cluster_ok ml label_string (change_pod pid (\<lambda>pod. pod\<lparr>ps_Phase := phase\<rparr>) c')" if "cluster_ok ml label_string c'" for c'
    by (rule cluster_ok_change_pod [OF that]) (simp add: pod_ok_def)
  have c3: "cluster_ok ml label_string ?c3 \<and> mhas (cl_Pods ?c3) pid"
  proof (cases "mget (cl_Pods c) pid")
    case None
    have "?c3 = ?l\<lparr>cl_Pods := mput pid ((newPod pid)\<lparr>ps_labelSetKey := ?k\<rparr>) (mput pid (newPod pid) (cl_Pods c))\<rparr>"
      using None by (simp add: change_pod_def mhas_def)
    moreover have "cluster_ok ml label_string (?l\<lparr>cl_Pods := mput pid ((newPod pid)\<lparr>ps_labelSetKey := ?k\<rparr>) (mput pid (newPod pid) (cl_Pods c))\<rparr>)"
      by (rule cluster_ok_pods [OF l]) (use okl(3,4) new in \<open>simp_all split: if_splits\<close>)
    ultimately show ?thesis by (simp add: mhas_def)
  next
    case (Some pod)
    then have "?c2 = ?l" by (simp add: mhas_def)
    moreover have "cluster_ok ml label_string (change_pod pid (\<lambda>pod. pod\<lparr>ps_labelSetKey := ?k\<rparr>) ?l)"
      by (rule cluster_ok_change_pod [OF l relabel])
    moreover have "mhas (cl_Pods (change_pod pid (\<lambda>pod. pod\<lparr>ps_labelSetKey := ?k\<rparr>) ?l)) pid"
      using Some by (simp only: mhas_change_pod) (simp add: mhas_def)
    ultimately show ?thesis by metis
  qed
  have "\<exists>c4. ofold (link_container ml pid) ?c3 (mkeys (ps_Containers ?pod)) = Some c4 \<and> cluster_ok ml label_string c4 \<and> mhas (cl_Pods c4) pid"
    by (rule ofold_total [where I = "\<lambda>c. cluster_ok ml label_string c \<and> mhas (cl_Pods c) pid", OF c3])
      (rule link_container_ok [OF _ assms(2)])
  then obtain c4 where c4: "ofold (link_container ml pid) ?c3 (mkeys (ps_Containers ?pod)) = Some c4" "cluster_ok ml label_string c4"
    by blast
  show ?thesis
  proof (cases "\<not> mhas (cl_Pods c) pid \<or> ps_labelSetKey ?pod \<noteq> ?k")
    case True
    then have "AddOrUpdatePod ml label_string pid newLabels phase c = Some (change_pod pid (\<lambda>pod. pod\<lparr>ps_Phase := phase\<rparr>) c4)"
      using c4(1) by (simp add: AddOrUpdatePod_def getLabelSetKey_def Let_def)
    then show ?thesis using phase [OF c4(2)] by blast
  next
    case False
    then have "?c2 = ?l" by simp
    then have "AddOrUpdatePod ml label_string pid newLabels phase c = Some (change_pod pid (\<lambda>pod. pod\<lparr>ps_Phase := phase\<rparr>) ?l)"
      using False by (simp add: AddOrUpdatePod_def getLabelSetKey_def Let_def)
    then show ?thesis using phase [OF l] by blast
  qed
qed

lemma DeletePod_ok:
  assumes "cluster_ok ml label_string c"
  shows "cluster_ok ml label_string (DeletePod pid c)"
  unfolding DeletePod_def by (rule cluster_ok_pods [OF assms]) (use cluster_okD [OF assms] in \<open>simp_all split: if_splits\<close>)

section \<open>Autoscaler objects\<close>

lemma cluster_ok_vpas:
  assumes "cluster_ok ml label_string c" "gomap_ok vpas" "\<And>vid v. mget vpas vid = Some v \<Longrightarrow> vpa_ok label_string c vid v"
  shows "cluster_ok ml label_string (c\<lparr>cl_Vpas := vpas\<rparr>)"
proof -
  let ?c = "c\<lparr>cl_Vpas := vpas\<rparr>"
  note ok = cluster_okD [OF assms(1)]
  have "pod_ok ?c pid pod" if "mget (cl_Pods c) pid = Some pod" for pid pod
    by (rule pod_ok_mono [OF ok(4) [OF that]]) simp_all
  moreover have "vpa_ok label_string ?c vid v" if "mget vpas vid = Some v" for vid v
    by (rule vpa_ok_same [OF assms(3) [OF that]]) simp_all
  moreover have "aggregations_ok ml ?c" using ok(1) by (simp add: aggregations_ok_def)
  ultimately show ?thesis using ok(2,3) assms(2) by (simp add: cluster_ok_def)
qed

lemma UseAggregation_simps [simp]:
  "vs_ID (UseAggregationIfMatching lsm key a v) = vs_ID v"
  "vs_PodSelector (UseAggregationIfMatching lsm key a v) = vs_PodSelector v"
  "vs_ContainersInitialAggregateState (UseAggregationIfMatching lsm key a v) = vs_ContainersInitialAggregateState v"
  "matchesAggregation lsm' (UseAggregationIfMatching lsm key a v) key' = matchesAggregation lsm' v key'"
  "gomap_ok (vs_aggregateContainerStates v) \<Longrightarrow> gomap_ok (vs_aggregateContainerStates (UseAggregationIfMatching lsm key a v))"
  by (simp_all add: UseAggregationIfMatching_def matchesAggregation_def)

lemma mget_use_aggregation:
  "mget (vs_aggregateContainerStates (UseAggregationIfMatching lsm key a v)) k =
     (case mget (vs_aggregateContainerStates v) k of
        Some a' \<Rightarrow> Some a' | None \<Rightarrow> if k = key \<and> matchesAggregation lsm v key then Some a else None)"
  by (auto simp: UseAggregationIfMatching_def UsesAggregation_def split: option.split)

text \<open>The loop that links a new object: each matching key gets the address the map has.\<close>

lemma link_loop:
  fixes lsm xs v
  defines "v' \<equiv> foldl (\<lambda>v (key, a). UseAggregationIfMatching lsm key a v) v xs"
  shows "vs_ID v' = vs_ID v" "vs_PodSelector v' = vs_PodSelector v"
    "vs_ContainersInitialAggregateState v' = vs_ContainersInitialAggregateState v"
    "gomap_ok (vs_aggregateContainerStates v) \<Longrightarrow> gomap_ok (vs_aggregateContainerStates v')"
    "mget (vs_aggregateContainerStates v') k =
       (case mget (vs_aggregateContainerStates v) k of
          Some a \<Rightarrow> Some a | None \<Rightarrow> if matchesAggregation lsm v k then mget xs k else None)"
  unfolding v'_def
  by (induction xs arbitrary: v) (auto simp: mget_use_aggregation split: option.split if_splits)

lemma linked_vpa_ok:
  assumes "sel_respects label_string sel"
  shows "vpa_ok label_string c vid (linked_vpa vid sel created c)"
proof -
  let ?v = "NewVpa vid (Some sel) created"
  have "matchesAggregation lsm (linked_vpa vid sel created c) key = matchesAggregation lsm ?v key" for lsm key
    by (simp add: matchesAggregation_def linked_vpa_def link_loop(1,2))
  moreover have "mget (vs_aggregateContainerStates ?v) key = None" for key by (simp add: NewVpa_def)
  ultimately have "vpa_linked c (linked_vpa vid sel created c)"
    by (simp add: vpa_linked_def) (simp add: linked_vpa_def link_loop(5))
  moreover have "vs_ID ?v = vid" "vs_PodSelector ?v = Some sel" "gomap_ok (vs_aggregateContainerStates ?v)"
    "vs_ContainersInitialAggregateState ?v = []" by (simp_all add: NewVpa_def)
  ultimately show ?thesis using assms by (simp add: vpa_ok_def) (simp add: linked_vpa_def link_loop(1-4))
qed

lemma update_fields_ok:
  assumes "vpa_ok label_string c vid v"
  shows "vpa_ok label_string c vid (update_vpa_fields apiObject v)"
proof -
  have same: "vs_ID (update_vpa_fields apiObject v) = vs_ID v" "vs_PodSelector (update_vpa_fields apiObject v) = vs_PodSelector v"
    "vs_aggregateContainerStates (update_vpa_fields apiObject v) = vs_aggregateContainerStates v"
    "vs_ContainersInitialAggregateState (update_vpa_fields apiObject v) = vs_ContainersInitialAggregateState v"
    by (simp_all add: update_vpa_fields_def Let_def split: option.split)
  then have "matchesAggregation lsm (update_vpa_fields apiObject v) key = matchesAggregation lsm v key" for lsm key
    by (simp add: matchesAggregation_def)
  then show ?thesis using assms by (simp add: vpa_ok_def vpa_linked_def same)
qed

lemma cluster_ok_put_vpa:
  assumes "cluster_ok ml label_string c" "vpa_ok label_string c vid v"
  shows "cluster_ok ml label_string (c\<lparr>cl_Vpas := mput vid v (cl_Vpas c)\<rparr>)"
  by (rule cluster_ok_vpas [OF assms(1)]) (use assms(2) cluster_okD [OF assms(1)] in \<open>auto split: if_splits\<close>)

lemma DeleteVpa_ok:
  assumes "cluster_ok ml label_string c"
  shows "cluster_ok ml label_string (snd (DeleteVpa vid c))"
proof -
  have "cluster_ok ml label_string (c\<lparr>cl_Vpas := mdel vid (cl_Vpas c)\<rparr>)"
    by (rule cluster_ok_vpas [OF assms]) (use cluster_okD [OF assms] in \<open>simp_all split: if_splits\<close>)
  then show ?thesis using assms by (simp add: DeleteVpa_def)
qed

lemma AddOrUpdateVpa_ok:
  assumes "cluster_ok ml label_string c" "label_law label_string as_sel"
  shows "\<exists>err c'. AddOrUpdateVpa as_sel apiObject c = Some (err, c') \<and> cluster_ok ml label_string c'"
proof (cases "as_sel (va_Selector apiObject)")
  case (Inr sel)
  let ?vid = "\<lparr>vid_Namespace = va_Namespace apiObject, vid_VpaName = va_Name apiObject\<rparr>"
  have r: "sel_respects label_string sel" using assms(2) Inr unfolding label_law_def by blast
  have put: "cluster_ok ml label_string (c'\<lparr>cl_Vpas := mput ?vid (update_vpa_fields apiObject (linked_vpa ?vid sel created c')) (cl_Vpas c')\<rparr>)"
    if "cluster_ok ml label_string c'" for c' created
    by (rule cluster_ok_put_vpa [OF that update_fields_ok [OF linked_vpa_ok [OF r]]])
  show ?thesis
  proof (cases "mget (cl_Vpas c) ?vid")
    case None
    then show ?thesis using Inr put [OF assms(1)] by (simp add: AddOrUpdateVpa_def Let_def)
  next
    case (Some v)
    note v = cluster_okD(6) [OF assms(1) Some]
    then obtain old where old: "vs_PodSelector v = Some old" by (auto simp: vpa_ok_def split: option.splits)
    show ?thesis
      using Inr Some old put [OF DeleteVpa_ok [OF assms(1)]] cluster_ok_put_vpa [OF assms(1) update_fields_ok [OF v]]
      by (cases "fst old = fst sel") (simp_all add: AddOrUpdateVpa_def Let_def)
  qed
qed (use assms(1) in \<open>simp add: AddOrUpdateVpa_def Let_def\<close>)

section \<open>Garbage collection\<close>

lemma collect_key_ok:
  assumes "cluster_ok ml label_string c"
  shows "cluster_ok ml label_string (collect_key c key)"
proof -
  let ?c = "collect_key c key"
  note ok = cluster_okD [OF assms]
  have same: "cl_Pods ?c = cl_Pods c" "cl_labelSetMap ?c = cl_labelSetMap c" "cl_heap ?c = cl_heap c"
    "cl_aggregateStateMap ?c = mdel key (cl_aggregateStateMap c)" "cl_Vpas ?c = change_vpas (DeleteAggregation key) (cl_Vpas c)"
    by (simp_all add: collect_key_def)
  have "pod_ok ?c pid pod" if "mget (cl_Pods c) pid = Some pod" for pid pod by (rule pod_ok_mono [OF ok(4) [OF that]]) (simp_all add: same)
  moreover have "vpa_ok label_string ?c vid v" if "mget (cl_Vpas ?c) vid = Some v" for vid v
  proof -
    from that obtain v0 where v0: "mget (cl_Vpas c) vid = Some v0" "v = DeleteAggregation key v0"
      by (auto simp: same mget_change_vpas)
    have m: "matchesAggregation lsm v k = matchesAggregation lsm v0 k" for lsm k
      by (simp add: v0(2) DeleteAggregation_def matchesAggregation_def)
    show ?thesis using ok(6) [OF v0(1)] unfolding vpa_ok_def vpa_linked_def m same by (simp add: v0(2) DeleteAggregation_def)
  qed
  moreover have "aggregations_ok ml ?c" using ok(1) by (auto simp: aggregations_ok_def same split: if_splits)
  ultimately show ?thesis using ok(2,3,5) by (simp add: cluster_ok_def same gomap_ok_change_vpas)
qed

lemma garbage_collect_ok:
  assumes "cluster_ok ml label_string c"
  shows "cluster_ok ml label_string (GarbageCollectAggregateCollectionStates now c)"
proof -
  have "cluster_ok ml label_string (foldl collect_key c ks)" for ks
    using assms by (induction ks arbitrary: c) (simp_all add: collect_key_ok)
  then show ?thesis by (simp add: GarbageCollectAggregateCollectionStates_def)
qed


section \<open>The options of the package\<close>

text \<open>
  What the package's variables need of the mathematical functions; the logarithm of the growth of buckets is not tiny.
\<close>

definition growth_ratio :: f64 where
  "growth_ratio = fadd (Fin 1) HistogramBucketSizeGrowth"

definition math_laws :: "mathLib \<Rightarrow> bool" where
  "math_laws ml \<longleftrightarrow> log_law ml \<and> exp2_nonneg ml \<and>
     (case m_Log ml growth_ratio of Fin b \<Rightarrow> 1 / 1024 \<le> b | _ \<Rightarrow> False)"

lemma mkf_between:
  assumes "mkf a = Fin a" "mkf b = Fin b" "a \<le> x" "x \<le> b"
  shows "\<exists>y. mkf x = Fin y \<and> a \<le> y \<and> y \<le> b"
  using mkf_mono [OF assms(3)] mkf_mono [OF assms(4)] assms(1,2) by (cases "mkf x") simp_all

lemma growth_ratio_value: "\<exists>q. growth_ratio = Fin q \<and> 33 / 32 \<le> q \<and> q \<le> 17 / 16"
proof -
  obtain g where g: "HistogramBucketSizeGrowth = Fin g" "1 / 32 \<le> g" "g \<le> 1 / 16"
    using mkf_between [of "1 / 32" "1 / 16" "1 / 20"] by (auto simp: HistogramBucketSizeGrowth_def mkf_dyadic)
  then obtain q where "mkf (1 + g) = Fin q" "33 / 32 \<le> q" "q \<le> 17 / 16"
    using mkf_between [of "33 / 32" "17 / 16" "1 + g"] by (auto simp: mkf_dyadic)
  then show ?thesis by (simp add: growth_ratio_def g(1))
qed

lemma epsilon_positive: "\<not> fle epsilon (Fin 0)"
proof -
  obtain y where y: "mkf (1 / 10000) = Fin y" using mkf_below [of "1 / 10000" 0] by auto
  have "exp2 (- 1022) \<le> 1 / 2 ^ 14" by (simp add: exp2_def)
  then have "exp2 (- 1022) \<le> 1 / 10000" by simp
  from rnd_error [OF this] have "- (rnd (1 / 10000) - 1 / 10000) \<le> 1 / 10000 / 2 ^ 53" unfolding abs_le_iff by blast
  then have "0 < rnd (1 / 10000)" by simp
  then have "0 < y" using y by (simp add: mkf_def Let_def split: if_splits)
  then show ?thesis by (simp add: epsilon_def y)
qed

lemma f_ceil_quotient:
  assumes "0 \<le> y" "y \<le> 1000" "1 / 1024 \<le> z"
  shows "0 \<le> f_ceil_int (fdiv (Fin y) (Fin z))"
proof -
  have "y / z \<le> 1000 / (1 / 1024)" using assms by (intro frac_le) simp_all
  also have "\<dots> \<le> 2 ^ 20" by simp
  finally obtain q where q: "mkf (y / z) = Fin q" "0 \<le> q" "q \<le> 2 ^ 20"
    using mkf_below [of "y / z" 20] assms by auto
  have "\<lceil>q\<rceil> \<le> \<lceil>2 ^ 20 :: rat\<rceil>" using q(3) by (rule ceiling_mono)
  moreover have "0 \<le> \<lceil>q\<rceil>" using q(2) by simp
  ultimately show ?thesis using q assms by (simp add: f_ceil_int_def in_i64_def maxInt64_def minInt64_def)
qed

lemma exponential_options:
  assumes "math_laws ml" "1 \<le> m" "m \<le> 2 ^ 40" "1 / 128 \<le> f" "f \<le> 2 ^ 40"
  shows "\<exists>opts. NewExponentialHistogramOptions ml address (Fin m) (Fin f) growth_ratio epsilon = Inr opts \<and>
    0 < NumBuckets opts \<and> finds_buckets ml opts"
proof -
  obtain q where q: "growth_ratio = Fin q" "33 / 32 \<le> q" "q \<le> 17 / 16" using growth_ratio_value by blast
  obtain b where b: "m_Log ml (Fin q) = Fin b" "1 / 1024 \<le> b" using assms(1) by (auto simp: math_laws_def q(1) split: f64.splits)
  have log: "log_law ml" using assms(1) by (simp add: math_laws_def)
  obtain r where r: "mkf (q + - 1) = Fin r" "0 \<le> r" "r \<le> 1" using mkf_below [of "q + - 1" 0] q by auto
  have "m * r \<le> 2 ^ 40 * 1" using assms(2,3) r by (intro mult_mono) simp_all
  then obtain p where p: "mkf (m * r) = Fin p" "0 \<le> p" "p \<le> 2 ^ 40" using mkf_below [of "m * r" 40] assms(2) r by auto
  have "p / f \<le> 2 ^ 40 / (1 / 128)" using p assms(4) by (intro frac_le) simp_all
  also have "\<dots> = 2 ^ 47" by simp
  finally obtain d where d: "mkf (p / f) = Fin d" "0 \<le> d" "d \<le> 2 ^ 47" using mkf_below [of "p / f" 47] p assms(4) by auto
  then obtain v where v: "mkf (d + 1) = Fin v" using mkf_below [of "d + 1" 48] by auto
  have "fle (mkf 1) (mkf (d + 1))" using d by (intro mkf_mono) simp
  then have "1 \<le> v" using v by (simp add: mkf_dyadic)
  then obtain y where y: "m_Log ml (Fin v) = Fin y" "0 \<le> y" "y \<le> 1000" using log by (auto simp: log_law_def)
  have "f \<noteq> 0" using assms(4) by auto
  then have "go_log ml (Fin q) (fadd (fdiv (fmul (Fin m) (fsub (Fin q) (Fin 1))) (Fin f)) (Fin 1)) = fdiv (Fin y) (Fin b)"
    using r p d v y b by (simp add: go_log_def fsub_def)
  then have n: "0 \<le> f_ceil_int (go_log ml (Fin q) (fadd (fdiv (fmul (Fin m) (fsub (Fin q) (Fin 1))) (Fin f)) (Fin 1)))"
    using f_ceil_quotient [OF y(2,3) b(2)] by simp
  let ?o = "\<lparr>xo_numBuckets = f_ceil_int (go_log ml (Fin q) (fadd (fdiv (fmul (Fin m) (fsub (Fin q) (Fin 1))) (Fin f)) (Fin 1))) + 1,
    xo_firstBucketSize = Fin f, xo_ratio = Fin q, xo_epsilon = epsilon\<rparr>"
  have "NewExponentialHistogramOptions ml address (Fin m) (Fin f) growth_ratio epsilon = Inr (Exponential address ?o)"
    using assms(2,4) q(2,3) epsilon_positive by (simp add: NewExponentialHistogramOptions_def q(1))
  moreover have "finds_buckets ml (Exponential address ?o)"
    by (rule exponential_finds_buckets) (use n q(2,3) b log assms(4) in simp_all)
  ultimately show ?thesis using n by (intro exI [of _ "Exponential address ?o"]) simp
qed

lemma new_decaying_shaped:
  assumes "0 < NumBuckets opts" "finds_buckets ml opts"
  shows "\<exists>h. NewDecayingHistogram opts t = Some h \<and> shaped ml (dh_histogram h)"
  using assms by (simp add: NewDecayingHistogram_def NewHistogram_def shaped_def Let_def)

lemma package_ok_laws:
  assumes "math_laws ml"
  shows "package_ok ml"
proof -
  obtain f where f: "mkf (1 / 100) = Fin f" "1 / 128 \<le> f" "f \<le> 1 / 64"
    using mkf_between [of "1 / 128" "1 / 64" "1 / 100"] by (auto simp: mkf_dyadic)
  obtain cpu where cpu: "cpuHistogramOptions ml = Some cpu" "0 < NumBuckets cpu" "finds_buckets ml cpu"
    using exponential_options [OF assms, of 1000 f 1] f unfolding cpuHistogramOptions_def f(1) growth_ratio_def by auto
  obtain memory where memory: "memoryHistogramOptions ml = Some memory" "0 < NumBuckets memory" "finds_buckets ml memory"
    using exponential_options [OF assms, of "10 ^ 12" "10 ^ 7" 2] unfolding memoryHistogramOptions_def growth_ratio_def by auto
  obtain hc hm where "NewDecayingHistogram cpu CPUHistogramDecayHalfLife = Some hc" "shaped ml (dh_histogram hc)"
    "NewDecayingHistogram memory MemoryHistogramDecayHalfLife = Some hm" "shaped ml (dh_histogram hm)"
    using new_decaying_shaped [OF cpu(2,3)] new_decaying_shaped [OF memory(2,3)] by meson
  then show ?thesis using cpu(1) memory(1) assms
    by (simp add: package_ok_def NewAggregateContainerState_def aggregation_shaped_def math_laws_def)
qed


section \<open>Histories of the cluster\<close>

text \<open>The calls that the feeder and the routines of the recommender make.\<close>

datatype 'sel clusterEvent =
    PodSeen podID labels string
  | PodGone podID
  | ContainerSeen containerID resources
  | SampleSeen containerID containerUsageSample
  | OOMSeen containerID time resourceAmount
  | VpaSeen "'sel apiVpa"
  | VpaGone vpaID
  | Collected time

fun cluster_step ::
  "mathLib \<Rightarrow> (labels \<Rightarrow> string) \<Rightarrow> 'sel vpa_selector \<Rightarrow> 'sel clusterState \<Rightarrow> 'sel clusterEvent \<Rightarrow> 'sel clusterState option" where
  "cluster_step ml label_string as_sel c (PodSeen pid ls phase) = AddOrUpdatePod ml label_string pid ls phase c"
| "cluster_step ml label_string as_sel c (PodGone pid) = Some (DeletePod pid c)"
| "cluster_step ml label_string as_sel c (ContainerSeen cid request) = map_option snd (AddOrUpdateContainer ml cid request c)"
| "cluster_step ml label_string as_sel c (SampleSeen cid x) = map_option snd (ClusterAddSample ml cid x c)"
| "cluster_step ml label_string as_sel c (OOMSeen cid t memory) = map_option snd (ClusterRecordOOM ml cid t memory c)"
| "cluster_step ml label_string as_sel c (VpaSeen apiObject) = map_option snd (AddOrUpdateVpa as_sel apiObject c)"
| "cluster_step ml label_string as_sel c (VpaGone vid) = Some (snd (DeleteVpa vid c))"
| "cluster_step ml label_string as_sel c (Collected now) = Some (GarbageCollectAggregateCollectionStates now c)"

text \<open>Samples and memory amounts are in the range of their types.\<close>

fun usable_event :: "'sel clusterEvent \<Rightarrow> bool" where
  "usable_event (SampleSeen _ x) = typed_sample x"
| "usable_event (OOMSeen _ _ memory) = in_i64 memory"
| "usable_event _ = True"

lemma cluster_step_ok:
  assumes "cluster_ok ml label_string c" "package_ok ml" "label_law label_string as_sel" "usable_event ev"
  shows "\<exists>c'. cluster_step ml label_string as_sel c ev = Some c' \<and> cluster_ok ml label_string c'"
proof (cases ev)
  case (PodSeen pid ls phase)
  then show ?thesis using AddOrUpdatePod_ok [OF assms(1,2)] by simp
next
  case (ContainerSeen cid request)
  then show ?thesis using AddOrUpdateContainer_ok [OF assms(1,2), of cid request] by auto
next
  case (SampleSeen cid x)
  then show ?thesis using ClusterAddSample_ok [OF assms(1,2), of x cid] assms(4) by auto
next
  case (OOMSeen cid t memory)
  then show ?thesis using ClusterRecordOOM_ok [OF assms(1,2), of memory cid t] assms(4) by auto
next
  case (VpaSeen apiObject)
  then show ?thesis using AddOrUpdateVpa_ok [OF assms(1,3), of apiObject] by auto
qed (simp_all add: DeletePod_ok DeleteVpa_ok garbage_collect_ok assms(1))

lemma cluster_history_ok:
  assumes "math_laws ml" "label_law label_string as_sel" "\<forall>ev\<in>set evs. usable_event ev"
  shows "\<exists>c. ofold (cluster_step ml label_string as_sel) NewClusterState evs = Some c \<and> cluster_ok ml label_string c"
proof -
  have "\<exists>c'. ofold (cluster_step ml label_string as_sel) c evs = Some c' \<and> cluster_ok ml label_string c'"
    if "cluster_ok ml label_string c" for c
    using that assms(3)
  proof (induction evs arbitrary: c)
    case (Cons ev evs)
    obtain c1 where "cluster_step ml label_string as_sel c ev = Some c1" "cluster_ok ml label_string c1"
      using cluster_step_ok [OF Cons.prems(1) package_ok_laws [OF assms(1)] assms(2), of ev] Cons.prems(2) by auto
    then show ?case using Cons.IH [of c1] Cons.prems(2) by auto
  qed simp
  from this [OF cluster_ok_new] show ?thesis .
qed

text \<open>
  C17: Whatever pods, containers, samples, out-of-memory events, autoscaler objects and garbage collections the
  recommender sees, in whatever order, its state never panics, and in the end every autoscaler object is linked
  to exactly the aggregations of the cluster that it matches, each the very same object; and no two keys share
  an aggregation.
\<close>

theorem vpas_linked_to_matching_aggregations:
  assumes "math_laws ml" "label_law label_string as_sel" "\<forall>ev\<in>set evs. usable_event ev"
  shows "\<exists>c. ofold (cluster_step ml label_string as_sel) NewClusterState evs = Some c \<and>
    (\<forall>vid v key. mget (cl_Vpas c) vid = Some v \<longrightarrow> mget (vs_aggregateContainerStates v) key =
       (if matchesAggregation (cl_labelSetMap c) v key then mget (cl_aggregateStateMap c) key else None)) \<and>
    (\<forall>key key' a. mget (cl_aggregateStateMap c) key = Some a \<and> mget (cl_aggregateStateMap c) key' = Some a \<longrightarrow> key = key')"
proof -
  obtain c where c: "ofold (cluster_step ml label_string as_sel) NewClusterState evs = Some c" "cluster_ok ml label_string c"
    using cluster_history_ok [OF assms] by blast
  have "mget (vs_aggregateContainerStates v) key =
      (if matchesAggregation (cl_labelSetMap c) v key then mget (cl_aggregateStateMap c) key else None)"
    if "mget (cl_Vpas c) vid = Some v" for vid v key
    using cluster_okD(6) [OF c(2) that] by (simp add: vpa_ok_def vpa_linked_def)
  moreover have "key = key'" if "mget (cl_aggregateStateMap c) key = Some a" "mget (cl_aggregateStateMap c) key' = Some a" for key key' a
    using cluster_okD(1) [OF c(2)] that unfolding aggregations_ok_def by blast
  ultimately show ?thesis using c(1) by blast
qed

text \<open>A pod that is relabelled, samples before and after, an object that comes late, and a collection.\<close>

definition demo_laws :: mathLib where
  "demo_laws = \<lparr>m_Log = (\<lambda>_. Fin 1), m_Pow = (\<lambda>x _. x), m_Exp2 = (\<lambda>_. Fin 1)\<rparr>"

definition demo_label_string :: "labels \<Rightarrow> string" where
  "demo_label_string ls = mget0 [] ls ''app''"

definition demo_as_sel :: "string vpa_selector" where
  "demo_as_sel x = (if x = '''' then Inl ''empty'' else Inr (x, \<lambda>ls. mget0 [] ls ''app'' = x))"

definition demo_events :: "string clusterEvent list" where
  "demo_events =
     (let pid = \<lparr>pid_Namespace = ''ns'', pid_PodName = ''p''\<rparr>; cid = \<lparr>cid_PodID = pid, cid_ContainerName = ''c''\<rparr>;
          vpa_object = \<lparr>va_Namespace = ''ns'', va_Name = ''v'', va_CreationTimestamp = 1, va_Selector = ''b'', va_UpdatePolicy = None,
            va_ResourcePolicy = None, va_Recommendation = None, va_Conditions = []\<rparr>
      in [PodSeen pid [(''app'', ''a'')] ''Running'', ContainerSeen cid [], SampleSeen cid (demo_cpu_sample 9 15000 1000),
          PodSeen pid [(''app'', ''b'')] ''Running'', VpaSeen vpa_object, OOMSeen cid 12 1000, Collected 10, PodGone pid,
          SampleSeen cid (demo_cpu_sample 4 25000 (- 7))])"

lemma demo_laws_ok: "math_laws demo_laws"
  using growth_ratio_value by (auto simp: math_laws_def log_law_def exp2_nonneg_def demo_laws_def flt_simps)

lemma demo_label_law: "label_law demo_label_string demo_as_sel"
  by (auto simp: label_law_def sel_respects_def demo_as_sel_def demo_label_string_def)

lemma demo_events_usable: "\<forall>ev\<in>set demo_events. usable_event ev"
  by (simp add: demo_events_def Let_def demo_cpu_sample_def typed_sample_def in_i64_def minInt64_def maxInt64_def)

theorem vpas_linked_to_matching_aggregations_witness:
  "\<exists>c. ofold (cluster_step demo_laws demo_label_string demo_as_sel) NewClusterState demo_events = Some c \<and>
    (\<forall>vid v key. mget (cl_Vpas c) vid = Some v \<longrightarrow> mget (vs_aggregateContainerStates v) key =
       (if matchesAggregation (cl_labelSetMap c) v key then mget (cl_aggregateStateMap c) key else None)) \<and>
    (\<forall>key key' a. mget (cl_aggregateStateMap c) key = Some a \<and> mget (cl_aggregateStateMap c) key' = Some a \<longrightarrow> key = key')"
  by (rule vpas_linked_to_matching_aggregations [OF demo_laws_ok demo_label_law demo_events_usable])


section \<open>Samples of an orphan aggregation\<close>

text \<open>
  \<open>AddOrUpdatePod\<close> links the containers of a relabelled pod to aggregations directly, not through the proxy.  When
  such an aggregation is collected the container keeps it, and what it is given from then on reaches no aggregation
  of the cluster.
\<close>

definition only_cell :: "address \<Rightarrow> 'sel clusterState \<Rightarrow> 'sel clusterState \<Rightarrow> bool" where
  "only_cell a c c' \<longleftrightarrow> (\<exists>s. c' = c\<lparr>cl_heap := (cl_heap c)[a := s]\<rparr>)"

lemma only_cell_change: "only_cell a c c' \<Longrightarrow> change_aggregation f (a, c') = Some c'' \<Longrightarrow> only_cell a c c''"
  by (auto simp: only_cell_def change_aggregation_def)

interpretation orphan: aggregator "aggregator_of ml (Aggregation a)"
    "\<lambda>c'. aggregator_inv ml label_string c0 pid name (Aggregation a) c' \<and> only_cell a c c'"
  for ml label_string c0 pid name a c
proof
  fix c' :: "'a clusterState" and x
  assume c': "aggregator_inv ml label_string c0 pid name (Aggregation a) c' \<and> only_cell a c c'" and x: "usable_sample x"
  obtain c1 where c1: "sa_AddSample (aggregator_of ml (Aggregation a)) x c' = Some c1"
    "aggregator_inv ml label_string c0 pid name (Aggregation a) c1"
    using container.add_total [OF conjunct1 [OF c'] x] by blast
  then show "\<exists>c1. sa_AddSample (aggregator_of ml (Aggregation a)) x c' = Some c1 \<and>
      aggregator_inv ml label_string c0 pid name (Aggregation a) c1 \<and> only_cell a c c1"
    using only_cell_change [OF conjunct2 [OF c'], of "aggregateSample ml x" c1] by (auto simp: aggregator_of_def resolve_def)
  assume "us_Resource x = ResourceMemory"
  then obtain c2 where c2: "sa_SubtractSample (aggregator_of ml (Aggregation a)) x c' = Some c2"
    "aggregator_inv ml label_string c0 pid name (Aggregation a) c2"
    using container.subtract_total [OF conjunct1 [OF c'] x] by blast
  then show "\<exists>c1. sa_SubtractSample (aggregator_of ml (Aggregation a)) x c' = Some c1 \<and>
      aggregator_inv ml label_string c0 pid name (Aggregation a) c1 \<and> only_cell a c c1"
    using only_cell_change [OF conjunct2 [OF c'], of "subtractSample ml x" c2] by (auto simp: aggregator_of_def resolve_def)
qed

lemma orphan_samples_are_lost:
  assumes "cluster_ok ml label_string c" "package_ok ml" "typed_sample x" "GetContainer cid c = Some ct"
    "ct_aggregator ct = Aggregation a" "\<And>key. mget (cl_aggregateStateMap c) key \<noteq> Some a"
  shows "\<exists>err c'. ClusterAddSample ml cid x c = Some (err, c') \<and> cl_aggregateStateMap c' = cl_aggregateStateMap c \<and>
    (\<forall>key a'. mget (cl_aggregateStateMap c) key = Some a' \<longrightarrow> cl_heap c' ! a' = cl_heap c ! a')"
proof -
  obtain pod where pod: "mget (cl_Pods c) (cid_PodID cid) = Some pod" "mget (ps_Containers pod) (cid_ContainerName cid) = Some ct"
    using assms(4) by (auto simp: GetContainer_def split: option.splits)
  note inv = container_inv [OF assms(1,2) pod]
  have "only_cell a c c" unfolding only_cell_def by (rule exI [of _ "cl_heap c ! a"]) simp
  then obtain b ct' c' where add: "AddContainerSample (aggregator_of ml (Aggregation a)) x (ct, c) = Some (b, ct', c')" "only_cell a c c'"
    using orphan.typed_total [OF conjI [OF inv(1) [unfolded assms(5)]] assms(3) inv(2)] by blast
  obtain s where "c' = c\<lparr>cl_heap := (cl_heap c)[a := s]\<rparr>" using add(2) by (auto simp: only_cell_def)
  moreover have "a \<noteq> a'" if "mget (cl_aggregateStateMap c) key = Some a'" for key a' using that assms(6) [of key] by auto
  ultimately have "cl_aggregateStateMap c' = cl_aggregateStateMap c" "\<forall>key a'. mget (cl_aggregateStateMap c) key = Some a' \<longrightarrow> cl_heap c' ! a' = cl_heap c ! a'"
    by auto
  moreover have "cl_heap (change_container pid' name f c'') = cl_heap c''" "cl_aggregateStateMap (change_container pid' name f c'') = cl_aggregateStateMap c''"
    for pid' name f and c'' :: "'a clusterState"
    by (simp_all add: change_container_def change_pod_def split: option.split)
  ultimately show ?thesis using add(1) pod assms(5) by (simp add: ClusterAddSample_def)
qed


end
