(* ===== verification/VpaCapping.thy ===== *)
theory VpaCapping
  imports VpaApi
begin

text \<open>
  \<open>utils/vpa/capping.go\<close>: a recommendation is adjusted to the resource policy of its autoscaler object and to
  the limits of the containers of the pod it is for.
\<close>

section \<open>Quantities\<close>

text \<open>\<open>MilliValue\<close> rounds up.\<close>

definition MilliValue :: "quantity \<Rightarrow> int" where
  "MilliValue q = \<lceil>q * 1000\<rceil>"

section \<open>Capping\<close>

definition cappedToMinAllowed :: string where "cappedToMinAllowed = ''capped to minAllowed''"
definition cappedToMaxAllowed :: string where "cappedToMaxAllowed = ''capped to maxAllowed''"
definition cappedToLimit :: string where "cappedToLimit = ''capped to container limit''"

definition toCappingAnnotation :: "string \<Rightarrow> string \<Rightarrow> string" where
  "toCappingAnnotation resourceName action = resourceName @ '' '' @ action"

definition maybeCapToMin :: "quantity \<Rightarrow> string \<Rightarrow> containerResourcePolicy \<Rightarrow> quantity \<times> bool" where
  "maybeCapToMin recommended resourceName policy =
     (case mget (cp_MinAllowed policy) resourceName of
        None \<Rightarrow> (recommended, False)
      | Some mn \<Rightarrow> if mn \<noteq> 0 \<and> recommended < mn then (mn, True) else (recommended, False))"

definition maybeCapToMax :: "quantity \<Rightarrow> string \<Rightarrow> containerResourcePolicy \<Rightarrow> quantity \<times> bool" where
  "maybeCapToMax recommended resourceName policy =
     (case mget (cp_MaxAllowed policy) resourceName of
        None \<Rightarrow> (recommended, False)
      | Some mx \<Rightarrow> if mx \<noteq> 0 \<and> recommended > mx then (mx, True) else (recommended, False))"

definition cap_entry ::
  "containerResourcePolicy \<Rightarrow> resourceList \<times> string list \<Rightarrow> string \<times> quantity \<Rightarrow> resourceList \<times> string list" where
  "cap_entry policy acc e =
     (case (acc, e) of ((recommendation, annotations), (resourceName, recommended)) \<Rightarrow>
        (case maybeCapToMin recommended resourceName policy of (cappedToMin, isMin) \<Rightarrow>
           (case maybeCapToMax cappedToMin resourceName policy of (cappedToMax, isMax) \<Rightarrow>
              (mput resourceName cappedToMax (mput resourceName cappedToMin recommendation),
               annotations @ (if isMin then [toCappingAnnotation resourceName cappedToMinAllowed] else [])
                 @ (if isMax then [toCappingAnnotation resourceName cappedToMaxAllowed] else [])))))"

definition applyVPAPolicy :: "resourceList \<Rightarrow> containerResourcePolicy option \<Rightarrow> resourceList \<times> string list" where
  "applyVPAPolicy recommendation policy =
     (case policy of
        None \<Rightarrow> (recommendation, [])
      | Some p \<Rightarrow> foldl (cap_entry p) (recommendation, []) recommendation)"

definition limit_entry :: "resourceList \<times> string list \<Rightarrow> string \<times> quantity \<Rightarrow> resourceList \<times> string list" where
  "limit_entry acc e =
     (case (acc, e) of ((recommendation, annotations), (resourceName, limit)) \<Rightarrow>
        (case mget recommendation resourceName of
           None \<Rightarrow> (recommendation, annotations)
         | Some recommendedValue \<Rightarrow>
             if MilliValue recommendedValue > MilliValue limit
             then (mput resourceName limit recommendation, annotations @ [toCappingAnnotation resourceName cappedToLimit])
             else (recommendation, annotations)))"

definition capRecommendationToContainerLimit :: "resourceList \<Rightarrow> vpaContainer \<Rightarrow> resourceList \<times> string list" where
  "capRecommendationToContainerLimit recommendation container = foldl limit_entry (recommendation, []) (vn_Limits container)"

text \<open>The closure \<open>process\<close>: the changed list with its annotations.\<close>

definition process_list :: "vpaContainer \<Rightarrow> containerResourcePolicy option \<Rightarrow> resourceList \<Rightarrow> resourceList \<times> string list" where
  "process_list container policy recommendation =
     (case applyVPAPolicy recommendation policy of (r1, a1) \<Rightarrow>
        (case capRecommendationToContainerLimit r1 container of (r2, a2) \<Rightarrow> (r2, a1 @ a2)))"

definition getCappedRecommendationForContainer ::
  "vpaContainer \<Rightarrow> recommendedContainer option \<Rightarrow> podResourcePolicy option \<Rightarrow> string + recommendedContainer \<times> string list" where
  "getCappedRecommendationForContainer container containerRecommendation policy =
     (case containerRecommendation of
        None \<Rightarrow> Inl (''no recommendation available for container name '' @ vn_Name container)
      | Some r \<Rightarrow>
          (let containerPolicy = GetContainerResourcePolicy (vn_Name container) policy
           in case process_list container containerPolicy (re_Target r) of (target, annotations) \<Rightarrow>
                Inr (r\<lparr>re_Target := target,
                       re_LowerBound := fst (process_list container containerPolicy (re_LowerBound r)),
                       re_UpperBound := fst (process_list container containerPolicy (re_UpperBound r))\<rparr>, annotations)))"

definition getContainer :: "string \<Rightarrow> vpaPod \<Rightarrow> vpaContainer option" where
  "getContainer containerName pod = find (\<lambda>c. vn_Name c = containerName) (vp_Containers pod)"

definition GetRecommendationForContainer :: "string \<Rightarrow> recommendedPodResources option \<Rightarrow> recommendedContainer option" where
  "GetRecommendationForContainer containerName recommendation =
     (case recommendation of
        None \<Rightarrow> None
      | Some r \<Rightarrow> find (\<lambda>c. re_ContainerName c = containerName) (rp_ContainerRecommendations r))"

type_synonym containerAnnotations = "(string, string list) gomap"

fun cap_containers ::
  "podResourcePolicy option \<Rightarrow> vpaPod \<Rightarrow> recommendedContainer list \<times> containerAnnotations \<Rightarrow> recommendedContainer list \<Rightarrow>
     string + recommendedContainer list \<times> containerAnnotations" where
  "cap_containers policy pod acc [] = Inr acc"
| "cap_containers policy pod (updated, annotations) (r # rs) =
     (case getContainer (re_ContainerName r) pod of
        None \<Rightarrow> cap_containers policy pod (updated, annotations) rs
      | Some container \<Rightarrow>
          (case getCappedRecommendationForContainer container (Some r) policy of
             Inl err \<Rightarrow> Inl (''cannot update recommendation for container name '' @ vn_Name container)
           | Inr (r', ann) \<Rightarrow>
               cap_containers policy pod
                 (updated @ [r'], if ann \<noteq> [] then mput (re_ContainerName r) ann annotations else annotations) rs))"

definition CappingApply ::
  "recommendedPodResources option \<Rightarrow> podResourcePolicy option \<Rightarrow> vpaPod \<Rightarrow>
     string + recommendedPodResources option \<times> containerAnnotations" where
  "CappingApply podRecommendation policy pod =
     (if podRecommendation = None \<and> policy = None then Inr (None, [])
      else
        (let recommendations = (case podRecommendation of None \<Rightarrow> [] | Some r \<Rightarrow> rp_ContainerRecommendations r)
         in case cap_containers policy pod ([], []) recommendations of
              Inl err \<Rightarrow> Inl err
            | Inr (updated, annotations) \<Rightarrow> Inr (Some \<lparr>rp_ContainerRecommendations = updated\<rparr>, annotations)))"

definition applyVPAPolicyForContainer ::
  "string \<Rightarrow> recommendedContainer option \<Rightarrow> podResourcePolicy option \<Rightarrow> string + recommendedContainer" where
  "applyVPAPolicyForContainer containerName containerRecommendation policy =
     (case containerRecommendation of
        None \<Rightarrow> Inl (''no recommendation available for container name '' @ containerName)
      | Some r \<Rightarrow>
          (case GetContainerResourcePolicy containerName policy of
             None \<Rightarrow> Inr r
           | Some p \<Rightarrow>
               (let process = (\<lambda>recommendation. fst (foldl (cap_entry p) (recommendation, []) recommendation))
                in Inr (r\<lparr>re_Target := process (re_Target r), re_LowerBound := process (re_LowerBound r),
                          re_UpperBound := process (re_UpperBound r)\<rparr>))))"

fun apply_policies :: "podResourcePolicy option \<Rightarrow> recommendedContainer list \<Rightarrow> string + recommendedContainer list" where
  "apply_policies policy [] = Inr []"
| "apply_policies policy (r # rs) =
     (case applyVPAPolicyForContainer (re_ContainerName r) (Some r) policy of
        Inl err \<Rightarrow> Inl (''cannot apply policy on recommendation for container name '' @ re_ContainerName r)
      | Inr r' \<Rightarrow> (case apply_policies policy rs of Inl err \<Rightarrow> Inl err | Inr rs' \<Rightarrow> Inr (r' # rs')))"

definition ApplyVPAPolicy ::
  "recommendedPodResources option \<Rightarrow> podResourcePolicy option \<Rightarrow> string + recommendedPodResources option" where
  "ApplyVPAPolicy podRecommendation policy =
     (case (podRecommendation, policy) of
        (None, _) \<Rightarrow> Inr None
      | (Some r, None) \<Rightarrow> Inr (Some r)
      | (Some r, Some _) \<Rightarrow>
          (case apply_policies policy (rp_ContainerRecommendations r) of
             Inl err \<Rightarrow> Inl err
           | Inr rs \<Rightarrow> Inr (Some \<lparr>rp_ContainerRecommendations = rs\<rparr>)))"

section \<open>What capping does to one amount\<close>

text \<open>
  What a policy asks for, stated without the functions of the code: a bound counts when it is set and is not
  zero; an amount is raised to the minimum and the result lowered to the maximum.
\<close>

definition allowed_bound :: "resourceList \<Rightarrow> string \<Rightarrow> quantity option" where
  "allowed_bound bounds resourceName =
     (case mget bounds resourceName of None \<Rightarrow> None | Some b \<Rightarrow> if b = 0 then None else Some b)"

definition at_least :: "quantity option \<Rightarrow> quantity \<Rightarrow> quantity" where
  "at_least bound q = (case bound of None \<Rightarrow> q | Some b \<Rightarrow> max b q)"

definition at_most :: "quantity option \<Rightarrow> quantity \<Rightarrow> quantity" where
  "at_most bound q = (case bound of None \<Rightarrow> q | Some b \<Rightarrow> min b q)"

definition policy_cap :: "containerResourcePolicy option \<Rightarrow> string \<Rightarrow> quantity \<Rightarrow> quantity" where
  "policy_cap policy resourceName q =
     (case policy of
        None \<Rightarrow> q
      | Some p \<Rightarrow> at_most (allowed_bound (cp_MaxAllowed p) resourceName) (at_least (allowed_bound (cp_MinAllowed p) resourceName) q))"

definition limit_cap :: "vpaContainer \<Rightarrow> string \<Rightarrow> quantity \<Rightarrow> quantity" where
  "limit_cap container resourceName q =
     (case mget (vn_Limits container) resourceName of
        None \<Rightarrow> q
      | Some limit \<Rightarrow> if MilliValue q > MilliValue limit then limit else q)"

definition capped :: "vpaContainer \<Rightarrow> podResourcePolicy option \<Rightarrow> string \<Rightarrow> quantity \<Rightarrow> quantity" where
  "capped container policy resourceName q =
     limit_cap container resourceName (policy_cap (GetContainerResourcePolicy (vn_Name container) policy) resourceName q)"

lemma maybeCapToMin_raises: "fst (maybeCapToMin q r p) = at_least (allowed_bound (cp_MinAllowed p) r) q"
  by (auto simp: maybeCapToMin_def at_least_def allowed_bound_def max_def split: option.splits)

lemma maybeCapToMax_lowers: "fst (maybeCapToMax q r p) = at_most (allowed_bound (cp_MaxAllowed p) r) q"
  by (auto simp: maybeCapToMax_def at_most_def allowed_bound_def min_def split: option.splits)

lemma policy_cap_code: "policy_cap (Some p) r q = fst (maybeCapToMax (fst (maybeCapToMin q r p)) r p)"
  by (simp add: policy_cap_def maybeCapToMin_raises maybeCapToMax_lowers)

lemma cap_entries:
  assumes "gomap_ok rs"
  shows "mget (fst (foldl (cap_entry p) (m, a) rs)) r =
     (case mget rs r of None \<Rightarrow> mget m r | Some q \<Rightarrow> Some (policy_cap (Some p) r q))"
  using assms
proof (induction rs arbitrary: m a)
  case (Cons e rs)
  obtain k q where e: "e = (k, q)" by force
  obtain m1 a1 where step: "cap_entry p (m, a) e = (m1, a1)" by force
  then have "mget m1 r = (if r = k then Some (policy_cap (Some p) k q) else mget m r)"
    unfolding e by (auto simp: cap_entry_def policy_cap_code split: prod.splits)
  then show ?case using Cons.IH [of m1 a1] Cons.prems e step by (auto simp: gomap_ok_Cons split: option.splits)
qed simp

lemma limit_entries:
  assumes "gomap_ok limits"
  shows "mget (fst (foldl limit_entry (m, a) limits)) r =
     map_option (\<lambda>q. case mget limits r of None \<Rightarrow> q | Some l \<Rightarrow> if MilliValue q > MilliValue l then l else q) (mget m r)"
  using assms
proof (induction limits arbitrary: m a)
  case Nil
  then show ?case by (cases "mget m r") simp_all
next
  case (Cons e limits)
  obtain k l where e: "e = (k, l)" by force
  obtain m1 a1 where step: "limit_entry (m, a) e = (m1, a1)" by force
  then have "mget m1 r = (if r = k then map_option (\<lambda>q. if MilliValue q > MilliValue l then l else q) (mget m k) else mget m r)"
    unfolding e by (auto simp: limit_entry_def split: option.splits if_splits)
  then show ?case using Cons.IH [of m1 a1] Cons.prems e step
    by (cases "mget m r") (auto simp: gomap_ok_Cons split: option.splits)
qed

lemma process_list_spec:
  assumes "gomap_ok rs" "gomap_ok (vn_Limits container)"
  shows "mget (fst (process_list container policy rs)) r =
     map_option (\<lambda>q. limit_cap container r (policy_cap policy r q)) (mget rs r)"
proof -
  have "mget (fst (applyVPAPolicy rs policy)) r = map_option (policy_cap policy r) (mget rs r)"
  proof (cases policy)
    case None
    have "policy_cap None r = id" by (simp add: policy_cap_def fun_eq_iff)
    then show ?thesis using None by (simp add: applyVPAPolicy_def option.map_id)
  next
    case (Some p)
    then show ?thesis using cap_entries [OF assms(1), of p rs "[]" r] by (simp add: applyVPAPolicy_def split: option.splits)
  qed
  moreover have "fst (process_list container policy rs) = fst (foldl limit_entry (fst (applyVPAPolicy rs policy), []) (vn_Limits container))"
    by (simp add: process_list_def capRecommendationToContainerLimit_def split: prod.split)
  ultimately show ?thesis
    by (simp only: limit_entries [OF assms(2)] option.map_comp comp_def limit_cap_def)
qed

section \<open>A capped recommendation\<close>

lemma limit_cap_le: "mget (vn_Limits container) r = Some l \<Longrightarrow> MilliValue (limit_cap container r q) \<le> MilliValue l"
  by (simp add: limit_cap_def)

lemma limit_cap_lower: "limit_cap container r q = q \<or> (\<exists>l. mget (vn_Limits container) r = Some l \<and> limit_cap container r q = l)"
  by (auto simp: limit_cap_def split: option.splits)

lemma capped_parts:
  assumes "getCappedRecommendationForContainer container (Some rec) policy = Inr (rec', annotations)"
    and "gomap_ok (re_Target rec)" "gomap_ok (re_LowerBound rec)" "gomap_ok (re_UpperBound rec)" "gomap_ok (vn_Limits container)"
  shows "re_ContainerName rec' = re_ContainerName rec"
    and "part \<in> {re_Target, re_LowerBound, re_UpperBound} \<Longrightarrow> mget (part rec') r = map_option (capped container policy r) (mget (part rec) r)"
proof -
  let ?cp = "GetContainerResourcePolicy (vn_Name container) policy"
  have rec': "re_Target rec' = fst (process_list container ?cp (re_Target rec))"
    "re_LowerBound rec' = fst (process_list container ?cp (re_LowerBound rec))"
    "re_UpperBound rec' = fst (process_list container ?cp (re_UpperBound rec))" "re_ContainerName rec' = re_ContainerName rec"
    using assms(1) by (auto simp: getCappedRecommendationForContainer_def Let_def split: prod.splits)
  show "re_ContainerName rec' = re_ContainerName rec" by (rule rec'(4))
  have "mget (fst (process_list container ?cp rs)) r = map_option (capped container policy r) (mget rs r)" if "gomap_ok rs" for rs
    using process_list_spec [OF that assms(5)] by (simp add: capped_def [abs_def])
  then show "mget (part rec') r = map_option (capped container policy r) (mget (part rec) r)"
    if "part \<in> {re_Target, re_LowerBound, re_UpperBound}"
    using that rec'(1-3) assms(2-4) by auto
qed

text \<open>
  C28: In the recommendation capped for a container every amount is the recommended one, first raised to the
  minimum of the container's policy, then lowered to the maximum of the policy, and then replaced by the limit of
  the container where it exceeds it in milli units.  A minimum or maximum that is missing or zero is not applied,
  as in \<open>maybeCapToMin\<close> and \<open>maybeCapToMax\<close>.  In milli units the result never exceeds the limit,
  and no resource is added or lost.
\<close>

theorem capped_recommendation:
  assumes "getCappedRecommendationForContainer container (Some rec) policy = Inr (rec', annotations)"
    and "gomap_ok (re_Target rec)" "gomap_ok (re_LowerBound rec)" "gomap_ok (re_UpperBound rec)" "gomap_ok (vn_Limits container)"
  shows "re_ContainerName rec' = re_ContainerName rec \<and> (\<forall>part\<in>{re_Target, re_LowerBound, re_UpperBound}. \<forall>r.
      mget (part rec') r = map_option (capped container policy r) (mget (part rec) r) \<and>
      (\<forall>q l. mget (part rec') r = Some q \<and> mget (vn_Limits container) r = Some l \<longrightarrow> MilliValue q \<le> MilliValue l))"
proof -
  note parts = capped_parts [OF assms]
  have "MilliValue (capped container policy r q) \<le> MilliValue l" if "mget (vn_Limits container) r = Some l" for r q l
    using limit_cap_le [OF that] by (simp add: capped_def)
  then show ?thesis using parts by auto
qed

lemma policy_cap_mono: "x \<le> y \<Longrightarrow> policy_cap policy r x \<le> policy_cap policy r y"
  by (auto simp: policy_cap_def at_most_def at_least_def intro: min.mono max.mono split: option.splits)

lemma MilliValue_mono: "x \<le> y \<Longrightarrow> MilliValue x \<le> MilliValue y"
  by (simp add: MilliValue_def ceiling_mono)

lemma limit_cap_mono:
  assumes "x \<le> y" "\<And>l. mget (vn_Limits container) r = Some l \<Longrightarrow> of_int (MilliValue l) = l * 1000"
  shows "limit_cap container r x \<le> limit_cap container r y"
proof (cases "mget (vn_Limits container) r")
  case (Some l)
  have m: "MilliValue x \<le> MilliValue y" by (rule MilliValue_mono [OF assms(1)])
  have "x \<le> l" if "MilliValue x \<le> MilliValue l"
  proof -
    have "x * 1000 \<le> of_int (MilliValue x)" by (simp add: MilliValue_def)
    also have "\<dots> \<le> of_int (MilliValue l)" using that by simp
    also have "\<dots> = l * 1000" by (rule assms(2) [OF Some])
    finally show ?thesis by simp
  qed
  then show ?thesis using Some m assms(1) by (auto simp: limit_cap_def)
qed (use assms in \<open>simp add: limit_cap_def\<close>)

text \<open>
  Capping keeps the order of the bounds: where a lower bound is at most the target and the target at most the
  upper bound, the capped ones are too, if the limits of the container are whole milli units.
\<close>

theorem capping_keeps_order:
  assumes "getCappedRecommendationForContainer container (Some rec) policy = Inr (rec', annotations)"
    and "gomap_ok (re_Target rec)" "gomap_ok (re_LowerBound rec)" "gomap_ok (re_UpperBound rec)" "gomap_ok (vn_Limits container)"
    and "mget (re_LowerBound rec) r = Some lower" "mget (re_Target rec) r = Some target" "mget (re_UpperBound rec) r = Some upper"
    and "lower \<le> target" "target \<le> upper" "\<forall>l. mget (vn_Limits container) r = Some l \<longrightarrow> of_int (MilliValue l) = l * 1000"
  shows "\<exists>lower' target' upper'. mget (re_LowerBound rec') r = Some lower' \<and> mget (re_Target rec') r = Some target' \<and>
    mget (re_UpperBound rec') r = Some upper' \<and> lower' \<le> target' \<and> target' \<le> upper'"
proof -
  have mono: "capped container policy r x \<le> capped container policy r y" if "x \<le> y" for x y
    unfolding capped_def by (rule limit_cap_mono [OF policy_cap_mono [OF that]]) (use assms(11) in blast)
  show ?thesis using capped_parts(2) [OF assms(1-5)] assms(6-8) mono [OF assms(9)] mono [OF assms(10)] by simp
qed

text \<open>A container with a limit below the recommendation, and a policy with a minimum.\<close>

definition demo_container :: vpaContainer where
  "demo_container = \<lparr>vn_Name = ''web'', vn_Requests = [(''cpu'', 1)], vn_Limits = [(''cpu'', 2)]\<rparr>"

definition demo_policy :: podResourcePolicy where
  "demo_policy = \<lparr>pp_ContainerPolicies = [\<lparr>cp_ContainerName = ''*'', cp_Mode = None, cp_MinAllowed = [(''cpu'', 1)], cp_MaxAllowed = []\<rparr>]\<rparr>"

definition demo_recommended :: recommendedContainer where
  "demo_recommended = \<lparr>re_ContainerName = ''web'', re_Target = [(''cpu'', 3)], re_LowerBound = [(''cpu'', 1 / 2)], re_UpperBound = [(''cpu'', 4)],
     re_UncappedTarget = [(''cpu'', 3)]\<rparr>"

definition demo_capped :: recommendedContainer where
  "demo_capped = \<lparr>re_ContainerName = ''web'', re_Target = [(''cpu'', 2)], re_LowerBound = [(''cpu'', 1)], re_UpperBound = [(''cpu'', 2)],
     re_UncappedTarget = [(''cpu'', 3)]\<rparr>"

lemma demo_capping:
  "getCappedRecommendationForContainer demo_container (Some demo_recommended) (Some demo_policy) =
     Inr (demo_capped, [''cpu capped to container limit''])"
  by (simp add: getCappedRecommendationForContainer_def demo_container_def demo_recommended_def demo_policy_def demo_capped_def
      GetContainerResourcePolicy_def DefaultContainerResourcePolicy_def process_list_def applyVPAPolicy_def cap_entry_def maybeCapToMin_def
      maybeCapToMax_def capRecommendationToContainerLimit_def limit_entry_def MilliValue_def mput_def toCappingAnnotation_def cappedToLimit_def)

theorem capped_recommendation_witness:
  "mget (re_Target demo_capped) ''cpu'' = map_option (capped demo_container (Some demo_policy) ''cpu'') (mget (re_Target demo_recommended) ''cpu'')"
  using capped_recommendation [OF demo_capping] by (simp add: demo_recommended_def demo_container_def gomap_ok_def)

theorem capping_keeps_order_witness:
  "\<exists>lower target upper. mget (re_LowerBound demo_capped) ''cpu'' = Some lower \<and> mget (re_Target demo_capped) ''cpu'' = Some target \<and>
     mget (re_UpperBound demo_capped) ''cpu'' = Some upper \<and> lower \<le> target \<and> target \<le> upper"
  by (rule capping_keeps_order [OF demo_capping, of "''cpu''" "1 / 2" 3 4])
    (simp_all add: demo_recommended_def demo_container_def gomap_ok_def MilliValue_def)

end
