(* ===== verification/VpaFeeder.thy ===== *)
theory VpaFeeder
  imports VpaClusterProps VpaCapping
begin

text \<open>
  \<open>recommender/input\<close>: what the recommender reads (\<open>spec_client.go\<close>, \<open>metrics_client.go\<close>, \<open>oom/observer.go\<close>)
  and \<open>cluster_feeder.go\<close>, which brings it into the state of the cluster.  What the listers and clients of the
  API machinery return are arguments: a list or an error.
\<close>

section \<open>Specifications of pods\<close>

text \<open>The image of a container, which nothing reads, is left out.\<close>

record basicContainerSpec =
  bc_ID :: containerID
  bc_Request :: resources

record basicPodSpec =
  bp_ID :: podID
  bp_PodLabels :: labels
  bp_Containers :: "basicContainerSpec list"
  bp_Phase :: string

text \<open>\<open>Value\<close> rounds up like \<open>MilliValue\<close>; a missing quantity is zero.\<close>

definition quantity_value :: "quantity \<Rightarrow> int" where
  "quantity_value q = \<lceil>q\<rceil>"

definition calculateUsage :: "resourceList \<Rightarrow> resources" where
  "calculateUsage containerUsage =
     (let cpuMillicores = MilliValue (mget0 0 containerUsage ''cpu'');
          memoryBytes = quantity_value (mget0 0 containerUsage ''memory'')
      in [(ResourceCPU, cpuMillicores), (ResourceMemory, memoryBytes)])"

definition calculateRequestedResources :: "vpaContainer \<Rightarrow> resources" where
  "calculateRequestedResources container =
     (let cpuMillicores = MilliValue (mget0 0 (vn_Requests container) ''cpu'');
          memoryBytes = quantity_value (mget0 0 (vn_Requests container) ''memory'')
      in [(ResourceCPU, cpuMillicores), (ResourceMemory, memoryBytes)])"

definition newContainerSpec :: "podID \<Rightarrow> vpaContainer \<Rightarrow> basicContainerSpec" where
  "newContainerSpec pid container =
     \<lparr>bc_ID = \<lparr>cid_PodID = pid, cid_ContainerName = vn_Name container\<rparr>, bc_Request = calculateRequestedResources container\<rparr>"

definition newContainerSpecs :: "podID \<Rightarrow> vpaPod \<Rightarrow> basicContainerSpec list" where
  "newContainerSpecs pid pod = map (newContainerSpec pid) (vp_Containers pod)"

definition newBasicPodSpec :: "vpaPod \<Rightarrow> basicPodSpec" where
  "newBasicPodSpec pod =
     (let pid = \<lparr>pid_Namespace = vp_Namespace pod, pid_PodName = vp_Name pod\<rparr>
      in \<lparr>bp_ID = pid, bp_PodLabels = vp_Labels pod, bp_Containers = newContainerSpecs pid pod, bp_Phase = vp_Phase pod\<rparr>)"

definition GetPodSpecs :: "string + vpaPod list \<Rightarrow> string + basicPodSpec list" where
  "GetPodSpecs listed = (case listed of Inl err \<Rightarrow> Inl err | Inr pods \<Rightarrow> Inr (map newBasicPodSpec pods))"

section \<open>Metrics\<close>

record containerMetrics =
  cm_Name :: string
  cm_Usage :: resourceList

record podMetrics =
  pm_Namespace :: string
  pm_Name :: string
  pm_Timestamp :: time
  pm_Window :: duration
  pm_Containers :: "containerMetrics list"

record containerMetricsSnapshot =
  ms_ID :: containerID
  ms_SnapshotTime :: time
  ms_SnapshotWindow :: duration
  ms_Usage :: resources

definition newContainerMetricsSnapshot :: "containerMetrics \<Rightarrow> podMetrics \<Rightarrow> containerMetricsSnapshot" where
  "newContainerMetricsSnapshot containerMetrics podMetrics =
     \<lparr>ms_ID = \<lparr>cid_PodID = \<lparr>pid_Namespace = pm_Namespace podMetrics, pid_PodName = pm_Name podMetrics\<rparr>,
        cid_ContainerName = cm_Name containerMetrics\<rparr>,
      ms_SnapshotTime = pm_Timestamp podMetrics, ms_SnapshotWindow = pm_Window podMetrics,
      ms_Usage = calculateUsage (cm_Usage containerMetrics)\<rparr>"

definition createContainerMetricsSnapshots :: "podMetrics \<Rightarrow> containerMetricsSnapshot list" where
  "createContainerMetricsSnapshots podMetrics =
     map (\<lambda>containerMetrics. newContainerMetricsSnapshot containerMetrics podMetrics) (pm_Containers podMetrics)"

definition GetContainersMetrics :: "string + podMetrics list \<Rightarrow> string + containerMetricsSnapshot list" where
  "GetContainersMetrics listed =
     (case listed of Inl err \<Rightarrow> Inl err | Inr items \<Rightarrow> Inr (concat (map createContainerMetricsSnapshots items)))"

section \<open>Out-of-memory events\<close>

record oomInfo =
  oi_Timestamp :: time
  oi_Memory :: quantity
  oi_Namespace :: string
  oi_Pod :: string
  oi_Container :: string

record evictionEvent =
  ev_Reason :: string
  ev_CreationTimestamp :: time
  ev_Annotations :: "(string, string) gomap"
  ev_InvolvedKind :: string
  ev_InvolvedNamespace :: string
  ev_InvolvedName :: string

text \<open>\<open>strings.Split\<close> at commas.\<close>

fun split_commas :: "string \<Rightarrow> string list" where
  "split_commas [] = [[]]"
| "split_commas (c # cs) =
     (if c = CHR '','' then [] # split_commas cs
      else (case split_commas cs of [] \<Rightarrow> [[c]] | s # ss \<Rightarrow> (c # s) # ss))"

definition extractArray :: "evictionEvent \<Rightarrow> string \<Rightarrow> string list" where
  "extractArray event annotationsKey =
     (case mget (ev_Annotations event) annotationsKey of None \<Rightarrow> [] | Some str \<Rightarrow> split_commas str)"

text \<open>\<open>resource.ParseQuantity\<close> is the parameter \<open>parse\<close>.\<close>

definition parseEvictionEvent :: "(string \<Rightarrow> string + quantity) \<Rightarrow> evictionEvent \<Rightarrow> oomInfo list" where
  "parseEvictionEvent parse event =
     (if ev_Reason event \<noteq> ''Evicted'' \<or> ev_InvolvedKind event \<noteq> ''Pod'' then []
      else
        (let offendingContainers = extractArray event ''offending_containers'';
             offendingContainersUsage = extractArray event ''offending_containers_usage'';
             starvedResource = extractArray event ''starved_resource''
         in if length offendingContainers \<noteq> length offendingContainersUsage \<or> length offendingContainers \<noteq> length starvedResource
            then []
            else concat (map (\<lambda>(container, usage, starved).
                if starved \<noteq> ''memory'' then []
                else (case parse usage of
                        Inl _ \<Rightarrow> []
                      | Inr memory \<Rightarrow> [\<lparr>oi_Timestamp = ev_CreationTimestamp event, oi_Memory = memory,
                          oi_Namespace = ev_InvolvedNamespace event, oi_Pod = ev_InvolvedName event, oi_Container = container\<rparr>]))
              (zip offendingContainers (zip offendingContainersUsage starvedResource)))))"

text \<open>The observer is the list of the events in its channel, whose capacity is not modelled.\<close>

type_synonym oomObserver = "oomInfo list"

definition NewObserver :: oomObserver where
  "NewObserver = []"

definition OnEvent :: "(string \<Rightarrow> string + quantity) \<Rightarrow> evictionEvent \<Rightarrow> oomObserver \<Rightarrow> oomObserver" where
  "OnEvent parse event observer = observer @ parseEvictionEvent parse event"

record containerStatus =
  st_Name :: string
  st_RestartCount :: int
  st_LastTerminated :: "terminatedState option"

record observedPod =
  ob_Namespace :: string
  ob_Name :: string
  ob_Containers :: "vpaContainer list"
  ob_ContainerStatuses :: "containerStatus list"

definition findStatus :: "string \<Rightarrow> containerStatus list \<Rightarrow> containerStatus option" where
  "findStatus name containerStatuses = find (\<lambda>s. st_Name s = name) containerStatuses"

definition findSpec :: "string \<Rightarrow> vpaContainer list \<Rightarrow> vpaContainer option" where
  "findSpec name containers = find (\<lambda>c. vn_Name c = name) containers"

text \<open>A pod is \<open>None\<close> when the object is no pod, and using it or a missing state of termination panics.\<close>

definition status_oom :: "observedPod option \<Rightarrow> observedPod \<Rightarrow> containerStatus \<Rightarrow> oomObserver \<Rightarrow> oomObserver option" where
  "status_oom oldPod updated status observer =
     (if \<not> st_RestartCount status > 0 then Some observer
      else case st_LastTerminated status of
        None \<Rightarrow> None
      | Some terminated \<Rightarrow>
          (if ts_Reason terminated \<noteq> ''OOMKilled'' then Some observer
           else case oldPod of
             None \<Rightarrow> None
           | Some old \<Rightarrow>
               (case findStatus (st_Name status) (ob_ContainerStatuses old) of
                  None \<Rightarrow> Some observer
                | Some oldStatus \<Rightarrow>
                    if \<not> st_RestartCount status > st_RestartCount oldStatus then Some observer
                    else (case findSpec (st_Name status) (ob_Containers old) of
                            None \<Rightarrow> Some observer
                          | Some oldSpec \<Rightarrow> Some (observer @ [\<lparr>oi_Timestamp = ts_FinishedAt terminated,
                              oi_Memory = mget0 0 (vn_Requests oldSpec) ''memory'', oi_Namespace = ob_Namespace updated,
                              oi_Pod = ob_Name updated, oi_Container = st_Name status\<rparr>])))))"

definition OnUpdate :: "observedPod option \<Rightarrow> observedPod option \<Rightarrow> oomObserver \<Rightarrow> oomObserver option" where
  "OnUpdate oldObj newObj observer =
     (case newObj of
        None \<Rightarrow> None
      | Some updated \<Rightarrow> ofold (\<lambda>observer status. status_oom oldObj updated status observer) observer (ob_ContainerStatuses updated))"

text \<open>A watch gives the type of a change and the object, which is \<open>None\<close> when it is no event.\<close>

definition watchEvictionEvents ::
  "(string \<Rightarrow> string + quantity) \<Rightarrow> (string \<times> evictionEvent option) list \<Rightarrow> oomObserver \<Rightarrow> oomObserver" where
  "watchEvictionEvents parse evictedEventChan observer =
     foldl (\<lambda>observer (eventType, object).
         if eventType = ''ADDED'' then (case object of None \<Rightarrow> observer | Some evictedEvent \<Rightarrow> OnEvent parse evictedEvent observer)
         else observer) observer evictedEventChan"

section \<open>Loading the autoscaler objects\<close>

definition vpa_id :: "'sel apiVpa \<Rightarrow> vpaID" where
  "vpa_id crd = \<lparr>vid_Namespace = va_Namespace crd, vid_VpaName = va_Name crd\<rparr>"

definition load_vpa ::
  "'sel vpa_selector \<Rightarrow> vpaID list \<times> 'sel clusterState \<Rightarrow> 'sel apiVpa \<Rightarrow> (vpaID list \<times> 'sel clusterState) option" where
  "load_vpa as_sel kc crd =
     (case kc of (vpaKeys, c) \<Rightarrow>
        map_option (\<lambda>(err, c'). (if err = None then vpa_id crd # vpaKeys else vpaKeys, c')) (AddOrUpdateVpa as_sel crd c))"

definition LoadVPAs :: "'sel vpa_selector \<Rightarrow> string + 'sel apiVpa list \<Rightarrow> 'sel clusterState \<Rightarrow> 'sel clusterState option" where
  "LoadVPAs as_sel listed c =
     (case listed of
        Inl _ \<Rightarrow> Some c
      | Inr vpaCRDs \<Rightarrow>
          map_option (\<lambda>(vpaKeys, c1).
              (foldl (\<lambda>c vid. if vid \<in> set vpaKeys then c else snd (DeleteVpa vid c)) c1 (mkeys (cl_Vpas c1)))\<lparr>cl_ObservedVpas := vpaCRDs\<rparr>)
            (ofold (load_vpa as_sel) ([], c) vpaCRDs))"

section \<open>Loading the pods\<close>

definition load_container :: "mathLib \<Rightarrow> 'sel clusterState \<Rightarrow> basicContainerSpec \<Rightarrow> 'sel clusterState option" where
  "load_container ml c container = map_option snd (AddOrUpdateContainer ml (bc_ID container) (bc_Request container) c)"

definition load_pod :: "mathLib \<Rightarrow> (labels \<Rightarrow> string) \<Rightarrow> 'sel clusterState \<Rightarrow> basicPodSpec \<Rightarrow> 'sel clusterState option" where
  "load_pod ml label_string c pod =
     (case AddOrUpdatePod ml label_string (bp_ID pod) (bp_PodLabels pod) (bp_Phase pod) c of
        None \<Rightarrow> None
      | Some c' \<Rightarrow> ofold (load_container ml) c' (bp_Containers pod))"

definition pods_by_id :: "basicPodSpec list \<Rightarrow> (podID, basicPodSpec) gomap" where
  "pods_by_id podSpecs = foldl (\<lambda>pods spec. mput (bp_ID spec) spec pods) [] podSpecs"

text \<open>After an error there are no specifications, and the loading goes on.\<close>

definition LoadPods :: "mathLib \<Rightarrow> (labels \<Rightarrow> string) \<Rightarrow> string + basicPodSpec list \<Rightarrow> 'sel clusterState \<Rightarrow> 'sel clusterState option" where
  "LoadPods ml label_string specs c =
     (let pods = pods_by_id (case specs of Inl _ \<Rightarrow> [] | Inr podSpecs \<Rightarrow> podSpecs);
          c1 = foldl (\<lambda>c key. if mhas pods key then c else DeletePod key c) c (mkeys (cl_Pods c))
      in ofold (load_pod ml label_string) c1 (map snd pods))"

section \<open>Loading the metrics\<close>

definition newContainerUsageSamplesWithKey :: "containerMetricsSnapshot \<Rightarrow> (containerID \<times> containerUsageSample) list" where
  "newContainerUsageSamplesWithKey metrics =
     map (\<lambda>(metricName, resourceAmount). (ms_ID metrics, \<lparr>us_MeasureStart = ms_SnapshotTime metrics, us_Usage = resourceAmount,
         us_Request = 0, us_Resource = metricName\<rparr>)) (ms_Usage metrics)"

definition add_sample :: "mathLib \<Rightarrow> 'sel clusterState \<Rightarrow> containerID \<times> containerUsageSample \<Rightarrow> 'sel clusterState option" where
  "add_sample ml c sample = (case sample of (cid, x) \<Rightarrow> map_option snd (ClusterAddSample ml cid x c))"

definition record_oom :: "mathLib \<Rightarrow> 'sel clusterState \<Rightarrow> oomInfo \<Rightarrow> 'sel clusterState option" where
  "record_oom ml c info =
     map_option snd (ClusterRecordOOM ml
       \<lparr>cid_PodID = \<lparr>pid_Namespace = oi_Namespace info, pid_PodName = oi_Pod info\<rparr>, cid_ContainerName = oi_Container info\<rparr>
       (oi_Timestamp info) (quantity_value (oi_Memory info)) c)"

text \<open>The samples of the snapshots, then the events of the channel, which is empty afterwards.\<close>

definition LoadRealTimeMetrics ::
  "mathLib \<Rightarrow> string + containerMetricsSnapshot list \<Rightarrow> oomObserver \<Rightarrow> 'sel clusterState \<Rightarrow> ('sel clusterState \<times> oomObserver) option" where
  "LoadRealTimeMetrics ml metrics observer c =
     (let containersMetrics = (case metrics of Inl _ \<Rightarrow> [] | Inr snapshots \<Rightarrow> snapshots)
      in case ofold (\<lambda>c snapshot. ofold (add_sample ml) c (newContainerUsageSamplesWithKey snapshot)) c containersMetrics of
           None \<Rightarrow> None
         | Some c1 \<Rightarrow> map_option (\<lambda>c2. (c2, [])) (ofold (record_oom ml) c1 observer))"

section \<open>History and checkpoints\<close>

record podHistory =
  ph_LastLabels :: labels
  ph_LastSeen :: time
  ph_Samples :: "(string, containerUsageSample list) gomap"

definition load_history ::
  "mathLib \<Rightarrow> (labels \<Rightarrow> string) \<Rightarrow> 'sel clusterState \<Rightarrow> podID \<times> podHistory \<Rightarrow> 'sel clusterState option" where
  "load_history ml label_string c entry =
     (case entry of (pid, podHistory) \<Rightarrow>
        (case AddOrUpdatePod ml label_string pid (ph_LastLabels podHistory) ''Unknown'' c of
           None \<Rightarrow> None
         | Some c' \<Rightarrow>
             ofold (\<lambda>c (containerName, sampleList).
                 ofold (\<lambda>c sample. add_sample ml c (\<lparr>cid_PodID = pid, cid_ContainerName = containerName\<rparr>, sample)) c sampleList)
               c' (ph_Samples podHistory)))"

text \<open>After an error the history is the nil map.\<close>

definition InitFromHistoryProvider ::
  "mathLib \<Rightarrow> (labels \<Rightarrow> string) \<Rightarrow> string + (podID, podHistory) gomap \<Rightarrow> 'sel clusterState \<Rightarrow> 'sel clusterState option" where
  "InitFromHistoryProvider ml label_string history c =
     ofold (load_history ml label_string) c (case history of Inl _ \<Rightarrow> [] | Inr clusterHistory \<Rightarrow> clusterHistory)"

record vpaCheckpoint =
  ck_Namespace :: string
  ck_Name :: string
  ck_VPAObjectName :: string
  ck_ContainerName :: string
  ck_Status :: checkpointStatus

datatype checkpointFailure = MissingVpa vpaID | LoadFailed vpaID aggregateError

definition checkpoint_vpa :: "vpaCheckpoint \<Rightarrow> vpaID" where
  "checkpoint_vpa checkpoint = \<lparr>vid_Namespace = ck_Namespace checkpoint, vid_VpaName = ck_VPAObjectName checkpoint\<rparr>"

definition setVpaCheckpoint ::
  "mathLib \<Rightarrow> vpaCheckpoint \<Rightarrow> 'sel clusterState \<Rightarrow> (checkpointFailure option \<times> 'sel clusterState) option" where
  "setVpaCheckpoint ml checkpoint c =
     (let vid = checkpoint_vpa checkpoint
      in case mget (cl_Vpas c) vid of
           None \<Rightarrow> Some (Some (MissingVpa vid), c)
         | Some v \<Rightarrow>
             (case NewAggregateContainerState ml of
                None \<Rightarrow> None
              | Some cs \<Rightarrow>
                  (case LoadAggregateFromCheckpoint (ck_Status checkpoint) cs of
                     None \<Rightarrow> None
                   | Some (Some err, _) \<Rightarrow> Some (Some (LoadFailed (vs_ID v) err), c)
                   | Some (None, cs') \<Rightarrow>
                       Some (None, c\<lparr>cl_heap := cl_heap c @ [cs'],
                         cl_Vpas := mput vid (v\<lparr>vs_ContainersInitialAggregateState :=
                           mput (ck_ContainerName checkpoint) (length (cl_heap c)) (vs_ContainersInitialAggregateState v)\<rparr>) (cl_Vpas c)\<rparr>))))"

text \<open>Listing the checkpoints of a namespace is the parameter \<open>list_checkpoints\<close>; after an error the list is empty.\<close>

definition listed_items :: "string + 'a list \<Rightarrow> 'a list" where
  "listed_items listed = (case listed of Inl _ \<Rightarrow> [] | Inr items \<Rightarrow> items)"

definition InitFromCheckpoints ::
  "mathLib \<Rightarrow> 'sel vpa_selector \<Rightarrow> string + 'sel apiVpa list \<Rightarrow> (string \<Rightarrow> string + vpaCheckpoint list) \<Rightarrow>
     'sel clusterState \<Rightarrow> 'sel clusterState option" where
  "InitFromCheckpoints ml as_sel vpas list_checkpoints c =
     (case LoadVPAs as_sel vpas c of
        None \<Rightarrow> None
      | Some c1 \<Rightarrow>
          ofold (\<lambda>c namespace. ofold (\<lambda>c checkpoint. map_option snd (setVpaCheckpoint ml checkpoint c)) c
              (listed_items (list_checkpoints namespace)))
            c1 (remdups (map (\<lambda>(_, v). vid_Namespace (vs_ID v)) (cl_Vpas c1))))"

text \<open>The checkpoints whose deletion is requested, with the state.\<close>

definition GarbageCollectCheckpoints ::
  "'sel vpa_selector \<Rightarrow> string + 'sel apiVpa list \<Rightarrow> string + string list \<Rightarrow> (string \<Rightarrow> string + vpaCheckpoint list) \<Rightarrow>
     'sel clusterState \<Rightarrow> ((string \<times> string) list \<times> 'sel clusterState) option" where
  "GarbageCollectCheckpoints as_sel vpas namespaces list_checkpoints c =
     map_option (\<lambda>c1. (case namespaces of
           Inl _ \<Rightarrow> ([], c1)
         | Inr ns \<Rightarrow>
             (concat (map (\<lambda>namespace. map (\<lambda>checkpoint. (namespace, ck_Name checkpoint))
                 (filter (\<lambda>checkpoint. \<not> mhas (cl_Vpas c1) (checkpoint_vpa checkpoint)) (listed_items (list_checkpoints namespace)))) ns), c1)))
       (LoadVPAs as_sel vpas c)"

end
