(* ===== verification/VpaRoutines.thy ===== *)
theory VpaRoutines
  imports VpaFeeder Recommend
begin

text \<open>
  \<open>recommender/routines\<close>, \<open>recommender/checkpoint/checkpoint_writer.go\<close> and \<open>recommender/main.go\<close>: the loop of the
  recommender, which feeds the state of the cluster, updates the recommendations and writes checkpoints.  The
  clock, the listings and what the API machinery answers are arguments; operations that panic return \<open>None\<close>.
\<close>

section \<open>Recommendations\<close>

definition ContainerScalingModeOff :: string where
  "ContainerScalingModeOff = ''Off''"

definition GetContainerNameToAggregateStateMap ::
  "mathLib \<Rightarrow> vpa \<Rightarrow> aggregateContainerState list \<Rightarrow> (aggregateContainerState list \<times> containerAggregations) option" where
  "GetContainerNameToAggregateStateMap ml v heap =
     map_option (\<lambda>(heap', states). (heap', filter (\<lambda>(containerName, s).
           (case GetContainerResourcePolicy containerName (vs_ResourcePolicy v) of
              None \<Rightarrow> True | Some policy \<Rightarrow> cp_Mode policy \<noteq> Some ContainerScalingModeOff) \<and> ag_TotalSamplesCount s > 0) states))
       (VpaAggregateState ml v heap)"

definition recommended_of :: "string \<times> recommendedContainerResources \<Rightarrow> recommendedContainer" where
  "recommended_of entry =
     (case entry of (containerName, res) \<Rightarrow>
        \<lparr>re_ContainerName = containerName, re_Target = ResourcesAsResourceList (rc_Target res),
         re_LowerBound = ResourcesAsResourceList (rc_LowerBound res), re_UpperBound = ResourcesAsResourceList (rc_UpperBound res),
         re_UncappedTarget = ResourcesAsResourceList (rc_Target res)\<rparr>)"

definition getCappedRecommendation ::
  "(string, recommendedContainerResources) gomap \<Rightarrow> podResourcePolicy option \<Rightarrow> recommendedPodResources option" where
  "getCappedRecommendation resources policy =
     (let recommendation = \<lparr>rp_ContainerRecommendations = map recommended_of resources\<rparr>
      in case ApplyVPAPolicy (Some recommendation) policy of
           Inl _ \<Rightarrow> Some recommendation
         | Inr cappedRecommendation \<Rightarrow> cappedRecommendation)"

record vpaStatus =
  sv_Recommendation :: "recommendedPodResources option"
  sv_Conditions :: "vpaCondition list"

text \<open>The status that is sent, if the semantic comparison \<open>same_status\<close> of the API machinery finds a difference.\<close>

definition UpdateVpaStatusIfNeeded :: "(vpaStatus \<Rightarrow> vpaStatus \<Rightarrow> bool) \<Rightarrow> vpa \<Rightarrow> vpaStatus \<Rightarrow> (vpaID \<times> vpaStatus) list" where
  "UpdateVpaStatusIfNeeded same_status v oldStatus =
     (let newStatus = \<lparr>sv_Recommendation = vs_Recommendation v, sv_Conditions = AsList (vs_Conditions v)\<rparr>
      in if \<not> same_status oldStatus newStatus then [(vs_ID v, newStatus)] else [])"

text \<open>The object with its recommendation.\<close>

definition set_recommendation :: "time \<Rightarrow> recommendedPodResources \<Rightarrow> vpa \<Rightarrow> vpa" where
  "set_recommendation now recommendation v =
     (let v' = v\<lparr>vs_Recommendation := Some recommendation\<rparr>
      in if length (rp_ContainerRecommendations recommendation) > 0
         then v'\<lparr>vs_Conditions := SetCondition now RecommendationProvided True '''' '''' (vs_Conditions v')\<rparr> else v')"

definition update_observed ::
  "mathLib \<Rightarrow> recommenderFlags \<Rightarrow> podResourceRecommender \<Rightarrow> time \<Rightarrow> (vpaStatus \<Rightarrow> vpaStatus \<Rightarrow> bool) \<Rightarrow>
     (vpaID \<times> vpaStatus) list \<times> 'sel clusterState \<Rightarrow> 'sel apiVpa \<Rightarrow> ((vpaID \<times> vpaStatus) list \<times> 'sel clusterState) option" where
  "update_observed ml flags r now same_status sc observedVpa =
     (case sc of (sent, c) \<Rightarrow>
        (case mget (cl_Vpas c) (vpa_id observedVpa) of
           None \<Rightarrow> Some (sent, c)
         | Some v \<Rightarrow>
             (case GetContainerNameToAggregateStateMap ml v (cl_heap c) of
                None \<Rightarrow> None
              | Some (heap, states) \<Rightarrow>
                  (case GetRecommendedPodResources ml flags r states of
                     None \<Rightarrow> None
                   | Some resources \<Rightarrow>
                       (case getCappedRecommendation resources (va_ResourcePolicy observedVpa) of
                          None \<Rightarrow> None
                        | Some recommendation \<Rightarrow>
                            (let v' = set_recommendation now recommendation v;
                                 oldStatus = \<lparr>sv_Recommendation = va_Recommendation observedVpa, sv_Conditions = va_Conditions observedVpa\<rparr>
                             in Some (sent @ UpdateVpaStatusIfNeeded same_status v' oldStatus,
                                  c\<lparr>cl_heap := heap, cl_Vpas := mput (vpa_id observedVpa) v' (cl_Vpas c)\<rparr>)))))))"

definition UpdateVPAs ::
  "mathLib \<Rightarrow> recommenderFlags \<Rightarrow> podResourceRecommender \<Rightarrow> time \<Rightarrow> (vpaStatus \<Rightarrow> vpaStatus \<Rightarrow> bool) \<Rightarrow>
     'sel clusterState \<Rightarrow> ((vpaID \<times> vpaStatus) list \<times> 'sel clusterState) option" where
  "UpdateVPAs ml flags r now same_status c = ofold (update_observed ml flags r now same_status) ([], c) (cl_ObservedVpas c)"

section \<open>Checkpoints\<close>

definition FetchingHistory :: string where
  "FetchingHistory = ''FetchingHistory''"

definition isFetchingHistory :: "vpa \<Rightarrow> bool" where
  "isFetchingHistory v =
     (case mget (vs_Conditions v) FetchingHistory of None \<Rightarrow> False | Some condition \<Rightarrow> co_Status condition = ''True'')"

text \<open>\<open>sort.Slice\<close> by the time of the last checkpoint, which leaves the order of equal ones open, is the parameter \<open>sorter\<close>.\<close>

definition getVpasToCheckpoint :: "(vpa list \<Rightarrow> vpa list) \<Rightarrow> (vpaID, vpa) gomap \<Rightarrow> vpa list" where
  "getVpasToCheckpoint sorter clusterVpas = sorter (filter (\<lambda>v. \<not> isFetchingHistory v) (map snd clusterVpas))"

definition subtractCurrentContainerMemoryPeak ::
  "mathLib \<Rightarrow> time \<Rightarrow> 'a containerState \<Rightarrow> aggregateContainerState \<Rightarrow> aggregateContainerState option" where
  "subtractCurrentContainerMemoryPeak ml now container a =
     (if time_before now (ct_WindowEnd container)
      then map_option (\<lambda>peaks. a\<lparr>ag_AggregateMemoryPeaks := peaks\<rparr>)
             (DecayingSubtractSample ml (BytesFromMemoryAmount (GetMaxMemoryPeak container)) (Fin 1) (ct_WindowEnd container)
                (ag_AggregateMemoryPeaks a))
      else Some a)"

definition subtract_container ::
  "mathLib \<Rightarrow> time \<Rightarrow> vpa \<Rightarrow> podState \<Rightarrow> containerAggregations \<Rightarrow> string \<times> aggregatorRef containerState \<Rightarrow> containerAggregations option" where
  "subtract_container ml now v pod m entry =
     (case entry of (containerName, container) \<Rightarrow>
        if UsesAggregation (MakeAggregateStateKey pod containerName) v
        then (case mget m containerName of
                None \<Rightarrow> Some m
              | Some a \<Rightarrow> map_option (\<lambda>a'. mput containerName a' m) (subtractCurrentContainerMemoryPeak ml now container a))
        else Some m)"

definition buildAggregateContainerStateMap ::
  "mathLib \<Rightarrow> vpa \<Rightarrow> time \<Rightarrow> 'sel clusterState \<Rightarrow> (aggregateContainerState list \<times> containerAggregations) option" where
  "buildAggregateContainerStateMap ml v now c =
     (case VpaAggregateState ml v (cl_heap c) of
        None \<Rightarrow> None
      | Some (heap, m) \<Rightarrow>
          map_option (Pair heap)
            (ofold (\<lambda>m (_, pod). ofold (subtract_container ml now v pod) m (ps_Containers pod)) m (cl_Pods c)))"

text \<open>
  The checkpoints still required, those written so far, and the state.  Whether a checkpoint could be saved is the
  parameter \<open>stored\<close>.
\<close>

type_synonym 'sel writerState = "int \<times> vpaCheckpoint list \<times> 'sel clusterState"

definition store_checkpoint ::
  "(vpaCheckpoint \<Rightarrow> bool) \<Rightarrow> time \<Rightarrow> vpa \<Rightarrow> 'sel writerState \<Rightarrow> string \<times> aggregateContainerState \<Rightarrow> 'sel writerState option" where
  "store_checkpoint stored now v w entry =
     (case (w, entry) of ((minCheckpoints, written, c), container, a) \<Rightarrow>
        map_option (\<lambda>containerCheckpoint.
            let checkpoint = \<lparr>ck_Namespace = vid_Namespace (vs_ID v), ck_Name = vid_VpaName (vs_ID v) @ ''-'' @ container,
                  ck_VPAObjectName = vid_VpaName (vs_ID v), ck_ContainerName = container, ck_Status = containerCheckpoint\<rparr>;
                c' = (if stored checkpoint
                      then (case mget (cl_Vpas c) (vs_ID v) of
                              None \<Rightarrow> c
                            | Some v' \<Rightarrow> c\<lparr>cl_Vpas := mput (vs_ID v) (v'\<lparr>vs_CheckpointWritten := now\<rparr>) (cl_Vpas c)\<rparr>)
                      else c)
            in (minCheckpoints - 1, written @ [checkpoint], c'))
          (SaveToCheckpoint a))"

text \<open>Whether the context is done when object number \<open>i\<close> is reached is \<open>ctx_err i\<close>; the result tells whether it stopped the loop.\<close>

fun store_loop ::
  "mathLib \<Rightarrow> (nat \<Rightarrow> bool) \<Rightarrow> (vpaCheckpoint \<Rightarrow> bool) \<Rightarrow> time \<Rightarrow> nat \<Rightarrow> vpa list \<Rightarrow> 'sel writerState \<Rightarrow> (bool \<times> 'sel writerState) option" where
  "store_loop ml ctx_err stored now i [] w = Some (False, w)"
| "store_loop ml ctx_err stored now i (v # vs) w =
     (if ctx_err i \<and> fst w \<le> 0 then Some (True, w)
      else
        (case buildAggregateContainerStateMap ml v now (snd (snd w)) of
           None \<Rightarrow> None
         | Some (heap, m) \<Rightarrow>
             (case ofold (store_checkpoint stored now v) (fst w, fst (snd w), (snd (snd w))\<lparr>cl_heap := heap\<rparr>) m of
                None \<Rightarrow> None
              | Some w' \<Rightarrow> store_loop ml ctx_err stored now (i + 1) vs w')))"

definition StoreCheckpoints ::
  "mathLib \<Rightarrow> (vpa list \<Rightarrow> vpa list) \<Rightarrow> (nat \<Rightarrow> bool) \<Rightarrow> (vpaCheckpoint \<Rightarrow> bool) \<Rightarrow> time \<Rightarrow> int \<Rightarrow> 'sel clusterState \<Rightarrow>
     (bool \<times> 'sel writerState) option" where
  "StoreCheckpoints ml sorter ctx_err stored now minCheckpoints c =
     store_loop ml ctx_err stored now 0 (getVpasToCheckpoint sorter (cl_Vpas c)) (minCheckpoints, [], c)"

section \<open>The loop\<close>

definition AggregateContainerStateGCInterval :: duration where
  "AggregateContainerStateGCInterval = 1 * hour"

record 'sel recommender =
  rs_clusterState :: "'sel clusterState"
  rs_checkpointsGCInterval :: duration
  rs_lastCheckpointGC :: time
  rs_useCheckpoints :: bool
  rs_lastAggregateContainerStateGC :: time
  rs_oomObserver :: oomObserver

text \<open>
  What the observer of the feeder is told: the informer reports a change of a pod, and the watch of the evictions
  gives its events.  Both run beside the loop; only \<open>LoadRealTimeMetrics\<close> reads the channel of the observer.
\<close>

datatype notice =
    PodUpdate "observedPod option" "observedPod option"
  | Evictions "(string \<times> evictionEvent option) list"

fun observe :: "(string \<Rightarrow> string + quantity) \<Rightarrow> oomObserver \<Rightarrow> notice \<Rightarrow> oomObserver option" where
  "observe parse observer (PodUpdate oldObj newObj) = OnUpdate oldObj newObj observer"
| "observe parse observer (Evictions events) = Some (watchEvictionEvents parse events observer)"

text \<open>What one run sees of the world, in the order in which it looks.\<close>

record 'sel runInput =
  ri_notices :: "notice list"
  ri_vpas :: "string + 'sel apiVpa list"
  ri_pods :: "string + vpaPod list"
  ri_metrics :: "string + podMetrics list"
  ri_updateTime :: time
  ri_sameStatus :: "vpaStatus \<Rightarrow> vpaStatus \<Rightarrow> bool"
  ri_checkpointTime :: time
  ri_contextErr :: "nat \<Rightarrow> bool"
  ri_stored :: "vpaCheckpoint \<Rightarrow> bool"
  ri_checkpointsDone :: time
  ri_gcVpas :: "string + 'sel apiVpa list"
  ri_gcNamespaces :: "string + string list"
  ri_listCheckpoints :: "string \<Rightarrow> string + vpaCheckpoint list"
  ri_gcTime :: time

text \<open>What it does to the world: the statuses it sends, the checkpoints it writes, and those it deletes.\<close>

record runOutput =
  ro_statuses :: "(vpaID \<times> vpaStatus) list"
  ro_checkpoints :: "vpaCheckpoint list"
  ro_deleted :: "(string \<times> string) list"

text \<open>The written and the deleted checkpoints, and the recommender.\<close>

definition MaintainCheckpoints ::
  "mathLib \<Rightarrow> 'sel vpa_selector \<Rightarrow> (vpa list \<Rightarrow> vpa list) \<Rightarrow> int \<Rightarrow> 'sel runInput \<Rightarrow> 'sel recommender \<Rightarrow>
     (vpaCheckpoint list \<times> (string \<times> string) list \<times> 'sel recommender) option" where
  "MaintainCheckpoints ml as_sel sorter minCheckpoints ri r =
     (let now = ri_checkpointTime ri
      in if \<not> rs_useCheckpoints r then Some ([], [], r)
         else
           (case StoreCheckpoints ml sorter (ri_contextErr ri) (ri_stored ri) now minCheckpoints (rs_clusterState r) of
              None \<Rightarrow> None
            | Some (_, _, written, c) \<Rightarrow>
                if time_sub (ri_checkpointsDone ri) (rs_lastCheckpointGC r) > rs_checkpointsGCInterval r
                then map_option (\<lambda>(deleted, c'). (written, deleted, r\<lparr>rs_clusterState := c', rs_lastCheckpointGC := now\<rparr>))
                       (GarbageCollectCheckpoints as_sel (ri_gcVpas ri) (ri_gcNamespaces ri) (ri_listCheckpoints ri) c)
                else Some (written, [], r\<lparr>rs_clusterState := c\<rparr>)))"

definition GarbageCollect :: "time \<Rightarrow> 'sel recommender \<Rightarrow> 'sel recommender" where
  "GarbageCollect gcTime r =
     (if time_sub gcTime (rs_lastAggregateContainerStateGC r) > AggregateContainerStateGCInterval
      then r\<lparr>rs_clusterState := GarbageCollectAggregateCollectionStates gcTime (rs_clusterState r), rs_lastAggregateContainerStateGC := gcTime\<rparr>
      else r)"

text \<open>The flag \<open>min-checkpoints\<close> is the argument \<open>minCheckpointsPerRun\<close>.\<close>

definition RunRecommender ::
  "mathLib \<Rightarrow> (labels \<Rightarrow> string) \<Rightarrow> 'sel vpa_selector \<Rightarrow> (vpa list \<Rightarrow> vpa list) \<Rightarrow> recommenderFlags \<Rightarrow> int \<Rightarrow>
     'sel recommender \<Rightarrow> 'sel runInput \<Rightarrow> (runOutput \<times> 'sel recommender) option" where
  "RunRecommender ml label_string as_sel sorter flags minCheckpointsPerRun r ri =
     (case LoadVPAs as_sel (ri_vpas ri) (rs_clusterState r) of
        None \<Rightarrow> None
      | Some c1 \<Rightarrow>
     (case LoadPods ml label_string (GetPodSpecs (ri_pods ri)) c1 of
        None \<Rightarrow> None
      | Some c2 \<Rightarrow>
     (case LoadRealTimeMetrics ml (GetContainersMetrics (ri_metrics ri)) (rs_oomObserver r) c2 of
        None \<Rightarrow> None
      | Some (c3, observer) \<Rightarrow>
     (case UpdateVPAs ml flags (CreatePodResourceRecommender flags) (ri_updateTime ri) (ri_sameStatus ri) c3 of
        None \<Rightarrow> None
      | Some (statuses, c4) \<Rightarrow>
          map_option (\<lambda>(written, deleted, r'). (\<lparr>ro_statuses = statuses, ro_checkpoints = written, ro_deleted = deleted\<rparr>,
              GarbageCollect (ri_gcTime ri) r'))
            (MaintainCheckpoints ml as_sel sorter minCheckpointsPerRun ri (r\<lparr>rs_clusterState := c4, rs_oomObserver := observer\<rparr>))))))"

text \<open>\<open>NewRecommender\<close> and the start of \<open>main\<close>: the state comes from checkpoints or from the history.\<close>

definition NewRecommender :: "duration \<Rightarrow> bool \<Rightarrow> time \<Rightarrow> 'sel recommender" where
  "NewRecommender checkpointsGCInterval useCheckpoints now =
     \<lparr>rs_clusterState = NewClusterState, rs_checkpointsGCInterval = checkpointsGCInterval, rs_lastCheckpointGC = now,
      rs_useCheckpoints = useCheckpoints, rs_lastAggregateContainerStateGC = now, rs_oomObserver = NewObserver\<rparr>"

definition start_recommender ::
  "mathLib \<Rightarrow> (labels \<Rightarrow> string) \<Rightarrow> 'sel vpa_selector \<Rightarrow> duration \<Rightarrow> bool \<Rightarrow> time \<Rightarrow> string + 'sel apiVpa list \<Rightarrow>
     (string \<Rightarrow> string + vpaCheckpoint list) \<Rightarrow> string + (podID, podHistory) gomap \<Rightarrow> 'sel recommender option" where
  "start_recommender ml label_string as_sel checkpointsGCInterval useCheckpoints now vpas list_checkpoints history =
     (let r = NewRecommender checkpointsGCInterval useCheckpoints now
      in map_option (\<lambda>c. r\<lparr>rs_clusterState := c\<rparr>)
           (if useCheckpoints then InitFromCheckpoints ml as_sel vpas list_checkpoints (rs_clusterState r)
            else InitFromHistoryProvider ml label_string history (rs_clusterState r)))"

text \<open>
  The loop of \<open>main\<close> over the ticks: what each run did.  Before a run reads the channel the observer has been told
  the notices of that run, with \<open>resource.ParseQuantity\<close> as \<open>parse\<close>.
\<close>

fun recommender_loop ::
  "mathLib \<Rightarrow> (labels \<Rightarrow> string) \<Rightarrow> 'sel vpa_selector \<Rightarrow> (string \<Rightarrow> string + quantity) \<Rightarrow> (vpa list \<Rightarrow> vpa list) \<Rightarrow> recommenderFlags \<Rightarrow>
     int \<Rightarrow> 'sel runInput list \<Rightarrow> 'sel recommender \<Rightarrow> (runOutput list \<times> 'sel recommender) option" where
  "recommender_loop ml label_string as_sel parse sorter flags minCheckpointsPerRun [] r = Some ([], r)"
| "recommender_loop ml label_string as_sel parse sorter flags minCheckpointsPerRun (ri # ris) r =
     (case ofold (observe parse) (rs_oomObserver r) (ri_notices ri) of
        None \<Rightarrow> None
      | Some observer \<Rightarrow>
     (case RunRecommender ml label_string as_sel sorter flags minCheckpointsPerRun (r\<lparr>rs_oomObserver := observer\<rparr>) ri of
        None \<Rightarrow> None
      | Some (out, r') \<Rightarrow> map_option (\<lambda>(outs, r''). (out # outs, r''))
          (recommender_loop ml label_string as_sel parse sorter flags minCheckpointsPerRun ris r')))"

end
