(* ===== verification/VpaFeederProps.thy ===== *)
theory VpaFeederProps
  imports VpaFeeder
begin

text \<open>
  One round of the feeder never panics, keeps the invariant of the cluster, and leaves in it exactly the listed
  pods, and exactly the listed autoscaler objects whose selector is valid.
\<close>

section \<open>Outlines after each operation\<close>

lemma find_outline: "findOrCreateAggregateContainerState ml cid c = Some (a, c') \<Longrightarrow> same_outline c c'"
  by (rule same_outlineI)
    (auto simp: findOrCreateAggregateContainerState_def Let_def mkeys_change_vpas split: option.splits)

lemma link_outline: "link_container ml pid c name = Some c' \<Longrightarrow> same_outline c c'"
  by (auto simp: link_container_def intro: same_outline_trans [OF find_outline outline_change_container])

lemma ofold_same_outline:
  assumes "ofold f c xs = Some c'" "\<And>c c' x. f c x = Some c' \<Longrightarrow> same_outline c c'"
  shows "same_outline c c'"
  using assms(1) by (induction xs arbitrary: c) (auto split: option.splits intro: same_outline_trans assms(2))

lemma outline_relabel:
  "outline (change_pod pid (\<lambda>pod. pod\<lparr>ps_labelSetKey := k\<rparr>) c) = (outline c)(pid := map_option (\<lambda>(_, p, ns). (k, p, ns)) (outline c pid))"
  "outline (change_pod pid (\<lambda>pod. pod\<lparr>ps_Phase := phase\<rparr>) c) = (outline c)(pid := map_option (\<lambda>(l, _, ns). (l, phase, ns)) (outline c pid))"
  by (auto simp: outline_def change_pod_def fun_eq_iff split: option.split)

lemma vpas_change_pod [simp]: "cl_Vpas (change_pod pid f c) = cl_Vpas c"
  by (simp add: change_pod_def split: option.split)

lemma AddOrUpdatePod_outline:
  assumes "AddOrUpdatePod ml label_string pid newLabels phase c = Some c'"
  shows "outline c' = (outline c)(pid := Some (label_string newLabels, phase, case outline c pid of None \<Rightarrow> {} | Some (_, _, ns) \<Rightarrow> ns))"
    and "mkeys (cl_Vpas c') = mkeys (cl_Vpas c)"
proof -
  let ?k = "label_string newLabels"
  let ?c1 = "if mhas (cl_Pods c) pid then c else c\<lparr>cl_Pods := mput pid (newPod pid) (cl_Pods c)\<rparr>"
  let ?c2 = "?c1\<lparr>cl_labelSetMap := mput ?k newLabels (cl_labelSetMap ?c1)\<rparr>"
  let ?pod = "case mget (cl_Pods c) pid of Some pod \<Rightarrow> pod | None \<Rightarrow> newPod pid"
  have c2: "outline ?c2 = (outline c)(pid := Some (case outline c pid of None \<Rightarrow> ('''', '''', {}) | Some e \<Rightarrow> e))"
    by (auto simp: outline_def mhas_def newPod_def mkeys_def fun_eq_iff split: option.split)
  have v: "mkeys (cl_Vpas ?c2) = mkeys (cl_Vpas c)" by simp
  obtain c4 where c4: "outline c4 = (outline ?c2)(pid := map_option (\<lambda>(_, p, ns). (?k, p, ns)) (outline ?c2 pid))"
    "mkeys (cl_Vpas c4) = mkeys (cl_Vpas c)" "c' = change_pod pid (\<lambda>pod. pod\<lparr>ps_Phase := phase\<rparr>) c4"
  proof (cases "\<not> mhas (cl_Pods c) pid \<or> ps_labelSetKey ?pod \<noteq> ?k")
    case True
    then obtain c4 where c4: "ofold (link_container ml pid) (change_pod pid (\<lambda>pod. pod\<lparr>ps_labelSetKey := ?k\<rparr>) ?c2)
        (mkeys (ps_Containers ?pod)) = Some c4" "c' = change_pod pid (\<lambda>pod. pod\<lparr>ps_Phase := phase\<rparr>) c4"
      using assms by (auto simp: AddOrUpdatePod_def getLabelSetKey_def Let_def)
    have "same_outline (change_pod pid (\<lambda>pod. pod\<lparr>ps_labelSetKey := ?k\<rparr>) ?c2) c4"
      by (rule ofold_same_outline [OF c4(1) link_outline])
    then show thesis using that [of c4] c4(2) v by (simp only: same_outline_def outline_relabel vpas_change_pod)
  next
    case False
    then obtain pod where "mget (cl_Pods c) pid = Some pod" "ps_labelSetKey pod = ?k" by (auto simp: mhas_def)
    then have "outline ?c2 = (outline ?c2)(pid := map_option (\<lambda>(_, p, ns). (?k, p, ns)) (outline ?c2 pid))"
      unfolding c2 by (auto simp: outline_def fun_eq_iff)
    moreover have "c' = change_pod pid (\<lambda>pod. pod\<lparr>ps_Phase := phase\<rparr>) ?c2"
      using assms False by (auto simp: AddOrUpdatePod_def getLabelSetKey_def Let_def)
    ultimately show thesis using that [of ?c2] v by blast
  qed
  show "outline c' = (outline c)(pid := Some (?k, phase, case outline c pid of None \<Rightarrow> {} | Some (_, _, ns) \<Rightarrow> ns))"
    unfolding c4(3) outline_relabel c4(1) c2 by (auto split: option.split)
  show "mkeys (cl_Vpas c') = mkeys (cl_Vpas c)" by (simp add: c4(2,3))
qed

lemma set_mkeys_mput: "set (mkeys (mput k v m)) = insert k (set (mkeys m))"
  by (auto simp: mkeys_def mput_def dom_update)

lemma AddOrUpdateContainer_outline:
  assumes "AddOrUpdateContainer ml cid request c = Some (err, c')"
  shows "outline c' = (outline c)(cid_PodID cid := map_option (\<lambda>(l, p, ns). (l, p, insert (cid_ContainerName cid) ns)) (outline c (cid_PodID cid)))"
    and "mkeys (cl_Vpas c') = mkeys (cl_Vpas c)"
proof -
  let ?pid = "cid_PodID cid" and ?name = "cid_ContainerName cid"
  let ?goal = "outline c' = (outline c)(?pid := map_option (\<lambda>(l, p, ns). (l, p, insert ?name ns)) (outline c ?pid)) \<and>
    mkeys (cl_Vpas c') = mkeys (cl_Vpas c)"
  have ?goal
  proof (cases "mget (cl_Pods c) ?pid")
    case None
    then show ?thesis using assms by (auto simp: AddOrUpdateContainer_def outline_def)
  next
    case (Some pod)
    show ?thesis
    proof (cases "mget (ps_Containers pod) ?name")
      case None
      obtain a c1 where c1: "findOrCreateAggregateContainerState ml cid c = Some (a, c1)"
        "c' = change_pod ?pid (\<lambda>pod. pod\<lparr>ps_Containers := mput ?name (NewContainerState request (Proxy cid)) (ps_Containers pod)\<rparr>) c1"
        using assms Some None by (auto simp: AddOrUpdateContainer_def)
      have "outline (change_pod ?pid (\<lambda>pod. pod\<lparr>ps_Containers := mput ?name ct (ps_Containers pod)\<rparr>) c1) =
          (outline c1)(?pid := map_option (\<lambda>(l, p, ns). (l, p, insert ?name ns)) (outline c1 ?pid))" for ct
        by (auto simp: outline_def change_pod_def fun_eq_iff set_mkeys_mput split: option.split)
      then show ?thesis using find_outline [OF c1(1)] c1(2) by (simp add: same_outline_def)
    next
      case ct: (Some ct)
      have "?name \<in> set (mkeys (ps_Containers pod))" using ct by (force simp: mkeys_def dest: mget_SomeD)
      then have "outline c = (outline c)(?pid := map_option (\<lambda>(l, p, ns). (l, p, insert ?name ns)) (outline c ?pid))"
        using Some by (auto simp: outline_def fun_eq_iff insert_absorb)
      moreover have "same_outline c c'"
        using assms Some ct outline_change_container by (auto simp: AddOrUpdateContainer_def)
      ultimately show ?thesis by (simp add: same_outline_def)
    qed
  qed
  then show "outline c' = (outline c)(?pid := map_option (\<lambda>(l, p, ns). (l, p, insert ?name ns)) (outline c ?pid))"
    "mkeys (cl_Vpas c') = mkeys (cl_Vpas c)" by blast+
qed

section \<open>The autoscaler objects\<close>

definition valid_selector :: "'sel vpa_selector \<Rightarrow> 'sel apiVpa \<Rightarrow> bool" where
  "valid_selector as_sel crd \<longleftrightarrow> (case as_sel (va_Selector crd) of Inl _ \<Rightarrow> False | Inr _ \<Rightarrow> True)"

lemma AddOrUpdateVpa_outline:
  assumes "AddOrUpdateVpa as_sel crd c = Some (err, c')"
  shows "cl_Pods c' = cl_Pods c" "err = None \<longleftrightarrow> valid_selector as_sel crd"
    "mhas (cl_Vpas c') vid \<longleftrightarrow> mhas (cl_Vpas c) vid \<or> vid = vpa_id crd \<and> valid_selector as_sel crd"
  using assms
  by (auto simp: AddOrUpdateVpa_def DeleteVpa_def valid_selector_def vpa_id_def Let_def mhas_def split: sum.splits option.splits if_splits)

lemma load_vpas_ok:
  assumes "cluster_ok ml label_string c" "label_law label_string as_sel"
  shows "\<exists>keys' c'. ofold (load_vpa as_sel) (keys, c) crds = Some (keys', c') \<and> cluster_ok ml label_string c' \<and> cl_Pods c' = cl_Pods c \<and>
    set keys' = set keys \<union> {vpa_id crd | crd. crd \<in> set crds \<and> valid_selector as_sel crd} \<and>
    (\<forall>vid. mhas (cl_Vpas c') vid \<longleftrightarrow> mhas (cl_Vpas c) vid \<or> (\<exists>crd\<in>set crds. vpa_id crd = vid \<and> valid_selector as_sel crd))"
  using assms(1)
proof (induction crds arbitrary: keys c)
  case (Cons crd crds)
  obtain err c1 where c1: "AddOrUpdateVpa as_sel crd c = Some (err, c1)" "cluster_ok ml label_string c1"
    using AddOrUpdateVpa_ok [OF Cons.prems assms(2)] by blast
  note o = AddOrUpdateVpa_outline [OF c1(1)]
  obtain keys' c' where r: "ofold (load_vpa as_sel) (if err = None then vpa_id crd # keys else keys, c1) crds = Some (keys', c')"
    "cluster_ok ml label_string c'" "cl_Pods c' = cl_Pods c1"
    "set keys' = set (if err = None then vpa_id crd # keys else keys) \<union> {vpa_id crd | crd. crd \<in> set crds \<and> valid_selector as_sel crd}"
    "\<forall>vid. mhas (cl_Vpas c') vid \<longleftrightarrow> mhas (cl_Vpas c1) vid \<or> (\<exists>crd\<in>set crds. vpa_id crd = vid \<and> valid_selector as_sel crd)"
    using Cons.IH [OF c1(2), of "if err = None then vpa_id crd # keys else keys"] by blast
  have "load_vpa as_sel (keys, c) crd = Some (if err = None then vpa_id crd # keys else keys, c1)" by (simp add: load_vpa_def c1(1))
  moreover have "set keys' = set keys \<union> {vpa_id crd' | crd'. crd' \<in> set (crd # crds) \<and> valid_selector as_sel crd'}"
    unfolding r(4) using o(2) by auto
  moreover have "mhas (cl_Vpas c') vid \<longleftrightarrow> mhas (cl_Vpas c) vid \<or> (\<exists>crd'\<in>set (crd # crds). vpa_id crd' = vid \<and> valid_selector as_sel crd')" for vid
    using r(5) o(3) [of vid] by auto
  ultimately show ?case using r(1-3) o(1) by simp
qed auto

lemma delete_vpas:
  assumes "cluster_ok ml label_string c"
  shows "cluster_ok ml label_string (foldl (\<lambda>c vid. if P vid then c else snd (DeleteVpa vid c)) c vids)"
    and "cl_Pods (foldl (\<lambda>c vid. if P vid then c else snd (DeleteVpa vid c)) c vids) = cl_Pods c"
    and "mhas (cl_Vpas (foldl (\<lambda>c vid. if P vid then c else snd (DeleteVpa vid c)) c vids)) k \<longleftrightarrow> mhas (cl_Vpas c) k \<and> (k \<in> set vids \<longrightarrow> P k)"
proof -
  have step: "mhas (cl_Vpas (snd (DeleteVpa vid c))) k \<longleftrightarrow> mhas (cl_Vpas c) k \<and> k \<noteq> vid" "cl_Pods (snd (DeleteVpa vid c)) = cl_Pods c"
    for vid k and c :: "'a clusterState" by (auto simp: DeleteVpa_def mhas_def)
  show "cluster_ok ml label_string (foldl (\<lambda>c vid. if P vid then c else snd (DeleteVpa vid c)) c vids)"
    using assms by (induction vids arbitrary: c) (simp_all add: DeleteVpa_ok)
  show "cl_Pods (foldl (\<lambda>c vid. if P vid then c else snd (DeleteVpa vid c)) c vids) = cl_Pods c"
    by (induction vids arbitrary: c) (simp_all add: step)
  show "mhas (cl_Vpas (foldl (\<lambda>c vid. if P vid then c else snd (DeleteVpa vid c)) c vids)) k \<longleftrightarrow> mhas (cl_Vpas c) k \<and> (k \<in> set vids \<longrightarrow> P k)"
    by (induction vids arbitrary: c) (auto simp: step)
qed

lemma cluster_ok_observed: "cluster_ok ml label_string (c\<lparr>cl_ObservedVpas := crds\<rparr>) \<longleftrightarrow> cluster_ok ml label_string c"
  by (simp add: cluster_ok_def aggregations_ok_def pod_ok_def ref_ok_def vpa_ok_def vpa_linked_def cong: aggregatorRef.case_cong)

lemma outline_pods: "cl_Pods c' = cl_Pods c \<Longrightarrow> outline c' = outline c"
  by (simp add: outline_def fun_eq_iff)

lemma mhas_mkeys: "k \<in> set (mkeys m) \<longleftrightarrow> mhas m k"
  by (auto simp: mkeys_def mhas_def mget_None_iff)

lemma LoadVPAs_ok:
  assumes "cluster_ok ml label_string c" "label_law label_string as_sel"
  shows "\<exists>c'. LoadVPAs as_sel listed c = Some c' \<and> cluster_ok ml label_string c' \<and> outline c' = outline c \<and>
    (case listed of
       Inl _ \<Rightarrow> c' = c
     | Inr crds \<Rightarrow> cl_ObservedVpas c' = crds \<and>
         (\<forall>vid. mhas (cl_Vpas c') vid \<longleftrightarrow> (\<exists>crd\<in>set crds. vpa_id crd = vid \<and> valid_selector as_sel crd)))"
proof (cases listed)
  case (Inr crds)
  obtain keys c1 where c1: "ofold (load_vpa as_sel) ([], c) crds = Some (keys, c1)" "cluster_ok ml label_string c1" "cl_Pods c1 = cl_Pods c"
    "set keys = {vpa_id crd | crd. crd \<in> set crds \<and> valid_selector as_sel crd}"
    "\<forall>vid. mhas (cl_Vpas c1) vid \<longleftrightarrow> mhas (cl_Vpas c) vid \<or> (\<exists>crd\<in>set crds. vpa_id crd = vid \<and> valid_selector as_sel crd)"
    using load_vpas_ok [OF assms, of "[]" crds] by auto
  let ?c = "foldl (\<lambda>c vid. if vid \<in> set keys then c else snd (DeleteVpa vid c)) c1 (mkeys (cl_Vpas c1))"
  note d = delete_vpas [OF c1(2), of "\<lambda>vid. vid \<in> set keys" "mkeys (cl_Vpas c1)"]
  have "mhas (cl_Vpas ?c) vid \<longleftrightarrow> (\<exists>crd\<in>set crds. vpa_id crd = vid \<and> valid_selector as_sel crd)" for vid
    unfolding d(3) using c1(4,5) by (auto simp: mhas_mkeys)
  moreover have "outline (?c\<lparr>cl_ObservedVpas := crds\<rparr>) = outline c" by (rule outline_pods) (simp add: d(2) c1(3))
  ultimately show ?thesis using Inr c1(1) d(1) by (simp add: LoadVPAs_def cluster_ok_observed)
qed (use assms in \<open>simp add: LoadVPAs_def\<close>)

section \<open>The pods\<close>

lemma mhas_outline: "mhas (cl_Pods c) pid \<longleftrightarrow> outline c pid \<noteq> None"
  by (simp add: mhas_def outline_def)

lemma load_containers_ok:
  assumes "cluster_ok ml label_string c" "package_ok ml" "\<forall>s\<in>set specs. cid_PodID (bc_ID s) = pid" "outline c pid = Some (l, p, ns)"
  shows "\<exists>c'. ofold (load_container ml) c specs = Some c' \<and> cluster_ok ml label_string c' \<and> mkeys (cl_Vpas c') = mkeys (cl_Vpas c) \<and>
    outline c' = (outline c)(pid := Some (l, p, ns \<union> (cid_ContainerName \<circ> bc_ID) ` set specs))"
  using assms(1,3,4)
proof (induction specs arbitrary: c ns)
  case (Cons s specs)
  obtain err c1 where c1: "AddOrUpdateContainer ml (bc_ID s) (bc_Request s) c = Some (err, c1)" "cluster_ok ml label_string c1"
    using AddOrUpdateContainer_ok [OF Cons.prems(1) assms(2)] by blast
  note o = AddOrUpdateContainer_outline [OF c1(1)]
  have pid: "cid_PodID (bc_ID s) = pid" using Cons.prems(2) by simp
  have o1: "outline c1 = (outline c)(pid := Some (l, p, insert (cid_ContainerName (bc_ID s)) ns))"
    using o(1) Cons.prems(3) by (simp add: pid)
  then have "outline c1 pid = Some (l, p, insert (cid_ContainerName (bc_ID s)) ns)" by simp
  have "\<forall>s\<in>set specs. cid_PodID (bc_ID s) = pid" using Cons.prems(2) by simp
  from Cons.IH [OF c1(2) this \<open>outline c1 pid = _\<close>] obtain c' where c': "ofold (load_container ml) c1 specs = Some c'"
    "cluster_ok ml label_string c'" "mkeys (cl_Vpas c') = mkeys (cl_Vpas c1)"
    "outline c' = (outline c1)(pid := Some (l, p, insert (cid_ContainerName (bc_ID s)) ns \<union> (cid_ContainerName \<circ> bc_ID) ` set specs))"
    by blast
  have "load_container ml c s = Some c1" by (simp add: load_container_def c1(1))
  then show ?case using c' o(2) o1 by (simp add: fun_upd_def fun_eq_iff)
qed (auto simp: fun_eq_iff)

definition own_containers :: "basicPodSpec \<Rightarrow> bool" where
  "own_containers spec \<longleftrightarrow> (\<forall>s\<in>set (bp_Containers spec). cid_PodID (bc_ID s) = bp_ID spec)"

definition container_names :: "basicPodSpec \<Rightarrow> string set" where
  "container_names spec = (cid_ContainerName \<circ> bc_ID) ` set (bp_Containers spec)"

lemma load_pod_ok:
  assumes "cluster_ok ml label_string c" "package_ok ml" "own_containers spec"
  shows "\<exists>c'. load_pod ml label_string c spec = Some c' \<and> cluster_ok ml label_string c' \<and> mkeys (cl_Vpas c') = mkeys (cl_Vpas c) \<and>
    outline c' = (outline c)(bp_ID spec := Some (label_string (bp_PodLabels spec), bp_Phase spec,
      (case outline c (bp_ID spec) of None \<Rightarrow> {} | Some (_, _, ns) \<Rightarrow> ns) \<union> container_names spec))"
proof -
  obtain c1 where c1: "AddOrUpdatePod ml label_string (bp_ID spec) (bp_PodLabels spec) (bp_Phase spec) c = Some c1" "cluster_ok ml label_string c1"
    using AddOrUpdatePod_ok [OF assms(1,2)] by blast
  note o = AddOrUpdatePod_outline [OF c1(1)]
  have "outline c1 (bp_ID spec) = Some (label_string (bp_PodLabels spec), bp_Phase spec, case outline c (bp_ID spec) of None \<Rightarrow> {} | Some (_, _, ns) \<Rightarrow> ns)"
    by (simp add: o(1))
  from load_containers_ok [OF c1(2) assms(2) _ this] assms(3) show ?thesis
    using o c1(1) by (auto simp: load_pod_def own_containers_def container_names_def)
qed

text \<open>The outline a specification asks for.\<close>

definition as_specified :: "(labels \<Rightarrow> string) \<Rightarrow> basicPodSpec \<Rightarrow> (string \<times> string \<times> string set) option \<Rightarrow> bool" where
  "as_specified label_string spec o' \<longleftrightarrow>
     (\<exists>ns. o' = Some (label_string (bp_PodLabels spec), bp_Phase spec, ns) \<and> container_names spec \<subseteq> ns)"

lemma load_pods_ok:
  assumes "cluster_ok ml label_string c" "package_ok ml" "\<forall>spec\<in>set specs. own_containers spec" "distinct (map bp_ID specs)"
  shows "\<exists>c'. ofold (load_pod ml label_string) c specs = Some c' \<and> cluster_ok ml label_string c' \<and> mkeys (cl_Vpas c') = mkeys (cl_Vpas c) \<and>
    (\<forall>pid. pid \<notin> bp_ID ` set specs \<longrightarrow> outline c' pid = outline c pid) \<and>
    (\<forall>spec\<in>set specs. as_specified label_string spec (outline c' (bp_ID spec)))"
  using assms(1,3,4)
proof (induction specs arbitrary: c)
  case (Cons spec specs)
  obtain c1 where c1: "load_pod ml label_string c spec = Some c1" "cluster_ok ml label_string c1" "mkeys (cl_Vpas c1) = mkeys (cl_Vpas c)"
    "outline c1 = (outline c)(bp_ID spec := Some (label_string (bp_PodLabels spec), bp_Phase spec,
      (case outline c (bp_ID spec) of None \<Rightarrow> {} | Some (_, _, ns) \<Rightarrow> ns) \<union> container_names spec))"
    using load_pod_ok [OF Cons.prems(1) assms(2)] Cons.prems(2) by (meson list.set_intros(1))
  obtain c' where c': "ofold (load_pod ml label_string) c1 specs = Some c'" "cluster_ok ml label_string c'"
    "mkeys (cl_Vpas c') = mkeys (cl_Vpas c1)" "\<forall>pid. pid \<notin> bp_ID ` set specs \<longrightarrow> outline c' pid = outline c1 pid"
    "\<forall>spec\<in>set specs. as_specified label_string spec (outline c' (bp_ID spec))"
    using Cons.IH [OF c1(2)] Cons.prems(2,3) by auto
  have "bp_ID spec \<notin> bp_ID ` set specs" using Cons.prems(3) by simp
  then have "outline c' (bp_ID spec) = outline c1 (bp_ID spec)" using c'(4) by blast
  then have "as_specified label_string spec (outline c' (bp_ID spec))" by (simp add: c1(4) as_specified_def)
  moreover have "outline c' pid = outline c pid" if "pid \<notin> bp_ID ` set (spec # specs)" for pid
    using that c'(4) c1(4) by simp
  ultimately show ?case using c1(1,3) c'(1-3,5) by simp
qed simp


text \<open>The specification of each pod is the last that was listed.\<close>

lemma pods_by_id_spec:
  "gomap_ok (pods_by_id specs)" "mget (pods_by_id specs) pid = find (\<lambda>spec. bp_ID spec = pid) (rev specs)"
proof -
  have "gomap_ok (foldl (\<lambda>pods spec. mput (bp_ID spec) spec pods) m specs)" if "gomap_ok m" for m
    using that by (induction specs arbitrary: m) simp_all
  then show "gomap_ok (pods_by_id specs)" by (simp add: pods_by_id_def)
  have app: "find P (xs @ ys) = (case find P xs of Some x \<Rightarrow> Some x | None \<Rightarrow> find P ys)" for P xs and ys :: "basicPodSpec list"
    by (induction xs) auto
  have "mget (foldl (\<lambda>pods spec. mput (bp_ID spec) spec pods) m specs) pid =
      (case find (\<lambda>spec. bp_ID spec = pid) (rev specs) of Some spec \<Rightarrow> Some spec | None \<Rightarrow> mget m pid)" for m
    by (induction specs arbitrary: m) (auto simp: app split: option.splits)
  then show "mget (pods_by_id specs) pid = find (\<lambda>spec. bp_ID spec = pid) (rev specs)"
    by (simp add: pods_by_id_def split: option.split)
qed

lemma find_distinct: "distinct (map f xs) \<Longrightarrow> s \<in> set xs \<Longrightarrow> find (\<lambda>x. f x = f s) xs = Some s"
  by (induction xs) (auto simp: rev_image_eqI)

lemma pods_by_id_entries: "(pid, spec) \<in> set (pods_by_id specs) \<Longrightarrow> bp_ID spec = pid \<and> spec \<in> set specs"
proof -
  assume "(pid, spec) \<in> set (pods_by_id specs)"
  then have "find (\<lambda>spec. bp_ID spec = pid) (rev specs) = Some spec"
    using mget_eq_Some_iff [OF pods_by_id_spec(1), of specs pid spec] by (simp add: pods_by_id_spec(2))
  then obtain i where "i < length (rev specs)" "bp_ID (rev specs ! i) = pid" "spec = rev specs ! i" unfolding find_Some_iff by blast
  then show ?thesis using nth_mem [of i "rev specs"] by simp
qed

lemma LoadPods_ok:
  assumes "cluster_ok ml label_string c" "package_ok ml" "\<forall>spec\<in>set specs. own_containers spec"
  shows "\<exists>c'. LoadPods ml label_string (Inr specs) c = Some c' \<and> cluster_ok ml label_string c' \<and> mkeys (cl_Vpas c') = mkeys (cl_Vpas c) \<and>
    (\<forall>pid. case find (\<lambda>spec. bp_ID spec = pid) (rev specs) of
       None \<Rightarrow> outline c' pid = None | Some spec \<Rightarrow> as_specified label_string spec (outline c' pid))"
proof -
  let ?pods = "pods_by_id specs"
  let ?del = "\<lambda>c keys. foldl (\<lambda>c key. if mhas ?pods key then c else DeletePod key c) c keys"
  have out: "outline (DeletePod key c) pid = (if pid = key then None else outline c pid)" "cl_Vpas (DeletePod key c) = cl_Vpas c"
    for key pid and c :: "'a clusterState" by (simp_all add: DeletePod_def outline_def)
  have "cluster_ok ml label_string (?del c keys)" for keys
    using assms(1) by (induction keys arbitrary: c) (simp_all add: DeletePod_ok)
  moreover have "cl_Vpas (?del c keys) = cl_Vpas c" for keys by (induction keys arbitrary: c) (simp_all add: out)
  moreover have "outline (?del c keys) pid = (if pid \<in> set keys \<and> \<not> mhas ?pods pid then None else outline c pid)" for keys pid
    by (induction keys arbitrary: c) (auto simp: out)
  moreover have "outline c pid = None" if "pid \<notin> set (mkeys (cl_Pods c))" for pid using that by (cases "outline c pid") (simp_all add: mhas_mkeys mhas_outline)
  ultimately obtain c1 where c1: "c1 = ?del c (mkeys (cl_Pods c))" "cluster_ok ml label_string c1" "mkeys (cl_Vpas c1) = mkeys (cl_Vpas c)"
    "\<And>pid. \<not> mhas ?pods pid \<Longrightarrow> outline c1 pid = None"
    by presburger
  have "map (bp_ID \<circ> snd) ?pods = map fst ?pods" using pods_by_id_entries by auto
  then have d: "distinct (map bp_ID (map snd ?pods))" using pods_by_id_spec(1) [of specs] unfolding map_map by (simp only: gomap_ok_def)
  have own: "\<forall>spec\<in>set (map snd ?pods). own_containers spec" using assms(3) pods_by_id_entries by fastforce
  obtain c' where c': "ofold (load_pod ml label_string) c1 (map snd ?pods) = Some c'" "cluster_ok ml label_string c'"
    "mkeys (cl_Vpas c') = mkeys (cl_Vpas c1)" "\<forall>pid. pid \<notin> bp_ID ` set (map snd ?pods) \<longrightarrow> outline c' pid = outline c1 pid"
    "\<forall>spec\<in>set (map snd ?pods). as_specified label_string spec (outline c' (bp_ID spec))"
    using load_pods_ok [OF c1(2) assms(2) own d] by blast
  have "case find (\<lambda>spec. bp_ID spec = pid) (rev specs) of
       None \<Rightarrow> outline c' pid = None | Some spec \<Rightarrow> as_specified label_string spec (outline c' pid)" for pid
  proof (cases "mget ?pods pid")
    case None
    then have "pid \<notin> bp_ID ` set (map snd ?pods)" using pods_by_id_entries by (force simp: mget_None_iff)
    then show ?thesis using None c'(4) c1(4) [of pid] by (simp add: pods_by_id_spec(2) mhas_def)
  next
    case (Some spec)
    then have "(pid, spec) \<in> set ?pods" by (rule mget_SomeD)
    then have "spec \<in> set (map snd ?pods)" "bp_ID spec = pid" using pods_by_id_entries by force+
    then show ?thesis using Some c'(5) by (auto simp: pods_by_id_spec(2))
  qed
  then show ?thesis using c'(1-3) c1(1,3) by (simp add: LoadPods_def)
qed

section \<open>The metrics\<close>

definition usable_snapshot :: "containerMetricsSnapshot \<Rightarrow> bool" where
  "usable_snapshot s \<longleftrightarrow> (\<forall>(name, amount)\<in>set (ms_Usage s). in_i64 amount)"

definition usable_oom :: "oomInfo \<Rightarrow> bool" where
  "usable_oom info \<longleftrightarrow> in_i64 (quantity_value (oi_Memory info))"

lemma in_i64_zero: "in_i64 0"
  by (simp add: in_i64_def minInt64_def maxInt64_def)

lemma add_samples_ok:
  assumes "cluster_ok ml label_string c" "package_ok ml" "\<forall>(cid, x)\<in>set xs. typed_sample x"
  shows "\<exists>c'. ofold (add_sample ml) c xs = Some c' \<and> cluster_ok ml label_string c' \<and> same_outline c c'"
  using assms(1,3)
proof (induction xs arbitrary: c)
  case (Cons e xs)
  obtain cid x where e: "e = (cid, x)" by (cases e)
  obtain err c1 where c1: "ClusterAddSample ml cid x c = Some (err, c1)" "cluster_ok ml label_string c1" "same_outline c c1"
    using ClusterAddSample_ok [OF Cons.prems(1) assms(2), of x cid] Cons.prems(2) e by auto
  obtain c' where "ofold (add_sample ml) c1 xs = Some c'" "cluster_ok ml label_string c'" "same_outline c1 c'"
    using Cons.IH [OF c1(2)] Cons.prems(2) by auto
  moreover have "add_sample ml c e = Some c1" by (simp add: add_sample_def e c1(1))
  ultimately show ?case using same_outline_trans [OF c1(3)] by simp
qed simp

lemma record_ooms_ok:
  assumes "cluster_ok ml label_string c" "package_ok ml" "\<forall>i\<in>set infos. usable_oom i"
  shows "\<exists>c'. ofold (record_oom ml) c infos = Some c' \<and> cluster_ok ml label_string c' \<and> same_outline c c'"
  using assms(1,3)
proof (induction infos arbitrary: c)
  case (Cons i infos)
  obtain err c1 where c1: "ClusterRecordOOM ml \<lparr>cid_PodID = \<lparr>pid_Namespace = oi_Namespace i, pid_PodName = oi_Pod i\<rparr>,
      cid_ContainerName = oi_Container i\<rparr> (oi_Timestamp i) (quantity_value (oi_Memory i)) c = Some (err, c1)"
    "cluster_ok ml label_string c1" "same_outline c c1"
    using ClusterRecordOOM_ok [OF Cons.prems(1) assms(2), of "quantity_value (oi_Memory i)"] Cons.prems(2) by (fastforce simp: usable_oom_def)
  obtain c' where "ofold (record_oom ml) c1 infos = Some c'" "cluster_ok ml label_string c'" "same_outline c1 c'"
    using Cons.IH [OF c1(2)] Cons.prems(2) by auto
  moreover have "record_oom ml c i = Some c1" by (simp add: record_oom_def c1(1))
  ultimately show ?case using same_outline_trans [OF c1(3)] by simp
qed simp

lemma LoadRealTimeMetrics_ok:
  assumes "cluster_ok ml label_string c" "package_ok ml" "\<forall>s\<in>set (listed_items metrics). usable_snapshot s" "\<forall>i\<in>set infos. usable_oom i"
  shows "\<exists>c'. LoadRealTimeMetrics ml metrics infos c = Some (c', []) \<and> cluster_ok ml label_string c' \<and> same_outline c c'"
proof -
  have typed: "\<forall>(cid, x)\<in>set (newContainerUsageSamplesWithKey s). typed_sample x" if "usable_snapshot s" for s
    using that by (auto simp: newContainerUsageSamplesWithKey_def usable_snapshot_def typed_sample_def in_i64_zero)
  have "\<exists>c'. ofold (\<lambda>c snapshot. ofold (add_sample ml) c (newContainerUsageSamplesWithKey snapshot)) c snapshots = Some c' \<and>
      cluster_ok ml label_string c' \<and> same_outline c c'" if "\<forall>s\<in>set snapshots. usable_snapshot s" for snapshots
    using assms(1) that
  proof (induction snapshots arbitrary: c)
    case (Cons s snapshots)
    obtain c1 where c1: "ofold (add_sample ml) c (newContainerUsageSamplesWithKey s) = Some c1" "cluster_ok ml label_string c1" "same_outline c c1"
      using add_samples_ok [OF Cons.prems(1) assms(2) typed] Cons.prems(2) by auto
    then show ?case using Cons.IH [OF c1(2)] Cons.prems(2) same_outline_trans [OF c1(3)] by fastforce
  qed simp
  from this [OF assms(3)] obtain c1 where c1: "ofold (\<lambda>c snapshot. ofold (add_sample ml) c (newContainerUsageSamplesWithKey snapshot)) c (listed_items metrics) = Some c1"
    "cluster_ok ml label_string c1" "same_outline c c1" by blast
  obtain c2 where "ofold (record_oom ml) c1 infos = Some c2" "cluster_ok ml label_string c2" "same_outline c1 c2"
    using record_ooms_ok [OF c1(2) assms(2,4)] by blast
  then show ?thesis using c1 same_outline_trans [OF c1(3)] by (auto simp: LoadRealTimeMetrics_def listed_items_def Let_def)
qed


section \<open>A round of the feeder\<close>

definition feed_round ::
  "mathLib \<Rightarrow> (labels \<Rightarrow> string) \<Rightarrow> 'sel vpa_selector \<Rightarrow> string + 'sel apiVpa list \<Rightarrow> string + vpaPod list \<Rightarrow> string + podMetrics list \<Rightarrow>
     oomObserver \<Rightarrow> 'sel clusterState \<Rightarrow> ('sel clusterState \<times> oomObserver) option" where
  "feed_round ml label_string as_sel vpas pods metrics observer c =
     Option.bind (LoadVPAs as_sel vpas c) (\<lambda>c1.
     Option.bind (LoadPods ml label_string (GetPodSpecs pods) c1) (\<lambda>c2.
       LoadRealTimeMetrics ml (GetContainersMetrics metrics) observer c2))"

definition usable_metrics :: "podMetrics \<Rightarrow> bool" where
  "usable_metrics m \<longleftrightarrow> (\<forall>s\<in>set (createContainerMetricsSnapshots m). usable_snapshot s)"

lemma usable_listed: "\<forall>m\<in>set (listed_items metrics). usable_metrics m \<Longrightarrow> \<forall>s\<in>set (listed_items (GetContainersMetrics metrics)). usable_snapshot s"
  by (auto simp: listed_items_def GetContainersMetrics_def usable_metrics_def split: sum.splits)

lemma own_specs: "\<forall>spec\<in>set (map newBasicPodSpec pods). own_containers spec"
  by (auto simp: own_containers_def newBasicPodSpec_def newContainerSpecs_def newContainerSpec_def Let_def)

lemma feed_round_ok:
  assumes "cluster_ok ml label_string c" "package_ok ml" "label_law label_string as_sel"
    and "\<forall>m\<in>set (listed_items metrics). usable_metrics m" "\<forall>i\<in>set infos. usable_oom i"
  shows "\<exists>c'. feed_round ml label_string as_sel vpas pods metrics infos c = Some (c', []) \<and> cluster_ok ml label_string c' \<and>
    (\<forall>crds. vpas = Inr crds \<longrightarrow> (\<forall>vid. mhas (cl_Vpas c') vid \<longleftrightarrow> (\<exists>crd\<in>set crds. vpa_id crd = vid \<and> valid_selector as_sel crd))) \<and>
    (\<forall>pid. case find (\<lambda>spec. bp_ID spec = pid) (rev (map newBasicPodSpec (listed_items pods))) of
       None \<Rightarrow> outline c' pid = None | Some spec \<Rightarrow> as_specified label_string spec (outline c' pid))"
proof -
  obtain c1 where c1: "LoadVPAs as_sel vpas c = Some c1" "cluster_ok ml label_string c1"
    "vpas = Inr crds \<Longrightarrow> mhas (cl_Vpas c1) vid \<longleftrightarrow> (\<exists>crd\<in>set crds. vpa_id crd = vid \<and> valid_selector as_sel crd)" for crds vid
    using LoadVPAs_ok [OF assms(1,3), of vpas] by (cases vpas) auto
  have specs: "LoadPods ml label_string (GetPodSpecs pods) c1 = LoadPods ml label_string (Inr (map newBasicPodSpec (listed_items pods))) c1"
    by (simp add: LoadPods_def GetPodSpecs_def listed_items_def split: sum.split)
  obtain c2 where c2: "LoadPods ml label_string (GetPodSpecs pods) c1 = Some c2" "cluster_ok ml label_string c2" "mkeys (cl_Vpas c2) = mkeys (cl_Vpas c1)"
    "\<forall>pid. case find (\<lambda>spec. bp_ID spec = pid) (rev (map newBasicPodSpec (listed_items pods))) of
       None \<Rightarrow> outline c2 pid = None | Some spec \<Rightarrow> as_specified label_string spec (outline c2 pid)"
    unfolding specs using LoadPods_ok [OF c1(2) assms(2) own_specs, of "listed_items pods"] by blast
  obtain c3 where c3: "LoadRealTimeMetrics ml (GetContainersMetrics metrics) infos c2 = Some (c3, [])" "cluster_ok ml label_string c3" "same_outline c2 c3"
    using LoadRealTimeMetrics_ok [OF c2(2) assms(2) usable_listed [OF assms(4)] assms(5)] by blast
  have "outline c3 = outline c2" "mkeys (cl_Vpas c3) = mkeys (cl_Vpas c1)" using c3(3) c2(3) by (simp_all add: same_outline_def)
  moreover from this have "mhas (cl_Vpas c3) vid = mhas (cl_Vpas c1) vid" for vid by (simp flip: mhas_mkeys)
  moreover have "feed_round ml label_string as_sel vpas pods metrics infos c = Some (c3, [])"
    using c1(1) c2(1) c3(1) by (simp add: feed_round_def)
  moreover have "\<forall>crds. vpas = Inr crds \<longrightarrow> (\<forall>vid. mhas (cl_Vpas c3) vid \<longleftrightarrow> (\<exists>crd\<in>set crds. vpa_id crd = vid \<and> valid_selector as_sel crd))"
    using c1(3) \<open>\<And>vid. mhas (cl_Vpas c3) vid = mhas (cl_Vpas c1) vid\<close> by simp
  moreover have "\<forall>pid. case find (\<lambda>spec. bp_ID spec = pid) (rev (map newBasicPodSpec (listed_items pods))) of
       None \<Rightarrow> outline c3 pid = None | Some spec \<Rightarrow> as_specified label_string spec (outline c3 pid)"
    unfolding \<open>outline c3 = outline c2\<close> by (rule c2(4))
  ultimately show ?thesis using c3(2) by (intro exI [of _ c3]) blast
qed

text \<open>
  C19: One round of the feeder, from any state that satisfies the invariant, never panics and keeps the invariant.
  After it the cluster tracks exactly the autoscaler objects that were listed with a valid selector, and exactly
  the listed pods, each with the label set, phase and containers of its specification; the channel of
  out-of-memory events is drained.
\<close>

theorem feeder_mirrors_the_listings:
  assumes "cluster_ok ml label_string c" "math_laws ml" "label_law label_string as_sel"
    and "\<forall>m\<in>set (listed_items metrics). usable_metrics m" "\<forall>i\<in>set infos. usable_oom i"
    and "distinct (map bp_ID (map newBasicPodSpec pods))"
  shows "\<exists>c'. feed_round ml label_string as_sel (Inr crds) (Inr pods) metrics infos c = Some (c', []) \<and> cluster_ok ml label_string c' \<and>
    (\<forall>vid. mhas (cl_Vpas c') vid \<longleftrightarrow> (\<exists>crd\<in>set crds. vpa_id crd = vid \<and> valid_selector as_sel crd)) \<and>
    (\<forall>pid. mhas (cl_Pods c') pid \<longleftrightarrow> pid \<in> bp_ID ` set (map newBasicPodSpec pods)) \<and>
    (\<forall>spec\<in>set (map newBasicPodSpec pods). \<exists>pod. mget (cl_Pods c') (bp_ID spec) = Some pod \<and>
       ps_labelSetKey pod = label_string (bp_PodLabels spec) \<and> ps_Phase pod = bp_Phase spec \<and>
       (\<forall>container\<in>set (bp_Containers spec). mhas (ps_Containers pod) (cid_ContainerName (bc_ID container))))"
proof -
  let ?specs = "map newBasicPodSpec pods"
  obtain c' where c': "feed_round ml label_string as_sel (Inr crds) (Inr pods) metrics infos c = Some (c', [])" "cluster_ok ml label_string c'"
    "\<And>vid. mhas (cl_Vpas c') vid \<longleftrightarrow> (\<exists>crd\<in>set crds. vpa_id crd = vid \<and> valid_selector as_sel crd)"
    "\<And>pid. case find (\<lambda>spec. bp_ID spec = pid) (rev ?specs) of
       None \<Rightarrow> outline c' pid = None | Some spec \<Rightarrow> as_specified label_string spec (outline c' pid)"
    using feed_round_ok [OF assms(1) package_ok_laws [OF assms(2)] assms(3-5), of "Inr crds" "Inr pods"]
    by (auto simp: listed_items_def)
  have last: "find (\<lambda>spec. bp_ID spec = bp_ID s) (rev ?specs) = Some s" if "s \<in> set ?specs" for s
    by (rule find_distinct) (use that assms(6) in \<open>simp_all only: rev_map [symmetric] distinct_rev set_rev\<close>)
  have pods: "\<exists>pod. mget (cl_Pods c') (bp_ID s) = Some pod \<and>
       ps_labelSetKey pod = label_string (bp_PodLabels s) \<and> ps_Phase pod = bp_Phase s \<and>
       (\<forall>container\<in>set (bp_Containers s). mhas (ps_Containers pod) (cid_ContainerName (bc_ID container)))" if "s \<in> set ?specs" for s
    using c'(4) [of "bp_ID s"] unfolding last [OF that]
    by (fastforce simp: as_specified_def outline_def container_names_def simp flip: mhas_mkeys)
  have "mhas (cl_Pods c') pid \<longleftrightarrow> pid \<in> bp_ID ` set ?specs" for pid
  proof (cases "find (\<lambda>spec. bp_ID spec = pid) (rev ?specs)")
    case None
    then have "pid \<notin> bp_ID ` set ?specs" unfolding find_None_iff by (simp only: set_rev) blast
    then show ?thesis using c'(4) [of pid] None by (simp add: mhas_outline)
  next
    case (Some s)
    then obtain i where "i < length (rev ?specs)" "bp_ID (rev ?specs ! i) = pid" unfolding find_Some_iff by blast
    then have "pid \<in> bp_ID ` set ?specs" using nth_mem [of i "rev ?specs"] by (metis image_eqI set_rev)
    then show ?thesis using c'(4) [of pid] Some by (auto simp: mhas_outline as_specified_def)
  qed
  then show ?thesis using c'(1-3) pods by blast
qed


text \<open>A round with a pod that is gone, one that is new, an object with an invalid selector, and an out-of-memory event.\<close>

definition demo_crd :: "string \<Rightarrow> string \<Rightarrow> string apiVpa" where
  "demo_crd name sel = \<lparr>va_Namespace = ''ns'', va_Name = name, va_CreationTimestamp = 1, va_Selector = sel, va_UpdatePolicy = None,
     va_ResourcePolicy = None, va_Recommendation = None, va_Conditions = []\<rparr>"

definition demo_listed_pod :: "string \<Rightarrow> vpaPod" where
  "demo_listed_pod name = \<lparr>vp_Namespace = ''ns'', vp_Name = name, vp_Labels = [(''app'', ''a'')], vp_OwnerReferences = [],
     vp_DeletionTimestamp = None, vp_Containers = [\<lparr>vn_Name = ''c'', vn_Requests = [(''cpu'', 1 / 2)], vn_Limits = []\<rparr>],
     vp_Phase = ''Running'', vp_StartTime = None, vp_LastTerminated = []\<rparr>"

definition demo_metrics :: podMetrics where
  "demo_metrics = \<lparr>pm_Namespace = ''ns'', pm_Name = ''p'', pm_Timestamp = 9, pm_Window = 60,
     pm_Containers = [\<lparr>cm_Name = ''c'', cm_Usage = [(''cpu'', 1 / 4), (''memory'', 1000)]\<rparr>]\<rparr>"

definition demo_oom :: oomInfo where
  "demo_oom = \<lparr>oi_Timestamp = 10, oi_Memory = 2000, oi_Namespace = ''ns'', oi_Pod = ''p'', oi_Container = ''c''\<rparr>"

lemma demo_metrics_usable: "usable_metrics demo_metrics" "usable_oom demo_oom"
  by (simp_all add: usable_metrics_def demo_metrics_def createContainerMetricsSnapshots_def newContainerMetricsSnapshot_def calculateUsage_def
      usable_snapshot_def usable_oom_def demo_oom_def MilliValue_def quantity_value_def mget0_def in_i64_def minInt64_def maxInt64_def)

theorem feeder_mirrors_the_listings_witness:
  "\<exists>c'. feed_round demo_laws demo_label_string demo_as_sel (Inr [demo_crd ''v'' ''a'', demo_crd ''w'' ''''])
      (Inr [demo_listed_pod ''p'', demo_listed_pod ''q'']) (Inr [demo_metrics]) [demo_oom] (DeletePod \<lparr>pid_Namespace = ''ns'', pid_PodName = ''r''\<rparr> NewClusterState) =
      Some (c', []) \<and>
    cluster_ok demo_laws demo_label_string c' \<and>
    (\<forall>vid. mhas (cl_Vpas c') vid \<longleftrightarrow> (\<exists>crd\<in>set [demo_crd ''v'' ''a'', demo_crd ''w'' '''']. vpa_id crd = vid \<and> valid_selector demo_as_sel crd)) \<and>
    (\<forall>pid. mhas (cl_Pods c') pid \<longleftrightarrow> pid \<in> bp_ID ` set (map newBasicPodSpec [demo_listed_pod ''p'', demo_listed_pod ''q''])) \<and>
    (\<forall>spec\<in>set (map newBasicPodSpec [demo_listed_pod ''p'', demo_listed_pod ''q'']). \<exists>pod. mget (cl_Pods c') (bp_ID spec) = Some pod \<and>
       ps_labelSetKey pod = demo_label_string (bp_PodLabels spec) \<and> ps_Phase pod = bp_Phase spec \<and>
       (\<forall>container\<in>set (bp_Containers spec). mhas (ps_Containers pod) (cid_ContainerName (bc_ID container))))"
  by (rule feeder_mirrors_the_listings [OF DeletePod_ok [OF cluster_ok_new] demo_laws_ok demo_label_law])
    (simp_all add: listed_items_def demo_metrics_usable newBasicPodSpec_def demo_listed_pod_def Let_def)

section \<open>Samples of the history\<close>

text \<open>
  \<open>InitFromHistoryProvider\<close> adds the pods of the history but none of their containers, so the cluster refuses
  every sample of a pod it did not know before: what is left of the history is the pods and their labels.
\<close>

lemma unknown_container_sample:
  "outline c (cid_PodID cid) = Some (l, p, ns) \<Longrightarrow> cid_ContainerName cid \<notin> ns \<Longrightarrow>
     ClusterAddSample ml cid x c = Some (Some (KeyError (ContainerKey cid)), c)"
  by (auto simp: outline_def ClusterAddSample_def mhas_mkeys mhas_def)

lemma history_samples_refused:
  assumes "outline c pid = None" "load_history ml label_string c (pid, h) = Some c'"
  shows "AddOrUpdatePod ml label_string pid (ph_LastLabels h) ''Unknown'' c = Some c'"
proof -
  obtain c1 where c1: "AddOrUpdatePod ml label_string pid (ph_LastLabels h) ''Unknown'' c = Some c1"
    using assms(2) by (auto simp: load_history_def split: option.splits)
  have "outline c1 pid = Some (label_string (ph_LastLabels h), ''Unknown'', {})"
    by (simp add: AddOrUpdatePod_outline(1) [OF c1] assms(1))
  then have "add_sample ml c1 (\<lparr>cid_PodID = pid, cid_ContainerName = name\<rparr>, x) = Some c1" for name x
    using unknown_container_sample [of c1 "\<lparr>cid_PodID = pid, cid_ContainerName = name\<rparr>"] by (simp add: add_sample_def)
  then have "ofold (\<lambda>c sample. add_sample ml c (\<lparr>cid_PodID = pid, cid_ContainerName = name\<rparr>, sample)) c1 xs = Some c1" for name xs
    by (induction xs) simp_all
  then have "ofold (\<lambda>c (containerName, sampleList).
      ofold (\<lambda>c sample. add_sample ml c (\<lparr>cid_PodID = pid, cid_ContainerName = containerName\<rparr>, sample)) c sampleList) c1 m = Some c1" for m
    by (induction m) auto
  then show ?thesis using assms(2) c1 by (simp add: load_history_def)
qed

section \<open>Listing errors\<close>

text \<open>When the pods cannot be listed, \<open>LoadPods\<close> goes on with no specifications and forgets every pod.\<close>

lemma pods_forgotten_after_error:
  assumes "LoadPods ml label_string (Inl err) c = Some c'"
  shows "mget (cl_Pods c') pid = None"
proof -
  have "mget (cl_Pods (foldl (\<lambda>c key. DeletePod key c) c keys)) pid = (if pid \<in> set keys then None else mget (cl_Pods c) pid)" for keys
    by (induction keys arbitrary: c) (auto simp: DeletePod_def)
  then show ?thesis using assms mhas_mkeys [of pid "cl_Pods c"]
    by (auto simp: LoadPods_def pods_by_id_def mhas_def split: if_splits)
qed

text \<open>A restarted container whose last state does not say how it was terminated makes the observer panic.\<close>

lemma restart_without_termination_panics:
  assumes "status \<in> set (ob_ContainerStatuses new)" "st_RestartCount status > 0" "st_LastTerminated status = None"
  shows "OnUpdate old (Some new) observer = None"
proof -
  have "ofold (\<lambda>observer status. status_oom old new status observer) observer statuses = None" if "status \<in> set statuses" for statuses
    using that assms(2,3) by (induction statuses arbitrary: observer) (auto simp: status_oom_def split: option.splits)
  then show ?thesis using assms(1) by (simp add: OnUpdate_def)
qed


end
