(* ===== verification/VpaRoutinesProps.thy ===== *)
theory VpaRoutinesProps
  imports VpaRoutines VpaFeederProps
begin

text \<open>
  The recommender never panics: from the first load on, whatever it is told by the listings, the metrics and the
  clock, every run ends, with the state of the cluster satisfying its invariant.
\<close>

section \<open>Merging aggregations\<close>

lemma ofold_lengths:
  assumes "length ws = n" "\<And>b ws. b \<in> set bs \<Longrightarrow> length ws = n \<Longrightarrow> \<exists>ws'. g ws b = Some ws' \<and> length ws' = n"
  shows "\<exists>ws'. ofold g ws bs = Some ws' \<and> length ws' = n"
  by (rule ofold_total [where I = "\<lambda>ws. length ws = n"]) (use assms in simp_all)

lemma shaped_Merge:
  assumes "shaped ml other" "shaped ml h" "h_options h = h_options other"
  shows "\<exists>h'. Merge other h = Some h' \<and> shaped ml h' \<and> h_options h' = h_options h"
proof -
  have "\<exists>ws. ofold (add_bucket (h_bucketWeight other)) (h_bucketWeight h) [h_minBucket other..h_maxBucket other] = Some ws \<and>
      length ws = length (h_bucketWeight h)"
    by (rule ofold_lengths)
      (use assms in \<open>auto simp: shaped_def Let_def add_bucket_def weight_at_def change_at_def\<close>)
  then show ?thesis using assms by (auto simp: Merge_def shaped_def Let_def)
qed

lemma shaped_shift:
  assumes "shaped ml (dh_histogram h)"
  shows "\<exists>h'. shiftReferenceTimestamp t h = Some h' \<and> shaped ml (dh_histogram h') \<and> hist_kind h' = hist_kind h"
proof -
  obtain hist where "scale (ldexp1 (shift_exponent (time_round t (dh_halfLife h)) h)) (dh_histogram h) = Some hist" "shaped ml hist"
    using shaped_scale [OF assms ldexp1_nonneg] by blast
  then show ?thesis using scale_options by (auto simp: shiftReferenceTimestamp_def Let_def hist_kind_def)
qed

lemma DecayingMerge_shaped:
  assumes "shaped ml (dh_histogram other)" "shaped ml (dh_histogram h)" "hist_kind other = hist_kind h"
  shows "\<exists>o' h'. DecayingMerge other h = Some (o', h') \<and> shaped ml (dh_histogram o') \<and> shaped ml (dh_histogram h') \<and>
    hist_kind o' = hist_kind h \<and> hist_kind h' = hist_kind h"
proof -
  obtain os hs where s: "shiftReferenceTimestamp (dh_referenceTimestamp h) other = Some os" "shaped ml (dh_histogram os)" "hist_kind os = hist_kind other"
    "shiftReferenceTimestamp (dh_referenceTimestamp other) h = Some hs" "shaped ml (dh_histogram hs)" "hist_kind hs = hist_kind h"
    using shaped_shift [OF assms(1), of "dh_referenceTimestamp h"] shaped_shift [OF assms(2), of "dh_referenceTimestamp other"] by blast
  have "\<exists>o1 h1. align other h = Some (o1, h1) \<and> shaped ml (dh_histogram o1) \<and> shaped ml (dh_histogram h1) \<and>
      hist_kind o1 = hist_kind h \<and> hist_kind h1 = hist_kind h"
    using s assms by (simp add: align_def)
  then obtain o1 h1 where a: "align other h = Some (o1, h1)" "shaped ml (dh_histogram o1)" "shaped ml (dh_histogram h1)"
    "hist_kind o1 = hist_kind h" "hist_kind h1 = hist_kind h" by blast
  then obtain hist where "Merge (dh_histogram o1) (dh_histogram h1) = Some hist" "shaped ml hist" "h_options hist = h_options (dh_histogram h1)"
    using shaped_Merge [OF a(2,3)] by (auto simp: hist_kind_def)
  then show ?thesis using a assms(3) by (auto simp: DecayingMerge_def hist_kind_def)
qed

text \<open>Two aggregations of the package's options.\<close>

lemma standard_iff:
  assumes "NewAggregateContainerState ml = Some s0"
  shows "standard_aggregation ml s \<longleftrightarrow> aggregation_shaped ml s \<and> hist_kind (ag_AggregateCPUUsage s) = hist_kind (ag_AggregateCPUUsage s0) \<and>
    hist_kind (ag_AggregateMemoryPeaks s) = hist_kind (ag_AggregateMemoryPeaks s0)"
  by (simp add: standard_aggregation_def assms)

lemma merge_standard:
  assumes "standard_aggregation ml other" "standard_aggregation ml s"
  shows "\<exists>o' s'. MergeContainerState other s = Some (o', s') \<and> standard_aggregation ml o' \<and> standard_aggregation ml s'"
proof -
  obtain s0 where s0: "NewAggregateContainerState ml = Some s0" using assms(1) by (auto simp: standard_aggregation_def split: option.splits)
  note st = assms [unfolded standard_iff [OF s0] aggregation_shaped_def]
  obtain oc c where c: "DecayingMerge (ag_AggregateCPUUsage other) (ag_AggregateCPUUsage s) = Some (oc, c)" "shaped ml (dh_histogram oc)"
    "shaped ml (dh_histogram c)" "hist_kind oc = hist_kind (ag_AggregateCPUUsage s)" "hist_kind c = hist_kind (ag_AggregateCPUUsage s)"
    using DecayingMerge_shaped [of ml "ag_AggregateCPUUsage other" "ag_AggregateCPUUsage s"] st by auto
  obtain om m where m: "DecayingMerge (ag_AggregateMemoryPeaks other) (ag_AggregateMemoryPeaks s) = Some (om, m)" "shaped ml (dh_histogram om)"
    "shaped ml (dh_histogram m)" "hist_kind om = hist_kind (ag_AggregateMemoryPeaks s)" "hist_kind m = hist_kind (ag_AggregateMemoryPeaks s)"
    using DecayingMerge_shaped [of ml "ag_AggregateMemoryPeaks other" "ag_AggregateMemoryPeaks s"] st by auto
  show ?thesis using c m st unfolding standard_iff [OF s0] aggregation_shaped_def by (simp add: MergeContainerState_def)
qed

text \<open>A heap of standard aggregations, and a map of standard aggregations of its own.\<close>

definition merged_ok :: "mathLib \<Rightarrow> nat \<Rightarrow> aggregateContainerState list \<times> containerAggregations \<Rightarrow> bool" where
  "merged_ok ml n hm \<longleftrightarrow> length (fst hm) = n \<and> (\<forall>s\<in>set (fst hm). standard_aggregation ml s) \<and>
     gomap_ok (snd hm) \<and> (\<forall>e\<in>set (snd hm). standard_aggregation ml (snd e))"

lemma merge_into_ok:
  assumes "merged_ok ml n hm" "a < n" "package_ok ml"
  shows "\<exists>hm'. merge_into ml name a hm = Some hm' \<and> merged_ok ml n hm'"
proof -
  obtain heap m where hm: "hm = (heap, m)" by (cases hm)
  note ok = assms(1) [unfolded hm merged_ok_def fst_conv snd_conv]
  obtain s where s: "(case mget m name of Some s \<Rightarrow> Some s | None \<Rightarrow> NewAggregateContainerState ml) = Some s" "standard_aggregation ml s"
  proof (cases "mget m name")
    case None
    then show thesis using standard_new [OF assms(3)] that by auto
  next
    case (Some s)
    then show thesis using that ok mget_SomeD [OF Some] by force
  qed
  have "heap ! a \<in> set heap" using ok assms(2) by simp
  then obtain o' s' where r: "MergeContainerState (heap ! a) s = Some (o', s')" "standard_aggregation ml o'" "standard_aggregation ml s'"
    using merge_standard [OF _ s(2)] ok by blast
  have "standard_aggregation ml x" if "x \<in> set (heap[a := o'])" for x
    using ok r(2) set_update_subset_insert [of heap a o'] that by blast
  moreover have "standard_aggregation ml (snd e)" if "e \<in> set (mput name s' m)" for e using ok r(3) mput_entries [OF that] by auto
  ultimately have "merged_ok ml n (heap[a := o'], mput name s' m)" using ok by (simp add: merged_ok_def)
  then show ?thesis using s(1) r(1) by (simp add: merge_into_def hm)
qed

lemma VpaAggregateState_ok:
  assumes "cluster_ok ml label_string c" "package_ok ml" "vpa_ok label_string c vid v"
  shows "\<exists>hm. VpaAggregateState ml v (cl_heap c) = Some hm \<and> merged_ok ml (length (cl_heap c)) hm"
proof -
  note ok = cluster_okD(1) [OF assms(1), unfolded aggregations_ok_def]
  have start: "merged_ok ml (length (cl_heap c)) (cl_heap c, [])" using ok by (simp add: merged_ok_def)
  have addr: "a < length (cl_heap c)" if "(key, a) \<in> set (vs_aggregateContainerStates v)" for key a
  proof -
    have v: "gomap_ok (vs_aggregateContainerStates v)" "vpa_linked c v" using assms(3) by (simp_all add: vpa_ok_def)
    have "mget (vs_aggregateContainerStates v) key = Some a" using that mget_eq_Some_iff [OF v(1)] by blast
    then have "mget (cl_aggregateStateMap c) key = Some a" using v(2) by (simp add: vpa_linked_def split: if_splits)
    then show ?thesis using ok by blast
  qed
  have "\<exists>hm. AggregateStateByContainerName ml (vs_aggregateContainerStates v) (cl_heap c) = Some hm \<and> merged_ok ml (length (cl_heap c)) hm"
    unfolding AggregateStateByContainerName_def
    by (rule ofold_total [where I = "merged_ok ml (length (cl_heap c))", OF start])
      (use addr merge_into_ok [OF _ _ assms(2)] in auto)
  then obtain hm where hm: "AggregateStateByContainerName ml (vs_aggregateContainerStates v) (cl_heap c) = Some hm" "merged_ok ml (length (cl_heap c)) hm"
    by blast
  have "\<exists>hm'. MergeCheckpointedState ml v hm = Some hm' \<and> merged_ok ml (length (cl_heap c)) hm'"
    unfolding MergeCheckpointedState_def
    by (rule ofold_total [where I = "merged_ok ml (length (cl_heap c))", OF hm(2)])
      (use assms(3) merge_into_ok [OF _ _ assms(2)] in \<open>auto simp: vpa_ok_def\<close>)
  then show ?thesis using hm(1) by (simp add: VpaAggregateState_def)
qed

text \<open>Reading may shift the reference times in the heap, nothing else.\<close>

lemma cluster_ok_merged:
  assumes "cluster_ok ml label_string c" "merged_ok ml (length (cl_heap c)) (heap, m)"
  shows "cluster_ok ml label_string (c\<lparr>cl_heap := heap\<rparr>)"
proof -
  let ?c = "c\<lparr>cl_heap := heap\<rparr>"
  note ok = cluster_okD [OF assms(1)]
  have n: "length heap = length (cl_heap c)" "\<forall>s\<in>set heap. standard_aggregation ml s" using assms(2) by (simp_all add: merged_ok_def)
  have "pod_ok ?c pid pod" if "mget (cl_Pods c) pid = Some pod" for pid pod by (rule pod_ok_mono [OF ok(4) [OF that]]) (simp_all add: n)
  moreover have "vpa_ok label_string ?c vid v" if "mget (cl_Vpas c) vid = Some v" for vid v
    by (rule vpa_ok_same [OF ok(6) [OF that]]) (simp_all add: n)
  moreover have "aggregations_ok ml ?c" using ok(1) n by (simp add: aggregations_ok_def)
  ultimately show ?thesis using ok(2,3,5) by (simp add: cluster_ok_def)
qed

section \<open>Estimating\<close>

lemma percentile_bucket_total:
  assumes "0 \<le> b" "b < int (length ws)" "hi < int (length ws)"
  shows "\<exists>b'. percentile_bucket ws t hi acc b = Some b' \<and> 0 \<le> b' \<and> b' < int (length ws)"
  using assms
proof (induction ws t hi acc b rule: percentile_bucket.induct)
  case (1 ws t hi acc b)
  show ?case
  proof (cases "b < hi")
    case True
    have w: "weight_at ws b = Some (ws ! nat b)" using "1.prems" by (simp add: weight_at_def)
    show ?thesis
    proof (cases "fle t (fadd acc (ws ! nat b))")
      case False
      have "\<exists>b'. percentile_bucket ws t hi (fadd acc (ws ! nat b)) (b + 1) = Some b' \<and> 0 \<le> b' \<and> b' < int (length ws)"
        by (rule "1.IH" [OF True w refl False]) (use "1.prems" True in simp_all)
      then show ?thesis using True w False by (subst percentile_bucket.simps) (simp add: Let_def)
    qed (use "1.prems" True w in \<open>simp add: percentile_bucket.simps [of ws t hi acc b]\<close>)
  qed (use "1.prems" in \<open>simp add: percentile_bucket.simps [of ws t hi acc b]\<close>)
qed

lemma Percentile_total:
  assumes "shaped ml h"
  shows "\<exists>x. Percentile ml p h = Some x"
proof -
  let ?n = "NumBuckets (h_options h)"
  have n: "0 < ?n" "int (length (h_bucketWeight h)) = ?n" "0 \<le> h_minBucket h" "h_minBucket h < ?n" "h_maxBucket h < ?n"
    using assms by (simp_all add: shaped_def Let_def)
  obtain b where b: "percentile_bucket (h_bucketWeight h) (fmul p (h_totalWeight h)) (h_maxBucket h) (Fin 0) (h_minBucket h) = Some b"
    "0 \<le> b" "b < ?n"
    using percentile_bucket_total [of "h_minBucket h" "h_bucketWeight h" "h_maxBucket h"] n by auto
  have "\<exists>e. IsEmpty h = Some e" using n by (simp add: IsEmpty_def weight_at_def)
  then show ?thesis using b by (auto simp: Percentile_def GetBucketStart_def split: bool.split)
qed

lemma GetResourceEstimation_total:
  assumes "aggregation_shaped ml s"
  shows "\<exists>rs. GetResourceEstimation ml s e = Some rs"
proof (induction e)
  case (PercentileEstimator p q)
  then show ?case
    using Percentile_total [of ml "dh_histogram (ag_AggregateCPUUsage s)" p] Percentile_total [of ml "dh_histogram (ag_AggregateMemoryPeaks s)" q] assms
    by (auto simp: DecayingPercentile_def aggregation_shaped_def)
qed auto

lemma GetRecommendedPodResources_total:
  assumes "\<forall>e\<in>set states. aggregation_shaped ml (snd e)"
  shows "\<exists>rs. GetRecommendedPodResources ml flags r states = Some rs"
proof -
  have e: "\<exists>rec. estimateContainerResources ml r' s = Some rec" if s: "aggregation_shaped ml s" for r' s
  proof -
    obtain t lo up where "GetResourceEstimation ml s (rr_targetEstimator r') = Some t" "GetResourceEstimation ml s (rr_lowerBoundEstimator r') = Some lo"
      "GetResourceEstimation ml s (rr_upperBoundEstimator r') = Some up" using GetResourceEstimation_total [OF s] by meson
    then show ?thesis by (simp add: estimateContainerResources_def)
  qed
  have "\<forall>s\<in>snd ` set states. \<exists>rec. estimateContainerResources ml r' s = Some rec" for r'
    using assms e by blast
  from recommendation_loop_total [OF this] show ?thesis by (simp add: GetRecommendedPodResources_def Let_def)
qed

lemma apply_policies_total: "\<exists>rs'. apply_policies policy rs = Inr rs' \<and> length rs' = length rs"
  by (induction rs) (auto simp: applyVPAPolicyForContainer_def Let_def split: option.splits)

lemma getCappedRecommendation_total: "\<exists>r. getCappedRecommendation resources policy = Some r"
  using apply_policies_total [of policy "map recommended_of resources"]
  by (auto simp: getCappedRecommendation_def ApplyVPAPolicy_def Let_def split: option.splits)

section \<open>Updating the recommendations\<close>

lemma set_recommendation_simps [simp]:
  "vs_ID (set_recommendation now r v) = vs_ID v" "vs_PodSelector (set_recommendation now r v) = vs_PodSelector v"
  "vs_aggregateContainerStates (set_recommendation now r v) = vs_aggregateContainerStates v"
  "vs_ContainersInitialAggregateState (set_recommendation now r v) = vs_ContainersInitialAggregateState v"
  by (simp_all add: set_recommendation_def Let_def)

text \<open>Changing the fields that do not link an object.\<close>

lemma vpa_ok_fields:
  assumes "vpa_ok label_string c vid v" "vs_ID v' = vs_ID v" "vs_PodSelector v' = vs_PodSelector v"
    "vs_aggregateContainerStates v' = vs_aggregateContainerStates v"
    "vs_ContainersInitialAggregateState v' = vs_ContainersInitialAggregateState v"
  shows "vpa_ok label_string c vid v'"
proof -
  have "matchesAggregation lsm v' key = matchesAggregation lsm v key" for lsm key by (simp add: matchesAggregation_def assms(2,3))
  then show ?thesis using assms by (simp add: vpa_ok_def vpa_linked_def)
qed

lemma GetContainerNameToAggregateStateMap_ok:
  assumes "cluster_ok ml label_string c" "package_ok ml" "vpa_ok label_string c vid v"
  shows "\<exists>heap states. GetContainerNameToAggregateStateMap ml v (cl_heap c) = Some (heap, states) \<and> merged_ok ml (length (cl_heap c)) (heap, states)"
proof -
  obtain heap m where hm: "VpaAggregateState ml v (cl_heap c) = Some (heap, m)" "merged_ok ml (length (cl_heap c)) (heap, m)"
    using VpaAggregateState_ok [OF assms] by auto
  have "merged_ok ml n (heap, filter P m)" if "merged_ok ml n (heap, m)" for n P using that by (simp add: merged_ok_def gomap_ok_filter)
  then show ?thesis using hm by (simp add: GetContainerNameToAggregateStateMap_def)
qed

lemma merged_shaped: "merged_ok ml n (heap, m) \<Longrightarrow> \<forall>e\<in>set m. aggregation_shaped ml (snd e)"
  by (simp add: merged_ok_def standard_aggregation_def)

lemma update_observed_ok:
  assumes "cluster_ok ml label_string c" "package_ok ml"
  shows "\<exists>sent' c'. update_observed ml flags r now same_status (sent, c) observed = Some (sent', c') \<and> cluster_ok ml label_string c'"
proof (cases "mget (cl_Vpas c) (vpa_id observed)")
  case (Some v)
  note v = cluster_okD(6) [OF assms(1) Some]
  obtain heap states where m: "GetContainerNameToAggregateStateMap ml v (cl_heap c) = Some (heap, states)" "merged_ok ml (length (cl_heap c)) (heap, states)"
    using GetContainerNameToAggregateStateMap_ok [OF assms v] by blast
  obtain resources where r: "GetRecommendedPodResources ml flags r states = Some resources"
    using GetRecommendedPodResources_total [OF merged_shaped [OF m(2)]] by blast
  obtain rec where rec: "getCappedRecommendation resources (va_ResourcePolicy observed) = Some rec" using getCappedRecommendation_total by blast
  let ?c = "c\<lparr>cl_heap := heap\<rparr>" and ?v = "set_recommendation now rec v"
  have c: "cluster_ok ml label_string ?c" by (rule cluster_ok_merged [OF assms(1) m(2)])
  have "vpa_ok label_string ?c (vpa_id observed) v" by (rule cluster_okD(6) [OF c]) (simp add: Some)
  then have "vpa_ok label_string ?c (vpa_id observed) ?v" by (rule vpa_ok_fields) simp_all
  from cluster_ok_put_vpa [OF c this] have "cluster_ok ml label_string (c\<lparr>cl_heap := heap, cl_Vpas := mput (vpa_id observed) ?v (cl_Vpas c)\<rparr>)"
    by simp
  then show ?thesis using Some m(1) r rec by (simp add: update_observed_def Let_def)
qed (use assms(1) in \<open>simp add: update_observed_def\<close>)

lemma UpdateVPAs_ok:
  assumes "cluster_ok ml label_string c" "package_ok ml"
  shows "\<exists>sent c'. UpdateVPAs ml flags r now same_status c = Some (sent, c') \<and> cluster_ok ml label_string c'"
proof -
  have "\<exists>sc. UpdateVPAs ml flags r now same_status c = Some sc \<and> cluster_ok ml label_string (snd sc)"
    unfolding UpdateVPAs_def
  proof (rule ofold_total [where I = "\<lambda>sc. cluster_ok ml label_string (snd sc)"])
    fix observed and sc :: "(vpaID \<times> vpaStatus) list \<times> 'a clusterState"
    assume "cluster_ok ml label_string (snd sc)"
    then show "\<exists>sc'. update_observed ml flags r now same_status sc observed = Some sc' \<and> cluster_ok ml label_string (snd sc')"
      using update_observed_ok [of ml label_string "snd sc" flags r now same_status "fst sc" observed] assms(2) by auto
  qed (simp add: assms(1))
  then show ?thesis by auto
qed

section \<open>Writing checkpoints\<close>

lemma SaveToChekpoint_total:
  assumes "shaped ml h"
  shows "\<exists>ck. SaveToChekpoint h = Some ck"
proof -
  let ?bs = "[h_minBucket h..h_maxBucket h]"
  have w: "\<exists>w. weight_at (h_bucketWeight h) b = Some w" if "b \<in> set ?bs" for b
    using that assms by (auto simp: shaped_def Let_def weight_at_def)
  have "\<exists>m. max_weight (h_bucketWeight h) ?bs = Some m \<and> True"
    unfolding max_weight_def by (rule ofold_total [where I = "\<lambda>_. True"]) (use w in auto)
  then obtain m where m: "max_weight (h_bucketWeight h) ?bs = Some m" by blast
  have "\<exists>x. ofold (save_bucket (h_bucketWeight h) (fdiv (f_of_int MaxCheckpointWeight) m)) [] ?bs = Some x \<and> True"
    by (rule ofold_total [where I = "\<lambda>_. True"]) (use w in \<open>auto simp: save_bucket_def\<close>)
  then show ?thesis using m by (auto simp: SaveToChekpoint_def Let_def)
qed

lemma SaveToCheckpoint_total: "aggregation_shaped ml a \<Longrightarrow> \<exists>status. SaveToCheckpoint a = Some status"
  using SaveToChekpoint_total [of ml "dh_histogram (ag_AggregateMemoryPeaks a)"] SaveToChekpoint_total [of ml "dh_histogram (ag_AggregateCPUUsage a)"]
  by (auto simp: SaveToCheckpoint_def DecayingSaveToChekpoint_def aggregation_shaped_def)

lemma subtract_peak_ok:
  assumes "standard_aggregation ml a" "peaks_in_range ct"
  shows "\<exists>a'. subtractCurrentContainerMemoryPeak ml now ct a = Some a' \<and> standard_aggregation ml a'"
proof -
  let ?x = "\<lparr>us_MeasureStart = ct_WindowEnd ct, us_Usage = GetMaxMemoryPeak ct, us_Request = 0, us_Resource = ResourceMemory\<rparr>"
  have u: "usable_sample ?x"
    using assms(2) by (auto simp: usable_sample_def GetMaxMemoryPeak_def ResourceAmountMax_def peaks_in_range_def in_i64_zero)
  then obtain a' where "subtractSample ml ?x a = Some a'" "standard_aggregation ml a'"
    using subtractSample_standard [OF assms(1) u] by auto
  then show ?thesis using assms(1) by (auto simp: subtractCurrentContainerMemoryPeak_def subtractSample_def)
qed

lemma build_map_ok:
  assumes "cluster_ok ml label_string c" "package_ok ml" "vpa_ok label_string c vid v"
  shows "\<exists>heap m. buildAggregateContainerStateMap ml v now c = Some (heap, m) \<and> merged_ok ml (length (cl_heap c)) (heap, m)"
proof -
  obtain heap m where hm: "VpaAggregateState ml v (cl_heap c) = Some (heap, m)" "merged_ok ml (length (cl_heap c)) (heap, m)"
    using VpaAggregateState_ok [OF assms] by auto
  let ?ok = "\<lambda>m. merged_ok ml (length (cl_heap c)) (heap, m)"
  have put: "?ok (mput name a m)" if "?ok m" "standard_aggregation ml a" for m name a
    using that mput_entries [of _ name a m] by (fastforce simp: merged_ok_def)
  have one: "\<exists>m'. subtract_container ml now v pod m (name, ct) = Some m' \<and> ?ok m'" if m: "?ok m" and p: "peaks_in_range ct" for pod m name ct
  proof (cases "UsesAggregation (MakeAggregateStateKey pod name) v")
    case True
    show ?thesis
    proof (cases "mget m name")
      case (Some a)
      then have "standard_aggregation ml a" using m mget_SomeD [OF Some] by (force simp: merged_ok_def)
      then obtain a' where "subtractCurrentContainerMemoryPeak ml now ct a = Some a'" "standard_aggregation ml a'"
        using subtract_peak_ok [OF _ p] by blast
      then show ?thesis using True Some put [OF m] by (simp add: subtract_container_def)
    qed (use m True in \<open>simp add: subtract_container_def\<close>)
  qed (use m in \<open>simp add: subtract_container_def\<close>)
  have peaks: "peaks_in_range ct" if "(pid, pod) \<in> set (cl_Pods c)" "(name, ct) \<in> set (ps_Containers pod)" for pid pod name ct
  proof -
    have "mget (cl_Pods c) pid = Some pod" using that(1) mget_eq_Some_iff [OF cluster_okD(3) [OF assms(1)]] by blast
    from cluster_okD(4) [OF assms(1) this] show ?thesis using that(2) by (auto simp: pod_ok_def)
  qed
  have "\<exists>m'. ofold (\<lambda>m (_, pod). ofold (subtract_container ml now v pod) m (ps_Containers pod)) m (cl_Pods c) = Some m' \<and> ?ok m'"
  proof (rule ofold_total [where I = ?ok, OF hm(2)])
    fix x m assume x: "x \<in> set (cl_Pods c)" "?ok m"
    obtain pid pod where p: "x = (pid, pod)" by (cases x)
    have "\<exists>m'. ofold (subtract_container ml now v pod) m (ps_Containers pod) = Some m' \<and> ?ok m'"
      by (rule ofold_total [where I = ?ok, OF x(2)]) (use one peaks x(1) p in auto)
    then show "\<exists>m'. (case x of (_, pod) \<Rightarrow> ofold (subtract_container ml now v pod) m (ps_Containers pod)) = Some m' \<and> ?ok m'"
      by (simp add: p)
  qed
  then show ?thesis using hm(1) by (auto simp: buildAggregateContainerStateMap_def)
qed

text \<open>One object's checkpoints: every container is written, and the state keeps its invariant.\<close>

definition same_links :: "'sel clusterState \<Rightarrow> 'sel clusterState \<Rightarrow> bool" where
  "same_links c c' \<longleftrightarrow> cl_labelSetMap c' = cl_labelSetMap c \<and> cl_aggregateStateMap c' = cl_aggregateStateMap c \<and>
     length (cl_heap c') = length (cl_heap c)"

lemma vpa_ok_links: "vpa_ok label_string c vid v \<Longrightarrow> same_links c c' \<Longrightarrow> vpa_ok label_string c' vid v"
  unfolding same_links_def by (rule vpa_ok_same) auto

lemma store_checkpoint_ok:
  assumes "cluster_ok ml label_string c" "aggregation_shaped ml (snd entry)"
  shows "\<exists>ck c'. store_checkpoint stored now v (n, written, c) entry = Some (n - 1, written @ [ck], c') \<and> cluster_ok ml label_string c' \<and>
    same_links c c' \<and> checkpoint_vpa ck = vs_ID v \<and> ck_ContainerName ck = fst entry"
proof -
  obtain name a where e: "entry = (name, a)" by (cases entry)
  obtain status where s: "SaveToCheckpoint a = Some status" using SaveToCheckpoint_total assms(2) e by auto
  have "cluster_ok ml label_string (c\<lparr>cl_Vpas := mput (vs_ID v) (v'\<lparr>vs_CheckpointWritten := now\<rparr>) (cl_Vpas c)\<rparr>)"
    if "mget (cl_Vpas c) (vs_ID v) = Some v'" for v'
    by (rule cluster_ok_put_vpa [OF assms(1) vpa_ok_fields [OF cluster_okD(6) [OF assms(1) that]]]) simp_all
  then show ?thesis using assms(1) s e by (simp add: store_checkpoint_def Let_def same_links_def checkpoint_vpa_def split: option.split)
qed

lemma store_checkpoints_ok:
  assumes "cluster_ok ml label_string c" "\<forall>e\<in>set m. aggregation_shaped ml (snd e)"
  shows "\<exists>cks c'. ofold (store_checkpoint stored now v) (n, written, c) m = Some (n - int (length m), written @ cks, c') \<and>
    cluster_ok ml label_string c' \<and> same_links c c' \<and> map ck_ContainerName cks = map fst m \<and> (\<forall>ck\<in>set cks. checkpoint_vpa ck = vs_ID v)"
  using assms
proof (induction m arbitrary: n written c)
  case (Cons e m)
  obtain ck c1 where c1: "store_checkpoint stored now v (n, written, c) e = Some (n - 1, written @ [ck], c1)" "cluster_ok ml label_string c1"
    "same_links c c1" "checkpoint_vpa ck = vs_ID v" "ck_ContainerName ck = fst e"
    using store_checkpoint_ok [OF Cons.prems(1), of e] Cons.prems(2) by force
  obtain cks c' where "ofold (store_checkpoint stored now v) (n - 1, written @ [ck], c1) m = Some (n - 1 - int (length m), (written @ [ck]) @ cks, c')"
    "cluster_ok ml label_string c'" "same_links c1 c'" "map ck_ContainerName cks = map fst m" "\<forall>ck\<in>set cks. checkpoint_vpa ck = vs_ID v"
    using Cons.IH [OF c1(2)] Cons.prems(2) by (meson list.set_intros(2))
  then show ?case using c1 by (intro exI [of _ "ck # cks"] exI [of _ c']) (simp add: same_links_def)
qed (auto simp: same_links_def intro!: exI [of _ "[]"])

section \<open>Progress of the checkpoints\<close>

text \<open>The containers of the merged map.\<close>

lemma merge_into_keys: "merge_into ml name a hm = Some hm' \<Longrightarrow> set (mkeys (snd hm')) = insert name (set (mkeys (snd hm)))"
  by (auto simp: merge_into_def set_mkeys_mput split: prod.splits option.splits)

lemma merge_fold_keys:
  assumes "ofold (\<lambda>hm (k, a). merge_into ml (f k) a hm) hm es = Some hm'"
  shows "set (mkeys (snd hm')) = set (mkeys (snd hm)) \<union> (f \<circ> fst) ` set es"
  using assms
proof (induction es arbitrary: hm)
  case (Cons e es)
  obtain k a where e: "e = (k, a)" by (cases e)
  obtain hm1 where "merge_into ml (f k) a hm = Some hm1" "ofold (\<lambda>hm (k, a). merge_into ml (f k) a hm) hm1 es = Some hm'"
    using Cons.prems e by (auto split: option.splits)
  then show ?case using Cons.IH [of hm1] merge_into_keys [of ml "f k" a hm hm1] by (simp add: e)
qed simp

lemma aggregated_names:
  assumes "VpaAggregateState ml v heap = Some (heap', m)" "UsesAggregation key v"
  shows "ak_containerName key \<in> set (mkeys m)"
proof -
  obtain hm where hm: "AggregateStateByContainerName ml (vs_aggregateContainerStates v) heap = Some hm" "MergeCheckpointedState ml v hm = Some (heap', m)"
    using assms(1) by (auto simp: VpaAggregateState_def split: option.splits)
  have "key \<in> fst ` set (vs_aggregateContainerStates v)"
    using assms(2) by (auto simp: UsesAggregation_def dest!: mget_SomeD) force
  then have "ak_containerName key \<in> set (mkeys (snd hm))"
    using merge_fold_keys [OF hm(1) [unfolded AggregateStateByContainerName_def]] by auto
  then show ?thesis using merge_fold_keys [of ml "\<lambda>k. k", OF hm(2) [unfolded MergeCheckpointedState_def]] by simp
qed

lemma subtract_keys: "subtract_container ml now v pod m e = Some m' \<Longrightarrow> set (mkeys m') = set (mkeys m)"
proof -
  assume r: "subtract_container ml now v pod m e = Some m'"
  obtain name ct where e: "e = (name, ct)" by (cases e)
  show ?thesis
  proof (cases "mget m name")
    case (Some a)
    then have "name \<in> set (mkeys m)" by (simp add: mhas_mkeys mhas_def)
    then show ?thesis using r Some by (auto simp: e subtract_container_def set_mkeys_mput split: if_splits)
  qed (use r in \<open>auto simp: e subtract_container_def split: if_splits\<close>)
qed

lemma ofold_preserves:
  assumes "ofold f s xs = Some s'" "\<And>x s s'. f s x = Some s' \<Longrightarrow> g s' = g s"
  shows "g s' = g s"
  using assms(1) by (induction xs arbitrary: s) (auto split: option.splits simp: assms(2))

lemma built_names:
  assumes "buildAggregateContainerStateMap ml v now c = Some (heap, m)" "UsesAggregation key v"
  shows "ak_containerName key \<in> set (mkeys m)"
proof -
  obtain m0 where m0: "VpaAggregateState ml v (cl_heap c) = Some (heap, m0)"
    "ofold (\<lambda>m (_, pod). ofold (subtract_container ml now v pod) m (ps_Containers pod)) m0 (cl_Pods c) = Some m"
    using assms(1) by (auto simp: buildAggregateContainerStateMap_def split: option.splits)
  have "set (mkeys m) = set (mkeys m0)"
  proof (rule ofold_preserves [OF m0(2)])
    fix x s s' assume "(case x of (_, pod) \<Rightarrow> ofold (subtract_container ml now v pod) s (ps_Containers pod)) = Some s'"
    then show "set (mkeys s') = set (mkeys s)"
      using ofold_preserves [of _ _ _ _ "\<lambda>m. set (mkeys m)"] subtract_keys by (cases x) force
  qed
  then show ?thesis using aggregated_names [OF m0(1) assms(2)] by simp
qed

text \<open>The checkpoints written for one object: all are its own, and every container that it uses has one.\<close>

definition checkpointed :: "vpaCheckpoint list \<Rightarrow> vpa \<Rightarrow> bool" where
  "checkpointed block v \<longleftrightarrow> (\<forall>ck\<in>set block. checkpoint_vpa ck = vs_ID v) \<and>
     (\<forall>key. UsesAggregation key v \<longrightarrow> (\<exists>ck\<in>set block. ck_ContainerName ck = ak_containerName key))"

lemma store_loop_ok:
  assumes "cluster_ok ml label_string c" "package_ok ml" "\<forall>v\<in>set vs. \<exists>vid. vpa_ok label_string c vid v"
  shows "\<exists>n' blocks c' finished pending. store_loop ml ctx_err stored now i vs (n, written, c) =
      Some (pending \<noteq> [], n', written @ concat blocks, c') \<and>
    cluster_ok ml label_string c' \<and> vs = finished @ pending \<and> list_all2 checkpointed blocks finished \<and>
    n' = n - int (length (concat blocks)) \<and> (pending \<noteq> [] \<longrightarrow> n' \<le> 0 \<and> ctx_err (i + length finished)) \<and>
    (\<forall>j<length finished. ctx_err (i + j) \<longrightarrow> int (length (concat (take j blocks))) < n)"
  using assms(1,3)
proof (induction vs arbitrary: i n written c)
  case Nil
  then show ?case by (intro exI [of _ n] exI [of _ "[]"] exI [of _ c] exI [of _ "[]"]) simp
next
  case (Cons v vs)
  show ?case
  proof (cases "ctx_err i \<and> n \<le> 0")
    case True
    then show ?thesis using Cons.prems(1)
      by (intro exI [of _ n] exI [of _ "[]"] exI [of _ c] exI [of _ "[]"] exI [of _ "v # vs"]) auto
  next
    case False
    obtain vid where v: "vpa_ok label_string c vid v" using Cons.prems(2) by auto
    obtain heap m where m: "buildAggregateContainerStateMap ml v now c = Some (heap, m)" "merged_ok ml (length (cl_heap c)) (heap, m)"
      using build_map_ok [OF Cons.prems(1) assms(2) v] by blast
    let ?c = "c\<lparr>cl_heap := heap\<rparr>"
    have ok: "cluster_ok ml label_string ?c" by (rule cluster_ok_merged [OF Cons.prems(1) m(2)])
    obtain cks c1 where c1: "ofold (store_checkpoint stored now v) (n, written, ?c) m = Some (n - int (length m), written @ cks, c1)"
      "cluster_ok ml label_string c1" "same_links ?c c1" "map ck_ContainerName cks = map fst m" "\<forall>ck\<in>set cks. checkpoint_vpa ck = vs_ID v"
      using store_checkpoints_ok [OF ok merged_shaped [OF m(2)]] by blast
    have links: "same_links c c1" using c1(3) m(2) by (simp add: same_links_def merged_ok_def)
    have "\<forall>v\<in>set vs. \<exists>vid. vpa_ok label_string c1 vid v" using Cons.prems(2) vpa_ok_links [OF _ links] by (meson list.set_intros(2))
    from Cons.IH [OF c1(2) this] obtain n' blocks c' finished pending where
      r: "store_loop ml ctx_err stored now (i + 1) vs (n - int (length m), written @ cks, c1) =
        Some (pending \<noteq> [], n', (written @ cks) @ concat blocks, c')"
      "cluster_ok ml label_string c'" "vs = finished @ pending" "list_all2 checkpointed blocks finished"
      "n' = n - int (length m) - int (length (concat blocks))" "pending \<noteq> [] \<longrightarrow> n' \<le> 0 \<and> ctx_err (i + 1 + length finished)"
      "\<forall>j<length finished. ctx_err (i + 1 + j) \<longrightarrow> int (length (concat (take j blocks))) < n - int (length m)" by blast
    have "ak_containerName key \<in> set (map ck_ContainerName cks)" if "UsesAggregation key v" for key
      using built_names [OF m(1) that] unfolding c1(4) by (simp add: mkeys_def)
    then have "list_all2 checkpointed (cks # blocks) (v # finished)" using c1(5) r(4) by (fastforce simp: checkpointed_def)
    moreover have len: "length m = length cks" using c1(4) by (metis length_map)
    moreover have "int (length (concat (take j (cks # blocks)))) < n" if "j < length (v # finished)" "ctx_err (i + j)" for j
      using that r(7) False len by (cases j) auto
    moreover have "store_loop ml ctx_err stored now i (v # vs) (n, written, c) = Some (pending \<noteq> [], n', written @ concat (cks # blocks), c')"
      unfolding store_loop.simps fst_conv snd_conv if_not_P [OF False] m(1) option.case prod.case c1(1) using r(1) by simp
    ultimately show ?thesis using r(2,3,5,6)
      by (intro exI [of _ n'] exI [of _ "cks # blocks"] exI [of _ c'] exI [of _ "v # finished"] exI [of _ pending]) simp
  qed
qed

definition sorts_by_checkpoint :: "(vpa list \<Rightarrow> vpa list) \<Rightarrow> bool" where
  "sorts_by_checkpoint sorter \<longleftrightarrow> (\<forall>vs. mset (sorter vs) = mset vs \<and> sorted (map vs_CheckpointWritten (sorter vs)))"

lemma vpas_to_checkpoint:
  assumes "sorts_by_checkpoint sorter"
  shows "mset (getVpasToCheckpoint sorter vpas) = mset (filter (\<lambda>v. \<not> isFetchingHistory v) (map snd vpas))"
    "sorted (map vs_CheckpointWritten (getVpasToCheckpoint sorter vpas))"
  using assms by (simp_all only: sorts_by_checkpoint_def getVpasToCheckpoint_def)

lemma StoreCheckpoints_ok:
  assumes "cluster_ok ml label_string c" "package_ok ml" "sorts_by_checkpoint sorter"
  shows "\<exists>n' blocks c' finished pending.
    StoreCheckpoints ml sorter ctx_err stored now minCheckpoints c = Some (pending \<noteq> [], n', concat blocks, c') \<and>
    cluster_ok ml label_string c' \<and> getVpasToCheckpoint sorter (cl_Vpas c) = finished @ pending \<and> list_all2 checkpointed blocks finished \<and>
    n' = minCheckpoints - int (length (concat blocks)) \<and> (pending \<noteq> [] \<longrightarrow> n' \<le> 0 \<and> ctx_err (length finished)) \<and>
    (\<forall>j<length finished. ctx_err j \<longrightarrow> int (length (concat (take j blocks))) < minCheckpoints)"
proof -
  have "\<forall>v\<in>set (getVpasToCheckpoint sorter (cl_Vpas c)). \<exists>vid. vpa_ok label_string c vid v"
  proof
    fix v assume "v \<in> set (getVpasToCheckpoint sorter (cl_Vpas c))"
    then obtain vid where "(vid, v) \<in> set (cl_Vpas c)" using mset_eq_setD [OF vpas_to_checkpoint(1) [OF assms(3)]] by fastforce
    then have "mget (cl_Vpas c) vid = Some v" using mget_eq_Some_iff [OF cluster_okD(5) [OF assms(1)]] by blast
    then show "\<exists>vid. vpa_ok label_string c vid v" using cluster_okD(6) [OF assms(1)] by blast
  qed
  from store_loop_ok [OF assms(1,2) this, of ctx_err stored now 0 minCheckpoints "[]"] show ?thesis by (simp add: StoreCheckpoints_def)
qed

end
