(* ===== verification/VpaRuns.thy ===== *)
theory VpaRuns
  imports VpaRoutinesProps
begin

text \<open>
  The recommender as a whole: its start from checkpoints or from the history, and the loop of its runs.  No run
  panics, and the checkpoints of a run make progress, the oldest first.
\<close>

section \<open>Loading checkpoints\<close>

lemma check_buckets_range: "check_buckets n acc xs = Inr s \<Longrightarrow> (b, w) \<in> set xs \<Longrightarrow> 0 \<le> b \<and> b < n"
  by (induction n acc xs rule: check_buckets.induct) (auto split: if_splits)

lemma LoadFromCheckpoint_shaped:
  assumes "shaped ml h"
  shows "\<exists>r. LoadFromCheckpoint ck h = Some r \<and> (case r of Inl _ \<Rightarrow> True | Inr h' \<Rightarrow> shaped ml h' \<and> h_options h' = h_options h)"
proof (cases ck)
  case (Some c)
  show ?thesis
  proof (cases "check_buckets (NumBuckets (h_options h)) 0 (hc_BucketWeights c)")
    case (Inr s)
    have "\<exists>h'. ofold (load_bucket (fdiv (hc_TotalWeight c) (f_of_int s))) h (hc_BucketWeights c) = Some h' \<and>
        (shaped ml h' \<and> h_options h' = h_options h)"
    proof (rule ofold_total [where I = "\<lambda>h'. shaped ml h' \<and> h_options h' = h_options h"])
      fix e h' assume e: "e \<in> set (hc_BucketWeights c)" and h': "shaped ml h' \<and> h_options h' = h_options h"
      obtain b w where bw: "e = (b, w)" by (cases e)
      have "0 \<le> b \<and> b < NumBuckets (h_options h)" by (rule check_buckets_range [OF Inr]) (use e bw in simp)
      then show "\<exists>h''. load_bucket (fdiv (hc_TotalWeight c) (f_of_int s)) h' e = Some h'' \<and> (shaped ml h'' \<and> h_options h'' = h_options h)"
        using h' by (auto simp: bw load_bucket_def change_at_def weight_at_def shaped_def Let_def)
    qed (use assms in simp)
    then obtain h' where "ofold (load_bucket (fdiv (hc_TotalWeight c) (f_of_int s))) h (hc_BucketWeights c) = Some h'"
      "shaped ml h'" "h_options h' = h_options h" by blast
    then show ?thesis using Some Inr assms by (simp add: LoadFromCheckpoint_def shaped_def)
  qed (use Some in \<open>simp add: LoadFromCheckpoint_def\<close>)
qed (simp add: LoadFromCheckpoint_def)

lemma DecayingLoad_shaped:
  assumes "shaped ml (dh_histogram h)"
  shows "\<exists>r. DecayingLoadFromCheckpoint ck h = Some r \<and>
    (case r of Inl _ \<Rightarrow> True | Inr h' \<Rightarrow> shaped ml (dh_histogram h') \<and> hist_kind h' = hist_kind h)"
proof -
  obtain r where r: "LoadFromCheckpoint ck (dh_histogram h) = Some r"
    "case r of Inl _ \<Rightarrow> True | Inr h' \<Rightarrow> shaped ml h' \<and> h_options h' = h_options (dh_histogram h)"
    using LoadFromCheckpoint_shaped [OF assms] by blast
  then show ?thesis by (cases r) (simp_all add: DecayingLoadFromCheckpoint_def hist_kind_def)
qed

lemma LoadAggregate_standard:
  assumes "standard_aggregation ml a"
  shows "\<exists>err a'. LoadAggregateFromCheckpoint status a = Some (err, a') \<and> (err = None \<longrightarrow> standard_aggregation ml a')"
proof (cases "vc_Version status = SupportedCheckpointVersion")
  case True
  obtain s0 where s0: "NewAggregateContainerState ml = Some s0" using assms by (auto simp: standard_aggregation_def split: option.splits)
  note st = assms [unfolded standard_iff [OF s0] aggregation_shaped_def]
  obtain rm where rm: "DecayingLoadFromCheckpoint (Some (vc_MemoryHistogram status)) (ag_AggregateMemoryPeaks a) = Some rm"
    "case rm of Inl _ \<Rightarrow> True | Inr h' \<Rightarrow> shaped ml (dh_histogram h') \<and> hist_kind h' = hist_kind (ag_AggregateMemoryPeaks a)"
    using DecayingLoad_shaped [of ml "ag_AggregateMemoryPeaks a"] st by blast
  obtain rc where rc: "DecayingLoadFromCheckpoint (Some (vc_CPUHistogram status)) (ag_AggregateCPUUsage a) = Some rc"
    "case rc of Inl _ \<Rightarrow> True | Inr h' \<Rightarrow> shaped ml (dh_histogram h') \<and> hist_kind h' = hist_kind (ag_AggregateCPUUsage a)"
    using DecayingLoad_shaped [of ml "ag_AggregateCPUUsage a"] st by blast
  show ?thesis using True rm rc st unfolding standard_iff [OF s0] aggregation_shaped_def
    by (cases rm; cases rc) (simp_all add: LoadAggregateFromCheckpoint_def Let_def)
qed (simp add: LoadAggregateFromCheckpoint_def)

lemma cluster_ok_append:
  assumes "cluster_ok ml label_string c" "standard_aggregation ml s"
  shows "cluster_ok ml label_string (c\<lparr>cl_heap := cl_heap c @ [s]\<rparr>)"
proof -
  let ?c = "c\<lparr>cl_heap := cl_heap c @ [s]\<rparr>"
  note ok = cluster_okD [OF assms(1)]
  have "pod_ok ?c pid pod" if "mget (cl_Pods c) pid = Some pod" for pid pod by (rule pod_ok_mono [OF ok(4) [OF that]]) simp_all
  moreover have "vpa_ok label_string ?c vid v" if "mget (cl_Vpas c) vid = Some v" for vid v
    by (rule vpa_ok_same [OF ok(6) [OF that]]) simp_all
  moreover have "aggregations_ok ml ?c" using ok(1) assms(2) unfolding aggregations_ok_def by (auto simp: less_Suc_eq)
  ultimately show ?thesis using ok(2,3,5) by (simp add: cluster_ok_def)
qed

lemma setVpaCheckpoint_ok:
  assumes "cluster_ok ml label_string c" "package_ok ml"
  shows "\<exists>err c'. setVpaCheckpoint ml ck c = Some (err, c') \<and> cluster_ok ml label_string c'"
proof (cases "mget (cl_Vpas c) (checkpoint_vpa ck)")
  case (Some v)
  obtain cs where cs: "NewAggregateContainerState ml = Some cs" "standard_aggregation ml cs" using standard_new [OF assms(2)] by blast
  obtain err cs' where load: "LoadAggregateFromCheckpoint (ck_Status ck) cs = Some (err, cs')" "err = None \<longrightarrow> standard_aggregation ml cs'"
    using LoadAggregate_standard [OF cs(2)] by blast
  show ?thesis
  proof (cases err)
    case None
    let ?c = "c\<lparr>cl_heap := cl_heap c @ [cs']\<rparr>"
    let ?v = "v\<lparr>vs_ContainersInitialAggregateState := mput (ck_ContainerName ck) (length (cl_heap c)) (vs_ContainersInitialAggregateState v)\<rparr>"
    have c: "cluster_ok ml label_string ?c" using cluster_ok_append [OF assms(1)] load(2) None by blast
    have v: "vpa_ok label_string ?c (checkpoint_vpa ck) v" by (rule cluster_okD(6) [OF c]) (simp add: Some)
    have "snd e < length (cl_heap ?c)" if "e \<in> set (vs_ContainersInitialAggregateState ?v)" for e
      using v mput_entries [of e "ck_ContainerName ck" "length (cl_heap c)" "vs_ContainersInitialAggregateState v"] that
      by (auto simp: vpa_ok_def)
    moreover have "matchesAggregation lsm ?v key = matchesAggregation lsm v key" for lsm key by (simp add: matchesAggregation_def)
    ultimately have "vpa_ok label_string ?c (checkpoint_vpa ck) ?v" using v by (simp add: vpa_ok_def vpa_linked_def)
    from cluster_ok_put_vpa [OF c this] show ?thesis using Some cs(1) load(1) None by (simp add: setVpaCheckpoint_def Let_def)
  qed (use Some cs(1) load(1) assms(1) in \<open>simp add: setVpaCheckpoint_def Let_def\<close>)
qed (use assms(1) in \<open>simp add: setVpaCheckpoint_def Let_def\<close>)

lemma InitFromCheckpoints_ok:
  assumes "cluster_ok ml label_string c" "package_ok ml" "label_law label_string as_sel"
  shows "\<exists>c'. InitFromCheckpoints ml as_sel vpas list_checkpoints c = Some c' \<and> cluster_ok ml label_string c'"
proof -
  obtain c1 where c1: "LoadVPAs as_sel vpas c = Some c1" "cluster_ok ml label_string c1" using LoadVPAs_ok [OF assms(1,3)] by blast
  have one: "\<exists>c'. map_option snd (setVpaCheckpoint ml ck c) = Some c' \<and> cluster_ok ml label_string c'" if "cluster_ok ml label_string c"
    for ck and c :: "'a clusterState"
    using setVpaCheckpoint_ok [OF that assms(2), of ck] by auto
  have all: "\<exists>c'. ofold (\<lambda>c ck. map_option snd (setVpaCheckpoint ml ck c)) c cks = Some c' \<and> cluster_ok ml label_string c'"
    if "cluster_ok ml label_string c" for cks and c :: "'a clusterState"
    by (rule ofold_total [where I = "cluster_ok ml label_string", OF that]) (rule one)
  have "\<exists>c'. ofold (\<lambda>c namespace. ofold (\<lambda>c ck. map_option snd (setVpaCheckpoint ml ck c)) c (listed_items (list_checkpoints namespace))) c1 ns = Some c' \<and>
      cluster_ok ml label_string c'" for ns
    by (rule ofold_total [where I = "cluster_ok ml label_string", OF c1(2)]) (rule all)
  then show ?thesis using c1(1) by (simp add: InitFromCheckpoints_def)
qed

section \<open>Loading the history\<close>

definition usable_history :: "podHistory \<Rightarrow> bool" where
  "usable_history h \<longleftrightarrow> (\<forall>(name, samples)\<in>set (ph_Samples h). \<forall>x\<in>set samples. typed_sample x)"

lemma load_history_ok:
  assumes "cluster_ok ml label_string c" "package_ok ml" "usable_history h"
  shows "\<exists>c'. load_history ml label_string c (pid, h) = Some c' \<and> cluster_ok ml label_string c'"
proof -
  obtain c1 where c1: "AddOrUpdatePod ml label_string pid (ph_LastLabels h) ''Unknown'' c = Some c1" "cluster_ok ml label_string c1"
    using AddOrUpdatePod_ok [OF assms(1,2)] by blast
  have "\<exists>c'. ofold (\<lambda>c (containerName, sampleList).
      ofold (\<lambda>c sample. add_sample ml c (\<lparr>cid_PodID = pid, cid_ContainerName = containerName\<rparr>, sample)) c sampleList) c1 (ph_Samples h) = Some c' \<and>
      cluster_ok ml label_string c'"
  proof (rule ofold_total [where I = "cluster_ok ml label_string", OF c1(2)])
    fix e c assume e: "e \<in> set (ph_Samples h)" and c: "cluster_ok ml label_string c"
    obtain name xs where x: "e = (name, xs)" by (cases e)
    have "\<exists>c'. ofold (\<lambda>c sample. add_sample ml c (\<lparr>cid_PodID = pid, cid_ContainerName = name\<rparr>, sample)) c xs = Some c' \<and> cluster_ok ml label_string c'"
    proof (rule ofold_total [where I = "cluster_ok ml label_string", OF c])
      fix s c assume s: "s \<in> set xs" and c: "cluster_ok ml label_string c"
      have "typed_sample s" using assms(3) e s x by (auto simp: usable_history_def)
      then show "\<exists>c'. add_sample ml c (\<lparr>cid_PodID = pid, cid_ContainerName = name\<rparr>, s) = Some c' \<and> cluster_ok ml label_string c'"
        using ClusterAddSample_ok [OF c assms(2), of s "\<lparr>cid_PodID = pid, cid_ContainerName = name\<rparr>"] by (auto simp: add_sample_def)
    qed
    then show "\<exists>c'. (case e of (containerName, sampleList) \<Rightarrow>
        ofold (\<lambda>c sample. add_sample ml c (\<lparr>cid_PodID = pid, cid_ContainerName = containerName\<rparr>, sample)) c sampleList) = Some c' \<and>
        cluster_ok ml label_string c'" by (simp add: x)
  qed
  then show ?thesis using c1(1) by (simp add: load_history_def)
qed

definition usable_history_answer :: "string + (podID, podHistory) gomap \<Rightarrow> bool" where
  "usable_history_answer history \<longleftrightarrow> (case history of Inl _ \<Rightarrow> True | Inr m \<Rightarrow> list_all (\<lambda>e. usable_history (snd e)) m)"

lemma InitFromHistoryProvider_ok:
  assumes "cluster_ok ml label_string c" "package_ok ml" "usable_history_answer history"
  shows "\<exists>c'. InitFromHistoryProvider ml label_string history c = Some c' \<and> cluster_ok ml label_string c'"
  unfolding InitFromHistoryProvider_def
proof (rule ofold_total [where I = "cluster_ok ml label_string", OF assms(1)])
  fix e c assume "e \<in> set (case history of Inl _ \<Rightarrow> [] | Inr clusterHistory \<Rightarrow> clusterHistory)" "cluster_ok ml label_string c"
  then show "\<exists>c'. load_history ml label_string c e = Some c' \<and> cluster_ok ml label_string c'"
    using load_history_ok [OF _ assms(2), of label_string c "snd e" "fst e"] assms(3)
    by (auto simp: usable_history_answer_def list_all_iff split: sum.splits)
qed

lemma start_recommender_ok:
  assumes "math_laws ml" "label_law label_string as_sel" "usable_history_answer history"
  shows "\<exists>r. start_recommender ml label_string as_sel gcInterval useCheckpoints now vpas list_checkpoints history = Some r \<and>
    cluster_ok ml label_string (rs_clusterState r) \<and> rs_oomObserver r = []"
proof -
  obtain c1 where c1: "InitFromCheckpoints ml as_sel vpas list_checkpoints NewClusterState = Some c1" "cluster_ok ml label_string c1"
    using InitFromCheckpoints_ok [OF cluster_ok_new package_ok_laws [OF assms(1)] assms(2)] by blast
  obtain c2 :: "'a clusterState" where c2: "InitFromHistoryProvider ml label_string history NewClusterState = Some c2" "cluster_ok ml label_string c2"
    using InitFromHistoryProvider_ok [OF cluster_ok_new package_ok_laws [OF assms(1)] assms(3)] by blast
  show ?thesis using c1 c2 by (cases useCheckpoints) (simp_all add: start_recommender_def NewRecommender_def NewObserver_def Let_def)
qed

section \<open>The observer\<close>

text \<open>
  A container that was restarted has a state of its last termination: \<open>OnUpdate\<close> reads its reason without a test, and
  panics when there is none (\<open>restart_without_termination_panics\<close>).
\<close>

definition termination_recorded :: "observedPod \<Rightarrow> bool" where
  "termination_recorded pod \<longleftrightarrow> list_all (\<lambda>s. st_RestartCount s > 0 \<longrightarrow> st_LastTerminated s \<noteq> None) (ob_ContainerStatuses pod)"

definition requests_in_range :: "observedPod \<Rightarrow> bool" where
  "requests_in_range pod \<longleftrightarrow> list_all (\<lambda>c. in_i64 (quantity_value (mget0 0 (vn_Requests c) ''memory''))) (ob_Containers pod)"

text \<open>The objects of a change are pods, and amounts are in the range of their type.\<close>

fun usable_notice :: "(string \<Rightarrow> string + quantity) \<Rightarrow> notice \<Rightarrow> bool" where
  "usable_notice parse (PodUpdate oldObj newObj) =
     (case (oldObj, newObj) of (Some old, Some new) \<Rightarrow> requests_in_range old \<and> termination_recorded new | _ \<Rightarrow> False)"
| "usable_notice parse (Evictions events) =
     list_all (\<lambda>(_, object). case object of None \<Rightarrow> True | Some event \<Rightarrow>
         list_all (\<lambda>usage. case parse usage of Inl _ \<Rightarrow> True | Inr q \<Rightarrow> in_i64 (quantity_value q))
           (extractArray event ''offending_containers_usage'')) events"

lemma status_oom_ok:
  assumes "st_RestartCount status > 0 \<longrightarrow> st_LastTerminated status \<noteq> None" "requests_in_range old" "list_all usable_oom observer"
  shows "\<exists>observer'. status_oom (Some old) updated status observer = Some observer' \<and> list_all usable_oom observer'"
proof -
  have "in_i64 (quantity_value (mget0 0 (vn_Requests c) ''memory''))" if "findSpec name (ob_Containers old) = Some c" for name c
    using assms(2) that by (auto simp: findSpec_def requests_in_range_def list_all_iff find_Some_iff)
  then show ?thesis using assms(1,3) unfolding status_oom_def
    by (auto simp: usable_oom_def split: option.splits if_splits)
qed

lemma OnUpdate_ok:
  assumes "requests_in_range old" "termination_recorded updated" "list_all usable_oom observer"
  shows "\<exists>observer'. OnUpdate (Some old) (Some updated) observer = Some observer' \<and> list_all usable_oom observer'"
  unfolding OnUpdate_def option.case
  by (rule ofold_total [where I = "list_all usable_oom", OF assms(3)], rule status_oom_ok)
    (use assms(1,2) in \<open>simp_all add: termination_recorded_def list_all_iff\<close>)

lemma parseEvictionEvent_ok:
  assumes "\<forall>usage\<in>set (extractArray event ''offending_containers_usage''). \<forall>q. parse usage = Inr q \<longrightarrow> in_i64 (quantity_value q)"
  shows "list_all usable_oom (parseEvictionEvent parse event)"
  using assms
  by (fastforce simp: parseEvictionEvent_def Let_def list_all_iff usable_oom_def split: sum.splits if_splits dest: set_zip_leftD set_zip_rightD)

lemma observe_ok:
  assumes "usable_notice parse notice" "list_all usable_oom observer"
  shows "\<exists>observer'. observe parse observer notice = Some observer' \<and> list_all usable_oom observer'"
proof (cases notice)
  case (PodUpdate oldObj newObj)
  then show ?thesis using assms OnUpdate_ok by (auto split: option.splits)
next
  case (Evictions events)
  have "list_all usable_oom (watchEvictionEvents parse events observer)"
    using assms(1) [unfolded Evictions] assms(2)
  proof (induction events arbitrary: observer)
    case (Cons e events)
    have "list_all usable_oom (watchEvictionEvents parse [e] observer)"
      using Cons.prems parseEvictionEvent_ok [of _ parse]
      by (auto simp: watchEvictionEvents_def OnEvent_def list_all_iff split: option.splits sum.splits)
    then show ?case using Cons.IH Cons.prems(1) by (simp add: watchEvictionEvents_def)
  qed (simp add: watchEvictionEvents_def)
  then show ?thesis by (simp add: Evictions)
qed

section \<open>The loop\<close>

lemma MaintainCheckpoints_ok:
  assumes "cluster_ok ml label_string (rs_clusterState r)" "package_ok ml" "label_law label_string as_sel" "sorts_by_checkpoint sorter"
  shows "\<exists>written deleted r'. MaintainCheckpoints ml as_sel sorter minCheckpoints ri r = Some (written, deleted, r') \<and>
    cluster_ok ml label_string (rs_clusterState r') \<and> rs_oomObserver r' = rs_oomObserver r"
proof (cases "rs_useCheckpoints r")
  case True
  obtain stopped n' written c' where stored: "StoreCheckpoints ml sorter (ri_contextErr ri) (ri_stored ri) (ri_checkpointTime ri) minCheckpoints (rs_clusterState r) =
      Some (stopped, n', written, c')" "cluster_ok ml label_string c'"
    using StoreCheckpoints_ok [OF assms(1,2,4), of "ri_contextErr ri" "ri_stored ri" "ri_checkpointTime ri" minCheckpoints] by blast
  obtain c2 where "LoadVPAs as_sel (ri_gcVpas ri) c' = Some c2" "cluster_ok ml label_string c2" using LoadVPAs_ok [OF stored(2) assms(3)] by blast
  then obtain deleted where "GarbageCollectCheckpoints as_sel (ri_gcVpas ri) (ri_gcNamespaces ri) (ri_listCheckpoints ri) c' = Some (deleted, c2)"
    "cluster_ok ml label_string c2" by (cases "ri_gcNamespaces ri") (simp_all add: GarbageCollectCheckpoints_def)
  then show ?thesis using True stored by (simp add: MaintainCheckpoints_def Let_def)
qed (use assms(1) in \<open>simp add: MaintainCheckpoints_def Let_def\<close>)

definition usable_input :: "(string \<Rightarrow> string + quantity) \<Rightarrow> 'sel runInput \<Rightarrow> bool" where
  "usable_input parse ri \<longleftrightarrow> list_all usable_metrics (listed_items (ri_metrics ri)) \<and> list_all (usable_notice parse) (ri_notices ri)"

lemma RunRecommender_ok:
  assumes "cluster_ok ml label_string (rs_clusterState r)" "package_ok ml" "label_law label_string as_sel" "sorts_by_checkpoint sorter"
    "list_all usable_metrics (listed_items (ri_metrics ri))" "list_all usable_oom (rs_oomObserver r)"
  shows "\<exists>out r'. RunRecommender ml label_string as_sel sorter flags n r ri = Some (out, r') \<and>
    cluster_ok ml label_string (rs_clusterState r') \<and> rs_oomObserver r' = []"
proof -
  have u: "\<forall>m\<in>set (listed_items (ri_metrics ri)). usable_metrics m" "\<forall>i\<in>set (rs_oomObserver r). usable_oom i"
    using assms(5,6) by (simp_all add: list_all_iff)
  obtain c where feed: "feed_round ml label_string as_sel (ri_vpas ri) (ri_pods ri) (ri_metrics ri) (rs_oomObserver r) (rs_clusterState r) = Some (c, [])"
    "cluster_ok ml label_string c" using feed_round_ok [OF assms(1-3) u] by blast
  obtain sent c4 where up: "UpdateVPAs ml flags (CreatePodResourceRecommender flags) (ri_updateTime ri) (ri_sameStatus ri) c = Some (sent, c4)"
    "cluster_ok ml label_string c4" using UpdateVPAs_ok [OF feed(2) assms(2)] by blast
  let ?r = "r\<lparr>rs_clusterState := c4, rs_oomObserver := []\<rparr>"
  obtain written deleted r' where m: "MaintainCheckpoints ml as_sel sorter n ri ?r = Some (written, deleted, r')"
    "cluster_ok ml label_string (rs_clusterState r')" "rs_oomObserver r' = []"
    using MaintainCheckpoints_ok [of ml label_string ?r, OF _ assms(2-4), of n ri] up(2) by auto
  have "cluster_ok ml label_string (rs_clusterState (GarbageCollect (ri_gcTime ri) r')) \<and> rs_oomObserver (GarbageCollect (ri_gcTime ri) r') = []"
    using m(2,3) by (simp add: GarbageCollect_def garbage_collect_ok)
  moreover have "RunRecommender ml label_string as_sel sorter flags n r ri = Some (\<lparr>ro_statuses = sent, ro_checkpoints = written, ro_deleted = deleted\<rparr>,
      GarbageCollect (ri_gcTime ri) r')"
    using feed(1) up(1) m(1) by (auto simp: RunRecommender_def feed_round_def split: option.splits bind_splits)
  ultimately show ?thesis by blast
qed

lemma recommender_loop_ok:
  assumes "package_ok ml" "label_law label_string as_sel" "sorts_by_checkpoint sorter" "list_all (usable_input parse) ris"
    "cluster_ok ml label_string (rs_clusterState r)" "list_all usable_oom (rs_oomObserver r)"
  shows "\<exists>outs r'. recommender_loop ml label_string as_sel parse sorter flags n ris r = Some (outs, r') \<and> length outs = length ris \<and>
    cluster_ok ml label_string (rs_clusterState r')"
  using assms(4-6)
proof (induction ris arbitrary: r)
  case (Cons ri ris)
  note ri = Cons.prems(1) [unfolded list.pred_inject(2) usable_input_def]
  obtain observer where o: "ofold (observe parse) (rs_oomObserver r) (ri_notices ri) = Some observer" "list_all usable_oom observer"
    using ofold_total [where I = "list_all usable_oom", OF Cons.prems(3), of "ri_notices ri" "observe parse"] observe_ok [of parse] ri
    unfolding list_all_iff by blast
  let ?r = "r\<lparr>rs_oomObserver := observer\<rparr>"
  obtain out r1 where r1: "RunRecommender ml label_string as_sel sorter flags n ?r ri = Some (out, r1)"
    "cluster_ok ml label_string (rs_clusterState r1)" "rs_oomObserver r1 = []"
    using RunRecommender_ok [of ml label_string ?r, OF _ assms(1-3), of ri flags n] Cons.prems(2) ri o(2) by auto
  show ?case using Cons.IH [OF _ r1(2)] Cons.prems(1) o(1) r1(1,3) by auto
qed simp

text \<open>
  C16: The recommender does not panic.  Started from checkpoints or from the history, told in its runs whatever
  objects, pods, containers, metrics, times and answers of the API, in whatever order and with errors in place of
  any listing, and with an observer that is told changed pods and evictions in whatever order, it starts, the
  observer takes each notice, and each run ends with the invariant of its state restored.  The conditions are: a
  container of a changed pod with a restart count above zero has a state of its last termination (the observer
  reads it without a test, and panics without it); amounts of metrics, history, requests and evictions are in the
  range of their type; a selector does not tell label sets with the same string apart; \<open>sort.Slice\<close> sorts; and
  \<open>math.Log\<close> and \<open>math.Exp2\<close> satisfy simple laws.  The capacity of the observer's channel, which can
  block its sender, is not modelled.
\<close>

theorem recommender_never_panics:
  assumes "math_laws ml" "label_law label_string as_sel" "sorts_by_checkpoint sorter" "usable_history_answer history"
    "list_all (usable_input parse) ris"
  shows "\<exists>r0 outs r. start_recommender ml label_string as_sel gcInterval useCheckpoints now vpas list_checkpoints history = Some r0 \<and>
    recommender_loop ml label_string as_sel parse sorter flags minCheckpointsPerRun ris r0 = Some (outs, r) \<and> length outs = length ris \<and>
    cluster_ok ml label_string (rs_clusterState r)"
proof -
  obtain r0 where r0: "start_recommender ml label_string as_sel gcInterval useCheckpoints now vpas list_checkpoints history = Some r0"
    "cluster_ok ml label_string (rs_clusterState r0)" "rs_oomObserver r0 = []" using start_recommender_ok [OF assms(1,2,4)] by blast
  have "list_all usable_oom (rs_oomObserver r0)" by (simp add: r0(3))
  from recommender_loop_ok [OF package_ok_laws [OF assms(1)] assms(2,3,5) r0(2) this, of flags minCheckpointsPerRun]
  show ?thesis using r0(1) by blast
qed

text \<open>
  C18: A run that writes checkpoints makes progress, the oldest first.  The objects that fetch no history, each once
  and in the order of their last checkpoint, are split in those that are taken and those that are left, so whatever
  is left has a checkpoint at least as new.  The attempted writes (a failed save counts as one) are a block for each
  object that is taken, in that order: the checkpoints of a block are the object's own, and every container that it
  uses has one.  The loop stops early only at an object that it reaches with the time of the context over, and only when
  the required number of checkpoints has been attempted; and while that number is not reached it goes on.
\<close>

theorem checkpoints_make_progress:
  assumes "cluster_ok ml label_string c" "math_laws ml" "sorts_by_checkpoint sorter"
  shows "\<exists>n' blocks c' finished pending.
    StoreCheckpoints ml sorter ctx_err stored now minCheckpoints c = Some (pending \<noteq> [], n', concat blocks, c') \<and>
    cluster_ok ml label_string c' \<and>
    mset (finished @ pending) = mset (filter (\<lambda>v. \<not> isFetchingHistory v) (map snd (cl_Vpas c))) \<and>
    sorted (map vs_CheckpointWritten (finished @ pending)) \<and>
    list_all2 (\<lambda>block v. (\<forall>ck\<in>set block. checkpoint_vpa ck = vs_ID v) \<and>
       (\<forall>key. UsesAggregation key v \<longrightarrow> (\<exists>ck\<in>set block. ck_ContainerName ck = ak_containerName key))) blocks finished \<and>
    (\<forall>j<length finished. ctx_err j \<longrightarrow> int (length (concat (take j blocks))) < minCheckpoints) \<and>
    (pending \<noteq> [] \<longrightarrow> ctx_err (length finished) \<and> minCheckpoints \<le> int (length (concat blocks)))"
proof -
  obtain n' blocks c' finished pending where
    r: "StoreCheckpoints ml sorter ctx_err stored now minCheckpoints c = Some (pending \<noteq> [], n', concat blocks, c')"
    "cluster_ok ml label_string c'" "getVpasToCheckpoint sorter (cl_Vpas c) = finished @ pending" "list_all2 checkpointed blocks finished"
    "n' = minCheckpoints - int (length (concat blocks))" "pending \<noteq> [] \<longrightarrow> n' \<le> 0 \<and> ctx_err (length finished)"
    "\<forall>j<length finished. ctx_err j \<longrightarrow> int (length (concat (take j blocks))) < minCheckpoints"
    using StoreCheckpoints_ok [OF assms(1) package_ok_laws [OF assms(2)] assms(3)] by blast
  show ?thesis
    using r(1,2,7) r(4) [unfolded checkpointed_def] r(5,6) vpas_to_checkpoint [OF assms(3), of "cl_Vpas c", unfolded r(3)]
    by (intro exI [of _ n'] exI [of _ blocks] exI [of _ c'] exI [of _ finished] exI [of _ pending]) auto
qed

section \<open>A recommender that runs twice\<close>

text \<open>
  It starts from a checkpoint of one container.  Before the first run a container is killed for its memory and a
  pod is evicted; in the second run the pods cannot be listed.
\<close>

definition demo_flags :: recommenderFlags where
  "demo_flags = \<lparr>rf_safetyMarginFraction = Fin (1 / 8), rf_podMinCPUMillicores = Fin 25, rf_podMinMemoryMb = Fin 250\<rparr>"

definition demo_stored_checkpoint :: vpaCheckpoint where
  "demo_stored_checkpoint =
     (let hist = \<lparr>hc_ReferenceTimestamp = 0, hc_BucketWeights = [(0, 3), (1, 5)], hc_TotalWeight = Fin 8\<rparr>
      in \<lparr>ck_Namespace = ''ns'', ck_Name = ''v-c'', ck_VPAObjectName = ''v'', ck_ContainerName = ''c'',
          ck_Status = \<lparr>vc_FirstSampleStart = 1, vc_LastSampleStart = 5, vc_TotalSamplesCount = 8, vc_MemoryHistogram = hist,
            vc_CPUHistogram = hist, vc_Version = ''v3''\<rparr>\<rparr>)"

text \<open>\<open>resource.ParseQuantity\<close> on the amounts of the example.\<close>

definition demo_parse :: "string \<Rightarrow> string + quantity" where
  "demo_parse s = (if s = ''2k'' then Inr 2000 else Inl ''parse'')"

definition demo_kill :: notice where
  "demo_kill =
     (let pod = (\<lambda>restarts. \<lparr>ob_Namespace = ''ns'', ob_Name = ''p'',
         ob_Containers = [\<lparr>vn_Name = ''c'', vn_Requests = [(''memory'', 1000)], vn_Limits = []\<rparr>],
         ob_ContainerStatuses = [\<lparr>st_Name = ''c'', st_RestartCount = restarts,
           st_LastTerminated = Some \<lparr>ts_Reason = ''OOMKilled'', ts_StartedAt = 1, ts_FinishedAt = 9\<rparr>\<rparr>]\<rparr>)
      in PodUpdate (Some (pod 0)) (Some (pod 1)))"

definition demo_eviction :: notice where
  "demo_eviction = Evictions [(''ADDED'', Some \<lparr>ev_Reason = ''Evicted'', ev_CreationTimestamp = 10,
     ev_Annotations = [(''offending_containers'', ''c''), (''offending_containers_usage'', ''2k''), (''starved_resource'', ''memory'')],
     ev_InvolvedKind = ''Pod'', ev_InvolvedNamespace = ''ns'', ev_InvolvedName = ''p''\<rparr>)]"

text \<open>Both reach the channel.\<close>

lemma demo_notices_observed: "map_option (map oi_Memory) (ofold (observe demo_parse) NewObserver [demo_kill, demo_eviction]) = Some [1000, 2000]"
  by code_simp

lemma demo_notices_usable: "usable_notice demo_parse demo_kill" "usable_notice demo_parse demo_eviction"
  by (simp_all add: demo_kill_def demo_eviction_def requests_in_range_def termination_recorded_def demo_parse_def extractArray_def
      mget0_def quantity_value_def in_i64_def minInt64_def maxInt64_def)

definition demo_run :: "string + vpaPod list \<Rightarrow> time \<Rightarrow> string runInput" where
  "demo_run pods now = \<lparr>ri_notices = [demo_kill, demo_eviction], ri_vpas = Inr [demo_crd ''v'' ''a''], ri_pods = pods, ri_metrics = Inr [demo_metrics],
     ri_updateTime = now, ri_sameStatus = (\<lambda>_ _. False), ri_checkpointTime = now, ri_contextErr = (\<lambda>i. i > 0), ri_stored = (\<lambda>_. True),
     ri_checkpointsDone = now, ri_gcVpas = Inr [demo_crd ''v'' ''a''], ri_gcNamespaces = Inr [''ns''],
     ri_listCheckpoints = (\<lambda>_. Inr [demo_stored_checkpoint]), ri_gcTime = now\<rparr>"

lemma demo_run_usable: "usable_input demo_parse (demo_run pods now)"
  using demo_metrics_usable demo_notices_usable by (simp add: usable_input_def demo_run_def listed_items_def)

lemma demo_sorter: "sorts_by_checkpoint (sort_key vs_CheckpointWritten)"
  by (simp add: sorts_by_checkpoint_def)

theorem recommender_never_panics_witness:
  "\<exists>r0 outs r. start_recommender demo_laws demo_label_string demo_as_sel 600 True 0 (Inr [demo_crd ''v'' ''a'']) (\<lambda>_. Inr [demo_stored_checkpoint]) (Inl ''none'') =
      Some r0 \<and>
    recommender_loop demo_laws demo_label_string demo_as_sel demo_parse (sort_key vs_CheckpointWritten) demo_flags 10
      [demo_run (Inr [demo_listed_pod ''p'']) 60, demo_run (Inl ''timeout'') 120] r0 = Some (outs, r) \<and>
    length outs = length [demo_run (Inr [demo_listed_pod ''p'']) 60, demo_run (Inl ''timeout'') 120] \<and>
    cluster_ok demo_laws demo_label_string (rs_clusterState r)"
  by (rule recommender_never_panics [OF demo_laws_ok demo_label_law demo_sorter]) (simp_all add: demo_run_usable usable_history_answer_def)

theorem checkpoints_make_progress_witness:
  "\<exists>c. ofold (cluster_step demo_laws demo_label_string demo_as_sel) NewClusterState demo_events = Some c \<and>
   (\<exists>n' blocks c' finished pending.
     StoreCheckpoints demo_laws (sort_key vs_CheckpointWritten) (\<lambda>i. 0 < i) (\<lambda>_. True) 60 10 c = Some (pending \<noteq> [], n', concat blocks, c') \<and>
    cluster_ok demo_laws demo_label_string c' \<and>
    mset (finished @ pending) = mset (filter (\<lambda>v. \<not> isFetchingHistory v) (map snd (cl_Vpas c))) \<and>
    sorted (map vs_CheckpointWritten (finished @ pending)) \<and>
    list_all2 (\<lambda>block v. (\<forall>ck\<in>set block. checkpoint_vpa ck = vs_ID v) \<and>
       (\<forall>key. UsesAggregation key v \<longrightarrow> (\<exists>ck\<in>set block. ck_ContainerName ck = ak_containerName key))) blocks finished \<and>
    (\<forall>j<length finished. 0 < j \<longrightarrow> int (length (concat (take j blocks))) < 10) \<and>
    (pending \<noteq> [] \<longrightarrow> 0 < length finished \<and> 10 \<le> int (length (concat blocks))))"
proof -
  obtain c where c: "ofold (cluster_step demo_laws demo_label_string demo_as_sel) NewClusterState demo_events = Some c"
    "cluster_ok demo_laws demo_label_string c"
    using cluster_history_ok [OF demo_laws_ok demo_label_law demo_events_usable] by blast
  show ?thesis by (intro exI [of _ c] conjI c(1)) (rule checkpoints_make_progress [OF c(2) demo_laws_ok demo_sorter])
qed

end
