(* ===== verification/VpaHistory.thy ===== *)
theory VpaHistory
  imports VpaRuns
begin

text \<open>
  \<open>recommender/input/history/history_provider.go\<close>: the history of all pods, put together from the time series
  of Prometheus.  The client of Prometheus is the parameter \<open>get\<close>, which answers a query with an error or the
  time series; \<open>sort.Slice\<close> by the start of the samples is the parameter \<open>sorter\<close>.
\<close>

section \<open>Time series\<close>

record seriesSample =
  pt_Value :: f64
  pt_Timestamp :: time

record timeseries =
  tm_Labels :: labels
  tm_Samples :: "seriesSample list"

type_synonym prometheusClient = "string \<Rightarrow> string + timeseries list"
type_synonym clusterHistory = "(podID, podHistory) gomap"

definition historyLength :: string where
  "historyLength = ''8d''"

definition podLabelPrefix :: string where
  "podLabelPrefix = ''pod_label_''"

definition newEmptyHistory :: podHistory where
  "newEmptyHistory = \<lparr>ph_LastLabels = [], ph_LastSeen = 0, ph_Samples = []\<rparr>"

definition getContainerIDFromLabels :: "labels \<Rightarrow> string + containerID" where
  "getContainerIDFromLabels ls =
     (case mget ls ''namespace'' of
        None \<Rightarrow> Inl ''no namespace label''
      | Some namespace \<Rightarrow>
          (case mget ls ''pod_name'' of
             None \<Rightarrow> Inl ''no pod_name label''
           | Some podName \<Rightarrow>
               (case mget ls ''name'' of
                  None \<Rightarrow> Inl ''no name label on container data''
                | Some containerName \<Rightarrow>
                    Inr \<lparr>cid_PodID = \<lparr>pid_Namespace = namespace, pid_PodName = podName\<rparr>, cid_ContainerName = containerName\<rparr>)))"

definition getPodIDFromLabels :: "labels \<Rightarrow> string + podID" where
  "getPodIDFromLabels ls =
     (case mget ls ''kubernetes_namespace'' of
        None \<Rightarrow> Inl ''no kubernetes_namespace label''
      | Some namespace \<Rightarrow>
          (case mget ls ''kubernetes_pod_name'' of
             None \<Rightarrow> Inl ''no kubernetes_pod_name label''
           | Some podName \<Rightarrow> Inr \<lparr>pid_Namespace = namespace, pid_PodName = podName\<rparr>))"

definition trim_prefix :: "string \<Rightarrow> string \<Rightarrow> string" where
  "trim_prefix s p = (if take (length p) s = p then drop (length p) s else s)"

definition getPodLabelsMap :: "labels \<Rightarrow> labels" where
  "getPodLabelsMap metricLabels =
     foldl (\<lambda>podLabels (key, v). let podLabelKey = trim_prefix key podLabelPrefix
         in if podLabelKey \<noteq> key then mput podLabelKey v podLabels else podLabels) [] metricLabels"

definition resourceAmountFromValue :: "f64 \<Rightarrow> string \<Rightarrow> resourceAmount" where
  "resourceAmountFromValue v resource =
     (if resource = ResourceCPU then CPUAmountFromCores v
      else if resource = ResourceMemory then MemoryAmountFromBytes v
      else 0)"

definition getContainerUsageSamplesFromSamples :: "seriesSample list \<Rightarrow> string \<Rightarrow> containerUsageSample list" where
  "getContainerUsageSamplesFromSamples samples resource =
     map (\<lambda>sample. \<lparr>us_MeasureStart = pt_Timestamp sample, us_Usage = resourceAmountFromValue (pt_Value sample) resource,
         us_Request = 0, us_Resource = resource\<rparr>) samples"

section \<open>Reading\<close>

text \<open>The loops stop at the first time series without its labels; whether they did, and the history so far.\<close>

fun read_resources :: "string \<Rightarrow> timeseries list \<Rightarrow> clusterHistory \<Rightarrow> bool \<times> clusterHistory" where
  "read_resources resource [] res = (True, res)"
| "read_resources resource (ts # tss) res =
     (case getContainerIDFromLabels (tm_Labels ts) of
        Inl _ \<Rightarrow> (False, res)
      | Inr cid \<Rightarrow>
          (let newSamples = getContainerUsageSamplesFromSamples (tm_Samples ts) resource;
               podHistory = (case mget res (cid_PodID cid) of None \<Rightarrow> newEmptyHistory | Some h \<Rightarrow> h);
               samples = mget0 [] (ph_Samples podHistory) (cid_ContainerName cid)
           in read_resources resource tss
                (mput (cid_PodID cid) (podHistory\<lparr>ph_Samples := mput (cid_ContainerName cid) (samples @ newSamples) (ph_Samples podHistory)\<rparr>) res)))"

definition readResourceHistory :: "prometheusClient \<Rightarrow> string \<Rightarrow> string \<Rightarrow> clusterHistory \<Rightarrow> bool \<times> clusterHistory" where
  "readResourceHistory get query resource res =
     (case get query of Inl _ \<Rightarrow> (False, res) | Inr tss \<Rightarrow> read_resources resource tss res)"

definition see_labels :: "labels \<Rightarrow> podHistory \<Rightarrow> seriesSample list \<Rightarrow> podHistory" where
  "see_labels podLabels = foldl (\<lambda>h sample.
     if time_after (pt_Timestamp sample) (ph_LastSeen h) then h\<lparr>ph_LastSeen := pt_Timestamp sample, ph_LastLabels := podLabels\<rparr> else h)"

fun read_labels :: "timeseries list \<Rightarrow> clusterHistory \<Rightarrow> bool \<times> clusterHistory" where
  "read_labels [] res = (True, res)"
| "read_labels (ts # tss) res =
     (case getPodIDFromLabels (tm_Labels ts) of
        Inl _ \<Rightarrow> (False, res)
      | Inr pid \<Rightarrow>
          (let podHistory = (case mget res pid of None \<Rightarrow> newEmptyHistory | Some h \<Rightarrow> h)
           in read_labels tss (mput pid (see_labels (getPodLabelsMap (tm_Labels ts)) podHistory (tm_Samples ts)) res)))"

definition readLastLabels :: "prometheusClient \<Rightarrow> string \<Rightarrow> clusterHistory \<Rightarrow> bool \<times> clusterHistory" where
  "readLastLabels get query res = (case get query of Inl _ \<Rightarrow> (False, res) | Inr tss \<Rightarrow> read_labels tss res)"

definition podSelector :: string where
  \<open>podSelector = ''job="kubernetes-cadvisor", pod_name=~".+"''\<close>

definition sort_history :: "(containerUsageSample list \<Rightarrow> containerUsageSample list) \<Rightarrow> clusterHistory \<Rightarrow> clusterHistory" where
  "sort_history sorter res =
     map (\<lambda>(pid, h). (pid, h\<lparr>ph_Samples := map (\<lambda>(name, samples). (name, sorter samples)) (ph_Samples h)\<rparr>)) res"

text \<open>An error of the last query is ignored.\<close>

definition GetClusterHistory ::
  "prometheusClient \<Rightarrow> (containerUsageSample list \<Rightarrow> containerUsageSample list) \<Rightarrow> string + clusterHistory" where
  \<open>GetClusterHistory get sorter =
     (case readResourceHistory get (''container_cpu_usage_seconds_total{'' @ podSelector @ ''}['' @ historyLength @ '']'') ResourceCPU [] of
        (False, _) \<Rightarrow> Inl ''cannot get usage history''
      | (True, res) \<Rightarrow>
          (case readResourceHistory get (''container_memory_usage_bytes{'' @ podSelector @ ''}['' @ historyLength @ '']'') ResourceMemory res of
             (False, _) \<Rightarrow> Inl ''cannot get usage history''
           | (True, res) \<Rightarrow>
               Inr (snd (readLastLabels get (''up{job="kubernetes-pods"}['' @ historyLength @ '']'') (sort_history sorter res)))))\<close>

section \<open>The samples of the history\<close>

text \<open>Amounts of any floating point value are in the range of their type, even of one that is not a number.\<close>

lemma amount_in_i64: "in_i64 (resourceAmountFromFloat x)"
proof (cases x)
  case NaN
  then show ?thesis by (simp add: resourceAmountFromFloat_def flt_simps f_int_def in_i64_def minInt64_def maxInt64_def)
next
  case (Fin r)
  then have "0 \<le> resourceAmountFromFloat x \<and> resourceAmountFromFloat x \<le> MaxResourceAmount" using amount_range [of x] by simp
  then show ?thesis by (simp add: in_i64_def minInt64_def maxInt64_def MaxResourceAmount_def)
qed (use amount_range [of x] in \<open>simp_all add: in_i64_def minInt64_def maxInt64_def MaxResourceAmount_def\<close>)

lemma typed_new_samples: "\<forall>x\<in>set (getContainerUsageSamplesFromSamples samples resource). typed_sample x"
  by (auto simp: getContainerUsageSamplesFromSamples_def typed_sample_def resourceAmountFromValue_def CPUAmountFromCores_def
      MemoryAmountFromBytes_def amount_in_i64 in_i64_zero)

definition typed_history :: "clusterHistory \<Rightarrow> bool" where
  "typed_history res \<longleftrightarrow> (\<forall>e\<in>set res. usable_history (snd e))"

lemma typed_history_get:
  "typed_history res \<Longrightarrow> usable_history (case mget res pid of None \<Rightarrow> newEmptyHistory | Some h \<Rightarrow> h)"
  by (cases "mget res pid") (force simp: typed_history_def newEmptyHistory_def usable_history_def dest: mget_SomeD)+

lemma typed_history_put: "typed_history res \<Longrightarrow> usable_history h \<Longrightarrow> typed_history (mput pid h res)"
  by (auto simp: typed_history_def dest!: mput_entries)

lemma usable_history_put:
  assumes "usable_history h" "\<forall>x\<in>set xs. typed_sample x"
  shows "usable_history (h\<lparr>ph_Samples := mput name (mget0 [] (ph_Samples h) name @ xs) (ph_Samples h)\<rparr>)"
proof -
  have "\<forall>x\<in>set (mget0 [] (ph_Samples h) name). typed_sample x"
    using assms(1) by (cases "mget (ph_Samples h) name") (force simp: mget0_def usable_history_def dest: mget_SomeD)+
  then show ?thesis using assms by (auto simp: usable_history_def dest!: mput_entries)
qed

lemma typed_read_resources: "typed_history res \<Longrightarrow> typed_history (snd (read_resources resource tss res))"
proof (induction resource tss res rule: read_resources.induct)
  case (2 resource ts tss res)
  show ?case
  proof (cases "getContainerIDFromLabels (tm_Labels ts)")
    case (Inr cid)
    have "typed_history (mput (cid_PodID cid) ((case mget res (cid_PodID cid) of None \<Rightarrow> newEmptyHistory | Some h \<Rightarrow> h)\<lparr>ph_Samples :=
        mput (cid_ContainerName cid) (mget0 [] (ph_Samples (case mget res (cid_PodID cid) of None \<Rightarrow> newEmptyHistory | Some h \<Rightarrow> h)) (cid_ContainerName cid) @
          getContainerUsageSamplesFromSamples (tm_Samples ts) resource)
        (ph_Samples (case mget res (cid_PodID cid) of None \<Rightarrow> newEmptyHistory | Some h \<Rightarrow> h))\<rparr>) res)"
      by (rule typed_history_put [OF "2.prems" usable_history_put [OF typed_history_get [OF "2.prems"] typed_new_samples]])
    from "2.IH" [OF Inr refl refl refl this] show ?thesis by (simp add: Inr Let_def)
  qed (use "2.prems" in simp)
qed simp

lemma typed_sort_history:
  assumes "typed_history res" "\<And>xs. set (sorter xs) = set xs"
  shows "typed_history (sort_history sorter res)"
  using assms by (fastforce simp: typed_history_def sort_history_def usable_history_def)

lemma see_labels_samples: "ph_Samples (see_labels podLabels h samples) = ph_Samples h"
  unfolding see_labels_def by (induction samples arbitrary: h) auto

lemma typed_read_labels: "typed_history res \<Longrightarrow> typed_history (snd (read_labels tss res))"
proof (induction tss res rule: read_labels.induct)
  case (2 ts tss res)
  show ?case
  proof (cases "getPodIDFromLabels (tm_Labels ts)")
    case (Inr pid)
    have "usable_history (see_labels (getPodLabelsMap (tm_Labels ts)) (case mget res pid of None \<Rightarrow> newEmptyHistory | Some h \<Rightarrow> h) (tm_Samples ts))"
      using typed_history_get [OF "2.prems"] by (simp add: usable_history_def see_labels_samples)
    from "2.IH" [OF Inr refl typed_history_put [OF "2.prems" this]] show ?thesis by (simp add: Inr)
  qed (use "2.prems" in simp)
qed simp

text \<open>Whatever Prometheus answers, the recommender can start from the history.\<close>

lemma cluster_history_usable:
  assumes "\<And>xs. set (sorter xs) = set xs"
  shows "usable_history_answer (GetClusterHistory get sorter)"
proof -
  have read: "typed_history (snd (readResourceHistory get q resource res))" if "typed_history res" for q resource res
    using typed_read_resources [OF that] that by (simp add: readResourceHistory_def split: sum.split)
  have labels: "typed_history (snd (readLastLabels get q res))" if "typed_history res" for q res
    using typed_read_labels [OF that] that by (simp add: readLastLabels_def split: sum.split)
  have answer: "usable_history_answer (Inr res)" if "typed_history res" for res
    using that by (simp add: usable_history_answer_def typed_history_def list_all_iff)
  have failed: "usable_history_answer (Inl e)" for e
    by (simp add: usable_history_answer_def)
  let ?cpu = "readResourceHistory get (''container_cpu_usage_seconds_total{'' @ podSelector @ ''}['' @ historyLength @ '']'') ResourceCPU []"
  have cpu: "typed_history (snd ?cpu)" by (rule read) (simp add: typed_history_def)
  let ?memory = "readResourceHistory get (''container_memory_usage_bytes{'' @ podSelector @ ''}['' @ historyLength @ '']'') ResourceMemory (snd ?cpu)"
  have memory: "typed_history (snd ?memory)" by (rule read [OF cpu])
  have last: "usable_history_answer (Inr (snd (readLastLabels get q (sort_history sorter (snd ?memory)))))" for q
    by (rule answer [OF labels [OF typed_sort_history [OF memory assms]]])
  have "GetClusterHistory get sorter = (if fst ?cpu \<and> fst ?memory
      then Inr (snd (readLastLabels get (''up{job=\"kubernetes-pods\"}['' @ historyLength @ '']'') (sort_history sorter (snd ?memory))))
      else Inl ''cannot get usage history'')"
    unfolding GetClusterHistory_def by (cases ?cpu; cases ?memory) (simp split: bool.split)
  then show ?thesis by (simp only: split: if_split) (simp only: last failed simp_thms)
qed

end
