(* ===== verification/VpaEviction.thy ===== *)
theory VpaEviction
  imports VpaApi
begin

text \<open>
  \<open>updater/eviction/pods_eviction_restriction.go\<close>: how many pods of one controller the updater may evict.
  The informers are the parameter \<open>get\<close>, from the kind of a controller and its key, and the eviction API of the
  client the parameter \<open>api\<close>: the error of the call, if any.  A nil \<open>Controller\<close> of an owner panics, which is \<open>None\<close>.
\<close>

section \<open>Groups of replicas\<close>

record singleGroupStats =
  gs_configured :: int
  gs_pending :: int
  gs_running :: int
  gs_evictionTolerance :: int
  gs_evicted :: int

record podReplicaCreator =
  rcr_Namespace :: string
  rcr_Name :: string
  rcr_Kind :: string

record podsEvictionRestriction =
  er_podToReplicaCreatorMap :: "(string, podReplicaCreator) gomap"
  er_creatorToSingleGroupStatsMap :: "(podReplicaCreator, singleGroupStats) gomap"

definition replicationController :: string where "replicationController = ''ReplicationController''"
definition statefulSet :: string where "statefulSet = ''StatefulSet''"
definition replicaSet :: string where "replicaSet = ''ReplicaSet''"
definition job :: string where "job = ''Job''"
definition PodPending :: string where "PodPending = ''Pending''"

definition getPodID :: "vpaPod \<Rightarrow> string" where
  "getPodID pod = vp_Namespace pod @ ''/'' @ vp_Name pod"

text \<open>The zero owner reference when none is a controller, as the code returns a pointer to its local variable.\<close>

fun managingControllerRef :: "ownerReference list \<Rightarrow> ownerReference option" where
  "managingControllerRef [] = Some \<lparr>or_Kind = '''', or_Name = '''', or_Controller = None\<rparr>"
| "managingControllerRef (r # rs) =
     (case or_Controller r of None \<Rightarrow> None | Some c \<Rightarrow> if c then Some r else managingControllerRef rs)"

definition getPodReplicaCreator :: "vpaPod \<Rightarrow> podReplicaCreator option" where
  "getPodReplicaCreator pod =
     map_option (\<lambda>creator. \<lparr>rcr_Namespace = vp_Namespace pod, rcr_Name = or_Name creator, rcr_Kind = or_Kind creator\<rparr>)
       (managingControllerRef (vp_OwnerReferences pod))"

text \<open>An object of an informer: one of the expected type with its \<open>Spec.Replicas\<close>, or another.\<close>

datatype controllerObject = Replicas "int option" | OtherObject

datatype replicaCountError = NotAvailable string | DoesNotExist | ParseFailed | NoReplicas

type_synonym informers = "string \<Rightarrow> string \<Rightarrow> string + controllerObject option"

definition getReplicaCount :: "informers \<Rightarrow> podReplicaCreator \<Rightarrow> replicaCountError + int" where
  "getReplicaCount get creator =
     (if rcr_Kind creator \<in> {replicationController, replicaSet, statefulSet} then
        (case get (rcr_Kind creator) (rcr_Namespace creator @ ''/'' @ rcr_Name creator) of
           Inl err \<Rightarrow> Inl (NotAvailable err)
         | Inr None \<Rightarrow> Inl DoesNotExist
         | Inr (Some OtherObject) \<Rightarrow> Inl ParseFailed
         | Inr (Some (Replicas None)) \<Rightarrow> Inl NoReplicas
         | Inr (Some (Replicas (Some n))) \<Rightarrow> if n = 0 then Inl NoReplicas else Inr n)
      else Inr 0)"

section \<open>The restriction for a list of pods\<close>

definition group_pods :: "vpaPod list \<Rightarrow> (podReplicaCreator, vpaPod list) gomap option" where
  "group_pods pods =
     ofold (\<lambda>livePods pod. map_option (\<lambda>creator. mput creator (mget0 [] livePods creator @ [pod]) livePods)
              (getPodReplicaCreator pod)) [] pods"

definition configured_replicas :: "informers \<Rightarrow> podReplicaCreator \<Rightarrow> vpaPod list \<Rightarrow> replicaCountError + int" where
  "configured_replicas get creator replicas =
     (if rcr_Kind creator = job then Inr (int (length replicas)) else getReplicaCount get creator)"

definition pending_pods :: "vpaPod list \<Rightarrow> int" where
  "pending_pods pods = int (length (filter (\<lambda>pod. vp_Phase pod = PodPending) pods))"

definition group_stats :: "f64 \<Rightarrow> int \<Rightarrow> vpaPod list \<Rightarrow> singleGroupStats" where
  "group_stats evictionToleranceFraction configured replicas =
     \<lparr>gs_configured = configured, gs_pending = pending_pods replicas, gs_running = int (length replicas) - pending_pods replicas,
      gs_evictionTolerance = f_int (fmul (f_of_int configured) evictionToleranceFraction), gs_evicted = 0\<rparr>"

definition add_group ::
  "informers \<Rightarrow> int \<Rightarrow> f64 \<Rightarrow> podsEvictionRestriction \<Rightarrow> podReplicaCreator \<times> vpaPod list \<Rightarrow> podsEvictionRestriction" where
  "add_group get minReplicas evictionToleranceFraction e gr =
     (case gr of (creator, replicas) \<Rightarrow>
        if int (length replicas) < minReplicas then e
        else
          (case configured_replicas get creator replicas of
             Inl _ \<Rightarrow> e
           | Inr configured \<Rightarrow>
               e\<lparr>er_podToReplicaCreatorMap := foldl (\<lambda>m pod. mput (getPodID pod) creator m) (er_podToReplicaCreatorMap e) replicas,
                 er_creatorToSingleGroupStatsMap :=
                   mput creator (group_stats evictionToleranceFraction configured replicas) (er_creatorToSingleGroupStatsMap e)\<rparr>))"

definition NewPodsEvictionRestriction :: "informers \<Rightarrow> int \<Rightarrow> f64 \<Rightarrow> vpaPod list \<Rightarrow> podsEvictionRestriction option" where
  "NewPodsEvictionRestriction get minReplicas evictionToleranceFraction pods =
     map_option (foldl (add_group get minReplicas evictionToleranceFraction)
         \<lparr>er_podToReplicaCreatorMap = [], er_creatorToSingleGroupStatsMap = []\<rparr>)
       (group_pods pods)"

section \<open>Evicting\<close>

definition may_evict :: "singleGroupStats \<Rightarrow> bool" where
  "may_evict g \<longleftrightarrow>
     gs_running g - gs_evicted g > gs_configured g - gs_evictionTolerance g \<or>
     gs_running g = gs_configured g \<and> gs_evictionTolerance g = 0 \<and> gs_evicted g = 0"

definition CanEvict :: "podsEvictionRestriction \<Rightarrow> vpaPod \<Rightarrow> bool" where
  "CanEvict e pod =
     (case mget (er_podToReplicaCreatorMap e) (getPodID pod) of
        None \<Rightarrow> False
      | Some cr \<Rightarrow>
          if vp_Phase pod = PodPending then True
          else case mget (er_creatorToSingleGroupStatsMap e) cr of None \<Rightarrow> False | Some g \<Rightarrow> may_evict g)"

datatype evictError = NotInReplicatedPods | BudgetExceeded | EvictionFailed string | NoGroupStats podReplicaCreator

text \<open>The error of \<open>Evict\<close>, whether the API evicted the pod, and the new counts.\<close>

definition Evict ::
  "(vpaPod \<Rightarrow> string option) \<Rightarrow> vpaPod \<Rightarrow> podsEvictionRestriction \<Rightarrow> evictError option \<times> bool \<times> podsEvictionRestriction" where
  "Evict api pod e =
     (case mget (er_podToReplicaCreatorMap e) (getPodID pod) of
        None \<Rightarrow> (Some NotInReplicatedPods, False, e)
      | Some cr \<Rightarrow>
          if \<not> CanEvict e pod then (Some BudgetExceeded, False, e)
          else
            (case api pod of
               Some err \<Rightarrow> (Some (EvictionFailed err), False, e)
             | None \<Rightarrow>
                 if vp_Phase pod \<noteq> PodPending then
                   (case mget (er_creatorToSingleGroupStatsMap e) cr of
                      None \<Rightarrow> (Some (NoGroupStats cr), True, e)
                    | Some g \<Rightarrow>
                        (None, True, e\<lparr>er_creatorToSingleGroupStatsMap :=
                           mput cr (g\<lparr>gs_evicted := gs_evicted g + 1\<rparr>) (er_creatorToSingleGroupStatsMap e)\<rparr>))
                 else (None, True, e)))"

text \<open>A sequence of calls, with the pods that were evicted.\<close>

fun evict_all ::
  "(vpaPod \<Rightarrow> string option) \<Rightarrow> podsEvictionRestriction \<Rightarrow> vpaPod list \<Rightarrow> vpaPod list \<times> podsEvictionRestriction" where
  "evict_all api e [] = ([], e)"
| "evict_all api e (pod # pods) =
     (case Evict api pod e of (_, evicted, e1) \<Rightarrow>
        (case evict_all api e1 pods of (done, e2) \<Rightarrow> (if evicted then pod # done else done, e2)))"

section \<open>The budget of a group\<close>

text \<open>
  The running pods of a group that may be evicted: down to the configured number less the tolerance, or a single
  one when all run and the tolerance is zero.
\<close>

definition eviction_budget :: "singleGroupStats \<Rightarrow> int" where
  "eviction_budget g =
     (if gs_running g = gs_configured g \<and> gs_evictionTolerance g = 0 then 1
      else max 0 (gs_running g - (gs_configured g - gs_evictionTolerance g)))"

definition creator_of :: "podsEvictionRestriction \<Rightarrow> vpaPod \<Rightarrow> podReplicaCreator option" where
  "creator_of e pod = mget (er_podToReplicaCreatorMap e) (getPodID pod)"

definition running_evictions :: "podsEvictionRestriction \<Rightarrow> podReplicaCreator \<Rightarrow> vpaPod list \<Rightarrow> int" where
  "running_evictions e cr pods = int (length (filter (\<lambda>pod. creator_of e pod = Some cr \<and> vp_Phase pod \<noteq> PodPending) pods))"

lemma Evict_maps:
  assumes "Evict api pod e = (err, evicted, e')"
  shows "er_podToReplicaCreatorMap e' = er_podToReplicaCreatorMap e"
  using assms by (auto simp: Evict_def split: option.splits if_splits)

lemma Evict_group:
  assumes "Evict api pod e = (err, evicted, e')" "mget (er_creatorToSingleGroupStatsMap e) cr = Some g"
  shows "\<exists>g'. mget (er_creatorToSingleGroupStatsMap e') cr = Some g' \<and> g' = g\<lparr>gs_evicted := gs_evicted g'\<rparr> \<and>
    gs_evicted g' = gs_evicted g + (if evicted \<and> creator_of e pod = Some cr \<and> vp_Phase pod \<noteq> PodPending then 1 else 0) \<and>
    (gs_evicted g' = gs_evicted g \<or> may_evict g)"
  using assms by (auto simp: Evict_def CanEvict_def creator_of_def split: option.splits if_splits)

lemma budget_step: "gs_evicted g \<le> eviction_budget g \<Longrightarrow> may_evict g \<Longrightarrow> 0 \<le> gs_evicted g \<Longrightarrow> gs_evicted g + 1 \<le> eviction_budget g"
  by (auto simp: eviction_budget_def may_evict_def)

lemma eviction_budget_evicted: "eviction_budget (g\<lparr>gs_evicted := n\<rparr>) = eviction_budget g"
  by (simp add: eviction_budget_def)

lemma evict_all_group:
  assumes "evict_all api e pods = (done, e')" "mget (er_creatorToSingleGroupStatsMap e) cr = Some g"
    "0 \<le> gs_evicted g" "gs_evicted g \<le> eviction_budget g"
  shows "gs_evicted g + running_evictions e cr done \<le> eviction_budget g"
  using assms
proof (induction pods arbitrary: e g "done")
  case (Cons pod pods)
  obtain err evicted e1 where ev: "Evict api pod e = (err, evicted, e1)" by (cases "Evict api pod e") auto
  obtain done1 where rest: "evict_all api e1 pods = (done1, e')" "done = (if evicted then pod # done1 else done1)"
    using Cons.prems(1) ev by (auto split: prod.splits)
  obtain g1 where g1: "mget (er_creatorToSingleGroupStatsMap e1) cr = Some g1" "g1 = g\<lparr>gs_evicted := gs_evicted g1\<rparr>"
    "gs_evicted g1 = gs_evicted g + (if evicted \<and> creator_of e pod = Some cr \<and> vp_Phase pod \<noteq> PodPending then 1 else 0)"
    "gs_evicted g1 = gs_evicted g \<or> may_evict g" using Evict_group [OF ev Cons.prems(2)] by blast
  have b: "eviction_budget g1 = eviction_budget g" using g1(2) eviction_budget_evicted [where g = g and n = "gs_evicted g1"] by simp
  have "0 \<le> gs_evicted g1" using g1(3) Cons.prems(3) by simp
  moreover have "gs_evicted g1 \<le> eviction_budget g1"
    unfolding b using g1(3,4) budget_step [OF Cons.prems(4) _ Cons.prems(3)] Cons.prems(4) by (auto split: if_splits)
  ultimately have IH: "gs_evicted g1 + running_evictions e1 cr done1 \<le> eviction_budget g"
    using Cons.IH [OF rest(1) g1(1)] b by simp
  have "creator_of e1 = creator_of e" using Evict_maps [OF ev] by (simp add: creator_of_def fun_eq_iff)
  then have "running_evictions e1 cr done1 = running_evictions e cr done1" by (simp add: running_evictions_def)
  then show ?case using IH g1(3) rest(2) by (auto simp: running_evictions_def)
qed (simp add: running_evictions_def)

section \<open>The groups of a list of pods\<close>

definition pods_of :: "vpaPod list \<Rightarrow> podReplicaCreator \<Rightarrow> vpaPod list" where
  "pods_of pods cr = filter (\<lambda>pod. getPodReplicaCreator pod = Some cr) pods"

lemma group_pods_spec:
  assumes "group_pods pods = Some m"
  shows "gomap_ok m" "mget m cr = (if pods_of pods cr = [] then None else Some (pods_of pods cr))"
    and "\<forall>pod\<in>set pods. getPodReplicaCreator pod \<noteq> None"
proof -
  let ?step = "\<lambda>livePods pod. map_option (\<lambda>creator. mput creator (mget0 [] livePods creator @ [pod]) livePods) (getPodReplicaCreator pod)"
  have gen: "gomap_ok m \<and> (\<forall>pod\<in>set pods. getPodReplicaCreator pod \<noteq> None) \<and>
      (\<forall>cr. mget m cr = (if mget m0 cr = None \<and> pods_of pods cr = [] then None else Some (mget0 [] m0 cr @ pods_of pods cr)))"
    if "ofold ?step m0 pods = Some m" "gomap_ok m0" for m0
    using that
  proof (induction pods arbitrary: m0)
    case Nil
    then show ?case by (auto simp: pods_of_def mget0_def split: option.splits)
  next
    case (Cons pod pods)
    then obtain c where c: "getPodReplicaCreator pod = Some c" "ofold ?step (mput c (mget0 [] m0 c @ [pod]) m0) pods = Some m"
      by (auto split: option.splits)
    show ?case using Cons.IH [OF c(2)] Cons.prems(2) c(1) by (auto simp: pods_of_def mget0_def)
  qed
  from gen [of "[]"] assms show "gomap_ok m" "mget m cr = (if pods_of pods cr = [] then None else Some (pods_of pods cr))"
    "\<forall>pod\<in>set pods. getPodReplicaCreator pod \<noteq> None"
    by (simp_all add: group_pods_def mget0_def)
qed

text \<open>The counts of a group of pods, if it is large enough and its controller is known.\<close>

definition stats_of :: "informers \<Rightarrow> int \<Rightarrow> f64 \<Rightarrow> podReplicaCreator \<Rightarrow> vpaPod list \<Rightarrow> singleGroupStats option" where
  "stats_of get minReplicas fraction cr replicas =
     (if replicas = [] \<or> int (length replicas) < minReplicas then None
      else case configured_replicas get cr replicas of Inl _ \<Rightarrow> None | Inr n \<Rightarrow> Some (group_stats fraction n replicas))"

lemma add_group_stats:
  "replicas \<noteq> [] \<Longrightarrow> mget (er_creatorToSingleGroupStatsMap (add_group get minReplicas fraction e (c, replicas))) cr =
     (if cr = c \<and> stats_of get minReplicas fraction c replicas \<noteq> None then stats_of get minReplicas fraction c replicas
      else mget (er_creatorToSingleGroupStatsMap e) cr)"
  by (auto simp: add_group_def stats_of_def split: sum.splits)

lemma put_pods:
  "mget (foldl (\<lambda>m pod. mput (getPodID pod) creator m) m0 replicas) k =
     (if k \<in> getPodID ` set replicas then Some creator else mget m0 k)"
  by (induction replicas arbitrary: m0) auto

lemma add_group_pods:
  "replicas \<noteq> [] \<Longrightarrow> mget (er_podToReplicaCreatorMap (add_group get minReplicas fraction e (c, replicas))) k =
     (if k \<in> getPodID ` set replicas \<and> stats_of get minReplicas fraction c replicas \<noteq> None then Some c
      else mget (er_podToReplicaCreatorMap e) k)"
  by (auto simp: add_group_def stats_of_def put_pods split: sum.splits)

lemma add_groups_stats:
  assumes "gomap_ok groups" "\<forall>(c, rs)\<in>set groups. rs \<noteq> []"
  shows "mget (er_creatorToSingleGroupStatsMap (foldl (add_group get minReplicas fraction) e0 groups)) cr =
      (case mget groups cr of
         Some rs \<Rightarrow> (case stats_of get minReplicas fraction cr rs of Some g \<Rightarrow> Some g | None \<Rightarrow> mget (er_creatorToSingleGroupStatsMap e0) cr)
       | None \<Rightarrow> mget (er_creatorToSingleGroupStatsMap e0) cr)"
  using assms
proof (induction groups arbitrary: e0)
  case (Cons g groups)
  obtain c rs where g: "g = (c, rs)" "rs \<noteq> []" using Cons.prems(2) by (cases g) auto
  have ok: "gomap_ok groups" "mget groups c = None" using Cons.prems(1) g by (simp_all add: gomap_ok_Cons)
  show ?case using Cons.IH [OF ok(1), of "add_group get minReplicas fraction e0 g"] Cons.prems(2) ok(2) g
    by (auto simp: add_group_stats split: option.splits)
qed simp

lemma add_groups_pods:
  assumes "gomap_ok groups" "\<forall>(c, rs)\<in>set groups. rs \<noteq> []"
    and "mget (er_podToReplicaCreatorMap (foldl (add_group get minReplicas fraction) e0 groups)) k = Some cr"
  shows "(\<exists>rs. mget groups cr = Some rs \<and> k \<in> getPodID ` set rs \<and> stats_of get minReplicas fraction cr rs \<noteq> None) \<or>
      mget (er_podToReplicaCreatorMap e0) k = Some cr"
  using assms
proof (induction groups arbitrary: e0)
  case (Cons g groups)
  obtain c rs where g: "g = (c, rs)" "rs \<noteq> []" using Cons.prems(2) by (cases g) auto
  have ok: "gomap_ok groups" "mget groups c = None" using Cons.prems(1) g by (simp_all add: gomap_ok_Cons)
  show ?case using Cons.IH [OF ok(1), of "add_group get minReplicas fraction e0 g"] Cons.prems(2,3) ok(2) g
    by (auto simp: add_group_pods split: if_splits)
qed simp

lemma restriction_spec:
  assumes "NewPodsEvictionRestriction get minReplicas fraction pods = Some e"
  shows "mget (er_creatorToSingleGroupStatsMap e) cr = stats_of get minReplicas fraction cr (pods_of pods cr)"
    and "creator_of e p = Some cr \<Longrightarrow>
      getPodID p \<in> getPodID ` set (pods_of pods cr) \<and> stats_of get minReplicas fraction cr (pods_of pods cr) \<noteq> None"
proof -
  obtain groups where groups: "group_pods pods = Some groups"
    "e = foldl (add_group get minReplicas fraction) \<lparr>er_podToReplicaCreatorMap = [], er_creatorToSingleGroupStatsMap = []\<rparr> groups"
    using assms by (auto simp: NewPodsEvictionRestriction_def)
  note sp = group_pods_spec [OF groups(1)]
  have ne: "\<forall>(c, rs)\<in>set groups. rs \<noteq> []"
  proof safe
    fix c assume "(c, []) \<in> set groups"
    then have "mget groups c = Some []" using sp(1) by (simp add: mget_eq_Some_iff)
    then show False using sp(2) [of c] by (simp split: if_splits)
  qed
  show "mget (er_creatorToSingleGroupStatsMap e) cr = stats_of get minReplicas fraction cr (pods_of pods cr)"
    unfolding groups(2) add_groups_stats [OF sp(1) ne] using sp(2) [of cr] by (auto simp: stats_of_def split: option.splits)
  assume "creator_of e p = Some cr"
  then show "getPodID p \<in> getPodID ` set (pods_of pods cr) \<and> stats_of get minReplicas fraction cr (pods_of pods cr) \<noteq> None"
    using add_groups_pods [OF sp(1) ne, of get minReplicas fraction _ "getPodID p" cr] sp(2) [of cr] groups(2)
    by (fastforce simp: creator_of_def split: if_splits)
qed

section \<open>Evictions stay within the budget\<close>

lemma eviction_budget_nonneg: "0 \<le> eviction_budget g"
  by (simp add: eviction_budget_def)

lemma Evict_evicted: "Evict api pod e = (err, True, e') \<Longrightarrow> CanEvict e pod \<and> creator_of e pod \<noteq> None"
  by (auto simp: Evict_def creator_of_def split: option.splits if_splits)

lemma evict_all_members: "evict_all api e pods = (done, e') \<Longrightarrow> pod \<in> set done \<Longrightarrow> pod \<in> set pods \<and> creator_of e pod \<noteq> None"
proof (induction pods arbitrary: e "done")
  case (Cons p pods)
  obtain err evicted e1 where ev: "Evict api p e = (err, evicted, e1)" by (cases "Evict api p e") auto
  obtain done1 where rest: "evict_all api e1 pods = (done1, e')" "done = (if evicted then p # done1 else done1)"
    using Cons.prems(1) ev by (auto split: prod.splits)
  have "creator_of e1 = creator_of e" using Evict_maps [OF ev] by (simp add: creator_of_def fun_eq_iff)
  then show ?case using Cons.IH [OF rest(1)] Cons.prems(2) rest(2) Evict_evicted [of api p e] ev by (auto split: if_splits)
qed simp

text \<open>
  Only the kinds of controllers that replicate pods are meant here.  A pod without one is grouped under the
  zero reference and not protected, although the comment of the code says it is left out; that is shown below.
\<close>

definition replicating :: "podReplicaCreator \<Rightarrow> bool" where
  "replicating cr \<longleftrightarrow> rcr_Kind cr \<in> {replicationController, replicaSet, statefulSet, job}"

text \<open>
  The running pods of a group that may be evicted, from its configured number of replicas and the tolerated
  fraction; none if the group is too small or the number is not known.
\<close>

definition group_budget :: "informers \<Rightarrow> int \<Rightarrow> f64 \<Rightarrow> podReplicaCreator \<Rightarrow> vpaPod list \<Rightarrow> int" where
  "group_budget get minReplicas fraction cr replicas =
     (case configured_replicas get cr replicas of
        Inl _ \<Rightarrow> 0
      | Inr configured \<Rightarrow>
          (let tolerance = f_int (fmul (f_of_int configured) fraction);
               running = int (length (filter (\<lambda>pod. vp_Phase pod \<noteq> PodPending) replicas))
           in if int (length replicas) < minReplicas then 0
              else if running = configured \<and> tolerance = 0 then 1
              else max 0 (running - (configured - tolerance))))"

lemma group_budget_stats:
  assumes "stats_of get minReplicas fraction cr replicas = Some g"
  shows "group_budget get minReplicas fraction cr replicas = eviction_budget g"
proof -
  have "int (length (filter (\<lambda>pod. vp_Phase pod \<noteq> PodPending) replicas)) = int (length replicas) - pending_pods replicas"
    using sum_length_filter_compl [of "\<lambda>pod. vp_Phase pod = PodPending" replicas] by (simp add: pending_pods_def)
  then show ?thesis using assms
    by (auto simp: group_budget_def stats_of_def group_stats_def eviction_budget_def split: if_splits sum.splits)
qed

lemma group_budget_nonneg: "0 \<le> group_budget get minReplicas fraction cr replicas"
  by (simp add: group_budget_def Let_def split: sum.split)

lemma no_running_evictions: "(\<And>pod. pod \<in> set done \<Longrightarrow> creator_of e pod \<noteq> Some cr) \<Longrightarrow> running_evictions e cr done = 0"
  by (simp add: running_evictions_def filter_empty_conv)

text \<open>What is evicted of one group, for any pods that are tried.\<close>

lemma evict_all_within_budget:
  assumes "NewPodsEvictionRestriction get minReplicas fraction pods = Some e" "evict_all api e tried = (done, e')"
  shows "running_evictions e cr done \<le> group_budget get minReplicas fraction cr (pods_of pods cr)"
    and "pod \<in> set done \<Longrightarrow> pod \<in> set tried"
    and "pod \<in> set done \<Longrightarrow> creator_of e pod \<noteq> None"
    and "pod \<in> set done \<Longrightarrow> creator_of e pod = Some cr \<Longrightarrow> getPodID pod \<in> getPodID ` set (pods_of pods cr) \<and>
      minReplicas \<le> int (length (pods_of pods cr)) \<and> (\<exists>n. configured_replicas get cr (pods_of pods cr) = Inr n)"
proof -
  show "pod \<in> set done \<Longrightarrow> pod \<in> set tried" "pod \<in> set done \<Longrightarrow> creator_of e pod \<noteq> None"
    using evict_all_members [OF assms(2)] by blast+
  show "pod \<in> set done \<Longrightarrow> creator_of e pod = Some cr \<Longrightarrow> getPodID pod \<in> getPodID ` set (pods_of pods cr) \<and>
      minReplicas \<le> int (length (pods_of pods cr)) \<and> (\<exists>n. configured_replicas get cr (pods_of pods cr) = Inr n)"
    using restriction_spec(2) [OF assms(1), of pod cr] by (auto simp: stats_of_def split: if_splits sum.splits)
  show "running_evictions e cr done \<le> group_budget get minReplicas fraction cr (pods_of pods cr)"
  proof (cases "stats_of get minReplicas fraction cr (pods_of pods cr)")
    case None
    then have "creator_of e pod \<noteq> Some cr" for pod using restriction_spec(2) [OF assms(1), of pod cr] by auto
    then show ?thesis using no_running_evictions [of "done" e cr] group_budget_nonneg by simp
  next
    case (Some g)
    then have g0: "gs_evicted g = 0" by (auto simp: stats_of_def group_stats_def split: if_splits sum.splits)
    have "gs_evicted g + running_evictions e cr done \<le> eviction_budget g"
      by (rule evict_all_group [OF assms(2)]) (use restriction_spec(1) [OF assms(1)] Some g0 eviction_budget_nonneg in simp_all)
    then show ?thesis using g0 group_budget_stats [OF Some] by simp
  qed
qed

text \<open>The creator the restriction knows for a listed pod is the one the pod names, as every pod is listed once.\<close>

lemma creator_of_listed:
  assumes "NewPodsEvictionRestriction get minReplicas fraction pods = Some e" "distinct (map getPodID pods)"
    and "pod \<in> set pods" "creator_of e pod = Some cr"
  shows "getPodReplicaCreator pod = Some cr"
proof -
  from restriction_spec(2) [OF assms(1,4)] obtain q where q: "q \<in> set pods" "getPodReplicaCreator q = Some cr" "getPodID q = getPodID pod"
    by (auto simp: pods_of_def)
  then have "q = pod" using assms(2,3) by (auto simp: distinct_map dest: inj_onD)
  then show ?thesis using q(2) by simp
qed

text \<open>
  C22: Take the restriction made for a list of pods, and let the updater then try to evict any pods, in any order, with
  any answers of the eviction API.  For every group of pods with the same replication controller, replica set, stateful
  set or job: at most its budget of running pods is evicted, that is the running ones in excess of the configured
  replicas less the tolerated fraction of them, or one if all replicas run and the tolerance is zero; and any pod of it
  is evicted only if it was tried, the list has at least the minimum of pods of the group, and the configured number of
  replicas could be read.  (Pending pods of such a group are not counted, and pods without such a controller are not
  meant.)
\<close>

theorem evictions_within_budget:
  assumes "NewPodsEvictionRestriction get minReplicas fraction pods = Some e" "evict_all api e tried = (done, e')"
    and "replicating cr"
  shows "running_evictions e cr done \<le> group_budget get minReplicas fraction cr (pods_of pods cr) \<and>
    (\<forall>pod\<in>set done. creator_of e pod = Some cr \<longrightarrow> pod \<in> set tried \<and> getPodID pod \<in> getPodID ` set (pods_of pods cr) \<and>
       minReplicas \<le> int (length (pods_of pods cr)) \<and> (\<exists>n. configured_replicas get cr (pods_of pods cr) = Inr n))"
  using evict_all_within_budget [OF assms(1,2)] by blast

text \<open>Three running pods of a replica set of three, and a tolerance that rounds down to zero.\<close>

definition demo_vpa_pod :: "string \<Rightarrow> ownerReference list \<Rightarrow> vpaPod" where
  "demo_vpa_pod name owners =
     \<lparr>vp_Namespace = ''ns'', vp_Name = name, vp_Labels = [], vp_OwnerReferences = owners, vp_DeletionTimestamp = None,
      vp_Containers = [], vp_Phase = ''Running'', vp_StartTime = Some 0, vp_LastTerminated = []\<rparr>"

definition demo_replicas :: "vpaPod list" where
  "demo_replicas = map (\<lambda>name. demo_vpa_pod name [\<lparr>or_Kind = ''ReplicaSet'', or_Name = ''rs'', or_Controller = Some True\<rparr>])
     [''a'', ''b'', ''c'']"

definition demo_informers :: informers where
  "demo_informers = (\<lambda>kind key. if key = ''ns/rs'' then Inr (Some (Replicas (Some 3))) else Inr None)"

definition demo_restriction :: podsEvictionRestriction where
  "demo_restriction =
     \<lparr>er_podToReplicaCreatorMap = map (\<lambda>name. (''ns/'' @ name, \<lparr>rcr_Namespace = ''ns'', rcr_Name = ''rs'', rcr_Kind = ''ReplicaSet''\<rparr>))
        [''a'', ''b'', ''c''],
      er_creatorToSingleGroupStatsMap = [(\<lparr>rcr_Namespace = ''ns'', rcr_Name = ''rs'', rcr_Kind = ''ReplicaSet''\<rparr>,
        \<lparr>gs_configured = 3, gs_pending = 0, gs_running = 3, gs_evictionTolerance = 0, gs_evicted = 0\<rparr>)]\<rparr>"

lemma demo_restriction_made: "NewPodsEvictionRestriction demo_informers 2 (Fin (1 / 4)) demo_replicas = Some demo_restriction"
proof -
  have "\<lfloor>3 / 4 :: rat\<rfloor> = 0" by (simp add: floor_eq_iff)
  then have "f_int (fmul (f_of_int 3) (Fin (1 / 4))) = 0"
    by (simp add: f_of_int_def mkf_dyadic f_int_def in_i64_def minInt64_def maxInt64_def)
  then show ?thesis
    by (simp add: NewPodsEvictionRestriction_def group_pods_def demo_replicas_def demo_vpa_pod_def getPodReplicaCreator_def mput_def
        mget0_def add_group_def configured_replicas_def getReplicaCount_def demo_informers_def replicaSet_def job_def
        replicationController_def statefulSet_def group_stats_def pending_pods_def PodPending_def demo_restriction_def getPodID_def)
qed

lemma demo_evictions: "fst (evict_all (\<lambda>_. None) demo_restriction demo_replicas) = take 1 demo_replicas"
  by (simp add: demo_restriction_def demo_replicas_def demo_vpa_pod_def Evict_def CanEvict_def may_evict_def getPodID_def PodPending_def
      mput_def)

theorem evictions_within_budget_witness:
  "running_evictions demo_restriction \<lparr>rcr_Namespace = ''ns'', rcr_Name = ''rs'', rcr_Kind = ''ReplicaSet''\<rparr> (take 1 demo_replicas) \<le>
     group_budget demo_informers 2 (Fin (1 / 4)) \<lparr>rcr_Namespace = ''ns'', rcr_Name = ''rs'', rcr_Kind = ''ReplicaSet''\<rparr>
       (pods_of demo_replicas \<lparr>rcr_Namespace = ''ns'', rcr_Name = ''rs'', rcr_Kind = ''ReplicaSet''\<rparr>)"
proof -
  obtain e' where e': "evict_all (\<lambda>_. None) demo_restriction demo_replicas = (take 1 demo_replicas, e')"
    using demo_evictions by (cases "evict_all (\<lambda>_. None) demo_restriction demo_replicas") simp
  have "replicating \<lparr>rcr_Namespace = ''ns'', rcr_Name = ''rs'', rcr_Kind = ''ReplicaSet''\<rparr>"
    by (simp add: replicating_def replicaSet_def)
  from evictions_within_budget [OF demo_restriction_made e' this] show ?thesis by blast
qed

section \<open>Pods without a controller\<close>

text \<open>
  A pod without a controller is not left out, as the code intends: its creator is the zero reference, all such
  pods of a namespace are one group, and zero replicas are configured for it.  So all of them can be evicted.
\<close>

definition bare_pods :: "vpaPod list" where
  "bare_pods = map (\<lambda>name. demo_vpa_pod name []) [''a'', ''b'']"

theorem uncontrolled_pods_are_evicted:
  "(\<forall>pod\<in>set bare_pods. vp_OwnerReferences pod = []) \<and>
   map_option (\<lambda>e. fst (evict_all (\<lambda>_. None) e bare_pods)) (NewPodsEvictionRestriction demo_informers 2 (Fin (1 / 2)) bare_pods) = Some bare_pods"
proof -
  have "f_int (fmul (f_of_int 0) (Fin (1 / 2))) = 0"
    by (simp add: f_of_int_def mkf_dyadic f_int_def in_i64_def minInt64_def maxInt64_def)
  then have "NewPodsEvictionRestriction demo_informers 2 (Fin (1 / 2)) bare_pods = Some
      \<lparr>er_podToReplicaCreatorMap = map (\<lambda>name. (''ns/'' @ name, \<lparr>rcr_Namespace = ''ns'', rcr_Name = '''', rcr_Kind = ''''\<rparr>)) [''a'', ''b''],
       er_creatorToSingleGroupStatsMap = [(\<lparr>rcr_Namespace = ''ns'', rcr_Name = '''', rcr_Kind = ''''\<rparr>,
         \<lparr>gs_configured = 0, gs_pending = 0, gs_running = 2, gs_evictionTolerance = 0, gs_evicted = 0\<rparr>)]\<rparr>"
    by (simp add: NewPodsEvictionRestriction_def group_pods_def bare_pods_def demo_vpa_pod_def getPodReplicaCreator_def mput_def
        mget0_def add_group_def configured_replicas_def getReplicaCount_def replicaSet_def job_def
        replicationController_def statefulSet_def group_stats_def pending_pods_def PodPending_def getPodID_def)
  then show ?thesis
    by (simp add: bare_pods_def demo_vpa_pod_def Evict_def CanEvict_def may_evict_def getPodID_def PodPending_def mput_def)
qed

end
