(* ===== verification/VpaPriority.thy ===== *)
theory VpaPriority
  imports VpaCapping "HOL-Library.Product_Lexorder"
begin

text \<open>
  \<open>updater/priority/update_priority_calculator.go\<close>: which pods are updated, and in which order.  The processor of
  recommendations and the admission are interfaces, hence parameters; \<open>sort.Sort\<close> is a parameter that obeys
  \<open>priority_sort\<close>.
\<close>

section \<open>Priorities\<close>

fun fabs :: "f64 \<Rightarrow> f64" where
  "fabs (Fin x) = Fin \<bar>x\<bar>"
| "fabs NInf = PInf"
| "fabs x = x"

definition defaultUpdateThreshold :: f64 where
  "defaultUpdateThreshold = mkf (1 / 10)"

definition podLifetimeUpdateThreshold :: duration where
  "podLifetimeUpdateThreshold = hour * 12"

record podPriority =
  pr_pod :: vpaPod
  pr_outsideRecommendedRange :: bool
  pr_scaleUp :: bool
  pr_resourceDiff :: f64
  pr_recommendation :: "recommendedPodResources option"

record priorityTotals =
  to_outside :: bool
  to_scaleUp :: bool
  to_request :: "(string, int) gomap"
  to_recommended :: "(string, int) gomap"

definition total_resource :: "vpaContainer \<Rightarrow> recommendedContainer \<Rightarrow> priorityTotals \<Rightarrow> string \<times> quantity \<Rightarrow> priorityTotals" where
  "total_resource container rec t e =
     (case e of (resourceName, recommended) \<Rightarrow>
        (let t1 = t\<lparr>to_recommended := mput resourceName (i64 (mget0 0 (to_recommended t) resourceName + MilliValue recommended)) (to_recommended t)\<rparr>
         in case mget (vn_Requests container) resourceName of
              Some request \<Rightarrow>
                t1\<lparr>to_request := mput resourceName (i64 (mget0 0 (to_request t) resourceName + MilliValue request)) (to_request t),
                   to_scaleUp := to_scaleUp t \<or> MilliValue recommended > MilliValue request,
                   to_outside := to_outside t \<or>
                     (case mget (re_LowerBound rec) resourceName of None \<Rightarrow> False | Some lowerBound \<Rightarrow> request < lowerBound) \<or>
                     (case mget (re_UpperBound rec) resourceName of None \<Rightarrow> False | Some upperBound \<Rightarrow> request > upperBound)\<rparr>
            | None \<Rightarrow> t1\<lparr>to_scaleUp := True, to_outside := True\<rparr>))"

definition total_container :: "recommendedPodResources option \<Rightarrow> priorityTotals \<Rightarrow> vpaContainer \<Rightarrow> priorityTotals" where
  "total_container recommendation t container =
     (case GetRecommendationForContainer (vn_Name container) recommendation of
        None \<Rightarrow> t
      | Some rec \<Rightarrow> foldl (total_resource container rec) t (re_Target rec))"

definition resource_diff :: "priorityTotals \<Rightarrow> f64" where
  "resource_diff t =
     foldl (\<lambda>diff (r, totalRecommended).
         let totalRequest = fmax (f_of_int (mget0 0 (to_request t) r)) (Fin 1)
         in fadd diff (fdiv (fabs (fsub totalRequest (f_of_int totalRecommended))) totalRequest))
       (Fin 0) (to_recommended t)"

definition pod_totals :: "vpaPod \<Rightarrow> recommendedPodResources option \<Rightarrow> priorityTotals" where
  "pod_totals pod recommendation =
     foldl (total_container recommendation) \<lparr>to_outside = False, to_scaleUp = False, to_request = [], to_recommended = []\<rparr>
       (vp_Containers pod)"

definition getUpdatePriority :: "vpaPod \<Rightarrow> recommendedPodResources option \<Rightarrow> podPriority" where
  "getUpdatePriority pod recommendation =
     (let t = pod_totals pod recommendation
      in \<lparr>pr_pod = pod, pr_outsideRecommendedRange = to_outside t, pr_scaleUp = to_scaleUp t,
          pr_resourceDiff = resource_diff t, pr_recommendation = recommendation\<rparr>)"

section \<open>The calculator\<close>

type_synonym recommendationProcessor =
  "recommendedPodResources option \<Rightarrow> podResourcePolicy option \<Rightarrow> vpaCondition list \<Rightarrow> vpaPod \<Rightarrow>
     string + recommendedPodResources option \<times> containerAnnotations"

type_synonym podEvictionAdmission = "vpaPod \<Rightarrow> recommendedPodResources option \<Rightarrow> bool"

record updatePriorityCalculator =
  uc_resourcesPolicy :: "podResourcePolicy option"
  uc_conditions :: "vpaCondition list"
  uc_pods :: "podPriority list"
  uc_MinChangePriority :: f64
  uc_recommendationProcessor :: recommendationProcessor

definition NewUpdatePriorityCalculator ::
  "podResourcePolicy option \<Rightarrow> vpaCondition list \<Rightarrow> f64 option \<Rightarrow> recommendationProcessor \<Rightarrow> updatePriorityCalculator" where
  "NewUpdatePriorityCalculator policy conditions config processor =
     \<lparr>uc_resourcesPolicy = policy, uc_conditions = conditions, uc_pods = [],
      uc_MinChangePriority = (case config of None \<Rightarrow> defaultUpdateThreshold | Some t \<Rightarrow> t),
      uc_recommendationProcessor = processor\<rparr>"

definition quick_oom :: "duration \<Rightarrow> vpaPod \<Rightarrow> bool" where
  "quick_oom evictAfterOOMThreshold pod =
     (case vp_LastTerminated pod of
        [Some t] \<Rightarrow> ts_Reason t = ''OOMKilled'' \<and> time_sub (ts_FinishedAt t) (ts_StartedAt t) < evictAfterOOMThreshold
      | _ \<Rightarrow> False)"

text \<open>The priority with which \<open>AddPod\<close> adds the pod, if it does.\<close>

definition accepted_priority :: "duration \<Rightarrow> updatePriorityCalculator \<Rightarrow> vpaPod \<Rightarrow> recommendedPodResources option \<Rightarrow> time \<Rightarrow> podPriority option" where
  "accepted_priority evictAfterOOMThreshold calc pod recommendation now =
     (case uc_recommendationProcessor calc recommendation (uc_resourcesPolicy calc) (uc_conditions calc) pod of
        Inl _ \<Rightarrow> None
      | Inr (processed, _) \<Rightarrow>
          (let p = getUpdatePriority pod processed
           in if \<not> pr_outsideRecommendedRange p \<and> \<not> quick_oom evictAfterOOMThreshold pod then
                (case vp_StartTime pod of
                   None \<Rightarrow> None
                 | Some start \<Rightarrow>
                     if time_before now (time_add start podLifetimeUpdateThreshold) then None
                     else if flt (pr_resourceDiff p) (uc_MinChangePriority calc) then None
                     else Some p)
              else Some p))"

definition AddPod ::
  "duration \<Rightarrow> vpaPod \<Rightarrow> recommendedPodResources option \<Rightarrow> time \<Rightarrow> updatePriorityCalculator \<Rightarrow> updatePriorityCalculator" where
  "AddPod evictAfterOOMThreshold pod recommendation now calc =
     (case accepted_priority evictAfterOOMThreshold calc pod recommendation now of
        None \<Rightarrow> calc | Some p \<Rightarrow> calc\<lparr>uc_pods := uc_pods calc @ [p]\<rparr>)"

definition priority_less :: "podPriority \<Rightarrow> podPriority \<Rightarrow> bool" where
  "priority_less a b =
     (if pr_scaleUp a \<noteq> pr_scaleUp b then pr_scaleUp a else flt (pr_resourceDiff b) (pr_resourceDiff a))"

definition GetSortedPods ::
  "(podPriority list \<Rightarrow> podPriority list) \<Rightarrow> podEvictionAdmission option \<Rightarrow> updatePriorityCalculator \<Rightarrow> vpaPod list" where
  "GetSortedPods srt admission calc =
     map pr_pod (filter (\<lambda>p. case admission of None \<Rightarrow> True | Some admit \<Rightarrow> admit (pr_pod p) (pr_recommendation p)) (srt (uc_pods calc)))"

section \<open>The contract of sorting\<close>

locale priority_sort =
  fixes srt :: "podPriority list \<Rightarrow> podPriority list"
  assumes srt_perm: "mset (srt xs) = mset xs"
    and srt_sorted: "\<forall>p\<in>set xs. pr_resourceDiff p \<noteq> NaN \<Longrightarrow> sorted_wrt (\<lambda>a b. \<not> priority_less b a) (srt xs)"
begin

lemma set_srt: "set (srt xs) = set xs"
  using srt_perm [of xs] by (rule mset_eq_setD)

lemma srt_Nil_iff: "srt xs = [] \<longleftrightarrow> xs = []"
  using srt_perm [of xs] by (metis mset_zero_iff)

text \<open>No accepted pod that wants to grow comes after one that does not.\<close>

lemma growing_first:
  assumes "\<forall>p\<in>set xs. pr_resourceDiff p \<noteq> NaN" "i < j" "j < length (srt xs)" "pr_scaleUp (srt xs ! j)"
  shows "pr_scaleUp (srt xs ! i)"
  using sorted_wrt_nth_less [OF srt_sorted [OF assms(1)] assms(2,3)] assms(4) by (auto simp: priority_less_def split: if_splits)

end

definition sort_priorities :: "podPriority list \<Rightarrow> podPriority list" where
  "sort_priorities xs = rev (sort_key (\<lambda>p. (pr_scaleUp p, pr_resourceDiff p)) xs)"

interpretation ps: priority_sort sort_priorities
proof
  fix xs :: "podPriority list"
  show "mset (sort_priorities xs) = mset xs" by (simp add: sort_priorities_def)
  assume num: "\<forall>p\<in>set xs. pr_resourceDiff p \<noteq> NaN"
  let ?key = "\<lambda>p. (pr_scaleUp p, pr_resourceDiff p)"
  have "sorted_wrt (\<lambda>a b. ?key a \<le> ?key b) (sort_key ?key xs)"
    using sorted_sort_key [of ?key xs] by (simp add: sorted_map)
  then have "sorted_wrt (\<lambda>a b. \<not> priority_less a b) (sort_key ?key xs)"
  proof (rule sorted_wrt_mono_rel [rotated])
    fix a b assume "a \<in> set (sort_key ?key xs)" "b \<in> set (sort_key ?key xs)" and le: "?key a \<le> ?key b"
    then have n: "pr_resourceDiff a \<noteq> NaN" "pr_resourceDiff b \<noteq> NaN" using num by simp_all
    have "\<not> flt y x" if "x \<le> y" "x \<noteq> NaN" "y \<noteq> NaN" for x y :: f64
      using that by (auto simp: less_eq_f64_def not_flt)
    then show "\<not> priority_less a b" using le n by (auto simp: priority_less_def less_eq_prod_def split: if_splits)
  qed
  then show "sorted_wrt (\<lambda>a b. \<not> priority_less b a) (sort_priorities xs)" by (simp add: sort_priorities_def sorted_wrt_rev)
qed

section \<open>When a request is outside the recommended range\<close>

definition request_outside :: "vpaContainer \<Rightarrow> recommendedContainer \<Rightarrow> string \<Rightarrow> bool" where
  "request_outside container rec resourceName \<longleftrightarrow>
     (case mget (vn_Requests container) resourceName of
        None \<Rightarrow> True
      | Some request \<Rightarrow>
          (\<exists>lower. mget (re_LowerBound rec) resourceName = Some lower \<and> request < lower) \<or>
          (\<exists>upper. mget (re_UpperBound rec) resourceName = Some upper \<and> upper < request))"

lemma total_resource_outside:
  "to_outside (foldl (total_resource container rec) t rs) \<longleftrightarrow>
     to_outside t \<or> (\<exists>(r, q)\<in>set rs. request_outside container rec r)"
proof (induction rs arbitrary: t)
  case (Cons e rs)
  have "to_outside (total_resource container rec t e) \<longleftrightarrow> to_outside t \<or> request_outside container rec (fst e)"
    by (auto simp: total_resource_def request_outside_def Let_def split: prod.splits option.splits)
  then show ?case using Cons by auto
qed simp

text \<open>
  A pod counts as outside the recommended range exactly when one of its containers has a recommendation, and
  for a resource with a target it has no request, or one below the lower or above the upper bound.
\<close>

theorem outside_recommended_range:
  "pr_outsideRecommendedRange (getUpdatePriority pod recommendation) \<longleftrightarrow>
     (\<exists>container\<in>set (vp_Containers pod). \<exists>rec. GetRecommendationForContainer (vn_Name container) recommendation = Some rec \<and>
        (\<exists>(r, q)\<in>set (re_Target rec). request_outside container rec r))"
proof -
  have "to_outside (foldl (total_container recommendation) t cs) \<longleftrightarrow>
      to_outside t \<or> (\<exists>container\<in>set cs. \<exists>rec. GetRecommendationForContainer (vn_Name container) recommendation = Some rec \<and>
        (\<exists>(r, q)\<in>set (re_Target rec). request_outside container rec r))" for t cs
  proof (induction cs arbitrary: t)
    case (Cons c cs)
    have "to_outside (total_container recommendation t c) \<longleftrightarrow> to_outside t \<or>
        (\<exists>rec. GetRecommendationForContainer (vn_Name c) recommendation = Some rec \<and> (\<exists>(r, q)\<in>set (re_Target rec). request_outside c rec r))"
      by (simp add: total_container_def total_resource_outside split: option.split)
    then show ?case using Cons by auto
  qed simp
  then show ?thesis by (simp add: getUpdatePriority_def Let_def pod_totals_def)
qed

end
