(* ===== verification/VpaUpdater.thy ===== *)
theory VpaUpdater
  imports VpaEviction VpaPriority
begin

text \<open>
  \<open>updater/logic/updater.go\<close> and \<open>updater/priority/pod_eviction_admission.go\<close>: one run of the updater, from the
  lists of autoscaler objects and pods to the evictions.  The objects of a list are distinct, so a pointer to one
  is its value.  What the run uses of the cluster is the record \<open>updaterEnv\<close>.
\<close>

section \<open>Admission of evictions\<close>

type_synonym 'sel controlledPods = "('sel apiVpa, vpaPod list) gomap"

text \<open>The interface, on any state of its implementation; \<open>Admit\<close> reads the state that \<open>LoopInit\<close> has set.\<close>

record ('sel, 'a) podAdmission =
  pa_LoopInit :: "vpaPod list \<Rightarrow> 'sel controlledPods \<Rightarrow> 'a \<Rightarrow> 'a"
  pa_Admit :: "vpaPod \<Rightarrow> recommendedPodResources option \<Rightarrow> 'a \<Rightarrow> bool"
  pa_CleanUp :: "'a \<Rightarrow> 'a"

definition NewDefaultPodEvictionAdmission :: "('sel, 'a) podAdmission" where
  "NewDefaultPodEvictionAdmission = \<lparr>pa_LoopInit = (\<lambda>_ _ st. st), pa_Admit = (\<lambda>_ _ _. True), pa_CleanUp = (\<lambda>st. st)\<rparr>"

fun admit_all :: "('sel, 'a) podAdmission list \<Rightarrow> vpaPod \<Rightarrow> recommendedPodResources option \<Rightarrow> 'a \<Rightarrow> bool" where
  "admit_all [] pod recommendation st = True"
| "admit_all (a # as) pod recommendation st =
     (if \<not> pa_Admit a pod recommendation st then False else admit_all as pod recommendation st)"

definition NewSequentialPodEvictionAdmission :: "('sel, 'a) podAdmission list \<Rightarrow> ('sel, 'a) podAdmission" where
  "NewSequentialPodEvictionAdmission admissions =
     \<lparr>pa_LoopInit = (\<lambda>pods controlled st. foldl (\<lambda>st a. pa_LoopInit a pods controlled st) st admissions),
      pa_Admit = admit_all admissions,
      pa_CleanUp = (\<lambda>st. foldl (\<lambda>st a. pa_CleanUp a st) st admissions)\<rparr>"

section \<open>The updater\<close>

record 'sel updaterEnv =
  ue_as_selector :: "'sel vpa_selector"
  ue_informers :: informers
  ue_evict :: "vpaPod \<Rightarrow> string option"
  ue_now :: "vpaPod \<Rightarrow> time"
  ue_sort :: "podPriority list \<Rightarrow> podPriority list"
  ue_evictAfterOOMThreshold :: duration

record ('sel, 'a) updater =
  up_minReplicas :: int
  up_evictionToleranceFraction :: f64
  up_recommendationProcessor :: recommendationProcessor
  up_evictionAdmission :: "('sel, 'a) podAdmission option"

definition filterDeletedPods :: "vpaPod list \<Rightarrow> vpaPod list" where
  "filterDeletedPods pods = filter (\<lambda>pod. vp_DeletionTimestamp pod = None) pods"

definition filterNonEvictablePods :: "vpaPod list \<Rightarrow> podsEvictionRestriction \<Rightarrow> vpaPod list" where
  "filterNonEvictablePods pods evictionRestriction = filter (CanEvict evictionRestriction) pods"

definition add_pods :: "'sel updaterEnv \<Rightarrow> 'sel apiVpa \<Rightarrow> updatePriorityCalculator \<Rightarrow> vpaPod list \<Rightarrow> updatePriorityCalculator" where
  "add_pods env vpa =
     foldl (\<lambda>calc pod. AddPod (ue_evictAfterOOMThreshold env) pod (va_Recommendation vpa) (ue_now env pod) calc)"

definition vpa_calculator :: "('sel, 'a) updater \<Rightarrow> 'sel apiVpa \<Rightarrow> updatePriorityCalculator" where
  "vpa_calculator u vpa = NewUpdatePriorityCalculator (va_ResourcePolicy vpa) (va_Conditions vpa) None (up_recommendationProcessor u)"

definition admission_of :: "('sel, 'a) updater \<Rightarrow> 'a \<Rightarrow> podEvictionAdmission option" where
  "admission_of u st = map_option (\<lambda>a pod recommendation. pa_Admit a pod recommendation st) (up_evictionAdmission u)"

definition getPodsUpdateOrder :: "'sel updaterEnv \<Rightarrow> ('sel, 'a) updater \<Rightarrow> 'a \<Rightarrow> vpaPod list \<Rightarrow> 'sel apiVpa \<Rightarrow> vpaPod list" where
  "getPodsUpdateOrder env u st pods vpa =
     GetSortedPods (ue_sort env) (admission_of u st) (add_pods env vpa (vpa_calculator u vpa) pods)"

text \<open>The loop over the pods for update, with the pods that were evicted.\<close>

fun evict_pods ::
  "(vpaPod \<Rightarrow> string option) \<Rightarrow> podsEvictionRestriction \<Rightarrow> vpaPod list \<Rightarrow> vpaPod list \<times> podsEvictionRestriction" where
  "evict_pods api e [] = ([], e)"
| "evict_pods api e (pod # pods) =
     (if \<not> CanEvict e pod then evict_pods api e pods
      else case Evict api pod e of (_, evicted, e1) \<Rightarrow>
        (case evict_pods api e1 pods of (done, e2) \<Rightarrow> (if evicted then pod # done else done, e2)))"

definition update_vpa :: "'sel updaterEnv \<Rightarrow> ('sel, 'a) updater \<Rightarrow> 'a \<Rightarrow> 'sel apiVpa \<Rightarrow> vpaPod list \<Rightarrow> vpaPod list option" where
  "update_vpa env u st vpa livePods =
     map_option (\<lambda>e. fst (evict_pods (ue_evict env) e (getPodsUpdateOrder env u st (filterNonEvictablePods livePods e) vpa)))
       (NewPodsEvictionRestriction (ue_informers env) (up_minReplicas u) (up_evictionToleranceFraction u) livePods)"

fun update_vpas ::
  "'sel updaterEnv \<Rightarrow> ('sel, 'a) updater \<Rightarrow> 'a \<Rightarrow> 'sel controlledPods \<Rightarrow> ('sel apiVpa \<times> vpaPod list) list option" where
  "update_vpas env u st [] = Some []"
| "update_vpas env u st ((vpa, livePods) # rest) =
     (case update_vpa env u st vpa livePods of
        None \<Rightarrow> None
      | Some done \<Rightarrow> map_option (\<lambda>ds. (vpa, done) # ds) (update_vpas env u st rest))"

definition updated_modes :: "'sel apiVpa list \<Rightarrow> 'sel apiVpa list" where
  "updated_modes vpaList =
     filter (\<lambda>vpa. \<not> (GetUpdateMode vpa \<noteq> UpdateModeRecreate \<and> GetUpdateMode vpa \<noteq> UpdateModeAuto)) vpaList"

definition control_pods :: "'sel updaterEnv \<Rightarrow> 'sel apiVpa list \<Rightarrow> vpaPod list \<Rightarrow> 'sel controlledPods" where
  "control_pods env vpas =
     foldl (\<lambda>m pod. case GetControllingVPAForPod (ue_as_selector env) pod vpas of
              None \<Rightarrow> m | Some vpa \<Rightarrow> mput vpa (mget0 [] m vpa @ [pod]) m) []"

text \<open>
  What the run evicted for each object, with the state of the admission; \<open>None\<close> if the process exits, because the
  objects cannot be listed, or panics.
\<close>

definition RunOnce ::
  "'sel updaterEnv \<Rightarrow> ('sel, 'a) updater \<Rightarrow> string + 'sel apiVpa list \<Rightarrow> string + vpaPod list \<Rightarrow> 'a \<Rightarrow>
     (('sel apiVpa \<times> vpaPod list) list \<times> 'a) option" where
  "RunOnce env u vpaLister podLister st =
     (case vpaLister of
        Inl _ \<Rightarrow> None
      | Inr vpaList \<Rightarrow>
          (let vpas = updated_modes vpaList
           in if vpas = [] then
                Some ([], case up_evictionAdmission u of None \<Rightarrow> st | Some a \<Rightarrow> pa_CleanUp a st)
              else
                (case podLister of
                   Inl _ \<Rightarrow> Some ([], st)
                 | Inr podsList \<Rightarrow>
                     (let allLivePods = filterDeletedPods podsList;
                          controlledPods = control_pods env vpas allLivePods;
                          st1 = (case up_evictionAdmission u of None \<Rightarrow> st | Some a \<Rightarrow> pa_LoopInit a allLivePods controlledPods st)
                      in map_option (\<lambda>evictions. (evictions, st1)) (update_vpas env u st1 controlledPods)))))"

section \<open>The pods an object controls\<close>

definition controlled_by :: "'sel updaterEnv \<Rightarrow> 'sel apiVpa list \<Rightarrow> vpaPod list \<Rightarrow> 'sel apiVpa \<Rightarrow> vpaPod list" where
  "controlled_by env vpas pods vpa = filter (\<lambda>pod. GetControllingVPAForPod (ue_as_selector env) pod vpas = Some vpa) pods"

lemma control_pods_spec:
  "gomap_ok (control_pods env vpas pods)"
  "mget (control_pods env vpas pods) vpa = (if controlled_by env vpas pods vpa = [] then None else Some (controlled_by env vpas pods vpa))"
proof (induction pods rule: rev_induct)
  case Nil
  { case 1 show ?case by (simp add: control_pods_def) }
  { case 2 show ?case by (simp add: control_pods_def controlled_by_def) }
next
  case (snoc pod pods)
  have step: "control_pods env vpas (pods @ [pod]) =
      (case GetControllingVPAForPod (ue_as_selector env) pod vpas of
         None \<Rightarrow> control_pods env vpas pods
       | Some v \<Rightarrow> mput v (mget0 [] (control_pods env vpas pods) v @ [pod]) (control_pods env vpas pods))"
    unfolding control_pods_def by simp
  { case 1 show ?case using snoc(1) by (simp add: step split: option.split) }
  { case 2 show ?case using snoc(2)
      by (cases "GetControllingVPAForPod (ue_as_selector env) pod vpas") (auto simp: step controlled_by_def mget0_def) }
qed

lemma control_pods_entries:
  "(vpa, pods') \<in> set (control_pods env vpas pods) \<longleftrightarrow> pods' = controlled_by env vpas pods vpa \<and> pods' \<noteq> []"
  using control_pods_spec [of env vpas pods] by (auto simp flip: mget_eq_Some_iff split: if_splits)

lemma update_vpas_spec:
  assumes "update_vpas env u st m = Some evictions"
  shows "(\<forall>(vpa, done)\<in>set evictions. \<exists>pods. (vpa, pods) \<in> set m \<and> update_vpa env u st vpa pods = Some done) \<and>
    (\<forall>(vpa, pods)\<in>set m. \<exists>done. (vpa, done) \<in> set evictions \<and> update_vpa env u st vpa pods = Some done)"
  using assms by (induction m arbitrary: evictions) (fastforce split: option.splits)+

text \<open>The run on its lists.\<close>

lemma RunOnce_evictions:
  assumes "RunOnce env u (Inr vpaList) (Inr podsList) st = Some (evictions, st')"
  shows "(vpa, done) \<in> set evictions \<longleftrightarrow>
    (controlled_by env (updated_modes vpaList) (filterDeletedPods podsList) vpa \<noteq> [] \<and>
     update_vpa env u st' vpa (controlled_by env (updated_modes vpaList) (filterDeletedPods podsList) vpa) = Some done)"
proof (cases "updated_modes vpaList = []")
  case True
  then show ?thesis using assms by (simp add: RunOnce_def controlled_by_def GetControllingVPAForPod_def)
next
  case False
  then have "update_vpas env u st' (control_pods env (updated_modes vpaList) (filterDeletedPods podsList)) = Some evictions"
    using assms by (auto simp: RunOnce_def Let_def)
  note sp = update_vpas_spec [OF this]
  show ?thesis
  proof
    assume "(vpa, done) \<in> set evictions"
    then obtain pods where "(vpa, pods) \<in> set (control_pods env (updated_modes vpaList) (filterDeletedPods podsList))"
      "update_vpa env u st' vpa pods = Some done" using sp by blast
    then show "controlled_by env (updated_modes vpaList) (filterDeletedPods podsList) vpa \<noteq> [] \<and>
        update_vpa env u st' vpa (controlled_by env (updated_modes vpaList) (filterDeletedPods podsList) vpa) = Some done"
      by (auto simp: control_pods_entries)
  next
    let ?pods = "controlled_by env (updated_modes vpaList) (filterDeletedPods podsList) vpa"
    assume pods: "?pods \<noteq> [] \<and> update_vpa env u st' vpa ?pods = Some done"
    then have "(vpa, ?pods) \<in> set (control_pods env (updated_modes vpaList) (filterDeletedPods podsList))"
      by (simp add: control_pods_entries)
    then obtain done' where "(vpa, done') \<in> set evictions" "update_vpa env u st' vpa ?pods = Some done'" using sp by blast
    then show "(vpa, done) \<in> set evictions" using pods by simp
  qed
qed

section \<open>What is evicted\<close>

lemma evict_pods_eq: "evict_pods api e pods = evict_all api e pods"
proof (induction pods arbitrary: e)
  case (Cons pod pods)
  show ?case
  proof (cases "CanEvict e pod")
    case False
    then have "\<exists>err. Evict api pod e = (Some err, False, e)" by (auto simp: Evict_def split: option.split)
    then show ?thesis using False Cons by (auto split: prod.splits)
  qed (simp add: Cons)
qed simp

text \<open>The priorities of the pods that are accepted.\<close>

definition vpa_priority :: "'sel updaterEnv \<Rightarrow> ('sel, 'a) updater \<Rightarrow> 'sel apiVpa \<Rightarrow> vpaPod \<Rightarrow> podPriority option" where
  "vpa_priority env u vpa pod =
     accepted_priority (ue_evictAfterOOMThreshold env) (vpa_calculator u vpa) pod (va_Recommendation vpa) (ue_now env pod)"

lemma accepted_priority_pods: "accepted_priority t (calc\<lparr>uc_pods := ps\<rparr>) pod r now = accepted_priority t calc pod r now"
proof -
  have "uc_recommendationProcessor (calc\<lparr>uc_pods := ps\<rparr>) = uc_recommendationProcessor calc"
    "uc_resourcesPolicy (calc\<lparr>uc_pods := ps\<rparr>) = uc_resourcesPolicy calc"
    "uc_conditions (calc\<lparr>uc_pods := ps\<rparr>) = uc_conditions calc"
    "uc_MinChangePriority (calc\<lparr>uc_pods := ps\<rparr>) = uc_MinChangePriority calc" by simp_all
  then show ?thesis unfolding accepted_priority_def by (simp only:)
qed

lemma add_pods_spec:
  "add_pods env vpa (vpa_calculator u vpa) pods = (vpa_calculator u vpa)\<lparr>uc_pods := List.map_filter (vpa_priority env u vpa) pods\<rparr>"
proof (induction pods rule: rev_induct)
  case Nil
  show ?case by (simp add: add_pods_def vpa_calculator_def NewUpdatePriorityCalculator_def List.map_filter_def)
next
  case (snoc pod pods)
  have "add_pods env vpa (vpa_calculator u vpa) (pods @ [pod]) =
      AddPod (ue_evictAfterOOMThreshold env) pod (va_Recommendation vpa) (ue_now env pod) (add_pods env vpa (vpa_calculator u vpa) pods)"
    by (simp add: add_pods_def)
  then show ?case unfolding snoc
    by (cases "vpa_priority env u vpa pod")
      (simp_all add: AddPod_def accepted_priority_pods List.map_filter_def vpa_priority_def)
qed

lemma accepted_pod: "vpa_priority env u vpa pod = Some p \<Longrightarrow> pr_pod p = pod"
  by (auto simp: vpa_priority_def accepted_priority_def Let_def getUpdatePriority_def split: sum.splits option.splits if_splits)

definition admitted :: "('sel, 'a) updater \<Rightarrow> 'a \<Rightarrow> podPriority \<Rightarrow> bool" where
  "admitted u st p \<longleftrightarrow> (case up_evictionAdmission u of None \<Rightarrow> True | Some a \<Rightarrow> pa_Admit a (pr_pod p) (pr_recommendation p) st)"

lemma getPodsUpdateOrder_spec:
  "getPodsUpdateOrder env u st pods vpa =
     map pr_pod (filter (admitted u st) (ue_sort env (List.map_filter (vpa_priority env u vpa) pods)))"
  by (simp add: getPodsUpdateOrder_def GetSortedPods_def add_pods_spec admission_of_def admitted_def [abs_def] option.case_eq_if
      option.map_sel cong: filter_cong)

text \<open>A relative difference is a number, because the sums are \<open>int64\<close> and the request at least one.\<close>


definition totals_ok :: "priorityTotals \<Rightarrow> bool" where
  "totals_ok t \<longleftrightarrow> (\<forall>e\<in>set (to_recommended t) \<union> set (to_request t). in_i64 (snd e))"

lemma totals_ok_resource: "totals_ok t \<Longrightarrow> totals_ok (total_resource container rec t e)"
  by (cases e) (auto simp: totals_ok_def total_resource_def Let_def dest!: mput_entries intro: i64_range split: option.splits)

lemma totals_ok_container: "totals_ok t \<Longrightarrow> totals_ok (total_container recommendation t container)"
proof -
  have "totals_ok t \<Longrightarrow> totals_ok (foldl (total_resource container rec) t es)" for rec es
    by (induction es arbitrary: t) (simp_all add: totals_ok_resource)
  then show "totals_ok t \<Longrightarrow> ?thesis" by (simp add: total_container_def split: option.split)
qed

lemma totals_ok_pod: "totals_ok (pod_totals pod recommendation)"
proof -
  have "totals_ok t \<Longrightarrow> totals_ok (foldl (total_container recommendation) t cs)" for t cs
    by (induction cs arbitrary: t) (simp_all add: totals_ok_container)
  moreover have "totals_ok \<lparr>to_outside = False, to_scaleUp = False, to_request = [], to_recommended = []\<rparr>" by (simp add: totals_ok_def)
  ultimately show ?thesis by (simp add: pod_totals_def)
qed

lemma fnonneg_fabs: "a \<noteq> NaN \<Longrightarrow> fnonneg (fabs a)"
  by (cases a) (simp_all add: fnonneg_def)

lemma fnonneg_quotient: "fnonneg a \<Longrightarrow> 1 \<le> x \<Longrightarrow> fnonneg (fdiv a (Fin x))"
proof (cases a)
  case (Fin y)
  assume "fnonneg a" "1 \<le> x"
  then have "0 \<le> y / x" "x \<noteq> 0" using Fin by (auto simp: fnonneg_def)
  then show ?thesis using Fin by (simp add: fnonneg_mkf)
qed (auto simp: fnonneg_def finf_def)

lemma request_at_least_one: "in_i64 n \<Longrightarrow> \<exists>x\<ge>1. fmax (f_of_int n) (Fin 1) = Fin x"
proof -
  assume "in_i64 n"
  then have "\<bar>n\<bar> \<le> 2 ^ 63" by (simp add: in_i64_def minInt64_def maxInt64_def abs_le_iff)
  then obtain y where "f_of_int n = Fin y" by (rule f_of_int_i64)
  then show ?thesis by (auto simp: fmax_def)
qed

lemma resource_diff_nonneg:
  assumes "totals_ok t"
  shows "fnonneg (resource_diff t)"
proof -
  have "fnonneg d \<Longrightarrow> fnonneg (foldl (\<lambda>diff (r, totalRecommended).
      let totalRequest = fmax (f_of_int (mget0 0 (to_request t) r)) (Fin 1)
      in fadd diff (fdiv (fabs (fsub totalRequest (f_of_int totalRecommended))) totalRequest)) d es)" for d es
  proof (induction es arbitrary: d)
    case (Cons e es)
    obtain r n where e: "e = (r, n)" by force
    have "in_i64 (mget0 0 (to_request t) r)"
    proof (cases "mget (to_request t) r")
      case (Some n)
      from mget_SomeD [OF this] assms have "in_i64 (snd (r, n))" unfolding totals_ok_def by blast
      then show ?thesis using Some by (simp add: mget0_def)
    qed (simp add: mget0_def)
    then obtain x where x: "1 \<le> x" "fmax (f_of_int (mget0 0 (to_request t) r)) (Fin 1) = Fin x" using request_at_least_one by blast
    have "fsub (Fin x) (f_of_int n) \<noteq> NaN" by (cases "f_of_int n") (auto simp: fsub_def f_of_int_def)
    then have "fnonneg (fdiv (fabs (fsub (Fin x) (f_of_int n))) (Fin x))" by (intro fnonneg_quotient fnonneg_fabs x)
    then have "fnonneg (fadd d (fdiv (fabs (fsub (Fin x) (f_of_int n))) (Fin x)))" by (rule fnonneg_fadd [OF Cons.prems])
    from Cons.IH [OF this] show ?case by (simp add: e Let_def x(2))
  qed simp
  moreover have "fnonneg (Fin 0)" by (simp add: fnonneg_def)
  ultimately show ?thesis unfolding resource_diff_def by blast
qed

lemma accepted_diff: "vpa_priority env u vpa pod = Some p \<Longrightarrow> pr_resourceDiff p \<noteq> NaN"
  using fnonneg_not_NaN [OF resource_diff_nonneg [OF totals_ok_pod]]
  by (auto simp: vpa_priority_def accepted_priority_def Let_def getUpdatePriority_def split: sum.splits option.splits if_splits)

section \<open>The pods for update\<close>

lemma set_map_filter: "x \<in> set (List.map_filter f xs) \<longleftrightarrow> (\<exists>y\<in>set xs. f y = Some x)"
  by (force simp: List.map_filter_def)

text \<open>The candidates of an object: the evictable pods that are accepted and admitted.\<close>

definition candidate :: "'sel updaterEnv \<Rightarrow> ('sel, 'a) updater \<Rightarrow> 'a \<Rightarrow> 'sel apiVpa \<Rightarrow> vpaPod list \<Rightarrow> podsEvictionRestriction \<Rightarrow> vpaPod \<Rightarrow> podPriority \<Rightarrow> bool" where
  "candidate env u st vpa pods e pod p \<longleftrightarrow>
     pod \<in> set pods \<and> CanEvict e pod \<and> vpa_priority env u vpa pod = Some p \<and> admitted u st p"

lemma update_order_members:
  assumes "priority_sort (ue_sort env)"
  shows "pod \<in> set (getPodsUpdateOrder env u st (filterNonEvictablePods pods e) vpa) \<longleftrightarrow> (\<exists>p. candidate env u st vpa pods e pod p)"
  by (auto simp: getPodsUpdateOrder_spec priority_sort.set_srt [OF assms] set_map_filter filterNonEvictablePods_def candidate_def
      dest: accepted_pod intro!: rev_image_eqI)

lemma update_order_first:
  assumes "priority_sort (ue_sort env)" "candidate env u st vpa pods e pod p"
  shows "\<exists>q rest pq. getPodsUpdateOrder env u st (filterNonEvictablePods pods e) vpa = q # rest \<and> candidate env u st vpa pods e q pq \<and>
    (\<forall>pod' p'. candidate env u st vpa pods e pod' p' \<longrightarrow> \<not> priority_less p' pq)"
proof -
  let ?xs = "List.map_filter (vpa_priority env u vpa) (filterNonEvictablePods pods e)"
  let ?ys = "filter (admitted u st) (ue_sort env ?xs)"
  have members: "p' \<in> set ?ys \<longleftrightarrow> candidate env u st vpa pods e (pr_pod p') p'" for p'
    by (auto simp: priority_sort.set_srt [OF assms(1)] set_map_filter filterNonEvictablePods_def candidate_def dest: accepted_pod)
  have self: "candidate env u st vpa pods e pod' p' \<Longrightarrow> pr_pod p' = pod'" for pod' p'
    by (auto simp: candidate_def dest: accepted_pod)
  have "\<forall>p'\<in>set ?xs. pr_resourceDiff p' \<noteq> NaN" by (auto simp: set_map_filter dest: accepted_diff)
  then have "sorted_wrt (\<lambda>a b. \<not> priority_less b a) ?ys" by (intro sorted_wrt_filter priority_sort.srt_sorted [OF assms(1)])
  moreover obtain pq ps where ys: "?ys = pq # ps"
    using assms(2) self [OF assms(2)] members [of p] by (cases ?ys) auto
  moreover have "\<not> priority_less pq pq" by (auto simp: priority_less_def flt_def)
  ultimately have best: "\<not> priority_less p' pq" if "p' \<in> set ?ys" for p' using that by auto
  have "candidate env u st vpa pods e (pr_pod pq) pq" using members [of pq] ys by simp
  moreover have "\<not> priority_less p' pq" if "candidate env u st vpa pods e pod' p'" for pod' p'
    using best [of p'] members [of p'] self [OF that] that by simp
  ultimately show ?thesis using ys by (auto simp: getPodsUpdateOrder_spec)
qed

section \<open>A run of the updater\<close>

text \<open>The pods for update are pods of the object, each once.\<close>

lemma mset_map_filter_pods: "map pr_pod (List.map_filter (vpa_priority env u vpa) pods) = filter (\<lambda>pod. vpa_priority env u vpa pod \<noteq> None) pods"
  by (induction pods) (auto simp: List.map_filter_def dest: accepted_pod)

lemma distinct_update_order:
  assumes "priority_sort (ue_sort env)" "distinct pods"
  shows "distinct (getPodsUpdateOrder env u st (filterNonEvictablePods pods e) vpa)"
proof -
  let ?ps = "List.map_filter (vpa_priority env u vpa) (filterNonEvictablePods pods e)"
  have "distinct (map pr_pod ?ps)" using assms(2) by (simp add: mset_map_filter_pods filterNonEvictablePods_def)
  moreover have "mset (map pr_pod (ue_sort env ?ps)) = mset (map pr_pod ?ps)"
    by (simp only: mset_map priority_sort.srt_perm [OF assms(1)])
  ultimately have "distinct (map pr_pod (ue_sort env ?ps))" by (metis mset_eq_imp_distinct_iff)
  then show ?thesis by (simp add: getPodsUpdateOrder_spec distinct_map_filter)
qed

lemma distinct_evict_all: "evict_all api e pods = (done, e') \<Longrightarrow> distinct pods \<Longrightarrow> distinct done"
proof (induction pods arbitrary: e "done")
  case (Cons p pods)
  obtain err evicted e1 where ev: "Evict api p e = (err, evicted, e1)" by (cases "Evict api p e") auto
  obtain done1 where rest: "evict_all api e1 pods = (done1, e')" "done = (if evicted then p # done1 else done1)"
    using Cons.prems(1) ev by (auto split: prod.splits)
  show ?case using Cons.IH [OF rest(1)] Cons.prems(2) rest(2) evict_all_members [OF rest(1), of p] by auto
qed simp

text \<open>The running pods among those evicted whose controller is the given one.\<close>

definition evicted_running :: "podReplicaCreator \<Rightarrow> vpaPod list \<Rightarrow> int" where
  "evicted_running cr done = int (length (filter (\<lambda>pod. getPodReplicaCreator pod = Some cr \<and> vp_Phase pod \<noteq> PodPending) done))"

text \<open>
  C20: A run, whose list names each pod once, evicts a pod at most once, and only if it is listed, is not being deleted,
  is accepted for update and is admitted; and it does so for the object in mode Recreate or Auto that was created first
  of those matching the pod.  Of the pods an object controls that have the same replication controller, replica set,
  stateful set or job, no more running ones are evicted than the budget of this group: the running ones in excess of the
  configured replicas less the tolerated fraction of them, or one if all replicas run and the tolerance is zero, and
  none if the group is too small or the configured number is not known.
\<close>

theorem updater_evicts_only:
  assumes "RunOnce env u (Inr vpaList) (Inr podsList) st = Some (evictions, st')" "priority_sort (ue_sort env)"
    and "distinct (map getPodID podsList)" "(vpa, done) \<in> set evictions"
  shows "distinct done \<and>
    (\<forall>pod\<in>set done. pod \<in> set podsList \<and> vp_DeletionTimestamp pod = None \<and>
       GetUpdateMode vpa \<in> {UpdateModeRecreate, UpdateModeAuto} \<and>
       first_created (filter (PodMatchesVPA (ue_as_selector env) pod) (updated_modes vpaList)) = Some vpa \<and>
       (\<exists>p. vpa_priority env u vpa pod = Some p \<and> admitted u st' p)) \<and>
    (\<forall>cr. replicating cr \<longrightarrow> evicted_running cr done \<le>
       group_budget (ue_informers env) (up_minReplicas u) (up_evictionToleranceFraction u) cr
         (pods_of (controlled_by env (updated_modes vpaList) (filterDeletedPods podsList) vpa) cr))"
proof -
  let ?vpas = "updated_modes vpaList" and ?pods = "controlled_by env (updated_modes vpaList) (filterDeletedPods podsList) vpa"
  have "update_vpa env u st' vpa ?pods = Some done" using RunOnce_evictions [OF assms(1)] assms(4) by blast
  then obtain e where "NewPodsEvictionRestriction (ue_informers env) (up_minReplicas u) (up_evictionToleranceFraction u) ?pods = Some e"
    "fst (evict_all (ue_evict env) e (getPodsUpdateOrder env u st' (filterNonEvictablePods ?pods e) vpa)) = done"
    by (auto simp: update_vpa_def evict_pods_eq)
  then obtain e' where e: "NewPodsEvictionRestriction (ue_informers env) (up_minReplicas u) (up_evictionToleranceFraction u) ?pods = Some e"
    "evict_all (ue_evict env) e (getPodsUpdateOrder env u st' (filterNonEvictablePods ?pods e) vpa) = (done, e')"
    by (metis prod.collapse)
  have ids: "distinct (map getPodID ?pods)"
    using assms(3) by (simp add: controlled_by_def filterDeletedPods_def distinct_map_filter)
  have member: "\<exists>p. candidate env u st' vpa ?pods e pod p" if "pod \<in> set done" for pod
    using evict_all_within_budget(2) [OF e that] by (simp add: update_order_members [OF assms(2)])
  have "creator_of e pod = getPodReplicaCreator pod" if "pod \<in> set done" for pod
    using evict_all_within_budget(3) [OF e that] creator_of_listed [OF e(1) ids] member [OF that] by (auto simp: candidate_def)
  then have "evicted_running cr done = running_evictions e cr done" for cr
    by (auto simp: evicted_running_def running_evictions_def intro!: arg_cong [of _ _ length] filter_cong)
  then have budget: "evicted_running cr done \<le> group_budget (ue_informers env) (up_minReplicas u) (up_evictionToleranceFraction u) cr (pods_of ?pods cr)" for cr
    using evict_all_within_budget(1) [OF e] by simp
  have "pod \<in> set podsList \<and> vp_DeletionTimestamp pod = None \<and> GetUpdateMode vpa \<in> {UpdateModeRecreate, UpdateModeAuto} \<and>
      first_created (filter (PodMatchesVPA (ue_as_selector env) pod) ?vpas) = Some vpa \<and>
      (\<exists>p. vpa_priority env u vpa pod = Some p \<and> admitted u st' p)" if "pod \<in> set done" for pod
  proof -
    from member [OF that] obtain p where p: "candidate env u st' vpa ?pods e pod p" by blast
    then have c: "GetControllingVPAForPod (ue_as_selector env) pod ?vpas = Some vpa" "pod \<in> set podsList" "vp_DeletionTimestamp pod = None"
      by (auto simp: candidate_def controlled_by_def filterDeletedPods_def)
    then have "vpa \<in> set ?vpas" by (auto simp: controlling_vpa dest: first_created_member)
    then have "GetUpdateMode vpa \<in> {UpdateModeRecreate, UpdateModeAuto}" by (auto simp: updated_modes_def)
    then show ?thesis using c p by (auto simp: controlling_vpa candidate_def)
  qed
  moreover have "distinct done"
    by (rule distinct_evict_all [OF e(2) distinct_update_order [OF assms(2)]]) (use ids in \<open>simp add: distinct_map\<close>)
  ultimately show ?thesis using budget by blast
qed

text \<open>
  C21: A run makes progress: when no call of the eviction API fails and an object has a pod that may be evicted, is
  accepted and admitted, the run evicts one for it, and the first it evicts is one before which no other such pod
  comes in the order of priorities.
\<close>

theorem updater_evicts_most_urgent:
  assumes "RunOnce env u (Inr vpaList) (Inr podsList) st = Some (evictions, st')" "priority_sort (ue_sort env)"
    and "\<forall>q. ue_evict env q = None"
    and "NewPodsEvictionRestriction (ue_informers env) (up_minReplicas u) (up_evictionToleranceFraction u)
      (controlled_by env (updated_modes vpaList) (filterDeletedPods podsList) vpa) = Some e"
    and "candidate env u st' vpa (controlled_by env (updated_modes vpaList) (filterDeletedPods podsList) vpa) e pod p"
  shows "\<exists>q rest pq. (vpa, q # rest) \<in> set evictions \<and> vpa_priority env u vpa q = Some pq \<and> \<not> priority_less p pq \<and>
    (\<forall>pod' p'. candidate env u st' vpa (controlled_by env (updated_modes vpaList) (filterDeletedPods podsList) vpa) e pod' p' \<longrightarrow>
       \<not> priority_less p' pq)"
proof -
  let ?pods = "controlled_by env (updated_modes vpaList) (filterDeletedPods podsList) vpa"
  obtain q rest pq where q: "getPodsUpdateOrder env u st' (filterNonEvictablePods ?pods e) vpa = q # rest" "candidate env u st' vpa ?pods e q pq"
    "\<forall>pod' p'. candidate env u st' vpa ?pods e pod' p' \<longrightarrow> \<not> priority_less p' pq"
    using update_order_first [OF assms(2,5)] by blast
  have can: "CanEvict e q" using q(2) by (simp add: candidate_def)
  then obtain err e1 where "Evict (ue_evict env) q e = (err, True, e1)"
    using assms(3) by (auto simp: Evict_def CanEvict_def split: option.splits if_splits)
  then have "\<exists>rest'. fst (evict_pods (ue_evict env) e (q # rest)) = q # rest'"
    using can by (cases "evict_pods (ue_evict env) e1 rest") simp
  then obtain rest' where "fst (evict_pods (ue_evict env) e (q # rest)) = q # rest'" by blast
  then have "update_vpa env u st' vpa ?pods = Some (q # rest')" using assms(4) q(1) by (simp add: update_vpa_def)
  moreover have "?pods \<noteq> []" using q(2) by (auto simp: candidate_def)
  ultimately have "(vpa, q # rest') \<in> set evictions" using RunOnce_evictions [OF assms(1)] by blast
  then show ?thesis using q assms(5) by (auto simp: candidate_def)
qed

section \<open>Three replicas\<close>

text \<open>The second of three replicas has a container without a request; all were killed for memory soon after their start.\<close>

definition demo_update_pod :: "string \<Rightarrow> vpaContainer list \<Rightarrow> vpaPod" where
  "demo_update_pod name containers =
     (demo_vpa_pod name [\<lparr>or_Kind = ''ReplicaSet'', or_Name = ''rs'', or_Controller = Some True\<rparr>])
       \<lparr>vp_Containers := containers, vp_LastTerminated := [Some \<lparr>ts_Reason = ''OOMKilled'', ts_StartedAt = 0, ts_FinishedAt = 5\<rparr>]\<rparr>"

definition demo_update_pods :: "vpaPod list" where
  "demo_update_pods = [demo_update_pod ''a'' [],
     demo_update_pod ''b'' [\<lparr>vn_Name = ''main'', vn_Requests = [], vn_Limits = []\<rparr>], demo_update_pod ''c'' []]"

definition demo_recommendation :: recommendedPodResources where
  "demo_recommendation = \<lparr>rp_ContainerRecommendations =
     [\<lparr>re_ContainerName = ''main'', re_Target = [(''cpu'', 1 / 500)], re_LowerBound = [], re_UpperBound = [], re_UncappedTarget = []\<rparr>]\<rparr>"

definition demo_vpa :: "unit apiVpa" where
  "demo_vpa = \<lparr>va_Namespace = ''ns'', va_Name = ''vpa'', va_CreationTimestamp = 1, va_Selector = (), va_UpdatePolicy = None,
     va_ResourcePolicy = None, va_Recommendation = Some demo_recommendation, va_Conditions = []\<rparr>"

definition demo_updater_env :: "unit updaterEnv" where
  "demo_updater_env = \<lparr>ue_as_selector = (\<lambda>_. Inr ('''', \<lambda>_. True)), ue_informers = demo_informers, ue_evict = (\<lambda>_. None),
     ue_now = (\<lambda>_. 7), ue_sort = sort_priorities, ue_evictAfterOOMThreshold = 600\<rparr>"

definition demo_updater :: "(unit, unit) updater" where
  "demo_updater = \<lparr>up_minReplicas = 2, up_evictionToleranceFraction = Fin (1 / 4),
     up_recommendationProcessor = (\<lambda>r _ _ _. Inr (r, [])),
     up_evictionAdmission = Some (NewSequentialPodEvictionAdmission [NewDefaultPodEvictionAdmission])\<rparr>"

lemmas demo_pod_defs = demo_update_pods_def demo_update_pod_def demo_vpa_pod_def

lemma demo_controlled: "controlled_by demo_updater_env [demo_vpa] demo_update_pods demo_vpa = demo_update_pods"
  by (simp add: controlled_by_def demo_pod_defs GetControllingVPAForPod_def PodMatchesVPA_def demo_updater_env_def demo_vpa_def stronger_def)

lemma demo_updated_modes: "updated_modes [demo_vpa] = [demo_vpa]"
  by (simp add: updated_modes_def demo_vpa_def GetUpdateMode_def UpdateModeAuto_def UpdateModeRecreate_def)

lemma demo_live: "filterDeletedPods demo_update_pods = demo_update_pods"
  by (simp add: filterDeletedPods_def demo_pod_defs)

lemma demo_update_restriction:
  "NewPodsEvictionRestriction demo_informers 2 (Fin (1 / 4)) demo_update_pods = Some demo_restriction"
proof -
  have "\<lfloor>3 / 4 :: rat\<rfloor> = 0" by (simp add: floor_eq_iff)
  then have "f_int (fmul (f_of_int 3) (Fin (1 / 4))) = 0"
    by (simp add: f_of_int_def mkf_dyadic f_int_def in_i64_def minInt64_def maxInt64_def)
  then show ?thesis
    by (simp add: NewPodsEvictionRestriction_def group_pods_def demo_pod_defs getPodReplicaCreator_def mput_def
        mget0_def add_group_def configured_replicas_def getReplicaCount_def demo_informers_def replicaSet_def job_def
        replicationController_def statefulSet_def group_stats_def pending_pods_def PodPending_def demo_restriction_def getPodID_def)
qed

definition demo_priority :: "vpaPod \<Rightarrow> bool \<Rightarrow> podPriority" where
  "demo_priority pod grows = \<lparr>pr_pod = pod, pr_outsideRecommendedRange = grows, pr_scaleUp = grows,
     pr_resourceDiff = Fin (if grows then 1 else 0), pr_recommendation = Some demo_recommendation\<rparr>"

lemma demo_priorities:
  "map (vpa_priority demo_updater_env demo_updater demo_vpa) demo_update_pods =
     map Some (map (\<lambda>i. demo_priority (demo_update_pods ! i) (i = 1)) [0, 1, 2])"
proof -
  have m: "MilliValue (1 / 500) = 2" by (simp add: MilliValue_def)
  have f: "f_of_int 0 = Fin 0" "f_of_int 2 = Fin 2" using f_of_int_exact [of 0] f_of_int_exact [of 2] by simp_all
  have neg: "mkf (- 1) = Fin (- 1)" using f_of_int_exact [of "- 1"] by (simp add: f_of_int_def)
  show ?thesis
    by (simp add: vpa_priority_def accepted_priority_def demo_updater_env_def demo_updater_def vpa_calculator_def
        NewUpdatePriorityCalculator_def demo_vpa_def demo_pod_defs quick_oom_def time_sub_def minInt64_def maxInt64_def
        getUpdatePriority_def pod_totals_def total_container_def GetRecommendationForContainer_def demo_recommendation_def
        demo_priority_def total_resource_def Let_def mput_def mget0_def m resource_diff_def f fmax_def fsub_def mkf_dyadic
        i64_id in_i64_def neg)
qed


text \<open>All three are candidates; the one that grows comes first, and the budget allows only one.\<close>

lemma demo_map_filter:
  "List.map_filter (vpa_priority demo_updater_env demo_updater demo_vpa) demo_update_pods =
     map (\<lambda>i. demo_priority (demo_update_pods ! i) (i = 1)) [0, 1, 2]"
proof -
  have "List.map_filter f xs = map the (filter (\<lambda>x. x \<noteq> None) (map f xs))" for f :: "vpaPod \<Rightarrow> podPriority option" and xs
    by (induction xs) (simp_all add: List.map_filter_def)
  then show ?thesis by (simp add: demo_priorities)
qed

lemma demo_can_evict: "pod \<in> set demo_update_pods \<Longrightarrow> CanEvict demo_restriction pod"
  by (auto simp: demo_pod_defs CanEvict_def demo_restriction_def getPodID_def PodPending_def may_evict_def)

lemma demo_admitted: "admitted demo_updater () p"
  by (simp add: admitted_def demo_updater_def NewSequentialPodEvictionAdmission_def NewDefaultPodEvictionAdmission_def)

lemma demo_sorted:
  "ue_sort demo_updater_env (map (\<lambda>i. demo_priority (demo_update_pods ! i) (i = 1)) [0, 1, 2]) =
     [demo_priority (demo_update_pods ! 1) True, demo_priority (demo_update_pods ! 2) False, demo_priority (demo_update_pods ! 0) False]"
  by (simp add: demo_updater_env_def sort_priorities_def demo_priority_def less_eq_prod_def less_prod_def less_eq_f64_def less_f64_def)

lemma demo_order:
  "getPodsUpdateOrder demo_updater_env demo_updater () demo_update_pods demo_vpa = map ((!) demo_update_pods) [1, 2, 0]"
  unfolding getPodsUpdateOrder_spec demo_map_filter demo_sorted by (simp add: demo_admitted) (simp add: demo_priority_def)

lemma demo_updated: "update_vpa demo_updater_env demo_updater () demo_vpa demo_update_pods = Some [demo_update_pods ! 1]"
proof -
  have "filterNonEvictablePods demo_update_pods demo_restriction = demo_update_pods"
    by (simp add: filterNonEvictablePods_def demo_can_evict filter_id_conv)
  moreover have "fst (evict_pods (\<lambda>_. None) demo_restriction (map ((!) demo_update_pods) [1, 2, 0])) = [demo_update_pods ! 1]"
    by (simp add: demo_pod_defs CanEvict_def Evict_def demo_restriction_def getPodID_def PodPending_def may_evict_def mput_def)
  moreover have "ue_informers demo_updater_env = demo_informers" "ue_evict demo_updater_env = (\<lambda>_. None)"
    "up_minReplicas demo_updater = 2" "up_evictionToleranceFraction demo_updater = Fin (1 / 4)"
    by (simp_all add: demo_updater_env_def demo_updater_def)
  ultimately show ?thesis unfolding update_vpa_def by (simp only: demo_update_restriction option.map demo_order)
qed

lemma demo_run: "RunOnce demo_updater_env demo_updater (Inr [demo_vpa]) (Inr demo_update_pods) () = Some ([(demo_vpa, [demo_update_pods ! 1])], ())"
proof -
  have "control_pods demo_updater_env [demo_vpa] demo_update_pods = [(demo_vpa, demo_update_pods)]"
    by (simp add: control_pods_def demo_pod_defs GetControllingVPAForPod_def PodMatchesVPA_def demo_updater_env_def demo_vpa_def
        stronger_def mput_def mget0_def)
  then show ?thesis by (simp add: RunOnce_def demo_updated_modes demo_live Let_def demo_updated)
qed

theorem updater_evicts_only_witness:
  "demo_update_pods ! 1 \<in> set demo_update_pods \<and> GetUpdateMode demo_vpa \<in> {UpdateModeRecreate, UpdateModeAuto} \<and>
   evicted_running \<lparr>rcr_Namespace = ''ns'', rcr_Name = ''rs'', rcr_Kind = ''ReplicaSet''\<rparr> [demo_update_pods ! 1] \<le>
     group_budget demo_informers 2 (Fin (1 / 4)) \<lparr>rcr_Namespace = ''ns'', rcr_Name = ''rs'', rcr_Kind = ''ReplicaSet''\<rparr>
       (pods_of demo_update_pods \<lparr>rcr_Namespace = ''ns'', rcr_Name = ''rs'', rcr_Kind = ''ReplicaSet''\<rparr>)"
proof -
  have srt: "priority_sort (ue_sort demo_updater_env)" using ps.priority_sort_axioms by (simp add: demo_updater_env_def)
  have ids: "distinct (map getPodID demo_update_pods)" by (simp add: demo_pod_defs getPodID_def)
  have env: "ue_informers demo_updater_env = demo_informers" "up_minReplicas demo_updater = 2"
    "up_evictionToleranceFraction demo_updater = Fin (1 / 4)" by (simp_all add: demo_updater_env_def demo_updater_def)
  have cr: "replicating \<lparr>rcr_Namespace = ''ns'', rcr_Name = ''rs'', rcr_Kind = ''ReplicaSet''\<rparr>"
    by (simp add: replicating_def replicaSet_def)
  from updater_evicts_only [OF demo_run srt ids, of demo_vpa "[demo_update_pods ! 1]"] cr show ?thesis
    by (simp add: demo_updated_modes demo_live demo_controlled env)
qed

theorem updater_evicts_most_urgent_witness:
  "\<exists>q rest pq. (demo_vpa, q # rest) \<in> set [(demo_vpa, [demo_update_pods ! 1])] \<and>
     vpa_priority demo_updater_env demo_updater demo_vpa q = Some pq \<and> \<not> priority_less (demo_priority (demo_update_pods ! 0) False) pq"
proof -
  have srt: "priority_sort (ue_sort demo_updater_env)" using ps.priority_sort_axioms by (simp add: demo_updater_env_def)
  have pods: "controlled_by demo_updater_env (updated_modes [demo_vpa]) (filterDeletedPods demo_update_pods) demo_vpa = demo_update_pods"
    by (simp add: demo_updated_modes demo_live demo_controlled)
  have "demo_update_pods ! 0 \<in> set demo_update_pods" by (simp add: demo_update_pods_def)
  moreover have "vpa_priority demo_updater_env demo_updater demo_vpa (demo_update_pods ! 0) = Some (demo_priority (demo_update_pods ! 0) False)"
    using demo_priorities by (simp add: demo_update_pods_def)
  ultimately have "candidate demo_updater_env demo_updater () demo_vpa demo_update_pods demo_restriction (demo_update_pods ! 0)
      (demo_priority (demo_update_pods ! 0) False)"
    by (simp add: candidate_def demo_can_evict demo_admitted)
  moreover have "NewPodsEvictionRestriction (ue_informers demo_updater_env) (up_minReplicas demo_updater)
      (up_evictionToleranceFraction demo_updater) demo_update_pods = Some demo_restriction"
    using demo_update_restriction by (simp add: demo_updater_env_def demo_updater_def)
  moreover have "\<forall>q. ue_evict demo_updater_env q = None" by (simp add: demo_updater_env_def)
  ultimately show ?thesis using updater_evicts_most_urgent [OF demo_run srt, where vpa = demo_vpa, unfolded pods] by blast
qed

end
