(* ===== verification/VpaAdmission.thy ===== *)
theory VpaAdmission
  imports VpaPriority
begin

text \<open>
  \<open>admission-controller/logic\<close>: the webhook that sets the requests of new pods (\<open>recommendation_provider.go\<close>,
  \<open>server.go\<close>) and validates autoscaler objects.  Decoding of JSON is a parameter; patches stay values, and what
  they do to a document is the specification, JSON Patch (RFC 6902).  A panic is \<open>None\<close>.
\<close>

section \<open>Pods, patches and reviews\<close>

datatype json =
    JNull
  | JBool bool
  | JNumber string
  | JString string
  | JArray "json list"
  | JObject "(string \<times> json) list"

text \<open>The maps of a decoded pod may be nil; a nil map reads as an empty one.\<close>

record admissionContainer =
  ac_Name :: string
  ac_Requests :: "resourceList option"
  ac_Limits :: "resourceList option"

record admissionPod =
  ap_Namespace :: string
  ap_Name :: string
  ap_GenerateName :: string
  ap_Labels :: labels
  ap_Annotations :: "labels option"
  ap_OwnerReferences :: "ownerReference list"
  ap_Containers :: "admissionContainer list"

definition nil_map :: "('k, 'v) gomap option \<Rightarrow> ('k, 'v) gomap" where
  "nil_map m = (case m of None \<Rightarrow> [] | Some m \<Rightarrow> m)"

definition container_view :: "admissionContainer \<Rightarrow> vpaContainer" where
  "container_view c = \<lparr>vn_Name = ac_Name c, vn_Requests = nil_map (ac_Requests c), vn_Limits = nil_map (ac_Limits c)\<rparr>"

text \<open>A pod under admission has no status yet.\<close>

definition pod_view :: "admissionPod \<Rightarrow> vpaPod" where
  "pod_view pod =
     \<lparr>vp_Namespace = ap_Namespace pod, vp_Name = ap_Name pod, vp_Labels = ap_Labels pod,
      vp_OwnerReferences = ap_OwnerReferences pod, vp_DeletionTimestamp = None,
      vp_Containers = map container_view (ap_Containers pod), vp_Phase = '''', vp_StartTime = None, vp_LastTerminated = []\<rparr>"

record patchRecord =
  pa_Op :: string
  pa_Path :: string
  pa_Value :: json

record 'raw admissionRequest =
  rq_Resource :: "string \<times> string \<times> string"
  rq_Object :: 'raw
  rq_Namespace :: string

record admissionResponse =
  ar_Allowed :: bool
  ar_Result :: "string option"
  ar_Patch :: "patchRecord list option"

datatype admissionStatus = AdmissionApplied | AdmissionSkipped | AdmissionError
datatype admissionResource = ResourceUnknown | ResourcePod | ResourceVpa

text \<open>
  The server: its provider of recommendations, its processor of pods, and what is outside the program, the lister of
  a namespace, the parsing of selectors, the decoding of JSON (a review may be without a request) and
  \<open>Quantity.String\<close>.
\<close>

record ('raw, 'sel) admissionServer =
  as_Selector :: "'sel vpa_selector"
  as_Lister :: "string \<Rightarrow> string + 'sel apiVpa list"
  as_RecommendationProcessor :: recommendationProcessor
  as_PodPreProcessor :: "admissionPod \<Rightarrow> string + admissionPod"
  as_ParseReview :: "'raw \<Rightarrow> string + 'raw admissionRequest option"
  as_ParsePod :: "'raw \<Rightarrow> string + admissionPod"
  as_ParseVPA :: "'raw \<Rightarrow> string + 'sel apiVpa"
  as_QuantityString :: "quantity \<Rightarrow> string"

section \<open>The recommendation for a pod\<close>

definition getContainersResources :: "admissionPod \<Rightarrow> recommendedPodResources \<Rightarrow> resourceList list" where
  "getContainersResources pod podRecommendation =
     map (\<lambda>c. case GetRecommendationForContainer (ac_Name c) (Some podRecommendation) of
                None \<Rightarrow> []
              | Some recommendation \<Rightarrow> re_Target recommendation) (ap_Containers pod)"

definition getMatchingVPA :: "('raw, 'sel) admissionServer \<Rightarrow> admissionPod \<Rightarrow> 'sel apiVpa option" where
  "getMatchingVPA srv pod =
     (case as_Lister srv (ap_Namespace pod) of
        Inl err \<Rightarrow> None
      | Inr configs \<Rightarrow>
          GetControllingVPAForPod (as_Selector srv) (pod_view pod) (filter (\<lambda>vpa. GetUpdateMode vpa \<noteq> UpdateModeOff) configs))"

definition GetContainersResourcesForPod ::
  "('raw, 'sel) admissionServer \<Rightarrow> admissionPod \<Rightarrow> (string + resourceList list \<times> containerAnnotations \<times> string) option" where
  "GetContainersResourcesForPod srv pod =
     (case getMatchingVPA srv pod of
        None \<Rightarrow> Some (Inr ([], [], ''''))
      | Some vpa \<Rightarrow>
          (case va_Recommendation vpa of
             None \<Rightarrow> Some (Inr (getContainersResources pod \<lparr>rp_ContainerRecommendations = []\<rparr>, [], va_Name vpa))
           | Some recommendation \<Rightarrow>
               (case as_RecommendationProcessor srv (Some recommendation) (va_ResourcePolicy vpa) (va_Conditions vpa) (pod_view pod) of
                  Inl err \<Rightarrow> Some (Inl err)
                | Inr (None, annotations) \<Rightarrow> None
                | Inr (Some r, annotations) \<Rightarrow> Some (Inr (getContainersResources pod r, annotations, va_Name vpa)))))"

section \<open>Patches for a pod\<close>

definition NoopPreProcessor :: "admissionPod \<Rightarrow> string + admissionPod" where
  "NoopPreProcessor pod = Inr pod"

fun join_strings :: "string \<Rightarrow> string list \<Rightarrow> string" where
  "join_strings sep [] = ''''"
| "join_strings sep [s] = s"
| "join_strings sep (s # ss) = s @ sep @ join_strings sep ss"

definition add_patch :: "string \<Rightarrow> json \<Rightarrow> patchRecord" where
  "add_patch path v = \<lparr>pa_Op = ''add'', pa_Path = path, pa_Value = v\<rparr>"

definition container_path :: "nat \<Rightarrow> string \<Rightarrow> string" where
  "container_path i rest = ''/spec/containers/'' @ itoa (int i) @ rest"

definition missing_patches :: "nat \<Rightarrow> admissionContainer \<Rightarrow> patchRecord list" where
  "missing_patches i c =
     (if ac_Limits c = None \<and> ac_Requests c = None then [add_patch (container_path i ''/resources'') (JObject [])] else [])
     @ (if ac_Requests c = None then [add_patch (container_path i ''/resources/requests'') (JObject [])] else [])"

definition request_patch :: "(quantity \<Rightarrow> string) \<Rightarrow> nat \<Rightarrow> string \<times> quantity \<Rightarrow> patchRecord" where
  "request_patch q_string i e =
     add_patch (container_path i (''/resources/requests/'' @ fst e)) (JString (q_string (snd e)))"

definition container_update :: "containerAnnotations \<Rightarrow> nat \<Rightarrow> admissionContainer \<Rightarrow> resourceList \<Rightarrow> string" where
  "container_update annotationsPerContainer i c requests =
     ''container '' @ itoa (int i) @ '': '' @
     join_strings '', '' (mget0 [] annotationsPerContainer (ac_Name c) @ map (\<lambda>e. fst e @ '' request'') requests)"

fun container_patches ::
  "(quantity \<Rightarrow> string) \<Rightarrow> admissionPod \<Rightarrow> containerAnnotations \<Rightarrow> nat \<Rightarrow> resourceList list \<Rightarrow> (patchRecord list \<times> string list) option" where
  "container_patches q_string pod annotations i [] = Some ([], [])"
| "container_patches q_string pod annotations i (requests # rs) =
     (if i < length (ap_Containers pod)
      then (case container_patches q_string pod annotations (Suc i) rs of
              None \<Rightarrow> None
            | Some (patches, updates) \<Rightarrow>
                (let c = ap_Containers pod ! i
                 in Some (missing_patches i c @ map (request_patch q_string i) requests @ patches,
                          container_update annotations i c requests # updates)))
      else None)"

definition annotation_patch :: "admissionPod \<Rightarrow> string \<Rightarrow> patchRecord" where
  "annotation_patch pod vpaAnnotationValue =
     (if ap_Annotations pod = None
      then add_patch ''/metadata/annotations'' (JObject [(''vpaUpdates'', JString vpaAnnotationValue)])
      else add_patch ''/metadata/annotations/vpaUpdates'' (JString vpaAnnotationValue))"

definition annotation_value :: "string \<Rightarrow> string list \<Rightarrow> string" where
  "annotation_value vpaName updates = ''Pod resources updated by '' @ vpaName @ '': '' @ join_strings ''; '' updates"

definition named_pod :: "string \<Rightarrow> admissionPod \<Rightarrow> admissionPod" where
  "named_pod namespace pod =
     (if ap_Name pod = '''' then pod\<lparr>ap_Name := ap_GenerateName pod @ ''%'', ap_Namespace := namespace\<rparr> else pod)"

definition getPatchesForPodResourceRequest ::
  "('raw, 'sel) admissionServer \<Rightarrow> 'raw \<Rightarrow> string \<Rightarrow> (string + patchRecord list) option" where
  "getPatchesForPodResourceRequest srv raw namespace =
     (case as_ParsePod srv raw of
        Inl err \<Rightarrow> Some (Inl err)
      | Inr parsed \<Rightarrow>
          (let pod = named_pod namespace parsed
           in case GetContainersResourcesForPod srv pod of
                None \<Rightarrow> None
              | Some (Inl err) \<Rightarrow> Some (Inl err)
              | Some (Inr (containersResources, annotations, vpaName)) \<Rightarrow>
                  (case as_PodPreProcessor srv pod of
                     Inl err \<Rightarrow> Some (Inl err)
                   | Inr pod \<Rightarrow>
                       (case container_patches (as_QuantityString srv) pod annotations 0 containersResources of
                          None \<Rightarrow> None
                        | Some (patches, updates) \<Rightarrow>
                            Some (Inr (if updates \<noteq> [] then patches @ [annotation_patch pod (annotation_value vpaName updates)]
                                       else patches))))))"

section \<open>Autoscaler objects\<close>

definition possibleUpdateModes :: "string list" where
  "possibleUpdateModes = [UpdateModeOff, UpdateModeInitial, UpdateModeRecreate, UpdateModeAuto]"

definition possibleScalingModes :: "string list" where
  "possibleScalingModes = [''Auto'', ''Off'']"

fun validate_min :: "resourceList \<Rightarrow> resourceList \<Rightarrow> string option" where
  "validate_min maxAllowed [] = None"
| "validate_min maxAllowed ((resource, mn) # rs) =
     (case mget maxAllowed resource of
        Some mx \<Rightarrow> if mx < mn then Some (''Max resource for '' @ resource @ '' is lower than min'') else validate_min maxAllowed rs
      | None \<Rightarrow> validate_min maxAllowed rs)"

fun validate_policies :: "containerResourcePolicy list \<Rightarrow> string option" where
  "validate_policies [] = None"
| "validate_policies (p # ps) =
     (if cp_ContainerName p = '''' then Some ''ContainerPolicies.ContainerName is required''
      else case cp_Mode p of
             Some mode \<Rightarrow>
               if mode \<notin> set possibleScalingModes then Some (''Unexpected Mode value '' @ mode)
               else (case validate_min (cp_MaxAllowed p) (cp_MinAllowed p) of Some err \<Rightarrow> Some err | None \<Rightarrow> validate_policies ps)
           | None \<Rightarrow> (case validate_min (cp_MaxAllowed p) (cp_MinAllowed p) of Some err \<Rightarrow> Some err | None \<Rightarrow> validate_policies ps))"

definition validate_resource_policy :: "'sel apiVpa \<Rightarrow> string option" where
  "validate_resource_policy vpa =
     (case va_ResourcePolicy vpa of None \<Rightarrow> None | Some p \<Rightarrow> validate_policies (pp_ContainerPolicies p))"

definition validateVPA :: "'sel apiVpa \<Rightarrow> string option" where
  "validateVPA vpa =
     (case va_UpdatePolicy vpa of
        Some None \<Rightarrow> Some ''UpdateMode is required if UpdatePolicy is used''
      | Some (Some mode) \<Rightarrow>
          if mode \<notin> set possibleUpdateModes then Some (''Unexpected UpdateMode value '' @ mode)
          else validate_resource_policy vpa
      | None \<Rightarrow> validate_resource_policy vpa)"

definition getPatchesForVPADefaults :: "('raw, 'sel) admissionServer \<Rightarrow> 'raw \<Rightarrow> string + patchRecord list" where
  "getPatchesForVPADefaults srv raw =
     (case as_ParseVPA srv raw of
        Inl err \<Rightarrow> Inl err
      | Inr vpa \<Rightarrow>
          (case validateVPA vpa of
             Some err \<Rightarrow> Inl err
           | None \<Rightarrow>
               Inr (if va_UpdatePolicy vpa = None
                    then [add_patch ''/spec/updatePolicy'' (JObject [(''updateMode'', JString UpdateModeAuto)])] else [])))"

section \<open>Reviews\<close>

definition podResource :: "string \<times> string \<times> string" where
  "podResource = ('''', ''v1'', ''pods'')"

definition vpaResource :: "string \<times> string \<times> string" where
  "vpaResource = (''autoscaling.k8s.io'', ''v1beta1'', ''verticalpodautoscalers'')"

definition finish_review :: "admissionResource \<Rightarrow> string + patchRecord list \<Rightarrow> admissionResponse \<Rightarrow> admissionResponse \<times> admissionStatus \<times> admissionResource" where
  "finish_review resource result response =
     (case result of
        Inl err \<Rightarrow> (response, AdmissionError, resource)
      | Inr patches \<Rightarrow>
          if patches \<noteq> [] then (response\<lparr>ar_Patch := Some patches\<rparr>, AdmissionApplied, resource)
          else (response, AdmissionSkipped, resource))"

definition admit :: "('raw, 'sel) admissionServer \<Rightarrow> 'raw \<Rightarrow> (admissionResponse \<times> admissionStatus \<times> admissionResource) option" where
  "admit srv data =
     (let response = \<lparr>ar_Allowed = True, ar_Result = None, ar_Patch = None\<rparr>
      in case as_ParseReview srv data of
           Inl err \<Rightarrow> Some (response, AdmissionError, ResourceUnknown)
         | Inr None \<Rightarrow> None
         | Inr (Some request) \<Rightarrow>
             if rq_Resource request = podResource
             then (case getPatchesForPodResourceRequest srv (rq_Object request) (rq_Namespace request) of
                     None \<Rightarrow> None
                   | Some result \<Rightarrow> Some (finish_review ResourcePod result response))
             else if rq_Resource request = vpaResource
             then (let result = getPatchesForVPADefaults srv (rq_Object request)
                   in Some (finish_review ResourceVpa result
                        (case result of Inl err \<Rightarrow> response\<lparr>ar_Result := Some err, ar_Allowed := False\<rparr> | Inr _ \<Rightarrow> response)))
             else Some (finish_review ResourceUnknown (Inl ''unexpected resource'') response))"

text \<open>The review that is written, if any.\<close>

definition Serve :: "('raw, 'sel) admissionServer \<Rightarrow> string \<Rightarrow> 'raw \<Rightarrow> (admissionResponse option \<times> admissionStatus \<times> admissionResource) option" where
  "Serve srv contentType body =
     (if contentType \<noteq> ''application/json'' then Some (None, AdmissionError, ResourceUnknown)
      else case admit srv body of
             None \<Rightarrow> None
           | Some (response, status, resource) \<Rightarrow> Some (Some response, status, resource))"

end
