(* ===== verification/VpaAdmissionProps.thy ===== *)
theory VpaAdmissionProps
  imports VpaAdmission
begin

text \<open>
  What the admission controller's patches do, by the specification of JSON Patch (RFC 6902): applied in order to any
  document of the pod they succeed, and give a document of the pod with the recommended requests.  No pod is ever
  refused, and an autoscaler object is refused exactly if it is not valid.
\<close>

section \<open>JSON Patch\<close>

fun split_slash :: "string \<Rightarrow> string list" where
  "split_slash [] = [[]]"
| "split_slash (c # cs) =
     (if c = CHR ''/'' then [] # split_slash cs
      else (case split_slash cs of [] \<Rightarrow> [[c]] | t # ts \<Rightarrow> (c # t) # ts))"

fun unescape :: "string \<Rightarrow> string" where
  "unescape [] = []"
| "unescape [c] = [c]"
| "unescape (c # d # cs) =
     (if c = CHR ''~'' \<and> d = CHR ''1'' then CHR ''/'' # unescape cs
      else if c = CHR ''~'' \<and> d = CHR ''0'' then CHR ''~'' # unescape cs
      else c # unescape (d # cs))"

definition pointer :: "string \<Rightarrow> string list option" where
  "pointer path =
     (case path of
        [] \<Rightarrow> Some []
      | c # cs \<Rightarrow> if c = CHR ''/'' then Some (map unescape (split_slash cs)) else None)"

definition array_index :: "string \<Rightarrow> nat option" where
  "array_index t = (if t = [] then None else parse_digits 0 t)"

fun json_add :: "string list \<Rightarrow> json \<Rightarrow> json \<Rightarrow> json option" where
  "json_add [] v j = Some v"
| "json_add (t # ts) v (JObject kvs) =
     (if ts = [] then Some (JObject (mput t v kvs))
      else case mget kvs t of
             None \<Rightarrow> None
           | Some j \<Rightarrow> (case json_add ts v j of None \<Rightarrow> None | Some j' \<Rightarrow> Some (JObject (mput t j' kvs))))"
| "json_add (t # ts) v (JArray js) =
     (case array_index t of
        None \<Rightarrow> None
      | Some i \<Rightarrow>
          if ts = [] then (if i \<le> length js then Some (JArray (take i js @ v # drop i js)) else None)
          else if i < length js
          then (case json_add ts v (js ! i) of None \<Rightarrow> None | Some j' \<Rightarrow> Some (JArray (js[i := j'])))
          else None)"
| "json_add (t # ts) v j = None"

definition apply_patch :: "patchRecord \<Rightarrow> json \<Rightarrow> json option" where
  "apply_patch p j =
     (if pa_Op p = ''add'' then case pointer (pa_Path p) of None \<Rightarrow> None | Some ts \<Rightarrow> json_add ts (pa_Value p) j else None)"

fun apply_patches :: "patchRecord list \<Rightarrow> json \<Rightarrow> json option" where
  "apply_patches [] j = Some j"
| "apply_patches (p # ps) j = (case apply_patch p j of None \<Rightarrow> None | Some j' \<Rightarrow> apply_patches ps j')"

lemma apply_patches_append:
  "apply_patches (ps @ qs) j = (case apply_patches ps j of None \<Rightarrow> None | Some j' \<Rightarrow> apply_patches qs j')"
  by (induction ps arbitrary: j) (auto split: option.splits)

section \<open>Paths\<close>

definition plain :: "string \<Rightarrow> bool" where
  "plain s \<longleftrightarrow> CHR ''/'' \<notin> set s \<and> CHR ''~'' \<notin> set s"

lemma split_slash_plain: "CHR ''/'' \<notin> set s \<Longrightarrow> split_slash s = [s]"
  by (induction s) auto

lemma split_slash_append: "CHR ''/'' \<notin> set s \<Longrightarrow> split_slash (s @ CHR ''/'' # rest) = s # split_slash rest"
  by (induction s) auto

lemma unescape_plain: "CHR ''~'' \<notin> set s \<Longrightarrow> unescape s = s"
  by (induction s rule: unescape.induct) auto

lemma digit_char_plain: "d < 10 \<Longrightarrow> digit_char d \<noteq> CHR ''/'' \<and> digit_char d \<noteq> CHR ''~''"
  using char_digit_digit_char [of d] by (auto simp: char_digit_def)

lemma nat_digits_plain: "plain (nat_digits n)"
proof (induction n rule: nat_digits.induct)
  case (1 n)
  have "n < 10 \<or> n mod 10 < 10" by simp
  then show ?case using 1 digit_char_plain [of n] digit_char_plain [of "n mod 10"]
    by (auto simp: nat_digits.simps [of n] plain_def)
qed

lemma itoa_int: "itoa (int i) = nat_digits i"
  by (simp add: itoa_def)

lemma array_index_itoa: "array_index (itoa (int i)) = Some i"
  using nat_digits_Cons [of i] by (auto simp: array_index_def itoa_int parse_nat_digits)

lemma container_pointer:
  "split_slash (''spec/containers/'' @ itoa (int i) @ CHR ''/'' # s) = ''spec'' # ''containers'' # itoa (int i) # split_slash s"
proof -
  have plain: "CHR ''/'' \<notin> set (itoa (int i))" using nat_digits_plain [of i] by (simp add: itoa_int plain_def)
  show ?thesis by (simp add: split_slash_append [OF plain])
qed

lemma pointer_resources: "pointer (container_path i ''/resources'') = Some [''spec'', ''containers'', itoa (int i), ''resources'']"
  using container_pointer [of i "''resources''"] nat_digits_plain [of i]
  by (simp add: pointer_def container_path_def unescape_plain itoa_int plain_def)

lemma pointer_requests:
  "pointer (container_path i ''/resources/requests'') = Some [''spec'', ''containers'', itoa (int i), ''resources'', ''requests'']"
  using container_pointer [of i "''resources/requests''"] nat_digits_plain [of i]
  by (simp add: pointer_def container_path_def unescape_plain itoa_int plain_def)

lemma pointer_request:
  assumes "plain r"
  shows "pointer (container_path i (''/resources/requests/'' @ r)) =
     Some [''spec'', ''containers'', itoa (int i), ''resources'', ''requests'', r]"
  using container_pointer [of i "''resources/requests/'' @ r"] nat_digits_plain [of i] assms
  by (simp add: pointer_def container_path_def unescape_plain itoa_int plain_def split_slash_plain)

section \<open>Documents of a pod\<close>

text \<open>
  The document \<open>j\<close> decodes to the pod: a map that is absent or null is nil.  Decoding a quantity is the
  parameter \<open>dq\<close>.
\<close>

definition field :: "json option \<Rightarrow> string \<Rightarrow> json option" where
  "field j k = (case j of Some (JObject kvs) \<Rightarrow> mget kvs k | _ \<Rightarrow> None)"

definition decodes_map :: "(json \<Rightarrow> 'v option) \<Rightarrow> json option \<Rightarrow> (string, 'v) gomap option \<Rightarrow> bool" where
  "decodes_map d j m \<longleftrightarrow>
     (case m of
        None \<Rightarrow> j = None \<or> j = Some JNull
      | Some m \<Rightarrow> (\<exists>kvs. j = Some (JObject kvs) \<and> (\<forall>k. mget m k = Option.bind (mget kvs k) d)))"

definition string_of_json :: "json \<Rightarrow> string option" where
  "string_of_json j = (case j of JString s \<Rightarrow> Some s | _ \<Rightarrow> None)"

definition decodes_container :: "(json \<Rightarrow> quantity option) \<Rightarrow> json \<Rightarrow> admissionContainer \<Rightarrow> bool" where
  "decodes_container dq j c \<longleftrightarrow>
     field (Some j) ''name'' = Some (JString (ac_Name c)) \<and>
     decodes_map dq (field (field (Some j) ''resources'') ''requests'') (ac_Requests c) \<and>
     decodes_map dq (field (field (Some j) ''resources'') ''limits'') (ac_Limits c)"

definition decodes_pod :: "(json \<Rightarrow> quantity option) \<Rightarrow> json \<Rightarrow> admissionPod \<Rightarrow> bool" where
  "decodes_pod dq j pod \<longleftrightarrow>
     (\<exists>cs kvs. field (field (Some j) ''spec'') ''containers'' = Some (JArray cs) \<and>
        list_all2 (decodes_container dq) cs (ap_Containers pod) \<and>
        field (Some j) ''metadata'' = Some (JObject kvs) \<and>
        decodes_map string_of_json (mget kvs ''annotations'') (ap_Annotations pod))"

text \<open>The pod with recommended requests: they replace the requests of the same resources, and leave the others.\<close>

definition set_requests :: "resourceList \<Rightarrow> admissionContainer \<Rightarrow> admissionContainer" where
  "set_requests rs c = c\<lparr>ac_Requests := Some (foldl (\<lambda>m e. mput (fst e) (snd e) m) (nil_map (ac_Requests c)) rs)\<rparr>"

section \<open>Patches of one container\<close>

fun json_adds :: "(string list \<times> json) list \<Rightarrow> json \<Rightarrow> json option" where
  "json_adds [] j = Some j"
| "json_adds ((ts, v) # ops) j = (case json_add ts v j of None \<Rightarrow> None | Some j' \<Rightarrow> json_adds ops j')"

definition missing_adds :: "admissionContainer \<Rightarrow> (string list \<times> json) list" where
  "missing_adds c =
     (if ac_Limits c = None \<and> ac_Requests c = None then [([''resources''], JObject [])] else [])
     @ (if ac_Requests c = None then [([''resources'', ''requests''], JObject [])] else [])"

definition request_adds :: "(quantity \<Rightarrow> string) \<Rightarrow> resourceList \<Rightarrow> (string list \<times> json) list" where
  "request_adds q_string rs = map (\<lambda>e. ([''resources'', ''requests'', fst e], JString (q_string (snd e)))) rs"

lemma json_adds_append:
  "json_adds (ops @ ops') j = (case json_adds ops j of None \<Rightarrow> None | Some j' \<Rightarrow> json_adds ops' j')"
  by (induction ops arbitrary: j) (auto split: option.splits)

lemma field_object: "field (Some j) k = Some v \<Longrightarrow> \<exists>kvs. j = JObject kvs \<and> mget kvs k = Some v"
  by (cases j) (simp_all add: field_def)

lemma field_None [simp]: "field None k = None"
  by (simp add: field_def)

lemma field_JObject [simp]: "field (Some (JObject kvs)) k = mget kvs k"
  by (simp add: field_def)

lemma nil_map_Some: "nil_map (Some m) = m"
  by (simp add: nil_map_def)

lemma same_requests: "ac_Requests c = Some m \<Longrightarrow> c\<lparr>ac_Requests := Some m\<rparr> = c"
  by (cases c) simp

lemma missing_adds_succeed:
  assumes "decodes_container dq j c"
  shows "\<exists>j'. json_adds (missing_adds c) j = Some j' \<and> decodes_container dq j' (c\<lparr>ac_Requests := Some (nil_map (ac_Requests c))\<rparr>)"
proof (cases "ac_Requests c")
  case None
  obtain kvs where j: "j = JObject kvs" "mget kvs ''name'' = Some (JString (ac_Name c))"
    using assms field_object by (force simp: decodes_container_def)
  show ?thesis
  proof (cases "ac_Limits c")
    case None
    with \<open>ac_Requests c = None\<close> j show ?thesis
      by (simp add: missing_adds_def decodes_container_def decodes_map_def nil_map_def)
  next
    case (Some limits)
    then have "field (mget kvs ''resources'') ''limits'' \<noteq> None"
      using assms j by (auto simp: decodes_container_def decodes_map_def)
    then obtain rkvs where "mget kvs ''resources'' = Some (JObject rkvs)"
      by (auto simp: field_def split: option.splits json.splits)
    with Some \<open>ac_Requests c = None\<close> j assms show ?thesis
      by (simp add: missing_adds_def decodes_container_def decodes_map_def nil_map_def)
  qed
next
  case (Some m)
  then show ?thesis using assms by (simp add: missing_adds_def nil_map_def same_requests)
qed

lemma request_adds_succeed:
  assumes "decodes_container dq j c" "ac_Requests c = Some m" "\<And>q. dq (JString (q_string q)) = Some q"
  shows "\<exists>j'. json_adds (request_adds q_string rs) j = Some j' \<and>
     decodes_container dq j' (c\<lparr>ac_Requests := Some (foldl (\<lambda>m e. mput (fst e) (snd e) m) m rs)\<rparr>)"
  using assms(1,2)
proof (induction rs arbitrary: j c m)
  case Nil
  then show ?case by (simp add: request_adds_def same_requests)
next
  case (Cons e rs)
  obtain kvs where j: "j = JObject kvs" "mget kvs ''name'' = Some (JString (ac_Name c))"
    using Cons.prems(1) field_object by (force simp: decodes_container_def)
  obtain qkvs where q: "field (mget kvs ''resources'') ''requests'' = Some (JObject qkvs)" "\<And>k. mget m k = Option.bind (mget qkvs k) dq"
    using Cons.prems j by (auto simp: decodes_container_def decodes_map_def)
  then obtain rkvs where r: "mget kvs ''resources'' = Some (JObject rkvs)" "mget rkvs ''requests'' = Some (JObject qkvs)"
    by (auto simp: field_def split: option.splits json.splits)
  define v where "v = JString (q_string (snd e))"
  define j' where "j' = JObject (mput ''resources'' (JObject (mput ''requests'' (JObject (mput (fst e) v qkvs)) rkvs)) kvs)"
  have step: "json_add [''resources'', ''requests'', fst e] v j = Some j'"
    using j r by (simp add: j'_def)
  have "decodes_container dq j' (c\<lparr>ac_Requests := Some (mput (fst e) (snd e) m)\<rparr>)"
    using Cons.prems(1) j r q(2) assms(3) by (simp add: decodes_container_def decodes_map_def j'_def v_def)
  from Cons.IH [OF this] step show ?case by (simp add: request_adds_def v_def)
qed

lemma container_adds_succeed:
  assumes "decodes_container dq j c" "\<And>q. dq (JString (q_string q)) = Some q"
  shows "\<exists>j'. json_adds (missing_adds c @ request_adds q_string rs) j = Some j' \<and> decodes_container dq j' (set_requests rs c)"
proof -
  obtain j1 where j1: "json_adds (missing_adds c) j = Some j1"
    "decodes_container dq j1 (c\<lparr>ac_Requests := Some (nil_map (ac_Requests c))\<rparr>)"
    using missing_adds_succeed [OF assms(1)] by blast
  from request_adds_succeed [OF j1(2), where rs = rs, OF _ assms(2)] j1(1) show ?thesis
    by (auto simp: json_adds_append set_requests_def)
qed

section \<open>Patches of a document\<close>

definition containers_of :: "json \<Rightarrow> json list option" where
  "containers_of j = (case field (field (Some j) ''spec'') ''containers'' of Some (JArray cs) \<Rightarrow> Some cs | _ \<Rightarrow> None)"

lemma containers_of_iff: "containers_of j = Some cs \<longleftrightarrow> field (field (Some j) ''spec'') ''containers'' = Some (JArray cs)"
  by (auto simp: containers_of_def split: option.splits json.splits)

lemma json_add_in_container:
  assumes "containers_of j = Some cs" "i < length cs" "ts \<noteq> []" "json_add ts v (cs ! i) = Some cj"
  shows "\<exists>j'. json_add (''spec'' # ''containers'' # itoa (int i) # ts) v j = Some j' \<and>
     containers_of j' = Some (cs[i := cj]) \<and> field (Some j') ''metadata'' = field (Some j) ''metadata''"
proof -
  from assms(1) obtain s where "field (Some j) ''spec'' = Some s" "field (Some s) ''containers'' = Some (JArray cs)"
    by (cases "field (Some j) ''spec''") (auto simp: containers_of_iff)
  then obtain kvs skvs where j: "j = JObject kvs" "mget kvs ''spec'' = Some (JObject skvs)" "mget skvs ''containers'' = Some (JArray cs)"
    using field_object [of j "''spec''" s] field_object [of s "''containers''"] by auto
  have "json_add (''spec'' # ''containers'' # itoa (int i) # ts) v j =
      Some (JObject (mput ''spec'' (JObject (mput ''containers'' (JArray (cs[i := cj])) skvs)) kvs))"
    using assms(2-4) by (simp add: j array_index_itoa)
  then show ?thesis by (simp add: containers_of_iff j)
qed

text \<open>The patches \<open>ps\<close> are the additions \<open>ops\<close> to container \<open>i\<close>.\<close>

definition patches_of :: "nat \<Rightarrow> patchRecord list \<Rightarrow> (string list \<times> json) list \<Rightarrow> bool" where
  "patches_of i ps ops \<longleftrightarrow> list_all2 (\<lambda>p (ts, v). pa_Op p = ''add'' \<and> ts \<noteq> [] \<and> pa_Value p = v \<and>
     pointer (pa_Path p) = Some (''spec'' # ''containers'' # itoa (int i) # ts)) ps ops"

lemma apply_container_patches:
  assumes "patches_of i ps ops" "containers_of j = Some cs" "i < length cs" "json_adds ops (cs ! i) = Some cj"
  shows "\<exists>j'. apply_patches ps j = Some j' \<and> containers_of j' = Some (cs[i := cj]) \<and>
     field (Some j') ''metadata'' = field (Some j) ''metadata''"
  using assms unfolding patches_of_def
proof (induction ps ops arbitrary: j cs rule: list_all2_induct)
  case Nil
  then show ?case by (auto simp: list_update_same_conv)
next
  case (Cons p ps op ops)
  obtain ts v where op: "op = (ts, v)" by force
  obtain cj1 where cj1: "json_add ts v (cs ! i) = Some cj1" "json_adds ops cj1 = Some cj"
    using Cons.prems(3) op by (auto split: option.splits)
  obtain j1 where j1: "json_add (''spec'' # ''containers'' # itoa (int i) # ts) v j = Some j1"
    "containers_of j1 = Some (cs[i := cj1])" "field (Some j1) ''metadata'' = field (Some j) ''metadata''"
    using json_add_in_container [OF Cons.prems(1,2) _ cj1(1)] Cons.hyps(1) op by auto
  have "apply_patch p j = Some j1" using Cons.hyps(1) op j1(1) by (simp add: apply_patch_def)
  moreover obtain j' where "apply_patches ps j1 = Some j'" "containers_of j' = Some (cs[i := cj])"
    "field (Some j') ''metadata'' = field (Some j1) ''metadata''"
    using Cons.IH [OF j1(2)] Cons.prems(2) cj1(2) by auto
  ultimately show ?case using j1(3) by auto
qed

lemma container_patches_of:
  assumes "\<forall>e\<in>set rs. plain (fst e)"
  shows "patches_of i (missing_patches i c @ map (request_patch q_string i) rs) (missing_adds c @ request_adds q_string rs)"
proof -
  have "patches_of i (missing_patches i c) (missing_adds c)"
    by (simp add: patches_of_def missing_patches_def missing_adds_def add_patch_def pointer_resources pointer_requests)
  moreover have "patches_of i (map (request_patch q_string i) rs) (request_adds q_string rs)"
    using assms by (simp add: patches_of_def request_adds_def request_patch_def add_patch_def list.rel_map list_all2_same
        pointer_request [simplified])
  ultimately show ?thesis by (simp add: patches_of_def list_all2_appendI)
qed

text \<open>The containers from the \<open>i\<close>-th on with their requests.\<close>

fun set_from :: "nat \<Rightarrow> resourceList list \<Rightarrow> admissionContainer list \<Rightarrow> admissionContainer list" where
  "set_from i [] cs = cs"
| "set_from i (rs # rss) cs = set_from (Suc i) rss (cs[i := set_requests rs (cs ! i)])"

lemma set_from_spec:
  "i + length rss = length cs \<Longrightarrow> set_from i rss cs = take i cs @ map2 set_requests rss (drop i cs)"
proof (induction i rss cs rule: set_from.induct)
  case (2 i rs rss cs)
  then have "i < length cs" by simp
  with 2 show ?case by (simp add: take_Suc_conv_app_nth Cons_nth_drop_Suc [symmetric])
qed simp

lemma apply_container_loop:
  assumes "container_patches q_string pod annotations i rss = Some (ps, updates)"
    and "containers_of j = Some cs" "list_all2 (decodes_container dq) cs cur"
    and "length cur = length (ap_Containers pod)" "\<And>k. i \<le> k \<Longrightarrow> k < length cur \<Longrightarrow> cur ! k = ap_Containers pod ! k"
    and "\<And>q. dq (JString (q_string q)) = Some q" "\<forall>rs\<in>set rss. \<forall>e\<in>set rs. plain (fst e)"
  shows "\<exists>j' cs'. apply_patches ps j = Some j' \<and> containers_of j' = Some cs' \<and>
     list_all2 (decodes_container dq) cs' (set_from i rss cur) \<and> field (Some j') ''metadata'' = field (Some j) ''metadata''"
  using assms(1-5,7)
proof (induction rss arbitrary: i ps updates j cs cur)
  case (Cons rs rss)
  define c where "c = ap_Containers pod ! i"
  obtain ps' updates' where rest: "container_patches q_string pod annotations (Suc i) rss = Some (ps', updates')"
    and i: "i < length (ap_Containers pod)"
    and ps: "ps = (missing_patches i c @ map (request_patch q_string i) rs) @ ps'"
    using Cons.prems(1) by (auto simp: c_def Let_def split: if_splits option.splits)
  have len: "length cs = length cur" by (rule list_all2_lengthD [OF Cons.prems(3)])
  have c: "cur ! i = c" using Cons.prems(4,5) i by (simp add: c_def)
  have "decodes_container dq (cs ! i) c"
    using list_all2_nthD2 [OF Cons.prems(3), of i] i Cons.prems(4) c by simp
  then obtain cj where cj: "json_adds (missing_adds c @ request_adds q_string rs) (cs ! i) = Some cj"
    "decodes_container dq cj (set_requests rs c)"
    using container_adds_succeed [where q_string = q_string, OF _ assms(6)] by blast
  obtain j1 where j1: "apply_patches (missing_patches i c @ map (request_patch q_string i) rs) j = Some j1"
    "containers_of j1 = Some (cs[i := cj])" "field (Some j1) ''metadata'' = field (Some j) ''metadata''"
    using apply_container_patches [OF container_patches_of Cons.prems(2) _ cj(1)] Cons.prems(4,6) i len by auto
  have dec: "list_all2 (decodes_container dq) (cs[i := cj]) (cur[i := set_requests rs c])"
    by (rule list_all2_update_cong [OF Cons.prems(3) cj(2)])
  obtain j' cs' where "apply_patches ps' j1 = Some j'" "containers_of j' = Some cs'"
    "list_all2 (decodes_container dq) cs' (set_from (Suc i) rss (cur[i := set_requests rs c]))"
    "field (Some j') ''metadata'' = field (Some j1) ''metadata''"
    using Cons.IH [OF rest j1(2) dec] Cons.prems(4-6) by auto
  then show ?case using j1 by (auto simp: ps apply_patches_append c simp del: append_assoc)
qed auto

lemma apply_annotation_patch:
  assumes "containers_of j = Some cs" "field (Some j) ''metadata'' = Some (JObject kvs)"
    "decodes_map string_of_json (mget kvs ''annotations'') (ap_Annotations pod)"
  shows "\<exists>j' kvs'. apply_patch (annotation_patch pod s) j = Some j' \<and> containers_of j' = Some cs \<and>
     field (Some j') ''metadata'' = Some (JObject kvs') \<and>
     decodes_map string_of_json (mget kvs' ''annotations'') (Some (mput ''vpaUpdates'' s (nil_map (ap_Annotations pod))))"
proof -
  obtain jvs where jvs: "j = JObject jvs" using field_object [OF assms(2)] by blast
  show ?thesis
  proof (cases "ap_Annotations pod")
    case None
    then show ?thesis using assms jvs
      by (simp add: annotation_patch_def add_patch_def apply_patch_def pointer_def containers_of_iff decodes_map_def nil_map_def string_of_json_def)
  next
    case (Some m)
    with assms(3) obtain akvs where "mget kvs ''annotations'' = Some (JObject akvs)" "\<forall>k. mget m k = Option.bind (mget akvs k) string_of_json"
      by (auto simp: decodes_map_def)
    with Some show ?thesis using assms jvs
      by (simp add: annotation_patch_def add_patch_def apply_patch_def pointer_def containers_of_iff decodes_map_def nil_map_def string_of_json_def)
  qed
qed

text \<open>All patches of a pod, on any document of it.\<close>

lemma apply_pod_patches:
  assumes "container_patches q_string pod annotations 0 rss = Some (ps, updates)" "length rss = length (ap_Containers pod)"
    and "decodes_pod dq j pod" "\<And>q. dq (JString (q_string q)) = Some q" "\<forall>rs\<in>set rss. \<forall>e\<in>set rs. plain (fst e)"
  shows "\<exists>j'. apply_patches (ps @ [annotation_patch pod s]) j = Some j' \<and>
     decodes_pod dq j' (pod\<lparr>ap_Containers := map2 set_requests rss (ap_Containers pod),
        ap_Annotations := Some (mput ''vpaUpdates'' s (nil_map (ap_Annotations pod)))\<rparr>)"
proof -
  obtain cs kvs where j: "containers_of j = Some cs" "list_all2 (decodes_container dq) cs (ap_Containers pod)"
    "field (Some j) ''metadata'' = Some (JObject kvs)" "decodes_map string_of_json (mget kvs ''annotations'') (ap_Annotations pod)"
    using assms(3) by (auto simp: decodes_pod_def containers_of_iff)
  obtain j1 cs1 where j1: "apply_patches ps j = Some j1" "containers_of j1 = Some cs1"
    "list_all2 (decodes_container dq) cs1 (set_from 0 rss (ap_Containers pod))" "field (Some j1) ''metadata'' = Some (JObject kvs)"
    using apply_container_loop [OF assms(1) j(1,2) refl refl assms(4,5)] j(3) by auto
  obtain j' kvs' where j': "apply_patch (annotation_patch pod s) j1 = Some j'" "containers_of j' = Some cs1"
    "field (Some j') ''metadata'' = Some (JObject kvs')"
    "decodes_map string_of_json (mget kvs' ''annotations'') (Some (mput ''vpaUpdates'' s (nil_map (ap_Annotations pod))))"
    using apply_annotation_patch [OF j1(2,4) j(4)] by blast
  have "set_from 0 rss (ap_Containers pod) = map2 set_requests rss (ap_Containers pod)"
    using set_from_spec [of 0 rss "ap_Containers pod"] assms(2) by simp
  with j' j1 show ?thesis by (simp add: apply_patches_append decodes_pod_def containers_of_iff)
qed

section \<open>The capped recommendation of a pod\<close>

lemma gomap_ok_cap_entries: "gomap_ok m \<Longrightarrow> gomap_ok (fst (foldl (cap_entry p) (m, a) rs))"
proof (induction rs arbitrary: m a)
  case (Cons e rs)
  obtain m1 a1 where step: "cap_entry p (m, a) e = (m1, a1)" by force
  then have "gomap_ok m1" using Cons.prems by (auto simp: cap_entry_def split: prod.splits)
  then show ?case using Cons.IH step by simp
qed simp

lemma gomap_ok_limit_entries: "gomap_ok m \<Longrightarrow> gomap_ok (fst (foldl limit_entry (m, a) limits))"
proof (induction limits arbitrary: m a)
  case (Cons e limits)
  obtain m1 a1 where step: "limit_entry (m, a) e = (m1, a1)" by force
  then have "gomap_ok m1" using Cons.prems by (auto simp: limit_entry_def split: prod.splits option.splits if_splits)
  then show ?case using Cons.IH step by simp
qed simp

lemma gomap_ok_process_list: "gomap_ok rs \<Longrightarrow> gomap_ok (fst (process_list container policy rs))"
  by (auto simp: process_list_def applyVPAPolicy_def capRecommendationToContainerLimit_def
      intro!: gomap_ok_limit_entries gomap_ok_cap_entries split: prod.split option.split)
    (metis fst_conv gomap_ok_cap_entries gomap_ok_limit_entries)+

definition capped_for :: "podResourcePolicy option \<Rightarrow> vpaContainer \<Rightarrow> recommendedContainer \<Rightarrow> recommendedContainer" where
  "capped_for policy container rec =
     (case getCappedRecommendationForContainer container (Some rec) policy of Inr (rec', _) \<Rightarrow> rec' | Inl _ \<Rightarrow> rec)"

lemma capped_Inr: "\<exists>annotations. getCappedRecommendationForContainer container (Some rec) policy = Inr (capped_for policy container rec, annotations)"
  by (simp add: capped_for_def getCappedRecommendationForContainer_def Let_def split: prod.splits)

lemma cap_containers_spec:
  "\<exists>annotations'. cap_containers policy pod (acc, annotations) rs =
     Inr (acc @ concat (map (\<lambda>r. case getContainer (re_ContainerName r) pod of None \<Rightarrow> [] | Some c \<Rightarrow> [capped_for policy c r]) rs), annotations')"
proof (induction rs arbitrary: acc annotations)
  case (Cons r rs)
  show ?case
  proof (cases "getContainer (re_ContainerName r) pod")
    case (Some c)
    obtain ann where "getCappedRecommendationForContainer c (Some r) policy = Inr (capped_for policy c r, ann)"
      using capped_Inr by blast
    then show ?thesis using Some Cons [of "acc @ [capped_for policy c r]"] by simp
  qed (simp add: Cons)
qed simp

lemma capped_for_name: "re_ContainerName (capped_for policy c r) = re_ContainerName r"
  by (simp add: capped_for_def getCappedRecommendationForContainer_def Let_def split: prod.split)

lemma find_capped:
  assumes "getContainer name pod = Some c"
  shows "find (\<lambda>r. re_ContainerName r = name)
       (concat (map (\<lambda>r. case getContainer (re_ContainerName r) pod of None \<Rightarrow> [] | Some c \<Rightarrow> [capped_for policy c r]) rs)) =
     map_option (capped_for policy c) (find (\<lambda>r. re_ContainerName r = name) rs)"
  using assms by (induction rs) (auto simp: capped_for_name split: option.splits)

lemma getContainer_member:
  assumes "c \<in> set (ap_Containers pod)" "distinct (map ac_Name (ap_Containers pod))"
  shows "getContainer (ac_Name c) (pod_view pod) = Some (container_view c)"
proof -
  have "find (\<lambda>x. vn_Name x = ac_Name c) (map container_view cs) = Some (container_view c)"
    if "c \<in> set cs" "distinct (map ac_Name cs)" for cs
    using that by (induction cs) (auto simp: container_view_def)
  then show ?thesis using assms by (simp add: getContainer_def pod_view_def)
qed

definition wf_recommendation :: "recommendedPodResources \<Rightarrow> bool" where
  "wf_recommendation r \<longleftrightarrow> (\<forall>rec\<in>set (rp_ContainerRecommendations r).
     gomap_ok (re_Target rec) \<and> gomap_ok (re_LowerBound rec) \<and> gomap_ok (re_UpperBound rec) \<and> (\<forall>e\<in>set (re_Target rec). plain (fst e)))"

text \<open>What the capped recommendation for a container asks of one resource.\<close>

definition recommended_request ::
  "recommendedPodResources \<Rightarrow> podResourcePolicy option \<Rightarrow> admissionContainer \<Rightarrow> string \<Rightarrow> quantity option" where
  "recommended_request r policy c resource =
     (case GetRecommendationForContainer (ac_Name c) (Some r) of
        None \<Rightarrow> None
      | Some rec \<Rightarrow> map_option (capped (container_view c) policy resource) (mget (re_Target rec) resource))"

lemma capped_target:
  assumes "gomap_ok (re_Target rec)" "gomap_ok (re_LowerBound rec)" "gomap_ok (re_UpperBound rec)" "gomap_ok (vn_Limits c)"
  shows "gomap_ok (re_Target (capped_for policy c rec))"
    and "mget (re_Target (capped_for policy c rec)) res = map_option (capped c policy res) (mget (re_Target rec) res)"
proof -
  obtain ann where *: "getCappedRecommendationForContainer c (Some rec) policy = Inr (capped_for policy c rec, ann)"
    using capped_Inr by blast
  show "mget (re_Target (capped_for policy c rec)) res = map_option (capped c policy res) (mget (re_Target rec) res)"
    by (rule capped_parts(2) [OF * assms]) simp
  show "gomap_ok (re_Target (capped_for policy c rec))"
    using gomap_ok_process_list [OF assms(1)]
    by (simp add: capped_for_def getCappedRecommendationForContainer_def Let_def split: prod.split) (metis fst_conv)
qed

lemma mget_foldl_mput:
  "gomap_ok rs \<Longrightarrow> mget (foldl (\<lambda>m e. mput (fst e) (snd e) m) m rs) k = (case mget rs k of Some q \<Rightarrow> Some q | None \<Rightarrow> mget m k)"
proof (induction rs arbitrary: m)
  case (Cons e rs)
  then show ?case by (cases e) (auto simp: gomap_ok_Cons split: option.splits)
qed simp

lemma container_resources:
  assumes "wf_recommendation r" "c \<in> set (ap_Containers pod)" "distinct (map ac_Name (ap_Containers pod))" "gomap_ok (nil_map (ac_Limits c))"
    and "CappingApply (Some r) policy (pod_view pod) = Inr (Some r', annotations)"
    and rs: "rs = (case GetRecommendationForContainer (ac_Name c) (Some r') of None \<Rightarrow> [] | Some rec \<Rightarrow> re_Target rec)"
  shows "mget rs res = recommended_request r policy c res" "gomap_ok rs" "\<forall>e\<in>set rs. plain (fst e)"
proof -
  let ?find = "find (\<lambda>x. re_ContainerName x = ac_Name c)"
  have "rp_ContainerRecommendations r' = concat (map (\<lambda>x. case getContainer (re_ContainerName x) (pod_view pod) of None \<Rightarrow> []
      | Some c \<Rightarrow> [capped_for policy c x]) (rp_ContainerRecommendations r))"
    using assms(5) cap_containers_spec [of policy "pod_view pod" "[]" "[]" "rp_ContainerRecommendations r"]
    by (auto simp: CappingApply_def)
  then have found: "?find (rp_ContainerRecommendations r') = map_option (capped_for policy (container_view c)) (?find (rp_ContainerRecommendations r))"
    using find_capped [OF getContainer_member [OF assms(2,3)]] by simp
  show "mget rs res = recommended_request r policy c res" and "gomap_ok rs" and "\<forall>e\<in>set rs. plain (fst e)"
  proof (atomize(full), cases "?find (rp_ContainerRecommendations r)")
    case (Some rec)
    then have "rec \<in> set (rp_ContainerRecommendations r)" by (auto simp: find_Some_iff in_set_conv_nth)
    then have wf: "gomap_ok (re_Target rec)" "gomap_ok (re_LowerBound rec)" "gomap_ok (re_UpperBound rec)" "\<forall>e\<in>set (re_Target rec). plain (fst e)"
      using assms(1) by (auto simp: wf_recommendation_def)
    have limits: "gomap_ok (vn_Limits (container_view c))" using assms(4) by (simp add: container_view_def)
    note target = capped_target [OF wf(1-3) limits, of policy]
    have "plain (fst e)" if "e \<in> set (re_Target (capped_for policy (container_view c) rec))" for e
    proof -
      have "mget (re_Target (capped_for policy (container_view c) rec)) (fst e) \<noteq> None"
        unfolding mget_None_iff using imageI [OF that, of fst] by simp
      then obtain q where "mget (re_Target rec) (fst e) = Some q" by (auto simp: target(2))
      from bspec [OF wf(4) mget_SomeD [OF this]] show ?thesis by simp
    qed
    then show "mget rs res = recommended_request r policy c res \<and> gomap_ok rs \<and> (\<forall>e\<in>set rs. plain (fst e))"
      using Some target found by (simp add: rs GetRecommendationForContainer_def recommended_request_def)
  qed (simp add: rs found GetRecommendationForContainer_def recommended_request_def)
qed

section \<open>What is done to a pod\<close>

lemma container_patches_total:
  "i + length rss \<le> length (ap_Containers pod) \<Longrightarrow>
     \<exists>ps updates. container_patches q_string pod annotations i rss = Some (ps, updates) \<and> length updates = length rss"
proof (induction rss arbitrary: i)
  case (Cons rs rss)
  then have "\<exists>ps updates. container_patches q_string pod annotations (Suc i) rss = Some (ps, updates) \<and> length updates = length rss" by simp
  then show ?case using Cons.prems by (auto simp: Let_def)
qed simp

lemma named_pod_simps [simp]:
  "ap_Containers (named_pod ns pod) = ap_Containers pod" "ap_Annotations (named_pod ns pod) = ap_Annotations pod"
  by (simp_all add: named_pod_def)

lemma decodes_named_pod: "decodes_pod dq j (named_pod ns pod) \<longleftrightarrow> decodes_pod dq j pod"
  by (simp add: decodes_pod_def)

definition with_capping :: "('raw, 'sel) admissionServer \<Rightarrow> bool" where
  "with_capping srv \<longleftrightarrow> as_RecommendationProcessor srv = (\<lambda>r policy conditions pod. CappingApply r policy pod) \<and>
     as_PodPreProcessor srv = NoopPreProcessor"

lemma CappingApply_Some: "\<exists>r' annotations. CappingApply (Some r) policy pod = Inr (Some r', annotations)"
  using cap_containers_spec [of policy pod "[]" "[]" "rp_ContainerRecommendations r"] by (auto simp: CappingApply_def)

lemma recommended_resources:
  assumes "with_capping srv" "getMatchingVPA srv pod = Some vpa" "va_Recommendation vpa = Some r" "wf_recommendation r"
    and "distinct (map ac_Name (ap_Containers pod))" "\<forall>c\<in>set (ap_Containers pod). gomap_ok (nil_map (ac_Limits c))"
  shows "\<exists>resources annotations.
    GetContainersResourcesForPod srv pod = Some (Inr (map resources (ap_Containers pod), annotations, va_Name vpa)) \<and>
    (\<forall>c\<in>set (ap_Containers pod). \<forall>res. mget (resources c) res = recommended_request r (va_ResourcePolicy vpa) c res \<and>
      gomap_ok (resources c) \<and> (\<forall>e\<in>set (resources c). plain (fst e)))"
proof -
  obtain r' annotations where r': "CappingApply (Some r) (va_ResourcePolicy vpa) (pod_view pod) = Inr (Some r', annotations)"
    using CappingApply_Some by blast
  define resources where "resources = (\<lambda>c :: admissionContainer. case GetRecommendationForContainer (ac_Name c) (Some r') of None \<Rightarrow> [] | Some rec \<Rightarrow> re_Target rec)"
  have "GetContainersResourcesForPod srv pod = Some (Inr (map resources (ap_Containers pod), annotations, va_Name vpa))"
    using assms(1-3) r' by (simp add: GetContainersResourcesForPod_def with_capping_def getContainersResources_def resources_def)
  moreover have "mget (resources c) res = recommended_request r (va_ResourcePolicy vpa) c res \<and> gomap_ok (resources c) \<and>
      (\<forall>e\<in>set (resources c). plain (fst e))" if c: "c \<in> set (ap_Containers pod)" for c res
  proof -
    have eq: "resources c = (case GetRecommendationForContainer (ac_Name c) (Some r') of None \<Rightarrow> [] | Some rec \<Rightarrow> re_Target rec)"
      by (simp add: resources_def)
    from container_resources [OF assms(4) c assms(5) bspec [OF assms(6) c] r' eq] show ?thesis by (intro conjI)
  qed
  ultimately show ?thesis by blast
qed

text \<open>
  C24: A new pod with distinct container names that can be parsed and is controlled by an autoscaler object with a
  recommendation, none of whose resource names contains a slash or a tilde (the CPU and memory the recommender writes;
  the finding \<open>extended_resource_patch_fails\<close> is about the others), is answered with patches.  Applied in
  order to any document of the pod, every patch finds the object it adds to, and the result is a document of the pod
  with the recommended target, capped to the policy of the object and the limits of the container, as the requests of
  each container; requests of other resources, limits and names stay as they are.  The server runs the capping
  processor and no further preprocessing, and a quantity it prints is read back as the same amount.
\<close>

theorem admitted_pod_gets_recommendation:
  assumes "with_capping srv" "as_ParsePod srv raw = Inr pod" "decodes_pod dq j pod"
    and "\<forall>q. dq (JString (as_QuantityString srv q)) = Some q"
    and "getMatchingVPA srv (named_pod namespace pod) = Some vpa" "va_Recommendation vpa = Some r" "wf_recommendation r"
    and "distinct (map ac_Name (ap_Containers pod))" "\<forall>c\<in>set (ap_Containers pod). gomap_ok (nil_map (ac_Limits c))"
  shows "\<exists>patches j' pod'. getPatchesForPodResourceRequest srv raw namespace = Some (Inr patches) \<and>
    apply_patches patches j = Some j' \<and> decodes_pod dq j' pod' \<and>
    list_all2 (\<lambda>c c'. ac_Name c' = ac_Name c \<and> ac_Limits c' = ac_Limits c \<and>
        (\<forall>resource. mget (nil_map (ac_Requests c')) resource =
           (case recommended_request r (va_ResourcePolicy vpa) c resource of
              Some q \<Rightarrow> Some q
            | None \<Rightarrow> mget (nil_map (ac_Requests c)) resource)))
      (ap_Containers pod) (ap_Containers pod')"
proof -
  let ?pod = "named_pod namespace pod"
  have names: "distinct (map ac_Name (ap_Containers ?pod))" and limits: "\<forall>c\<in>set (ap_Containers ?pod). gomap_ok (nil_map (ac_Limits c))"
    using assms(8,9) by simp_all
  obtain resources annotations
    where get: "GetContainersResourcesForPod srv ?pod = Some (Inr (map resources (ap_Containers ?pod), annotations, va_Name vpa))"
      and "\<forall>c\<in>set (ap_Containers ?pod). \<forall>res. mget (resources c) res = recommended_request r (va_ResourcePolicy vpa) c res \<and>
        gomap_ok (resources c) \<and> (\<forall>e\<in>set (resources c). plain (fst e))"
    using recommended_resources [OF assms(1,5,6,7) names limits] by blast
  then have each: "mget (resources c) res = recommended_request r (va_ResourcePolicy vpa) c res \<and>
      gomap_ok (resources c) \<and> (\<forall>e\<in>set (resources c). plain (fst e))" if "c \<in> set (ap_Containers pod)" for c res
    using that by simp
  define rss where "rss = map resources (ap_Containers pod)"
  obtain ps updates where ps: "container_patches (as_QuantityString srv) ?pod annotations 0 rss = Some (ps, updates)"
    "length updates = length rss"
    using container_patches_total [of 0 rss ?pod "as_QuantityString srv" annotations] by (auto simp: rss_def)
  let ?result = "?pod\<lparr>ap_Containers := map2 set_requests rss (ap_Containers pod),
      ap_Annotations := Some (mput ''vpaUpdates'' (annotation_value (va_Name vpa) updates) (nil_map (ap_Annotations ?pod)))\<rparr>"
  obtain j' where j': "apply_patches (ps @ [annotation_patch ?pod (annotation_value (va_Name vpa) updates)]) j = Some j'" "decodes_pod dq j' ?result"
    using apply_pod_patches [OF ps(1), of dq j "annotation_value (va_Name vpa) updates"] assms(3,4) each
    by (auto simp: rss_def decodes_named_pod)
  have patches: "getPatchesForPodResourceRequest srv raw namespace =
      Some (Inr (if updates \<noteq> [] then ps @ [annotation_patch ?pod (annotation_value (va_Name vpa) updates)] else ps))"
    using assms(1,2) get ps(1) by (simp add: getPatchesForPodResourceRequest_def Let_def with_capping_def NoopPreProcessor_def rss_def)
  show ?thesis
  proof (cases "ap_Containers pod = []")
    case True
    then have "rss = []" by (simp add: rss_def)
    with ps have "ps = []" "updates = []" by simp_all
    with patches True assms(3) show ?thesis by (intro exI [of _ "[]"] exI [of _ j] exI [of _ pod]) simp
  next
    case False
    then have "updates \<noteq> []" using ps(2) by (auto simp: rss_def)
    moreover have "list_all2 (\<lambda>c c'. ac_Name c' = ac_Name c \<and> ac_Limits c' = ac_Limits c \<and>
        (\<forall>resource. mget (nil_map (ac_Requests c')) resource =
           (case recommended_request r (va_ResourcePolicy vpa) c resource of Some q \<Rightarrow> Some q | None \<Rightarrow> mget (nil_map (ac_Requests c)) resource)))
      (ap_Containers pod) (ap_Containers ?result)"
      using each by (auto simp: list_all2_conv_all_nth rss_def set_requests_def nil_map_Some mget_foldl_mput)
    ultimately show ?thesis using patches j' by (intro exI conjI) auto
  qed
qed

section \<open>What is refused\<close>

text \<open>An autoscaler object is valid if its update policy has a mode and its resource policies are named, of a known mode and in order.\<close>

definition valid_policy :: "containerResourcePolicy \<Rightarrow> bool" where
  "valid_policy p \<longleftrightarrow> cp_ContainerName p \<noteq> '''' \<and> cp_Mode p \<in> {None, Some ''Auto'', Some ''Off''} \<and>
     (\<forall>(resource, mn)\<in>set (cp_MinAllowed p). \<forall>mx. mget (cp_MaxAllowed p) resource = Some mx \<longrightarrow> mn \<le> mx)"

definition valid_vpa :: "'sel apiVpa \<Rightarrow> bool" where
  "valid_vpa vpa \<longleftrightarrow>
     va_UpdatePolicy vpa \<in> {None, Some (Some UpdateModeOff), Some (Some UpdateModeInitial), Some (Some UpdateModeRecreate), Some (Some UpdateModeAuto)} \<and>
     (\<forall>policy. va_ResourcePolicy vpa = Some policy \<longrightarrow> (\<forall>p\<in>set (pp_ContainerPolicies policy). valid_policy p))"

lemma validate_min_iff:
  "validate_min maxAllowed minAllowed = None \<longleftrightarrow> (\<forall>(resource, mn)\<in>set minAllowed. \<forall>mx. mget maxAllowed resource = Some mx \<longrightarrow> mn \<le> mx)"
  by (induction maxAllowed minAllowed rule: validate_min.induct) (auto split: option.splits)

lemma validate_policies_iff: "validate_policies ps = None \<longleftrightarrow> (\<forall>p\<in>set ps. valid_policy p)"
  by (induction ps) (auto simp: valid_policy_def validate_min_iff [symmetric] possibleScalingModes_def split: option.splits)

lemma validateVPA_iff: "validateVPA vpa = None \<longleftrightarrow> valid_vpa vpa"
  by (auto simp: validateVPA_def valid_vpa_def validate_resource_policy_def validate_policies_iff possibleUpdateModes_def split: option.splits)

lemma capping_never_panics:
  assumes "with_capping srv"
  shows "\<exists>result. getPatchesForPodResourceRequest srv raw namespace = Some result"
proof (cases "as_ParsePod srv raw")
  case (Inr pod)
  let ?pod = "named_pod namespace pod"
  obtain result where result: "GetContainersResourcesForPod srv ?pod = Some result"
    and len: "\<And>rss x. result = Inr (rss, x) \<Longrightarrow> length rss \<le> length (ap_Containers pod)"
  proof (cases "getMatchingVPA srv ?pod")
    case (Some vpa)
    show thesis
    proof (cases "va_Recommendation vpa")
      case None
      then show thesis using Some that by (auto simp: GetContainersResourcesForPod_def getContainersResources_def)
    next
      case (Some r)
      obtain r' annotations where "CappingApply (Some r) (va_ResourcePolicy vpa) (pod_view ?pod) = Inr (Some r', annotations)"
        using CappingApply_Some by blast
      then show thesis using Some \<open>getMatchingVPA srv ?pod = Some vpa\<close> assms that
        by (auto simp: GetContainersResourcesForPod_def getContainersResources_def with_capping_def)
    qed
  qed (use that in \<open>auto simp: GetContainersResourcesForPod_def\<close>)
  show ?thesis
  proof (cases result)
    case (Inr x)
    obtain rss annotations name where x: "x = (rss, annotations, name)" by (cases x) auto
    then obtain ps updates where "container_patches (as_QuantityString srv) ?pod annotations 0 rss = Some (ps, updates)"
      using container_patches_total [of 0 rss ?pod "as_QuantityString srv" annotations] len Inr by auto
    then show ?thesis using assms result Inr x \<open>as_ParsePod srv raw = Inr pod\<close>
      by (simp add: getPatchesForPodResourceRequest_def Let_def with_capping_def NoopPreProcessor_def)
  qed (use result \<open>as_ParsePod srv raw = Inr pod\<close> in \<open>simp add: getPatchesForPodResourceRequest_def Let_def\<close>)
qed (simp add: getPatchesForPodResourceRequest_def)

text \<open>
  The type of the object in \<open>types.go\<close> leaves two things open that \<open>validateVPA\<close> decides otherwise: it documents the
  mode of an update policy as optional, with the default \<open>Auto\<close>, and allows at most one policy per container name.
  The objects whose policies have a mode and distinct names are the ones the type and the code agree about; an update
  policy without a mode is refused.
\<close>

definition settled_vpa :: "'sel apiVpa \<Rightarrow> bool" where
  "settled_vpa vpa \<longleftrightarrow> va_UpdatePolicy vpa \<noteq> Some None \<and>
     (\<forall>policy. va_ResourcePolicy vpa = Some policy \<longrightarrow> distinct (map cp_ContainerName (pp_ContainerPolicies policy)))"

lemma policy_without_mode_refused: "va_UpdatePolicy vpa = Some None \<Longrightarrow> validateVPA vpa \<noteq> None"
  by (simp add: validateVPA_iff valid_vpa_def)

text \<open>
  C25: Every review with a request is answered, and whatever is not an autoscaler object is let in.  An autoscaler
  object that cannot be parsed, or whose update policy, if it has one, names a mode and whose container policies have
  distinct names, is let in exactly if it can be parsed and is valid (a known update mode; every container policy
  named, of a known mode, with no maximum below its minimum), and then an absent update policy is patched to the default
  mode it stands for.
\<close>

theorem admission_refuses_invalid_vpas:
  assumes "with_capping srv" "as_ParseReview srv data = Inr (Some request)"
  shows "\<exists>response status resource. admit srv data = Some (response, status, resource) \<and>
    (rq_Resource request \<noteq> vpaResource \<longrightarrow> ar_Allowed response) \<and>
    (rq_Resource request = vpaResource \<and> (\<forall>vpa. as_ParseVPA srv (rq_Object request) = Inr vpa \<longrightarrow> settled_vpa vpa) \<longrightarrow>
       (ar_Allowed response \<longleftrightarrow> (\<exists>vpa. as_ParseVPA srv (rq_Object request) = Inr vpa \<and> valid_vpa vpa)) \<and>
       (ar_Allowed response \<longrightarrow>
         (\<exists>vpa. as_ParseVPA srv (rq_Object request) = Inr vpa \<and>
            (ar_Patch response = None \<longleftrightarrow> va_UpdatePolicy vpa \<noteq> None) \<and>
            (\<forall>patches kvs skvs. ar_Patch response = Some patches \<and> mget kvs ''spec'' = Some (JObject skvs) \<longrightarrow>
               (\<exists>j'. apply_patches patches (JObject kvs) = Some j' \<and>
                  field (field (field (Some j') ''spec'') ''updatePolicy'') ''updateMode'' = Some (JString (GetUpdateMode vpa)))))))"
proof (cases "rq_Resource request = podResource")
  case True
  obtain result where "getPatchesForPodResourceRequest srv (rq_Object request) (rq_Namespace request) = Some result"
    using capping_never_panics [OF assms(1)] by blast
  moreover have "podResource \<noteq> vpaResource" by (simp add: podResource_def vpaResource_def)
  ultimately show ?thesis using True assms(2) by (auto simp: admit_def finish_review_def Let_def split: sum.split)
next
  case False
  show ?thesis
  proof (cases "rq_Resource request = vpaResource")
    case True
    have vpa: "podResource \<noteq> vpaResource" by (simp add: podResource_def vpaResource_def)
    show ?thesis
    proof (cases "\<exists>vpa. as_ParseVPA srv (rq_Object request) = Inr vpa \<and> valid_vpa vpa")
      case False
      then have "\<exists>err. getPatchesForVPADefaults srv (rq_Object request) = Inl err"
        by (auto simp: getPatchesForVPADefaults_def validateVPA_iff [symmetric] split: sum.split option.split)
      then show ?thesis using True False vpa assms(2) by (auto simp: admit_def finish_review_def Let_def)
    next
      case True
      then obtain vpa where parsed: "as_ParseVPA srv (rq_Object request) = Inr vpa" and valid: "valid_vpa vpa" by blast
      let ?patches = "if va_UpdatePolicy vpa = None then [add_patch ''/spec/updatePolicy'' (JObject [(''updateMode'', JString UpdateModeAuto)])] else []"
      have patches: "getPatchesForVPADefaults srv (rq_Object request) = Inr ?patches"
        using parsed valid by (simp add: getPatchesForVPADefaults_def validateVPA_iff [symmetric])
      show ?thesis using \<open>rq_Resource request = vpaResource\<close> vpa parsed valid patches assms(2)
        by (auto simp: admit_def finish_review_def Let_def add_patch_def apply_patch_def pointer_def GetUpdateMode_def)
    qed
  qed (use False assms(2) in \<open>auto simp: admit_def finish_review_def Let_def\<close>)
qed

section \<open>Where the server fails\<close>

text \<open>A review without a request panics, although the code lets everything in that it cannot parse.\<close>

lemma review_without_request_panics: "as_ParseReview srv data = Inr None \<Longrightarrow> admit srv data = None"
  by (simp add: admit_def)

text \<open>
  The name of a resource is not escaped in the path of its patch: the slash of an extended resource is read as a
  step of the path, so the patch does not apply.
\<close>

lemma extended_resource_patch_fails:
  assumes "field (field (Some j) ''spec'') ''containers'' = Some (JArray [JObject [(''resources'', JObject [(''requests'', JObject [])])]])"
  shows "apply_patches [request_patch q_string 0 (''nvidia.com/gpu'', q)] j = None"
proof -
  obtain kvs s where "j = JObject kvs" "mget kvs ''spec'' = Some s" "field (Some s) ''containers'' = Some (JArray [JObject [(''resources'', JObject [(''requests'', JObject [])])]])"
    using assms by (auto simp: field_def split: option.splits json.splits)
  moreover from this obtain skvs where "s = JObject skvs" "mget skvs ''containers'' = Some (JArray [JObject [(''resources'', JObject [(''requests'', JObject [])])]])"
    using field_object by metis
  moreover have "pointer (container_path 0 (''/resources/requests/'' @ ''nvidia.com/gpu'')) =
      Some [''spec'', ''containers'', itoa (int 0), ''resources'', ''requests'', ''nvidia.com'', ''gpu'']"
    using container_pointer [of 0 "''resources/requests/nvidia.com/gpu''"] nat_digits_plain [of 0] itoa_int [of 0]
    by (simp add: pointer_def container_path_def unescape_plain plain_def)
  ultimately show ?thesis
    by (simp add: request_patch_def add_patch_def apply_patch_def array_index_itoa [of 0, simplified])
qed

section \<open>Witnesses\<close>

text \<open>
  A pod with one container, without requests and annotations, a limit of two cores, and an object that recommends
  three; quantities are written by the number of their units.
\<close>

definition demo_quantity_string :: "quantity \<Rightarrow> string" where
  "demo_quantity_string q = (case quotient_of q of (a, b) \<Rightarrow> itoa a @ CHR '' '' # itoa b)"

definition demo_admission_pod :: admissionPod where
  "demo_admission_pod =
     \<lparr>ap_Namespace = ''ns'', ap_Name = '''', ap_GenerateName = ''web-'', ap_Labels = [], ap_Annotations = None, ap_OwnerReferences = [],
      ap_Containers = [\<lparr>ac_Name = ''web'', ac_Requests = None, ac_Limits = Some [(''cpu'', 2)]\<rparr>]\<rparr>"

definition demo_admission_vpa :: "unit apiVpa" where
  "demo_admission_vpa =
     \<lparr>va_Namespace = ''ns'', va_Name = ''vpa'', va_CreationTimestamp = 1, va_Selector = (), va_UpdatePolicy = None,
      va_ResourcePolicy = Some demo_policy, va_Recommendation = Some \<lparr>rp_ContainerRecommendations = [demo_recommended]\<rparr>, va_Conditions = []\<rparr>"

definition demo_request :: "nat admissionRequest" where
  "demo_request = \<lparr>rq_Resource = vpaResource, rq_Object = 1, rq_Namespace = ''ns''\<rparr>"

definition demo_server :: "(nat, unit) admissionServer" where
  "demo_server =
     \<lparr>as_Selector = (\<lambda>_. Inr ('''', \<lambda>_. True)), as_Lister = (\<lambda>_. Inr [demo_admission_vpa]),
      as_RecommendationProcessor = (\<lambda>r policy conditions pod. CappingApply r policy pod), as_PodPreProcessor = NoopPreProcessor,
      as_ParseReview = (\<lambda>_. Inr (Some demo_request)), as_ParsePod = (\<lambda>_. Inr demo_admission_pod), as_ParseVPA = (\<lambda>_. Inr demo_admission_vpa),
      as_QuantityString = demo_quantity_string\<rparr>"

text \<open>Any decoding of quantities that undoes their printing; the inverse of the printing is one.\<close>

definition demo_document :: json where
  "demo_document =
     JObject [(''metadata'', JObject []),
              (''spec'', JObject [(''containers'', JArray [JObject [(''name'', JString ''web''),
                 (''resources'', JObject [(''limits'', JObject [(''cpu'', JString ''2 1'')])])]])])]"

definition split_space :: "string \<Rightarrow> string \<times> string" where
  "split_space s = (takeWhile (\<lambda>c. c \<noteq> CHR '' '') s, drop 1 (dropWhile (\<lambda>c. c \<noteq> CHR '' '') s))"

definition parse_signed :: "string \<Rightarrow> int option" where
  "parse_signed s = (case s of c # cs \<Rightarrow> if c = CHR ''-'' then map_option (\<lambda>n. - int n) (parse_digits 0 cs) else map_option int (parse_digits 0 s)
     | [] \<Rightarrow> None)"

definition demo_decode :: "json \<Rightarrow> quantity option" where
  "demo_decode j =
     (case string_of_json j of
        None \<Rightarrow> None
      | Some s \<Rightarrow>
          (case (parse_signed (fst (split_space s)), parse_signed (snd (split_space s))) of
             (Some a, Some b) \<Rightarrow> Some (of_int a / of_int b)
           | _ \<Rightarrow> None))"

lemma parse_signed_itoa: "parse_signed (itoa n) = Some n"
proof (cases "n < 0")
  case True
  then show ?thesis by (simp add: itoa_def parse_signed_def parse_nat_digits)
next
  case False
  then obtain d cs where d: "nat_digits (nat n) = digit_char d # cs" "d < 10" using nat_digits_Cons by blast
  with False show ?thesis using digit_char_not_sign [OF d(2)] parse_nat_digits [of "nat n"] by (simp add: itoa_def parse_signed_def)
qed

lemma nat_digits_no_space: "CHR '' '' \<notin> set (nat_digits n)"
proof (induction n rule: nat_digits.induct)
  case (1 n)
  have "CHR '' '' \<noteq> digit_char d" if "d < 10" for d
  proof
    assume "CHR '' '' = digit_char d"
    then show False using char_digit_digit_char [OF that] by (simp add: char_digit_def flip: \<open>CHR '' '' = digit_char d\<close>)
  qed
  then show ?case using 1 by (auto simp: nat_digits.simps [of n])
qed

lemma itoa_no_space: "CHR '' '' \<notin> set (itoa n)"
  by (simp add: itoa_def nat_digits_no_space)

lemma demo_decode_string: "demo_decode (JString (demo_quantity_string q)) = Some q"
proof -
  obtain a b where q: "quotient_of q = (a, b)" by force
  have "takeWhile (\<lambda>c. c \<noteq> CHR '' '') (itoa a @ CHR '' '' # s) = itoa a" "dropWhile (\<lambda>c. c \<noteq> CHR '' '') (itoa a @ CHR '' '' # s) = CHR '' '' # s" for s
    using itoa_no_space [of a] by (auto simp: takeWhile_append dropWhile_append)
  then have "split_space (demo_quantity_string q) = (itoa a, itoa b)"
    by (simp add: split_space_def demo_quantity_string_def q)
  then show ?thesis using quotient_of_div [OF q] by (simp add: demo_decode_def string_of_json_def parse_signed_itoa)
qed

lemma demo_admission:
  "with_capping demo_server" "as_ParsePod demo_server 0 = Inr demo_admission_pod" "decodes_pod demo_decode demo_document demo_admission_pod"
  "getMatchingVPA demo_server (named_pod ''ns'' demo_admission_pod) = Some demo_admission_vpa"
  "wf_recommendation \<lparr>rp_ContainerRecommendations = [demo_recommended]\<rparr>"
proof -
  show "with_capping demo_server" "as_ParsePod demo_server 0 = Inr demo_admission_pod"
    by (simp_all add: with_capping_def demo_server_def)
  show "getMatchingVPA demo_server (named_pod ''ns'' demo_admission_pod) = Some demo_admission_vpa"
    by (simp add: getMatchingVPA_def demo_server_def demo_admission_vpa_def GetUpdateMode_def UpdateModeOff_def UpdateModeAuto_def
        GetControllingVPAForPod_def PodMatchesVPA_def pod_view_def named_pod_def demo_admission_pod_def stronger_def)
  show "wf_recommendation \<lparr>rp_ContainerRecommendations = [demo_recommended]\<rparr>"
    by (simp add: wf_recommendation_def demo_recommended_def gomap_ok_def plain_def)
  have "demo_decode (JString ''2 1'') = Some 2"
    by (simp add: demo_decode_def string_of_json_def split_space_def parse_signed_def char_digit_def)
  then show "decodes_pod demo_decode demo_document demo_admission_pod"
    by (auto simp: decodes_pod_def demo_document_def demo_admission_pod_def decodes_container_def decodes_map_def)
qed

theorem admitted_pod_gets_recommendation_witness:
  "\<exists>patches j' pod'. getPatchesForPodResourceRequest demo_server 0 ''ns'' = Some (Inr patches) \<and>
     apply_patches patches demo_document = Some j' \<and> decodes_pod demo_decode j' pod' \<and>
     mget (nil_map (ac_Requests (hd (ap_Containers pod')))) ''cpu'' = Some 2"
proof -
  have rec: "recommended_request \<lparr>rp_ContainerRecommendations = [demo_recommended]\<rparr> (Some demo_policy)
      \<lparr>ac_Name = ''web'', ac_Requests = None, ac_Limits = Some [(''cpu'', 2)]\<rparr> ''cpu'' = Some 2"
    by (simp add: recommended_request_def GetRecommendationForContainer_def demo_recommended_def capped_def limit_cap_def policy_cap_def at_most_def at_least_def allowed_bound_def
        container_view_def nil_map_def GetContainerResourcePolicy_def demo_policy_def maybeCapToMin_def maybeCapToMax_def MilliValue_def
        DefaultContainerResourcePolicy_def)
  have vpa: "va_Recommendation demo_admission_vpa = Some \<lparr>rp_ContainerRecommendations = [demo_recommended]\<rparr>"
    "va_ResourcePolicy demo_admission_vpa = Some demo_policy" by (simp_all add: demo_admission_vpa_def)
  have dq: "\<forall>q. demo_decode (JString (as_QuantityString demo_server q)) = Some q" by (simp add: demo_server_def demo_decode_string)
  have pod: "ap_Containers demo_admission_pod = [\<lparr>ac_Name = ''web'', ac_Requests = None, ac_Limits = Some [(''cpu'', 2)]\<rparr>]"
    by (simp add: demo_admission_pod_def)
  from admitted_pod_gets_recommendation [OF demo_admission(1-3) dq demo_admission(4) vpa(1) demo_admission(5)]
  show ?thesis using rec vpa(2) by (fastforce simp: pod nil_map_def gomap_ok_def list_all2_Cons1)
qed

theorem admission_refuses_invalid_vpas_witness:
  "\<exists>response status resource. admit demo_server (0 :: nat) = Some (response, status, resource) \<and> ar_Allowed response \<and> ar_Patch response \<noteq> None"
proof -
  have "valid_vpa demo_admission_vpa"
    by (simp add: valid_vpa_def demo_admission_vpa_def demo_policy_def valid_policy_def)
  then show ?thesis
    using admission_refuses_invalid_vpas [of demo_server 0 demo_request] demo_admission(1)
    by (auto simp: demo_server_def demo_request_def demo_admission_vpa_def settled_vpa_def demo_policy_def)
qed

end
