(* ===== verification/AddonResizer.thy ===== *)
theory AddonResizer
  imports FloatOps GoStrings
begin

text \<open>
  \<open>addon-resizer/nanny\<close>: the nanny, which scales the resources of one container with the number of nodes
  (\<open>estimator.go\<close>, \<open>nanny_lib.go\<close>, the container lookups of \<open>kubernetes_client.go\<close> and the resources of
  \<open>main/pod_nanny.go\<close>).  A \<open>resource.Quantity\<close> is of a type \<open>'q\<close> whose printing, parsing, sum and comparison
  are parameters; \<open>fmt.Sscanf\<close> and \<open>fmt.Sprintf\<close> of a \<open>float64\<close> are written out.  A panic is \<open>None\<close>.
\<close>

section \<open>Scanning and printing a float64\<close>

text \<open>\<open>%f\<close>: six decimals, rounded to even.\<close>

fun pad_digits :: "nat \<Rightarrow> nat \<Rightarrow> string" where
  "pad_digits 0 n = []"
| "pad_digits (Suc k) n = pad_digits k (n div 10) @ [digit_char (n mod 10)]"

definition fmt_f :: "f64 \<Rightarrow> string" where
  "fmt_f x =
     (case x of
        Fin r \<Rightarrow> (let n = nat (round_even (\<bar>r\<bar> * 1000000))
                  in (if r < 0 then ''-'' else []) @ nat_digits (n div 1000000) @ ''.'' @ pad_digits 6 (n mod 1000000))
      | PInf \<Rightarrow> ''+Inf''
      | NInf \<Rightarrow> ''-Inf''
      | NaN \<Rightarrow> ''NaN'')"

definition is_digit :: "char \<Rightarrow> bool" where
  "is_digit c \<longleftrightarrow> char_digit c \<noteq> None"

definition digits_value :: "string \<Rightarrow> nat" where
  "digits_value ds = (case parse_digits 0 ds of Some n \<Rightarrow> n | None \<Rightarrow> 0)"

definition accept_sign :: "string \<Rightarrow> bool \<times> string" where
  "accept_sign s = (case s of [] \<Rightarrow> (False, []) | c # cs \<Rightarrow>
     if c = CHR ''-'' then (True, cs) else if c = CHR ''+'' then (False, cs) else (False, s))"

text \<open>Parsing a number out of range is an error.\<close>

definition finite_float :: "rat \<Rightarrow> f64 option" where
  "finite_float r = (case mkf r of Fin x \<Rightarrow> Some (Fin x) | _ \<Rightarrow> None)"

text \<open>
  \<open>Sscanf(s, "%f", &f)\<close> of a string that starts with a number: the longest token of a sign, digits, a fraction and
  an exponent; it is no number without digits, or with the letter of an exponent and no digits after it.
\<close>

definition scan_f :: "string \<Rightarrow> f64 option" where
  "scan_f s =
     (let (neg, s1) = accept_sign s;
          whole = takeWhile is_digit s1; s2 = dropWhile is_digit s1;
          (frac, s3) = (case s2 of c # cs \<Rightarrow> if c = CHR ''.'' then (takeWhile is_digit cs, dropWhile is_digit cs) else ([], s2) | [] \<Rightarrow> ([], []));
          (exp_letter, s4) = (case s3 of c # cs \<Rightarrow> if c = CHR ''e'' \<or> c = CHR ''E'' then (True, cs) else (False, s3) | [] \<Rightarrow> (False, []));
          (exp_neg, s5) = accept_sign s4;
          exp_digits = takeWhile is_digit s5;
          mantissa = rat_of_nat (digits_value (whole @ frac)) / 10 ^ length frac;
          e = digits_value exp_digits;
          r = (if \<not> exp_letter then mantissa else if exp_neg then mantissa / 10 ^ e else mantissa * 10 ^ e)
      in if whole @ frac = [] \<or> exp_letter \<and> exp_digits = [] then None
         else finite_float (if neg then - r else r))"

section \<open>Estimates\<close>

record 'q quantityLib =
  ql_String :: "'q \<Rightarrow> string"
  ql_Parse :: "string \<Rightarrow> 'q option"
  ql_Add :: "'q \<Rightarrow> 'q \<Rightarrow> 'q"
  ql_Cmp :: "'q \<Rightarrow> 'q \<Rightarrow> int"

type_synonym 'q resources = "(string, 'q) gomap"

record 'q nannyResource =
  nr_Base :: 'q
  nr_ExtraPerNode :: 'q
  nr_Name :: string

record 'q resourceListPair =
  lp_lower :: "'q resources"
  lp_upper :: "'q resources"

record 'q estimatorResult =
  er_RecommendedRange :: "'q resourceListPair"
  er_AcceptableRange :: "'q resourceListPair"

record 'q nannyEstimator =
  ne_Resources :: "'q nannyResource list"
  ne_AcceptanceOffset :: int
  ne_RecommendationOffset :: int

definition u64 :: "int \<Rightarrow> int" where
  "u64 n = n mod 2 ^ 64"

fun f_ceil :: "f64 \<Rightarrow> f64" where
  "f_ceil (Fin r) = Fin (of_int \<lceil>r\<rceil>)"
| "f_ceil x = x"

definition getOffsetNodeCount :: "int \<Rightarrow> int \<Rightarrow> (f64 \<Rightarrow> f64) \<Rightarrow> int" where
  "getOffsetNodeCount nodeCount offset rounder =
     u64 (i64 (i64 nodeCount + f_int (rounder (fdiv (fmul (f_of_int nodeCount) (f_of_int offset)) (f_of_int 100)))))"

text \<open>
  The number \<open>Sscanf\<close> returns is that of the items it has read, so what is cut off of the string is its first
  character if it starts with a number, and nothing otherwise.
\<close>

definition overhead_string :: "string \<Rightarrow> int \<Rightarrow> string" where
  "overhead_string perNodeString numNodes =
     (let (perNode, n) = (case scan_f perNodeString of Some f \<Rightarrow> (f, 1) | None \<Rightarrow> (Fin 0, 0))
      in fmt_f (fmul perNode (f_of_int numNodes)) @ drop n perNodeString)"

definition new_resource :: "'q quantityLib \<Rightarrow> int \<Rightarrow> 'q nannyResource \<Rightarrow> 'q option" where
  "new_resource Q numNodes r =
     (case ql_Parse Q (overhead_string (ql_String Q (nr_ExtraPerNode r)) numNodes) of
        None \<Rightarrow> None
      | Some overhead \<Rightarrow> Some (ql_Add Q (nr_Base r) overhead))"

fun calculate_from :: "'q quantityLib \<Rightarrow> int \<Rightarrow> 'q resources \<Rightarrow> 'q nannyResource list \<Rightarrow> 'q resources option" where
  "calculate_from Q numNodes resourceList [] = Some resourceList"
| "calculate_from Q numNodes resourceList (r # rs) =
     (case new_resource Q numNodes r of
        None \<Rightarrow> None
      | Some newRes \<Rightarrow> calculate_from Q numNodes (mput (nr_Name r) newRes resourceList) rs)"

definition calculateResources :: "'q quantityLib \<Rightarrow> int \<Rightarrow> 'q nannyResource list \<Rightarrow> 'q resources option" where
  "calculateResources Q numNodes rs = calculate_from Q numNodes [] rs"

definition nodesAndOffsetToRange :: "'q quantityLib \<Rightarrow> int \<Rightarrow> int \<Rightarrow> 'q nannyResource list \<Rightarrow> 'q resourceListPair option" where
  "nodesAndOffsetToRange Q numNodes offset res =
     (case calculateResources Q (getOffsetNodeCount numNodes (- offset) f_floor) res of
        None \<Rightarrow> None
      | Some lower \<Rightarrow>
          (case calculateResources Q (getOffsetNodeCount numNodes offset f_ceil) res of
             None \<Rightarrow> None
           | Some upper \<Rightarrow> Some \<lparr>lp_lower = lower, lp_upper = upper\<rparr>))"

definition scaleWithNodes :: "'q quantityLib \<Rightarrow> 'q nannyEstimator \<Rightarrow> int \<Rightarrow> 'q estimatorResult option" where
  "scaleWithNodes Q e numNodes =
     (case nodesAndOffsetToRange Q numNodes (ne_RecommendationOffset e) (ne_Resources e) of
        None \<Rightarrow> None
      | Some recommended \<Rightarrow>
          (case nodesAndOffsetToRange Q numNodes (ne_AcceptanceOffset e) (ne_Resources e) of
             None \<Rightarrow> None
           | Some acceptable \<Rightarrow> Some \<lparr>er_RecommendedRange = recommended, er_AcceptableRange = acceptable\<rparr>))"

section \<open>Comparing\<close>

definition checkResource :: "'q quantityLib \<Rightarrow> 'q estimatorResult \<Rightarrow> 'q resources \<Rightarrow> string \<Rightarrow> 'q resources option" where
  "checkResource Q est actual res =
     (let v = mget actual res;
          expMin = mget (lp_lower (er_AcceptableRange est)) res;
          expMax = mget (lp_upper (er_AcceptableRange est)) res
      in if (v \<noteq> None) \<noteq> (expMin \<noteq> None) \<or> (v \<noteq> None) \<noteq> (expMax \<noteq> None) then Some (lp_lower (er_RecommendedRange est))
         else case (v, expMin, expMax) of
                (Some x, Some mn, Some mx) \<Rightarrow>
                  if ql_Cmp Q x mn = - 1 then Some (lp_lower (er_RecommendedRange est))
                  else if ql_Cmp Q x mx = 1 then Some (lp_upper (er_RecommendedRange est))
                  else None
              | _ \<Rightarrow> None)"

fun first_overwrite :: "'q quantityLib \<Rightarrow> 'q estimatorResult \<Rightarrow> ('q resources \<times> string) list \<Rightarrow> 'q resources option" where
  "first_overwrite Q est [] = None"
| "first_overwrite Q est ((actual, res) # cs) =
     (case checkResource Q est actual res of Some newReqs \<Rightarrow> Some newReqs | None \<Rightarrow> first_overwrite Q est cs)"

definition monitored :: "string list" where
  "monitored = [''cpu'', ''memory'', ''storage'']"

record 'q resourceRequirements =
  rr_Limits :: "'q resources"
  rr_Requests :: "'q resources"

definition shouldOverwriteResources ::
  "'q quantityLib \<Rightarrow> 'q estimatorResult \<Rightarrow> 'q resources \<Rightarrow> 'q resources \<Rightarrow> 'q resourceRequirements option" where
  "shouldOverwriteResources Q est limits reqs =
     map_option (\<lambda>newReqs. \<lparr>rr_Limits = newReqs, rr_Requests = newReqs\<rparr>)
       (first_overwrite Q est (map (Pair limits) monitored @ map (Pair reqs) monitored))"

section \<open>Polling\<close>

type_synonym 'q nannyContainers = "(string \<times> 'q resourceRequirements) list"

definition ContainerResources :: "string \<Rightarrow> string + 'q nannyContainers \<Rightarrow> string + 'q resourceRequirements" where
  "ContainerResources container pod =
     (case pod of
        Inl err \<Rightarrow> Inl err
      | Inr cs \<Rightarrow> (case find (\<lambda>c. fst c = container) cs of
                      Some c \<Rightarrow> Inr (snd c)
                    | None \<Rightarrow> Inl (''Container '' @ container @ '' was not found'')))"

fun set_resources :: "string \<Rightarrow> 'q resourceRequirements \<Rightarrow> 'q nannyContainers \<Rightarrow> 'q nannyContainers option" where
  "set_resources container resources [] = None"
| "set_resources container resources (c # cs) =
     (if fst c = container then Some ((fst c, resources) # cs)
      else map_option (Cons c) (set_resources container resources cs))"

text \<open>The deployment that is written, or an error; writing it may fail as well.\<close>

definition UpdateDeployment :: "string \<Rightarrow> string + 'q nannyContainers \<Rightarrow> 'q resourceRequirements \<Rightarrow> string + 'q nannyContainers" where
  "UpdateDeployment container deployment resources =
     (case deployment of
        Inl err \<Rightarrow> Inl err
      | Inr cs \<Rightarrow> (case set_resources container resources cs of
                      Some cs' \<Rightarrow> Inr cs'
                    | None \<Rightarrow> Inl (''Container '' @ container @ '' was not found'')))"

record 'q pollInput =
  pi_nodes :: "string + int"
  pi_pod :: "string + 'q nannyContainers"
  pi_deployment :: "string + 'q nannyContainers"

text \<open>One turn of the loop of \<open>PollAPIServer\<close>: the deployment that is written, if any.\<close>

definition poll :: "'q quantityLib \<Rightarrow> 'q nannyEstimator \<Rightarrow> string \<Rightarrow> 'q pollInput \<Rightarrow> 'q nannyContainers option option" where
  "poll Q est container inp =
     (case pi_nodes inp of
        Inl err \<Rightarrow> Some None
      | Inr num \<Rightarrow>
          (case ContainerResources container (pi_pod inp) of
             Inl err \<Rightarrow> Some None
           | Inr resources \<Rightarrow>
               (case scaleWithNodes Q est num of
                  None \<Rightarrow> None
                | Some estimation \<Rightarrow>
                    (case shouldOverwriteResources Q estimation (rr_Limits resources) (rr_Requests resources) of
                       None \<Rightarrow> Some None
                     | Some overwrite \<Rightarrow>
                         (case UpdateDeployment container (pi_deployment inp) overwrite of
                            Inl err \<Rightarrow> Some None
                          | Inr cs \<Rightarrow> Some (Some cs))))))"

text \<open>
  The resources of the flags, from base and marginal amounts that are already parsed; \<open>None\<close> is a base that is
  missing.  The marginal amount of storage is that of memory.
\<close>

record 'q nannyFlags =
  nf_cpu :: "'q option"
  nf_cpuPerNode :: 'q
  nf_memory :: "'q option"
  nf_memoryPerNode :: 'q
  nf_storage :: "'q option"
  nf_storagePerNode :: 'q

definition nanny_resources :: "'q nannyFlags \<Rightarrow> 'q nannyResource list" where
  "nanny_resources f =
     (case nf_cpu f of None \<Rightarrow> [] | Some base \<Rightarrow> [\<lparr>nr_Base = base, nr_ExtraPerNode = nf_cpuPerNode f, nr_Name = ''cpu''\<rparr>])
     @ (case nf_memory f of None \<Rightarrow> [] | Some base \<Rightarrow> [\<lparr>nr_Base = base, nr_ExtraPerNode = nf_memoryPerNode f, nr_Name = ''memory''\<rparr>])
     @ (case nf_storage f of None \<Rightarrow> [] | Some base \<Rightarrow> [\<lparr>nr_Base = base, nr_ExtraPerNode = nf_memoryPerNode f, nr_Name = ''storage''\<rparr>])"

end
