(* ===== verification/AddonResizerProps.thy ===== *)
theory AddonResizerProps
  imports AddonResizer
begin

text \<open>
  What the nanny does: it writes exactly if a resource is outside the acceptable range, what it writes is acceptable,
  so it settles, and the amounts it asks for are the base plus the marginal amount of every node, unless the marginal
  amount is written with an exponent.
\<close>

section \<open>Node counts\<close>

lemma mkf_within:
  assumes "\<bar>n\<bar> \<le> 2 ^ 53" "0 \<le> x" "x \<le> of_int n"
  shows "mkf x = Fin (rnd x)" "0 \<le> rnd x" "rnd x \<le> of_int n"
proof -
  have n: "rnd (of_int n) = of_int n" by (rule rnd_of_int [OF assms(1)])
  show le: "0 \<le> rnd x" "rnd x \<le> of_int n"
    using rnd_mono [OF assms(2)] rnd_mono [OF assms(3)] n by simp_all
  have "f64_ok (Fin (of_int n))" by (rule f64_ok_of_int [OF assms(1)])
  then have "(of_int n :: rat) \<le> maxFloat64" by (simp add: abs_le_iff)
  then show "mkf x = Fin (rnd x)" using le maxFloat64_pos by (simp add: mkf_def Let_def)
qed

text \<open>The offset in nodes, and the counts it gives.\<close>

definition node_offset :: "int \<Rightarrow> int \<Rightarrow> int" where
  "node_offset num offset = \<lceil>rnd (of_int (num * offset) / 100)\<rceil>"

lemma percentage:
  assumes "0 \<le> num" "num * 100 \<le> 2 ^ 53" "0 \<le> offset" "offset \<le> 100"
  shows "\<bar>num\<bar> \<le> 2 ^ 53" "0 \<le> (of_int (num * offset) :: rat) / 100" "(of_int (num * offset) :: rat) / 100 \<le> of_int num"
proof -
  show "\<bar>num\<bar> \<le> 2 ^ 53" using assms(1,2) by linarith
  have "0 \<le> num * offset" "num * offset \<le> num * 100" using assms by (auto intro: mult_left_mono)
  then have "(0 :: rat) \<le> of_int (num * offset)" "(of_int (num * offset) :: rat) \<le> of_int (num * 100)"
    by (simp_all only: of_int_le_iff of_int_0_le_iff)
  then show "0 \<le> (of_int (num * offset) :: rat) / 100" "(of_int (num * offset) :: rat) / 100 \<le> of_int num" by simp_all
qed

lemma node_offset_range:
  assumes "0 \<le> num" "num * 100 \<le> 2 ^ 53" "0 \<le> offset" "offset \<le> 100"
  shows "0 \<le> node_offset num offset" "node_offset num offset \<le> num"
proof -
  note between = mkf_within [OF percentage [OF assms]]
  show "0 \<le> node_offset num offset" using between(2) by (simp add: node_offset_def)
  show "node_offset num offset \<le> num" unfolding node_offset_def ceiling_le_iff by (rule between(3))
qed

lemma node_offset_mono: "0 \<le> num \<Longrightarrow> a \<le> b \<Longrightarrow> node_offset num a \<le> node_offset num b"
  unfolding node_offset_def by (intro ceiling_mono rnd_mono divide_right_mono) (simp_all add: mult_left_mono)

lemma getOffsetNodeCount_spec:
  assumes "0 \<le> num" "num * 100 \<le> 2 ^ 53" "0 \<le> offset" "offset \<le> 100"
  shows "getOffsetNodeCount num offset f_ceil = num + node_offset num offset"
    and "getOffsetNodeCount num (- offset) f_floor = num - node_offset num offset"
proof -
  have p: "num * offset \<le> num * 100" "0 \<le> num * offset" using assms by (auto intro: mult_left_mono)
  have small: "\<bar>num\<bar> \<le> 2 ^ 53" "\<bar>offset\<bar> \<le> 2 ^ 53" "\<bar>- offset\<bar> \<le> 2 ^ 53" "\<bar>num * offset\<bar> \<le> 2 ^ 53" "\<bar>- (num * offset)\<bar> \<le> 2 ^ 53"
    "\<bar>100 :: int\<bar> \<le> 2 ^ 53"
    using assms p by (auto simp: abs_le_iff)
  note f = f_of_int_exact [OF small(1)] f_of_int_exact [OF small(2)] f_of_int_exact [OF small(3)] f_of_int_exact [OF small(6)]
  have product: "mkf (of_int num * of_int offset) = Fin (of_int (num * offset))" "mkf (of_int num * of_int (- offset)) = Fin (of_int (- (num * offset)))"
    using f_of_int_exact [OF small(4)] f_of_int_exact [OF small(5)] by (simp_all add: f_of_int_def)
  define x where "x = (of_int (num * offset) :: rat) / 100"
  have quotient: "mkf x = Fin (rnd x)"
    unfolding x_def by (rule mkf_within(1) [OF percentage [OF assms]])
  have negative: "mkf (- x) = Fin (- rnd x)"
    using quotient by (auto simp: mkf_def Let_def split: if_splits)
  note range = node_offset_range [OF assms]
  have i64: "in_i64 num" "in_i64 (node_offset num offset)" "in_i64 (- node_offset num offset)" "in_i64 (num + node_offset num offset)"
    "in_i64 (num - node_offset num offset)"
    using range assms by (simp_all add: in_i64_def minInt64_def maxInt64_def)
  have u: "u64 (num + node_offset num offset) = num + node_offset num offset" "u64 (num - node_offset num offset) = num - node_offset num offset"
    using range assms by (simp_all add: u64_def)
  have "fdiv (fmul (f_of_int num) (f_of_int offset)) (f_of_int 100) = Fin (rnd x)"
    by (simp only: f fmul.simps product) (use quotient in \<open>simp add: x_def\<close>)
  moreover have "\<lceil>rnd x\<rceil> = node_offset num offset" by (simp only: node_offset_def x_def)
  ultimately show "getOffsetNodeCount num offset f_ceil = num + node_offset num offset"
    using f_int_of_int [OF i64(2)] by (simp add: getOffsetNodeCount_def i64_id i64 u)
  have "fdiv (fmul (f_of_int num) (f_of_int (- offset))) (f_of_int 100) = Fin (- rnd x)"
    by (simp only: f fmul.simps product) (use negative in \<open>simp add: x_def\<close>)
  moreover have "\<lfloor>- rnd x\<rfloor> = - node_offset num offset" by (simp add: node_offset_def x_def ceiling_def)
  ultimately show "getOffsetNodeCount num (- offset) f_floor = num - node_offset num offset"
    using f_int_of_int [OF i64(3)] by (simp add: getOffsetNodeCount_def i64_id i64 u)
qed

section \<open>Amounts\<close>

text \<open>A number with six decimals, from the number of its millionths.\<close>

definition six_decimals :: "nat \<Rightarrow> string" where
  "six_decimals n = nat_digits (n div 1000000) @ ''.'' @ pad_digits 6 (n mod 1000000)"

lemma fmt_f_nonneg: "0 \<le> r \<Longrightarrow> fmt_f (Fin r) = six_decimals (nat (round_even (r * 1000000)))"
  by (simp add: fmt_f_def six_decimals_def Let_def)

text \<open>
  What the code relies on of quantities: they compare and add as the amounts they stand for, an infinity is no
  quantity, and of two texts that differ only in a number with six decimals in front, the greater number is the
  greater quantity.
\<close>

definition quantity_law :: "'q quantityLib \<Rightarrow> ('q \<Rightarrow> rat) \<Rightarrow> bool" where
  "quantity_law Q amount \<longleftrightarrow>
     (\<forall>a b. ql_Cmp Q a b = (if amount a < amount b then - 1 else if amount b < amount a then 1 else 0)) \<and>
     (\<forall>a b. amount (ql_Add Q a b) = amount a + amount b) \<and>
     (\<forall>s. ql_Parse Q (''+Inf'' @ s) = None) \<and>
     (\<forall>m n s p q. m \<le> n \<and> ql_Parse Q (six_decimals m @ s) = Some p \<and> ql_Parse Q (six_decimals n @ s) = Some q \<longrightarrow> amount p \<le> amount q)"

definition nonneg_text :: "string \<Rightarrow> bool" where
  "nonneg_text s \<longleftrightarrow> (case scan_f s of None \<Rightarrow> True | Some f \<Rightarrow> fle (Fin 0) f)"

lemma finite_float_Fin: "finite_float r = Some f \<Longrightarrow> \<exists>x. f = Fin x"
  by (cases "mkf r") (auto simp: finite_float_def)

lemma scan_f_finite: "scan_f s = Some f \<Longrightarrow> \<exists>x. f = Fin x"
  by (auto simp: scan_f_def Let_def dest: finite_float_Fin split: prod.splits if_splits)

lemma mkf_nonneg_cases: "0 \<le> x \<Longrightarrow> mkf x = PInf \<or> (\<exists>r. mkf x = Fin r \<and> 0 \<le> r)"
  using fnonneg_mkf [of x] by (simp add: fnonneg_cases)

lemma overhead_form:
  assumes "nonneg_text s" "0 \<le> i" "i \<le> 2 ^ 53"
  shows "\<exists>x k. 0 \<le> x \<and> overhead_string s i = fmt_f (mkf (x * of_int i)) @ drop k s \<and>
     (\<forall>i'. 0 \<le> i' \<and> i' \<le> 2 ^ 53 \<longrightarrow> overhead_string s i' = fmt_f (mkf (x * of_int i')) @ drop k s)"
proof -
  have exact: "f_of_int i' = Fin (of_int i')" if "0 \<le> i' \<and> i' \<le> 2 ^ 53" for i'
    by (rule f_of_int_exact) (use that in simp)
  show ?thesis
  proof (cases "scan_f s")
    case None
    then show ?thesis using exact assms(2,3) by (intro exI [of _ 0] exI [of _ 0]) (simp add: overhead_string_def)
  next
    case (Some f)
    then obtain x where x: "f = Fin x" using scan_f_finite by blast
    have "0 \<le> x" using assms(1) Some x by (simp add: nonneg_text_def)
    then show ?thesis using Some x exact assms(2,3) by (intro exI [of _ x] exI [of _ 1]) (simp add: overhead_string_def)
  qed
qed

lemma new_resource_mono:
  assumes law: "quantity_law Q amount" and nonneg: "nonneg_text (ql_String Q (nr_ExtraPerNode r))"
    and le: "0 \<le> m" "m \<le> n" "n \<le> 2 ^ 53"
    and a: "new_resource Q m r = Some a" and b: "new_resource Q n r = Some b"
  shows "amount a \<le> amount b"
proof -
  let ?s = "ql_String Q (nr_ExtraPerNode r)"
  obtain x k where x: "0 \<le> x" and overhead: "\<And>i. 0 \<le> i \<Longrightarrow> i \<le> 2 ^ 53 \<Longrightarrow> overhead_string ?s i = fmt_f (mkf (x * of_int i)) @ drop k ?s"
    using overhead_form [OF nonneg, of 0] by auto
  have parsed: "\<exists>r. mkf (x * of_int i) = Fin r \<and> 0 \<le> r \<and> ql_Parse Q (six_decimals (nat (round_even (r * 1000000))) @ drop k ?s) = Some q"
    if i: "0 \<le> i" "i \<le> 2 ^ 53" "ql_Parse Q (overhead_string ?s i) = Some q" for i q
  proof (cases "mkf (x * of_int i) = PInf")
    case True
    then show ?thesis using law i overhead [of i] by (simp add: fmt_f_def quantity_law_def)
  next
    case False
    then obtain r where r: "mkf (x * of_int i) = Fin r" "0 \<le> r" using mkf_nonneg_cases [OF mult_nonneg_nonneg [OF x, of "of_int i"]] i(1) by auto
    then show ?thesis using i overhead [of i] by (simp add: fmt_f_nonneg)
  qed
  obtain p where p: "ql_Parse Q (overhead_string ?s m) = Some p" "a = ql_Add Q (nr_Base r) p"
    using a by (auto simp: new_resource_def split: option.splits)
  obtain q where q: "ql_Parse Q (overhead_string ?s n) = Some q" "b = ql_Add Q (nr_Base r) q"
    using b by (auto simp: new_resource_def split: option.splits)
  obtain rm where rm: "mkf (x * of_int m) = Fin rm" "0 \<le> rm" "ql_Parse Q (six_decimals (nat (round_even (rm * 1000000))) @ drop k ?s) = Some p"
    using parsed [OF _ _ p(1)] le by auto
  obtain rn where rn: "mkf (x * of_int n) = Fin rn" "0 \<le> rn" "ql_Parse Q (six_decimals (nat (round_even (rn * 1000000))) @ drop k ?s) = Some q"
    using parsed [OF _ _ q(1)] le by auto
  have "fle (mkf (x * of_int m)) (mkf (x * of_int n))"
    by (rule mkf_mono) (use x le in \<open>simp add: mult_left_mono\<close>)
  then have "nat (round_even (rm * 1000000)) \<le> nat (round_even (rn * 1000000))"
    using rm rn by (intro nat_mono round_even_mono) simp
  then have "amount p \<le> amount q" using law rm(3) rn(3) unfolding quantity_law_def by blast
  moreover have "amount a = amount (nr_Base r) + amount p" "amount b = amount (nr_Base r) + amount q"
    using law p(2) q(2) by (simp_all add: quantity_law_def)
  ultimately show ?thesis by simp
qed

section \<open>Lists of resources\<close>

lemma calculate_from_keys:
  "calculate_from Q n l rs = Some l' \<Longrightarrow> mget l' name \<noteq> None \<longleftrightarrow> mget l name \<noteq> None \<or> name \<in> nr_Name ` set rs"
  by (induction Q n l rs rule: calculate_from.induct) (auto split: option.splits if_splits)

lemma calculate_from_value:
  "calculate_from Q n l rs = Some l' \<Longrightarrow> r \<in> set rs \<Longrightarrow> distinct (map nr_Name rs) \<Longrightarrow> mget l' (nr_Name r) = new_resource Q n r"
proof (induction Q n l rs rule: calculate_from.induct)
  case (2 Q n l r0 rs)
  then obtain v where v: "new_resource Q n r0 = Some v" "calculate_from Q n (mput (nr_Name r0) v l) rs = Some l'"
    by (auto split: option.splits)
  show ?case
  proof (cases "r = r0")
    case True
    have other: "mget l'' name = mget l0 name" if "calculate_from Q n l0 rs' = Some l''" "name \<notin> nr_Name ` set rs'" for l0 rs' l'' name
      using that by (induction Q n l0 rs' rule: calculate_from.induct) (auto split: option.splits)
    show ?thesis using other [OF v(2), of "nr_Name r0"] 2(4) v(1) True by auto
  next
    case False
    then show ?thesis using 2 v by auto
  qed
qed simp

lemma calculateResources_spec:
  assumes "calculateResources Q n rs = Some l" "distinct (map nr_Name rs)"
  shows "mget l name \<noteq> None \<longleftrightarrow> name \<in> nr_Name ` set rs" "r \<in> set rs \<Longrightarrow> mget l (nr_Name r) = new_resource Q n r"
  using assms calculate_from_keys [of Q n "[]" rs l name] calculate_from_value [of Q n "[]" rs l r]
  by (simp_all add: calculateResources_def)

text \<open>All four ends of the two ranges hold the same resources, in order.\<close>

definition nested_ranges :: "('q \<Rightarrow> rat) \<Rightarrow> 'q nannyEstimator \<Rightarrow> 'q estimatorResult \<Rightarrow> bool" where
  "nested_ranges amount e est \<longleftrightarrow>
     (\<forall>l\<in>{lp_lower (er_AcceptableRange est), lp_lower (er_RecommendedRange est), lp_upper (er_RecommendedRange est), lp_upper (er_AcceptableRange est)}.
        \<forall>name. mget l name \<noteq> None \<longleftrightarrow> name \<in> nr_Name ` set (ne_Resources e)) \<and>
     (\<forall>name a b c d. mget (lp_lower (er_AcceptableRange est)) name = Some a \<and> mget (lp_lower (er_RecommendedRange est)) name = Some b \<and>
        mget (lp_upper (er_RecommendedRange est)) name = Some c \<and> mget (lp_upper (er_AcceptableRange est)) name = Some d \<longrightarrow>
        amount a \<le> amount b \<and> amount b \<le> amount c \<and> amount c \<le> amount d)"

definition estimator_ok :: "'q quantityLib \<Rightarrow> 'q nannyEstimator \<Rightarrow> bool" where
  "estimator_ok Q e \<longleftrightarrow> distinct (map nr_Name (ne_Resources e)) \<and>
     (\<forall>r\<in>set (ne_Resources e). nonneg_text (ql_String Q (nr_ExtraPerNode r))) \<and>
     0 \<le> ne_RecommendationOffset e \<and> ne_RecommendationOffset e \<le> ne_AcceptanceOffset e \<and> ne_AcceptanceOffset e \<le> 100"

lemma scaleWithNodes_nested:
  assumes law: "quantity_law Q amount" and e: "estimator_ok Q e" and num: "0 \<le> num" "num * 100 \<le> 2 ^ 53"
    and est: "scaleWithNodes Q e num = Some est"
  shows "nested_ranges amount e est"
proof -
  let ?rs = "ne_Resources e" and ?r = "ne_RecommendationOffset e" and ?a = "ne_AcceptanceOffset e"
  have offsets: "0 \<le> ?r" "?r \<le> 100" "0 \<le> ?a" "?a \<le> 100" "?r \<le> ?a" using e by (auto simp: estimator_ok_def)
  define d1 d2 where "d1 = node_offset num ?r" and "d2 = node_offset num ?a"
  have d: "0 \<le> d1" "d1 \<le> d2" "d2 \<le> num"
    using node_offset_range [OF num offsets(1,2)] node_offset_range [OF num offsets(3,4)] node_offset_mono [OF num(1) offsets(5)]
    by (simp_all add: d1_def d2_def)
  have lists: "calculateResources Q (num - d2) ?rs = Some (lp_lower (er_AcceptableRange est))"
    "calculateResources Q (num - d1) ?rs = Some (lp_lower (er_RecommendedRange est))"
    "calculateResources Q (num + d1) ?rs = Some (lp_upper (er_RecommendedRange est))"
    "calculateResources Q (num + d2) ?rs = Some (lp_upper (er_AcceptableRange est))"
    using est getOffsetNodeCount_spec [OF num offsets(1,2)] getOffsetNodeCount_spec [OF num offsets(3,4)]
    by (auto simp: scaleWithNodes_def nodesAndOffsetToRange_def d1_def d2_def split: option.splits)
  have dist: "distinct (map nr_Name ?rs)" using e by (simp add: estimator_ok_def)
  note spec = calculateResources_spec [OF lists(1) dist] calculateResources_spec [OF lists(2) dist]
    calculateResources_spec [OF lists(3) dist] calculateResources_spec [OF lists(4) dist]
  have range: "0 \<le> num - d2" "num - d2 \<le> num - d1" "num - d1 \<le> 2 ^ 53" "0 \<le> num - d1" "num - d1 \<le> num + d1" "num + d1 \<le> 2 ^ 53"
    "0 \<le> num + d1" "num + d1 \<le> num + d2" "num + d2 \<le> 2 ^ 53"
    using d num by simp_all
  have order: "amount a \<le> amount b \<and> amount b \<le> amount c \<and> amount c \<le> amount x"
    if m: "mget (lp_lower (er_AcceptableRange est)) name = Some a" "mget (lp_lower (er_RecommendedRange est)) name = Some b"
      "mget (lp_upper (er_RecommendedRange est)) name = Some c" "mget (lp_upper (er_AcceptableRange est)) name = Some x" for name a b c x
  proof -
    obtain r where r: "r \<in> set ?rs" "name = nr_Name r" using spec(1) [of name] m(1) by auto
    have nonneg: "nonneg_text (ql_String Q (nr_ExtraPerNode r))" using e r(1) by (simp add: estimator_ok_def)
    note mono = new_resource_mono [OF law nonneg]
    from m have "new_resource Q (num - d2) r = Some a" "new_resource Q (num - d1) r = Some b" "new_resource Q (num + d1) r = Some c"
      "new_resource Q (num + d2) r = Some x"
      using spec(2,4,6,8) [OF r(1)] r(2) by simp_all
    then show ?thesis using mono [OF range(1-3)] mono [OF range(4-6)] mono [OF range(7-9)] by blast
  qed
  show ?thesis unfolding nested_ranges_def using spec(1,3,5,7) order by auto
qed

section \<open>When resources are written\<close>

text \<open>The resources \<open>l\<close> are as the estimate accepts them.\<close>

definition acceptable :: "'q quantityLib \<Rightarrow> 'q estimatorResult \<Rightarrow> 'q resources \<Rightarrow> bool" where
  "acceptable Q est l \<longleftrightarrow> (\<forall>name\<in>set monitored. checkResource Q est l name = None)"

lemma first_overwrite_None: "first_overwrite Q est cs = None \<longleftrightarrow> (\<forall>(l, name)\<in>set cs. checkResource Q est l name = None)"
  by (induction Q est cs rule: first_overwrite.induct) (auto split: option.splits)

lemma should_overwrite_None: "shouldOverwriteResources Q est limits reqs = None \<longleftrightarrow> acceptable Q est limits \<and> acceptable Q est reqs"
  by (auto simp: shouldOverwriteResources_def first_overwrite_None acceptable_def)

lemma first_overwrite_Some:
  "first_overwrite Q est cs = Some l \<Longrightarrow> l \<in> {lp_lower (er_RecommendedRange est), lp_upper (er_RecommendedRange est)}"
  by (induction Q est cs rule: first_overwrite.induct) (auto simp: checkResource_def Let_def split: option.splits if_splits)

lemma acceptable_iff:
  assumes "quantity_law Q amount" "nested_ranges amount e est"
  shows "acceptable Q est l \<longleftrightarrow> (\<forall>name\<in>set monitored. (mget l name \<noteq> None \<longleftrightarrow> name \<in> nr_Name ` set (ne_Resources e)) \<and>
     (\<forall>x mn mx. mget l name = Some x \<and> mget (lp_lower (er_AcceptableRange est)) name = Some mn \<and>
        mget (lp_upper (er_AcceptableRange est)) name = Some mx \<longrightarrow> amount mn \<le> amount x \<and> amount x \<le> amount mx))"
proof -
  have "checkResource Q est l name = None \<longleftrightarrow> (mget l name \<noteq> None \<longleftrightarrow> name \<in> nr_Name ` set (ne_Resources e)) \<and>
     (\<forall>x mn mx. mget l name = Some x \<and> mget (lp_lower (er_AcceptableRange est)) name = Some mn \<and>
        mget (lp_upper (er_AcceptableRange est)) name = Some mx \<longrightarrow> amount mn \<le> amount x \<and> amount x \<le> amount mx)" for name
  proof -
    have keys: "mget (lp_lower (er_AcceptableRange est)) name \<noteq> None \<longleftrightarrow> name \<in> nr_Name ` set (ne_Resources e)"
      "mget (lp_upper (er_AcceptableRange est)) name \<noteq> None \<longleftrightarrow> name \<in> nr_Name ` set (ne_Resources e)"
      using assms(2) by (simp_all add: nested_ranges_def)
    have cmp: "ql_Cmp Q a b = (if amount a < amount b then - 1 else if amount b < amount a then 1 else 0)" for a b
      using assms(1) by (simp add: quantity_law_def)
    show ?thesis using keys
      by (cases "mget l name"; cases "mget (lp_lower (er_AcceptableRange est)) name"; cases "mget (lp_upper (er_AcceptableRange est)) name")
        (auto simp: checkResource_def cmp)
  qed
  then show ?thesis by (simp add: acceptable_def)
qed

lemma recommended_acceptable:
  assumes "quantity_law Q amount" "nested_ranges amount e est"
    "l \<in> {lp_lower (er_RecommendedRange est), lp_upper (er_RecommendedRange est)}"
  shows "acceptable Q est l"
proof -
  note nested = assms(2) [unfolded nested_ranges_def]
  have "mget l name \<noteq> None \<longleftrightarrow> name \<in> nr_Name ` set (ne_Resources e)" for name using nested assms(3) by auto
  moreover have "amount mn \<le> amount x \<and> amount x \<le> amount mx"
    if x: "mget l name = Some x" "mget (lp_lower (er_AcceptableRange est)) name = Some mn" "mget (lp_upper (er_AcceptableRange est)) name = Some mx"
    for name x mn mx
  proof -
    have "name \<in> nr_Name ` set (ne_Resources e)" using nested x(2) by auto
    then obtain b c where "mget (lp_lower (er_RecommendedRange est)) name = Some b" "mget (lp_upper (er_RecommendedRange est)) name = Some c"
      using nested by fastforce
    then show ?thesis using nested x assms(3) by fastforce
  qed
  ultimately show ?thesis unfolding acceptable_iff [OF assms(1,2)] by blast
qed

lemma set_resources_find:
  "set_resources container resources cs = Some cs' \<Longrightarrow> ContainerResources container (Inr cs') = Inr resources"
proof (induction cs arbitrary: cs')
  case (Cons c cs)
  then show ?case by (auto simp: ContainerResources_def split: if_splits option.splits)
qed simp

text \<open>
  C29: The nanny settles.  It writes a deployment only if the limits or the requests of its container are not
  acceptable, and what it writes is: a poll that finds the same number of nodes and the container as written leaves it
  alone, whenever the offset of the recommendation is at most that of the acceptance.
\<close>

theorem nanny_settles:
  assumes "quantity_law Q amount" "estimator_ok Q e" "0 \<le> num" "num * 100 \<le> 2 ^ 53"
    and "pi_nodes inp = Inr num" "poll Q e container inp = Some (Some cs)"
  shows "(\<exists>est resources. scaleWithNodes Q e num = Some est \<and> ContainerResources container (pi_pod inp) = Inr resources \<and>
      \<not> (acceptable Q est (rr_Limits resources) \<and> acceptable Q est (rr_Requests resources))) \<and>
    (\<forall>inp'. pi_nodes inp' = Inr num \<and> pi_pod inp' = Inr cs \<longrightarrow> poll Q e container inp' = Some None)"
proof -
  from assms(5,6) obtain est resources overwrite where est: "scaleWithNodes Q e num = Some est"
    and resources: "ContainerResources container (pi_pod inp) = Inr resources"
    and overwrite: "shouldOverwriteResources Q est (rr_Limits resources) (rr_Requests resources) = Some overwrite"
    and cs: "UpdateDeployment container (pi_deployment inp) overwrite = Inr cs"
    by (auto simp: poll_def split: sum.splits option.splits)
  obtain l where l: "overwrite = \<lparr>rr_Limits = l, rr_Requests = l\<rparr>" "l \<in> {lp_lower (er_RecommendedRange est), lp_upper (er_RecommendedRange est)}"
    using overwrite first_overwrite_Some [of Q est] by (auto simp: shouldOverwriteResources_def)
  have "acceptable Q est l" by (rule recommended_acceptable [OF assms(1) scaleWithNodes_nested [OF assms(1-4) est] l(2)])
  then have settled: "shouldOverwriteResources Q est l l = None" by (simp add: should_overwrite_None)
  have "ContainerResources container (Inr cs) = Inr overwrite"
    using cs set_resources_find by (auto simp: UpdateDeployment_def split: sum.splits option.splits)
  then have "poll Q e container inp' = Some None" if "pi_nodes inp' = Inr num \<and> pi_pod inp' = Inr cs" for inp'
    using that est settled l(1) by (simp add: poll_def)
  moreover have "\<not> (acceptable Q est (rr_Limits resources) \<and> acceptable Q est (rr_Requests resources))"
    using overwrite should_overwrite_None [of Q est "rr_Limits resources" "rr_Requests resources"] by auto
  ultimately show ?thesis using est resources by blast
qed

section \<open>The amount of many nodes\<close>

lemma is_digit_nat_digits: "\<forall>c\<in>set (nat_digits n). is_digit c"
proof (induction n rule: nat_digits.induct)
  case (1 n)
  then show ?case by (auto simp: nat_digits.simps [of n] is_digit_def char_digit_digit_char)
qed

text \<open>A suffix that cannot be read as part of the number before it.\<close>

definition plain_suffix :: "string \<Rightarrow> bool" where
  "plain_suffix s \<longleftrightarrow> (case s of [] \<Rightarrow> True | c # _ \<Rightarrow> \<not> is_digit c \<and> c \<notin> {CHR ''.'', CHR ''e'', CHR ''E''})"

lemma scan_number:
  assumes "int k \<le> 2 ^ 53" "plain_suffix s"
  shows "scan_f (nat_digits k @ s) = Some (Fin (of_nat k))"
proof -
  obtain d cs where d: "nat_digits k = digit_char d # cs" "d < 10" using nat_digits_Cons by blast
  have sign: "accept_sign (nat_digits k @ s) = (False, nat_digits k @ s)"
    using d digit_char_not_sign [OF d(2)] by (simp add: accept_sign_def)
  have "takeWhile is_digit s = [] \<and> dropWhile is_digit s = s" using assms(2) by (cases s) (auto simp: plain_suffix_def)
  then have split: "takeWhile is_digit (nat_digits k @ s) = nat_digits k" "dropWhile is_digit (nat_digits k @ s) = s"
    using is_digit_nat_digits [of k] by (simp_all add: takeWhile_append2 dropWhile_append2)
  have ne: "nat_digits k \<noteq> []" using d(1) by simp
  have "mkf (of_nat k) = Fin (of_nat k)" using f_of_int_exact [of "int k"] assms(1) by (simp add: f_of_int_def)
  then have float: "finite_float (of_nat k) = Some (Fin (of_nat k))" by (simp add: finite_float_def)
  have all: "takeWhile is_digit (nat_digits k) = nat_digits k" "dropWhile is_digit (nat_digits k) = []"
    using is_digit_nat_digits [of k] by simp_all
  show ?thesis
  proof (cases s)
    case Nil
    then show ?thesis using sign float ne by (simp add: scan_f_def accept_sign_def [of "[]"] digits_value_def parse_nat_digits all Let_def)
  next
    case (Cons c cs)
    then show ?thesis using sign split float ne assms(2)
      by (cases "accept_sign (c # cs)") (auto simp: scan_f_def digits_value_def parse_nat_digits plain_suffix_def)
  qed
qed

text \<open>
  The text of the amount for many nodes is the exact product with six decimals, then what is left of the text of one
  node: its further digits, which stand behind the decimals, and its unit.
\<close>

lemma overhead_of_nodes:
  assumes "plain_suffix s" "0 \<le> n" "n \<le> 2 ^ 53" "int k * n \<le> 2 ^ 53" "int k \<le> 2 ^ 53"
  shows "overhead_string (nat_digits k @ s) n = six_decimals (k * nat n * 1000000) @ tl (nat_digits k) @ s"
proof -
  have f: "f_of_int n = Fin (of_int n)" using f_of_int_exact [of n] assms(2,3) by simp
  have "\<bar>int k * n\<bar> \<le> 2 ^ 53" using assms(2,4) by simp
  from f_of_int_exact [OF this] have "mkf (of_int (int k * n)) = Fin (of_int (int k * n))" by (simp only: f_of_int_def)
  then have product: "fmul (Fin (of_nat k)) (f_of_int n) = Fin (of_int (int k * n))" using f by simp
  have "round_even (of_int (int k * n) * 1000000) = int k * n * 1000000"
    using round_even_of_int [of "int k * n * 1000000"] by simp
  then have "fmt_f (Fin (of_int (int k * n))) = six_decimals (k * nat n * 1000000)"
    using fmt_f_nonneg [of "of_int (int k * n)"] assms(2) by (simp add: nat_mult_distrib)
  then show ?thesis
    using scan_number [OF assms(5,1)] product nat_digits_Cons [of k] by (auto simp: overhead_string_def)
qed

text \<open>With an exponent the number of the exponent is read into the product and then left behind it once more.\<close>

lemma pad_digits_6: "pad_digits 6 0 = ''000000''"
  by code_simp

lemma char_of_digits: "char_of (48 :: nat) = CHR ''0''" "char_of (49 :: nat) = CHR ''1''"
  by code_simp+

lemma exponent_counted_twice: "overhead_string ''5e3'' 2 = ''10000.000000e3''"
proof -
  have float: "mkf (of_int i) = Fin (of_int i)" if "\<bar>i\<bar> \<le> 2 ^ 53" for i
    using f_of_int_exact [OF that] by (simp only: f_of_int_def)
  have "scan_f ''5e3'' = Some (Fin 5000)"
    using float [of 5000] by (simp add: scan_f_def accept_sign_def is_digit_def char_digit_def digits_value_def finite_float_def)
  moreover have "fmul (Fin 5000) (f_of_int 2) = Fin 10000" using f_of_int_exact [of 2] float [of 10000] by simp
  moreover have "six_decimals 10000000000 = ''10000.000000''"
    by (simp add: six_decimals_def nat_digits.simps [of 10000] nat_digits.simps [of 1000] nat_digits.simps [of 100] nat_digits.simps [of 10]
        nat_digits.simps [of "Suc 0"] pad_digits_6 digit_char_def char_of_digits)
  then have "fmt_f (Fin 10000) = ''10000.000000''"
    using fmt_f_nonneg [of 10000] round_even_of_int [of "10000000000"] by simp
  ultimately show ?thesis by (simp add: overhead_string_def)
qed

text \<open>The storage of a node is the memory of a node.\<close>

lemma storage_grows_by_memory:
  "nf_storage f = Some base \<Longrightarrow> \<lparr>nr_Base = base, nr_ExtraPerNode = nf_memoryPerNode f, nr_Name = ''storage''\<rparr> \<in> set (nanny_resources f)"
  by (simp add: nanny_resources_def)

section \<open>Witness\<close>

text \<open>Quantities without units: numbers in decimal notation.  One core and five for each of ten nodes.\<close>

definition demo_parse_quantity :: "string \<Rightarrow> rat option" where
  "demo_parse_quantity s =
     (let whole = takeWhile is_digit s
      in if whole = [] then None
         else case dropWhile is_digit s of
                [] \<Rightarrow> Some (of_nat (digits_value whole))
              | c # ds \<Rightarrow> if c = CHR ''.'' \<and> list_all is_digit ds then Some (of_nat (digits_value (whole @ ds)) / 10 ^ length ds) else None)"

definition demo_quantities :: "rat quantityLib" where
  "demo_quantities =
     \<lparr>ql_String = (\<lambda>q. nat_digits (nat \<lfloor>q\<rfloor>)), ql_Parse = demo_parse_quantity, ql_Add = (+),
      ql_Cmp = (\<lambda>a b. if a < b then - 1 else if b < a then 1 else 0)\<rparr>"

definition demo_marginal :: "rat nannyResource" where
  "demo_marginal = \<lparr>nr_Base = 1, nr_ExtraPerNode = 5, nr_Name = ''cpu''\<rparr>"

definition demo_nanny :: "rat nannyEstimator" where
  "demo_nanny = \<lparr>ne_Resources = [demo_marginal], ne_AcceptanceOffset = 20, ne_RecommendationOffset = 10\<rparr>"

definition demo_poll :: "rat pollInput" where
  "demo_poll = \<lparr>pi_nodes = Inr 10, pi_pod = Inr [(''web'', \<lparr>rr_Limits = [(''cpu'', 1)], rr_Requests = [(''cpu'', 1)]\<rparr>)],
     pi_deployment = Inr [(''web'', \<lparr>rr_Limits = [(''cpu'', 1)], rr_Requests = [(''cpu'', 1)]\<rparr>)]\<rparr>"

lemma parse_digits_value: "\<forall>c\<in>set ds. is_digit c \<Longrightarrow> parse_digits acc ds = Some (acc * 10 ^ length ds + digits_value ds)"
proof (induction ds arbitrary: acc)
  case (Cons c ds)
  then obtain d where d: "char_digit c = Some d" by (auto simp: is_digit_def)
  have *: "parse_digits a ds = Some (a * 10 ^ length ds + digits_value ds)" for a using Cons by simp
  show ?case using d * [of "10 * acc + d"] * [of d] by (simp add: digits_value_def algebra_simps)
qed (simp add: digits_value_def)

lemma is_digit_pad: "\<forall>c\<in>set (pad_digits k n). is_digit c"
  by (induction k arbitrary: n) (auto simp: is_digit_def char_digit_digit_char)

lemma parse_pad: "n < 10 ^ k \<Longrightarrow> parse_digits acc (pad_digits k n) = Some (acc * 10 ^ k + n)"
proof (induction k arbitrary: n)
  case (Suc k)
  then have "n div 10 < 10 ^ k" by (simp add: div_less_iff_less_mult mult.commute)
  then show ?case using Suc.IH by (simp add: parse_digits_append char_digit_digit_char algebra_simps)
qed simp

lemma length_pad [simp]: "length (pad_digits k n) = k"
  by (induction k arbitrary: n) auto

lemma digits_value_append:
  "\<forall>c\<in>set a. is_digit c \<Longrightarrow> \<forall>c\<in>set b. is_digit c \<Longrightarrow> digits_value (a @ b) = digits_value a * 10 ^ length b + digits_value b"
  using parse_digits_value [of a 0] parse_digits_value [of b] by (simp add: digits_value_def [of "a @ b"] parse_digits_append)

lemma digits_value_six: "digits_value (nat_digits (n div 1000000) @ pad_digits 6 (n mod 1000000)) = n"
proof -
  have "digits_value (nat_digits m) = m" for m by (simp add: digits_value_def parse_nat_digits)
  moreover have "digits_value (pad_digits 6 (n mod 1000000)) = n mod 1000000"
    using parse_pad [of "n mod 1000000" 6 0] by (simp add: digits_value_def)
  ultimately show ?thesis using digits_value_append [OF is_digit_nat_digits is_digit_pad] by simp
qed

lemma demo_parse_six:
  "demo_parse_quantity (six_decimals n @ s) =
     (if \<forall>c\<in>set s. is_digit c then Some ((of_nat n * 10 ^ length s + of_nat (digits_value s)) / 10 ^ (6 + length s)) else None)"
proof -
  let ?w = "nat_digits (n div 1000000)" and ?f = "pad_digits 6 (n mod 1000000)"
  obtain d cs where d: "?w = d # cs" using nat_digits_Cons by blast
  have dot: "\<not> is_digit (CHR ''.'')" by (simp add: is_digit_def char_digit_def)
  have split: "takeWhile is_digit (?w @ CHR ''.'' # t) = ?w" "dropWhile is_digit (?w @ CHR ''.'' # t) = CHR ''.'' # t" for t
    using is_digit_nat_digits [of "n div 1000000"] dot by (simp_all add: takeWhile_append2 dropWhile_append2)
  have all: "list_all is_digit (?f @ s) \<longleftrightarrow> (\<forall>c\<in>set s. is_digit c)" using is_digit_pad [of 6] by (auto simp: list_all_iff)
  have "\<forall>c\<in>set (?w @ ?f). is_digit c" using is_digit_nat_digits is_digit_pad by auto
  then have "digits_value (?w @ ?f @ s) = n * 10 ^ length s + digits_value s" if "\<forall>c\<in>set s. is_digit c"
    using digits_value_append [of "?w @ ?f" s] that digits_value_six [of n] by simp
  then show ?thesis using split [of "?f @ s"] all d
    by (simp add: demo_parse_quantity_def six_decimals_def Let_def)
qed

lemma demo_quantity_law: "quantity_law demo_quantities id"
proof -
  have "a \<le> b" if "m \<le> n" "demo_parse_quantity (six_decimals m @ s) = Some a" "demo_parse_quantity (six_decimals n @ s) = Some b" for m n s a b
  proof -
    have "(of_nat m :: rat) * 10 ^ length s \<le> of_nat n * 10 ^ length s" using that(1) by (intro mult_right_mono) simp_all
    then show ?thesis using that(2,3) by (auto simp: demo_parse_six divide_right_mono split: if_splits)
  qed
  moreover have "demo_parse_quantity (''+Inf'' @ s) = None" for s
    by (simp add: demo_parse_quantity_def is_digit_def char_digit_def)
  ultimately show ?thesis unfolding quantity_law_def demo_quantities_def by simp blast
qed

lemma nat_digits_5: "nat_digits 5 = ''5''"
  by (simp add: nat_digits.simps [of 5] digit_char_def) code_simp

lemma demo_new_resource:
  assumes "0 \<le> n" "n \<le> 1000"
  shows "new_resource demo_quantities n demo_marginal = Some (1 + 5 * of_int n)"
proof -
  have "overhead_string (nat_digits 5 @ []) n = six_decimals (5 * nat n * 1000000) @ tl (nat_digits 5) @ []"
    by (rule overhead_of_nodes) (use assms in \<open>simp_all add: plain_suffix_def\<close>)
  then have "overhead_string (nat_digits 5) n = six_decimals (5 * nat n * 1000000) @ []" by (simp add: nat_digits_5)
  then show ?thesis using demo_parse_six [of "5 * nat n * 1000000" "[]"] assms
    by (simp add: new_resource_def demo_quantities_def demo_marginal_def digits_value_def)
qed

lemma demo_estimator_ok: "estimator_ok demo_quantities demo_nanny"
  using scan_number [of 5 "[]"] by (simp add: estimator_ok_def demo_nanny_def demo_marginal_def demo_quantities_def nonneg_text_def plain_suffix_def)

lemma demo_node_offset: "node_offset 10 10 = 1" "node_offset 10 20 = 2"
  using rnd_of_int [of 1] rnd_of_int [of 2] by (simp_all add: node_offset_def)

lemma demo_scale:
  "scaleWithNodes demo_quantities demo_nanny 10 =
     Some \<lparr>er_RecommendedRange = \<lparr>lp_lower = [(''cpu'', 46)], lp_upper = [(''cpu'', 56)]\<rparr>,
           er_AcceptableRange = \<lparr>lp_lower = [(''cpu'', 41)], lp_upper = [(''cpu'', 61)]\<rparr>\<rparr>"
proof -
  have counts: "getOffsetNodeCount 10 10 f_ceil = 11" "getOffsetNodeCount 10 (- 10) f_floor = 9"
    "getOffsetNodeCount 10 20 f_ceil = 12" "getOffsetNodeCount 10 (- 20) f_floor = 8"
    using getOffsetNodeCount_spec [of 10 10] getOffsetNodeCount_spec [of 10 20] by (simp_all add: demo_node_offset)
  have name: "nr_Name demo_marginal = ''cpu''" by (simp add: demo_marginal_def)
  show ?thesis
    by (simp add: scaleWithNodes_def nodesAndOffsetToRange_def counts demo_nanny_def calculateResources_def demo_new_resource name mput_def)
qed

lemma demo_poll_writes:
  "poll demo_quantities demo_nanny ''web'' demo_poll =
     Some (Some [(''web'', \<lparr>rr_Limits = [(''cpu'', 46)], rr_Requests = [(''cpu'', 46)]\<rparr>)])"
proof -
  have cmp: "ql_Cmp demo_quantities a b = (if a < b then - 1 else if b < a then 1 else 0)" for a b
    by (simp add: demo_quantities_def)
  show ?thesis
    by (simp add: poll_def demo_poll_def ContainerResources_def demo_scale shouldOverwriteResources_def monitored_def checkResource_def
        cmp UpdateDeployment_def)
qed

theorem nanny_settles_witness:
  "poll demo_quantities demo_nanny ''web''
     (demo_poll\<lparr>pi_pod := Inr [(''web'', \<lparr>rr_Limits = [(''cpu'', 46)], rr_Requests = [(''cpu'', 46)]\<rparr>)]\<rparr>) = Some None"
  using nanny_settles [OF demo_quantity_law demo_estimator_ok _ _ _ demo_poll_writes] by (simp add: demo_poll_def)

end
