(* ===== verification/Heapster.thy ===== *)
theory Heapster
  imports FloatOps GoStrings "HOL-Library.Signed_Division"
begin

text \<open>
  \<open>heapster/metrics\<close>: batches of metrics (\<open>core/types.go\<close>, \<open>core/ms_keys.go\<close>, \<open>util/label_copier.go\<close>), the
  processors that every batch goes through (\<open>processors\<close>), and the storage of the processed ones
  (\<open>sinks/metric/metric_sink.go\<close>).  A metric set is a pointer that the processors write through, so a processor
  returns the batch it has changed also when it fails.  Listers and stores are parameters.
\<close>

section \<open>Batches\<close>

datatype metricType = MetricCumulative | MetricGauge | MetricDelta

datatype valueType = ValueInt64 | ValueFloat

record metricValue =
  mv_IntValue :: int
  mv_FloatValue :: f64
  mv_MetricType :: metricType
  mv_ValueType :: valueType

type_synonym metricLabels = "(string, string) gomap"

record labeledMetric =
  lm_Name :: string
  lm_Labels :: metricLabels
  lm_Value :: metricValue

record metricSet =
  ms_CollectionStartTime :: time
  ms_EntityCreateTime :: time
  ms_ScrapeTime :: time
  ms_MetricValues :: "(string, metricValue) gomap"
  ms_Labels :: metricLabels
  ms_LabeledMetrics :: "labeledMetric list"

type_synonym metricSets = "(string, metricSet) gomap"

record dataBatch =
  db_Timestamp :: time
  db_MetricSets :: metricSets

definition PodKey :: "string \<Rightarrow> string \<Rightarrow> string" where
  "PodKey ns podName = ''namespace:'' @ ns @ ''/pod:'' @ podName"

definition PodContainerKey :: "string \<Rightarrow> string \<Rightarrow> string \<Rightarrow> string" where
  "PodContainerKey ns podName containerName = ''namespace:'' @ ns @ ''/pod:'' @ podName @ ''/container:'' @ containerName"

definition NamespaceKey :: "string \<Rightarrow> string" where
  "NamespaceKey ns = ''namespace:'' @ ns"

definition NodeKey :: "string \<Rightarrow> string" where
  "NodeKey node = ''node:'' @ node"

definition ClusterKey :: string where
  "ClusterKey = ''cluster''"

definition has_type :: "string \<Rightarrow> metricSet \<Rightarrow> bool" where
  "has_type t ms \<longleftrightarrow> mget (ms_Labels ms) ''type'' = Some t"

definition set_value :: "string \<Rightarrow> metricValue \<Rightarrow> metricSet \<Rightarrow> metricSet" where
  "set_value name v ms = ms\<lparr>ms_MetricValues := mput name v (ms_MetricValues ms)\<rparr>"

lemma values_set_value [simp]: "ms_MetricValues (set_value name v ms) = mput name v (ms_MetricValues ms)"
  by (simp add: set_value_def)

lemma labels_set_value [simp]: "ms_Labels (set_value name v ms) = ms_Labels ms"
  by (simp add: set_value_def)

definition set_label :: "string \<Rightarrow> string \<Rightarrow> metricSet \<Rightarrow> metricSet" where
  "set_label name v ms = ms\<lparr>ms_Labels := mput name v (ms_Labels ms)\<rparr>"

definition new_metric_set :: "metricLabels \<Rightarrow> metricSet" where
  "new_metric_set ls =
     \<lparr>ms_CollectionStartTime = 0, ms_EntityCreateTime = 0, ms_ScrapeTime = 0, ms_MetricValues = [], ms_Labels = ls, ms_LabeledMetrics = []\<rparr>"

definition intValue :: "int \<Rightarrow> metricValue" where
  "intValue v = \<lparr>mv_IntValue = v, mv_FloatValue = Fin 0, mv_MetricType = MetricGauge, mv_ValueType = ValueInt64\<rparr>"

definition floatValue :: "f64 \<Rightarrow> metricValue" where
  "floatValue v = \<lparr>mv_IntValue = 0, mv_FloatValue = v, mv_MetricType = MetricGauge, mv_ValueType = ValueFloat\<rparr>"

section \<open>Copying labels\<close>

record labelCopier =
  lc_labelSeparator :: string
  lc_storedLabels :: metricLabels
  lc_ignoredLabels :: metricLabels

fun join_labels :: "string \<Rightarrow> string list \<Rightarrow> string" where
  "join_labels sep [] = ''''"
| "join_labels sep [s] = s"
| "join_labels sep (s # ss) = s @ sep @ join_labels sep ss"

definition CopyLabels :: "labelCopier \<Rightarrow> metricLabels \<Rightarrow> metricLabels \<Rightarrow> metricLabels" where
  "CopyLabels lc inp out =
     (let out' = foldl (\<lambda>out (key, v). case mget (lc_storedLabels lc) key of Some mappedKey \<Rightarrow> mput mappedKey v out | None \<Rightarrow> out) out inp;
          ls = map (\<lambda>(key, v). key @ '':'' @ v) (filter (\<lambda>(key, v). \<not> mhas (lc_ignoredLabels lc) key) inp)
      in mput ''labels'' (join_labels (lc_labelSeparator lc) (sort ls)) out')"

definition copy_labels :: "labelCopier \<Rightarrow> metricLabels \<Rightarrow> metricSet \<Rightarrow> metricSet" where
  "copy_labels lc inp ms = ms\<lparr>ms_Labels := CopyLabels lc inp (ms_Labels ms)\<rparr>"

definition split_stored :: "string \<Rightarrow> string \<times> string" where
  "split_stored s =
     (let a = takeWhile (\<lambda>c. c \<noteq> CHR ''='') s
      in if length a = length s then (s, s) else (drop (Suc (length a)) s, a))"

definition makeStoredLabels :: "string list \<Rightarrow> metricLabels" where
  "makeStoredLabels ls = foldl (\<lambda>m s. mput (fst (split_stored s)) (snd (split_stored s)) m) [] ls"

definition makeIgnoredLabels :: "string list \<Rightarrow> metricLabels" where
  "makeIgnoredLabels ls = foldl (\<lambda>m s. mput s '''' m) [] ls"

definition NewLabelCopier :: "string \<Rightarrow> string list \<Rightarrow> string list \<Rightarrow> labelCopier" where
  "NewLabelCopier separator storedLabels ignoredLabels =
     \<lparr>lc_labelSeparator = separator, lc_storedLabels = makeStoredLabels storedLabels, lc_ignoredLabels = makeIgnoredLabels ignoredLabels\<rparr>"

section \<open>Rates\<close>

record metricDescriptor =
  md_Name :: string
  md_ValueType :: valueType

definition RateMetricsMapping :: "(string, metricDescriptor) gomap" where
  "RateMetricsMapping =
     [(''cpu/usage'', \<lparr>md_Name = ''cpu/usage_rate'', md_ValueType = ValueInt64\<rparr>),
      (''memory/page_faults'', \<lparr>md_Name = ''memory/page_faults_rate'', md_ValueType = ValueFloat\<rparr>),
      (''memory/major_page_faults'', \<lparr>md_Name = ''memory/major_page_faults_rate'', md_ValueType = ValueFloat\<rparr>),
      (''network/rx'', \<lparr>md_Name = ''network/rx_rate'', md_ValueType = ValueFloat\<rparr>),
      (''network/rx_errors'', \<lparr>md_Name = ''network/rx_errors_rate'', md_ValueType = ValueFloat\<rparr>),
      (''network/tx'', \<lparr>md_Name = ''network/tx_rate'', md_ValueType = ValueFloat\<rparr>),
      (''network/tx_errors'', \<lparr>md_Name = ''network/tx_errors_rate'', md_ValueType = ValueFloat\<rparr>),
      (''disk/io_read_bytes'', \<lparr>md_Name = ''disk/io_read_bytes_rate'', md_ValueType = ValueFloat\<rparr>),
      (''disk/io_write_bytes'', \<lparr>md_Name = ''disk/io_write_bytes_rate'', md_ValueType = ValueFloat\<rparr>)]"

text \<open>
  Differences of times are of \<open>UnixNano\<close>, which is defined only for times an \<open>int64\<close> of nanoseconds can hold;
  in-range times are taken for granted.  Integer division truncates.
\<close>

definition float_rate :: "metricValue \<Rightarrow> metricValue \<Rightarrow> int \<Rightarrow> metricValue" where
  "float_rate new old dt =
     floatValue (fdiv (fmul (f_of_int 1000000000) (f_of_int (i64 (mv_IntValue new - mv_IntValue old)))) (f_of_int dt))"

definition cpu_rate :: "metricValue \<Rightarrow> metricValue \<Rightarrow> int \<Rightarrow> metricValue" where
  "cpu_rate new old dt = intValue (i64 (i64 (1000 * i64 (mv_IntValue new - mv_IntValue old)) sdiv dt))"

definition disk_rate :: "string \<Rightarrow> metricDescriptor \<Rightarrow> metricSet \<Rightarrow> int \<Rightarrow> metricSet \<Rightarrow> labeledMetric \<Rightarrow> metricSet" where
  "disk_rate metricName targetMetric oldMs dt ms itemNew =
     (if lm_Name itemNew \<noteq> metricName then ms
      else case find (\<lambda>itemOld. lm_Name itemOld = metricName \<and>
               mget0 '''' (lm_Labels itemOld) ''resource_id'' = mget0 '''' (lm_Labels itemNew) ''resource_id'') (ms_LabeledMetrics oldMs) of
             None \<Rightarrow> ms
           | Some itemOld \<Rightarrow>
               if md_ValueType targetMetric = ValueFloat
               then ms\<lparr>ms_LabeledMetrics := ms_LabeledMetrics ms @
                      [\<lparr>lm_Name = md_Name targetMetric, lm_Labels = lm_Labels itemNew, lm_Value = float_rate (lm_Value itemNew) (lm_Value itemOld) dt\<rparr>]\<rparr>
               else ms)"

definition rate_step :: "metricSet \<Rightarrow> int \<Rightarrow> metricSet \<Rightarrow> string \<times> metricDescriptor \<Rightarrow> metricSet" where
  "rate_step oldMs dt newMs entry =
     (let metricName = fst entry; targetMetric = snd entry
      in if metricName = ''disk/io_read_bytes'' \<or> metricName = ''disk/io_write_bytes''
         then foldl (disk_rate metricName targetMetric oldMs dt) newMs (ms_LabeledMetrics newMs)
         else case (mget (ms_MetricValues newMs) metricName, mget (ms_MetricValues oldMs) metricName) of
                (Some new, Some old) \<Rightarrow>
                  if metricName = ''cpu/usage'' then set_value (md_Name targetMetric) (cpu_rate new old dt) newMs
                  else if md_ValueType targetMetric = ValueFloat then set_value (md_Name targetMetric) (float_rate new old dt) newMs
                  else newMs
              | _ \<Rightarrow> newMs)"

definition set_rates :: "(string, metricDescriptor) gomap \<Rightarrow> metricSet option \<Rightarrow> metricSet \<Rightarrow> metricSet" where
  "set_rates mapping old newMs =
     (case old of
        None \<Rightarrow> newMs
      | Some oldMs \<Rightarrow>
          if \<not> time_after (ms_ScrapeTime newMs) (ms_ScrapeTime oldMs) then newMs
          else if ms_CollectionStartTime newMs \<noteq> ms_CollectionStartTime oldMs then newMs
          else foldl (rate_step oldMs (ms_ScrapeTime newMs - ms_ScrapeTime oldMs)) newMs mapping)"

text \<open>Whether the batch is remembered as the previous one, and the batch.\<close>

definition RateCalculator :: "(string, metricDescriptor) gomap \<Rightarrow> dataBatch option \<Rightarrow> dataBatch \<Rightarrow> bool \<times> dataBatch" where
  "RateCalculator mapping previousBatch batch =
     (case previousBatch of
        None \<Rightarrow> (True, batch)
      | Some previous \<Rightarrow>
          if \<not> time_after (db_Timestamp batch) (db_Timestamp previous) then (False, batch)
          else (True, batch\<lparr>db_MetricSets :=
                  map (\<lambda>(key, newMs). (key, set_rates mapping (mget (db_MetricSets previous) key) newMs)) (db_MetricSets batch)\<rparr>))"

section \<open>Aggregation\<close>

definition add_values :: "metricValue \<Rightarrow> metricValue \<Rightarrow> metricValue" where
  "add_values a v =
     (case mv_ValueType a of
        ValueInt64 \<Rightarrow> a\<lparr>mv_IntValue := i64 (mv_IntValue a + mv_IntValue v)\<rparr>
      | ValueFloat \<Rightarrow> a\<lparr>mv_FloatValue := fadd (mv_FloatValue a) (mv_FloatValue v)\<rparr>)"

text \<open>The changed destination, and the error.\<close>

fun aggregate :: "metricSet \<Rightarrow> metricSet \<Rightarrow> string list \<Rightarrow> metricSet \<times> string option" where
  "aggregate src dst [] = (dst, None)"
| "aggregate src dst (metricName # names) =
     (case mget (ms_MetricValues src) metricName of
        None \<Rightarrow> aggregate src dst names
      | Some metricValue \<Rightarrow>
          (case mget (ms_MetricValues dst) metricName of
             None \<Rightarrow> aggregate src (set_value metricName metricValue dst) names
           | Some aggregatedValue \<Rightarrow>
               if mv_ValueType aggregatedValue \<noteq> mv_ValueType metricValue
               then (dst, Some (''Aggregator: type not supported in '' @ metricName))
               else aggregate src (set_value metricName (add_values aggregatedValue metricValue) dst) names))"

text \<open>A map with the entries of another one stored into it.\<close>

definition put_all :: "metricSets \<Rightarrow> metricSets \<Rightarrow> metricSets" where
  "put_all sets added = foldl (\<lambda>m (key, ms). mput key ms m) sets added"

subsection \<open>Containers to pods\<close>

definition LabelsToPopulate :: "string list" where
  "LabelsToPopulate = [''pod_id'', ''pod_name'', ''namespace_name'', ''namespace_id'', ''hostname'', ''host_id'']"

definition podMetricSet :: "metricLabels \<Rightarrow> metricSet" where
  "podMetricSet ls =
     new_metric_set (foldl (\<lambda>new l. case mget ls l of Some v \<Rightarrow> mput l v new | None \<Rightarrow> new) [(''type'', ''pod'')] LabelsToPopulate)"

definition skippedMetrics :: "string list" where
  "skippedMetrics = [''uptime'', ''cpu/usage'', ''memory/page_faults'', ''memory/major_page_faults'', ''network/rx'', ''network/rx_errors'',
     ''network/tx'', ''network/tx_errors'']"

text \<open>One metric of a container, on its pod and on the metrics that are to be aggregated.\<close>

definition pod_metric :: "string \<Rightarrow> metricSet \<times> (string, bool) gomap \<Rightarrow> string \<times> metricValue \<Rightarrow> metricSet \<times> (string, bool) gomap" where
  "pod_metric podKey st entry =
     (case (st, entry) of ((pod, requireAggregate), (metricName, metricValue)) \<Rightarrow>
        if metricName \<in> set skippedMetrics then st
        else case mget (ms_MetricValues pod) metricName of
               None \<Rightarrow> (set_value metricName metricValue pod, mput (podKey @ metricName) True requireAggregate)
             | Some aggregatedValue \<Rightarrow>
                 if mget0 False requireAggregate (podKey @ metricName)
                 then (if mv_ValueType aggregatedValue \<noteq> mv_ValueType metricValue then st
                       else (set_value metricName (add_values aggregatedValue metricValue) pod, requireAggregate))
                 else st)"

record podAggregation =
  pg_sets :: metricSets
  pg_newPods :: metricSets
  pg_requireAggregate :: "(string, bool) gomap"

definition pod_aggregate_step :: "podAggregation \<Rightarrow> string \<Rightarrow> podAggregation" where
  "pod_aggregate_step st key =
     (case mget (pg_sets st) key of
        None \<Rightarrow> st
      | Some ms \<Rightarrow>
          if \<not> has_type ''pod_container'' ms then st
          else case (mget (ms_Labels ms) ''pod_name'', mget (ms_Labels ms) ''namespace_name'') of
                 (Some podName, Some ns) \<Rightarrow>
                   (let podKey = PodKey ns podName
                    in case mget (pg_sets st) podKey of
                         Some pod \<Rightarrow>
                           (let (pod', req) = foldl (pod_metric podKey) (pod, pg_requireAggregate st) (ms_MetricValues ms)
                            in st\<lparr>pg_sets := mput podKey pod' (pg_sets st), pg_requireAggregate := req\<rparr>)
                       | None \<Rightarrow>
                           (let pod = (case mget (pg_newPods st) podKey of Some p \<Rightarrow> p | None \<Rightarrow> podMetricSet (ms_Labels ms));
                                (pod', req) = foldl (pod_metric podKey) (pod, pg_requireAggregate st) (ms_MetricValues ms)
                            in st\<lparr>pg_newPods := mput podKey pod' (pg_newPods st), pg_requireAggregate := req\<rparr>))
               | _ \<Rightarrow> st)"

definition PodAggregator :: "dataBatch \<Rightarrow> dataBatch" where
  "PodAggregator batch =
     (let st = foldl pod_aggregate_step \<lparr>pg_sets = db_MetricSets batch, pg_newPods = [], pg_requireAggregate = []\<rparr> (mkeys (db_MetricSets batch))
      in batch\<lparr>db_MetricSets := put_all (pg_sets st) (pg_newPods st)\<rparr>)"

subsection \<open>Pods to namespaces, nodes and the cluster\<close>

definition namespaceMetricSet :: "string \<Rightarrow> string \<Rightarrow> metricSet" where
  "namespaceMetricSet namespaceName uid = new_metric_set [(''type'', ''ns''), (''namespace_name'', namespaceName), (''namespace_id'', uid)]"

text \<open>The sets of the batch, the new namespaces, and the error that ended the loop.\<close>

type_synonym namespaceAggregation = "(metricSets \<times> metricSets) \<times> string option"

definition namespace_step :: "string list \<Rightarrow> namespaceAggregation \<Rightarrow> string \<Rightarrow> namespaceAggregation" where
  "namespace_step metrics st key =
     (case st of ((sets, namespaces), err) \<Rightarrow>
        if err \<noteq> None then st
        else case mget sets key of
               None \<Rightarrow> st
             | Some ms \<Rightarrow>
                 if \<not> has_type ''pod'' ms then st
                 else case mget (ms_Labels ms) ''namespace_name'' of
                        None \<Rightarrow> st
                      | Some namespaceName \<Rightarrow>
                          (let namespaceKey = NamespaceKey namespaceName
                           in case mget namespaces namespaceKey of
                                Some ns \<Rightarrow>
                                  (let (ns', err') = aggregate ms ns metrics in ((sets, mput namespaceKey ns' namespaces), err'))
                              | None \<Rightarrow>
                                  (case mget sets namespaceKey of
                                     Some ns \<Rightarrow> (let (ns', err') = aggregate ms ns metrics in ((mput namespaceKey ns' sets, namespaces), err'))
                                   | None \<Rightarrow>
                                       (let (ns', err') = aggregate ms (namespaceMetricSet namespaceName (mget0 '''' (ms_Labels ms) ''namespace_id'')) metrics
                                        in ((sets, mput namespaceKey ns' namespaces), err')))))"

definition NamespaceAggregator :: "string list \<Rightarrow> dataBatch \<Rightarrow> dataBatch \<times> string option" where
  "NamespaceAggregator metrics batch =
     (case foldl (namespace_step metrics) ((db_MetricSets batch, []), None) (mkeys (db_MetricSets batch)) of
        ((sets, namespaces), Some err) \<Rightarrow> (batch\<lparr>db_MetricSets := sets\<rparr>, Some err)
      | ((sets, namespaces), None) \<Rightarrow> (batch\<lparr>db_MetricSets := put_all sets namespaces\<rparr>, None))"

definition node_step :: "string list \<Rightarrow> metricSets \<times> string option \<Rightarrow> string \<Rightarrow> metricSets \<times> string option" where
  "node_step metrics st key =
     (case st of (sets, err) \<Rightarrow>
        if err \<noteq> None then st
        else case mget sets key of
               None \<Rightarrow> st
             | Some ms \<Rightarrow>
                 if \<not> has_type ''pod'' ms then st
                 else case mget (ms_Labels ms) ''nodename'' of
                        None \<Rightarrow> st
                      | Some nodeName \<Rightarrow>
                          if nodeName = '''' then st
                          else case mget sets (NodeKey nodeName) of
                                 None \<Rightarrow> st
                               | Some node \<Rightarrow> (let (node', err') = aggregate ms node metrics in (mput (NodeKey nodeName) node' sets, err')))"

definition NodeAggregator :: "string list \<Rightarrow> dataBatch \<Rightarrow> dataBatch \<times> string option" where
  "NodeAggregator metrics batch =
     (case foldl (node_step metrics) (db_MetricSets batch, None) (mkeys (db_MetricSets batch)) of
        (sets, err) \<Rightarrow> (batch\<lparr>db_MetricSets := sets\<rparr>, err))"

definition clusterMetricSet :: metricSet where
  "clusterMetricSet = new_metric_set [(''type'', ''cluster'')]"

definition cluster_aggregate_step :: "string list \<Rightarrow> metricSet \<times> string option \<Rightarrow> string \<times> metricSet \<Rightarrow> metricSet \<times> string option" where
  "cluster_aggregate_step metrics st entry =
     (if snd st \<noteq> None \<or> \<not> has_type ''ns'' (snd entry) then st else aggregate (snd entry) (fst st) metrics)"

definition ClusterAggregator :: "string list \<Rightarrow> dataBatch \<Rightarrow> dataBatch \<times> string option" where
  "ClusterAggregator metrics batch =
     (case foldl (cluster_aggregate_step metrics) (clusterMetricSet, None) (db_MetricSets batch) of
        (cluster, Some err) \<Rightarrow> (batch, Some err)
      | (cluster, None) \<Rightarrow> (batch\<lparr>db_MetricSets := mput ClusterKey cluster (db_MetricSets batch)\<rparr>, None))"

end
