(* ===== verification/HeapsterRun.thy ===== *)
theory HeapsterRun
  imports Heapster
begin

text \<open>
  \<open>heapster/metrics\<close>, continued: the processors that add what the API server knows (\<open>pod_based_enricher.go\<close>,
  \<open>namespace_based_enricher.go\<close>, \<open>node_autoscaling_enricher.go\<close>), the order of all processors (\<open>heapster.go\<close>), one
  round of the manager (\<open>manager/manager.go\<close>) and the metric sink (\<open>sinks/metric/metric_sink.go\<close>).
\<close>

section \<open>Enrichers\<close>

text \<open>Amounts of resources; \<open>Value\<close> and \<open>MilliValue\<close> round up.  A start time that is nil or zero is \<open>None\<close>.\<close>

type_synonym amounts = "(string, rat) gomap"

definition amount_value :: "rat \<Rightarrow> int" where
  "amount_value q = \<lceil>q\<rceil>"

definition amount_milli :: "rat \<Rightarrow> int" where
  "amount_milli q = \<lceil>q * 1000\<rceil>"

record kubeContainer =
  kc_Name :: string
  kc_Image :: string
  kc_Requests :: amounts
  kc_Limits :: amounts

record kubePod =
  kp_Namespace :: string
  kp_Name :: string
  kp_UID :: string
  kp_Labels :: metricLabels
  kp_StartTime :: "time option"
  kp_Containers :: "kubeContainer list"
  kp_ContainerStatuses :: "(string \<times> int) list"

definition request_metric :: "string \<Rightarrow> string" where
  "request_metric key = (if key = ''ephemeral-storage'' then ''ephemeral_storage/request'' else key @ ''/request'')"

definition request_value :: "string \<Rightarrow> rat \<Rightarrow> metricValue" where
  "request_value key q = intValue (if key = ''cpu'' then amount_milli q else amount_value q)"

definition missing_request :: "amounts \<Rightarrow> metricSet \<Rightarrow> string \<Rightarrow> metricSet" where
  "missing_request requests ms key = (if mhas requests key then ms else set_value (request_metric key) (intValue 0) ms)"

definition limit_value :: "amounts \<Rightarrow> metricSet \<Rightarrow> string \<times> string \<Rightarrow> metricSet" where
  "limit_value limits ms e =
     (case e of (key, name) \<Rightarrow>
        set_value name (case mget limits key of Some q \<Rightarrow> request_value key q | None \<Rightarrow> intValue 0) ms)"

definition updateContainerResourcesAndLimits :: "kubeContainer \<Rightarrow> metricSet \<Rightarrow> metricSet" where
  "updateContainerResourcesAndLimits c ms =
     (let ms1 = foldl (\<lambda>ms (key, q). set_value (request_metric key) (request_value key q) ms) ms (kc_Requests c);
          ms2 = foldl (missing_request (kc_Requests c)) ms1 [''cpu'', ''memory'', ''ephemeral-storage'']
      in foldl (limit_value (kc_Limits c)) ms2
           [(''cpu'', ''cpu/limit''), (''memory'', ''memory/limit''), (''ephemeral-storage'', ''ephemeral_storage/limit'')])"

definition start_time :: "kubePod \<Rightarrow> metricSet \<Rightarrow> metricSet" where
  "start_time pod ms = (case kp_StartTime pod of Some t \<Rightarrow> ms\<lparr>ms_EntityCreateTime := t\<rparr> | None \<Rightarrow> ms)"

definition pod_info :: "labelCopier \<Rightarrow> kubePod \<Rightarrow> metricSet \<Rightarrow> metricSet" where
  "pod_info lc pod podMs = copy_labels lc (kp_Labels pod) (start_time pod (set_label ''pod_id'' (kp_UID pod) podMs))"

definition container_stub :: "labelCopier \<Rightarrow> kubePod \<Rightarrow> metricSet \<Rightarrow> kubeContainer \<Rightarrow> metricSet" where
  "container_stub lc pod podMs c =
     updateContainerResourcesAndLimits c
       (copy_labels lc (kp_Labels pod)
         ((new_metric_set
             [(''type'', ''pod_container''), (''namespace_name'', kp_Namespace pod), (''pod_name'', kp_Name pod),
              (''container_name'', kc_Name c), (''container_base_image'', kc_Image c), (''pod_id'', kp_UID pod),
              (''nodename'', mget0 '''' (ms_Labels podMs) ''nodename''), (''hostname'', mget0 '''' (ms_Labels podMs) ''hostname''),
              (''host_id'', mget0 '''' (ms_Labels podMs) ''host_id'')])
          \<lparr>ms_EntityCreateTime := ms_CollectionStartTime podMs\<rparr>))"

text \<open>The pod's set with its information, and the new sets with stubs for its missing containers.\<close>

definition addPodInfo :: "labelCopier \<Rightarrow> kubePod \<Rightarrow> metricSets \<Rightarrow> metricSets \<Rightarrow> metricSet \<Rightarrow> metricSet \<times> metricSets" where
  "addPodInfo lc pod sets newMs podMs =
     (let podMs' = pod_info lc pod podMs
      in (podMs', foldl (\<lambda>new c.
            let containerKey = PodContainerKey (kp_Namespace pod) (kp_Name pod) (kc_Name c)
            in if mhas sets containerKey \<or> mhas new containerKey then new
               else mput containerKey (container_stub lc pod podMs' c) new) newMs (kp_Containers pod)))"

definition container_info :: "labelCopier \<Rightarrow> string \<Rightarrow> kubePod \<Rightarrow> metricSet \<Rightarrow> metricSet" where
  "container_info lc key pod ms =
     (let ms1 = (case find (\<lambda>c. key = PodContainerKey (kp_Namespace pod) (kp_Name pod) (kc_Name c)) (kp_Containers pod) of
                   None \<Rightarrow> ms
                 | Some c \<Rightarrow>
                     (let m = updateContainerResourcesAndLimits c ms
                      in if mhas (ms_Labels m) ''container_base_image'' then m else set_label ''container_base_image'' (kc_Image c) m));
          ms2 = (case find (\<lambda>s. key = PodContainerKey (kp_Namespace pod) (kp_Name pod) (fst s)) (kp_ContainerStatuses pod) of
                   None \<Rightarrow> ms1
                 | Some s \<Rightarrow> start_time pod (set_value ''restart_count'' (intValue (snd s)) ms1))
      in copy_labels lc (kp_Labels pod) (set_label ''pod_id'' (kp_UID pod) ms2))"

definition pod_stub :: "kubePod \<Rightarrow> metricSet \<Rightarrow> string \<Rightarrow> string \<Rightarrow> metricSet" where
  "pod_stub pod containerMs ns podName =
     start_time pod (new_metric_set
       [(''type'', ''pod''), (''namespace_name'', ns), (''pod_name'', podName),
        (''nodename'', mget0 '''' (ms_Labels containerMs) ''nodename''), (''hostname'', mget0 '''' (ms_Labels containerMs) ''hostname''),
        (''host_id'', mget0 '''' (ms_Labels containerMs) ''host_id'')])"

definition addContainerInfo :: "labelCopier \<Rightarrow> string \<Rightarrow> kubePod \<Rightarrow> metricSets \<Rightarrow> metricSets \<Rightarrow> metricSet \<Rightarrow> metricSet \<times> metricSets" where
  "addContainerInfo lc key pod sets newMs containerMs =
     (let ms = container_info lc key pod containerMs;
          ns = mget0 '''' (ms_Labels ms) ''namespace_name''; podName = mget0 '''' (ms_Labels ms) ''pod_name'';
          podKey = PodKey ns podName
      in if mhas sets podKey \<or> mhas newMs podKey then (ms, newMs)
         else (let podMs = pod_stub pod ms ns podName;
                   (podMs', newMs') = addPodInfo lc pod sets (mput podKey podMs newMs) podMs
               in (ms, mput podKey podMs' newMs')))"

definition enrich_step :: "labelCopier \<Rightarrow> (string \<Rightarrow> string \<Rightarrow> kubePod option) \<Rightarrow> metricSets \<times> metricSets \<Rightarrow> string \<Rightarrow> metricSets \<times> metricSets" where
  "enrich_step lc getPod st key =
     (case st of (sets, newMs) \<Rightarrow>
        case mget sets key of
          None \<Rightarrow> st
        | Some v \<Rightarrow>
            if has_type ''pod'' v \<or> has_type ''pod_container'' v
            then (case getPod (mget0 '''' (ms_Labels v) ''namespace_name'') (mget0 '''' (ms_Labels v) ''pod_name'') of
                    None \<Rightarrow> st
                  | Some pod \<Rightarrow>
                      (let (v', newMs') = (if has_type ''pod'' v then addPodInfo lc pod sets newMs v else addContainerInfo lc key pod sets newMs v)
                       in (mput key v' sets, newMs')))
            else st)"

definition PodBasedEnricher :: "labelCopier \<Rightarrow> (string \<Rightarrow> string \<Rightarrow> kubePod option) \<Rightarrow> dataBatch \<Rightarrow> dataBatch" where
  "PodBasedEnricher lc getPod batch =
     (case foldl (enrich_step lc getPod) (db_MetricSets batch, []) (mkeys (db_MetricSets batch)) of
        (sets, newMs) \<Rightarrow> batch\<lparr>db_MetricSets := put_all sets newMs\<rparr>)"

text \<open>The store answers with the identifier of a namespace, if it has it.\<close>

definition addNamespaceInfo :: "(string \<Rightarrow> string option) \<Rightarrow> metricSet \<Rightarrow> metricSet" where
  "addNamespaceInfo getNamespace ms =
     (if has_type ''pod_container'' ms \<or> has_type ''pod'' ms \<or> has_type ''ns'' ms
      then (case mget (ms_Labels ms) ''namespace_name'' of
              None \<Rightarrow> ms
            | Some namespaceName \<Rightarrow>
                (case getNamespace namespaceName of None \<Rightarrow> ms | Some uid \<Rightarrow> set_label ''namespace_id'' uid ms))
      else ms)"

definition NamespaceBasedEnricher :: "(string \<Rightarrow> string option) \<Rightarrow> dataBatch \<Rightarrow> dataBatch" where
  "NamespaceBasedEnricher getNamespace batch =
     batch\<lparr>db_MetricSets := map (\<lambda>(key, ms). (key, addNamespaceInfo getNamespace ms)) (db_MetricSets batch)\<rparr>"

record kubeNode =
  kn_Name :: string
  kn_Labels :: metricLabels
  kn_Capacity :: amounts
  kn_Allocatable :: amounts

definition getInt :: "metricSet \<Rightarrow> string \<Rightarrow> int" where
  "getInt ms name = (case mget (ms_MetricValues ms) name of Some v \<Rightarrow> mv_IntValue v | None \<Rightarrow> 0)"

definition setFloat :: "string \<Rightarrow> f64 \<Rightarrow> metricSet \<Rightarrow> metricSet" where
  "setFloat name v = set_value name (floatValue v)"

text \<open>Utilization and reservation of a resource with an allocatable amount, then its capacity and allocatable amount.\<close>

definition set_shares :: "string \<Rightarrow> int \<Rightarrow> int \<Rightarrow> int \<Rightarrow> metricSet \<Rightarrow> metricSet" where
  "set_shares res used requested allocatable ms =
     (if allocatable \<noteq> 0
      then setFloat (res @ ''/node_reservation'') (fdiv (f_of_int requested) (f_of_int allocatable))
             (setFloat (res @ ''/node_utilization'') (fdiv (f_of_int used) (f_of_int allocatable)) ms)
      else ms)"

definition set_amounts :: "string \<Rightarrow> int \<Rightarrow> int \<Rightarrow> metricSet \<Rightarrow> metricSet" where
  "set_amounts res capacity allocatable ms =
     setFloat (res @ ''/node_allocatable'') (f_of_int allocatable) (setFloat (res @ ''/node_capacity'') (f_of_int capacity) ms)"

definition node_metrics :: "labelCopier \<Rightarrow> kubeNode \<Rightarrow> metricSet \<Rightarrow> metricSet" where
  "node_metrics lc node ms0 =
     (let ms = copy_labels lc (kn_Labels node) ms0;
          cap = (\<lambda>key. mget0 0 (kn_Capacity node) key); alloc = (\<lambda>key. mget0 0 (kn_Allocatable node) key);
          cpuAlloc = amount_milli (alloc ''cpu''); memAlloc = amount_value (alloc ''memory''); epheAlloc = amount_value (alloc ''ephemeral-storage'');
          ms1 = set_amounts ''cpu'' (amount_milli (cap ''cpu'')) cpuAlloc
                  (set_shares ''cpu'' (getInt ms ''cpu/usage_rate'') (getInt ms ''cpu/request'') cpuAlloc ms);
          ms2 = set_amounts ''memory'' (amount_value (cap ''memory'')) memAlloc
                  (set_shares ''memory'' (getInt ms ''memory/usage'') (getInt ms ''memory/request'') memAlloc ms1)
      in if mhas (kn_Capacity node) ''ephemeral-storage'' \<and> mhas (kn_Allocatable node) ''ephemeral-storage''
         then set_shares ''ephemeral_storage'' (getInt ms ''ephemeral_storage/usage'') (getInt ms ''ephemeral_storage/request'') epheAlloc
                (set_amounts ''ephemeral_storage'' (amount_value (cap ''ephemeral-storage'')) epheAlloc ms2)
         else ms2)"

definition NodeAutoscalingEnricher :: "labelCopier \<Rightarrow> string + kubeNode list \<Rightarrow> dataBatch \<Rightarrow> dataBatch \<times> string option" where
  "NodeAutoscalingEnricher lc nodes batch =
     (case nodes of
        Inl err \<Rightarrow> (batch, Some err)
      | Inr ns \<Rightarrow>
          (batch\<lparr>db_MetricSets := foldl (\<lambda>sets node. case mget sets (NodeKey (kn_Name node)) of
               None \<Rightarrow> sets
             | Some ms \<Rightarrow> mput (NodeKey (kn_Name node)) (node_metrics lc node ms) sets) (db_MetricSets batch) ns\<rparr>, None))"

section \<open>All processors\<close>

record heapsterEnv =
  he_labelCopier :: labelCopier
  he_getPod :: "string \<Rightarrow> string \<Rightarrow> kubePod option"
  he_getNamespace :: "string \<Rightarrow> string option"
  he_nodes :: "string + kubeNode list"

definition metricsToAggregate :: "string list" where
  "metricsToAggregate = [''cpu/usage_rate'', ''memory/usage'', ''cpu/request'', ''cpu/limit'', ''memory/request'', ''memory/limit'']"

definition metricsToAggregateForNode :: "string list" where
  "metricsToAggregateForNode = [''cpu/request'', ''cpu/limit'', ''memory/request'', ''memory/limit'', ''ephemeral_storage/request'', ''ephemeral_storage/limit'']"

definition aggregate_batch :: "dataBatch \<Rightarrow> dataBatch \<times> string option" where
  "aggregate_batch batch =
     (case NamespaceAggregator metricsToAggregate (PodAggregator batch) of
        (b, Some err) \<Rightarrow> (b, Some err)
      | (b, None) \<Rightarrow>
          (case NodeAggregator metricsToAggregateForNode b of
             (b, Some err) \<Rightarrow> (b, Some err)
           | (b, None) \<Rightarrow> ClusterAggregator metricsToAggregate b))"

text \<open>
  The processors in their order.  The batch the rate calculator remembers is the batch itself, so it is what the
  later processors have made of it.
\<close>

definition process_batch :: "heapsterEnv \<Rightarrow> dataBatch option \<Rightarrow> dataBatch \<Rightarrow> dataBatch option \<times> dataBatch \<times> string option" where
  "process_batch env previousBatch batch =
     (let (remembered, b1) = RateCalculator RateMetricsMapping previousBatch batch;
          b2 = NamespaceBasedEnricher (he_getNamespace env) (PodBasedEnricher (he_labelCopier env) (he_getPod env) b1);
          (b3, err) = (case aggregate_batch b2 of
             (b, Some err) \<Rightarrow> (b, Some err)
           | (b, None) \<Rightarrow> NodeAutoscalingEnricher (he_labelCopier env) (he_nodes env) b)
      in (if remembered then Some b3 else previousBatch, b3, err))"

section \<open>The metric sink\<close>

type_synonym int64Store = "(string, int) gomap"

record multimetricStore =
  mm_timestamp :: time
  mm_store :: "(string, int64Store) gomap"

record metricSink =
  sk_longStoreMetrics :: "string list"
  sk_longStoreDuration :: duration
  sk_shortStoreDuration :: duration
  sk_shortStore :: "dataBatch list"
  sk_longStore :: "multimetricStore list"

definition NewMetricSink :: "duration \<Rightarrow> duration \<Rightarrow> string list \<Rightarrow> metricSink" where
  "NewMetricSink shortStoreDuration longStoreDuration longStoreMetrics =
     \<lparr>sk_longStoreMetrics = longStoreMetrics, sk_longStoreDuration = longStoreDuration, sk_shortStoreDuration = shortStoreDuration,
      sk_shortStore = [], sk_longStore = []\<rparr>"

definition store_metric_set :: "string list \<Rightarrow> (string, int64Store) gomap \<Rightarrow> string \<times> metricSet \<Rightarrow> (string, int64Store) gomap" where
  "store_metric_set metrics store entry =
     foldl (\<lambda>store metric. case mget (ms_MetricValues (snd entry)) metric of
         None \<Rightarrow> store
       | Some v \<Rightarrow> mput metric (mput (fst entry) (mv_IntValue v) (mget0 [] store metric)) store) store metrics"

definition buildMultimetricStore :: "string list \<Rightarrow> dataBatch \<Rightarrow> multimetricStore" where
  "buildMultimetricStore metrics batch =
     \<lparr>mm_timestamp = db_Timestamp batch,
      mm_store = foldl (store_metric_set metrics) (foldl (\<lambda>store metric. mput metric [] store) [] metrics) (db_MetricSets batch)\<rparr>"

definition popOld :: "dataBatch list \<Rightarrow> time \<Rightarrow> dataBatch list" where
  "popOld storage cutoffTime = filter (\<lambda>batch. time_after (db_Timestamp batch) cutoffTime) storage"

definition popOldStore :: "multimetricStore list \<Rightarrow> time \<Rightarrow> multimetricStore list" where
  "popOldStore storages cutoffTime = filter (\<lambda>store. time_after (mm_timestamp store) cutoffTime) storages"

definition ExportData :: "time \<Rightarrow> dataBatch \<Rightarrow> metricSink \<Rightarrow> metricSink" where
  "ExportData now batch sink =
     sink\<lparr>sk_longStore := popOldStore (sk_longStore sink) (time_add now (- sk_longStoreDuration sink)) @ [buildMultimetricStore (sk_longStoreMetrics sink) batch],
          sk_shortStore := popOld (sk_shortStore sink) (time_add now (- sk_shortStoreDuration sink)) @ [batch]\<rparr>"

definition GetLatestDataBatch :: "metricSink \<Rightarrow> dataBatch option" where
  "GetLatestDataBatch sink = (if sk_shortStore sink = [] then None else Some (last (sk_shortStore sink)))"

definition GetShortStore :: "metricSink \<Rightarrow> dataBatch list" where
  "GetShortStore sink = sk_shortStore sink"

type_synonym timestamped = "time \<times> metricValue"
type_synonym answers = "(string, timestamped list) gomap"

definition add_answer :: "time \<Rightarrow> answers \<Rightarrow> string \<Rightarrow> metricValue option \<Rightarrow> answers" where
  "add_answer t result key v = (case v of None \<Rightarrow> result | Some v \<Rightarrow> mput key (mget0 [] result key @ [(t, v)]) result)"

definition within_times :: "time \<Rightarrow> time \<Rightarrow> time \<Rightarrow> bool" where
  "within_times start end t \<longleftrightarrow> \<not> time_before t start \<and> \<not> time_after t end"

definition GetMetric :: "string \<Rightarrow> string list \<Rightarrow> time \<Rightarrow> time \<Rightarrow> metricSink \<Rightarrow> answers" where
  "GetMetric metricName keys start end sink =
     (if metricName \<in> set (sk_longStoreMetrics sink)
      then foldl (\<lambda>result store. if within_times start end (mm_timestamp store)
             then foldl (\<lambda>result key. add_answer (mm_timestamp store) result key
                    (map_option intValue (mget (mget0 [] (mm_store store) metricName) key))) result keys
             else result) [] (sk_longStore sink)
      else foldl (\<lambda>result batch. if within_times start end (db_Timestamp batch)
             then foldl (\<lambda>result key. add_answer (db_Timestamp batch) result key
                    (case mget (db_MetricSets batch) key of None \<Rightarrow> None | Some ms \<Rightarrow> mget (ms_MetricValues ms) metricName)) result keys
             else result) [] (sk_shortStore sink))"

definition labels_match :: "metricLabels \<Rightarrow> labeledMetric \<Rightarrow> bool" where
  "labels_match ls m \<longleftrightarrow> length (lm_Labels m) = length ls \<and> list_all (\<lambda>(k, v). mget (lm_Labels m) k = Some v) ls"

definition GetLabeledMetric :: "string \<Rightarrow> metricLabels \<Rightarrow> string list \<Rightarrow> time \<Rightarrow> time \<Rightarrow> metricSink \<Rightarrow> answers" where
  "GetLabeledMetric metricName ls keys start end sink =
     foldl (\<lambda>result batch. if within_times start end (db_Timestamp batch)
         then foldl (\<lambda>result key. case mget (db_MetricSets batch) key of
                None \<Rightarrow> result
              | Some ms \<Rightarrow>
                  foldl (\<lambda>result m. add_answer (db_Timestamp batch) result key
                      (if lm_Name m = metricName \<and> labels_match ls m then Some (lm_Value m) else None)) result (ms_LabeledMetrics ms))
              result keys
         else result) [] (sk_shortStore sink)"

definition GetMetricNames :: "string \<Rightarrow> metricSink \<Rightarrow> string list" where
  "GetMetricNames key sink =
     mkeys (foldl (\<lambda>names batch. case mget (db_MetricSets batch) key of
         None \<Rightarrow> names
       | Some ms \<Rightarrow> foldl (\<lambda>names e. mput (fst e) True names) names (ms_MetricValues ms)) [] (sk_shortStore sink))"

definition getAllNames :: "(metricSet \<Rightarrow> bool) \<Rightarrow> (string \<Rightarrow> metricSet \<Rightarrow> string) \<Rightarrow> metricSink \<Rightarrow> string list" where
  "getAllNames predicate name sink =
     (case GetLatestDataBatch sink of
        None \<Rightarrow> []
      | Some batch \<Rightarrow> map (\<lambda>(key, ms). name key ms) (filter (\<lambda>(key, ms). predicate ms) (db_MetricSets batch)))"

definition label_of :: "string \<Rightarrow> metricSet \<Rightarrow> string" where
  "label_of l ms = mget0 '''' (ms_Labels ms) l"

definition GetMetricSetKeys :: "metricSink \<Rightarrow> string list" where
  "GetMetricSetKeys = getAllNames (\<lambda>ms. True) (\<lambda>key ms. key)"

definition GetNodes :: "metricSink \<Rightarrow> string list" where
  "GetNodes = getAllNames (\<lambda>ms. label_of ''type'' ms = ''node'') (\<lambda>key. label_of ''hostname'')"

definition GetPods :: "metricSink \<Rightarrow> string list" where
  "GetPods = getAllNames (\<lambda>ms. label_of ''type'' ms = ''pod'') (\<lambda>key ms. label_of ''namespace_name'' ms @ ''/'' @ label_of ''pod_name'' ms)"

definition GetNamespaces :: "metricSink \<Rightarrow> string list" where
  "GetNamespaces = getAllNames (\<lambda>ms. label_of ''type'' ms = ''ns'') (\<lambda>key. label_of ''namespace_name'')"

definition GetPodsFromNamespace :: "string \<Rightarrow> metricSink \<Rightarrow> string list" where
  "GetPodsFromNamespace namespace =
     getAllNames (\<lambda>ms. label_of ''type'' ms = ''pod'' \<and> label_of ''namespace_name'' ms = namespace) (\<lambda>key. label_of ''pod_name'')"

definition GetContainersForPodFromNamespace :: "string \<Rightarrow> string \<Rightarrow> metricSink \<Rightarrow> string list" where
  "GetContainersForPodFromNamespace namespace pod =
     getAllNames (\<lambda>ms. label_of ''type'' ms = ''pod_container'' \<and> label_of ''namespace_name'' ms = namespace \<and> label_of ''pod_name'' ms = pod)
       (\<lambda>key. label_of ''container_name'')"

definition GetSystemContainersFromNode :: "string \<Rightarrow> metricSink \<Rightarrow> string list" where
  "GetSystemContainersFromNode node =
     getAllNames (\<lambda>ms. label_of ''type'' ms = ''sys_container'' \<and> label_of ''hostname'' ms = node) (\<lambda>key. label_of ''container_name'')"

section \<open>One round of the manager\<close>

record heapster =
  hp_previousBatch :: "dataBatch option"
  hp_sink :: metricSink

text \<open>What the sources are scraped to, or an error; a batch that a processor fails on is not exported.\<close>

definition housekeep :: "heapsterEnv \<Rightarrow> time \<Rightarrow> string + dataBatch \<Rightarrow> heapster \<Rightarrow> heapster" where
  "housekeep env now scraped h =
     (case scraped of
        Inl err \<Rightarrow> h
      | Inr batch \<Rightarrow>
          (case process_batch env (hp_previousBatch h) batch of
             (previous, b, Some err) \<Rightarrow> h\<lparr>hp_previousBatch := previous\<rparr>
           | (previous, b, None) \<Rightarrow> h\<lparr>hp_previousBatch := previous, hp_sink := ExportData now b (hp_sink h)\<rparr>))"

end
