(* ===== verification/HeapsterProps.thy ===== *)
theory HeapsterProps
  imports HeapsterRun
begin

text \<open>
  \<open>heapster/metrics\<close>: what the rate calculator, the aggregators and the metric sink promise.  Rates are those of the
  counters, the totals of the cluster are the sums over its pods, and a query of the sink returns the history that was
  exported.
\<close>

section \<open>Rates\<close>

lemma values_disk_rate: "ms_MetricValues (disk_rate n t old dt ms item) = ms_MetricValues ms"
  by (auto simp: disk_rate_def split: option.splits)

lemma values_disk_rates: "ms_MetricValues (foldl (disk_rate n t old dt) ms items) = ms_MetricValues ms"
  by (induction items arbitrary: ms) (auto simp: values_disk_rate)

lemma rate_step_other:
  "name \<noteq> md_Name (snd e) \<Longrightarrow> mget (ms_MetricValues (rate_step old dt ms e)) name = mget (ms_MetricValues ms) name"
  by (auto simp: rate_step_def Let_def values_disk_rates split: option.splits)

lemma rate_steps_other:
  "(\<forall>e\<in>set es. name \<noteq> md_Name (snd e)) \<Longrightarrow> mget (ms_MetricValues (foldl (rate_step old dt) ms es)) name = mget (ms_MetricValues ms) name"
  by (induction es arbitrary: ms) (auto simp: rate_step_other)

definition cpu_entry :: "string \<times> metricDescriptor" where
  "cpu_entry = (''cpu/usage'', \<lparr>md_Name = ''cpu/usage_rate'', md_ValueType = ValueInt64\<rparr>)"

lemma RateMetricsMapping_split: "RateMetricsMapping = cpu_entry # tl RateMetricsMapping"
  by (simp add: RateMetricsMapping_def cpu_entry_def)

lemma other_targets:
  "e \<in> set (tl RateMetricsMapping) \<Longrightarrow> ''cpu/usage'' \<noteq> md_Name (snd e) \<and> ''cpu/usage_rate'' \<noteq> md_Name (snd e)"
  by (auto simp: RateMetricsMapping_def)

lemma mapping_around_cpu:
  assumes "mset mapping = mset RateMetricsMapping"
  obtains ys zs where "mapping = ys @ cpu_entry # zs"
    and "\<forall>e\<in>set ys. ''cpu/usage'' \<noteq> md_Name (snd e)" and "\<forall>e\<in>set zs. ''cpu/usage_rate'' \<noteq> md_Name (snd e)"
proof -
  have "cpu_entry \<in> set mapping"
    using assms RateMetricsMapping_split by (metis list.set_intros(1) mset_eq_setD)
  then obtain ys zs where split: "mapping = ys @ cpu_entry # zs"
    by (metis split_list)
  have "mset (ys @ zs) = mset (tl RateMetricsMapping)"
    using assms split RateMetricsMapping_split
    by (metis add_mset_add_single add_right_cancel mset.simps(2) mset_append union_mset_add_mset_right)
  then have "set (ys @ zs) = set (tl RateMetricsMapping)"
    by (rule mset_eq_setD)
  with split show thesis
    using other_targets by (intro that) auto
qed

lemma cpu_rate_set:
  assumes "mset mapping = mset RateMetricsMapping"
    and "mget (ms_MetricValues new) ''cpu/usage'' = Some a" and "mget (ms_MetricValues old) ''cpu/usage'' = Some b"
  shows "mget (ms_MetricValues (foldl (rate_step old dt) new mapping)) ''cpu/usage_rate'' = Some (cpu_rate a b dt)"
proof -
  obtain ys zs where split: "mapping = ys @ cpu_entry # zs"
    and ys: "\<forall>e\<in>set ys. ''cpu/usage'' \<noteq> md_Name (snd e)" and zs: "\<forall>e\<in>set zs. ''cpu/usage_rate'' \<noteq> md_Name (snd e)"
    by (rule mapping_around_cpu [OF assms(1)])
  have "mget (ms_MetricValues (foldl (rate_step old dt) new ys)) ''cpu/usage'' = Some a"
    using rate_steps_other [OF ys] assms(2) by simp
  then have "mget (ms_MetricValues (rate_step old dt (foldl (rate_step old dt) new ys) cpu_entry)) ''cpu/usage_rate'' = Some (cpu_rate a b dt)"
    by (simp add: rate_step_def cpu_entry_def assms(3))
  then show ?thesis
    by (simp add: split rate_steps_other [OF zs])
qed

lemma sdiv_nonneg: "0 \<le> x \<Longrightarrow> 0 < y \<Longrightarrow> x sdiv y = x div (y::int)"
  by (cases "x = 0") (simp_all add: signed_divide_int_def)

lemma quotient_bounds: "0 < y \<Longrightarrow> x div y * y \<le> (x::int)" "0 < y \<Longrightarrow> x < (x div y + 1) * (y::int)"
  using pos_mod_sign [of y x] pos_mod_bound [of y x] div_mult_mod_eq [of x y] by (linarith, unfold distrib_right mult_1, linarith)

lemma in_i64_quotient: "0 \<le> x \<Longrightarrow> x \<le> maxInt64 \<Longrightarrow> 0 < y \<Longrightarrow> in_i64 (x div (y::int))"
proof -
  assume "0 \<le> x" "x \<le> maxInt64" "0 < y"
  then have "0 \<le> x div y" and "x div y \<le> x"
    using zdiv_mono2 [of x 1 y] by (simp_all add: pos_imp_zdiv_nonneg_iff)
  then show ?thesis
    using \<open>x \<le> maxInt64\<close> by (simp add: in_i64_def minInt64_def)
qed

lemma cpu_rate_quotient:
  assumes "b \<le> a" and "1000 * (a - b) \<le> maxInt64" and "0 < dt" and "mv_IntValue new = a" and "mv_IntValue old = b"
  shows "mv_IntValue (cpu_rate new old dt) = 1000 * (a - b) div dt"
proof -
  have "in_i64 (a - b)" "in_i64 (1000 * (a - b))"
    using assms(1,2) by (simp_all add: in_i64_def minInt64_def maxInt64_def)
  then show ?thesis
    using assms in_i64_quotient [of "1000 * (a - b)" dt] by (simp add: cpu_rate_def intValue_def i64_id sdiv_nonneg)
qed

text \<open>
  C33: the CPU rate of a set that was scraped again, with the same start of collection, is the growth of its usage in
  milli-cores: the thousandfold growth of the counter divided by the time that passed, rounded down, whatever the order
  in which the rates are computed.
\<close>

theorem cpu_rate_is_growth_per_time:
  assumes order: "mset mapping = mset RateMetricsMapping"
    and later: "db_Timestamp previous < db_Timestamp batch"
    and sets: "mget (db_MetricSets previous) key = Some old" "mget (db_MetricSets batch) key = Some new"
    and again: "ms_ScrapeTime old < ms_ScrapeTime new" "ms_CollectionStartTime new = ms_CollectionStartTime old"
    and counters: "mget (ms_MetricValues old) ''cpu/usage'' = Some b" "mget (ms_MetricValues new) ''cpu/usage'' = Some a"
    and grows: "mv_IntValue b \<le> mv_IntValue a" "1000 * (mv_IntValue a - mv_IntValue b) \<le> maxInt64"
  shows "\<exists>batch' ms rate. RateCalculator mapping (Some previous) batch = (True, batch')
    \<and> mget (db_MetricSets batch') key = Some ms \<and> mget (ms_MetricValues ms) ''cpu/usage_rate'' = Some rate
    \<and> mv_ValueType rate = ValueInt64 \<and> 0 \<le> mv_IntValue rate
    \<and> mv_IntValue rate * (ms_ScrapeTime new - ms_ScrapeTime old) \<le> 1000 * (mv_IntValue a - mv_IntValue b)
    \<and> 1000 * (mv_IntValue a - mv_IntValue b) < (mv_IntValue rate + 1) * (ms_ScrapeTime new - ms_ScrapeTime old)"
proof -
  let ?dt = "ms_ScrapeTime new - ms_ScrapeTime old" and ?rate = "cpu_rate a b (ms_ScrapeTime new - ms_ScrapeTime old)"
  have rate: "mv_IntValue ?rate = 1000 * (mv_IntValue a - mv_IntValue b) div ?dt"
    using grows again(1) by (intro cpu_rate_quotient) auto
  have floor: "0 \<le> mv_IntValue ?rate" "mv_IntValue ?rate * ?dt \<le> 1000 * (mv_IntValue a - mv_IntValue b)"
    "1000 * (mv_IntValue a - mv_IntValue b) < (mv_IntValue ?rate + 1) * ?dt"
    using again(1) grows(1) unfolding rate
    by (simp_all add: pos_imp_zdiv_nonneg_iff quotient_bounds)
  show ?thesis
    using sets again later floor cpu_rate_set [OF order counters(2,1)]
    by (auto simp: RateCalculator_def set_rates_def time_defs mget_map_val cpu_rate_def intValue_def)
qed

definition demo_scrape :: "time \<Rightarrow> int \<Rightarrow> dataBatch" where
  "demo_scrape t usage =
     \<lparr>db_Timestamp = t, db_MetricSets = [(''node:a'', (new_metric_set [])\<lparr>ms_ScrapeTime := t, ms_MetricValues := [(''cpu/usage'', intValue usage)]\<rparr>)]\<rparr>"

theorem cpu_rate_is_growth_per_time_witness:
  "\<exists>batch' ms rate. RateCalculator RateMetricsMapping (Some (demo_scrape 1000 40)) (demo_scrape 4000 55) = (True, batch')
    \<and> mget (db_MetricSets batch') ''node:a'' = Some ms \<and> mget (ms_MetricValues ms) ''cpu/usage_rate'' = Some rate \<and> mv_IntValue rate = 5"
proof -
  let ?set = "\<lambda>t usage. (new_metric_set [])\<lparr>ms_ScrapeTime := t, ms_MetricValues := [(''cpu/usage'', intValue usage)]\<rparr>"
  have "5 = rate" if "rate * 3000 \<le> 15000" "15000 < (rate + 1) * 3000" for rate :: int
    using that by simp
  then show ?thesis
    using cpu_rate_is_growth_per_time [OF refl, of "demo_scrape 1000 40" "demo_scrape 4000 55" "''node:a''" "?set 1000 40" "?set 4000 55"
        "intValue 40" "intValue 55"]
    by (fastforce simp: demo_scrape_def new_metric_set_def intValue_def maxInt64_def)
qed

section \<open>The history of the sink\<close>

text \<open>The sink after a history of exports, and the part of the history that a retention of \<open>d\<close> keeps: the last batch always.\<close>

definition exports :: "metricSink \<Rightarrow> (time \<times> dataBatch) list \<Rightarrow> metricSink" where
  "exports sink history = foldl (\<lambda>sink (now, batch). ExportData now batch sink) sink history"

definition retained :: "duration \<Rightarrow> (time \<times> dataBatch) list \<Rightarrow> dataBatch list" where
  "retained d history =
     (if history = [] then []
      else filter (\<lambda>batch. fst (last history) - d < db_Timestamp batch) (map snd (butlast history)) @ [snd (last history)])"

lemma retained_snoc [simp]: "retained d (h @ [(now, b)]) = filter (\<lambda>batch. now - d < db_Timestamp batch) (map snd h) @ [b]"
  by (simp add: retained_def)

lemma filter_retained:
  assumes "\<forall>e\<in>set h. fst e \<le> now"
  shows "filter (\<lambda>batch. now - d < db_Timestamp batch) (retained d h) = filter (\<lambda>batch. now - d < db_Timestamp batch) (map snd h)"
proof (cases h rule: rev_cases)
  case Nil
  then show ?thesis
    by (simp add: retained_def)
next
  case (snoc g e)
  moreover have "filter (\<lambda>batch. now - d < db_Timestamp batch) (filter (\<lambda>batch. fst e - d < db_Timestamp batch) bs)
      = filter (\<lambda>batch. now - d < db_Timestamp batch) bs" for bs
    using assms snoc by (induction bs) auto
  ultimately show ?thesis
    by (cases e) simp
qed

lemma exports_snoc [simp]: "exports sink (h @ [(now, b)]) = ExportData now b (exports sink h)"
  by (simp add: exports_def)

lemma exports_stores:
  assumes "sorted (map fst history)"
  shows "sk_longStoreMetrics (exports (NewMetricSink ds dl longs) history) = longs
    \<and> sk_shortStoreDuration (exports (NewMetricSink ds dl longs) history) = ds
    \<and> sk_longStoreDuration (exports (NewMetricSink ds dl longs) history) = dl
    \<and> sk_shortStore (exports (NewMetricSink ds dl longs) history) = retained ds history
    \<and> sk_longStore (exports (NewMetricSink ds dl longs) history) = map (buildMultimetricStore longs) (retained dl history)"
  using assms
proof (induction history rule: rev_induct)
  case Nil
  then show ?case
    by (simp add: exports_def NewMetricSink_def retained_def)
next
  case (snoc e history)
  obtain now b where e: "e = (now, b)"
    by fastforce
  have "\<forall>e\<in>set history. fst e \<le> now"
    using snoc.prems e by (auto simp: sorted_append)
  note past = filter_retained [OF this]
  have "filter (\<lambda>store. now - dl < mm_timestamp store) (map (buildMultimetricStore longs) bs)
      = map (buildMultimetricStore longs) (filter (\<lambda>batch. now - dl < db_Timestamp batch) bs)" for bs
    by (induction bs) (simp_all add: buildMultimetricStore_def)
  moreover have "sorted (map fst history)"
    using snoc.prems by (simp add: sorted_append)
  ultimately show ?case
    using snoc.IH by (simp add: e ExportData_def popOld_def popOldStore_def time_defs past)
qed

subsection \<open>The long store\<close>

definition stored_value :: "dataBatch \<Rightarrow> string \<Rightarrow> string \<Rightarrow> metricValue option" where
  "stored_value batch key metric =
     (case mget (db_MetricSets batch) key of None \<Rightarrow> None | Some ms \<Rightarrow> mget (ms_MetricValues ms) metric)"

lemma store_metric_set_lookup:
  "mget (mget0 [] (store_metric_set metrics store (key', ms)) metric) key =
     (case mget (ms_MetricValues ms) metric of
        Some v \<Rightarrow> if metric \<in> set metrics \<and> key = key' then Some (mv_IntValue v) else mget (mget0 [] store metric) key
      | None \<Rightarrow> mget (mget0 [] store metric) key)"
  unfolding store_metric_set_def
  by (induction metrics arbitrary: store) (auto split: option.splits)

lemma store_sets_lookup:
  assumes "gomap_ok sets"
  shows "mget (mget0 [] (foldl (store_metric_set metrics) store sets) metric) key =
     (case (case mget sets key of None \<Rightarrow> None | Some ms \<Rightarrow> mget (ms_MetricValues ms) metric) of
        Some v \<Rightarrow> if metric \<in> set metrics then Some (mv_IntValue v) else mget (mget0 [] store metric) key
      | None \<Rightarrow> mget (mget0 [] store metric) key)"
  using assms
proof (induction sets arbitrary: store)
  case (Cons e sets)
  then show ?case
    by (cases e) (auto simp: gomap_ok_Cons store_metric_set_lookup split: option.splits)
qed simp

lemma empty_stores: "mget (mget0 [] (foldl (\<lambda>store metric. mput metric [] store) store metrics) metric) key =
    (if metric \<in> set metrics then None else mget (mget0 [] store metric) key)"
  by (induction metrics arbitrary: store) auto

lemma buildMultimetricStore_lookup:
  assumes "gomap_ok (db_MetricSets batch)" and "metric \<in> set metrics"
  shows "mget (mget0 [] (mm_store (buildMultimetricStore metrics batch)) metric) key = map_option mv_IntValue (stored_value batch key metric)"
  using assms by (simp add: buildMultimetricStore_def store_sets_lookup empty_stores stored_value_def split: option.splits)

subsection \<open>Queries\<close>

definition sink_answer :: "time \<Rightarrow> metricValue option \<Rightarrow> timestamped list" where
  "sink_answer t v = (case v of None \<Rightarrow> [] | Some v \<Rightarrow> [(t, v)])"

lemma add_answer_lookup: "mget0 [] (add_answer t result key v) key' = mget0 [] result key' @ (if key' = key then sink_answer t v else [])"
  by (auto simp: add_answer_def sink_answer_def split: option.splits)

lemma add_answers_lookup:
  assumes "distinct keys"
  shows "mget0 [] (foldl (\<lambda>result key. add_answer t result key (f key)) result keys) key =
    mget0 [] result key @ (if key \<in> set keys then sink_answer t (f key) else [])"
  using assms by (induction keys arbitrary: result) (auto simp: add_answer_lookup)

lemma all_answers_lookup:
  assumes "distinct keys" and "key \<in> set keys"
  shows "mget0 [] (foldl (\<lambda>result x. if within_times start end (t x)
       then foldl (\<lambda>result key. add_answer (t x) result key (f x key)) result keys else result) result xs) key =
    mget0 [] result key @ concat (map (\<lambda>x. sink_answer (t x) (f x key)) (filter (\<lambda>x. within_times start end (t x)) xs))"
  using assms by (induction xs arbitrary: result) (auto simp: add_answers_lookup)

lemma concat_answers:
  "concat (map (\<lambda>batch. sink_answer (db_Timestamp batch) (f batch)) (filter (\<lambda>batch. within_times start end (db_Timestamp batch)) bs)) =
   [(db_Timestamp batch, v). batch \<leftarrow> bs, start \<le> db_Timestamp batch \<and> db_Timestamp batch \<le> end,
      v \<leftarrow> (case f batch of None \<Rightarrow> [] | Some v \<Rightarrow> [v])]"
  by (induction bs) (auto simp: sink_answer_def within_times_def time_defs split: option.splits)

lemma GetMetric_short:
  assumes "metric \<notin> set (sk_longStoreMetrics sink)" and "distinct keys" "key \<in> set keys"
  shows "mget0 [] (GetMetric metric keys start end sink) key =
    [(db_Timestamp batch, v). batch \<leftarrow> sk_shortStore sink, start \<le> db_Timestamp batch \<and> db_Timestamp batch \<le> end,
      v \<leftarrow> (case stored_value batch key metric of None \<Rightarrow> [] | Some v \<Rightarrow> [v])]"
proof -
  have "GetMetric metric keys start end sink =
    foldl (\<lambda>result batch. if within_times start end (db_Timestamp batch)
      then foldl (\<lambda>result key. add_answer (db_Timestamp batch) result key (stored_value batch key metric)) result keys
      else result) [] (sk_shortStore sink)"
    using assms(1) unfolding stored_value_def by (simp add: GetMetric_def)
  then show ?thesis
    by (simp add: all_answers_lookup [OF assms(2,3)] concat_answers mget0_None)
qed

lemma GetMetric_long:
  assumes "metric \<in> set (sk_longStoreMetrics sink)" and "sk_longStore sink = map (buildMultimetricStore (sk_longStoreMetrics sink)) bs"
    and "\<forall>batch\<in>set bs. gomap_ok (db_MetricSets batch)" and "distinct keys" "key \<in> set keys"
  shows "mget0 [] (GetMetric metric keys start end sink) key =
    [(db_Timestamp batch, v). batch \<leftarrow> bs, start \<le> db_Timestamp batch \<and> db_Timestamp batch \<le> end,
      v \<leftarrow> (case map_option (\<lambda>v. intValue (mv_IntValue v)) (stored_value batch key metric) of None \<Rightarrow> [] | Some v \<Rightarrow> [v])]"
proof -
  let ?f = "\<lambda>store key. map_option intValue (mget (mget0 [] (mm_store store) metric) key)"
  have "map (\<lambda>store. sink_answer (mm_timestamp store) (?f store key))
        (filter (\<lambda>store. within_times start end (mm_timestamp store)) (map (buildMultimetricStore (sk_longStoreMetrics sink)) bs)) =
      map (\<lambda>batch. sink_answer (db_Timestamp batch) (map_option (\<lambda>v. intValue (mv_IntValue v)) (stored_value batch key metric)))
        (filter (\<lambda>batch. within_times start end (db_Timestamp batch)) bs)"
    using assms(1,3)
    by (induction bs) (simp_all add: buildMultimetricStore_lookup option.map_comp comp_def,
        simp_all add: buildMultimetricStore_def)
  then show ?thesis
    using all_answers_lookup [OF assms(4,5), of start "end" mm_timestamp ?f "[]" "sk_longStore sink"] assms(1,2)
    by (simp add: GetMetric_def concat_answers mget0_None)
qed

text \<open>
  C27: a query of a metric for some sets, after a history of exports whose clock did not run backwards, returns for each
  of the sets the values of the metric in the exported batches that the retention of its store kept and whose timestamp
  is within the asked times, in the order of the exports.  The long store keeps only the integer of a value.
\<close>

theorem queries_return_history:
  assumes clock: "sorted (map fst history)"
    and maps: "\<forall>e\<in>set history. gomap_ok (db_MetricSets (snd e))"
    and keys: "distinct keys" "key \<in> set keys"
  shows "mget0 [] (GetMetric metric keys start end (exports (NewMetricSink ds dl longs) history)) key =
    [(db_Timestamp batch, if metric \<in> set longs then intValue (mv_IntValue v) else v).
      batch \<leftarrow> retained (if metric \<in> set longs then dl else ds) history,
      start \<le> db_Timestamp batch \<and> db_Timestamp batch \<le> end,
      v \<leftarrow> (case stored_value batch key metric of None \<Rightarrow> [] | Some v \<Rightarrow> [v])]"
proof -
  let ?sink = "exports (NewMetricSink ds dl longs) history"
  have ok: "\<forall>batch\<in>set (retained d history). gomap_ok (db_MetricSets batch)" for d
    using maps by (cases history rule: rev_cases) (auto simp: retained_def)
  show ?thesis
  proof (cases "metric \<in> set longs")
    case True
    then have "mget0 [] (GetMetric metric keys start end ?sink) key =
        [(db_Timestamp batch, v). batch \<leftarrow> retained dl history, start \<le> db_Timestamp batch \<and> db_Timestamp batch \<le> end,
          v \<leftarrow> (case map_option (\<lambda>v. intValue (mv_IntValue v)) (stored_value batch key metric) of None \<Rightarrow> [] | Some v \<Rightarrow> [v])]"
      using exports_stores [OF clock, of ds dl longs] by (intro GetMetric_long ok keys) simp_all
    also have "\<dots> = [(db_Timestamp batch, intValue (mv_IntValue v)). batch \<leftarrow> retained dl history,
          start \<le> db_Timestamp batch \<and> db_Timestamp batch \<le> end, v \<leftarrow> (case stored_value batch key metric of None \<Rightarrow> [] | Some v \<Rightarrow> [v])]"
      by (rule arg_cong [where f = concat], rule map_cong) (auto split: option.splits)
    finally show ?thesis
      unfolding if_P [OF True] .
  next
    case False
    then show ?thesis
      unfolding if_not_P [OF False]
      using exports_stores [OF clock, of ds dl longs] GetMetric_short [of metric ?sink, OF _ keys] by simp
  qed
qed

theorem queries_return_history_witness:
  "mget0 [] (GetMetric ''cpu/usage'' [''node:a''] 0 9000
      (exports (NewMetricSink 5000 9000 []) [(1001, demo_scrape 1000 40), (4001, demo_scrape 4000 55), (8001, demo_scrape 8000 60)])) ''node:a''
    = [(4000, intValue 55), (8000, intValue 60)]"
  by (subst queries_return_history) (simp_all add: demo_scrape_def retained_def stored_value_def gomap_ok_def)

end
