(* ===== verification/HeapsterTotals.thy ===== *)
theory HeapsterTotals
  imports HeapsterRun
begin

text \<open>
  \<open>heapster/metrics/processors\<close>: the aggregators together.  What they add up for a namespace and for the cluster are the
  sums, as \<open>int64\<close>, of the values of the pods, in whatever order the maps are visited.
\<close>

section \<open>Sums of optional values\<close>

fun plus_opt :: "int option \<Rightarrow> int option \<Rightarrow> int option" where
  "plus_opt None b = b"
| "plus_opt a None = a"
| "plus_opt (Some a) (Some b) = Some (i64 (a + b))"

lemma plus_opt_None [simp]: "plus_opt a None = a"
  by (cases a) simp_all

lemma i64_add_left: "i64 (i64 a + b) = i64 (a + b)"
proof -
  have "i64 (i64 a + b) = signed_take_bit 63 (signed_take_bit 63 (i64 a) + signed_take_bit 63 b)"
    by (simp only: signed_take_bit_add i64_def)
  also have "signed_take_bit 63 (i64 a) = signed_take_bit 63 a"
    by (simp add: i64_def)
  finally show ?thesis
    by (simp only: signed_take_bit_add i64_def)
qed

lemma i64_add_right: "i64 (a + i64 b) = i64 (a + b)"
  using i64_add_left [of b a] by (simp add: add.commute)

lemma plus_opt_assoc: "plus_opt (plus_opt a b) c = plus_opt a (plus_opt b c)"
  by (cases a; cases b; cases c) (simp_all add: i64_add_left i64_add_right add.assoc)

lemma plus_opt_commute: "plus_opt a b = plus_opt b a"
  by (cases a; cases b) (simp_all add: add.commute)

definition amount :: "string \<Rightarrow> metricSet \<Rightarrow> int option" where
  "amount metric ms = map_option mv_IntValue (mget (ms_MetricValues ms) metric)"

definition amount_at :: "string \<Rightarrow> metricSet option \<Rightarrow> int option" where
  "amount_at metric ms = (case ms of None \<Rightarrow> None | Some ms \<Rightarrow> amount metric ms)"

fun tot :: "string \<Rightarrow> metricSet list \<Rightarrow> int option" where
  "tot metric [] = None"
| "tot metric (ms # mss) = plus_opt (amount metric ms) (tot metric mss)"

lemma tot_append: "tot metric (xs @ ys) = plus_opt (tot metric xs) (tot metric ys)"
  by (induction xs) (simp_all add: plus_opt_assoc)

lemma tot_mput:
  "amount metric ms' = plus_opt (amount_at metric (mget m k)) x \<Longrightarrow>
    tot metric (map snd (mput k ms' m)) = plus_opt (tot metric (map snd m)) x"
proof (induction m)
  case (Cons e m)
  then show ?case
    by (cases e) (auto simp: mput_def amount_at_def plus_opt_assoc, metis plus_opt_commute)
qed (simp add: mput_def amount_at_def)

text \<open>The sum as it is stated of the program: none if no set has the metric.\<close>

definition values_of :: "string \<Rightarrow> metricSet list \<Rightarrow> int list" where
  "values_of metric mss = [mv_IntValue v. ms \<leftarrow> mss, v \<leftarrow> (case mget (ms_MetricValues ms) metric of None \<Rightarrow> [] | Some v \<Rightarrow> [v])]"

definition sum_of :: "string \<Rightarrow> metricSet list \<Rightarrow> int option" where
  "sum_of metric mss = (if values_of metric mss = [] then None else Some (i64 (sum_list (values_of metric mss))))"

section \<open>Integer metrics\<close>

definition typed :: "string set \<Rightarrow> metricSet \<Rightarrow> bool" where
  "typed N ms \<longleftrightarrow> list_all (\<lambda>(n, v). n \<in> N \<longrightarrow> mv_ValueType v = ValueInt64 \<and> in_i64 (mv_IntValue v)) (ms_MetricValues ms)"

lemma typedD: "typed N ms \<Longrightarrow> n \<in> N \<Longrightarrow> mget (ms_MetricValues ms) n = Some v \<Longrightarrow> mv_ValueType v = ValueInt64 \<and> in_i64 (mv_IntValue v)"
  using mget_SomeD [of "ms_MetricValues ms" n v] by (auto simp: typed_def list_all_iff)

lemma values_of_Cons: "values_of metric (ms # mss) = (case amount metric ms of None \<Rightarrow> [] | Some a \<Rightarrow> [a]) @ values_of metric mss"
  by (simp add: values_of_def amount_def split: option.splits)

lemma sum_of_tot:
  assumes "\<forall>ms\<in>set mss. typed N ms" and "metric \<in> N"
  shows "sum_of metric mss = tot metric mss"
  using assms
proof (induction mss)
  case (Cons ms mss)
  then have "tot metric mss = sum_of metric mss"
    by simp
  moreover have "i64 a = a" if "amount metric ms = Some a" for a
    using Cons.prems typedD [of N ms metric] that by (auto simp: amount_def i64_id)
  ultimately show ?case
    by (cases "values_of metric mss = []"; cases "amount metric ms") (auto simp: sum_of_def values_of_Cons i64_add_right)
qed (simp add: sum_of_def values_of_def)

lemma has_type_labels: "ms_Labels a = ms_Labels b \<Longrightarrow> has_type t a = has_type t b"
  by (simp add: has_type_def)

lemma typed_set_value:
  "typed N ms \<Longrightarrow> (n \<in> N \<Longrightarrow> mv_ValueType v = ValueInt64 \<and> in_i64 (mv_IntValue v)) \<Longrightarrow> typed N (set_value n v ms)"
  using mput_entries [of _ n v "ms_MetricValues ms"] by (fastforce simp: typed_def list_all_iff)

lemma add_values_typed: "mv_ValueType a = ValueInt64 \<Longrightarrow> mv_ValueType (add_values a v) = ValueInt64 \<and> in_i64 (mv_IntValue (add_values a v))
    \<and> mv_IntValue (add_values a v) = i64 (mv_IntValue a + mv_IntValue v)"
  by (simp add: add_values_def i64_range)

text \<open>Adding one set to another.\<close>

lemma aggregate_adds:
  assumes "distinct names" and "set names \<subseteq> N" and "typed N src" and "typed N dst"
  shows "\<exists>dst'. aggregate src dst names = (dst', None) \<and> ms_Labels dst' = ms_Labels dst \<and> typed N dst'
    \<and> (\<forall>metric. amount metric dst' = (if metric \<in> set names then plus_opt (amount metric dst) (amount metric src) else amount metric dst))"
  using assms
proof (induction names arbitrary: dst)
  case (Cons n names)
  show ?case
  proof (cases "mget (ms_MetricValues src) n")
    case None
    then show ?thesis
      using Cons.IH [of dst] Cons.prems by (auto simp: amount_def)
  next
    case (Some v)
    let ?v = "case mget (ms_MetricValues dst) n of None \<Rightarrow> v | Some a \<Rightarrow> add_values a v"
    have v: "mv_ValueType v = ValueInt64" "in_i64 (mv_IntValue v)"
      using typedD [OF Cons.prems(3) _ Some] Cons.prems(2) by auto
    have a: "mv_ValueType a = ValueInt64" if "mget (ms_MetricValues dst) n = Some a" for a
      using typedD [OF Cons.prems(4) _ that] Cons.prems(2) by auto
    have step: "aggregate src dst (n # names) = aggregate src (set_value n ?v dst) names"
      using Some v a by (simp split: option.splits)
    have "typed N (set_value n ?v dst)"
      using Cons.prems(4) v a add_values_typed by (intro typed_set_value) (auto simp: i64_range split: option.splits)
    moreover have "amount n (set_value n ?v dst) = plus_opt (amount n dst) (amount n src)"
      using Some a add_values_typed by (auto simp: amount_def split: option.splits)
    moreover have "amount m (set_value n ?v dst) = amount m dst" if "m \<noteq> n" for m
      using that by (simp add: amount_def)
    ultimately show ?thesis
      using Cons.IH [of "set_value n ?v dst"] Cons.prems unfolding step by fastforce
  qed
qed simp

section \<open>Pods\<close>

definition plain_set :: "string set \<Rightarrow> metricSet \<Rightarrow> bool" where
  "plain_set N ms \<longleftrightarrow> typed N ms \<and> \<not> has_type ''ns'' ms \<and> (\<forall>n. mget (ms_Labels ms) ''namespace_name'' = Some n \<longrightarrow> CHR ''/'' \<notin> set n)"

lemma plain_same_labels: "plain_set N ms \<Longrightarrow> ms_Labels ms' = ms_Labels ms \<Longrightarrow> typed N ms' \<Longrightarrow> plain_set N ms'"
  by (simp add: plain_set_def has_type_def)

lemma pod_metric_keeps:
  assumes "typed N (fst st)" and "snd e = v" and "fst e \<in> N \<longrightarrow> mv_ValueType v = ValueInt64 \<and> in_i64 (mv_IntValue v)"
  shows "typed N (fst (pod_metric k st e)) \<and> ms_Labels (fst (pod_metric k st e)) = ms_Labels (fst st)"
proof -
  obtain pod req n where st: "st = (pod, req)" and e: "e = (n, v)"
    using assms(2) by (metis prod.collapse)
  have "n \<in> N \<Longrightarrow> mget (ms_MetricValues pod) n = Some a \<Longrightarrow> mv_ValueType (add_values a v) = ValueInt64 \<and> in_i64 (mv_IntValue (add_values a v))" for a
    using assms(1) typedD add_values_typed st by fastforce
  then show ?thesis
    using assms by (auto simp: st e pod_metric_def intro!: typed_set_value split: option.splits)
qed

lemma pod_metrics_keep:
  assumes "typed N (fst st)" and "\<forall>e\<in>set es. fst e \<in> N \<longrightarrow> mv_ValueType (snd e) = ValueInt64 \<and> in_i64 (mv_IntValue (snd e))"
  shows "typed N (fst (foldl (pod_metric k) st es)) \<and> ms_Labels (fst (foldl (pod_metric k) st es)) = ms_Labels (fst st)"
  using assms by (induction es arbitrary: st) (auto simp: pod_metric_keeps)

text \<open>The sets that are there or are about to be added, their keys, and the sets that count as pods.\<close>

definition plain_sets :: "string set \<Rightarrow> metricSets \<Rightarrow> bool" where
  "plain_sets N sets \<longleftrightarrow> gomap_ok sets \<and>
     (\<forall>(key, ms)\<in>set sets. plain_set N ms \<and> (\<forall>n. key = NamespaceKey n \<longrightarrow> CHR ''/'' \<in> set n))"

definition is_pod :: "metricSet \<Rightarrow> bool" where
  "is_pod ms \<longleftrightarrow> has_type ''pod'' ms \<and> mhas (ms_Labels ms) ''namespace_name''"

lemma plain_sets_mput:
  assumes "plain_sets N sets" and "plain_set N ms" and "\<And>n. key = NamespaceKey n \<Longrightarrow> CHR ''/'' \<in> set n"
  shows "plain_sets N (mput key ms sets)"
  using assms by (auto simp: plain_sets_def dest!: mput_entries)

lemma plain_setsD: "plain_sets N sets \<Longrightarrow> mget sets key = Some ms \<Longrightarrow> plain_set N ms"
  using mget_SomeD [of sets key ms] by (auto simp: plain_sets_def)

lemma plain_sets_key: "plain_sets N sets \<Longrightarrow> mget sets (NamespaceKey n) = Some ms \<Longrightarrow> CHR ''/'' \<in> set n"
  using mget_SomeD [of sets "NamespaceKey n" ms] by (auto simp: plain_sets_def)

lemma PodKey_is_no_namespace: "PodKey ns p = NamespaceKey n \<Longrightarrow> CHR ''/'' \<in> set n"
proof -
  assume "PodKey ns p = NamespaceKey n"
  then have "n = ns @ ''/pod:'' @ p"
    by (simp add: PodKey_def NamespaceKey_def)
  then show ?thesis
    by simp
qed

lemma copied_pod_labels:
  "mget (foldl (\<lambda>new l. case mget ls l of Some v \<Rightarrow> mput l v new | None \<Rightarrow> new) start keys) k =
     (if k \<in> set keys \<and> mget ls k \<noteq> None then mget ls k else mget start k)"
  by (induction keys arbitrary: start) (auto split: option.splits)

lemma podMetricSet_label:
  "mget (ms_Labels (podMetricSet ls)) k = (if k \<in> set LabelsToPopulate \<and> mget ls k \<noteq> None then mget ls k else mget [(''type'', ''pod'')] k)"
  by (simp add: podMetricSet_def new_metric_set_def copied_pod_labels)

lemma podMetricSet_plain:
  assumes "plain_set N ms"
  shows "plain_set N (podMetricSet (ms_Labels ms))"
proof -
  have "typed N (podMetricSet (ms_Labels ms))"
    by (simp add: typed_def podMetricSet_def new_metric_set_def)
  moreover have "has_type ''pod'' (podMetricSet (ms_Labels ms))"
    by (simp add: has_type_def podMetricSet_label LabelsToPopulate_def)
  ultimately show ?thesis
    using assms by (simp add: plain_set_def has_type_def podMetricSet_label)
qed

lemma pod_metrics_plain:
  assumes "plain_set N pod" and "plain_set N ms"
  shows "plain_set N (fst (foldl (pod_metric k) (pod, req) (ms_MetricValues ms)))"
proof -
  have "\<forall>e\<in>set (ms_MetricValues ms). fst e \<in> N \<longrightarrow> mv_ValueType (snd e) = ValueInt64 \<and> in_i64 (mv_IntValue (snd e))"
    using assms(2) unfolding plain_set_def typed_def list_all_iff by fastforce
  moreover have "typed N (fst (pod, req))"
    using assms(1) by (simp add: plain_set_def)
  ultimately show ?thesis
    using pod_metrics_keep assms(1) by (metis fst_conv plain_same_labels)
qed

definition plain_aggregation :: "string set \<Rightarrow> podAggregation \<Rightarrow> bool" where
  "plain_aggregation N st \<longleftrightarrow> plain_sets N (pg_sets st) \<and> plain_sets N (pg_newPods st)"

lemma pod_aggregate_step_plain:
  assumes "plain_aggregation N st"
  shows "plain_aggregation N (pod_aggregate_step st key)"
proof -
  note ok = assms [unfolded plain_aggregation_def]
  have stored: "plain_sets N (mput (PodKey ns p) (fst (foldl (pod_metric k) (pod, req) (ms_MetricValues ms))) sets)"
    if "plain_sets N sets" "plain_set N pod" "plain_set N ms" for ns p k pod req ms sets
    using that PodKey_is_no_namespace by (intro plain_sets_mput pod_metrics_plain) auto
  show ?thesis
    using ok stored plain_setsD podMetricSet_plain
    by (auto simp: pod_aggregate_step_def plain_aggregation_def Let_def case_prod_beta split: option.splits)
qed

lemma put_all_plain: "plain_sets N sets \<Longrightarrow> plain_sets N added \<Longrightarrow> plain_sets N (put_all sets added)"
proof (induction added arbitrary: sets)
  case (Cons e added)
  obtain key ms where e: "e = (key, ms)"
    by fastforce
  have "plain_sets N (mput key ms sets)" "plain_sets N added"
    using Cons.prems by (auto simp: e plain_sets_def gomap_ok_Cons dest!: mput_entries)
  then show ?case
    using Cons.IH by (simp add: e put_all_def)
qed (simp add: put_all_def)

lemma PodAggregator_plain:
  assumes "plain_sets N (db_MetricSets batch)"
  shows "plain_sets N (db_MetricSets (PodAggregator batch))"
proof -
  have "plain_aggregation N (foldl pod_aggregate_step st keys)" if "plain_aggregation N st" for st keys
    using that by (induction keys arbitrary: st) (auto simp: pod_aggregate_step_plain)
  moreover have "plain_sets N []"
    by (simp add: plain_sets_def)
  ultimately show ?thesis
    using assms by (auto simp: PodAggregator_def Let_def plain_aggregation_def intro!: put_all_plain)
qed

section \<open>Namespaces\<close>

text \<open>What the loop over the pods keeps: the new namespaces hold the totals of the pods it has seen.\<close>

definition in_namespace :: "string \<Rightarrow> metricSet \<Rightarrow> bool" where
  "in_namespace n ms \<longleftrightarrow> mget (ms_Labels ms) ''namespace_name'' = Some n"

definition namespaces_of :: "string set \<Rightarrow> string list \<Rightarrow> metricSet list \<Rightarrow> metricSets \<Rightarrow> bool" where
  "namespaces_of N metrics pods namespaces \<longleftrightarrow> gomap_ok namespaces
    \<and> (\<forall>(key, ns)\<in>set namespaces. typed N ns \<and> has_type ''ns'' ns \<and> (\<exists>n. key = NamespaceKey n \<and> CHR ''/'' \<notin> set n))
    \<and> (\<forall>metric\<in>set metrics. tot metric (map snd namespaces) = tot metric pods
        \<and> (\<forall>n. amount_at metric (mget namespaces (NamespaceKey n)) = tot metric (filter (in_namespace n) pods)))"

lemma NamespaceKey_inj [simp]: "NamespaceKey a = NamespaceKey b \<longleftrightarrow> a = b"
  by (simp add: NamespaceKey_def)

lemma namespaceMetricSet_simps [simp]:
  "ms_MetricValues (namespaceMetricSet n uid) = []" "has_type ''ns'' (namespaceMetricSet n uid)" "typed N (namespaceMetricSet n uid)"
  by (simp_all add: namespaceMetricSet_def new_metric_set_def has_type_def typed_def)

lemma namespaces_of_step:
  assumes inv: "namespaces_of N metrics pods namespaces" and metrics: "distinct metrics" "set metrics \<subseteq> N"
    and ms: "typed N ms" "in_namespace n ms" "CHR ''/'' \<notin> set n"
    and old: "old = (case mget namespaces (NamespaceKey n) of Some ns \<Rightarrow> ns | None \<Rightarrow> namespaceMetricSet n uid)"
  shows "\<exists>ns'. aggregate ms old metrics = (ns', None) \<and> namespaces_of N metrics (pods @ [ms]) (mput (NamespaceKey n) ns' namespaces)"
proof -
  have "typed N old" "has_type ''ns'' old"
    using inv mget_SomeD [of namespaces "NamespaceKey n"] by (auto simp: old namespaces_of_def split: option.splits)
  then obtain ns' where agg: "aggregate ms old metrics = (ns', None)" and ns': "ms_Labels ns' = ms_Labels old" "typed N ns'"
      "\<And>metric. metric \<in> set metrics \<Longrightarrow> amount metric ns' = plus_opt (amount metric old) (amount metric ms)"
    using aggregate_adds [OF metrics ms(1)] by meson
  have old_amount: "amount metric old = amount_at metric (mget namespaces (NamespaceKey n))" for metric
    by (auto simp: old amount_at_def amount_def split: option.splits)
  have "has_type ''ns'' ns'"
    using \<open>has_type ''ns'' old\<close> has_type_labels [OF ns'(1)] by simp
  moreover have "tot metric (map snd (mput (NamespaceKey n) ns' namespaces)) = tot metric (pods @ [ms])" if "metric \<in> set metrics" for metric
    using inv that ns'(3) [OF that] old_amount
    by (subst tot_mput [where x = "amount metric ms"]) (auto simp: namespaces_of_def tot_append)
  moreover have "amount_at metric (mget (mput (NamespaceKey n) ns' namespaces) (NamespaceKey n')) = tot metric (filter (in_namespace n') (pods @ [ms]))"
    if "metric \<in> set metrics" for metric n'
    using inv that ns'(3) [OF that] old_amount ms(2) by (auto simp: namespaces_of_def tot_append amount_at_def in_namespace_def)
  ultimately show ?thesis
    using agg inv ns'(2) ms(3) by (auto simp: namespaces_of_def dest!: mput_entries)
qed

lemma namespaces_of_Nil: "namespaces_of N metrics [] []"
  by (simp add: namespaces_of_def amount_at_def)

lemma namespace_step_pod:
  assumes "mget sets key = Some ms" and "has_type ''pod'' ms" and "in_namespace n ms" and "mget sets (NamespaceKey n) = None"
  shows "namespace_step metrics ((sets, namespaces), None) key =
    (let (ns', err) = aggregate ms (case mget namespaces (NamespaceKey n) of Some ns \<Rightarrow> ns
          | None \<Rightarrow> namespaceMetricSet n (mget0 '''' (ms_Labels ms) ''namespace_id'')) metrics
     in ((sets, mput (NamespaceKey n) ns' namespaces), err))"
  using assms by (auto simp: namespace_step_def in_namespace_def Let_def split: option.splits)

lemma namespace_step_totals:
  assumes sets: "plain_sets N sets" "mget sets key = Some ms" and metrics: "distinct metrics" "set metrics \<subseteq> N"
    and inv: "namespaces_of N metrics pods namespaces"
  shows "\<exists>namespaces'. namespace_step metrics ((sets, namespaces), None) key = ((sets, namespaces'), None)
    \<and> namespaces_of N metrics (pods @ filter is_pod [ms]) namespaces'"
proof (cases "is_pod ms")
  case True
  then obtain n where n: "has_type ''pod'' ms" "in_namespace n ms"
    by (auto simp: is_pod_def mhas_def in_namespace_def)
  have ms: "typed N ms" "CHR ''/'' \<notin> set n"
    using plain_setsD [OF sets] n(2) by (auto simp: plain_set_def in_namespace_def)
  have "mget sets (NamespaceKey n) = None"
    using plain_sets_key [OF sets(1), of n] ms(2) by (cases "mget sets (NamespaceKey n)") auto
  from namespace_step_pod [OF sets(2) n this] True show ?thesis
    using namespaces_of_step [OF inv metrics ms(1) n(2) ms(2) refl, where uid = "mget0 '''' (ms_Labels ms) ''namespace_id''"]
    by auto
next
  case False
  then have "namespace_step metrics ((sets, namespaces), None) key = ((sets, namespaces), None)"
    using sets(2) by (auto simp: namespace_step_def is_pod_def mhas_def)
  then show ?thesis
    using False inv by simp
qed

lemma namespace_steps_total:
  assumes sets: "plain_sets N sets" and metrics: "distinct metrics" "set metrics \<subseteq> N"
    and "\<forall>(key, ms)\<in>set es. mget sets key = Some ms" and "namespaces_of N metrics pods namespaces"
  shows "\<exists>namespaces'. foldl (namespace_step metrics) ((sets, namespaces), None) (map fst es) = ((sets, namespaces'), None)
    \<and> namespaces_of N metrics (pods @ filter is_pod (map snd es)) namespaces'"
  using assms(4,5)
proof (induction es arbitrary: pods namespaces)
  case (Cons e es)
  obtain key ms where e: "e = (key, ms)"
    by fastforce
  with Cons.prems have "mget sets key = Some ms"
    by simp
  from namespace_step_totals [OF sets this metrics Cons.prems(2)] obtain namespaces1
    where step: "namespace_step metrics ((sets, namespaces), None) key = ((sets, namespaces1), None)"
      and inv: "namespaces_of N metrics (pods @ filter is_pod [ms]) namespaces1"
    by blast
  have "\<forall>(key, ms)\<in>set es. mget sets key = Some ms"
    using Cons.prems(1) by simp
  from Cons.IH [OF this inv] step show ?case
    by (cases "is_pod ms") (simp_all add: e)
qed simp

lemma mput_new: "mget m k = None \<Longrightarrow> mput k v m = m @ [(k, v)]"
  by (induction m) (auto simp: mput_def split: if_splits)

lemma put_all_new: "gomap_ok added \<Longrightarrow> (\<And>k. mhas added k \<Longrightarrow> mget sets k = None) \<Longrightarrow> put_all sets added = sets @ added"
proof (induction added arbitrary: sets)
  case (Cons e added)
  obtain k v where e: "e = (k, v)"
    by fastforce
  have "mget (mput k v sets) k' = None" if "mhas added k'" for k'
    using that Cons.prems by (auto simp: e gomap_ok_Cons mhas_def)
  then have "put_all (mput k v sets) added = mput k v sets @ added"
    using Cons.prems by (intro Cons.IH) (auto simp: e gomap_ok_Cons)
  moreover have "mget sets k = None"
    using Cons.prems(2) by (simp add: e mhas_def)
  ultimately show ?case
    by (simp add: e put_all_def mput_new)
qed (simp add: put_all_def)

lemma NamespaceAggregator_totals:
  assumes plain: "plain_sets N (db_MetricSets batch)" and metrics: "distinct metrics" "set metrics \<subseteq> N"
  shows "\<exists>namespaces. NamespaceAggregator metrics batch = (batch\<lparr>db_MetricSets := db_MetricSets batch @ namespaces\<rparr>, None)
    \<and> namespaces_of N metrics (filter is_pod (map snd (db_MetricSets batch))) namespaces"
proof -
  let ?sets = "db_MetricSets batch"
  have "\<forall>(key, ms)\<in>set ?sets. mget ?sets key = Some ms"
    using plain by (auto simp: plain_sets_def mget_eq_Some_iff)
  from namespace_steps_total [OF plain metrics this namespaces_of_Nil] obtain namespaces
    where steps: "foldl (namespace_step metrics) ((?sets, []), None) (map fst ?sets) = ((?sets, namespaces), None)"
      and inv: "namespaces_of N metrics (filter is_pod (map snd ?sets)) namespaces"
    by auto
  have "mget ?sets k = None" if k: "mhas namespaces k" for k
  proof -
    obtain ns where "(k, ns) \<in> set namespaces"
      using k mget_SomeD [of namespaces k] by (auto simp: mhas_def)
    then obtain n where "k = NamespaceKey n" "CHR ''/'' \<notin> set n"
      using inv by (auto simp: namespaces_of_def)
    then show ?thesis
      using plain_sets_key [OF plain, of n] by (cases "mget ?sets k") auto
  qed
  then have "put_all ?sets namespaces = ?sets @ namespaces"
    using inv by (intro put_all_new) (auto simp: namespaces_of_def)
  then show ?thesis
    using steps inv by (auto simp: NamespaceAggregator_def mkeys_def)
qed

section \<open>Nodes and the cluster\<close>

definition ns_entries :: "metricSets \<Rightarrow> metricSets" where
  "ns_entries sets = filter (\<lambda>(key, ms). has_type ''ns'' ms) sets"

definition summed :: "string set \<Rightarrow> metricSets \<Rightarrow> bool" where
  "summed N sets \<longleftrightarrow> gomap_ok sets \<and> (\<forall>(key, ms)\<in>set sets. typed N ms \<and> (has_type ''ns'' ms \<longrightarrow> (\<exists>n. key = NamespaceKey n)))"

lemma NodeKey_no_namespace [simp]: "NodeKey m \<noteq> NamespaceKey n" "ClusterKey \<noteq> NamespaceKey n" "NamespaceKey n \<noteq> ClusterKey" "NamespaceKey n \<noteq> NodeKey m"
  by (simp_all add: NodeKey_def NamespaceKey_def ClusterKey_def)

lemma filter_mput:
  "gomap_ok m \<Longrightarrow> mget m k = Some v \<Longrightarrow> \<not> P (k, v) \<Longrightarrow> \<not> P (k, v') \<Longrightarrow> filter P (mput k v' m) = filter P m"
proof (induction m)
  case (Cons e m)
  then show ?case
    by (cases e) (auto simp: mput_def gomap_ok_Cons split: if_splits)
qed simp

lemma node_step_keeps:
  assumes sets: "summed N sets" and metrics: "distinct metrics" "set metrics \<subseteq> N"
  shows "\<exists>sets'. node_step metrics (sets, None) key = (sets', None) \<and> summed N sets' \<and> ns_entries sets' = ns_entries sets
    \<and> (\<forall>n. mget sets' (NamespaceKey n) = mget sets (NamespaceKey n))"
proof (cases "\<exists>ms m node. mget sets key = Some ms \<and> has_type ''pod'' ms \<and> mget (ms_Labels ms) ''nodename'' = Some m \<and> m \<noteq> ''''
    \<and> mget sets (NodeKey m) = Some node")
  case True
  then obtain ms m node where ms: "mget sets key = Some ms" "has_type ''pod'' ms" "mget (ms_Labels ms) ''nodename'' = Some m" "m \<noteq> ''''"
    and node: "mget sets (NodeKey m) = Some node"
    by blast
  have typed: "typed N ms" "typed N node" and plain: "\<not> has_type ''ns'' node"
    using sets mget_SomeD [OF ms(1)] mget_SomeD [OF node] by (auto simp: summed_def)
  from aggregate_adds [OF metrics typed] obtain node' where agg: "aggregate ms node metrics = (node', None)"
    and node': "ms_Labels node' = ms_Labels node" "typed N node'"
    by blast
  have "\<not> has_type ''ns'' node'"
    using plain has_type_labels [OF node'(1)] by simp
  then have "ns_entries (mput (NodeKey m) node' sets) = ns_entries sets" "summed N (mput (NodeKey m) node' sets)"
    using sets plain node node'(2) by (auto simp: ns_entries_def summed_def filter_mput dest!: mput_entries)
  moreover have "node_step metrics (sets, None) key = (mput (NodeKey m) node' sets, None)"
    using ms node agg by (simp add: node_step_def)
  ultimately show ?thesis
    by simp
next
  case False
  then have "node_step metrics (sets, None) key = (sets, None)"
    by (auto simp: node_step_def split: option.splits)
  then show ?thesis
    using sets by simp
qed

lemma NodeAggregator_keeps:
  assumes "summed N (db_MetricSets batch)" and "distinct metrics" "set metrics \<subseteq> N"
  shows "\<exists>sets. NodeAggregator metrics batch = (batch\<lparr>db_MetricSets := sets\<rparr>, None) \<and> summed N sets
    \<and> ns_entries sets = ns_entries (db_MetricSets batch)
    \<and> (\<forall>n. mget sets (NamespaceKey n) = mget (db_MetricSets batch) (NamespaceKey n))"
proof -
  have "\<exists>sets'. foldl (node_step metrics) (sets, None) keys = (sets', None) \<and> summed N sets' \<and> ns_entries sets' = ns_entries sets
      \<and> (\<forall>n. mget sets' (NamespaceKey n) = mget sets (NamespaceKey n))" if "summed N sets" for sets keys
    using that
  proof (induction keys arbitrary: sets)
    case (Cons key keys)
    from node_step_keeps [OF Cons.prems assms(2,3), of key] obtain sets1
      where "node_step metrics (sets, None) key = (sets1, None)" "summed N sets1" "ns_entries sets1 = ns_entries sets"
        "\<forall>n. mget sets1 (NamespaceKey n) = mget sets (NamespaceKey n)"
      by blast
    then show ?case
      using Cons.IH [of sets1] by simp
  qed simp
  from this [OF assms(1), of "mkeys (db_MetricSets batch)"] show ?thesis
    by (auto simp: NodeAggregator_def)
qed

lemma cluster_aggregate_total:
  assumes metrics: "distinct metrics" "set metrics \<subseteq> N" and "\<forall>(key, ms)\<in>set sets. typed N ms" and "typed N cluster"
  shows "\<exists>cluster'. foldl (cluster_aggregate_step metrics) (cluster, None) sets = (cluster', None)
    \<and> (\<forall>metric\<in>set metrics. amount metric cluster' = plus_opt (amount metric cluster) (tot metric (map snd (ns_entries sets))))"
  using assms(3,4)
proof (induction sets arbitrary: cluster)
  case (Cons e sets)
  obtain key ms where e: "e = (key, ms)"
    by fastforce
  show ?case
  proof (cases "has_type ''ns'' ms")
    case True
    have "typed N ms"
      using Cons.prems(1) by (simp add: e)
    from aggregate_adds [OF metrics this Cons.prems(2)] obtain cluster1
      where "aggregate ms cluster metrics = (cluster1, None)" "typed N cluster1"
        "\<And>metric. metric \<in> set metrics \<Longrightarrow> amount metric cluster1 = plus_opt (amount metric cluster) (amount metric ms)"
      by meson
    then show ?thesis
      using Cons.IH [of cluster1] Cons.prems True by (simp add: e cluster_aggregate_step_def ns_entries_def plus_opt_assoc)
  next
    case False
    then show ?thesis
      using Cons by (simp add: e cluster_aggregate_step_def ns_entries_def)
  qed
qed (simp add: ns_entries_def)

section \<open>The totals\<close>

definition aggregatedMetrics :: "string set" where
  "aggregatedMetrics = set metricsToAggregate \<union> set metricsToAggregateForNode"

lemma metricsToAggregate_distinct: "distinct metricsToAggregate" "distinct metricsToAggregateForNode"
  by (simp_all add: metricsToAggregate_def metricsToAggregateForNode_def)

lemma plain_namespaces_summed:
  assumes plain: "plain_sets N sets" and namespaces: "namespaces_of N metrics pods namespaces"
  shows "summed N (sets @ namespaces) \<and> ns_entries (sets @ namespaces) = namespaces"
proof -
  have new: "mget sets k = None" if e: "(k, ns) \<in> set namespaces" for k ns
  proof -
    obtain n where n: "k = NamespaceKey n" "CHR ''/'' \<notin> set n"
      using e namespaces by (auto simp: namespaces_of_def)
    then show ?thesis
      using plain_sets_key [OF plain, of n] by (cases "mget sets k") auto
  qed
  have "fst e \<notin> fst ` set sets" if e: "e \<in> set namespaces" for e
    using new [of "fst e" "snd e"] e unfolding mget_None_iff by simp
  then have "fst ` set sets \<inter> fst ` set namespaces = {}"
    by (simp add: disjoint_iff image_iff) blast
  then have "gomap_ok (sets @ namespaces)"
    using plain namespaces by (simp add: plain_sets_def namespaces_of_def gomap_ok_def)
  moreover have "filter (\<lambda>(key, ms). has_type ''ns'' ms) sets = []" "filter (\<lambda>(key, ms). has_type ''ns'' ms) namespaces = namespaces"
    using plain namespaces by (auto simp: plain_sets_def plain_set_def namespaces_of_def filter_empty_conv intro!: filter_True)
  ultimately show ?thesis
    using plain namespaces by (fastforce simp: summed_def ns_entries_def plain_sets_def plain_set_def namespaces_of_def)
qed

lemma aggregate_batch_totals:
  assumes plain: "plain_sets aggregatedMetrics (db_MetricSets batch)"
  shows "\<exists>batch' cluster namespaces. aggregate_batch batch = (batch', None)
    \<and> mget (db_MetricSets batch') ClusterKey = Some cluster
    \<and> namespaces_of aggregatedMetrics metricsToAggregate (filter is_pod (map snd (db_MetricSets (PodAggregator batch)))) namespaces
    \<and> (\<forall>metric\<in>set metricsToAggregate. amount metric cluster = tot metric (map snd namespaces))
    \<and> (\<forall>n. CHR ''/'' \<notin> set n \<longrightarrow> mget (db_MetricSets batch') (NamespaceKey n) = mget namespaces (NamespaceKey n))"
proof -
  let ?N = aggregatedMetrics
  have sub: "set metricsToAggregate \<subseteq> ?N" "set metricsToAggregateForNode \<subseteq> ?N"
    by (auto simp: aggregatedMetrics_def)
  let ?pods = "PodAggregator batch"
  have pods: "plain_sets ?N (db_MetricSets ?pods)"
    by (rule PodAggregator_plain [OF plain])
  obtain namespaces where ns: "NamespaceAggregator metricsToAggregate ?pods = (?pods\<lparr>db_MetricSets := db_MetricSets ?pods @ namespaces\<rparr>, None)"
    and inv: "namespaces_of ?N metricsToAggregate (filter is_pod (map snd (db_MetricSets ?pods))) namespaces"
    using NamespaceAggregator_totals [OF pods metricsToAggregate_distinct(1) sub(1)] by blast
  let ?b = "?pods\<lparr>db_MetricSets := db_MetricSets ?pods @ namespaces\<rparr>"
  have all: "summed ?N (db_MetricSets ?b)" "ns_entries (db_MetricSets ?b) = namespaces"
    using plain_namespaces_summed [OF pods inv] by simp_all
  obtain sets where node: "NodeAggregator metricsToAggregateForNode ?b = (?b\<lparr>db_MetricSets := sets\<rparr>, None)" and "summed ?N sets"
    and same: "ns_entries sets = namespaces" "\<forall>n. mget sets (NamespaceKey n) = mget (db_MetricSets ?b) (NamespaceKey n)"
    using NodeAggregator_keeps [OF all(1) metricsToAggregate_distinct(2) sub(2)] all(2) by auto
  then have "\<forall>(key, ms)\<in>set sets. typed ?N ms" "typed ?N clusterMetricSet"
    by (auto simp: summed_def clusterMetricSet_def new_metric_set_def typed_def)
  from cluster_aggregate_total [OF metricsToAggregate_distinct(1) sub(1) this] same(1) obtain cluster
    where cluster: "foldl (cluster_aggregate_step metricsToAggregate) (clusterMetricSet, None) sets = (cluster, None)"
      "\<forall>metric\<in>set metricsToAggregate. amount metric cluster = tot metric (map snd namespaces)"
    by (auto simp: clusterMetricSet_def new_metric_set_def amount_def)
  have "mget (db_MetricSets ?pods @ namespaces) (NamespaceKey n) = mget namespaces (NamespaceKey n)" if "CHR ''/'' \<notin> set n" for n
    using plain_sets_key [OF pods, of n] that by (cases "mget (db_MetricSets ?pods) (NamespaceKey n)") (auto simp: mget_def map_add_def)
  then show ?thesis
    using ns node cluster inv same(2) by (auto simp: aggregate_batch_def ClusterAggregator_def)
qed

text \<open>
  C26: adding up never fails when the metrics it adds up are integers.  For each of these metrics, the value of the cluster
  is the sum of the values of the pods, and the value of each namespace the sum of those of its pods, as \<open>int64\<close> and
  for every order in which the sets are visited; without a pod that has the metric there is no value.
\<close>

theorem totals_are_sums_over_pods:
  assumes "plain_sets aggregatedMetrics (db_MetricSets batch)" and "metric \<in> set metricsToAggregate"
  defines "pods \<equiv> filter is_pod (map snd (db_MetricSets (PodAggregator batch)))"
  shows "\<exists>batch' cluster. aggregate_batch batch = (batch', None) \<and> mget (db_MetricSets batch') ClusterKey = Some cluster
    \<and> amount metric cluster = sum_of metric pods
    \<and> (\<forall>n. CHR ''/'' \<notin> set n \<longrightarrow> amount_at metric (mget (db_MetricSets batch') (NamespaceKey n)) = sum_of metric (filter (in_namespace n) pods))"
proof -
  obtain batch' cluster namespaces where run: "aggregate_batch batch = (batch', None)" "mget (db_MetricSets batch') ClusterKey = Some cluster"
      "amount metric cluster = tot metric (map snd namespaces)"
      "\<forall>n. CHR ''/'' \<notin> set n \<longrightarrow> mget (db_MetricSets batch') (NamespaceKey n) = mget namespaces (NamespaceKey n)"
    and inv: "namespaces_of aggregatedMetrics metricsToAggregate pods namespaces"
    using aggregate_batch_totals [OF assms(1)] assms(2) unfolding pods_def by blast
  have "\<forall>ms\<in>set pods. typed aggregatedMetrics ms" "metric \<in> aggregatedMetrics"
    using PodAggregator_plain [OF assms(1)] assms(2) by (auto simp: pods_def plain_sets_def plain_set_def aggregatedMetrics_def)
  then have "sum_of metric pods = tot metric pods" "sum_of metric (filter (in_namespace n) pods) = tot metric (filter (in_namespace n) pods)" for n
    by (auto intro!: sum_of_tot)
  then show ?thesis
    using run inv assms(2) by (simp add: namespaces_of_def)
qed

definition demo_set :: "string \<Rightarrow> string \<Rightarrow> (string \<times> int) list \<Rightarrow> metricSet" where
  "demo_set t ns values =
     (new_metric_set [(''type'', t), (''namespace_name'', ns), (''pod_name'', ''p'')])\<lparr>ms_MetricValues := map (\<lambda>(n, v). (n, intValue v)) values\<rparr>"

definition demo_batch :: dataBatch where
  "demo_batch =
     \<lparr>db_Timestamp = 100,
      db_MetricSets =
        [(PodKey ''a'' ''p'', demo_set ''pod'' ''a'' [(''cpu/request'', 3)]),
         (PodContainerKey ''a'' ''p'' ''c'', demo_set ''pod_container'' ''a'' [(''memory/usage'', 5)]),
         (PodContainerKey ''b'' ''p'' ''c'', demo_set ''pod_container'' ''b'' [(''memory/usage'', 7), (''cpu/request'', 2)])]\<rparr>"

theorem totals_are_sums_over_pods_witness:
  "\<exists>batch' cluster. aggregate_batch demo_batch = (batch', None) \<and> mget (db_MetricSets batch') ClusterKey = Some cluster
    \<and> amount ''memory/usage'' cluster = Some 12 \<and> amount_at ''memory/usage'' (mget (db_MetricSets batch') (NamespaceKey ''b'')) = Some 7"
proof -
  have "plain_sets aggregatedMetrics (db_MetricSets demo_batch)"
    by (simp add: demo_batch_def demo_set_def plain_sets_def plain_set_def typed_def has_type_def new_metric_set_def intValue_def
        gomap_ok_def PodKey_def PodContainerKey_def NamespaceKey_def in_i64_def minInt64_def maxInt64_def)
  moreover have "''memory/usage'' \<in> set metricsToAggregate"
    by (simp add: metricsToAggregate_def)
  moreover have "sum_of ''memory/usage'' (filter is_pod (map snd (db_MetricSets (PodAggregator demo_batch)))) = Some 12"
    "sum_of ''memory/usage'' (filter (in_namespace ''b'') (filter is_pod (map snd (db_MetricSets (PodAggregator demo_batch))))) = Some 7"
    by code_simp+
  ultimately show ?thesis
    using totals_are_sums_over_pods [of demo_batch "''memory/usage''"] by fastforce
qed

end
