(* ===== verification/Spec2Isabelle.thy ===== *)
theory Spec2Isabelle
  imports Backoff ClusterStateProps Balancing NodeGroupSet ScaleDownProps Estimator Expander ScaleUpProps
    StaticAutoscalerProps Recommend VpaPeaks VpaAggregator VpaHistory VpaUpdater VpaAdmissionProps
    AddonResizerProps HeapsterProps HeapsterTotals
begin

text \<open>
  Verification library of the Kubernetes autoscaling programs of this repository: the cluster autoscaler
  (\<open>autoscaler/cluster-autoscaler\<close>) and the vertical pod autoscaler
  (\<open>autoscaler/vertical-pod-autoscaler\<close>, VPA), the addon resizer
  (\<open>autoscaler/addon-resizer\<close>) and Heapster (\<open>heapster/metrics\<close>).  They are written in Go; file
  names below are relative to these directories (the VPA's to its \<open>pkg\<close>).

  \<^bold>\<open>The programs.\<close>  The cluster autoscaler runs one loop (\<open>core/static_autoscaler.go\<close>).  An
  iteration reads the nodes and pods, lets the cluster state registry compare what the cloud provider promises with
  the nodes that are there, repairs what does not fit, and then either adds nodes for pods that cannot be scheduled
  or removes nodes that are not needed.  The VPA is three programs around one kind of API object.  The recommender
  aggregates the usage of containers in decaying histograms, writes a recommendation for each container into the
  status of its autoscaler object, and keeps checkpoints of the histograms; the updater evicts pods whose requests
  are far from the recommendation; the admission controller sets the requests of new pods.  The addon resizer
  polls the number of nodes and rewrites the resources of one deployment when they are too far
  from what that number asks for.  Heapster collects metrics in batches, which a chain of processors completes with
  rates, requests and totals before a sink keeps them for queries.

  \<^bold>\<open>How the code is modelled.\<close>  A struct is a record, an enumeration a datatype, a method a
  function from the state to the new state; a map is an association list with distinct keys whose order is the order
  of \<open>range\<close>, so a statement for every such list holds for every order Go may choose
  (\<open>Prelude\<close>).  An error is the left of a sum or an \<open>option\<close>, as the theory says; a panic (nil
  dereference, index out of range) is \<open>None\<close> of an \<open>option\<close>.  An \<open>int64\<close> is an
  \<open>int\<close> that the wrap-around \<open>i64\<close> keeps in range, wherever the code can overflow; a
  \<open>float64\<close> is the type \<open>f64\<close> of \<open>Float64\<close>, whose operations round to nearest
  even, overflow and give NaN as the hardware does (\<open>FloatOps\<close>: conversions).  \<open>GoStrings\<close>
  prints and parses numbers.  What is not in the repository is a parameter: the predicates of the scheduler, label
  selectors, the API server, the clock, random numbers, sorting, and the functions of \<open>math\<close>, with the
  documented laws the code relies on as named hypotheses (\<open>math_laws\<close>, \<open>log_law\<close>,
  \<open>label_law\<close>, \<open>sort_contract\<close> and the other contracts below).

  \<^bold>\<open>Cluster autoscaler.\<close>
  \<^item> \<open>Backoff\<close>: \<open>utils/backoff\<close>; growth, window and expiry of the exponential back-off.
  \<^item> \<open>CloudTypes\<close>: nodes, taints, conditions, and the answers of a cloud provider;
    \<open>utils/kubernetes/ready.go\<close>.  \<open>GroupOps\<close>: the operations that change the cloud, with the
    test provider (\<open>cloudprovider/test\<close>) as their implementation.
  \<^item> \<open>ClusterState\<close>: \<open>clusterstate/clusterstate.go\<close>, one definition per method on
    the record \<open>clusterStateRegistry\<close>; \<open>ClusterStateReadiness\<close> refines the readiness counters
    from a classification of nodes, \<open>ClusterStateRun\<close> makes the registry a state machine
    (\<open>csr_step\<close>), \<open>ClusterStateProps\<close> has its invariant and the health rules.
  \<^item> \<open>Balancing\<close>, \<open>NodeGroupSet\<close>: \<open>processors/nodegroupset\<close>; the
    balancing loop with its loop invariant, and the similarity of node infos in floating point.
  \<^item> \<open>Simulator\<close>, \<open>SimulatorProps\<close>, \<open>Predicates\<close>, \<open>Drain\<close>,
    \<open>Tracker\<close>: \<open>simulator\<close> and \<open>utils/drain\<close>; which pods a drain moves,
    where they can go, and which nodes have to be looked at again when a node goes away.
  \<^item> \<open>Estimator\<close>, \<open>Expander\<close>: \<open>estimator\<close>, \<open>expander\<close>; how many nodes
    the pods need, and which group gets them.
  \<^item> \<open>CoreUtils\<close>, \<open>CoreUtilsProps\<close>: \<open>core/utils.go\<close> and
    \<open>simulator/nodes.go\<close>; the cache of predicate results, template nodes, repairs.
  \<^item> \<open>ScaleUpLimits\<close>, \<open>ScaleUp\<close>, \<open>ScaleUpProps\<close>, \<open>ScaleUpDemo\<close>:
    \<open>core/scale_up.go\<close>.
  \<^item> \<open>ScaleDownLimits\<close>, \<open>NodeDeletion\<close>, \<open>ScaleDown\<close>, \<open>ScaleDownProps\<close>:
    \<open>core/scale_down.go\<close>, with the retry loops of \<open>utils/deletetaint\<close>.
  \<^item> \<open>StaticAutoscaler\<close>: \<open>RunOnce\<close>, composed of all the above, on the record of the
    autoscaler; \<open>StaticAutoscalerRun\<close> makes it a state machine whose steps are iterations, ends of drains and
    changes of the cloud, \<open>StaticAutoscalerProps\<close> has what holds in every run, and
    \<open>StaticAutoscalerDemo\<close> evaluates four iterations from the start.

  \<^bold>\<open>Vertical pod autoscaler.\<close>
  \<^item> \<open>Histogram\<close>, \<open>DecayingHistogram\<close>: \<open>recommender/util\<close>; \<open>HistogramProps\<close>,
    \<open>DecayingProps\<close>, \<open>Percentiles\<close>, \<open>Checkpoint\<close>, \<open>HistogramDemo\<close>: the invariant
    of every sequence of operations, percentiles, and the round trip of checkpoints.
  \<^item> \<open>VpaTypes\<close>, \<open>AggregateState\<close>, \<open>VpaContainer\<close>, \<open>VpaAggregator\<close>,
    \<open>VpaPeaks\<close>: \<open>types.go\<close>, \<open>aggregate_container_state.go\<close> and \<open>container.go\<close> of
    \<open>recommender/model\<close>; what a container passes on to its aggregation, and that its memory samples are one peak
    per window.
  \<^item> \<open>VpaCluster\<close>, \<open>VpaClusterProps\<close>: \<open>cluster.go\<close>, \<open>vpa.go\<close> and the proxies; a
    heap of shared aggregations, and the invariant that an autoscaler object is linked to exactly the aggregations it
    matches.
  \<^item> \<open>Recommend\<close>: \<open>recommender/logic\<close>; the chains of estimators.
  \<^item> \<open>VpaFeeder\<close>, \<open>VpaFeederProps\<close>, \<open>VpaHistory\<close>: \<open>recommender/input\<close>; what is read from
    listings, metrics, events, checkpoints and Prometheus.
  \<^item> \<open>VpaRoutines\<close>, \<open>VpaRoutinesProps\<close>, \<open>VpaRuns\<close>: \<open>recommender/routines\<close>,
    \<open>recommender/checkpoint\<close> and \<open>recommender/main.go\<close>; the loop of the recommender from its start.
  \<^item> \<open>VpaApi\<close>, \<open>VpaCapping\<close>: the API objects and \<open>utils/vpa\<close>.
  \<^item> \<open>VpaPriority\<close>, \<open>VpaEviction\<close>, \<open>VpaUpdater\<close>: \<open>updater\<close>; priorities,
    the eviction budget of a controller, and one run.
  \<^item> \<open>VpaAdmission\<close>, \<open>VpaAdmissionProps\<close>: \<open>admission-controller/logic\<close>; the webhook, with JSON Patch
    as the specification of what its patches do.

  \<^bold>\<open>Addon resizer.\<close>  \<open>AddonResizer\<close>, \<open>AddonResizerProps\<close>: the nanny (\<open>nanny\<close>), with the scanning
  and printing of numbers its estimates go through; it settles on what it has written.


  \<^bold>\<open>Heapster.\<close>  \<open>heapster/metrics\<close>.
  \<^item> \<open>Heapster\<close>: batches of metrics, the label copier, the rate calculator and the aggregators from containers
    to pods, namespaces, nodes and the cluster (\<open>core\<close>, \<open>util\<close>, \<open>processors\<close>).
  \<^item> \<open>HeapsterRun\<close>: the enrichers, the order of all processors (\<open>heapster.go\<close>), one round of the
    manager and the metric sink with its two stores and its queries.
  \<^item> \<open>HeapsterTotals\<close>: no aggregation fails on integer metrics, and the totals of namespaces and of the cluster
    are the sums over the pods.  \<open>HeapsterProps\<close>: the rate of a counter, and the history a query returns.
  The sources, the other sinks, the HTTP API and the semaphore between two rounds are not modelled.
  \<^bold>\<open>Interfaces.\<close>  Each contract between components is a locale, interpreted on the definitions that provide it:
  \<open>go_map\<close> (Go maps), \<open>rounding\<close> (\<open>Float64\<close>), \<open>backoff_contract\<close>, \<open>sort_contract\<close>,
  \<open>score_sort\<close> and \<open>priority_sort\<close> (what \<open>sort.Slice\<close> and \<open>sort.Sort\<close> promise), \<open>node_comparator\<close>,
  \<open>strategy\<close> (expanders: the choice is one of the options), \<open>memo\<close> (the predicate cache), \<open>node_groups\<close>
  (the documented behaviour of a cloud provider's groups), \<open>aggregator\<close> (what a container needs of its
  aggregator, interpreted on an aggregation, on the proxy of the cluster, and on an orphaned aggregation).

  \<^bold>\<open>What the lemmas show.\<close>  For the cluster autoscaler: no scale-down follows a scale-up before its delay, the
  scale-down removes a node only after it was found unneeded all the time, one drain runs at a time, sizes and resources stay within
  their limits, a failed scale-up backs off, and the routines refine their specifications.  For the VPA: no panic in
  a run of the recommender and its observer whose notices record every termination, the invariants of histograms and of the cluster state, recommendations in order and
  within their policy, checkpoints that round-trip and make progress, evictions within budget, the most urgent
  first, and admitted pods that get the capped recommendation.

  \<^bold>\<open>Bounds and termination.\<close>  Loops are structural recursions or have a measure (the balancing loop, the loops
  over the buckets of a histogram).  The retry loops of \<open>NodeDeletion\<close> may not end: they are a
  \<open>partial_function (option)\<close>, and \<open>evictPod_ends\<close> and its companions prove that they end.  The recommender's endless
  loop is a fold over the list of its runs, each with the notices its observer gets before, the autoscaler's a step relation.  No fuel is used.

  \<^bold>\<open>Specifications.\<close>  Where a property compares the code with what it should do, that side is defined apart from
  it: \<open>policy_cap\<close> (at least the minimum and at most the maximum that the policy sets), \<open>group_budget\<close>
  (the pods a controller can lose), \<open>fits_limits\<close>, \<open>largest_weight\<close>, the sums over pods of
  \<open>HeapsterTotals\<close>, the classes of \<open>ClusterStateReadiness\<close>.  \<open>TryToScaleDown\<close> also returns a
  \<open>startedDeletion\<close>, which the code only has as goroutines: the nodes whose deletion it started, those whose
  deletion fails or is not reported included.

  \<^bold>\<open>Not modelled.\<close>
  \<^item> Logs, events, metrics and command-line flags; locks (a method is one atomic step) and the scheduling of
    goroutines, except that a drain ends in a step of its own.
  \<^item> The two signed zeros of a \<open>float64\<close> are one value, and resource quantities are rational numbers.
  \<^item> An interface that holds a nil pointer is a nil interface, unless a finding says otherwise; a panic
    inside a scheduler predicate counts as a predicate that does not pass while a drain is simulated.
  \<^item> The sizes of a node group and the thousandths of a quantity are unbounded integers.
  \<^item> Where several loops range over one Go map that did not change in between, they do so in one order, except that
    the cap of a scale-up visits the resources in an order of its own (\<open>su_visit_delta\<close>).
  \<^item> The capacity of the channel of out-of-memory events (a full channel blocks the observer), constructors of clients, informers and watches, and the
    images of containers.
  \<^item> Cloud providers other than the test provider, and the other programs of the repository as the manifest lists
    them: they are mostly translations between an API and a library that is not in the repository.
\<close>

end
